(* ===== verification/Prelude.thy ===== *)
theory Prelude
  imports Main "HOL-Library.Word"
begin

text \<open>
  Shared vocabulary of the development.

  \<^item> Bytes are \<^typ>\<open>char\<close>, a C++ \<open>char\<close> is read as unsigned through \<open>byte\<close>; a
    \<open>SharedString\<close>, a \<open>std::string_view\<close> and a \<open>SharedStringBuilder\<close>'s content are
    \<^typ>\<open>string\<close>. Reference counting and slicing of \<open>SharedString\<close> only avoid copies: a share is
    the same sequence of bytes, so strings are values here.
  \<^item> The searching members of \<open>std::string_view\<close> that the sources call
    (\<open>find_first_of\<close>, \<open>find_first_not_of\<close>, \<open>find_last_of\<close>, \<open>find\<close>), with \<open>npos\<close> as \<^const>\<open>None\<close>.
  \<^item> \<open>std::map\<close> and \<open>std::unordered_map\<close> keyed by strings as association lists with distinct
    keys, because the order of iteration is visible in the packets the code builds.
  \<^item> The collections \<open>flag_simps\<close>, \<open>al_simps\<close> and \<open>byte_simps\<close> that carry the component proofs.
\<close>

named_theorems byte_simps \<open>facts about bytes and their numeric values\<close>
named_theorems al_simps \<open>lookup after update and delete on association lists\<close>
named_theorems flag_simps \<open>reading flag bits after they were set\<close>

unbundle bit_operations_syntax

type_synonym u8 = "8 word"
type_synonym u16 = "16 word"
type_synonym u32 = "32 word"
type_synonym u64 = "64 word"

section \<open>Bytes\<close>

definition byte :: "char \<Rightarrow> nat" where
  "byte c = of_char c"

lemma byte_less_256 [byte_simps, simp]: "byte c < 256"
  by (simp add: byte_def)

lemma byte_eq_iff [byte_simps]: "byte c = byte d \<longleftrightarrow> c = d"
  by (simp add: byte_def)

lemma byte_char_of [byte_simps]: "n < 256 \<Longrightarrow> byte (char_of n) = n"
  by (simp add: byte_def)

lemma char_of_byte [byte_simps, simp]: "char_of (byte c) = c"
  by (simp add: byte_def)

definition u8_of_char :: "char \<Rightarrow> u8" where
  "u8_of_char c = of_nat (byte c)"

definition char_of_u8 :: "u8 \<Rightarrow> char" where
  "char_of_u8 w = char_of (unat w)"

lemma unat_u8_of_char [byte_simps]: "unat (u8_of_char c) = byte c"
  by (simp add: u8_of_char_def unat_of_nat)

lemma char_of_u8_of_char [byte_simps, simp]: "char_of_u8 (u8_of_char c) = c"
  by (simp add: char_of_u8_def unat_u8_of_char)

lemma u8_of_char_of_u8 [byte_simps, simp]: "u8_of_char (char_of_u8 w) = w"
proof -
  have "unat w < 2 ^ LENGTH(8)" by (rule unsigned_less)
  then have "unat w < 256" by simp
  then show ?thesis by (simp add: u8_of_char_def char_of_u8_def byte_char_of)
qed

text \<open>A statement about every byte is a statement about 256 numbers.\<close>

lemma all_bytes:
  assumes "list_all (\<lambda>n. P (char_of n)) [0..<256]"
  shows "P c"
proof -
  have "byte c \<in> set [0..<256]" by simp
  with assms have "P (char_of (byte c))" unfolding list_all_iff by blast
  then show ?thesis by simp
qed

lemma length_le_sum_list: "(\<And>x. x \<in> set xs \<Longrightarrow> 1 \<le> f x) \<Longrightarrow> length xs \<le> sum_list (map f xs)"
proof (induction xs)
  case (Cons x xs)
  have "1 \<le> f x" and "length xs \<le> sum_list (map f xs)" using Cons by auto
  then show ?case by simp
qed simp

section \<open>The parts of \<open>std::string_view\<close> the sources use\<close>

text \<open>\<open>find_first_of(set, pos)\<close>: the least index from \<open>pos\<close> on whose byte satisfies the test.\<close>

fun find_from :: "(char \<Rightarrow> bool) \<Rightarrow> string \<Rightarrow> nat \<Rightarrow> nat option" where
  "find_from P [] i = None"
| "find_from P (c # cs) i = (if P c then Some i else find_from P cs (Suc i))"

definition find_first_of :: "string \<Rightarrow> string \<Rightarrow> nat \<Rightarrow> nat option" where
  "find_first_of str cs pos = find_from (\<lambda>c. c \<in> set cs) (drop pos str) pos"

definition find_first_not_of :: "string \<Rightarrow> string \<Rightarrow> nat \<Rightarrow> nat option" where
  "find_first_not_of str cs pos = find_from (\<lambda>c. c \<notin> set cs) (drop pos str) pos"

definition find_last_of :: "string \<Rightarrow> char \<Rightarrow> nat option" where
  "find_last_of str c =
     (case find_from (\<lambda>d. d = c) (rev str) 0 of None \<Rightarrow> None | Some i \<Rightarrow> Some (length str - 1 - i))"

text \<open>\<open>find(sub)\<close>: the least index where \<open>sub\<close> occurs.\<close>

fun find_sub :: "string \<Rightarrow> string \<Rightarrow> nat \<Rightarrow> nat option" where
  "find_sub sub str i =
     (if take (length sub) str = sub then Some i
      else case str of [] \<Rightarrow> None | _ # cs \<Rightarrow> find_sub sub cs (Suc i))"

lemma find_from_None: "find_from P s i = None \<longleftrightarrow> (\<forall>c \<in> set s. \<not> P c)"
  by (induction s arbitrary: i) auto

lemma find_from_Some:
  "find_from P s i = Some j \<Longrightarrow>
     i \<le> j \<and> j - i < length s \<and> P (s ! (j - i)) \<and> (\<forall>k < j - i. \<not> P (s ! k))"
proof (induction s arbitrary: i)
  case Nil
  then show ?case by simp
next
  case (Cons c cs)
  show ?case
  proof (cases "P c")
    case True
    with Cons.prems show ?thesis by simp
  next
    case False
    with Cons.prems have *: "find_from P cs (Suc i) = Some j" by simp
    from Cons.IH [OF this] obtain d where d: "j = Suc i + d" "d < length cs" "P (cs ! d)"
      "\<forall>k < d. \<not> P (cs ! k)"
      by (metis le_Suc_ex add_diff_cancel_left')
    have "\<not> P ((c # cs) ! k)" if "k < Suc d" for k
      using that d(4) False by (cases k) auto
    with d show ?thesis by (auto simp: Suc_diff_le)
  qed
qed

lemma find_from_skip: "\<forall>c \<in> set xs. \<not> P c \<Longrightarrow> find_from P (xs @ ys) i = find_from P ys (i + length xs)"
  by (induction xs arbitrary: i) auto

lemma find_from_takeWhile:
  "find_from P s i = (if length (takeWhile (\<lambda>c. \<not> P c) s) < length s
                      then Some (i + length (takeWhile (\<lambda>c. \<not> P c) s)) else None)"
  by (induction s arbitrary: i) auto

text \<open>An index search that falls back to the end of the string, as \<open>npos\<close> is read by the callers.\<close>

lemma find_from_default:
  assumes "i \<le> length s"
  shows "(case find_from P (drop i s) i of None \<Rightarrow> length s | Some j \<Rightarrow> j)
         = i + length (takeWhile (\<lambda>c. \<not> P c) (drop i s))"
proof -
  have "length (takeWhile (\<lambda>c. \<not> P c) (drop i s)) \<le> length (drop i s)"
    by (rule length_takeWhile_le)
  with assms show ?thesis by (auto simp: find_from_takeWhile)
qed

section \<open>Maps keyed by strings\<close>

text \<open>
  \<open>al_get\<close> is \<open>find\<close>, \<open>al_set\<close> is \<open>insert_or_assign\<close> (a present key keeps its place, an absent one is
  added), \<open>al_emplace\<close> is \<open>emplace\<close> (a present key keeps its old value), \<open>al_erase\<close> is \<open>erase\<close>.
\<close>

type_synonym ('k, 'v) al = "('k \<times> 'v) list"

fun al_get :: "('k, 'v) al \<Rightarrow> 'k \<Rightarrow> 'v option" where
  "al_get [] k = None"
| "al_get ((k', v) # m) k = (if k = k' then Some v else al_get m k)"

fun al_set :: "('k, 'v) al \<Rightarrow> 'k \<Rightarrow> 'v \<Rightarrow> ('k, 'v) al" where
  "al_set [] k v = [(k, v)]"
| "al_set ((k', v') # m) k v = (if k = k' then (k', v) # m else (k', v') # al_set m k v)"

definition al_emplace :: "('k, 'v) al \<Rightarrow> 'k \<Rightarrow> 'v \<Rightarrow> ('k, 'v) al" where
  "al_emplace m k v = (case al_get m k of None \<Rightarrow> m @ [(k, v)] | Some _ \<Rightarrow> m)"

definition al_erase :: "('k, 'v) al \<Rightarrow> 'k \<Rightarrow> ('k, 'v) al" where
  "al_erase m k = filter (\<lambda>(k', _). k' \<noteq> k) m"

definition al_inv :: "('k, 'v) al \<Rightarrow> bool" where
  "al_inv m \<longleftrightarrow> distinct (map fst m)"

lemma al_get_set [al_simps, simp]: "al_get (al_set m k v) k' = (if k' = k then Some v else al_get m k')"
  by (induction m) auto

lemma al_get_append [al_simps]:
  "al_get (m @ m') k = (case al_get m k of None \<Rightarrow> al_get m' k | Some v \<Rightarrow> Some v)"
  by (induction m) auto

lemma al_get_emplace [al_simps, simp]:
  "al_get (al_emplace m k v) k' =
     (if k' = k \<and> al_get m k = None then Some v else al_get m k')"
  by (auto simp: al_emplace_def al_get_append split: option.splits)

lemma al_get_erase [al_simps, simp]: "al_get (al_erase m k) k' = (if k' = k then None else al_get m k')"
  by (induction m) (auto simp: al_erase_def)

lemma al_get_None_iff [al_simps]: "al_get m k = None \<longleftrightarrow> k \<notin> fst ` set m"
  by (induction m k rule: al_get.induct) auto

lemma fst_al_set [al_simps]: "fst ` set (al_set m k v) = insert k (fst ` set m)"
  by (induction m k v rule: al_set.induct) auto

lemma al_inv_Nil [simp]: "al_inv []"
  by (simp add: al_inv_def)

lemma al_inv_set [simp]: "al_inv m \<Longrightarrow> al_inv (al_set m k v)"
  by (induction m k v rule: al_set.induct) (auto simp: al_inv_def fst_al_set)

lemma al_inv_emplace [simp]: "al_inv m \<Longrightarrow> al_inv (al_emplace m k v)"
  by (auto simp: al_inv_def al_emplace_def al_get_None_iff split: option.splits)

lemma al_inv_erase [simp]: "al_inv m \<Longrightarrow> al_inv (al_erase m k)"
  by (induction m) (auto simp: al_inv_def al_erase_def)

lemma al_get_in_set: "al_get m k = Some v \<Longrightarrow> (k, v) \<in> set m"
  by (induction m) (auto split: if_splits)

lemma al_get_of_set: "al_inv m \<Longrightarrow> (k, v) \<in> set m \<Longrightarrow> al_get m k = Some v"
  by (induction m) (force simp: al_inv_def)+

section \<open>Flag bits\<close>

definition has_flag :: "u32 \<Rightarrow> u32 \<Rightarrow> bool" where
  "has_flag w f \<longleftrightarrow> w AND f \<noteq> 0"

lemma has_flag_0 [flag_simps, simp]: "\<not> has_flag 0 f"
  by (simp add: has_flag_def)

lemma has_flag_or [flag_simps]: "has_flag (w OR v) f \<longleftrightarrow> has_flag w f \<or> has_flag v f"
proof -
  have "(w OR v) AND f = (w AND f) OR (v AND f)" by (rule bit.conj_disj_distrib2)
  then show ?thesis by (simp add: has_flag_def or_eq_0_iff)
qed

end
