(* ===== verification/StringUtils.thy ===== *)
theory StringUtils
  imports Prelude
begin

text \<open>
  \<open>include/CPVFramework/Utility/StringUtils.hpp\<close>, \<open>src/Utility/StringUtils.cpp\<close> and the path check
  of \<open>src/Utility/FileUtils.cpp\<close>: prefix and suffix tests, splitting, trimming, conversion of
  integers to and from hexadecimal and decimal text, case-insensitive comparison.

  Integers keep their width: the conversions are defined on \<^typ>\<open>'a word\<close>, the shifts, sums and
  products wrap as in C++. A conversion that returns \<open>false\<close> is \<^const>\<open>None\<close>.
\<close>

section \<open>Prefixes, suffixes, splitting, trimming\<close>

definition startsWith :: "string \<Rightarrow> string \<Rightarrow> bool" where
  "startsWith str pattern \<longleftrightarrow> length str \<ge> length pattern \<and> take (length pattern) str = pattern"

definition endsWith :: "string \<Rightarrow> string \<Rightarrow> bool" where
  "endsWith str pattern \<longleftrightarrow>
     length str \<ge> length pattern \<and> drop (length str - length pattern) str = pattern"

definition split_end :: "string \<Rightarrow> string \<Rightarrow> nat \<Rightarrow> nat" where
  "split_end str delimiter startIndex =
     (case find_first_of str delimiter startIndex of None \<Rightarrow> length str | Some index \<Rightarrow> index)"

definition split_next :: "string \<Rightarrow> string \<Rightarrow> nat \<Rightarrow> nat" where
  "split_next str delimiter endIndex =
     (case find_first_not_of str delimiter endIndex of None \<Rightarrow> length str | Some index \<Rightarrow> index)"

lemma split_end_eq:
  "i \<le> length s \<Longrightarrow> split_end s d i = i + length (takeWhile (\<lambda>c. c \<notin> set d) (drop i s))"
  by (simp add: split_end_def find_first_of_def find_from_default)

lemma split_next_eq:
  "i \<le> length s \<Longrightarrow> split_next s d i = i + length (takeWhile (\<lambda>c. c \<in> set d) (drop i s))"
  by (simp add: split_next_def find_first_not_of_def find_from_default)

lemma split_end_le: "i \<le> length s \<Longrightarrow> split_end s d i \<le> length s"
  using length_takeWhile_le [of "\<lambda>c. c \<notin> set d" "drop i s"] by (simp add: split_end_eq)

lemma split_progress:
  assumes "i < length s"
  shows "i < split_next s d (split_end s d i)"
proof (cases "s ! i \<in> set d")
  case True
  have e: "split_end s d i = i"
    using assms True by (simp add: split_end_eq Cons_nth_drop_Suc [symmetric])
  have "takeWhile (\<lambda>c. c \<in> set d) (drop i s) \<noteq> []"
    using assms True by (simp add: Cons_nth_drop_Suc [symmetric])
  then show ?thesis using assms e by (simp add: split_next_eq)
next
  case False
  have "takeWhile (\<lambda>c. c \<notin> set d) (drop i s) \<noteq> []"
    using assms False by (simp add: Cons_nth_drop_Suc [symmetric])
  then have "i < split_end s d i" using assms by (simp add: split_end_eq)
  then show ?thesis using assms split_end_le [of i s d] by (simp add: split_next_eq)
qed

text \<open>The parts handed to the callback of \<open>splitString\<close>, in order; the count is the position.\<close>

function splitString_from :: "string \<Rightarrow> string \<Rightarrow> nat \<Rightarrow> string list" where
  "splitString_from str delimiter startIndex =
     (if startIndex < length str then
        let endIndex = split_end str delimiter startIndex
        in take (endIndex - startIndex) (drop startIndex str)
           # splitString_from str delimiter (split_next str delimiter endIndex)
      else [])"
  by pat_completeness auto
termination
proof (relation "measure (\<lambda>(str, delimiter, startIndex). length str - startIndex)")
  fix str delimiter :: string and startIndex x :: nat
  assume "startIndex < length str" and "x = split_end str delimiter startIndex"
  then show "((str, delimiter, split_next str delimiter x), str, delimiter, startIndex)
        \<in> measure (\<lambda>(str, delimiter, startIndex). length str - startIndex)"
    using split_progress [of startIndex str delimiter] by simp
qed simp

declare splitString_from.simps [simp del]

definition splitString :: "string \<Rightarrow> string \<Rightarrow> string list" where
  "splitString str delimiter = splitString_from str delimiter 0"

definition trimString :: "string \<Rightarrow> string \<Rightarrow> string" where
  "trimString str removes =
     (let s = dropWhile (\<lambda>c. c \<in> set removes) str
      in rev (dropWhile (\<lambda>c. c \<in> set removes) (rev s)))"

definition blanks :: string where
  "blanks = [CHR '' '', CHR 0x09, CHR 0x0D, CHR 0x0A]"

section \<open>Integers as text\<close>

definition hex_digits :: string where
  "hex_digits = ''0123456789ABCDEF''"

definition dec_digits :: string where
  "dec_digits = ''0123456789''"

text \<open>\<open>sizeof(IntType) * 2\<close> digits, the most significant first.\<close>

definition dumpIntToHex :: "'a::len word \<Rightarrow> string" where
  "dumpIntToHex value =
     (let hexLen = LENGTH('a) div 8 * 2
      in map (\<lambda>i. hex_digits ! unat (drop_bit ((hexLen - 1 - i) * 4) value AND 0xf)) [0..<hexLen])"

text \<open>The value of one hexadecimal digit, through the \<open>std::uint8_t\<close> differences of the source.\<close>

definition hex_digit_value :: "char \<Rightarrow> u8 option" where
  "hex_digit_value ch =
     (let c = u8_of_char ch in
      if c = 0 then None
      else if c - 48 \<le> 9 then Some (c - 48)
      else if c - 97 \<le> 5 then Some (c - 97 + 0xa)
      else if c - 65 \<le> 5 then Some (c - 65 + 0xa)
      else None)"

fun loadIntFromHex_loop :: "'a::len word \<Rightarrow> string \<Rightarrow> 'a word option" where
  "loadIntFromHex_loop uvalue [] = Some uvalue"
| "loadIntFromHex_loop uvalue (ch # hex) =
     (case hex_digit_value ch of
        None \<Rightarrow> None
      | Some diff \<Rightarrow> loadIntFromHex_loop (push_bit 4 uvalue OR ucast diff) hex)"

definition loadIntFromHex :: "string \<Rightarrow> 'a::len word option" where
  "loadIntFromHex hex = loadIntFromHex_loop 0 hex"

text \<open>Unsigned \<open>dumpIntToDec\<close>: digits from the least significant one, then reversed.\<close>

fun dec_digits_rev :: "nat \<Rightarrow> string" where
  "dec_digits_rev value =
     (dec_digits ! (value mod 10)) # (if value div 10 \<noteq> 0 then dec_digits_rev (value div 10) else [])"

declare dec_digits_rev.simps [simp del]

definition dumpIntToDec :: "'a::len word \<Rightarrow> string" where
  "dumpIntToDec value = rev (dec_digits_rev (unat value))"

fun loadIntFromDec_loop :: "'a::len word \<Rightarrow> string \<Rightarrow> 'a word option" where
  "loadIntFromDec_loop value [] = Some value"
| "loadIntFromDec_loop value (ch # dec) =
     (let diff = u8_of_char ch - 48 in
      if diff \<le> 9 then loadIntFromDec_loop (value * 10 + ucast diff) dec else None)"

text \<open>Unsigned \<open>loadIntFromDec\<close>: a leading minus is consumed, and refused at the end.\<close>

definition loadIntFromDec :: "string \<Rightarrow> 'a::len word option" where
  "loadIntFromDec dec =
     (if dec \<noteq> [] \<and> hd dec = CHR ''-'' then None else loadIntFromDec_loop 0 dec)"

definition tolower :: "char \<Rightarrow> char" where
  "tolower c = (if 65 \<le> byte c \<and> byte c \<le> 90 then char_of (byte c + 32) else c)"

definition caseInsensitiveEquals :: "string \<Rightarrow> string \<Rightarrow> bool" where
  "caseInsensitiveEquals a b \<longleftrightarrow>
     length a = length b \<and> list_all (\<lambda>(x, y). tolower x = tolower y) (zip a b)"

text \<open>\<open>isSafePath\<close>: one pass that remembers the previous character.\<close>

fun isSafePath_loop :: "char \<Rightarrow> string \<Rightarrow> bool" where
  "isSafePath_loop lastChar [] = True"
| "isSafePath_loop lastChar (c # cs) =
     (if c = CHR 0x0D \<or> c = CHR 0x0A \<or> c = CHR 0x00 \<or>
         (c = CHR ''.'' \<and> lastChar = CHR ''.'') \<or>
         (c = CHR ''/'' \<and> lastChar = CHR ''/'') \<or>
         (c = CHR 0x5C \<and> lastChar = CHR 0x5C)
      then False else isSafePath_loop c cs)"

definition isSafePath :: "string \<Rightarrow> bool" where
  "isSafePath filename = isSafePath_loop (CHR 0x00) filename"

section \<open>Splitting and trimming\<close>

lemma drop_split_next:
  assumes "i \<le> length s"
  shows "drop (split_next s d (split_end s d i)) s =
    dropWhile (\<lambda>c. c \<in> set d) (dropWhile (\<lambda>c. c \<notin> set d) (drop i s))"
proof -
  have 1: "drop (split_end s d i) s = dropWhile (\<lambda>c. c \<notin> set d) (drop i s)"
    using assms by (simp add: split_end_eq dropWhile_eq_drop add.commute)
  have 2: "split_next s d (split_end s d i) =
      length (takeWhile (\<lambda>c. c \<in> set d) (drop (split_end s d i) s)) + split_end s d i"
    by (simp add: split_next_eq split_end_le [OF assms])
  show ?thesis
    unfolding 2 drop_drop [symmetric] 1 [symmetric] by (rule dropWhile_eq_drop [symmetric])
qed

lemma take_split_end:
  "i \<le> length s \<Longrightarrow>
   take (split_end s d i - i) (drop i s) = takeWhile (\<lambda>c. c \<notin> set d) (drop i s)"
  by (simp add: split_end_eq takeWhile_eq_take [symmetric])

lemma filter_dropWhile: "filter P (dropWhile (\<lambda>x. \<not> P x) xs) = filter P xs"
  by (induction xs) auto

lemma filter_split_at: "takeWhile P xs @ filter P (dropWhile P xs) = filter P xs"
  by (induction xs) auto

lemma concat_splitString_from:
  "i \<le> length s \<Longrightarrow> concat (splitString_from s d i) = filter (\<lambda>c. c \<notin> set d) (drop i s)"
proof (induction s d i rule: splitString_from.induct)
  case (1 s d i)
  show ?case
  proof (cases "i < length s")
    case False
    with "1.prems" show ?thesis by (simp add: splitString_from.simps)
  next
    case True
    let ?n = "split_next s d (split_end s d i)"
    have n: "?n \<le> length s"
      using split_end_le [of i s d] length_takeWhile_le [of "\<lambda>c. c \<in> set d" "drop (split_end s d i) s"]
        True by (simp add: split_next_eq)
    have "concat (splitString_from s d i)
        = takeWhile (\<lambda>c. c \<notin> set d) (drop i s) @ concat (splitString_from s d ?n)"
      using True by (simp add: splitString_from.simps [of s d i] Let_def take_split_end)
    also have "concat (splitString_from s d ?n) = filter (\<lambda>c. c \<notin> set d) (drop ?n s)"
      using "1.IH" True n by simp
    also have "\<dots> = filter (\<lambda>c. c \<notin> set d) (dropWhile (\<lambda>c. c \<notin> set d) (drop i s))"
      using True filter_dropWhile [of "\<lambda>c. c \<notin> set d"] by (simp add: drop_split_next)
    finally show ?thesis by (simp add: filter_split_at)
  qed
qed

lemma splitString_from_parts:
  "i \<le> length s \<Longrightarrow> p \<in> set (splitString_from s d i) \<Longrightarrow> set p \<inter> set d = {}"
proof (induction s d i rule: splitString_from.induct)
  case (1 s d i)
  show ?case
  proof (cases "i < length s")
    case False
    with "1.prems" show ?thesis by (simp add: splitString_from.simps)
  next
    case True
    let ?n = "split_next s d (split_end s d i)"
    have n: "?n \<le> length s"
      using split_end_le [of i s d] length_takeWhile_le [of "\<lambda>c. c \<in> set d" "drop (split_end s d i) s"]
        True by (simp add: split_next_eq)
    from "1.prems" True consider "p = takeWhile (\<lambda>c. c \<notin> set d) (drop i s)"
      | "p \<in> set (splitString_from s d ?n)"
      by (auto simp: splitString_from.simps [of s d i] Let_def take_split_end)
    then show ?thesis
    proof cases
      case 1
      then show ?thesis by (auto dest: set_takeWhileD)
    next
      case 2
      with "1.IH" True n show ?thesis by simp
    qed
  qed
qed

lemma dropWhile_rev_last:
  "dropWhile P (rev xs) \<noteq> [] \<Longrightarrow> \<not> P (last (rev (dropWhile P (rev xs))))"
  by (simp add: last_rev hd_dropWhile)

section \<open>Hexadecimal and decimal text\<close>

lemma hex_digit_value_digit:
  assumes "k < 16"
  shows "hex_digit_value (hex_digits ! k) = Some (of_nat k)"
proof -
  have "list_all (\<lambda>k. hex_digit_value (hex_digits ! k) = Some (of_nat k)) [0..<16]"
    by code_simp
  with assms show ?thesis by (simp add: list_all_iff)
qed

lemma nibble_lt: "unat (x AND 0xf :: 'a::len word) < 16"
proof -
  have "x AND 0xf = take_bit 4 x" by (simp add: take_bit_eq_mask mask_eq_exp_minus_1)
  then have "unat (x AND 0xf) = take_bit 4 (unat x)" by (simp add: unsigned_take_bit_eq)
  also have "\<dots> < 2 ^ 4" by (rule take_bit_nat_less_exp)
  finally show ?thesis by simp
qed

lemma ucast_nibble: "k < 16 \<Longrightarrow> ucast (of_nat k :: u8) = (of_nat k :: 'a::len word)"
  by (rule word_unat_eq_iff [THEN iffD2])
     (simp add: unsigned_ucast_eq unat_of_nat take_bit_eq_mod mod_less)

lemma nibble_step:
  fixes v :: "'a::len word"
  shows "push_bit 4 (drop_bit (m + 4) v) OR (drop_bit m v AND 0xf) = drop_bit m v"
proof (rule bit_word_eqI)
  fix n assume n: "n < LENGTH('a)"
  have mask: "(0xf :: 'a word) = mask 4" by (simp add: mask_eq_exp_minus_1)
  show "bit (push_bit 4 (drop_bit (m + 4) v) OR (drop_bit m v AND 0xf)) n = bit (drop_bit m v) n"
    using n by (auto simp: bit_simps mask algebra_simps)
qed

lemma loadIntFromHex_loop_dump:
  fixes v :: "'a::len word"
  assumes "i \<le> n"
  shows "loadIntFromHex_loop (drop_bit ((n - i) * 4) v)
     (map (\<lambda>i. hex_digits ! unat (drop_bit ((n - 1 - i) * 4) v AND 0xf)) [i..<n]) = Some v"
  using assms
proof (induction "n - i" arbitrary: i)
  case 0
  then show ?case by simp
next
  case (Suc m)
  then have i: "i < n" and m: "n - Suc i = m" by auto
  let ?f = "\<lambda>i. hex_digits ! unat (drop_bit ((n - 1 - i) * 4) v AND 0xf)"
  have idx: "(n - i) * 4 = m * 4 + 4" and idx': "n - 1 - i = m" using Suc.hyps(2) by auto
  have dig: "hex_digit_value (?f i) = Some (of_nat (unat (drop_bit (m * 4) v AND 0xf)))"
    unfolding idx' by (rule hex_digit_value_digit) (rule nibble_lt)
  have "push_bit 4 (drop_bit (m * 4 + 4) v) OR ucast (of_nat (unat (drop_bit (m * 4) v AND 0xf)) :: u8)
      = drop_bit (m * 4) v"
    unfolding ucast_nibble [OF nibble_lt]
    unfolding of_nat_unat ucast_id by (rule nibble_step)
  moreover have "loadIntFromHex_loop (drop_bit (m * 4) v) (map ?f [Suc i..<n]) = Some v"
    using Suc.hyps(1) [of "Suc i"] m i by simp
  ultimately show ?case
    unfolding idx upt_conv_Cons [OF i] list.map loadIntFromHex_loop.simps dig option.case by metis
qed

lemma loadIntFromHex_dumpIntToHex:
  fixes v :: "'a::len word"
  assumes "8 dvd LENGTH('a)"
  shows "loadIntFromHex (dumpIntToHex v) = Some v"
proof -
  let ?n = "LENGTH('a) div 8 * 2"
  have "?n * 4 = LENGTH('a)" using assms by (auto elim: dvdE)
  then have "drop_bit (?n * 4) v = 0" by (simp add: drop_bit_word_beyond)
  then show ?thesis
    using loadIntFromHex_loop_dump [of 0 ?n v]
    by (simp add: loadIntFromHex_def dumpIntToHex_def Let_def)
qed

lemma length_dumpIntToHex: "length (dumpIntToHex (v :: 'a::len word)) = LENGTH('a) div 8 * 2"
  by (simp add: dumpIntToHex_def Let_def)

lemma dec_digit_diff:
  assumes "k < 10"
  shows "u8_of_char (dec_digits ! k) - 48 = of_nat k" and "dec_digits ! k \<noteq> CHR ''-''"
proof -
  have "list_all (\<lambda>k. u8_of_char (dec_digits ! k) - 48 = of_nat k \<and> dec_digits ! k \<noteq> CHR ''-'') [0..<10]"
    by code_simp
  with assms show "u8_of_char (dec_digits ! k) - 48 = of_nat k" and "dec_digits ! k \<noteq> CHR ''-''"
    by (simp_all add: list_all_iff)
qed

lemma loadIntFromDec_loop_append:
  "loadIntFromDec_loop v (xs @ ys) =
     (case loadIntFromDec_loop v xs of None \<Rightarrow> None | Some v' \<Rightarrow> loadIntFromDec_loop v' ys)"
  by (induction v xs rule: loadIntFromDec_loop.induct) (auto simp: Let_def)

lemma loadIntFromDec_loop_digit:
  assumes "k < 10"
  shows "loadIntFromDec_loop v [dec_digits ! k] = Some (v * 10 + of_nat k)"
proof -
  have "(of_nat k :: u8) \<le> 9" using assms by (simp add: word_le_nat_alt unat_of_nat)
  then show ?thesis
    using assms by (simp add: dec_digit_diff Let_def ucast_nibble)
qed

lemma loadIntFromDec_loop_dump: "loadIntFromDec_loop 0 (rev (dec_digits_rev n)) = Some (of_nat n)"
proof (induction n rule: dec_digits_rev.induct)
  case (1 n)
  have "n = n div 10 * 10 + n mod 10" by simp
  then have "of_nat n = (of_nat (n div 10 * 10 + n mod 10) :: 'a word)" by (rule arg_cong)
  then have "of_nat n = (of_nat (n div 10) * 10 + of_nat (n mod 10) :: 'a word)"
    by (simp only: of_nat_add of_nat_mult of_nat_numeral)
  then have step: "loadIntFromDec_loop (of_nat (n div 10)) [dec_digits ! (n mod 10)] = Some (of_nat n :: 'a word)"
    by (subst loadIntFromDec_loop_digit) simp_all
  show ?case
  proof (cases "n div 10 = 0")
    case True
    then have "dec_digits_rev n = [dec_digits ! (n mod 10)]" by (subst dec_digits_rev.simps) simp
    with step True show ?thesis by (simp del: loadIntFromDec_loop.simps)
  next
    case False
    then have "dec_digits_rev n = dec_digits ! (n mod 10) # dec_digits_rev (n div 10)"
      by (subst dec_digits_rev.simps) simp
    with step "1.IH" [OF False] show ?thesis
      by (simp add: loadIntFromDec_loop_append del: loadIntFromDec_loop.simps)
  qed
qed

lemma dec_digits_rev_set: "c \<in> set (dec_digits_rev n) \<Longrightarrow> \<exists>k<10. c = dec_digits ! k"
proof (induction n rule: dec_digits_rev.induct)
  case (1 n)
  from "1.prems" have "c = dec_digits ! (n mod 10) \<or> (n div 10 \<noteq> 0 \<and> c \<in> set (dec_digits_rev (n div 10)))"
    by (subst (asm) dec_digits_rev.simps) (auto split: if_splits)
  then show ?case
  proof
    assume "c = dec_digits ! (n mod 10)"
    moreover have "n mod 10 < 10" by simp
    ultimately show ?case by blast
  qed (use "1.IH" in blast)
qed

lemma dec_digits_rev_nonempty: "dec_digits_rev n \<noteq> []"
  by (subst dec_digits_rev.simps) simp

lemma dumpIntToDec_hd: "hd (dumpIntToDec v) \<noteq> CHR ''-''"
proof -
  have "hd (rev (dec_digits_rev (unat v))) \<in> set (dec_digits_rev (unat v))"
    using dec_digits_rev_nonempty hd_in_set by (metis rev_is_Nil_conv set_rev)
  then show ?thesis
    using dec_digits_rev_set dec_digit_diff(2) by (fastforce simp: dumpIntToDec_def)
qed

lemma loadIntFromDec_dumpIntToDec: "loadIntFromDec (dumpIntToDec (v :: 'a::len word)) = Some v"
proof -
  have "loadIntFromDec_loop 0 (dumpIntToDec v) = Some v"
    unfolding dumpIntToDec_def loadIntFromDec_loop_dump of_nat_unat ucast_id ..
  then show ?thesis by (simp add: loadIntFromDec_def dumpIntToDec_hd)
qed

section \<open>Safe paths\<close>

lemma isSafePath_loop_iff:
  "isSafePath_loop l s \<longleftrightarrow>
     CHR 0x0D \<notin> set s \<and> CHR 0x0A \<notin> set s \<and> CHR 0x00 \<notin> set s \<and>
     (\<forall>i < length s. s ! i \<in> {CHR ''.'', CHR ''/'', CHR 0x5C} \<longrightarrow> (l # s) ! i \<noteq> s ! i)"
proof (induction s arbitrary: l)
  case Nil
  then show ?case by simp
next
  case (Cons c cs)
  have split: "(\<forall>i < length (c # cs). P i) \<longleftrightarrow> P 0 \<and> (\<forall>i < length cs. P (Suc i))" for P
    by (simp add: All_less_Suc2)
  show ?case by (subst split) (auto simp: Cons.IH)
qed

end
