(* ===== verification/EncodeMappings.thy ===== *)
theory EncodeMappings
  imports StringUtils
begin

text \<open>
  The 256-entry tables of \<open>HttpUtils.UrlEncodeMapping.hpp\<close>, \<open>HttpUtils.HtmlEncodeMapping.hpp\<close> and
  \<open>JsonSerializer.JsonEncodeMapping.hpp\<close>, each in two halves, indexed by the unsigned value of a byte.
  The entries are \<open>std::string_view\<close>s made from C string literals, so the literal \<open>"\x00"\<close> has length 0:
  entry 0 of the HTML table is the empty string.
\<close>

text \<open>Consecutive entries that are the character itself.\<close>

definition selves :: "string \<Rightarrow> string list" where
  "selves s = map (\<lambda>c. [c]) s"

definition UrlEncodeMapping_lo :: "string list" where
  "UrlEncodeMapping_lo = [
    ''%00'', ''%01'', ''%02'', ''%03'', ''%04'', ''%05'', ''%06'', ''%07'',
    ''%08'', ''%09'', ''%0A'', ''%0B'', ''%0C'', ''%0D'', ''%0E'', ''%0F'',
    ''%10'', ''%11'', ''%12'', ''%13'', ''%14'', ''%15'', ''%16'', ''%17'',
    ''%18'', ''%19'', ''%1A'', ''%1B'', ''%1C'', ''%1D'', ''%1E'', ''%1F'',
    ''%20'', ''%21'', ''%22'', ''%23'', ''%24'', ''%25'', ''%26'', ''%27'',
    ''%28'', ''%29'', ''%2A'', ''%2B'', ''%2C'', ''-'', ''.'', ''/''] @
    selves ''01234567'' @
    [
    ''8'', ''9'', ''%3A'', ''%3B'', ''%3C'', ''%3D'', ''%3E'', ''%3F'',
    ''%40'', ''A'', ''B'', ''C'', ''D'', ''E'', ''F'', ''G''] @
    selves ''HIJKLMNOPQRSTUVW'' @
    [
    ''X'', ''Y'', ''Z'', ''%5B'', ''%5C'', ''%5D'', ''%5E'', ''_'',
    ''%60'', ''a'', ''b'', ''c'', ''d'', ''e'', ''f'', ''g''] @
    selves ''hijklmnopqrstuvw'' @
    [
    ''x'', ''y'', ''z'', ''%7B'', ''%7C'', ''%7D'', ''~'', ''%7F'']"

definition UrlEncodeMapping_hi :: "string list" where
  "UrlEncodeMapping_hi = [
    ''%80'', ''%81'', ''%82'', ''%83'', ''%84'', ''%85'', ''%86'', ''%87'',
    ''%88'', ''%89'', ''%8A'', ''%8B'', ''%8C'', ''%8D'', ''%8E'', ''%8F'',
    ''%90'', ''%91'', ''%92'', ''%93'', ''%94'', ''%95'', ''%96'', ''%97'',
    ''%98'', ''%99'', ''%9A'', ''%9B'', ''%9C'', ''%9D'', ''%9E'', ''%9F'',
    ''%A0'', ''%A1'', ''%A2'', ''%A3'', ''%A4'', ''%A5'', ''%A6'', ''%A7'',
    ''%A8'', ''%A9'', ''%AA'', ''%AB'', ''%AC'', ''%AD'', ''%AE'', ''%AF'',
    ''%B0'', ''%B1'', ''%B2'', ''%B3'', ''%B4'', ''%B5'', ''%B6'', ''%B7'',
    ''%B8'', ''%B9'', ''%BA'', ''%BB'', ''%BC'', ''%BD'', ''%BE'', ''%BF'',
    ''%C0'', ''%C1'', ''%C2'', ''%C3'', ''%C4'', ''%C5'', ''%C6'', ''%C7'',
    ''%C8'', ''%C9'', ''%CA'', ''%CB'', ''%CC'', ''%CD'', ''%CE'', ''%CF'',
    ''%D0'', ''%D1'', ''%D2'', ''%D3'', ''%D4'', ''%D5'', ''%D6'', ''%D7'',
    ''%D8'', ''%D9'', ''%DA'', ''%DB'', ''%DC'', ''%DD'', ''%DE'', ''%DF'',
    ''%E0'', ''%E1'', ''%E2'', ''%E3'', ''%E4'', ''%E5'', ''%E6'', ''%E7'',
    ''%E8'', ''%E9'', ''%EA'', ''%EB'', ''%EC'', ''%ED'', ''%EE'', ''%EF'',
    ''%F0'', ''%F1'', ''%F2'', ''%F3'', ''%F4'', ''%F5'', ''%F6'', ''%F7'',
    ''%F8'', ''%F9'', ''%FA'', ''%FB'', ''%FC'', ''%FD'', ''%FE'', ''%FF'']"

definition HtmlEncodeMapping_lo :: "string list" where
  "HtmlEncodeMapping_lo = [
    [], [CHR 0x01], [CHR 0x02], [CHR 0x03], [CHR 0x04], [CHR 0x05], [CHR 0x06], [CHR 0x07],
    [CHR 0x08], [CHR 0x09], [CHR 0x0A], [CHR 0x0B], [CHR 0x0C], [CHR 0x0D], [CHR 0x0E], [CHR 0x0F],
    [CHR 0x10], [CHR 0x11], [CHR 0x12], [CHR 0x13], [CHR 0x14], [CHR 0x15], [CHR 0x16], [CHR 0x17],
    [CHR 0x18], [CHR 0x19], [CHR 0x1A], [CHR 0x1B], [CHR 0x1C], [CHR 0x1D], [CHR 0x1E], [CHR 0x1F],
    '' '', ''!'', ''&quot;'', ''#'', ''$'', ''%'', ''&amp;'', ''&#x27;''] @
    selves ''()*+,-./01234567'' @
    [
    ''8'', ''9'', '':'', '';'', ''&lt;'', ''='', ''&gt;'', ''?''] @
    selves ''@ABCDEFGHIJKLMNOPQRSTUVW'' @
    [
    ''X'', ''Y'', ''Z'', ''['', [CHR 0x5C], '']'', ''^'', ''_'',
    [CHR 0x60], ''a'', ''b'', ''c'', ''d'', ''e'', ''f'', ''g''] @
    selves ''hijklmnopqrstuvw'' @
    [
    ''x'', ''y'', ''z'', ''{'', ''|'', ''}'', ''~'', [CHR 0x7F]]"

definition HtmlEncodeMapping_hi :: "string list" where
  "HtmlEncodeMapping_hi = [
    [CHR 0x80], [CHR 0x81], [CHR 0x82], [CHR 0x83], [CHR 0x84], [CHR 0x85], [CHR 0x86], [CHR 0x87],
    [CHR 0x88], [CHR 0x89], [CHR 0x8A], [CHR 0x8B], [CHR 0x8C], [CHR 0x8D], [CHR 0x8E], [CHR 0x8F],
    [CHR 0x90], [CHR 0x91], [CHR 0x92], [CHR 0x93], [CHR 0x94], [CHR 0x95], [CHR 0x96], [CHR 0x97],
    [CHR 0x98], [CHR 0x99], [CHR 0x9A], [CHR 0x9B], [CHR 0x9C], [CHR 0x9D], [CHR 0x9E], [CHR 0x9F],
    [CHR 0xA0], [CHR 0xA1], [CHR 0xA2], [CHR 0xA3], [CHR 0xA4], [CHR 0xA5], [CHR 0xA6], [CHR 0xA7],
    [CHR 0xA8], [CHR 0xA9], [CHR 0xAA], [CHR 0xAB], [CHR 0xAC], [CHR 0xAD], [CHR 0xAE], [CHR 0xAF],
    [CHR 0xB0], [CHR 0xB1], [CHR 0xB2], [CHR 0xB3], [CHR 0xB4], [CHR 0xB5], [CHR 0xB6], [CHR 0xB7],
    [CHR 0xB8], [CHR 0xB9], [CHR 0xBA], [CHR 0xBB], [CHR 0xBC], [CHR 0xBD], [CHR 0xBE], [CHR 0xBF],
    [CHR 0xC0], [CHR 0xC1], [CHR 0xC2], [CHR 0xC3], [CHR 0xC4], [CHR 0xC5], [CHR 0xC6], [CHR 0xC7],
    [CHR 0xC8], [CHR 0xC9], [CHR 0xCA], [CHR 0xCB], [CHR 0xCC], [CHR 0xCD], [CHR 0xCE], [CHR 0xCF],
    [CHR 0xD0], [CHR 0xD1], [CHR 0xD2], [CHR 0xD3], [CHR 0xD4], [CHR 0xD5], [CHR 0xD6], [CHR 0xD7],
    [CHR 0xD8], [CHR 0xD9], [CHR 0xDA], [CHR 0xDB], [CHR 0xDC], [CHR 0xDD], [CHR 0xDE], [CHR 0xDF],
    [CHR 0xE0], [CHR 0xE1], [CHR 0xE2], [CHR 0xE3], [CHR 0xE4], [CHR 0xE5], [CHR 0xE6], [CHR 0xE7],
    [CHR 0xE8], [CHR 0xE9], [CHR 0xEA], [CHR 0xEB], [CHR 0xEC], [CHR 0xED], [CHR 0xEE], [CHR 0xEF],
    [CHR 0xF0], [CHR 0xF1], [CHR 0xF2], [CHR 0xF3], [CHR 0xF4], [CHR 0xF5], [CHR 0xF6], [CHR 0xF7],
    [CHR 0xF8], [CHR 0xF9], [CHR 0xFA], [CHR 0xFB], [CHR 0xFC], [CHR 0xFD], [CHR 0xFE], [CHR 0xFF]]"

definition JsonEncodeMapping_lo :: "string list" where
  "JsonEncodeMapping_lo = [
    [CHR 0x5C, CHR 0x75, CHR 0x30, CHR 0x30, CHR 0x30, CHR 0x30], [CHR 0x5C, CHR 0x75, CHR 0x30, CHR 0x30, CHR 0x30, CHR 0x31], [CHR 0x5C, CHR 0x75, CHR 0x30, CHR 0x30, CHR 0x30, CHR 0x32], [CHR 0x5C, CHR 0x75, CHR 0x30, CHR 0x30, CHR 0x30, CHR 0x33], [CHR 0x5C, CHR 0x75, CHR 0x30, CHR 0x30, CHR 0x30, CHR 0x34], [CHR 0x5C, CHR 0x75, CHR 0x30, CHR 0x30, CHR 0x30, CHR 0x35], [CHR 0x5C, CHR 0x75, CHR 0x30, CHR 0x30, CHR 0x30, CHR 0x36], [CHR 0x5C, CHR 0x75, CHR 0x30, CHR 0x30, CHR 0x30, CHR 0x37],
    [CHR 0x5C, CHR 0x62], [CHR 0x5C, CHR 0x74], [CHR 0x5C, CHR 0x6E], [CHR 0x5C, CHR 0x75, CHR 0x30, CHR 0x30, CHR 0x30, CHR 0x62], [CHR 0x5C, CHR 0x66], [CHR 0x5C, CHR 0x72], [CHR 0x5C, CHR 0x75, CHR 0x30, CHR 0x30, CHR 0x30, CHR 0x65], [CHR 0x5C, CHR 0x75, CHR 0x30, CHR 0x30, CHR 0x30, CHR 0x66],
    [CHR 0x5C, CHR 0x75, CHR 0x30, CHR 0x30, CHR 0x31, CHR 0x30], [CHR 0x5C, CHR 0x75, CHR 0x30, CHR 0x30, CHR 0x31, CHR 0x31], [CHR 0x5C, CHR 0x75, CHR 0x30, CHR 0x30, CHR 0x31, CHR 0x32], [CHR 0x5C, CHR 0x75, CHR 0x30, CHR 0x30, CHR 0x31, CHR 0x33], [CHR 0x5C, CHR 0x75, CHR 0x30, CHR 0x30, CHR 0x31, CHR 0x34], [CHR 0x5C, CHR 0x75, CHR 0x30, CHR 0x30, CHR 0x31, CHR 0x35], [CHR 0x5C, CHR 0x75, CHR 0x30, CHR 0x30, CHR 0x31, CHR 0x36], [CHR 0x5C, CHR 0x75, CHR 0x30, CHR 0x30, CHR 0x31, CHR 0x37],
    [CHR 0x5C, CHR 0x75, CHR 0x30, CHR 0x30, CHR 0x31, CHR 0x38], [CHR 0x5C, CHR 0x75, CHR 0x30, CHR 0x30, CHR 0x31, CHR 0x39], [CHR 0x5C, CHR 0x75, CHR 0x30, CHR 0x30, CHR 0x31, CHR 0x61], [CHR 0x5C, CHR 0x75, CHR 0x30, CHR 0x30, CHR 0x31, CHR 0x62], [CHR 0x5C, CHR 0x75, CHR 0x30, CHR 0x30, CHR 0x31, CHR 0x63], [CHR 0x5C, CHR 0x75, CHR 0x30, CHR 0x30, CHR 0x31, CHR 0x64], [CHR 0x5C, CHR 0x75, CHR 0x30, CHR 0x30, CHR 0x31, CHR 0x65], [CHR 0x5C, CHR 0x75, CHR 0x30, CHR 0x30, CHR 0x31, CHR 0x66],
    '' '', ''!'', [CHR 0x5C, CHR 0x22], ''#'', ''$'', ''%'', ''&'', [CHR 0x27]] @
    selves ''()*+,-./0123456789:;<=>?@ABCDEFGHIJKLMNOPQRSTUVW'' @
    [
    ''X'', ''Y'', ''Z'', ''['', [CHR 0x5C, CHR 0x5C], '']'', ''^'', ''_'',
    [CHR 0x60], ''a'', ''b'', ''c'', ''d'', ''e'', ''f'', ''g''] @
    selves ''hijklmnopqrstuvw'' @
    [
    ''x'', ''y'', ''z'', ''{'', ''|'', ''}'', ''~'', [CHR 0x7F]]"

definition JsonEncodeMapping_hi :: "string list" where
  "JsonEncodeMapping_hi = [
    [CHR 0x80], [CHR 0x81], [CHR 0x82], [CHR 0x83], [CHR 0x84], [CHR 0x85], [CHR 0x86], [CHR 0x87],
    [CHR 0x88], [CHR 0x89], [CHR 0x8A], [CHR 0x8B], [CHR 0x8C], [CHR 0x8D], [CHR 0x8E], [CHR 0x8F],
    [CHR 0x90], [CHR 0x91], [CHR 0x92], [CHR 0x93], [CHR 0x94], [CHR 0x95], [CHR 0x96], [CHR 0x97],
    [CHR 0x98], [CHR 0x99], [CHR 0x9A], [CHR 0x9B], [CHR 0x9C], [CHR 0x9D], [CHR 0x9E], [CHR 0x9F],
    [CHR 0xA0], [CHR 0xA1], [CHR 0xA2], [CHR 0xA3], [CHR 0xA4], [CHR 0xA5], [CHR 0xA6], [CHR 0xA7],
    [CHR 0xA8], [CHR 0xA9], [CHR 0xAA], [CHR 0xAB], [CHR 0xAC], [CHR 0xAD], [CHR 0xAE], [CHR 0xAF],
    [CHR 0xB0], [CHR 0xB1], [CHR 0xB2], [CHR 0xB3], [CHR 0xB4], [CHR 0xB5], [CHR 0xB6], [CHR 0xB7],
    [CHR 0xB8], [CHR 0xB9], [CHR 0xBA], [CHR 0xBB], [CHR 0xBC], [CHR 0xBD], [CHR 0xBE], [CHR 0xBF],
    [CHR 0xC0], [CHR 0xC1], [CHR 0xC2], [CHR 0xC3], [CHR 0xC4], [CHR 0xC5], [CHR 0xC6], [CHR 0xC7],
    [CHR 0xC8], [CHR 0xC9], [CHR 0xCA], [CHR 0xCB], [CHR 0xCC], [CHR 0xCD], [CHR 0xCE], [CHR 0xCF],
    [CHR 0xD0], [CHR 0xD1], [CHR 0xD2], [CHR 0xD3], [CHR 0xD4], [CHR 0xD5], [CHR 0xD6], [CHR 0xD7],
    [CHR 0xD8], [CHR 0xD9], [CHR 0xDA], [CHR 0xDB], [CHR 0xDC], [CHR 0xDD], [CHR 0xDE], [CHR 0xDF],
    [CHR 0xE0], [CHR 0xE1], [CHR 0xE2], [CHR 0xE3], [CHR 0xE4], [CHR 0xE5], [CHR 0xE6], [CHR 0xE7],
    [CHR 0xE8], [CHR 0xE9], [CHR 0xEA], [CHR 0xEB], [CHR 0xEC], [CHR 0xED], [CHR 0xEE], [CHR 0xEF],
    [CHR 0xF0], [CHR 0xF1], [CHR 0xF2], [CHR 0xF3], [CHR 0xF4], [CHR 0xF5], [CHR 0xF6], [CHR 0xF7],
    [CHR 0xF8], [CHR 0xF9], [CHR 0xFA], [CHR 0xFB], [CHR 0xFC], [CHR 0xFD], [CHR 0xFE], [CHR 0xFF]]"

definition UrlEncodeMapping :: "char \<Rightarrow> string" where
  "UrlEncodeMapping c = (UrlEncodeMapping_lo @ UrlEncodeMapping_hi) ! byte c"

definition HtmlEncodeMapping :: "char \<Rightarrow> string" where
  "HtmlEncodeMapping c = (HtmlEncodeMapping_lo @ HtmlEncodeMapping_hi) ! byte c"

definition JsonEncodeMapping :: "char \<Rightarrow> string" where
  "JsonEncodeMapping c = (JsonEncodeMapping_lo @ JsonEncodeMapping_hi) ! byte c"

section \<open>What the tables hold\<close>

text \<open>
  Each table is compared, entry by entry, with a rule that says what it is meant to hold: RFC 3986
  unreserved characters and \<open>/\<close> stay, every other byte is a percent sign and two hexadecimal digits;
  five characters have HTML references; JSON escapes the quote, the backslash and the control
  characters.
\<close>

text \<open>The characters the table leaves alone: the unreserved ones and the slash.\<close>

definition url_plain :: "char \<Rightarrow> bool" where
  "url_plain c \<longleftrightarrow> c \<in> set ''ABCDEFGHIJKLMNOPQRSTUVWXYZabcdefghijklmnopqrstuvwxyz0123456789_.-~/''"

definition url_rule :: "char \<Rightarrow> string" where
  "url_rule c = (if url_plain c then [c] else CHR ''%'' # dumpIntToHex (u8_of_char c))"

definition html_rule :: "char \<Rightarrow> string" where
  "html_rule c =
     (if c = CHR 0x00 then [] else if c = CHR 0x22 then ''&quot;'' else if c = CHR ''&'' then ''&amp;''
      else if c = CHR 0x27 then ''&#x27;'' else if c = CHR ''<'' then ''&lt;''
      else if c = CHR ''>'' then ''&gt;'' else [c])"

definition json_must_escape :: "char \<Rightarrow> bool" where
  "json_must_escape c \<longleftrightarrow> byte c < 32 \<or> c = CHR 0x22 \<or> c = CHR 0x5C"

lemmas all_chars = enum_char_unfold [symmetric] enum_char_def

lemma nth_table:
  assumes "xs = map f (map char_of [0..<256])"
  shows "xs ! byte c = f c"
  using assms by (simp add: byte_simps)

lemma dumpIntToHex_u8:
  "dumpIntToHex (w :: u8) = [hex_digits ! unat (drop_bit 4 w AND 0xf), hex_digits ! unat (w AND 0xf)]"
proof -
  have "[0..<2] = [0, Suc 0]" by (simp add: numeral_2_eq_2)
  then show ?thesis by (simp add: dumpIntToHex_def)
qed

lemma UrlEncodeMapping_table:
  "UrlEncodeMapping_lo @ UrlEncodeMapping_hi = map url_rule (map char_of [0..<256])"
  unfolding all_chars
  by (simp add: UrlEncodeMapping_lo_def UrlEncodeMapping_hi_def selves_def url_rule_def url_plain_def
      dumpIntToHex_u8 u8_of_char_def byte_def hex_digits_def)

lemma HtmlEncodeMapping_table:
  "HtmlEncodeMapping_lo @ HtmlEncodeMapping_hi = map html_rule (map char_of [0..<256])"
  unfolding all_chars by (simp add: HtmlEncodeMapping_lo_def HtmlEncodeMapping_hi_def selves_def html_rule_def)

lemma UrlEncodeMapping_rule: "UrlEncodeMapping c = url_rule c"
  unfolding UrlEncodeMapping_def by (rule nth_table [OF UrlEncodeMapping_table])

lemma HtmlEncodeMapping_rule: "HtmlEncodeMapping c = html_rule c"
  unfolding HtmlEncodeMapping_def by (rule nth_table [OF HtmlEncodeMapping_table])

definition json_entry_ok :: "char \<Rightarrow> string \<Rightarrow> bool" where
  "json_entry_ok c e \<longleftrightarrow>
     (if json_must_escape c then
        length e \<ge> 2 \<and> hd e = CHR 0x5C \<and> 32 \<le> byte (e ! 1) \<and>
        list_all (\<lambda>d. \<not> json_must_escape d) (drop 2 e)
      else e = [c])"

lemma JsonEncodeMapping_table:
  "list_all2 json_entry_ok (map char_of [0..<256]) (JsonEncodeMapping_lo @ JsonEncodeMapping_hi)"
  unfolding all_chars
  by (simp add: JsonEncodeMapping_lo_def JsonEncodeMapping_hi_def selves_def json_entry_ok_def json_must_escape_def byte_def
      numeral_2_eq_2)

lemma JsonEncodeMapping_rule: "json_entry_ok c (JsonEncodeMapping c)"
proof -
  have "json_entry_ok (map char_of [0..<256] ! byte c) ((JsonEncodeMapping_lo @ JsonEncodeMapping_hi) ! byte c)"
    by (rule list_all2_nthD [OF JsonEncodeMapping_table]) simp
  then show ?thesis by (simp add: JsonEncodeMapping_def)
qed

lemma url_plain_not_special:
  "url_plain c \<Longrightarrow> c \<noteq> CHR ''%'' \<and> c \<noteq> CHR ''+'' \<and> c \<noteq> CHR ''='' \<and> c \<noteq> CHR ''&'' \<and> c \<noteq> CHR ''?''
     \<and> c \<noteq> CHR '':'' \<and> c \<noteq> CHR ''['' \<and> c \<noteq> CHR '']''"
  by (auto simp: url_plain_def)

end
