(* ===== verification/HtmlEntities.thy ===== *)
theory HtmlEntities
  imports Prelude
begin

text \<open>
  \<open>src/Utility/HttpUtils.HtmlEntitiesMapping.hpp\<close>: the 2031 named character references and their
  UTF-8 bytes, in the order of the initializer list, in blocks of 150 entries, and the compile-time
  check the header makes on them.
\<close>

definition HtmlEntities_1 :: "(string, string) al" where
  "HtmlEntities_1 = [
    (''&Tab;'', [CHR 0x09]),
    (''&NewLine;'', [CHR 0x0A]),
    (''&excl;'', ''!''),
    (''&quot;'', [CHR 0x22]),
    (''&QUOT;'', [CHR 0x22]),
    (''&num;'', ''#''),
    (''&dollar;'', ''$''),
    (''&percnt;'', ''%''),
    (''&amp;'', ''&''),
    (''&AMP;'', ''&''),
    (''&apos;'', [CHR 0x27]),
    (''&lpar;'', ''(''),
    (''&rpar;'', '')''),
    (''&ast;'', ''*''),
    (''&midast;'', ''*''),
    (''&plus;'', ''+''),
    (''&comma;'', '',''),
    (''&period;'', ''.''),
    (''&sol;'', ''/''),
    (''&colon;'', '':''),
    (''&semi;'', '';''),
    (''&lt;'', ''<''),
    (''&LT;'', ''<''),
    (''&equals;'', ''=''),
    (''&gt;'', ''>''),
    (''&GT;'', ''>''),
    (''&quest;'', ''?''),
    (''&commat;'', ''@''),
    (''&lsqb;'', ''[''),
    (''&lbrack;'', ''[''),
    (''&bsol;'', [CHR 0x5C]),
    (''&rsqb;'', '']''),
    (''&rbrack;'', '']''),
    (''&Hat;'', ''^''),
    (''&lowbar;'', ''_''),
    (''&grave;'', [CHR 0x60]),
    (''&DiacriticalGrave;'', [CHR 0x60]),
    (''&lcub;'', ''{''),
    (''&lbrace;'', ''{''),
    (''&verbar;'', ''|''),
    (''&vert;'', ''|''),
    (''&VerticalLine;'', ''|''),
    (''&rcub;'', ''}''),
    (''&rbrace;'', ''}''),
    (''&nbsp;'', [CHR 0xC2, CHR 0xA0]),
    (''&NonBreakingSpace;'', [CHR 0xC2, CHR 0xA0]),
    (''&iexcl;'', [CHR 0xC2, CHR 0xA1]),
    (''&cent;'', [CHR 0xC2, CHR 0xA2]),
    (''&pound;'', [CHR 0xC2, CHR 0xA3]),
    (''&curren;'', [CHR 0xC2, CHR 0xA4]),
    (''&yen;'', [CHR 0xC2, CHR 0xA5]),
    (''&brvbar;'', [CHR 0xC2, CHR 0xA6]),
    (''&sect;'', [CHR 0xC2, CHR 0xA7]),
    (''&Dot;'', [CHR 0xC2, CHR 0xA8]),
    (''&die;'', [CHR 0xC2, CHR 0xA8]),
    (''&DoubleDot;'', [CHR 0xC2, CHR 0xA8]),
    (''&uml;'', [CHR 0xC2, CHR 0xA8]),
    (''&copy;'', [CHR 0xC2, CHR 0xA9]),
    (''&COPY;'', [CHR 0xC2, CHR 0xA9]),
    (''&ordf;'', [CHR 0xC2, CHR 0xAA]),
    (''&laquo;'', [CHR 0xC2, CHR 0xAB]),
    (''&not;'', [CHR 0xC2, CHR 0xAC]),
    (''&shy;'', [CHR 0xC2, CHR 0xAD]),
    (''&reg;'', [CHR 0xC2, CHR 0xAE]),
    (''&circledR;'', [CHR 0xC2, CHR 0xAE]),
    (''&REG;'', [CHR 0xC2, CHR 0xAE]),
    (''&macr;'', [CHR 0xC2, CHR 0xAF]),
    (''&OverBar;'', [CHR 0xC2, CHR 0xAF]),
    (''&strns;'', [CHR 0xC2, CHR 0xAF]),
    (''&deg;'', [CHR 0xC2, CHR 0xB0]),
    (''&plusmn;'', [CHR 0xC2, CHR 0xB1]),
    (''&pm;'', [CHR 0xC2, CHR 0xB1]),
    (''&PlusMinus;'', [CHR 0xC2, CHR 0xB1]),
    (''&sup2;'', [CHR 0xC2, CHR 0xB2]),
    (''&sup3;'', [CHR 0xC2, CHR 0xB3]),
    (''&acute;'', [CHR 0xC2, CHR 0xB4]),
    (''&DiacriticalAcute;'', [CHR 0xC2, CHR 0xB4]),
    (''&micro;'', [CHR 0xC2, CHR 0xB5]),
    (''&para;'', [CHR 0xC2, CHR 0xB6]),
    (''&middot;'', [CHR 0xC2, CHR 0xB7]),
    (''&centerdot;'', [CHR 0xC2, CHR 0xB7]),
    (''&CenterDot;'', [CHR 0xC2, CHR 0xB7]),
    (''&cedil;'', [CHR 0xC2, CHR 0xB8]),
    (''&Cedilla;'', [CHR 0xC2, CHR 0xB8]),
    (''&sup1;'', [CHR 0xC2, CHR 0xB9]),
    (''&ordm;'', [CHR 0xC2, CHR 0xBA]),
    (''&raquo;'', [CHR 0xC2, CHR 0xBB]),
    (''&frac14;'', [CHR 0xC2, CHR 0xBC]),
    (''&frac12;'', [CHR 0xC2, CHR 0xBD]),
    (''&half;'', [CHR 0xC2, CHR 0xBD]),
    (''&frac34;'', [CHR 0xC2, CHR 0xBE]),
    (''&iquest;'', [CHR 0xC2, CHR 0xBF]),
    (''&Agrave;'', [CHR 0xC3, CHR 0x80]),
    (''&Aacute;'', [CHR 0xC3, CHR 0x81]),
    (''&Acirc;'', [CHR 0xC3, CHR 0x82]),
    (''&Atilde;'', [CHR 0xC3, CHR 0x83]),
    (''&Auml;'', [CHR 0xC3, CHR 0x84]),
    (''&Aring;'', [CHR 0xC3, CHR 0x85]),
    (''&AElig;'', [CHR 0xC3, CHR 0x86]),
    (''&Ccedil;'', [CHR 0xC3, CHR 0x87]),
    (''&Egrave;'', [CHR 0xC3, CHR 0x88]),
    (''&Eacute;'', [CHR 0xC3, CHR 0x89]),
    (''&Ecirc;'', [CHR 0xC3, CHR 0x8A]),
    (''&Euml;'', [CHR 0xC3, CHR 0x8B]),
    (''&Igrave;'', [CHR 0xC3, CHR 0x8C]),
    (''&Iacute;'', [CHR 0xC3, CHR 0x8D]),
    (''&Icirc;'', [CHR 0xC3, CHR 0x8E]),
    (''&Iuml;'', [CHR 0xC3, CHR 0x8F]),
    (''&ETH;'', [CHR 0xC3, CHR 0x90]),
    (''&Ntilde;'', [CHR 0xC3, CHR 0x91]),
    (''&Ograve;'', [CHR 0xC3, CHR 0x92]),
    (''&Oacute;'', [CHR 0xC3, CHR 0x93]),
    (''&Ocirc;'', [CHR 0xC3, CHR 0x94]),
    (''&Otilde;'', [CHR 0xC3, CHR 0x95]),
    (''&Ouml;'', [CHR 0xC3, CHR 0x96]),
    (''&times;'', [CHR 0xC3, CHR 0x97]),
    (''&Oslash;'', [CHR 0xC3, CHR 0x98]),
    (''&Ugrave;'', [CHR 0xC3, CHR 0x99]),
    (''&Uacute;'', [CHR 0xC3, CHR 0x9A]),
    (''&Ucirc;'', [CHR 0xC3, CHR 0x9B]),
    (''&Uuml;'', [CHR 0xC3, CHR 0x9C]),
    (''&Yacute;'', [CHR 0xC3, CHR 0x9D]),
    (''&THORN;'', [CHR 0xC3, CHR 0x9E]),
    (''&szlig;'', [CHR 0xC3, CHR 0x9F]),
    (''&agrave;'', [CHR 0xC3, CHR 0xA0]),
    (''&aacute;'', [CHR 0xC3, CHR 0xA1]),
    (''&acirc;'', [CHR 0xC3, CHR 0xA2]),
    (''&atilde;'', [CHR 0xC3, CHR 0xA3]),
    (''&auml;'', [CHR 0xC3, CHR 0xA4]),
    (''&aring;'', [CHR 0xC3, CHR 0xA5]),
    (''&aelig;'', [CHR 0xC3, CHR 0xA6]),
    (''&ccedil;'', [CHR 0xC3, CHR 0xA7]),
    (''&egrave;'', [CHR 0xC3, CHR 0xA8]),
    (''&eacute;'', [CHR 0xC3, CHR 0xA9]),
    (''&ecirc;'', [CHR 0xC3, CHR 0xAA]),
    (''&euml;'', [CHR 0xC3, CHR 0xAB]),
    (''&igrave;'', [CHR 0xC3, CHR 0xAC]),
    (''&iacute;'', [CHR 0xC3, CHR 0xAD]),
    (''&icirc;'', [CHR 0xC3, CHR 0xAE]),
    (''&iuml;'', [CHR 0xC3, CHR 0xAF]),
    (''&eth;'', [CHR 0xC3, CHR 0xB0]),
    (''&ntilde;'', [CHR 0xC3, CHR 0xB1]),
    (''&ograve;'', [CHR 0xC3, CHR 0xB2]),
    (''&oacute;'', [CHR 0xC3, CHR 0xB3]),
    (''&ocirc;'', [CHR 0xC3, CHR 0xB4]),
    (''&otilde;'', [CHR 0xC3, CHR 0xB5]),
    (''&ouml;'', [CHR 0xC3, CHR 0xB6]),
    (''&divide;'', [CHR 0xC3, CHR 0xB7]),
    (''&div;'', [CHR 0xC3, CHR 0xB7]),
    (''&oslash;'', [CHR 0xC3, CHR 0xB8])]"

definition HtmlEntities_2 :: "(string, string) al" where
  "HtmlEntities_2 = [
    (''&ugrave;'', [CHR 0xC3, CHR 0xB9]),
    (''&uacute;'', [CHR 0xC3, CHR 0xBA]),
    (''&ucirc;'', [CHR 0xC3, CHR 0xBB]),
    (''&uuml;'', [CHR 0xC3, CHR 0xBC]),
    (''&yacute;'', [CHR 0xC3, CHR 0xBD]),
    (''&thorn;'', [CHR 0xC3, CHR 0xBE]),
    (''&yuml;'', [CHR 0xC3, CHR 0xBF]),
    (''&Amacr;'', [CHR 0xC4, CHR 0x80]),
    (''&amacr;'', [CHR 0xC4, CHR 0x81]),
    (''&Abreve;'', [CHR 0xC4, CHR 0x82]),
    (''&abreve;'', [CHR 0xC4, CHR 0x83]),
    (''&Aogon;'', [CHR 0xC4, CHR 0x84]),
    (''&aogon;'', [CHR 0xC4, CHR 0x85]),
    (''&Cacute;'', [CHR 0xC4, CHR 0x86]),
    (''&cacute;'', [CHR 0xC4, CHR 0x87]),
    (''&Ccirc;'', [CHR 0xC4, CHR 0x88]),
    (''&ccirc;'', [CHR 0xC4, CHR 0x89]),
    (''&Cdot;'', [CHR 0xC4, CHR 0x8A]),
    (''&cdot;'', [CHR 0xC4, CHR 0x8B]),
    (''&Ccaron;'', [CHR 0xC4, CHR 0x8C]),
    (''&ccaron;'', [CHR 0xC4, CHR 0x8D]),
    (''&Dcaron;'', [CHR 0xC4, CHR 0x8E]),
    (''&dcaron;'', [CHR 0xC4, CHR 0x8F]),
    (''&Dstrok;'', [CHR 0xC4, CHR 0x90]),
    (''&dstrok;'', [CHR 0xC4, CHR 0x91]),
    (''&Emacr;'', [CHR 0xC4, CHR 0x92]),
    (''&emacr;'', [CHR 0xC4, CHR 0x93]),
    (''&Edot;'', [CHR 0xC4, CHR 0x96]),
    (''&edot;'', [CHR 0xC4, CHR 0x97]),
    (''&Eogon;'', [CHR 0xC4, CHR 0x98]),
    (''&eogon;'', [CHR 0xC4, CHR 0x99]),
    (''&Ecaron;'', [CHR 0xC4, CHR 0x9A]),
    (''&ecaron;'', [CHR 0xC4, CHR 0x9B]),
    (''&Gcirc;'', [CHR 0xC4, CHR 0x9C]),
    (''&gcirc;'', [CHR 0xC4, CHR 0x9D]),
    (''&Gbreve;'', [CHR 0xC4, CHR 0x9E]),
    (''&gbreve;'', [CHR 0xC4, CHR 0x9F]),
    (''&Gdot;'', [CHR 0xC4, CHR 0xA0]),
    (''&gdot;'', [CHR 0xC4, CHR 0xA1]),
    (''&Gcedil;'', [CHR 0xC4, CHR 0xA2]),
    (''&Hcirc;'', [CHR 0xC4, CHR 0xA4]),
    (''&hcirc;'', [CHR 0xC4, CHR 0xA5]),
    (''&Hstrok;'', [CHR 0xC4, CHR 0xA6]),
    (''&hstrok;'', [CHR 0xC4, CHR 0xA7]),
    (''&Itilde;'', [CHR 0xC4, CHR 0xA8]),
    (''&itilde;'', [CHR 0xC4, CHR 0xA9]),
    (''&Imacr;'', [CHR 0xC4, CHR 0xAA]),
    (''&imacr;'', [CHR 0xC4, CHR 0xAB]),
    (''&Iogon;'', [CHR 0xC4, CHR 0xAE]),
    (''&iogon;'', [CHR 0xC4, CHR 0xAF]),
    (''&Idot;'', [CHR 0xC4, CHR 0xB0]),
    (''&imath;'', [CHR 0xC4, CHR 0xB1]),
    (''&inodot;'', [CHR 0xC4, CHR 0xB1]),
    (''&IJlig;'', [CHR 0xC4, CHR 0xB2]),
    (''&ijlig;'', [CHR 0xC4, CHR 0xB3]),
    (''&Jcirc;'', [CHR 0xC4, CHR 0xB4]),
    (''&jcirc;'', [CHR 0xC4, CHR 0xB5]),
    (''&Kcedil;'', [CHR 0xC4, CHR 0xB6]),
    (''&kcedil;'', [CHR 0xC4, CHR 0xB7]),
    (''&kgreen;'', [CHR 0xC4, CHR 0xB8]),
    (''&Lacute;'', [CHR 0xC4, CHR 0xB9]),
    (''&lacute;'', [CHR 0xC4, CHR 0xBA]),
    (''&Lcedil;'', [CHR 0xC4, CHR 0xBB]),
    (''&lcedil;'', [CHR 0xC4, CHR 0xBC]),
    (''&Lcaron;'', [CHR 0xC4, CHR 0xBD]),
    (''&lcaron;'', [CHR 0xC4, CHR 0xBE]),
    (''&Lmidot;'', [CHR 0xC4, CHR 0xBF]),
    (''&lmidot;'', [CHR 0xC5, CHR 0x80]),
    (''&Lstrok;'', [CHR 0xC5, CHR 0x81]),
    (''&lstrok;'', [CHR 0xC5, CHR 0x82]),
    (''&Nacute;'', [CHR 0xC5, CHR 0x83]),
    (''&nacute;'', [CHR 0xC5, CHR 0x84]),
    (''&Ncedil;'', [CHR 0xC5, CHR 0x85]),
    (''&ncedil;'', [CHR 0xC5, CHR 0x86]),
    (''&Ncaron;'', [CHR 0xC5, CHR 0x87]),
    (''&ncaron;'', [CHR 0xC5, CHR 0x88]),
    (''&napos;'', [CHR 0xC5, CHR 0x89]),
    (''&ENG;'', [CHR 0xC5, CHR 0x8A]),
    (''&eng;'', [CHR 0xC5, CHR 0x8B]),
    (''&Omacr;'', [CHR 0xC5, CHR 0x8C]),
    (''&omacr;'', [CHR 0xC5, CHR 0x8D]),
    (''&Odblac;'', [CHR 0xC5, CHR 0x90]),
    (''&odblac;'', [CHR 0xC5, CHR 0x91]),
    (''&OElig;'', [CHR 0xC5, CHR 0x92]),
    (''&oelig;'', [CHR 0xC5, CHR 0x93]),
    (''&Racute;'', [CHR 0xC5, CHR 0x94]),
    (''&racute;'', [CHR 0xC5, CHR 0x95]),
    (''&Rcedil;'', [CHR 0xC5, CHR 0x96]),
    (''&rcedil;'', [CHR 0xC5, CHR 0x97]),
    (''&Rcaron;'', [CHR 0xC5, CHR 0x98]),
    (''&rcaron;'', [CHR 0xC5, CHR 0x99]),
    (''&Sacute;'', [CHR 0xC5, CHR 0x9A]),
    (''&sacute;'', [CHR 0xC5, CHR 0x9B]),
    (''&Scirc;'', [CHR 0xC5, CHR 0x9C]),
    (''&scirc;'', [CHR 0xC5, CHR 0x9D]),
    (''&Scedil;'', [CHR 0xC5, CHR 0x9E]),
    (''&scedil;'', [CHR 0xC5, CHR 0x9F]),
    (''&Scaron;'', [CHR 0xC5, CHR 0xA0]),
    (''&scaron;'', [CHR 0xC5, CHR 0xA1]),
    (''&Tcedil;'', [CHR 0xC5, CHR 0xA2]),
    (''&tcedil;'', [CHR 0xC5, CHR 0xA3]),
    (''&Tcaron;'', [CHR 0xC5, CHR 0xA4]),
    (''&tcaron;'', [CHR 0xC5, CHR 0xA5]),
    (''&Tstrok;'', [CHR 0xC5, CHR 0xA6]),
    (''&tstrok;'', [CHR 0xC5, CHR 0xA7]),
    (''&Utilde;'', [CHR 0xC5, CHR 0xA8]),
    (''&utilde;'', [CHR 0xC5, CHR 0xA9]),
    (''&Umacr;'', [CHR 0xC5, CHR 0xAA]),
    (''&umacr;'', [CHR 0xC5, CHR 0xAB]),
    (''&Ubreve;'', [CHR 0xC5, CHR 0xAC]),
    (''&ubreve;'', [CHR 0xC5, CHR 0xAD]),
    (''&Uring;'', [CHR 0xC5, CHR 0xAE]),
    (''&uring;'', [CHR 0xC5, CHR 0xAF]),
    (''&Udblac;'', [CHR 0xC5, CHR 0xB0]),
    (''&udblac;'', [CHR 0xC5, CHR 0xB1]),
    (''&Uogon;'', [CHR 0xC5, CHR 0xB2]),
    (''&uogon;'', [CHR 0xC5, CHR 0xB3]),
    (''&Wcirc;'', [CHR 0xC5, CHR 0xB4]),
    (''&wcirc;'', [CHR 0xC5, CHR 0xB5]),
    (''&Ycirc;'', [CHR 0xC5, CHR 0xB6]),
    (''&ycirc;'', [CHR 0xC5, CHR 0xB7]),
    (''&Yuml;'', [CHR 0xC5, CHR 0xB8]),
    (''&Zacute;'', [CHR 0xC5, CHR 0xB9]),
    (''&zacute;'', [CHR 0xC5, CHR 0xBA]),
    (''&Zdot;'', [CHR 0xC5, CHR 0xBB]),
    (''&zdot;'', [CHR 0xC5, CHR 0xBC]),
    (''&Zcaron;'', [CHR 0xC5, CHR 0xBD]),
    (''&zcaron;'', [CHR 0xC5, CHR 0xBE]),
    (''&fnof;'', [CHR 0xC6, CHR 0x92]),
    (''&imped;'', [CHR 0xC6, CHR 0xB5]),
    (''&gacute;'', [CHR 0xC7, CHR 0xB5]),
    (''&jmath;'', [CHR 0xC8, CHR 0xB7]),
    (''&circ;'', [CHR 0xCB, CHR 0x86]),
    (''&caron;'', [CHR 0xCB, CHR 0x87]),
    (''&Hacek;'', [CHR 0xCB, CHR 0x87]),
    (''&breve;'', [CHR 0xCB, CHR 0x98]),
    (''&Breve;'', [CHR 0xCB, CHR 0x98]),
    (''&dot;'', [CHR 0xCB, CHR 0x99]),
    (''&DiacriticalDot;'', [CHR 0xCB, CHR 0x99]),
    (''&ring;'', [CHR 0xCB, CHR 0x9A]),
    (''&ogon;'', [CHR 0xCB, CHR 0x9B]),
    (''&tilde;'', [CHR 0xCB, CHR 0x9C]),
    (''&DiacriticalTilde;'', [CHR 0xCB, CHR 0x9C]),
    (''&dblac;'', [CHR 0xCB, CHR 0x9D]),
    (''&DiacriticalDoubleAcute;'', [CHR 0xCB, CHR 0x9D]),
    (''&DownBreve;'', [CHR 0xCC, CHR 0x91]),
    (''&UnderBar;'', [CHR 0xCC, CHR 0xB2]),
    (''&Alpha;'', [CHR 0xCE, CHR 0x91]),
    (''&Beta;'', [CHR 0xCE, CHR 0x92]),
    (''&Gamma;'', [CHR 0xCE, CHR 0x93])]"

definition HtmlEntities_3 :: "(string, string) al" where
  "HtmlEntities_3 = [
    (''&Delta;'', [CHR 0xCE, CHR 0x94]),
    (''&Epsilon;'', [CHR 0xCE, CHR 0x95]),
    (''&Zeta;'', [CHR 0xCE, CHR 0x96]),
    (''&Eta;'', [CHR 0xCE, CHR 0x97]),
    (''&Theta;'', [CHR 0xCE, CHR 0x98]),
    (''&Iota;'', [CHR 0xCE, CHR 0x99]),
    (''&Kappa;'', [CHR 0xCE, CHR 0x9A]),
    (''&Lambda;'', [CHR 0xCE, CHR 0x9B]),
    (''&Mu;'', [CHR 0xCE, CHR 0x9C]),
    (''&Nu;'', [CHR 0xCE, CHR 0x9D]),
    (''&Xi;'', [CHR 0xCE, CHR 0x9E]),
    (''&Omicron;'', [CHR 0xCE, CHR 0x9F]),
    (''&Pi;'', [CHR 0xCE, CHR 0xA0]),
    (''&Rho;'', [CHR 0xCE, CHR 0xA1]),
    (''&Sigma;'', [CHR 0xCE, CHR 0xA3]),
    (''&Tau;'', [CHR 0xCE, CHR 0xA4]),
    (''&Upsilon;'', [CHR 0xCE, CHR 0xA5]),
    (''&Phi;'', [CHR 0xCE, CHR 0xA6]),
    (''&Chi;'', [CHR 0xCE, CHR 0xA7]),
    (''&Psi;'', [CHR 0xCE, CHR 0xA8]),
    (''&Omega;'', [CHR 0xCE, CHR 0xA9]),
    (''&alpha;'', [CHR 0xCE, CHR 0xB1]),
    (''&beta;'', [CHR 0xCE, CHR 0xB2]),
    (''&gamma;'', [CHR 0xCE, CHR 0xB3]),
    (''&delta;'', [CHR 0xCE, CHR 0xB4]),
    (''&epsiv;'', [CHR 0xCE, CHR 0xB5]),
    (''&varepsilon;'', [CHR 0xCE, CHR 0xB5]),
    (''&epsilon;'', [CHR 0xCE, CHR 0xB5]),
    (''&zeta;'', [CHR 0xCE, CHR 0xB6]),
    (''&eta;'', [CHR 0xCE, CHR 0xB7]),
    (''&theta;'', [CHR 0xCE, CHR 0xB8]),
    (''&iota;'', [CHR 0xCE, CHR 0xB9]),
    (''&kappa;'', [CHR 0xCE, CHR 0xBA]),
    (''&lambda;'', [CHR 0xCE, CHR 0xBB]),
    (''&mu;'', [CHR 0xCE, CHR 0xBC]),
    (''&nu;'', [CHR 0xCE, CHR 0xBD]),
    (''&xi;'', [CHR 0xCE, CHR 0xBE]),
    (''&omicron;'', [CHR 0xCE, CHR 0xBF]),
    (''&pi;'', [CHR 0xCF, CHR 0x80]),
    (''&rho;'', [CHR 0xCF, CHR 0x81]),
    (''&sigmav;'', [CHR 0xCF, CHR 0x82]),
    (''&varsigma;'', [CHR 0xCF, CHR 0x82]),
    (''&sigmaf;'', [CHR 0xCF, CHR 0x82]),
    (''&sigma;'', [CHR 0xCF, CHR 0x83]),
    (''&tau;'', [CHR 0xCF, CHR 0x84]),
    (''&upsi;'', [CHR 0xCF, CHR 0x85]),
    (''&upsilon;'', [CHR 0xCF, CHR 0x85]),
    (''&phi;'', [CHR 0xCF, CHR 0x86]),
    (''&phiv;'', [CHR 0xCF, CHR 0x86]),
    (''&varphi;'', [CHR 0xCF, CHR 0x86]),
    (''&chi;'', [CHR 0xCF, CHR 0x87]),
    (''&psi;'', [CHR 0xCF, CHR 0x88]),
    (''&omega;'', [CHR 0xCF, CHR 0x89]),
    (''&thetav;'', [CHR 0xCF, CHR 0x91]),
    (''&vartheta;'', [CHR 0xCF, CHR 0x91]),
    (''&thetasym;'', [CHR 0xCF, CHR 0x91]),
    (''&Upsi;'', [CHR 0xCF, CHR 0x92]),
    (''&upsih;'', [CHR 0xCF, CHR 0x92]),
    (''&straightphi;'', [CHR 0xCF, CHR 0x95]),
    (''&piv;'', [CHR 0xCF, CHR 0x96]),
    (''&varpi;'', [CHR 0xCF, CHR 0x96]),
    (''&Gammad;'', [CHR 0xCF, CHR 0x9C]),
    (''&gammad;'', [CHR 0xCF, CHR 0x9D]),
    (''&digamma;'', [CHR 0xCF, CHR 0x9D]),
    (''&kappav;'', [CHR 0xCF, CHR 0xB0]),
    (''&varkappa;'', [CHR 0xCF, CHR 0xB0]),
    (''&rhov;'', [CHR 0xCF, CHR 0xB1]),
    (''&varrho;'', [CHR 0xCF, CHR 0xB1]),
    (''&epsi;'', [CHR 0xCF, CHR 0xB5]),
    (''&straightepsilon;'', [CHR 0xCF, CHR 0xB5]),
    (''&bepsi;'', [CHR 0xCF, CHR 0xB6]),
    (''&backepsilon;'', [CHR 0xCF, CHR 0xB6]),
    (''&IOcy;'', [CHR 0xD0, CHR 0x81]),
    (''&DJcy;'', [CHR 0xD0, CHR 0x82]),
    (''&GJcy;'', [CHR 0xD0, CHR 0x83]),
    (''&Jukcy;'', [CHR 0xD0, CHR 0x84]),
    (''&DScy;'', [CHR 0xD0, CHR 0x85]),
    (''&Iukcy;'', [CHR 0xD0, CHR 0x86]),
    (''&YIcy;'', [CHR 0xD0, CHR 0x87]),
    (''&Jsercy;'', [CHR 0xD0, CHR 0x88]),
    (''&LJcy;'', [CHR 0xD0, CHR 0x89]),
    (''&NJcy;'', [CHR 0xD0, CHR 0x8A]),
    (''&TSHcy;'', [CHR 0xD0, CHR 0x8B]),
    (''&KJcy;'', [CHR 0xD0, CHR 0x8C]),
    (''&Ubrcy;'', [CHR 0xD0, CHR 0x8E]),
    (''&DZcy;'', [CHR 0xD0, CHR 0x8F]),
    (''&Acy;'', [CHR 0xD0, CHR 0x90]),
    (''&Bcy;'', [CHR 0xD0, CHR 0x91]),
    (''&Vcy;'', [CHR 0xD0, CHR 0x92]),
    (''&Gcy;'', [CHR 0xD0, CHR 0x93]),
    (''&Dcy;'', [CHR 0xD0, CHR 0x94]),
    (''&IEcy;'', [CHR 0xD0, CHR 0x95]),
    (''&ZHcy;'', [CHR 0xD0, CHR 0x96]),
    (''&Zcy;'', [CHR 0xD0, CHR 0x97]),
    (''&Icy;'', [CHR 0xD0, CHR 0x98]),
    (''&Jcy;'', [CHR 0xD0, CHR 0x99]),
    (''&Kcy;'', [CHR 0xD0, CHR 0x9A]),
    (''&Lcy;'', [CHR 0xD0, CHR 0x9B]),
    (''&Mcy;'', [CHR 0xD0, CHR 0x9C]),
    (''&Ncy;'', [CHR 0xD0, CHR 0x9D]),
    (''&Ocy;'', [CHR 0xD0, CHR 0x9E]),
    (''&Pcy;'', [CHR 0xD0, CHR 0x9F]),
    (''&Rcy;'', [CHR 0xD0, CHR 0xA0]),
    (''&Scy;'', [CHR 0xD0, CHR 0xA1]),
    (''&Tcy;'', [CHR 0xD0, CHR 0xA2]),
    (''&Ucy;'', [CHR 0xD0, CHR 0xA3]),
    (''&Fcy;'', [CHR 0xD0, CHR 0xA4]),
    (''&KHcy;'', [CHR 0xD0, CHR 0xA5]),
    (''&TScy;'', [CHR 0xD0, CHR 0xA6]),
    (''&CHcy;'', [CHR 0xD0, CHR 0xA7]),
    (''&SHcy;'', [CHR 0xD0, CHR 0xA8]),
    (''&SHCHcy;'', [CHR 0xD0, CHR 0xA9]),
    (''&HARDcy;'', [CHR 0xD0, CHR 0xAA]),
    (''&Ycy;'', [CHR 0xD0, CHR 0xAB]),
    (''&SOFTcy;'', [CHR 0xD0, CHR 0xAC]),
    (''&Ecy;'', [CHR 0xD0, CHR 0xAD]),
    (''&YUcy;'', [CHR 0xD0, CHR 0xAE]),
    (''&YAcy;'', [CHR 0xD0, CHR 0xAF]),
    (''&acy;'', [CHR 0xD0, CHR 0xB0]),
    (''&bcy;'', [CHR 0xD0, CHR 0xB1]),
    (''&vcy;'', [CHR 0xD0, CHR 0xB2]),
    (''&gcy;'', [CHR 0xD0, CHR 0xB3]),
    (''&dcy;'', [CHR 0xD0, CHR 0xB4]),
    (''&iecy;'', [CHR 0xD0, CHR 0xB5]),
    (''&zhcy;'', [CHR 0xD0, CHR 0xB6]),
    (''&zcy;'', [CHR 0xD0, CHR 0xB7]),
    (''&icy;'', [CHR 0xD0, CHR 0xB8]),
    (''&jcy;'', [CHR 0xD0, CHR 0xB9]),
    (''&kcy;'', [CHR 0xD0, CHR 0xBA]),
    (''&lcy;'', [CHR 0xD0, CHR 0xBB]),
    (''&mcy;'', [CHR 0xD0, CHR 0xBC]),
    (''&ncy;'', [CHR 0xD0, CHR 0xBD]),
    (''&ocy;'', [CHR 0xD0, CHR 0xBE]),
    (''&pcy;'', [CHR 0xD0, CHR 0xBF]),
    (''&rcy;'', [CHR 0xD1, CHR 0x80]),
    (''&scy;'', [CHR 0xD1, CHR 0x81]),
    (''&tcy;'', [CHR 0xD1, CHR 0x82]),
    (''&ucy;'', [CHR 0xD1, CHR 0x83]),
    (''&fcy;'', [CHR 0xD1, CHR 0x84]),
    (''&khcy;'', [CHR 0xD1, CHR 0x85]),
    (''&tscy;'', [CHR 0xD1, CHR 0x86]),
    (''&chcy;'', [CHR 0xD1, CHR 0x87]),
    (''&shcy;'', [CHR 0xD1, CHR 0x88]),
    (''&shchcy;'', [CHR 0xD1, CHR 0x89]),
    (''&hardcy;'', [CHR 0xD1, CHR 0x8A]),
    (''&ycy;'', [CHR 0xD1, CHR 0x8B]),
    (''&softcy;'', [CHR 0xD1, CHR 0x8C]),
    (''&ecy;'', [CHR 0xD1, CHR 0x8D]),
    (''&yucy;'', [CHR 0xD1, CHR 0x8E]),
    (''&yacy;'', [CHR 0xD1, CHR 0x8F])]"

definition HtmlEntities_4 :: "(string, string) al" where
  "HtmlEntities_4 = [
    (''&iocy;'', [CHR 0xD1, CHR 0x91]),
    (''&djcy;'', [CHR 0xD1, CHR 0x92]),
    (''&gjcy;'', [CHR 0xD1, CHR 0x93]),
    (''&jukcy;'', [CHR 0xD1, CHR 0x94]),
    (''&dscy;'', [CHR 0xD1, CHR 0x95]),
    (''&iukcy;'', [CHR 0xD1, CHR 0x96]),
    (''&yicy;'', [CHR 0xD1, CHR 0x97]),
    (''&jsercy;'', [CHR 0xD1, CHR 0x98]),
    (''&ljcy;'', [CHR 0xD1, CHR 0x99]),
    (''&njcy;'', [CHR 0xD1, CHR 0x9A]),
    (''&tshcy;'', [CHR 0xD1, CHR 0x9B]),
    (''&kjcy;'', [CHR 0xD1, CHR 0x9C]),
    (''&ubrcy;'', [CHR 0xD1, CHR 0x9E]),
    (''&dzcy;'', [CHR 0xD1, CHR 0x9F]),
    (''&ensp;'', [CHR 0xE2, CHR 0x80, CHR 0x82]),
    (''&emsp;'', [CHR 0xE2, CHR 0x80, CHR 0x83]),
    (''&emsp13;'', [CHR 0xE2, CHR 0x80, CHR 0x84]),
    (''&emsp14;'', [CHR 0xE2, CHR 0x80, CHR 0x85]),
    (''&numsp;'', [CHR 0xE2, CHR 0x80, CHR 0x87]),
    (''&puncsp;'', [CHR 0xE2, CHR 0x80, CHR 0x88]),
    (''&thinsp;'', [CHR 0xE2, CHR 0x80, CHR 0x89]),
    (''&ThinSpace;'', [CHR 0xE2, CHR 0x80, CHR 0x89]),
    (''&hairsp;'', [CHR 0xE2, CHR 0x80, CHR 0x8A]),
    (''&VeryThinSpace;'', [CHR 0xE2, CHR 0x80, CHR 0x8A]),
    (''&ZeroWidthSpace;'', [CHR 0xE2, CHR 0x80, CHR 0x8B]),
    (''&NegativeVeryThinSpace;'', [CHR 0xE2, CHR 0x80, CHR 0x8B]),
    (''&NegativeThinSpace;'', [CHR 0xE2, CHR 0x80, CHR 0x8B]),
    (''&NegativeMediumSpace;'', [CHR 0xE2, CHR 0x80, CHR 0x8B]),
    (''&NegativeThickSpace;'', [CHR 0xE2, CHR 0x80, CHR 0x8B]),
    (''&zwnj;'', [CHR 0xE2, CHR 0x80, CHR 0x8C]),
    (''&zwj;'', [CHR 0xE2, CHR 0x80, CHR 0x8D]),
    (''&lrm;'', [CHR 0xE2, CHR 0x80, CHR 0x8E]),
    (''&rlm;'', [CHR 0xE2, CHR 0x80, CHR 0x8F]),
    (''&hyphen;'', [CHR 0xE2, CHR 0x80, CHR 0x90]),
    (''&dash;'', [CHR 0xE2, CHR 0x80, CHR 0x90]),
    (''&ndash;'', [CHR 0xE2, CHR 0x80, CHR 0x93]),
    (''&mdash;'', [CHR 0xE2, CHR 0x80, CHR 0x94]),
    (''&horbar;'', [CHR 0xE2, CHR 0x80, CHR 0x95]),
    (''&Verbar;'', [CHR 0xE2, CHR 0x80, CHR 0x96]),
    (''&Vert;'', [CHR 0xE2, CHR 0x80, CHR 0x96]),
    (''&lsquo;'', [CHR 0xE2, CHR 0x80, CHR 0x98]),
    (''&OpenCurlyQuote;'', [CHR 0xE2, CHR 0x80, CHR 0x98]),
    (''&rsquo;'', [CHR 0xE2, CHR 0x80, CHR 0x99]),
    (''&rsquor;'', [CHR 0xE2, CHR 0x80, CHR 0x99]),
    (''&CloseCurlyQuote;'', [CHR 0xE2, CHR 0x80, CHR 0x99]),
    (''&lsquor;'', [CHR 0xE2, CHR 0x80, CHR 0x9A]),
    (''&sbquo;'', [CHR 0xE2, CHR 0x80, CHR 0x9A]),
    (''&ldquo;'', [CHR 0xE2, CHR 0x80, CHR 0x9C]),
    (''&OpenCurlyDoubleQuote;'', [CHR 0xE2, CHR 0x80, CHR 0x9C]),
    (''&rdquo;'', [CHR 0xE2, CHR 0x80, CHR 0x9D]),
    (''&rdquor;'', [CHR 0xE2, CHR 0x80, CHR 0x9D]),
    (''&CloseCurlyDoubleQuote;'', [CHR 0xE2, CHR 0x80, CHR 0x9D]),
    (''&ldquor;'', [CHR 0xE2, CHR 0x80, CHR 0x9E]),
    (''&bdquo;'', [CHR 0xE2, CHR 0x80, CHR 0x9E]),
    (''&dagger;'', [CHR 0xE2, CHR 0x80, CHR 0xA0]),
    (''&Dagger;'', [CHR 0xE2, CHR 0x80, CHR 0xA1]),
    (''&ddagger;'', [CHR 0xE2, CHR 0x80, CHR 0xA1]),
    (''&bull;'', [CHR 0xE2, CHR 0x80, CHR 0xA2]),
    (''&bullet;'', [CHR 0xE2, CHR 0x80, CHR 0xA2]),
    (''&nldr;'', [CHR 0xE2, CHR 0x80, CHR 0xA5]),
    (''&hellip;'', [CHR 0xE2, CHR 0x80, CHR 0xA6]),
    (''&mldr;'', [CHR 0xE2, CHR 0x80, CHR 0xA6]),
    (''&permil;'', [CHR 0xE2, CHR 0x80, CHR 0xB0]),
    (''&pertenk;'', [CHR 0xE2, CHR 0x80, CHR 0xB1]),
    (''&prime;'', [CHR 0xE2, CHR 0x80, CHR 0xB2]),
    (''&Prime;'', [CHR 0xE2, CHR 0x80, CHR 0xB3]),
    (''&tprime;'', [CHR 0xE2, CHR 0x80, CHR 0xB4]),
    (''&bprime;'', [CHR 0xE2, CHR 0x80, CHR 0xB5]),
    (''&backprime;'', [CHR 0xE2, CHR 0x80, CHR 0xB5]),
    (''&lsaquo;'', [CHR 0xE2, CHR 0x80, CHR 0xB9]),
    (''&rsaquo;'', [CHR 0xE2, CHR 0x80, CHR 0xBA]),
    (''&oline;'', [CHR 0xE2, CHR 0x80, CHR 0xBE]),
    (''&caret;'', [CHR 0xE2, CHR 0x81, CHR 0x81]),
    (''&hybull;'', [CHR 0xE2, CHR 0x81, CHR 0x83]),
    (''&frasl;'', [CHR 0xE2, CHR 0x81, CHR 0x84]),
    (''&bsemi;'', [CHR 0xE2, CHR 0x81, CHR 0x8F]),
    (''&qprime;'', [CHR 0xE2, CHR 0x81, CHR 0x97]),
    (''&MediumSpace;'', [CHR 0xE2, CHR 0x81, CHR 0x9F]),
    (''&NoBreak;'', [CHR 0xE2, CHR 0x81, CHR 0xA0]),
    (''&ApplyFunction;'', [CHR 0xE2, CHR 0x81, CHR 0xA1]),
    (''&af;'', [CHR 0xE2, CHR 0x81, CHR 0xA1]),
    (''&InvisibleTimes;'', [CHR 0xE2, CHR 0x81, CHR 0xA2]),
    (''&it;'', [CHR 0xE2, CHR 0x81, CHR 0xA2]),
    (''&InvisibleComma;'', [CHR 0xE2, CHR 0x81, CHR 0xA3]),
    (''&ic;'', [CHR 0xE2, CHR 0x81, CHR 0xA3]),
    (''&euro;'', [CHR 0xE2, CHR 0x82, CHR 0xAC]),
    (''&tdot;'', [CHR 0xE2, CHR 0x83, CHR 0x9B]),
    (''&TripleDot;'', [CHR 0xE2, CHR 0x83, CHR 0x9B]),
    (''&DotDot;'', [CHR 0xE2, CHR 0x83, CHR 0x9C]),
    (''&Copf;'', [CHR 0xE2, CHR 0x84, CHR 0x82]),
    (''&complexes;'', [CHR 0xE2, CHR 0x84, CHR 0x82]),
    (''&incare;'', [CHR 0xE2, CHR 0x84, CHR 0x85]),
    (''&gscr;'', [CHR 0xE2, CHR 0x84, CHR 0x8A]),
    (''&hamilt;'', [CHR 0xE2, CHR 0x84, CHR 0x8B]),
    (''&HilbertSpace;'', [CHR 0xE2, CHR 0x84, CHR 0x8B]),
    (''&Hscr;'', [CHR 0xE2, CHR 0x84, CHR 0x8B]),
    (''&Hfr;'', [CHR 0xE2, CHR 0x84, CHR 0x8C]),
    (''&Poincareplane;'', [CHR 0xE2, CHR 0x84, CHR 0x8C]),
    (''&quaternions;'', [CHR 0xE2, CHR 0x84, CHR 0x8D]),
    (''&Hopf;'', [CHR 0xE2, CHR 0x84, CHR 0x8D]),
    (''&planckh;'', [CHR 0xE2, CHR 0x84, CHR 0x8E]),
    (''&planck;'', [CHR 0xE2, CHR 0x84, CHR 0x8F]),
    (''&hbar;'', [CHR 0xE2, CHR 0x84, CHR 0x8F]),
    (''&plankv;'', [CHR 0xE2, CHR 0x84, CHR 0x8F]),
    (''&hslash;'', [CHR 0xE2, CHR 0x84, CHR 0x8F]),
    (''&Iscr;'', [CHR 0xE2, CHR 0x84, CHR 0x90]),
    (''&imagline;'', [CHR 0xE2, CHR 0x84, CHR 0x90]),
    (''&image;'', [CHR 0xE2, CHR 0x84, CHR 0x91]),
    (''&Im;'', [CHR 0xE2, CHR 0x84, CHR 0x91]),
    (''&imagpart;'', [CHR 0xE2, CHR 0x84, CHR 0x91]),
    (''&Ifr;'', [CHR 0xE2, CHR 0x84, CHR 0x91]),
    (''&Lscr;'', [CHR 0xE2, CHR 0x84, CHR 0x92]),
    (''&lagran;'', [CHR 0xE2, CHR 0x84, CHR 0x92]),
    (''&Laplacetrf;'', [CHR 0xE2, CHR 0x84, CHR 0x92]),
    (''&ell;'', [CHR 0xE2, CHR 0x84, CHR 0x93]),
    (''&Nopf;'', [CHR 0xE2, CHR 0x84, CHR 0x95]),
    (''&naturals;'', [CHR 0xE2, CHR 0x84, CHR 0x95]),
    (''&numero;'', [CHR 0xE2, CHR 0x84, CHR 0x96]),
    (''&copysr;'', [CHR 0xE2, CHR 0x84, CHR 0x97]),
    (''&weierp;'', [CHR 0xE2, CHR 0x84, CHR 0x98]),
    (''&wp;'', [CHR 0xE2, CHR 0x84, CHR 0x98]),
    (''&Popf;'', [CHR 0xE2, CHR 0x84, CHR 0x99]),
    (''&primes;'', [CHR 0xE2, CHR 0x84, CHR 0x99]),
    (''&rationals;'', [CHR 0xE2, CHR 0x84, CHR 0x9A]),
    (''&Qopf;'', [CHR 0xE2, CHR 0x84, CHR 0x9A]),
    (''&Rscr;'', [CHR 0xE2, CHR 0x84, CHR 0x9B]),
    (''&realine;'', [CHR 0xE2, CHR 0x84, CHR 0x9B]),
    (''&real;'', [CHR 0xE2, CHR 0x84, CHR 0x9C]),
    (''&Re;'', [CHR 0xE2, CHR 0x84, CHR 0x9C]),
    (''&realpart;'', [CHR 0xE2, CHR 0x84, CHR 0x9C]),
    (''&Rfr;'', [CHR 0xE2, CHR 0x84, CHR 0x9C]),
    (''&reals;'', [CHR 0xE2, CHR 0x84, CHR 0x9D]),
    (''&Ropf;'', [CHR 0xE2, CHR 0x84, CHR 0x9D]),
    (''&rx;'', [CHR 0xE2, CHR 0x84, CHR 0x9E]),
    (''&trade;'', [CHR 0xE2, CHR 0x84, CHR 0xA2]),
    (''&TRADE;'', [CHR 0xE2, CHR 0x84, CHR 0xA2]),
    (''&integers;'', [CHR 0xE2, CHR 0x84, CHR 0xA4]),
    (''&Zopf;'', [CHR 0xE2, CHR 0x84, CHR 0xA4]),
    (''&ohm;'', [CHR 0xE2, CHR 0x84, CHR 0xA6]),
    (''&mho;'', [CHR 0xE2, CHR 0x84, CHR 0xA7]),
    (''&Zfr;'', [CHR 0xE2, CHR 0x84, CHR 0xA8]),
    (''&zeetrf;'', [CHR 0xE2, CHR 0x84, CHR 0xA8]),
    (''&iiota;'', [CHR 0xE2, CHR 0x84, CHR 0xA9]),
    (''&angst;'', [CHR 0xE2, CHR 0x84, CHR 0xAB]),
    (''&bernou;'', [CHR 0xE2, CHR 0x84, CHR 0xAC]),
    (''&Bernoullis;'', [CHR 0xE2, CHR 0x84, CHR 0xAC]),
    (''&Bscr;'', [CHR 0xE2, CHR 0x84, CHR 0xAC]),
    (''&Cfr;'', [CHR 0xE2, CHR 0x84, CHR 0xAD]),
    (''&Cayleys;'', [CHR 0xE2, CHR 0x84, CHR 0xAD]),
    (''&escr;'', [CHR 0xE2, CHR 0x84, CHR 0xAF])]"

definition HtmlEntities_5 :: "(string, string) al" where
  "HtmlEntities_5 = [
    (''&Escr;'', [CHR 0xE2, CHR 0x84, CHR 0xB0]),
    (''&expectation;'', [CHR 0xE2, CHR 0x84, CHR 0xB0]),
    (''&Fscr;'', [CHR 0xE2, CHR 0x84, CHR 0xB1]),
    (''&Fouriertrf;'', [CHR 0xE2, CHR 0x84, CHR 0xB1]),
    (''&phmmat;'', [CHR 0xE2, CHR 0x84, CHR 0xB3]),
    (''&Mellintrf;'', [CHR 0xE2, CHR 0x84, CHR 0xB3]),
    (''&Mscr;'', [CHR 0xE2, CHR 0x84, CHR 0xB3]),
    (''&order;'', [CHR 0xE2, CHR 0x84, CHR 0xB4]),
    (''&orderof;'', [CHR 0xE2, CHR 0x84, CHR 0xB4]),
    (''&oscr;'', [CHR 0xE2, CHR 0x84, CHR 0xB4]),
    (''&alefsym;'', [CHR 0xE2, CHR 0x84, CHR 0xB5]),
    (''&aleph;'', [CHR 0xE2, CHR 0x84, CHR 0xB5]),
    (''&beth;'', [CHR 0xE2, CHR 0x84, CHR 0xB6]),
    (''&gimel;'', [CHR 0xE2, CHR 0x84, CHR 0xB7]),
    (''&daleth;'', [CHR 0xE2, CHR 0x84, CHR 0xB8]),
    (''&CapitalDifferentialD;'', [CHR 0xE2, CHR 0x85, CHR 0x85]),
    (''&DD;'', [CHR 0xE2, CHR 0x85, CHR 0x85]),
    (''&DifferentialD;'', [CHR 0xE2, CHR 0x85, CHR 0x86]),
    (''&dd;'', [CHR 0xE2, CHR 0x85, CHR 0x86]),
    (''&ExponentialE;'', [CHR 0xE2, CHR 0x85, CHR 0x87]),
    (''&exponentiale;'', [CHR 0xE2, CHR 0x85, CHR 0x87]),
    (''&ee;'', [CHR 0xE2, CHR 0x85, CHR 0x87]),
    (''&ImaginaryI;'', [CHR 0xE2, CHR 0x85, CHR 0x88]),
    (''&ii;'', [CHR 0xE2, CHR 0x85, CHR 0x88]),
    (''&frac13;'', [CHR 0xE2, CHR 0x85, CHR 0x93]),
    (''&frac23;'', [CHR 0xE2, CHR 0x85, CHR 0x94]),
    (''&frac15;'', [CHR 0xE2, CHR 0x85, CHR 0x95]),
    (''&frac25;'', [CHR 0xE2, CHR 0x85, CHR 0x96]),
    (''&frac35;'', [CHR 0xE2, CHR 0x85, CHR 0x97]),
    (''&frac45;'', [CHR 0xE2, CHR 0x85, CHR 0x98]),
    (''&frac16;'', [CHR 0xE2, CHR 0x85, CHR 0x99]),
    (''&frac56;'', [CHR 0xE2, CHR 0x85, CHR 0x9A]),
    (''&frac18;'', [CHR 0xE2, CHR 0x85, CHR 0x9B]),
    (''&frac38;'', [CHR 0xE2, CHR 0x85, CHR 0x9C]),
    (''&frac58;'', [CHR 0xE2, CHR 0x85, CHR 0x9D]),
    (''&frac78;'', [CHR 0xE2, CHR 0x85, CHR 0x9E]),
    (''&larr;'', [CHR 0xE2, CHR 0x86, CHR 0x90]),
    (''&leftarrow;'', [CHR 0xE2, CHR 0x86, CHR 0x90]),
    (''&LeftArrow;'', [CHR 0xE2, CHR 0x86, CHR 0x90]),
    (''&slarr;'', [CHR 0xE2, CHR 0x86, CHR 0x90]),
    (''&ShortLeftArrow;'', [CHR 0xE2, CHR 0x86, CHR 0x90]),
    (''&uarr;'', [CHR 0xE2, CHR 0x86, CHR 0x91]),
    (''&uparrow;'', [CHR 0xE2, CHR 0x86, CHR 0x91]),
    (''&UpArrow;'', [CHR 0xE2, CHR 0x86, CHR 0x91]),
    (''&ShortUpArrow;'', [CHR 0xE2, CHR 0x86, CHR 0x91]),
    (''&rarr;'', [CHR 0xE2, CHR 0x86, CHR 0x92]),
    (''&rightarrow;'', [CHR 0xE2, CHR 0x86, CHR 0x92]),
    (''&RightArrow;'', [CHR 0xE2, CHR 0x86, CHR 0x92]),
    (''&srarr;'', [CHR 0xE2, CHR 0x86, CHR 0x92]),
    (''&ShortRightArrow;'', [CHR 0xE2, CHR 0x86, CHR 0x92]),
    (''&darr;'', [CHR 0xE2, CHR 0x86, CHR 0x93]),
    (''&downarrow;'', [CHR 0xE2, CHR 0x86, CHR 0x93]),
    (''&DownArrow;'', [CHR 0xE2, CHR 0x86, CHR 0x93]),
    (''&ShortDownArrow;'', [CHR 0xE2, CHR 0x86, CHR 0x93]),
    (''&harr;'', [CHR 0xE2, CHR 0x86, CHR 0x94]),
    (''&leftrightarrow;'', [CHR 0xE2, CHR 0x86, CHR 0x94]),
    (''&LeftRightArrow;'', [CHR 0xE2, CHR 0x86, CHR 0x94]),
    (''&varr;'', [CHR 0xE2, CHR 0x86, CHR 0x95]),
    (''&updownarrow;'', [CHR 0xE2, CHR 0x86, CHR 0x95]),
    (''&UpDownArrow;'', [CHR 0xE2, CHR 0x86, CHR 0x95]),
    (''&nwarr;'', [CHR 0xE2, CHR 0x86, CHR 0x96]),
    (''&UpperLeftArrow;'', [CHR 0xE2, CHR 0x86, CHR 0x96]),
    (''&nwarrow;'', [CHR 0xE2, CHR 0x86, CHR 0x96]),
    (''&nearr;'', [CHR 0xE2, CHR 0x86, CHR 0x97]),
    (''&UpperRightArrow;'', [CHR 0xE2, CHR 0x86, CHR 0x97]),
    (''&nearrow;'', [CHR 0xE2, CHR 0x86, CHR 0x97]),
    (''&searr;'', [CHR 0xE2, CHR 0x86, CHR 0x98]),
    (''&searrow;'', [CHR 0xE2, CHR 0x86, CHR 0x98]),
    (''&LowerRightArrow;'', [CHR 0xE2, CHR 0x86, CHR 0x98]),
    (''&swarr;'', [CHR 0xE2, CHR 0x86, CHR 0x99]),
    (''&swarrow;'', [CHR 0xE2, CHR 0x86, CHR 0x99]),
    (''&LowerLeftArrow;'', [CHR 0xE2, CHR 0x86, CHR 0x99]),
    (''&nlarr;'', [CHR 0xE2, CHR 0x86, CHR 0x9A]),
    (''&nleftarrow;'', [CHR 0xE2, CHR 0x86, CHR 0x9A]),
    (''&nrarr;'', [CHR 0xE2, CHR 0x86, CHR 0x9B]),
    (''&nrightarrow;'', [CHR 0xE2, CHR 0x86, CHR 0x9B]),
    (''&rarrw;'', [CHR 0xE2, CHR 0x86, CHR 0x9D]),
    (''&rightsquigarrow;'', [CHR 0xE2, CHR 0x86, CHR 0x9D]),
    (''&Larr;'', [CHR 0xE2, CHR 0x86, CHR 0x9E]),
    (''&twoheadleftarrow;'', [CHR 0xE2, CHR 0x86, CHR 0x9E]),
    (''&Uarr;'', [CHR 0xE2, CHR 0x86, CHR 0x9F]),
    (''&Rarr;'', [CHR 0xE2, CHR 0x86, CHR 0xA0]),
    (''&twoheadrightarrow;'', [CHR 0xE2, CHR 0x86, CHR 0xA0]),
    (''&Darr;'', [CHR 0xE2, CHR 0x86, CHR 0xA1]),
    (''&larrtl;'', [CHR 0xE2, CHR 0x86, CHR 0xA2]),
    (''&leftarrowtail;'', [CHR 0xE2, CHR 0x86, CHR 0xA2]),
    (''&rarrtl;'', [CHR 0xE2, CHR 0x86, CHR 0xA3]),
    (''&rightarrowtail;'', [CHR 0xE2, CHR 0x86, CHR 0xA3]),
    (''&LeftTeeArrow;'', [CHR 0xE2, CHR 0x86, CHR 0xA4]),
    (''&mapstoleft;'', [CHR 0xE2, CHR 0x86, CHR 0xA4]),
    (''&UpTeeArrow;'', [CHR 0xE2, CHR 0x86, CHR 0xA5]),
    (''&mapstoup;'', [CHR 0xE2, CHR 0x86, CHR 0xA5]),
    (''&map;'', [CHR 0xE2, CHR 0x86, CHR 0xA6]),
    (''&RightTeeArrow;'', [CHR 0xE2, CHR 0x86, CHR 0xA6]),
    (''&mapsto;'', [CHR 0xE2, CHR 0x86, CHR 0xA6]),
    (''&DownTeeArrow;'', [CHR 0xE2, CHR 0x86, CHR 0xA7]),
    (''&mapstodown;'', [CHR 0xE2, CHR 0x86, CHR 0xA7]),
    (''&larrhk;'', [CHR 0xE2, CHR 0x86, CHR 0xA9]),
    (''&hookleftarrow;'', [CHR 0xE2, CHR 0x86, CHR 0xA9]),
    (''&rarrhk;'', [CHR 0xE2, CHR 0x86, CHR 0xAA]),
    (''&hookrightarrow;'', [CHR 0xE2, CHR 0x86, CHR 0xAA]),
    (''&larrlp;'', [CHR 0xE2, CHR 0x86, CHR 0xAB]),
    (''&looparrowleft;'', [CHR 0xE2, CHR 0x86, CHR 0xAB]),
    (''&rarrlp;'', [CHR 0xE2, CHR 0x86, CHR 0xAC]),
    (''&looparrowright;'', [CHR 0xE2, CHR 0x86, CHR 0xAC]),
    (''&harrw;'', [CHR 0xE2, CHR 0x86, CHR 0xAD]),
    (''&leftrightsquigarrow;'', [CHR 0xE2, CHR 0x86, CHR 0xAD]),
    (''&nharr;'', [CHR 0xE2, CHR 0x86, CHR 0xAE]),
    (''&nleftrightarrow;'', [CHR 0xE2, CHR 0x86, CHR 0xAE]),
    (''&lsh;'', [CHR 0xE2, CHR 0x86, CHR 0xB0]),
    (''&Lsh;'', [CHR 0xE2, CHR 0x86, CHR 0xB0]),
    (''&rsh;'', [CHR 0xE2, CHR 0x86, CHR 0xB1]),
    (''&Rsh;'', [CHR 0xE2, CHR 0x86, CHR 0xB1]),
    (''&ldsh;'', [CHR 0xE2, CHR 0x86, CHR 0xB2]),
    (''&rdsh;'', [CHR 0xE2, CHR 0x86, CHR 0xB3]),
    (''&crarr;'', [CHR 0xE2, CHR 0x86, CHR 0xB5]),
    (''&cularr;'', [CHR 0xE2, CHR 0x86, CHR 0xB6]),
    (''&curvearrowleft;'', [CHR 0xE2, CHR 0x86, CHR 0xB6]),
    (''&curarr;'', [CHR 0xE2, CHR 0x86, CHR 0xB7]),
    (''&curvearrowright;'', [CHR 0xE2, CHR 0x86, CHR 0xB7]),
    (''&olarr;'', [CHR 0xE2, CHR 0x86, CHR 0xBA]),
    (''&circlearrowleft;'', [CHR 0xE2, CHR 0x86, CHR 0xBA]),
    (''&orarr;'', [CHR 0xE2, CHR 0x86, CHR 0xBB]),
    (''&circlearrowright;'', [CHR 0xE2, CHR 0x86, CHR 0xBB]),
    (''&lharu;'', [CHR 0xE2, CHR 0x86, CHR 0xBC]),
    (''&LeftVector;'', [CHR 0xE2, CHR 0x86, CHR 0xBC]),
    (''&leftharpoonup;'', [CHR 0xE2, CHR 0x86, CHR 0xBC]),
    (''&lhard;'', [CHR 0xE2, CHR 0x86, CHR 0xBD]),
    (''&leftharpoondown;'', [CHR 0xE2, CHR 0x86, CHR 0xBD]),
    (''&DownLeftVector;'', [CHR 0xE2, CHR 0x86, CHR 0xBD]),
    (''&uharr;'', [CHR 0xE2, CHR 0x86, CHR 0xBE]),
    (''&upharpoonright;'', [CHR 0xE2, CHR 0x86, CHR 0xBE]),
    (''&RightUpVector;'', [CHR 0xE2, CHR 0x86, CHR 0xBE]),
    (''&uharl;'', [CHR 0xE2, CHR 0x86, CHR 0xBF]),
    (''&upharpoonleft;'', [CHR 0xE2, CHR 0x86, CHR 0xBF]),
    (''&LeftUpVector;'', [CHR 0xE2, CHR 0x86, CHR 0xBF]),
    (''&rharu;'', [CHR 0xE2, CHR 0x87, CHR 0x80]),
    (''&RightVector;'', [CHR 0xE2, CHR 0x87, CHR 0x80]),
    (''&rightharpoonup;'', [CHR 0xE2, CHR 0x87, CHR 0x80]),
    (''&rhard;'', [CHR 0xE2, CHR 0x87, CHR 0x81]),
    (''&rightharpoondown;'', [CHR 0xE2, CHR 0x87, CHR 0x81]),
    (''&DownRightVector;'', [CHR 0xE2, CHR 0x87, CHR 0x81]),
    (''&dharr;'', [CHR 0xE2, CHR 0x87, CHR 0x82]),
    (''&RightDownVector;'', [CHR 0xE2, CHR 0x87, CHR 0x82]),
    (''&downharpoonright;'', [CHR 0xE2, CHR 0x87, CHR 0x82]),
    (''&dharl;'', [CHR 0xE2, CHR 0x87, CHR 0x83]),
    (''&LeftDownVector;'', [CHR 0xE2, CHR 0x87, CHR 0x83]),
    (''&downharpoonleft;'', [CHR 0xE2, CHR 0x87, CHR 0x83]),
    (''&rlarr;'', [CHR 0xE2, CHR 0x87, CHR 0x84]),
    (''&rightleftarrows;'', [CHR 0xE2, CHR 0x87, CHR 0x84])]"

definition HtmlEntities_6 :: "(string, string) al" where
  "HtmlEntities_6 = [
    (''&RightArrowLeftArrow;'', [CHR 0xE2, CHR 0x87, CHR 0x84]),
    (''&udarr;'', [CHR 0xE2, CHR 0x87, CHR 0x85]),
    (''&UpArrowDownArrow;'', [CHR 0xE2, CHR 0x87, CHR 0x85]),
    (''&lrarr;'', [CHR 0xE2, CHR 0x87, CHR 0x86]),
    (''&leftrightarrows;'', [CHR 0xE2, CHR 0x87, CHR 0x86]),
    (''&LeftArrowRightArrow;'', [CHR 0xE2, CHR 0x87, CHR 0x86]),
    (''&llarr;'', [CHR 0xE2, CHR 0x87, CHR 0x87]),
    (''&leftleftarrows;'', [CHR 0xE2, CHR 0x87, CHR 0x87]),
    (''&uuarr;'', [CHR 0xE2, CHR 0x87, CHR 0x88]),
    (''&upuparrows;'', [CHR 0xE2, CHR 0x87, CHR 0x88]),
    (''&rrarr;'', [CHR 0xE2, CHR 0x87, CHR 0x89]),
    (''&rightrightarrows;'', [CHR 0xE2, CHR 0x87, CHR 0x89]),
    (''&ddarr;'', [CHR 0xE2, CHR 0x87, CHR 0x8A]),
    (''&downdownarrows;'', [CHR 0xE2, CHR 0x87, CHR 0x8A]),
    (''&lrhar;'', [CHR 0xE2, CHR 0x87, CHR 0x8B]),
    (''&ReverseEquilibrium;'', [CHR 0xE2, CHR 0x87, CHR 0x8B]),
    (''&leftrightharpoons;'', [CHR 0xE2, CHR 0x87, CHR 0x8B]),
    (''&rlhar;'', [CHR 0xE2, CHR 0x87, CHR 0x8C]),
    (''&rightleftharpoons;'', [CHR 0xE2, CHR 0x87, CHR 0x8C]),
    (''&Equilibrium;'', [CHR 0xE2, CHR 0x87, CHR 0x8C]),
    (''&nlArr;'', [CHR 0xE2, CHR 0x87, CHR 0x8D]),
    (''&nLeftarrow;'', [CHR 0xE2, CHR 0x87, CHR 0x8D]),
    (''&nhArr;'', [CHR 0xE2, CHR 0x87, CHR 0x8E]),
    (''&nLeftrightarrow;'', [CHR 0xE2, CHR 0x87, CHR 0x8E]),
    (''&nrArr;'', [CHR 0xE2, CHR 0x87, CHR 0x8F]),
    (''&nRightarrow;'', [CHR 0xE2, CHR 0x87, CHR 0x8F]),
    (''&lArr;'', [CHR 0xE2, CHR 0x87, CHR 0x90]),
    (''&Leftarrow;'', [CHR 0xE2, CHR 0x87, CHR 0x90]),
    (''&DoubleLeftArrow;'', [CHR 0xE2, CHR 0x87, CHR 0x90]),
    (''&uArr;'', [CHR 0xE2, CHR 0x87, CHR 0x91]),
    (''&Uparrow;'', [CHR 0xE2, CHR 0x87, CHR 0x91]),
    (''&DoubleUpArrow;'', [CHR 0xE2, CHR 0x87, CHR 0x91]),
    (''&rArr;'', [CHR 0xE2, CHR 0x87, CHR 0x92]),
    (''&Rightarrow;'', [CHR 0xE2, CHR 0x87, CHR 0x92]),
    (''&Implies;'', [CHR 0xE2, CHR 0x87, CHR 0x92]),
    (''&DoubleRightArrow;'', [CHR 0xE2, CHR 0x87, CHR 0x92]),
    (''&dArr;'', [CHR 0xE2, CHR 0x87, CHR 0x93]),
    (''&Downarrow;'', [CHR 0xE2, CHR 0x87, CHR 0x93]),
    (''&DoubleDownArrow;'', [CHR 0xE2, CHR 0x87, CHR 0x93]),
    (''&hArr;'', [CHR 0xE2, CHR 0x87, CHR 0x94]),
    (''&Leftrightarrow;'', [CHR 0xE2, CHR 0x87, CHR 0x94]),
    (''&DoubleLeftRightArrow;'', [CHR 0xE2, CHR 0x87, CHR 0x94]),
    (''&iff;'', [CHR 0xE2, CHR 0x87, CHR 0x94]),
    (''&vArr;'', [CHR 0xE2, CHR 0x87, CHR 0x95]),
    (''&Updownarrow;'', [CHR 0xE2, CHR 0x87, CHR 0x95]),
    (''&DoubleUpDownArrow;'', [CHR 0xE2, CHR 0x87, CHR 0x95]),
    (''&nwArr;'', [CHR 0xE2, CHR 0x87, CHR 0x96]),
    (''&neArr;'', [CHR 0xE2, CHR 0x87, CHR 0x97]),
    (''&seArr;'', [CHR 0xE2, CHR 0x87, CHR 0x98]),
    (''&swArr;'', [CHR 0xE2, CHR 0x87, CHR 0x99]),
    (''&lAarr;'', [CHR 0xE2, CHR 0x87, CHR 0x9A]),
    (''&Lleftarrow;'', [CHR 0xE2, CHR 0x87, CHR 0x9A]),
    (''&rAarr;'', [CHR 0xE2, CHR 0x87, CHR 0x9B]),
    (''&Rrightarrow;'', [CHR 0xE2, CHR 0x87, CHR 0x9B]),
    (''&zigrarr;'', [CHR 0xE2, CHR 0x87, CHR 0x9D]),
    (''&larrb;'', [CHR 0xE2, CHR 0x87, CHR 0xA4]),
    (''&LeftArrowBar;'', [CHR 0xE2, CHR 0x87, CHR 0xA4]),
    (''&rarrb;'', [CHR 0xE2, CHR 0x87, CHR 0xA5]),
    (''&RightArrowBar;'', [CHR 0xE2, CHR 0x87, CHR 0xA5]),
    (''&duarr;'', [CHR 0xE2, CHR 0x87, CHR 0xB5]),
    (''&DownArrowUpArrow;'', [CHR 0xE2, CHR 0x87, CHR 0xB5]),
    (''&loarr;'', [CHR 0xE2, CHR 0x87, CHR 0xBD]),
    (''&roarr;'', [CHR 0xE2, CHR 0x87, CHR 0xBE]),
    (''&hoarr;'', [CHR 0xE2, CHR 0x87, CHR 0xBF]),
    (''&forall;'', [CHR 0xE2, CHR 0x88, CHR 0x80]),
    (''&ForAll;'', [CHR 0xE2, CHR 0x88, CHR 0x80]),
    (''&comp;'', [CHR 0xE2, CHR 0x88, CHR 0x81]),
    (''&complement;'', [CHR 0xE2, CHR 0x88, CHR 0x81]),
    (''&part;'', [CHR 0xE2, CHR 0x88, CHR 0x82]),
    (''&PartialD;'', [CHR 0xE2, CHR 0x88, CHR 0x82]),
    (''&exist;'', [CHR 0xE2, CHR 0x88, CHR 0x83]),
    (''&Exists;'', [CHR 0xE2, CHR 0x88, CHR 0x83]),
    (''&nexist;'', [CHR 0xE2, CHR 0x88, CHR 0x84]),
    (''&NotExists;'', [CHR 0xE2, CHR 0x88, CHR 0x84]),
    (''&nexists;'', [CHR 0xE2, CHR 0x88, CHR 0x84]),
    (''&empty;'', [CHR 0xE2, CHR 0x88, CHR 0x85]),
    (''&emptyset;'', [CHR 0xE2, CHR 0x88, CHR 0x85]),
    (''&emptyv;'', [CHR 0xE2, CHR 0x88, CHR 0x85]),
    (''&varnothing;'', [CHR 0xE2, CHR 0x88, CHR 0x85]),
    (''&nabla;'', [CHR 0xE2, CHR 0x88, CHR 0x87]),
    (''&Del;'', [CHR 0xE2, CHR 0x88, CHR 0x87]),
    (''&isin;'', [CHR 0xE2, CHR 0x88, CHR 0x88]),
    (''&isinv;'', [CHR 0xE2, CHR 0x88, CHR 0x88]),
    (''&Element;'', [CHR 0xE2, CHR 0x88, CHR 0x88]),
    (''&in;'', [CHR 0xE2, CHR 0x88, CHR 0x88]),
    (''&notin;'', [CHR 0xE2, CHR 0x88, CHR 0x89]),
    (''&NotElement;'', [CHR 0xE2, CHR 0x88, CHR 0x89]),
    (''&notinva;'', [CHR 0xE2, CHR 0x88, CHR 0x89]),
    (''&niv;'', [CHR 0xE2, CHR 0x88, CHR 0x8B]),
    (''&ReverseElement;'', [CHR 0xE2, CHR 0x88, CHR 0x8B]),
    (''&ni;'', [CHR 0xE2, CHR 0x88, CHR 0x8B]),
    (''&SuchThat;'', [CHR 0xE2, CHR 0x88, CHR 0x8B]),
    (''&notni;'', [CHR 0xE2, CHR 0x88, CHR 0x8C]),
    (''&notniva;'', [CHR 0xE2, CHR 0x88, CHR 0x8C]),
    (''&NotReverseElement;'', [CHR 0xE2, CHR 0x88, CHR 0x8C]),
    (''&prod;'', [CHR 0xE2, CHR 0x88, CHR 0x8F]),
    (''&Product;'', [CHR 0xE2, CHR 0x88, CHR 0x8F]),
    (''&coprod;'', [CHR 0xE2, CHR 0x88, CHR 0x90]),
    (''&Coproduct;'', [CHR 0xE2, CHR 0x88, CHR 0x90]),
    (''&sum;'', [CHR 0xE2, CHR 0x88, CHR 0x91]),
    (''&Sum;'', [CHR 0xE2, CHR 0x88, CHR 0x91]),
    (''&minus;'', [CHR 0xE2, CHR 0x88, CHR 0x92]),
    (''&mnplus;'', [CHR 0xE2, CHR 0x88, CHR 0x93]),
    (''&mp;'', [CHR 0xE2, CHR 0x88, CHR 0x93]),
    (''&MinusPlus;'', [CHR 0xE2, CHR 0x88, CHR 0x93]),
    (''&plusdo;'', [CHR 0xE2, CHR 0x88, CHR 0x94]),
    (''&dotplus;'', [CHR 0xE2, CHR 0x88, CHR 0x94]),
    (''&setmn;'', [CHR 0xE2, CHR 0x88, CHR 0x96]),
    (''&setminus;'', [CHR 0xE2, CHR 0x88, CHR 0x96]),
    (''&Backslash;'', [CHR 0xE2, CHR 0x88, CHR 0x96]),
    (''&ssetmn;'', [CHR 0xE2, CHR 0x88, CHR 0x96]),
    (''&smallsetminus;'', [CHR 0xE2, CHR 0x88, CHR 0x96]),
    (''&lowast;'', [CHR 0xE2, CHR 0x88, CHR 0x97]),
    (''&compfn;'', [CHR 0xE2, CHR 0x88, CHR 0x98]),
    (''&SmallCircle;'', [CHR 0xE2, CHR 0x88, CHR 0x98]),
    (''&radic;'', [CHR 0xE2, CHR 0x88, CHR 0x9A]),
    (''&Sqrt;'', [CHR 0xE2, CHR 0x88, CHR 0x9A]),
    (''&prop;'', [CHR 0xE2, CHR 0x88, CHR 0x9D]),
    (''&propto;'', [CHR 0xE2, CHR 0x88, CHR 0x9D]),
    (''&Proportional;'', [CHR 0xE2, CHR 0x88, CHR 0x9D]),
    (''&vprop;'', [CHR 0xE2, CHR 0x88, CHR 0x9D]),
    (''&varpropto;'', [CHR 0xE2, CHR 0x88, CHR 0x9D]),
    (''&infin;'', [CHR 0xE2, CHR 0x88, CHR 0x9E]),
    (''&angrt;'', [CHR 0xE2, CHR 0x88, CHR 0x9F]),
    (''&ang;'', [CHR 0xE2, CHR 0x88, CHR 0xA0]),
    (''&angle;'', [CHR 0xE2, CHR 0x88, CHR 0xA0]),
    (''&angmsd;'', [CHR 0xE2, CHR 0x88, CHR 0xA1]),
    (''&measuredangle;'', [CHR 0xE2, CHR 0x88, CHR 0xA1]),
    (''&angsph;'', [CHR 0xE2, CHR 0x88, CHR 0xA2]),
    (''&mid;'', [CHR 0xE2, CHR 0x88, CHR 0xA3]),
    (''&VerticalBar;'', [CHR 0xE2, CHR 0x88, CHR 0xA3]),
    (''&smid;'', [CHR 0xE2, CHR 0x88, CHR 0xA3]),
    (''&shortmid;'', [CHR 0xE2, CHR 0x88, CHR 0xA3]),
    (''&nmid;'', [CHR 0xE2, CHR 0x88, CHR 0xA4]),
    (''&NotVerticalBar;'', [CHR 0xE2, CHR 0x88, CHR 0xA4]),
    (''&nsmid;'', [CHR 0xE2, CHR 0x88, CHR 0xA4]),
    (''&nshortmid;'', [CHR 0xE2, CHR 0x88, CHR 0xA4]),
    (''&par;'', [CHR 0xE2, CHR 0x88, CHR 0xA5]),
    (''&parallel;'', [CHR 0xE2, CHR 0x88, CHR 0xA5]),
    (''&DoubleVerticalBar;'', [CHR 0xE2, CHR 0x88, CHR 0xA5]),
    (''&spar;'', [CHR 0xE2, CHR 0x88, CHR 0xA5]),
    (''&shortparallel;'', [CHR 0xE2, CHR 0x88, CHR 0xA5]),
    (''&npar;'', [CHR 0xE2, CHR 0x88, CHR 0xA6]),
    (''&nparallel;'', [CHR 0xE2, CHR 0x88, CHR 0xA6]),
    (''&NotDoubleVerticalBar;'', [CHR 0xE2, CHR 0x88, CHR 0xA6]),
    (''&nspar;'', [CHR 0xE2, CHR 0x88, CHR 0xA6]),
    (''&nshortparallel;'', [CHR 0xE2, CHR 0x88, CHR 0xA6]),
    (''&and;'', [CHR 0xE2, CHR 0x88, CHR 0xA7]),
    (''&wedge;'', [CHR 0xE2, CHR 0x88, CHR 0xA7]),
    (''&or;'', [CHR 0xE2, CHR 0x88, CHR 0xA8])]"

definition HtmlEntities_7 :: "(string, string) al" where
  "HtmlEntities_7 = [
    (''&vee;'', [CHR 0xE2, CHR 0x88, CHR 0xA8]),
    (''&cap;'', [CHR 0xE2, CHR 0x88, CHR 0xA9]),
    (''&cup;'', [CHR 0xE2, CHR 0x88, CHR 0xAA]),
    (''&int;'', [CHR 0xE2, CHR 0x88, CHR 0xAB]),
    (''&Integral;'', [CHR 0xE2, CHR 0x88, CHR 0xAB]),
    (''&Int;'', [CHR 0xE2, CHR 0x88, CHR 0xAC]),
    (''&tint;'', [CHR 0xE2, CHR 0x88, CHR 0xAD]),
    (''&iiint;'', [CHR 0xE2, CHR 0x88, CHR 0xAD]),
    (''&conint;'', [CHR 0xE2, CHR 0x88, CHR 0xAE]),
    (''&oint;'', [CHR 0xE2, CHR 0x88, CHR 0xAE]),
    (''&ContourIntegral;'', [CHR 0xE2, CHR 0x88, CHR 0xAE]),
    (''&Conint;'', [CHR 0xE2, CHR 0x88, CHR 0xAF]),
    (''&DoubleContourIntegral;'', [CHR 0xE2, CHR 0x88, CHR 0xAF]),
    (''&Cconint;'', [CHR 0xE2, CHR 0x88, CHR 0xB0]),
    (''&cwint;'', [CHR 0xE2, CHR 0x88, CHR 0xB1]),
    (''&cwconint;'', [CHR 0xE2, CHR 0x88, CHR 0xB2]),
    (''&ClockwiseContourIntegral;'', [CHR 0xE2, CHR 0x88, CHR 0xB2]),
    (''&awconint;'', [CHR 0xE2, CHR 0x88, CHR 0xB3]),
    (''&CounterClockwiseContourIntegral;'', [CHR 0xE2, CHR 0x88, CHR 0xB3]),
    (''&there4;'', [CHR 0xE2, CHR 0x88, CHR 0xB4]),
    (''&therefore;'', [CHR 0xE2, CHR 0x88, CHR 0xB4]),
    (''&Therefore;'', [CHR 0xE2, CHR 0x88, CHR 0xB4]),
    (''&becaus;'', [CHR 0xE2, CHR 0x88, CHR 0xB5]),
    (''&because;'', [CHR 0xE2, CHR 0x88, CHR 0xB5]),
    (''&Because;'', [CHR 0xE2, CHR 0x88, CHR 0xB5]),
    (''&ratio;'', [CHR 0xE2, CHR 0x88, CHR 0xB6]),
    (''&Colon;'', [CHR 0xE2, CHR 0x88, CHR 0xB7]),
    (''&Proportion;'', [CHR 0xE2, CHR 0x88, CHR 0xB7]),
    (''&minusd;'', [CHR 0xE2, CHR 0x88, CHR 0xB8]),
    (''&dotminus;'', [CHR 0xE2, CHR 0x88, CHR 0xB8]),
    (''&mDDot;'', [CHR 0xE2, CHR 0x88, CHR 0xBA]),
    (''&homtht;'', [CHR 0xE2, CHR 0x88, CHR 0xBB]),
    (''&sim;'', [CHR 0xE2, CHR 0x88, CHR 0xBC]),
    (''&Tilde;'', [CHR 0xE2, CHR 0x88, CHR 0xBC]),
    (''&thksim;'', [CHR 0xE2, CHR 0x88, CHR 0xBC]),
    (''&thicksim;'', [CHR 0xE2, CHR 0x88, CHR 0xBC]),
    (''&bsim;'', [CHR 0xE2, CHR 0x88, CHR 0xBD]),
    (''&backsim;'', [CHR 0xE2, CHR 0x88, CHR 0xBD]),
    (''&ac;'', [CHR 0xE2, CHR 0x88, CHR 0xBE]),
    (''&mstpos;'', [CHR 0xE2, CHR 0x88, CHR 0xBE]),
    (''&acd;'', [CHR 0xE2, CHR 0x88, CHR 0xBF]),
    (''&wreath;'', [CHR 0xE2, CHR 0x89, CHR 0x80]),
    (''&VerticalTilde;'', [CHR 0xE2, CHR 0x89, CHR 0x80]),
    (''&wr;'', [CHR 0xE2, CHR 0x89, CHR 0x80]),
    (''&nsim;'', [CHR 0xE2, CHR 0x89, CHR 0x81]),
    (''&NotTilde;'', [CHR 0xE2, CHR 0x89, CHR 0x81]),
    (''&esim;'', [CHR 0xE2, CHR 0x89, CHR 0x82]),
    (''&EqualTilde;'', [CHR 0xE2, CHR 0x89, CHR 0x82]),
    (''&eqsim;'', [CHR 0xE2, CHR 0x89, CHR 0x82]),
    (''&sime;'', [CHR 0xE2, CHR 0x89, CHR 0x83]),
    (''&TildeEqual;'', [CHR 0xE2, CHR 0x89, CHR 0x83]),
    (''&simeq;'', [CHR 0xE2, CHR 0x89, CHR 0x83]),
    (''&nsime;'', [CHR 0xE2, CHR 0x89, CHR 0x84]),
    (''&nsimeq;'', [CHR 0xE2, CHR 0x89, CHR 0x84]),
    (''&NotTildeEqual;'', [CHR 0xE2, CHR 0x89, CHR 0x84]),
    (''&cong;'', [CHR 0xE2, CHR 0x89, CHR 0x85]),
    (''&TildeFullEqual;'', [CHR 0xE2, CHR 0x89, CHR 0x85]),
    (''&simne;'', [CHR 0xE2, CHR 0x89, CHR 0x86]),
    (''&ncong;'', [CHR 0xE2, CHR 0x89, CHR 0x87]),
    (''&NotTildeFullEqual;'', [CHR 0xE2, CHR 0x89, CHR 0x87]),
    (''&asymp;'', [CHR 0xE2, CHR 0x89, CHR 0x88]),
    (''&ap;'', [CHR 0xE2, CHR 0x89, CHR 0x88]),
    (''&TildeTilde;'', [CHR 0xE2, CHR 0x89, CHR 0x88]),
    (''&approx;'', [CHR 0xE2, CHR 0x89, CHR 0x88]),
    (''&thkap;'', [CHR 0xE2, CHR 0x89, CHR 0x88]),
    (''&thickapprox;'', [CHR 0xE2, CHR 0x89, CHR 0x88]),
    (''&nap;'', [CHR 0xE2, CHR 0x89, CHR 0x89]),
    (''&NotTildeTilde;'', [CHR 0xE2, CHR 0x89, CHR 0x89]),
    (''&napprox;'', [CHR 0xE2, CHR 0x89, CHR 0x89]),
    (''&ape;'', [CHR 0xE2, CHR 0x89, CHR 0x8A]),
    (''&approxeq;'', [CHR 0xE2, CHR 0x89, CHR 0x8A]),
    (''&apid;'', [CHR 0xE2, CHR 0x89, CHR 0x8B]),
    (''&bcong;'', [CHR 0xE2, CHR 0x89, CHR 0x8C]),
    (''&backcong;'', [CHR 0xE2, CHR 0x89, CHR 0x8C]),
    (''&asympeq;'', [CHR 0xE2, CHR 0x89, CHR 0x8D]),
    (''&CupCap;'', [CHR 0xE2, CHR 0x89, CHR 0x8D]),
    (''&bump;'', [CHR 0xE2, CHR 0x89, CHR 0x8E]),
    (''&HumpDownHump;'', [CHR 0xE2, CHR 0x89, CHR 0x8E]),
    (''&Bumpeq;'', [CHR 0xE2, CHR 0x89, CHR 0x8E]),
    (''&bumpe;'', [CHR 0xE2, CHR 0x89, CHR 0x8F]),
    (''&HumpEqual;'', [CHR 0xE2, CHR 0x89, CHR 0x8F]),
    (''&bumpeq;'', [CHR 0xE2, CHR 0x89, CHR 0x8F]),
    (''&esdot;'', [CHR 0xE2, CHR 0x89, CHR 0x90]),
    (''&DotEqual;'', [CHR 0xE2, CHR 0x89, CHR 0x90]),
    (''&doteq;'', [CHR 0xE2, CHR 0x89, CHR 0x90]),
    (''&eDot;'', [CHR 0xE2, CHR 0x89, CHR 0x91]),
    (''&doteqdot;'', [CHR 0xE2, CHR 0x89, CHR 0x91]),
    (''&efDot;'', [CHR 0xE2, CHR 0x89, CHR 0x92]),
    (''&fallingdotseq;'', [CHR 0xE2, CHR 0x89, CHR 0x92]),
    (''&erDot;'', [CHR 0xE2, CHR 0x89, CHR 0x93]),
    (''&risingdotseq;'', [CHR 0xE2, CHR 0x89, CHR 0x93]),
    (''&colone;'', [CHR 0xE2, CHR 0x89, CHR 0x94]),
    (''&coloneq;'', [CHR 0xE2, CHR 0x89, CHR 0x94]),
    (''&Assign;'', [CHR 0xE2, CHR 0x89, CHR 0x94]),
    (''&ecolon;'', [CHR 0xE2, CHR 0x89, CHR 0x95]),
    (''&eqcolon;'', [CHR 0xE2, CHR 0x89, CHR 0x95]),
    (''&ecir;'', [CHR 0xE2, CHR 0x89, CHR 0x96]),
    (''&eqcirc;'', [CHR 0xE2, CHR 0x89, CHR 0x96]),
    (''&cire;'', [CHR 0xE2, CHR 0x89, CHR 0x97]),
    (''&circeq;'', [CHR 0xE2, CHR 0x89, CHR 0x97]),
    (''&wedgeq;'', [CHR 0xE2, CHR 0x89, CHR 0x99]),
    (''&veeeq;'', [CHR 0xE2, CHR 0x89, CHR 0x9A]),
    (''&trie;'', [CHR 0xE2, CHR 0x89, CHR 0x9C]),
    (''&triangleq;'', [CHR 0xE2, CHR 0x89, CHR 0x9C]),
    (''&equest;'', [CHR 0xE2, CHR 0x89, CHR 0x9F]),
    (''&questeq;'', [CHR 0xE2, CHR 0x89, CHR 0x9F]),
    (''&ne;'', [CHR 0xE2, CHR 0x89, CHR 0xA0]),
    (''&NotEqual;'', [CHR 0xE2, CHR 0x89, CHR 0xA0]),
    (''&equiv;'', [CHR 0xE2, CHR 0x89, CHR 0xA1]),
    (''&Congruent;'', [CHR 0xE2, CHR 0x89, CHR 0xA1]),
    (''&nequiv;'', [CHR 0xE2, CHR 0x89, CHR 0xA2]),
    (''&NotCongruent;'', [CHR 0xE2, CHR 0x89, CHR 0xA2]),
    (''&le;'', [CHR 0xE2, CHR 0x89, CHR 0xA4]),
    (''&leq;'', [CHR 0xE2, CHR 0x89, CHR 0xA4]),
    (''&ge;'', [CHR 0xE2, CHR 0x89, CHR 0xA5]),
    (''&GreaterEqual;'', [CHR 0xE2, CHR 0x89, CHR 0xA5]),
    (''&geq;'', [CHR 0xE2, CHR 0x89, CHR 0xA5]),
    (''&lE;'', [CHR 0xE2, CHR 0x89, CHR 0xA6]),
    (''&LessFullEqual;'', [CHR 0xE2, CHR 0x89, CHR 0xA6]),
    (''&leqq;'', [CHR 0xE2, CHR 0x89, CHR 0xA6]),
    (''&gE;'', [CHR 0xE2, CHR 0x89, CHR 0xA7]),
    (''&GreaterFullEqual;'', [CHR 0xE2, CHR 0x89, CHR 0xA7]),
    (''&geqq;'', [CHR 0xE2, CHR 0x89, CHR 0xA7]),
    (''&lnE;'', [CHR 0xE2, CHR 0x89, CHR 0xA8]),
    (''&lneqq;'', [CHR 0xE2, CHR 0x89, CHR 0xA8]),
    (''&gnE;'', [CHR 0xE2, CHR 0x89, CHR 0xA9]),
    (''&gneqq;'', [CHR 0xE2, CHR 0x89, CHR 0xA9]),
    (''&Lt;'', [CHR 0xE2, CHR 0x89, CHR 0xAA]),
    (''&NestedLessLess;'', [CHR 0xE2, CHR 0x89, CHR 0xAA]),
    (''&ll;'', [CHR 0xE2, CHR 0x89, CHR 0xAA]),
    (''&Gt;'', [CHR 0xE2, CHR 0x89, CHR 0xAB]),
    (''&NestedGreaterGreater;'', [CHR 0xE2, CHR 0x89, CHR 0xAB]),
    (''&gg;'', [CHR 0xE2, CHR 0x89, CHR 0xAB]),
    (''&twixt;'', [CHR 0xE2, CHR 0x89, CHR 0xAC]),
    (''&between;'', [CHR 0xE2, CHR 0x89, CHR 0xAC]),
    (''&NotCupCap;'', [CHR 0xE2, CHR 0x89, CHR 0xAD]),
    (''&nlt;'', [CHR 0xE2, CHR 0x89, CHR 0xAE]),
    (''&NotLess;'', [CHR 0xE2, CHR 0x89, CHR 0xAE]),
    (''&nless;'', [CHR 0xE2, CHR 0x89, CHR 0xAE]),
    (''&ngt;'', [CHR 0xE2, CHR 0x89, CHR 0xAF]),
    (''&NotGreater;'', [CHR 0xE2, CHR 0x89, CHR 0xAF]),
    (''&ngtr;'', [CHR 0xE2, CHR 0x89, CHR 0xAF]),
    (''&nle;'', [CHR 0xE2, CHR 0x89, CHR 0xB0]),
    (''&NotLessEqual;'', [CHR 0xE2, CHR 0x89, CHR 0xB0]),
    (''&nleq;'', [CHR 0xE2, CHR 0x89, CHR 0xB0]),
    (''&nge;'', [CHR 0xE2, CHR 0x89, CHR 0xB1]),
    (''&NotGreaterEqual;'', [CHR 0xE2, CHR 0x89, CHR 0xB1]),
    (''&ngeq;'', [CHR 0xE2, CHR 0x89, CHR 0xB1]),
    (''&lsim;'', [CHR 0xE2, CHR 0x89, CHR 0xB2]),
    (''&LessTilde;'', [CHR 0xE2, CHR 0x89, CHR 0xB2])]"

definition HtmlEntities_8 :: "(string, string) al" where
  "HtmlEntities_8 = [
    (''&lesssim;'', [CHR 0xE2, CHR 0x89, CHR 0xB2]),
    (''&gsim;'', [CHR 0xE2, CHR 0x89, CHR 0xB3]),
    (''&gtrsim;'', [CHR 0xE2, CHR 0x89, CHR 0xB3]),
    (''&GreaterTilde;'', [CHR 0xE2, CHR 0x89, CHR 0xB3]),
    (''&nlsim;'', [CHR 0xE2, CHR 0x89, CHR 0xB4]),
    (''&NotLessTilde;'', [CHR 0xE2, CHR 0x89, CHR 0xB4]),
    (''&ngsim;'', [CHR 0xE2, CHR 0x89, CHR 0xB5]),
    (''&NotGreaterTilde;'', [CHR 0xE2, CHR 0x89, CHR 0xB5]),
    (''&lg;'', [CHR 0xE2, CHR 0x89, CHR 0xB6]),
    (''&lessgtr;'', [CHR 0xE2, CHR 0x89, CHR 0xB6]),
    (''&LessGreater;'', [CHR 0xE2, CHR 0x89, CHR 0xB6]),
    (''&gl;'', [CHR 0xE2, CHR 0x89, CHR 0xB7]),
    (''&gtrless;'', [CHR 0xE2, CHR 0x89, CHR 0xB7]),
    (''&GreaterLess;'', [CHR 0xE2, CHR 0x89, CHR 0xB7]),
    (''&ntlg;'', [CHR 0xE2, CHR 0x89, CHR 0xB8]),
    (''&NotLessGreater;'', [CHR 0xE2, CHR 0x89, CHR 0xB8]),
    (''&ntgl;'', [CHR 0xE2, CHR 0x89, CHR 0xB9]),
    (''&NotGreaterLess;'', [CHR 0xE2, CHR 0x89, CHR 0xB9]),
    (''&pr;'', [CHR 0xE2, CHR 0x89, CHR 0xBA]),
    (''&Precedes;'', [CHR 0xE2, CHR 0x89, CHR 0xBA]),
    (''&prec;'', [CHR 0xE2, CHR 0x89, CHR 0xBA]),
    (''&sc;'', [CHR 0xE2, CHR 0x89, CHR 0xBB]),
    (''&Succeeds;'', [CHR 0xE2, CHR 0x89, CHR 0xBB]),
    (''&succ;'', [CHR 0xE2, CHR 0x89, CHR 0xBB]),
    (''&prcue;'', [CHR 0xE2, CHR 0x89, CHR 0xBC]),
    (''&PrecedesSlantEqual;'', [CHR 0xE2, CHR 0x89, CHR 0xBC]),
    (''&preccurlyeq;'', [CHR 0xE2, CHR 0x89, CHR 0xBC]),
    (''&sccue;'', [CHR 0xE2, CHR 0x89, CHR 0xBD]),
    (''&SucceedsSlantEqual;'', [CHR 0xE2, CHR 0x89, CHR 0xBD]),
    (''&succcurlyeq;'', [CHR 0xE2, CHR 0x89, CHR 0xBD]),
    (''&prsim;'', [CHR 0xE2, CHR 0x89, CHR 0xBE]),
    (''&precsim;'', [CHR 0xE2, CHR 0x89, CHR 0xBE]),
    (''&PrecedesTilde;'', [CHR 0xE2, CHR 0x89, CHR 0xBE]),
    (''&scsim;'', [CHR 0xE2, CHR 0x89, CHR 0xBF]),
    (''&succsim;'', [CHR 0xE2, CHR 0x89, CHR 0xBF]),
    (''&SucceedsTilde;'', [CHR 0xE2, CHR 0x89, CHR 0xBF]),
    (''&npr;'', [CHR 0xE2, CHR 0x8A, CHR 0x80]),
    (''&nprec;'', [CHR 0xE2, CHR 0x8A, CHR 0x80]),
    (''&NotPrecedes;'', [CHR 0xE2, CHR 0x8A, CHR 0x80]),
    (''&nsc;'', [CHR 0xE2, CHR 0x8A, CHR 0x81]),
    (''&nsucc;'', [CHR 0xE2, CHR 0x8A, CHR 0x81]),
    (''&NotSucceeds;'', [CHR 0xE2, CHR 0x8A, CHR 0x81]),
    (''&sub;'', [CHR 0xE2, CHR 0x8A, CHR 0x82]),
    (''&subset;'', [CHR 0xE2, CHR 0x8A, CHR 0x82]),
    (''&sup;'', [CHR 0xE2, CHR 0x8A, CHR 0x83]),
    (''&supset;'', [CHR 0xE2, CHR 0x8A, CHR 0x83]),
    (''&Superset;'', [CHR 0xE2, CHR 0x8A, CHR 0x83]),
    (''&nsub;'', [CHR 0xE2, CHR 0x8A, CHR 0x84]),
    (''&nsup;'', [CHR 0xE2, CHR 0x8A, CHR 0x85]),
    (''&sube;'', [CHR 0xE2, CHR 0x8A, CHR 0x86]),
    (''&SubsetEqual;'', [CHR 0xE2, CHR 0x8A, CHR 0x86]),
    (''&subseteq;'', [CHR 0xE2, CHR 0x8A, CHR 0x86]),
    (''&supe;'', [CHR 0xE2, CHR 0x8A, CHR 0x87]),
    (''&supseteq;'', [CHR 0xE2, CHR 0x8A, CHR 0x87]),
    (''&SupersetEqual;'', [CHR 0xE2, CHR 0x8A, CHR 0x87]),
    (''&nsube;'', [CHR 0xE2, CHR 0x8A, CHR 0x88]),
    (''&nsubseteq;'', [CHR 0xE2, CHR 0x8A, CHR 0x88]),
    (''&NotSubsetEqual;'', [CHR 0xE2, CHR 0x8A, CHR 0x88]),
    (''&nsupe;'', [CHR 0xE2, CHR 0x8A, CHR 0x89]),
    (''&nsupseteq;'', [CHR 0xE2, CHR 0x8A, CHR 0x89]),
    (''&NotSupersetEqual;'', [CHR 0xE2, CHR 0x8A, CHR 0x89]),
    (''&subne;'', [CHR 0xE2, CHR 0x8A, CHR 0x8A]),
    (''&subsetneq;'', [CHR 0xE2, CHR 0x8A, CHR 0x8A]),
    (''&supne;'', [CHR 0xE2, CHR 0x8A, CHR 0x8B]),
    (''&supsetneq;'', [CHR 0xE2, CHR 0x8A, CHR 0x8B]),
    (''&cupdot;'', [CHR 0xE2, CHR 0x8A, CHR 0x8D]),
    (''&uplus;'', [CHR 0xE2, CHR 0x8A, CHR 0x8E]),
    (''&UnionPlus;'', [CHR 0xE2, CHR 0x8A, CHR 0x8E]),
    (''&sqsub;'', [CHR 0xE2, CHR 0x8A, CHR 0x8F]),
    (''&SquareSubset;'', [CHR 0xE2, CHR 0x8A, CHR 0x8F]),
    (''&sqsubset;'', [CHR 0xE2, CHR 0x8A, CHR 0x8F]),
    (''&sqsup;'', [CHR 0xE2, CHR 0x8A, CHR 0x90]),
    (''&SquareSuperset;'', [CHR 0xE2, CHR 0x8A, CHR 0x90]),
    (''&sqsupset;'', [CHR 0xE2, CHR 0x8A, CHR 0x90]),
    (''&sqsube;'', [CHR 0xE2, CHR 0x8A, CHR 0x91]),
    (''&SquareSubsetEqual;'', [CHR 0xE2, CHR 0x8A, CHR 0x91]),
    (''&sqsubseteq;'', [CHR 0xE2, CHR 0x8A, CHR 0x91]),
    (''&sqsupe;'', [CHR 0xE2, CHR 0x8A, CHR 0x92]),
    (''&SquareSupersetEqual;'', [CHR 0xE2, CHR 0x8A, CHR 0x92]),
    (''&sqsupseteq;'', [CHR 0xE2, CHR 0x8A, CHR 0x92]),
    (''&sqcap;'', [CHR 0xE2, CHR 0x8A, CHR 0x93]),
    (''&SquareIntersection;'', [CHR 0xE2, CHR 0x8A, CHR 0x93]),
    (''&sqcup;'', [CHR 0xE2, CHR 0x8A, CHR 0x94]),
    (''&SquareUnion;'', [CHR 0xE2, CHR 0x8A, CHR 0x94]),
    (''&oplus;'', [CHR 0xE2, CHR 0x8A, CHR 0x95]),
    (''&CirclePlus;'', [CHR 0xE2, CHR 0x8A, CHR 0x95]),
    (''&ominus;'', [CHR 0xE2, CHR 0x8A, CHR 0x96]),
    (''&CircleMinus;'', [CHR 0xE2, CHR 0x8A, CHR 0x96]),
    (''&otimes;'', [CHR 0xE2, CHR 0x8A, CHR 0x97]),
    (''&CircleTimes;'', [CHR 0xE2, CHR 0x8A, CHR 0x97]),
    (''&osol;'', [CHR 0xE2, CHR 0x8A, CHR 0x98]),
    (''&odot;'', [CHR 0xE2, CHR 0x8A, CHR 0x99]),
    (''&CircleDot;'', [CHR 0xE2, CHR 0x8A, CHR 0x99]),
    (''&ocir;'', [CHR 0xE2, CHR 0x8A, CHR 0x9A]),
    (''&circledcirc;'', [CHR 0xE2, CHR 0x8A, CHR 0x9A]),
    (''&oast;'', [CHR 0xE2, CHR 0x8A, CHR 0x9B]),
    (''&circledast;'', [CHR 0xE2, CHR 0x8A, CHR 0x9B]),
    (''&odash;'', [CHR 0xE2, CHR 0x8A, CHR 0x9D]),
    (''&circleddash;'', [CHR 0xE2, CHR 0x8A, CHR 0x9D]),
    (''&plusb;'', [CHR 0xE2, CHR 0x8A, CHR 0x9E]),
    (''&boxplus;'', [CHR 0xE2, CHR 0x8A, CHR 0x9E]),
    (''&minusb;'', [CHR 0xE2, CHR 0x8A, CHR 0x9F]),
    (''&boxminus;'', [CHR 0xE2, CHR 0x8A, CHR 0x9F]),
    (''&timesb;'', [CHR 0xE2, CHR 0x8A, CHR 0xA0]),
    (''&boxtimes;'', [CHR 0xE2, CHR 0x8A, CHR 0xA0]),
    (''&sdotb;'', [CHR 0xE2, CHR 0x8A, CHR 0xA1]),
    (''&dotsquare;'', [CHR 0xE2, CHR 0x8A, CHR 0xA1]),
    (''&vdash;'', [CHR 0xE2, CHR 0x8A, CHR 0xA2]),
    (''&RightTee;'', [CHR 0xE2, CHR 0x8A, CHR 0xA2]),
    (''&dashv;'', [CHR 0xE2, CHR 0x8A, CHR 0xA3]),
    (''&LeftTee;'', [CHR 0xE2, CHR 0x8A, CHR 0xA3]),
    (''&top;'', [CHR 0xE2, CHR 0x8A, CHR 0xA4]),
    (''&DownTee;'', [CHR 0xE2, CHR 0x8A, CHR 0xA4]),
    (''&bottom;'', [CHR 0xE2, CHR 0x8A, CHR 0xA5]),
    (''&bot;'', [CHR 0xE2, CHR 0x8A, CHR 0xA5]),
    (''&perp;'', [CHR 0xE2, CHR 0x8A, CHR 0xA5]),
    (''&UpTee;'', [CHR 0xE2, CHR 0x8A, CHR 0xA5]),
    (''&models;'', [CHR 0xE2, CHR 0x8A, CHR 0xA7]),
    (''&vDash;'', [CHR 0xE2, CHR 0x8A, CHR 0xA8]),
    (''&DoubleRightTee;'', [CHR 0xE2, CHR 0x8A, CHR 0xA8]),
    (''&Vdash;'', [CHR 0xE2, CHR 0x8A, CHR 0xA9]),
    (''&Vvdash;'', [CHR 0xE2, CHR 0x8A, CHR 0xAA]),
    (''&VDash;'', [CHR 0xE2, CHR 0x8A, CHR 0xAB]),
    (''&nvdash;'', [CHR 0xE2, CHR 0x8A, CHR 0xAC]),
    (''&nvDash;'', [CHR 0xE2, CHR 0x8A, CHR 0xAD]),
    (''&nVdash;'', [CHR 0xE2, CHR 0x8A, CHR 0xAE]),
    (''&nVDash;'', [CHR 0xE2, CHR 0x8A, CHR 0xAF]),
    (''&prurel;'', [CHR 0xE2, CHR 0x8A, CHR 0xB0]),
    (''&vltri;'', [CHR 0xE2, CHR 0x8A, CHR 0xB2]),
    (''&vartriangleleft;'', [CHR 0xE2, CHR 0x8A, CHR 0xB2]),
    (''&LeftTriangle;'', [CHR 0xE2, CHR 0x8A, CHR 0xB2]),
    (''&vrtri;'', [CHR 0xE2, CHR 0x8A, CHR 0xB3]),
    (''&vartriangleright;'', [CHR 0xE2, CHR 0x8A, CHR 0xB3]),
    (''&RightTriangle;'', [CHR 0xE2, CHR 0x8A, CHR 0xB3]),
    (''&ltrie;'', [CHR 0xE2, CHR 0x8A, CHR 0xB4]),
    (''&trianglelefteq;'', [CHR 0xE2, CHR 0x8A, CHR 0xB4]),
    (''&LeftTriangleEqual;'', [CHR 0xE2, CHR 0x8A, CHR 0xB4]),
    (''&rtrie;'', [CHR 0xE2, CHR 0x8A, CHR 0xB5]),
    (''&trianglerighteq;'', [CHR 0xE2, CHR 0x8A, CHR 0xB5]),
    (''&RightTriangleEqual;'', [CHR 0xE2, CHR 0x8A, CHR 0xB5]),
    (''&origof;'', [CHR 0xE2, CHR 0x8A, CHR 0xB6]),
    (''&imof;'', [CHR 0xE2, CHR 0x8A, CHR 0xB7]),
    (''&mumap;'', [CHR 0xE2, CHR 0x8A, CHR 0xB8]),
    (''&multimap;'', [CHR 0xE2, CHR 0x8A, CHR 0xB8]),
    (''&hercon;'', [CHR 0xE2, CHR 0x8A, CHR 0xB9]),
    (''&intcal;'', [CHR 0xE2, CHR 0x8A, CHR 0xBA]),
    (''&intercal;'', [CHR 0xE2, CHR 0x8A, CHR 0xBA]),
    (''&veebar;'', [CHR 0xE2, CHR 0x8A, CHR 0xBB]),
    (''&barvee;'', [CHR 0xE2, CHR 0x8A, CHR 0xBD]),
    (''&angrtvb;'', [CHR 0xE2, CHR 0x8A, CHR 0xBE])]"

definition HtmlEntities_9 :: "(string, string) al" where
  "HtmlEntities_9 = [
    (''&lrtri;'', [CHR 0xE2, CHR 0x8A, CHR 0xBF]),
    (''&xwedge;'', [CHR 0xE2, CHR 0x8B, CHR 0x80]),
    (''&Wedge;'', [CHR 0xE2, CHR 0x8B, CHR 0x80]),
    (''&bigwedge;'', [CHR 0xE2, CHR 0x8B, CHR 0x80]),
    (''&xvee;'', [CHR 0xE2, CHR 0x8B, CHR 0x81]),
    (''&Vee;'', [CHR 0xE2, CHR 0x8B, CHR 0x81]),
    (''&bigvee;'', [CHR 0xE2, CHR 0x8B, CHR 0x81]),
    (''&xcap;'', [CHR 0xE2, CHR 0x8B, CHR 0x82]),
    (''&Intersection;'', [CHR 0xE2, CHR 0x8B, CHR 0x82]),
    (''&bigcap;'', [CHR 0xE2, CHR 0x8B, CHR 0x82]),
    (''&xcup;'', [CHR 0xE2, CHR 0x8B, CHR 0x83]),
    (''&Union;'', [CHR 0xE2, CHR 0x8B, CHR 0x83]),
    (''&bigcup;'', [CHR 0xE2, CHR 0x8B, CHR 0x83]),
    (''&diam;'', [CHR 0xE2, CHR 0x8B, CHR 0x84]),
    (''&diamond;'', [CHR 0xE2, CHR 0x8B, CHR 0x84]),
    (''&Diamond;'', [CHR 0xE2, CHR 0x8B, CHR 0x84]),
    (''&sdot;'', [CHR 0xE2, CHR 0x8B, CHR 0x85]),
    (''&sstarf;'', [CHR 0xE2, CHR 0x8B, CHR 0x86]),
    (''&Star;'', [CHR 0xE2, CHR 0x8B, CHR 0x86]),
    (''&divonx;'', [CHR 0xE2, CHR 0x8B, CHR 0x87]),
    (''&divideontimes;'', [CHR 0xE2, CHR 0x8B, CHR 0x87]),
    (''&bowtie;'', [CHR 0xE2, CHR 0x8B, CHR 0x88]),
    (''&ltimes;'', [CHR 0xE2, CHR 0x8B, CHR 0x89]),
    (''&rtimes;'', [CHR 0xE2, CHR 0x8B, CHR 0x8A]),
    (''&lthree;'', [CHR 0xE2, CHR 0x8B, CHR 0x8B]),
    (''&leftthreetimes;'', [CHR 0xE2, CHR 0x8B, CHR 0x8B]),
    (''&rthree;'', [CHR 0xE2, CHR 0x8B, CHR 0x8C]),
    (''&rightthreetimes;'', [CHR 0xE2, CHR 0x8B, CHR 0x8C]),
    (''&bsime;'', [CHR 0xE2, CHR 0x8B, CHR 0x8D]),
    (''&backsimeq;'', [CHR 0xE2, CHR 0x8B, CHR 0x8D]),
    (''&cuvee;'', [CHR 0xE2, CHR 0x8B, CHR 0x8E]),
    (''&curlyvee;'', [CHR 0xE2, CHR 0x8B, CHR 0x8E]),
    (''&cuwed;'', [CHR 0xE2, CHR 0x8B, CHR 0x8F]),
    (''&curlywedge;'', [CHR 0xE2, CHR 0x8B, CHR 0x8F]),
    (''&Sub;'', [CHR 0xE2, CHR 0x8B, CHR 0x90]),
    (''&Subset;'', [CHR 0xE2, CHR 0x8B, CHR 0x90]),
    (''&Sup;'', [CHR 0xE2, CHR 0x8B, CHR 0x91]),
    (''&Supset;'', [CHR 0xE2, CHR 0x8B, CHR 0x91]),
    (''&Cap;'', [CHR 0xE2, CHR 0x8B, CHR 0x92]),
    (''&Cup;'', [CHR 0xE2, CHR 0x8B, CHR 0x93]),
    (''&fork;'', [CHR 0xE2, CHR 0x8B, CHR 0x94]),
    (''&pitchfork;'', [CHR 0xE2, CHR 0x8B, CHR 0x94]),
    (''&epar;'', [CHR 0xE2, CHR 0x8B, CHR 0x95]),
    (''&ltdot;'', [CHR 0xE2, CHR 0x8B, CHR 0x96]),
    (''&lessdot;'', [CHR 0xE2, CHR 0x8B, CHR 0x96]),
    (''&gtdot;'', [CHR 0xE2, CHR 0x8B, CHR 0x97]),
    (''&gtrdot;'', [CHR 0xE2, CHR 0x8B, CHR 0x97]),
    (''&Ll;'', [CHR 0xE2, CHR 0x8B, CHR 0x98]),
    (''&Gg;'', [CHR 0xE2, CHR 0x8B, CHR 0x99]),
    (''&ggg;'', [CHR 0xE2, CHR 0x8B, CHR 0x99]),
    (''&leg;'', [CHR 0xE2, CHR 0x8B, CHR 0x9A]),
    (''&LessEqualGreater;'', [CHR 0xE2, CHR 0x8B, CHR 0x9A]),
    (''&lesseqgtr;'', [CHR 0xE2, CHR 0x8B, CHR 0x9A]),
    (''&gel;'', [CHR 0xE2, CHR 0x8B, CHR 0x9B]),
    (''&gtreqless;'', [CHR 0xE2, CHR 0x8B, CHR 0x9B]),
    (''&GreaterEqualLess;'', [CHR 0xE2, CHR 0x8B, CHR 0x9B]),
    (''&cuepr;'', [CHR 0xE2, CHR 0x8B, CHR 0x9E]),
    (''&curlyeqprec;'', [CHR 0xE2, CHR 0x8B, CHR 0x9E]),
    (''&cuesc;'', [CHR 0xE2, CHR 0x8B, CHR 0x9F]),
    (''&curlyeqsucc;'', [CHR 0xE2, CHR 0x8B, CHR 0x9F]),
    (''&nprcue;'', [CHR 0xE2, CHR 0x8B, CHR 0xA0]),
    (''&NotPrecedesSlantEqual;'', [CHR 0xE2, CHR 0x8B, CHR 0xA0]),
    (''&nsccue;'', [CHR 0xE2, CHR 0x8B, CHR 0xA1]),
    (''&NotSucceedsSlantEqual;'', [CHR 0xE2, CHR 0x8B, CHR 0xA1]),
    (''&nsqsube;'', [CHR 0xE2, CHR 0x8B, CHR 0xA2]),
    (''&NotSquareSubsetEqual;'', [CHR 0xE2, CHR 0x8B, CHR 0xA2]),
    (''&nsqsupe;'', [CHR 0xE2, CHR 0x8B, CHR 0xA3]),
    (''&NotSquareSupersetEqual;'', [CHR 0xE2, CHR 0x8B, CHR 0xA3]),
    (''&lnsim;'', [CHR 0xE2, CHR 0x8B, CHR 0xA6]),
    (''&gnsim;'', [CHR 0xE2, CHR 0x8B, CHR 0xA7]),
    (''&prnsim;'', [CHR 0xE2, CHR 0x8B, CHR 0xA8]),
    (''&precnsim;'', [CHR 0xE2, CHR 0x8B, CHR 0xA8]),
    (''&scnsim;'', [CHR 0xE2, CHR 0x8B, CHR 0xA9]),
    (''&succnsim;'', [CHR 0xE2, CHR 0x8B, CHR 0xA9]),
    (''&nltri;'', [CHR 0xE2, CHR 0x8B, CHR 0xAA]),
    (''&ntriangleleft;'', [CHR 0xE2, CHR 0x8B, CHR 0xAA]),
    (''&NotLeftTriangle;'', [CHR 0xE2, CHR 0x8B, CHR 0xAA]),
    (''&nrtri;'', [CHR 0xE2, CHR 0x8B, CHR 0xAB]),
    (''&ntriangleright;'', [CHR 0xE2, CHR 0x8B, CHR 0xAB]),
    (''&NotRightTriangle;'', [CHR 0xE2, CHR 0x8B, CHR 0xAB]),
    (''&nltrie;'', [CHR 0xE2, CHR 0x8B, CHR 0xAC]),
    (''&ntrianglelefteq;'', [CHR 0xE2, CHR 0x8B, CHR 0xAC]),
    (''&NotLeftTriangleEqual;'', [CHR 0xE2, CHR 0x8B, CHR 0xAC]),
    (''&nrtrie;'', [CHR 0xE2, CHR 0x8B, CHR 0xAD]),
    (''&ntrianglerighteq;'', [CHR 0xE2, CHR 0x8B, CHR 0xAD]),
    (''&NotRightTriangleEqual;'', [CHR 0xE2, CHR 0x8B, CHR 0xAD]),
    (''&vellip;'', [CHR 0xE2, CHR 0x8B, CHR 0xAE]),
    (''&ctdot;'', [CHR 0xE2, CHR 0x8B, CHR 0xAF]),
    (''&utdot;'', [CHR 0xE2, CHR 0x8B, CHR 0xB0]),
    (''&dtdot;'', [CHR 0xE2, CHR 0x8B, CHR 0xB1]),
    (''&disin;'', [CHR 0xE2, CHR 0x8B, CHR 0xB2]),
    (''&isinsv;'', [CHR 0xE2, CHR 0x8B, CHR 0xB3]),
    (''&isins;'', [CHR 0xE2, CHR 0x8B, CHR 0xB4]),
    (''&isindot;'', [CHR 0xE2, CHR 0x8B, CHR 0xB5]),
    (''&notinvc;'', [CHR 0xE2, CHR 0x8B, CHR 0xB6]),
    (''&notinvb;'', [CHR 0xE2, CHR 0x8B, CHR 0xB7]),
    (''&isinE;'', [CHR 0xE2, CHR 0x8B, CHR 0xB9]),
    (''&nisd;'', [CHR 0xE2, CHR 0x8B, CHR 0xBA]),
    (''&xnis;'', [CHR 0xE2, CHR 0x8B, CHR 0xBB]),
    (''&nis;'', [CHR 0xE2, CHR 0x8B, CHR 0xBC]),
    (''&notnivc;'', [CHR 0xE2, CHR 0x8B, CHR 0xBD]),
    (''&notnivb;'', [CHR 0xE2, CHR 0x8B, CHR 0xBE]),
    (''&barwed;'', [CHR 0xE2, CHR 0x8C, CHR 0x85]),
    (''&barwedge;'', [CHR 0xE2, CHR 0x8C, CHR 0x85]),
    (''&Barwed;'', [CHR 0xE2, CHR 0x8C, CHR 0x86]),
    (''&doublebarwedge;'', [CHR 0xE2, CHR 0x8C, CHR 0x86]),
    (''&lceil;'', [CHR 0xE2, CHR 0x8C, CHR 0x88]),
    (''&LeftCeiling;'', [CHR 0xE2, CHR 0x8C, CHR 0x88]),
    (''&rceil;'', [CHR 0xE2, CHR 0x8C, CHR 0x89]),
    (''&RightCeiling;'', [CHR 0xE2, CHR 0x8C, CHR 0x89]),
    (''&lfloor;'', [CHR 0xE2, CHR 0x8C, CHR 0x8A]),
    (''&LeftFloor;'', [CHR 0xE2, CHR 0x8C, CHR 0x8A]),
    (''&rfloor;'', [CHR 0xE2, CHR 0x8C, CHR 0x8B]),
    (''&RightFloor;'', [CHR 0xE2, CHR 0x8C, CHR 0x8B]),
    (''&drcrop;'', [CHR 0xE2, CHR 0x8C, CHR 0x8C]),
    (''&dlcrop;'', [CHR 0xE2, CHR 0x8C, CHR 0x8D]),
    (''&urcrop;'', [CHR 0xE2, CHR 0x8C, CHR 0x8E]),
    (''&ulcrop;'', [CHR 0xE2, CHR 0x8C, CHR 0x8F]),
    (''&bnot;'', [CHR 0xE2, CHR 0x8C, CHR 0x90]),
    (''&profline;'', [CHR 0xE2, CHR 0x8C, CHR 0x92]),
    (''&profsurf;'', [CHR 0xE2, CHR 0x8C, CHR 0x93]),
    (''&telrec;'', [CHR 0xE2, CHR 0x8C, CHR 0x95]),
    (''&target;'', [CHR 0xE2, CHR 0x8C, CHR 0x96]),
    (''&ulcorn;'', [CHR 0xE2, CHR 0x8C, CHR 0x9C]),
    (''&ulcorner;'', [CHR 0xE2, CHR 0x8C, CHR 0x9C]),
    (''&urcorn;'', [CHR 0xE2, CHR 0x8C, CHR 0x9D]),
    (''&urcorner;'', [CHR 0xE2, CHR 0x8C, CHR 0x9D]),
    (''&dlcorn;'', [CHR 0xE2, CHR 0x8C, CHR 0x9E]),
    (''&llcorner;'', [CHR 0xE2, CHR 0x8C, CHR 0x9E]),
    (''&drcorn;'', [CHR 0xE2, CHR 0x8C, CHR 0x9F]),
    (''&lrcorner;'', [CHR 0xE2, CHR 0x8C, CHR 0x9F]),
    (''&frown;'', [CHR 0xE2, CHR 0x8C, CHR 0xA2]),
    (''&sfrown;'', [CHR 0xE2, CHR 0x8C, CHR 0xA2]),
    (''&smile;'', [CHR 0xE2, CHR 0x8C, CHR 0xA3]),
    (''&ssmile;'', [CHR 0xE2, CHR 0x8C, CHR 0xA3]),
    (''&cylcty;'', [CHR 0xE2, CHR 0x8C, CHR 0xAD]),
    (''&profalar;'', [CHR 0xE2, CHR 0x8C, CHR 0xAE]),
    (''&topbot;'', [CHR 0xE2, CHR 0x8C, CHR 0xB6]),
    (''&ovbar;'', [CHR 0xE2, CHR 0x8C, CHR 0xBD]),
    (''&solbar;'', [CHR 0xE2, CHR 0x8C, CHR 0xBF]),
    (''&angzarr;'', [CHR 0xE2, CHR 0x8D, CHR 0xBC]),
    (''&lmoust;'', [CHR 0xE2, CHR 0x8E, CHR 0xB0]),
    (''&lmoustache;'', [CHR 0xE2, CHR 0x8E, CHR 0xB0]),
    (''&rmoust;'', [CHR 0xE2, CHR 0x8E, CHR 0xB1]),
    (''&rmoustache;'', [CHR 0xE2, CHR 0x8E, CHR 0xB1]),
    (''&tbrk;'', [CHR 0xE2, CHR 0x8E, CHR 0xB4]),
    (''&OverBracket;'', [CHR 0xE2, CHR 0x8E, CHR 0xB4]),
    (''&bbrk;'', [CHR 0xE2, CHR 0x8E, CHR 0xB5]),
    (''&UnderBracket;'', [CHR 0xE2, CHR 0x8E, CHR 0xB5]),
    (''&bbrktbrk;'', [CHR 0xE2, CHR 0x8E, CHR 0xB6])]"

definition HtmlEntities_10 :: "(string, string) al" where
  "HtmlEntities_10 = [
    (''&OverParenthesis;'', [CHR 0xE2, CHR 0x8F, CHR 0x9C]),
    (''&UnderParenthesis;'', [CHR 0xE2, CHR 0x8F, CHR 0x9D]),
    (''&OverBrace;'', [CHR 0xE2, CHR 0x8F, CHR 0x9E]),
    (''&UnderBrace;'', [CHR 0xE2, CHR 0x8F, CHR 0x9F]),
    (''&trpezium;'', [CHR 0xE2, CHR 0x8F, CHR 0xA2]),
    (''&elinters;'', [CHR 0xE2, CHR 0x8F, CHR 0xA7]),
    (''&blank;'', [CHR 0xE2, CHR 0x90, CHR 0xA3]),
    (''&oS;'', [CHR 0xE2, CHR 0x93, CHR 0x88]),
    (''&circledS;'', [CHR 0xE2, CHR 0x93, CHR 0x88]),
    (''&boxh;'', [CHR 0xE2, CHR 0x94, CHR 0x80]),
    (''&HorizontalLine;'', [CHR 0xE2, CHR 0x94, CHR 0x80]),
    (''&boxv;'', [CHR 0xE2, CHR 0x94, CHR 0x82]),
    (''&boxdr;'', [CHR 0xE2, CHR 0x94, CHR 0x8C]),
    (''&boxdl;'', [CHR 0xE2, CHR 0x94, CHR 0x90]),
    (''&boxur;'', [CHR 0xE2, CHR 0x94, CHR 0x94]),
    (''&boxul;'', [CHR 0xE2, CHR 0x94, CHR 0x98]),
    (''&boxvr;'', [CHR 0xE2, CHR 0x94, CHR 0x9C]),
    (''&boxvl;'', [CHR 0xE2, CHR 0x94, CHR 0xA4]),
    (''&boxhd;'', [CHR 0xE2, CHR 0x94, CHR 0xAC]),
    (''&boxhu;'', [CHR 0xE2, CHR 0x94, CHR 0xB4]),
    (''&boxvh;'', [CHR 0xE2, CHR 0x94, CHR 0xBC]),
    (''&boxH;'', [CHR 0xE2, CHR 0x95, CHR 0x90]),
    (''&boxV;'', [CHR 0xE2, CHR 0x95, CHR 0x91]),
    (''&boxdR;'', [CHR 0xE2, CHR 0x95, CHR 0x92]),
    (''&boxDr;'', [CHR 0xE2, CHR 0x95, CHR 0x93]),
    (''&boxDR;'', [CHR 0xE2, CHR 0x95, CHR 0x94]),
    (''&boxdL;'', [CHR 0xE2, CHR 0x95, CHR 0x95]),
    (''&boxDl;'', [CHR 0xE2, CHR 0x95, CHR 0x96]),
    (''&boxDL;'', [CHR 0xE2, CHR 0x95, CHR 0x97]),
    (''&boxuR;'', [CHR 0xE2, CHR 0x95, CHR 0x98]),
    (''&boxUr;'', [CHR 0xE2, CHR 0x95, CHR 0x99]),
    (''&boxUR;'', [CHR 0xE2, CHR 0x95, CHR 0x9A]),
    (''&boxuL;'', [CHR 0xE2, CHR 0x95, CHR 0x9B]),
    (''&boxUl;'', [CHR 0xE2, CHR 0x95, CHR 0x9C]),
    (''&boxUL;'', [CHR 0xE2, CHR 0x95, CHR 0x9D]),
    (''&boxvR;'', [CHR 0xE2, CHR 0x95, CHR 0x9E]),
    (''&boxVr;'', [CHR 0xE2, CHR 0x95, CHR 0x9F]),
    (''&boxVR;'', [CHR 0xE2, CHR 0x95, CHR 0xA0]),
    (''&boxvL;'', [CHR 0xE2, CHR 0x95, CHR 0xA1]),
    (''&boxVl;'', [CHR 0xE2, CHR 0x95, CHR 0xA2]),
    (''&boxVL;'', [CHR 0xE2, CHR 0x95, CHR 0xA3]),
    (''&boxHd;'', [CHR 0xE2, CHR 0x95, CHR 0xA4]),
    (''&boxhD;'', [CHR 0xE2, CHR 0x95, CHR 0xA5]),
    (''&boxHD;'', [CHR 0xE2, CHR 0x95, CHR 0xA6]),
    (''&boxHu;'', [CHR 0xE2, CHR 0x95, CHR 0xA7]),
    (''&boxhU;'', [CHR 0xE2, CHR 0x95, CHR 0xA8]),
    (''&boxHU;'', [CHR 0xE2, CHR 0x95, CHR 0xA9]),
    (''&boxvH;'', [CHR 0xE2, CHR 0x95, CHR 0xAA]),
    (''&boxVh;'', [CHR 0xE2, CHR 0x95, CHR 0xAB]),
    (''&boxVH;'', [CHR 0xE2, CHR 0x95, CHR 0xAC]),
    (''&uhblk;'', [CHR 0xE2, CHR 0x96, CHR 0x80]),
    (''&lhblk;'', [CHR 0xE2, CHR 0x96, CHR 0x84]),
    (''&block;'', [CHR 0xE2, CHR 0x96, CHR 0x88]),
    (''&blk14;'', [CHR 0xE2, CHR 0x96, CHR 0x91]),
    (''&blk12;'', [CHR 0xE2, CHR 0x96, CHR 0x92]),
    (''&blk34;'', [CHR 0xE2, CHR 0x96, CHR 0x93]),
    (''&squ;'', [CHR 0xE2, CHR 0x96, CHR 0xA1]),
    (''&square;'', [CHR 0xE2, CHR 0x96, CHR 0xA1]),
    (''&Square;'', [CHR 0xE2, CHR 0x96, CHR 0xA1]),
    (''&squf;'', [CHR 0xE2, CHR 0x96, CHR 0xAA]),
    (''&squarf;'', [CHR 0xE2, CHR 0x96, CHR 0xAA]),
    (''&blacksquare;'', [CHR 0xE2, CHR 0x96, CHR 0xAA]),
    (''&FilledVerySmallSquare;'', [CHR 0xE2, CHR 0x96, CHR 0xAA]),
    (''&EmptyVerySmallSquare;'', [CHR 0xE2, CHR 0x96, CHR 0xAB]),
    (''&rect;'', [CHR 0xE2, CHR 0x96, CHR 0xAD]),
    (''&marker;'', [CHR 0xE2, CHR 0x96, CHR 0xAE]),
    (''&fltns;'', [CHR 0xE2, CHR 0x96, CHR 0xB1]),
    (''&xutri;'', [CHR 0xE2, CHR 0x96, CHR 0xB3]),
    (''&bigtriangleup;'', [CHR 0xE2, CHR 0x96, CHR 0xB3]),
    (''&utrif;'', [CHR 0xE2, CHR 0x96, CHR 0xB4]),
    (''&blacktriangle;'', [CHR 0xE2, CHR 0x96, CHR 0xB4]),
    (''&utri;'', [CHR 0xE2, CHR 0x96, CHR 0xB5]),
    (''&triangle;'', [CHR 0xE2, CHR 0x96, CHR 0xB5]),
    (''&rtrif;'', [CHR 0xE2, CHR 0x96, CHR 0xB8]),
    (''&blacktriangleright;'', [CHR 0xE2, CHR 0x96, CHR 0xB8]),
    (''&rtri;'', [CHR 0xE2, CHR 0x96, CHR 0xB9]),
    (''&triangleright;'', [CHR 0xE2, CHR 0x96, CHR 0xB9]),
    (''&xdtri;'', [CHR 0xE2, CHR 0x96, CHR 0xBD]),
    (''&bigtriangledown;'', [CHR 0xE2, CHR 0x96, CHR 0xBD]),
    (''&dtrif;'', [CHR 0xE2, CHR 0x96, CHR 0xBE]),
    (''&blacktriangledown;'', [CHR 0xE2, CHR 0x96, CHR 0xBE]),
    (''&dtri;'', [CHR 0xE2, CHR 0x96, CHR 0xBF]),
    (''&triangledown;'', [CHR 0xE2, CHR 0x96, CHR 0xBF]),
    (''&ltrif;'', [CHR 0xE2, CHR 0x97, CHR 0x82]),
    (''&blacktriangleleft;'', [CHR 0xE2, CHR 0x97, CHR 0x82]),
    (''&ltri;'', [CHR 0xE2, CHR 0x97, CHR 0x83]),
    (''&triangleleft;'', [CHR 0xE2, CHR 0x97, CHR 0x83]),
    (''&loz;'', [CHR 0xE2, CHR 0x97, CHR 0x8A]),
    (''&lozenge;'', [CHR 0xE2, CHR 0x97, CHR 0x8A]),
    (''&cir;'', [CHR 0xE2, CHR 0x97, CHR 0x8B]),
    (''&tridot;'', [CHR 0xE2, CHR 0x97, CHR 0xAC]),
    (''&xcirc;'', [CHR 0xE2, CHR 0x97, CHR 0xAF]),
    (''&bigcirc;'', [CHR 0xE2, CHR 0x97, CHR 0xAF]),
    (''&ultri;'', [CHR 0xE2, CHR 0x97, CHR 0xB8]),
    (''&urtri;'', [CHR 0xE2, CHR 0x97, CHR 0xB9]),
    (''&lltri;'', [CHR 0xE2, CHR 0x97, CHR 0xBA]),
    (''&EmptySmallSquare;'', [CHR 0xE2, CHR 0x97, CHR 0xBB]),
    (''&FilledSmallSquare;'', [CHR 0xE2, CHR 0x97, CHR 0xBC]),
    (''&starf;'', [CHR 0xE2, CHR 0x98, CHR 0x85]),
    (''&bigstar;'', [CHR 0xE2, CHR 0x98, CHR 0x85]),
    (''&star;'', [CHR 0xE2, CHR 0x98, CHR 0x86]),
    (''&phone;'', [CHR 0xE2, CHR 0x98, CHR 0x8E]),
    (''&female;'', [CHR 0xE2, CHR 0x99, CHR 0x80]),
    (''&male;'', [CHR 0xE2, CHR 0x99, CHR 0x82]),
    (''&spades;'', [CHR 0xE2, CHR 0x99, CHR 0xA0]),
    (''&spadesuit;'', [CHR 0xE2, CHR 0x99, CHR 0xA0]),
    (''&clubs;'', [CHR 0xE2, CHR 0x99, CHR 0xA3]),
    (''&clubsuit;'', [CHR 0xE2, CHR 0x99, CHR 0xA3]),
    (''&hearts;'', [CHR 0xE2, CHR 0x99, CHR 0xA5]),
    (''&heartsuit;'', [CHR 0xE2, CHR 0x99, CHR 0xA5]),
    (''&diams;'', [CHR 0xE2, CHR 0x99, CHR 0xA6]),
    (''&diamondsuit;'', [CHR 0xE2, CHR 0x99, CHR 0xA6]),
    (''&sung;'', [CHR 0xE2, CHR 0x99, CHR 0xAA]),
    (''&flat;'', [CHR 0xE2, CHR 0x99, CHR 0xAD]),
    (''&natur;'', [CHR 0xE2, CHR 0x99, CHR 0xAE]),
    (''&natural;'', [CHR 0xE2, CHR 0x99, CHR 0xAE]),
    (''&sharp;'', [CHR 0xE2, CHR 0x99, CHR 0xAF]),
    (''&check;'', [CHR 0xE2, CHR 0x9C, CHR 0x93]),
    (''&checkmark;'', [CHR 0xE2, CHR 0x9C, CHR 0x93]),
    (''&cross;'', [CHR 0xE2, CHR 0x9C, CHR 0x97]),
    (''&malt;'', [CHR 0xE2, CHR 0x9C, CHR 0xA0]),
    (''&maltese;'', [CHR 0xE2, CHR 0x9C, CHR 0xA0]),
    (''&sext;'', [CHR 0xE2, CHR 0x9C, CHR 0xB6]),
    (''&VerticalSeparator;'', [CHR 0xE2, CHR 0x9D, CHR 0x98]),
    (''&lbbrk;'', [CHR 0xE2, CHR 0x9D, CHR 0xB2]),
    (''&rbbrk;'', [CHR 0xE2, CHR 0x9D, CHR 0xB3]),
    (''&lobrk;'', [CHR 0xE2, CHR 0x9F, CHR 0xA6]),
    (''&LeftDoubleBracket;'', [CHR 0xE2, CHR 0x9F, CHR 0xA6]),
    (''&robrk;'', [CHR 0xE2, CHR 0x9F, CHR 0xA7]),
    (''&RightDoubleBracket;'', [CHR 0xE2, CHR 0x9F, CHR 0xA7]),
    (''&lang;'', [CHR 0xE2, CHR 0x9F, CHR 0xA8]),
    (''&LeftAngleBracket;'', [CHR 0xE2, CHR 0x9F, CHR 0xA8]),
    (''&langle;'', [CHR 0xE2, CHR 0x9F, CHR 0xA8]),
    (''&rang;'', [CHR 0xE2, CHR 0x9F, CHR 0xA9]),
    (''&RightAngleBracket;'', [CHR 0xE2, CHR 0x9F, CHR 0xA9]),
    (''&rangle;'', [CHR 0xE2, CHR 0x9F, CHR 0xA9]),
    (''&Lang;'', [CHR 0xE2, CHR 0x9F, CHR 0xAA]),
    (''&Rang;'', [CHR 0xE2, CHR 0x9F, CHR 0xAB]),
    (''&loang;'', [CHR 0xE2, CHR 0x9F, CHR 0xAC]),
    (''&roang;'', [CHR 0xE2, CHR 0x9F, CHR 0xAD]),
    (''&xlarr;'', [CHR 0xE2, CHR 0x9F, CHR 0xB5]),
    (''&longleftarrow;'', [CHR 0xE2, CHR 0x9F, CHR 0xB5]),
    (''&LongLeftArrow;'', [CHR 0xE2, CHR 0x9F, CHR 0xB5]),
    (''&xrarr;'', [CHR 0xE2, CHR 0x9F, CHR 0xB6]),
    (''&longrightarrow;'', [CHR 0xE2, CHR 0x9F, CHR 0xB6]),
    (''&LongRightArrow;'', [CHR 0xE2, CHR 0x9F, CHR 0xB6]),
    (''&xharr;'', [CHR 0xE2, CHR 0x9F, CHR 0xB7]),
    (''&longleftrightarrow;'', [CHR 0xE2, CHR 0x9F, CHR 0xB7]),
    (''&LongLeftRightArrow;'', [CHR 0xE2, CHR 0x9F, CHR 0xB7]),
    (''&xlArr;'', [CHR 0xE2, CHR 0x9F, CHR 0xB8])]"

definition HtmlEntities_11 :: "(string, string) al" where
  "HtmlEntities_11 = [
    (''&Longleftarrow;'', [CHR 0xE2, CHR 0x9F, CHR 0xB8]),
    (''&DoubleLongLeftArrow;'', [CHR 0xE2, CHR 0x9F, CHR 0xB8]),
    (''&xrArr;'', [CHR 0xE2, CHR 0x9F, CHR 0xB9]),
    (''&Longrightarrow;'', [CHR 0xE2, CHR 0x9F, CHR 0xB9]),
    (''&DoubleLongRightArrow;'', [CHR 0xE2, CHR 0x9F, CHR 0xB9]),
    (''&xhArr;'', [CHR 0xE2, CHR 0x9F, CHR 0xBA]),
    (''&Longleftrightarrow;'', [CHR 0xE2, CHR 0x9F, CHR 0xBA]),
    (''&DoubleLongLeftRightArrow;'', [CHR 0xE2, CHR 0x9F, CHR 0xBA]),
    (''&xmap;'', [CHR 0xE2, CHR 0x9F, CHR 0xBC]),
    (''&longmapsto;'', [CHR 0xE2, CHR 0x9F, CHR 0xBC]),
    (''&dzigrarr;'', [CHR 0xE2, CHR 0x9F, CHR 0xBF]),
    (''&nvlArr;'', [CHR 0xE2, CHR 0xA4, CHR 0x82]),
    (''&nvrArr;'', [CHR 0xE2, CHR 0xA4, CHR 0x83]),
    (''&nvHarr;'', [CHR 0xE2, CHR 0xA4, CHR 0x84]),
    (''&Map;'', [CHR 0xE2, CHR 0xA4, CHR 0x85]),
    (''&lbarr;'', [CHR 0xE2, CHR 0xA4, CHR 0x8C]),
    (''&rbarr;'', [CHR 0xE2, CHR 0xA4, CHR 0x8D]),
    (''&bkarow;'', [CHR 0xE2, CHR 0xA4, CHR 0x8D]),
    (''&lBarr;'', [CHR 0xE2, CHR 0xA4, CHR 0x8E]),
    (''&rBarr;'', [CHR 0xE2, CHR 0xA4, CHR 0x8F]),
    (''&dbkarow;'', [CHR 0xE2, CHR 0xA4, CHR 0x8F]),
    (''&RBarr;'', [CHR 0xE2, CHR 0xA4, CHR 0x90]),
    (''&drbkarow;'', [CHR 0xE2, CHR 0xA4, CHR 0x90]),
    (''&DDotrahd;'', [CHR 0xE2, CHR 0xA4, CHR 0x91]),
    (''&UpArrowBar;'', [CHR 0xE2, CHR 0xA4, CHR 0x92]),
    (''&DownArrowBar;'', [CHR 0xE2, CHR 0xA4, CHR 0x93]),
    (''&Rarrtl;'', [CHR 0xE2, CHR 0xA4, CHR 0x96]),
    (''&latail;'', [CHR 0xE2, CHR 0xA4, CHR 0x99]),
    (''&ratail;'', [CHR 0xE2, CHR 0xA4, CHR 0x9A]),
    (''&lAtail;'', [CHR 0xE2, CHR 0xA4, CHR 0x9B]),
    (''&rAtail;'', [CHR 0xE2, CHR 0xA4, CHR 0x9C]),
    (''&larrfs;'', [CHR 0xE2, CHR 0xA4, CHR 0x9D]),
    (''&rarrfs;'', [CHR 0xE2, CHR 0xA4, CHR 0x9E]),
    (''&larrbfs;'', [CHR 0xE2, CHR 0xA4, CHR 0x9F]),
    (''&rarrbfs;'', [CHR 0xE2, CHR 0xA4, CHR 0xA0]),
    (''&nwarhk;'', [CHR 0xE2, CHR 0xA4, CHR 0xA3]),
    (''&nearhk;'', [CHR 0xE2, CHR 0xA4, CHR 0xA4]),
    (''&searhk;'', [CHR 0xE2, CHR 0xA4, CHR 0xA5]),
    (''&hksearow;'', [CHR 0xE2, CHR 0xA4, CHR 0xA5]),
    (''&swarhk;'', [CHR 0xE2, CHR 0xA4, CHR 0xA6]),
    (''&hkswarow;'', [CHR 0xE2, CHR 0xA4, CHR 0xA6]),
    (''&nwnear;'', [CHR 0xE2, CHR 0xA4, CHR 0xA7]),
    (''&nesear;'', [CHR 0xE2, CHR 0xA4, CHR 0xA8]),
    (''&toea;'', [CHR 0xE2, CHR 0xA4, CHR 0xA8]),
    (''&seswar;'', [CHR 0xE2, CHR 0xA4, CHR 0xA9]),
    (''&tosa;'', [CHR 0xE2, CHR 0xA4, CHR 0xA9]),
    (''&swnwar;'', [CHR 0xE2, CHR 0xA4, CHR 0xAA]),
    (''&rarrc;'', [CHR 0xE2, CHR 0xA4, CHR 0xB3]),
    (''&cudarrr;'', [CHR 0xE2, CHR 0xA4, CHR 0xB5]),
    (''&ldca;'', [CHR 0xE2, CHR 0xA4, CHR 0xB6]),
    (''&rdca;'', [CHR 0xE2, CHR 0xA4, CHR 0xB7]),
    (''&cudarrl;'', [CHR 0xE2, CHR 0xA4, CHR 0xB8]),
    (''&larrpl;'', [CHR 0xE2, CHR 0xA4, CHR 0xB9]),
    (''&curarrm;'', [CHR 0xE2, CHR 0xA4, CHR 0xBC]),
    (''&cularrp;'', [CHR 0xE2, CHR 0xA4, CHR 0xBD]),
    (''&rarrpl;'', [CHR 0xE2, CHR 0xA5, CHR 0x85]),
    (''&harrcir;'', [CHR 0xE2, CHR 0xA5, CHR 0x88]),
    (''&Uarrocir;'', [CHR 0xE2, CHR 0xA5, CHR 0x89]),
    (''&lurdshar;'', [CHR 0xE2, CHR 0xA5, CHR 0x8A]),
    (''&ldrushar;'', [CHR 0xE2, CHR 0xA5, CHR 0x8B]),
    (''&LeftRightVector;'', [CHR 0xE2, CHR 0xA5, CHR 0x8E]),
    (''&RightUpDownVector;'', [CHR 0xE2, CHR 0xA5, CHR 0x8F]),
    (''&DownLeftRightVector;'', [CHR 0xE2, CHR 0xA5, CHR 0x90]),
    (''&LeftUpDownVector;'', [CHR 0xE2, CHR 0xA5, CHR 0x91]),
    (''&LeftVectorBar;'', [CHR 0xE2, CHR 0xA5, CHR 0x92]),
    (''&RightVectorBar;'', [CHR 0xE2, CHR 0xA5, CHR 0x93]),
    (''&RightUpVectorBar;'', [CHR 0xE2, CHR 0xA5, CHR 0x94]),
    (''&RightDownVectorBar;'', [CHR 0xE2, CHR 0xA5, CHR 0x95]),
    (''&DownLeftVectorBar;'', [CHR 0xE2, CHR 0xA5, CHR 0x96]),
    (''&DownRightVectorBar;'', [CHR 0xE2, CHR 0xA5, CHR 0x97]),
    (''&LeftUpVectorBar;'', [CHR 0xE2, CHR 0xA5, CHR 0x98]),
    (''&LeftDownVectorBar;'', [CHR 0xE2, CHR 0xA5, CHR 0x99]),
    (''&LeftTeeVector;'', [CHR 0xE2, CHR 0xA5, CHR 0x9A]),
    (''&RightTeeVector;'', [CHR 0xE2, CHR 0xA5, CHR 0x9B]),
    (''&RightUpTeeVector;'', [CHR 0xE2, CHR 0xA5, CHR 0x9C]),
    (''&RightDownTeeVector;'', [CHR 0xE2, CHR 0xA5, CHR 0x9D]),
    (''&DownLeftTeeVector;'', [CHR 0xE2, CHR 0xA5, CHR 0x9E]),
    (''&DownRightTeeVector;'', [CHR 0xE2, CHR 0xA5, CHR 0x9F]),
    (''&LeftUpTeeVector;'', [CHR 0xE2, CHR 0xA5, CHR 0xA0]),
    (''&LeftDownTeeVector;'', [CHR 0xE2, CHR 0xA5, CHR 0xA1]),
    (''&lHar;'', [CHR 0xE2, CHR 0xA5, CHR 0xA2]),
    (''&uHar;'', [CHR 0xE2, CHR 0xA5, CHR 0xA3]),
    (''&rHar;'', [CHR 0xE2, CHR 0xA5, CHR 0xA4]),
    (''&dHar;'', [CHR 0xE2, CHR 0xA5, CHR 0xA5]),
    (''&luruhar;'', [CHR 0xE2, CHR 0xA5, CHR 0xA6]),
    (''&ldrdhar;'', [CHR 0xE2, CHR 0xA5, CHR 0xA7]),
    (''&ruluhar;'', [CHR 0xE2, CHR 0xA5, CHR 0xA8]),
    (''&rdldhar;'', [CHR 0xE2, CHR 0xA5, CHR 0xA9]),
    (''&lharul;'', [CHR 0xE2, CHR 0xA5, CHR 0xAA]),
    (''&llhard;'', [CHR 0xE2, CHR 0xA5, CHR 0xAB]),
    (''&rharul;'', [CHR 0xE2, CHR 0xA5, CHR 0xAC]),
    (''&lrhard;'', [CHR 0xE2, CHR 0xA5, CHR 0xAD]),
    (''&udhar;'', [CHR 0xE2, CHR 0xA5, CHR 0xAE]),
    (''&UpEquilibrium;'', [CHR 0xE2, CHR 0xA5, CHR 0xAE]),
    (''&duhar;'', [CHR 0xE2, CHR 0xA5, CHR 0xAF]),
    (''&ReverseUpEquilibrium;'', [CHR 0xE2, CHR 0xA5, CHR 0xAF]),
    (''&RoundImplies;'', [CHR 0xE2, CHR 0xA5, CHR 0xB0]),
    (''&erarr;'', [CHR 0xE2, CHR 0xA5, CHR 0xB1]),
    (''&simrarr;'', [CHR 0xE2, CHR 0xA5, CHR 0xB2]),
    (''&larrsim;'', [CHR 0xE2, CHR 0xA5, CHR 0xB3]),
    (''&rarrsim;'', [CHR 0xE2, CHR 0xA5, CHR 0xB4]),
    (''&rarrap;'', [CHR 0xE2, CHR 0xA5, CHR 0xB5]),
    (''&ltlarr;'', [CHR 0xE2, CHR 0xA5, CHR 0xB6]),
    (''&gtrarr;'', [CHR 0xE2, CHR 0xA5, CHR 0xB8]),
    (''&subrarr;'', [CHR 0xE2, CHR 0xA5, CHR 0xB9]),
    (''&suplarr;'', [CHR 0xE2, CHR 0xA5, CHR 0xBB]),
    (''&lfisht;'', [CHR 0xE2, CHR 0xA5, CHR 0xBC]),
    (''&rfisht;'', [CHR 0xE2, CHR 0xA5, CHR 0xBD]),
    (''&ufisht;'', [CHR 0xE2, CHR 0xA5, CHR 0xBE]),
    (''&dfisht;'', [CHR 0xE2, CHR 0xA5, CHR 0xBF]),
    (''&lopar;'', [CHR 0xE2, CHR 0xA6, CHR 0x85]),
    (''&ropar;'', [CHR 0xE2, CHR 0xA6, CHR 0x86]),
    (''&lbrke;'', [CHR 0xE2, CHR 0xA6, CHR 0x8B]),
    (''&rbrke;'', [CHR 0xE2, CHR 0xA6, CHR 0x8C]),
    (''&lbrkslu;'', [CHR 0xE2, CHR 0xA6, CHR 0x8D]),
    (''&rbrksld;'', [CHR 0xE2, CHR 0xA6, CHR 0x8E]),
    (''&lbrksld;'', [CHR 0xE2, CHR 0xA6, CHR 0x8F]),
    (''&rbrkslu;'', [CHR 0xE2, CHR 0xA6, CHR 0x90]),
    (''&langd;'', [CHR 0xE2, CHR 0xA6, CHR 0x91]),
    (''&rangd;'', [CHR 0xE2, CHR 0xA6, CHR 0x92]),
    (''&lparlt;'', [CHR 0xE2, CHR 0xA6, CHR 0x93]),
    (''&rpargt;'', [CHR 0xE2, CHR 0xA6, CHR 0x94]),
    (''&gtlPar;'', [CHR 0xE2, CHR 0xA6, CHR 0x95]),
    (''&ltrPar;'', [CHR 0xE2, CHR 0xA6, CHR 0x96]),
    (''&vzigzag;'', [CHR 0xE2, CHR 0xA6, CHR 0x9A]),
    (''&vangrt;'', [CHR 0xE2, CHR 0xA6, CHR 0x9C]),
    (''&angrtvbd;'', [CHR 0xE2, CHR 0xA6, CHR 0x9D]),
    (''&ange;'', [CHR 0xE2, CHR 0xA6, CHR 0xA4]),
    (''&range;'', [CHR 0xE2, CHR 0xA6, CHR 0xA5]),
    (''&dwangle;'', [CHR 0xE2, CHR 0xA6, CHR 0xA6]),
    (''&uwangle;'', [CHR 0xE2, CHR 0xA6, CHR 0xA7]),
    (''&angmsdaa;'', [CHR 0xE2, CHR 0xA6, CHR 0xA8]),
    (''&angmsdab;'', [CHR 0xE2, CHR 0xA6, CHR 0xA9]),
    (''&angmsdac;'', [CHR 0xE2, CHR 0xA6, CHR 0xAA]),
    (''&angmsdad;'', [CHR 0xE2, CHR 0xA6, CHR 0xAB]),
    (''&angmsdae;'', [CHR 0xE2, CHR 0xA6, CHR 0xAC]),
    (''&angmsdaf;'', [CHR 0xE2, CHR 0xA6, CHR 0xAD]),
    (''&angmsdag;'', [CHR 0xE2, CHR 0xA6, CHR 0xAE]),
    (''&angmsdah;'', [CHR 0xE2, CHR 0xA6, CHR 0xAF]),
    (''&bemptyv;'', [CHR 0xE2, CHR 0xA6, CHR 0xB0]),
    (''&demptyv;'', [CHR 0xE2, CHR 0xA6, CHR 0xB1]),
    (''&cemptyv;'', [CHR 0xE2, CHR 0xA6, CHR 0xB2]),
    (''&raemptyv;'', [CHR 0xE2, CHR 0xA6, CHR 0xB3]),
    (''&laemptyv;'', [CHR 0xE2, CHR 0xA6, CHR 0xB4]),
    (''&ohbar;'', [CHR 0xE2, CHR 0xA6, CHR 0xB5]),
    (''&omid;'', [CHR 0xE2, CHR 0xA6, CHR 0xB6]),
    (''&opar;'', [CHR 0xE2, CHR 0xA6, CHR 0xB7]),
    (''&operp;'', [CHR 0xE2, CHR 0xA6, CHR 0xB9]),
    (''&olcross;'', [CHR 0xE2, CHR 0xA6, CHR 0xBB]),
    (''&odsold;'', [CHR 0xE2, CHR 0xA6, CHR 0xBC])]"

definition HtmlEntities_12 :: "(string, string) al" where
  "HtmlEntities_12 = [
    (''&olcir;'', [CHR 0xE2, CHR 0xA6, CHR 0xBE]),
    (''&ofcir;'', [CHR 0xE2, CHR 0xA6, CHR 0xBF]),
    (''&olt;'', [CHR 0xE2, CHR 0xA7, CHR 0x80]),
    (''&ogt;'', [CHR 0xE2, CHR 0xA7, CHR 0x81]),
    (''&cirscir;'', [CHR 0xE2, CHR 0xA7, CHR 0x82]),
    (''&cirE;'', [CHR 0xE2, CHR 0xA7, CHR 0x83]),
    (''&solb;'', [CHR 0xE2, CHR 0xA7, CHR 0x84]),
    (''&bsolb;'', [CHR 0xE2, CHR 0xA7, CHR 0x85]),
    (''&boxbox;'', [CHR 0xE2, CHR 0xA7, CHR 0x89]),
    (''&trisb;'', [CHR 0xE2, CHR 0xA7, CHR 0x8D]),
    (''&rtriltri;'', [CHR 0xE2, CHR 0xA7, CHR 0x8E]),
    (''&LeftTriangleBar;'', [CHR 0xE2, CHR 0xA7, CHR 0x8F]),
    (''&RightTriangleBar;'', [CHR 0xE2, CHR 0xA7, CHR 0x90]),
    (''&race;'', [CHR 0xE2, CHR 0xA7, CHR 0x9A]),
    (''&iinfin;'', [CHR 0xE2, CHR 0xA7, CHR 0x9C]),
    (''&infintie;'', [CHR 0xE2, CHR 0xA7, CHR 0x9D]),
    (''&nvinfin;'', [CHR 0xE2, CHR 0xA7, CHR 0x9E]),
    (''&eparsl;'', [CHR 0xE2, CHR 0xA7, CHR 0xA3]),
    (''&smeparsl;'', [CHR 0xE2, CHR 0xA7, CHR 0xA4]),
    (''&eqvparsl;'', [CHR 0xE2, CHR 0xA7, CHR 0xA5]),
    (''&lozf;'', [CHR 0xE2, CHR 0xA7, CHR 0xAB]),
    (''&blacklozenge;'', [CHR 0xE2, CHR 0xA7, CHR 0xAB]),
    (''&RuleDelayed;'', [CHR 0xE2, CHR 0xA7, CHR 0xB4]),
    (''&dsol;'', [CHR 0xE2, CHR 0xA7, CHR 0xB6]),
    (''&xodot;'', [CHR 0xE2, CHR 0xA8, CHR 0x80]),
    (''&bigodot;'', [CHR 0xE2, CHR 0xA8, CHR 0x80]),
    (''&xoplus;'', [CHR 0xE2, CHR 0xA8, CHR 0x81]),
    (''&bigoplus;'', [CHR 0xE2, CHR 0xA8, CHR 0x81]),
    (''&xotime;'', [CHR 0xE2, CHR 0xA8, CHR 0x82]),
    (''&bigotimes;'', [CHR 0xE2, CHR 0xA8, CHR 0x82]),
    (''&xuplus;'', [CHR 0xE2, CHR 0xA8, CHR 0x84]),
    (''&biguplus;'', [CHR 0xE2, CHR 0xA8, CHR 0x84]),
    (''&xsqcup;'', [CHR 0xE2, CHR 0xA8, CHR 0x86]),
    (''&bigsqcup;'', [CHR 0xE2, CHR 0xA8, CHR 0x86]),
    (''&qint;'', [CHR 0xE2, CHR 0xA8, CHR 0x8C]),
    (''&iiiint;'', [CHR 0xE2, CHR 0xA8, CHR 0x8C]),
    (''&fpartint;'', [CHR 0xE2, CHR 0xA8, CHR 0x8D]),
    (''&cirfnint;'', [CHR 0xE2, CHR 0xA8, CHR 0x90]),
    (''&awint;'', [CHR 0xE2, CHR 0xA8, CHR 0x91]),
    (''&rppolint;'', [CHR 0xE2, CHR 0xA8, CHR 0x92]),
    (''&scpolint;'', [CHR 0xE2, CHR 0xA8, CHR 0x93]),
    (''&npolint;'', [CHR 0xE2, CHR 0xA8, CHR 0x94]),
    (''&pointint;'', [CHR 0xE2, CHR 0xA8, CHR 0x95]),
    (''&quatint;'', [CHR 0xE2, CHR 0xA8, CHR 0x96]),
    (''&intlarhk;'', [CHR 0xE2, CHR 0xA8, CHR 0x97]),
    (''&pluscir;'', [CHR 0xE2, CHR 0xA8, CHR 0xA2]),
    (''&plusacir;'', [CHR 0xE2, CHR 0xA8, CHR 0xA3]),
    (''&simplus;'', [CHR 0xE2, CHR 0xA8, CHR 0xA4]),
    (''&plusdu;'', [CHR 0xE2, CHR 0xA8, CHR 0xA5]),
    (''&plussim;'', [CHR 0xE2, CHR 0xA8, CHR 0xA6]),
    (''&plustwo;'', [CHR 0xE2, CHR 0xA8, CHR 0xA7]),
    (''&mcomma;'', [CHR 0xE2, CHR 0xA8, CHR 0xA9]),
    (''&minusdu;'', [CHR 0xE2, CHR 0xA8, CHR 0xAA]),
    (''&loplus;'', [CHR 0xE2, CHR 0xA8, CHR 0xAD]),
    (''&roplus;'', [CHR 0xE2, CHR 0xA8, CHR 0xAE]),
    (''&Cross;'', [CHR 0xE2, CHR 0xA8, CHR 0xAF]),
    (''&timesd;'', [CHR 0xE2, CHR 0xA8, CHR 0xB0]),
    (''&timesbar;'', [CHR 0xE2, CHR 0xA8, CHR 0xB1]),
    (''&smashp;'', [CHR 0xE2, CHR 0xA8, CHR 0xB3]),
    (''&lotimes;'', [CHR 0xE2, CHR 0xA8, CHR 0xB4]),
    (''&rotimes;'', [CHR 0xE2, CHR 0xA8, CHR 0xB5]),
    (''&otimesas;'', [CHR 0xE2, CHR 0xA8, CHR 0xB6]),
    (''&Otimes;'', [CHR 0xE2, CHR 0xA8, CHR 0xB7]),
    (''&odiv;'', [CHR 0xE2, CHR 0xA8, CHR 0xB8]),
    (''&triplus;'', [CHR 0xE2, CHR 0xA8, CHR 0xB9]),
    (''&triminus;'', [CHR 0xE2, CHR 0xA8, CHR 0xBA]),
    (''&tritime;'', [CHR 0xE2, CHR 0xA8, CHR 0xBB]),
    (''&iprod;'', [CHR 0xE2, CHR 0xA8, CHR 0xBC]),
    (''&intprod;'', [CHR 0xE2, CHR 0xA8, CHR 0xBC]),
    (''&amalg;'', [CHR 0xE2, CHR 0xA8, CHR 0xBF]),
    (''&capdot;'', [CHR 0xE2, CHR 0xA9, CHR 0x80]),
    (''&ncup;'', [CHR 0xE2, CHR 0xA9, CHR 0x82]),
    (''&ncap;'', [CHR 0xE2, CHR 0xA9, CHR 0x83]),
    (''&capand;'', [CHR 0xE2, CHR 0xA9, CHR 0x84]),
    (''&cupor;'', [CHR 0xE2, CHR 0xA9, CHR 0x85]),
    (''&cupcap;'', [CHR 0xE2, CHR 0xA9, CHR 0x86]),
    (''&capcup;'', [CHR 0xE2, CHR 0xA9, CHR 0x87]),
    (''&cupbrcap;'', [CHR 0xE2, CHR 0xA9, CHR 0x88]),
    (''&capbrcup;'', [CHR 0xE2, CHR 0xA9, CHR 0x89]),
    (''&cupcup;'', [CHR 0xE2, CHR 0xA9, CHR 0x8A]),
    (''&capcap;'', [CHR 0xE2, CHR 0xA9, CHR 0x8B]),
    (''&ccups;'', [CHR 0xE2, CHR 0xA9, CHR 0x8C]),
    (''&ccaps;'', [CHR 0xE2, CHR 0xA9, CHR 0x8D]),
    (''&ccupssm;'', [CHR 0xE2, CHR 0xA9, CHR 0x90]),
    (''&And;'', [CHR 0xE2, CHR 0xA9, CHR 0x93]),
    (''&Or;'', [CHR 0xE2, CHR 0xA9, CHR 0x94]),
    (''&andand;'', [CHR 0xE2, CHR 0xA9, CHR 0x95]),
    (''&oror;'', [CHR 0xE2, CHR 0xA9, CHR 0x96]),
    (''&orslope;'', [CHR 0xE2, CHR 0xA9, CHR 0x97]),
    (''&andslope;'', [CHR 0xE2, CHR 0xA9, CHR 0x98]),
    (''&andv;'', [CHR 0xE2, CHR 0xA9, CHR 0x9A]),
    (''&orv;'', [CHR 0xE2, CHR 0xA9, CHR 0x9B]),
    (''&andd;'', [CHR 0xE2, CHR 0xA9, CHR 0x9C]),
    (''&ord;'', [CHR 0xE2, CHR 0xA9, CHR 0x9D]),
    (''&wedbar;'', [CHR 0xE2, CHR 0xA9, CHR 0x9F]),
    (''&sdote;'', [CHR 0xE2, CHR 0xA9, CHR 0xA6]),
    (''&simdot;'', [CHR 0xE2, CHR 0xA9, CHR 0xAA]),
    (''&congdot;'', [CHR 0xE2, CHR 0xA9, CHR 0xAD]),
    (''&easter;'', [CHR 0xE2, CHR 0xA9, CHR 0xAE]),
    (''&apacir;'', [CHR 0xE2, CHR 0xA9, CHR 0xAF]),
    (''&apE;'', [CHR 0xE2, CHR 0xA9, CHR 0xB0]),
    (''&eplus;'', [CHR 0xE2, CHR 0xA9, CHR 0xB1]),
    (''&pluse;'', [CHR 0xE2, CHR 0xA9, CHR 0xB2]),
    (''&Esim;'', [CHR 0xE2, CHR 0xA9, CHR 0xB3]),
    (''&Colone;'', [CHR 0xE2, CHR 0xA9, CHR 0xB4]),
    (''&Equal;'', [CHR 0xE2, CHR 0xA9, CHR 0xB5]),
    (''&eDDot;'', [CHR 0xE2, CHR 0xA9, CHR 0xB7]),
    (''&ddotseq;'', [CHR 0xE2, CHR 0xA9, CHR 0xB7]),
    (''&equivDD;'', [CHR 0xE2, CHR 0xA9, CHR 0xB8]),
    (''&ltcir;'', [CHR 0xE2, CHR 0xA9, CHR 0xB9]),
    (''&gtcir;'', [CHR 0xE2, CHR 0xA9, CHR 0xBA]),
    (''&ltquest;'', [CHR 0xE2, CHR 0xA9, CHR 0xBB]),
    (''&gtquest;'', [CHR 0xE2, CHR 0xA9, CHR 0xBC]),
    (''&les;'', [CHR 0xE2, CHR 0xA9, CHR 0xBD]),
    (''&LessSlantEqual;'', [CHR 0xE2, CHR 0xA9, CHR 0xBD]),
    (''&leqslant;'', [CHR 0xE2, CHR 0xA9, CHR 0xBD]),
    (''&ges;'', [CHR 0xE2, CHR 0xA9, CHR 0xBE]),
    (''&GreaterSlantEqual;'', [CHR 0xE2, CHR 0xA9, CHR 0xBE]),
    (''&geqslant;'', [CHR 0xE2, CHR 0xA9, CHR 0xBE]),
    (''&lesdot;'', [CHR 0xE2, CHR 0xA9, CHR 0xBF]),
    (''&gesdot;'', [CHR 0xE2, CHR 0xAA, CHR 0x80]),
    (''&lesdoto;'', [CHR 0xE2, CHR 0xAA, CHR 0x81]),
    (''&gesdoto;'', [CHR 0xE2, CHR 0xAA, CHR 0x82]),
    (''&lesdotor;'', [CHR 0xE2, CHR 0xAA, CHR 0x83]),
    (''&gesdotol;'', [CHR 0xE2, CHR 0xAA, CHR 0x84]),
    (''&lap;'', [CHR 0xE2, CHR 0xAA, CHR 0x85]),
    (''&lessapprox;'', [CHR 0xE2, CHR 0xAA, CHR 0x85]),
    (''&gap;'', [CHR 0xE2, CHR 0xAA, CHR 0x86]),
    (''&gtrapprox;'', [CHR 0xE2, CHR 0xAA, CHR 0x86]),
    (''&lne;'', [CHR 0xE2, CHR 0xAA, CHR 0x87]),
    (''&lneq;'', [CHR 0xE2, CHR 0xAA, CHR 0x87]),
    (''&gne;'', [CHR 0xE2, CHR 0xAA, CHR 0x88]),
    (''&gneq;'', [CHR 0xE2, CHR 0xAA, CHR 0x88]),
    (''&lnap;'', [CHR 0xE2, CHR 0xAA, CHR 0x89]),
    (''&lnapprox;'', [CHR 0xE2, CHR 0xAA, CHR 0x89]),
    (''&gnap;'', [CHR 0xE2, CHR 0xAA, CHR 0x8A]),
    (''&gnapprox;'', [CHR 0xE2, CHR 0xAA, CHR 0x8A]),
    (''&lEg;'', [CHR 0xE2, CHR 0xAA, CHR 0x8B]),
    (''&lesseqqgtr;'', [CHR 0xE2, CHR 0xAA, CHR 0x8B]),
    (''&gEl;'', [CHR 0xE2, CHR 0xAA, CHR 0x8C]),
    (''&gtreqqless;'', [CHR 0xE2, CHR 0xAA, CHR 0x8C]),
    (''&lsime;'', [CHR 0xE2, CHR 0xAA, CHR 0x8D]),
    (''&gsime;'', [CHR 0xE2, CHR 0xAA, CHR 0x8E]),
    (''&lsimg;'', [CHR 0xE2, CHR 0xAA, CHR 0x8F]),
    (''&gsiml;'', [CHR 0xE2, CHR 0xAA, CHR 0x90]),
    (''&lgE;'', [CHR 0xE2, CHR 0xAA, CHR 0x91]),
    (''&glE;'', [CHR 0xE2, CHR 0xAA, CHR 0x92]),
    (''&lesges;'', [CHR 0xE2, CHR 0xAA, CHR 0x93]),
    (''&gesles;'', [CHR 0xE2, CHR 0xAA, CHR 0x94]),
    (''&els;'', [CHR 0xE2, CHR 0xAA, CHR 0x95])]"

definition HtmlEntities_13 :: "(string, string) al" where
  "HtmlEntities_13 = [
    (''&eqslantless;'', [CHR 0xE2, CHR 0xAA, CHR 0x95]),
    (''&egs;'', [CHR 0xE2, CHR 0xAA, CHR 0x96]),
    (''&eqslantgtr;'', [CHR 0xE2, CHR 0xAA, CHR 0x96]),
    (''&elsdot;'', [CHR 0xE2, CHR 0xAA, CHR 0x97]),
    (''&egsdot;'', [CHR 0xE2, CHR 0xAA, CHR 0x98]),
    (''&el;'', [CHR 0xE2, CHR 0xAA, CHR 0x99]),
    (''&eg;'', [CHR 0xE2, CHR 0xAA, CHR 0x9A]),
    (''&siml;'', [CHR 0xE2, CHR 0xAA, CHR 0x9D]),
    (''&simg;'', [CHR 0xE2, CHR 0xAA, CHR 0x9E]),
    (''&simlE;'', [CHR 0xE2, CHR 0xAA, CHR 0x9F]),
    (''&simgE;'', [CHR 0xE2, CHR 0xAA, CHR 0xA0]),
    (''&LessLess;'', [CHR 0xE2, CHR 0xAA, CHR 0xA1]),
    (''&GreaterGreater;'', [CHR 0xE2, CHR 0xAA, CHR 0xA2]),
    (''&glj;'', [CHR 0xE2, CHR 0xAA, CHR 0xA4]),
    (''&gla;'', [CHR 0xE2, CHR 0xAA, CHR 0xA5]),
    (''&ltcc;'', [CHR 0xE2, CHR 0xAA, CHR 0xA6]),
    (''&gtcc;'', [CHR 0xE2, CHR 0xAA, CHR 0xA7]),
    (''&lescc;'', [CHR 0xE2, CHR 0xAA, CHR 0xA8]),
    (''&gescc;'', [CHR 0xE2, CHR 0xAA, CHR 0xA9]),
    (''&smt;'', [CHR 0xE2, CHR 0xAA, CHR 0xAA]),
    (''&lat;'', [CHR 0xE2, CHR 0xAA, CHR 0xAB]),
    (''&smte;'', [CHR 0xE2, CHR 0xAA, CHR 0xAC]),
    (''&late;'', [CHR 0xE2, CHR 0xAA, CHR 0xAD]),
    (''&bumpE;'', [CHR 0xE2, CHR 0xAA, CHR 0xAE]),
    (''&pre;'', [CHR 0xE2, CHR 0xAA, CHR 0xAF]),
    (''&preceq;'', [CHR 0xE2, CHR 0xAA, CHR 0xAF]),
    (''&PrecedesEqual;'', [CHR 0xE2, CHR 0xAA, CHR 0xAF]),
    (''&sce;'', [CHR 0xE2, CHR 0xAA, CHR 0xB0]),
    (''&succeq;'', [CHR 0xE2, CHR 0xAA, CHR 0xB0]),
    (''&SucceedsEqual;'', [CHR 0xE2, CHR 0xAA, CHR 0xB0]),
    (''&prE;'', [CHR 0xE2, CHR 0xAA, CHR 0xB3]),
    (''&scE;'', [CHR 0xE2, CHR 0xAA, CHR 0xB4]),
    (''&prnE;'', [CHR 0xE2, CHR 0xAA, CHR 0xB5]),
    (''&precneqq;'', [CHR 0xE2, CHR 0xAA, CHR 0xB5]),
    (''&scnE;'', [CHR 0xE2, CHR 0xAA, CHR 0xB6]),
    (''&succneqq;'', [CHR 0xE2, CHR 0xAA, CHR 0xB6]),
    (''&prap;'', [CHR 0xE2, CHR 0xAA, CHR 0xB7]),
    (''&precapprox;'', [CHR 0xE2, CHR 0xAA, CHR 0xB7]),
    (''&scap;'', [CHR 0xE2, CHR 0xAA, CHR 0xB8]),
    (''&succapprox;'', [CHR 0xE2, CHR 0xAA, CHR 0xB8]),
    (''&prnap;'', [CHR 0xE2, CHR 0xAA, CHR 0xB9]),
    (''&precnapprox;'', [CHR 0xE2, CHR 0xAA, CHR 0xB9]),
    (''&scnap;'', [CHR 0xE2, CHR 0xAA, CHR 0xBA]),
    (''&succnapprox;'', [CHR 0xE2, CHR 0xAA, CHR 0xBA]),
    (''&Pr;'', [CHR 0xE2, CHR 0xAA, CHR 0xBB]),
    (''&Sc;'', [CHR 0xE2, CHR 0xAA, CHR 0xBC]),
    (''&subdot;'', [CHR 0xE2, CHR 0xAA, CHR 0xBD]),
    (''&supdot;'', [CHR 0xE2, CHR 0xAA, CHR 0xBE]),
    (''&subplus;'', [CHR 0xE2, CHR 0xAA, CHR 0xBF]),
    (''&supplus;'', [CHR 0xE2, CHR 0xAB, CHR 0x80]),
    (''&submult;'', [CHR 0xE2, CHR 0xAB, CHR 0x81]),
    (''&supmult;'', [CHR 0xE2, CHR 0xAB, CHR 0x82]),
    (''&subedot;'', [CHR 0xE2, CHR 0xAB, CHR 0x83]),
    (''&supedot;'', [CHR 0xE2, CHR 0xAB, CHR 0x84]),
    (''&subE;'', [CHR 0xE2, CHR 0xAB, CHR 0x85]),
    (''&subseteqq;'', [CHR 0xE2, CHR 0xAB, CHR 0x85]),
    (''&supE;'', [CHR 0xE2, CHR 0xAB, CHR 0x86]),
    (''&supseteqq;'', [CHR 0xE2, CHR 0xAB, CHR 0x86]),
    (''&subsim;'', [CHR 0xE2, CHR 0xAB, CHR 0x87]),
    (''&supsim;'', [CHR 0xE2, CHR 0xAB, CHR 0x88]),
    (''&subnE;'', [CHR 0xE2, CHR 0xAB, CHR 0x8B]),
    (''&subsetneqq;'', [CHR 0xE2, CHR 0xAB, CHR 0x8B]),
    (''&supnE;'', [CHR 0xE2, CHR 0xAB, CHR 0x8C]),
    (''&supsetneqq;'', [CHR 0xE2, CHR 0xAB, CHR 0x8C]),
    (''&csub;'', [CHR 0xE2, CHR 0xAB, CHR 0x8F]),
    (''&csup;'', [CHR 0xE2, CHR 0xAB, CHR 0x90]),
    (''&csube;'', [CHR 0xE2, CHR 0xAB, CHR 0x91]),
    (''&csupe;'', [CHR 0xE2, CHR 0xAB, CHR 0x92]),
    (''&subsup;'', [CHR 0xE2, CHR 0xAB, CHR 0x93]),
    (''&supsub;'', [CHR 0xE2, CHR 0xAB, CHR 0x94]),
    (''&subsub;'', [CHR 0xE2, CHR 0xAB, CHR 0x95]),
    (''&supsup;'', [CHR 0xE2, CHR 0xAB, CHR 0x96]),
    (''&suphsub;'', [CHR 0xE2, CHR 0xAB, CHR 0x97]),
    (''&supdsub;'', [CHR 0xE2, CHR 0xAB, CHR 0x98]),
    (''&forkv;'', [CHR 0xE2, CHR 0xAB, CHR 0x99]),
    (''&topfork;'', [CHR 0xE2, CHR 0xAB, CHR 0x9A]),
    (''&mlcp;'', [CHR 0xE2, CHR 0xAB, CHR 0x9B]),
    (''&Dashv;'', [CHR 0xE2, CHR 0xAB, CHR 0xA4]),
    (''&DoubleLeftTee;'', [CHR 0xE2, CHR 0xAB, CHR 0xA4]),
    (''&Vdashl;'', [CHR 0xE2, CHR 0xAB, CHR 0xA6]),
    (''&Barv;'', [CHR 0xE2, CHR 0xAB, CHR 0xA7]),
    (''&vBar;'', [CHR 0xE2, CHR 0xAB, CHR 0xA8]),
    (''&vBarv;'', [CHR 0xE2, CHR 0xAB, CHR 0xA9]),
    (''&Vbar;'', [CHR 0xE2, CHR 0xAB, CHR 0xAB]),
    (''&Not;'', [CHR 0xE2, CHR 0xAB, CHR 0xAC]),
    (''&bNot;'', [CHR 0xE2, CHR 0xAB, CHR 0xAD]),
    (''&rnmid;'', [CHR 0xE2, CHR 0xAB, CHR 0xAE]),
    (''&cirmid;'', [CHR 0xE2, CHR 0xAB, CHR 0xAF]),
    (''&midcir;'', [CHR 0xE2, CHR 0xAB, CHR 0xB0]),
    (''&topcir;'', [CHR 0xE2, CHR 0xAB, CHR 0xB1]),
    (''&nhpar;'', [CHR 0xE2, CHR 0xAB, CHR 0xB2]),
    (''&parsim;'', [CHR 0xE2, CHR 0xAB, CHR 0xB3]),
    (''&parsl;'', [CHR 0xE2, CHR 0xAB, CHR 0xBD]),
    (''&fflig;'', [CHR 0xEF, CHR 0xAC, CHR 0x80]),
    (''&filig;'', [CHR 0xEF, CHR 0xAC, CHR 0x81]),
    (''&fllig;'', [CHR 0xEF, CHR 0xAC, CHR 0x82]),
    (''&ffilig;'', [CHR 0xEF, CHR 0xAC, CHR 0x83]),
    (''&ffllig;'', [CHR 0xEF, CHR 0xAC, CHR 0x84]),
    (''&Ascr;'', [CHR 0xF0, CHR 0x9D, CHR 0x92, CHR 0x9C]),
    (''&Cscr;'', [CHR 0xF0, CHR 0x9D, CHR 0x92, CHR 0x9E]),
    (''&Dscr;'', [CHR 0xF0, CHR 0x9D, CHR 0x92, CHR 0x9F]),
    (''&Gscr;'', [CHR 0xF0, CHR 0x9D, CHR 0x92, CHR 0xA2]),
    (''&Jscr;'', [CHR 0xF0, CHR 0x9D, CHR 0x92, CHR 0xA5]),
    (''&Kscr;'', [CHR 0xF0, CHR 0x9D, CHR 0x92, CHR 0xA6]),
    (''&Nscr;'', [CHR 0xF0, CHR 0x9D, CHR 0x92, CHR 0xA9]),
    (''&Oscr;'', [CHR 0xF0, CHR 0x9D, CHR 0x92, CHR 0xAA]),
    (''&Pscr;'', [CHR 0xF0, CHR 0x9D, CHR 0x92, CHR 0xAB]),
    (''&Qscr;'', [CHR 0xF0, CHR 0x9D, CHR 0x92, CHR 0xAC]),
    (''&Sscr;'', [CHR 0xF0, CHR 0x9D, CHR 0x92, CHR 0xAE]),
    (''&Tscr;'', [CHR 0xF0, CHR 0x9D, CHR 0x92, CHR 0xAF]),
    (''&Uscr;'', [CHR 0xF0, CHR 0x9D, CHR 0x92, CHR 0xB0]),
    (''&Vscr;'', [CHR 0xF0, CHR 0x9D, CHR 0x92, CHR 0xB1]),
    (''&Wscr;'', [CHR 0xF0, CHR 0x9D, CHR 0x92, CHR 0xB2]),
    (''&Xscr;'', [CHR 0xF0, CHR 0x9D, CHR 0x92, CHR 0xB3]),
    (''&Yscr;'', [CHR 0xF0, CHR 0x9D, CHR 0x92, CHR 0xB4]),
    (''&Zscr;'', [CHR 0xF0, CHR 0x9D, CHR 0x92, CHR 0xB5]),
    (''&ascr;'', [CHR 0xF0, CHR 0x9D, CHR 0x92, CHR 0xB6]),
    (''&bscr;'', [CHR 0xF0, CHR 0x9D, CHR 0x92, CHR 0xB7]),
    (''&cscr;'', [CHR 0xF0, CHR 0x9D, CHR 0x92, CHR 0xB8]),
    (''&dscr;'', [CHR 0xF0, CHR 0x9D, CHR 0x92, CHR 0xB9]),
    (''&fscr;'', [CHR 0xF0, CHR 0x9D, CHR 0x92, CHR 0xBB]),
    (''&hscr;'', [CHR 0xF0, CHR 0x9D, CHR 0x92, CHR 0xBD]),
    (''&iscr;'', [CHR 0xF0, CHR 0x9D, CHR 0x92, CHR 0xBE]),
    (''&jscr;'', [CHR 0xF0, CHR 0x9D, CHR 0x92, CHR 0xBF]),
    (''&kscr;'', [CHR 0xF0, CHR 0x9D, CHR 0x93, CHR 0x80]),
    (''&lscr;'', [CHR 0xF0, CHR 0x9D, CHR 0x93, CHR 0x81]),
    (''&mscr;'', [CHR 0xF0, CHR 0x9D, CHR 0x93, CHR 0x82]),
    (''&nscr;'', [CHR 0xF0, CHR 0x9D, CHR 0x93, CHR 0x83]),
    (''&pscr;'', [CHR 0xF0, CHR 0x9D, CHR 0x93, CHR 0x85]),
    (''&qscr;'', [CHR 0xF0, CHR 0x9D, CHR 0x93, CHR 0x86]),
    (''&rscr;'', [CHR 0xF0, CHR 0x9D, CHR 0x93, CHR 0x87]),
    (''&sscr;'', [CHR 0xF0, CHR 0x9D, CHR 0x93, CHR 0x88]),
    (''&tscr;'', [CHR 0xF0, CHR 0x9D, CHR 0x93, CHR 0x89]),
    (''&uscr;'', [CHR 0xF0, CHR 0x9D, CHR 0x93, CHR 0x8A]),
    (''&vscr;'', [CHR 0xF0, CHR 0x9D, CHR 0x93, CHR 0x8B]),
    (''&wscr;'', [CHR 0xF0, CHR 0x9D, CHR 0x93, CHR 0x8C]),
    (''&xscr;'', [CHR 0xF0, CHR 0x9D, CHR 0x93, CHR 0x8D]),
    (''&yscr;'', [CHR 0xF0, CHR 0x9D, CHR 0x93, CHR 0x8E]),
    (''&zscr;'', [CHR 0xF0, CHR 0x9D, CHR 0x93, CHR 0x8F]),
    (''&Afr;'', [CHR 0xF0, CHR 0x9D, CHR 0x94, CHR 0x84]),
    (''&Bfr;'', [CHR 0xF0, CHR 0x9D, CHR 0x94, CHR 0x85]),
    (''&Dfr;'', [CHR 0xF0, CHR 0x9D, CHR 0x94, CHR 0x87]),
    (''&Efr;'', [CHR 0xF0, CHR 0x9D, CHR 0x94, CHR 0x88]),
    (''&Ffr;'', [CHR 0xF0, CHR 0x9D, CHR 0x94, CHR 0x89]),
    (''&Gfr;'', [CHR 0xF0, CHR 0x9D, CHR 0x94, CHR 0x8A]),
    (''&Jfr;'', [CHR 0xF0, CHR 0x9D, CHR 0x94, CHR 0x8D]),
    (''&Kfr;'', [CHR 0xF0, CHR 0x9D, CHR 0x94, CHR 0x8E]),
    (''&Lfr;'', [CHR 0xF0, CHR 0x9D, CHR 0x94, CHR 0x8F]),
    (''&Mfr;'', [CHR 0xF0, CHR 0x9D, CHR 0x94, CHR 0x90]),
    (''&Nfr;'', [CHR 0xF0, CHR 0x9D, CHR 0x94, CHR 0x91])]"

definition HtmlEntities_14 :: "(string, string) al" where
  "HtmlEntities_14 = [
    (''&Ofr;'', [CHR 0xF0, CHR 0x9D, CHR 0x94, CHR 0x92]),
    (''&Pfr;'', [CHR 0xF0, CHR 0x9D, CHR 0x94, CHR 0x93]),
    (''&Qfr;'', [CHR 0xF0, CHR 0x9D, CHR 0x94, CHR 0x94]),
    (''&Sfr;'', [CHR 0xF0, CHR 0x9D, CHR 0x94, CHR 0x96]),
    (''&Tfr;'', [CHR 0xF0, CHR 0x9D, CHR 0x94, CHR 0x97]),
    (''&Ufr;'', [CHR 0xF0, CHR 0x9D, CHR 0x94, CHR 0x98]),
    (''&Vfr;'', [CHR 0xF0, CHR 0x9D, CHR 0x94, CHR 0x99]),
    (''&Wfr;'', [CHR 0xF0, CHR 0x9D, CHR 0x94, CHR 0x9A]),
    (''&Xfr;'', [CHR 0xF0, CHR 0x9D, CHR 0x94, CHR 0x9B]),
    (''&Yfr;'', [CHR 0xF0, CHR 0x9D, CHR 0x94, CHR 0x9C]),
    (''&afr;'', [CHR 0xF0, CHR 0x9D, CHR 0x94, CHR 0x9E]),
    (''&bfr;'', [CHR 0xF0, CHR 0x9D, CHR 0x94, CHR 0x9F]),
    (''&cfr;'', [CHR 0xF0, CHR 0x9D, CHR 0x94, CHR 0xA0]),
    (''&dfr;'', [CHR 0xF0, CHR 0x9D, CHR 0x94, CHR 0xA1]),
    (''&efr;'', [CHR 0xF0, CHR 0x9D, CHR 0x94, CHR 0xA2]),
    (''&ffr;'', [CHR 0xF0, CHR 0x9D, CHR 0x94, CHR 0xA3]),
    (''&gfr;'', [CHR 0xF0, CHR 0x9D, CHR 0x94, CHR 0xA4]),
    (''&hfr;'', [CHR 0xF0, CHR 0x9D, CHR 0x94, CHR 0xA5]),
    (''&ifr;'', [CHR 0xF0, CHR 0x9D, CHR 0x94, CHR 0xA6]),
    (''&jfr;'', [CHR 0xF0, CHR 0x9D, CHR 0x94, CHR 0xA7]),
    (''&kfr;'', [CHR 0xF0, CHR 0x9D, CHR 0x94, CHR 0xA8]),
    (''&lfr;'', [CHR 0xF0, CHR 0x9D, CHR 0x94, CHR 0xA9]),
    (''&mfr;'', [CHR 0xF0, CHR 0x9D, CHR 0x94, CHR 0xAA]),
    (''&nfr;'', [CHR 0xF0, CHR 0x9D, CHR 0x94, CHR 0xAB]),
    (''&ofr;'', [CHR 0xF0, CHR 0x9D, CHR 0x94, CHR 0xAC]),
    (''&pfr;'', [CHR 0xF0, CHR 0x9D, CHR 0x94, CHR 0xAD]),
    (''&qfr;'', [CHR 0xF0, CHR 0x9D, CHR 0x94, CHR 0xAE]),
    (''&rfr;'', [CHR 0xF0, CHR 0x9D, CHR 0x94, CHR 0xAF]),
    (''&sfr;'', [CHR 0xF0, CHR 0x9D, CHR 0x94, CHR 0xB0]),
    (''&tfr;'', [CHR 0xF0, CHR 0x9D, CHR 0x94, CHR 0xB1]),
    (''&ufr;'', [CHR 0xF0, CHR 0x9D, CHR 0x94, CHR 0xB2]),
    (''&vfr;'', [CHR 0xF0, CHR 0x9D, CHR 0x94, CHR 0xB3]),
    (''&wfr;'', [CHR 0xF0, CHR 0x9D, CHR 0x94, CHR 0xB4]),
    (''&xfr;'', [CHR 0xF0, CHR 0x9D, CHR 0x94, CHR 0xB5]),
    (''&yfr;'', [CHR 0xF0, CHR 0x9D, CHR 0x94, CHR 0xB6]),
    (''&zfr;'', [CHR 0xF0, CHR 0x9D, CHR 0x94, CHR 0xB7]),
    (''&Aopf;'', [CHR 0xF0, CHR 0x9D, CHR 0x94, CHR 0xB8]),
    (''&Bopf;'', [CHR 0xF0, CHR 0x9D, CHR 0x94, CHR 0xB9]),
    (''&Dopf;'', [CHR 0xF0, CHR 0x9D, CHR 0x94, CHR 0xBB]),
    (''&Eopf;'', [CHR 0xF0, CHR 0x9D, CHR 0x94, CHR 0xBC]),
    (''&Fopf;'', [CHR 0xF0, CHR 0x9D, CHR 0x94, CHR 0xBD]),
    (''&Gopf;'', [CHR 0xF0, CHR 0x9D, CHR 0x94, CHR 0xBE]),
    (''&Iopf;'', [CHR 0xF0, CHR 0x9D, CHR 0x95, CHR 0x80]),
    (''&Jopf;'', [CHR 0xF0, CHR 0x9D, CHR 0x95, CHR 0x81]),
    (''&Kopf;'', [CHR 0xF0, CHR 0x9D, CHR 0x95, CHR 0x82]),
    (''&Lopf;'', [CHR 0xF0, CHR 0x9D, CHR 0x95, CHR 0x83]),
    (''&Mopf;'', [CHR 0xF0, CHR 0x9D, CHR 0x95, CHR 0x84]),
    (''&Oopf;'', [CHR 0xF0, CHR 0x9D, CHR 0x95, CHR 0x86]),
    (''&Sopf;'', [CHR 0xF0, CHR 0x9D, CHR 0x95, CHR 0x8A]),
    (''&Topf;'', [CHR 0xF0, CHR 0x9D, CHR 0x95, CHR 0x8B]),
    (''&Uopf;'', [CHR 0xF0, CHR 0x9D, CHR 0x95, CHR 0x8C]),
    (''&Vopf;'', [CHR 0xF0, CHR 0x9D, CHR 0x95, CHR 0x8D]),
    (''&Wopf;'', [CHR 0xF0, CHR 0x9D, CHR 0x95, CHR 0x8E]),
    (''&Xopf;'', [CHR 0xF0, CHR 0x9D, CHR 0x95, CHR 0x8F]),
    (''&Yopf;'', [CHR 0xF0, CHR 0x9D, CHR 0x95, CHR 0x90]),
    (''&aopf;'', [CHR 0xF0, CHR 0x9D, CHR 0x95, CHR 0x92]),
    (''&bopf;'', [CHR 0xF0, CHR 0x9D, CHR 0x95, CHR 0x93]),
    (''&copf;'', [CHR 0xF0, CHR 0x9D, CHR 0x95, CHR 0x94]),
    (''&dopf;'', [CHR 0xF0, CHR 0x9D, CHR 0x95, CHR 0x95]),
    (''&eopf;'', [CHR 0xF0, CHR 0x9D, CHR 0x95, CHR 0x96]),
    (''&fopf;'', [CHR 0xF0, CHR 0x9D, CHR 0x95, CHR 0x97]),
    (''&gopf;'', [CHR 0xF0, CHR 0x9D, CHR 0x95, CHR 0x98]),
    (''&hopf;'', [CHR 0xF0, CHR 0x9D, CHR 0x95, CHR 0x99]),
    (''&iopf;'', [CHR 0xF0, CHR 0x9D, CHR 0x95, CHR 0x9A]),
    (''&jopf;'', [CHR 0xF0, CHR 0x9D, CHR 0x95, CHR 0x9B]),
    (''&kopf;'', [CHR 0xF0, CHR 0x9D, CHR 0x95, CHR 0x9C]),
    (''&lopf;'', [CHR 0xF0, CHR 0x9D, CHR 0x95, CHR 0x9D]),
    (''&mopf;'', [CHR 0xF0, CHR 0x9D, CHR 0x95, CHR 0x9E]),
    (''&nopf;'', [CHR 0xF0, CHR 0x9D, CHR 0x95, CHR 0x9F]),
    (''&oopf;'', [CHR 0xF0, CHR 0x9D, CHR 0x95, CHR 0xA0]),
    (''&popf;'', [CHR 0xF0, CHR 0x9D, CHR 0x95, CHR 0xA1]),
    (''&qopf;'', [CHR 0xF0, CHR 0x9D, CHR 0x95, CHR 0xA2]),
    (''&ropf;'', [CHR 0xF0, CHR 0x9D, CHR 0x95, CHR 0xA3]),
    (''&sopf;'', [CHR 0xF0, CHR 0x9D, CHR 0x95, CHR 0xA4]),
    (''&topf;'', [CHR 0xF0, CHR 0x9D, CHR 0x95, CHR 0xA5]),
    (''&uopf;'', [CHR 0xF0, CHR 0x9D, CHR 0x95, CHR 0xA6]),
    (''&vopf;'', [CHR 0xF0, CHR 0x9D, CHR 0x95, CHR 0xA7]),
    (''&wopf;'', [CHR 0xF0, CHR 0x9D, CHR 0x95, CHR 0xA8]),
    (''&xopf;'', [CHR 0xF0, CHR 0x9D, CHR 0x95, CHR 0xA9]),
    (''&yopf;'', [CHR 0xF0, CHR 0x9D, CHR 0x95, CHR 0xAA]),
    (''&zopf;'', [CHR 0xF0, CHR 0x9D, CHR 0x95, CHR 0xAB])]"

definition HtmlEntities :: "(string, string) al" where
  "HtmlEntities = HtmlEntities_1 @ HtmlEntities_2 @ HtmlEntities_3 @ HtmlEntities_4 @ HtmlEntities_5 @ HtmlEntities_6 @ HtmlEntities_7 @ HtmlEntities_8 @ HtmlEntities_9 @ HtmlEntities_10 @ HtmlEntities_11 @ HtmlEntities_12 @ HtmlEntities_13 @ HtmlEntities_14"

text \<open>\<open>checkHtmlEntities\<close>, the condition of the \<open>static_assert\<close>, and the map built from the list by
  \<open>emplace\<close>: the first entry of a name wins, as in \<open>al_get\<close>.\<close>

definition checkHtmlEntities :: bool where
  "checkHtmlEntities \<longleftrightarrow> list_all (\<lambda>(name, text). \<not> length name < length text) HtmlEntities"

definition HtmlEntitiesMapping :: "string \<Rightarrow> string option" where
  "HtmlEntitiesMapping name = al_get HtmlEntities name"

lemma check_entities_1: "list_all (\<lambda>(name, text). \<not> length name < length text) HtmlEntities_1"
  by (simp add: HtmlEntities_1_def)

lemma check_entities_2: "list_all (\<lambda>(name, text). \<not> length name < length text) HtmlEntities_2"
  by (simp add: HtmlEntities_2_def)

lemma check_entities_3: "list_all (\<lambda>(name, text). \<not> length name < length text) HtmlEntities_3"
  by (simp add: HtmlEntities_3_def)

lemma check_entities_4: "list_all (\<lambda>(name, text). \<not> length name < length text) HtmlEntities_4"
  by (simp add: HtmlEntities_4_def)

lemma check_entities_5: "list_all (\<lambda>(name, text). \<not> length name < length text) HtmlEntities_5"
  by (simp add: HtmlEntities_5_def)

lemma check_entities_6: "list_all (\<lambda>(name, text). \<not> length name < length text) HtmlEntities_6"
  by (simp add: HtmlEntities_6_def)

lemma check_entities_7: "list_all (\<lambda>(name, text). \<not> length name < length text) HtmlEntities_7"
  by (simp add: HtmlEntities_7_def)

lemma check_entities_8: "list_all (\<lambda>(name, text). \<not> length name < length text) HtmlEntities_8"
  by (simp add: HtmlEntities_8_def)

lemma check_entities_9: "list_all (\<lambda>(name, text). \<not> length name < length text) HtmlEntities_9"
  by (simp add: HtmlEntities_9_def)

lemma check_entities_10: "list_all (\<lambda>(name, text). \<not> length name < length text) HtmlEntities_10"
  by (simp add: HtmlEntities_10_def)

lemma check_entities_11: "list_all (\<lambda>(name, text). \<not> length name < length text) HtmlEntities_11"
  by (simp add: HtmlEntities_11_def)

lemma check_entities_12: "list_all (\<lambda>(name, text). \<not> length name < length text) HtmlEntities_12"
  by (simp add: HtmlEntities_12_def)

lemma check_entities_13: "list_all (\<lambda>(name, text). \<not> length name < length text) HtmlEntities_13"
  by (simp add: HtmlEntities_13_def)

lemma check_entities_14: "list_all (\<lambda>(name, text). \<not> length name < length text) HtmlEntities_14"
  by (simp add: HtmlEntities_14_def)

lemmas check_entities = check_entities_1 check_entities_2 check_entities_3 check_entities_4 check_entities_5 check_entities_6 check_entities_7 check_entities_8 check_entities_9 check_entities_10 check_entities_11 check_entities_12 check_entities_13 check_entities_14

lemma checkHtmlEntities_holds: checkHtmlEntities
  unfolding checkHtmlEntities_def HtmlEntities_def list_all_append using check_entities by simp

lemma HtmlEntitiesMapping_length:
  assumes "HtmlEntitiesMapping name = Some text"
  shows "length text \<le> length name"
proof -
  have "(name, text) \<in> set HtmlEntities"
    using assms by (simp add: HtmlEntitiesMapping_def al_get_in_set)
  with checkHtmlEntities_holds show ?thesis
    by (fastforce simp: checkHtmlEntities_def list_all_iff)
qed

text \<open>The names \<open>htmlEncode\<close> writes.\<close>

lemma HtmlEntitiesMapping_basic:
  "HtmlEntitiesMapping ''&quot;'' = Some [CHR 0x22]"
  "HtmlEntitiesMapping ''&amp;'' = Some [CHR 0x26]"
  "HtmlEntitiesMapping ''&lt;'' = Some [CHR 0x3C]"
  "HtmlEntitiesMapping ''&gt;'' = Some [CHR 0x3E]"
  by (simp_all add: HtmlEntitiesMapping_def HtmlEntities_def HtmlEntities_1_def)

end
