(* ===== verification/HttpUtils.thy ===== *)
theory HttpUtils
  imports EncodeMappings HtmlEntities MimeMapping
begin

text \<open>
  \<open>src/Utility/HttpUtils.cpp\<close> and \<open>src/Serialize/JsonSerializer.cpp\<close>: encoding and decoding of text
  for URLs and HTML, JSON string escaping, and the media type of a path.

  The three encoders share one scheme (add up the table's lengths, return the input when the sum is its
  own length, otherwise write the table's entries), which is \<open>encode_with\<close>; the locale
  \<open>byte_encoder\<close> states what the scheme needs of a table, \<open>total_byte_encoder\<close> adds that no entry is
  empty, and the three tables interpret them. A decoder's loop over a pointer is a recursion over the
  remaining bytes; \<open>dst\<close> is the list of bytes written so far.
\<close>

section \<open>Encoding with a table\<close>

definition encode_with :: "(char \<Rightarrow> string) \<Rightarrow> string \<Rightarrow> string" where
  "encode_with mapping str =
     (let encodedSize = sum_list (map (\<lambda>c. length (mapping c)) str) in
      if encodedSize = length str then str
      else concat (map (\<lambda>c. let mapped = mapping c in if length mapped = 1 then [c] else mapped) str))"

definition urlEncode :: "string \<Rightarrow> string" where
  "urlEncode str = encode_with UrlEncodeMapping str"

definition htmlEncode :: "string \<Rightarrow> string" where
  "htmlEncode str = encode_with HtmlEncodeMapping str"

definition jsonEncode :: "string \<Rightarrow> string" where
  "jsonEncode str = encode_with JsonEncodeMapping str"

section \<open>\<open>urlDecode\<close>\<close>

text \<open>
  \<open>charFromHex\<close> lives outside the loop: when two characters after \<open>%\<close> are not hexadecimal,
  \<open>loadIntFromHex\<close> leaves it as it is, and the byte decoded last is written again.
\<close>

fun urlDecode_loop :: "u8 \<Rightarrow> string \<Rightarrow> string" where
  "urlDecode_loop charFromHex [] = []"
| "urlDecode_loop charFromHex (c # src) =
     (if c = CHR ''%'' then
        (case src of
           a # b # src' \<Rightarrow>
             (let charFromHex' = (case loadIntFromHex [a, b] of None \<Rightarrow> charFromHex | Some v \<Rightarrow> v)
              in char_of_u8 charFromHex' # urlDecode_loop charFromHex' src')
         | _ \<Rightarrow> [])
      else if c = CHR ''+'' then CHR '' '' # urlDecode_loop charFromHex src
      else c # urlDecode_loop charFromHex src)"

definition urlDecode :: "string \<Rightarrow> string" where
  "urlDecode str =
     (if list_ex (\<lambda>c. c = CHR ''%'' \<or> c = CHR ''+'') str then urlDecode_loop 0 str else str)"

section \<open>\<open>htmlDecode\<close>\<close>

text \<open>The bytes of a code point; a code above \<open>0x10ffff\<close> writes nothing.\<close>

definition utf8_bytes :: "u64 \<Rightarrow> string" where
  "utf8_bytes code =
     (let byte_of = (\<lambda>w :: u64. char_of_u8 (ucast w)) in
      if code \<le> 0x7f then [byte_of code]
      else if code \<le> 0x7ff then
        [byte_of (0xC0 OR drop_bit 6 code), byte_of (0x80 OR (code AND 0x3F))]
      else if code \<le> 0xffff then
        [byte_of (0xE0 OR drop_bit 12 code), byte_of (0x80 OR (drop_bit 6 code AND 0x3F)),
         byte_of (0x80 OR (code AND 0x3F))]
      else if code \<le> 0x10ffff then
        [byte_of (0xF0 OR drop_bit 18 code), byte_of (0x80 OR (drop_bit 12 code AND 0x3F)),
         byte_of (0x80 OR (drop_bit 6 code AND 0x3F)), byte_of (0x80 OR (code AND 0x3F))]
      else [])"

text \<open>
  From the ampersand at \<open>nameBegin\<close> the inner loop moves to the next semicolon or, without one, to the
  last character: \<open>entity_span\<close> is that piece, both ends included, and \<open>entity_rest\<close> what follows.
\<close>

definition entity_span :: "string \<Rightarrow> string" where
  "entity_span s = takeWhile (\<lambda>c. c \<noteq> CHR '';'') s @ take 1 (dropWhile (\<lambda>c. c \<noteq> CHR '';'') s)"

definition entity_rest :: "string \<Rightarrow> string" where
  "entity_rest s = drop 1 (dropWhile (\<lambda>c. c \<noteq> CHR '';'') s)"

definition decode_entity :: "string \<Rightarrow> string" where
  "decode_entity name =
     (if 4 \<le> length name \<and> name ! 1 = CHR ''#'' then
        (case (if name ! 2 = CHR ''x'' \<or> name ! 2 = CHR ''X''
               then loadIntFromHex (take (length name - 4) (drop 3 name))
               else loadIntFromDec (take (length name - 3) (drop 2 name))) of
           None \<Rightarrow> []
         | Some code \<Rightarrow> utf8_bytes code)
      else (case HtmlEntitiesMapping name of None \<Rightarrow> [] | Some mapped \<Rightarrow> mapped))"

lemma length_entity_rest: "length (entity_rest (c # s)) < Suc (length s)"
proof -
  have "length (dropWhile (\<lambda>c. c \<noteq> CHR '';'') (c # s)) \<le> length (c # s)"
    by (rule length_dropWhile_le)
  then show ?thesis unfolding entity_rest_def by simp
qed

function htmlDecode_loop :: "string \<Rightarrow> string" where
  "htmlDecode_loop [] = []"
| "htmlDecode_loop (c # src) =
     (if c \<noteq> CHR ''&'' then c # htmlDecode_loop src
      else decode_entity (entity_span (c # src)) @ htmlDecode_loop (entity_rest (c # src)))"
  by pat_completeness auto
termination
  by (relation "measure length") (use length_entity_rest in auto)

definition htmlDecode :: "string \<Rightarrow> string" where
  "htmlDecode str = (if list_ex (\<lambda>c. c = CHR ''&'') str then htmlDecode_loop str else str)"

section \<open>\<open>getMimeType\<close>\<close>

definition getMimeType :: "string \<Rightarrow> string" where
  "getMimeType path =
     (let extension = (case find_last_of path (CHR ''.'') of None \<Rightarrow> path | Some dotPos \<Rightarrow> drop (dotPos + 1) path)
      in case al_get MimeTable extension of Some t \<Rightarrow> t | None \<Rightarrow> ''application/octet-stream'')"

section \<open>The encoding scheme, once for all tables\<close>

locale byte_encoder =
  fixes mapping :: "char \<Rightarrow> string"
  assumes single: "length (mapping c) = 1 \<Longrightarrow> mapping c = [c]"
begin

lemma write_loop: "concat (map (\<lambda>c. let m = mapping c in if length m = 1 then [c] else m) str) = concat (map mapping str)"
  by (induction str) (auto simp: Let_def single)

lemma unchanged_nonempty:
  assumes "\<And>c. c \<in> set str \<Longrightarrow> mapping c \<noteq> []"
    and "sum_list (map (\<lambda>c. length (mapping c)) str) = length str"
  shows "concat (map mapping str) = str"
  using assms
proof (induction str)
  case Nil
  then show ?case by simp
next
  case (Cons c str)
  have "length str \<le> sum_list (map (\<lambda>c. length (mapping c)) str)"
    using Cons.prems(1) by (intro length_le_sum_list) (simp add: Suc_le_eq)
  moreover have "1 \<le> length (mapping c)" using Cons.prems(1) [of c] by (simp add: Suc_le_eq)
  ultimately have "length (mapping c) = 1" and "sum_list (map (\<lambda>c. length (mapping c)) str) = length str"
    using Cons.prems(2) by auto
  with Cons.IH Cons.prems(1) show ?case by (simp add: single)
qed

lemma encode_nonempty:
  assumes "\<And>c. c \<in> set str \<Longrightarrow> mapping c \<noteq> []"
  shows "encode_with mapping str = concat (map mapping str)"
  using unchanged_nonempty [OF assms] unfolding encode_with_def write_loop by (simp add: Let_def)

end

locale total_byte_encoder = byte_encoder +
  assumes entry_nonempty: "mapping c \<noteq> []"
begin

lemma encode_eq: "encode_with mapping str = concat (map mapping str)"
  by (rule encode_nonempty) (rule entry_nonempty)

lemma encode_append: "encode_with mapping (s @ t) = encode_with mapping s @ encode_with mapping t"
  by (simp add: encode_eq)

lemma encode_set: "set (encode_with mapping str) = (\<Union>c \<in> set str. set (mapping c))"
  by (simp add: encode_eq)

end

lemma length_hex_digits: "length hex_digits = 16"
  by (simp add: hex_digits_def)

lemma dumpIntToHex_u8_set: "d \<in> set (dumpIntToHex (w :: u8)) \<Longrightarrow> d \<in> set hex_digits"
  using nibble_lt [of w] nibble_lt [of "drop_bit 4 w"]
  by (auto simp: dumpIntToHex_u8 length_hex_digits intro: nth_mem)

interpretation url: total_byte_encoder UrlEncodeMapping
  by unfold_locales (auto simp: UrlEncodeMapping_rule url_rule_def dumpIntToHex_u8 split: if_splits)

interpretation html: byte_encoder HtmlEncodeMapping
  by unfold_locales (auto simp: HtmlEncodeMapping_rule html_rule_def split: if_splits)

interpretation json: total_byte_encoder JsonEncodeMapping
proof unfold_locales
  fix c
  show "length (JsonEncodeMapping c) = 1 \<Longrightarrow> JsonEncodeMapping c = [c]"
    and "JsonEncodeMapping c \<noteq> []"
    using JsonEncodeMapping_rule [of c] by (auto simp: json_entry_ok_def split: if_splits)
qed

section \<open>URL encoding\<close>

lemma urlDecode_loop_plain:
  "\<forall>c \<in> set s. c \<noteq> CHR ''%'' \<and> c \<noteq> CHR ''+'' \<Longrightarrow> urlDecode_loop h s = s"
  by (induction s) auto

lemma urlDecode_eq_loop: "urlDecode s = urlDecode_loop 0 s"
  by (auto simp: urlDecode_def list_ex_iff urlDecode_loop_plain)

lemma loadIntFromHex_byte: "loadIntFromHex (dumpIntToHex (w :: u8)) = Some w"
  by (rule loadIntFromHex_dumpIntToHex) simp

lemma urlDecode_loop_rule: "\<exists>h'. urlDecode_loop h (url_rule c @ t) = c # urlDecode_loop h' t"
proof (cases "url_plain c")
  case True
  then show ?thesis using url_plain_not_special [OF True] by (auto simp: url_rule_def)
next
  case False
  obtain a b where ab: "dumpIntToHex (u8_of_char c) = [a, b]" by (simp add: dumpIntToHex_u8)
  then have "loadIntFromHex [a, b] = Some (u8_of_char c)" using loadIntFromHex_byte by metis
  with False ab show ?thesis by (auto simp: url_rule_def)
qed

lemma urlDecode_loop_encoded: "urlDecode_loop h (concat (map url_rule s)) = s"
proof (induction s arbitrary: h)
  case Nil
  then show ?case by simp
next
  case (Cons c s)
  obtain h' where "urlDecode_loop h (url_rule c @ concat (map url_rule s)) = c # urlDecode_loop h' (concat (map url_rule s))"
    using urlDecode_loop_rule by blast
  with Cons.IH show ?case by simp
qed

lemma urlEncode_eq: "urlEncode s = concat (map url_rule s)"
  unfolding urlEncode_def url.encode_eq by (simp add: UrlEncodeMapping_rule cong: map_cong)

lemma hex_digit_plain: "d \<in> set hex_digits \<Longrightarrow> url_plain d"
proof -
  have "list_all url_plain hex_digits" by (simp add: url_plain_def hex_digits_def)
  then show "d \<in> set hex_digits \<Longrightarrow> url_plain d" by (simp add: list_all_iff)
qed

lemma url_rule_set: "d \<in> set (url_rule c) \<Longrightarrow> url_plain d \<or> d = CHR ''%''"
  using dumpIntToHex_u8_set [of d "u8_of_char c"]
  by (auto simp: url_rule_def dest: hex_digit_plain split: if_splits)

lemma urlEncode_set: "d \<in> set (urlEncode s) \<Longrightarrow> url_plain d \<or> d = CHR ''%''"
  by (auto simp: urlEncode_eq dest: url_rule_set)

lemma urlDecode_urlEncode [simp]: "urlDecode (urlEncode s) = s"
  by (simp add: urlDecode_eq_loop urlEncode_eq urlDecode_loop_encoded)

lemma length_urlDecode_loop: "length (urlDecode_loop h s) \<le> length s"
proof (induction "length s" arbitrary: h s rule: less_induct)
  case less
  show ?case
  proof (cases s)
    case (Cons c src)
    show ?thesis
    proof (cases "c = CHR ''%'' \<and> (\<exists>a b t. src = a # b # t)")
      case True
      then obtain a b t where src: "src = a # b # t" and c: "c = CHR ''%''" by blast
      have "length (urlDecode_loop h' t) \<le> length t" for h' using less [of t h'] Cons src by simp
      then show ?thesis using Cons src c by (simp add: Let_def le_SucI)
    next
      case False
      then show ?thesis using Cons less [of src h] by (cases src) (auto split: list.splits)
    qed
  qed simp
qed

section \<open>HTML encoding\<close>

lemma htmlEncode_eq:
  assumes "CHR 0x00 \<notin> set s"
  shows "htmlEncode s = concat (map html_rule s)"
proof -
  have "HtmlEncodeMapping c \<noteq> []" if "c \<in> set s" for c
    using that assms by (auto simp: HtmlEncodeMapping_rule html_rule_def)
  then have "htmlEncode s = concat (map HtmlEncodeMapping s)"
    unfolding htmlEncode_def by (rule html.encode_nonempty)
  then show ?thesis by (simp add: HtmlEncodeMapping_rule cong: map_cong)
qed

lemma html_rule_set:
  "c \<noteq> CHR 0x00 \<Longrightarrow> d \<in> set (html_rule c) \<Longrightarrow> d \<noteq> CHR ''<'' \<and> d \<noteq> CHR ''>'' \<and> d \<noteq> CHR 0x22 \<and> d \<noteq> CHR 0x27"
  by (auto simp: html_rule_def split: if_splits)

lemma htmlDecode_loop_plain: "\<forall>c \<in> set s. c \<noteq> CHR ''&'' \<Longrightarrow> htmlDecode_loop s = s"
  by (induction s) auto

lemma htmlDecode_eq_loop: "htmlDecode s = htmlDecode_loop s"
proof (cases "CHR ''&'' \<in> set s")
  case False
  then have "\<forall>c \<in> set s. c \<noteq> CHR ''&''" by auto
  then show ?thesis by (simp add: htmlDecode_def htmlDecode_loop_plain list_ex_iff)
qed (auto simp: htmlDecode_def list_ex_iff)

lemma htmlDecode_loop_entity:
  assumes "CHR '';'' \<notin> set name"
  shows "htmlDecode_loop ((CHR ''&'' # name @ '';'') @ t) = decode_entity (CHR ''&'' # name @ '';'') @ htmlDecode_loop t"
proof -
  have 1: "takeWhile (\<lambda>c. c \<noteq> CHR '';'') (name @ CHR '';'' # t) = name"
    and 2: "dropWhile (\<lambda>c. c \<noteq> CHR '';'') (name @ CHR '';'' # t) = CHR '';'' # t"
    using assms by (induction name) auto
  show ?thesis by (simp add: entity_span_def entity_rest_def 1 2)
qed

lemma decode_apos: "decode_entity ''&#x27;'' = [CHR 0x27]"
  by (simp add: decode_entity_def loadIntFromHex_def hex_digit_value_def u8_of_char_def byte_def
      utf8_bytes_def char_of_u8_def char_of_def bit_0)

lemma decode_named:
  "decode_entity ''&quot;'' = [CHR 0x22]" "decode_entity ''&amp;'' = [CHR 0x26]"
  "decode_entity ''&lt;'' = [CHR 0x3C]" "decode_entity ''&gt;'' = [CHR 0x3E]"
  by (simp_all add: decode_entity_def HtmlEntitiesMapping_basic)

lemma htmlDecode_loop_rule:
  assumes "c \<noteq> CHR 0x00"
  shows "htmlDecode_loop (html_rule c @ t) = c # htmlDecode_loop t"
proof -
  note entity = htmlDecode_loop_entity [of "''quot''" t] htmlDecode_loop_entity [of "''amp''" t]
    htmlDecode_loop_entity [of "''#x27''" t] htmlDecode_loop_entity [of "''lt''" t]
    htmlDecode_loop_entity [of "''gt''" t]
  consider "html_rule c \<noteq> [c]" | "html_rule c = [c]" "c \<noteq> CHR ''&''"
    by (cases "c = CHR ''&''") (auto simp: html_rule_def)
  then show ?thesis
  proof cases
    case 1
    then have "c \<in> {CHR 0x22, CHR ''&'', CHR 0x27, CHR ''<'', CHR ''>''}"
      using assms by (auto simp: html_rule_def split: if_splits)
    with entity show ?thesis
      by (auto simp: html_rule_def decode_apos decode_named simp del: htmlDecode_loop.simps)
  qed simp
qed

lemma htmlDecode_loop_encoded:
  "CHR 0x00 \<notin> set s \<Longrightarrow> htmlDecode_loop (concat (map html_rule s)) = s"
  by (induction s) (auto simp: htmlDecode_loop_rule simp del: htmlDecode_loop.simps(2))

lemma length_utf8_bytes: "length (utf8_bytes code) \<le> 4"
  by (simp add: utf8_bytes_def Let_def)

lemma length_decode_entity: "length (decode_entity name) \<le> length name"
  using length_utf8_bytes HtmlEntitiesMapping_length
  by (fastforce simp: decode_entity_def intro: le_trans split: option.splits)

lemma entity_span_rest: "length (entity_span s) + length (entity_rest s) = length s"
proof -
  have "length s = length (takeWhile (\<lambda>c. c \<noteq> CHR '';'') s) + length (dropWhile (\<lambda>c. c \<noteq> CHR '';'') s)"
    by (metis length_append takeWhile_dropWhile_id)
  then show ?thesis unfolding entity_span_def entity_rest_def by simp
qed

lemma length_htmlDecode_loop: "length (htmlDecode_loop s) \<le> length s"
proof (induction s rule: htmlDecode_loop.induct)
  case 1
  then show ?case by simp
next
  case (2 c src)
  show ?case
  proof (cases "c = CHR ''&''")
    case True
    have "length (decode_entity (entity_span (c # src))) + length (htmlDecode_loop (entity_rest (c # src)))
        \<le> length (c # src)"
      using length_decode_entity [of "entity_span (c # src)"] 2(2) True entity_span_rest [of "c # src"]
      by simp
    then show ?thesis using True by simp
  qed (use 2 in simp)
qed

section \<open>Media types\<close>

lemma find_last_of_ext:
  assumes "c \<notin> set ext"
  shows "find_last_of (dir @ c # ext) c = Some (length dir)"
proof -
  have "find_from (\<lambda>d. d = c) (rev ext @ c # rev dir) 0 = Some (length ext)"
    using find_from_skip [of "rev ext" "\<lambda>d. d = c" "c # rev dir" 0] assms by auto
  then show ?thesis by (simp add: find_last_of_def)
qed

lemma find_last_of_None:
  assumes "c \<notin> set s"
  shows "find_last_of s c = None"
proof -
  have "find_from (\<lambda>d. d = c) (rev s) 0 = None" using assms by (auto simp: find_from_None)
  then show ?thesis by (simp add: find_last_of_def)
qed

section \<open>What the encoders and decoders promise\<close>

text \<open>
  Reading the inside of a JSON string literal: a backslash takes the next character with it, and neither a
  bare quote nor a control character may occur.
\<close>

fun json_string_body :: "string \<Rightarrow> bool" where
  "json_string_body [] = True"
| "json_string_body (c # s) =
     (if c = CHR 0x5C then (case s of d # s' \<Rightarrow> 32 \<le> byte d \<and> json_string_body s' | [] \<Rightarrow> False)
      else \<not> json_must_escape c \<and> json_string_body s)"

lemma json_string_body_plain:
  "list_all (\<lambda>d. \<not> json_must_escape d) e \<Longrightarrow> json_string_body (e @ t) = json_string_body t"
  by (induction e) (auto simp: json_must_escape_def)

lemma json_string_body_entry:
  assumes "json_entry_ok c e"
  shows "json_string_body (e @ t) = json_string_body t"
proof (cases "json_must_escape c")
  case True
  with assms obtain d e' where "e = CHR 0x5C # d # e'" "32 \<le> byte d" "list_all (\<lambda>d. \<not> json_must_escape d) e'"
    by (cases e; cases "tl e") (auto simp: json_entry_ok_def)
  then show ?thesis by (simp add: json_string_body_plain)
next
  case False
  with assms show ?thesis by (auto simp: json_entry_ok_def json_must_escape_def)
qed

lemma json_string_body_concat: "json_string_body (concat (map JsonEncodeMapping s))"
  by (induction s) (simp_all add: json_string_body_entry [OF JsonEncodeMapping_rule])

text \<open>
  C28. \<open>urlDecode\<close> undoes \<open>urlEncode\<close> on every string of bytes, and the encoded text consists of letters, digits,
  the characters \<open>-\<close>, \<open>.\<close>, \<open>_\<close>, \<open>~\<close> and \<open>/\<close>, and percent signs only: the unreserved characters of RFC 3986 and the slash,
  which is reserved there and which \<open>urlEncode\<close> leaves as it is.
\<close>

theorem url_encode_decode:
  "urlDecode (urlEncode s) = s \<and> set (urlEncode s) \<subseteq> {d. url_plain d \<or> d = CHR ''%''}"
  using urlEncode_set by auto

text \<open>
  C29. \<open>htmlDecode\<close> undoes \<open>htmlEncode\<close> on every text without NUL bytes, and the encoded text holds none of
  the characters that end a text node or an attribute value.
\<close>

theorem html_encode_decode:
  assumes "CHR 0x00 \<notin> set s"
  shows "htmlDecode (htmlEncode s) = s \<and>
    set (htmlEncode s) \<inter> {CHR ''<'', CHR ''>'', CHR 0x22, CHR 0x27} = {}"
proof
  show "htmlDecode (htmlEncode s) = s"
    using assms by (simp add: htmlDecode_eq_loop htmlEncode_eq htmlDecode_loop_encoded)
  have "d \<notin> {CHR ''<'', CHR ''>'', CHR 0x22, CHR 0x27}" if "c \<in> set s" "d \<in> set (html_rule c)" for c d
    using html_rule_set [of c d] that assms by (metis empty_iff insert_iff)
  then show "set (htmlEncode s) \<inter> {CHR ''<'', CHR ''>'', CHR 0x22, CHR 0x27} = {}"
    unfolding htmlEncode_eq [OF assms] set_concat set_map by blast
qed

theorem html_encode_decode_witness:
  "htmlDecode (htmlEncode ''a<b'') = ''a<b'' \<and>
    set (htmlEncode ''a<b'') \<inter> {CHR ''<'', CHR ''>'', CHR 0x22, CHR 0x27} = {}"
  by (rule html_encode_decode) simp

text \<open>
  \<open>htmlDecode\<close> and \<open>urlDecode\<close> allocate a buffer of the size of their input and never write past it: what
  they produce is at most as long, whatever entities and escapes the input holds.
\<close>

theorem decode_fits_buffer:
  "length (htmlDecode s) \<le> length s \<and> length (urlDecode s) \<le> length s"
  by (simp add: htmlDecode_eq_loop urlDecode_eq_loop length_htmlDecode_loop length_urlDecode_loop)

text \<open>
  What \<open>jsonEncode\<close> writes between two quotes is the inside of one JSON string literal: it holds no bare
  quote, no control character and no dangling backslash.
\<close>

theorem json_encode_literal: "json_string_body (jsonEncode s)"
  by (simp add: jsonEncode_def json.encode_eq json_string_body_concat)

text \<open>The table maps NUL to an empty text, so three NULs make up for the entity of one bracket.\<close>

lemma html_encode_nul:
  "htmlEncode [CHR 0x00, CHR 0x00, CHR 0x00, CHR ''<''] = [CHR 0x00, CHR 0x00, CHR 0x00, CHR ''<'']"
  by (simp add: htmlEncode_def encode_with_def HtmlEncodeMapping_rule html_rule_def)

text \<open>An escape that is not hexadecimal repeats the byte decoded before it.\<close>

lemma url_decode_invalid_escape: "urlDecode ''%41%zz'' = ''AA''"
  by (simp add: urlDecode_def loadIntFromHex_def hex_digit_value_def u8_of_char_def byte_def
      char_of_u8_def char_of_def bit_0)

end
