(* ===== verification/Http11ParserTypes.thy ===== *)
theory Http11ParserTypes
  imports StringUtils
begin

text \<open>
  The data of \<open>src/HttpServer/Connections/Http11Parser.hpp\<close> and the tables, character classes and
  stateless helpers of \<open>Http11Parser.cpp\<close>: the enumerations of parser states, header states, methods and
  error numbers, \<open>struct http_parser\<close>, the tables \<open>tokens\<close>, \<open>unhex\<close> and \<open>normal_url_char\<close>,
  \<open>parse_url_char\<close>, \<open>http_message_needs_eof\<close>, \<open>http_should_keep_alive\<close>, \<open>http_parser_init\<close> and
  \<open>http_parser_pause\<close>.

  The build uses the default \<open>HTTP_PARSER_STRICT = 1\<close>. \<open>flags\<close>, \<open>nread\<close> and \<open>content_length\<close> keep their
  widths; \<open>index\<close>, the version digits and the status code are natural numbers, and the invariant of
  \<open>Http11ParserSafety\<close> bounds them far below the widths of the source.
\<close>

section \<open>Enumerations\<close>

text \<open>\<open>enum state\<close>, in its order.\<close>

datatype (plugins only: code size) state =
    s_dead | s_start_req_or_res | s_res_or_resp_H | s_start_res | s_res_H
  | s_res_HT | s_res_HTT | s_res_HTTP | s_res_http_major | s_res_http_dot
  | s_res_http_minor | s_res_http_end | s_res_first_status_code | s_res_status_code | s_res_status_start
  | s_res_status | s_res_line_almost_done | s_start_req | s_req_method | s_req_spaces_before_url
  | s_req_schema | s_req_schema_slash | s_req_schema_slash_slash | s_req_server_start | s_req_server
  | s_req_server_with_at | s_req_path | s_req_query_string_start | s_req_query_string | s_req_fragment_start
  | s_req_fragment | s_req_http_start | s_req_http_H | s_req_http_HT | s_req_http_HTT
  | s_req_http_HTTP | s_req_http_I | s_req_http_IC | s_req_http_major | s_req_http_dot
  | s_req_http_minor | s_req_http_end | s_req_line_almost_done | s_header_field_start | s_header_field
  | s_header_value_discard_ws | s_header_value_discard_ws_almost_done | s_header_value_discard_lws | s_header_value_start | s_header_value
  | s_header_value_lws | s_header_almost_done | s_chunk_size_start | s_chunk_size | s_chunk_parameters
  | s_chunk_size_almost_done | s_headers_almost_done | s_headers_done | s_chunk_data | s_chunk_data_almost_done
  | s_chunk_data_done | s_body_identity | s_body_identity_eof | s_message_done

text \<open>\<open>enum header_states\<close>.\<close>

datatype (plugins only: code size) header_states =
    h_general | h_C | h_CO | h_CON | h_matching_connection
  | h_matching_proxy_connection | h_matching_content_length | h_matching_transfer_encoding | h_matching_upgrade | h_connection
  | h_content_length | h_content_length_num | h_content_length_ws | h_transfer_encoding | h_upgrade
  | h_matching_transfer_encoding_chunked | h_matching_connection_token_start | h_matching_connection_keep_alive | h_matching_connection_close | h_matching_connection_upgrade
  | h_matching_connection_token | h_transfer_encoding_chunked | h_connection_keep_alive | h_connection_close | h_connection_upgrade

text \<open>\<open>enum http_method\<close> and \<open>method_strings\<close>.\<close>

datatype (plugins only: code size) http_method =
    HTTP_DELETE | HTTP_GET | HTTP_HEAD | HTTP_POST | HTTP_PUT
  | HTTP_CONNECT | HTTP_OPTIONS | HTTP_TRACE | HTTP_COPY | HTTP_LOCK
  | HTTP_MKCOL | HTTP_MOVE | HTTP_PROPFIND | HTTP_PROPPATCH | HTTP_SEARCH
  | HTTP_UNLOCK | HTTP_BIND | HTTP_REBIND | HTTP_UNBIND | HTTP_ACL
  | HTTP_REPORT | HTTP_MKACTIVITY | HTTP_CHECKOUT | HTTP_MERGE | HTTP_MSEARCH
  | HTTP_NOTIFY | HTTP_SUBSCRIBE | HTTP_UNSUBSCRIBE | HTTP_PATCH | HTTP_PURGE
  | HTTP_MKCALENDAR | HTTP_LINK | HTTP_UNLINK | HTTP_SOURCE

primrec method_strings :: "http_method \<Rightarrow> string" where
  "method_strings HTTP_DELETE = ''DELETE''"
| "method_strings HTTP_GET = ''GET''"
| "method_strings HTTP_HEAD = ''HEAD''"
| "method_strings HTTP_POST = ''POST''"
| "method_strings HTTP_PUT = ''PUT''"
| "method_strings HTTP_CONNECT = ''CONNECT''"
| "method_strings HTTP_OPTIONS = ''OPTIONS''"
| "method_strings HTTP_TRACE = ''TRACE''"
| "method_strings HTTP_COPY = ''COPY''"
| "method_strings HTTP_LOCK = ''LOCK''"
| "method_strings HTTP_MKCOL = ''MKCOL''"
| "method_strings HTTP_MOVE = ''MOVE''"
| "method_strings HTTP_PROPFIND = ''PROPFIND''"
| "method_strings HTTP_PROPPATCH = ''PROPPATCH''"
| "method_strings HTTP_SEARCH = ''SEARCH''"
| "method_strings HTTP_UNLOCK = ''UNLOCK''"
| "method_strings HTTP_BIND = ''BIND''"
| "method_strings HTTP_REBIND = ''REBIND''"
| "method_strings HTTP_UNBIND = ''UNBIND''"
| "method_strings HTTP_ACL = ''ACL''"
| "method_strings HTTP_REPORT = ''REPORT''"
| "method_strings HTTP_MKACTIVITY = ''MKACTIVITY''"
| "method_strings HTTP_CHECKOUT = ''CHECKOUT''"
| "method_strings HTTP_MERGE = ''MERGE''"
| "method_strings HTTP_MSEARCH = ''M-SEARCH''"
| "method_strings HTTP_NOTIFY = ''NOTIFY''"
| "method_strings HTTP_SUBSCRIBE = ''SUBSCRIBE''"
| "method_strings HTTP_UNSUBSCRIBE = ''UNSUBSCRIBE''"
| "method_strings HTTP_PATCH = ''PATCH''"
| "method_strings HTTP_PURGE = ''PURGE''"
| "method_strings HTTP_MKCALENDAR = ''MKCALENDAR''"
| "method_strings HTTP_LINK = ''LINK''"
| "method_strings HTTP_UNLINK = ''UNLINK''"
| "method_strings HTTP_SOURCE = ''SOURCE''"

text \<open>\<open>enum http_errno\<close>.\<close>

datatype (plugins only: code size) http_errno =
    HPE_OK | HPE_CB_message_begin | HPE_CB_url | HPE_CB_header_field | HPE_CB_header_value
  | HPE_CB_headers_complete | HPE_CB_body | HPE_CB_message_complete | HPE_CB_status | HPE_CB_chunk_header
  | HPE_CB_chunk_complete | HPE_INVALID_EOF_STATE | HPE_HEADER_OVERFLOW | HPE_CLOSED_CONNECTION | HPE_INVALID_VERSION
  | HPE_INVALID_STATUS | HPE_INVALID_METHOD | HPE_INVALID_URL | HPE_INVALID_HOST | HPE_INVALID_PORT
  | HPE_INVALID_PATH | HPE_INVALID_QUERY_STRING | HPE_INVALID_FRAGMENT | HPE_LF_EXPECTED | HPE_INVALID_HEADER_TOKEN
  | HPE_INVALID_CONTENT_LENGTH | HPE_UNEXPECTED_CONTENT_LENGTH | HPE_INVALID_CHUNK_SIZE | HPE_INVALID_CONSTANT | HPE_INVALID_INTERNAL_STATE
  | HPE_STRICT | HPE_PAUSED | HPE_UNKNOWN

text \<open>\<open>enum http_parser_type\<close>.\<close>

datatype (plugins only: code size) http_parser_type = HTTP_REQUEST | HTTP_RESPONSE | HTTP_BOTH

section \<open>Tables\<close>

definition tokens :: string where
  "tokens =
     replicate 32 (CHR 0x00) @
     '' !'' @ [CHR 0x00] @ ''#$%&'' @ [CHR 0x27] @
     replicate 2 (CHR 0x00) @ ''*+'' @ [CHR 0x00] @ ''-.'' @ [CHR 0x00] @
     ''01234567'' @
     ''89'' @ replicate 6 (CHR 0x00) @
     [CHR 0x00] @ ''abcdefg'' @
     ''hijklmno'' @
     ''pqrstuvw'' @
     ''xyz'' @ replicate 3 (CHR 0x00) @ ''^_'' @
     ''`abcdefg'' @
     ''hijklmno'' @
     ''pqrstuvw'' @
     ''xyz'' @ [CHR 0x00] @ ''|'' @ [CHR 0x00] @ ''~'' @ [CHR 0x00]"

text \<open>The array has 256 elements and 128 initializers: the others are zero.\<close>

definition tokens_at :: "char \<Rightarrow> char" where
  "tokens_at c = (if byte c < length tokens then tokens ! byte c else CHR 0x00)"

definition unhex :: "int list" where
  "unhex = [
    - 1, - 1, - 1, - 1, - 1, - 1, - 1, - 1, - 1, - 1, - 1, - 1, - 1, - 1, - 1, - 1,
    - 1, - 1, - 1, - 1, - 1, - 1, - 1, - 1, - 1, - 1, - 1, - 1, - 1, - 1, - 1, - 1,
    - 1, - 1, - 1, - 1, - 1, - 1, - 1, - 1, - 1, - 1, - 1, - 1, - 1, - 1, - 1, - 1,
    0, 1, 2, 3, 4, 5, 6, 7, 8, 9, - 1, - 1, - 1, - 1, - 1, - 1,
    - 1, 10, 11, 12, 13, 14, 15, - 1, - 1, - 1, - 1, - 1, - 1, - 1, - 1, - 1,
    - 1, - 1, - 1, - 1, - 1, - 1, - 1, - 1, - 1, - 1, - 1, - 1, - 1, - 1, - 1, - 1,
    - 1, 10, 11, 12, 13, 14, 15, - 1, - 1, - 1, - 1, - 1, - 1, - 1, - 1, - 1,
    - 1, - 1, - 1, - 1, - 1, - 1, - 1, - 1, - 1, - 1, - 1, - 1, - 1, - 1, - 1, - 1]"

text \<open>Here too the array has 256 elements and 128 initializers, so a byte from 128 on reads 0, not -1.\<close>

definition unhex_at :: "char \<Rightarrow> int" where
  "unhex_at c = (if byte c < length unhex then unhex ! byte c else 0)"

definition normal_url_char :: "nat list" where
  "normal_url_char = [
    0, 0, 0, 0, 246, 255, 255, 127, 255, 255, 255, 255, 255, 255, 255, 127]"

text \<open>\<open>BIT_AT(normal_url_char, c)\<close>; the upper half of the 32 bytes is zero.\<close>

definition IS_URL_CHAR :: "char \<Rightarrow> bool" where
  "IS_URL_CHAR c \<longleftrightarrow>
     byte c div 8 < length normal_url_char \<and> bit (normal_url_char ! (byte c div 8)) (byte c mod 8)"

section \<open>Character classes\<close>

abbreviation NUL :: char where "NUL \<equiv> CHR 0x00"
abbreviation HT :: char where "HT \<equiv> CHR 0x09"
abbreviation LF :: char where "LF \<equiv> CHR 0x0A"
abbreviation FF :: char where "FF \<equiv> CHR 0x0C"
abbreviation CR :: char where "CR \<equiv> CHR 0x0D"
abbreviation SP :: char where "SP \<equiv> CHR 0x20"

definition LOWER :: "char \<Rightarrow> char" where
  "LOWER c = char_of (byte c OR 0x20)"

definition IS_ALPHA :: "char \<Rightarrow> bool" where
  "IS_ALPHA c \<longleftrightarrow> 97 \<le> (byte c OR 0x20) \<and> (byte c OR 0x20) \<le> 122"

definition IS_NUM :: "char \<Rightarrow> bool" where
  "IS_NUM c \<longleftrightarrow> 48 \<le> byte c \<and> byte c \<le> 57"

definition IS_ALPHANUM :: "char \<Rightarrow> bool" where
  "IS_ALPHANUM c \<longleftrightarrow> IS_ALPHA c \<or> IS_NUM c"

definition IS_HEX :: "char \<Rightarrow> bool" where
  "IS_HEX c \<longleftrightarrow> IS_NUM c \<or> (97 \<le> (byte c OR 0x20) \<and> (byte c OR 0x20) \<le> 102)"

definition IS_MARK :: "char \<Rightarrow> bool" where
  "IS_MARK c \<longleftrightarrow> c = CHR ''-'' \<or> c = CHR ''_'' \<or> c = CHR ''.'' \<or> c = CHR ''!'' \<or> c = CHR ''~'' \<or>
     c = CHR ''*'' \<or> c = CHR 0x27 \<or> c = CHR ''('' \<or> c = CHR '')''"

definition IS_USERINFO_CHAR :: "char \<Rightarrow> bool" where
  "IS_USERINFO_CHAR c \<longleftrightarrow> IS_ALPHANUM c \<or> IS_MARK c \<or> c = CHR ''%'' \<or> c = CHR '';'' \<or> c = CHR '':'' \<or>
     c = CHR ''&'' \<or> c = CHR ''='' \<or> c = CHR ''+'' \<or> c = CHR ''$'' \<or> c = CHR '',''"

definition IS_HOST_CHAR :: "char \<Rightarrow> bool" where
  "IS_HOST_CHAR c \<longleftrightarrow> IS_ALPHANUM c \<or> c = CHR ''.'' \<or> c = CHR ''-''"

definition STRICT_TOKEN :: "char \<Rightarrow> char" where
  "STRICT_TOKEN c = (if c = SP then NUL else tokens_at c)"

text \<open>\<open>TOKEN(c)\<close> is \<open>STRICT_TOKEN(c)\<close> in strict mode.\<close>

abbreviation TOKEN :: "char \<Rightarrow> char" where "TOKEN \<equiv> STRICT_TOKEN"

definition IS_HEADER_CHAR :: "char \<Rightarrow> bool" where
  "IS_HEADER_CHAR ch \<longleftrightarrow> ch = CR \<or> ch = LF \<or> byte ch = 9 \<or> (byte ch > 31 \<and> byte ch \<noteq> 127)"

text \<open>\<open>ch - '0'\<close> for a digit.\<close>

definition digit_of :: "char \<Rightarrow> nat" where
  "digit_of c = byte c - 48"

section \<open>The parser object\<close>

definition F_CHUNKED :: u32 where "F_CHUNKED = 1"
definition F_CONNECTION_KEEP_ALIVE :: u32 where "F_CONNECTION_KEEP_ALIVE = 2"
definition F_CONNECTION_CLOSE :: u32 where "F_CONNECTION_CLOSE = 4"
definition F_CONNECTION_UPGRADE :: u32 where "F_CONNECTION_UPGRADE = 8"
definition F_TRAILING :: u32 where "F_TRAILING = 16"
definition F_UPGRADE :: u32 where "F_UPGRADE = 32"
definition F_SKIPBODY :: u32 where "F_SKIPBODY = 64"
definition F_CONTENTLENGTH :: u32 where "F_CONTENTLENGTH = 128"

lemmas flag_defs = F_CHUNKED_def F_CONNECTION_KEEP_ALIVE_def F_CONNECTION_CLOSE_def
  F_CONNECTION_UPGRADE_def F_TRAILING_def F_UPGRADE_def F_SKIPBODY_def F_CONTENTLENGTH_def

abbreviation ULLONG_MAX :: u64 where "ULLONG_MAX \<equiv> - 1"

record http_parser =
  hp_type :: http_parser_type
  hp_flags :: u32
  hp_state :: state
  hp_header_state :: header_states
  hp_index :: nat
  hp_lenient_http_headers :: bool
  hp_nread :: u32
  hp_content_length :: u64
  hp_http_major :: nat
  hp_http_minor :: nat
  hp_status_code :: nat
  hp_method :: http_method
  hp_http_errno :: http_errno
  hp_upgrade :: bool

text \<open>\<open>memset\<close> clears every field; the zero of \<open>state\<close> is overwritten at once.\<close>

definition http_parser_init :: "http_parser_type \<Rightarrow> http_parser" where
  "http_parser_init t =
     \<lparr>hp_type = t, hp_flags = 0,
      hp_state = (case t of HTTP_REQUEST \<Rightarrow> s_start_req | HTTP_RESPONSE \<Rightarrow> s_start_res
                  | HTTP_BOTH \<Rightarrow> s_start_req_or_res),
      hp_header_state = h_general, hp_index = 0, hp_lenient_http_headers = False, hp_nread = 0,
      hp_content_length = 0, hp_http_major = 0, hp_http_minor = 0, hp_status_code = 0,
      hp_method = HTTP_DELETE, hp_http_errno = HPE_OK, hp_upgrade = False\<rparr>"

text \<open>\<open>PARSING_HEADER(state)\<close>: \<open>state <= s_headers_done\<close> in the order of the enumeration.\<close>

definition PARSING_HEADER :: "state \<Rightarrow> bool" where
  "PARSING_HEADER s \<longleftrightarrow>
     s \<notin> {s_chunk_data, s_chunk_data_almost_done, s_chunk_data_done, s_body_identity,
          s_body_identity_eof, s_message_done}"

definition http_message_needs_eof :: "http_parser \<Rightarrow> bool" where
  "http_message_needs_eof ps =
     (if hp_type ps = HTTP_REQUEST then False
      else if hp_status_code ps div 100 = 1 \<or> hp_status_code ps = 204 \<or> hp_status_code ps = 304 \<or>
              has_flag (hp_flags ps) F_SKIPBODY then False
      else if has_flag (hp_flags ps) F_CHUNKED \<or> hp_content_length ps \<noteq> ULLONG_MAX then False
      else True)"

definition http_should_keep_alive :: "http_parser \<Rightarrow> bool" where
  "http_should_keep_alive ps =
     (if hp_http_major ps > 0 \<and> hp_http_minor ps > 0 then
        (if has_flag (hp_flags ps) F_CONNECTION_CLOSE then False else \<not> http_message_needs_eof ps)
      else
        (if \<not> has_flag (hp_flags ps) F_CONNECTION_KEEP_ALIVE then False else \<not> http_message_needs_eof ps))"

definition start_state :: "http_parser \<Rightarrow> state" where
  "start_state ps = (if hp_type ps = HTTP_REQUEST then s_start_req else s_start_res)"

definition NEW_MESSAGE :: "http_parser \<Rightarrow> state" where
  "NEW_MESSAGE ps = (if http_should_keep_alive ps then start_state ps else s_dead)"

text \<open>\<open>http_parser_pause\<close>; \<^const>\<open>None\<close> is the failed assertion on a parser in an error state.\<close>

definition http_parser_pause :: "http_parser \<Rightarrow> bool \<Rightarrow> http_parser option" where
  "http_parser_pause ps paused =
     (if hp_http_errno ps = HPE_OK \<or> hp_http_errno ps = HPE_PAUSED
      then Some (ps\<lparr>hp_http_errno := (if paused then HPE_PAUSED else HPE_OK)\<rparr>) else None)"

definition http_body_is_final :: "http_parser \<Rightarrow> bool" where
  "http_body_is_final ps \<longleftrightarrow> hp_state ps = s_message_done"

section \<open>\<open>parse_url_char\<close>\<close>

definition url_server_char :: "char \<Rightarrow> state" where
  "url_server_char ch =
     (if ch = CHR ''/'' then s_req_path
      else if ch = CHR ''?'' then s_req_query_string_start
      else if ch = CHR ''@'' then s_req_server_with_at
      else if IS_USERINFO_CHAR ch \<or> ch = CHR ''['' \<or> ch = CHR '']'' then s_req_server
      else s_dead)"

definition parse_url_char :: "state \<Rightarrow> char \<Rightarrow> state" where
  "parse_url_char s ch =
     (if ch = SP \<or> ch = CR \<or> ch = LF then s_dead
      else if ch = HT \<or> ch = FF then s_dead
      else case s of
        s_req_spaces_before_url \<Rightarrow>
          if ch = CHR ''/'' \<or> ch = CHR ''*'' then s_req_path
          else if IS_ALPHA ch then s_req_schema
          else s_dead
      | s_req_schema \<Rightarrow>
          if IS_ALPHA ch then s else if ch = CHR '':'' then s_req_schema_slash else s_dead
      | s_req_schema_slash \<Rightarrow> if ch = CHR ''/'' then s_req_schema_slash_slash else s_dead
      | s_req_schema_slash_slash \<Rightarrow> if ch = CHR ''/'' then s_req_server_start else s_dead
      | s_req_server_with_at \<Rightarrow> if ch = CHR ''@'' then s_dead else url_server_char ch
      | s_req_server_start \<Rightarrow> url_server_char ch
      | s_req_server \<Rightarrow> url_server_char ch
      | s_req_path \<Rightarrow>
          if IS_URL_CHAR ch then s
          else if ch = CHR ''?'' then s_req_query_string_start
          else if ch = CHR ''#'' then s_req_fragment_start
          else s_dead
      | s_req_query_string_start \<Rightarrow>
          if IS_URL_CHAR ch then s_req_query_string
          else if ch = CHR ''?'' then s_req_query_string
          else if ch = CHR ''#'' then s_req_fragment_start
          else s_dead
      | s_req_query_string \<Rightarrow>
          if IS_URL_CHAR ch then s_req_query_string
          else if ch = CHR ''?'' then s_req_query_string
          else if ch = CHR ''#'' then s_req_fragment_start
          else s_dead
      | s_req_fragment_start \<Rightarrow>
          if IS_URL_CHAR ch then s_req_fragment
          else if ch = CHR ''?'' then s_req_fragment
          else if ch = CHR ''#'' then s
          else s_dead
      | s_req_fragment \<Rightarrow>
          if IS_URL_CHAR ch then s
          else if ch = CHR ''?'' \<or> ch = CHR ''#'' then s
          else s_dead
      | _ \<Rightarrow> s_dead)"

section \<open>Facts about the tables\<close>

lemma unhex_at_high: "128 \<le> byte c \<Longrightarrow> unhex_at c = 0"
  by (simp add: unhex_at_def unhex_def)

lemma list_all_nth_byte: "list_all P xs \<Longrightarrow> byte c < length xs \<Longrightarrow> P (xs ! byte c)"
  by (simp add: list_all_length)

lemma unhex_at_range: "- 1 \<le> unhex_at c \<and> unhex_at c \<le> 15"
proof -
  have "list_all (\<lambda>v. - 1 \<le> v \<and> v \<le> 15) unhex" by (simp add: unhex_def)
  then show ?thesis by (auto simp: unhex_at_def dest: list_all_nth_byte [of _ _ c])
qed

lemma flag_bits [flag_simps, simp]:
  "has_flag F_CHUNKED F_CHUNKED" "\<not> has_flag F_CONNECTION_KEEP_ALIVE F_CHUNKED"
  "\<not> has_flag F_CONNECTION_CLOSE F_CHUNKED" "\<not> has_flag F_CONNECTION_UPGRADE F_CHUNKED"
  "\<not> has_flag F_TRAILING F_CHUNKED" "\<not> has_flag F_UPGRADE F_CHUNKED"
  "\<not> has_flag F_SKIPBODY F_CHUNKED" "\<not> has_flag F_CONTENTLENGTH F_CHUNKED"
  "has_flag F_CONTENTLENGTH F_CONTENTLENGTH" "\<not> has_flag F_CHUNKED F_CONTENTLENGTH"
  "\<not> has_flag F_CONNECTION_KEEP_ALIVE F_CONTENTLENGTH" "\<not> has_flag F_CONNECTION_CLOSE F_CONTENTLENGTH"
  "\<not> has_flag F_CONNECTION_UPGRADE F_CONTENTLENGTH" "\<not> has_flag F_TRAILING F_CONTENTLENGTH"
  "\<not> has_flag F_UPGRADE F_CONTENTLENGTH" "\<not> has_flag F_SKIPBODY F_CONTENTLENGTH"
  by (simp_all add: has_flag_def flag_defs)

lemma parse_url_char_states:
  "parse_url_char s ch \<in> {s_dead, s_req_schema, s_req_schema_slash, s_req_schema_slash_slash,
     s_req_server_start, s_req_server, s_req_server_with_at, s_req_path, s_req_query_string_start,
     s_req_query_string, s_req_fragment_start, s_req_fragment}"
  by (cases s) (simp_all add: parse_url_char_def url_server_char_def)

end
