(* ===== verification/Http11Parser.thy ===== *)
theory Http11Parser
  imports Http11ParserTypes
begin

text \<open>
  \<open>http_parser_execute\<close> of \<open>src/HttpServer/Connections/Http11Parser.cpp\<close>.

  The local variables of the function are the record \<open>exec\<close>: the parser object, the read position
  \<open>p\<close>, \<open>p_state\<close>, \<open>nread\<close>, the five marks, and the \<open>Settings\<close> object whose member functions are the
  callbacks. A callback reads the parser object and the settings object and returns an integer and the
  new settings object; like the callbacks of \<open>Http11ServerConnection\<close> it does not write the parser.

  One pass through the big \<open>switch\<close> is \<open>step\<close>, with one definition per \<open>case\<close>. Its outcome says how the
  pass ends: \<open>Break\<close> (to the next byte), \<open>Reexecute\<close> (\<open>goto reexecute\<close>), \<open>Error\<close> (\<open>goto error\<close>, the error
  number already set), \<open>Return\<close>, or \<open>Fault\<close>, which is a failed \<open>assert\<close>, an array read out of range or
  a slice of negative length. \<open>reexec\<close> repeats \<open>step\<close> at one byte, \<open>exec_loop\<close> runs over the buffer.
\<close>

record 's settings =
  on_message_begin :: "http_parser \<Rightarrow> 's \<Rightarrow> int \<times> 's"
  on_url :: "http_parser \<Rightarrow> string \<Rightarrow> 's \<Rightarrow> int \<times> 's"
  on_status :: "http_parser \<Rightarrow> string \<Rightarrow> 's \<Rightarrow> int \<times> 's"
  on_header_field :: "http_parser \<Rightarrow> string \<Rightarrow> 's \<Rightarrow> int \<times> 's"
  on_header_value :: "http_parser \<Rightarrow> string \<Rightarrow> 's \<Rightarrow> int \<times> 's"
  on_headers_complete :: "http_parser \<Rightarrow> 's \<Rightarrow> int \<times> 's"
  on_body :: "http_parser \<Rightarrow> string \<Rightarrow> 's \<Rightarrow> int \<times> 's"
  on_message_complete :: "http_parser \<Rightarrow> 's \<Rightarrow> int \<times> 's"
  on_chunk_header :: "http_parser \<Rightarrow> 's \<Rightarrow> int \<times> 's"
  on_chunk_complete :: "http_parser \<Rightarrow> 's \<Rightarrow> int \<times> 's"

record 's exec =
  x_parser :: http_parser
  x_p :: nat
  x_state :: state
  x_nread :: u32
  x_header_field_mark :: "nat option"
  x_header_value_mark :: "nat option"
  x_url_mark :: "nat option"
  x_body_mark :: "nat option"
  x_status_mark :: "nat option"
  x_settings :: 's

text \<open>What a call is given: the buffer, the global \<open>max_header_size\<close>, the callbacks.\<close>

record 's env =
  e_data :: string
  e_max_header_size :: u32
  e_settings :: "'s settings"

datatype 's outcome =
    Break "'s exec"
  | Reexecute char "'s exec"
  | Error "'s exec"
  | Return nat "'s exec"
  | Fault string

section \<open>The macros\<close>

definition upd_parser :: "(http_parser \<Rightarrow> http_parser) \<Rightarrow> 's exec \<Rightarrow> 's exec" where
  "upd_parser f x = x\<lparr>x_parser := f (x_parser x)\<rparr>"

definition SET_ERRNO :: "http_errno \<Rightarrow> 's exec \<Rightarrow> 's exec" where
  "SET_ERRNO e x = upd_parser (\<lambda>ps. ps\<lparr>hp_nread := x_nread x, hp_http_errno := e\<rparr>) x"

text \<open>\<open>SET_ERRNO(e); goto error;\<close>\<close>

definition goto_error :: "http_errno \<Rightarrow> 's exec \<Rightarrow> 's outcome" where
  "goto_error e x = Error (SET_ERRNO e x)"

definition UPDATE_STATE :: "state \<Rightarrow> 's exec \<Rightarrow> 's exec" where
  "UPDATE_STATE s x = x\<lparr>x_state := s\<rparr>"

definition RETURN :: "nat \<Rightarrow> 's exec \<Rightarrow> 's outcome" where
  "RETURN v x = Return v (upd_parser (\<lambda>ps. ps\<lparr>hp_nread := x_nread x, hp_state := x_state x\<rparr>) x)"

definition STRICT_CHECK :: "bool \<Rightarrow> 's exec \<Rightarrow> 's outcome \<Rightarrow> 's outcome" where
  "STRICT_CHECK cond x k = (if cond then goto_error HPE_STRICT x else k)"

definition ASSERT :: "bool \<Rightarrow> 's outcome \<Rightarrow> 's outcome" where
  "ASSERT b k = (if b then k else Fault ''assert'')"

text \<open>\<open>CALLBACK_NOTIFY_(FOR, ER)\<close> followed by the rest of the case.\<close>

definition CALLBACK_NOTIFY ::
  "(http_parser \<Rightarrow> 's \<Rightarrow> int \<times> 's) \<Rightarrow> http_errno \<Rightarrow> nat \<Rightarrow> 's exec \<Rightarrow> ('s exec \<Rightarrow> 's outcome) \<Rightarrow> 's outcome" where
  "CALLBACK_NOTIFY cb e er x k =
     ASSERT (hp_http_errno (x_parser x) = HPE_OK)
       (let x1 = upd_parser (\<lambda>ps. ps\<lparr>hp_state := x_state x\<rparr>) x;
            r = cb (x_parser x1) (x_settings x1);
            x2 = x1\<lparr>x_settings := snd r\<rparr>
        in if fst r \<noteq> 0 then Return er (SET_ERRNO e x2) else k x2)"

text \<open>
  \<open>CALLBACK_DATA_(FOR, LEN, ER)\<close>: \<open>stop\<close> is the end of the slice, \<open>mark + LEN\<close>; \<open>clear\<close> resets the mark.
\<close>

definition CALLBACK_DATA ::
  "string \<Rightarrow> nat option \<Rightarrow> ('s exec \<Rightarrow> 's exec) \<Rightarrow> (http_parser \<Rightarrow> string \<Rightarrow> 's \<Rightarrow> int \<times> 's) \<Rightarrow>
   http_errno \<Rightarrow> nat \<Rightarrow> nat \<Rightarrow> 's exec \<Rightarrow> ('s exec \<Rightarrow> 's outcome) \<Rightarrow> 's outcome" where
  "CALLBACK_DATA data m clear cb e stop er x k =
     ASSERT (hp_http_errno (x_parser x) = HPE_OK)
       (case m of
          None \<Rightarrow> k x
        | Some mark \<Rightarrow>
            (if stop < mark \<or> length data < stop then Fault ''slice''
             else
               let x1 = upd_parser (\<lambda>ps. ps\<lparr>hp_state := x_state x\<rparr>) x;
                   r = cb (x_parser x1) (take (stop - mark) (drop mark data)) (x_settings x1);
                   x2 = x1\<lparr>x_settings := snd r\<rparr>
               in if fst r \<noteq> 0 then Return er (SET_ERRNO e x2) else k (clear x2)))"

text \<open>The five data callbacks; \<open>er\<close> is the value returned when the callback fails.\<close>

definition data_header_field where
  "data_header_field E stop er x k =
     CALLBACK_DATA (e_data E) (x_header_field_mark x) (\<lambda>x. x\<lparr>x_header_field_mark := None\<rparr>)
       (on_header_field (e_settings E)) HPE_CB_header_field stop er x k"

definition data_header_value where
  "data_header_value E stop er x k =
     CALLBACK_DATA (e_data E) (x_header_value_mark x) (\<lambda>x. x\<lparr>x_header_value_mark := None\<rparr>)
       (on_header_value (e_settings E)) HPE_CB_header_value stop er x k"

definition data_url where
  "data_url E stop er x k =
     CALLBACK_DATA (e_data E) (x_url_mark x) (\<lambda>x. x\<lparr>x_url_mark := None\<rparr>)
       (on_url (e_settings E)) HPE_CB_url stop er x k"

definition data_body where
  "data_body E stop er x k =
     CALLBACK_DATA (e_data E) (x_body_mark x) (\<lambda>x. x\<lparr>x_body_mark := None\<rparr>)
       (on_body (e_settings E)) HPE_CB_body stop er x k"

definition data_status where
  "data_status E stop er x k =
     CALLBACK_DATA (e_data E) (x_status_mark x) (\<lambda>x. x\<lparr>x_status_mark := None\<rparr>)
       (on_status (e_settings E)) HPE_CB_status stop er x k"

text \<open>\<open>MARK(FOR)\<close>: not destructive when the mark is set.\<close>

definition mark_or :: "nat option \<Rightarrow> nat \<Rightarrow> nat option" where
  "mark_or m p = (case m of None \<Rightarrow> Some p | Some q \<Rightarrow> Some q)"

definition MARK_header_field :: "'s exec \<Rightarrow> 's exec" where
  "MARK_header_field x = x\<lparr>x_header_field_mark := mark_or (x_header_field_mark x) (x_p x)\<rparr>"

definition MARK_header_value :: "'s exec \<Rightarrow> 's exec" where
  "MARK_header_value x = x\<lparr>x_header_value_mark := mark_or (x_header_value_mark x) (x_p x)\<rparr>"

definition MARK_url :: "'s exec \<Rightarrow> 's exec" where
  "MARK_url x = x\<lparr>x_url_mark := mark_or (x_url_mark x) (x_p x)\<rparr>"

definition MARK_body :: "'s exec \<Rightarrow> 's exec" where
  "MARK_body x = x\<lparr>x_body_mark := mark_or (x_body_mark x) (x_p x)\<rparr>"

definition MARK_status :: "'s exec \<Rightarrow> 's exec" where
  "MARK_status x = x\<lparr>x_status_mark := mark_or (x_status_mark x) (x_p x)\<rparr>"

text \<open>\<open>COUNT_HEADER_SIZE(V)\<close>: the sum is 32 bits wide.\<close>

definition COUNT_HEADER_SIZE :: "'s env \<Rightarrow> nat \<Rightarrow> 's exec \<Rightarrow> ('s exec \<Rightarrow> 's outcome) \<Rightarrow> 's outcome" where
  "COUNT_HEADER_SIZE E v x k =
     (let x1 = x\<lparr>x_nread := x_nread x + of_nat v\<rparr>
      in if x_nread x1 > e_max_header_size E then goto_error HPE_HEADER_OVERFLOW x1 else k x1)"

lemmas macro_defs = upd_parser_def SET_ERRNO_def goto_error_def UPDATE_STATE_def RETURN_def
  STRICT_CHECK_def ASSERT_def CALLBACK_NOTIFY_def CALLBACK_DATA_def data_header_field_def
  data_header_value_def data_url_def data_body_def data_status_def mark_or_def MARK_header_field_def
  MARK_header_value_def MARK_url_def MARK_body_def MARK_status_def COUNT_HEADER_SIZE_def

section \<open>Start of a message\<close>

definition step_s_dead :: "'s env \<Rightarrow> char \<Rightarrow> 's exec \<Rightarrow> 's outcome" where
  "step_s_dead E ch x = (if ch = CR \<or> ch = LF then Break x else goto_error HPE_CLOSED_CONNECTION x)"

definition notify_message_begin :: "'s env \<Rightarrow> 's exec \<Rightarrow> ('s exec \<Rightarrow> 's outcome) \<Rightarrow> 's outcome" where
  "notify_message_begin E x k =
     CALLBACK_NOTIFY (on_message_begin (e_settings E)) HPE_CB_message_begin (x_p x + 1) x k"

definition begin_message :: "'s exec \<Rightarrow> 's exec" where
  "begin_message x = upd_parser (\<lambda>ps. ps\<lparr>hp_flags := 0, hp_content_length := ULLONG_MAX\<rparr>) x"

definition step_s_start_req_or_res :: "'s env \<Rightarrow> char \<Rightarrow> 's exec \<Rightarrow> 's outcome" where
  "step_s_start_req_or_res E ch x =
     (if ch = CR \<or> ch = LF then Break x
      else
        let x1 = begin_message x
        in if ch = CHR ''H'' then notify_message_begin E (UPDATE_STATE s_res_or_resp_H x1) Break
           else Reexecute ch (UPDATE_STATE s_start_req (upd_parser (\<lambda>ps. ps\<lparr>hp_type := HTTP_REQUEST\<rparr>) x1)))"

definition step_s_res_or_resp_H :: "'s env \<Rightarrow> char \<Rightarrow> 's exec \<Rightarrow> 's outcome" where
  "step_s_res_or_resp_H E ch x =
     (if ch = CHR ''T'' then
        Break (UPDATE_STATE s_res_HT (upd_parser (\<lambda>ps. ps\<lparr>hp_type := HTTP_RESPONSE\<rparr>) x))
      else if ch \<noteq> CHR ''E'' then goto_error HPE_INVALID_CONSTANT x
      else
        Break (UPDATE_STATE s_req_method
          (upd_parser (\<lambda>ps. ps\<lparr>hp_type := HTTP_REQUEST, hp_method := HTTP_HEAD, hp_index := 2\<rparr>) x)))"

section \<open>Status line\<close>

definition step_s_start_res :: "'s env \<Rightarrow> char \<Rightarrow> 's exec \<Rightarrow> 's outcome" where
  "step_s_start_res E ch x =
     (if ch = CR \<or> ch = LF then Break x
      else
        let x1 = begin_message x
        in if ch = CHR ''H'' then notify_message_begin E (UPDATE_STATE s_res_H x1) Break
           else goto_error HPE_INVALID_CONSTANT x1)"

text \<open>\<open>STRICT_CHECK(ch != c); UPDATE_STATE(s); break;\<close>\<close>

definition expect_char :: "char \<Rightarrow> state \<Rightarrow> char \<Rightarrow> 's exec \<Rightarrow> 's outcome" where
  "expect_char c s ch x = STRICT_CHECK (ch \<noteq> c) x (Break (UPDATE_STATE s x))"

definition step_http_major :: "state \<Rightarrow> char \<Rightarrow> 's exec \<Rightarrow> 's outcome" where
  "step_http_major s ch x =
     (if \<not> IS_NUM ch then goto_error HPE_INVALID_VERSION x
      else Break (UPDATE_STATE s (upd_parser (\<lambda>ps. ps\<lparr>hp_http_major := digit_of ch\<rparr>) x)))"

definition step_http_dot :: "state \<Rightarrow> char \<Rightarrow> 's exec \<Rightarrow> 's outcome" where
  "step_http_dot s ch x =
     (if ch \<noteq> CHR ''.'' then goto_error HPE_INVALID_VERSION x else Break (UPDATE_STATE s x))"

definition step_http_minor :: "state \<Rightarrow> char \<Rightarrow> 's exec \<Rightarrow> 's outcome" where
  "step_http_minor s ch x =
     (if \<not> IS_NUM ch then goto_error HPE_INVALID_VERSION x
      else Break (UPDATE_STATE s (upd_parser (\<lambda>ps. ps\<lparr>hp_http_minor := digit_of ch\<rparr>) x)))"

definition step_s_res_http_end :: "char \<Rightarrow> 's exec \<Rightarrow> 's outcome" where
  "step_s_res_http_end ch x =
     (if ch \<noteq> SP then goto_error HPE_INVALID_VERSION x
      else Break (UPDATE_STATE s_res_first_status_code x))"

definition step_s_res_first_status_code :: "char \<Rightarrow> 's exec \<Rightarrow> 's outcome" where
  "step_s_res_first_status_code ch x =
     (if \<not> IS_NUM ch then (if ch = SP then Break x else goto_error HPE_INVALID_STATUS x)
      else Break (UPDATE_STATE s_res_status_code
                   (upd_parser (\<lambda>ps. ps\<lparr>hp_status_code := digit_of ch\<rparr>) x)))"

definition step_s_res_status_code :: "char \<Rightarrow> 's exec \<Rightarrow> 's outcome" where
  "step_s_res_status_code ch x =
     (if \<not> IS_NUM ch then
        (if ch = SP then Break (UPDATE_STATE s_res_status_start x)
         else if ch = CR \<or> ch = LF then Reexecute ch (UPDATE_STATE s_res_status_start x)
         else goto_error HPE_INVALID_STATUS x)
      else
        let x1 = upd_parser (\<lambda>ps. ps\<lparr>hp_status_code := hp_status_code ps * 10 + digit_of ch\<rparr>) x
        in if hp_status_code (x_parser x1) > 999 then goto_error HPE_INVALID_STATUS x1 else Break x1)"

definition step_s_res_status_start :: "char \<Rightarrow> 's exec \<Rightarrow> 's outcome" where
  "step_s_res_status_start ch x =
     (let x1 = upd_parser (\<lambda>ps. ps\<lparr>hp_index := 0\<rparr>) (UPDATE_STATE s_res_status (MARK_status x))
      in if ch = CR \<or> ch = LF then Reexecute ch x1 else Break x1)"

definition step_s_res_status :: "'s env \<Rightarrow> char \<Rightarrow> 's exec \<Rightarrow> 's outcome" where
  "step_s_res_status E ch x =
     (if ch = CR then data_status E (x_p x) (x_p x + 1) (UPDATE_STATE s_res_line_almost_done x) Break
      else if ch = LF then data_status E (x_p x) (x_p x + 1) (UPDATE_STATE s_header_field_start x) Break
      else Break x)"

section \<open>Request line\<close>

definition first_method :: "char \<Rightarrow> http_method option" where
  "first_method ch =
     (if ch = CHR ''A'' then Some HTTP_ACL else if ch = CHR ''B'' then Some HTTP_BIND
      else if ch = CHR ''C'' then Some HTTP_CONNECT else if ch = CHR ''D'' then Some HTTP_DELETE
      else if ch = CHR ''G'' then Some HTTP_GET else if ch = CHR ''H'' then Some HTTP_HEAD
      else if ch = CHR ''L'' then Some HTTP_LOCK else if ch = CHR ''M'' then Some HTTP_MKCOL
      else if ch = CHR ''N'' then Some HTTP_NOTIFY else if ch = CHR ''O'' then Some HTTP_OPTIONS
      else if ch = CHR ''P'' then Some HTTP_POST else if ch = CHR ''R'' then Some HTTP_REPORT
      else if ch = CHR ''S'' then Some HTTP_SUBSCRIBE else if ch = CHR ''T'' then Some HTTP_TRACE
      else if ch = CHR ''U'' then Some HTTP_UNLOCK else None)"

definition step_s_start_req :: "'s env \<Rightarrow> char \<Rightarrow> 's exec \<Rightarrow> 's outcome" where
  "step_s_start_req E ch x =
     (if ch = CR \<or> ch = LF then Break x
      else
        let x1 = begin_message x
        in if \<not> IS_ALPHA ch then goto_error HPE_INVALID_METHOD x1
           else
             let x2 = upd_parser (\<lambda>ps. ps\<lparr>hp_method := HTTP_DELETE, hp_index := 1\<rparr>) x1
             in case first_method ch of
                  None \<Rightarrow> goto_error HPE_INVALID_METHOD x2
                | Some m \<Rightarrow>
                    notify_message_begin E
                      (UPDATE_STATE s_req_method (upd_parser (\<lambda>ps. ps\<lparr>hp_method := m\<rparr>) x2)) Break)"

text \<open>The \<open>XX(meth, pos, ch, new_meth)\<close> table.\<close>

definition switch_method :: "http_method \<Rightarrow> nat \<Rightarrow> char \<Rightarrow> http_method option" where
  "switch_method m i ch =
     map_of [((HTTP_POST, 1, CHR ''U''), HTTP_PUT), ((HTTP_POST, 1, CHR ''A''), HTTP_PATCH),
       ((HTTP_POST, 1, CHR ''R''), HTTP_PROPFIND), ((HTTP_PUT, 2, CHR ''R''), HTTP_PURGE),
       ((HTTP_CONNECT, 1, CHR ''H''), HTTP_CHECKOUT), ((HTTP_CONNECT, 2, CHR ''P''), HTTP_COPY),
       ((HTTP_MKCOL, 1, CHR ''O''), HTTP_MOVE), ((HTTP_MKCOL, 1, CHR ''E''), HTTP_MERGE),
       ((HTTP_MKCOL, 1, CHR ''-''), HTTP_MSEARCH), ((HTTP_MKCOL, 2, CHR ''A''), HTTP_MKACTIVITY),
       ((HTTP_MKCOL, 3, CHR ''A''), HTTP_MKCALENDAR), ((HTTP_SUBSCRIBE, 1, CHR ''E''), HTTP_SEARCH),
       ((HTTP_SUBSCRIBE, 1, CHR ''O''), HTTP_SOURCE), ((HTTP_REPORT, 2, CHR ''B''), HTTP_REBIND),
       ((HTTP_PROPFIND, 4, CHR ''P''), HTTP_PROPPATCH), ((HTTP_LOCK, 1, CHR ''I''), HTTP_LINK),
       ((HTTP_UNLOCK, 2, CHR ''S''), HTTP_UNSUBSCRIBE), ((HTTP_UNLOCK, 2, CHR ''B''), HTTP_UNBIND),
       ((HTTP_UNLOCK, 3, CHR ''I''), HTTP_UNLINK)] (m, i, ch)"

text \<open>A read of a NUL-terminated literal: the terminator is in range, what is behind it is not.\<close>

definition cstr_at :: "string \<Rightarrow> nat \<Rightarrow> char option" where
  "cstr_at s i = (if i < length s then Some (s ! i) else if i = length s then Some NUL else None)"

definition step_s_req_method :: "char \<Rightarrow> 's exec \<Rightarrow> 's outcome" where
  "step_s_req_method ch x =
     (if ch = NUL then goto_error HPE_INVALID_METHOD x
      else
        let ps = x_parser x
        in case cstr_at (method_strings (hp_method ps)) (hp_index ps) of
             None \<Rightarrow> Fault ''method_strings''
           | Some expected \<Rightarrow>
               let incr = upd_parser (\<lambda>ps. ps\<lparr>hp_index := hp_index ps + 1\<rparr>)
               in if ch = SP \<and> expected = NUL then Break (incr (UPDATE_STATE s_req_spaces_before_url x))
                  else if ch = expected then Break (incr x)
                  else if (65 \<le> byte ch \<and> byte ch \<le> 90) \<or> ch = CHR ''-'' then
                    (case switch_method (hp_method ps) (hp_index ps) ch of
                       None \<Rightarrow> goto_error HPE_INVALID_METHOD x
                     | Some m \<Rightarrow> Break (incr (upd_parser (\<lambda>ps. ps\<lparr>hp_method := m\<rparr>) x)))
                  else goto_error HPE_INVALID_METHOD x)"

text \<open>\<open>UPDATE_STATE(parse_url_char(CURRENT_STATE(), ch))\<close> and the check for \<open>s_dead\<close>.\<close>

definition url_char :: "char \<Rightarrow> 's exec \<Rightarrow> 's outcome" where
  "url_char ch x =
     (let x1 = UPDATE_STATE (parse_url_char (x_state x) ch) x
      in if x_state x1 = s_dead then goto_error HPE_INVALID_URL x1 else Break x1)"

definition step_s_req_spaces_before_url :: "char \<Rightarrow> 's exec \<Rightarrow> 's outcome" where
  "step_s_req_spaces_before_url ch x =
     (if ch = SP then Break x
      else
        let x1 = MARK_url x;
            x2 = (if hp_method (x_parser x1) = HTTP_CONNECT then UPDATE_STATE s_req_server_start x1 else x1)
        in url_char ch x2)"

definition step_url_no_space :: "char \<Rightarrow> 's exec \<Rightarrow> 's outcome" where
  "step_url_no_space ch x =
     (if ch = SP \<or> ch = CR \<or> ch = LF then goto_error HPE_INVALID_URL x else url_char ch x)"

definition step_url_rest :: "'s env \<Rightarrow> char \<Rightarrow> 's exec \<Rightarrow> 's outcome" where
  "step_url_rest E ch x =
     (if ch = SP then data_url E (x_p x) (x_p x + 1) (UPDATE_STATE s_req_http_start x) Break
      else if ch = CR \<or> ch = LF then
        data_url E (x_p x) (x_p x + 1)
          (UPDATE_STATE (if ch = CR then s_req_line_almost_done else s_header_field_start)
            (upd_parser (\<lambda>ps. ps\<lparr>hp_http_major := 0, hp_http_minor := 9\<rparr>) x)) Break
      else url_char ch x)"

definition step_s_req_http_start :: "char \<Rightarrow> 's exec \<Rightarrow> 's outcome" where
  "step_s_req_http_start ch x =
     (if ch = SP then Break x
      else if ch = CHR ''H'' then Break (UPDATE_STATE s_req_http_H x)
      else if ch = CHR ''I'' \<and> hp_method (x_parser x) = HTTP_SOURCE then
        Break (UPDATE_STATE s_req_http_I x)
      else goto_error HPE_INVALID_CONSTANT x)"

definition step_s_req_http_end :: "char \<Rightarrow> 's exec \<Rightarrow> 's outcome" where
  "step_s_req_http_end ch x =
     (if ch = CR then Break (UPDATE_STATE s_req_line_almost_done x)
      else if ch = LF then Break (UPDATE_STATE s_header_field_start x)
      else goto_error HPE_INVALID_VERSION x)"

definition step_s_req_line_almost_done :: "char \<Rightarrow> 's exec \<Rightarrow> 's outcome" where
  "step_s_req_line_almost_done ch x =
     (if ch \<noteq> LF then goto_error HPE_LF_EXPECTED x else Break (UPDATE_STATE s_header_field_start x))"

section \<open>Header fields\<close>

abbreviation CONNECTION :: string where "CONNECTION \<equiv> ''connection''"
abbreviation PROXY_CONNECTION :: string where "PROXY_CONNECTION \<equiv> ''proxy-connection''"
abbreviation CONTENT_LENGTH :: string where "CONTENT_LENGTH \<equiv> ''content-length''"
abbreviation TRANSFER_ENCODING :: string where "TRANSFER_ENCODING \<equiv> ''transfer-encoding''"
abbreviation UPGRADE :: string where "UPGRADE \<equiv> ''upgrade''"
abbreviation CHUNKED :: string where "CHUNKED \<equiv> ''chunked''"
abbreviation KEEP_ALIVE :: string where "KEEP_ALIVE \<equiv> ''keep-alive''"
abbreviation CLOSE :: string where "CLOSE \<equiv> ''close''"

definition first_header_state :: "char \<Rightarrow> header_states" where
  "first_header_state c =
     (if c = CHR ''c'' then h_C else if c = CHR ''p'' then h_matching_proxy_connection
      else if c = CHR ''t'' then h_matching_transfer_encoding else if c = CHR ''u'' then h_matching_upgrade
      else h_general)"

definition step_s_header_field_start :: "char \<Rightarrow> 's exec \<Rightarrow> 's outcome" where
  "step_s_header_field_start ch x =
     (if ch = CR then Break (UPDATE_STATE s_headers_almost_done x)
      else if ch = LF then Reexecute ch (UPDATE_STATE s_headers_almost_done x)
      else
        let c = TOKEN ch
        in if c = NUL then goto_error HPE_INVALID_HEADER_TOKEN x
           else
             let x1 = UPDATE_STATE s_header_field (upd_parser (\<lambda>ps. ps\<lparr>hp_index := 0\<rparr>) (MARK_header_field x))
             in Break (upd_parser (\<lambda>ps. ps\<lparr>hp_header_state := first_header_state c\<rparr>) x1))"

text \<open>
  \<open>index++; if (index > sizeof(LIT)-1 || c != LIT[index]) s = bad; else if (index == sizeof(LIT)-2) s = full;\<close>
  for the incremented \<open>i\<close>; \<open>sizeof\<close> counts the terminator.
\<close>

definition match_literal :: "string \<Rightarrow> nat \<Rightarrow> char \<Rightarrow> header_states \<Rightarrow> header_states \<Rightarrow> header_states \<Rightarrow> header_states" where
  "match_literal lit i c bad full stay =
     (if i > length lit \<or> cstr_at lit i \<noteq> Some c then bad
      else if i + 1 = length lit then full else stay)"

text \<open>The \<open>switch\<close> of the loop in \<open>s_header_field\<close>, \<open>h_general\<close> apart; \<^const>\<open>None\<close> is the failed assertion.\<close>

definition header_field_char :: "char \<Rightarrow> char \<Rightarrow> http_parser \<Rightarrow> http_parser option" where
  "header_field_char ch c ps =
     (let h = hp_header_state ps;
          ps1 = ps\<lparr>hp_index := hp_index ps + 1\<rparr>;
          i = hp_index ps1;
          set = (\<lambda>h'. ps1\<lparr>hp_header_state := h'\<rparr>)
      in case h of
           h_C \<Rightarrow> Some (set (if c = CHR ''o'' then h_CO else h_general))
         | h_CO \<Rightarrow> Some (set (if c = CHR ''n'' then h_CON else h_general))
         | h_CON \<Rightarrow> Some (set (if c = CHR ''n'' then h_matching_connection
                              else if c = CHR ''t'' then h_matching_content_length else h_general))
         | h_matching_connection \<Rightarrow> Some (set (match_literal CONNECTION i c h_general h_connection h))
         | h_matching_proxy_connection \<Rightarrow>
             Some (set (match_literal PROXY_CONNECTION i c h_general h_connection h))
         | h_matching_content_length \<Rightarrow>
             Some (set (match_literal CONTENT_LENGTH i c h_general h_content_length h))
         | h_matching_transfer_encoding \<Rightarrow>
             Some (set (match_literal TRANSFER_ENCODING i c h_general h_transfer_encoding h))
         | h_matching_upgrade \<Rightarrow> Some (set (match_literal UPGRADE i c h_general h_upgrade h))
         | h_connection \<Rightarrow> Some (if ch \<noteq> SP then ps\<lparr>hp_header_state := h_general\<rparr> else ps)
         | h_content_length \<Rightarrow> Some (if ch \<noteq> SP then ps\<lparr>hp_header_state := h_general\<rparr> else ps)
         | h_transfer_encoding \<Rightarrow> Some (if ch \<noteq> SP then ps\<lparr>hp_header_state := h_general\<rparr> else ps)
         | h_upgrade \<Rightarrow> Some (if ch \<noteq> SP then ps\<lparr>hp_header_state := h_general\<rparr> else ps)
         | _ \<Rightarrow> None)"

text \<open>\<open>while (p+1 < pe && TOKEN(p[1])) p++;\<close>\<close>

function field_scan :: "string \<Rightarrow> nat \<Rightarrow> nat \<Rightarrow> nat" where
  "field_scan data pe p = (if p + 1 < pe \<and> TOKEN (data ! (p + 1)) \<noteq> NUL then field_scan data pe (p + 1) else p)"
  by pat_completeness auto
termination by (relation "measure (\<lambda>(_, pe, p). pe - p)") auto

declare field_scan.simps [simp del]

lemma field_scan_ge: "p \<le> field_scan data pe p"
proof (induction data pe p rule: field_scan.induct)
  case (1 data pe p)
  show ?case
    using 1 by (subst field_scan.simps) (auto intro: Suc_leD)
qed

lemma field_scan_less: "p < pe \<Longrightarrow> field_scan data pe p < pe"
proof (induction data pe p rule: field_scan.induct)
  case (1 data pe p)
  then show ?case by (subst field_scan.simps) auto
qed

text \<open>The loop: where it stops, and the parser; \<open>mx\<close> is \<open>max_header_size\<close>.\<close>

function header_field_loop :: "string \<Rightarrow> nat \<Rightarrow> nat \<Rightarrow> http_parser \<Rightarrow> (nat \<times> http_parser) option" where
  "header_field_loop data mx p ps =
     (if p < length data then
        let ch = data ! p; c = TOKEN ch
        in if c = NUL then Some (p, ps)
           else if hp_header_state ps = h_general then
             header_field_loop data mx (field_scan data (p + min (length data - p) mx) p + 1) ps
           else
             (case header_field_char ch c ps of
                None \<Rightarrow> None
              | Some ps' \<Rightarrow> header_field_loop data mx (p + 1) ps')
      else Some (p, ps))"
  by pat_completeness auto
termination
  by (relation "measure (\<lambda>(data, _, p, _). length data - p)")
     (auto intro: diff_less_mono2 le_imp_less_Suc field_scan_ge)

declare header_field_loop.simps [simp del]

definition step_s_header_field :: "'s env \<Rightarrow> char \<Rightarrow> 's exec \<Rightarrow> 's outcome" where
  "step_s_header_field E ch x =
     (let start = x_p x
      in case header_field_loop (e_data E) (unat (e_max_header_size E)) start (x_parser x) of
           None \<Rightarrow> Fault ''assert''
         | Some (p, ps) \<Rightarrow>
             let x1 = x\<lparr>x_parser := ps\<rparr>
             in if p = length (e_data E) then
                  COUNT_HEADER_SIZE E (p - 1 - start) (x1\<lparr>x_p := p - 1\<rparr>) Break
                else
                  COUNT_HEADER_SIZE E (p - start) (x1\<lparr>x_p := p\<rparr>)
                    (\<lambda>x2. if e_data E ! p = CHR '':'' then
                            data_header_field E p (p + 1) (UPDATE_STATE s_header_value_discard_ws x2) Break
                          else goto_error HPE_INVALID_HEADER_TOKEN x2))"

section \<open>Header values\<close>

definition step_s_header_value_start :: "char \<Rightarrow> 's exec \<Rightarrow> 's outcome" where
  "step_s_header_value_start ch x =
     (let x1 = upd_parser (\<lambda>ps. ps\<lparr>hp_index := 0\<rparr>) (UPDATE_STATE s_header_value (MARK_header_value x));
          c = LOWER ch;
          to = (\<lambda>h. Break (upd_parser (\<lambda>ps. ps\<lparr>hp_header_state := h\<rparr>) x1))
      in case hp_header_state (x_parser x1) of
           h_upgrade \<Rightarrow>
             Break (upd_parser (\<lambda>ps. ps\<lparr>hp_flags := hp_flags ps OR F_UPGRADE, hp_header_state := h_general\<rparr>) x1)
         | h_transfer_encoding \<Rightarrow>
             to (if c = CHR ''c'' then h_matching_transfer_encoding_chunked else h_general)
         | h_content_length \<Rightarrow>
             if \<not> IS_NUM ch then goto_error HPE_INVALID_CONTENT_LENGTH x1
             else if has_flag (hp_flags (x_parser x1)) F_CONTENTLENGTH then
               goto_error HPE_UNEXPECTED_CONTENT_LENGTH x1
             else
               Break (upd_parser (\<lambda>ps. ps\<lparr>hp_flags := hp_flags ps OR F_CONTENTLENGTH,
                        hp_content_length := of_nat (digit_of ch), hp_header_state := h_content_length_num\<rparr>) x1)
         | h_content_length_ws \<Rightarrow> Break x1
         | h_connection \<Rightarrow>
             to (if c = CHR ''k'' then h_matching_connection_keep_alive
                 else if c = CHR ''c'' then h_matching_connection_close
                 else if c = CHR ''u'' then h_matching_connection_upgrade
                 else h_matching_connection_token)
         | h_matching_connection_token_start \<Rightarrow> Break x1
         | _ \<Rightarrow> to h_general)"

definition step_s_header_value_discard_ws :: "char \<Rightarrow> 's exec \<Rightarrow> 's outcome" where
  "step_s_header_value_discard_ws ch x =
     (if ch = SP \<or> ch = HT then Break x
      else if ch = CR then Break (UPDATE_STATE s_header_value_discard_ws_almost_done x)
      else if ch = LF then Break (UPDATE_STATE s_header_value_discard_lws x)
      else step_s_header_value_start ch x)"

text \<open>
  The \<open>switch\<close> of the loop in \<open>s_header_value\<close>, \<open>h_general\<close> apart: the new \<open>h_state\<close> and parser, an error
  (after which the source has stored \<open>h_state\<close>), or the failed assertion.
\<close>

datatype value_result = ValueNext header_states http_parser | ValueError http_errno http_parser | ValueFault

definition content_length_digit :: "char \<Rightarrow> http_parser \<Rightarrow> value_result" where
  "content_length_digit ch ps =
     (if ch = SP then ValueNext h_content_length_ws ps
      else if \<not> IS_NUM ch then
        ValueError HPE_INVALID_CONTENT_LENGTH (ps\<lparr>hp_header_state := h_content_length_num\<rparr>)
      else
        let t = hp_content_length ps * 10 + of_nat (digit_of ch)
        in if (ULLONG_MAX - 10) div 10 < hp_content_length ps then
             ValueError HPE_INVALID_CONTENT_LENGTH (ps\<lparr>hp_header_state := h_content_length_num\<rparr>)
           else ValueNext h_content_length_num (ps\<lparr>hp_content_length := t\<rparr>))"

text \<open>After \<open>keep-alive\<close>, \<open>close\<close> or \<open>upgrade\<close> of a \<open>Connection\<close> header.\<close>

definition connection_token_end :: "header_states \<Rightarrow> u32 \<Rightarrow> char \<Rightarrow> http_parser \<Rightarrow> value_result" where
  "connection_token_end h flag ch ps =
     (if ch = CHR '','' then
        ValueNext h_matching_connection_token_start (ps\<lparr>hp_flags := hp_flags ps OR flag, hp_index := 0\<rparr>)
      else if ch \<noteq> SP then ValueNext h_matching_connection_token ps
      else ValueNext h ps)"

definition header_value_char :: "header_states \<Rightarrow> char \<Rightarrow> http_parser \<Rightarrow> value_result" where
  "header_value_char h ch ps =
     (let c = LOWER ch;
          ps1 = ps\<lparr>hp_index := hp_index ps + 1\<rparr>;
          i = hp_index ps1
      in case h of
           h_connection \<Rightarrow> ValueFault
         | h_transfer_encoding \<Rightarrow> ValueFault
         | h_content_length \<Rightarrow> if ch = SP then ValueNext h_content_length ps else content_length_digit ch ps
         | h_content_length_num \<Rightarrow> content_length_digit ch ps
         | h_content_length_ws \<Rightarrow>
             if ch = SP then ValueNext h_content_length_ws ps
             else ValueError HPE_INVALID_CONTENT_LENGTH (ps\<lparr>hp_header_state := h_content_length_ws\<rparr>)
         | h_matching_transfer_encoding_chunked \<Rightarrow>
             ValueNext (match_literal CHUNKED i c h_general h_transfer_encoding_chunked h) ps1
         | h_matching_connection_token_start \<Rightarrow>
             ValueNext (if c = CHR ''k'' then h_matching_connection_keep_alive
                        else if c = CHR ''c'' then h_matching_connection_close
                        else if c = CHR ''u'' then h_matching_connection_upgrade
                        else if STRICT_TOKEN c \<noteq> NUL then h_matching_connection_token
                        else if c = SP \<or> c = HT then h
                        else h_general) ps
         | h_matching_connection_keep_alive \<Rightarrow>
             ValueNext (match_literal KEEP_ALIVE i c h_matching_connection_token h_connection_keep_alive h) ps1
         | h_matching_connection_close \<Rightarrow>
             ValueNext (match_literal CLOSE i c h_matching_connection_token h_connection_close h) ps1
         | h_matching_connection_upgrade \<Rightarrow>
             ValueNext (match_literal UPGRADE i c h_matching_connection_token h_connection_upgrade h) ps1
         | h_matching_connection_token \<Rightarrow>
             if ch = CHR '','' then ValueNext h_matching_connection_token_start (ps\<lparr>hp_index := 0\<rparr>)
             else ValueNext h ps
         | h_transfer_encoding_chunked \<Rightarrow> ValueNext (if ch \<noteq> SP then h_general else h) ps
         | h_connection_keep_alive \<Rightarrow> connection_token_end h F_CONNECTION_KEEP_ALIVE ch ps
         | h_connection_close \<Rightarrow> connection_token_end h F_CONNECTION_CLOSE ch ps
         | h_connection_upgrade \<Rightarrow> connection_token_end h F_CONNECTION_UPGRADE ch ps
         | _ \<Rightarrow> ValueNext h_general ps)"

text \<open>
  The inner loop of \<open>h_general\<close>: \<^const>\<open>Inr\<close> is where it stops (one before a CR or LF, or at \<open>pe\<close>),
  \<^const>\<open>Inl\<close> the position of a byte a header may not hold.
\<close>

function value_scan :: "bool \<Rightarrow> string \<Rightarrow> nat \<Rightarrow> nat \<Rightarrow> nat + nat" where
  "value_scan lenient data pe p =
     (if p < pe then
        let ch = data ! p
        in if ch = CR \<or> ch = LF then Inr (p - 1)
           else if \<not> lenient \<and> \<not> IS_HEADER_CHAR ch then Inl p
           else value_scan lenient data pe (p + 1)
      else Inr p)"
  by pat_completeness auto
termination by (relation "measure (\<lambda>(_, _, pe, p). pe - p)") auto

declare value_scan.simps [simp del]

lemma value_scan_range:
  "(case value_scan lenient data pe p of
      Inr q \<Rightarrow> p \<le> q + 1 \<and> (p \<le> pe \<longrightarrow> q \<le> pe)
    | Inl q \<Rightarrow> p \<le> q \<and> q < pe)"
proof (induction lenient data pe p rule: value_scan.induct)
  case (1 lenient data pe p)
  show ?case
    using 1 by (subst value_scan.simps) (fastforce simp: Let_def split: sum.splits)
qed

text \<open>What follows the loop of \<open>s_header_value\<close>.\<close>

definition header_value_end :: "'s env \<Rightarrow> nat \<Rightarrow> header_states \<Rightarrow> 's exec \<Rightarrow> 's outcome" where
  "header_value_end E start h x =
     (let x1 = upd_parser (\<lambda>ps. ps\<lparr>hp_header_state := h\<rparr>) x;
          x2 = (if x_p x1 = length (e_data E) then x1\<lparr>x_p := x_p x1 - 1\<rparr> else x1)
      in COUNT_HEADER_SIZE E (x_p x2 - start) x2 Break)"

definition header_value_cr :: "'s env \<Rightarrow> nat \<Rightarrow> header_states \<Rightarrow> 's exec \<Rightarrow> 's outcome" where
  "header_value_cr E start h x =
     data_header_value E (x_p x) (x_p x + 1)
       (upd_parser (\<lambda>ps. ps\<lparr>hp_header_state := h\<rparr>) (UPDATE_STATE s_header_almost_done x))
       (header_value_end E start h)"

definition header_value_lf :: "'s env \<Rightarrow> nat \<Rightarrow> header_states \<Rightarrow> 's exec \<Rightarrow> 's outcome" where
  "header_value_lf E start h x =
     COUNT_HEADER_SIZE E (x_p x - start) (UPDATE_STATE s_header_almost_done x)
       (\<lambda>x1. data_header_value E (x_p x1) (x_p x1)
               (upd_parser (\<lambda>ps. ps\<lparr>hp_header_state := h\<rparr>) x1) (Reexecute LF))"

text \<open>\<open>h_general\<close>: where the pointer is when the \<open>switch\<close> is left.\<close>

definition value_general :: "'s env \<Rightarrow> 's exec \<Rightarrow> nat + nat" where
  "value_general E x =
     (let n = length (e_data E); p = x_p x
      in case value_scan (hp_lenient_http_headers (x_parser x)) (e_data E)
                (p + min (n - p) (unat (e_max_header_size E))) p of
           Inl q \<Rightarrow> Inl q
         | Inr q \<Rightarrow> Inr (if q = n then q - 1 else q))"

lemma value_general_range:
  assumes "x_p x < length (e_data E)" "e_data E ! x_p x \<noteq> CR" "e_data E ! x_p x \<noteq> LF"
  shows "case value_general E x of Inr q \<Rightarrow> x_p x \<le> q \<and> q < length (e_data E)
         | Inl q \<Rightarrow> x_p x \<le> q \<and> q < length (e_data E)"
proof -
  let ?l = "hp_lenient_http_headers (x_parser x)" and ?p = "x_p x" and ?n = "length (e_data E)"
  let ?pe = "?p + min (?n - ?p) (unat (e_max_header_size E))"
  have pe: "?p \<le> ?pe" "?pe \<le> ?n" using assms(1) by auto
  have first: "case value_scan ?l (e_data E) ?pe ?p of
      Inr q \<Rightarrow> ?p \<le> q \<and> q \<le> ?pe | Inl q \<Rightarrow> ?p \<le> q \<and> q < ?pe"
    using value_scan_range [where lenient = ?l and data = "e_data E" and pe = ?pe and p = "?p + 1"]
      assms(2,3) pe(1)
    by (subst value_scan.simps) (auto simp: Let_def split: sum.splits)
  show ?thesis
    using first pe assms(1) by (auto simp: value_general_def Let_def split: sum.splits)
qed

function header_value_loop :: "'s env \<Rightarrow> nat \<Rightarrow> header_states \<Rightarrow> 's exec \<Rightarrow> 's outcome" where
  "header_value_loop E start h x =
     (if x_p x < length (e_data E) then
        let ch = e_data E ! x_p x
        in if ch = CR then header_value_cr E start h x
           else if ch = LF then header_value_lf E start h x
           else if \<not> hp_lenient_http_headers (x_parser x) \<and> \<not> IS_HEADER_CHAR ch then
             goto_error HPE_INVALID_HEADER_TOKEN x
           else if h = h_general then
             (case value_general E x of
                Inl q \<Rightarrow> goto_error HPE_INVALID_HEADER_TOKEN (x\<lparr>x_p := q\<rparr>)
              | Inr q \<Rightarrow> header_value_loop E start h (x\<lparr>x_p := q + 1\<rparr>))
           else
             (case header_value_char h ch (x_parser x) of
                ValueNext h' ps \<Rightarrow> header_value_loop E start h' (x\<lparr>x_parser := ps, x_p := x_p x + 1\<rparr>)
              | ValueError e ps \<Rightarrow> goto_error e (x\<lparr>x_parser := ps\<rparr>)
              | ValueFault \<Rightarrow> Fault ''assert'')
      else header_value_end E start h x)"
  by pat_completeness auto
termination
proof (relation "measure (\<lambda>(E, _, _, x). length (e_data E) - x_p x)", goal_cases)
  case (2 E start h x ch q)
  then show ?case using value_general_range [of x E] by auto
qed auto

declare header_value_loop.simps [simp del]

definition step_s_header_value :: "'s env \<Rightarrow> char \<Rightarrow> 's exec \<Rightarrow> 's outcome" where
  "step_s_header_value E ch x = header_value_loop E (x_p x) (hp_header_state (x_parser x)) x"

definition step_s_header_almost_done :: "char \<Rightarrow> 's exec \<Rightarrow> 's outcome" where
  "step_s_header_almost_done ch x =
     (if ch \<noteq> LF then goto_error HPE_LF_EXPECTED x else Break (UPDATE_STATE s_header_value_lws x))"

text \<open>The flag a finished header sets.\<close>

definition finished_header_flag :: "header_states \<Rightarrow> u32" where
  "finished_header_flag h =
     (case h of h_connection_keep_alive \<Rightarrow> F_CONNECTION_KEEP_ALIVE | h_connection_close \<Rightarrow> F_CONNECTION_CLOSE
      | h_transfer_encoding_chunked \<Rightarrow> F_CHUNKED | h_connection_upgrade \<Rightarrow> F_CONNECTION_UPGRADE | _ \<Rightarrow> 0)"

definition finish_header :: "'s exec \<Rightarrow> 's exec" where
  "finish_header x =
     upd_parser (\<lambda>ps. ps\<lparr>hp_flags := hp_flags ps OR finished_header_flag (hp_header_state ps)\<rparr>) x"

definition step_s_header_value_lws :: "char \<Rightarrow> 's exec \<Rightarrow> 's outcome" where
  "step_s_header_value_lws ch x =
     (if ch = SP \<or> ch = HT then
        let x1 = upd_parser (\<lambda>ps. if hp_header_state ps = h_content_length_num
                                  then ps\<lparr>hp_header_state := h_content_length_ws\<rparr> else ps) x
        in Reexecute ch (UPDATE_STATE s_header_value_start x1)
      else Reexecute ch (UPDATE_STATE s_header_field_start (finish_header x)))"

definition step_s_header_value_discard_lws :: "'s env \<Rightarrow> char \<Rightarrow> 's exec \<Rightarrow> 's outcome" where
  "step_s_header_value_discard_lws E ch x =
     (if ch = SP \<or> ch = HT then Break (UPDATE_STATE s_header_value_discard_ws x)
      else if hp_header_state (x_parser x) = h_content_length then goto_error HPE_INVALID_CONTENT_LENGTH x
      else data_header_value E (x_p x) (x_p x)
             (UPDATE_STATE s_header_field_start (MARK_header_value (finish_header x))) (Reexecute ch))"

section \<open>End of the headers\<close>

definition notify_message_complete :: "'s env \<Rightarrow> nat \<Rightarrow> 's exec \<Rightarrow> ('s exec \<Rightarrow> 's outcome) \<Rightarrow> 's outcome" where
  "notify_message_complete E er x k =
     CALLBACK_NOTIFY (on_message_complete (e_settings E)) HPE_CB_message_complete er x k"

definition set_upgrade :: "http_parser \<Rightarrow> http_parser" where
  "set_upgrade ps =
     ps\<lparr>hp_upgrade :=
         (if has_flag (hp_flags ps) F_UPGRADE \<and> has_flag (hp_flags ps) F_CONNECTION_UPGRADE
          then hp_type ps = HTTP_REQUEST \<or> hp_status_code ps = 101
          else hp_method ps = HTTP_CONNECT)\<rparr>"

text \<open>The call of \<open>on_headers_complete\<close>; \<open>parser->state\<close> is not written before it.\<close>

definition call_headers_complete :: "'s env \<Rightarrow> char \<Rightarrow> 's exec \<Rightarrow> 's outcome" where
  "call_headers_complete E ch x =
     (let r = on_headers_complete (e_settings E) (x_parser x) (x_settings x);
          x1 = x\<lparr>x_settings := snd r\<rparr>;
          skip = upd_parser (\<lambda>ps. ps\<lparr>hp_flags := hp_flags ps OR F_SKIPBODY\<rparr>);
          go = (\<lambda>x. if hp_http_errno (x_parser x) \<noteq> HPE_OK then RETURN (x_p x) x else Reexecute ch x)
      in if fst r = 0 then go x1
         else if fst r = 2 then go (skip (upd_parser (\<lambda>ps. ps\<lparr>hp_upgrade := True\<rparr>) x1))
         else if fst r = 1 then go (skip x1)
         else RETURN (x_p x1) (SET_ERRNO HPE_CB_headers_complete x1))"

definition step_s_headers_almost_done :: "'s env \<Rightarrow> char \<Rightarrow> 's exec \<Rightarrow> 's outcome" where
  "step_s_headers_almost_done E ch x =
     STRICT_CHECK (ch \<noteq> LF) x
       (let fl = hp_flags (x_parser x)
        in if has_flag fl F_TRAILING then
             CALLBACK_NOTIFY (on_chunk_complete (e_settings E)) HPE_CB_chunk_complete (x_p x)
               (UPDATE_STATE s_message_done x) (Reexecute ch)
           else if has_flag fl F_CHUNKED \<and> has_flag fl F_CONTENTLENGTH then
             goto_error HPE_UNEXPECTED_CONTENT_LENGTH x
           else call_headers_complete E ch (upd_parser set_upgrade (UPDATE_STATE s_headers_done x)))"

definition has_body :: "http_parser \<Rightarrow> bool" where
  "has_body ps \<longleftrightarrow> has_flag (hp_flags ps) F_CHUNKED \<or>
     (hp_content_length ps > 0 \<and> hp_content_length ps \<noteq> ULLONG_MAX)"

definition reset_nread :: "'s exec \<Rightarrow> 's exec" where
  "reset_nread x = upd_parser (\<lambda>ps. ps\<lparr>hp_nread := 0\<rparr>) (x\<lparr>x_nread := 0\<rparr>)"

text \<open>\<open>UPDATE_STATE(NEW_MESSAGE()); CALLBACK_NOTIFY(message_complete);\<close>\<close>

definition complete_message :: "'s env \<Rightarrow> 's exec \<Rightarrow> ('s exec \<Rightarrow> 's outcome) \<Rightarrow> 's outcome" where
  "complete_message E x k =
     notify_message_complete E (x_p x + 1) (UPDATE_STATE (NEW_MESSAGE (x_parser x)) x) k"

definition step_s_headers_done :: "'s env \<Rightarrow> char \<Rightarrow> 's exec \<Rightarrow> 's outcome" where
  "step_s_headers_done E ch x =
     STRICT_CHECK (ch \<noteq> LF) x
       (let x1 = reset_nread x; ps = x_parser x1
        in if hp_upgrade ps \<and> (hp_method ps = HTTP_CONNECT \<or> has_flag (hp_flags ps) F_SKIPBODY \<or> \<not> has_body ps)
           then complete_message E x1 (\<lambda>x2. RETURN (x_p x2 + 1) x2)
           else if has_flag (hp_flags ps) F_SKIPBODY then complete_message E x1 Break
           else if has_flag (hp_flags ps) F_CHUNKED then Break (UPDATE_STATE s_chunk_size_start x1)
           else if hp_content_length ps = 0 then complete_message E x1 Break
           else if hp_content_length ps \<noteq> ULLONG_MAX then Break (UPDATE_STATE s_body_identity x1)
           else if \<not> http_message_needs_eof ps then complete_message E x1 Break
           else Break (UPDATE_STATE s_body_identity_eof x1))"

section \<open>Bodies\<close>

text \<open>\<open>MARK(body); content_length -= to_read; p += to_read - 1;\<close>\<close>

definition read_bytes :: "nat \<Rightarrow> 's exec \<Rightarrow> 's exec" where
  "read_bytes to_read x =
     upd_parser (\<lambda>ps. ps\<lparr>hp_content_length := hp_content_length ps - of_nat to_read\<rparr>)
       ((MARK_body x)\<lparr>x_p := x_p x + to_read - 1\<rparr>)"

text \<open>
  The same behind the assertion on \<open>content_length\<close>, with
  \<open>to_read = MIN(content_length, (data + len) - p)\<close>.
\<close>

definition read_body :: "'s env \<Rightarrow> 's exec \<Rightarrow> ('s exec \<Rightarrow> 's outcome) \<Rightarrow> 's outcome" where
  "read_body E x k =
     (let cl = hp_content_length (x_parser x)
      in ASSERT (cl \<noteq> 0 \<and> cl \<noteq> ULLONG_MAX)
           (k (read_bytes (min (unat cl) (length (e_data E) - x_p x)) x)))"

definition step_s_body_identity :: "'s env \<Rightarrow> char \<Rightarrow> 's exec \<Rightarrow> 's outcome" where
  "step_s_body_identity E ch x =
     read_body E x (\<lambda>x1.
       if hp_content_length (x_parser x1) = 0 then
         data_body E (x_p x1 + 1) (x_p x1) (UPDATE_STATE s_message_done x1) (Reexecute ch)
       else Break x1)"

definition step_s_body_identity_eof :: "'s env \<Rightarrow> char \<Rightarrow> 's exec \<Rightarrow> 's outcome" where
  "step_s_body_identity_eof E ch x = Break ((MARK_body x)\<lparr>x_p := length (e_data E) - 1\<rparr>)"

definition step_s_message_done :: "'s env \<Rightarrow> char \<Rightarrow> 's exec \<Rightarrow> 's outcome" where
  "step_s_message_done E ch x =
     complete_message E x (\<lambda>x1. if hp_upgrade (x_parser x1) then RETURN (x_p x1 + 1) x1 else Break x1)"

abbreviation chunked :: "'s exec \<Rightarrow> bool" where
  "chunked x \<equiv> has_flag (hp_flags (x_parser x)) F_CHUNKED"

definition step_s_chunk_size_start :: "char \<Rightarrow> 's exec \<Rightarrow> 's outcome" where
  "step_s_chunk_size_start ch x =
     ASSERT (x_nread x = 1) (ASSERT (chunked x)
       (if unhex_at ch = - 1 then goto_error HPE_INVALID_CHUNK_SIZE x
        else Break (UPDATE_STATE s_chunk_size
               (upd_parser (\<lambda>ps. ps\<lparr>hp_content_length := of_int (unhex_at ch)\<rparr>) x))))"

definition step_s_chunk_size :: "char \<Rightarrow> 's exec \<Rightarrow> 's outcome" where
  "step_s_chunk_size ch x =
     ASSERT (chunked x)
       (if ch = CR then Break (UPDATE_STATE s_chunk_size_almost_done x)
        else if unhex_at ch = - 1 then
          (if ch = CHR '';'' \<or> ch = SP then Break (UPDATE_STATE s_chunk_parameters x)
           else goto_error HPE_INVALID_CHUNK_SIZE x)
        else
          let cl = hp_content_length (x_parser x);
              t = cl * 16 + of_int (unhex_at ch)
          in if (ULLONG_MAX - 16) div 16 < cl then goto_error HPE_INVALID_CONTENT_LENGTH x
             else Break (upd_parser (\<lambda>ps. ps\<lparr>hp_content_length := t\<rparr>) x))"

definition step_s_chunk_parameters :: "char \<Rightarrow> 's exec \<Rightarrow> 's outcome" where
  "step_s_chunk_parameters ch x =
     ASSERT (chunked x)
       (if ch = CR then Break (UPDATE_STATE s_chunk_size_almost_done x) else Break x)"

definition step_s_chunk_size_almost_done :: "'s env \<Rightarrow> char \<Rightarrow> 's exec \<Rightarrow> 's outcome" where
  "step_s_chunk_size_almost_done E ch x =
     ASSERT (chunked x) (STRICT_CHECK (ch \<noteq> LF) x
       (let x1 = reset_nread x;
            x2 = (if hp_content_length (x_parser x1) = 0 then
                    UPDATE_STATE s_header_field_start
                      (upd_parser (\<lambda>ps. ps\<lparr>hp_flags := hp_flags ps OR F_TRAILING\<rparr>) x1)
                  else UPDATE_STATE s_chunk_data x1)
        in CALLBACK_NOTIFY (on_chunk_header (e_settings E)) HPE_CB_chunk_header (x_p x2 + 1) x2 Break))"

definition step_s_chunk_data :: "'s env \<Rightarrow> char \<Rightarrow> 's exec \<Rightarrow> 's outcome" where
  "step_s_chunk_data E ch x =
     ASSERT (chunked x) (read_body E x (\<lambda>x1.
       if hp_content_length (x_parser x1) = 0 then Break (UPDATE_STATE s_chunk_data_almost_done x1)
       else Break x1))"

definition step_s_chunk_data_almost_done :: "'s env \<Rightarrow> char \<Rightarrow> 's exec \<Rightarrow> 's outcome" where
  "step_s_chunk_data_almost_done E ch x =
     ASSERT (chunked x) (ASSERT (hp_content_length (x_parser x) = 0) (STRICT_CHECK (ch \<noteq> CR) x
       (data_body E (x_p x) (x_p x + 1) (UPDATE_STATE s_chunk_data_done x) Break)))"

definition step_s_chunk_data_done :: "'s env \<Rightarrow> char \<Rightarrow> 's exec \<Rightarrow> 's outcome" where
  "step_s_chunk_data_done E ch x =
     ASSERT (chunked x) (STRICT_CHECK (ch \<noteq> LF) x
       (CALLBACK_NOTIFY (on_chunk_complete (e_settings E)) HPE_CB_chunk_complete (x_p x + 1)
          (UPDATE_STATE s_chunk_size_start (reset_nread x)) Break))"

section \<open>The switch\<close>

primrec step_at :: "state \<Rightarrow> 's env \<Rightarrow> char \<Rightarrow> 's exec \<Rightarrow> 's outcome" where
  "step_at s_dead E ch x = step_s_dead E ch x"
| "step_at s_start_req_or_res E ch x = step_s_start_req_or_res E ch x"
| "step_at s_res_or_resp_H E ch x = step_s_res_or_resp_H E ch x"
| "step_at s_start_res E ch x = step_s_start_res E ch x"
| "step_at s_res_H E ch x = expect_char CHR ''T'' s_res_HT ch x"
| "step_at s_res_HT E ch x = expect_char CHR ''T'' s_res_HTT ch x"
| "step_at s_res_HTT E ch x = expect_char CHR ''P'' s_res_HTTP ch x"
| "step_at s_res_HTTP E ch x = expect_char CHR ''/'' s_res_http_major ch x"
| "step_at s_res_http_major E ch x = step_http_major s_res_http_dot ch x"
| "step_at s_res_http_dot E ch x = step_http_dot s_res_http_minor ch x"
| "step_at s_res_http_minor E ch x = step_http_minor s_res_http_end ch x"
| "step_at s_res_http_end E ch x = step_s_res_http_end ch x"
| "step_at s_res_first_status_code E ch x = step_s_res_first_status_code ch x"
| "step_at s_res_status_code E ch x = step_s_res_status_code ch x"
| "step_at s_res_status_start E ch x = step_s_res_status_start ch x"
| "step_at s_res_status E ch x = step_s_res_status E ch x"
| "step_at s_res_line_almost_done E ch x = expect_char LF s_header_field_start ch x"
| "step_at s_start_req E ch x = step_s_start_req E ch x"
| "step_at s_req_method E ch x = step_s_req_method ch x"
| "step_at s_req_spaces_before_url E ch x = step_s_req_spaces_before_url ch x"
| "step_at s_req_schema E ch x = step_url_no_space ch x"
| "step_at s_req_schema_slash E ch x = step_url_no_space ch x"
| "step_at s_req_schema_slash_slash E ch x = step_url_no_space ch x"
| "step_at s_req_server_start E ch x = step_url_no_space ch x"
| "step_at s_req_server E ch x = step_url_rest E ch x"
| "step_at s_req_server_with_at E ch x = step_url_rest E ch x"
| "step_at s_req_path E ch x = step_url_rest E ch x"
| "step_at s_req_query_string_start E ch x = step_url_rest E ch x"
| "step_at s_req_query_string E ch x = step_url_rest E ch x"
| "step_at s_req_fragment_start E ch x = step_url_rest E ch x"
| "step_at s_req_fragment E ch x = step_url_rest E ch x"
| "step_at s_req_http_start E ch x = step_s_req_http_start ch x"
| "step_at s_req_http_H E ch x = expect_char CHR ''T'' s_req_http_HT ch x"
| "step_at s_req_http_HT E ch x = expect_char CHR ''T'' s_req_http_HTT ch x"
| "step_at s_req_http_HTT E ch x = expect_char CHR ''P'' s_req_http_HTTP ch x"
| "step_at s_req_http_HTTP E ch x = expect_char CHR ''/'' s_req_http_major ch x"
| "step_at s_req_http_I E ch x = expect_char CHR ''C'' s_req_http_IC ch x"
| "step_at s_req_http_IC E ch x = expect_char CHR ''E'' s_req_http_HTTP ch x"
| "step_at s_req_http_major E ch x = step_http_major s_req_http_dot ch x"
| "step_at s_req_http_dot E ch x = step_http_dot s_req_http_minor ch x"
| "step_at s_req_http_minor E ch x = step_http_minor s_req_http_end ch x"
| "step_at s_req_http_end E ch x = step_s_req_http_end ch x"
| "step_at s_req_line_almost_done E ch x = step_s_req_line_almost_done ch x"
| "step_at s_header_field_start E ch x = step_s_header_field_start ch x"
| "step_at s_header_field E ch x = step_s_header_field E ch x"
| "step_at s_header_value_discard_ws E ch x = step_s_header_value_discard_ws ch x"
| "step_at s_header_value_discard_ws_almost_done E ch x = expect_char LF s_header_value_discard_lws ch x"
| "step_at s_header_value_discard_lws E ch x = step_s_header_value_discard_lws E ch x"
| "step_at s_header_value_start E ch x = step_s_header_value_start ch x"
| "step_at s_header_value E ch x = step_s_header_value E ch x"
| "step_at s_header_value_lws E ch x = step_s_header_value_lws ch x"
| "step_at s_header_almost_done E ch x = step_s_header_almost_done ch x"
| "step_at s_chunk_size_start E ch x = step_s_chunk_size_start ch x"
| "step_at s_chunk_size E ch x = step_s_chunk_size ch x"
| "step_at s_chunk_parameters E ch x = step_s_chunk_parameters ch x"
| "step_at s_chunk_size_almost_done E ch x = step_s_chunk_size_almost_done E ch x"
| "step_at s_headers_almost_done E ch x = step_s_headers_almost_done E ch x"
| "step_at s_headers_done E ch x = step_s_headers_done E ch x"
| "step_at s_chunk_data E ch x = step_s_chunk_data E ch x"
| "step_at s_chunk_data_almost_done E ch x = step_s_chunk_data_almost_done E ch x"
| "step_at s_chunk_data_done E ch x = step_s_chunk_data_done E ch x"
| "step_at s_body_identity E ch x = step_s_body_identity E ch x"
| "step_at s_body_identity_eof E ch x = step_s_body_identity_eof E ch x"
| "step_at s_message_done E ch x = step_s_message_done E ch x"

definition step :: "'s env \<Rightarrow> char \<Rightarrow> 's exec \<Rightarrow> 's outcome" where
  "step E ch x = step_at (x_state x) E ch x"

lemmas small_step_defs = step_s_dead_def notify_message_begin_def begin_message_def
  step_s_start_req_or_res_def step_s_res_or_resp_H_def step_s_start_res_def expect_char_def
  step_http_major_def step_http_dot_def step_http_minor_def step_s_res_http_end_def
  step_s_res_first_status_code_def step_s_res_status_code_def step_s_res_status_start_def
  step_s_res_status_def step_s_start_req_def step_s_req_method_def url_char_def
  step_s_req_spaces_before_url_def step_url_no_space_def step_url_rest_def step_s_req_http_start_def
  step_s_req_http_end_def step_s_req_line_almost_done_def step_s_header_field_start_def
  step_s_header_value_discard_ws_def step_s_header_value_start_def step_s_header_almost_done_def
  finish_header_def step_s_header_value_lws_def step_s_header_value_discard_lws_def

lemmas body_step_defs = notify_message_complete_def call_headers_complete_def
  step_s_headers_almost_done_def reset_nread_def complete_message_def step_s_headers_done_def
  step_s_body_identity_def step_s_body_identity_eof_def step_s_message_done_def
  step_s_chunk_size_start_def step_s_chunk_size_def step_s_chunk_parameters_def
  step_s_chunk_size_almost_done_def step_s_chunk_data_def step_s_chunk_data_almost_done_def
  step_s_chunk_data_done_def

section \<open>Rules for outcomes\<close>

text \<open>
  \<open>post Q out\<close> is \<open>Q out\<close>; the rules below take a predicate on outcomes backwards through the macros, with
  the result of a callback left open, so that a fact about a case of the switch is proved from its text.
\<close>

definition post :: "('s outcome \<Rightarrow> bool) \<Rightarrow> 's outcome \<Rightarrow> bool" where
  "post Q out = Q out"

text \<open>What a callback leaves: \<open>parser->state\<close> written, a new settings object.\<close>

definition called :: "'s exec \<Rightarrow> 's \<Rightarrow> 's exec" where
  "called x s = x\<lparr>x_parser := (x_parser x)\<lparr>hp_state := x_state x\<rparr>, x_settings := s\<rparr>"

lemma post_ASSERT: "(b \<Longrightarrow> post Q k) \<Longrightarrow> (\<not> b \<Longrightarrow> Q (Fault ''assert'')) \<Longrightarrow> post Q (ASSERT b k)"
  by (simp add: post_def ASSERT_def)

lemma post_STRICT_CHECK:
  "(\<not> c \<Longrightarrow> post Q k) \<Longrightarrow> (c \<Longrightarrow> Q (Error (SET_ERRNO HPE_STRICT x))) \<Longrightarrow> post Q (STRICT_CHECK c x k)"
  by (simp add: post_def STRICT_CHECK_def goto_error_def)

lemma post_CALLBACK_NOTIFY:
  assumes "hp_http_errno (x_parser x) \<noteq> HPE_OK \<Longrightarrow> Q (Fault ''assert'')"
    and "\<And>s. Q (Return er (SET_ERRNO e (called x s)))" and "\<And>s. post Q (k (called x s))"
  shows "post Q (CALLBACK_NOTIFY cb e er x k)"
  using assms unfolding CALLBACK_NOTIFY_def ASSERT_def post_def called_def upd_parser_def Let_def
  by simp

lemma post_CALLBACK_DATA:
  assumes "hp_http_errno (x_parser x) \<noteq> HPE_OK \<Longrightarrow> Q (Fault ''assert'')"
    and "\<And>q. m = Some q \<Longrightarrow> stop < q \<or> length data < stop \<Longrightarrow> Q (Fault ''slice'')"
    and "\<And>s. Q (Return er (SET_ERRNO e (called x s)))"
    and "m = None \<Longrightarrow> post Q (k x)"
    and "\<And>q s. m = Some q \<Longrightarrow> q \<le> stop \<Longrightarrow> stop \<le> length data \<Longrightarrow> post Q (k (clear (called x s)))"
  shows "post Q (CALLBACK_DATA data m clear cb e stop er x k)"
proof (cases m)
  case None
  with assms(1,4) show ?thesis by (simp add: CALLBACK_DATA_def ASSERT_def post_def)
next
  case (Some q)
  with assms(1-3) assms(5) [OF Some] show ?thesis
    unfolding CALLBACK_DATA_def ASSERT_def post_def called_def upd_parser_def Let_def
    by (simp add: not_less)
qed

lemma post_COUNT_HEADER_SIZE:
  assumes "\<And>n. n \<le> e_max_header_size E \<Longrightarrow> n = x_nread x + of_nat v \<Longrightarrow> post Q (k (x\<lparr>x_nread := n\<rparr>))"
    and "\<And>n. Q (Error (SET_ERRNO HPE_HEADER_OVERFLOW (x\<lparr>x_nread := n\<rparr>)))"
  shows "post Q (COUNT_HEADER_SIZE E v x k)"
  using assms(1) [OF _ refl] assms(2)
  by (simp add: COUNT_HEADER_SIZE_def post_def goto_error_def not_less Let_def)

lemma post_outcome [simp]:
  "post Q (Break x) = Q (Break x)" "post Q (Reexecute ch x) = Q (Reexecute ch x)"
  "post Q (Error x) = Q (Error x)" "post Q (Return n x) = Q (Return n x)" "post Q (Fault w) = Q (Fault w)"
  "post Q (goto_error e x) = Q (Error (SET_ERRNO e x))"
  by (simp_all add: post_def goto_error_def)

lemmas post_data = data_header_field_def data_header_value_def data_url_def data_body_def data_status_def

lemmas post_intros = post_ASSERT post_STRICT_CHECK post_CALLBACK_NOTIFY post_CALLBACK_DATA
  post_COUNT_HEADER_SIZE

lemmas simple_defs = upd_parser_def UPDATE_STATE_def MARK_header_field_def
  MARK_header_value_def MARK_url_def MARK_body_def MARK_status_def called_def

section \<open>\<open>goto reexecute\<close> ends\<close>

text \<open>
  A rank on the states that \<open>goto reexecute\<close> lowers, so a byte is looked at finitely often; and no pass
  that ends in \<open>break\<close> moves the read position back. Both are needed to define the loops.
\<close>

fun state_rank :: "state \<Rightarrow> nat" where
  "state_rank s_header_value_lws = 4"
| "state_rank s_header_value_discard_lws = 4"
| "state_rank s_header_field_start = 3"
| "state_rank s_headers_almost_done = 2"
| "state_rank s_res_status_code = 2"
| "state_rank s_headers_done = 1"
| "state_rank s_body_identity = 1"
| "state_rank s_start_req_or_res = 1"
| "state_rank s_res_status_start = 1"
| "state_rank s_header_value = 1"
| "state_rank _ = 0"

definition progress :: "'s env \<Rightarrow> 's exec \<Rightarrow> 's outcome \<Rightarrow> bool" where
  "progress E x out =
     (case out of
        Break x' \<Rightarrow> (x_p x < length (e_data E) \<longrightarrow> x_p x \<le> x_p x')
      | Reexecute ch x' \<Rightarrow> state_rank (x_state x') < state_rank (x_state x) \<and>
          (x_p x < length (e_data E) \<longrightarrow> x_p x \<le> x_p x' \<and> x_p x' < length (e_data E))
      | _ \<Rightarrow> True)"

lemma progress_simps [simp]:
  "progress E x (Break x') = (x_p x < length (e_data E) \<longrightarrow> x_p x \<le> x_p x')"
  "progress E x (Reexecute ch x') = (state_rank (x_state x') < state_rank (x_state x) \<and>
          (x_p x < length (e_data E) \<longrightarrow> x_p x \<le> x_p x' \<and> x_p x' < length (e_data E)))"
  "progress E x (Error x')" "progress E x (Return n x')" "progress E x (Fault w)"
  by (simp_all add: progress_def)

lemma post_RETURN_progress [simp]: "post (progress E x) (RETURN n x')"
  by (simp add: RETURN_def)

lemma post_if: "(b \<Longrightarrow> post Q k) \<Longrightarrow> (\<not> b \<Longrightarrow> post Q l) \<Longrightarrow> post Q (if b then k else l)"
  by simp

lemma small_progress:
  "x_state x \<notin> {s_header_field, s_header_value, s_header_value_start, s_header_value_discard_ws,
     s_headers_almost_done, s_headers_done, s_chunk_size_start, s_chunk_size, s_chunk_parameters,
     s_chunk_size_almost_done, s_chunk_data, s_chunk_data_almost_done, s_chunk_data_done,
     s_body_identity, s_body_identity_eof, s_message_done} \<Longrightarrow> post (progress E x) (step E ch x)"
  by (cases "x_state x")
     (simp_all add: step_def small_step_defs post_data simple_defs Let_def option.case_eq_if post_intros
       post_if cong: if_cong)

lemma value_start_progress: "x_state x = s \<Longrightarrow> post (progress E x) (step_s_header_value_start ch x)"
  by (simp add: step_s_header_value_start_def simple_defs Let_def split: header_states.split)


lemma post_read_body:
  assumes "\<And>n. hp_content_length (x_parser x) \<noteq> 0 \<Longrightarrow> hp_content_length (x_parser x) \<noteq> ULLONG_MAX \<Longrightarrow>
      n \<le> unat (hp_content_length (x_parser x)) \<Longrightarrow>
      (x_p x < length (e_data E) \<Longrightarrow> 0 < n \<and> x_p x + n \<le> length (e_data E)) \<Longrightarrow>
      (n < unat (hp_content_length (x_parser x)) \<Longrightarrow> n = length (e_data E) - x_p x) \<Longrightarrow>
      post Q (k (read_bytes n x))"
    and "hp_content_length (x_parser x) = 0 \<or> hp_content_length (x_parser x) = ULLONG_MAX \<Longrightarrow> Q (Fault ''assert'')"
  shows "post Q (read_body E x k)"
  unfolding read_body_def Let_def
  by (rule post_ASSERT; rule assms) (auto simp: unat_gt_0)

lemma body_progress:
  "x_state x \<in> {s_headers_almost_done, s_headers_done, s_chunk_size_start, s_chunk_size, s_chunk_parameters,
     s_chunk_size_almost_done, s_chunk_data, s_chunk_data_almost_done, s_chunk_data_done,
     s_body_identity, s_body_identity_eof, s_message_done} \<Longrightarrow> post (progress E x) (step E ch x)"
  by (cases "x_state x"; simp;
      simp add: step_def body_step_defs post_data simple_defs Let_def option.case_eq_if post_intros
        post_if SET_ERRNO_def cong: if_cong)
     (auto intro!: post_ASSERT post_read_body post_CALLBACK_DATA post_if simp: read_bytes_def simple_defs)
lemma field_scan_bound: "p < length data \<Longrightarrow> field_scan data (p + min (length data - p) mx) p < length data"
  using field_scan_less [of p "p + min (length data - p) mx" data] field_scan.simps [of data p p]
  by (cases "mx = 0") auto

lemma header_field_loop_range:
  "header_field_loop data mx p ps = Some (q, ps') \<Longrightarrow> p \<le> length data \<Longrightarrow> p \<le> q \<and> q \<le> length data"
proof (induction data mx p ps rule: header_field_loop.induct)
  case (1 data mx p ps)
  note IH = 1(1) [OF _ refl refl] 1(2) [OF _ refl refl]
  show ?case
    using IH 1(4) 1(3) [unfolded header_field_loop.simps [of data mx p ps]] field_scan_bound [of p data mx] field_scan_ge [of p data "p + min (length data - p) mx"]
    by (auto simp: Let_def split: if_splits option.splits)
qed

lemma header_field_progress: "post (progress E x) (step_s_header_field E ch x)"
  using header_field_loop_range [of "e_data E" "unat (e_max_header_size E)" "x_p x" "x_parser x"]
  unfolding step_s_header_field_def Let_def post_data
  by (auto simp: simple_defs split: option.split
     intro!: post_COUNT_HEADER_SIZE post_CALLBACK_DATA)

lemma header_value_end_progress:
  "x_p x0 \<le> x_p x \<Longrightarrow> post (progress E x0) (header_value_end E start h x)"
  by (auto simp: header_value_end_def Let_def simple_defs intro!: post_COUNT_HEADER_SIZE)

lemma header_value_stop_progress:
  assumes "x_p x0 \<le> x_p x" "x_p x < length (e_data E)"
  shows "post (progress E x0) (header_value_cr E start h x)"
    and "x_state x0 = s_header_value \<Longrightarrow> post (progress E x0) (header_value_lf E start h x)"
  using assms
  by (auto simp: header_value_cr_def header_value_lf_def post_data simple_defs
     intro!: post_COUNT_HEADER_SIZE post_CALLBACK_DATA header_value_end_progress)

lemma header_value_progress:
  "x_p x0 \<le> x_p x \<Longrightarrow> x_state x0 = s_header_value \<Longrightarrow>
    post (progress E x0) (header_value_loop E start h x)"
proof (induction E start h x rule: header_value_loop.induct)
  case (1 E start h x)
  note IH = 1(1) [OF _ refl] 1(2) [OF _ refl]
  show ?case
    using IH 1(3,4) value_general_range [of x E]
    by (subst header_value_loop.simps) (auto simp: Let_def header_value_end_progress header_value_stop_progress
          split: sum.splits value_result.split)
qed
lemma step_progress: "post (progress E x) (step E ch x)"
proof -
  consider "x_state x = s_header_field" | "x_state x = s_header_value" | "x_state x = s_header_value_start"
    | "x_state x = s_header_value_discard_ws"
    | "x_state x \<in> {s_headers_almost_done, s_headers_done, s_chunk_size_start, s_chunk_size,
        s_chunk_parameters, s_chunk_size_almost_done, s_chunk_data, s_chunk_data_almost_done,
        s_chunk_data_done, s_body_identity, s_body_identity_eof, s_message_done}"
    | "x_state x \<notin> {s_header_field, s_header_value, s_header_value_start, s_header_value_discard_ws,
        s_headers_almost_done, s_headers_done, s_chunk_size_start, s_chunk_size, s_chunk_parameters,
        s_chunk_size_almost_done, s_chunk_data, s_chunk_data_almost_done, s_chunk_data_done,
        s_body_identity, s_body_identity_eof, s_message_done}"
    by blast
  then show ?thesis
  proof cases
    case 1 then show ?thesis by (simp add: step_def header_field_progress)
  next
    case 2 then show ?thesis by (simp add: step_def step_s_header_value_def header_value_progress)
  next
    case 3 then show ?thesis by (simp add: step_def value_start_progress)
  next
    case 4 then show ?thesis
      by (simp add: step_def step_s_header_value_discard_ws_def value_start_progress post_if simple_defs)
  qed (fact body_progress small_progress)+
qed

lemma step_Reexecute_rank:
  "step E ch x = Reexecute ch' x' \<Longrightarrow> state_rank (x_state x') < state_rank (x_state x)"
  using step_progress [of E x ch] by simp

section \<open>\<open>http_parser_execute\<close>\<close>

text \<open>What happens at one byte: \<open>step\<close> until it does not say \<open>Reexecute\<close>.\<close>

function reexec :: "'s env \<Rightarrow> char \<Rightarrow> 's exec \<Rightarrow> 's outcome" where
  "reexec E ch x = (case step E ch x of Reexecute ch' x' \<Rightarrow> reexec E ch' x' | out \<Rightarrow> out)"
  by pat_completeness auto
termination
  by (relation "measure (\<lambda>(E, ch, x). state_rank (x_state x))") (auto dest: step_Reexecute_rank)

declare reexec.simps [simp del]

text \<open>The body of the \<open>for\<close> loop.\<close>

definition byte_step :: "'s env \<Rightarrow> 's exec \<Rightarrow> 's outcome" where
  "byte_step E x =
     (let ch = e_data E ! x_p x
      in if PARSING_HEADER (x_state x) then COUNT_HEADER_SIZE E 1 x (reexec E ch) else reexec E ch x)"

lemma reexec_p:
  "x_p x < length (e_data E) \<Longrightarrow> reexec E ch x = Break x' \<Longrightarrow> x_p x \<le> x_p x'"
proof (induction E ch x rule: reexec.induct)
  case (1 E ch x)
  then show ?case
    using step_progress [of E x ch] 1(3) [unfolded reexec.simps [of E ch x]]
    by (cases "step E ch x") (auto intro: le_trans)
qed

lemma byte_step_p:
  "x_p x < length (e_data E) \<Longrightarrow> byte_step E x = Break x' \<Longrightarrow> x_p x \<le> x_p x'"
  using reexec_p [of x E] reexec_p [of "x\<lparr>x_nread := x_nread x + 1\<rparr>" E]
  by (auto simp: byte_step_def Let_def COUNT_HEADER_SIZE_def goto_error_def split: if_splits)

text \<open>
  The \<open>for\<close> loop: \<^const>\<open>Break\<close> when it ran to the end of the buffer. A read position behind the end, which
  \<open>p != data + len\<close> would not notice, is a fault.
\<close>

function exec_loop :: "'s env \<Rightarrow> 's exec \<Rightarrow> 's outcome" where
  "exec_loop E x =
     (if x_p x < length (e_data E) then
        (case byte_step E x of
           Break x' \<Rightarrow> exec_loop E (x'\<lparr>x_p := x_p x' + 1\<rparr>)
         | out \<Rightarrow> out)
      else if x_p x = length (e_data E) then Break x
      else Fault ''overrun'')"
  by pat_completeness auto
termination
  by (relation "measure (\<lambda>(E, x). length (e_data E) - x_p x)")
     (auto intro: diff_less_mono2 le_imp_less_Suc byte_step_p)

declare exec_loop.simps [simp del]

abbreviation marks :: "'s exec \<Rightarrow> nat option list" where
  "marks x \<equiv> [x_header_field_mark x, x_header_value_mark x, x_url_mark x, x_body_mark x, x_status_mark x]"

text \<open>After the loop: the callbacks for the marks left.\<close>

definition leftover_callbacks :: "'s env \<Rightarrow> 's exec \<Rightarrow> 's outcome" where
  "leftover_callbacks E x =
     (let n = length (e_data E)
      in ASSERT (length (filter (\<lambda>m. m \<noteq> None) (marks x)) \<le> 1)
           (data_header_field E n n x (\<lambda>x. data_header_value E n n x (\<lambda>x. data_url E n n x
             (\<lambda>x. data_body E n n x (\<lambda>x. data_status E n n x (\<lambda>x. RETURN n x)))))))"

definition url_states :: "state list" where
  "url_states = [s_req_path, s_req_schema, s_req_schema_slash, s_req_schema_slash_slash, s_req_server_start,
     s_req_server, s_req_server_with_at, s_req_query_string_start, s_req_query_string,
     s_req_fragment_start, s_req_fragment]"

text \<open>The local variables after the initialisations of the function.\<close>

definition initial_exec :: "http_parser \<Rightarrow> 's \<Rightarrow> 's exec" where
  "initial_exec ps s =
     \<lparr>x_parser = ps, x_p = 0, x_state = hp_state ps, x_nread = hp_nread ps,
      x_header_field_mark = (if hp_state ps = s_header_field then Some 0 else None),
      x_header_value_mark = (if hp_state ps = s_header_value then Some 0 else None),
      x_url_mark = (if hp_state ps \<in> set url_states then Some 0 else None),
      x_body_mark = None,
      x_status_mark = (if hp_state ps = s_res_status then Some 0 else None),
      x_settings = s\<rparr>"

text \<open>The end of the stream, \<open>len == 0\<close>.\<close>

definition execute_eof :: "'s env \<Rightarrow> 's exec \<Rightarrow> 's outcome" where
  "execute_eof E x =
     (if x_state x = s_body_identity_eof then notify_message_complete E (x_p x) x (Return 0)
      else if x_state x \<in> {s_dead, s_start_req_or_res, s_start_res, s_start_req} then Return 0 x
      else Return 1 (SET_ERRNO HPE_INVALID_EOF_STATE x))"

text \<open>The label \<open>error\<close> and the returned value with the objects the caller sees.\<close>

definition conclude :: "'s outcome \<Rightarrow> string + nat \<times> http_parser \<times> 's" where
  "conclude out =
     (let seen = (\<lambda>x. (x_parser x, x_settings x))
      in case out of
           Return n x \<Rightarrow> Inr (n, seen x)
         | Error x \<Rightarrow>
             (let x1 = (if hp_http_errno (x_parser x) = HPE_OK then SET_ERRNO HPE_UNKNOWN x else x)
              in Inr (x_p x1, seen (upd_parser (\<lambda>ps. ps\<lparr>hp_nread := x_nread x1, hp_state := x_state x1\<rparr>) x1)))
         | Fault w \<Rightarrow> Inl w
         | _ \<Rightarrow> Inl ''fell out of the switch'')"

definition execute :: "'s env \<Rightarrow> http_parser \<Rightarrow> 's \<Rightarrow> 's outcome" where
  "execute E ps s =
     (let x = initial_exec ps s
      in if hp_http_errno ps \<noteq> HPE_OK then Return 0 x
         else if e_data E = [] then execute_eof E x
         else case exec_loop E x of Break x' \<Rightarrow> leftover_callbacks E x' | out \<Rightarrow> out)"

definition http_parser_execute :: "'s env \<Rightarrow> http_parser \<Rightarrow> 's \<Rightarrow> string + nat \<times> http_parser \<times> 's" where
  "http_parser_execute E ps s = conclude (execute E ps s)"

end
