(* ===== verification/Http11ParserSafety.thy ===== *)
theory Http11ParserSafety
  imports Http11Parser
begin

text \<open>
  Safety of \<open>http_parser_execute\<close>. The invariant \<open>exec_ok\<close> ties the fields of the parser and the five marks
  to the state: the index is inside the method string, the header state fits the loop it is used in, a chunk
  state has \<open>F_CHUNKED\<close>, the remaining length is neither 0 nor \<open>ULLONG_MAX\<close> where the code asserts that, a
  mark is set in its own states only and is not behind the read position. \<open>step_safe\<close> goes through the cases
  of the switch; \<open>execute_safe\<close> is the result for a call: no assertion fails, no slice or table access is out
  of range, the returned count is at most the length of the buffer, and without an error the whole buffer has
  been read unless the protocol is upgraded.
\<close>

section \<open>The invariant\<close>

fun field_header_state :: "header_states \<Rightarrow> bool" where
  "field_header_state h_general = True"
| "field_header_state h_C = True"
| "field_header_state h_CO = True"
| "field_header_state h_CON = True"
| "field_header_state h_matching_connection = True"
| "field_header_state h_matching_proxy_connection = True"
| "field_header_state h_matching_content_length = True"
| "field_header_state h_matching_transfer_encoding = True"
| "field_header_state h_matching_upgrade = True"
| "field_header_state h_connection = True"
| "field_header_state h_content_length = True"
| "field_header_state h_transfer_encoding = True"
| "field_header_state h_upgrade = True"
| "field_header_state _ = False"

definition value_header_state :: "header_states \<Rightarrow> bool" where
  "value_header_state h \<longleftrightarrow> h \<noteq> h_connection \<and> h \<noteq> h_transfer_encoding"

definition chunk_states :: "state list" where
  "chunk_states = [s_chunk_size_start, s_chunk_size, s_chunk_parameters, s_chunk_size_almost_done,
     s_chunk_data, s_chunk_data_almost_done, s_chunk_data_done]"

definition state_ok :: "state \<Rightarrow> u32 \<Rightarrow> u32 \<Rightarrow> http_parser \<Rightarrow> bool" where
  "state_ok s k nread ps \<longleftrightarrow>
     (s = s_req_method \<longrightarrow> hp_index ps \<le> length (method_strings (hp_method ps))) \<and>
     (s = s_header_field \<longrightarrow> field_header_state (hp_header_state ps)) \<and>
     (s = s_header_value \<longrightarrow> value_header_state (hp_header_state ps)) \<and>
     (s \<in> set chunk_states \<longrightarrow> has_flag (hp_flags ps) F_CHUNKED) \<and>
     (s = s_chunk_size_start \<longrightarrow> nread = k) \<and>
     (s \<in> {s_body_identity, s_chunk_data} \<longrightarrow> hp_content_length ps \<noteq> 0 \<and> hp_content_length ps \<noteq> ULLONG_MAX) \<and>
     (s \<in> {s_chunk_size, s_chunk_parameters, s_chunk_size_almost_done} \<longrightarrow> hp_content_length ps \<noteq> ULLONG_MAX) \<and>
     (s = s_chunk_data_almost_done \<longrightarrow> hp_content_length ps = 0)"

definition body_states :: "state list" where
  "body_states = [s_body_identity, s_body_identity_eof, s_chunk_data, s_chunk_data_almost_done]"

definition mark_ok :: "bool \<Rightarrow> nat \<Rightarrow> nat option \<Rightarrow> bool" where
  "mark_ok b p m \<longleftrightarrow> (\<forall>q. m = Some q \<longrightarrow> b \<and> q \<le> p)"

lemma mark_ok_simps [simp]: "mark_ok b p None" "mark_ok b p (Some q) \<longleftrightarrow> b \<and> q \<le> p"
  by (simp_all add: mark_ok_def)

definition marks_ok :: "'s exec \<Rightarrow> bool" where
  "marks_ok x \<longleftrightarrow>
     mark_ok (x_state x = s_header_field) (x_p x) (x_header_field_mark x) \<and>
     mark_ok (x_state x = s_header_value) (x_p x) (x_header_value_mark x) \<and>
     mark_ok (x_state x \<in> set url_states) (x_p x) (x_url_mark x) \<and>
     mark_ok (x_state x \<in> set body_states) (x_p x) (x_body_mark x) \<and>
     mark_ok (x_state x = s_res_status) (x_p x) (x_status_mark x)"

definition exec_ok :: "u32 \<Rightarrow> 's exec \<Rightarrow> bool" where
  "exec_ok k x \<longleftrightarrow> hp_http_errno (x_parser x) = HPE_OK \<and> state_ok (x_state x) k (x_nread x) (x_parser x) \<and> marks_ok x"

definition parser_ok :: "http_parser \<Rightarrow> bool" where
  "parser_ok ps \<longleftrightarrow> (hp_http_errno ps = HPE_OK \<longrightarrow> state_ok (hp_state ps) 0 (hp_nread ps) ps)"

definition safe :: "'s env \<Rightarrow> 's outcome \<Rightarrow> bool" where
  "safe E out =
     (case out of
        Break x \<Rightarrow> x_p x < length (e_data E) \<and> exec_ok 0 x
      | Reexecute ch x \<Rightarrow> x_p x < length (e_data E) \<and> exec_ok 1 x
      | Error x \<Rightarrow> x_p x < length (e_data E) \<and> hp_http_errno (x_parser x) \<noteq> HPE_OK
      | Return n x \<Rightarrow> n \<le> length (e_data E) \<and> parser_ok (x_parser x) \<and>
          (hp_http_errno (x_parser x) = HPE_OK \<longrightarrow> hp_upgrade (x_parser x))
      | Fault w \<Rightarrow> False)"

lemma safe_simps [simp]:
  "safe E (Break x) = (x_p x < length (e_data E) \<and> exec_ok 0 x)"
  "safe E (Reexecute ch x) = (x_p x < length (e_data E) \<and> exec_ok 1 x)"
  "safe E (Error x) = (x_p x < length (e_data E) \<and> hp_http_errno (x_parser x) \<noteq> HPE_OK)"
  "safe E (Return n x) = (n \<le> length (e_data E) \<and> parser_ok (x_parser x) \<and>
     (hp_http_errno (x_parser x) = HPE_OK \<longrightarrow> hp_upgrade (x_parser x)))"
  "\<not> safe E (Fault w)"
  by (simp_all add: safe_def)

lemma SET_ERRNO_simps [simp]:
  "x_p (SET_ERRNO e x) = x_p x" "hp_http_errno (x_parser (SET_ERRNO e x)) = e"
  by (simp_all add: SET_ERRNO_def upd_parser_def)

lemma parser_ok_error [simp]: "hp_http_errno ps \<noteq> HPE_OK \<Longrightarrow> parser_ok ps"
  by (simp add: parser_ok_def)

lemma parser_ok_upd:
  "hp_http_errno ps = HPE_OK \<Longrightarrow> parser_ok ps \<longleftrightarrow> state_ok (hp_state ps) 0 (hp_nread ps) ps"
  by (simp add: parser_ok_def)

lemmas inv_defs = exec_ok_def state_ok_def marks_ok_def

lemma mark_or_simps [simp]: "mark_or None p = Some p" "mark_or (Some q) p = Some q"
  by (simp_all add: mark_or_def)

lemma mark_ok_mark_or [simp]: "mark_ok b p (mark_or m p) \<longleftrightarrow> b \<and> (m = None \<or> mark_ok b p m)"
  by (cases m) auto

lemmas state_sets = url_states_def body_states_def chunk_states_def

lemma mark_ok_False [simp]: "mark_ok False p m \<longleftrightarrow> m = None"
  by (cases m) auto


lemma first_header_state_field [simp]: "field_header_state (first_header_state c)"
  by (simp add: first_header_state_def)

lemma parse_url_char_cases: "parse_url_char s ch = s_dead \<or> parse_url_char s ch \<in> set url_states"
  using parse_url_char_states [of s ch] by (auto simp: url_states_def)

lemma state_ok_url: "s \<in> set url_states \<Longrightarrow> state_ok s k n ps"
  by (auto simp: state_ok_def url_states_def chunk_states_def)

lemma url_char_safe:
  assumes "hp_http_errno (x_parser x) = HPE_OK" "x_p x < length (e_data E)"
    "x_header_field_mark x = None" "x_header_value_mark x = None" "x_body_mark x = None" "x_status_mark x = None"
    "mark_ok True (x_p x) (x_url_mark x)"
  shows "post (safe E) (url_char ch x)"
  using assms parse_url_char_cases [of "x_state x" ch]
  by (auto simp: url_char_def Let_def UPDATE_STATE_def exec_ok_def marks_ok_def state_ok_url mark_ok_def)

lemma small_safe:
  "x_state x \<notin> {s_req_method, s_header_field, s_header_value, s_header_value_start, s_header_value_discard_ws,
     s_headers_almost_done, s_headers_done, s_chunk_size_start, s_chunk_size, s_chunk_parameters,
     s_chunk_size_almost_done, s_chunk_data, s_chunk_data_almost_done, s_chunk_data_done,
     s_body_identity, s_body_identity_eof, s_message_done, s_start_req, s_res_or_resp_H, s_req_spaces_before_url,
     s_res_status} \<Longrightarrow> 
   x_state x \<notin> set url_states \<Longrightarrow> 
   exec_ok 1 x \<Longrightarrow> x_p x < length (e_data E) \<Longrightarrow> post (safe E) (step E ch x)"
  by (cases "x_state x"; simp add: state_sets; 
      simp add: step_def small_step_defs post_data simple_defs Let_def post_intros inv_defs
        state_sets post_if cong: if_cong)
    (auto intro!: post_CALLBACK_DATA post_CALLBACK_NOTIFY simp: simple_defs inv_defs state_sets)

lemma status_safe:
  "x_state x = s_res_status \<Longrightarrow> exec_ok 1 x \<Longrightarrow> x_p x < length (e_data E) \<Longrightarrow> post (safe E) (step E ch x)"
  by (auto simp: step_def step_s_res_status_def post_data simple_defs inv_defs state_sets
     intro!: post_CALLBACK_DATA post_if)

lemma url_states_other:
  "s \<in> set url_states \<Longrightarrow> s \<noteq> s_header_field \<and> s \<noteq> s_header_value \<and> s \<notin> set body_states \<and> s \<noteq> s_res_status"
  by (cases s) (simp_all add: state_sets)

lemma url_safe:
  "x_state x \<in> set url_states \<Longrightarrow> exec_ok 1 x \<Longrightarrow> x_p x < length (e_data E) \<Longrightarrow> post (safe E) (step E ch x)"
proof -
  assume a: "x_state x \<in> set url_states" "exec_ok 1 x" "x_p x < length (e_data E)"
  then have m: "hp_http_errno (x_parser x) = HPE_OK"
    "x_header_field_mark x = None" "x_header_value_mark x = None" "x_body_mark x = None" "x_status_mark x = None"
    "mark_ok True (x_p x) (x_url_mark x)" 
    by (simp_all add: exec_ok_def marks_ok_def url_states_other)
  have "post (safe E) (step_url_no_space ch x)" 
    using m a(3) url_char_safe [OF m(1) a(3) m(2-6)] by (auto simp: step_url_no_space_def)
  moreover have "post (safe E) (step_url_rest E ch x)" 
    using m a(3) url_char_safe [OF m(1) a(3) m(2-6)] 
    by (auto simp: step_url_rest_def post_data simple_defs inv_defs state_sets intro!: post_CALLBACK_DATA)
  ultimately show ?thesis using a(1) by (auto simp: url_states_def step_def)
qed

lemma spaces_safe:
  "x_state x = s_req_spaces_before_url \<Longrightarrow> exec_ok 1 x \<Longrightarrow> x_p x < length (e_data E) \<Longrightarrow> post (safe E) (step E ch x)"
  by (auto simp: step_def step_s_req_spaces_before_url_def Let_def simple_defs inv_defs state_sets
     intro!: url_char_safe)

lemma first_method_nonempty: "first_method ch = Some m \<Longrightarrow> 1 \<le> length (method_strings m)"
  by (cases m) auto

lemma switch_method_length:
  "switch_method m i ch = Some m' \<Longrightarrow> i < length (method_strings m')"
  unfolding switch_method_def by (drule map_of_SomeD) auto

lemma start_req_safe:
  "x_state x = s_start_req \<Longrightarrow> exec_ok 1 x \<Longrightarrow> x_p x < length (e_data E) \<Longrightarrow> post (safe E) (step E ch x)"
  by (auto simp: step_def step_s_start_req_def notify_message_begin_def begin_message_def Let_def 
      simple_defs inv_defs state_sets split: option.split 
     intro!: post_CALLBACK_NOTIFY post_if dest: first_method_nonempty)

lemma resp_H_safe:
  "x_state x = s_res_or_resp_H \<Longrightarrow> exec_ok 1 x \<Longrightarrow> x_p x < length (e_data E) \<Longrightarrow> post (safe E) (step E ch x)"
  by (auto simp: step_def step_s_res_or_resp_H_def simple_defs inv_defs state_sets)

lemma req_method_safe:
  "x_state x = s_req_method \<Longrightarrow> exec_ok 1 x \<Longrightarrow> x_p x < length (e_data E) \<Longrightarrow> post (safe E) (step E ch x)"
  by (auto simp: step_def step_s_req_method_def cstr_at_def Let_def
      simple_defs inv_defs state_sets split: option.split intro!: Suc_leI dest: switch_method_length)


definition header_frame :: "http_parser \<Rightarrow> http_parser \<Rightarrow> bool" where
  "header_frame ps ps' \<longleftrightarrow> ps'\<lparr>hp_index := 0, hp_header_state := h_general\<rparr> = ps\<lparr>hp_index := 0, hp_header_state := h_general\<rparr>"

lemma header_frame_simps [simp]:
  "header_frame ps ps" "header_frame ps (ps\<lparr>hp_header_state := h\<rparr>)"
  "header_frame ps (ps\<lparr>hp_index := i, hp_header_state := h\<rparr>)"
  by (simp_all add: header_frame_def)

lemma header_frame_trans: "header_frame a b \<Longrightarrow> header_frame b c \<Longrightarrow> header_frame a c"
  by (simp add: header_frame_def)

lemma header_frame_errno: "header_frame ps ps' \<Longrightarrow> hp_http_errno ps' = hp_http_errno ps"
  unfolding header_frame_def by (drule arg_cong [of _ _ hp_http_errno]) simp

lemma header_field_char_ok:
  assumes "field_header_state (hp_header_state ps)" "hp_header_state ps \<noteq> h_general"
  shows "\<exists>ps'. header_field_char ch c ps = Some ps' \<and> header_frame ps ps' \<and>
           field_header_state (hp_header_state ps')"
  using assms
  by (cases "hp_header_state ps")
     (simp_all add: header_field_char_def Let_def match_literal_def)

lemma header_field_loop_ok:
  "field_header_state (hp_header_state ps) \<Longrightarrow>
   \<exists>q ps'. header_field_loop data mx p ps = Some (q, ps') \<and> header_frame ps ps' \<and>
           field_header_state (hp_header_state ps')"
proof (induction data mx p ps rule: header_field_loop.induct)
  case (1 data mx p ps)
  note IH = 1(1) [OF _ refl refl] 1(2) [OF _ refl refl] and ok = 1(3)
  consider "\<not> p < length data \<or> TOKEN (data ! p) = NUL"
    | "p < length data" "TOKEN (data ! p) \<noteq> NUL" "hp_header_state ps = h_general"
    | "p < length data" "TOKEN (data ! p) \<noteq> NUL" "hp_header_state ps \<noteq> h_general" by blast
  then show ?case
  proof cases
    case 1
    with ok show ?thesis by (subst header_field_loop.simps) (auto simp: Let_def)
  next
    case 2
    with IH(1) ok show ?thesis
      by (subst header_field_loop.simps) (simp add: Let_def)
  next
    case 3
    from header_field_char_ok [OF ok 3(3)] obtain ps' where
      step: "header_field_char (data ! p) (TOKEN (data ! p)) ps = Some ps'"
      and h: "header_frame ps ps'" "field_header_state (hp_header_state ps')" by blast
    from IH(2) [OF 3 step h(2)] h 3 step show ?thesis
      by (subst header_field_loop.simps) (auto simp: Let_def intro: header_frame_trans)
  qed
qed

lemma header_field_safe:
  assumes "x_state x = s_header_field" "exec_ok 1 x" "x_p x < length (e_data E)"
  shows "post (safe E) (step E ch x)"
proof -
  from assms(1,2) obtain q ps' where
    loop: "header_field_loop (e_data E) (unat (e_max_header_size E)) (x_p x) (x_parser x) = Some (q, ps')"
    and f: "header_frame (x_parser x) ps'" and h: "field_header_state (hp_header_state ps')"
    using header_field_loop_ok [of "x_parser x"] by (fastforce simp: inv_defs)
  from header_field_loop_range [OF loop] assms(3) have q: "x_p x \<le> q" "q \<le> length (e_data E)" by auto
  show ?thesis
    using assms h q header_frame_errno [OF f]
    by (auto simp: step_def step_s_header_field_def loop Let_def post_data simple_defs inv_defs state_sets 
       mark_ok_def intro!: post_COUNT_HEADER_SIZE post_CALLBACK_DATA)
qed

lemma marks_None:
  assumes "exec_ok k x" "x_state x \<notin> set url_states" "x_state x \<notin> set body_states"
    "x_state x \<notin> {s_header_field, s_header_value, s_res_status}"
  shows "x_header_field_mark x = None" "x_header_value_mark x = None" "x_url_mark x = None"
    "x_body_mark x = None" "x_status_mark x = None"
  using assms by (simp_all add: exec_ok_def marks_ok_def)

lemma header_value_start_safe:
  assumes "x_state x \<in> {s_header_value_start, s_header_value_discard_ws}" "exec_ok 1 x" "x_p x < length (e_data E)"
  shows "post (safe E) (step_s_header_value_start ch x)"
proof -
  have m: "x_header_field_mark x = None" "x_header_value_mark x = None" "x_url_mark x = None"
    "x_body_mark x = None" "x_status_mark x = None" "hp_http_errno (x_parser x) = HPE_OK"
    using marks_None [OF assms(2)] assms(1,2) by (auto simp: state_sets exec_ok_def)
  show ?thesis
  by (cases "hp_header_state (x_parser x)")
    (simp_all add: step_s_header_value_start_def Let_def simple_defs inv_defs state_sets value_header_state_def
     m assms(3))
qed


lemma header_value_char_ok:
  assumes "value_header_state h"
  shows "case header_value_char h ch ps of
      ValueNext h' ps' \<Rightarrow> value_header_state h' \<and> hp_http_errno ps' = hp_http_errno ps
    | ValueError e ps' \<Rightarrow> e \<noteq> HPE_OK
    | ValueFault \<Rightarrow> False"
  using assms
  by (cases h) (simp_all add: header_value_char_def value_header_state_def content_length_digit_def
    connection_token_end_def match_literal_def Let_def)

text \<open>What the loop of \<open>s_header_value\<close>, entered at \<open>start\<close>, keeps.\<close>

definition value_loop_ok :: "'s env \<Rightarrow> nat \<Rightarrow> header_states \<Rightarrow> 's exec \<Rightarrow> bool" where
  "value_loop_ok E start h x \<longleftrightarrow>
     start < length (e_data E) \<and> start \<le> x_p x \<and> x_p x \<le> length (e_data E) \<and>
     hp_http_errno (x_parser x) = HPE_OK \<and> value_header_state h \<and> x_state x = s_header_value \<and>
     mark_ok True start (x_header_value_mark x) \<and> x_header_field_mark x = None \<and> x_url_mark x = None \<and>
     x_body_mark x = None \<and> x_status_mark x = None"

lemma header_value_stop_safe:
  assumes "value_loop_ok E start h x"
  shows "x_p x < length (e_data E) \<Longrightarrow> post (safe E) (header_value_cr E start h x)"
    and "x_p x < length (e_data E) \<Longrightarrow> post (safe E) (header_value_lf E start h x)"
    and "post (safe E) (header_value_end E start h x)"
  using assms
  by (auto simp: value_loop_ok_def header_value_cr_def header_value_lf_def header_value_end_def Let_def
     post_data simple_defs inv_defs state_sets mark_ok_def intro!: post_COUNT_HEADER_SIZE post_CALLBACK_DATA)

lemma header_value_loop_safe: "value_loop_ok E start h x \<Longrightarrow> post (safe E) (header_value_loop E start h x)"
proof (induction E start h x rule: header_value_loop.induct)
  case (1 E start h x)
  note IH = 1(1) [OF _ refl] 1(2) [OF _ refl] and ok = 1(3)
  let ?ch = "e_data E ! x_p x"
  consider "\<not> x_p x < length (e_data E) \<or> ?ch = CR \<or> ?ch = LF"
    | (bad) "x_p x < length (e_data E)" "?ch \<noteq> CR" "?ch \<noteq> LF" 
       "\<not> (hp_lenient_http_headers (x_parser x) \<or> IS_HEADER_CHAR ?ch)"
    | (general) "x_p x < length (e_data E)" "?ch \<noteq> CR" "?ch \<noteq> LF" 
       "hp_lenient_http_headers (x_parser x) \<or> IS_HEADER_CHAR ?ch" "h = h_general"
    | (other) "x_p x < length (e_data E)" "?ch \<noteq> CR" "?ch \<noteq> LF" 
       "hp_lenient_http_headers (x_parser x) \<or> IS_HEADER_CHAR ?ch" "h \<noteq> h_general" by blast
  then show ?case
  proof cases
    case 1
    with header_value_stop_safe [OF ok] show ?thesis
      by (subst header_value_loop.simps) (auto simp: Let_def)
  next
    case bad
    then show ?thesis by (subst header_value_loop.simps) (simp add: Let_def)
  next
    case general
    note r = value_general_range [OF general(1-3)]
    show ?thesis
    proof (cases "value_general E x")
      case (Inl q)
      with general r show ?thesis by (subst header_value_loop.simps) (simp add: Let_def)
    next
      case (Inr q)
      with ok r have "value_loop_ok E start h (x\<lparr>x_p := q + 1\<rparr>)" by (simp add: value_loop_ok_def)
      with IH(1) general Inr show ?thesis by (subst header_value_loop.simps) (simp add: Let_def)
    qed
  next
    case other
    have c: "value_header_state h" using ok by (simp add: value_loop_ok_def)
    note r = header_value_char_ok [OF c, where ch = ?ch and ps = "x_parser x"]
    show ?thesis
    proof (cases "header_value_char h ?ch (x_parser x)")
      case (ValueNext h' ps)
      with ok r other(1) have "value_loop_ok E start h' (x\<lparr>x_parser := ps, x_p := x_p x + 1\<rparr>)"
        by (simp add: value_loop_ok_def)
      with IH(2) other ValueNext show ?thesis by (subst header_value_loop.simps) (simp add: Let_def)
    qed (use other r in \<open>subst header_value_loop.simps, simp add: Let_def\<close>)+
  qed
qed

lemma header_value_safe:
  assumes "x_state x = s_header_value" "exec_ok 1 x" "x_p x < length (e_data E)"
  shows "post (safe E) (step E ch x)"
proof -
  have "value_loop_ok E (x_p x) (hp_header_state (x_parser x)) x"
    using assms by (simp add: value_loop_ok_def inv_defs state_sets)
  then show ?thesis using assms(1) by (simp add: step_def step_s_header_value_def header_value_loop_safe)
qed

text \<open>Between messages: no mark is set and the state is a start state or \<open>s_dead\<close>.\<close>

definition no_marks :: "'s exec \<Rightarrow> bool" where
  "no_marks x \<longleftrightarrow> hp_http_errno (x_parser x) = HPE_OK \<and> x_header_field_mark x = None \<and>
     x_header_value_mark x = None \<and> x_url_mark x = None \<and> x_body_mark x = None \<and> x_status_mark x = None"

lemma exec_ok_no_marks: "no_marks x \<Longrightarrow> state_ok (x_state x) k (x_nread x) (x_parser x) \<Longrightarrow> exec_ok k x"
  by (simp add: no_marks_def exec_ok_def marks_ok_def)

lemma no_marks_exec_ok:
  assumes "exec_ok k x" "x_state x \<notin> set url_states" "x_state x \<notin> set body_states"
    "x_state x \<notin> {s_header_field, s_header_value, s_res_status}"
  shows "no_marks x"
  using marks_None [OF assms] assms(1) by (simp add: no_marks_def exec_ok_def)

lemma no_marks_simps [simp]:
  "no_marks (UPDATE_STATE s x) = no_marks x" "no_marks (reset_nread x) = no_marks x"
  "no_marks (called x s') = no_marks x" "no_marks (x\<lparr>x_nread := n\<rparr>) = no_marks x"
  "no_marks (x\<lparr>x_settings := s'\<rparr>) = no_marks x"
  by (simp_all add: no_marks_def simple_defs reset_nread_def)

lemma state_ok_NEW_MESSAGE [simp]: "state_ok (NEW_MESSAGE ps) k n ps'"
  by (simp add: NEW_MESSAGE_def start_state_def state_ok_def chunk_states_def)

lemma post_complete_message:
  assumes "no_marks x" "x_p x < length (e_data E)"
    and "\<And>s. post (safe E) (k (called (UPDATE_STATE (NEW_MESSAGE (x_parser x)) x) s))"
  shows "post (safe E) (complete_message E x k)"
  unfolding complete_message_def notify_message_complete_def
  by (rule post_CALLBACK_NOTIFY) (use assms in \<open>simp_all add: UPDATE_STATE_def no_marks_def\<close>)

lemma complete_message_Break_safe:
  "no_marks x \<Longrightarrow> x_p x < length (e_data E) \<Longrightarrow> post (safe E) (complete_message E x Break)"
  by (rule post_complete_message) (simp_all add: exec_ok_no_marks, simp_all add: called_def UPDATE_STATE_def exec_ok_no_marks no_marks_def)

lemma RETURN_safe:
  "n \<le> length (e_data E) \<Longrightarrow> hp_upgrade (x_parser x) \<Longrightarrow> state_ok (x_state x) 0 (x_nread x) 
     ((x_parser x)\<lparr>hp_nread := x_nread x, hp_state := x_state x\<rparr>) \<Longrightarrow> post (safe E) (RETURN n x)"
  by (simp add: RETURN_def upd_parser_def parser_ok_def)

lemma complete_message_RETURN_safe:
  "no_marks x \<Longrightarrow> x_p x < length (e_data E) \<Longrightarrow> hp_upgrade (x_parser x) \<Longrightarrow>
   post (safe E) (complete_message E x (\<lambda>x2. RETURN (x_p x2 + 1) x2))"
  by (rule post_complete_message) (auto intro!: RETURN_safe simp: called_def UPDATE_STATE_def)

lemma message_done_safe:
  "x_state x = s_message_done \<Longrightarrow> exec_ok 1 x \<Longrightarrow> x_p x < length (e_data E) \<Longrightarrow> post (safe E) (step E ch x)"
  using no_marks_exec_ok [of 1 x]
  by (auto simp: step_def step_s_message_done_def state_sets called_def UPDATE_STATE_def exec_ok_def
      marks_ok_def intro!: post_complete_message RETURN_safe)

lemma headers_done_safe:
  assumes "x_state x = s_headers_done" "exec_ok 1 x" "x_p x < length (e_data E)"
  shows "post (safe E) (step E ch x)"
proof -
  have n: "no_marks x" using no_marks_exec_ok [OF assms(2)] assms(1) by (simp add: state_sets)
  have r: "x_p (reset_nread x) < length (e_data E)" using assms(3) by (simp add: reset_nread_def upd_parser_def)
  have body: "state_ok s 0 0 (x_parser (reset_nread x)) \<Longrightarrow> post (safe E) (Break (UPDATE_STATE s (reset_nread x)))" for s
    using n assms(3) by (simp add: exec_ok_no_marks) (simp add: UPDATE_STATE_def reset_nread_def upd_parser_def exec_ok_no_marks no_marks_def)
  show ?thesis
    unfolding step_def assms(1) step_at.simps step_s_headers_done_def Let_def
    by (intro post_STRICT_CHECK post_if complete_message_Break_safe complete_message_RETURN_safe body)
       (use assms(3) n r in \<open>auto simp: state_ok_def chunk_states_def\<close>)
qed

lemma headers_almost_done_safe:
  assumes "x_state x = s_headers_almost_done" "exec_ok 1 x" "x_p x < length (e_data E)"
  shows "post (safe E) (step E ch x)"
proof -
  have n: "no_marks x" using no_marks_exec_ok [OF assms(2)] assms(1) by (simp add: state_sets)
  have complete: "post (safe E) (call_headers_complete E ch (upd_parser set_upgrade (UPDATE_STATE s_headers_done x)))"
    using n assms(3)
    by (auto simp: call_headers_complete_def Let_def simple_defs set_upgrade_def RETURN_def SET_ERRNO_def
        no_marks_def inv_defs chunk_states_def)
  show ?thesis
    unfolding step_def assms(1) step_at.simps step_s_headers_almost_done_def Let_def
    by (intro post_STRICT_CHECK post_if post_CALLBACK_NOTIFY complete)
       (use assms(3) n in \<open>auto simp: no_marks_def inv_defs chunk_states_def simple_defs\<close>)
qed

lemma ULLONG_MAX_unat: "v = ULLONG_MAX \<longleftrightarrow> unat v = 2 ^ 64 - 1" for v :: u64
  by (simp add: word_unat_eq_iff unsigned_minus_1_eq_mask mask_eq_exp_minus_1)

lemma unat_of_nat_u64: "m < 2 ^ 64 \<Longrightarrow> unat (of_nat m :: u64) = m"
  by (simp add: unat_of_nat)

lemma chunk_size_digit:
  fixes cl :: u64
  assumes "\<not> (ULLONG_MAX - 16) div 16 < cl" "0 \<le> d" "d \<le> 15"
  shows "unat (cl * 16 + of_int d) = unat cl * 16 + nat d" "cl * 16 + of_int d \<noteq> ULLONG_MAX"
proof -
  have cl: "unat cl \<le> 1152921504606846974"
    using assms(1) by (simp add: word_le_nat_alt not_less)
  have d: "of_int d = (of_nat (nat d) :: u64)" using assms(2) by simp
  have e: "cl * 16 + of_int d = of_nat (unat cl * 16 + nat d)"
    unfolding d by (simp add: mult.commute)
  have "unat cl * 16 + nat d < 2 ^ 64 - 1" using cl assms(3) by simp
  then show "unat (cl * 16 + of_int d) = unat cl * 16 + nat d"
    unfolding e by (intro unat_of_nat_u64) simp
  then show "cl * 16 + of_int d \<noteq> ULLONG_MAX"
    using \<open>unat cl * 16 + nat d < 2 ^ 64 - 1\<close> unfolding ULLONG_MAX_unat by simp
qed

lemma small_int_not_MAX: "0 \<le> d \<Longrightarrow> d \<le> 15 \<Longrightarrow> (of_int d :: u64) \<noteq> ULLONG_MAX"
  using chunk_size_digit(2) [of 0 d] by simp

lemma unhex_at_nonneg: "unhex_at ch \<noteq> - 1 \<Longrightarrow> 0 \<le> unhex_at ch" "unhex_at ch \<le> 15"
  using unhex_at_range [of ch] by auto

lemma chunk_size_safe:
  assumes "x_state x \<in> {s_chunk_size_start, s_chunk_size, s_chunk_parameters, s_chunk_size_almost_done, s_chunk_data_done}"
    "exec_ok 1 x" "x_p x < length (e_data E)"
  shows "post (safe E) (step E ch x)"
proof -
  have n: "no_marks x" using no_marks_exec_ok [OF assms(2)] assms(1) by (auto simp: state_sets)
  have s: "state_ok (x_state x) 1 (x_nread x) (x_parser x)" using assms(2) by (simp add: exec_ok_def)
  from assms(1) consider "x_state x = s_chunk_size_start" | "x_state x = s_chunk_size" | "x_state x = s_chunk_parameters"
    | "x_state x = s_chunk_size_almost_done" | "x_state x = s_chunk_data_done" by blast
  then show ?thesis
    by cases (use s n assms(3) in \<open>auto simp: step_def body_step_defs Let_def simple_defs state_ok_def exec_ok_def
       marks_ok_def chunk_states_def no_marks_def small_int_not_MAX unhex_at_nonneg chunk_size_digit
       intro!: post_ASSERT post_STRICT_CHECK post_CALLBACK_NOTIFY\<close>)
qed

lemma read_bytes_left:
  fixes cl :: u64
  assumes "n \<le> unat cl" "cl \<noteq> ULLONG_MAX" "0 < n"
  shows "unat (cl - of_nat n) = unat cl - n" "cl - of_nat n \<noteq> ULLONG_MAX"
proof -
  have "unat cl < 2 ^ 64" using unsigned_less [of cl] by simp
  then have "unat (of_nat n :: u64) = n" using assms(1) by (simp add: unat_of_nat)
  then show u: "unat (cl - of_nat n) = unat cl - n"
    using assms(1) by (simp add: unat_sub word_le_nat_alt)
  show "cl - of_nat n \<noteq> ULLONG_MAX"
    using u \<open>unat cl < _\<close> assms(3) unfolding ULLONG_MAX_unat by auto
qed

text \<open>The state a body is read in: only the body mark may be set.\<close>

definition body_marks :: "'s exec \<Rightarrow> bool" where
  "body_marks x \<longleftrightarrow> hp_http_errno (x_parser x) = HPE_OK \<and> x_header_field_mark x = None \<and>
     x_header_value_mark x = None \<and> x_url_mark x = None \<and> x_status_mark x = None \<and>
     mark_ok True (x_p x) (x_body_mark x)"

lemma read_bytes_facts:
  assumes "body_marks x" "hp_content_length (x_parser x) \<noteq> ULLONG_MAX" "n \<le> unat (hp_content_length (x_parser x))"
    "0 < n" "x_p x + n \<le> length (e_data E)"
  shows "body_marks (read_bytes n x)" "x_p (read_bytes n x) < length (e_data E)"
    "hp_content_length (x_parser (read_bytes n x)) \<noteq> ULLONG_MAX" "x_state (read_bytes n x) = x_state x"
    "hp_flags (x_parser (read_bytes n x)) = hp_flags (x_parser x)"
  using assms read_bytes_left [of n "hp_content_length (x_parser x)"]
  by (auto simp: body_marks_def read_bytes_def simple_defs mark_or_def split: option.splits)

lemma exec_ok_body:
  "body_marks x \<Longrightarrow> x_state x \<in> set body_states \<Longrightarrow> state_ok (x_state x) k (x_nread x) (x_parser x) \<Longrightarrow> exec_ok k x"
  by (auto simp: body_marks_def exec_ok_def marks_ok_def body_states_def)

lemma body_identity_safe:
  assumes "x_state x = s_body_identity" "body_marks x" "x_p x < length (e_data E)"
    "hp_content_length (x_parser x) \<noteq> 0" "hp_content_length (x_parser x) \<noteq> ULLONG_MAX"
  shows "post (safe E) (step_s_body_identity E ch x)"
  unfolding step_s_body_identity_def
proof (rule post_read_body)
  fix n assume n: "n \<le> unat (hp_content_length (x_parser x))"
    "x_p x < length (e_data E) \<Longrightarrow> 0 < n \<and> x_p x + n \<le> length (e_data E)"
  define y where "y = read_bytes n x"
  have y: "body_marks y" "x_p y < length (e_data E)" "hp_content_length (x_parser y) \<noteq> ULLONG_MAX"
    "x_state y = s_body_identity"
    using read_bytes_facts [OF assms(2,5) n(1), of E] n(2) assms(1,3) by (simp_all add: y_def)
  show "post (safe E) (if hp_content_length (x_parser (read_bytes n x)) = 0
     then data_body E (x_p (read_bytes n x) + 1) (x_p (read_bytes n x)) (UPDATE_STATE s_message_done (read_bytes n x)) (Reexecute ch)
     else Break (read_bytes n x))"
    unfolding y_def [symmetric] post_data using y
    by (auto simp: simple_defs body_marks_def inv_defs state_sets mark_ok_def
      intro!: post_if post_CALLBACK_DATA)
qed (use assms in auto)

lemma chunk_data_safe:
  assumes "x_state x = s_chunk_data" "body_marks x" "x_p x < length (e_data E)" "chunked x"
    "hp_content_length (x_parser x) \<noteq> 0" "hp_content_length (x_parser x) \<noteq> ULLONG_MAX"
  shows "post (safe E) (step_s_chunk_data E ch x)"
  unfolding step_s_chunk_data_def
proof (intro post_ASSERT post_read_body)
  fix n assume n: "n \<le> unat (hp_content_length (x_parser x))"
    "x_p x < length (e_data E) \<Longrightarrow> 0 < n \<and> x_p x + n \<le> length (e_data E)"
  define y where "y = read_bytes n x"
  have y: "body_marks y" "x_p y < length (e_data E)" "hp_content_length (x_parser y) \<noteq> ULLONG_MAX"
    "x_state y = s_chunk_data" "chunked y"
    using read_bytes_facts [OF assms(2,6) n(1), of E] n(2) assms(1,3,4) by (simp_all add: y_def)
  show "post (safe E) (if hp_content_length (x_parser (read_bytes n x)) = 0
     then Break (UPDATE_STATE s_chunk_data_almost_done (read_bytes n x)) else Break (read_bytes n x))"
    unfolding y_def [symmetric] using y
    by (auto simp: simple_defs body_marks_def inv_defs state_sets mark_ok_def)
qed (use assms in auto)

lemma body_safe:
  assumes "x_state x \<in> set body_states" "exec_ok 1 x" "x_p x < length (e_data E)"
  shows "post (safe E) (step E ch x)"
proof -
  have m: "body_marks x"
    using assms(1,2) by (auto simp: body_marks_def exec_ok_def marks_ok_def state_sets)
  have s: "state_ok (x_state x) 1 (x_nread x) (x_parser x)" using assms(2) by (simp add: exec_ok_def)
  from assms(1) consider "x_state x = s_body_identity" | "x_state x = s_body_identity_eof" | "x_state x = s_chunk_data"
    | "x_state x = s_chunk_data_almost_done" by (auto simp: body_states_def)
  then show ?thesis
  proof cases
    case 1
    with s body_identity_safe [OF 1 m assms(3)] show ?thesis by (simp add: step_def state_ok_def)
  next
    case 2
    with m assms(3) show ?thesis
      by (auto simp: step_def step_s_body_identity_eof_def body_marks_def simple_defs inv_defs state_sets
          mark_or_def split: option.split)
  next
    case 3
    with s chunk_data_safe [OF 3 m assms(3)] show ?thesis by (simp add: step_def state_ok_def chunk_states_def)
  next
    case 4
    with s m assms(3) show ?thesis
      by (auto simp: step_def step_s_chunk_data_almost_done_def post_data body_marks_def simple_defs inv_defs
          state_sets mark_ok_def intro!: post_ASSERT post_STRICT_CHECK post_CALLBACK_DATA)
  qed
qed

lemma step_safe:
  assumes "exec_ok 1 x" "x_p x < length (e_data E)"
  shows "post (safe E) (step E ch x)"
proof -
  have "post (safe E) (step E ch x)" if "x_state x = s_header_value_start"
    using header_value_start_safe [OF _ assms, of ch] that by (simp add: step_def)
  moreover have "post (safe E) (step E ch x)" if "x_state x = s_header_value_discard_ws"
    using header_value_start_safe [OF _ assms, of ch] no_marks_exec_ok [OF assms(1)] that assms(2)
    by (auto simp: step_def step_s_header_value_discard_ws_def simple_defs inv_defs state_sets no_marks_def)
  ultimately show ?thesis
    using small_safe [OF _ _ assms, of ch] status_safe [OF _ assms, of ch] url_safe [OF _ assms, of ch]
      spaces_safe [OF _ assms, of ch] start_req_safe [OF _ assms, of ch] resp_H_safe [OF _ assms, of ch]
      req_method_safe [OF _ assms, of ch] header_field_safe [OF _ assms, of ch] header_value_safe [OF _ assms, of ch]
      message_done_safe [OF _ assms, of ch] headers_done_safe [OF _ assms, of ch] 
      headers_almost_done_safe [OF _ assms, of ch] chunk_size_safe [OF _ assms, of ch] body_safe [OF _ assms, of ch]
    by (cases "x_state x") (simp_all add: state_sets)
qed


section \<open>The loops\<close>

text \<open>What \<open>reexec\<close> and the loop body leave.\<close>

definition loop_safe :: "'s env \<Rightarrow> 's outcome \<Rightarrow> bool" where
  "loop_safe E out \<longleftrightarrow> safe E out \<and> (\<forall>ch x. out \<noteq> Reexecute ch x)"

lemma reexec_safe:
  "exec_ok 1 x \<Longrightarrow> x_p x < length (e_data E) \<Longrightarrow> loop_safe E (reexec E ch x)"
proof (induction E ch x rule: reexec.induct)
  case (1 E ch x)
  note s = step_safe [OF 1(2,3), of ch]
  show ?case
  proof (cases "step E ch x")
    case (Reexecute ch' x')
    with 1(1) [OF Reexecute] s show ?thesis by (simp add: reexec.simps [of E ch x])
  qed (use s in \<open>simp_all add: reexec.simps [of E ch x] loop_safe_def\<close>)
qed

lemma exec_ok_bump: "exec_ok 0 x \<Longrightarrow> exec_ok 1 (x\<lparr>x_nread := x_nread x + 1\<rparr>)"
  by (simp add: exec_ok_def state_ok_def marks_ok_def)

lemma exec_ok_not_header: "exec_ok 0 x \<Longrightarrow> \<not> PARSING_HEADER (x_state x) \<Longrightarrow> exec_ok 1 x"
proof -
  assume a: "exec_ok 0 x" "\<not> PARSING_HEADER (x_state x)"
  from a(2) have "x_state x \<noteq> s_chunk_size_start" by (auto simp: PARSING_HEADER_def)
  with a(1) show "exec_ok 1 x" by (simp add: exec_ok_def state_ok_def)
qed

lemma loop_safe_error: "x_p x < length (e_data E) \<Longrightarrow> e \<noteq> HPE_OK \<Longrightarrow> loop_safe E (goto_error e x)"
  by (simp add: loop_safe_def goto_error_def)

lemma byte_step_safe:
  assumes "exec_ok 0 x" "x_p x < length (e_data E)"
  shows "loop_safe E (byte_step E x)"
proof (cases "PARSING_HEADER (x_state x)")
  case True
  have "x_p (x\<lparr>x_nread := x_nread x + 1\<rparr>) < length (e_data E)" using assms(2) by simp
  with True reexec_safe [OF exec_ok_bump [OF assms(1)]] show ?thesis
    by (simp add: byte_step_def Let_def COUNT_HEADER_SIZE_def loop_safe_error)
next
  case False
  with reexec_safe [OF exec_ok_not_header [OF assms(1) False] assms(2)] show ?thesis
    by (simp add: byte_step_def Let_def)
qed

lemma mark_ok_mono: "mark_ok b p m \<Longrightarrow> p \<le> q \<Longrightarrow> mark_ok b q m"
  by (auto simp: mark_ok_def)

lemma exec_ok_advance: "exec_ok k x \<Longrightarrow> exec_ok k (x\<lparr>x_p := x_p x + 1\<rparr>)"
  by (auto simp: exec_ok_def marks_ok_def intro: mark_ok_mono)

text \<open>\<open>p \<le> data + len\<close> at the head of the loop, and at its end \<open>p = data + len\<close>.\<close>

definition final_safe :: "'s env \<Rightarrow> 's outcome \<Rightarrow> bool" where
  "final_safe E out =
     (case out of
        Break x \<Rightarrow> x_p x = length (e_data E) \<and> exec_ok 0 x
      | Reexecute ch x \<Rightarrow> False
      | _ \<Rightarrow> safe E out)"

lemma exec_loop_safe:
  "exec_ok 0 x \<Longrightarrow> x_p x \<le> length (e_data E) \<Longrightarrow> final_safe E (exec_loop E x)"
proof (induction E x rule: exec_loop.induct)
  case (1 E x)
  show ?case
  proof (cases "x_p x < length (e_data E)")
    case True
    note b = byte_step_safe [OF 1(2) True]
    show ?thesis
    proof (cases "byte_step E x")
      case (Break x')
      with b have "exec_ok 0 (x'\<lparr>x_p := x_p x' + 1\<rparr>)" "x_p x' < length (e_data E)"
        using exec_ok_advance by (auto simp: loop_safe_def)
      with 1(1) [OF True Break] Break True show ?thesis by (simp add: exec_loop.simps [of E x])
    qed (use b True in \<open>simp_all add: exec_loop.simps [of E x] loop_safe_def final_safe_def\<close>)
  next
    case False
    with 1(2,3) show ?thesis by (subst exec_loop.simps) (simp add: final_safe_def)
  qed
qed

lemma initial_exec_ok:
  "parser_ok ps \<Longrightarrow> hp_http_errno ps = HPE_OK \<Longrightarrow> exec_ok 0 (initial_exec ps s)"
  by (simp add: initial_exec_def exec_ok_def parser_ok_def marks_ok_def)

text \<open>At most one of the five marks is left.\<close>

lemma one_mark:
  assumes "exec_ok k x"
  shows "length (filter (\<lambda>m. m \<noteq> None) (marks x)) \<le> 1"
proof -
  have "x_state x \<in> set url_states \<Longrightarrow> x_state x \<notin> set body_states" using url_states_other by blast
  with assms show ?thesis
    by (cases "x_state x") (simp_all add: exec_ok_def marks_ok_def state_sets)
qed

lemma state_ok_frame [simp]:
  "state_ok s k n (ps\<lparr>hp_state := s'\<rparr>) = state_ok s k n ps"
  "state_ok s k n (ps\<lparr>hp_nread := n'\<rparr>) = state_ok s k n ps"
  by (simp_all add: state_ok_def)

definition completed :: "nat \<Rightarrow> 's outcome \<Rightarrow> bool" where
  "completed n out = (case out of Return n' x \<Rightarrow> n' = n \<and> parser_ok (x_parser x) | _ \<Rightarrow> False)"

lemma completed_simps [simp]:
  "completed n (Return n' x) \<longleftrightarrow> n' = n \<and> parser_ok (x_parser x)"
  "\<not> completed n (Break x)" "\<not> completed n (Reexecute ch x)" "\<not> completed n (Error x)" "\<not> completed n (Fault w)"
  by (simp_all add: completed_def)

lemma leftover_callbacks_safe:
  assumes "exec_ok 0 x" "x_p x = length (e_data E)"
  shows "post (completed (length (e_data E))) (leftover_callbacks E x)"
proof -
  have "hp_http_errno (x_parser x) = HPE_OK" "state_ok (x_state x) 0 (x_nread x) (x_parser x)"
    "mark_ok True (x_p x) (x_header_field_mark x)" "mark_ok True (x_p x) (x_header_value_mark x)"
    "mark_ok True (x_p x) (x_url_mark x)" "mark_ok True (x_p x) (x_body_mark x)"
    "mark_ok True (x_p x) (x_status_mark x)"
    using assms(1) by (auto simp: exec_ok_def marks_ok_def mark_ok_def)
  then show ?thesis
    unfolding leftover_callbacks_def Let_def post_data
    by (intro post_ASSERT post_CALLBACK_DATA)
       (use one_mark [OF assms(1)] assms(2) in
          \<open>simp_all add: mark_ok_def called_def RETURN_def upd_parser_def parser_ok_def\<close>)
qed


lemma execute_safe:
  assumes "parser_ok ps"
  shows "\<exists>n ps' s'. http_parser_execute E ps s = Inr (n, ps', s') \<and> parser_ok ps' \<and>
     (e_data E \<noteq> [] \<longrightarrow> n \<le> length (e_data E)) \<and>
     (hp_http_errno ps' = HPE_OK \<longrightarrow> n = length (e_data E) \<or> hp_upgrade ps')"
proof -
  let ?x = "initial_exec ps s"
  consider (err) "hp_http_errno ps \<noteq> HPE_OK" | (eof) "hp_http_errno ps = HPE_OK" "e_data E = []"
    | (run) "hp_http_errno ps = HPE_OK" "e_data E \<noteq> []" by blast
  then show ?thesis
  proof cases
    case err
    then show ?thesis
      by (simp add: http_parser_execute_def execute_def conclude_def Let_def initial_exec_def)
  next
    case eof
    then show ?thesis using assms
      by (auto simp: http_parser_execute_def execute_def conclude_def Let_def initial_exec_def execute_eof_def
         notify_message_complete_def CALLBACK_NOTIFY_def ASSERT_def upd_parser_def SET_ERRNO_def parser_ok_def)
  next
    case run
    have f: "final_safe E (exec_loop E ?x)"
      using exec_loop_safe [OF initial_exec_ok [OF assms run(1)], of s E] by (simp add: initial_exec_def)
    show ?thesis
    proof (cases "exec_loop E ?x")
      case (Break y)
      with f have "post (completed (length (e_data E))) (leftover_callbacks E y)"
        by (intro leftover_callbacks_safe) (simp_all add: final_safe_def)
      with run Break show ?thesis
        by (cases "leftover_callbacks E y")
           (simp_all add: http_parser_execute_def execute_def conclude_def Let_def)
    qed (use f run in \<open>simp_all add: http_parser_execute_def execute_def conclude_def Let_def final_safe_def upd_parser_def\<close>)
  qed
qed


section \<open>Every call, in every order\<close>

text \<open>
  The parsers a client can hold: a fresh one, and what a call leaves; between calls the client may change its
  own object.
\<close>

inductive parser_run :: "http_parser \<Rightarrow> 's \<Rightarrow> bool" where
  init: "parser_run (http_parser_init t) s"
| exec: "parser_run ps s \<Longrightarrow> http_parser_execute E ps s = Inr (n, ps', s') \<Longrightarrow> parser_run ps' s'"
| client: "parser_run ps s \<Longrightarrow> parser_run ps s'"

lemma http_parser_init_ok: "parser_ok (http_parser_init t)"
  by (cases t) (simp_all add: parser_ok_def http_parser_init_def state_ok_def chunk_states_def)

lemma parser_run_ok: "parser_run ps s \<Longrightarrow> parser_ok ps"
proof (induction rule: parser_run.induct)
  case (exec ps s E n ps' s')
  with execute_safe [of ps E s] show ?case by auto
qed (simp_all add: http_parser_init_ok)

text \<open>Callbacks that accept everything and do nothing, and a call with them.\<close>

definition silent_settings :: "unit settings" where
  "silent_settings =
     \<lparr>on_message_begin = (\<lambda>ps s. (0, s)), on_url = (\<lambda>ps d s. (0, s)), on_status = (\<lambda>ps d s. (0, s)),
      on_header_field = (\<lambda>ps d s. (0, s)), on_header_value = (\<lambda>ps d s. (0, s)),
      on_headers_complete = (\<lambda>ps s. (0, s)), on_body = (\<lambda>ps d s. (0, s)),
      on_message_complete = (\<lambda>ps s. (0, s)), on_chunk_header = (\<lambda>ps s. (0, s)),
      on_chunk_complete = (\<lambda>ps s. (0, s))\<rparr>"

definition silent_env :: "string \<Rightarrow> unit env" where
  "silent_env data = \<lparr>e_data = data, e_max_header_size = 81920, e_settings = silent_settings\<rparr>"

text \<open>
  C1. Whatever buffers a client feeds to a parser, in whatever pieces and with whatever callbacks, a call of
  \<open>http_parser_execute\<close> returns: no assertion of the function fails, no table or literal is read out of
  range, no slice handed to a callback leaves the buffer, and the loop does not run past its end. The result
  is at most the length of the buffer, and without an error the whole buffer has been read unless the
  protocol was upgraded.
\<close>

theorem http_parser_execute_safe:
  assumes "parser_run ps s"
  shows "\<exists>n ps' s'. http_parser_execute E ps s = Inr (n, ps', s') \<and>
     (e_data E \<noteq> [] \<longrightarrow> n \<le> length (e_data E)) \<and>
     (hp_http_errno ps' = HPE_OK \<longrightarrow> n = length (e_data E) \<or> hp_upgrade ps')"
  using execute_safe [OF parser_run_ok [OF assms], of E s] by blast

theorem http_parser_execute_safe_witness:
  "\<exists>n ps' s'. http_parser_execute (silent_env ''GET /'') (http_parser_init HTTP_REQUEST) () = Inr (n, ps', s') \<and>
     (e_data (silent_env ''GET /'') \<noteq> [] \<longrightarrow> n \<le> length (e_data (silent_env ''GET /''))) \<and>
     (hp_http_errno ps' = HPE_OK \<longrightarrow> n = length (e_data (silent_env ''GET /'')) \<or> hp_upgrade ps')"
  by (rule http_parser_execute_safe [OF parser_run.init])

end
