(* ===== verification/KeyMap.thy ===== *)
theory KeyMap
  imports Prelude "HOL-Library.Char_ord" "HOL-Library.List_Lexorder"
begin

text \<open>
  The interface the components use of a map, as a locale, and its two implementations: association lists in
  insertion order (\<open>std::vector\<close> of pairs, \<open>std::unordered_map\<close> where no order is used) and association lists
  sorted by key, which is \<open>std::map\<close>: iteration goes through the keys in order. Strings are compared as
  \<open>std::string_view\<close> does it, lexicographically by unsigned bytes.
\<close>

locale key_map =
  fixes empty :: 'm
    and lookup :: "'m \<Rightarrow> 'k \<Rightarrow> 'v option"
    and assign :: "'m \<Rightarrow> 'k \<Rightarrow> 'v \<Rightarrow> 'm"
    and remove :: "'m \<Rightarrow> 'k \<Rightarrow> 'm"
    and inv :: "'m \<Rightarrow> bool"
  assumes lookup_empty: "lookup empty k = None"
    and lookup_assign: "lookup (assign m k v) k' = (if k' = k then Some v else lookup m k')"
    and lookup_remove: "lookup (remove m k) k' = (if k' = k then None else lookup m k')"
    and inv_empty: "inv empty"
    and inv_assign: "inv m \<Longrightarrow> inv (assign m k v)"
    and inv_remove: "inv m \<Longrightarrow> inv (remove m k)"
begin

definition assign_all :: "'m \<Rightarrow> ('k \<times> 'v) list \<Rightarrow> 'm" where
  "assign_all m kvs = foldl (\<lambda>m (k, v). assign m k v) m kvs"

lemma lookup_assign_all:
  "lookup (assign_all m kvs) k = (case map_of (rev kvs) k of None \<Rightarrow> lookup m k | Some v \<Rightarrow> Some v)"
  unfolding assign_all_def
  by (induction kvs arbitrary: m) (auto simp: lookup_assign map_add_def split: option.split)

lemma inv_assign_all: "inv m \<Longrightarrow> inv (assign_all m kvs)"
  unfolding assign_all_def by (induction kvs arbitrary: m) (auto simp: inv_assign)

lemma remove_assign: "lookup (remove (assign m k v) k) k' = lookup (remove m k) k'"
  by (simp add: lookup_assign lookup_remove)

lemma assign_assign: "lookup (assign (assign m k v) k w) k' = lookup (assign m k w) k'"
  by (simp add: lookup_assign)

end

section \<open>\<open>std::map\<close>\<close>

type_synonym ('k, 'v) smap = "('k \<times> 'v) list"

text \<open>\<open>insert_or_assign\<close>\<close>

fun sm_set :: "('k :: linorder, 'v) smap \<Rightarrow> 'k \<Rightarrow> 'v \<Rightarrow> ('k, 'v) smap" where
  "sm_set [] k v = [(k, v)]"
| "sm_set ((k', v') # m) k v =
     (if k < k' then (k, v) # (k', v') # m else if k = k' then (k', v) # m else (k', v') # sm_set m k v)"

text \<open>\<open>emplace\<close>: a present key keeps its value.\<close>

definition sm_emplace :: "('k :: linorder, 'v) smap \<Rightarrow> 'k \<Rightarrow> 'v \<Rightarrow> ('k, 'v) smap" where
  "sm_emplace m k v = (case al_get m k of None \<Rightarrow> sm_set m k v | Some _ \<Rightarrow> m)"

definition sm_inv :: "('k :: linorder, 'v) smap \<Rightarrow> bool" where
  "sm_inv m \<longleftrightarrow> sorted_wrt (<) (map fst m)"

lemma al_get_sm_set [al_simps, simp]: "al_get (sm_set m k v) k' = (if k' = k then Some v else al_get m k')"
  by (induction m k v rule: sm_set.induct) auto

lemma fst_sm_set [al_simps]: "fst ` set (sm_set m k v) = insert k (fst ` set m)"
  by (induction m k v rule: sm_set.induct) auto

lemma sm_inv_Nil [simp]: "sm_inv []"
  by (simp add: sm_inv_def)

lemma sm_inv_Cons [simp]: "sm_inv ((k, v) # m) \<longleftrightarrow> (\<forall>k' \<in> fst ` set m. k < k') \<and> sm_inv m"
  by (auto simp: sm_inv_def)

lemma sm_inv_set [simp]: "sm_inv m \<Longrightarrow> sm_inv (sm_set m k v)"
  by (induction m k v rule: sm_set.induct) (auto simp: fst_sm_set simp flip: image_iff dest: less_trans)

lemma sm_inv_emplace [simp]: "sm_inv m \<Longrightarrow> sm_inv (sm_emplace m k v)"
  by (simp add: sm_emplace_def split: option.split)

lemma al_get_sm_emplace [al_simps, simp]:
  "al_get (sm_emplace m k v) k' = (if k' = k \<and> al_get m k = None then Some v else al_get m k')"
  by (auto simp: sm_emplace_def split: option.splits)

lemma sm_inv_erase [simp]: "sm_inv m \<Longrightarrow> sm_inv (al_erase m k)"
  by (auto simp: sm_inv_def al_erase_def sorted_wrt_map intro: sorted_wrt_filter)

lemma sm_inv_al_inv: "sm_inv m \<Longrightarrow> al_inv m"
  by (simp add: sm_inv_def al_inv_def strict_sorted_iff)

text \<open>Keys that come in increasing order are added at the end.\<close>

lemma sm_set_append: "\<forall>k' \<in> fst ` set m. k' < k \<Longrightarrow> sm_set m k v = m @ [(k, v)]"
  by (induction m k v rule: sm_set.induct) (auto dest: less_asym)

lemma foldl_sm_set_sorted:
  "sm_inv (m @ kvs) \<Longrightarrow> foldl (\<lambda>m (k, v). sm_set m k v) m kvs = m @ kvs"
proof (induction kvs arbitrary: m)
  case (Cons kv kvs)
  obtain k v where kv: "kv = (k, v)" by force
  have "sm_set m k v = m @ [(k, v)]"
    using Cons.prems by (intro sm_set_append) (auto simp: sm_inv_def kv sorted_wrt_append)
  with Cons.IH [of "m @ [(k, v)]"] Cons.prems show ?case by (simp add: kv)
qed simp

interpretation sm: key_map "[]" al_get sm_set al_erase sm_inv
  by unfold_locales simp_all

interpretation al: key_map "[]" al_get al_set al_erase al_inv
  by unfold_locales simp_all

end
