(* ===== verification/Uri.thy ===== *)
theory Uri
  imports HttpUtils KeyMap "HOL-Library.Sublist"
begin

text \<open>
  \<open>src/Utility/Uri.cpp\<close> and \<open>include/CPVFramework/Utility/Uri.hpp\<close>. The pointers of \<open>Uri::parse\<close> are positions
  in the text; \<open>share\<close> of a slice that does not lie in the text, which the code does not check, is
  \<^const>\<open>None\<close>. \<open>std::move(queryKey)\<close> empties the key only when \<open>insert_or_assign\<close> inserts: for a key that
  is present the map assigns the value and leaves its argument alone.
\<close>

datatype UriParserState = Protocol | Hostname | HostnameV6 | Port | Path | Query

record uri =
  uri_protocol :: string
  uri_hostname :: string
  uri_port :: string
  uri_path :: string
  uri_pathFragments :: "string list"
  uri_queryParameters :: "(string, string) smap"

definition empty_uri :: uri where
  "empty_uri = \<lparr>uri_protocol = [], uri_hostname = [], uri_port = [], uri_path = [],
     uri_pathFragments = [], uri_queryParameters = []\<rparr>"

section \<open>Getters and setters\<close>

definition getPathFragment :: "uri \<Rightarrow> nat \<Rightarrow> string" where
  "getPathFragment u i = (if i < length (uri_pathFragments u) then uri_pathFragments u ! i else [])"

definition getQueryParameter :: "uri \<Rightarrow> string \<Rightarrow> string" where
  "getQueryParameter u key =
     (case al_get (uri_queryParameters u) key of Some v \<Rightarrow> v | None \<Rightarrow> [])"

definition setQueryParameter :: "uri \<Rightarrow> string \<Rightarrow> string \<Rightarrow> uri" where
  "setQueryParameter u key value =
     u\<lparr>uri_queryParameters := sm_set (uri_queryParameters u) key value\<rparr>"

definition removeQueryParameter :: "uri \<Rightarrow> string \<Rightarrow> uri" where
  "removeQueryParameter u key = u\<lparr>uri_queryParameters := al_erase (uri_queryParameters u) key\<rparr>"

definition uri_clear :: "uri \<Rightarrow> uri" where
  "uri_clear u = u\<lparr>uri_protocol := [], uri_hostname := [], uri_port := [], uri_path := [],
     uri_pathFragments := [], uri_queryParameters := []\<rparr>"

section \<open>\<open>Uri::parse\<close>\<close>

record uri_parser =
  up_state :: UriParserState
  up_mark :: nat
  up_pathMark :: nat
  up_ptr :: nat
  up_queryKey :: string
  up_uri :: uri

text \<open>\<open>uri.share({ i, j - i })\<close>\<close>

definition share :: "string \<Rightarrow> nat \<Rightarrow> nat \<Rightarrow> string option" where
  "share s i j = (if i \<le> j \<and> j \<le> length s then Some (take (j - i) (drop i s)) else None)"

definition shared :: "string \<Rightarrow> nat \<Rightarrow> nat \<Rightarrow> (string \<Rightarrow> 'a) \<Rightarrow> 'a option" where
  "shared s i j k = map_option k (share s i j)"

definition add_fragment :: "string \<Rightarrow> uri_parser \<Rightarrow> uri_parser" where
  "add_fragment raw p =
     p\<lparr>up_uri := (up_uri p)\<lparr>uri_pathFragments := uri_pathFragments (up_uri p) @ [urlDecode raw]\<rparr>\<rparr>"

definition set_hostname :: "string \<Rightarrow> uri_parser \<Rightarrow> uri_parser" where
  "set_hostname raw p = p\<lparr>up_uri := (up_uri p)\<lparr>uri_hostname := urlDecode raw\<rparr>\<rparr>"

definition set_port :: "string \<Rightarrow> uri_parser \<Rightarrow> uri_parser" where
  "set_port raw p = p\<lparr>up_uri := (up_uri p)\<lparr>uri_port := raw\<rparr>\<rparr>"

definition set_path :: "string \<Rightarrow> uri_parser \<Rightarrow> uri_parser" where
  "set_path raw p = p\<lparr>up_uri := (up_uri p)\<lparr>uri_path := urlDecode raw\<rparr>\<rparr>"

text \<open>\<open>queryParameters_.insert_or_assign(std::move(queryKey), urlDecode(...))\<close>\<close>

definition add_parameter :: "string \<Rightarrow> uri_parser \<Rightarrow> uri_parser" where
  "add_parameter raw p =
     (let m = uri_queryParameters (up_uri p); key = up_queryKey p
      in p\<lparr>up_uri := (up_uri p)\<lparr>uri_queryParameters := sm_set m key (urlDecode raw)\<rparr>,
          up_queryKey := (if al_get m key = None then [] else key)\<rparr>)"

definition on_slash :: "string \<Rightarrow> uri_parser \<Rightarrow> uri_parser option" where
  "on_slash s p =
     (let mark = up_mark p; ptr = up_ptr p
      in case up_state p of
           Protocol \<Rightarrow>
             (if ptr \<noteq> mark
              then shared s mark ptr (\<lambda>raw. (add_fragment raw p)\<lparr>up_mark := ptr + 1, up_state := Path\<rparr>)
              else Some (p\<lparr>up_mark := ptr + 1, up_state := Path\<rparr>))
         | Path \<Rightarrow> shared s mark ptr (\<lambda>raw. (add_fragment raw p)\<lparr>up_mark := ptr + 1\<rparr>)
         | Hostname \<Rightarrow>
             shared s mark ptr
               (\<lambda>raw. (set_hostname raw p)\<lparr>up_mark := ptr + 1, up_pathMark := ptr, up_state := Path\<rparr>)
         | Port \<Rightarrow>
             shared s mark ptr
               (\<lambda>raw. (set_port raw p)\<lparr>up_mark := ptr + 1, up_pathMark := ptr, up_state := Path\<rparr>)
         | _ \<Rightarrow> Some p)"

definition on_question :: "string \<Rightarrow> uri_parser \<Rightarrow> uri_parser option" where
  "on_question s p =
     (let mark = up_mark p; ptr = up_ptr p
      in case up_state p of
           Path \<Rightarrow>
             Option.bind (if ptr > mark then shared s mark ptr (\<lambda>raw. add_fragment raw p) else Some p)
               (\<lambda>p. shared s (up_pathMark p) ptr
                  (\<lambda>raw. (set_path raw p)\<lparr>up_mark := ptr + 1, up_state := Query\<rparr>))
         | Protocol \<Rightarrow> Some (p\<lparr>up_mark := ptr + 1, up_state := Query\<rparr>)
         | _ \<Rightarrow> Some p)"

definition on_equals :: "string \<Rightarrow> uri_parser \<Rightarrow> uri_parser option" where
  "on_equals s p =
     (if up_state p = Query
      then shared s (up_mark p) (up_ptr p) (\<lambda>raw. p\<lparr>up_queryKey := urlDecode raw, up_mark := up_ptr p + 1\<rparr>)
      else Some p)"

definition on_ampersand :: "string \<Rightarrow> uri_parser \<Rightarrow> uri_parser option" where
  "on_ampersand s p =
     (if up_state p = Query
      then shared s (up_mark p) (up_ptr p) (\<lambda>raw. (add_parameter raw p)\<lparr>up_mark := up_ptr p + 1\<rparr>)
      else Some p)"

definition on_colon :: "string \<Rightarrow> uri_parser \<Rightarrow> uri_parser option" where
  "on_colon s p =
     (let mark = up_mark p; ptr = up_ptr p
      in case up_state p of
           Protocol \<Rightarrow>
             shared s mark ptr
               (\<lambda>raw. p\<lparr>up_uri := (up_uri p)\<lparr>uri_protocol := urlDecode raw\<rparr>,
                        up_ptr := ptr + 2, up_mark := ptr + 3, up_state := Hostname\<rparr>)
         | Hostname \<Rightarrow> shared s mark ptr (\<lambda>raw. (set_hostname raw p)\<lparr>up_mark := ptr + 1, up_state := Port\<rparr>)
         | _ \<Rightarrow> Some p)"

definition on_bracket :: "string \<Rightarrow> uri_parser \<Rightarrow> uri_parser option" where
  "on_bracket s p =
     (let mark = up_mark p; ptr = up_ptr p
      in if up_state p = HostnameV6
         then shared s mark (ptr + 1)
           (\<lambda>raw. let q = set_hostname raw p
                  in if ptr + 1 < length s \<and> s ! (ptr + 1) = CHR '':''
                     then q\<lparr>up_ptr := ptr + 1, up_mark := ptr + 2, up_state := Port\<rparr>
                     else q\<lparr>up_mark := ptr + 1, up_pathMark := ptr + 1, up_state := Path\<rparr>)
         else Some p)"

definition uri_char :: "string \<Rightarrow> char \<Rightarrow> uri_parser \<Rightarrow> uri_parser option" where
  "uri_char s c p =
     (if c = CHR ''/'' then on_slash s p
      else if c = CHR ''?'' then on_question s p
      else if c = CHR ''='' then on_equals s p
      else if c = CHR ''&'' then on_ampersand s p
      else if c = CHR '':'' then on_colon s p
      else if c = CHR ''['' then
        Some (if up_state p = Hostname then p\<lparr>up_state := HostnameV6\<rparr> else p)
      else if c = CHR '']'' then on_bracket s p
      else Some p)"

lemmas uri_char_defs = on_slash_def on_question_def on_equals_def on_ampersand_def on_colon_def
  on_bracket_def shared_def share_def add_fragment_def set_hostname_def set_port_def set_path_def
  add_parameter_def Let_def

lemma uri_char_ptr: "uri_char s c p = Some q \<Longrightarrow> up_ptr p \<le> up_ptr q"
  by (cases "up_state p") (auto simp: uri_char_def uri_char_defs split: if_splits)

function uri_loop :: "string \<Rightarrow> uri_parser \<Rightarrow> uri_parser option" where
  "uri_loop s p =
     (if up_ptr p < length s then
        (case uri_char s (s ! up_ptr p) p of
           None \<Rightarrow> None
         | Some q \<Rightarrow> uri_loop s (q\<lparr>up_ptr := up_ptr q + 1\<rparr>))
      else Some p)"
  by pat_completeness auto
termination
  by (relation "measure (\<lambda>(s, p). length s - up_ptr p)")
     (auto intro: diff_less_mono2 le_imp_less_Suc uri_char_ptr)

declare uri_loop.simps [simp del]

text \<open>The final parts.\<close>

definition uri_finish :: "string \<Rightarrow> uri_parser \<Rightarrow> uri option" where
  "uri_finish s p =
     Option.bind
       (if up_ptr p > up_mark p then
          (case up_state p of
             Path \<Rightarrow> shared s (up_mark p) (up_ptr p) (\<lambda>raw. add_fragment raw p)
           | Hostname \<Rightarrow> shared s (up_mark p) (up_ptr p) (\<lambda>raw. set_hostname raw p)
           | Port \<Rightarrow> shared s (up_mark p) (up_ptr p) (\<lambda>raw. set_port raw p)
           | Query \<Rightarrow> shared s (up_mark p) (up_ptr p) (\<lambda>raw. add_parameter raw p)
           | _ \<Rightarrow> Some p)
        else Some p)
       (\<lambda>p. if up_state p = Path
             then shared s (up_pathMark p) (up_ptr p) (\<lambda>raw. up_uri (set_path raw p))
             else Some (up_uri p))"

definition start_parser :: "uri \<Rightarrow> uri_parser" where
  "start_parser u =
     \<lparr>up_state = Protocol, up_mark = 0, up_pathMark = 0, up_ptr = 0, up_queryKey = [], up_uri = u\<rparr>"

definition uri_parse :: "string \<Rightarrow> uri \<Rightarrow> uri option" where
  "uri_parse s u =
     Option.bind (uri_loop s (start_parser u)) (uri_finish s)"

section \<open>\<open>Uri::build\<close>\<close>

text \<open>The query parameters, in the order the map iterates.\<close>

fun build_parameters :: "(string \<times> string) list \<Rightarrow> bool \<Rightarrow> string list" where
  "build_parameters [] isFirst = []"
| "build_parameters ((k, v) # m) isFirst =
     (if isFirst then [] else [''&'']) @ [urlEncode k, ''='', urlEncode v] @ build_parameters m False"

text \<open>The fragments appended to the packet.\<close>

definition uri_build :: "uri \<Rightarrow> string list" where
  "uri_build u =
     (if uri_protocol u \<noteq> [] then
        [urlEncode (uri_protocol u), ''://'', urlEncode (uri_hostname u)] @
        (if uri_port u \<noteq> [] then ['':'', uri_port u] else [])
      else []) @
     (if uri_pathFragments u \<noteq> [] then concat (map (\<lambda>f. [''/'', urlEncode f]) (uri_pathFragments u))
      else if uri_path u \<noteq> [] then [urlEncode (uri_path u)] else []) @
     (if uri_queryParameters u \<noteq> [] then ''?'' # build_parameters (uri_queryParameters u) True else [])"

section \<open>No slice leaves the text\<close>

definition up_ok :: "string \<Rightarrow> uri_parser \<Rightarrow> bool" where
  "up_ok s p \<longleftrightarrow> up_mark p \<le> up_ptr p \<and> up_pathMark p \<le> up_ptr p \<and>
     (up_ptr p \<le> length s \<or> up_state p = Hostname \<and> up_mark p = up_ptr p)"

lemma uri_char_ok:
  assumes "up_ok s p" "up_ptr p < length s"
  shows "\<exists>q. uri_char s (s ! up_ptr p) p = Some q \<and> up_ok s (q\<lparr>up_ptr := up_ptr q + 1\<rparr>)"
  using assms by (cases "up_state p") (auto simp: uri_char_def uri_char_defs up_ok_def)

lemma uri_loop_ok: "up_ok s p \<Longrightarrow> \<exists>q. uri_loop s p = Some q \<and> up_ok s q"
proof (induction s p rule: uri_loop.induct)
  case (1 s p)
  show ?case
  proof (cases "up_ptr p < length s")
    case True
    then obtain q where q: "uri_char s (s ! up_ptr p) p = Some q" "up_ok s (q\<lparr>up_ptr := up_ptr q + 1\<rparr>)"
      using uri_char_ok [OF 1(2)] by blast
    with 1(1) [OF True q(1)] True show ?thesis by (subst uri_loop.simps) simp
  qed (use 1(2) in \<open>subst uri_loop.simps, simp\<close>)
qed

lemma uri_finish_ok: "up_ok s p \<Longrightarrow> \<exists>u. uri_finish s p = Some u"
  by (cases "up_state p") (auto simp: uri_finish_def uri_char_defs up_ok_def)

section \<open>Parsing what \<open>build\<close> wrote\<close>

text \<open>The characters that do nothing in a state.\<close>

fun inert :: "UriParserState \<Rightarrow> char \<Rightarrow> bool" where
  "inert Protocol c \<longleftrightarrow> c \<notin> {CHR ''/'', CHR ''?'', CHR '':''}"
| "inert Hostname c \<longleftrightarrow> c \<notin> {CHR ''/'', CHR '':'', CHR ''[''}"
| "inert HostnameV6 c \<longleftrightarrow> c \<noteq> CHR '']''"
| "inert Port c \<longleftrightarrow> c \<noteq> CHR ''/''"
| "inert Path c \<longleftrightarrow> c \<notin> {CHR ''/'', CHR ''?''}"
| "inert Query c \<longleftrightarrow> c \<notin> {CHR ''='', CHR ''&''}"

lemma uri_char_inert: "inert (up_state p) c \<Longrightarrow> uri_char s c p = Some p"
  by (cases "up_state p") (auto simp: uri_char_def uri_char_defs)

lemma uri_loop_step:
  assumes "s = pre @ c # ys" "up_ptr p = length pre"
  shows "uri_loop s p = (case uri_char s c p of None \<Rightarrow> None | Some q \<Rightarrow> uri_loop s (q\<lparr>up_ptr := up_ptr q + 1\<rparr>))"
  using assms by (subst uri_loop.simps) simp

lemma uri_loop_end: "up_ptr p = length s \<Longrightarrow> uri_loop s p = Some p"
  by (subst uri_loop.simps) simp

lemma uri_loop_inert:
  assumes "s = pre @ xs @ ys" "up_ptr p = length pre" "\<forall>c \<in> set xs. inert (up_state p) c"
  shows "uri_loop s p = uri_loop s (p\<lparr>up_ptr := length (pre @ xs)\<rparr>)"
  using assms
proof (induction xs arbitrary: pre p)
  case Nil
  then show ?case by (metis append_Nil2 uri_parser.surjective uri_parser.update_convs(4))
next
  case (Cons c xs)
  have "uri_loop s p = uri_loop s (p\<lparr>up_ptr := up_ptr p + 1\<rparr>)"
    using Cons.prems uri_loop_step [of s pre c "xs @ ys" p] by (simp add: uri_char_inert)
  also have "\<dots> = uri_loop s (p\<lparr>up_ptr := length ((pre @ [c]) @ xs)\<rparr>)"
    using Cons.IH [of "pre @ [c]" "p\<lparr>up_ptr := up_ptr p + 1\<rparr>"] Cons.prems by simp
  finally show ?case by simp
qed

lemma share_mid: "share (pre @ xs @ ys) (length pre) (length pre + length xs) = Some xs"
  by (simp add: share_def)

lemma slash_url_rule: "CHR ''/'' \<in> set (url_rule c) \<Longrightarrow> c = CHR ''/''"
proof -
  have "CHR ''/'' \<notin> set hex_digits" by (simp add: hex_digits_def)
  then show "CHR ''/'' \<in> set (url_rule c) \<Longrightarrow> c = CHR ''/''"
    using dumpIntToHex_u8_set [of "CHR ''/''" "u8_of_char c"] by (auto simp: url_rule_def split: if_splits)
qed

lemma urlEncode_no_slash: "CHR ''/'' \<notin> set s \<Longrightarrow> CHR ''/'' \<notin> set (urlEncode s)"
  using slash_url_rule by (auto simp: urlEncode_eq)

lemma urlEncode_inert:
  "c \<in> set (urlEncode x) \<Longrightarrow> inert Query c"
  "CHR ''/'' \<notin> set x \<Longrightarrow> c \<in> set (urlEncode x) \<Longrightarrow> inert Protocol c"
  "CHR ''/'' \<notin> set x \<Longrightarrow> c \<in> set (urlEncode x) \<Longrightarrow> inert Hostname c"
  "CHR ''/'' \<notin> set x \<Longrightarrow> c \<in> set (urlEncode x) \<Longrightarrow> inert Path c"
  using urlEncode_set [of c x] url_plain_not_special [of c] urlEncode_no_slash [of x] by auto

lemma urlEncode_Nil_iff [simp]: "urlEncode x = [] \<longleftrightarrow> x = []"
  by (metis append_Nil2 urlDecode_urlEncode urlEncode_def url.encode_append self_append_conv)

text \<open>The text of the path and of the query.\<close>

definition path_text :: "string list \<Rightarrow> string" where
  "path_text fs = concat (map (\<lambda>f. CHR ''/'' # urlEncode f) fs)"

definition parameters_text :: "(string \<times> string) list \<Rightarrow> string" where
  "parameters_text kvs = concat (map (\<lambda>(k, v). CHR ''&'' # urlEncode k @ CHR ''='' # urlEncode v) kvs)"

lemma urlDecode_path_text: "urlDecode (path_text fs) = concat (map (\<lambda>f. CHR ''/'' # f) fs)"
proof -
  have "path_text fs = urlEncode (concat (map (\<lambda>f. CHR ''/'' # f) fs))"
    unfolding path_text_def
    by (induction fs) (simp_all add: urlEncode_eq url_rule_def url_plain_def)
  then show ?thesis by simp
qed

lemma path_text_last: "fs \<noteq> [] \<Longrightarrow> path_text fs = path_text (butlast fs) @ CHR ''/'' # urlEncode (last fs)"
  by (induction fs) (auto simp: path_text_def)

lemma uri_loop_path:
  assumes "s = pre @ urlEncode f @ path_text fs @ rest"
    "up_state p = Path" "up_mark p = length pre" "up_ptr p = length pre"
    "\<forall>g \<in> set (f # fs). CHR ''/'' \<notin> set g"
  shows "uri_loop s p = uri_loop s (p\<lparr>
      up_uri := (up_uri p)\<lparr>uri_pathFragments := uri_pathFragments (up_uri p) @ butlast (f # fs)\<rparr>,
      up_mark := length (pre @ urlEncode f @ path_text fs) - length (urlEncode (last (f # fs))),
      up_ptr := length (pre @ urlEncode f @ path_text fs)\<rparr>)"
  using assms
proof (induction fs arbitrary: f pre p)
  case Nil
  have "uri_loop s p = uri_loop s (p\<lparr>up_ptr := length (pre @ urlEncode f)\<rparr>)"
    by (rule uri_loop_inert [of s pre "urlEncode f" rest]) (use Nil urlEncode_inert in \<open>auto simp: path_text_def\<close>)
  with Nil show ?case by (cases p) (simp add: path_text_def)
next
  case (Cons g fs)
  let ?p1 = "p\<lparr>up_ptr := length (pre @ urlEncode f)\<rparr>"
  let ?pre = "pre @ urlEncode f @ ''/''"
  let ?p2 = "p\<lparr>up_uri := (up_uri p)\<lparr>uri_pathFragments := uri_pathFragments (up_uri p) @ [f]\<rparr>,
      up_mark := length ?pre, up_ptr := length ?pre\<rparr>"
  have s: "s = pre @ urlEncode f @ CHR ''/'' # urlEncode g @ path_text fs @ rest"
    using Cons.prems(1) by (simp add: path_text_def)
  have "uri_loop s p = uri_loop s ?p1"
    by (rule uri_loop_inert [of s pre "urlEncode f" "CHR ''/'' # urlEncode g @ path_text fs @ rest"])
       (use Cons.prems s urlEncode_inert in auto)
  also have "\<dots> = uri_loop s ?p2"
    using uri_loop_step [of s "pre @ urlEncode f" "CHR ''/''" "urlEncode g @ path_text fs @ rest" ?p1]
      Cons.prems(2-4) share_mid [of pre "urlEncode f" "CHR ''/'' # urlEncode g @ path_text fs @ rest"] s
    by (simp add: uri_char_def on_slash_def shared_def add_fragment_def Let_def)
  also have "\<dots> = uri_loop s (?p2\<lparr>
      up_uri := (up_uri ?p2)\<lparr>uri_pathFragments := uri_pathFragments (up_uri ?p2) @ butlast (g # fs)\<rparr>,
      up_mark := length (?pre @ urlEncode g @ path_text fs) - length (urlEncode (last (g # fs))),
      up_ptr := length (?pre @ urlEncode g @ path_text fs)\<rparr>)"
    by (rule Cons.IH) (use Cons.prems s in auto)
  finally show ?case by (simp add: path_text_def)
qed


lemma uri_loop_query:
  assumes "s = pre @ urlEncode k @ CHR ''='' # urlEncode v @ parameters_text kvs"
    "up_state p = Query" "up_mark p = length pre" "up_ptr p = length pre"
  shows "\<exists>q. uri_loop s p = Some q \<and> up_state q = Query \<and> up_ptr q = length s \<and>
     up_queryKey q = fst (last ((k, v) # kvs)) \<and>
     up_mark q = length s - length (urlEncode (snd (last ((k, v) # kvs)))) \<and>
     up_uri q = (up_uri p)\<lparr>uri_queryParameters :=
       foldl (\<lambda>m (k, v). sm_set m k v) (uri_queryParameters (up_uri p)) (butlast ((k, v) # kvs))\<rparr>"
  using assms
proof (induction kvs arbitrary: k v pre p)
  case Nil
  let ?p1 = "p\<lparr>up_ptr := length (pre @ urlEncode k)\<rparr>"
  let ?pre = "pre @ urlEncode k @ ''=''"
  let ?p2 = "p\<lparr>up_queryKey := k, up_mark := length ?pre, up_ptr := length ?pre\<rparr>"
  have s: "s = pre @ urlEncode k @ CHR ''='' # urlEncode v" using Nil(1) by (simp add: parameters_text_def)
  have "uri_loop s p = uri_loop s ?p1"
    by (rule uri_loop_inert [of s pre "urlEncode k" "CHR ''='' # urlEncode v"]) (use Nil s urlEncode_inert in auto)
  also have "\<dots> = uri_loop s ?p2"
    using uri_loop_step [of s "pre @ urlEncode k" "CHR ''=''" "urlEncode v" ?p1] Nil(2-4)
      share_mid [of pre "urlEncode k" "CHR ''='' # urlEncode v"] s
    by (simp add: uri_char_def on_equals_def shared_def)
  also have "\<dots> = uri_loop s (?p2\<lparr>up_ptr := length (?pre @ urlEncode v)\<rparr>)"
    by (rule uri_loop_inert [of s ?pre "urlEncode v" "[]"]) (use Nil s urlEncode_inert in auto)
  also have "\<dots> = Some (?p2\<lparr>up_ptr := length (?pre @ urlEncode v)\<rparr>)"
    by (rule uri_loop_end) (simp add: s)
  finally show ?case using Nil(2) s by simp
next
  case (Cons kv kvs)
  obtain k' v' where kv: "kv = (k', v')" by force
  let ?rest = "urlEncode k' @ CHR ''='' # urlEncode v' @ parameters_text kvs"
  let ?p1 = "p\<lparr>up_ptr := length (pre @ urlEncode k)\<rparr>"
  let ?pre = "pre @ urlEncode k @ ''=''"
  let ?p2 = "p\<lparr>up_queryKey := k, up_mark := length ?pre, up_ptr := length ?pre\<rparr>"
  let ?p3 = "?p2\<lparr>up_ptr := length (?pre @ urlEncode v)\<rparr>"
  let ?pre' = "?pre @ urlEncode v @ ''&''"
  let ?m = "uri_queryParameters (up_uri p)"
  let ?p4 = "p\<lparr>up_uri := (up_uri p)\<lparr>uri_queryParameters := sm_set ?m k v\<rparr>,
     up_queryKey := (if al_get ?m k = None then [] else k), up_mark := length ?pre', up_ptr := length ?pre'\<rparr>"
  have s: "s = pre @ urlEncode k @ CHR ''='' # urlEncode v @ CHR ''&'' # ?rest"
    using Cons.prems(1) by (simp add: parameters_text_def kv)
  have sh: "share s (Suc (length pre + length (urlEncode k)))
      (Suc (length pre + (length (urlEncode k) + length (urlEncode v)))) = Some (urlEncode v)"
    unfolding s using share_mid [of ?pre "urlEncode v" "CHR ''&'' # ?rest"] by (simp add: add.assoc)
  have "uri_loop s p = uri_loop s ?p1"
    by (rule uri_loop_inert [of s pre "urlEncode k" "CHR ''='' # urlEncode v @ CHR ''&'' # ?rest"])
       (use Cons.prems s urlEncode_inert in auto)
  also have "\<dots> = uri_loop s ?p2"
    using uri_loop_step [of s "pre @ urlEncode k" "CHR ''=''" "urlEncode v @ CHR ''&'' # ?rest" ?p1] Cons.prems(2-4)
      share_mid [of pre "urlEncode k" "CHR ''='' # urlEncode v @ CHR ''&'' # ?rest"] s
    by (simp add: uri_char_def on_equals_def shared_def)
  also have "\<dots> = uri_loop s ?p3"
    by (rule uri_loop_inert [of s ?pre "urlEncode v" "CHR ''&'' # ?rest"]) (use Cons.prems s urlEncode_inert in auto)
  also have "uri_loop s ?p3 = uri_loop s ?p4"
    using uri_loop_step [of s "?pre @ urlEncode v" "CHR ''&''" ?rest ?p3] Cons.prems(2) s sh
    by (simp add: uri_char_def on_ampersand_def shared_def add_parameter_def Let_def)
  finally have "uri_loop s p = uri_loop s ?p4" .
  with Cons.IH [of ?pre' k' v' ?p4] Cons.prems(2) s show ?case by (simp add: kv)
qed

lemma build_parameters_text:
  "concat (build_parameters kvs False) = parameters_text kvs"
  "concat (build_parameters ((k, v) # kvs) True) = urlEncode k @ CHR ''='' # urlEncode v @ parameters_text kvs"
proof -
  show *: "concat (build_parameters kvs False) = parameters_text kvs" for kvs
    by (induction kvs) (auto simp: parameters_text_def)
  show "concat (build_parameters ((k, v) # kvs) True) = urlEncode k @ CHR ''='' # urlEncode v @ parameters_text kvs"
    by (simp add: *)
qed

lemma parameters_text_last: "kvs \<noteq> [] \<Longrightarrow> suffix (urlEncode (snd (last kvs))) (concat (build_parameters kvs b))"
proof (induction kvs b rule: build_parameters.induct)
  case (2 k v m isFirst)
  then show ?case by (cases m) (auto intro!: suffix_appendI suffix_ConsI)
qed simp

text \<open>From the first character of the path on: the path, then the query, to the end.\<close>

lemma uri_parse_path_query:
  assumes s: "s = pre @ path_text F @ (if kvs = [] then [] else CHR ''?'' # concat (build_parameters kvs True))"
    and p: "up_state p = Path" "up_pathMark p = length pre" "up_mark p = length pre + 1" "up_ptr p = length pre + 1"
      "uri_pathFragments (up_uri p) = []" "uri_queryParameters (up_uri p) = []"
    and wf: "\<forall>g \<in> set F. CHR ''/'' \<notin> set g" "F \<noteq> []" "last F \<noteq> []" "sm_inv kvs"
      "kvs \<noteq> [] \<Longrightarrow> snd (last kvs) \<noteq> []"
  shows "Option.bind (uri_loop s p) (uri_finish s) =
    Some ((up_uri p)\<lparr>uri_pathFragments := F, uri_path := concat (map (\<lambda>f. CHR ''/'' # f) F),
      uri_queryParameters := kvs\<rparr>)"
proof -
  let ?pre = "pre @ ''/''" and ?path = "path_text F"
  let ?q = "if kvs = [] then [] else CHR ''?'' # concat (build_parameters kvs True)"
  let ?last = "urlEncode (last F)"
  let ?mid = "pre @ ?path"
  let ?p1 = "p\<lparr>up_uri := (up_uri p)\<lparr>uri_pathFragments := butlast F\<rparr>,
      up_mark := length ?mid - length ?last, up_ptr := length ?mid\<rparr>"
  obtain f fs where F: "F = f # fs" using wf(2) by (cases F) auto
  have path: "?path = CHR ''/'' # urlEncode f @ path_text fs" by (simp add: path_text_def F)
  have loop: "uri_loop s p = uri_loop s ?p1"
    using uri_loop_path [of s ?pre f fs ?q p] p wf(1) s by (simp add: path [unfolded F] F)
  let ?ini = "pre @ path_text (butlast F) @ ''/''"
  have split: "?mid = ?ini @ ?last" using path_text_last [OF wf(2)] by simp
  have sq: "s = ?ini @ ?last @ ?q" using s split by simp
  have lengths: "length ?mid = length ?ini + length ?last" using split by (metis length_append)
  have frag: "share s (length ?mid - length ?last) (length ?mid) = Some ?last"
    unfolding sq lengths using share_mid [of ?ini ?last ?q] by simp
  have whole: "share s (length pre) (length ?mid) = Some ?path"
    unfolding s using share_mid [of pre ?path ?q] by simp
  have longer: "length ?mid - length ?last < length ?mid" using wf(3) lengths by simp
  show ?thesis
  proof (cases kvs)
    case Nil
    have "uri_loop s ?p1 = Some ?p1" by (rule uri_loop_end) (simp add: s Nil)
    with loop frag whole longer p urlDecode_path_text [of F] wf(2) show ?thesis
      by (simp add: uri_finish_def shared_def add_fragment_def set_path_def Nil)
  next
    case (Cons kv kvs')
    obtain k v where kv: "kv = (k, v)" by force
    have q: "?q = CHR ''?'' # urlEncode k @ CHR ''='' # urlEncode v @ parameters_text kvs'"
      by (simp add: Cons kv build_parameters_text del: build_parameters.simps)
    let ?u2 = "(up_uri p)\<lparr>uri_pathFragments := F, uri_path := concat (map (\<lambda>f. CHR ''/'' # f) F)\<rparr>"
    let ?p2 = "p\<lparr>up_uri := ?u2, up_mark := length ?mid + 1, up_state := Query, up_ptr := length ?mid + 1\<rparr>"
    have query: "uri_loop s ?p1 = uri_loop s ?p2"
      using uri_loop_step [of s ?mid "CHR ''?''" "urlEncode k @ CHR ''='' # urlEncode v @ parameters_text kvs'" ?p1]
        frag whole longer p urlDecode_path_text [of F] s q wf(2)
      by (simp add: uri_char_def on_question_def shared_def add_fragment_def set_path_def Let_def)
    from uri_loop_query [of s "?mid @ ''?''" k v kvs' ?p2] s q p(6)
    obtain r where r: "uri_loop s ?p2 = Some r" "up_state r = Query" "up_ptr r = length s"
      "up_queryKey r = fst (last kvs)" "up_mark r = length s - length (urlEncode (snd (last kvs)))"
      "up_uri r = ?u2\<lparr>uri_queryParameters := foldl (\<lambda>m (k, v). sm_set m k v) [] (butlast kvs)\<rparr>"
      by (auto simp: Cons kv)
    let ?v = "urlEncode (snd (last kvs))"
    obtain t where t: "s = t @ ?v"
      using parameters_text_last [of kvs True] unfolding s by (auto simp: Cons suffix_def simp del: build_parameters.simps)
    have "share s (length s - length ?v) (length s) = Some ?v"
      using share_mid [of t ?v "[]"] t by simp
    moreover have "length s - length ?v < length s" using wf(5) t by (simp add: Cons)
    moreover have "sm_set (foldl (\<lambda>m (k, v). sm_set m k v) [] (butlast kvs)) (fst (last kvs)) (snd (last kvs)) = kvs"
    proof -
      have "butlast kvs @ [last kvs] = kvs" by (simp add: Cons)
      then have "foldl (\<lambda>m (k, v). sm_set m k v) [] (butlast kvs @ [last kvs]) = kvs"
        using foldl_sm_set_sorted [of "[]" kvs] wf(4) by simp
      then show ?thesis by (simp add: case_prod_beta)
    qed
    ultimately show ?thesis
      using loop query r
      by (simp add: uri_finish_def shared_def add_parameter_def Let_def)
  qed
qed


text \<open>The URIs that \<open>build\<close> writes without loss.\<close>

definition uri_wf :: "uri \<Rightarrow> bool" where
  "uri_wf u \<longleftrightarrow>
     CHR ''/'' \<notin> set (uri_protocol u) \<and> CHR ''/'' \<notin> set (uri_hostname u) \<and> CHR ''/'' \<notin> set (uri_port u) \<and>
     (uri_protocol u = [] \<longrightarrow> uri_hostname u = [] \<and> uri_port u = []) \<and>
     uri_pathFragments u \<noteq> [] \<and> last (uri_pathFragments u) \<noteq> [] \<and>
     (\<forall>f \<in> set (uri_pathFragments u). CHR ''/'' \<notin> set f) \<and>
     uri_path u = concat (map (\<lambda>f. CHR ''/'' # f) (uri_pathFragments u)) \<and>
     sm_inv (uri_queryParameters u) \<and>
     (uri_queryParameters u \<noteq> [] \<longrightarrow> snd (last (uri_queryParameters u)) \<noteq> [])"

definition query_text :: "uri \<Rightarrow> string" where
  "query_text u =
     (if uri_queryParameters u = [] then [] else CHR ''?'' # concat (build_parameters (uri_queryParameters u) True))"

definition authority_text :: "uri \<Rightarrow> string" where
  "authority_text u =
     (if uri_protocol u = [] then []
      else urlEncode (uri_protocol u) @ ''://'' @ urlEncode (uri_hostname u) @
           (if uri_port u = [] then [] else CHR '':'' # uri_port u))"

lemma uri_build_text:
  assumes "uri_pathFragments u \<noteq> []"
  shows "concat (uri_build u) = authority_text u @ path_text (uri_pathFragments u) @ query_text u"
proof -
  have "concat (concat (map (\<lambda>f. [''/'', urlEncode f]) fs)) = path_text fs" for fs
    by (induction fs) (simp_all add: path_text_def)
  with assms show ?thesis by (simp add: uri_build_def authority_text_def query_text_def)
qed

lemma uri_loop_authority:
  assumes "uri_wf u"
    and s: "s = authority_text u @ CHR ''/'' # rest"
  shows "\<exists>p. uri_loop s (start_parser empty_uri) = uri_loop s p \<and> up_state p = Path \<and>
     up_pathMark p = length (authority_text u) \<and> up_mark p = length (authority_text u) + 1 \<and>
     up_ptr p = length (authority_text u) + 1 \<and>
     up_uri p = \<lparr>uri_protocol = uri_protocol u, uri_hostname = uri_hostname u, uri_port = uri_port u,
       uri_path = [], uri_pathFragments = [], uri_queryParameters = []\<rparr>"
proof (cases "uri_protocol u = []")
  case True
  with assms have [simp]: "authority_text u = []" "uri_hostname u = []" "uri_port u = []"
    by (simp_all add: authority_text_def uri_wf_def)
  from uri_loop_step [of s "[]" "CHR ''/''" rest "start_parser empty_uri"] s show ?thesis
    by (auto simp: start_parser_def empty_uri_def uri_char_def on_slash_def Let_def True)
next
  case False
  let ?a = "urlEncode (uri_protocol u)" and ?h = "urlEncode (uri_hostname u)"
  let ?port = "if uri_port u = [] then [] else CHR '':'' # uri_port u"
  let ?u1 = "empty_uri\<lparr>uri_protocol := uri_protocol u\<rparr>"
  let ?host = "?a @ ''://''"
  have s1: "s = ?a @ CHR '':'' # ''//'' @ ?h @ ?port @ CHR ''/'' # rest"
    using s False by (simp add: authority_text_def)
  have wf: "CHR ''/'' \<notin> set (uri_protocol u)" "CHR ''/'' \<notin> set (uri_hostname u)" "CHR ''/'' \<notin> set (uri_port u)"
    using assms by (simp_all add: uri_wf_def)
  let ?p0 = "(start_parser empty_uri)\<lparr>up_ptr := length ?a\<rparr>"
  let ?p1 = "(start_parser ?u1)\<lparr>up_ptr := length ?host, up_mark := length ?host, up_state := Hostname\<rparr>"
  let ?p2 = "?p1\<lparr>up_ptr := length (?host @ ?h)\<rparr>"
  have "uri_loop s (start_parser empty_uri) = uri_loop s ?p0"
    using uri_loop_inert [of s "[]" ?a "CHR '':'' # ''//'' @ ?h @ ?port @ CHR ''/'' # rest" "start_parser empty_uri"]
      s1 urlEncode_inert(2) [OF wf(1)] by (simp add: start_parser_def)
  also have "\<dots> = uri_loop s ?p1"
    using uri_loop_step [of s ?a "CHR '':''" "''//'' @ ?h @ ?port @ CHR ''/'' # rest" ?p0] s1
      share_mid [of "[]" ?a "CHR '':'' # ''//'' @ ?h @ ?port @ CHR ''/'' # rest"]
    by (simp add: start_parser_def uri_char_def on_colon_def shared_def Let_def numeral_3_eq_3)
  also have "\<dots> = uri_loop s ?p2"
    by (rule uri_loop_inert [of s ?host ?h "?port @ CHR ''/'' # rest"])
       (use s1 urlEncode_inert(3) [OF wf(2)] in \<open>simp_all add: start_parser_def\<close>)
  finally have start: "uri_loop s (start_parser empty_uri) = uri_loop s ?p2" .
  have host: "share s (length ?host) (length (?host @ ?h)) = Some ?h"
    using share_mid [of ?host ?h "?port @ CHR ''/'' # rest"] s1 by (simp add: add.assoc)
  show ?thesis
  proof (cases "uri_port u = []")
    case True
    from uri_loop_step [of s "?host @ ?h" "CHR ''/''" rest ?p2] s1 host start True False show ?thesis
      by (auto simp: start_parser_def uri_char_def on_slash_def shared_def set_hostname_def Let_def
          authority_text_def empty_uri_def)
  next
    case port: False
    let ?pre = "?host @ ?h @ '':''"
    let ?p3 = "?p2\<lparr>up_uri := ?u1\<lparr>uri_hostname := uri_hostname u\<rparr>, up_mark := length ?pre,
       up_state := Port, up_ptr := length ?pre\<rparr>"
    let ?p4 = "?p3\<lparr>up_ptr := length (?pre @ uri_port u)\<rparr>"
    have "uri_loop s ?p2 = uri_loop s ?p3"
      using uri_loop_step [of s "?host @ ?h" "CHR '':''" "uri_port u @ CHR ''/'' # rest" ?p2] s1 host port
      by (simp add: start_parser_def uri_char_def on_colon_def shared_def set_hostname_def Let_def)
    also have "\<dots> = uri_loop s ?p4"
      by (rule uri_loop_inert [of s ?pre "uri_port u" "CHR ''/'' # rest"])
         (use s1 wf(3) port in \<open>auto simp: start_parser_def\<close>)
    finally have "uri_loop s (start_parser empty_uri) = uri_loop s ?p4" using start by simp
    moreover have "share s (length ?pre) (length (?pre @ uri_port u)) = Some (uri_port u)"
      using share_mid [of ?pre "uri_port u" "CHR ''/'' # rest"] s1 port by (simp add: add.assoc)
    ultimately show ?thesis
      using uri_loop_step [of s "?pre @ uri_port u" "CHR ''/''" rest ?p4] s1 port False
      by (auto simp: start_parser_def uri_char_def on_slash_def shared_def set_port_def Let_def
          authority_text_def empty_uri_def)
  qed
qed

text \<open>
  C30. Parsing the text that \<open>Uri::build\<close> wrote gives the URI back, with every part (protocol, host name,
  port, path, path fragments, query parameters), for a URI with these properties: no slash in the protocol,
  the host name, the port or a path fragment (\<open>urlEncode\<close> leaves slashes alone); no host name and port without a
  protocol; at least one path fragment, the last one not empty; the path is the fragments with a slash before
  each; the query parameters have one value per key; and the last query value is not empty.
\<close>

theorem uri_build_parse:
  assumes "uri_wf u"
  shows "uri_parse (concat (uri_build u)) empty_uri = Some u"
proof -
  let ?s = "concat (uri_build u)" and ?F = "uri_pathFragments u"
  have wf: "\<forall>g \<in> set ?F. CHR ''/'' \<notin> set g" "?F \<noteq> []" "last ?F \<noteq> []" "sm_inv (uri_queryParameters u)"
    "uri_queryParameters u \<noteq> [] \<Longrightarrow> snd (last (uri_queryParameters u)) \<noteq> []"
    "uri_path u = concat (map (\<lambda>f. CHR ''/'' # f) ?F)"
    using assms by (simp_all add: uri_wf_def)
  have s: "?s = authority_text u @ path_text ?F @ query_text u" by (rule uri_build_text [OF wf(2)])
  obtain rest where rest: "path_text ?F = CHR ''/'' # rest" using wf(2) by (cases ?F) (auto simp: path_text_def)
  obtain p where p: "uri_loop ?s (start_parser empty_uri) = uri_loop ?s p" "up_state p = Path"
    "up_pathMark p = length (authority_text u)" "up_mark p = length (authority_text u) + 1"
    "up_ptr p = length (authority_text u) + 1"
    "up_uri p = \<lparr>uri_protocol = uri_protocol u, uri_hostname = uri_hostname u, uri_port = uri_port u,
       uri_path = [], uri_pathFragments = [], uri_queryParameters = []\<rparr>"
    using uri_loop_authority [OF assms, of ?s "rest @ query_text u"] s rest by auto
  have "Option.bind (uri_loop ?s p) (uri_finish ?s) =
     Some ((up_uri p)\<lparr>uri_pathFragments := ?F, uri_path := concat (map (\<lambda>f. CHR ''/'' # f) ?F),
      uri_queryParameters := uri_queryParameters u\<rparr>)"
    by (rule uri_parse_path_query [of _ "authority_text u"]) (use s p wf in \<open>simp_all add: query_text_def\<close>)
  then show ?thesis
    unfolding uri_parse_def p(1) by (simp add: p(6) wf(6) [symmetric])
qed

definition example_uri :: uri where
  "example_uri = \<lparr>uri_protocol = ''http'', uri_hostname = ''[::1]'', uri_port = ''81'', uri_path = ''/a b/c'',
     uri_pathFragments = [''a b'', ''c''], uri_queryParameters = [(''k'', ''1&2''), (''l'', ''x'')]\<rparr>"

theorem uri_build_parse_witness: "uri_parse (concat (uri_build example_uri)) empty_uri = Some example_uri"
  by (rule uri_build_parse) code_simp

text \<open>
  \<open>Uri::parse\<close> is total on every text: each slice it takes lies inside the text, with its begin mark not
  behind its end, although the loop skips characters without a check after a protocol and a host name.
\<close>

theorem uri_parse_total: "\<exists>u'. uri_parse s u = Some u'"
proof -
  have "up_ok s (start_parser u)" by (simp add: up_ok_def start_parser_def)
  then obtain q where "uri_loop s (start_parser u) = Some q" "up_ok s q" using uri_loop_ok by blast
  with uri_finish_ok [of s q] show ?thesis by (simp add: uri_parse_def)
qed

section \<open>Texts the parser does not read as \<open>build\<close> writes them\<close>

text \<open>
  After a bracketed host without a port the parser is in state \<open>Path\<close> before it has seen the first slash, and
  the slash ends an empty fragment; a query right behind the host is taken into the host name; a parameter
  without a value is assigned to the key before it when that key was a repeated one; and the last parameter
  is dropped when its value is empty.
\<close>

lemma uri_parse_v6_fragment:
  "uri_parse ''http://[::1]/a'' empty_uri =
     Some (empty_uri\<lparr>uri_protocol := ''http'', uri_hostname := ''[::1]'', uri_path := ''/a'',
       uri_pathFragments := [[], ''a'']\<rparr>)"
  by code_simp

lemma uri_parse_host_query:
  "uri_parse ''http://h?x=1'' empty_uri =
     Some (empty_uri\<lparr>uri_protocol := ''http'', uri_hostname := ''h?x=1''\<rparr>)"
  by code_simp

lemma uri_parse_repeated_key:
  "map_option uri_queryParameters (uri_parse ''/?a=1&a=2&b'' empty_uri) = Some [(''a'', ''b'')]"
  by code_simp

lemma uri_parse_empty_last_value:
  "map_option uri_queryParameters (uri_parse ''/?a=1&b='' empty_uri) = Some [(''a'', ''1'')]"
  by code_simp

end
