(* ===== verification/HttpForm.thy ===== *)
theory HttpForm
  imports Uri
begin

text \<open>
  URL encoded forms (\<open>src/Http/HttpForm.cpp\<close>, \<open>include/CPVFramework/Http/HttpForm.hpp\<close>) and the cookies of a
  request (\<open>src/Http/HttpRequestCookies.cpp\<close>). The text between \<open>mark\<close> and \<open>ptr\<close> is the accumulator of the
  loops. \<open>formParameters_[std::move(key)]\<close> moves the key only when it inserts a new entry.
\<close>

section \<open>Forms\<close>

type_synonym form = "(string, string list) smap"

definition form_get :: "form \<Rightarrow> string \<Rightarrow> string" where
  "form_get m key = (case al_get m key of Some (v # vs) \<Rightarrow> v | _ \<Rightarrow> [])"

definition form_getMany :: "form \<Rightarrow> string \<Rightarrow> string list" where
  "form_getMany m key = (case al_get m key of Some vs \<Rightarrow> vs | None \<Rightarrow> [])"

definition form_add :: "form \<Rightarrow> string \<Rightarrow> string \<Rightarrow> form" where
  "form_add m key value = sm_set m key (form_getMany m key @ [value])"

definition form_remove :: "form \<Rightarrow> string \<Rightarrow> form" where
  "form_remove m key = al_erase m key"

text \<open>What is left of the key after \<open>add(std::move(key), ...)\<close>.\<close>

definition key_after_add :: "form \<Rightarrow> string \<Rightarrow> string" where
  "key_after_add m key = (if al_get m key = None then [] else key)"

fun form_loop :: "string \<Rightarrow> string \<Rightarrow> string \<Rightarrow> form \<Rightarrow> string \<times> string \<times> form" where
  "form_loop [] seg key m = (seg, key, m)"
| "form_loop (c # s) seg key m =
     (if c = CHR ''='' then form_loop s [] (urlDecode seg) m
      else if c = CHR ''&'' then form_loop s [] (key_after_add m key) (form_add m key (urlDecode seg))
      else form_loop s (seg @ [c]) key m)"

definition parseUrlEncoded :: "form \<Rightarrow> string \<Rightarrow> form" where
  "parseUrlEncoded m body =
     (case form_loop body [] [] m of
        (seg, key, m') \<Rightarrow> if seg \<noteq> [] \<or> key \<noteq> [] then form_add m' key (urlDecode seg) else m')"

definition form_pairs :: "form \<Rightarrow> (string \<times> string) list" where
  "form_pairs m = concat (map (\<lambda>(k, vs). map (\<lambda>v. (k, v)) vs) m)"

text \<open>The two nested loops run through the pairs; the fragments are those of a query string.\<close>

definition buildUrlEncoded :: "form \<Rightarrow> string list" where
  "buildUrlEncoded m = build_parameters (form_pairs m) True"

lemma form_loop_append:
  "form_loop (s @ t) seg key m = (case form_loop s seg key m of (seg', key', m') \<Rightarrow> form_loop t seg' key' m')"
  by (induction s seg key m rule: form_loop.induct) simp_all

lemma form_loop_inert:
  "\<forall>c \<in> set s. c \<noteq> CHR ''='' \<and> c \<noteq> CHR ''&'' \<Longrightarrow> form_loop s seg key m = (seg @ s, key, m)"
  by (induction s arbitrary: seg) auto

lemma form_loop_encoded [simp]: "form_loop (urlEncode x) seg key m = (seg @ urlEncode x, key, m)"
  using urlEncode_inert(1) [of _ x] by (intro form_loop_inert) auto

text \<open>Reading pairs: every key is set by its own equals sign.\<close>

lemma form_loop_pairs:
  "form_loop (urlEncode k @ CHR ''='' # urlEncode v @ parameters_text kvs) [] key m =
     (urlEncode (snd (last ((k, v) # kvs))), fst (last ((k, v) # kvs)),
      foldl (\<lambda>m (k, v). form_add m k v) m (butlast ((k, v) # kvs)))"
proof (induction kvs arbitrary: k v key m)
  case Nil
  show ?case by (simp add: parameters_text_def form_loop_append)
next
  case (Cons kv kvs)
  obtain k' v' where kv: "kv = (k', v')" by force
  have "form_loop (urlEncode k @ CHR ''='' # urlEncode v @ parameters_text (kv # kvs)) [] key m =
    form_loop (urlEncode k' @ CHR ''='' # urlEncode v' @ parameters_text kvs) [] (key_after_add m k) (form_add m k v)"
    by (simp add: parameters_text_def kv form_loop_append)
  with Cons.IH [of k' v' "key_after_add m k" "form_add m k v"] show ?case by (simp add: kv)
qed

lemma parse_pairs:
  assumes "kvs \<noteq> []" "last kvs \<noteq> ([], [])"
  shows "parseUrlEncoded m (concat (build_parameters kvs True)) = foldl (\<lambda>m (k, v). form_add m k v) m kvs"
proof -
  obtain k v kvs' where kvs: "kvs = (k, v) # kvs'" using assms(1) by (cases kvs) auto
  have body: "concat (build_parameters kvs True) = urlEncode k @ CHR ''='' # urlEncode v @ parameters_text kvs'"
    unfolding kvs by (rule build_parameters_text)
  have cond: "urlEncode (snd (last kvs)) \<noteq> [] \<or> fst (last kvs) \<noteq> []"
    using assms(2) by (cases "last kvs") auto
  have "foldl (\<lambda>m (k, v). form_add m k v) m (butlast kvs @ [last kvs]) = foldl (\<lambda>m (k, v). form_add m k v) m kvs"
    using assms(1) by simp
  with cond show ?thesis
    unfolding parseUrlEncoded_def body form_loop_pairs kvs [symmetric] by (auto simp: case_prod_beta)
qed

text \<open>Adding the pairs of a sorted form one after the other builds the form.\<close>

lemma form_add_values:
  assumes "\<forall>k' \<in> fst ` set m. k' < k" "vs \<noteq> []"
  shows "foldl (\<lambda>m (k, v). form_add m k v) m (map (\<lambda>v. (k, v)) vs) = m @ [(k, vs)]"
  using assms(2)
proof (induction vs rule: rev_nonempty_induct)
  case (single v)
  have "al_get m k = None" using assms(1) by (auto simp: al_get_None_iff)
  with assms(1) show ?case by (simp add: form_add_def form_getMany_def sm_set_append)
next
  case (snoc v vs)
  have "al_get m k = None" using assms(1) by (auto simp: al_get_None_iff)
  moreover have "sm_set (m @ [(k, vs)]) k w = m @ [(k, w)]" for w
    using assms(1) by (induction m) (auto dest: less_asym)
  ultimately show ?case
    using snoc by (simp add: form_add_def form_getMany_def al_get_append)
qed

lemma foldl_form_add:
  "sm_inv (m @ kvs) \<Longrightarrow> \<forall>(k, vs) \<in> set kvs. vs \<noteq> [] \<Longrightarrow>
   foldl (\<lambda>m (k, v). form_add m k v) m (form_pairs kvs) = m @ kvs"
proof (induction kvs arbitrary: m)
  case (Cons kv kvs)
  obtain k vs where kv: "kv = (k, vs)" by force
  have "foldl (\<lambda>m (k, v). form_add m k v) m (map (\<lambda>v. (k, v)) vs) = m @ [(k, vs)]"
    using Cons.prems by (intro form_add_values) (auto simp: kv sm_inv_def sorted_wrt_append)
  with Cons.IH [of "m @ [(k, vs)]"] Cons.prems show ?case by (simp add: kv form_pairs_def)
qed (simp add: form_pairs_def)

text \<open>
  C31. Parsing the body that \<open>buildUrlEncoded\<close> wrote gives the form back, with every value of every key in its
  order, for a form that is not empty, in which every key has a value and whose last pair is not an empty key
  with an empty value.
\<close>

theorem form_build_parse:
  assumes "sm_inv m" "m \<noteq> []" "\<forall>(k, vs) \<in> set m. vs \<noteq> []" "last (form_pairs m) \<noteq> ([], [])"
  shows "parseUrlEncoded [] (concat (buildUrlEncoded m)) = m"
proof -
  have "form_pairs m \<noteq> []" using assms(2,3) by (cases m) (auto simp: form_pairs_def)
  from parse_pairs [OF this assms(4)] foldl_form_add [of "[]" m] assms(1,3) show ?thesis
    by (simp add: buildUrlEncoded_def)
qed

theorem form_build_parse_witness:
  "parseUrlEncoded [] (concat (buildUrlEncoded [(''a'', [''1'', ''2 3'']), (''b'', [[]])])) =
     [(''a'', [''1'', ''2 3'']), (''b'', [[]])]"
  by (rule form_build_parse) (simp_all add: form_pairs_def sm_inv_def)

text \<open>A key that is present is not moved from, and the end of the body adds an empty value to it.\<close>

lemma form_repeated_key: "parseUrlEncoded [] ''a=1&a=2&'' = [(''a'', [''1'', ''2'', []])]"
  by code_simp

section \<open>Cookies\<close>

type_synonym cookies = "(string, string) smap"

definition cookies_get :: "cookies \<Rightarrow> string \<Rightarrow> string" where
  "cookies_get m key = (case al_get m key of Some v \<Rightarrow> v | None \<Rightarrow> [])"

definition add_cookie :: "cookies \<Rightarrow> string \<Rightarrow> string \<Rightarrow> cookies" where
  "add_cookie m key value =
     (if key \<noteq> [] then sm_set m key value else if value \<noteq> [] then sm_set m value [] else m)"

fun cookies_loop :: "string \<Rightarrow> string \<Rightarrow> string \<Rightarrow> cookies \<Rightarrow> string \<times> string \<times> cookies" where
  "cookies_loop [] seg key m = (seg, key, m)"
| "cookies_loop (c # s) seg key m =
     (if c = CHR ''='' then cookies_loop s [] (trimString seg blanks) m
      else if c = CHR '';'' then cookies_loop s [] [] (add_cookie m key (trimString seg blanks))
      else cookies_loop s (seg @ [c]) key m)"

definition cookies_parse :: "cookies \<Rightarrow> string \<Rightarrow> cookies" where
  "cookies_parse m text =
     (case cookies_loop text [] [] m of
        (seg, key, m') \<Rightarrow> if seg \<noteq> [] then add_cookie m' key (trimString seg blanks) else m')"

definition cookies_clear :: "cookies \<Rightarrow> cookies" where
  "cookies_clear m = []"

text \<open>The header a client sends: \<open>k=v; k=v; ...\<close>\<close>

fun cookies_text :: "(string \<times> string) list \<Rightarrow> string" where
  "cookies_text [] = []"
| "cookies_text [(k, v)] = k @ CHR ''='' # v"
| "cookies_text ((k, v) # kvs) = k @ CHR ''='' # v @ ''; '' @ cookies_text kvs"

definition cookie_word :: "string \<Rightarrow> bool" where
  "cookie_word w \<longleftrightarrow> w \<noteq> [] \<and> CHR ''='' \<notin> set w \<and> CHR '';'' \<notin> set w \<and>
     hd w \<notin> set blanks \<and> last w \<notin> set blanks"

lemma trimString_word: "cookie_word w \<Longrightarrow> trimString w blanks = w"
proof -
  have keep: "dropWhile (\<lambda>c. c \<in> set blanks) x = x" if "x \<noteq> []" "hd x \<notin> set blanks" for x
    using that by (cases x) auto
  show "cookie_word w \<Longrightarrow> trimString w blanks = w"
    unfolding trimString_def cookie_word_def Let_def by (simp add: keep hd_rev)
qed

lemma trimString_space_word: "cookie_word w \<Longrightarrow> trimString (CHR '' '' # w) blanks = w"
  using trimString_word [of w] by (simp add: trimString_def blanks_def)

lemma cookies_loop_inert:
  "\<forall>c \<in> set s. c \<noteq> CHR ''='' \<and> c \<noteq> CHR '';'' \<Longrightarrow> cookies_loop (s @ t) seg key m = cookies_loop t (seg @ s) key m"
  by (induction s arbitrary: seg) auto

lemma cookies_loop_word: "cookie_word w \<Longrightarrow> cookies_loop (w @ t) seg key m = cookies_loop t (seg @ w) key m"
  by (rule cookies_loop_inert) (auto simp: cookie_word_def)

lemma cookies_parse_pairs:
  assumes "\<forall>(k, v) \<in> set kvs. cookie_word k \<and> cookie_word v" "kvs \<noteq> []" "sp = [] \<or> sp = '' ''"
  shows "(case cookies_loop (cookies_text kvs) sp [] m of
        (seg, key, m') \<Rightarrow> if seg \<noteq> [] then add_cookie m' key (trimString seg blanks) else m')
     = sm.assign_all m kvs"
  using assms
proof (induction kvs arbitrary: m sp rule: cookies_text.induct)
  case (2 k v)
  have w: "cookie_word k" "cookie_word v" using "2.prems"(1) by auto
  have "trimString (sp @ k) blanks = k"
    using "2.prems"(3) trimString_word [OF w(1)] trimString_space_word [OF w(1)] by auto
  moreover have "k \<noteq> []" "v \<noteq> []" using w by (auto simp: cookie_word_def)
  moreover have "cookies_loop v [] k m = (v, k, m)" using cookies_loop_word [OF w(2), of "[]" "[]"] by simp
  ultimately show ?case
    using w by (simp add: cookies_loop_word trimString_word add_cookie_def sm.assign_all_def)
next
  case (3 k v kv kvs)
  have w: "cookie_word k" "cookie_word v" using "3.prems"(1) by auto
  have "trimString (sp @ k) blanks = k"
    using "3.prems"(3) trimString_word [OF w(1)] trimString_space_word [OF w(1)] by auto
  moreover have "k \<noteq> []" using w by (auto simp: cookie_word_def)
  ultimately have "cookies_loop (cookies_text ((k, v) # kv # kvs)) sp [] m =
      cookies_loop (cookies_text (kv # kvs)) '' '' [] (sm_set m k v)"
    using w by (simp add: cookies_loop_word trimString_word add_cookie_def)
  with "3.IH" [of "'' ''" "sm_set m k v"] "3.prems"(1) show ?case by (simp add: sm.assign_all_def)
qed simp

text \<open>
  Parsing a \<open>Cookie\<close> header adds its pairs to the cookies: a name has the value of its last pair in the
  header, and every other name keeps what it had, when names and values are not empty, are free of
  semicolons and equals signs, and do not begin or end with a blank.
\<close>

theorem cookies_parse_lookup:
  assumes "\<forall>(k, v) \<in> set kvs. cookie_word k \<and> cookie_word v" "kvs \<noteq> []"
  shows "cookies_get (cookies_parse m (cookies_text kvs)) name =
    (case map_of (rev kvs) name of Some v \<Rightarrow> v | None \<Rightarrow> cookies_get m name)"
  using cookies_parse_pairs [OF assms, of "[]" m]
  by (simp add: cookies_parse_def cookies_get_def sm.lookup_assign_all split: option.split)

theorem cookies_parse_lookup_witness:
  "cookies_get (cookies_parse [(''x'', ''0'')] (cookies_text [(''a'', ''1''), (''b'', ''2'')])) ''b'' =
    (case map_of (rev [(''a'', ''1''), (''b'', ''2'')]) ''b'' of Some v \<Rightarrow> v | None \<Rightarrow> cookies_get [(''x'', ''0'')] ''b'')"
  by (rule cookies_parse_lookup) (simp_all add: cookie_word_def blanks_def)

text \<open>An equals sign inside a value starts a new key: a padded base64 value loses its cookie.\<close>

lemma cookies_parse_padding: "cookies_parse [] ''token=YWI=; a=1'' = [(''YWI'', []), (''a'', ''1'')]"
  by code_simp

end
