(* ===== verification/LRUCache.thy ===== *)
theory LRUCache
  imports KeyMap
begin

text \<open>
  \<open>include/CPVFramework/Utility/LRUCache.hpp\<close>. A \<open>std::list\<close> is the list of its nodes, each with an identity,
  and an iterator is the identity of a node: it stays valid when other nodes move, and erasing or splicing
  through an iterator whose node is gone, which is undefined in C++, is \<^const>\<open>None\<close>. The map holds the
  iterators.

  The invariant \<open>lru_inv\<close> says that map and list describe the same nodes; \<open>lru_abs\<close> is the list of pairs in
  the order of their last use. The locale \<open>recency_cache\<close> is what the users of the cache rely on, interpreted
  on the operations below.
\<close>

record ('k, 'v) lru =
  lru_list :: "(nat \<times> 'k \<times> 'v) list"
  lru_map :: "('k, nat) smap"
  lru_maxSize :: nat
  lru_fresh :: nat

definition lru_new :: "nat \<Rightarrow> ('k :: linorder, 'v) lru" where
  "lru_new maxSize = \<lparr>lru_list = [], lru_map = [], lru_maxSize = maxSize, lru_fresh = 0\<rparr>"

definition list_erase :: "nat \<Rightarrow> (nat \<times> 'k \<times> 'v) list \<Rightarrow> (nat \<times> 'k \<times> 'v) list option" where
  "list_erase it xs = (if it \<in> fst ` set xs then Some (filter (\<lambda>n. fst n \<noteq> it) xs) else None)"

text \<open>\<open>list_.splice(list_.begin(), list_, it)\<close>\<close>

definition list_to_front :: "nat \<Rightarrow> (nat \<times> 'k \<times> 'v) list \<Rightarrow> (nat \<times> 'k \<times> 'v) list option" where
  "list_to_front it xs =
     (case find (\<lambda>n. fst n = it) xs of
        Some n \<Rightarrow> Some (n # filter (\<lambda>n. fst n \<noteq> it) xs)
      | None \<Rightarrow> None)"

definition lru_drop_key :: "('k :: linorder, 'v) lru \<Rightarrow> 'k \<Rightarrow> ('k, 'v) lru option" where
  "lru_drop_key c key =
     (case al_get (lru_map c) key of
        None \<Rightarrow> Some c
      | Some it \<Rightarrow>
          map_option (\<lambda>xs. c\<lparr>lru_list := xs, lru_map := al_erase (lru_map c) key\<rparr>) (list_erase it (lru_list c)))"

definition lru_push :: "('k :: linorder, 'v) lru \<Rightarrow> 'k \<Rightarrow> 'v \<Rightarrow> ('k, 'v) lru" where
  "lru_push c key value =
     c\<lparr>lru_list := (lru_fresh c, key, value) # lru_list c,
       lru_map := sm_emplace (lru_map c) key (lru_fresh c),
       lru_fresh := lru_fresh c + 1\<rparr>"

definition lru_evict :: "('k :: linorder, 'v) lru \<Rightarrow> ('k, 'v) lru option" where
  "lru_evict c =
     (if length (lru_map c) > lru_maxSize c then
        (if lru_list c = [] then None
         else Some (c\<lparr>lru_map := al_erase (lru_map c) (fst (snd (last (lru_list c)))),
                      lru_list := butlast (lru_list c)\<rparr>))
      else Some c)"

definition lru_set :: "('k :: linorder, 'v) lru \<Rightarrow> 'k \<Rightarrow> 'v \<Rightarrow> ('k, 'v) lru option" where
  "lru_set c key value = Option.bind (lru_drop_key c key) (\<lambda>c. lru_evict (lru_push c key value))"

definition lru_get :: "('k :: linorder, 'v) lru \<Rightarrow> 'k \<Rightarrow> ('v option \<times> ('k, 'v) lru) option" where
  "lru_get c key =
     (case al_get (lru_map c) key of
        None \<Rightarrow> Some (None, c)
      | Some it \<Rightarrow>
          map_option (\<lambda>xs. (Some (snd (snd (hd xs))), c\<lparr>lru_list := xs\<rparr>)) (list_to_front it (lru_list c)))"

definition lru_erase :: "('k :: linorder, 'v) lru \<Rightarrow> 'k \<Rightarrow> (bool \<times> ('k, 'v) lru) option" where
  "lru_erase c key =
     (case al_get (lru_map c) key of
        None \<Rightarrow> Some (False, c)
      | Some it \<Rightarrow> map_option (\<lambda>c'. (True, c')) (lru_drop_key c key))"

definition lru_clear :: "('k :: linorder, 'v) lru \<Rightarrow> ('k, 'v) lru" where
  "lru_clear c = c\<lparr>lru_list := [], lru_map := []\<rparr>"

definition lru_size :: "('k :: linorder, 'v) lru \<Rightarrow> nat" where
  "lru_size c = length (lru_map c)"

definition lru_empty :: "('k :: linorder, 'v) lru \<Rightarrow> bool" where
  "lru_empty c \<longleftrightarrow> lru_map c = []"

section \<open>The invariant and the abstraction\<close>

definition lru_abs :: "('k, 'v) lru \<Rightarrow> ('k \<times> 'v) list" where
  "lru_abs c = map snd (lru_list c)"

abbreviation nodes :: "('k, 'v) lru \<Rightarrow> ('k \<times> nat) list" where
  "nodes c \<equiv> map (\<lambda>n. (fst (snd n), fst n)) (lru_list c)"

definition lru_inv :: "('k :: linorder, 'v) lru \<Rightarrow> bool" where
  "lru_inv c \<longleftrightarrow>
     distinct (map fst (lru_list c)) \<and> distinct (map fst (lru_abs c)) \<and> sm_inv (lru_map c) \<and>
     set (lru_map c) = set (nodes c) \<and> (\<forall>i \<in> fst ` set (lru_list c). i < lru_fresh c) \<and>
     length (lru_list c) \<le> lru_maxSize c"

text \<open>The same without the bound on the size, as inside \<open>set\<close>.\<close>

definition lru_linked :: "('k :: linorder, 'v) lru \<Rightarrow> bool" where
  "lru_linked c \<longleftrightarrow>
     distinct (map fst (lru_list c)) \<and> distinct (map fst (lru_abs c)) \<and> sm_inv (lru_map c) \<and>
     set (lru_map c) = set (nodes c) \<and> (\<forall>i \<in> fst ` set (lru_list c). i < lru_fresh c)"

lemma lru_inv_iff: "lru_inv c \<longleftrightarrow> lru_linked c \<and> length (lru_list c) \<le> lru_maxSize c"
  by (auto simp: lru_inv_def lru_linked_def)

lemma al_get_set_iff: "al_inv m \<Longrightarrow> al_get m k = Some v \<longleftrightarrow> (k, v) \<in> set m"
  using al_get_in_set al_get_of_set by metis

lemma lru_lookup:
  assumes "lru_linked c"
  shows "al_get (lru_map c) k = Some i \<longleftrightarrow> (\<exists>v. (i, k, v) \<in> set (lru_list c))"
  using assms unfolding lru_linked_def by (subst al_get_set_iff) (auto simp: sm_inv_al_inv, force)

lemma lru_lookup_None:
  assumes "lru_linked c"
  shows "al_get (lru_map c) k = None \<longleftrightarrow> k \<notin> fst ` set (lru_abs c)"
proof -
  have "al_get (lru_map c) k = None \<longleftrightarrow> (\<forall>i v. (i, k, v) \<notin> set (lru_list c))"
    using lru_lookup [OF assms] by (metis option.exhaust option.distinct(1))
  then show ?thesis by (force simp: lru_abs_def)
qed

lemma length_lru_map:
  assumes "lru_linked c"
  shows "length (lru_map c) = length (lru_list c)"
proof -
  have "distinct (map fst (lru_map c))" "distinct (map snd (nodes c))"
    using assms by (simp_all add: lru_linked_def sm_inv_def strict_sorted_iff comp_def)
  then have "distinct (lru_map c)" "distinct (nodes c)" by (simp_all only: distinct_map)
  with assms show ?thesis unfolding lru_linked_def by (metis distinct_card length_map)
qed

text \<open>In a linked list the identity and the key of a node select the same node.\<close>

lemma node_of_key:
  assumes "distinct (map fst (map snd xs))" "n \<in> set xs" "m \<in> set xs" "fst (snd n) = fst (snd m)"
  shows "n = m"
  using assms by (auto simp: distinct_map inj_on_def)

lemma filter_node_key:
  assumes "distinct (map fst xs)" "distinct (map fst (map snd xs))" "n \<in> set xs"
  shows "filter (\<lambda>m. fst m \<noteq> fst n) xs = filter (\<lambda>m. fst (snd m) \<noteq> fst (snd n)) xs"
proof (rule filter_cong)
  fix m assume "m \<in> set xs"
  with assms show "(fst m \<noteq> fst n) = (fst (snd m) \<noteq> fst (snd n))"
    by (auto simp: distinct_map inj_on_def)
qed simp

lemma set_al_erase: "set (al_erase m k) = {p \<in> set m. fst p \<noteq> k}"
  by (auto simp: al_erase_def)

definition remove_key :: "'k \<Rightarrow> ('k \<times> 'v) list \<Rightarrow> ('k \<times> 'v) list" where
  "remove_key k kvs = filter (\<lambda>kv. fst kv \<noteq> k) kvs"

lemma remove_key_absent: "k \<notin> fst ` set l \<Longrightarrow> remove_key k l = l"
  by (induction l) (auto simp: remove_key_def)

lemma lru_drop_key_spec:
  assumes "lru_linked c"
  shows "\<exists>c'. lru_drop_key c k = Some c' \<and> lru_linked c' \<and> lru_abs c' = remove_key k (lru_abs c) \<and>
     al_get (lru_map c') k = None \<and> lru_maxSize c' = lru_maxSize c \<and> lru_fresh c' = lru_fresh c"
proof (cases "al_get (lru_map c) k")
  case None
  then have "remove_key k (lru_abs c) = lru_abs c"
    using lru_lookup_None [OF assms, of k] by (auto simp: remove_key_def filter_id_conv)
  with None assms show ?thesis by (simp add: lru_drop_key_def)
next
  case (Some i)
  then obtain v where n: "(i, k, v) \<in> set (lru_list c)" using lru_lookup [OF assms] by blast
  let ?xs = "filter (\<lambda>n. fst n \<noteq> i) (lru_list c)"
  let ?c = "c\<lparr>lru_list := ?xs, lru_map := al_erase (lru_map c) k\<rparr>"
  have xs: "?xs = filter (\<lambda>n. fst (snd n) \<noteq> k) (lru_list c)"
    using filter_node_key [of "lru_list c" "(i, k, v)"] assms n by (simp add: lru_linked_def lru_abs_def)
  have abs: "lru_abs ?c = remove_key k (lru_abs c)"
    by (simp add: lru_abs_def xs remove_key_def filter_map comp_def)
  have "lru_linked ?c"
    using assms unfolding lru_linked_def abs
    by (auto simp: xs distinct_map_filter remove_key_def set_al_erase distinct_map inj_on_def)
  moreover have "lru_drop_key c k = Some ?c"
    using Some n by (force simp: lru_drop_key_def list_erase_def)
  ultimately show ?thesis using abs by simp
qed

lemma set_sm_set: "al_get m k = None \<Longrightarrow> set (sm_set m k v) = insert (k, v) (set m)"
  by (induction m k v rule: sm_set.induct) (auto split: if_splits)

lemma lru_push_spec:
  assumes "lru_linked c" "al_get (lru_map c) k = None"
  shows "lru_linked (lru_push c k v)" "lru_abs (lru_push c k v) = (k, v) # lru_abs c"
proof -
  show abs: "lru_abs (lru_push c k v) = (k, v) # lru_abs c" by (simp add: lru_abs_def lru_push_def)
  have "set (sm_emplace (lru_map c) k i) = insert (k, i) (set (lru_map c))" for i
    using assms(2) by (simp add: sm_emplace_def set_sm_set)
  with assms lru_lookup_None [OF assms(1), of k] show "lru_linked (lru_push c k v)"
    unfolding lru_linked_def abs by (auto simp: lru_push_def)
qed

lemma lru_evict_spec:
  assumes "lru_linked c" "length (lru_list c) \<le> lru_maxSize c + 1"
  shows "\<exists>c'. lru_evict c = Some c' \<and> lru_inv c' \<and> lru_abs c' = take (lru_maxSize c) (lru_abs c) \<and>
     lru_maxSize c' = lru_maxSize c"
proof (cases "length (lru_map c) > lru_maxSize c")
  case False
  with assms length_lru_map [OF assms(1)] show ?thesis
    by (simp add: lru_evict_def lru_inv_iff lru_abs_def)
next
  case True
  then have len: "length (lru_list c) = lru_maxSize c + 1" using assms(2) length_lru_map [OF assms(1)] by simp
  then obtain xs n where xs: "lru_list c = xs @ [n]" by (cases "lru_list c" rule: rev_cases) auto
  let ?c = "c\<lparr>lru_map := al_erase (lru_map c) (fst (snd n)), lru_list := xs\<rparr>"
  have "lru_evict c = Some ?c" using True by (simp add: lru_evict_def xs)
  moreover have "lru_linked ?c"
    using assms(1) unfolding lru_linked_def
    by (auto simp: xs set_al_erase lru_abs_def distinct_map inj_on_def) (force simp: image_iff)
  ultimately show ?thesis
    using len by (simp add: lru_inv_iff xs lru_abs_def)
qed

lemma find_node: "distinct (map fst xs) \<Longrightarrow> n \<in> set xs \<Longrightarrow> find (\<lambda>m. fst m = fst n) xs = Some n"
  by (induction xs) (force simp: image_iff)+

lemma length_filter_node:
  "distinct (map fst xs) \<Longrightarrow> n \<in> set xs \<Longrightarrow> Suc (length (filter (\<lambda>m. fst m \<noteq> fst n) xs)) = length xs"
proof (induction xs)
  case (Cons x xs)
  have "filter (\<lambda>m. fst m \<noteq> fst x) xs = xs" using Cons.prems(1) by (auto simp: filter_id_conv image_iff)
  with Cons show ?case by (auto simp: image_iff)
qed simp

lemma lru_get_spec:
  assumes "lru_inv c"
  shows "\<exists>c'. lru_get c k = Some (map_of (lru_abs c) k, c') \<and> lru_inv c' \<and> lru_maxSize c' = lru_maxSize c \<and>
      lru_abs c' = (case map_of (lru_abs c) k of None \<Rightarrow> lru_abs c | Some v \<Rightarrow> (k, v) # remove_key k (lru_abs c))"
proof -
  have linked: "lru_linked c" using assms by (simp add: lru_inv_iff)
  then have dist: "distinct (map fst (lru_list c))" "distinct (map fst (map snd (lru_list c)))"
    by (simp_all add: lru_linked_def lru_abs_def)
  show ?thesis
  proof (cases "al_get (lru_map c) k")
    case None
    then have "map_of (lru_abs c) k = None" using lru_lookup_None [OF linked] by (simp add: map_of_eq_None_iff)
    with None assms show ?thesis by (simp add: lru_get_def)
  next
    case (Some i)
    then obtain v where n: "(i, k, v) \<in> set (lru_list c)" using lru_lookup [OF linked] by blast
    let ?rest = "filter (\<lambda>n. fst n \<noteq> i) (lru_list c)"
    have find: "find (\<lambda>n. fst n = i) (lru_list c) = Some (i, k, v)"
      using find_node [OF dist(1) n] by simp
    have rest: "map snd ?rest = remove_key k (lru_abs c)"
      using filter_node_key [OF dist n] by (simp add: lru_abs_def remove_key_def filter_map comp_def)
    have uniq: "m = (i, k, v)" if "m \<in> set (lru_list c)" "fst m = i" for m
      using find_node [OF dist(1) that(1)] find that(2) by simp
    let ?c = "c\<lparr>lru_list := (i, k, v) # ?rest\<rparr>"
    have "insert (i, k, v) {m \<in> set (lru_list c). fst m \<noteq> i} = set (lru_list c)" using n uniq by blast
    then have same: "set (lru_list ?c) = set (lru_list c)" by simp
    have len: "length (lru_list ?c) = length (lru_list c)" using length_filter_node [OF dist(1) n] by simp
    have abs: "lru_abs ?c = (k, v) # remove_key k (lru_abs c)" using rest by (simp add: lru_abs_def)
    have "distinct (map fst (lru_list ?c))" using dist(1) by (auto simp: distinct_map_filter)
    moreover have "distinct (map fst (lru_abs ?c))"
      unfolding abs using dist(2) by (auto simp: remove_key_def lru_abs_def distinct_map_filter)
    ultimately have "lru_inv ?c"
      using assms len unfolding lru_inv_def set_map same by simp
    moreover have "map_of (lru_abs c) k = Some v"
      using dist(2) n by (force simp: lru_abs_def intro: map_of_is_SomeI)
    ultimately show ?thesis
      using Some find abs by (simp add: lru_get_def list_to_front_def)
  qed
qed

lemma take_remove_key:
  "distinct (map fst l) \<Longrightarrow> take n ((k, v) # remove_key k (take n l)) = take n ((k, v) # remove_key k l)"
proof (cases n)
  case (Suc m)
  have "distinct (map fst l) \<Longrightarrow> take m (remove_key k (take (Suc m) l)) = take m (remove_key k l)"
  proof (induction l arbitrary: m)
    case (Cons x l)
    have *: "remove_key k l' = l'" if "fst x = k" "set l' \<subseteq> set l" for l'
      using that Cons.prems by (intro remove_key_absent) auto
    have x: "remove_key k (x # l') = (if fst x = k then remove_key k l' else x # remove_key k l')" for l'
      by (simp add: remove_key_def)
    show ?case
    proof (cases m)
      case (Suc m')
      with Cons.IH [of m'] Cons.prems show ?thesis
        by (cases "fst x = k") (simp_all add: x * set_take_subset)
    qed simp
  qed simp
  then show "distinct (map fst l) \<Longrightarrow> ?thesis" by (simp add: Suc)
qed simp

section \<open>What the users of the cache rely on\<close>

text \<open>
  A bounded cache seen through the list of its pairs, the one used last in front: \<open>put\<close>, \<open>fetch\<close> and \<open>drop\<close>
  never fail on a well formed cache and act on that list as follows.
\<close>

locale recency_cache =
  fixes inv :: "'c \<Rightarrow> bool"
    and abs :: "'c \<Rightarrow> ('k \<times> 'v) list"
    and bound :: "'c \<Rightarrow> nat"
    and put :: "'c \<Rightarrow> 'k \<Rightarrow> 'v \<Rightarrow> 'c option"
    and fetch :: "'c \<Rightarrow> 'k \<Rightarrow> ('v option \<times> 'c) option"
    and drop_key :: "'c \<Rightarrow> 'k \<Rightarrow> (bool \<times> 'c) option"
  assumes distinct_keys: "inv c \<Longrightarrow> distinct (map fst (abs c))"
    and bounded: "inv c \<Longrightarrow> length (abs c) \<le> bound c"
    and put_ok: "inv c \<Longrightarrow> \<exists>c'. put c k v = Some c' \<and> inv c' \<and> bound c' = bound c \<and>
      abs c' = take (bound c) ((k, v) # remove_key k (abs c))"
    and fetch_ok: "inv c \<Longrightarrow> \<exists>c'. fetch c k = Some (map_of (abs c) k, c') \<and> inv c' \<and> bound c' = bound c \<and>
      abs c' = (case map_of (abs c) k of None \<Rightarrow> abs c | Some v \<Rightarrow> (k, v) # remove_key k (abs c))"
    and drop_ok: "inv c \<Longrightarrow> \<exists>c'. drop_key c k = Some (k \<in> fst ` set (abs c), c') \<and> inv c' \<and> bound c' = bound c \<and>
      abs c' = remove_key k (abs c)"
begin

text \<open>The value put last under a key is what the next fetch of the key returns.\<close>

lemma fetch_put:
  assumes "inv c" "0 < bound c"
  shows "\<exists>c1 c2. put c k v = Some c1 \<and> fetch c1 k = Some (Some v, c2) \<and> abs c2 = abs c1"
proof -
  obtain c1 where c1: "put c k v = Some c1" "inv c1" "bound c1 = bound c"
    "abs c1 = take (bound c) ((k, v) # remove_key k (abs c))"
    using put_ok [OF assms(1)] by blast
  obtain n where n: "bound c = Suc n" using assms(2) by (cases "bound c") auto
  then have a: "abs c1 = (k, v) # take n (remove_key k (abs c))" using c1(4) by simp
  then have m: "map_of (abs c1) k = Some v" by simp
  have "remove_key k (abs c1) = tl (abs c1)"
    using distinct_keys [OF c1(2)] by (auto simp: a remove_key_def filter_id_conv)
  then show ?thesis using fetch_ok [OF c1(2), of k] m c1(1) a by auto
qed

text \<open>
  After any sequence of puts the cache holds the pairs put last, most recent first, one per key, up to its
  bound: an entry is lost only to \<open>bound\<close> more recent keys.
\<close>

lemma put_all:
  assumes "inv c" "abs c = take (bound c) l" "distinct (map fst l)"
  shows "\<exists>c'. foldl (\<lambda>oc (k, v). Option.bind oc (\<lambda>c. put c k v)) (Some c) kvs = Some c' \<and> inv c' \<and>
     bound c' = bound c \<and> abs c' = take (bound c) (foldl (\<lambda>l (k, v). (k, v) # remove_key k l) l kvs)"
  using assms
proof (induction kvs arbitrary: c l)
  case (Cons kv kvs)
  obtain k v where kv: "kv = (k, v)" by force
  obtain c1 where c1: "put c k v = Some c1" "inv c1" "bound c1 = bound c"
    "abs c1 = take (bound c) ((k, v) # remove_key k (abs c))"
    using put_ok [OF Cons.prems(1)] by blast
  have "abs c1 = take (bound c) ((k, v) # remove_key k l)"
    unfolding c1(4) Cons.prems(2) by (rule take_remove_key [OF Cons.prems(3)])
  moreover have "distinct (map fst ((k, v) # remove_key k l))"
    using Cons.prems(3) by (auto simp: remove_key_def distinct_map_filter)
  ultimately show ?case using Cons.IH [of c1 "(k, v) # remove_key k l"] c1(1-3) by (simp add: kv)
qed simp

end

interpretation lru: recency_cache lru_inv lru_abs lru_maxSize lru_set lru_get lru_erase
proof unfold_locales
  fix c :: "('k :: linorder, 'v) lru" and k v
  assume inv: "lru_inv c"
  then have linked: "lru_linked c" by (simp add: lru_inv_iff)
  show "distinct (map fst (lru_abs c))" using inv by (simp add: lru_inv_def)
  show "length (lru_abs c) \<le> lru_maxSize c" using inv by (simp add: lru_inv_def lru_abs_def)
  obtain c1 where c1: "lru_drop_key c k = Some c1" "lru_linked c1" "lru_abs c1 = remove_key k (lru_abs c)"
    "al_get (lru_map c1) k = None" "lru_maxSize c1 = lru_maxSize c"
    using lru_drop_key_spec [OF linked] by blast
  have len: "length (lru_abs c1) \<le> lru_maxSize c"
    using inv c1(3) by (simp add: lru_inv_def lru_abs_def remove_key_def le_trans [OF length_filter_le])
  show "\<exists>c'. lru_set c k v = Some c' \<and> lru_inv c' \<and> lru_maxSize c' = lru_maxSize c \<and>
      lru_abs c' = take (lru_maxSize c) ((k, v) # remove_key k (lru_abs c))"
  proof -
    define c2 where "c2 = lru_push c1 k v"
    have "lru_linked c2" "lru_abs c2 = (k, v) # lru_abs c1" "lru_maxSize c2 = lru_maxSize c"
      using lru_push_spec [OF c1(2,4)] c1(5) by (simp_all add: c2_def lru_push_def)
    moreover have "length (lru_list c2) = length (lru_abs c2)" by (simp add: lru_abs_def)
    ultimately show ?thesis
      using lru_evict_spec [of c2] len c1(1,3) by (auto simp: lru_set_def c2_def)
  qed
  show "\<exists>c'. lru_erase c k = Some (k \<in> fst ` set (lru_abs c), c') \<and> lru_inv c' \<and> lru_maxSize c' = lru_maxSize c \<and>
      lru_abs c' = remove_key k (lru_abs c)"
  proof (cases "al_get (lru_map c) k")
    case None
    then show ?thesis using lru_lookup_None [OF linked, of k] inv by (simp add: lru_erase_def remove_key_absent)
  next
    case (Some i)
    have "lru_inv c1" using c1(2,5) len by (simp add: lru_inv_iff lru_abs_def)
    with Some show ?thesis using lru_lookup_None [OF linked, of k] c1 by (simp add: lru_erase_def)
  qed
  show "\<exists>c'. lru_get c k = Some (map_of (lru_abs c) k, c') \<and> lru_inv c' \<and> lru_maxSize c' = lru_maxSize c \<and>
      lru_abs c' = (case map_of (lru_abs c) k of None \<Rightarrow> lru_abs c | Some v \<Rightarrow> (k, v) # remove_key k (lru_abs c))"
    by (rule lru_get_spec [OF inv])
qed

text \<open>
  On a well formed cache \<open>set\<close> followed by \<open>get\<close> of the same key returns the value set, for every cache of
  a positive size; no iterator of the map dangles in between.
\<close>

theorem lru_get_after_set:
  assumes "lru_inv c" "0 < lru_maxSize c"
  shows "\<exists>c1 c2. lru_set c k v = Some c1 \<and> lru_get c1 k = Some (Some v, c2) \<and> lru_abs c2 = lru_abs c1"
  using assms by (rule lru.fetch_put)

theorem lru_get_after_set_witness:
  "\<exists>c1 c2. lru_set (lru_new 2) (1 :: nat) ''x'' = Some c1 \<and> lru_get c1 1 = Some (Some ''x'', c2) \<and>
     lru_abs c2 = lru_abs c1"
  by (rule lru_get_after_set) (simp_all add: lru_new_def lru_inv_def lru_abs_def)

text \<open>
  C32. After any sequence of \<open>set\<close> calls on an empty cache no iterator has been used after its node was gone,
  and the cache holds the pairs set last, one per key, most recent first, up to its maximum size.
\<close>

theorem lru_set_sequence:
  "\<exists>c. foldl (\<lambda>oc (k, v). Option.bind oc (\<lambda>c. lru_set c k v)) (Some (lru_new n)) kvs = Some c \<and> lru_inv c \<and>
     lru_abs c = take n (foldl (\<lambda>l (k, v). (k, v) # remove_key k l) [] kvs)"
proof -
  have "lru_inv (lru_new n)" "lru_abs (lru_new n) = take (lru_maxSize (lru_new n)) []"
    "distinct (map fst [])"
    by (simp_all add: lru_new_def lru_inv_def lru_abs_def)
  from lru.put_all [OF this(1-3), of kvs] show ?thesis by (auto simp: lru_new_def)
qed

text \<open>
  On a well formed cache \<open>get\<close> returns what the list of pairs has under the key and moves a hit to the
  front, \<open>erase\<close> reports whether the key was there and removes its pair only, and both keep the cache well
  formed.
\<close>

theorem lru_get_erase:
  assumes "lru_inv c"
  shows "(\<exists>c'. lru_get c k = Some (map_of (lru_abs c) k, c') \<and> lru_inv c' \<and>
      lru_abs c' = (case map_of (lru_abs c) k of None \<Rightarrow> lru_abs c | Some v \<Rightarrow> (k, v) # remove_key k (lru_abs c))) \<and>
    (\<exists>c'. lru_erase c k = Some (k \<in> fst ` set (lru_abs c), c') \<and> lru_inv c' \<and>
      lru_abs c' = remove_key k (lru_abs c))"
  using lru.fetch_ok [OF assms, of k] lru.drop_ok [OF assms, of k] by blast

theorem lru_get_erase_witness:
  "(\<exists>c'. lru_get (lru_new 2 :: (nat, string) lru) 1 = Some (None, c') \<and> lru_inv c') \<and>
   (\<exists>c'. lru_erase (lru_new 2 :: (nat, string) lru) 1 = Some (False, c') \<and> lru_inv c')"
  using lru_get_erase [of "lru_new 2 :: (nat, string) lru" 1] by (auto simp: lru_new_def lru_inv_def lru_abs_def)

end
