(* ===== verification/RoutingHandler.thy ===== *)
theory RoutingHandler
  imports Uri
begin

text \<open>
  \<open>src/HttpServer/Handlers/HttpServerRequestRoutingHandler.cpp\<close>. A \<open>shared_ptr\<close> to a handler is an option,
  \<^const>\<open>None\<close> the null pointer. The unordered maps are association lists (no operation depends on their
  order), the tree of wildcard routes is a datatype, and the pointer that \<open>findOrCreateForModify\<close> returns is
  an update of the tree at a path.
\<close>

section \<open>Handler maps\<close>

record 'h handler_map =
  hm_getHandler :: "'h option"
  hm_postHandler :: "'h option"
  hm_handlers :: "(string, 'h option) al"

definition hm_new :: "'h handler_map" where
  "hm_new = \<lparr>hm_getHandler = None, hm_postHandler = None, hm_handlers = []\<rparr>"

definition hm_find :: "'h handler_map \<Rightarrow> string \<Rightarrow> 'h option" where
  "hm_find m meth = (case al_get (hm_handlers m) meth of Some h \<Rightarrow> h | None \<Rightarrow> None)"

definition hm_get :: "'h handler_map \<Rightarrow> string \<Rightarrow> 'h option" where
  "hm_get m meth =
     (if meth = ''GET'' then hm_getHandler m
      else if meth = ''POST'' then hm_postHandler m
      else hm_find m meth)"

definition hm_set :: "'h handler_map \<Rightarrow> string \<Rightarrow> 'h option \<Rightarrow> 'h handler_map" where
  "hm_set m meth handler =
     (let m1 = (if meth = ''GET'' then m\<lparr>hm_getHandler := handler\<rparr>
                else if meth = ''POST'' then m\<lparr>hm_postHandler := handler\<rparr> else m)
      in m1\<lparr>hm_handlers := al_emplace (hm_handlers m1) meth handler\<rparr>)"

definition hm_remove :: "'h handler_map \<Rightarrow> string \<Rightarrow> 'h handler_map" where
  "hm_remove m meth =
     (let m1 = (if meth = ''GET'' then m\<lparr>hm_getHandler := None\<rparr>
                else if meth = ''POST'' then m\<lparr>hm_postHandler := None\<rparr> else m)
      in m1\<lparr>hm_handlers := al_erase (hm_handlers m1) meth\<rparr>)"

section \<open>The tree of wildcard routes\<close>

datatype 'h routing_node = Node (node_map: "'h handler_map") (childs: "(string \<times> 'h routing_node) list")

definition node_new :: "'h routing_node" where
  "node_new = Node hm_new []"

fun findForRoute :: "'h routing_node \<Rightarrow> string list \<Rightarrow> 'h routing_node option" where
  "findForRoute node [] = Some node"
| "findForRoute node (f # fs) =
     (case al_get (childs node) f of
        Some child \<Rightarrow> findForRoute child fs
      | None \<Rightarrow>
          (case al_get (childs node) ''**'' of
             Some child \<Rightarrow> Some child
           | None \<Rightarrow>
               (case al_get (childs node) ''*'' of
                  Some child \<Rightarrow> findForRoute child fs
                | None \<Rightarrow> None)))"

fun findForModify :: "'h routing_node \<Rightarrow> string list \<Rightarrow> 'h routing_node option" where
  "findForModify node [] = Some node"
| "findForModify node (f # fs) =
     (case al_get (childs node) f of None \<Rightarrow> None | Some child \<Rightarrow> findForModify child fs)"

text \<open>\<open>findOrCreateForModify(pathFragments)\<close> and a change of the handler map of the node it returns.\<close>

fun modifyOrCreate :: "'h routing_node \<Rightarrow> string list \<Rightarrow> ('h handler_map \<Rightarrow> 'h handler_map) \<Rightarrow> 'h routing_node" where
  "modifyOrCreate node [] g = Node (g (node_map node)) (childs node)"
| "modifyOrCreate node (f # fs) g =
     Node (node_map node)
       (al_set (childs node) f
         (modifyOrCreate (case al_get (childs node) f of Some child \<Rightarrow> child | None \<Rightarrow> node_new) fs g))"

section \<open>The routing handler\<close>

record 'h routing =
  rt_fullPathRoutingMap :: "(string, 'h handler_map) al"
  rt_wildcardRoutingTree :: "'h routing_node"

definition routing_new :: "'h routing" where
  "routing_new = \<lparr>rt_fullPathRoutingMap = [], rt_wildcardRoutingTree = node_new\<rparr>"

text \<open>\<open>Uri uri(path)\<close>; parsing never fails (\<open>uri_parse\<close> is total).\<close>

definition uri_of :: "string \<Rightarrow> uri" where
  "uri_of path = (case uri_parse path empty_uri of Some u \<Rightarrow> u | None \<Rightarrow> empty_uri)"

definition is_wildcard :: "string \<Rightarrow> bool" where
  "is_wildcard f \<longleftrightarrow> f = ''*'' \<or> f = ''**''"

definition route_full :: "'h routing \<Rightarrow> string \<Rightarrow> string \<Rightarrow> 'h option \<Rightarrow> 'h routing" where
  "route_full r meth path handler =
     r\<lparr>rt_fullPathRoutingMap := al_set (rt_fullPathRoutingMap r) path
        (hm_set (case al_get (rt_fullPathRoutingMap r) path of Some m \<Rightarrow> m | None \<Rightarrow> hm_new) meth handler)\<rparr>"

definition route_add :: "'h routing \<Rightarrow> string \<Rightarrow> string \<Rightarrow> 'h option \<Rightarrow> 'h routing" where
  "route_add r meth path handler =
     (if CHR ''*'' \<notin> set path then route_full r meth path handler
      else
        let fragments = uri_pathFragments (uri_of path)
        in if \<not> list_ex is_wildcard fragments then route_full r meth path handler
           else r\<lparr>rt_wildcardRoutingTree :=
                    modifyOrCreate (rt_wildcardRoutingTree r) fragments (\<lambda>m. hm_set m meth handler)\<rparr>)"

definition removeRoute :: "'h routing \<Rightarrow> string \<Rightarrow> string \<Rightarrow> 'h routing" where
  "removeRoute r meth path =
     (let r1 = (case al_get (rt_fullPathRoutingMap r) path of
                  Some m \<Rightarrow> r\<lparr>rt_fullPathRoutingMap := al_set (rt_fullPathRoutingMap r) path (hm_remove m meth)\<rparr>
                | None \<Rightarrow> r);
          fragments = uri_pathFragments (uri_of path)
      in case findForModify (rt_wildcardRoutingTree r1) fragments of
           Some node \<Rightarrow> r1\<lparr>rt_wildcardRoutingTree :=
             modifyOrCreate (rt_wildcardRoutingTree r1) fragments (\<lambda>m. hm_remove m meth)\<rparr>
         | None \<Rightarrow> r1)"

definition getRoute :: "'h routing \<Rightarrow> string \<Rightarrow> uri \<Rightarrow> 'h option" where
  "getRoute r meth u =
     (case al_get (rt_fullPathRoutingMap r) (uri_path u) of
        Some m \<Rightarrow> hm_get m meth
      | None \<Rightarrow>
          (case findForRoute (rt_wildcardRoutingTree r) (uri_pathFragments u) of
             Some node \<Rightarrow> hm_get (node_map node) meth
           | None \<Rightarrow> None))"

text \<open>The handler that \<open>handle\<close> calls; \<^const>\<open>None\<close> means the next handler of the chain.\<close>

definition routing_handle :: "'h routing \<Rightarrow> string \<Rightarrow> string \<Rightarrow> uri \<Rightarrow> 'h option" where
  "routing_handle r meth url u =
     (let fast =
        (case al_get (rt_fullPathRoutingMap r) url of
           Some m \<Rightarrow>
             (if meth = ''GET'' \<and> hm_getHandler m \<noteq> None then hm_getHandler m
              else if meth = ''POST'' \<and> hm_postHandler m \<noteq> None then hm_postHandler m
              else hm_find m meth)
         | None \<Rightarrow> None)
      in if fast \<noteq> None then fast else getRoute r meth u)"

section \<open>Handler maps: laws\<close>

lemma hm_get_set:
  "hm_get (hm_set m meth h) meth' =
     (if meth' = meth \<and> (meth \<in> {''GET'', ''POST''} \<or> al_get (hm_handlers m) meth = None) then h
      else hm_get m meth')"
  by (auto simp: hm_get_def hm_set_def hm_find_def Let_def split: option.splits)

lemma hm_get_remove: "hm_get (hm_remove m meth) meth' = (if meth' = meth then None else hm_get m meth')"
  by (auto simp: hm_get_def hm_remove_def hm_find_def Let_def split: option.splits)

lemma hm_get_new [simp]: "hm_get hm_new meth = None"
  by (simp add: hm_get_def hm_new_def hm_find_def)

section \<open>The tree: lookup after update\<close>

definition tree_map :: "'h routing_node \<Rightarrow> string list \<Rightarrow> 'h handler_map" where
  "tree_map t fs = (case findForModify t fs of Some n \<Rightarrow> node_map n | None \<Rightarrow> hm_new)"

lemma findForModify_new: "findForModify node_new fs = (if fs = [] then Some node_new else None)"
  by (cases fs) (simp_all add: node_new_def)

lemma node_map_new [simp]: "node_map node_new = hm_new"
  by (simp add: node_new_def)

lemma tree_map_new [simp]: "tree_map node_new fs = hm_new"
  by (simp add: tree_map_def findForModify_new)

lemma tree_map_modify:
  "tree_map (modifyOrCreate t fs g) gs = (if gs = fs then g (tree_map t fs) else tree_map t gs)"
proof (induction t fs g arbitrary: gs rule: modifyOrCreate.induct)
  case (1 node g)
  then show ?case by (cases gs) (simp_all add: tree_map_def)
next
  case (2 node f fs g)
  let ?child = "case al_get (childs node) f of Some child \<Rightarrow> child | None \<Rightarrow> node_new"
  have step: "tree_map node (f # ks) = tree_map ?child ks" for ks
    by (simp add: tree_map_def findForModify_new split: option.split)
  show ?case
  proof (cases gs)
    case (Cons k ks)
    have "tree_map (modifyOrCreate node (f # fs) g) (f # ks) = tree_map (modifyOrCreate ?child fs g) ks"
      by (simp add: tree_map_def)
    moreover have "k \<noteq> f \<Longrightarrow> tree_map (modifyOrCreate node (f # fs) g) (k # ks) = tree_map node (k # ks)"
      by (simp add: tree_map_def)
    ultimately show ?thesis
      using "2.IH" [of ks] step [of ks] step [of fs] Cons
      by (cases "k = f") (simp_all del: modifyOrCreate.simps)
  qed (simp add: tree_map_def)
qed

lemma findForModify_modify: "\<exists>n. findForModify (modifyOrCreate t fs g) fs = Some n"
  by (induction t fs g rule: modifyOrCreate.induct) auto

section \<open>Which pattern a request reaches\<close>

text \<open>
  A registered pattern matches a path fragment by fragment; \<open>*\<close> matches one fragment, \<open>**\<close> one or more, to the
  end of the path.
\<close>

fun path_matches :: "string list \<Rightarrow> string list \<Rightarrow> bool" where
  "path_matches [] fs \<longleftrightarrow> fs = []"
| "path_matches (p # ps) [] \<longleftrightarrow> False"
| "path_matches (p # ps) (f # fs) \<longleftrightarrow> p = ''**'' \<and> ps = [] \<or> (p = f \<or> p = ''*'') \<and> path_matches ps fs"

lemma findForRoute_sound:
  "findForRoute t fs = Some n \<Longrightarrow> \<exists>ps. findForModify t ps = Some n \<and> path_matches ps fs"
proof (induction t fs rule: findForRoute.induct)
  case (1 node)
  then show ?case by (auto intro!: exI [of _ "[]"])
next
  case (2 node f fs)
  show ?case
  proof (cases "al_get (childs node) f")
    case (Some child)
    with 2 obtain ps where "findForModify child ps = Some n" "path_matches ps fs" by auto
    with Some show ?thesis by (auto intro!: exI [of _ "f # ps"])
  next
    case None
    show ?thesis
    proof (cases "al_get (childs node) ''**''")
      case (Some child)
      with None "2.prems" show ?thesis by (auto intro!: exI [of _ "[''**'']"])
    next
      case none2: None
      with None 2 obtain child where child: "al_get (childs node) ''*'' = Some child" "findForRoute child fs = Some n"
        by (auto split: option.splits)
      from "2.IH"(1) [OF None none2 child] obtain ps where "findForModify child ps = Some n" "path_matches ps fs"
        by blast
      with child show ?thesis by (auto intro!: exI [of _ "''*'' # ps"])
    qed
  qed
qed

lemma findForRoute_exact: "findForModify t fs = Some n \<Longrightarrow> findForRoute t fs = Some n"
  by (induction t fs rule: findForModify.induct) (auto split: option.splits)

section \<open>Registered routes\<close>

definition register :: "'h routing \<Rightarrow> (string \<times> string \<times> 'h option) list \<Rightarrow> 'h routing" where
  "register r regs = foldl (\<lambda>r (meth, path, h). route_add r meth path h) r regs"

definition registered_ok :: "(string \<times> string \<times> 'h option) set \<Rightarrow> 'h routing \<Rightarrow> bool" where
  "registered_ok S r \<longleftrightarrow>
     (\<forall>path m meth h. al_get (rt_fullPathRoutingMap r) path = Some m \<longrightarrow> hm_get m meth = Some h \<longrightarrow>
        (meth, path, Some h) \<in> S) \<and>
     (\<forall>fs meth h. hm_get (tree_map (rt_wildcardRoutingTree r) fs) meth = Some h \<longrightarrow>
        (\<exists>path. (meth, path, Some h) \<in> S \<and> uri_pathFragments (uri_of path) = fs))"

lemma registered_ok_full:
  assumes "registered_ok S r"
  shows "registered_ok (insert (meth, path, h) S) (route_full r meth path h)"
  using assms
  by (fastforce simp: registered_ok_def route_full_def hm_get_set split: if_splits option.splits)

lemma registered_ok_add:
  assumes "registered_ok S r"
  shows "registered_ok (insert (meth, path, h) S) (route_add r meth path h)"
proof -
  let ?fs = "uri_pathFragments (uri_of path)"
  have "registered_ok (insert (meth, path, h) S)
     (r\<lparr>rt_wildcardRoutingTree := modifyOrCreate (rt_wildcardRoutingTree r) ?fs (\<lambda>m. hm_set m meth h)\<rparr>)"
    using assms by (auto simp: registered_ok_def tree_map_modify hm_get_set split: if_splits) metis+
  with registered_ok_full [OF assms, of meth path h] show ?thesis by (simp add: route_add_def Let_def)
qed

lemma registered_ok_register:
  "registered_ok S r \<Longrightarrow> registered_ok (S \<union> set regs) (register r regs)"
proof (induction regs arbitrary: S r)
  case (Cons x regs)
  obtain meth path h where x: "x = (meth, path, h)" by (cases x) auto
  from Cons.IH [OF registered_ok_add [OF Cons.prems, of meth path h]] show ?case
    by (simp add: register_def x)
qed (simp add: register_def)

lemma registered_ok_new: "registered_ok {} routing_new"
  by (simp add: registered_ok_def routing_new_def)

lemma getRoute_registered:
  assumes "registered_ok S r" "getRoute r meth u = Some h"
  shows "\<exists>path. (meth, path, Some h) \<in> S \<and>
     (path = uri_path u \<or> path_matches (uri_pathFragments (uri_of path)) (uri_pathFragments u))"
proof (cases "al_get (rt_fullPathRoutingMap r) (uri_path u)")
  case (Some m)
  with assms have "(meth, uri_path u, Some h) \<in> S" by (simp add: registered_ok_def getRoute_def)
  then show ?thesis by blast
next
  case None
  with assms(2) obtain n where n: "findForRoute (rt_wildcardRoutingTree r) (uri_pathFragments u) = Some n"
    "hm_get (node_map n) meth = Some h"
    by (auto simp: getRoute_def split: option.splits)
  obtain ps where ps: "findForModify (rt_wildcardRoutingTree r) ps = Some n" "path_matches ps (uri_pathFragments u)"
    using findForRoute_sound [OF n(1)] by blast
  have "tree_map (rt_wildcardRoutingTree r) ps = node_map n" by (simp add: tree_map_def ps(1))
  with assms(1) n(2) ps(2) show ?thesis by (metis registered_ok_def)
qed

text \<open>
  C33. Whatever routes were registered, in any order, a handler that \<open>getRoute\<close> returns for a request was
  registered for the request's method, under the request's path itself or under a pattern whose fragments
  match those of the request (\<open>*\<close> for one fragment, \<open>**\<close> for the rest).
\<close>

theorem getRoute_sound:
  assumes "getRoute (register routing_new regs) meth u = Some h"
  shows "\<exists>path. (meth, path, Some h) \<in> set regs \<and>
     (path = uri_path u \<or> path_matches (uri_pathFragments (uri_of path)) (uri_pathFragments u))"
  using getRoute_registered [OF registered_ok_register [OF registered_ok_new] assms] by simp

definition example_routes :: "(string \<times> string \<times> nat option) list" where
  "example_routes = [(''GET'', ''/a/*'', Some 1), (''GET'', ''/b'', Some 2), (''GET'', ''/a/**'', Some 3)]"

theorem getRoute_sound_witness:
  "\<exists>path. (''GET'', path, Some 3) \<in> set example_routes \<and>
     (path = ''/a/x/y'' \<or> path_matches (uri_pathFragments (uri_of path)) [''a'', ''x'', ''y''])"
proof -
  have "getRoute (register routing_new example_routes) ''GET'' (uri_of ''/a/x/y'') = Some 3"
    "uri_path (uri_of ''/a/x/y'') = ''/a/x/y''" "uri_pathFragments (uri_of ''/a/x/y'') = [''a'', ''x'', ''y'']"
    by code_simp+
  with getRoute_sound [of example_routes "''GET''" "uri_of ''/a/x/y''" 3] show ?thesis by simp
qed

text \<open>
  A route registered for a full path is found for that path and method, when the method is GET or POST or
  has no handler under the path yet; a path that is not the registered one is routed as before.
\<close>

theorem route_full_path:
  assumes "CHR ''*'' \<notin> set path"
  shows "(uri_path u = path \<longrightarrow> meth \<in> {''GET'', ''POST''} \<or> al_get (rt_fullPathRoutingMap r) path = None \<longrightarrow>
      getRoute (route_add r meth path h) meth u = h) \<and>
    (uri_path u \<noteq> path \<longrightarrow> getRoute (route_add r meth path h) meth' u = getRoute r meth' u)"
  using assms by (auto simp: route_add_def route_full_def getRoute_def hm_get_set hm_new_def split: option.split)

theorem route_full_path_witness:
  "getRoute (route_add routing_new ''PUT'' ''/b'' (Some (1 :: nat))) ''PUT'' (uri_of ''/b'') = Some 1"
proof -
  have "uri_path (uri_of ''/b'') = ''/b''" by code_simp
  with route_full_path [of "''/b''" "uri_of ''/b''" "''PUT''" routing_new "Some (1 :: nat)"] show ?thesis
    by (simp add: routing_new_def)
qed

text \<open>
  A route registered under a wildcard pattern is in the node of that pattern for its method (GET, POST, or
  a method without a handler there), removing it takes it away for that method only, and the nodes of all
  other patterns are untouched.
\<close>

theorem route_wildcard:
  assumes "CHR ''*'' \<in> set path" "list_ex is_wildcard (uri_pathFragments (uri_of path))"
    and fs: "fs = uri_pathFragments (uri_of path)"
    and r': "r' = route_add r meth path h" "r'' = removeRoute r' meth path"
  shows "(meth \<in> {''GET'', ''POST''} \<or> al_get (hm_handlers (tree_map (rt_wildcardRoutingTree r) fs)) meth = None \<longrightarrow>
        hm_get (tree_map (rt_wildcardRoutingTree r') fs) meth = h) \<and>
     hm_get (tree_map (rt_wildcardRoutingTree r'') fs) meth = None \<and>
     (gs \<noteq> fs \<or> m \<noteq> meth \<longrightarrow>
        hm_get (tree_map (rt_wildcardRoutingTree r') gs) m = hm_get (tree_map (rt_wildcardRoutingTree r) gs) m \<and>
        hm_get (tree_map (rt_wildcardRoutingTree r'') gs) m = hm_get (tree_map (rt_wildcardRoutingTree r) gs) m)"
proof -
  let ?t = "rt_wildcardRoutingTree r"
  have t': "rt_wildcardRoutingTree r' = modifyOrCreate ?t fs (\<lambda>m. hm_set m meth h)"
    using assms(1,2) by (simp add: r' fs route_add_def Let_def)
  have t'': "rt_wildcardRoutingTree r'' =
      modifyOrCreate (modifyOrCreate ?t fs (\<lambda>m. hm_set m meth h)) fs (\<lambda>m. hm_remove m meth)"
    using findForModify_modify [of ?t fs "\<lambda>m. hm_set m meth h"]
    by (auto simp: r'(2) removeRoute_def Let_def fs [symmetric] t' split: option.split)
  show ?thesis unfolding t' t'' by (auto simp: tree_map_modify hm_get_set hm_get_remove)
qed

theorem route_wildcard_witness:
  "hm_get (tree_map (rt_wildcardRoutingTree (route_add routing_new ''PUT'' ''/a/*'' (Some (1 :: nat)))) [''a'', ''*'']) ''PUT'' = Some 1"
proof -
  have "list_ex is_wildcard (uri_pathFragments (uri_of ''/a/*''))" "[''a'', ''*''] = uri_pathFragments (uri_of ''/a/*'')"
    by code_simp+
  with route_wildcard [of "''/a/*''" "[''a'', ''*'']" _ routing_new "''PUT''" "Some (1 :: nat)"] show ?thesis
    by (simp add: routing_new_def hm_new_def)
qed

section \<open>The fast path of \<open>handle\<close>\<close>

text \<open>A plain path: parsing it decodes nothing and finds no query.\<close>

definition plain_path :: "string \<Rightarrow> bool" where
  "plain_path s \<longleftrightarrow> s \<noteq> [] \<and> hd s = CHR ''/'' \<and> CHR ''?'' \<notin> set s \<and> CHR ''%'' \<notin> set s \<and> CHR ''+'' \<notin> set s"

lemma uri_char_Path:
  assumes "up_state p = Path" "c \<noteq> CHR ''?''" "uri_char s c p = Some q"
  shows "up_state q = Path \<and> up_pathMark q = up_pathMark p \<and> up_ptr q = up_ptr p"
  using assms by (auto simp: uri_char_def uri_char_defs split: if_splits)

lemma uri_loop_Path:
  assumes "up_state p = Path" "CHR ''?'' \<notin> set s" "uri_loop s p = Some q" "up_ptr p \<le> length s"
  shows "up_state q = Path \<and> up_pathMark q = up_pathMark p \<and> up_ptr q = length s"
  using assms
proof (induction s p rule: uri_loop.induct)
  case (1 s p)
  show ?case
  proof (cases "up_ptr p < length s")
    case True
    with "1.prems"(3) obtain r where r: "uri_char s (s ! up_ptr p) p = Some r"
      "uri_loop s (r\<lparr>up_ptr := up_ptr r + 1\<rparr>) = Some q"
      by (subst (asm) uri_loop.simps) (auto split: option.splits)
    have "s ! up_ptr p \<noteq> CHR ''?''" using "1.prems"(2) True by (metis nth_mem)
    from uri_char_Path [OF "1.prems"(1) this r(1)] "1.IH" [OF True r(1)] "1.prems"(2) r(2) True show ?thesis by simp
  next
    case False
    with "1.prems" show ?thesis by (subst (asm) uri_loop.simps) auto
  qed
qed

lemma uri_path_plain:
  assumes "plain_path s"
  shows "uri_path (uri_of s) = s"
proof -
  obtain t where t: "s = CHR ''/'' # t" using assms by (cases s) (auto simp: plain_path_def)
  let ?p = "(start_parser empty_uri)\<lparr>up_mark := 1, up_state := Path, up_ptr := 1\<rparr>"
  have start: "uri_loop s (start_parser empty_uri) = uri_loop s ?p"
    using uri_loop_step [of s "[]" "CHR ''/''" t "start_parser empty_uri"]
    by (simp add: t start_parser_def uri_char_def on_slash_def Let_def)
  have "up_ok s ?p" by (simp add: up_ok_def start_parser_def t)
  then obtain q where q: "uri_loop s ?p = Some q" "up_ok s q" using uri_loop_ok by blast
  have qs: "up_state q = Path" "up_pathMark q = 0" "up_ptr q = length s"
    using uri_loop_Path [OF _ _ q(1)] assms by (simp_all add: plain_path_def start_parser_def t)
  have "urlDecode s = s"
    using assms by (auto simp: urlDecode_def plain_path_def list_ex_iff)
  with q(2) qs have "\<exists>u. uri_finish s q = Some u \<and> uri_path u = s"
    by (auto simp: uri_finish_def shared_def share_def add_fragment_def set_path_def up_ok_def)
  then obtain u where u: "uri_finish s q = Some u" "uri_path u = s" by blast
  have "uri_parse s empty_uri = Some u" by (simp add: uri_parse_def start q(1) u(1) del: One_nat_def)
  with u(2) show ?thesis by (simp add: uri_of_def)
qed

text \<open>The map keeps no handler for GET or POST that the two members do not know.\<close>

definition hm_ok :: "'h handler_map \<Rightarrow> bool" where
  "hm_ok m \<longleftrightarrow> (hm_find m ''GET'' \<noteq> None \<longrightarrow> hm_getHandler m \<noteq> None) \<and>
     (hm_find m ''POST'' \<noteq> None \<longrightarrow> hm_postHandler m \<noteq> None)"

definition routing_ok :: "'h routing \<Rightarrow> bool" where
  "routing_ok r \<longleftrightarrow> (\<forall>path m. al_get (rt_fullPathRoutingMap r) path = Some m \<longrightarrow> hm_ok m)"

lemma hm_ok_set: "hm_ok m \<Longrightarrow> hm_ok (hm_set m meth (Some h))"
  by (auto simp: hm_ok_def hm_set_def hm_find_def Let_def split: option.splits)

lemma hm_ok_new: "hm_ok hm_new"
  by (simp add: hm_ok_def hm_new_def hm_find_def)

lemma hm_ok_remove: "hm_ok m \<Longrightarrow> hm_ok (hm_remove m meth)"
  by (auto simp: hm_ok_def hm_remove_def hm_find_def Let_def split: option.splits)

lemma routing_ok_new: "routing_ok routing_new"
  by (simp add: routing_ok_def routing_new_def)

lemma routing_ok_add:
  assumes "routing_ok r"
  shows "routing_ok (route_add r meth path (Some h))"
proof -
  from assms have "routing_ok (route_full r meth path (Some h))"
    by (auto simp: routing_ok_def route_full_def hm_ok_set hm_ok_new split: option.splits)
  with assms show ?thesis by (auto simp: route_add_def Let_def routing_ok_def)
qed

lemma routing_ok_remove: "routing_ok r \<Longrightarrow> routing_ok (removeRoute r meth path)"
  by (auto simp: routing_ok_def removeRoute_def Let_def hm_ok_remove split: option.splits if_splits)

text \<open>The tables a server builds.\<close>

inductive routing_table :: "'h routing \<Rightarrow> bool" where
  new: "routing_table routing_new"
| add: "routing_table r \<Longrightarrow> routing_table (route_add r meth path (Some h))"
| remove: "routing_table r \<Longrightarrow> routing_table (removeRoute r meth path)"

lemma routing_table_ok: "routing_table r \<Longrightarrow> routing_ok r"
  by (induction rule: routing_table.induct) (simp_all add: routing_ok_new routing_ok_add routing_ok_remove)

text \<open>
  C34. The fast path of \<open>handle\<close>, which looks the raw URL up before it is parsed, chooses the handler that
  \<open>getRoute\<close> chooses for the parsed URL, for every URL that starts with a slash and has no question mark, percent
  sign or plus sign, so that parsing changes nothing, and every table built by registering handlers that are not
  null and removing routes.
\<close>

theorem handle_fast_path:
  assumes "routing_table r" "plain_path url"
  shows "routing_handle r meth url (uri_of url) = getRoute r meth (uri_of url)"
proof (cases "al_get (rt_fullPathRoutingMap r) url")
  case None
  then show ?thesis by (simp add: routing_handle_def)
next
  case (Some m)
  then have "hm_ok m" using routing_table_ok [OF assms(1)] by (simp add: routing_ok_def)
  with Some uri_path_plain [OF assms(2)] show ?thesis
    by (auto simp: routing_handle_def getRoute_def hm_ok_def hm_get_def Let_def)
qed

theorem handle_fast_path_witness:
  "routing_handle (route_add routing_new ''GET'' ''/b'' (Some (1 :: nat))) ''GET'' ''/b'' (uri_of ''/b'') =
   getRoute (route_add routing_new ''GET'' ''/b'' (Some 1)) ''GET'' (uri_of ''/b'')"
  by (rule handle_fast_path) (simp_all add: routing_table.intros plain_path_def)

section \<open>Behaviour worth knowing\<close>

text \<open>
  \<open>handlers.emplace\<close> does not replace: registering a second handler for a method other than GET and POST has no
  effect. A full path that is known for one meth hides the wildcard routes from the others. And the search
  in the tree does not go back: a literal child that leads nowhere hides a matching \<open>*\<close>.
\<close>

lemma route_again_keeps_old:
  "getRoute (register routing_new [(''PUT'', ''/a'', Some (1 :: nat)), (''PUT'', ''/a'', Some 2)]) ''PUT'' (uri_of ''/a'') = Some 1"
  by code_simp

lemma full_path_hides_wildcard:
  "getRoute (register routing_new [(''GET'', ''/*'', Some (1 :: nat)), (''POST'', ''/a'', Some 2)]) ''GET'' (uri_of ''/a'') = None"
  by code_simp

lemma no_backtracking:
  "getRoute (register routing_new [(''GET'', ''/a/b/*'', Some (1 :: nat)), (''GET'', ''/*/c'', Some 2)]) ''GET'' (uri_of ''/a/c'') = None"
  by code_simp

end
