(* ===== verification/Http11ParserProtocol.thy ===== *)
theory Http11ParserProtocol
  imports Http11ParserSafety
begin

text \<open>
  In which order the parser of requests calls back. The locale \<open>request_protocol\<close> says what a settings object
  accepts, by a phase it is in: first \<open>on_message_begin\<close>, then pieces of the URL, then pieces of a header field and
  of its value in turn, \<open>on_headers_complete\<close>, pieces of the body, \<open>on_message_complete\<close>. Inside it is shown that the
  parser, whatever it reads, keeps to this order: no callback but two is ever refused. The two are
  \<open>on_message_begin\<close> of the next message, and \<open>on_header_field\<close> for a header behind a chunked body.
\<close>

datatype phase = Idle | Begun | Url | Field | Value | Headers | Body | Complete | Off

text \<open>
  \<open>Off\<close> is for an object that takes no part: nothing is asked of it. The phases a settings object may be in when the parser is in a state; \<open>t\<close> says whether it
  reads a trailer.
\<close>

primrec allowed :: "state \<Rightarrow> bool \<Rightarrow> phase set" where
  "allowed s_dead t = {Idle, Complete}"
| "allowed s_start_req_or_res t = {}"
| "allowed s_res_or_resp_H t = {}"
| "allowed s_start_res t = {}"
| "allowed s_res_H t = {}"
| "allowed s_res_HT t = {}"
| "allowed s_res_HTT t = {}"
| "allowed s_res_HTTP t = {}"
| "allowed s_res_http_major t = {}"
| "allowed s_res_http_dot t = {}"
| "allowed s_res_http_minor t = {}"
| "allowed s_res_http_end t = {}"
| "allowed s_res_first_status_code t = {}"
| "allowed s_res_status_code t = {}"
| "allowed s_res_status_start t = {}"
| "allowed s_res_status t = {}"
| "allowed s_res_line_almost_done t = {}"
| "allowed s_start_req t = {Idle, Complete}"
| "allowed s_req_method t = (if t then {} else {Begun})"
| "allowed s_req_spaces_before_url t = (if t then {} else {Begun})"
| "allowed s_req_schema t = (if t then {} else {Begun, Url})"
| "allowed s_req_schema_slash t = (if t then {} else {Begun, Url})"
| "allowed s_req_schema_slash_slash t = (if t then {} else {Begun, Url})"
| "allowed s_req_server_start t = (if t then {} else {Begun, Url})"
| "allowed s_req_server t = (if t then {} else {Begun, Url})"
| "allowed s_req_server_with_at t = (if t then {} else {Begun, Url})"
| "allowed s_req_path t = (if t then {} else {Begun, Url})"
| "allowed s_req_query_string_start t = (if t then {} else {Begun, Url})"
| "allowed s_req_query_string t = (if t then {} else {Begun, Url})"
| "allowed s_req_fragment_start t = (if t then {} else {Begun, Url})"
| "allowed s_req_fragment t = (if t then {} else {Begun, Url})"
| "allowed s_req_http_start t = (if t then {} else {Url})"
| "allowed s_req_http_H t = (if t then {} else {Url})"
| "allowed s_req_http_HT t = (if t then {} else {Url})"
| "allowed s_req_http_HTT t = (if t then {} else {Url})"
| "allowed s_req_http_HTTP t = (if t then {} else {Url})"
| "allowed s_req_http_I t = (if t then {} else {Url})"
| "allowed s_req_http_IC t = (if t then {} else {Url})"
| "allowed s_req_http_major t = (if t then {} else {Url})"
| "allowed s_req_http_dot t = (if t then {} else {Url})"
| "allowed s_req_http_minor t = (if t then {} else {Url})"
| "allowed s_req_http_end t = (if t then {} else {Url})"
| "allowed s_req_line_almost_done t = (if t then {} else {Url})"
| "allowed s_header_field_start t = (if t then {Headers, Body} else {Url, Value})"
| "allowed s_header_field t = (if t then {Headers, Body} else {Url, Field, Value})"
| "allowed s_header_value_discard_ws t = (if t then {} else {Field, Value})"
| "allowed s_header_value_discard_ws_almost_done t = (if t then {} else {Field, Value})"
| "allowed s_header_value_discard_lws t = (if t then {} else {Field, Value})"
| "allowed s_header_value_start t = (if t then {} else {Field, Value})"
| "allowed s_header_value t = (if t then {} else {Field, Value})"
| "allowed s_header_value_lws t = (if t then {} else {Value})"
| "allowed s_header_almost_done t = (if t then {} else {Value})"
| "allowed s_chunk_size_start t = (if t then {} else {Headers, Body})"
| "allowed s_chunk_size t = (if t then {} else {Headers, Body})"
| "allowed s_chunk_parameters t = (if t then {} else {Headers, Body})"
| "allowed s_chunk_size_almost_done t = (if t then {} else {Headers, Body})"
| "allowed s_headers_almost_done t = (if t then {Headers, Body} else {Url, Value})"
| "allowed s_headers_done t = (if t then {} else {Headers, Body})"
| "allowed s_chunk_data t = (if t then {} else {Headers, Body})"
| "allowed s_chunk_data_almost_done t = (if t then {} else {Headers, Body})"
| "allowed s_chunk_data_done t = (if t then {} else {Headers, Body})"
| "allowed s_body_identity t = (if t then {} else {Headers, Body})"
| "allowed s_body_identity_eof t = {}"
| "allowed s_message_done t = {Headers, Body}"

definition trailing :: "http_parser \<Rightarrow> bool" where
  "trailing ps \<longleftrightarrow> has_flag (hp_flags ps) F_TRAILING"

definition callback_errno :: "http_errno \<Rightarrow> bool" where
  "callback_errno e \<longleftrightarrow> e \<in> {HPE_CB_message_begin, HPE_CB_url, HPE_CB_header_field, HPE_CB_header_value,
     HPE_CB_headers_complete, HPE_CB_body, HPE_CB_message_complete, HPE_CB_status, HPE_CB_chunk_header,
     HPE_CB_chunk_complete}"

lemma callback_errno_simps:
  "\<not> callback_errno HPE_INVALID_HEADER_TOKEN" "\<not> callback_errno HPE_HEADER_OVERFLOW" "\<not> callback_errno HPE_OK"
  by (simp_all add: callback_errno_def)

lemma trailing_flags [simp]:
  "has_flag (f OR F_CHUNKED) F_TRAILING = has_flag f F_TRAILING"
  "has_flag (f OR F_UPGRADE) F_TRAILING = has_flag f F_TRAILING"
  "has_flag (f OR F_SKIPBODY) F_TRAILING = has_flag f F_TRAILING"
  "has_flag (f OR F_CONTENTLENGTH) F_TRAILING = has_flag f F_TRAILING"
  "has_flag (f OR F_CONNECTION_KEEP_ALIVE) F_TRAILING = has_flag f F_TRAILING"
  "has_flag (f OR F_CONNECTION_CLOSE) F_TRAILING = has_flag f F_TRAILING"
  "has_flag (f OR F_CONNECTION_UPGRADE) F_TRAILING = has_flag f F_TRAILING"
  "has_flag (f OR F_TRAILING) F_TRAILING"
  "has_flag (f OR finished_header_flag h) F_TRAILING = has_flag f F_TRAILING"
proof -
  show *: "has_flag (f OR F_CHUNKED) F_TRAILING = has_flag f F_TRAILING"
    "has_flag (f OR F_UPGRADE) F_TRAILING = has_flag f F_TRAILING"
    "has_flag (f OR F_SKIPBODY) F_TRAILING = has_flag f F_TRAILING"
    "has_flag (f OR F_CONTENTLENGTH) F_TRAILING = has_flag f F_TRAILING"
    "has_flag (f OR F_CONNECTION_KEEP_ALIVE) F_TRAILING = has_flag f F_TRAILING"
    "has_flag (f OR F_CONNECTION_CLOSE) F_TRAILING = has_flag f F_TRAILING"
    "has_flag (f OR F_CONNECTION_UPGRADE) F_TRAILING = has_flag f F_TRAILING"
    "has_flag (f OR F_TRAILING) F_TRAILING"
    unfolding has_flag_or by (simp_all add: has_flag_def flag_defs)
  show "has_flag (f OR finished_header_flag h) F_TRAILING = has_flag f F_TRAILING"
    by (cases h) (simp_all add: finished_header_flag_def *)
qed

lemma mark_or_set [simp]: "mark_or m p \<noteq> None" "\<exists>q. mark_or m p = Some q"
  by (cases m; simp)+

section \<open>Rules that follow a callback\<close>

lemma post_notify_result:
  assumes "\<And>r s. cb ((x_parser x)\<lparr>hp_state := x_state x\<rparr>) (x_settings x) = (r, s) \<Longrightarrow>
      (r = 0 \<and> post Q (k (called x s))) \<or> (r \<noteq> 0 \<and> Q (Return er (SET_ERRNO e (called x s))))"
    and "Q (Fault ''assert'')"
  shows "post Q (CALLBACK_NOTIFY cb e er x k)"
  using assms(1) [OF surjective_pairing] assms(2)
  unfolding CALLBACK_NOTIFY_def ASSERT_def post_def called_def upd_parser_def Let_def by auto

lemma post_data_result:
  assumes "\<And>q d r s. m = Some q \<Longrightarrow> cb ((x_parser x)\<lparr>hp_state := x_state x\<rparr>) d (x_settings x) = (r, s) \<Longrightarrow>
      (r = 0 \<and> post Q (k (clear (called x s)))) \<or> (r \<noteq> 0 \<and> Q (Return er (SET_ERRNO e (called x s))))"
    and "m = None \<Longrightarrow> post Q (k x)" and "\<And>w. Q (Fault w)"
  shows "post Q (CALLBACK_DATA data m clear cb e stop er x k)"
proof (cases m)
  case None
  with assms(2,3) show ?thesis by (simp add: CALLBACK_DATA_def ASSERT_def post_def)
next
  case (Some q)
  with assms(1) [OF Some surjective_pairing] assms(3) show ?thesis
    unfolding CALLBACK_DATA_def ASSERT_def post_def called_def upd_parser_def Let_def by auto
qed

lemma data_no_mark:
  "hp_http_errno (x_parser x) = HPE_OK \<Longrightarrow> CALLBACK_DATA data None clear cb e stop er x k = k x"
  by (simp add: CALLBACK_DATA_def ASSERT_def)

section \<open>The order\<close>

locale request_protocol =
  fixes S :: "'s settings"
    and phase :: "'s \<Rightarrow> phase"
  assumes message_begin: "phase s = Idle \<Longrightarrow> on_message_begin S ps s = (r, s') \<Longrightarrow> r = 0 \<and> phase s' = Begun"
    and message_begin_late: "phase s = Complete \<Longrightarrow> on_message_begin S ps s = (r, s') \<Longrightarrow> r \<noteq> 0 \<and> s' = s"
    and url: "phase s \<in> {Begun, Url} \<Longrightarrow> on_url S ps d s = (r, s') \<Longrightarrow> r = 0 \<and> phase s' = Url"
    and header_field: "phase s \<in> {Url, Field, Value} \<Longrightarrow> on_header_field S ps d s = (r, s') \<Longrightarrow> r = 0 \<and> phase s' = Field"
    and header_field_late: "phase s \<in> {Headers, Body} \<Longrightarrow> on_header_field S ps d s = (r, s') \<Longrightarrow> r \<noteq> 0 \<and> s' = s"
    and header_value: "phase s \<in> {Field, Value} \<Longrightarrow> on_header_value S ps d s = (r, s') \<Longrightarrow> r = 0 \<and> phase s' = Value"
    and headers_complete: "phase s \<in> {Url, Value} \<Longrightarrow> on_headers_complete S ps s = (r, s') \<Longrightarrow> r = 0 \<and> phase s' = Headers"
    and body: "phase s \<in> {Headers, Body} \<Longrightarrow> on_body S ps d s = (r, s') \<Longrightarrow> r = 0 \<and> phase s' = Body"
    and message_complete: "phase s \<in> {Headers, Body} \<Longrightarrow> on_message_complete S ps s = (r, s') \<Longrightarrow> r = 0 \<and> phase s' = Complete"
    and chunk_header: "on_chunk_header S ps s = (r, s') \<Longrightarrow> r = 0 \<and> phase s' = phase s"
    and chunk_complete: "on_chunk_complete S ps s = (r, s') \<Longrightarrow> r = 0 \<and> phase s' = phase s"
begin

definition in_order :: "'s exec \<Rightarrow> bool" where
  "in_order x \<longleftrightarrow> hp_http_errno (x_parser x) = HPE_OK \<and> hp_type (x_parser x) = HTTP_REQUEST \<and>
     phase (x_settings x) \<in> allowed (x_state x) (trailing (x_parser x)) \<and>
     (x_state x \<in> set url_states \<longrightarrow> x_url_mark x \<noteq> None) \<and>
     (x_state x = s_header_field \<longrightarrow> x_header_field_mark x \<noteq> None) \<and>
     (x_state x = s_header_value \<longrightarrow> x_header_value_mark x \<noteq> None)"

text \<open>What the client sees when a call has returned.\<close>

definition returned :: "http_parser \<Rightarrow> 's \<Rightarrow> bool" where
  "returned ps s \<longleftrightarrow>
     (hp_http_errno ps = HPE_OK \<longrightarrow> hp_type ps = HTTP_REQUEST \<and> phase s \<in> allowed (hp_state ps) (trailing ps)) \<and>
     (callback_errno (hp_http_errno ps) \<longrightarrow>
        hp_http_errno ps = HPE_CB_message_begin \<and> phase s = Complete \<or>
        hp_http_errno ps = HPE_CB_header_field \<and> trailing ps \<and> phase s \<in> {Headers, Body})"

definition ordered :: "'s outcome \<Rightarrow> bool" where
  "ordered out =
     (case out of
        Break x \<Rightarrow> in_order x
      | Reexecute ch x \<Rightarrow> in_order x
      | Error x \<Rightarrow> hp_http_errno (x_parser x) \<noteq> HPE_OK \<and> \<not> callback_errno (hp_http_errno (x_parser x))
      | Return n x \<Rightarrow> returned (x_parser x) (x_settings x)
      | Fault w \<Rightarrow> True)"

lemma ordered_simps [simp]:
  "ordered (Break x) = in_order x" "ordered (Reexecute ch x) = in_order x"
  "ordered (Error x) = (hp_http_errno (x_parser x) \<noteq> HPE_OK \<and> \<not> callback_errno (hp_http_errno (x_parser x)))"
  "ordered (Return n x) = returned (x_parser x) (x_settings x)" "ordered (Fault w)"
  by (simp_all add: ordered_def)

lemmas order_defs = in_order_def trailing_def returned_def callback_errno_def

lemma post_ASSERT_ordered: "(b \<Longrightarrow> post ordered k) \<Longrightarrow> post ordered (ASSERT b k)"
  by (simp add: post_def ASSERT_def)

lemma ordered_small:
  assumes "in_order x" "x_state x \<in> {s_dead, s_req_http_start, s_req_http_H, s_req_http_HT, s_req_http_HTT,
     s_req_http_HTTP, s_req_http_I, s_req_http_IC, s_req_http_major, s_req_http_dot, s_req_http_minor,
     s_req_http_end, s_req_line_almost_done, s_header_field_start, s_header_value_discard_ws_almost_done,
     s_header_almost_done, s_header_value_lws, s_chunk_parameters, s_chunk_size, s_chunk_size_start}"
  shows "post ordered (step E ch x)"
  using assms
  by (cases "x_state x"; simp)
     (auto simp: step_def small_step_defs body_step_defs simple_defs order_defs Let_def url_states_def
       intro!: post_ASSERT_ordered post_STRICT_CHECK)

lemma ordered_start_req:
  assumes "in_order x" "x_state x = s_start_req" "e_settings E = S"
  shows "post ordered (step E ch x)"
  using assms(1,2)
  by (auto simp: step_def assms(3) step_s_start_req_def begin_message_def notify_message_begin_def simple_defs order_defs Let_def
      url_states_def SET_ERRNO_def split: option.split intro!: post_notify_result dest: message_begin)
     (metis message_begin_late)+

lemma ordered_method:
  assumes "in_order x" "x_state x = s_req_method"
  shows "post ordered (step E ch x)"
  using assms
  by (auto simp: step_def step_s_req_method_def simple_defs order_defs Let_def url_states_def split: option.split)

lemma allowed_url: "s \<in> set url_states \<Longrightarrow> allowed s t = (if t then {} else {Begun, Url})"
  by (auto simp: url_states_def)

lemma ordered_url_char:
  assumes "in_order (UPDATE_STATE s_req_path x)"
  shows "post ordered (url_char ch x)"
proof -
  have "phase (x_settings x) \<in> {Begun, Url}" "\<not> trailing (x_parser x)" "hp_type (x_parser x) = HTTP_REQUEST"
    "hp_http_errno (x_parser x) = HPE_OK" "x_url_mark x \<noteq> None"
    using assms by (auto simp: in_order_def UPDATE_STATE_def url_states_def split: if_splits)
  then show ?thesis
    using parse_url_char_cases [of "x_state x" ch] url_states_other [of "parse_url_char (x_state x) ch"]
    by (auto simp: url_char_def UPDATE_STATE_def Let_def in_order_def callback_errno_def allowed_url)
qed

lemma ordered_url:
  assumes "in_order x" "x_state x \<in> set url_states" "e_settings E = S"
  shows "post ordered (step E ch x)"
proof -
  have u: "phase (x_settings x) \<in> {Begun, Url}" "\<not> trailing (x_parser x)" "hp_type (x_parser x) = HTTP_REQUEST"
    "hp_http_errno (x_parser x) = HPE_OK" "x_url_mark x \<noteq> None"
    using assms by (auto simp: in_order_def allowed_url split: if_splits)
  then have "in_order (UPDATE_STATE s_req_path x)" by (auto simp: in_order_def UPDATE_STATE_def)
  note char = ordered_url_char [OF this, of ch]
  have "post ordered (step_url_no_space ch x)"
    using char by (simp add: step_url_no_space_def callback_errno_def)
  moreover have "post ordered (step_url_rest E ch x)"
    unfolding step_url_rest_def data_url_def assms(3)
    by (intro post_if post_data_result char)
       (use u in \<open>auto simp: simple_defs order_defs url_states_def SET_ERRNO_def dest: url [OF u(1)]\<close>)
  ultimately show ?thesis using assms(2) by (auto simp: url_states_def step_def)
qed

lemma ordered_spaces:
  assumes "in_order x" "x_state x = s_req_spaces_before_url"
  shows "post ordered (step E ch x)"
  using assms
  by (auto simp: step_def step_s_req_spaces_before_url_def Let_def simple_defs order_defs url_states_def
      intro!: ordered_url_char)

text \<open>The loop over a header field changes the index and the header state only.\<close>

lemma header_frame_more:
  "header_frame ps ps' \<Longrightarrow> hp_flags ps' = hp_flags ps \<and> hp_type ps' = hp_type ps \<and> hp_http_errno ps' = hp_http_errno ps"
  unfolding header_frame_def
  by (metis (no_types, lifting) http_parser.ext_inject http_parser.surjective http_parser.update_convs(4,5))

lemma header_field_char_frame: "header_field_char ch c ps = Some ps' \<Longrightarrow> header_frame ps ps'"
  by (auto simp: header_field_char_def Let_def split: header_states.splits if_splits)

lemma header_field_loop_frame: "header_field_loop data mx p ps = Some (q, ps') \<Longrightarrow> header_frame ps ps'"
proof (induction data mx p ps rule: header_field_loop.induct)
  case (1 data mx p ps)
  note IH = 1(1) [OF _ refl refl] 1(2) [OF _ refl refl]
  show ?case
    using IH 1(3) [unfolded header_field_loop.simps [of data mx p ps]]
    by (auto simp: Let_def split: if_splits option.splits dest: header_field_char_frame intro: header_frame_trans)
qed

lemma ordered_header_field:
  assumes "in_order x" "x_state x = s_header_field" "e_settings E = S"
  shows "post ordered (step E ch x)"
proof (cases "header_field_loop (e_data E) (unat (e_max_header_size E)) (x_p x) (x_parser x)")
  case None
  then show ?thesis using assms(2) by (simp add: step_def step_s_header_field_def)
next
  case (Some qp)
  obtain q ps where qp: "qp = (q, ps)" by force
  note f = header_frame_more [OF header_field_loop_frame [OF Some [unfolded qp]]]
  have o: "hp_http_errno (x_parser x) = HPE_OK" "hp_type (x_parser x) = HTTP_REQUEST" "x_header_field_mark x \<noteq> None"
    "phase (x_settings x) \<in> (if trailing (x_parser x) then {Headers, Body} else {Url, Field, Value})"
    using assms(1,2) by (auto simp: in_order_def)
  have result: "if trailing (x_parser x) then r \<noteq> 0 \<and> s = x_settings x else r = 0 \<and> phase s = Field"
    if "on_header_field S ps' d (x_settings x) = (r, s)" for ps' d r s
    using o(4) header_field [OF _ that] header_field_late [OF _ that] by (simp split: if_splits)
  show ?thesis
    unfolding step_def assms(2) step_at.simps step_s_header_field_def Some qp Let_def option.case prod.case data_header_field_def assms(3)
    by (intro post_if post_COUNT_HEADER_SIZE post_data_result)
       (use o f in \<open>auto simp: simple_defs order_defs url_states_def SET_ERRNO_def assms(2)
          dest!: result split: if_splits\<close>)
qed

lemma ordered_value_start:
  assumes "in_order x" "x_state x \<in> {s_header_value_start, s_header_value_discard_ws}"
  shows "post ordered (step_s_header_value_start ch x)"
proof -
  have o: "hp_http_errno (x_parser x) = HPE_OK" "hp_type (x_parser x) = HTTP_REQUEST" "\<not> has_flag (hp_flags (x_parser x)) F_TRAILING"
    "phase (x_settings x) = Field \<or> phase (x_settings x) = Value"
    using assms by (auto simp: in_order_def trailing_def split: if_splits)
  show ?thesis
    by (cases "hp_header_state (x_parser x)")
       (use o in \<open>simp_all add: step_s_header_value_start_def Let_def simple_defs order_defs url_states_def\<close>)
qed

lemma ordered_discard_ws:
  assumes "in_order x" "x_state x = s_header_value_discard_ws"
  shows "post ordered (step E ch x)"
  using assms ordered_value_start [OF assms(1)]
  by (auto simp: step_def step_s_header_value_discard_ws_def simple_defs order_defs url_states_def)

lemma ordered_discard_lws:
  assumes "in_order x" "x_state x = s_header_value_discard_lws" "e_settings E = S"
  shows "post ordered (step E ch x)"
proof -
  have o: "hp_http_errno (x_parser x) = HPE_OK" "hp_type (x_parser x) = HTTP_REQUEST" "\<not> trailing (x_parser x)" "phase (x_settings x) \<in> {Field, Value}"
    using assms(1,2) by (auto simp: in_order_def split: if_splits)
  show ?thesis
    unfolding step_def assms(2,3) step_at.simps step_s_header_value_discard_lws_def data_header_value_def
    by (intro post_if post_data_result)
       (use o in \<open>auto simp: simple_defs order_defs url_states_def SET_ERRNO_def finish_header_def
          dest: header_value [OF o(4)]\<close>)
qed

text \<open>The loop over a header value.\<close>

definition in_value :: "'s exec \<Rightarrow> bool" where
  "in_value x \<longleftrightarrow> in_order x \<and> x_state x = s_header_value"

lemma in_valueD:
  assumes "in_value x"
  shows "hp_type (x_parser x) = HTTP_REQUEST" "\<not> trailing (x_parser x)" "phase (x_settings x) \<in> {Field, Value}"
    "x_header_value_mark x \<noteq> None" "x_state x = s_header_value" "hp_http_errno (x_parser x) = HPE_OK"
  using assms by (auto simp: in_value_def in_order_def split: if_splits)

lemma header_value_char_frame:
  assumes "header_value_char h ch ps = ValueNext h' ps'"
  shows "hp_type ps' = hp_type ps \<and> trailing ps' = trailing ps \<and> hp_http_errno ps' = hp_http_errno ps"
  using assms
  by (cases h) (auto simp: header_value_char_def content_length_digit_def connection_token_end_def trailing_def Let_def
      split: if_splits)

lemma header_value_char_error:
  "header_value_char h ch ps = ValueError e ps' \<Longrightarrow> e \<noteq> HPE_OK \<and> \<not> callback_errno e"
  by (cases h) (auto simp: header_value_char_def content_length_digit_def connection_token_end_def Let_def callback_errno_def
      split: if_splits)

lemma ordered_value_stop:
  assumes "in_value x" "e_settings E = S"
  shows "post ordered (header_value_cr E start h x)" "post ordered (header_value_lf E start h x)"
    "post ordered (header_value_end E start h x)"
proof -
  note v = in_valueD [OF assms(1)]
  show e: "post ordered (header_value_end E start h x)"
    unfolding header_value_end_def Let_def
    by (intro post_COUNT_HEADER_SIZE) (use v in \<open>auto simp: simple_defs order_defs url_states_def\<close>)
  show "post ordered (header_value_cr E start h x)"
    unfolding header_value_cr_def header_value_end_def data_header_value_def assms(2) Let_def
    by (intro post_data_result)
       (use v in \<open>auto simp: simple_defs order_defs url_states_def SET_ERRNO_def
          intro!: post_COUNT_HEADER_SIZE dest: header_value [OF v(3)]\<close>)
  show "post ordered (header_value_lf E start h x)"
    unfolding header_value_lf_def data_header_value_def assms(2)
    by (intro post_data_result post_COUNT_HEADER_SIZE)
       (use v in \<open>auto simp: simple_defs order_defs url_states_def SET_ERRNO_def dest: header_value [OF v(3)]\<close>)
qed

lemma ordered_value_loop: "in_value x \<Longrightarrow> e_settings E = S \<Longrightarrow> post ordered (header_value_loop E start h x)"
proof (induction E start h x rule: header_value_loop.induct)
  case (1 E start h x)
  note IH = 1(1) [OF _ refl] 1(2) [OF _ refl] and stop = ordered_value_stop [OF 1(3,4)] and v = in_valueD [OF 1(3)]
  have "in_value (x\<lparr>x_p := p\<rparr>)" for p using v by (auto simp: in_value_def in_order_def url_states_def)
  moreover have "in_value (x\<lparr>x_parser := ps, x_p := p\<rparr>)"
    if "header_value_char h ch (x_parser x) = ValueNext h' ps" for h' ps p ch
    using v header_value_char_frame [OF that] by (auto simp: in_value_def in_order_def url_states_def)
  ultimately show ?case
    using IH stop 1(4) header_value_char_error [of h "e_data E ! x_p x" "x_parser x"]
    by (subst header_value_loop.simps)
       (auto simp: Let_def callback_errno_simps split: sum.split value_result.split)
qed

section \<open>The end of the headers, and bodies\<close>

lemma NEW_MESSAGE_request: "hp_type ps = HTTP_REQUEST \<Longrightarrow> NEW_MESSAGE ps \<in> {s_start_req, s_dead}"
  by (simp add: NEW_MESSAGE_def start_state_def)

lemma ordered_complete:
  assumes "hp_type (x_parser x) = HTTP_REQUEST" "phase (x_settings x) \<in> {Headers, Body}" "e_settings E = S"
    and "\<And>s. phase s = Complete \<Longrightarrow> post ordered (k (called (UPDATE_STATE (NEW_MESSAGE (x_parser x)) x) s))"
  shows "post ordered (complete_message E x k)"
  unfolding complete_message_def notify_message_complete_def assms(3)
  by (intro post_notify_result) (use assms(4) in \<open>auto simp: UPDATE_STATE_def dest!: message_complete [OF assms(2)]\<close>)

lemma ordered_completed:
  assumes "hp_http_errno (x_parser x) = HPE_OK" "hp_type (x_parser x) = HTTP_REQUEST"
    "phase (x_settings x) \<in> {Headers, Body}" "e_settings E = S"
  shows "post ordered (complete_message E x Break)" "post ordered (complete_message E x (\<lambda>y. RETURN (n y) y))"
  using assms NEW_MESSAGE_request [OF assms(2)]
  by (auto intro!: ordered_complete simp: order_defs called_def UPDATE_STATE_def url_states_def RETURN_def upd_parser_def)

lemma ordered_headers_almost_done:
  assumes "in_order x" "x_state x = s_headers_almost_done" "e_settings E = S"
  shows "post ordered (step E ch x)"
proof -
  have o: "hp_http_errno (x_parser x) = HPE_OK" "hp_type (x_parser x) = HTTP_REQUEST"
    "phase (x_settings x) \<in> (if trailing (x_parser x) then {Headers, Body} else {Url, Value})"
    using assms(1,2) by (auto simp: in_order_def)
  show ?thesis
  proof (cases "trailing (x_parser x)")
    case True
    then show ?thesis
      unfolding step_def assms(2,3) step_at.simps step_s_headers_almost_done_def Let_def
      by (intro post_STRICT_CHECK post_if post_notify_result)
         (use o in \<open>auto simp: simple_defs order_defs url_states_def dest!: chunk_complete\<close>)
  next
    case False
    with o(3) have "phase (x_settings x) \<in> {Url, Value}" by simp
    note hc = headers_complete [OF this surjective_pairing]
    show ?thesis
      using False o hc
      by (auto simp: step_def assms(2,3) step_s_headers_almost_done_def call_headers_complete_def Let_def simple_defs
        order_defs url_states_def set_upgrade_def intro!: post_STRICT_CHECK)
  qed
qed

lemma ordered_headers_done:
  assumes "in_order x" "x_state x = s_headers_done" "e_settings E = S"
  shows "post ordered (step E ch x)"
proof -
  let ?x = "reset_nread x"
  have o: "hp_http_errno (x_parser ?x) = HPE_OK" "hp_type (x_parser ?x) = HTTP_REQUEST"
    "\<not> trailing (x_parser ?x)" "phase (x_settings ?x) \<in> {Headers, Body}"
    using assms(1,2) by (auto simp: in_order_def reset_nread_def upd_parser_def trailing_def split: if_splits)
  note fin = ordered_completed [OF o(1,2,4) assms(3)]
  have "\<not> http_message_needs_eof (x_parser ?x)" using o(2) by (simp add: http_message_needs_eof_def)
  with o show ?thesis
    unfolding step_def assms(2) step_at.simps step_s_headers_done_def Let_def
    by (intro post_STRICT_CHECK post_if fin)
       (auto simp: UPDATE_STATE_def order_defs url_states_def)
qed

lemma in_order_body:
  assumes "in_order x" "x_state x \<in> {s_body_identity, s_chunk_size_almost_done, s_chunk_data, s_chunk_data_almost_done, s_chunk_data_done}"
  shows "hp_http_errno (x_parser x) = HPE_OK" "hp_type (x_parser x) = HTTP_REQUEST"
    "\<not> trailing (x_parser x)" "phase (x_settings x) \<in> {Headers, Body}"
  using assms by (auto simp: in_order_def split: if_splits)

lemma ordered_message_done:
  assumes "in_order x" "x_state x = s_message_done" "e_settings E = S"
  shows "post ordered (step E ch x)"
proof -
  have o: "hp_http_errno (x_parser x) = HPE_OK" "hp_type (x_parser x) = HTTP_REQUEST" "phase (x_settings x) \<in> {Headers, Body}"
    using assms(1,2) by (auto simp: in_order_def)
  show ?thesis
    using o NEW_MESSAGE_request [OF o(2)]
    by (auto intro!: ordered_complete simp: step_def assms(2,3) step_s_message_done_def order_defs called_def UPDATE_STATE_def
        url_states_def RETURN_def upd_parser_def)
qed

lemma ordered_body_identity:
  assumes "in_order x" "x_state x = s_body_identity" "e_settings E = S"
  shows "post ordered (step E ch x)"
proof -
  note o = in_order_body [OF assms(1)]
  have o: "hp_http_errno (x_parser x) = HPE_OK" "hp_type (x_parser x) = HTTP_REQUEST" "\<not> trailing (x_parser x)"
    "phase (x_settings x) \<in> {Headers, Body}"
    using o assms(2) by auto
  show ?thesis
    unfolding step_def assms(2,3) step_at.simps step_s_body_identity_def data_body_def
    by (intro post_read_body post_if post_data_result)
       (use o assms(2) in \<open>auto simp: read_bytes_def simple_defs order_defs url_states_def SET_ERRNO_def dest: body [OF o(4)]\<close>)
qed

lemma ordered_chunks:
  assumes "in_order x" "e_settings E = S"
    "x_state x \<in> {s_chunk_size_almost_done, s_chunk_data, s_chunk_data_almost_done, s_chunk_data_done}"
  shows "post ordered (step E ch x)"
proof -
  have o: "hp_http_errno (x_parser x) = HPE_OK" "hp_type (x_parser x) = HTTP_REQUEST" "\<not> trailing (x_parser x)"
    "phase (x_settings x) \<in> {Headers, Body}"
    using in_order_body [OF assms(1)] assms(3) by auto
  have "post ordered (step_s_chunk_size_almost_done E ch x)"
    unfolding step_s_chunk_size_almost_done_def assms(2) Let_def
    by (intro post_ASSERT_ordered post_STRICT_CHECK post_notify_result)
       (use o in \<open>auto simp: reset_nread_def simple_defs order_defs url_states_def SET_ERRNO_def dest!: chunk_header split: if_splits\<close>)
  moreover have "post ordered (step_s_chunk_data E ch x)" if "x_state x = s_chunk_data"
    unfolding step_s_chunk_data_def
    by (intro post_ASSERT_ordered post_read_body post_if)
       (use o that in \<open>auto simp: read_bytes_def simple_defs order_defs url_states_def\<close>)
  moreover have "post ordered (step_s_chunk_data_almost_done E ch x)"
    unfolding step_s_chunk_data_almost_done_def data_body_def assms(2)
    by (intro post_ASSERT_ordered post_STRICT_CHECK post_data_result)
       (use o in \<open>auto simp: simple_defs order_defs url_states_def SET_ERRNO_def dest: body [OF o(4)]\<close>)
  moreover have "post ordered (step_s_chunk_data_done E ch x)"
    unfolding step_s_chunk_data_done_def assms(2)
    by (intro post_ASSERT_ordered post_STRICT_CHECK post_notify_result)
       (use o in \<open>auto simp: reset_nread_def simple_defs order_defs url_states_def SET_ERRNO_def dest!: chunk_complete\<close>)
  ultimately show ?thesis using assms(3) by (auto simp: step_def)
qed

lemma in_order_reachable: "in_order x \<Longrightarrow> allowed (x_state x) (trailing (x_parser x)) \<noteq> {}"
  by (auto simp: in_order_def)

lemma step_ordered:
  assumes "in_order x" "e_settings E = S"
  shows "post ordered (step E ch x)"
proof (cases "x_state x \<in> set url_states")
  case True
  then show ?thesis by (rule ordered_url [OF assms(1) _ assms(2)])
next
  case False
  then show ?thesis
    using in_order_reachable [OF assms(1)] ordered_small [OF assms(1)] ordered_start_req [OF assms(1) _ assms(2)]
      ordered_method [OF assms(1)] ordered_spaces [OF assms(1)] ordered_header_field [OF assms(1) _ assms(2)]
      ordered_value_start [OF assms(1)] ordered_discard_ws [OF assms(1)] ordered_discard_lws [OF assms(1) _ assms(2)]
      ordered_value_loop [OF _ assms(2), of x] ordered_headers_almost_done [OF assms(1) _ assms(2)]
      ordered_headers_done [OF assms(1) _ assms(2)] ordered_message_done [OF assms(1) _ assms(2)]
      ordered_body_identity [OF assms(1) _ assms(2)] ordered_chunks [OF assms] assms(1)
    by (cases "x_state x") (simp_all add: url_states_def step_def step_s_header_value_def in_value_def)
qed

lemma reexec_ordered: "in_order x \<Longrightarrow> e_settings E = S \<Longrightarrow> ordered (reexec E ch x)"
proof (induction E ch x rule: reexec.induct)
  case (1 E ch x)
  with step_ordered [OF 1(2,3), of ch] show ?case
    by (subst reexec.simps) (auto simp: post_def split: outcome.split)
qed

lemma byte_step_ordered: "in_order x \<Longrightarrow> e_settings E = S \<Longrightarrow> ordered (byte_step E x)"
  using post_COUNT_HEADER_SIZE [of E x 1 ordered "reexec E (e_data E ! x_p x)"] reexec_ordered [of _ E]
  by (auto simp: byte_step_def Let_def post_def in_order_def callback_errno_simps)

lemma exec_loop_ordered: "in_order x \<Longrightarrow> e_settings E = S \<Longrightarrow> ordered (exec_loop E x)"
proof (induction E x rule: exec_loop.induct)
  case (1 E x)
  with byte_step_ordered [OF 1(2,3)] show ?case
    by (subst exec_loop.simps) (auto simp: in_order_def split: outcome.split)
qed

definition concluded :: "'s outcome \<Rightarrow> bool" where
  "concluded out = (case out of Return n y \<Rightarrow> returned (x_parser y) (x_settings y) | Fault w \<Rightarrow> True | _ \<Rightarrow> False)"

lemma concluded_simps [simp]: "concluded (Return n y) = returned (x_parser y) (x_settings y)" "concluded (Fault w)"
  by (simp_all add: concluded_def)

lemma concluded_RETURN: "in_order x \<Longrightarrow> post concluded (RETURN n x)"
  by (simp add: RETURN_def upd_parser_def order_defs)

text \<open>A data callback at the end of the buffer leaves the state as it is.\<close>

lemma leftover_ordered:
  assumes "in_order x" "exec_ok 0 x" "e_settings E = S"
  shows "post concluded (leftover_callbacks E x)"
proof -
  have m: "mark_ok (x_state x = s_header_field) (x_p x) (x_header_field_mark x)"
    "mark_ok (x_state x = s_header_value) (x_p x) (x_header_value_mark x)"
    "mark_ok (x_state x \<in> set url_states) (x_p x) (x_url_mark x)"
    "mark_ok (x_state x \<in> set body_states) (x_p x) (x_body_mark x)"
    "mark_ok (x_state x = s_res_status) (x_p x) (x_status_mark x)"
    using assms(2) by (simp_all add: exec_ok_def marks_ok_def)
  have o: "hp_http_errno (x_parser x) = HPE_OK" "hp_type (x_parser x) = HTTP_REQUEST"
    using assms(1) by (simp_all add: in_order_def)
  have field: "if trailing (x_parser x) then r \<noteq> 0 \<and> s = x_settings x \<and> phase s \<in> {Headers, Body} else r = 0 \<and> phase s = Field"
    if "x_state x = s_header_field" "on_header_field S ps d (x_settings x) = (r, s)" for ps d r s
    using assms(1) that(1) header_field [OF _ that(2)] header_field_late [OF _ that(2)]
    by (simp add: in_order_def split: if_splits)
  have vals: "r = 0 \<and> phase s = Value \<and> \<not> trailing (x_parser x)"
    if "x_state x = s_header_value" "on_header_value S ps d (x_settings x) = (r, s)" for ps d r s
    using assms(1) that(1) header_value [OF _ that(2)] by (simp add: in_order_def split: if_splits)
  have urls: "r = 0 \<and> phase s = Url \<and> \<not> trailing (x_parser x)"
    if "x_state x \<in> set url_states" "on_url S ps d (x_settings x) = (r, s)" for ps d r s
    using assms(1) that(1) url [OF _ that(2)] by (simp add: in_order_def allowed_url split: if_splits)
  have bodies: "r = 0 \<and> phase s = Body \<and> \<not> trailing (x_parser x)"
    if "x_state x \<in> set body_states" "on_body S ps d (x_settings x) = (r, s)" for ps d r s
    using assms(1) that(1) body [OF _ that(2)] by (auto simp: in_order_def body_states_def split: if_splits)
  have ASSERT: "(b \<Longrightarrow> post concluded k) \<Longrightarrow> post concluded (ASSERT b k)" for b k by (simp add: post_def ASSERT_def)
  consider "x_state x = s_header_field" | "x_state x = s_header_value" | "x_state x \<in> set url_states"
    | "x_state x \<in> set body_states" | (none) "x_state x \<noteq> s_header_field" "x_state x \<noteq> s_header_value"
      "x_state x \<notin> set url_states" "x_state x \<notin> set body_states"
    by blast
  then show ?thesis
  proof cases
    case 1
    then show ?thesis
      unfolding leftover_callbacks_def Let_def post_data assms(3)
      by (intro ASSERT post_data_result)
         (use m o assms(1) in \<open>auto simp: simple_defs order_defs SET_ERRNO_def RETURN_def data_no_mark url_states_def body_states_def
            dest!: field [OF 1] split: if_splits\<close>)
  next
    case 2
    then show ?thesis
      unfolding leftover_callbacks_def Let_def post_data assms(3)
      by (intro ASSERT post_data_result)
         (use m o assms(1) in \<open>auto simp: simple_defs order_defs SET_ERRNO_def RETURN_def data_no_mark url_states_def body_states_def
            dest!: vals [OF 2] split: if_splits\<close>)
  next
    case 3
    then show ?thesis
      unfolding leftover_callbacks_def Let_def post_data assms(3)
      by (intro ASSERT post_data_result)
         (use m o assms(1) url_states_other [OF 3] in \<open>auto simp: simple_defs order_defs SET_ERRNO_def RETURN_def data_no_mark allowed_url
            dest!: urls [OF 3] split: if_splits\<close>)
  next
    case 4
    then show ?thesis
      unfolding leftover_callbacks_def Let_def post_data assms(3)
      by (intro ASSERT post_data_result)
         (use m o assms(1) in \<open>auto simp: simple_defs order_defs SET_ERRNO_def RETURN_def data_no_mark url_states_def body_states_def
            dest!: bodies [OF 4] split: if_splits\<close>)
  next
    case none
    then show ?thesis
      unfolding leftover_callbacks_def Let_def post_data assms(3)
      by (intro ASSERT post_data_result concluded_RETURN) (use m assms(1) in \<open>auto simp: in_order_def\<close>)
  qed
qed

lemma execute_started:
  assumes "returned ps s" "parser_ok ps" "hp_http_errno ps = HPE_OK" "e_settings E = S" "e_data E \<noteq> []"
    and r: "http_parser_execute E ps s = Inr (n, ps', s')"
  shows "returned ps' s'"
proof -
  let ?x = "initial_exec ps s"
  have i: "in_order ?x" "exec_ok 0 ?x"
    using assms initial_exec_ok [OF assms(2,3)]
    by (auto simp: in_order_def returned_def initial_exec_def trailing_def)
  have f: "final_safe E (exec_loop E ?x)"
    using exec_loop_safe [OF initial_exec_ok [OF assms(2,3)], of s E] assms(5) by (simp add: initial_exec_def)
  have l: "ordered (exec_loop E ?x)" by (rule exec_loop_ordered [OF i(1) assms(4)])
  show ?thesis
  proof (cases "exec_loop E ?x")
    case (Break y)
    with l f have "post concluded (leftover_callbacks E y)"
      by (intro leftover_ordered) (simp_all add: assms(4) final_safe_def)
    with r assms(3,5) Break show ?thesis
      by (cases "leftover_callbacks E y")
         (auto simp: http_parser_execute_def execute_def conclude_def Let_def post_def concluded_def)
  qed (use l r f assms(3,5) in \<open>auto simp: http_parser_execute_def execute_def conclude_def Let_def final_safe_def upd_parser_def
       returned_def\<close>)
qed

lemma execute_ordered:
  assumes "returned ps s" "parser_ok ps" "e_settings E = S" "e_data E \<noteq> []"
    and r: "http_parser_execute E ps s = Inr (n, ps', s')"
  shows "returned ps' s'"
proof (cases "hp_http_errno ps = HPE_OK")
  case True
  with execute_started assms show ?thesis by blast
next
  case False
  with assms(1) r show ?thesis
    by (simp add: http_parser_execute_def execute_def conclude_def Let_def initial_exec_def)
qed

end

section \<open>What every callback keeps\<close>

text \<open>A property of the settings object that all callbacks keep is kept by a call of the parser.\<close>

locale callback_invariant =
  fixes S :: "'s settings"
    and I :: "'s \<Rightarrow> bool"
  assumes keeps_notify: "I s \<Longrightarrow> I (snd (on_message_begin S ps s))" "I s \<Longrightarrow> I (snd (on_headers_complete S ps s))"
      "I s \<Longrightarrow> I (snd (on_message_complete S ps s))" "I s \<Longrightarrow> I (snd (on_chunk_header S ps s))"
      "I s \<Longrightarrow> I (snd (on_chunk_complete S ps s))"
    and keeps_data: "I s \<Longrightarrow> I (snd (on_url S ps d s))" "I s \<Longrightarrow> I (snd (on_status S ps d s))"
      "I s \<Longrightarrow> I (snd (on_header_field S ps d s))" "I s \<Longrightarrow> I (snd (on_header_value S ps d s))"
      "I s \<Longrightarrow> I (snd (on_body S ps d s))"
begin

definition kept :: "'s outcome \<Rightarrow> bool" where
  "kept out = (case out of Break x \<Rightarrow> I (x_settings x) | Reexecute ch x \<Rightarrow> I (x_settings x)
     | Error x \<Rightarrow> I (x_settings x) | Return n x \<Rightarrow> I (x_settings x) | Fault w \<Rightarrow> True)"

lemma kept_simps [simp]:
  "kept (Break x) = I (x_settings x)" "kept (Reexecute ch x) = I (x_settings x)" "kept (Error x) = I (x_settings x)"
  "kept (Return n x) = I (x_settings x)" "kept (Fault w)"
  by (simp_all add: kept_def)

lemma settings_simps [simp]:
  "x_settings (SET_ERRNO e x) = x_settings x" "x_settings (UPDATE_STATE st x) = x_settings x"
  "x_settings (upd_parser f x) = x_settings x" "x_settings (called x s) = s"
  "x_settings (MARK_url x) = x_settings x" "x_settings (MARK_header_field x) = x_settings x"
  "x_settings (MARK_header_value x) = x_settings x" "x_settings (MARK_body x) = x_settings x"
  "x_settings (MARK_status x) = x_settings x" "x_settings (reset_nread x) = x_settings x"
  "x_settings (read_bytes n x) = x_settings x" "x_settings (begin_message x) = x_settings x"
  "x_settings (finish_header x) = x_settings x"
  by (simp_all add: simple_defs SET_ERRNO_def reset_nread_def read_bytes_def begin_message_def finish_header_def)

lemma kept_NOTIFY:
  assumes "\<And>ps. I (snd (cb ps (x_settings x)))" "\<And>s. I s \<Longrightarrow> post kept (k (called x s))"
  shows "post kept (CALLBACK_NOTIFY cb e er x k)"
proof (rule post_notify_result)
  fix r s
  assume "cb ((x_parser x)\<lparr>hp_state := x_state x\<rparr>) (x_settings x) = (r, s)"
  then have "I s" using assms(1) by (metis snd_conv)
  then show "r = 0 \<and> post kept (k (called x s)) \<or> r \<noteq> 0 \<and> kept (Return er (SET_ERRNO e (called x s)))"
    using assms(2) by simp
qed simp

lemma kept_DATA:
  assumes "I (x_settings x)" "\<And>ps d. I (snd (cb ps d (x_settings x)))" "\<And>y. I (x_settings y) \<Longrightarrow> post kept (k y)"
    and "\<And>y. x_settings (clear y) = x_settings y"
  shows "post kept (CALLBACK_DATA data m clear cb e stop er x k)"
proof (rule post_data_result)
  fix q d r s
  assume "cb ((x_parser x)\<lparr>hp_state := x_state x\<rparr>) d (x_settings x) = (r, s)"
  then have "I s" using assms(2) by (metis snd_conv)
  then show "r = 0 \<and> post kept (k (clear (called x s))) \<or> r \<noteq> 0 \<and> kept (Return er (SET_ERRNO e (called x s)))"
    using assms(3,4) by simp
qed (use assms in simp_all)

lemma kept_RETURN [simp]: "post kept (RETURN n x) = I (x_settings x)"
  by (simp add: RETURN_def)

lemma kept_ASSERT: "(b \<Longrightarrow> post kept k) \<Longrightarrow> post kept (ASSERT b k)"
  by (simp add: post_def ASSERT_def)

lemmas kept_intros = kept_ASSERT kept_NOTIFY kept_DATA post_STRICT_CHECK post_COUNT_HEADER_SIZE post_read_body post_if

lemma kept_value_loop:
  "I (x_settings x) \<Longrightarrow> e_settings E = S \<Longrightarrow> post kept (header_value_loop E start h x)"
proof (induction E start h x rule: header_value_loop.induct)
  case (1 E start h x)
  note IH = 1(1) [OF _ refl] 1(2) [OF _ refl]
  have stop: "post kept (header_value_end E start h y)" if "I (x_settings y)" for y
    using that by (auto simp: header_value_end_def Let_def intro!: post_COUNT_HEADER_SIZE)
  have "post kept (header_value_cr E start h x)" "post kept (header_value_lf E start h x)"
    unfolding header_value_cr_def header_value_lf_def post_data 1(4)
    by (intro kept_intros stop; use 1(3) in \<open>simp add: keeps_data\<close>)+
  with stop IH 1(3,4) show ?case
    by (subst header_value_loop.simps) (auto simp: Let_def split: sum.split value_result.split)
qed

lemma kept_small:
  assumes "I (x_settings x)" "e_settings E = S"
    "x_state x \<notin> {s_header_field, s_header_value, s_header_value_start, s_header_value_discard_ws,
     s_headers_almost_done, s_headers_done, s_chunk_size_start, s_chunk_size, s_chunk_parameters,
     s_chunk_size_almost_done, s_chunk_data, s_chunk_data_almost_done, s_chunk_data_done,
     s_body_identity, s_body_identity_eof, s_message_done}"
  shows "post kept (step E ch x)"
  using assms
  by (cases "x_state x")
     (simp_all add: step_def small_step_defs post_data Let_def option.case_eq_if kept_intros keeps_notify keeps_data
       cong: if_cong)

lemma kept_headers:
  assumes "I (x_settings x)" "e_settings E = S"
  shows "post kept (step_s_header_value_start ch x)" "post kept (step_s_header_value_discard_ws ch x)"
    "post kept (step_s_header_field E ch x)" "post kept (step_s_headers_almost_done E ch x)"
proof -
  show val: "post kept (step_s_header_value_start ch x)"
    using assms(1) by (simp add: step_s_header_value_start_def Let_def split: header_states.split)
  show "post kept (step_s_header_value_discard_ws ch x)"
    using assms(1) val by (simp add: step_s_header_value_discard_ws_def)
  show "post kept (step_s_header_field E ch x)"
    unfolding step_s_header_field_def Let_def post_data assms(2)
    by (auto split: option.split intro!: kept_intros simp: assms(1) keeps_data)
  have "post kept (call_headers_complete E ch y)" if "I (x_settings y)" for y
    using that keeps_notify(2) by (simp add: call_headers_complete_def assms(2) Let_def)
  then show "post kept (step_s_headers_almost_done E ch x)"
    unfolding step_s_headers_almost_done_def Let_def assms(2)
    by (intro kept_intros) (simp_all add: assms(1) keeps_notify)
qed

lemma kept_complete:
  assumes "I (x_settings x)" "e_settings E = S" "\<And>y. I (x_settings y) \<Longrightarrow> post kept (k y)"
  shows "post kept (complete_message E x k)"
  unfolding complete_message_def notify_message_complete_def assms(2)
  by (intro kept_intros) (simp_all add: assms keeps_notify)

lemma kept_body:
  assumes "I (x_settings x)" "e_settings E = S"
    "x_state x \<in> {s_headers_done, s_chunk_size_start, s_chunk_size, s_chunk_parameters,
     s_chunk_size_almost_done, s_chunk_data, s_chunk_data_almost_done, s_chunk_data_done,
     s_body_identity, s_body_identity_eof, s_message_done}"
  shows "post kept (step E ch x)"
proof -
  have "post kept (step_s_headers_done E ch x)"
    unfolding step_s_headers_done_def Let_def by (intro post_STRICT_CHECK post_if kept_complete) (simp_all add: assms(1,2))
  moreover have "post kept (step_s_message_done E ch x)"
    unfolding step_s_message_done_def by (intro kept_complete) (simp_all add: assms(1,2))
  moreover have "post kept (step_s_body_identity E ch x)" "post kept (step_s_chunk_data E ch x)"
    "post kept (step_s_chunk_data_almost_done E ch x)" "post kept (step_s_chunk_data_done E ch x)"
    "post kept (step_s_chunk_size_almost_done E ch x)"
    unfolding step_s_body_identity_def step_s_chunk_data_def step_s_chunk_data_almost_done_def
      step_s_chunk_data_done_def step_s_chunk_size_almost_done_def data_body_def Let_def assms(2)
    by (intro kept_intros; simp add: assms(1) keeps_notify keeps_data)+
  ultimately show ?thesis
    using assms(1,3)
    by (auto simp: step_def step_s_chunk_size_start_def step_s_chunk_size_def step_s_chunk_parameters_def
        step_s_body_identity_eof_def Let_def intro!: kept_ASSERT)
qed

lemma step_kept:
  assumes "I (x_settings x)" "e_settings E = S"
  shows "post kept (step E ch x)"
proof (cases "x_state x \<in> {s_header_value_start, s_header_value_discard_ws, s_header_value, s_header_field,
    s_headers_almost_done}")
  case True
  then show ?thesis
    using kept_headers [OF assms] kept_value_loop [OF assms] by (auto simp: step_def step_s_header_value_def)
qed (use kept_small [OF assms] kept_body [OF assms] in blast)

lemma reexec_kept: "I (x_settings x) \<Longrightarrow> e_settings E = S \<Longrightarrow> kept (reexec E ch x)"
proof (induction E ch x rule: reexec.induct)
  case (1 E ch x)
  with step_kept [OF 1(2,3), of ch] show ?case
    by (subst reexec.simps) (auto simp: post_def split: outcome.split)
qed

lemma byte_step_kept:
  assumes "I (x_settings x)" "e_settings E = S"
  shows "kept (byte_step E x)"
proof -
  have "post kept (COUNT_HEADER_SIZE E 1 x (reexec E (e_data E ! x_p x)))"
    by (rule post_COUNT_HEADER_SIZE) (simp_all add: assms reexec_kept post_def)
  then show ?thesis by (simp add: byte_step_def Let_def post_def reexec_kept assms)
qed

lemma exec_loop_kept: "I (x_settings x) \<Longrightarrow> e_settings E = S \<Longrightarrow> kept (exec_loop E x)"
proof (induction E x rule: exec_loop.induct)
  case (1 E x)
  with byte_step_kept [OF 1(2,3)] show ?case by (subst exec_loop.simps) (auto split: outcome.split)
qed

lemma execute_kept:
  assumes "I s" "e_settings E = S" "http_parser_execute E ps s = Inr (n, ps', s')"
  shows "I s'"
proof -
  have loop: "kept (exec_loop E (initial_exec ps s))"
    by (rule exec_loop_kept) (simp_all add: assms initial_exec_def)
  have left: "post kept (leftover_callbacks E y)" if "I (x_settings y)" for y
    unfolding leftover_callbacks_def Let_def post_data assms(2)
    by (intro kept_intros) (simp_all add: that keeps_data)
  have eof: "post kept (execute_eof E (initial_exec ps s))"
    unfolding execute_eof_def notify_message_complete_def assms(2)
    by (intro kept_intros) (simp_all add: assms(1) keeps_notify initial_exec_def)
  have "kept (execute E ps s)"
  proof (cases "exec_loop E (initial_exec ps s)")
    case (Break y)
    with loop left [of y] eof show ?thesis by (simp add: execute_def Let_def post_def assms(1) initial_exec_def)
  qed (use loop eof in \<open>simp_all add: execute_def Let_def post_def assms(1) initial_exec_def\<close>)
  then show ?thesis
    using assms(3) by (cases "execute E ps s") (auto simp: http_parser_execute_def conclude_def Let_def split: if_splits)
qed

end

end
