(* ===== verification/HttpHeaders.thy ===== *)
theory HttpHeaders
  imports KeyMap
begin

text \<open>
  The header collections of a request and a response: \<open>HttpRequestHeaders\<close> and \<open>HttpResponseHeaders\<close> of
  \<open>include/CPVFramework/Http\<close> and \<open>src/Http\<close>. Common headers are members of the class, a table maps their names
  to pointers to members, and all other headers are in a \<open>std::map\<close>. A pointer to a member is the pair of the
  selector and the update of a record field. The names are compared byte by byte, as the code does.

  \<open>member_table\<close> states what the two tables have in common, \<open>header_fields\<close> is what the rest of the program
  uses of a header collection; the first gives the second.
\<close>

definition crlf :: string where
  "crlf = [CHR 0x0D, CHR 0x0A]"

type_synonym 'h members = "(string \<times> ('h \<Rightarrow> string) \<times> ((string \<Rightarrow> string) \<Rightarrow> 'h \<Rightarrow> 'h)) list"

section \<open>The operations on a table of members and a map\<close>

definition set_header ::
  "'h members \<Rightarrow> (((string, string) smap \<Rightarrow> (string, string) smap) \<Rightarrow> 'h \<Rightarrow> 'h) \<Rightarrow> 'h \<Rightarrow> string \<Rightarrow> string \<Rightarrow> 'h" where
  "set_header fixed remain_update h key value =
     (case al_get fixed key of
        Some (_, update) \<Rightarrow> update (\<lambda>_. value) h
      | None \<Rightarrow> remain_update (\<lambda>m. sm_set m key value) h)"

definition get_header :: "'h members \<Rightarrow> ('h \<Rightarrow> (string, string) smap) \<Rightarrow> 'h \<Rightarrow> string \<Rightarrow> string" where
  "get_header fixed remain h key =
     (case al_get fixed key of
        Some (select, _) \<Rightarrow> select h
      | None \<Rightarrow> (case al_get (remain h) key of Some v \<Rightarrow> v | None \<Rightarrow> []))"

definition remove_header ::
  "'h members \<Rightarrow> (((string, string) smap \<Rightarrow> (string, string) smap) \<Rightarrow> 'h \<Rightarrow> 'h) \<Rightarrow> 'h \<Rightarrow> string \<Rightarrow> 'h" where
  "remove_header fixed remain_update h key =
     (case al_get fixed key of
        Some (_, update) \<Rightarrow> update (\<lambda>_. []) h
      | None \<Rightarrow> remain_update (\<lambda>m. al_erase m key) h)"

text \<open>One call of the function given to \<open>foreach\<close>, and the fragments of one header line.\<close>

definition visit :: "string \<Rightarrow> string \<Rightarrow> (string \<times> string) list" where
  "visit name value = (if value = [] then [] else [(name, value)])"

definition put :: "string \<Rightarrow> string \<Rightarrow> string list" where
  "put name_with_crlf_colonspace value = (if value = [] then [] else [name_with_crlf_colonspace, value])"

definition put_pairs :: "(string \<times> string) list \<Rightarrow> string list" where
  "put_pairs pairs = concat (map (\<lambda>(name, value). [crlf, name, '': '', value]) pairs)"

section \<open>Request headers\<close>

record request_headers =
  rq_remainHeaders :: "(string, string) smap"
  rq_host :: string
  rq_contentType :: string
  rq_contentLength :: string
  rq_connection :: string
  rq_pragma :: string
  rq_upgradeInsecureRequests :: string
  rq_dnt :: string
  rq_userAgent :: string
  rq_accept :: string
  rq_acceptEncoding :: string
  rq_acceptLanguage :: string
  rq_cookie :: string
  rq_xRequestedWith :: string

definition empty_request_headers :: request_headers where
  "empty_request_headers = \<lparr>rq_remainHeaders = [],
     rq_host = [], rq_contentType = [], rq_contentLength = [], rq_connection = [], rq_pragma = [],
     rq_upgradeInsecureRequests = [], rq_dnt = [], rq_userAgent = [], rq_accept = [], rq_acceptEncoding = [],
     rq_acceptLanguage = [], rq_cookie = [], rq_xRequestedWith = []\<rparr>"

definition RequestFixedMembers :: "request_headers members" where
  "RequestFixedMembers =
    [(''Host'', rq_host, rq_host_update), (''Content-Type'', rq_contentType, rq_contentType_update),
     (''Content-Length'', rq_contentLength, rq_contentLength_update),
     (''Connection'', rq_connection, rq_connection_update), (''Pragma'', rq_pragma, rq_pragma_update),
     (''Upgrade-Insecure-Requests'', rq_upgradeInsecureRequests, rq_upgradeInsecureRequests_update),
     (''DNT'', rq_dnt, rq_dnt_update), (''User-Agent'', rq_userAgent, rq_userAgent_update),
     (''Accept'', rq_accept, rq_accept_update),
     (''Accept-Encoding'', rq_acceptEncoding, rq_acceptEncoding_update),
     (''Accept-Language'', rq_acceptLanguage, rq_acceptLanguage_update),
     (''Cookie'', rq_cookie, rq_cookie_update),
     (''X-Requested-With'', rq_xRequestedWith, rq_xRequestedWith_update)]"

definition rq_setHeader :: "request_headers \<Rightarrow> string \<Rightarrow> string \<Rightarrow> request_headers" where
  "rq_setHeader h key value = set_header RequestFixedMembers rq_remainHeaders_update h key value"

definition rq_getHeader :: "request_headers \<Rightarrow> string \<Rightarrow> string" where
  "rq_getHeader h key = get_header RequestFixedMembers rq_remainHeaders h key"

definition rq_removeHeader :: "request_headers \<Rightarrow> string \<Rightarrow> request_headers" where
  "rq_removeHeader h key = remove_header RequestFixedMembers rq_remainHeaders_update h key"

definition rq_foreach :: "request_headers \<Rightarrow> (string \<times> string) list" where
  "rq_foreach h =
     visit ''Host'' (rq_host h) @ visit ''Content-Type'' (rq_contentType h) @
     visit ''Content-Length'' (rq_contentLength h) @ visit ''Connection'' (rq_connection h) @
     visit ''Pragma'' (rq_pragma h) @ visit ''Upgrade-Insecure-Requests'' (rq_upgradeInsecureRequests h) @
     visit ''DNT'' (rq_dnt h) @ visit ''User-Agent'' (rq_userAgent h) @ visit ''Accept'' (rq_accept h) @
     visit ''Accept-Encoding'' (rq_acceptEncoding h) @ visit ''Accept-Language'' (rq_acceptLanguage h) @
     visit ''Cookie'' (rq_cookie h) @ visit ''X-Requested-With'' (rq_xRequestedWith h) @ rq_remainHeaders h"

definition rq_appendToHttp1Packet :: "request_headers \<Rightarrow> string list" where
  "rq_appendToHttp1Packet h =
     put (crlf @ ''Host: '') (rq_host h) @ put (crlf @ ''Content-Type: '') (rq_contentType h) @
     put (crlf @ ''Content-Length: '') (rq_contentLength h) @ put (crlf @ ''Connection: '') (rq_connection h) @
     put (crlf @ ''Pragma: '') (rq_pragma h) @
     put (crlf @ ''Upgrade-Insecure-Requests: '') (rq_upgradeInsecureRequests h) @
     put (crlf @ ''DNT: '') (rq_dnt h) @ put (crlf @ ''User-Agent: '') (rq_userAgent h) @
     put (crlf @ ''Accept: '') (rq_accept h) @ put (crlf @ ''Accept-Encoding: '') (rq_acceptEncoding h) @
     put (crlf @ ''Accept-Language: '') (rq_acceptLanguage h) @ put (crlf @ ''Cookie: '') (rq_cookie h) @
     put (crlf @ ''X-Requested-With: '') (rq_xRequestedWith h) @ put_pairs (rq_remainHeaders h)"

definition rq_maxSize :: "request_headers \<Rightarrow> nat" where
  "rq_maxSize h = length RequestFixedMembers + length (rq_remainHeaders h)"

definition rq_clear :: "request_headers \<Rightarrow> request_headers" where
  "rq_clear h = h\<lparr>rq_remainHeaders := [],
     rq_host := [], rq_contentType := [], rq_contentLength := [], rq_connection := [], rq_pragma := [],
     rq_upgradeInsecureRequests := [], rq_dnt := [], rq_userAgent := [], rq_accept := [],
     rq_acceptEncoding := [], rq_acceptLanguage := [], rq_cookie := [], rq_xRequestedWith := []\<rparr>"

section \<open>Response headers\<close>

record response_headers =
  rs_remainHeaders :: "(string, string) smap"
  rs_additionHeaders :: "(string \<times> string) list"
  rs_date :: string
  rs_contentType :: string
  rs_contentLength :: string
  rs_contentEncoding :: string
  rs_transferEncoding :: string
  rs_connection :: string
  rs_server :: string
  rs_vary :: string
  rs_etag :: string
  rs_cacheControl :: string
  rs_expires :: string
  rs_lastModified :: string

definition empty_response_headers :: response_headers where
  "empty_response_headers = \<lparr>rs_remainHeaders = [], rs_additionHeaders = [],
     rs_date = [], rs_contentType = [], rs_contentLength = [], rs_contentEncoding = [],
     rs_transferEncoding = [], rs_connection = [], rs_server = [], rs_vary = [], rs_etag = [],
     rs_cacheControl = [], rs_expires = [], rs_lastModified = []\<rparr>"

definition ResponseFixedMembers :: "response_headers members" where
  "ResponseFixedMembers =
    [(''Date'', rs_date, rs_date_update), (''Content-Type'', rs_contentType, rs_contentType_update),
     (''Content-Length'', rs_contentLength, rs_contentLength_update),
     (''Content-Encoding'', rs_contentEncoding, rs_contentEncoding_update),
     (''Transfer-Encoding'', rs_transferEncoding, rs_transferEncoding_update),
     (''Connection'', rs_connection, rs_connection_update), (''Server'', rs_server, rs_server_update),
     (''Vary'', rs_vary, rs_vary_update), (''ETag'', rs_etag, rs_etag_update),
     (''Cache-Control'', rs_cacheControl, rs_cacheControl_update),
     (''Expires'', rs_expires, rs_expires_update), (''Last-Modified'', rs_lastModified, rs_lastModified_update)]"

definition rs_setHeader :: "response_headers \<Rightarrow> string \<Rightarrow> string \<Rightarrow> response_headers" where
  "rs_setHeader h key value = set_header ResponseFixedMembers rs_remainHeaders_update h key value"

definition rs_getHeader :: "response_headers \<Rightarrow> string \<Rightarrow> string" where
  "rs_getHeader h key = get_header ResponseFixedMembers rs_remainHeaders h key"

definition rs_removeHeader :: "response_headers \<Rightarrow> string \<Rightarrow> response_headers" where
  "rs_removeHeader h key = remove_header ResponseFixedMembers rs_remainHeaders_update h key"

definition rs_addAdditionHeader :: "response_headers \<Rightarrow> string \<Rightarrow> string \<Rightarrow> response_headers" where
  "rs_addAdditionHeader h key value = h\<lparr>rs_additionHeaders := rs_additionHeaders h @ [(key, value)]\<rparr>"

definition rs_foreach :: "response_headers \<Rightarrow> (string \<times> string) list" where
  "rs_foreach h =
     visit ''Date'' (rs_date h) @ visit ''Content-Type'' (rs_contentType h) @
     visit ''Content-Length'' (rs_contentLength h) @ visit ''Content-Encoding'' (rs_contentEncoding h) @
     visit ''Transfer-Encoding'' (rs_transferEncoding h) @ visit ''Connection'' (rs_connection h) @
     visit ''Server'' (rs_server h) @ visit ''Vary'' (rs_vary h) @ visit ''ETag'' (rs_etag h) @
     visit ''Cache-Control'' (rs_cacheControl h) @ visit ''Expires'' (rs_expires h) @
     visit ''Last-Modified'' (rs_lastModified h) @ rs_remainHeaders h @ rs_additionHeaders h"

definition rs_appendToHttp1Packet :: "response_headers \<Rightarrow> string list" where
  "rs_appendToHttp1Packet h =
     put (crlf @ ''Date: '') (rs_date h) @ put (crlf @ ''Content-Type: '') (rs_contentType h) @
     put (crlf @ ''Content-Length: '') (rs_contentLength h) @
     put (crlf @ ''Content-Encoding: '') (rs_contentEncoding h) @
     put (crlf @ ''Transfer-Encoding: '') (rs_transferEncoding h) @
     put (crlf @ ''Connection: '') (rs_connection h) @ put (crlf @ ''Server: '') (rs_server h) @
     put (crlf @ ''Vary: '') (rs_vary h) @ put (crlf @ ''ETag: '') (rs_etag h) @
     put (crlf @ ''Cache-Control: '') (rs_cacheControl h) @ put (crlf @ ''Expires: '') (rs_expires h) @
     put (crlf @ ''Last-Modified: '') (rs_lastModified h) @ put_pairs (rs_remainHeaders h) @
     put_pairs (rs_additionHeaders h)"

definition rs_maxSize :: "response_headers \<Rightarrow> nat" where
  "rs_maxSize h = length ResponseFixedMembers + length (rs_remainHeaders h) + length (rs_additionHeaders h)"

definition rs_clear :: "response_headers \<Rightarrow> response_headers" where
  "rs_clear h = h\<lparr>rs_remainHeaders := [], rs_additionHeaders := [],
     rs_date := [], rs_contentType := [], rs_contentLength := [], rs_contentEncoding := [],
     rs_transferEncoding := [], rs_connection := [], rs_server := [], rs_vary := [], rs_etag := [],
     rs_cacheControl := [], rs_expires := [], rs_lastModified := []\<rparr>"

section \<open>What a header collection promises\<close>

locale header_fields =
  fixes inv :: "'h \<Rightarrow> bool"
    and get :: "'h \<Rightarrow> string \<Rightarrow> string"
    and set_field :: "'h \<Rightarrow> string \<Rightarrow> string \<Rightarrow> 'h"
    and remove :: "'h \<Rightarrow> string \<Rightarrow> 'h"
    and listed :: "'h \<Rightarrow> (string \<times> string) list"
  assumes get_set: "get (set_field h k v) k' = (if k' = k then v else get h k')"
    and get_remove: "get (remove h k) k' = (if k' = k then [] else get h k')"
    and inv_set: "inv h \<Longrightarrow> inv (set_field h k v)"
    and inv_remove: "inv h \<Longrightarrow> inv (remove h k)"
    and listed_get: "inv h \<Longrightarrow> (k, v) \<in> set (listed h) \<Longrightarrow> get h k = v"
    and get_listed: "get h k \<noteq> [] \<Longrightarrow> (k, get h k) \<in> set (listed h)"
    and listed_distinct: "inv h \<Longrightarrow> distinct (map fst (listed h))"
begin

definition set_all :: "'h \<Rightarrow> (string \<times> string) list \<Rightarrow> 'h" where
  "set_all h kvs = foldl (\<lambda>h (k, v). set_field h k v) h kvs"

lemma get_set_all: "get (set_all h kvs) k = (case map_of (rev kvs) k of None \<Rightarrow> get h k | Some v \<Rightarrow> v)"
  unfolding set_all_def
  by (induction kvs arbitrary: h) (auto simp: get_set map_add_def split: option.split)

lemma inv_set_all: "inv h \<Longrightarrow> inv (set_all h kvs)"
  unfolding set_all_def by (induction kvs arbitrary: h) (auto simp: inv_set)

lemma listed_set_all:
  assumes "inv h"
  shows "(k, v) \<in> set (listed (set_all h kvs)) \<and> v \<noteq> [] \<longleftrightarrow>
    v \<noteq> [] \<and> v = (case map_of (rev kvs) k of None \<Rightarrow> get h k | Some w \<Rightarrow> w)"
  using listed_get [OF inv_set_all [OF assms], of k v kvs] get_listed [of "set_all h kvs" k] get_set_all [of h kvs k]
  by auto

end

section \<open>A table of members gives it\<close>

definition listed_headers :: "'h members \<Rightarrow> ('h \<Rightarrow> (string, string) smap) \<Rightarrow> 'h \<Rightarrow> (string \<times> string) list" where
  "listed_headers fixed remain h = concat (map (\<lambda>(name, select, _). visit name (select h)) fixed) @ remain h"

definition headers_inv :: "'h members \<Rightarrow> ('h \<Rightarrow> (string, string) smap) \<Rightarrow> 'h \<Rightarrow> bool" where
  "headers_inv fixed remain h \<longleftrightarrow> sm_inv (remain h) \<and> (\<forall>k \<in> fst ` set (remain h). al_get fixed k = None)"

lemma fst_al_erase: "fst ` set (al_erase m k) = fst ` set m - {k}"
  by (force simp: al_erase_def)

locale member_table =
  fixes fixed :: "'h members"
    and remain :: "'h \<Rightarrow> (string, string) smap"
    and remain_update :: "((string, string) smap \<Rightarrow> (string, string) smap) \<Rightarrow> 'h \<Rightarrow> 'h"
  assumes names: "al_inv fixed"
    and member_same: "(n, g, u) \<in> set fixed \<Longrightarrow> g (u f h) = f (g h)"
    and member_other: "(n, g, u) \<in> set fixed \<Longrightarrow> (n', g', u') \<in> set fixed \<Longrightarrow> n \<noteq> n' \<Longrightarrow> g' (u f h) = g' h"
    and remain_member: "(n, g, u) \<in> set fixed \<Longrightarrow> remain (u f h) = remain h"
    and member_remain: "(n, g, u) \<in> set fixed \<Longrightarrow> g (remain_update r h) = g h"
    and remain_same: "remain (remain_update r h) = r (remain h)"
begin

lemmas fixed_found = al_get_in_set [of fixed]

lemma get_after_set: "get_header fixed remain (set_header fixed remain_update h k v) k' =
    (if k' = k then v else get_header fixed remain h k')"
  by (auto simp: get_header_def set_header_def remain_same remain_member
      dest!: fixed_found dest: member_same member_other member_remain split: option.splits)

lemma get_after_remove: "get_header fixed remain (remove_header fixed remain_update h k) k' =
    (if k' = k then [] else get_header fixed remain h k')"
  by (auto simp: get_header_def remove_header_def remain_same remain_member
      dest!: fixed_found dest: member_same member_other member_remain split: option.splits)

lemma remain_fixed: "al_get fixed k = Some (g, u) \<Longrightarrow> remain (u f h) = remain h"
  by (rule remain_member [OF fixed_found])

lemma headers_inv_set: "headers_inv fixed remain h \<Longrightarrow> headers_inv fixed remain (set_header fixed remain_update h k v)"
  by (cases "al_get fixed k") (auto simp: headers_inv_def set_header_def remain_same fst_sm_set remain_fixed)

lemma headers_inv_remove: "headers_inv fixed remain h \<Longrightarrow> headers_inv fixed remain (remove_header fixed remain_update h k)"
  by (cases "al_get fixed k") (auto simp: headers_inv_def remove_header_def remain_same fst_al_erase remain_fixed)

lemma listed_iff: "(k, v) \<in> set (listed_headers fixed remain h) \<longleftrightarrow>
    (\<exists>g u. (k, g, u) \<in> set fixed \<and> v = g h \<and> v \<noteq> []) \<or> (k, v) \<in> set (remain h)"
  by (force simp: listed_headers_def visit_def split: if_splits)

lemma fixed_get: "(k, g, u) \<in> set fixed \<Longrightarrow> al_get fixed k = Some (g, u)"
  using al_get_of_set [OF names] .

lemma listed_lookup:
  assumes "headers_inv fixed remain h" "(k, v) \<in> set (listed_headers fixed remain h)"
  shows "get_header fixed remain h k = v"
proof (cases "(k, v) \<in> set (remain h)")
  case True
  with assms(1) have "al_get (remain h) k = Some v" "al_get fixed k = None"
    using al_get_of_set [of "remain h" k v] by (force simp: headers_inv_def sm_inv_al_inv)+
  then show ?thesis by (simp add: get_header_def)
next
  case False
  with assms(2) obtain g u where "(k, g, u) \<in> set fixed" "v = g h" by (auto simp: listed_iff)
  then show ?thesis by (simp add: get_header_def fixed_get)
qed

lemma lookup_listed: "get_header fixed remain h k \<noteq> [] \<Longrightarrow>
    (k, get_header fixed remain h k) \<in> set (listed_headers fixed remain h)"
  by (auto simp: listed_iff get_header_def dest!: al_get_in_set split: option.splits)

lemma names_visited:
  "k \<in> fst ` set (concat (map (\<lambda>(name, select, _). visit name (select h)) F)) \<Longrightarrow> k \<in> fst ` set F"
  by (force simp: visit_def split: if_splits)

lemma distinct_visited: "al_inv F \<Longrightarrow> distinct (map fst (concat (map (\<lambda>(name, select, _). visit name (select h)) F)))"
proof (induction F)
  case (Cons m F)
  obtain n g u where m: "m = (n, g, u)" by (cases m) auto
  have "n \<notin> fst ` set F" using Cons.prems by (simp add: al_inv_def m)
  then have "n \<notin> fst ` set (concat (map (\<lambda>(name, select, _). visit name (select h)) F))"
    using names_visited [of n h F] by blast
  with Cons show ?case by (simp add: al_inv_def m visit_def)
qed simp

lemma distinct_listed:
  assumes "headers_inv fixed remain h"
  shows "distinct (map fst (listed_headers fixed remain h))"
proof -
  have "k \<notin> fst ` set (remain h)" if "k \<in> fst ` set (concat (map (\<lambda>(name, select, _). visit name (select h)) fixed))" for k
    using assms names_visited [OF that] by (metis headers_inv_def al_get_None_iff)
  moreover have "al_inv (remain h)" using assms by (simp add: headers_inv_def sm_inv_al_inv)
  ultimately show ?thesis
    using distinct_visited [OF names, of h] by (simp add: listed_headers_def al_inv_def) blast
qed

end

sublocale member_table \<subseteq> fields: header_fields "headers_inv fixed remain" "get_header fixed remain"
  "set_header fixed remain_update" "remove_header fixed remain_update" "listed_headers fixed remain"
  by unfold_locales
     (simp_all add: get_after_set get_after_remove headers_inv_set headers_inv_remove listed_lookup lookup_listed
       distinct_listed)

section \<open>The two collections\<close>

text \<open>Two members of one class are two fields.\<close>

definition members_apart :: "'h members \<Rightarrow> bool" where
  "members_apart fixed \<longleftrightarrow> (\<forall>(n, g, u) \<in> set fixed. (\<forall>f h. g (u f h) = f (g h)) \<and>
     (\<forall>(n', g', u') \<in> set fixed. n = n' \<or> (\<forall>f h. g' (u f h) = g' h)))"

lemma request_members: "members_apart RequestFixedMembers" "al_inv RequestFixedMembers"
  by (simp_all add: members_apart_def RequestFixedMembers_def al_inv_def)

lemma response_members: "members_apart ResponseFixedMembers" "al_inv ResponseFixedMembers"
  by (simp_all add: members_apart_def ResponseFixedMembers_def al_inv_def)

lemma members_apartD:
  assumes "members_apart fixed" "(n, g, u) \<in> set fixed"
  shows "g (u f h) = f (g h)" "(n', g', u') \<in> set fixed \<Longrightarrow> n \<noteq> n' \<Longrightarrow> g' (u f h) = g' h"
proof -
  have *: "(\<forall>f h. g (u f h) = f (g h)) \<and> (\<forall>(n', g', u') \<in> set fixed. n = n' \<or> (\<forall>f h. g' (u f h) = g' h))"
    using bspec [OF assms(1) [unfolded members_apart_def] assms(2)] by simp
  show "g (u f h) = f (g h)" using * by blast
  show "g' (u f h) = g' h" if "(n', g', u') \<in> set fixed" "n \<noteq> n'"
    using bspec [OF conjunct2 [OF *] that(1)] that(2) by simp
qed

lemma members_remain:
  "\<forall>(n, g, u) \<in> set RequestFixedMembers. \<forall>f r h. rq_remainHeaders (u f h) = rq_remainHeaders h \<and> g (rq_remainHeaders_update r h) = g h"
  "\<forall>(n, g, u) \<in> set ResponseFixedMembers. \<forall>f r h. rs_remainHeaders (u f h) = rs_remainHeaders h \<and> g (rs_remainHeaders_update r h) = g h"
  by (simp_all add: RequestFixedMembers_def ResponseFixedMembers_def)

interpretation request: member_table RequestFixedMembers rq_remainHeaders rq_remainHeaders_update
proof (unfold_locales, goal_cases)
  case 2
  then show ?case by (rule members_apartD(1) [OF request_members(1)])
next
  case 3
  then show ?case by (rule members_apartD(2) [OF request_members(1)])
next
  case 4
  from bspec [OF members_remain(1) this] show ?case by simp
next
  case 5
  from bspec [OF members_remain(1) this] show ?case by simp
qed (simp_all add: request_members(2))

interpretation response: member_table ResponseFixedMembers rs_remainHeaders rs_remainHeaders_update
proof (unfold_locales, goal_cases)
  case 2
  then show ?case by (rule members_apartD(1) [OF response_members(1)])
next
  case 3
  then show ?case by (rule members_apartD(2) [OF response_members(1)])
next
  case 4
  from bspec [OF members_remain(2) this] show ?case by simp
next
  case 5
  from bspec [OF members_remain(2) this] show ?case by simp
qed (simp_all add: response_members(2))

lemma rq_foreach_listed: "rq_foreach h = listed_headers RequestFixedMembers rq_remainHeaders h"
  by (simp add: rq_foreach_def listed_headers_def RequestFixedMembers_def)

lemma rs_foreach_listed:
  "rs_foreach h = listed_headers ResponseFixedMembers rs_remainHeaders h @ rs_additionHeaders h"
  by (simp add: rs_foreach_def listed_headers_def ResponseFixedMembers_def)

lemma empty_headers_inv:
  "headers_inv RequestFixedMembers rq_remainHeaders empty_request_headers"
  "headers_inv ResponseFixedMembers rs_remainHeaders empty_response_headers"
  by (simp_all add: headers_inv_def empty_request_headers_def empty_response_headers_def)

lemma get_empty_headers:
  "get_header RequestFixedMembers rq_remainHeaders empty_request_headers k = []"
  "get_header ResponseFixedMembers rs_remainHeaders empty_response_headers k = []"
  by (simp_all add: get_header_def empty_request_headers_def empty_response_headers_def
      RequestFixedMembers_def ResponseFixedMembers_def)

lemma members_addition:
  "\<forall>(n, g, u) \<in> set ResponseFixedMembers. \<forall>f h. rs_additionHeaders (u f h) = rs_additionHeaders h"
  by (simp add: ResponseFixedMembers_def)

lemma rs_additionHeaders_set:
  "rs_additionHeaders (set_header ResponseFixedMembers rs_remainHeaders_update h k v) = rs_additionHeaders h"
proof (cases "al_get ResponseFixedMembers k")
  case (Some m)
  from bspec [OF members_addition al_get_in_set [OF this]] Some show ?thesis
    by (auto simp: set_header_def split: prod.splits)
qed (simp add: set_header_def)

lemma rs_additionHeaders_set_all:
  "rs_additionHeaders (response.fields.set_all empty_response_headers kvs) = []"
proof -
  have "rs_additionHeaders (response.fields.set_all h kvs) = rs_additionHeaders h" for h
    unfolding response.fields.set_all_def
    by (induction kvs arbitrary: h) (auto simp: rs_additionHeaders_set)
  then show ?thesis by (simp add: empty_response_headers_def)
qed

text \<open>The text of one header line.\<close>

definition header_line :: "string \<times> string \<Rightarrow> string" where
  "header_line = (\<lambda>(name, value). crlf @ name @ '': '' @ value)"

lemma concat_put: "concat (put (crlf @ name @ '': '') value) = concat (map header_line (visit name value))"
  by (simp add: put_def visit_def header_line_def)

lemma concat_put_pairs: "concat (put_pairs pairs) = concat (map header_line pairs)"
  by (induction pairs) (auto simp: put_pairs_def header_line_def)

lemma length_put_pairs: "length (put_pairs pairs) = 4 * length pairs"
  by (induction pairs) (auto simp: put_pairs_def)

text \<open>The fragments of the members of a table, in its order.\<close>

definition put_members :: "'h members \<Rightarrow> 'h \<Rightarrow> string list" where
  "put_members fixed h = concat (map (\<lambda>(name, select, _). put (crlf @ name @ '': '') (select h)) fixed)"

lemma concat_put_members:
  "concat (put_members fixed h @ put_pairs (remain h)) = concat (map header_line (listed_headers fixed remain h))"
  by (induction fixed) (auto simp: put_members_def listed_headers_def concat_put concat_put_pairs)

lemma length_put_members: "length (put_members fixed h) \<le> 4 * length fixed"
  by (induction fixed) (auto simp: put_members_def put_def)

lemma rq_append_members:
  "rq_appendToHttp1Packet h = put_members RequestFixedMembers h @ put_pairs (rq_remainHeaders h)"
  by (simp add: rq_appendToHttp1Packet_def put_members_def RequestFixedMembers_def)

lemma rs_append_members:
  "rs_appendToHttp1Packet h =
     put_members ResponseFixedMembers h @ put_pairs (rs_remainHeaders h) @ put_pairs (rs_additionHeaders h)"
  by (simp add: rs_appendToHttp1Packet_def put_members_def ResponseFixedMembers_def)

text \<open>
  What \<open>appendToHttp1Packet\<close> writes for a request or a response is one line \<open>CRLF name: value\<close> for every
  header that \<open>foreach\<close> visits, in its order, although the two walk the members separately and take the names
  from two sets of constants; and it writes at most four fragments for each header that \<open>maxSize\<close> counts.
\<close>

theorem append_writes_foreach:
  "concat (rq_appendToHttp1Packet q) = concat (map header_line (rq_foreach q)) \<and>
   concat (rs_appendToHttp1Packet s) = concat (map header_line (rs_foreach s)) \<and>
   length (rq_appendToHttp1Packet q) \<le> 4 * rq_maxSize q \<and> length (rs_appendToHttp1Packet s) \<le> 4 * rs_maxSize s"
  using length_put_members [of RequestFixedMembers q] length_put_members [of ResponseFixedMembers s]
    concat_put_members [of RequestFixedMembers q rq_remainHeaders]
    concat_put_members [of ResponseFixedMembers s rs_remainHeaders]
  by (simp add: rq_append_members rs_append_members rq_foreach_listed rs_foreach_listed rq_maxSize_def rs_maxSize_def
      length_put_pairs concat_put_pairs)

text \<open>
  C26. After any sequence of \<open>setHeader\<close> calls on an empty collection, of a request or of a response,
  \<open>getHeader\<close> of a name returns the value set last for it or the empty string, whether the name has a member
  of its own or not, and \<open>foreach\<close> visits no name twice and, of the headers that are not empty, exactly those
  set last.
\<close>

theorem headers_set_sequence:
  defines "rq \<equiv> foldl (\<lambda>h (k, v). rq_setHeader h k v) empty_request_headers"
    and "rs \<equiv> foldl (\<lambda>h (k, v). rs_setHeader h k v) empty_response_headers"
  shows "rq_getHeader (rq kvs) k = (case map_of (rev kvs) k of None \<Rightarrow> [] | Some v \<Rightarrow> v) \<and>
    rs_getHeader (rs kvs) k = (case map_of (rev kvs) k of None \<Rightarrow> [] | Some v \<Rightarrow> v) \<and>
    distinct (map fst (rq_foreach (rq kvs))) \<and> distinct (map fst (rs_foreach (rs kvs))) \<and>
    {(k, v) \<in> set (rq_foreach (rq kvs)). v \<noteq> []} = {(k, v). map_of (rev kvs) k = Some v \<and> v \<noteq> []} \<and>
    {(k, v) \<in> set (rs_foreach (rs kvs)). v \<noteq> []} = {(k, v). map_of (rev kvs) k = Some v \<and> v \<noteq> []}"
  (is "?G \<and> ?G' \<and> ?D \<and> ?D' \<and> ?L \<and> ?L'")
proof (intro conjI)
  have rq: "rq kvs = request.fields.set_all empty_request_headers kvs"
    by (simp add: rq_def request.fields.set_all_def rq_setHeader_def)
  have rs: "rs kvs = response.fields.set_all empty_response_headers kvs"
    by (simp add: rs_def response.fields.set_all_def rs_setHeader_def)
  note inv = request.fields.inv_set_all [OF empty_headers_inv(1)] response.fields.inv_set_all [OF empty_headers_inv(2)]
  show ?G by (simp add: rq rq_getHeader_def request.fields.get_set_all get_empty_headers split: option.split)
  show ?G' by (simp add: rs rs_getHeader_def response.fields.get_set_all get_empty_headers split: option.split)
  show ?D by (simp add: rq rq_foreach_listed request.fields.listed_distinct inv)
  show ?D' by (simp add: rs rs_foreach_listed response.fields.listed_distinct inv rs_additionHeaders_set_all)
  show ?L
    using request.fields.listed_set_all [OF empty_headers_inv(1), of _ _ kvs]
    by (auto simp: rq rq_foreach_listed get_empty_headers split: option.splits)
  show ?L'
    using response.fields.listed_set_all [OF empty_headers_inv(2), of _ _ kvs]
    by (auto simp: rs rs_foreach_listed get_empty_headers rs_additionHeaders_set_all split: option.splits)
qed

end
