(* ===== verification/HttpMessage.thy ===== *)
theory HttpMessage
  imports HttpForm HttpHeaders StringUtils
begin

text \<open>
  Requests and responses: \<open>src/Http/HttpRequest.cpp\<close>, \<open>src/Http/HttpResponse.cpp\<close> and the functions of
  \<open>HttpResponseExtensions\<close>. A request parses its URL and its cookies when they are first asked for and keeps the
  address of the text it has parsed; \<open>same_data\<close>, a parameter, is the comparison of two addresses. A body
  stream holds nothing but a pointer to its connection, so a message only knows whether it has one.
\<close>

section \<open>Requests\<close>

record http_request =
  req_method :: string
  req_url :: string
  req_version :: string
  req_headers :: request_headers
  req_bodyStream :: bool
  req_sourceOfUri :: string
  req_uri :: uri
  req_sourceOfCookies :: string
  req_cookies :: cookies

definition new_request :: http_request where
  "new_request = \<lparr>req_method = [], req_url = [], req_version = [], req_headers = empty_request_headers,
     req_bodyStream = False, req_sourceOfUri = [], req_uri = empty_uri, req_sourceOfCookies = [], req_cookies = []\<rparr>"

definition request_freeResources :: "http_request \<Rightarrow> http_request" where
  "request_freeResources r = r\<lparr>req_method := [], req_url := [], req_version := [],
     req_headers := rq_clear (req_headers r), req_bodyStream := False, req_sourceOfUri := [],
     req_uri := uri_clear (req_uri r), req_sourceOfCookies := [], req_cookies := cookies_clear (req_cookies r)\<rparr>"

text \<open>\<open>uri.parse(url)\<close>, which never fails (\<open>uri_parse_total\<close>).\<close>

definition parse_uri :: "string \<Rightarrow> uri \<Rightarrow> uri" where
  "parse_uri url u = (case uri_parse url u of Some u' \<Rightarrow> u' | None \<Rightarrow> u)"

definition ensureUriUpdated :: "(string \<Rightarrow> string \<Rightarrow> bool) \<Rightarrow> http_request \<Rightarrow> http_request" where
  "ensureUriUpdated same_data r =
     (if req_sourceOfUri r = [] then
        r\<lparr>req_sourceOfUri := req_url r, req_uri := parse_uri (req_url r) (req_uri r)\<rparr>
      else if \<not> same_data (req_sourceOfUri r) (req_url r) then
        r\<lparr>req_sourceOfUri := req_url r, req_uri := parse_uri (req_url r) (uri_clear (req_uri r))\<rparr>
      else r)"

definition ensureCookiesUpdated :: "(string \<Rightarrow> string \<Rightarrow> bool) \<Rightarrow> http_request \<Rightarrow> http_request" where
  "ensureCookiesUpdated same_data r =
     (let cookieHeader = rq_cookie (req_headers r)
      in if req_sourceOfCookies r = [] then
           r\<lparr>req_sourceOfCookies := cookieHeader, req_cookies := cookies_parse (req_cookies r) cookieHeader\<rparr>
         else if \<not> same_data (req_sourceOfCookies r) cookieHeader then
           r\<lparr>req_sourceOfCookies := cookieHeader,
             req_cookies := cookies_parse (cookies_clear (req_cookies r)) cookieHeader\<rparr>
         else r)"

definition request_getUri :: "(string \<Rightarrow> string \<Rightarrow> bool) \<Rightarrow> http_request \<Rightarrow> uri \<times> http_request" where
  "request_getUri same_data r = (let r' = ensureUriUpdated same_data r in (req_uri r', r'))"

definition request_getCookies :: "(string \<Rightarrow> string \<Rightarrow> bool) \<Rightarrow> http_request \<Rightarrow> cookies \<times> http_request" where
  "request_getCookies same_data r = (let r' = ensureCookiesUpdated same_data r in (req_cookies r', r'))"

definition request_setHeader :: "http_request \<Rightarrow> string \<Rightarrow> string \<Rightarrow> http_request" where
  "request_setHeader r key value = r\<lparr>req_headers := rq_setHeader (req_headers r) key value\<rparr>"

text \<open>
  The members that a client of \<open>HttpRequest\<close> calls. The members that are not const and return a reference to the
  headers, the URI or the cookies let the client change what they refer to; \<open>ChangeHeaders\<close>, \<open>ChangeUri\<close> and
  \<open>ChangeCookies\<close> hold the change.
\<close>

datatype request_op =
    SetMethod string
  | SetUrl string
  | SetVersion string
  | SetHeader string string
  | RemoveHeader string
  | ChangeHeaders "request_headers \<Rightarrow> request_headers"
  | SetBodyStream bool
  | GetUri
  | GetCookies
  | ChangeUri "uri \<Rightarrow> uri"
  | ChangeCookies "cookies \<Rightarrow> cookies"
  | FreeResources

fun request_apply :: "(string \<Rightarrow> string \<Rightarrow> bool) \<Rightarrow> request_op \<Rightarrow> http_request \<Rightarrow> http_request" where
  "request_apply same_data (SetMethod m) r = r\<lparr>req_method := m\<rparr>"
| "request_apply same_data (SetUrl url) r = r\<lparr>req_url := url\<rparr>"
| "request_apply same_data (SetVersion v) r = r\<lparr>req_version := v\<rparr>"
| "request_apply same_data (SetHeader k v) r = request_setHeader r k v"
| "request_apply same_data (RemoveHeader k) r = r\<lparr>req_headers := rq_removeHeader (req_headers r) k\<rparr>"
| "request_apply same_data (ChangeHeaders f) r = r\<lparr>req_headers := f (req_headers r)\<rparr>"
| "request_apply same_data (SetBodyStream b) r = r\<lparr>req_bodyStream := b\<rparr>"
| "request_apply same_data GetUri r = snd (request_getUri same_data r)"
| "request_apply same_data GetCookies r = snd (request_getCookies same_data r)"
| "request_apply same_data (ChangeUri f) r = (let (u, r') = request_getUri same_data r in r'\<lparr>req_uri := f u\<rparr>)"
| "request_apply same_data (ChangeCookies f) r =
     (let (c, r') = request_getCookies same_data r in r'\<lparr>req_cookies := f c\<rparr>)"
| "request_apply same_data FreeResources r = request_freeResources r"

definition request_run :: "(string \<Rightarrow> string \<Rightarrow> bool) \<Rightarrow> request_op list \<Rightarrow> http_request" where
  "request_run same_data ops = foldl (\<lambda>r op. request_apply same_data op r) new_request ops"

text \<open>
  What has been parsed is what the remembered text says, as long as the client changes neither the URI nor the
  cookies through their references.
\<close>

definition request_inv :: "http_request \<Rightarrow> bool" where
  "request_inv r \<longleftrightarrow>
     req_uri r = parse_uri (req_sourceOfUri r) empty_uri \<and> req_cookies r = cookies_parse [] (req_sourceOfCookies r)"

definition changes_parsed :: "request_op \<Rightarrow> bool" where
  "changes_parsed op \<longleftrightarrow> (case op of ChangeUri f \<Rightarrow> True | ChangeCookies f \<Rightarrow> True | _ \<Rightarrow> False)"

lemma parse_uri_Nil [simp]: "parse_uri [] empty_uri = empty_uri"
  by (simp add: parse_uri_def uri_parse_def uri_loop_end start_parser_def uri_finish_def)

lemma cookies_parse_Nil [simp]: "cookies_parse [] [] = []"
  by (simp add: cookies_parse_def)

lemma uri_clear_empty [simp]: "uri_clear u = empty_uri"
  by (simp add: uri_clear_def empty_uri_def)

lemma cookies_clear_Nil [simp]: "cookies_clear c = []"
  by (simp add: cookies_clear_def)

lemma request_inv_new: "request_inv new_request"
  by (simp add: request_inv_def new_request_def)

lemma request_inv_apply: "request_inv r \<Longrightarrow> \<not> changes_parsed op \<Longrightarrow> request_inv (request_apply same_data op r)"
  by (cases op) (auto simp: request_inv_def request_getUri_def request_getCookies_def ensureUriUpdated_def
      ensureCookiesUpdated_def request_freeResources_def request_setHeader_def Let_def changes_parsed_def)

lemma request_run_Nil [simp]: "request_run same_data [] = new_request"
  by (simp add: request_run_def)

lemma request_run_snoc [simp]:
  "request_run same_data (ops @ [op]) = request_apply same_data op (request_run same_data ops)"
  by (simp add: request_run_def)

lemma request_inv_run:
  assumes "\<And>op. op \<in> set ops \<Longrightarrow> \<not> changes_parsed op"
  shows "request_inv (request_run same_data ops)"
  using assms by (induction ops rule: rev_induct) (simp_all add: request_inv_new request_inv_apply)

text \<open>The remembered texts were the URL and the \<open>Cookie\<close> header at some time.\<close>

lemma request_sources_apply:
  "req_sourceOfUri (request_apply same_data op r) \<in> {[], req_url r, req_sourceOfUri r}"
  "req_sourceOfCookies (request_apply same_data op r) \<in> {[], rq_cookie (req_headers r), req_sourceOfCookies r}"
  by (cases op; auto simp: request_getUri_def request_getCookies_def ensureUriUpdated_def ensureCookiesUpdated_def
      request_freeResources_def request_setHeader_def Let_def)+

lemma request_sources:
  "req_sourceOfUri (request_run same_data ops) = [] \<or>
     (\<exists>n. req_sourceOfUri (request_run same_data ops) = req_url (request_run same_data (take n ops)))"
  "req_sourceOfCookies (request_run same_data ops) = [] \<or>
     (\<exists>n. req_sourceOfCookies (request_run same_data ops) = rq_cookie (req_headers (request_run same_data (take n ops))))"
proof -
  have old: "\<exists>m. f (take n ops) = f (take m (ops @ [op]))" for f :: "request_op list \<Rightarrow> string" and n ops op
    by (rule exI [of _ "min n (length ops)"]) (simp add: min_def)
  have now: "\<exists>m. f ops = f (take m (ops @ [op]))" for f :: "request_op list \<Rightarrow> string" and ops op
    by (rule exI [of _ "length ops"]) simp
  show "req_sourceOfUri (request_run same_data ops) = [] \<or>
     (\<exists>n. req_sourceOfUri (request_run same_data ops) = req_url (request_run same_data (take n ops)))"
  proof (induction ops rule: rev_induct)
    case (snoc op ops)
    with request_sources_apply(1) [of same_data op "request_run same_data ops"]
      old [of "\<lambda>ops. req_url (request_run same_data ops)"] now [of "\<lambda>ops. req_url (request_run same_data ops)" ops op]
    show ?case unfolding request_run_snoc by (metis empty_iff insert_iff)
  qed (simp add: new_request_def)
  show "req_sourceOfCookies (request_run same_data ops) = [] \<or>
     (\<exists>n. req_sourceOfCookies (request_run same_data ops) = rq_cookie (req_headers (request_run same_data (take n ops))))"
  proof (induction ops rule: rev_induct)
    case (snoc op ops)
    with request_sources_apply(2) [of same_data op "request_run same_data ops"]
      old [of "\<lambda>ops. rq_cookie (req_headers (request_run same_data ops))"]
      now [of "\<lambda>ops. rq_cookie (req_headers (request_run same_data ops))" ops op]
    show ?case unfolding request_run_snoc by (metis empty_iff insert_iff)
  qed (simp add: new_request_def)
qed

text \<open>
  C27. \<open>getUri\<close> returns the URI parsed from the present URL and \<open>getCookies\<close> the cookies parsed from the present
  \<open>Cookie\<close> header, although both are kept and parsed again only when the address of their text has changed. This
  holds after any calls, \<open>freeResources\<close> and changes of the headers among them, on two conditions: the client
  has not changed the parsed URI or cookies themselves through the references it got; and no other text that was the
  URL, or the \<open>Cookie\<close> header, of this request before lay at the address where the present one lies.
\<close>

theorem request_lazy_parse:
  assumes r: "r = request_run same_data ops"
    and unchanged: "\<And>op. op \<in> set ops \<Longrightarrow> \<not> changes_parsed op"
    and urls: "\<And>n. same_data (req_url (request_run same_data (take n ops))) (req_url r) \<Longrightarrow>
      req_url (request_run same_data (take n ops)) = req_url r"
    and cookies: "\<And>n. same_data (rq_cookie (req_headers (request_run same_data (take n ops)))) (rq_cookie (req_headers r)) \<Longrightarrow>
      rq_cookie (req_headers (request_run same_data (take n ops))) = rq_cookie (req_headers r)"
  shows "fst (request_getUri same_data r) = parse_uri (req_url r) empty_uri \<and>
    fst (request_getCookies same_data r) = cookies_parse [] (rq_cookie (req_headers r))"
proof -
  have inv: "request_inv r" unfolding r using unchanged by (rule request_inv_run)
  have "req_sourceOfUri r = req_url r" if "req_sourceOfUri r \<noteq> []" "same_data (req_sourceOfUri r) (req_url r)"
    using request_sources(1) [of same_data ops] that urls unfolding r [symmetric] by metis
  moreover have "req_sourceOfCookies r = rq_cookie (req_headers r)"
    if "req_sourceOfCookies r \<noteq> []" "same_data (req_sourceOfCookies r) (rq_cookie (req_headers r))"
    using request_sources(2) [of same_data ops] that cookies unfolding r [symmetric] by metis
  ultimately show ?thesis using inv
    by (auto simp: request_inv_def request_getUri_def request_getCookies_def ensureUriUpdated_def
        ensureCookiesUpdated_def Let_def)
qed

text \<open>Here two texts lie at one address if they have the same length.\<close>

theorem request_lazy_parse_witness:
  "(let same_data = (\<lambda>a b. length a = length b) in
    uri_path (fst (request_getUri same_data (request_run same_data [SetUrl ''/a?x=1'', GetUri, SetUrl ''/b'']))) = ''/b'')"
proof -
  let ?same = "\<lambda>a b :: string. length a = length b" and ?ops = "[SetUrl ''/a?x=1'', GetUri, SetUrl ''/b'']"
  let ?r = "request_run ?same ?ops"
  have run: "req_url ?r = ''/b''" "rq_cookie (req_headers ?r) = []"
    "req_url (request_run ?same (take n ?ops)) \<in> {[], ''/a?x=1'', ''/b''}"
    "rq_cookie (req_headers (request_run ?same (take n ?ops))) = []" for n
    by (auto simp: request_run_def take_Cons' request_getUri_def ensureUriUpdated_def new_request_def
        empty_request_headers_def)
  have "fst (request_getUri ?same ?r) = parse_uri (req_url ?r) empty_uri \<and>
      fst (request_getCookies ?same ?r) = cookies_parse [] (rq_cookie (req_headers ?r))"
  proof (rule request_lazy_parse)
    show "req_url (request_run ?same (take n ?ops)) = req_url ?r"
      if "length (req_url (request_run ?same (take n ?ops))) = length (req_url ?r)" for n
      using that run(3) [of n] unfolding run(1) by auto
  qed (use run in \<open>auto simp: changes_parsed_def\<close>)
  moreover have "parse_uri ''/b'' empty_uri = empty_uri\<lparr>uri_path := ''/b'', uri_pathFragments := [''b'']\<rparr>" by code_simp
  ultimately show ?thesis unfolding run(1) by simp
qed

text \<open>
  A change through the reference that \<open>getUri\<close> returned is what \<open>getUri\<close> returns from then on, until the URL is
  set to a text at another address; then nothing is left of it.
\<close>

lemma changed_uri_stays:
  assumes "req_url r \<noteq> []" "same_data (req_url r) (req_url r)" "fst (request_getUri same_data r) = u"
    and "req_sourceOfUri r = req_url r \<or> \<not> same_data (req_sourceOfUri r) (req_url r)"
  shows "fst (request_getUri same_data (request_apply same_data (ChangeUri f) r)) = f u"
  using assms by (auto simp: request_getUri_def ensureUriUpdated_def Let_def)

lemma changed_uri_replaced:
  assumes "req_url r \<noteq> []" "\<not> same_data (req_url r) url" "req_sourceOfUri r = req_url r \<or> \<not> same_data (req_sourceOfUri r) (req_url r)"
  shows "fst (request_getUri same_data (request_apply same_data (SetUrl url) (request_apply same_data (ChangeUri f) r))) =
    parse_uri url empty_uri"
  using assms by (auto simp: request_getUri_def ensureUriUpdated_def Let_def)

text \<open>A text that comes to lie where the parsed one was is taken for it.\<close>

lemma reused_address_is_stale:
  "uri_path (fst (request_getUri (\<lambda>a b. True) (request_run (\<lambda>a b. True) [SetUrl ''/a'', GetUri, SetUrl ''/b'']))) = ''/a''"
  by code_simp

section \<open>Responses\<close>

record http_response =
  res_version :: string
  res_statusCode :: string
  res_statusMessage :: string
  res_headers :: response_headers
  res_bodyStream :: bool

definition new_response :: http_response where
  "new_response = \<lparr>res_version = [], res_statusCode = [], res_statusMessage = [],
     res_headers = empty_response_headers, res_bodyStream = False\<rparr>"

definition response_freeResources :: "http_response \<Rightarrow> http_response" where
  "response_freeResources r = r\<lparr>res_version := [], res_statusCode := [], res_statusMessage := [],
     res_headers := rs_clear (res_headers r), res_bodyStream := False\<rparr>"

definition response_setHeader :: "http_response \<Rightarrow> string \<Rightarrow> string \<Rightarrow> http_response" where
  "response_setHeader r key value = r\<lparr>res_headers := rs_setHeader (res_headers r) key value\<rparr>"

definition redirectTo :: "http_response \<Rightarrow> string \<Rightarrow> http_response" where
  "redirectTo r location =
     response_setHeader (r\<lparr>res_statusCode := ''302'', res_statusMessage := ''Found''\<rparr>) ''Location'' location"

definition redirectToPermanently :: "http_response \<Rightarrow> string \<Rightarrow> http_response" where
  "redirectToPermanently r location =
     response_setHeader (r\<lparr>res_statusCode := ''301'', res_statusMessage := ''Moved Permanently''\<rparr>) ''Location'' location"

text \<open>\<open>reply\<close>: the response and the text written to its body stream.\<close>

definition reply :: "http_response \<Rightarrow> string \<Rightarrow> string \<Rightarrow> string \<Rightarrow> string \<Rightarrow> http_response \<times> string" where
  "reply r content mimeType statusCode statusMessage =
     (r\<lparr>res_statusCode := statusCode, res_statusMessage := statusMessage,
        res_headers := (res_headers r)\<lparr>rs_contentType := mimeType,
          rs_contentLength := dumpIntToDec (of_nat (length content) :: u64)\<rparr>\<rparr>, content)"

text \<open>
  The value of a cookie header; \<open>expires\<close> is the formatted time. \<open>cookie_capacity\<close> is the capacity reserved for
  it, \<open>HttpHeaderTimeStringSize\<close> is 29.
\<close>

definition cookie_value ::
  "string \<Rightarrow> string \<Rightarrow> string \<Rightarrow> string \<Rightarrow> string option \<Rightarrow> bool \<Rightarrow> bool \<Rightarrow> string \<Rightarrow> string" where
  "cookie_value key value path domain expires httpOnly secure sameSite =
     key @ (if value \<noteq> [] then ''='' @ value else []) @
     (if path \<noteq> [] then ''; Path='' @ path else []) @
     (if domain \<noteq> [] then ''; Domain='' @ domain else []) @
     (case expires of Some time \<Rightarrow> ''; Expires='' @ time | None \<Rightarrow> []) @
     (if httpOnly then ''; HttpOnly'' else []) @
     (if secure then ''; Secure'' else []) @
     (if sameSite \<noteq> [] then ''; SameSite='' @ sameSite else [])"

definition cookie_capacity :: "string \<Rightarrow> string \<Rightarrow> string \<Rightarrow> string \<Rightarrow> string \<Rightarrow> nat" where
  "cookie_capacity key value path domain sameSite =
     length key + length value + length path + length domain + length sameSite + 29 + 57"

definition setCookie ::
  "http_response \<Rightarrow> string \<Rightarrow> string \<Rightarrow> string \<Rightarrow> string \<Rightarrow> string option \<Rightarrow> bool \<Rightarrow> bool \<Rightarrow> string \<Rightarrow> http_response" where
  "setCookie r key value path domain expires httpOnly secure sameSite =
     r\<lparr>res_headers := rs_addAdditionHeader (res_headers r) ''SetCookie''
        (cookie_value key value path domain expires httpOnly secure sameSite)\<rparr>"

definition removeCookie :: "http_response \<Rightarrow> string \<Rightarrow> string \<Rightarrow> string \<Rightarrow> string \<Rightarrow> http_response" where
  "removeCookie r key path domain epoch = setCookie r key [] path domain (Some epoch) False False []"

text \<open>
  \<open>setCookie\<close> appends one header to those that may occur more than once and changes nothing else that is
  sent, and its value fits the capacity the builder reserved, so that it is not moved while it is built.
\<close>

theorem setCookie_appends:
  assumes "\<And>time. expires = Some time \<Longrightarrow> length time = 29"
  shows "rs_foreach (res_headers (setCookie r key value path domain expires httpOnly secure sameSite)) =
      rs_foreach (res_headers r) @
        [(''SetCookie'', cookie_value key value path domain expires httpOnly secure sameSite)] \<and>
    length (cookie_value key value path domain expires httpOnly secure sameSite) \<le>
      cookie_capacity key value path domain sameSite"
  using assms
  by (auto simp: setCookie_def rs_foreach_listed rs_addAdditionHeader_def listed_headers_def ResponseFixedMembers_def
      cookie_value_def cookie_capacity_def split: option.split)

theorem setCookie_appends_witness:
  "rs_foreach (res_headers (setCookie new_response ''id'' ''7'' ''/'' [] None True False [])) =
     [(''SetCookie'', ''id=7; Path=/; HttpOnly'')]"
  using setCookie_appends [of None new_response "''id''" "''7''" "''/''" "[]" True False "[]"]
  by (simp add: cookie_value_def new_response_def empty_response_headers_def rs_foreach_def visit_def)

end
