(* ===== verification/Http11Connection.thy ===== *)
theory Http11Connection
  imports Http11ParserProtocol HttpMessage "HOL-Library.Code_Target_Numeral"
begin

text \<open>
  \<open>src/HttpServer/Connections/Http11ServerConnection.cpp\<close> and \<open>.hpp\<close>: the connection object, the callbacks it
  gives to the parser and its receive loop. The reply loop is in \<open>Http11Reply\<close>.

  The coroutines of the loops are cut where they wait. A function of the receive loop returns the connection
  and what the loop waits for: a read, a push to one of the two queues, or nothing more. \<open>receive_resume\<close>
  continues a loop whose wait is over, \<open>receive_exception\<close> is the handler of \<open>startReceiveRequestLoop\<close>. The queues
  are \<open>seastar::queue\<close>: what the loop pushes is visible in the sequence of its waits.

  A fault of the parser (a failed assertion, an access out of range) and a use of \<open>newRequest_\<close> after it has
  been moved to the queue are values of the model, so that their absence is a theorem.
\<close>

section \<open>The connection\<close>

datatype Http11ServerConnectionState =
    Initial | Started | ReceiveRequestMessageBegin | ReceiveRequestUrl | ReceiveRequestHeaderField
  | ReceiveRequestHeaderValue | ReceiveRequestHeadersComplete | ReceiveRequestBody
  | ReceiveRequestMessageComplete | Closing | Closed

record request_entry =
  re_request :: http_request
  re_id :: u32
  re_hasBody :: bool

record body_entry =
  be_buffer :: string
  be_id :: u32
  be_isEnd :: bool

record receive_data =
  rd_requestId :: u32
  rd_lastBuffer :: string
  rd_receivedBytes :: u64
  rd_receivedPackets :: u64
  rd_url :: string
  rd_headerField :: string
  rd_headerValue :: string
  rd_bodyBuffers :: "string list"
  rd_bodyBufferEnqueueIndex :: nat
  rd_requestEnqueued :: bool

definition empty_receive_data :: receive_data where
  "empty_receive_data = \<lparr>rd_requestId = 0, rd_lastBuffer = [], rd_receivedBytes = 0, rd_receivedPackets = 0,
     rd_url = [], rd_headerField = [], rd_headerValue = [], rd_bodyBuffers = [], rd_bodyBufferEnqueueIndex = 0,
     rd_requestEnqueued = False\<rparr>"

record reply_data =
  rp_requestId :: u32
  rp_requestBodyConsumed :: bool
  rp_responseHeadersAppended :: bool
  rp_responseWrittenBytes :: u64
  rp_keepConnection :: bool

definition empty_reply_data :: reply_data where
  "empty_reply_data = \<lparr>rp_requestId = 0, rp_requestBodyConsumed = False, rp_responseHeadersAppended = False,
     rp_responseWrittenBytes = 0, rp_keepConnection = False\<rparr>"

record metric_data =
  mt_request_received :: u64
  mt_request_handled :: u64
  mt_request_errors :: u64
  mt_request_receive_exception_occurs :: u64
  mt_request_reply_exception_occurs :: u64
  mt_request_timeout_errors :: u64
  mt_request_initial_size_errors :: u64
  mt_request_invalid_format_errors :: u64

definition zero_metrics :: metric_data where
  "zero_metrics = \<lparr>mt_request_received = 0, mt_request_handled = 0, mt_request_errors = 0,
     mt_request_receive_exception_occurs = 0, mt_request_reply_exception_occurs = 0,
     mt_request_timeout_errors = 0, mt_request_initial_size_errors = 0, mt_request_invalid_format_errors = 0\<rparr>"

text \<open>
  \<open>cn_newRequest\<close> is \<^const>\<open>None\<close> after the request was moved; \<open>cn_nullRequest\<close> records a use of it then.
  \<open>cn_inputOpen\<close> is false after \<open>shutdown_input\<close>, \<open>cn_queuesAborted\<close> true after \<open>abort\<close>, \<open>cn_output\<close> is what has been
  written to the socket.
\<close>

record connection =
  cn_inputOpen :: bool
  cn_state :: Http11ServerConnectionState
  cn_queuesAborted :: bool
  cn_newRequest :: "http_request option"
  cn_nullRequest :: bool
  cn_nextRequestBuffer :: string
  cn_request :: http_request
  cn_response :: http_response
  cn_lastErrorResponse :: string
  cn_shutdownReason :: string
  cn_parser :: http_parser
  cn_receive :: receive_data
  cn_reply :: reply_data
  cn_metrics :: metric_data
  cn_output :: string
  cn_detectTimeoutFlag :: bool

definition new_connection :: connection where
  "new_connection = \<lparr>cn_inputOpen = True, cn_state = Initial, cn_queuesAborted = False,
     cn_newRequest = Some new_request, cn_nullRequest = False, cn_nextRequestBuffer = [],
     cn_request = new_request, cn_response = new_response, cn_lastErrorResponse = [],
     cn_shutdownReason = ''not set'', cn_parser = http_parser_init HTTP_REQUEST,
     cn_receive = empty_receive_data, cn_reply = empty_reply_data, cn_metrics = zero_metrics, cn_output = [],
     cn_detectTimeoutFlag = False\<rparr>"

text \<open>What \<open>HttpServerConfiguration\<close> says about one connection.\<close>

record connection_limits =
  lm_maxInitialRequestBytes :: u64
  lm_maxInitialRequestPackets :: u64

section \<open>Small pieces\<close>

definition upd_receive :: "(receive_data \<Rightarrow> receive_data) \<Rightarrow> connection \<Rightarrow> connection" where
  "upd_receive f c = c\<lparr>cn_receive := f (cn_receive c)\<rparr>"

definition upd_metrics :: "(metric_data \<Rightarrow> metric_data) \<Rightarrow> connection \<Rightarrow> connection" where
  "upd_metrics f c = c\<lparr>cn_metrics := f (cn_metrics c)\<rparr>"

definition enter :: "Http11ServerConnectionState \<Rightarrow> connection \<Rightarrow> connection" where
  "enter s c = c\<lparr>cn_state := s\<rparr>"

definition shutdown :: "string \<Rightarrow> connection \<Rightarrow> connection" where
  "shutdown reason c =
     (if cn_state c = Closing then c
      else c\<lparr>cn_inputOpen := False, cn_queuesAborted := True, cn_shutdownReason := reason, cn_state := Closing\<rparr>)"

text \<open>\<open>start\<close> up to the spawned loops, \<open>stop\<close> up to its wait; \<^const>\<open>None\<close> is the exception of \<open>start\<close>.\<close>

definition connection_start :: "connection \<Rightarrow> connection option" where
  "connection_start c = (if cn_state c \<noteq> Initial then None else Some (enter Started c))"

definition connection_stop :: "connection \<Rightarrow> connection" where
  "connection_stop c = shutdown ''stop function called'' c"

definition onTimeout :: "connection \<Rightarrow> connection" where
  "onTimeout c =
     shutdown ''request timeout''
       (upd_metrics (\<lambda>m. m\<lparr>mt_request_errors := mt_request_errors m + 1,
          mt_request_timeout_errors := mt_request_timeout_errors m + 1\<rparr>) c)"

definition connection_closed :: "connection \<Rightarrow> connection" where
  "connection_closed c = enter Closed c"

section \<open>The callbacks\<close>

definition conn_message_begin :: "http_parser \<Rightarrow> connection \<Rightarrow> int \<times> connection" where
  "conn_message_begin ps c =
     (if cn_state c = Started then (0, enter ReceiveRequestMessageBegin c) else (-1, c))"

definition conn_url :: "http_parser \<Rightarrow> string \<Rightarrow> connection \<Rightarrow> int \<times> connection" where
  "conn_url ps data c =
     (if cn_state c = ReceiveRequestMessageBegin then
        (0, upd_receive (\<lambda>r. r\<lparr>rd_url := data\<rparr>) (enter ReceiveRequestUrl c))
      else if cn_state c = ReceiveRequestUrl then
        (0, upd_receive (\<lambda>r. r\<lparr>rd_url := rd_url r @ data\<rparr>) c)
      else (-1, c))"

text \<open>\<open>newRequest_.setHeader(headerField.build(), headerValue.build())\<close>\<close>

definition store_header :: "connection \<Rightarrow> connection" where
  "store_header c =
     (case cn_newRequest c of
        None \<Rightarrow> c\<lparr>cn_nullRequest := True\<rparr>
      | Some r \<Rightarrow> c\<lparr>cn_newRequest :=
          Some (request_setHeader r (rd_headerField (cn_receive c)) (rd_headerValue (cn_receive c)))\<rparr>)"

definition conn_header_field :: "http_parser \<Rightarrow> string \<Rightarrow> connection \<Rightarrow> int \<times> connection" where
  "conn_header_field ps data c =
     (if cn_state c = ReceiveRequestHeaderValue then
        (0, upd_receive (\<lambda>r. r\<lparr>rd_headerField := data\<rparr>) (store_header (enter ReceiveRequestHeaderField c)))
      else if cn_state c = ReceiveRequestUrl then
        (0, upd_receive (\<lambda>r. r\<lparr>rd_headerField := data\<rparr>) (enter ReceiveRequestHeaderField c))
      else if cn_state c = ReceiveRequestHeaderField then
        (0, upd_receive (\<lambda>r. r\<lparr>rd_headerField := rd_headerField r @ data\<rparr>) c)
      else (-1, c))"

definition conn_header_value :: "http_parser \<Rightarrow> string \<Rightarrow> connection \<Rightarrow> int \<times> connection" where
  "conn_header_value ps data c =
     (if cn_state c = ReceiveRequestHeaderField then
        (0, upd_receive (\<lambda>r. r\<lparr>rd_headerValue := data\<rparr>) (enter ReceiveRequestHeaderValue c))
      else if cn_state c = ReceiveRequestHeaderValue then
        (0, upd_receive (\<lambda>r. r\<lparr>rd_headerValue := rd_headerValue r @ data\<rparr>) c)
      else (-1, c))"

definition getHttpVersionString :: "http_parser \<Rightarrow> string" where
  "getHttpVersionString ps =
     (if hp_http_major ps = 1 \<and> hp_http_minor ps = 1 then ''HTTP/1.1''
      else if hp_http_major ps = 1 \<and> hp_http_minor ps = 0 then ''HTTP/1.0''
      else if hp_http_major ps = 1 \<and> hp_http_minor ps = 2 then ''HTTP/1.2''
      else ''HTTP/'' @ dumpIntToDec (of_nat (hp_http_major ps) :: u16) @ ''.'' @
             dumpIntToDec (of_nat (hp_http_minor ps) :: u16))"

text \<open>\<open>newRequest_.setMethod(...); newRequest_.setUrl(...); newRequest_.setVersion(...);\<close>\<close>

definition store_request_line :: "http_parser \<Rightarrow> connection \<Rightarrow> connection" where
  "store_request_line ps c =
     (case cn_newRequest c of
        None \<Rightarrow> c\<lparr>cn_nullRequest := True\<rparr>
      | Some r \<Rightarrow> c\<lparr>cn_newRequest :=
          Some (r\<lparr>req_method := method_strings (hp_method ps), req_url := rd_url (cn_receive c),
                  req_version := getHttpVersionString ps\<rparr>)\<rparr>)"

definition conn_headers_complete :: "http_parser \<Rightarrow> connection \<Rightarrow> int \<times> connection" where
  "conn_headers_complete ps c =
     (if cn_state c = ReceiveRequestHeaderValue then
        (0, store_request_line ps (store_header (enter ReceiveRequestHeadersComplete c)))
      else if cn_state c = ReceiveRequestUrl then
        (0, store_request_line ps (enter ReceiveRequestHeadersComplete c))
      else (-1, c))"

definition conn_body :: "http_parser \<Rightarrow> string \<Rightarrow> connection \<Rightarrow> int \<times> connection" where
  "conn_body ps data c =
     (if cn_state c = ReceiveRequestHeadersComplete then
        (0, upd_receive (\<lambda>r. r\<lparr>rd_bodyBuffers := rd_bodyBuffers r @ [data]\<rparr>) (enter ReceiveRequestBody c))
      else if cn_state c = ReceiveRequestBody then
        (0, upd_receive (\<lambda>r. r\<lparr>rd_bodyBuffers := rd_bodyBuffers r @ [data]\<rparr>) c)
      else (-1, c))"

definition conn_message_complete :: "http_parser \<Rightarrow> connection \<Rightarrow> int \<times> connection" where
  "conn_message_complete ps c =
     (if cn_state c = ReceiveRequestHeadersComplete \<or> cn_state c = ReceiveRequestBody then
        (0, enter ReceiveRequestMessageComplete
              (upd_receive (\<lambda>r. if rd_requestEnqueued r \<and> rd_bodyBuffers r = []
                                then r\<lparr>rd_bodyBuffers := [[]]\<rparr> else r) c))
      else (-1, c))"

text \<open>\<open>on_status\<close>, \<open>on_chunk_header\<close> and \<open>on_chunk_complete\<close> are those of \<open>http_parser_settings\<close>, which return 0.\<close>

definition conn_settings :: "connection settings" where
  "conn_settings =
     \<lparr>on_message_begin = conn_message_begin, on_url = conn_url, on_status = (\<lambda>ps d c. (0, c)),
      on_header_field = conn_header_field, on_header_value = conn_header_value,
      on_headers_complete = conn_headers_complete, on_body = conn_body,
      on_message_complete = conn_message_complete, on_chunk_header = (\<lambda>ps c. (0, c)),
      on_chunk_complete = (\<lambda>ps c. (0, c))\<rparr>"

text \<open>\<open>HttpMaxHeaderSizeIsOverridden\<close>: the limit of the parser is the largest 32 bit number.\<close>

definition conn_env :: "string \<Rightarrow> connection env" where
  "conn_env buffer = \<lparr>e_data = buffer, e_max_header_size = - 1, e_settings = conn_settings\<rparr>"

section \<open>The receive loop\<close>

definition ReachedBytesLimitationOfInitialRequestData :: string where
  "ReachedBytesLimitationOfInitialRequestData =
     ''HTTP/1.0 400 Bad Request'' @ crlf @ ''Content-Type: text/plain;charset=utf-8'' @ crlf @
     ''Content-Length: 58'' @ crlf @ ''Connection: close'' @ crlf @ crlf @
     ''Error: reached bytes limitation of initial request data.'' @ crlf"

definition ReachedPacketsLimitationOfInitialRequestData :: string where
  "ReachedPacketsLimitationOfInitialRequestData =
     ''HTTP/1.0 400 Bad Request'' @ crlf @ ''Content-Type: text/plain;charset=utf-8'' @ crlf @
     ''Content-Length: 60'' @ crlf @ ''Connection: close'' @ crlf @ crlf @
     ''Error: reached packets limitation of initial request data.'' @ crlf"

definition InvalidHttpRequestFormat :: string where
  "InvalidHttpRequestFormat =
     ''HTTP/1.0 400 Bad Request'' @ crlf @ ''Content-Type: text/plain;charset=utf-8'' @ crlf @
     ''Content-Length: 37'' @ crlf @ ''Connection: close'' @ crlf @ crlf @
     ''Error: invalid http request format.'' @ crlf"

datatype receive_wait =
    WaitRead
  | ReadyBuffer string
  | PushBody body_entry
  | PushRequest request_entry
  | ReceiveEnd

definition reset_receive :: "connection \<Rightarrow> connection" where
  "reset_receive c =
     c\<lparr>cn_newRequest := Some new_request,
       cn_receive := empty_receive_data\<lparr>rd_requestId := rd_requestId (cn_receive c) + 1\<rparr>,
       cn_state := Started, cn_parser := http_parser_init HTTP_REQUEST\<rparr>"

definition receiveRequestLoop :: "connection \<Rightarrow> connection \<times> receive_wait" where
  "receiveRequestLoop c =
     (if cn_state c = Closing then (c, ReceiveEnd)
      else
        let c1 = (if cn_state c = ReceiveRequestMessageComplete then reset_receive c else c)
        in if cn_nextRequestBuffer c1 = [] then (c1, WaitRead)
           else (c1\<lparr>cn_nextRequestBuffer := []\<rparr>, ReadyBuffer (cn_nextRequestBuffer c1)))"

definition enqueueRequestAndContinueReceiving :: "bool \<Rightarrow> connection \<Rightarrow> connection \<times> receive_wait" where
  "enqueueRequestAndContinueReceiving hasBody c =
     (if \<not> rd_requestEnqueued (cn_receive c) \<and>
         cn_state c \<in> {ReceiveRequestHeadersComplete, ReceiveRequestBody, ReceiveRequestMessageComplete} then
        (case cn_newRequest c of
           None \<Rightarrow> (c\<lparr>cn_nullRequest := True\<rparr>, ReceiveEnd)
         | Some r \<Rightarrow>
             (upd_receive (\<lambda>d. d\<lparr>rd_requestEnqueued := True\<rparr>)
                (upd_metrics (\<lambda>m. m\<lparr>mt_request_received := mt_request_received m + 1\<rparr>) c)\<lparr>cn_newRequest := None\<rparr>,
              PushRequest \<lparr>re_request = r, re_id = rd_requestId (cn_receive c),
                re_hasBody = (hasBody \<or> cn_state c \<noteq> ReceiveRequestMessageComplete)\<rparr>))
      else receiveRequestLoop c)"

text \<open>\<open>enqueueBodyBuffers().then([this] { return enqueueRequestAndContinueReceiving(true); })\<close>\<close>

definition enqueueBodyBuffers :: "connection \<Rightarrow> connection \<times> receive_wait" where
  "enqueueBodyBuffers c =
     (let d = cn_receive c; index = rd_bodyBufferEnqueueIndex d
      in if index \<ge> length (rd_bodyBuffers d) then
           enqueueRequestAndContinueReceiving True
             (upd_receive (\<lambda>d. d\<lparr>rd_bodyBufferEnqueueIndex := 0, rd_bodyBuffers := []\<rparr>) c)
         else
           (upd_receive (\<lambda>d. d\<lparr>rd_bodyBufferEnqueueIndex := index + 1,
               rd_bodyBuffers := (rd_bodyBuffers d)[index := []]\<rparr>) c,
            PushBody \<lparr>be_buffer = rd_bodyBuffers d ! index, be_id = rd_requestId d,
              be_isEnd = (index + 1 = length (rd_bodyBuffers d) \<and> cn_state c = ReceiveRequestMessageComplete)\<rparr>))"

text \<open>An error of the initial request data: the counters, the response, and the shutdown.\<close>

definition refuse :: "string \<Rightarrow> string \<Rightarrow> (metric_data \<Rightarrow> metric_data) \<Rightarrow> connection \<Rightarrow> connection \<times> receive_wait" where
  "refuse response reason count c =
     (shutdown reason
        ((upd_metrics (\<lambda>m. count (m\<lparr>mt_request_errors := mt_request_errors m + 1\<rparr>)) c)\<lparr>cn_lastErrorResponse := response\<rparr>),
      ReceiveEnd)"

definition count_initial_size :: "metric_data \<Rightarrow> metric_data" where
  "count_initial_size m = m\<lparr>mt_request_initial_size_errors := mt_request_initial_size_errors m + 1\<rparr>"

definition count_invalid_format :: "metric_data \<Rightarrow> metric_data" where
  "count_invalid_format m = m\<lparr>mt_request_invalid_format_errors := mt_request_invalid_format_errors m + 1\<rparr>"

text \<open>The call of the parser and what follows it.\<close>

definition parse_buffer :: "string \<Rightarrow> connection \<Rightarrow> string + connection \<times> receive_wait" where
  "parse_buffer buffer c =
     (case http_parser_execute (conn_env buffer) (cn_parser c) c of
        Inl w \<Rightarrow> Inl w
      | Inr (parsedSize, ps, c') \<Rightarrow>
          let c1 = c'\<lparr>cn_parser := ps\<rparr>;
              continue = (\<lambda>c. if rd_bodyBuffers (cn_receive c) = [] then enqueueRequestAndContinueReceiving False c
                               else enqueueBodyBuffers c)
          in if parsedSize \<noteq> length buffer then
               if hp_http_errno ps = HPE_CB_message_begin \<and> parsedSize > 1 \<and>
                  cn_state c1 = ReceiveRequestMessageComplete then
                 Inr (continue (c1\<lparr>cn_nextRequestBuffer := drop (parsedSize - 1) buffer\<rparr>))
               else Inr (refuse InvalidHttpRequestFormat ''invalid request format'' count_invalid_format c1)
             else Inr (continue c1))"

definition receive_buffer :: "connection_limits \<Rightarrow> string \<Rightarrow> connection \<Rightarrow> string + connection \<times> receive_wait" where
  "receive_buffer lm buffer c0 =
     (let c = upd_receive (\<lambda>d. d\<lparr>rd_lastBuffer := buffer\<rparr>) (c0\<lparr>cn_detectTimeoutFlag := False\<rparr>)
      in if buffer = [] then Inr (shutdown ''closed from remote'' c, ReceiveEnd)
         else if cn_state c \<noteq> ReceiveRequestBody then
           let c1 = upd_receive (\<lambda>d. d\<lparr>rd_receivedBytes := rd_receivedBytes d + of_nat (length buffer)\<rparr>) c
           in if rd_receivedBytes (cn_receive c1) > lm_maxInitialRequestBytes lm then
                Inr (refuse ReachedBytesLimitationOfInitialRequestData
                       ''reached bytes limitation of initial request data'' count_initial_size c1)
              else
                let c2 = upd_receive (\<lambda>d. d\<lparr>rd_receivedPackets := rd_receivedPackets d + 1\<rparr>) c1
                in if rd_receivedPackets (cn_receive c2) > lm_maxInitialRequestPackets lm then
                     Inr (refuse ReachedPacketsLimitationOfInitialRequestData
                            ''reached packets limitation of initial request data'' count_initial_size c2)
                   else parse_buffer buffer c2
         else parse_buffer buffer c)"

text \<open>The wait is over: the buffer the socket gave, or a push that went through.\<close>

definition receive_resume :: "connection_limits \<Rightarrow> string \<Rightarrow> receive_wait \<Rightarrow> connection \<Rightarrow> string + connection \<times> receive_wait" where
  "receive_resume lm input w c =
     (case w of
        WaitRead \<Rightarrow> receive_buffer lm input c
      | ReadyBuffer buffer \<Rightarrow> receive_buffer lm buffer c
      | PushBody e \<Rightarrow> Inr (enqueueBodyBuffers c)
      | PushRequest e \<Rightarrow> Inr (receiveRequestLoop c)
      | ReceiveEnd \<Rightarrow> Inr (c, ReceiveEnd))"

text \<open>The handler of \<open>startReceiveRequestLoop\<close>, for a read or a push that failed.\<close>

definition receive_exception :: "connection \<Rightarrow> connection \<times> receive_wait" where
  "receive_exception c =
     (if cn_state c = Closing then (c, ReceiveEnd)
      else
        (shutdown ''exception occurs when receive request''
           (upd_metrics (\<lambda>m. m\<lparr>mt_request_errors := mt_request_errors m + 1,
              mt_request_receive_exception_occurs := mt_request_receive_exception_occurs m + 1\<rparr>) c), ReceiveEnd))"

section \<open>The callbacks keep the order of the parser\<close>

primrec phase_of :: "Http11ServerConnectionState \<Rightarrow> phase" where
  "phase_of Initial = Off"
| "phase_of Started = Idle"
| "phase_of ReceiveRequestMessageBegin = Begun"
| "phase_of ReceiveRequestUrl = Url"
| "phase_of ReceiveRequestHeaderField = Field"
| "phase_of ReceiveRequestHeaderValue = Value"
| "phase_of ReceiveRequestHeadersComplete = Headers"
| "phase_of ReceiveRequestBody = Body"
| "phase_of ReceiveRequestMessageComplete = Complete"
| "phase_of Closing = Off"
| "phase_of Closed = Off"

definition conn_phase :: "connection \<Rightarrow> phase" where
  "conn_phase c = phase_of (cn_state c)"

lemma phase_of_iff [simp]:
  "phase_of s = Idle \<longleftrightarrow> s = Started" "phase_of s = Begun \<longleftrightarrow> s = ReceiveRequestMessageBegin"
  "phase_of s = Url \<longleftrightarrow> s = ReceiveRequestUrl" "phase_of s = Field \<longleftrightarrow> s = ReceiveRequestHeaderField"
  "phase_of s = Value \<longleftrightarrow> s = ReceiveRequestHeaderValue" "phase_of s = Headers \<longleftrightarrow> s = ReceiveRequestHeadersComplete"
  "phase_of s = Body \<longleftrightarrow> s = ReceiveRequestBody" "phase_of s = Complete \<longleftrightarrow> s = ReceiveRequestMessageComplete"
  by (cases s; simp)+

lemma conn_settings_simps [simp]:
  "on_message_begin conn_settings = conn_message_begin" "on_url conn_settings = conn_url"
  "on_status conn_settings = (\<lambda>ps d c. (0, c))"
  "on_header_field conn_settings = conn_header_field" "on_header_value conn_settings = conn_header_value"
  "on_headers_complete conn_settings = conn_headers_complete" "on_body conn_settings = conn_body"
  "on_message_complete conn_settings = conn_message_complete"
  "on_chunk_header conn_settings = (\<lambda>ps c. (0, c))" "on_chunk_complete conn_settings = (\<lambda>ps c. (0, c))"
  by (simp_all add: conn_settings_def)

lemmas callback_defs = conn_message_begin_def conn_url_def conn_header_field_def conn_header_value_def
  conn_headers_complete_def conn_body_def conn_message_complete_def

lemmas piece_defs = enter_def upd_receive_def store_header_def store_request_line_def

interpretation conn: request_protocol conn_settings conn_phase
  by unfold_locales (auto simp: conn_phase_def callback_defs piece_defs split: if_splits option.splits)

text \<open>What the callbacks keep of a connection whose current request has the number \<open>i\<close>; \<open>e\<close>: it is in the queue.\<close>

definition conn_frame :: "u32 \<Rightarrow> bool \<Rightarrow> connection \<Rightarrow> bool" where
  "conn_frame i e c \<longleftrightarrow>
     \<not> cn_nullRequest c \<and> (cn_newRequest c = None \<longleftrightarrow> e) \<and> rd_requestEnqueued (cn_receive c) = e \<and>
     rd_requestId (cn_receive c) = i \<and> rd_bodyBufferEnqueueIndex (cn_receive c) = 0 \<and>
     (e \<longrightarrow> cn_state c \<in> {ReceiveRequestHeadersComplete, ReceiveRequestBody, ReceiveRequestMessageComplete, Closing, Closed}) \<and>
     (rd_bodyBuffers (cn_receive c) \<noteq> [] \<longrightarrow> cn_state c \<in> {ReceiveRequestBody, ReceiveRequestMessageComplete, Closing, Closed}) \<and>
     (e \<and> cn_state c = ReceiveRequestMessageComplete \<longrightarrow> rd_bodyBuffers (cn_receive c) \<noteq> []) \<and>
     cn_nextRequestBuffer c = []"

lemma frame_notify:
  assumes "conn_frame i e c"
  shows "conn_frame i e (snd (conn_message_begin ps c))" "conn_frame i e (snd (conn_headers_complete ps c))"
    "conn_frame i e (snd (conn_message_complete ps c))"
  using assms
  by (cases "cn_state c"; cases "cn_newRequest c"; simp add: conn_frame_def callback_defs piece_defs)+

lemma frame_data:
  assumes "conn_frame i e c"
  shows "conn_frame i e (snd (conn_url ps d c))" "conn_frame i e (snd (conn_header_field ps d c))"
    "conn_frame i e (snd (conn_header_value ps d c))" "conn_frame i e (snd (conn_body ps d c))"
  using assms
  by (cases "cn_state c"; cases "cn_newRequest c"; simp add: conn_frame_def callback_defs piece_defs)+

interpretation frame: callback_invariant conn_settings "conn_frame i e" for i e
  by unfold_locales (simp_all add: frame_notify frame_data)

lemma callbacks_state:
  "cn_queuesAborted (snd (conn_message_begin ps c)) = cn_queuesAborted c"
  "cn_queuesAborted (snd (conn_headers_complete ps c)) = cn_queuesAborted c"
  "cn_queuesAborted (snd (conn_message_complete ps c)) = cn_queuesAborted c"
  "cn_queuesAborted (snd (conn_url ps d c)) = cn_queuesAborted c"
  "cn_queuesAborted (snd (conn_header_field ps d c)) = cn_queuesAborted c"
  "cn_queuesAborted (snd (conn_header_value ps d c)) = cn_queuesAborted c"
  "cn_queuesAborted (snd (conn_body ps d c)) = cn_queuesAborted c"
  by (simp_all add: callback_defs piece_defs split: option.split)

text \<open>A live connection stays live, a closing one stays closing.\<close>

definition active :: "connection \<Rightarrow> bool" where
  "active c \<longleftrightarrow> cn_state c \<notin> {Initial, Closing, Closed} \<and> \<not> cn_queuesAborted c"

definition closing :: "connection \<Rightarrow> bool" where
  "closing c \<longleftrightarrow> cn_state c = Closing \<and> cn_queuesAborted c"

interpretation live: callback_invariant conn_settings active
  by unfold_locales
     (auto simp: active_def callbacks_state callback_defs piece_defs split: option.split)

interpretation closing: callback_invariant conn_settings closing
  by unfold_locales (auto simp: closing_def callback_defs)

lemma conn_env_simps [simp]: "e_settings (conn_env b) = conn_settings" "e_data (conn_env b) = b"
  by (simp_all add: conn_env_def)

end
