(* ===== verification/Http11Receive.thy ===== *)
theory Http11Receive
  imports Http11Connection
begin

text \<open>
  Properties of the receive loop of a connection, over all its runs: whatever the socket delivers, in whatever
  pieces, whether or not a push fails, and whenever the reply loop, the timer or \<open>stop\<close> shuts the connection
  down. The trace of a run is the sequence of the pushes it has issued before the queues were aborted.
\<close>

section \<open>Runs\<close>

type_synonym push = "body_entry + request_entry"

definition bodies :: "push list \<Rightarrow> body_entry list" where
  "bodies tr = concat (map (case_sum (\<lambda>b. [b]) (\<lambda>r. [])) tr)"

definition requests :: "push list \<Rightarrow> request_entry list" where
  "requests tr = concat (map (case_sum (\<lambda>b. []) (\<lambda>r. [r])) tr)"

lemma bodies_simps [simp]:
  "bodies [] = []" "bodies (tr @ tr') = bodies tr @ bodies tr'" "bodies [Inl b] = [b]" "bodies [Inr r] = []"
  by (simp_all add: bodies_def)

lemma requests_simps [simp]:
  "requests [] = []" "requests (tr @ tr') = requests tr @ requests tr'" "requests [Inl b] = []" "requests [Inr r] = [r]"
  by (simp_all add: requests_def)

definition issued :: "connection \<times> receive_wait \<Rightarrow> push list" where
  "issued cw =
     (if cn_queuesAborted (fst cw) then []
      else case snd cw of PushBody b \<Rightarrow> [Inl b] | PushRequest r \<Rightarrow> [Inr r] | _ \<Rightarrow> [])"

text \<open>
  What happens to a connection beside its receive loop: a shutdown, and changes of what belongs to the reply
  loop, to the timer and to the counters.
\<close>

definition beside :: "connection \<Rightarrow> connection \<Rightarrow> bool" where
  "beside c c' \<longleftrightarrow>
     cn_parser c' = cn_parser c \<and> cn_receive c' = cn_receive c \<and> cn_newRequest c' = cn_newRequest c \<and>
     cn_nullRequest c' = cn_nullRequest c \<and> cn_nextRequestBuffer c' = cn_nextRequestBuffer c \<and>
     (cn_state c' = cn_state c \<and> cn_queuesAborted c' = cn_queuesAborted c \<or>
      cn_state c' = Closing \<and> cn_queuesAborted c')"

inductive conn_run :: "connection_limits \<Rightarrow> connection \<Rightarrow> receive_wait \<Rightarrow> push list \<Rightarrow> bool" where
  start: "connection_start new_connection = Some c \<Longrightarrow> receiveRequestLoop c = (c', w) \<Longrightarrow> conn_run lm c' w []"
| resume: "conn_run lm c w tr \<Longrightarrow> receive_resume lm input w c = Inr (c', w') \<Longrightarrow>
     conn_run lm c' w' (tr @ issued (c', w'))"
| failed: "conn_run lm c w tr \<Longrightarrow> receive_exception c = (c', w') \<Longrightarrow> conn_run lm c' w' tr"
| beside: "conn_run lm c w tr \<Longrightarrow> beside c c' \<Longrightarrow> conn_run lm c' w tr"

lemma beside_shutdown: "beside c (shutdown reason c)" if "cn_queuesAborted c \<or> cn_state c \<noteq> Closing"
  using that by (auto simp: beside_def shutdown_def)

section \<open>Groups of pushes\<close>

text \<open>
  The pushes of one request: its entry and its body entries, the last of which, and no other, is marked as the
  end; a request without a body has none.
\<close>

definition group :: "nat \<Rightarrow> request_entry \<times> body_entry list \<Rightarrow> bool" where
  "group n = (\<lambda>(r, bs). re_id r = of_nat n \<and> (re_hasBody r \<longleftrightarrow> bs \<noteq> []) \<and> (\<forall>b \<in> set bs. be_id b = of_nat n) \<and>
     (bs \<noteq> [] \<longrightarrow> be_isEnd (last bs)) \<and> (\<forall>b \<in> set (butlast bs). \<not> be_isEnd b))"

text \<open>The pushes so far of the request that is being received.\<close>

definition open_group :: "nat \<Rightarrow> request_entry list \<Rightarrow> body_entry list \<Rightarrow> bool" where
  "open_group n rq bs \<longleftrightarrow>
     (\<forall>b \<in> set bs. be_id b = of_nat n) \<and> (\<forall>b \<in> set (butlast bs). \<not> be_isEnd b) \<and>
     (rq = [] \<or> (\<exists>r. rq = [r] \<and> re_id r = of_nat n \<and> (\<not> re_hasBody r \<longrightarrow> bs = [])))"

definition pushed :: "(request_entry \<times> body_entry list) list \<Rightarrow> request_entry list \<Rightarrow> body_entry list \<Rightarrow> push list \<Rightarrow> bool" where
  "pushed gs rq bs tr \<longleftrightarrow> (\<forall>n < length gs. group n (gs ! n)) \<and>
     requests tr = map fst gs @ rq \<and> bodies tr = concat (map snd gs) @ bs \<and> open_group (length gs) rq bs"

lemma pushed_close:
  assumes "pushed gs [r] bs tr" "group (length gs) (r, bs)"
  shows "pushed (gs @ [(r, bs)]) [] [] tr"
  using assms by (auto simp: pushed_def open_group_def nth_append less_Suc_eq)

section \<open>The invariant\<close>

text \<open>The state of the parser and the state of the connection fit together.\<close>

definition in_step :: "connection \<Rightarrow> bool" where
  "in_step c \<longleftrightarrow> conn.returned (cn_parser c) c"

text \<open>The loop waits for data.\<close>

definition waiting :: "connection \<Rightarrow> nat \<Rightarrow> request_entry list \<Rightarrow> body_entry list \<Rightarrow> bool" where
  "waiting c n rq bs \<longleftrightarrow>
     conn_frame (of_nat n) (rq \<noteq> []) c \<and> rd_bodyBuffers (cn_receive c) = [] \<and>
     cn_state c \<noteq> ReceiveRequestMessageComplete \<and> in_step c \<and>
     (rq = [] \<longrightarrow> bs = []) \<and> (\<forall>r \<in> set rq. re_hasBody r) \<and> (\<forall>b \<in> set bs. \<not> be_isEnd b)"

text \<open>The loop is pushing the pieces of a body.\<close>

definition pushing :: "connection \<Rightarrow> nat \<Rightarrow> request_entry list \<Rightarrow> body_entry list \<Rightarrow> bool" where
  "pushing c n rq bs \<longleftrightarrow>
     (let d = cn_receive c; complete = (cn_state c = ReceiveRequestMessageComplete)
      in conn_frame (of_nat n) (rq \<noteq> []) (c\<lparr>cn_nextRequestBuffer := [], cn_receive := d\<lparr>rd_bodyBufferEnqueueIndex := 0\<rparr>\<rparr>) \<and>
         rd_bodyBufferEnqueueIndex d \<le> length (rd_bodyBuffers d) \<and> rd_bodyBuffers d \<noteq> [] \<and>
         (\<not> complete \<longrightarrow> in_step c \<and> cn_nextRequestBuffer c = []) \<and>
         (\<forall>r \<in> set rq. re_hasBody r) \<and> (\<forall>b \<in> set (butlast bs). \<not> be_isEnd b) \<and>
         (0 < rd_bodyBufferEnqueueIndex d \<longrightarrow> bs \<noteq> []) \<and>
         (bs \<noteq> [] \<longrightarrow> be_isEnd (last bs) = (rd_bodyBufferEnqueueIndex d = length (rd_bodyBuffers d) \<and> complete)))"

text \<open>The loop is pushing a request.\<close>

definition queued :: "connection \<Rightarrow> nat \<Rightarrow> request_entry list \<Rightarrow> body_entry list \<Rightarrow> bool" where
  "queued c n rq bs \<longleftrightarrow>
     (if cn_state c = ReceiveRequestMessageComplete then
        rd_requestId (cn_receive c) = of_nat n \<and> \<not> cn_nullRequest c \<and> (\<exists>r. rq = [r] \<and> group n (r, bs))
      else rq \<noteq> [] \<and> waiting c n rq bs)"

definition conn_inv :: "connection \<Rightarrow> receive_wait \<Rightarrow> push list \<Rightarrow> bool" where
  "conn_inv c w tr \<longleftrightarrow>
     parser_ok (cn_parser c) \<and> \<not> cn_nullRequest c \<and>
     (w \<in> {WaitRead} \<union> range ReadyBuffer \<longrightarrow> (\<exists>i e. conn_frame i e c)) \<and>
     (\<exists>gs rq bs. pushed gs rq bs tr \<and>
        (closing c \<or>
         active c \<and>
         (case w of
            PushBody b \<Rightarrow> pushing c (length gs) rq bs \<and> 0 < rd_bodyBufferEnqueueIndex (cn_receive c)
          | PushRequest r \<Rightarrow> queued c (length gs) rq bs
          | ReceiveEnd \<Rightarrow> False
          | _ \<Rightarrow> waiting c (length gs) rq bs)))"

lemma conn_invI:
  assumes "parser_ok (cn_parser c)" "pushed gs rq bs tr"
    and "\<not> cn_nullRequest c \<and> (closing c \<and> w = ReceiveEnd \<or> active c \<and>
      (case w of PushBody b \<Rightarrow> pushing c (length gs) rq bs \<and> 0 < rd_bodyBufferEnqueueIndex (cn_receive c)
        | PushRequest r \<Rightarrow> queued c (length gs) rq bs | ReceiveEnd \<Rightarrow> False | _ \<Rightarrow> waiting c (length gs) rq bs))"
  shows "conn_inv c w tr"
  using assms unfolding conn_inv_def by (cases w) (auto simp: waiting_def)

lemma returned_cong: "conn_phase c = conn_phase c' \<Longrightarrow> conn.returned ps c = conn.returned ps c'"
  by (simp add: conn.returned_def)

lemma in_step_receive: "in_step (upd_receive f c) = in_step c"
  by (simp add: in_step_def upd_receive_def conn.returned_def conn_phase_def)

section \<open>Back to the start of the loop\<close>

lemma loop_waiting:
  assumes "waiting c n rq bs" "active c"
  shows "receiveRequestLoop c = (c, WaitRead)"
  using assms by (simp add: receiveRequestLoop_def waiting_def conn_frame_def active_def)

lemma waiting_reset:
  assumes "rd_requestId (cn_receive c) = of_nat n" "\<not> cn_nullRequest c"
  shows "waiting ((reset_receive c)\<lparr>cn_nextRequestBuffer := []\<rparr>) (Suc n) [] []"
  using assms
  by (simp add: waiting_def reset_receive_def conn_frame_def empty_receive_data_def in_step_def conn.returned_def
      http_parser_init_def conn_phase_def trailing_def callback_errno_def)

lemma loop_complete:
  assumes "cn_state c = ReceiveRequestMessageComplete" "rd_requestId (cn_receive c) = of_nat n" "\<not> cn_nullRequest c"
    and "\<not> cn_queuesAborted c"
  obtains c' w where "receiveRequestLoop c = (c', w)" "w \<in> {WaitRead} \<union> range ReadyBuffer"
    "waiting c' (Suc n) [] []" "active c'" "parser_ok (cn_parser c')"
proof -
  let ?c = "(reset_receive c)\<lparr>cn_nextRequestBuffer := []\<rparr>"
  have "cn_nextRequestBuffer (reset_receive c) = [] \<Longrightarrow> ?c = reset_receive c"
    by (cases "reset_receive c") simp
  then have "\<exists>w. receiveRequestLoop c = (?c, w) \<and> w \<in> {WaitRead} \<union> range ReadyBuffer"
    using assms(1) by (auto simp: receiveRequestLoop_def Let_def)
  moreover have "active ?c" "parser_ok (cn_parser ?c)"
    using assms(4) http_parser_init_ok by (simp_all add: active_def reset_receive_def)
  ultimately show ?thesis using waiting_reset [OF assms(2,3)] that by blast
qed

section \<open>Pushing the request\<close>

definition ready :: "connection \<Rightarrow> nat \<Rightarrow> bool \<Rightarrow> bool" where
  "ready c n e \<longleftrightarrow> \<not> cn_nullRequest c \<and> (cn_newRequest c = None \<longleftrightarrow> e) \<and> rd_requestEnqueued (cn_receive c) = e \<and>
     rd_requestId (cn_receive c) = of_nat n \<and> rd_bodyBufferEnqueueIndex (cn_receive c) = 0 \<and>
     rd_bodyBuffers (cn_receive c) = [] \<and>
     (e \<longrightarrow> cn_state c \<in> {ReceiveRequestHeadersComplete, ReceiveRequestBody, ReceiveRequestMessageComplete})"

lemma continue_request:
  assumes p: "pushed gs rq bs tr" and a: "active c" and ok: "parser_ok (cn_parser c)"
    and b: "ready c (length gs) (rq \<noteq> [])"
    and going: "cn_state c \<noteq> ReceiveRequestMessageComplete \<Longrightarrow>
      in_step c \<and> cn_nextRequestBuffer c = [] \<and> (\<forall>b \<in> set bs. \<not> be_isEnd b) \<and> (\<forall>r \<in> set rq. re_hasBody r) \<and>
      (rq = [] \<and> cn_state c \<notin> {ReceiveRequestHeadersComplete, ReceiveRequestBody} \<longrightarrow> bs = [])"
    and complete: "cn_state c = ReceiveRequestMessageComplete \<Longrightarrow>
      (if rq = [] then hasBody = (bs \<noteq> []) \<and> (bs \<noteq> [] \<longrightarrow> be_isEnd (last bs)) else group (length gs) (hd rq, bs))"
    and r: "enqueueRequestAndContinueReceiving hasBody c = (c', w)"
  shows "conn_inv c' w (tr @ issued (c', w))"
proof -
  let ?n = "length gs" and ?MC = "cn_state c = ReceiveRequestMessageComplete"
  consider (push) "rq = []" "cn_state c \<in> {ReceiveRequestHeadersComplete, ReceiveRequestBody, ReceiveRequestMessageComplete}"
    | (wait) "\<not> ?MC" "rq = [] \<longrightarrow> cn_state c \<notin> {ReceiveRequestHeadersComplete, ReceiveRequestBody}"
    | (again) "?MC" "rq \<noteq> []" by blast
  then show ?thesis
  proof cases
    case push
    with b obtain q where q: "cn_newRequest c = Some q" "\<not> rd_requestEnqueued (cn_receive c)" by (auto simp: ready_def)
    let ?r = "\<lparr>re_request = q, re_id = rd_requestId (cn_receive c), re_hasBody = (hasBody \<or> \<not> ?MC)\<rparr>"
    have r': "w = PushRequest ?r" "cn_state c' = cn_state c" "cn_parser c' = cn_parser c" "cn_newRequest c' = None"
      "cn_queuesAborted c' = cn_queuesAborted c" "cn_nullRequest c' = cn_nullRequest c"
      "cn_nextRequestBuffer c' = cn_nextRequestBuffer c"
      "cn_receive c' = (cn_receive c)\<lparr>rd_requestEnqueued := True\<rparr>"
      using r push q by (auto simp: enqueueRequestAndContinueReceiving_def upd_receive_def upd_metrics_def)
    have i: "issued (c', w) = [Inr ?r]" using a r' by (simp add: issued_def active_def)
    have p': "pushed gs [?r] bs (tr @ [Inr ?r])"
      using p push b complete by (auto simp: pushed_def open_group_def ready_def)
    have "queued c' ?n [?r] bs"
    proof (cases ?MC)
      case True
      with complete push b p show ?thesis
        by (auto simp: queued_def r' group_def ready_def pushed_def open_group_def)
    next
      case False
      with going push b show ?thesis
        by (auto simp: queued_def r' waiting_def conn_frame_def ready_def in_step_def
            returned_cong [of c' c] conn_phase_def)
    qed
    then show ?thesis unfolding i
      by (intro conn_invI [OF _ p']) (use a ok b r' in \<open>simp_all add: active_def ready_def\<close>)
  next
    case wait
    have "(c', w) = receiveRequestLoop c"
      using r wait b by (auto simp: enqueueRequestAndContinueReceiving_def ready_def split: if_splits)
    moreover have w: "waiting c ?n rq bs"
      using wait going b by (auto simp: waiting_def conn_frame_def ready_def)
    ultimately have "(c', w) = (c, WaitRead)" using loop_waiting [OF w a] by simp
    then show ?thesis using p ok a b w by (intro conn_invI [of _ gs rq bs]) (simp_all add: issued_def ready_def)
  next
    case again
    obtain q where q: "rq = [q]" using p again by (auto simp: pushed_def open_group_def)
    have "(c', w) = receiveRequestLoop c"
      using r again b by (auto simp: enqueueRequestAndContinueReceiving_def ready_def split: if_splits)
    moreover obtain c2 w2 where "receiveRequestLoop c = (c2, w2)" "w2 \<in> {WaitRead} \<union> range ReadyBuffer"
      "waiting c2 (Suc ?n) [] []" "active c2" "parser_ok (cn_parser c2)"
      using loop_complete [OF again(1), of ?n] a b by (auto simp: ready_def active_def)
    moreover have "pushed (gs @ [(q, bs)]) [] [] tr"
      using pushed_close [of gs q bs tr] p q complete again by simp
    ultimately show ?thesis
      by (intro conn_invI [of _ "gs @ [(q, bs)]" "[]" "[]"]) (auto simp: issued_def waiting_def conn_frame_def)
  qed
qed

section \<open>Pushing a body\<close>

lemma push_next:
  assumes "pushing c n rq bs" "pushed gs rq bs tr" "n = length gs"
    and "rd_bodyBufferEnqueueIndex (cn_receive c) < length (rd_bodyBuffers (cn_receive c))"
    and "enqueueBodyBuffers c = (c', w)"
  obtains b where "w = PushBody b" "pushing c' n rq (bs @ [b])" "pushed gs rq (bs @ [b]) (tr @ [Inl b])"
    "0 < rd_bodyBufferEnqueueIndex (cn_receive c')" "cn_parser c' = cn_parser c" "cn_state c' = cn_state c"
    "cn_queuesAborted c' = cn_queuesAborted c" "cn_nullRequest c' = cn_nullRequest c"
proof -
  let ?d = "cn_receive c" and ?MC = "cn_state c = ReceiveRequestMessageComplete"
  let ?i = "rd_bodyBufferEnqueueIndex ?d"
  define b where "b = \<lparr>be_buffer = rd_bodyBuffers ?d ! ?i, be_id = rd_requestId ?d,
     be_isEnd = (?i + 1 = length (rd_bodyBuffers ?d) \<and> ?MC)\<rparr>"
  have s: "w = PushBody b" "cn_parser c' = cn_parser c" "cn_state c' = cn_state c"
    "cn_queuesAborted c' = cn_queuesAborted c" "cn_nullRequest c' = cn_nullRequest c" "cn_newRequest c' = cn_newRequest c"
    "cn_nextRequestBuffer c' = cn_nextRequestBuffer c"
    "cn_receive c' = ?d\<lparr>rd_bodyBufferEnqueueIndex := ?i + 1, rd_bodyBuffers := (rd_bodyBuffers ?d)[?i := []]\<rparr>"
    using assms(4,5) by (auto simp: enqueueBodyBuffers_def Let_def b_def upd_receive_def)
  have old: "\<forall>b \<in> set bs. \<not> be_isEnd b"
    using assms(1,4) by (cases bs rule: rev_cases) (auto simp: pushing_def Let_def)
  have id: "rd_requestId ?d = of_nat n" using assms(1) by (simp add: pushing_def Let_def conn_frame_def)
  have "pushing c' n rq (bs @ [b])"
    using assms(1,4) old
    by (auto simp: pushing_def Let_def conn_frame_def s b_def in_step_def returned_cong [of c' c] conn_phase_def)
  moreover have "\<forall>r \<in> set rq. re_hasBody r" using assms(1) by (simp add: pushing_def Let_def)
  then have "pushed gs rq (bs @ [b]) (tr @ [Inl b])"
    using assms(2,3) old id by (auto simp: pushed_def open_group_def b_def)
  ultimately show ?thesis using that s by simp
qed

lemma push_end:
  assumes push: "pushing c (length gs) rq bs" "pushed gs rq bs tr" and "bs \<noteq> []" and a: "active c" "parser_ok (cn_parser c)"
    and full: "length (rd_bodyBuffers (cn_receive c)) \<le> rd_bodyBufferEnqueueIndex (cn_receive c)"
    and r: "enqueueBodyBuffers c = (c', w)"
  shows "conn_inv c' w (tr @ issued (c', w))"
proof -
  let ?c = "upd_receive (\<lambda>d. d\<lparr>rd_bodyBufferEnqueueIndex := 0, rd_bodyBuffers := []\<rparr>) c"
  note defs = pushing_def Let_def conn_frame_def upd_receive_def active_def
  have e: "be_isEnd (last bs) = (cn_state c = ReceiveRequestMessageComplete)"
    using assms(1,3) full by (simp add: pushing_def Let_def)
  have bl: "\<forall>b \<in> set (butlast bs). \<not> be_isEnd b" using assms(1) by (simp add: pushing_def Let_def)
  have st: "cn_state c \<in> {ReceiveRequestBody, ReceiveRequestMessageComplete}"
    using assms(1) a(1) by (auto simp: defs)
  have hb: "\<forall>r \<in> set rq. re_hasBody r" using assms(1) by (simp add: defs)
  have "enqueueRequestAndContinueReceiving True ?c = (c', w)" using r full by (simp add: enqueueBodyBuffers_def Let_def)
  then show ?thesis
  proof (rule continue_request [OF push(2), rotated -1])
    show "active ?c" "parser_ok (cn_parser ?c)" using a by (simp_all add: upd_receive_def active_def)
    show "ready ?c (length gs) (rq \<noteq> [])" using assms(1) st by (auto simp: ready_def defs)
    show "in_step ?c \<and> cn_nextRequestBuffer ?c = [] \<and> (\<forall>b \<in> set bs. \<not> be_isEnd b) \<and> (\<forall>r \<in> set rq. re_hasBody r) \<and>
      (rq = [] \<and> cn_state ?c \<notin> {ReceiveRequestHeadersComplete, ReceiveRequestBody} \<longrightarrow> bs = [])"
      if "cn_state ?c \<noteq> ReceiveRequestMessageComplete"
    proof -
      have "cn_state c \<noteq> ReceiveRequestMessageComplete" using that by (simp add: upd_receive_def)
      moreover have "\<forall>b \<in> set bs. \<not> be_isEnd b"
        using e bl calculation by (cases bs rule: rev_cases) auto
      ultimately show ?thesis
        using assms(1) hb st in_step_receive [of _ c] by (auto simp: pushing_def Let_def upd_receive_def)
    qed
    show "if rq = [] then True = (bs \<noteq> []) \<and> (bs \<noteq> [] \<longrightarrow> be_isEnd (last bs)) else group (length gs) (hd rq, bs)"
      if "cn_state ?c = ReceiveRequestMessageComplete"
      using that e assms(2,3) bl hb by (auto simp: upd_receive_def group_def pushed_def open_group_def)
  qed
qed

section \<open>A buffer\<close>

lemma execute_conn:
  assumes "parser_ok (cn_parser c)"
  obtains n ps s where "http_parser_execute (conn_env buffer) (cn_parser c) c = Inr (n, ps, s)" "parser_ok ps"
    "\<And>i e. conn_frame i e c \<Longrightarrow> conn_frame i e s" "active c \<Longrightarrow> active s" "closing c \<Longrightarrow> closing s"
    "in_step c \<Longrightarrow> buffer \<noteq> [] \<Longrightarrow> conn.returned ps s"
proof -
  obtain n ps s where e: "http_parser_execute (conn_env buffer) (cn_parser c) c = Inr (n, ps, s)" "parser_ok ps"
    using execute_safe [OF assms, of "conn_env buffer" c] by blast
  show ?thesis
    using that [OF e] frame.execute_kept [OF _ _ e(1)] live.execute_kept [OF _ _ e(1)] closing.execute_kept [OF _ _ e(1)]
      conn.execute_ordered [OF _ assms _ _ e(1)]
    by (simp add: in_step_def)
qed

definition continue_receiving :: "connection \<Rightarrow> connection \<times> receive_wait" where
  "continue_receiving c =
     (if rd_bodyBuffers (cn_receive c) = [] then enqueueRequestAndContinueReceiving False c else enqueueBodyBuffers c)"

lemma parse_buffer_cases:
  assumes "parse_buffer buffer c = Inr (c', w)"
  obtains n ps s where "http_parser_execute (conn_env buffer) (cn_parser c) c = Inr (n, ps, s)"
    "cn_state s = ReceiveRequestMessageComplete \<and>
       continue_receiving (s\<lparr>cn_parser := ps, cn_nextRequestBuffer := drop (n - 1) buffer\<rparr>) = (c', w) \<or>
     refuse InvalidHttpRequestFormat ''invalid request format'' count_invalid_format (s\<lparr>cn_parser := ps\<rparr>) = (c', w) \<or>
     continue_receiving (s\<lparr>cn_parser := ps\<rparr>) = (c', w)"
  using assms that by (auto simp: parse_buffer_def continue_receiving_def Let_def split: sum.splits prod.splits if_splits)

lemma continue_inv:
  assumes p: "pushed gs rq bs tr" and a: "active c" "parser_ok (cn_parser c)"
    and f: "conn_frame (of_nat (length gs)) (rq \<noteq> []) (c\<lparr>cn_nextRequestBuffer := []\<rparr>)" and s: "in_step c"
    and n: "cn_nextRequestBuffer c = [] \<or> cn_state c = ReceiveRequestMessageComplete"
    and g: "rq = [] \<longrightarrow> bs = []" "\<forall>r \<in> set rq. re_hasBody r" "\<forall>b \<in> set bs. \<not> be_isEnd b"
    and r: "continue_receiving c = (c', w)"
  shows "conn_inv c' w (tr @ issued (c', w))"
proof (cases "rd_bodyBuffers (cn_receive c) = []")
  case True
  have "enqueueRequestAndContinueReceiving False c = (c', w)" using r True by (simp add: continue_receiving_def)
  then show ?thesis
    by (rule continue_request [OF p a, rotated -1])
       (use True f a(1) s n g in \<open>auto simp: ready_def conn_frame_def active_def\<close>)
next
  case False
  let ?n = "length gs"
  have "rd_bodyBufferEnqueueIndex (cn_receive c) = 0" using f by (simp add: conn_frame_def)
  moreover from this f False s n g have "pushing c ?n rq bs"
    by (auto simp: pushing_def Let_def conn_frame_def dest: in_set_butlastD)
  moreover have "enqueueBodyBuffers c = (c', w)" using r False by (simp add: continue_receiving_def)
  ultimately obtain b where b: "w = PushBody b" "pushing c' ?n rq (bs @ [b])" "pushed gs rq (bs @ [b]) (tr @ [Inl b])"
    "0 < rd_bodyBufferEnqueueIndex (cn_receive c')" "cn_parser c' = cn_parser c" "cn_state c' = cn_state c"
    "cn_queuesAborted c' = cn_queuesAborted c" "cn_nullRequest c' = cn_nullRequest c"
    using push_next [OF _ p refl] False by (metis length_greater_0_conv)
  have "issued (c', w) = [Inl b]" using b a(1) by (simp add: issued_def active_def)
  with b a f show ?thesis
    by (intro conn_invI [of _ gs rq "bs @ [b]"]) (simp_all add: active_def conn_frame_def)
qed

lemma shutdown_inv:
  assumes "pushed gs rq bs tr" "active c \<or> closing c" "parser_ok (cn_parser c)" "\<not> cn_nullRequest c"
  shows "conn_inv (shutdown reason c) ReceiveEnd (tr @ issued (shutdown reason c, ReceiveEnd))"
  using assms by (intro conn_invI [of _ gs rq bs]) (auto simp: shutdown_def closing_def active_def issued_def)

lemma refuse_inv:
  assumes "pushed gs rq bs tr" "active c \<or> closing c" "parser_ok (cn_parser c)" "\<not> cn_nullRequest c"
    and "refuse response reason count c = (c', w)"
  shows "conn_inv c' w (tr @ issued (c', w))"
  using assms(5) shutdown_inv [OF assms(1), of "(upd_metrics _ c)\<lparr>cn_lastErrorResponse := response\<rparr>" reason] assms(2-4)
  by (auto simp: refuse_def upd_metrics_def active_def closing_def)

lemma parse_waiting:
  assumes w: "waiting c (length gs) rq bs" and p: "pushed gs rq bs tr" and a: "active c" "parser_ok (cn_parser c)"
    and b: "buffer \<noteq> []" and r: "parse_buffer buffer c = Inr (c', w')"
  shows "conn_inv c' w' (tr @ issued (c', w'))"
proof -
  obtain n ps s where e: "http_parser_execute (conn_env buffer) (cn_parser c) c = Inr (n, ps, s)" "parser_ok ps"
    and f: "conn_frame (of_nat (length gs)) (rq \<noteq> []) s" and s: "active s" "conn.returned ps s"
    using execute_conn [OF a(2), of buffer] w a(1) b by (metis waiting_def)
  let ?c = "s\<lparr>cn_parser := ps\<rparr>"
  have c1: "active ?c" "parser_ok (cn_parser ?c)" "in_step ?c" "\<not> cn_nullRequest ?c"
    using e(2) f s by (auto simp: active_def in_step_def conn_frame_def conn.returned_def conn_phase_def)
  have g: "rq = [] \<longrightarrow> bs = []" "\<forall>r \<in> set rq. re_hasBody r" "\<forall>b \<in> set bs. \<not> be_isEnd b"
    using w by (auto simp: waiting_def)
  note ci = continue_inv [OF p _ _ _ _ _ g]
  consider (next_request) "cn_state ?c = ReceiveRequestMessageComplete"
      "(c', w') = continue_receiving (?c\<lparr>cn_nextRequestBuffer := drop (n - 1) buffer\<rparr>)"
    | (refuse) "(c', w') = refuse InvalidHttpRequestFormat ''invalid request format'' count_invalid_format ?c"
    | (go) "(c', w') = continue_receiving ?c"
    using r e(1) by (elim parse_buffer_cases) auto
  then show ?thesis
  proof cases
    case next_request
    then show ?thesis
      by (intro ci [of "?c\<lparr>cn_nextRequestBuffer := drop (n - 1) buffer\<rparr>"])
         (use c1 f in \<open>auto simp: active_def in_step_def conn_frame_def conn.returned_def conn_phase_def\<close>)
  next
    case refuse
    with c1 show ?thesis by (intro refuse_inv [OF p, of ?c]) auto
  next
    case go
    then show ?thesis
      by (intro ci [of ?c]) (use c1 f in \<open>auto simp: conn_frame_def\<close>)
  qed
qed

text \<open>The three counters of \<open>receive_buffer\<close>, in one step.\<close>

definition counted :: "string \<Rightarrow> connection \<Rightarrow> connection \<Rightarrow> bool" where
  "counted buffer c c' \<longleftrightarrow> (\<exists>v k. c' = upd_receive (\<lambda>d. d\<lparr>rd_lastBuffer := buffer, rd_receivedBytes := v, rd_receivedPackets := k\<rparr>)
     (c\<lparr>cn_detectTimeoutFlag := False\<rparr>))"

lemma counted_simps:
  assumes "counted buffer c c'"
  shows "waiting c' n rq bs = waiting c n rq bs" "active c' = active c" "closing c' = closing c"
    "cn_parser c' = cn_parser c" "cn_nullRequest c' = cn_nullRequest c" "conn_frame i e c' = conn_frame i e c"
    "in_step c' = in_step c"
proof -
  obtain v k where c': "c' = c\<lparr>cn_detectTimeoutFlag := False,
      cn_receive := (cn_receive c)\<lparr>rd_lastBuffer := buffer, rd_receivedBytes := v, rd_receivedPackets := k\<rparr>\<rparr>"
    using assms by (auto simp: counted_def upd_receive_def)
  show "waiting c' n rq bs = waiting c n rq bs" "active c' = active c" "closing c' = closing c"
    "cn_parser c' = cn_parser c" "cn_nullRequest c' = cn_nullRequest c" "conn_frame i e c' = conn_frame i e c"
    "in_step c' = in_step c"
    by (simp_all add: c' waiting_def conn_frame_def in_step_def conn.returned_def conn_phase_def active_def closing_def)
qed

lemma countedI:
  defines "c1 \<equiv> \<lambda>buffer c. upd_receive (\<lambda>d. d\<lparr>rd_lastBuffer := buffer\<rparr>) (c\<lparr>cn_detectTimeoutFlag := False\<rparr>)"
  defines "c2 \<equiv> \<lambda>buffer c. upd_receive (\<lambda>d. d\<lparr>rd_receivedBytes := rd_receivedBytes d + of_nat (length buffer)\<rparr>) (c1 buffer c)"
  shows "counted buffer c (c1 buffer c)" "counted buffer c (c2 buffer c)"
    "counted buffer c (upd_receive (\<lambda>d. d\<lparr>rd_receivedPackets := rd_receivedPackets d + 1\<rparr>) (c2 buffer c))"
proof -
  let ?d = "cn_receive c"
  let ?v = "rd_receivedBytes ?d + of_nat (length buffer)"
  show "counted buffer c (c1 buffer c)" unfolding counted_def c1_def
    by (rule exI [of _ "rd_receivedBytes ?d"], rule exI [of _ "rd_receivedPackets ?d"]) (simp add: upd_receive_def)
  show "counted buffer c (c2 buffer c)" unfolding counted_def c1_def c2_def
    by (rule exI [of _ ?v], rule exI [of _ "rd_receivedPackets ?d"]) (simp add: upd_receive_def)
  show "counted buffer c (upd_receive (\<lambda>d. d\<lparr>rd_receivedPackets := rd_receivedPackets d + 1\<rparr>) (c2 buffer c))"
    unfolding counted_def c1_def c2_def
    by (rule exI [of _ ?v], rule exI [of _ "rd_receivedPackets ?d + 1"]) (simp add: upd_receive_def)
qed

lemma receive_buffer_cases:
  assumes "receive_buffer lm buffer c = x"
  obtains (closed) d where "counted buffer c d" "buffer = []" "x = Inr (shutdown ''closed from remote'' d, ReceiveEnd)"
    | (refused) d response reason where "counted buffer c d" "x = Inr (refuse response reason count_initial_size d)"
    | (parsed) d where "counted buffer c d" "buffer \<noteq> []" "x = parse_buffer buffer d"
proof -
  let ?c = "upd_receive (\<lambda>d. d\<lparr>rd_lastBuffer := buffer\<rparr>) (c\<lparr>cn_detectTimeoutFlag := False\<rparr>)"
  note x = assms [unfolded receive_buffer_def Let_def] and i = countedI [of buffer c]
  show ?thesis
  proof (cases "buffer = []")
    case True
    show ?thesis by (rule closed [OF i(1) True]) (use x True in simp)
  next
    case ne: False
    show ?thesis
    proof (cases "cn_state ?c = ReceiveRequestBody")
      case True
      show ?thesis by (rule parsed [OF i(1) ne]) (use x ne True in simp)
    next
      case False
      let ?c1 = "upd_receive (\<lambda>d. d\<lparr>rd_receivedBytes := rd_receivedBytes d + of_nat (length buffer)\<rparr>) ?c"
      let ?c2 = "upd_receive (\<lambda>d. d\<lparr>rd_receivedPackets := rd_receivedPackets d + 1\<rparr>) ?c1"
      consider "lm_maxInitialRequestBytes lm < rd_receivedBytes (cn_receive ?c1)"
        | "\<not> lm_maxInitialRequestBytes lm < rd_receivedBytes (cn_receive ?c1)"
          "lm_maxInitialRequestPackets lm < rd_receivedPackets (cn_receive ?c2)"
        | "\<not> lm_maxInitialRequestBytes lm < rd_receivedBytes (cn_receive ?c1)"
          "\<not> lm_maxInitialRequestPackets lm < rd_receivedPackets (cn_receive ?c2)" by blast
      then show ?thesis
      proof cases
        case 1
        with x ne False show ?thesis by (intro refused [OF i(2)]) (simp only: if_True if_False simp_thms, rule sym)
      next
        case 2
        with x ne False show ?thesis by (intro refused [OF i(3)]) (simp only: if_True if_False simp_thms, rule sym)
      next
        case 3
        with x ne False show ?thesis by (intro parsed [OF i(3) ne]) (simp only: if_True if_False simp_thms)
      qed
    qed
  qed
qed

lemma receive_waiting:
  assumes w: "waiting c (length gs) rq bs" and p: "pushed gs rq bs tr" and a: "active c" "parser_ok (cn_parser c)"
    and r: "receive_buffer lm buffer c = Inr (c', w')"
  shows "conn_inv c' w' (tr @ issued (c', w'))"
proof -
  have n: "\<not> cn_nullRequest c" using w by (simp add: waiting_def conn_frame_def)
  from r show ?thesis
  proof (cases rule: receive_buffer_cases)
    case (closed d)
    with a n shutdown_inv [OF p, of d] show ?thesis by (simp add: counted_simps)
  next
    case (refused d response reason)
    with a n refuse_inv [OF p, of d response reason count_initial_size c' w'] show ?thesis by (simp add: counted_simps)
  next
    case (parsed d)
    with a w parse_waiting [OF _ p, of d buffer c' w'] show ?thesis by (simp add: counted_simps)
  qed
qed

section \<open>A connection that is closing\<close>

lemma closing_loops:
  assumes "closing c"
  shows "receiveRequestLoop c = (c, ReceiveEnd)" "enqueueRequestAndContinueReceiving b c = (c, ReceiveEnd)"
  using assms by (simp_all add: closing_def receiveRequestLoop_def enqueueRequestAndContinueReceiving_def)

lemma closing_bodies:
  assumes "closing c" "enqueueBodyBuffers c = (c', w)"
  shows "closing c' \<and> cn_parser c' = cn_parser c \<and> cn_nullRequest c' = cn_nullRequest c \<and>
    w \<notin> {WaitRead} \<union> range ReadyBuffer"
proof (cases "rd_bodyBufferEnqueueIndex (cn_receive c) < length (rd_bodyBuffers (cn_receive c))")
  case True
  with assms show ?thesis by (auto simp: enqueueBodyBuffers_def Let_def upd_receive_def closing_def)
next
  case False
  let ?c = "upd_receive (\<lambda>d. d\<lparr>rd_bodyBufferEnqueueIndex := 0, rd_bodyBuffers := []\<rparr>) c"
  have c: "closing ?c" using assms(1) by (simp add: closing_def upd_receive_def)
  have "(c', w) = (?c, ReceiveEnd)"
    using assms(2) False closing_loops(2) [OF c, of True] by (simp add: enqueueBodyBuffers_def Let_def)
  with c show ?thesis by (auto simp: upd_receive_def)
qed

lemma closing_parse:
  assumes "closing c" "conn_frame i e c" "parser_ok (cn_parser c)" "parse_buffer buffer c = Inr (c', w)"
  shows "closing c' \<and> parser_ok (cn_parser c') \<and> \<not> cn_nullRequest c' \<and> w \<notin> {WaitRead} \<union> range ReadyBuffer"
proof -
  obtain n ps s where e: "http_parser_execute (conn_env buffer) (cn_parser c) c = Inr (n, ps, s)" "parser_ok ps"
    and f: "conn_frame i e s" and s: "closing s"
    using execute_conn [OF assms(3), of buffer] assms(1,2) by metis
  let ?c = "s\<lparr>cn_parser := ps\<rparr>"
  have c1: "closing ?c" "\<not> cn_nullRequest ?c" "closing (?c\<lparr>cn_nextRequestBuffer := x\<rparr>)" for x
    using f s by (simp_all add: closing_def conn_frame_def)
  from assms(4) e(1) s consider "(c', w) = refuse InvalidHttpRequestFormat ''invalid request format'' count_invalid_format ?c"
    | "continue_receiving ?c = (c', w)"
    by (elim parse_buffer_cases) (auto simp: closing_def)
  then show ?thesis
  proof cases
    case 1
    with c1 e(2) show ?thesis by (auto simp: refuse_def upd_metrics_def shutdown_def closing_def)
  next
    case 2
    with c1 e(2) closing_loops(2) [OF c1(1), of False] closing_bodies [OF c1(1), of c' w] show ?thesis
      by (auto simp: continue_receiving_def split: if_splits)
  qed
qed

lemma closing_receive:
  assumes "closing c" "conn_frame i e c" "parser_ok (cn_parser c)" "receive_buffer lm buffer c = Inr (c', w)"
  shows "closing c' \<and> parser_ok (cn_parser c') \<and> \<not> cn_nullRequest c' \<and> w \<notin> {WaitRead} \<union> range ReadyBuffer"
proof -
  have n: "\<not> cn_nullRequest c" using assms(2) by (simp add: conn_frame_def)
  from assms(4) show ?thesis
  proof (cases rule: receive_buffer_cases)
    case (closed d)
    with assms(1,3) n counted_simps [OF closed(1)] show ?thesis by (auto simp: shutdown_def closing_def)
  next
    case (refused d response reason)
    with assms(1,3) n counted_simps [OF refused(1)] show ?thesis
      by (auto simp: refuse_def upd_metrics_def shutdown_def closing_def)
  next
    case (parsed d)
    with assms counted_simps [OF parsed(1)] closing_parse [of d i e buffer c' w] show ?thesis by simp
  qed
qed

section \<open>The invariant of every run\<close>

lemma conn_inv_closing:
  assumes "pushed gs rq bs tr" "closing c" "parser_ok (cn_parser c)" "\<not> cn_nullRequest c"
    and "w \<notin> {WaitRead} \<union> range ReadyBuffer"
  shows "conn_inv c w (tr @ issued (c, w))"
proof -
  have "issued (c, w) = []" using assms(2) by (simp add: issued_def closing_def)
  with assms show ?thesis unfolding conn_inv_def by auto
qed

lemma closing_resume:
  assumes "conn_inv c w tr" "closing c" "receive_resume lm input w c = Inr (c', w')"
  shows "closing c' \<and> parser_ok (cn_parser c') \<and> \<not> cn_nullRequest c' \<and> w' \<notin> {WaitRead} \<union> range ReadyBuffer"
proof (cases "w \<in> {WaitRead} \<union> range ReadyBuffer")
  case True
  then obtain i e where f: "conn_frame i e c" "parser_ok (cn_parser c)" using assms(1) by (auto simp: conn_inv_def)
  from True assms(3) obtain buffer where "receive_buffer lm buffer c = Inr (c', w')"
    by (auto simp: receive_resume_def)
  then show ?thesis by (rule closing_receive [OF assms(2) f])
next
  case False
  have ok: "parser_ok (cn_parser c)" "\<not> cn_nullRequest c" using assms(1) by (simp_all add: conn_inv_def)
  with False assms(2,3) closing_loops(1) [OF assms(2)] closing_bodies [OF assms(2), of c' w'] show ?thesis
    by (cases w) (auto simp: receive_resume_def)
qed

lemma resume_closing:
  assumes "conn_inv c w tr" "pushed gs rq bs tr" "closing c" "receive_resume lm input w c = Inr (c', w')"
  shows "conn_inv c' w' (tr @ issued (c', w'))"
  using closing_resume [OF assms(1,3,4)] conn_inv_closing [OF assms(2)] by blast

lemma resume_queued:
  assumes "queued c (length gs) rq bs" "pushed gs rq bs tr" "active c" "parser_ok (cn_parser c)"
    and "receiveRequestLoop c = (c', w')"
  shows "conn_inv c' w' (tr @ issued (c', w'))"
proof (cases "cn_state c = ReceiveRequestMessageComplete")
  case True
  with assms(1) obtain r where r: "rd_requestId (cn_receive c) = of_nat (length gs)" "\<not> cn_nullRequest c"
    "rq = [r]" "group (length gs) (r, bs)" by (auto simp: queued_def)
  have q: "\<not> cn_queuesAborted c" using assms(3) by (simp add: active_def)
  from loop_complete [OF True r(1,2) q] assms(5)
  have "w' \<in> {WaitRead} \<union> range ReadyBuffer" "waiting c' (Suc (length gs)) [] []" "active c'" "parser_ok (cn_parser c')"
    by (metis Pair_inject)+
  moreover have "pushed (gs @ [(r, bs)]) [] [] tr" using pushed_close assms(2) r by simp
  ultimately show ?thesis
    by (intro conn_invI [of _ "gs @ [(r, bs)]" "[]" "[]"]) (auto simp: issued_def waiting_def conn_frame_def)
next
  case False
  then have w: "waiting c (length gs) rq bs" using assms(1) by (simp add: queued_def)
  with assms loop_waiting [OF w] show ?thesis
    by (intro conn_invI [of _ gs rq bs]) (auto simp: issued_def waiting_def conn_frame_def)
qed

lemma resume_pushing:
  assumes "pushing c (length gs) rq bs" "0 < rd_bodyBufferEnqueueIndex (cn_receive c)" "pushed gs rq bs tr"
    and "active c" "parser_ok (cn_parser c)" "\<not> cn_nullRequest c" "enqueueBodyBuffers c = (c', w')"
  shows "conn_inv c' w' (tr @ issued (c', w'))"
proof (cases "rd_bodyBufferEnqueueIndex (cn_receive c) < length (rd_bodyBuffers (cn_receive c))")
  case True
  from push_next [OF assms(1,3) refl True assms(7)] obtain b
    where b: "w' = PushBody b" "pushing c' (length gs) rq (bs @ [b])" "pushed gs rq (bs @ [b]) (tr @ [Inl b])"
      "0 < rd_bodyBufferEnqueueIndex (cn_receive c')" "cn_parser c' = cn_parser c" "cn_state c' = cn_state c"
      "cn_queuesAborted c' = cn_queuesAborted c" "cn_nullRequest c' = cn_nullRequest c" by blast
  have "issued (c', w') = [Inl b]" using b assms(4) by (simp add: issued_def active_def)
  with b assms show ?thesis by (intro conn_invI [of _ gs rq "bs @ [b]"]) (simp_all add: active_def)
next
  case False
  moreover have "bs \<noteq> []" using assms(1,2) by (simp add: pushing_def Let_def)
  ultimately show ?thesis using push_end [OF assms(1,3) _ assms(4,5) _ assms(7)] by simp
qed

lemma resume_inv:
  assumes "conn_inv c w tr" "receive_resume lm input w c = Inr (c', w')"
  shows "conn_inv c' w' (tr @ issued (c', w'))"
proof -
  obtain gs rq bs where p: "pushed gs rq bs tr" and
    s: "closing c \<or> active c \<and> (case w of PushBody b \<Rightarrow> pushing c (length gs) rq bs \<and> 0 < rd_bodyBufferEnqueueIndex (cn_receive c)
        | PushRequest r \<Rightarrow> queued c (length gs) rq bs | ReceiveEnd \<Rightarrow> False | _ \<Rightarrow> waiting c (length gs) rq bs)"
    and ok: "parser_ok (cn_parser c)" "\<not> cn_nullRequest c"
    using assms(1) by (auto simp: conn_inv_def)
  show ?thesis
  proof (cases "closing c")
    case True
    with assms p show ?thesis by (blast intro: resume_closing)
  next
    case False
    with s assms(2) ok show ?thesis
      using receive_waiting [OF _ p _ ok(1), of lm _ c' w'] resume_pushing [OF _ _ p _ ok] resume_queued [OF _ p _ ok(1)]
      by (cases w) (auto simp: receive_resume_def)
  qed
qed

lemma failed_inv:
  assumes "conn_inv c w tr" "receive_exception c = (c', w')"
  shows "conn_inv c' w' tr"
proof -
  obtain gs rq bs where p: "pushed gs rq bs tr" and s: "closing c \<or> active c"
    and ok: "parser_ok (cn_parser c)" "\<not> cn_nullRequest c"
    using assms(1) by (auto simp: conn_inv_def)
  have "closing c' \<and> parser_ok (cn_parser c') \<and> \<not> cn_nullRequest c' \<and> w' = ReceiveEnd"
    using s ok assms(2)
    by (auto simp: receive_exception_def shutdown_def upd_metrics_def closing_def active_def split: if_splits)
  moreover from this have "issued (c', w') = []" by (simp add: issued_def)
  ultimately show ?thesis using conn_inv_closing [OF p, of c' w'] by auto
qed

lemma beside_inv:
  assumes "conn_inv c w tr" "beside c c'"
  shows "conn_inv c' w tr"
proof (cases "cn_state c' = cn_state c \<and> cn_queuesAborted c' = cn_queuesAborted c")
  case True
  with assms(2) have same: "conn_frame i e c' = conn_frame i e c" "waiting c' n rq bs = waiting c n rq bs"
    "pushing c' n rq bs = pushing c n rq bs" "queued c' n rq bs = queued c n rq bs"
    "active c' = active c" "closing c' = closing c" "cn_receive c' = cn_receive c" "cn_parser c' = cn_parser c"
    "cn_nullRequest c' = cn_nullRequest c" for i e n rq bs
    by (simp_all add: beside_def conn_frame_def waiting_def pushing_def Let_def queued_def active_def closing_def
        in_step_def conn.returned_def conn_phase_def)
  show ?thesis using assms(1) unfolding conn_inv_def same .
next
  case False
  with assms(2) have "closing c'" "conn_frame i e c \<Longrightarrow> conn_frame i e c'" for i e
    by (auto simp: beside_def closing_def conn_frame_def)
  with assms show ?thesis unfolding conn_inv_def beside_def by metis
qed

lemma run_inv: "conn_run lm c w tr \<Longrightarrow> conn_inv c w tr"
proof (induction rule: conn_run.induct)
  case (start c c' w lm)
  have c: "c = enter Started new_connection" using start(1) by (simp add: connection_start_def new_connection_def)
  have w: "waiting c 0 [] []"
    by (simp add: c waiting_def enter_def new_connection_def conn_frame_def empty_receive_data_def in_step_def
        conn.returned_def http_parser_init_def conn_phase_def trailing_def callback_errno_def)
  have a: "active c" "parser_ok (cn_parser c)"
    using http_parser_init_ok by (simp_all add: c enter_def new_connection_def active_def)
  have "(c', w) = (c, WaitRead)" using start(2) loop_waiting [OF w a(1)] by simp
  with w a show ?case
    by (intro conn_invI [of _ "[]" "[]" "[]"]) (simp_all add: pushed_def open_group_def waiting_def conn_frame_def)
next
  case (resume lm c w tr input c' w')
  then show ?case by (blast intro: resume_inv)
next
  case (failed lm c w tr c' w')
  then show ?case by (blast intro: failed_inv)
next
  case (beside lm c w tr c')
  then show ?case by (blast intro: beside_inv)
qed

section \<open>What every run satisfies\<close>

lemma receive_buffer_safe:
  assumes "parser_ok (cn_parser c)"
  shows "\<exists>c' w'. receive_buffer lm buffer c = Inr (c', w')"
proof -
  have parse: "\<exists>c' w'. parse_buffer buffer d = Inr (c', w')" if ok: "parser_ok (cn_parser d)" for d
  proof -
    obtain n ps s where "http_parser_execute (conn_env buffer) (cn_parser d) d = Inr (n, ps, s)"
      using execute_conn [OF ok] by metis
    then show ?thesis by (simp add: parse_buffer_def Let_def)
  qed
  obtain x where x: "receive_buffer lm buffer c = x" by simp
  then show ?thesis
  proof (cases rule: receive_buffer_cases)
    case (parsed d)
    with x assms parse [of d] show ?thesis by (simp add: counted_simps)
  qed (use x in \<open>simp_all add: refuse_def\<close>)
qed

text \<open>
  C6. The receive loop can always go on: in every run, whatever the socket delivers next, the parser does not fail
  an assertion or read outside its buffer, the request under construction is not used after it was moved to the
  queue, and the loop returns to a wait.
\<close>

theorem receive_never_faults:
  assumes "conn_run lm c w tr"
  shows "\<not> cn_nullRequest c \<and> (\<exists>c' w'. receive_resume lm input w c = Inr (c', w'))"
proof -
  have i: "conn_inv c w tr" by (rule run_inv [OF assms])
  then have "\<exists>c' w'. receive_buffer lm b c = Inr (c', w')" for b
    by (intro receive_buffer_safe) (simp add: conn_inv_def)
  with i show ?thesis by (cases w) (auto simp: receive_resume_def conn_inv_def intro: prod.exhaust [of "receiveRequestLoop c"]
    prod.exhaust [of "enqueueBodyBuffers c"])
qed

text \<open>A run in which a request without a body has arrived in one piece.\<close>

definition plain_limits :: connection_limits where
  "plain_limits = \<lparr>lm_maxInitialRequestBytes = 1000, lm_maxInitialRequestPackets = 10\<rparr>"

definition plain_request :: string where
  "plain_request = ''GET /a HTTP/1.1'' @ crlf @ ''X: y'' @ crlf @ crlf"

definition started :: connection where
  "started = enter Started new_connection"

lemma started_run: "conn_run lm started WaitRead []"
proof -
  have "connection_start new_connection = Some started" "receiveRequestLoop started = (started, WaitRead)"
    by (simp_all add: connection_start_def started_def new_connection_def enter_def receiveRequestLoop_def)
  then show ?thesis by (rule conn_run.start)
qed

lemma plain_run_step:
  "(case receive_resume plain_limits plain_request WaitRead started of
      Inl e \<Rightarrow> False
    | Inr (c, w) \<Rightarrow> \<not> cn_queuesAborted c \<and>
        (case w of PushRequest r \<Rightarrow> \<not> re_hasBody r \<and> re_id r = 0 \<and> req_url (re_request r) = ''/a'' | _ \<Rightarrow> False))"
  by code_simp

lemma plain_run:
  obtains c r where "conn_run plain_limits c (PushRequest r) [Inr r]" "re_id r = 0" "\<not> re_hasBody r"
    "req_url (re_request r) = ''/a''"
proof -
  from plain_run_step obtain c r where s: "receive_resume plain_limits plain_request WaitRead started = Inr (c, PushRequest r)"
    "\<not> cn_queuesAborted c" "re_id r = 0" "\<not> re_hasBody r" "req_url (re_request r) = ''/a''"
    by (auto split: sum.splits prod.splits receive_wait.splits)
  from conn_run.resume [OF started_run s(1)] s(2) have "conn_run plain_limits c (PushRequest r) [Inr r]"
    by (simp add: issued_def)
  with s that show ?thesis by blast
qed

lemma receive_never_faults_witness:
  "\<exists>c r. conn_run plain_limits c (PushRequest r) [Inr r] \<and> \<not> cn_nullRequest c \<and>
     (\<exists>c' w'. receive_resume plain_limits plain_request (PushRequest r) c = Inr (c', w'))"
  by (rule plain_run) (use receive_never_faults in blast)

text \<open>
  C7. What a run pushes: the requests come with the numbers 0, 1, 2, ... in this order; the body entries of a
  request carry its number and come after those of all earlier requests; a request that announces a body has at
  least one body entry, one that does not has none; the last body entry of a completed request is marked as the
  end, and no other is. Only the request that is being received may still be incomplete.
\<close>

theorem receive_pushes_in_order:
  assumes "conn_run lm c w tr"
  shows "\<exists>gs rq bs. pushed gs rq bs tr"
  using run_inv [OF assms] unfolding conn_inv_def by blast

lemma receive_pushes_in_order_witness:
  "\<exists>c r gs rq bs. conn_run plain_limits c (PushRequest r) [Inr r] \<and> pushed gs rq bs [Inr r]"
  by (rule plain_run) (use receive_pushes_in_order in blast)

section \<open>Limits\<close>

text \<open>The number of the current request and its counters; \<open>next_request\<close>: those of the one after it.\<close>

definition counts :: "connection \<Rightarrow> u32 \<times> u64 \<times> u64" where
  "counts c = (rd_requestId (cn_receive c), rd_receivedBytes (cn_receive c), rd_receivedPackets (cn_receive c))"

definition next_request :: "u32 \<times> u64 \<times> u64 \<Rightarrow> u32 \<times> u64 \<times> u64" where
  "next_request x = (fst x + 1, 0, 0)"

definition tally :: "(u32 \<times> u64 \<times> u64) set \<Rightarrow> connection \<Rightarrow> bool" where
  "tally X c \<longleftrightarrow> cn_state c = Closing \<or> counts c \<in> X"

interpretation limits: callback_invariant conn_settings "tally X" for X
  by unfold_locales (auto simp: tally_def counts_def callback_defs piece_defs split: option.split)

lemma next_request_in: "(i, b, p) \<in> X \<Longrightarrow> (i + 1, 0, 0) \<in> next_request ` X"
  by (force simp: next_request_def)

lemma tally_loops:
  assumes "tally X c"
  shows "tally (X \<union> next_request ` X) (fst (receiveRequestLoop c))"
    "tally (X \<union> next_request ` X) (fst (enqueueRequestAndContinueReceiving h c))"
  using assms
  by (auto simp: tally_def counts_def receiveRequestLoop_def reset_receive_def empty_receive_data_def
      Let_def enqueueRequestAndContinueReceiving_def upd_receive_def upd_metrics_def next_request_in split: option.split)

lemma tally_receive: "tally X (upd_receive f c) = tally X c"
  if "\<And>d. rd_receivedBytes (f d) = rd_receivedBytes d" "\<And>d. rd_receivedPackets (f d) = rd_receivedPackets d"
    "\<And>d. rd_requestId (f d) = rd_requestId d"
  using that by (simp add: tally_def counts_def upd_receive_def)

lemma tally_mono: "tally X c \<Longrightarrow> X \<subseteq> Y \<Longrightarrow> tally Y c"
  by (auto simp: tally_def)

lemma tally_bodies: "tally X c \<Longrightarrow> tally (X \<union> next_request ` X) (fst (enqueueBodyBuffers c))"
  by (auto simp: enqueueBodyBuffers_def Let_def tally_receive intro!: tally_loops elim: tally_mono)

lemma tally_continue: "tally X c \<Longrightarrow> tally (X \<union> next_request ` X) (fst (continue_receiving c))"
  by (simp add: continue_receiving_def tally_loops tally_bodies)

lemma tally_shutdown: "tally X (shutdown reason c)" "tally X (fst (refuse response reason count c))"
  by (auto simp: tally_def shutdown_def refuse_def)

lemma tally_parse:
  assumes "tally X c" "parse_buffer buffer c = Inr (c', w)"
  shows "tally (X \<union> next_request ` X) c'"
proof -
  from assms(2) obtain n ps s where e: "http_parser_execute (conn_env buffer) (cn_parser c) c = Inr (n, ps, s)"
    "cn_state s = ReceiveRequestMessageComplete \<and>
       continue_receiving (s\<lparr>cn_parser := ps, cn_nextRequestBuffer := drop (n - 1) buffer\<rparr>) = (c', w) \<or>
     refuse InvalidHttpRequestFormat ''invalid request format'' count_invalid_format (s\<lparr>cn_parser := ps\<rparr>) = (c', w) \<or>
     continue_receiving (s\<lparr>cn_parser := ps\<rparr>) = (c', w)" by (rule parse_buffer_cases)
  have "tally X s" by (rule limits.execute_kept [OF assms(1) _ e(1)]) simp
  then have "tally X (s\<lparr>cn_parser := ps\<rparr>)" "tally X (s\<lparr>cn_parser := ps, cn_nextRequestBuffer := y\<rparr>)" for y
    by (simp_all add: tally_def counts_def)
  then show ?thesis using e(2) tally_continue tally_shutdown(2) by (metis fst_conv)
qed

text \<open>The counters after a buffer, and the check they have passed.\<close>

definition tallied :: "string \<Rightarrow> connection \<Rightarrow> u32 \<times> u64 \<times> u64" where
  "tallied buffer c =
     (if cn_state c = ReceiveRequestBody then counts c
      else (rd_requestId (cn_receive c), rd_receivedBytes (cn_receive c) + of_nat (length buffer),
        rd_receivedPackets (cn_receive c) + 1))"

lemma buffer_tallied:
  assumes "receive_buffer lm buffer c = Inr (c', w)" "cn_state c' \<noteq> Closing"
  shows "buffer \<noteq> []" "counts c' \<in> {tallied buffer c, next_request (counts c)}"
    "cn_state c \<noteq> ReceiveRequestBody \<Longrightarrow> fst (snd (tallied buffer c)) \<le> lm_maxInitialRequestBytes lm \<and>
       snd (snd (tallied buffer c)) \<le> lm_maxInitialRequestPackets lm"
proof -
  let ?c = "upd_receive (\<lambda>d. d\<lparr>rd_lastBuffer := buffer\<rparr>) (c\<lparr>cn_detectTimeoutFlag := False\<rparr>)"
  let ?c1 = "upd_receive (\<lambda>d. d\<lparr>rd_receivedBytes := rd_receivedBytes d + of_nat (length buffer)\<rparr>) ?c"
  let ?c2 = "upd_receive (\<lambda>d. d\<lparr>rd_receivedPackets := rd_receivedPackets d + 1\<rparr>) ?c1"
  have closing: "cn_state (shutdown reason d) = Closing" "cn_state (fst (refuse response reason count d)) = Closing"
    for reason response count d by (simp_all add: shutdown_def refuse_def)
  have state: "cn_state ?c = cn_state c" by (simp add: upd_receive_def)
  show "buffer \<noteq> []" using assms closing(1) by (auto simp: receive_buffer_def Let_def)
  have c2: "counts ?c2 = tallied buffer c" if "cn_state c \<noteq> ReceiveRequestBody"
    using that by (simp add: counts_def tallied_def upd_receive_def)
  have body: "parse_buffer buffer ?c = Inr (c', w)" if "cn_state c = ReceiveRequestBody"
    using assms(1) \<open>buffer \<noteq> []\<close> that state by (simp add: receive_buffer_def Let_def)
  have early: "rd_receivedBytes (cn_receive ?c1) \<le> lm_maxInitialRequestBytes lm \<and>
      rd_receivedPackets (cn_receive ?c2) \<le> lm_maxInitialRequestPackets lm \<and> parse_buffer buffer ?c2 = Inr (c', w)"
    if "cn_state c \<noteq> ReceiveRequestBody"
    using assms closing \<open>buffer \<noteq> []\<close> that state unfolding receive_buffer_def Let_def
    by (smt (verit, best) Inr_inject fst_conv linorder_not_less)
  show "counts c' \<in> {tallied buffer c, next_request (counts c)}"
  proof (cases "cn_state c = ReceiveRequestBody")
    case True
    have "tally {counts c} ?c" by (simp add: tally_def counts_def upd_receive_def)
    from tally_parse [OF this body [OF True]] assms(2) True show ?thesis by (auto simp: tally_def tallied_def)
  next
    case False
    have "tally {tallied buffer c} ?c2" unfolding tally_def c2 [OF False] by simp
    from tally_parse [OF this] early [OF False] assms(2)
    have "counts c' \<in> {tallied buffer c, next_request (tallied buffer c)}" by (auto simp: tally_def)
    moreover have "next_request (tallied buffer c) = next_request (counts c)"
      by (simp add: next_request_def tallied_def counts_def)
    ultimately show ?thesis by simp
  qed
  show "fst (snd (tallied buffer c)) \<le> lm_maxInitialRequestBytes lm \<and>
      snd (snd (tallied buffer c)) \<le> lm_maxInitialRequestPackets lm" if "cn_state c \<noteq> ReceiveRequestBody"
    using early [OF that] that by (simp add: tallied_def upd_receive_def)
qed

text \<open>
  The buffer that the loop takes when a wait ends, as far as it belongs to the initial data, and the initial data
  of the current request: the buffers taken since the request before was complete, but for those taken once the
  body had begun.
\<close>

definition initial_piece :: "string \<Rightarrow> receive_wait \<Rightarrow> connection \<Rightarrow> string list" where
  "initial_piece input w c =
     (if cn_state c = ReceiveRequestBody then []
      else case w of WaitRead \<Rightarrow> [input] | ReadyBuffer buffer \<Rightarrow> [buffer] | _ \<Rightarrow> [])"

inductive initial_run :: "connection_limits \<Rightarrow> connection \<Rightarrow> receive_wait \<Rightarrow> string list \<Rightarrow> bool" where
  start: "connection_start new_connection = Some c \<Longrightarrow> receiveRequestLoop c = (c', w) \<Longrightarrow> initial_run lm c' w []"
| resume: "initial_run lm c w ps \<Longrightarrow> receive_resume lm input w c = Inr (c', w') \<Longrightarrow>
     initial_run lm c' w'
       (if rd_requestId (cn_receive c') = rd_requestId (cn_receive c) then ps @ initial_piece input w c else [])"
| failed: "initial_run lm c w ps \<Longrightarrow> receive_exception c = (c', w') \<Longrightarrow> initial_run lm c' w' ps"
| beside: "initial_run lm c w ps \<Longrightarrow> beside c c' \<Longrightarrow> initial_run lm c' w ps"

lemma initial_run_conn: "conn_run lm c w tr \<Longrightarrow> \<exists>ps. initial_run lm c w ps"
proof (induction rule: conn_run.induct)
  case (resume lm c w tr input c' w')
  then obtain ps where "initial_run lm c w ps" by blast
  from initial_run.resume [OF this resume.hyps(2)] show ?case by blast
qed (rule exI, erule (1) initial_run.start, (elim exE, rule exI, erule (1) initial_run.intros)+)

lemma resume_tallied:
  assumes "receive_resume lm input w c = Inr (c', w')" "cn_state c' \<noteq> Closing"
  defines "piece \<equiv> initial_piece input w c"
  shows "counts c' = next_request (counts c) \<or>
    rd_requestId (cn_receive c') = rd_requestId (cn_receive c) \<and>
    rd_receivedBytes (cn_receive c') = rd_receivedBytes (cn_receive c) + of_nat (length (concat piece)) \<and>
    rd_receivedPackets (cn_receive c') = rd_receivedPackets (cn_receive c) + of_nat (length piece) \<and>
    (piece \<noteq> [] \<longrightarrow> rd_receivedBytes (cn_receive c') \<le> lm_maxInitialRequestBytes lm \<and>
      rd_receivedPackets (cn_receive c') \<le> lm_maxInitialRequestPackets lm)"
proof -
  have kept: "tally {counts c} c" by (simp add: tally_def)
  have buffer: ?thesis if "receive_buffer lm b c = Inr (c', w')"
    "piece = (if cn_state c = ReceiveRequestBody then [] else [b])" for b
  proof (cases "cn_state c = ReceiveRequestBody")
    case True
    with buffer_tallied(2) [OF that(1) assms(2)] that(2) show ?thesis by (auto simp: tallied_def counts_def)
  next
    case False
    with buffer_tallied(2,3) [OF that(1) assms(2)] that(2) show ?thesis
      by (simp add: tallied_def counts_def) (elim disjE conjE; simp)
  qed
  show ?thesis
  proof (cases w)
    case (PushBody e)
    with assms tally_bodies [OF kept] show ?thesis by (auto simp: receive_resume_def tally_def counts_def initial_piece_def)
  next
    case (PushRequest e)
    with assms tally_loops(1) [OF kept] show ?thesis by (auto simp: receive_resume_def tally_def counts_def initial_piece_def)
  next
    case WaitRead
    show ?thesis by (rule buffer [of input]) (use assms(1) WaitRead in \<open>simp_all add: receive_resume_def initial_piece_def piece_def\<close>)
  next
    case (ReadyBuffer b)
    show ?thesis by (rule buffer [of b]) (use assms(1) ReadyBuffer in \<open>simp_all add: receive_resume_def initial_piece_def piece_def\<close>)
  qed (use assms in \<open>simp add: receive_resume_def initial_piece_def\<close>)
qed

text \<open>The counters are right: they hold the size and the number of the buffers, which are within the limits.\<close>

definition accounted :: "connection_limits \<Rightarrow> connection \<Rightarrow> string list \<Rightarrow> bool" where
  "accounted lm c ps \<longleftrightarrow> cn_state c = Closing \<or>
     rd_receivedBytes (cn_receive c) = of_nat (length (concat ps)) \<and> rd_receivedPackets (cn_receive c) = of_nat (length ps) \<and>
     length (concat ps) \<le> unat (lm_maxInitialRequestBytes lm) \<and> length ps \<le> unat (lm_maxInitialRequestPackets lm)"

lemma of_nat_le_word: "n < 2 ^ 64 \<Longrightarrow> (of_nat n :: u64) \<le> m \<Longrightarrow> n \<le> unat m"
  by (simp add: word_le_nat_alt unat_of_nat)

lemma closing_stays:
  assumes "receive_resume lm input w c = Inr (c', w')" "cn_state c = Closing"
  shows "cn_state c' = Closing"
proof -
  have t: "tally {} d \<longleftrightarrow> cn_state d = Closing" for d by (simp add: tally_def)
  have "cn_state c' = Closing" if "receive_buffer lm b c = Inr (c', w')" for b
  proof -
    from that show ?thesis
    proof (cases rule: receive_buffer_cases)
      case (parsed d)
      have "cn_state d = Closing" using parsed(1) assms(2) by (auto simp: counted_def upd_receive_def)
      with tally_parse [of "{}" d b c' w'] parsed(3) show ?thesis by (simp add: t)
    qed (auto simp: shutdown_def refuse_def)
  qed
  with assms tally_bodies [of "{}" c] tally_loops(1) [of "{}" c] show ?thesis
    by (cases w) (auto simp: t receive_resume_def)
qed

lemma run_accounted:
  assumes "initial_run lm c w ps" "lm_maxInitialRequestPackets lm \<noteq> - 1"
    and "\<And>b. b \<in> set ps \<Longrightarrow> unat (lm_maxInitialRequestBytes lm) + length b < 2 ^ 64"
  shows "accounted lm c ps"
  using assms
proof (induction rule: initial_run.induct)
  case (start c c' w lm)
  have "c = started" using start(1) by (simp add: connection_start_def started_def new_connection_def)
  with start(2) show ?case
    by (auto simp: accounted_def receiveRequestLoop_def started_def enter_def new_connection_def empty_receive_data_def)
next
  case (resume lm c w ps input c' w')
  show ?case
  proof (cases "cn_state c' = Closing")
    case False
    let ?piece = "initial_piece input w c"
    note r = resume_tallied [OF resume.hyps(2) False]
    show ?thesis
    proof (cases "rd_requestId (cn_receive c') = rd_requestId (cn_receive c)")
      case True
      with r have r': "rd_receivedBytes (cn_receive c') = rd_receivedBytes (cn_receive c) + of_nat (length (concat ?piece))"
        "rd_receivedPackets (cn_receive c') = rd_receivedPackets (cn_receive c) + of_nat (length ?piece)"
        "?piece \<noteq> [] \<Longrightarrow> rd_receivedBytes (cn_receive c') \<le> lm_maxInitialRequestBytes lm \<and>
          rd_receivedPackets (cn_receive c') \<le> lm_maxInitialRequestPackets lm"
        by (auto simp: counts_def next_request_def)
      have "cn_state c \<noteq> Closing" using closing_stays [OF resume.hyps(2)] False by blast
      with resume True have ih: "rd_receivedBytes (cn_receive c) = of_nat (length (concat ps))"
        "rd_receivedPackets (cn_receive c) = of_nat (length ps)"
        "length (concat ps) \<le> unat (lm_maxInitialRequestBytes lm)" "length ps \<le> unat (lm_maxInitialRequestPackets lm)"
        by (simp_all add: accounted_def)
      have "unat (lm_maxInitialRequestPackets lm) \<noteq> unat (- 1 :: u64)" using resume.prems(1) by (metis word_unat_eq_iff)
      moreover have "unat (lm_maxInitialRequestPackets lm) < 2 ^ 64" by (rule order_less_le_trans [OF unsigned_less]) simp
      ultimately have p: "length ps + 1 < 2 ^ 64" using ih(4) by (simp add: unsigned_minus_1_eq_mask mask_eq_exp_minus_1)
      have "?piece = [] \<or> (\<exists>b. ?piece = [b])" by (simp add: initial_piece_def split: receive_wait.split)
      then consider "?piece = []" | b where "?piece = [b]" by blast
      then show ?thesis
      proof cases
        case 1
        with True r' ih show ?thesis by (simp add: accounted_def)
      next
        case (2 b)
        then have "length (concat ps) + length b < 2 ^ 64" using resume.prems(2) [of b] True ih(3) by simp
        with 2 True r' ih(1,2) of_nat_le_word [OF this] of_nat_le_word [OF p] show ?thesis
          by (simp add: accounted_def add.commute [of 1])
      qed
    next
      case False
      with r show ?thesis by (auto simp: accounted_def counts_def next_request_def)
    qed
  qed (simp add: accounted_def)
next
  case (failed lm c w ps c' w')
  then have "cn_state c' = Closing" by (auto simp: receive_exception_def shutdown_def upd_metrics_def split: if_splits)
  then show ?case by (simp add: accounted_def)
next
  case (beside lm c w ps c')
  then show ?case by (auto simp: accounted_def beside_def)
qed

text \<open>
  C23. In every run of a connection that is not closing, the initial data of the current request (the buffers the
  loop has taken for it, but those taken once its body had begun) is no longer than the configured number of bytes
  and came in no more than the configured number of buffers. The counters have 64 bits and their overflow is not
  checked: the limit of bytes plus the size of a buffer, and the limit of packets plus one, have to fit.
\<close>

theorem initial_data_bounded:
  assumes "initial_run lm c w ps" "cn_state c \<noteq> Closing"
    and "\<And>b. b \<in> set ps \<Longrightarrow> unat (lm_maxInitialRequestBytes lm) + length b < 2 ^ 64" "lm_maxInitialRequestPackets lm \<noteq> - 1"
  shows "length (concat ps) \<le> unat (lm_maxInitialRequestBytes lm) \<and> length ps \<le> unat (lm_maxInitialRequestPackets lm)"
  using run_accounted [OF assms(1,4,3)] assms(2) by (simp add: accounted_def)

lemma plain_run_state:
  "(case receive_resume plain_limits plain_request WaitRead started of
      Inl e \<Rightarrow> False
    | Inr (c, w) \<Rightarrow> cn_state c \<noteq> Closing \<and> rd_requestId (cn_receive c) = rd_requestId (cn_receive started))"
  by code_simp

lemma initial_data_bounded_witness:
  "\<exists>c w. initial_run plain_limits c w [plain_request] \<and> cn_state c \<noteq> Closing \<and>
     length (concat [plain_request]) \<le> unat (lm_maxInitialRequestBytes plain_limits) \<and>
     length [plain_request] \<le> unat (lm_maxInitialRequestPackets plain_limits)"
proof -
  from plain_run_state obtain c w where s: "receive_resume plain_limits plain_request WaitRead started = Inr (c, w)"
    "cn_state c \<noteq> Closing" "rd_requestId (cn_receive c) = rd_requestId (cn_receive started)"
    by (auto split: sum.splits prod.splits)
  have "connection_start new_connection = Some started" "receiveRequestLoop started = (started, WaitRead)"
    by (simp_all add: connection_start_def started_def new_connection_def enter_def receiveRequestLoop_def)
  from initial_run.resume [OF initial_run.start [OF this] s(1)] s(3)
  have run: "initial_run plain_limits c w [plain_request]"
    by (simp add: initial_piece_def started_def enter_def)
  have "unat (lm_maxInitialRequestBytes plain_limits) + length plain_request < 2 ^ 64"
    by (simp add: plain_limits_def plain_request_def crlf_def)
  with initial_data_bounded [OF run s(2)] have "length (concat [plain_request]) \<le> unat (lm_maxInitialRequestBytes plain_limits) \<and>
      length [plain_request] \<le> unat (lm_maxInitialRequestPackets plain_limits)"
    by (simp add: plain_limits_def)
  with run s(2) show ?thesis by blast
qed

text \<open>
  A buffer that takes the initial data over the limit of bytes is not parsed: the connection is closing, both
  queues are aborted, the loop has ended, the response for the client is the one about the bytes, the two error
  counters have gone up by one and nothing else of the metrics, of the parser or of the request has changed.
\<close>

theorem over_limit_refused:
  assumes "cn_state c \<notin> {ReceiveRequestBody, Closing}" "buffer \<noteq> []"
    and "rd_receivedBytes (cn_receive c) + of_nat (length buffer) > lm_maxInitialRequestBytes lm"
  shows "\<exists>c'. receive_buffer lm buffer c = Inr (c', ReceiveEnd) \<and> closing c' \<and> \<not> cn_inputOpen c' \<and>
    cn_lastErrorResponse c' = ReachedBytesLimitationOfInitialRequestData \<and>
    cn_metrics c' = (cn_metrics c)\<lparr>mt_request_errors := mt_request_errors (cn_metrics c) + 1,
      mt_request_initial_size_errors := mt_request_initial_size_errors (cn_metrics c) + 1\<rparr> \<and>
    cn_parser c' = cn_parser c \<and> cn_newRequest c' = cn_newRequest c"
  using assms
  by (simp add: receive_buffer_def Let_def upd_receive_def refuse_def shutdown_def upd_metrics_def closing_def
      count_initial_size_def)

lemma over_limit_refused_witness:
  "\<exists>c'. receive_buffer \<lparr>lm_maxInitialRequestBytes = 5, lm_maxInitialRequestPackets = 10\<rparr> ''GET / HTTP'' started =
     Inr (c', ReceiveEnd) \<and> closing c' \<and> cn_lastErrorResponse c' = ReachedBytesLimitationOfInitialRequestData"
  using over_limit_refused [of started "''GET / HTTP''" "\<lparr>lm_maxInitialRequestBytes = 5, lm_maxInitialRequestPackets = 10\<rparr>"]
  by (auto simp: started_def enter_def new_connection_def empty_receive_data_def)

section \<open>Static responses\<close>

text \<open>The lines of a text up to the first empty one, and what follows.\<close>

fun head_and_body :: "string \<Rightarrow> string \<times> string" where
  "head_and_body [] = ([], [])"
| "head_and_body (c # t) =
     (if take 4 (c # t) = crlf @ crlf then ([], drop 4 (c # t))
      else let (h, b) = head_and_body t in (c # h, b))"

text \<open>
  The three responses that are written as constants announce the length their body has and close the
  connection.
\<close>

theorem static_responses_well_formed:
  "list_all (\<lambda>r. let (h, b) = head_and_body r
       in sublist (crlf @ ''Content-Length: '' @ dumpIntToDec (of_nat (length b) :: u64) @ crlf) (h @ crlf) \<and>
          sublist (crlf @ ''Connection: close'' @ crlf) (h @ crlf) \<and>
          take 15 h = ''HTTP/1.0 400 Ba'')
     [ReachedBytesLimitationOfInitialRequestData, ReachedPacketsLimitationOfInitialRequestData, InvalidHttpRequestFormat]"
  by code_simp

section \<open>The loop returns to a read\<close>

text \<open>The pushes a loop that is in \<open>w\<close> still has before it reads again, at most.\<close>

definition pushes_left :: "connection \<Rightarrow> receive_wait \<Rightarrow> nat" where
  "pushes_left c w =
     (case w of
        PushBody b \<Rightarrow> 2 + (length (rd_bodyBuffers (cn_receive c)) - rd_bodyBufferEnqueueIndex (cn_receive c))
      | PushRequest r \<Rightarrow> 1
      | _ \<Rightarrow> 0)"

definition is_push :: "receive_wait \<Rightarrow> bool" where
  "is_push w = (case w of PushBody b \<Rightarrow> True | PushRequest r \<Rightarrow> True | _ \<Rightarrow> False)"

fun drain :: "connection_limits \<Rightarrow> nat \<Rightarrow> connection \<times> receive_wait \<Rightarrow> (connection \<times> receive_wait) option" where
  "drain lm k (c, w) =
     (if \<not> is_push w then Some (c, w)
      else case k of 0 \<Rightarrow> None
        | Suc k' \<Rightarrow> (case receive_resume lm [] w c of Inl e \<Rightarrow> None | Inr cw \<Rightarrow> drain lm k' cw))"

lemma loop_pushes: "receiveRequestLoop c = (c', w') \<Longrightarrow> pushes_left c' w' = 0"
  by (auto simp: receiveRequestLoop_def Let_def pushes_left_def split: if_splits)

lemma request_pushes: "enqueueRequestAndContinueReceiving b c = (c', w') \<Longrightarrow> pushes_left c' w' \<le> 1"
  using loop_pushes [of c c' w']
  by (auto simp: enqueueRequestAndContinueReceiving_def pushes_left_def split: if_splits option.splits)

lemma body_pushes:
  assumes "enqueueBodyBuffers c = (c', w')"
  shows "pushes_left c' w' < 2 + (length (rd_bodyBuffers (cn_receive c)) - rd_bodyBufferEnqueueIndex (cn_receive c))"
  using assms request_pushes [of True _ c' w']
  by (fastforce simp: enqueueBodyBuffers_def Let_def pushes_left_def upd_receive_def split: if_splits)

lemma resume_pushes:
  assumes "pushes_left c w \<noteq> 0"
  obtains c' w' where "receive_resume lm input w c = Inr (c', w')" "pushes_left c' w' < pushes_left c w"
proof (cases w)
  case (PushBody e)
  obtain c' w' where "enqueueBodyBuffers c = (c', w')" by fastforce
  with PushBody body_pushes [OF this] that show ?thesis by (simp add: receive_resume_def pushes_left_def)
next
  case (PushRequest e)
  obtain c' w' where "receiveRequestLoop c = (c', w')" by fastforce
  with PushRequest loop_pushes [OF this] that show ?thesis by (simp add: receive_resume_def pushes_left_def)
qed (use assms in \<open>simp_all add: pushes_left_def\<close>)

lemma drain_stop: "pushes_left c w = 0 \<Longrightarrow> drain lm k (c, w) = Some (c, w)"
  by (cases w) (simp_all add: pushes_left_def is_push_def)

lemma drain_step:
  assumes "receive_resume lm [] w c = Inr cw" "pushes_left c w \<noteq> 0"
  shows "drain lm (Suc k) (c, w) = drain lm k cw"
  using assms by (cases w) (simp_all add: pushes_left_def is_push_def)

lemma drain_enough:
  "pushes_left c w \<le> k \<Longrightarrow> \<exists>c' w'. drain lm k (c, w) = Some (c', w') \<and> pushes_left c' w' = 0"
proof (induction k arbitrary: c w)
  case 0
  then show ?case using drain_stop [of c w lm 0] by simp
next
  case (Suc k)
  show ?case
  proof (cases "pushes_left c w = 0")
    case True
    then show ?thesis using drain_stop [of c w lm "Suc k"] by simp
  next
    case False
    from resume_pushes [OF this] obtain c' w' where "receive_resume lm [] w c = Inr (c', w')" "pushes_left c' w' < pushes_left c w"
      by blast
    with Suc drain_step [OF _ False, of lm "(c', w')" k] show ?thesis by simp
  qed
qed

text \<open>
  The receive loop does not get stuck in its pushes: when the queues accept what is pushed, it is back at
  reading, or has ended, after at most as many pushes as the pieces of the body it holds plus two, from any state.
\<close>

theorem pushes_drain:
  "\<exists>c' w'. drain lm (length (rd_bodyBuffers (cn_receive c)) + 2) (c, w) = Some (c', w') \<and> pushes_left c' w' = 0"
  by (rule drain_enough) (simp add: pushes_left_def split: receive_wait.split)

section \<open>Deviations\<close>

definition read_and_drain :: "string \<Rightarrow> connection \<Rightarrow> (connection \<times> receive_wait) option" where
  "read_and_drain buffer c =
     (case receive_resume plain_limits buffer WaitRead c of Inl e \<Rightarrow> None | Inr cw \<Rightarrow> drain plain_limits 5 cw)"

text \<open>
  When the last byte of a buffer is the first byte of the next request, it is lost: the parser has consumed it, so
  its result is the size of the buffer and the branch for the next request is not taken. The rest of that request,
  in the next buffer, is then refused.
\<close>

lemma first_byte_of_next_request_lost:
  "(case read_and_drain (''GET / HTTP/1.1'' @ crlf @ crlf @ ''G'') started of
      Some (c, WaitRead) \<Rightarrow>
        cn_state c = Started \<and>
        (case read_and_drain (''ET / HTTP/1.1'' @ crlf @ crlf) c of
           Some (c', ReceiveEnd) \<Rightarrow> cn_lastErrorResponse c' = InvalidHttpRequestFormat
         | _ \<Rightarrow> False)
    | _ \<Rightarrow> False)"
  by code_simp

text \<open>The trailer fields of a chunked body are refused.\<close>

lemma chunked_trailer_refused:
  "(case read_and_drain (''POST / HTTP/1.1'' @ crlf @ ''Transfer-Encoding: chunked'' @ crlf @ crlf @
           ''0'' @ crlf @ ''A: b'' @ crlf @ crlf) started of
      Some (c, ReceiveEnd) \<Rightarrow> cn_lastErrorResponse c = InvalidHttpRequestFormat
    | _ \<Rightarrow> False)"
  by code_simp

text \<open>
  The pieces of a body that arrive together with the headers are pushed before the request itself, which alone
  makes the reply loop take them from the queue.
\<close>

lemma bodies_pushed_before_request:
  "(case receive_resume plain_limits (''POST / HTTP/1.1'' @ crlf @ ''Transfer-Encoding: chunked'' @ crlf @ crlf @
           ''1'' @ crlf @ ''a'' @ crlf @ ''1'' @ crlf @ ''b'' @ crlf) WaitRead started of
      Inr (c, w) \<Rightarrow>
        is_push w \<and> \<not> rd_requestEnqueued (cn_receive c) \<and>
        (case receive_resume plain_limits [] w c of
           Inr (c', PushBody b) \<Rightarrow> be_buffer b = ''b'' \<and> \<not> rd_requestEnqueued (cn_receive c')
         | _ \<Rightarrow> False)
    | _ \<Rightarrow> False)"
  by code_simp

end
