(* ===== verification/Http11Reply.thy ===== *)
theory Http11Reply
  imports Http11Receive
begin

text \<open>
  The reply loop of a connection, \<open>startReplyResponseLoop\<close> to \<open>checkKeepaliveByContentLength\<close> of
  \<open>Http11ServerConnection.cpp\<close>, and the two streams a handler is given, \<open>Http11ServerConnectionRequestStream\<close> and
  \<open>Http11ServerConnectionResponseStream\<close>.

  A handler is any sequence of changes of its request and response, of reads and of writes. The time of the \<open>Date\<close>
  header (\<open>formatNowForHttpHeader\<close>) and what the socket says about an operation are arguments. The queues are
  \<open>seastar::queue\<close>: their entries come out in the order they went in, and none after \<open>abort\<close>.
\<close>

section \<open>The response head\<close>

definition upd_reply :: "(reply_data \<Rightarrow> reply_data) \<Rightarrow> connection \<Rightarrow> connection" where
  "upd_reply f c = c\<lparr>cn_reply := f (cn_reply c)\<rparr>"

definition upd_response :: "(http_response \<Rightarrow> http_response) \<Rightarrow> connection \<Rightarrow> connection" where
  "upd_response f c = c\<lparr>cn_response := f (cn_response c)\<rparr>"

definition upd_response_headers :: "(response_headers \<Rightarrow> response_headers) \<Rightarrow> http_response \<Rightarrow> http_response" where
  "upd_response_headers f r = r\<lparr>res_headers := f (res_headers r)\<rparr>"

definition socket_out :: "string \<Rightarrow> connection \<Rightarrow> connection" where
  "socket_out data c = c\<lparr>cn_output := cn_output c @ data\<rparr>"

definition getResponseHeadersFragmentsCount :: "http_response \<Rightarrow> nat" where
  "getResponseHeadersFragmentsCount r = 7 + rs_maxSize (res_headers r) * 4"

definition checkKeepaliveByConnnectionHeader :: "http_request \<Rightarrow> http_response \<Rightarrow> bool" where
  "checkKeepaliveByConnnectionHeader q r =
     (let connectionValue = rq_connection (req_headers q)
      in if connectionValue = ''keep-alive'' then True
         else if connectionValue \<noteq> [] then False
         else if res_version r = ''HTTP/1.0'' then False
         else True)"

definition checkKeepaliveByContentLength :: "http_response \<Rightarrow> reply_data \<Rightarrow> bool" where
  "checkKeepaliveByContentLength r d =
     (let contentLengthValue = rs_contentLength (res_headers r)
      in if contentLengthValue = [] then
           if rs_transferEncoding (res_headers r) \<noteq> ''chunked'' then False else rp_requestBodyConsumed d
         else
           case loadIntFromDec contentLengthValue of
             None \<Rightarrow> False
           | Some contentLength \<Rightarrow>
               if contentLength \<noteq> rp_responseWrittenBytes d then False else rp_requestBodyConsumed d)"

text \<open>What \<open>appendResponseHeaders\<close> sets in the response before it is written, and whether the connection is kept.\<close>

definition complete_version :: "http_request \<Rightarrow> http_response \<Rightarrow> http_response" where
  "complete_version q r = (if res_version r = [] then r\<lparr>res_version := req_version q\<rparr> else r)"

definition complete_status :: "http_response \<Rightarrow> http_response" where
  "complete_status r =
     (if res_statusCode r = [] \<or> res_statusMessage r = [] then
        r\<lparr>res_statusCode := ''0'', res_statusMessage := ''Status code or status message not set''\<rparr>
      else r)"

definition complete_date :: "string \<Rightarrow> http_response \<Rightarrow> http_response" where
  "complete_date now r =
     (if rs_date (res_headers r) = [] then upd_response_headers (\<lambda>h. h\<lparr>rs_date := now\<rparr>) r else r)"

definition complete_server :: "http_response \<Rightarrow> http_response" where
  "complete_server r =
     (if rs_server (res_headers r) = [] then upd_response_headers (\<lambda>h. h\<lparr>rs_server := ''cpv-framework''\<rparr>) r else r)"

definition complete_connection :: "bool \<Rightarrow> http_response \<Rightarrow> http_response \<times> bool" where
  "complete_connection keepConnection r =
     (if rs_connection (res_headers r) = [] then
        (upd_response_headers (\<lambda>h. h\<lparr>rs_connection := if keepConnection then ''keep-alive'' else ''close''\<rparr>) r,
         keepConnection)
      else (r, if rs_connection (res_headers r) \<noteq> ''keep-alive'' then False else keepConnection))"

definition complete_response :: "string \<Rightarrow> http_request \<Rightarrow> http_response \<Rightarrow> http_response \<times> bool" where
  "complete_response now q r =
     (let r1 = complete_server (complete_date now (complete_status (complete_version q r)))
      in complete_connection (checkKeepaliveByConnnectionHeader q r1) r1)"

definition head_fragments :: "http_response \<Rightarrow> string list" where
  "head_fragments r =
     [res_version r, '' '', res_statusCode r, '' '', res_statusMessage r] @
     rs_appendToHttp1Packet (res_headers r) @ [crlf @ crlf]"

text \<open>\<open>appendResponseHeaders\<close>: the connection and the fragments appended to the packet.\<close>

definition appendResponseHeaders :: "string \<Rightarrow> connection \<Rightarrow> connection \<times> string list" where
  "appendResponseHeaders now c =
     (if rp_responseHeadersAppended (cn_reply c) then (c, [])
      else
        let (r, keep) = complete_response now (cn_request c) (cn_response c)
        in (upd_reply (\<lambda>d. d\<lparr>rp_responseHeadersAppended := True, rp_keepConnection := keep\<rparr>) (c\<lparr>cn_response := r\<rparr>),
            head_fragments r))"

section \<open>The streams\<close>

definition response_write :: "string \<Rightarrow> string \<Rightarrow> connection \<Rightarrow> connection" where
  "response_write now data c0 =
     (let c = c0\<lparr>cn_detectTimeoutFlag := False\<rparr>;
          count = upd_reply (\<lambda>d. d\<lparr>rp_responseWrittenBytes := rp_responseWrittenBytes d + of_nat (length data)\<rparr>)
      in if rp_responseHeadersAppended (cn_reply c) then socket_out data (count c)
         else
           let (c1, merged) = appendResponseHeaders now c
           in socket_out (concat merged @ data) (count c1))"

datatype read_result =
    ReadResult string bool
  | ReadMismatch u32 u32
  | ReadWait

text \<open>\<open>read\<close>, with the entry that the queue gives, if any.\<close>

definition request_read :: "body_entry option \<Rightarrow> connection \<Rightarrow> connection \<times> read_result" where
  "request_read entry c =
     (if rp_requestBodyConsumed (cn_reply c) then (c, ReadResult [] True)
      else case entry of
        None \<Rightarrow> (c, ReadWait)
      | Some e \<Rightarrow>
          if be_id e \<noteq> rp_requestId (cn_reply c) then (c, ReadMismatch (be_id e) (rp_requestId (cn_reply c)))
          else (if be_isEnd e then upd_reply (\<lambda>d. d\<lparr>rp_requestBodyConsumed := True\<rparr>) c else c,
                ReadResult (be_buffer e) (be_isEnd e)))"

definition sizeHint :: "connection \<Rightarrow> u64 option" where
  "sizeHint c =
     (let contentLength = hp_content_length (cn_parser c)
      in if contentLength > 0 \<and> contentLength \<noteq> - 1 then Some contentLength else None)"

section \<open>The reply loop\<close>

datatype reply_wait = PopRequest | Handling | ReplyEnd

text \<open>
  How a write or a flush ends: the future is available or not when it is returned, and it has a value or an
  exception in the end.
\<close>

datatype io_result = IoResult (io_available: bool) (io_failed: bool)

definition replyResponseLoop :: "bool \<Rightarrow> connection \<Rightarrow> connection \<times> reply_wait" where
  "replyResponseLoop connected c =
     (if cn_state c = Closing then
        if cn_lastErrorResponse c = [] \<or> \<not> connected then (c, ReplyEnd)
        else (socket_out (cn_lastErrorResponse c) (c\<lparr>cn_lastErrorResponse := []\<rparr>), ReplyEnd)
      else (c, PopRequest))"

text \<open>An entry of the request queue, up to the call of the first handler.\<close>

definition begin_request :: "request_entry \<Rightarrow> connection \<Rightarrow> connection" where
  "begin_request entry c =
     c\<lparr>cn_request := (re_request entry)\<lparr>req_bodyStream := True\<rparr>,
       cn_response := new_response\<lparr>res_bodyStream := True\<rparr>,
       cn_reply := empty_reply_data\<lparr>rp_requestId := re_id entry, rp_requestBodyConsumed := \<not> re_hasBody entry\<rparr>\<rparr>"

definition reply_exception :: "bool \<Rightarrow> connection \<Rightarrow> connection \<times> reply_wait" where
  "reply_exception connected c =
     (if cn_state c = Closing then replyResponseLoop connected c
      else
        replyResponseLoop connected
          (shutdown ''exception occurs when reply response''
            (upd_metrics (\<lambda>m. m\<lparr>mt_request_errors := mt_request_errors m + 1,
               mt_request_reply_exception_occurs := mt_request_reply_exception_occurs m + 1\<rparr>) c)))"

definition count_handled :: "connection \<Rightarrow> connection" where
  "count_handled = upd_metrics (\<lambda>m. m\<lparr>mt_request_handled := mt_request_handled m + 1\<rparr>)"

text \<open>What follows a handler that has returned without an exception.\<close>

definition send_head :: "string \<Rightarrow> connection \<Rightarrow> connection" where
  "send_head now c0 =
     (let c = c0\<lparr>cn_detectTimeoutFlag := False\<rparr>
      in if rp_responseHeadersAppended (cn_reply c) then c
         else let (c1, data) = appendResponseHeaders now c in socket_out (concat data) c1)"

definition check_keepalive :: "connection \<Rightarrow> connection" where
  "check_keepalive c =
     (if rp_keepConnection (cn_reply c) then
        upd_reply (\<lambda>d. d\<lparr>rp_keepConnection := checkKeepaliveByContentLength (cn_response c) d\<rparr>) c
      else c)"

definition finish_request :: "string \<Rightarrow> bool \<Rightarrow> io_result \<Rightarrow> connection \<Rightarrow> connection \<times> reply_wait" where
  "finish_request now connected io c0 =
     (let c = check_keepalive (send_head now c0)
      in if rp_keepConnection (cn_reply c) then
           if io_available io then replyResponseLoop connected (count_handled c)
           else if io_failed io then reply_exception connected c
           else replyResponseLoop connected (count_handled c)
         else
           if io_failed io then reply_exception connected c
           else replyResponseLoop connected (shutdown ''keepalive not enabled'' (count_handled c)))"

section \<open>What is written for a request\<close>

text \<open>A handler: what it does to its request and response, what it writes, and what the queue gives to its reads.\<close>

datatype handler_action =
    Change "http_request \<Rightarrow> http_response \<Rightarrow> http_request \<times> http_response"
  | Write string
  | Read "body_entry option"

primrec act :: "string \<Rightarrow> handler_action \<Rightarrow> connection \<Rightarrow> connection" where
  "act now (Change f) c =
     c\<lparr>cn_request := fst (f (cn_request c) (cn_response c)), cn_response := snd (f (cn_request c) (cn_response c))\<rparr>"
| "act now (Write data) c = response_write now data c"
| "act now (Read entry) c = fst (request_read entry c)"

definition handle :: "string \<Rightarrow> handler_action list \<Rightarrow> connection \<Rightarrow> connection" where
  "handle now acts c = fold (act now) acts c"

definition written :: "handler_action list \<Rightarrow> string" where
  "written acts = concat (map (\<lambda>a. case a of Write data \<Rightarrow> data | _ \<Rightarrow> []) acts)"

definition is_write :: "handler_action \<Rightarrow> bool" where
  "is_write a = (case a of Write data \<Rightarrow> True | _ \<Rightarrow> False)"

definition is_change :: "handler_action \<Rightarrow> bool" where
  "is_change a = (case a of Change f \<Rightarrow> True | _ \<Rightarrow> False)"

lemma is_write_simps [simp]: "is_write (Write d)" "\<not> is_write (Change f)" "\<not> is_write (Read e)"
  by (simp_all add: is_write_def)

lemma is_change_simps [simp]: "is_change (Change f)" "\<not> is_change (Write d)" "\<not> is_change (Read e)"
  by (simp_all add: is_change_def)

lemma written_simps [simp]:
  "written [] = []" "written (a # acts) = (case a of Write data \<Rightarrow> data | _ \<Rightarrow> []) @ written acts"
  "written (acts @ acts') = written acts @ written acts'"
  by (simp_all add: written_def)

lemma handle_simps [simp]:
  "handle now [] c = c" "handle now (a # acts) c = handle now acts (act now a c)"
  "handle now (acts @ acts') c = handle now acts' (handle now acts c)"
  by (simp_all add: handle_def)

text \<open>The connection after its head has been sent, apart from reads.\<close>

lemma write_after_head:
  assumes "rp_responseHeadersAppended (cn_reply c)"
  shows "response_write now data c = (socket_out data c)\<lparr>cn_detectTimeoutFlag := False,
    cn_reply := (cn_reply c)\<lparr>rp_responseWrittenBytes := rp_responseWrittenBytes (cn_reply c) + of_nat (length data)\<rparr>\<rparr>"
  using assms by (simp add: response_write_def Let_def socket_out_def upd_reply_def)

lemma write_before_head:
  assumes "\<not> rp_responseHeadersAppended (cn_reply c)"
    and "complete_response now (cn_request c) (cn_response c) = (r, keep)"
  shows "response_write now data c = (socket_out (concat (head_fragments r) @ data) c)\<lparr>cn_detectTimeoutFlag := False,
    cn_response := r,
    cn_reply := (cn_reply c)\<lparr>rp_responseHeadersAppended := True, rp_keepConnection := keep,
      rp_responseWrittenBytes := rp_responseWrittenBytes (cn_reply c) + of_nat (length data)\<rparr>\<rparr>"
  using assms by (simp add: response_write_def appendResponseHeaders_def Let_def socket_out_def upd_reply_def)

lemma read_reply [simp]:
  "rp_responseHeadersAppended (cn_reply (fst (request_read entry c))) = rp_responseHeadersAppended (cn_reply c)"
  "rp_keepConnection (cn_reply (fst (request_read entry c))) = rp_keepConnection (cn_reply c)"
  "rp_responseWrittenBytes (cn_reply (fst (request_read entry c))) = rp_responseWrittenBytes (cn_reply c)"
  "cn_output (fst (request_read entry c)) = cn_output c" "cn_response (fst (request_read entry c)) = cn_response c"
  by (simp_all add: request_read_def upd_reply_def split: option.split)

lemma handle_after_head:
  assumes "rp_responseHeadersAppended (cn_reply c)"
  shows "rp_responseHeadersAppended (cn_reply (handle now acts c)) \<and>
    rp_keepConnection (cn_reply (handle now acts c)) = rp_keepConnection (cn_reply c) \<and>
    cn_output (handle now acts c) = cn_output c @ written acts \<and>
    rp_responseWrittenBytes (cn_reply (handle now acts c)) =
      rp_responseWrittenBytes (cn_reply c) + of_nat (length (written acts))"
  using assms
proof (induction acts arbitrary: c)
  case (Cons a acts)
  have "rp_responseHeadersAppended (cn_reply (act now a c)) \<and>
    rp_keepConnection (cn_reply (act now a c)) = rp_keepConnection (cn_reply c) \<and>
    cn_output (act now a c) = cn_output c @ written [a] \<and>
    rp_responseWrittenBytes (cn_reply (act now a c)) = rp_responseWrittenBytes (cn_reply c) + of_nat (length (written [a]))"
  proof (cases a)
    case (Read e)
    then show ?thesis using Cons.prems by simp
  qed (use Cons.prems in \<open>simp_all add: write_after_head socket_out_def\<close>)
  with Cons.IH [of "act now a c"] show ?case by (simp add: algebra_simps)
qed simp

lemma response_after_head:
  "rp_responseHeadersAppended (cn_reply c) \<Longrightarrow> \<not> list_ex is_change acts \<Longrightarrow>
    cn_response (handle now acts c) = cn_response c"
proof (induction acts arbitrary: c)
  case (Cons a acts)
  have "rp_responseHeadersAppended (cn_reply (act now a c)) \<and> cn_response (act now a c) = cn_response c"
  proof (cases a)
    case (Read e)
    then show ?thesis using Cons.prems by simp
  qed (use Cons.prems in \<open>simp_all add: write_after_head socket_out_def\<close>)
  with Cons show ?case by simp
qed simp

lemma handle_before_head:
  assumes "\<not> rp_responseHeadersAppended (cn_reply c)" "\<not> list_ex is_write acts"
  shows "\<not> rp_responseHeadersAppended (cn_reply (handle now acts c)) \<and>
    cn_output (handle now acts c) = cn_output c \<and> written acts = [] \<and>
    rp_responseWrittenBytes (cn_reply (handle now acts c)) = rp_responseWrittenBytes (cn_reply c)"
  using assms
proof (induction acts arbitrary: c)
  case (Cons a acts)
  then show ?case
  proof (cases a)
    case (Read e)
    have "\<not> rp_responseHeadersAppended (cn_reply (act now a c)) \<and> cn_output (act now a c) = cn_output c \<and>
      rp_responseWrittenBytes (cn_reply (act now a c)) = rp_responseWrittenBytes (cn_reply c)"
      using Cons.prems Read by simp
    with Cons.IH [of "act now a c"] Cons.prems Read show ?thesis by simp
  qed simp_all
qed simp

text \<open>The response as it is when its head is written: at the first write, or when the handler has returned.\<close>

definition sent_response :: "string \<Rightarrow> handler_action list \<Rightarrow> connection \<Rightarrow> http_response \<times> bool" where
  "sent_response now acts c =
     (let c' = handle now (takeWhile (\<lambda>a. \<not> is_write a) acts) c
      in complete_response now (cn_request c') (cn_response c'))"

lemma sent_cases:
  fixes acts :: "handler_action list"
  obtains (silent) "\<not> list_ex is_write acts" "takeWhile (\<lambda>a. \<not> is_write a) acts = acts"
  | (writes) pre data post where "acts = pre @ Write data # post" "\<not> list_ex is_write pre"
      "takeWhile (\<lambda>a. \<not> is_write a) acts = pre"
proof (cases "list_ex is_write acts")
  case False
  then show ?thesis by (intro silent) (auto simp: list_ex_iff takeWhile_eq_all_conv)
next
  case True
  then obtain a where "a \<in> set acts" "is_write a" by (auto simp: list_ex_iff)
  then obtain pre w post where s: "acts = pre @ w # post" "is_write w" "\<forall>a \<in> set pre. \<not> is_write a"
    by (metis split_list_first_prop)
  then obtain data where "w = Write data" by (cases w) auto
  with s show ?thesis
    by (intro writes [of pre data post]) (auto simp: list_ex_iff takeWhile_append1)
qed

lemma send_head_fresh:
  assumes "\<not> rp_responseHeadersAppended (cn_reply c)"
    and "complete_response now (cn_request c) (cn_response c) = (r, keep)"
  shows "send_head now c = (socket_out (concat (head_fragments r)) c)\<lparr>cn_detectTimeoutFlag := False, cn_response := r,
    cn_reply := (cn_reply c)\<lparr>rp_responseHeadersAppended := True, rp_keepConnection := keep\<rparr>\<rparr>"
  using assms by (simp add: send_head_def appendResponseHeaders_def Let_def socket_out_def upd_reply_def)

lemma send_head_again:
  "rp_responseHeadersAppended (cn_reply c) \<Longrightarrow> send_head now c = c\<lparr>cn_detectTimeoutFlag := False\<rparr>"
  by (simp add: send_head_def Let_def)

text \<open>One lemma for the two ways in which the head is sent.\<close>

lemma sent_result:
  assumes fresh: "\<not> rp_responseHeadersAppended (cn_reply c)" and sent: "sent_response now acts c = (r, keep)"
  defines "c' \<equiv> send_head now (handle now acts c)"
  shows "cn_output c' = cn_output c @ concat (head_fragments r) @ written acts \<and>
    rp_responseHeadersAppended (cn_reply c') \<and> rp_keepConnection (cn_reply c') = keep \<and>
    rp_responseWrittenBytes (cn_reply c') = rp_responseWrittenBytes (cn_reply c) + of_nat (length (written acts)) \<and>
    (\<not> list_ex is_change (dropWhile (\<lambda>a. \<not> is_write a) acts) \<longrightarrow> cn_response c' = r)"
proof (cases acts rule: sent_cases)
  case silent
  let ?d = "handle now acts c"
  have "complete_response now (cn_request ?d) (cn_response ?d) = (r, keep)"
    using sent silent(2) by (simp add: sent_response_def Let_def)
  with handle_before_head [OF fresh silent(1), of now]
  show ?thesis
    by (simp add: c'_def send_head_fresh socket_out_def)
next
  case (writes pre data post)
  let ?d = "handle now pre c"
  have d: "complete_response now (cn_request ?d) (cn_response ?d) = (r, keep)"
    using sent writes(3) by (simp add: sent_response_def Let_def)
  note before = handle_before_head [OF fresh writes(2), of now]
  let ?w = "response_write now data ?d"
  have w: "?w = (socket_out (concat (head_fragments r) @ data) ?d)\<lparr>cn_detectTimeoutFlag := False, cn_response := r,
    cn_reply := (cn_reply ?d)\<lparr>rp_responseHeadersAppended := True, rp_keepConnection := keep,
      rp_responseWrittenBytes := rp_responseWrittenBytes (cn_reply ?d) + of_nat (length data)\<rparr>\<rparr>"
    using before d by (intro write_before_head) simp_all
  have app: "rp_responseHeadersAppended (cn_reply ?w)" by (simp add: w)
  have "dropWhile (\<lambda>a. \<not> is_write a) acts = Write data # post"
    using writes by (simp add: dropWhile_append3 list_ex_iff)
  with handle_after_head [OF app, of now post] before response_after_head [OF app, of post now]
  show ?thesis
    by (simp add: c'_def writes(1) send_head_again w socket_out_def)
qed

lemma head_text:
  "concat (head_fragments r) = res_version r @ '' '' @ res_statusCode r @ '' '' @ res_statusMessage r @
     concat (map header_line (rs_foreach (res_headers r))) @ crlf @ crlf"
  using concat_put_members [of ResponseFixedMembers "res_headers r" rs_remainHeaders]
  by (simp add: head_fragments_def rs_append_members rs_foreach_listed concat_put_pairs)

lemma head_fragments_bound: "length (head_fragments r) < getResponseHeadersFragmentsCount r"
  using length_put_members [of ResponseFixedMembers "res_headers r"]
  by (simp add: head_fragments_def getResponseHeadersFragmentsCount_def rs_append_members rs_maxSize_def length_put_pairs)

text \<open>
  C5. Whatever a handler does with a request, what goes to the socket for it is one head, built from the response
  as it was before the first write, with the status line, one line for each header and an empty line, and after it
  exactly what the handler wrote, in this order; the fragments of the head stay within what was reserved for them.
\<close>

theorem response_written_once:
  defines "c \<equiv> \<lambda>entry d. begin_request entry d"
  shows "cn_output (send_head now (handle now acts (c entry d))) =
      cn_output d @
      (let r = fst (sent_response now acts (c entry d))
       in res_version r @ '' '' @ res_statusCode r @ '' '' @ res_statusMessage r @
          concat (map header_line (rs_foreach (res_headers r))) @ crlf @ crlf) @ written acts \<and>
    rp_responseWrittenBytes (cn_reply (send_head now (handle now acts (c entry d)))) = of_nat (length (written acts)) \<and>
    length (head_fragments (fst (sent_response now acts (c entry d)))) <
      getResponseHeadersFragmentsCount (fst (sent_response now acts (c entry d)))"
proof -
  obtain r keep where s: "sent_response now acts (c entry d) = (r, keep)" by fastforce
  have "\<not> rp_responseHeadersAppended (cn_reply (c entry d))" "rp_responseWrittenBytes (cn_reply (c entry d)) = 0"
    "cn_output (c entry d) = cn_output d"
    by (simp_all add: c_def begin_request_def empty_reply_data_def)
  with sent_result [OF _ s] head_fragments_bound [of r] show ?thesis by (simp add: s head_text)
qed

text \<open>
  C4. After a handler that does not change the response once it has written to it, a connection is kept for a
  next request only if the client can tell where the response ends and the server where the next request begins:
  the head that was sent said \<open>keep-alive\<close>, and either that the body is chunked or a length which is the number of
  bytes written (both as 64 bit numbers), and the body of the request has been read to its end. The check at the
  end reads the response as it is then, so after a later change it does not speak of the head that was sent.
\<close>

theorem kept_connection_framed:
  assumes "\<not> list_ex is_change (dropWhile (\<lambda>a. \<not> is_write a) acts)"
    and "rp_keepConnection (cn_reply (check_keepalive (send_head now (handle now acts (begin_request entry c)))))"
  shows "let h = res_headers (fst (sent_response now acts (begin_request entry c)))
    in rs_connection h = ''keep-alive'' \<and>
       (rs_contentLength h = [] \<and> rs_transferEncoding h = ''chunked'' \<or>
        rs_contentLength h \<noteq> [] \<and> loadIntFromDec (rs_contentLength h) = Some (of_nat (length (written acts)) :: u64)) \<and>
       rp_requestBodyConsumed (cn_reply (handle now acts (begin_request entry c)))"
proof -
  let ?c = "begin_request entry c"
  let ?d = "handle now acts ?c"
  obtain r keep where s: "sent_response now acts ?c = (r, keep)" by fastforce
  have "\<not> rp_responseHeadersAppended (cn_reply ?c)" "rp_responseWrittenBytes (cn_reply ?c) = 0"
    by (simp_all add: begin_request_def empty_reply_data_def)
  note res = sent_result [OF this(1) s] this(2)
  have keep: keep and chk: "checkKeepaliveByContentLength r (cn_reply (send_head now ?d))"
    using assms(2) res by (auto simp: check_keepalive_def upd_reply_def assms(1) split: if_splits)
  have "rs_connection (res_headers r) = ''keep-alive''"
    using s keep by (auto simp: sent_response_def Let_def complete_response_def complete_connection_def
        upd_response_headers_def split: if_splits)
  moreover have "rp_requestBodyConsumed (cn_reply (send_head now ?d)) = rp_requestBodyConsumed (cn_reply ?d)"
    by (simp add: send_head_def appendResponseHeaders_def Let_def upd_reply_def socket_out_def split: prod.split)
  ultimately show ?thesis
    using chk res by (auto simp: s checkKeepaliveByContentLength_def Let_def split: if_splits option.splits)
qed

definition hello_entry :: request_entry where
  "hello_entry = \<lparr>re_request = new_request\<lparr>req_version := ''HTTP/1.1''\<rparr>, re_id = 0, re_hasBody = False\<rparr>"

definition hello_acts :: "handler_action list" where
  "hello_acts = [Change (\<lambda>q r. (q, fst (reply r ''hello'' ''text/plain'' ''200'' ''OK''))), Write ''hello'']"

lemma kept_connection_framed_witness:
  "loadIntFromDec (rs_contentLength (res_headers (fst (sent_response ''now'' hello_acts (begin_request hello_entry started)))))
     = Some (5 :: u64)"
proof -
  have "\<not> list_ex is_change (dropWhile (\<lambda>a. \<not> is_write a) hello_acts)" by (simp add: hello_acts_def)
  moreover have "rp_keepConnection
      (cn_reply (check_keepalive (send_head ''now'' (handle ''now'' hello_acts (begin_request hello_entry started)))))"
    by code_simp
  moreover have "rs_contentLength (res_headers (fst (sent_response ''now'' hello_acts (begin_request hello_entry started)))) \<noteq> []"
    by code_simp
  moreover have "written hello_acts = ''hello''" by (simp add: hello_acts_def)
  ultimately show ?thesis
    using kept_connection_framed [of hello_acts "''now''" hello_entry started] by (simp add: Let_def)
qed

section \<open>The end of the loop\<close>

text \<open>
  A handler that raises an exception, or a write that fails later, closes the connection: the loop ends, both
  queues are aborted, the exception is counted, and an error response that the receive loop left behind is sent,
  once, if the socket is still connected.
\<close>

theorem reply_exception_closes:
  assumes "active c"
  shows "\<exists>c'. reply_exception connected c = (c', ReplyEnd) \<and> closing c' \<and>
    cn_output c' = cn_output c @ (if connected then cn_lastErrorResponse c else []) \<and>
    mt_request_reply_exception_occurs (cn_metrics c') = mt_request_reply_exception_occurs (cn_metrics c) + 1 \<and>
    reply_exception connected c' = (c', ReplyEnd)"
proof -
  define d where "d = shutdown ''exception occurs when reply response''
    (upd_metrics (\<lambda>m. m\<lparr>mt_request_errors := mt_request_errors m + 1,
       mt_request_reply_exception_occurs := mt_request_reply_exception_occurs m + 1\<rparr>) c)"
  have s: "cn_state c \<noteq> Closing" using assms by (simp add: active_def)
  then have c: "cn_state d = Closing" "cn_queuesAborted d" "cn_lastErrorResponse d = cn_lastErrorResponse c"
    "cn_output d = cn_output c"
    "mt_request_reply_exception_occurs (cn_metrics d) = mt_request_reply_exception_occurs (cn_metrics c) + 1"
    by (simp_all add: d_def shutdown_def upd_metrics_def)
  have e: "reply_exception connected c = replyResponseLoop connected d" using s by (simp add: reply_exception_def d_def)
  show ?thesis
    unfolding e using c by (cases "cn_lastErrorResponse c = [] \<or> \<not> connected")
      (auto simp: replyResponseLoop_def reply_exception_def closing_def socket_out_def)
qed

lemma reply_exception_closes_witness:
  "\<exists>c'. reply_exception True started = (c', ReplyEnd) \<and> closing c'"
  using reply_exception_closes [of started True]
  by (auto simp: active_def started_def enter_def new_connection_def)

text \<open>
  A write that has failed when it returns is not noticed while the connection is kept: the request is counted as
  handled and the loop goes on.
\<close>

lemma failed_write_unnoticed:
  "snd (finish_request ''now'' True (IoResult True True) (handle ''now'' hello_acts (begin_request hello_entry started))) =
     PopRequest"
  by code_simp

text \<open>\<open>stop\<close> of a connection that is already closed puts it back to closing, a state that it does not leave.\<close>

lemma stop_of_closed: "cn_state (connection_stop (connection_closed c)) = Closing"
  by (simp add: connection_stop_def connection_closed_def shutdown_def enter_def)

end
