(* ===== verification/Http11Serve.thy ===== *)
theory Http11Serve
  imports Http11Reply "HOL-Library.Sublist"
begin

text \<open>
  The two loops of a connection together. A step of the composed relation is a step of the receive loop, a step of
  the reply loop with its handlers, a timeout or a call of \<open>stop\<close>. Between the loops are the queues: the reply loop
  takes the entries in the order in which the receive loop pushed them, and gets nothing once the queues are aborted.
\<close>

section \<open>Steps\<close>

text \<open>The side of the reply loop: what it waits for, and what the handler of each request has read of its body.\<close>

record replying =
  rg_wait :: reply_wait
  rg_parts :: "body_entry list list"

abbreviation popped :: "replying \<Rightarrow> nat" where
  "popped q \<equiv> length (rg_parts q)"

definition bodies_read :: "replying \<Rightarrow> nat" where
  "bodies_read q = length (concat (rg_parts q))"

definition read_more :: "body_entry \<Rightarrow> replying \<Rightarrow> replying" where
  "read_more b q = q\<lparr>rg_parts := butlast (rg_parts q) @ [last (rg_parts q) @ [b]]\<rparr>"

inductive serve :: "connection_limits \<Rightarrow> connection \<Rightarrow> receive_wait \<Rightarrow> push list \<Rightarrow> replying \<Rightarrow> bool" where
  start: "connection_start new_connection = Some c \<Longrightarrow> receiveRequestLoop c = (c', w) \<Longrightarrow>
    serve lm c' w [] \<lparr>rg_wait = PopRequest, rg_parts = []\<rparr>"
| receive: "serve lm c w tr q \<Longrightarrow> receive_resume lm input w c = Inr (c', w') \<Longrightarrow>
    serve lm c' w' (tr @ issued (c', w')) q"
| receive_failed: "serve lm c w tr q \<Longrightarrow> receive_exception c = (c', w') \<Longrightarrow> serve lm c' w' tr q"
| timeout: "serve lm c w tr q \<Longrightarrow> serve lm (onTimeout c) w tr q"
| stop: "serve lm c w tr q \<Longrightarrow> serve lm (connection_stop c) w tr q"
| pop: "serve lm c w tr q \<Longrightarrow> rg_wait q = PopRequest \<Longrightarrow> \<not> cn_queuesAborted c \<Longrightarrow> popped q < length (requests tr) \<Longrightarrow>
    serve lm (begin_request (requests tr ! popped q) c) w tr (q\<lparr>rg_wait := Handling, rg_parts := rg_parts q @ [[]]\<rparr>)"
| handler_change: "serve lm c w tr q \<Longrightarrow> rg_wait q = Handling \<Longrightarrow> serve lm (act now (Change f) c) w tr q"
| handler_write: "serve lm c w tr q \<Longrightarrow> rg_wait q = Handling \<Longrightarrow> serve lm (act now (Write data) c) w tr q"
| handler_read: "serve lm c w tr q \<Longrightarrow> rg_wait q = Handling \<Longrightarrow> \<not> cn_queuesAborted c \<Longrightarrow>
    \<not> rp_requestBodyConsumed (cn_reply c) \<Longrightarrow> bodies_read q < length (bodies tr) \<Longrightarrow>
    serve lm (act now (Read (Some (bodies tr ! bodies_read q))) c) w tr (read_more (bodies tr ! bodies_read q) q)"
| finish: "serve lm c w tr q \<Longrightarrow> rg_wait q = Handling \<Longrightarrow> finish_request now connected io c = (c', rw) \<Longrightarrow>
    serve lm c' w tr (q\<lparr>rg_wait := rw\<rparr>)"
| reply_failed: "serve lm c w tr q \<Longrightarrow> rg_wait q \<noteq> ReplyEnd \<Longrightarrow> reply_exception connected c = (c', rw) \<Longrightarrow>
    serve lm c' w tr (q\<lparr>rg_wait := rw\<rparr>)"

section \<open>The receive loop does not notice the reply loop\<close>

lemma beside_refl: "beside c c"
  by (simp add: beside_def)

lemma beside_begin: "beside c (begin_request entry c)"
  by (simp add: beside_def begin_request_def)

text \<open>What a write or the sending of the head keeps.\<close>

definition output_step :: "connection \<Rightarrow> connection \<Rightarrow> bool" where
  "output_step c c' \<longleftrightarrow> beside c c' \<and> cn_state c' = cn_state c \<and> cn_queuesAborted c' = cn_queuesAborted c \<and>
     rp_requestId (cn_reply c') = rp_requestId (cn_reply c) \<and>
     rp_requestBodyConsumed (cn_reply c') = rp_requestBodyConsumed (cn_reply c)"

lemma write_step: "output_step c (response_write now data c)"
  by (simp add: output_step_def beside_def response_write_def appendResponseHeaders_def Let_def upd_reply_def socket_out_def
      split: prod.split)

lemma send_head_step: "output_step c (send_head now c)"
  by (simp add: output_step_def beside_def send_head_def appendResponseHeaders_def Let_def upd_reply_def socket_out_def
      split: prod.split)

lemma check_keepalive_step: "output_step c (check_keepalive c)"
  by (simp add: output_step_def beside_def check_keepalive_def upd_reply_def)

lemma output_step_trans: "output_step c d \<Longrightarrow> output_step d e \<Longrightarrow> output_step c e"
  by (auto simp: output_step_def beside_def)

lemmas finish_steps = output_step_trans [OF send_head_step check_keepalive_step]

text \<open>The end of a request: the loop goes on, or the connection closes.\<close>

lemma loop_reply:
  assumes "replyResponseLoop connected c = (c', rw)"
  shows "beside c c'" "cn_state c' = cn_state c" "cn_queuesAborted c' = cn_queuesAborted c"
    "rw = (if cn_state c = Closing then ReplyEnd else PopRequest)"
  using assms by (auto simp: replyResponseLoop_def beside_def socket_out_def split: if_splits)

lemma beside_trans: "beside c d \<Longrightarrow> beside d e \<Longrightarrow> beside c e"
  by (auto simp: beside_def)

lemma beside_metrics: "beside c (upd_metrics f c)" "beside c (count_handled c)"
  by (simp_all add: beside_def upd_metrics_def count_handled_def)

lemma beside_close:
  assumes "closing c \<or> active c"
  shows "beside c (shutdown reason (upd_metrics f c))" "closing (shutdown reason (upd_metrics f c))"
  using assms by (auto simp: beside_def shutdown_def upd_metrics_def closing_def active_def)

lemma exception_reply:
  assumes "closing c \<or> active c" "reply_exception connected c = (c', rw)"
  shows "beside c c' \<and> closing c' \<and> rw = ReplyEnd"
proof (cases "cn_state c = Closing")
  case True
  with assms loop_reply [of connected c c' rw] show ?thesis
    by (auto simp: reply_exception_def closing_def active_def)
next
  case False
  let ?d = "shutdown ''exception occurs when reply response''
    (upd_metrics (\<lambda>m. m\<lparr>mt_request_errors := mt_request_errors m + 1,
       mt_request_reply_exception_occurs := mt_request_reply_exception_occurs m + 1\<rparr>) c)"
  have r: "replyResponseLoop connected ?d = (c', rw)" using assms(2) False by (simp add: reply_exception_def)
  have "closing ?d" "beside c ?d" using beside_close [OF assms(1)] by blast+
  with loop_reply [OF r] beside_trans show ?thesis by (auto simp: closing_def)
qed

lemma finish_reply:
  assumes "closing c \<or> active c" "finish_request now connected io c = (c', rw)"
  shows "beside c c' \<and> (closing c' \<and> rw = ReplyEnd \<or>
    active c' \<and> active c \<and> rw = PopRequest \<and> rp_requestBodyConsumed (cn_reply c) \<and>
    rp_keepConnection (cn_reply (check_keepalive (send_head now c))))"
proof -
  define d where "d = check_keepalive (send_head now c)"
  have d: "output_step c d" unfolding d_def by (rule finish_steps)
  then have cd: "closing d \<or> active d" "active d = active c" "beside c d"
    using assms(1) by (auto simp: output_step_def closing_def active_def)
  from assms(2) consider (kept) "rp_keepConnection (cn_reply d)" "replyResponseLoop connected (count_handled d) = (c', rw)"
    | (failed) "reply_exception connected d = (c', rw)"
    | (close) "replyResponseLoop connected (shutdown ''keepalive not enabled'' (count_handled d)) = (c', rw)"
    by (auto simp: finish_request_def Let_def d_def split: if_splits)
  then show ?thesis
  proof cases
    case kept
    have "checkKeepaliveByContentLength (cn_response (send_head now c)) (cn_reply (send_head now c))"
      using kept(1) by (auto simp: d_def check_keepalive_def upd_reply_def split: if_splits)
    then have "rp_requestBodyConsumed (cn_reply c)"
      using send_head_step [of c now] by (auto simp: checkKeepaliveByContentLength_def output_step_def Let_def
          split: if_splits option.splits)
    with kept(1) cd loop_reply [OF kept(2)] beside_trans [OF beside_trans [OF cd(3) beside_metrics(2)], of c'] show ?thesis
      unfolding d_def [symmetric]
      by (auto simp: closing_def active_def count_handled_def upd_metrics_def)
  next
    case failed
    with exception_reply [OF cd(1)] cd(3) beside_trans show ?thesis by blast
  next
    case close
    let ?e = "shutdown ''keepalive not enabled'' (count_handled d)"
    have e: "closing ?e" "beside d ?e" using beside_close [OF cd(1)] by (simp_all add: count_handled_def)
    have "beside c c'" using beside_trans [OF beside_trans [OF cd(3) e(2)] loop_reply(1) [OF close]] .
    moreover have "closing c' \<and> rw = ReplyEnd"
      using e(1) loop_reply(2-4) [OF close] unfolding closing_def by metis
    ultimately show ?thesis by blast
  qed
qed

lemma act_step:
  "beside c (act now a c)" "cn_queuesAborted (act now a c) = cn_queuesAborted c"
  "rp_requestId (cn_reply (act now a c)) = rp_requestId (cn_reply c)"
proof -
  have "beside c (act now a c) \<and> cn_queuesAborted (act now a c) = cn_queuesAborted c \<and>
    rp_requestId (cn_reply (act now a c)) = rp_requestId (cn_reply c)"
  proof (cases a)
    case (Write data)
    with write_step [of c now data] show ?thesis by (simp add: output_step_def)
  qed (simp_all add: beside_def request_read_def upd_reply_def split: option.split)
  then show "beside c (act now a c)" "cn_queuesAborted (act now a c) = cn_queuesAborted c"
    "rp_requestId (cn_reply (act now a c)) = rp_requestId (cn_reply c)" by blast+
qed

lemma serve_run: "serve lm c w tr q \<Longrightarrow> conn_run lm c w tr"
proof (induction rule: serve.induct)
  case (timeout lm c w tr q)
  have "closing c \<or> active c" using run_inv [OF timeout.IH] by (auto simp: conn_inv_def)
  then show ?case using conn_run.beside [OF timeout.IH] beside_close(1) by (simp add: onTimeout_def)
next
  case (stop lm c w tr q)
  have "closing c \<or> active c" using run_inv [OF stop.IH] by (auto simp: conn_inv_def)
  then have "beside c (connection_stop c)" by (auto simp: connection_stop_def beside_def shutdown_def closing_def active_def)
  then show ?case by (rule conn_run.beside [OF stop.IH])
next
  case (finish lm c w tr q now connected io c' rw)
  have "closing c \<or> active c" using run_inv [OF finish.IH] by (auto simp: conn_inv_def)
  then show ?case using conn_run.beside [OF finish.IH] finish_reply [OF _ finish.hyps(3)] by blast
next
  case (reply_failed lm c w tr q connected c' rw)
  have "closing c \<or> active c" using run_inv [OF reply_failed.IH] by (auto simp: conn_inv_def)
  then show ?case using conn_run.beside [OF reply_failed.IH] exception_reply [OF _ reply_failed.hyps(3)] by blast
qed (auto intro: conn_run.intros beside_begin act_step(1) simp del: act.simps)

lemma serve_live: "serve lm c w tr q \<Longrightarrow> closing c \<or> active c"
  using run_inv [OF serve_run, of lm c w tr q] by (auto simp: conn_inv_def)

section \<open>Bodies\<close>

definition complete :: "request_entry \<Rightarrow> body_entry list \<Rightarrow> bool" where
  "complete r p \<longleftrightarrow> (re_hasBody r \<longleftrightarrow> p \<noteq> []) \<and> (p \<noteq> [] \<longrightarrow> be_isEnd (last p)) \<and> (\<forall>b \<in> set (butlast p). \<not> be_isEnd b)"

lemma group_complete: "group n (r, bs) \<Longrightarrow> complete r bs"
  by (simp add: group_def complete_def)

text \<open>A completed body is not the beginning of a longer list with one end.\<close>

lemma end_inside:
  assumes "p \<noteq> []" "be_isEnd (last p)" "us \<noteq> []" "\<forall>b \<in> set (butlast (p @ us)). \<not> be_isEnd b"
  shows False
proof -
  have "last p \<in> set (butlast (p @ us))" using assms(1,3) by (simp add: butlast_append)
  then show False using assms(2,4) by blast
qed

lemma complete_unique:
  assumes "complete r p" "complete r p'" "p @ x = p' @ y"
  shows "p = p' \<and> x = y"
proof -
  have le: "q = q'" if "complete r q" "complete r q'" "q @ us = q'" for q q' us
  proof (cases "us = []")
    case False
    with that have "q \<noteq> []" "be_isEnd (last q)" "\<forall>b \<in> set (butlast (q @ us)). \<not> be_isEnd b"
      by (auto simp: complete_def)
    then show ?thesis using end_inside False by blast
  qed (use that in simp)
  from assms(3) obtain us where "p @ us = p' \<and> x = us @ y \<or> p = p' @ us \<and> us @ x = y"
    by (metis append_eq_append_conv2)
  then have "p = p'" using le [OF assms(1,2)] le [OF assms(2,1)] by metis
  with assms(3) show ?thesis by simp
qed

lemma parts_unique:
  "list_all2 complete rs ps \<Longrightarrow> list_all2 complete rs gs \<Longrightarrow> concat ps @ x = concat gs @ y \<Longrightarrow> ps = gs \<and> x = y"
proof (induction rs arbitrary: ps gs)
  case (Cons r rs)
  from Cons.prems(1,2) obtain p ps' g gs' where s: "ps = p # ps'" "gs = g # gs'" "complete r p" "complete r g"
    "list_all2 complete rs ps'" "list_all2 complete rs gs'" by (auto simp: list_all2_Cons1)
  with Cons.prems(3) complete_unique [OF s(3,4), of "concat ps' @ x" "concat gs' @ y"] Cons.IH [OF s(5,6)] show ?case by simp
qed simp

text \<open>The bodies of the groups of a trace, the open one last.\<close>

definition body_groups :: "(request_entry \<times> body_entry list) list \<Rightarrow> body_entry list \<Rightarrow> body_entry list list" where
  "body_groups gs bs = map snd gs @ [bs]"

lemma pushed_groups:
  assumes "pushed gs rq bs tr" "k < length (requests tr)"
  shows "k \<le> length gs" "re_id (requests tr ! k) = of_nat k" "\<forall>b \<in> set (body_groups gs bs ! k). be_id b = of_nat k"
    "k < length gs \<Longrightarrow> complete (requests tr ! k) (body_groups gs bs ! k)"
    "\<not> re_hasBody (requests tr ! k) \<Longrightarrow> body_groups gs bs ! k = []"
    "k = length gs \<Longrightarrow> \<forall>b \<in> set (butlast (body_groups gs bs ! k)). \<not> be_isEnd b"
    "k < length gs \<Longrightarrow> snd (gs ! k) = body_groups gs bs ! k"
proof -
  have r: "requests tr = map fst gs @ rq" "open_group (length gs) rq bs" and g: "\<And>n. n < length gs \<Longrightarrow> group n (gs ! n)"
    using assms(1) by (auto simp: pushed_def)
  have l: "length rq \<le> 1" using r(2) by (auto simp: open_group_def)
  show k: "k \<le> length gs" using assms(2) l r(1) by simp
  show "re_id (requests tr ! k) = of_nat k"
  proof (cases "k < length gs")
    case True
    with g [OF True] show ?thesis by (cases "gs ! k") (simp add: r(1) nth_append group_def)
  next
    case False
    with assms(2) r k show ?thesis by (auto simp: nth_append open_group_def)
  qed
  show "\<forall>b \<in> set (body_groups gs bs ! k). be_id b = of_nat k"
    using g [of k] r(2) k by (cases "k < length gs"; cases "gs ! k")
      (auto simp: body_groups_def nth_append group_def open_group_def)
  show c: "complete (requests tr ! k) (body_groups gs bs ! k)" if "k < length gs"
    using g [OF that] that group_complete [of k "fst (gs ! k)" "snd (gs ! k)"]
    by (simp add: r(1) body_groups_def nth_append)
  show "body_groups gs bs ! k = []" if "\<not> re_hasBody (requests tr ! k)"
  proof (cases "k < length gs")
    case True
    with c that show ?thesis by (simp add: complete_def)
  next
    case False
    with that assms(2) r k show ?thesis by (auto simp: body_groups_def nth_append open_group_def)
  qed
  show "\<forall>b \<in> set (butlast (body_groups gs bs ! k)). \<not> be_isEnd b" if "k = length gs"
    using that r(2) by (simp add: body_groups_def open_group_def nth_append)
  show "snd (gs ! k) = body_groups gs bs ! k" if "k < length gs" using that by (simp add: body_groups_def nth_append)
qed

lemma concat_from: "k < length xss \<Longrightarrow> concat xss = concat (take k xss) @ xss ! k @ concat (drop (Suc k) xss)"
  by (metis append_take_drop_id concat.simps(2) concat_append Cons_nth_drop_Suc)

lemma current_part:
  assumes p: "pushed gs rq bs tr" and k: "k < length (requests tr)"
    and ps: "list_all2 complete (take k (requests tr)) ps" and b: "bodies tr = concat ps @ part @ rest"
  defines "g \<equiv> body_groups gs bs ! k"
  shows "ps = take k (body_groups gs bs)"
    and "complete (requests tr ! k) part \<Longrightarrow> part = g"
    and "re_hasBody (requests tr ! k) \<Longrightarrow> \<forall>b \<in> set part. \<not> be_isEnd b \<Longrightarrow>
      \<exists>us. g = part @ us \<and> (rest \<noteq> [] \<longrightarrow> us \<noteq> [] \<and> hd rest = hd us)"
proof -
  let ?G = "body_groups gs bs"
  note f = pushed_groups [OF p]
  have kG: "k < length ?G" using f(1) [OF k] by (simp add: body_groups_def)
  have "bodies tr = concat ?G" using p by (simp add: pushed_def body_groups_def)
  then have eq: "concat ps @ part @ rest = concat (take k ?G) @ g @ concat (drop (Suc k) ?G)"
    using b concat_from [OF kG] by (simp add: g_def)
  have "list_all2 complete (take k (requests tr)) (take k ?G)"
    unfolding list_all2_conv_all_nth using k kG f(1) [OF k] by (auto intro: f(4))
  from parts_unique [OF ps this eq] have ps': "ps = take k ?G" and e: "part @ rest = g @ concat (drop (Suc k) ?G)" by simp_all
  show "ps = take k ?G" by (rule ps')
  have last: "part @ rest = g" if "k = length gs" using that e by (simp add: body_groups_def)
  show "part = g" if c: "complete (requests tr ! k) part"
  proof (cases "k < length gs")
    case True
    then show ?thesis using complete_unique [OF c f(4) [OF k True]] e by (simp add: g_def)
  next
    case False
    then have kl: "k = length gs" using f(1) [OF k] by simp
    show ?thesis
    proof (cases "part = []")
      case True
      with c f(5) [OF k] show ?thesis by (simp add: complete_def g_def)
    next
      case False
      with c f(6) [OF k kl] last [OF kl] end_inside [of part rest] show ?thesis
        by (cases "rest = []") (auto simp: complete_def g_def)
    qed
  qed
  show "\<exists>us. g = part @ us \<and> (rest \<noteq> [] \<longrightarrow> us \<noteq> [] \<and> hd rest = hd us)"
    if h: "re_hasBody (requests tr ! k)" and n: "\<forall>b \<in> set part. \<not> be_isEnd b"
  proof (cases "k < length gs")
    case True
    from f(4) [OF k True] h have c: "g \<noteq> []" "be_isEnd (last g)" by (auto simp: complete_def g_def)
    have "\<not> prefix g part" using c n by (auto simp: prefix_def)
    with e obtain us where "g = part @ us" "us \<noteq> []" "rest = us @ concat (drop (Suc k) ?G)"
      by (auto simp: append_eq_append_conv2 prefix_def)
    then show ?thesis by auto
  next
    case False
    with last f(1) [OF k] show ?thesis by (intro exI [of _ rest]) auto
  qed
qed

section \<open>The invariant of the composition\<close>

definition serve_inv :: "connection \<Rightarrow> push list \<Rightarrow> replying \<Rightarrow> bool" where
  "serve_inv c tr q \<longleftrightarrow>
     popped q \<le> length (requests tr) \<and> prefix (concat (rg_parts q)) (bodies tr) \<and>
     (case rg_wait q of
        PopRequest \<Rightarrow> list_all2 complete (take (popped q) (requests tr)) (rg_parts q)
      | Handling \<Rightarrow>
          rg_parts q \<noteq> [] \<and> list_all2 complete (take (popped q - 1) (requests tr)) (butlast (rg_parts q)) \<and>
          (let r = requests tr ! (popped q - 1); part = last (rg_parts q)
           in rp_requestId (cn_reply c) = re_id r \<and>
              (if rp_requestBodyConsumed (cn_reply c) then complete r part
               else re_hasBody r \<and> (\<forall>b \<in> set part. \<not> be_isEnd b)))
      | ReplyEnd \<Rightarrow> False)"

lemma serve_inv_append:
  assumes "serve_inv c tr q" "cn_reply c' = cn_reply c"
  shows "serve_inv c' (tr @ tr') q"
proof (cases "rg_wait q")
  case Handling
  have "popped q - 1 < length (requests tr)" using assms(1) Handling by (cases "rg_parts q") (auto simp: serve_inv_def)
  with assms Handling show ?thesis by (auto simp: serve_inv_def nth_append prefix_def)
qed (use assms in \<open>auto simp: serve_inv_def prefix_def\<close>)

lemma serve_inv_reply:
  assumes "serve_inv c tr q" "rp_requestId (cn_reply c') = rp_requestId (cn_reply c)"
    and "rp_requestBodyConsumed (cn_reply c') = rp_requestBodyConsumed (cn_reply c)"
  shows "serve_inv c' tr q"
  using assms by (simp add: serve_inv_def Let_def split: reply_wait.splits)

text \<open>The next entry of the body queue belongs to the request that is handled.\<close>

lemma next_body:
  assumes "serve_inv c tr q" "pushed gs rq bs tr" "rg_wait q = Handling" "\<not> rp_requestBodyConsumed (cn_reply c)"
    and "bodies_read q < length (bodies tr)"
  shows "be_id (bodies tr ! bodies_read q) = rp_requestId (cn_reply c)"
proof -
  let ?k = "popped q - 1" and ?b = "bodies tr ! bodies_read q"
  obtain ps part where q: "rg_parts q = ps @ [part]" using assms(1,3) by (cases "rg_parts q" rule: rev_cases) (auto simp: serve_inv_def)
  obtain rest where b: "bodies tr = concat (rg_parts q) @ rest" using assms(1) by (auto simp: serve_inv_def prefix_def)
  have k: "?k < length (requests tr)" using assms(1) q by (simp add: serve_inv_def)
  have h: "re_hasBody (requests tr ! ?k)" "\<forall>b \<in> set part. \<not> be_isEnd b"
    "rp_requestId (cn_reply c) = re_id (requests tr ! ?k)" "list_all2 complete (take ?k (requests tr)) ps"
    using assms(1,3,4) q by (auto simp: serve_inv_def Let_def)
  have rest: "rest \<noteq> []" "?b = hd rest" using b assms(5) by (auto simp: bodies_read_def nth_append hd_conv_nth)
  from current_part(3) [OF assms(2) k h(4) _ h(1,2), of rest] b q rest
  have "?b \<in> set (body_groups gs bs ! ?k)" by force
  then show ?thesis using pushed_groups(2,3) [OF assms(2) k] h(3) by simp
qed

text \<open>The receive loop leaves the data of the reply loop alone.\<close>

interpretation reply_kept: callback_invariant conn_settings "\<lambda>c. cn_reply c = d" for d
  by unfold_locales (auto simp: callback_defs piece_defs split: option.split)

lemma loops_reply:
  "cn_reply (fst (receiveRequestLoop c)) = cn_reply c"
  "cn_reply (fst (enqueueRequestAndContinueReceiving h c)) = cn_reply c"
  "cn_reply (fst (enqueueBodyBuffers c)) = cn_reply c"
  "cn_reply (shutdown reason c) = cn_reply c" "cn_reply (fst (refuse response reason count c)) = cn_reply c"
proof -
  show l: "cn_reply (fst (receiveRequestLoop c)) = cn_reply c" for c
    by (simp add: receiveRequestLoop_def reset_receive_def Let_def)
  then show e: "cn_reply (fst (enqueueRequestAndContinueReceiving h c)) = cn_reply c" for c h
    by (simp add: enqueueRequestAndContinueReceiving_def upd_receive_def upd_metrics_def split: option.split)
  then show "cn_reply (fst (enqueueBodyBuffers c)) = cn_reply c"
    by (simp add: enqueueBodyBuffers_def Let_def upd_receive_def)
  show "cn_reply (shutdown reason c) = cn_reply c" "cn_reply (fst (refuse response reason count c)) = cn_reply c"
    by (simp_all add: shutdown_def refuse_def upd_metrics_def)
qed

lemma parse_reply:
  assumes "parse_buffer buffer c = Inr (c', w)"
  shows "cn_reply c' = cn_reply c"
proof -
  have continue: "cn_reply (fst (continue_receiving d)) = cn_reply d" for d
    by (simp add: continue_receiving_def loops_reply)
  from assms obtain n ps s where e: "http_parser_execute (conn_env buffer) (cn_parser c) c = Inr (n, ps, s)"
    "cn_state s = ReceiveRequestMessageComplete \<and>
       continue_receiving (s\<lparr>cn_parser := ps, cn_nextRequestBuffer := drop (n - 1) buffer\<rparr>) = (c', w) \<or>
     refuse InvalidHttpRequestFormat ''invalid request format'' count_invalid_format (s\<lparr>cn_parser := ps\<rparr>) = (c', w) \<or>
     continue_receiving (s\<lparr>cn_parser := ps\<rparr>) = (c', w)" by (rule parse_buffer_cases)
  have s: "cn_reply s = cn_reply c" by (rule reply_kept.execute_kept [OF refl _ e(1)]) simp
  from e(2) show ?thesis
    using continue [of "s\<lparr>cn_parser := ps\<rparr>"] continue [of "s\<lparr>cn_parser := ps, cn_nextRequestBuffer := drop (n - 1) buffer\<rparr>"]
      loops_reply(5) [of InvalidHttpRequestFormat "''invalid request format''" count_invalid_format "s\<lparr>cn_parser := ps\<rparr>"] s
    by auto
qed

lemma counted_reply: "counted buffer c d \<Longrightarrow> cn_reply d = cn_reply c"
  by (auto simp: counted_def upd_receive_def)

lemma receive_reply:
  assumes "receive_resume lm input w c = Inr (c', w')"
  shows "cn_reply c' = cn_reply c"
proof -
  have buffer: "cn_reply c' = cn_reply c" if "receive_buffer lm b c = Inr (c', w')" for b
    using that
  proof (cases rule: receive_buffer_cases)
    case (refused d response reason)
    then show ?thesis
      using loops_reply(5) [of response reason count_initial_size d] counted_reply [of b c d] by (metis fst_conv sum.inject(2))
  qed (auto simp: counted_reply loops_reply dest!: parse_reply [OF sym])
  show ?thesis
    using assms buffer loops_reply(1,3) [of c] by (cases w) (auto simp: receive_resume_def)
qed

lemma receive_keeps_abort:
  assumes "conn_run lm c w tr" "receive_resume lm input w c = Inr (c', w')" "cn_queuesAborted c"
  shows "cn_queuesAborted c'"
proof -
  note i = run_inv [OF assms(1)]
  have "closing c" using i assms(3) by (auto simp: conn_inv_def active_def)
  then show ?thesis using closing_resume [OF i _ assms(2)] by (simp add: closing_def)
qed

lemma pop_inv:
  assumes "serve_inv c tr q" "rg_wait q = PopRequest" "popped q < length (requests tr)"
  shows "serve_inv (begin_request (requests tr ! popped q) c) tr (q\<lparr>rg_wait := Handling, rg_parts := rg_parts q @ [[]]\<rparr>)"
  using assms by (auto simp: serve_inv_def Let_def begin_request_def complete_def)

lemma read_inv:
  assumes i: "serve_inv c tr q" and p: "pushed gs rq bs tr" and h: "rg_wait q = Handling" "\<not> rp_requestBodyConsumed (cn_reply c)"
    and l: "bodies_read q < length (bodies tr)"
  shows "serve_inv (act now (Read (Some (bodies tr ! bodies_read q))) c) tr (read_more (bodies tr ! bodies_read q) q)"
proof -
  let ?b = "bodies tr ! bodies_read q"
  obtain ps part where q: "rg_parts q = ps @ [part]" using i h(1) by (cases "rg_parts q" rule: rev_cases) (auto simp: serve_inv_def)
  have id: "be_id ?b = rp_requestId (cn_reply c)" by (rule next_body [OF i p h l])
  have "prefix (concat (rg_parts q) @ [?b]) (bodies tr)"
    using i l by (auto simp: serve_inv_def bodies_read_def prefix_def nth_append intro: append_prefixD)
       (metis append_Cons append_Nil hd_Cons_tl hd_conv_nth)
  moreover have "act now (Read (Some ?b)) c = (if be_isEnd ?b then upd_reply (\<lambda>d. d\<lparr>rp_requestBodyConsumed := True\<rparr>) c else c)"
    using h(2) id by (simp add: request_read_def)
  ultimately show ?thesis
    using i h q by (auto simp: serve_inv_def Let_def read_more_def upd_reply_def complete_def)
qed

lemma finish_inv:
  assumes "serve_inv c tr q" "rg_wait q = Handling" "rp_requestBodyConsumed (cn_reply c)"
  shows "serve_inv c' tr (q\<lparr>rg_wait := PopRequest\<rparr>)"
proof -
  obtain ps part where q: "rg_parts q = ps @ [part]" using assms(1,2) by (cases "rg_parts q" rule: rev_cases) (auto simp: serve_inv_def)
  have "length ps < length (requests tr)" using assms(1) q by (simp add: serve_inv_def)
  with assms q show ?thesis by (auto simp: serve_inv_def Let_def take_Suc_conv_app_nth intro!: list_all2_appendI)
qed

lemma serve_ok: "serve lm c w tr q \<Longrightarrow> \<not> cn_queuesAborted c \<Longrightarrow> serve_inv c tr q"
proof (induction rule: serve.induct)
  case (start c c' w lm)
  show ?case by (simp add: serve_inv_def)
next
  case (receive lm c w tr q input c' w')
  have "\<not> cn_queuesAborted c" using receive_keeps_abort [OF serve_run [OF receive.hyps(1)] receive.hyps(2)] receive.prems by blast
  with receive serve_inv_append receive_reply [OF receive.hyps(2)] show ?case by blast
next
  case (receive_failed lm c w tr q c' w')
  then show ?case using serve_live [OF receive_failed.hyps(1)]
    by (auto simp: receive_exception_def shutdown_def upd_metrics_def closing_def active_def split: if_splits)
next
  case (timeout lm c w tr q)
  then show ?case using serve_live [OF timeout.hyps(1)] by (auto simp: onTimeout_def shutdown_def upd_metrics_def closing_def active_def split: if_splits)
next
  case (stop lm c w tr q)
  then show ?case using serve_live [OF stop.hyps(1)] by (auto simp: connection_stop_def shutdown_def closing_def active_def split: if_splits)
next
  case (pop lm c w tr q)
  then show ?case using pop_inv by blast
next
  case (handler_change lm c w tr q now f)
  then show ?case using serve_inv_reply [of c tr q] by simp
next
  case (handler_write lm c w tr q now data)
  then show ?case using serve_inv_reply [of c tr q "response_write now data c"] write_step [of c now data] by (simp add: output_step_def)
next
  case (handler_read lm c w tr q now)
  then obtain gs rq bs where "pushed gs rq bs tr" using run_inv [OF serve_run] by (meson conn_inv_def)
  with handler_read read_inv show ?case by blast
next
  case (finish lm c w tr q now connected io c' rw)
  from finish_reply [OF serve_live [OF finish.hyps(1)] finish.hyps(3)] finish.prems
  have "active c" "rw = PopRequest" "rp_requestBodyConsumed (cn_reply c)" by (auto simp: closing_def)
  with finish finish_inv show ?case by (auto simp: active_def)
next
  case (reply_failed lm c w tr q connected c' rw)
  from exception_reply [OF serve_live [OF reply_failed.hyps(1)] reply_failed.hyps(3)] reply_failed.prems show ?case
    by (simp add: closing_def)
qed

section \<open>What the handlers get\<close>

text \<open>
  C3. The exception \<open>request id not matched\<close> of the request stream is never thrown: in every run of the two loops,
  the next entry of the body queue belongs to the request whose handler reads.
\<close>

theorem body_never_mismatched:
  assumes "serve lm c w tr q" "rg_wait q = Handling" "\<not> cn_queuesAborted c" "bodies_read q < length (bodies tr)"
  shows "\<exists>c' data isEnd. request_read (Some (bodies tr ! bodies_read q)) c = (c', ReadResult data isEnd)"
proof (cases "rp_requestBodyConsumed (cn_reply c)")
  case False
  obtain gs rq bs where "pushed gs rq bs tr" using run_inv [OF serve_run [OF assms(1)]] by (meson conn_inv_def)
  from next_body [OF serve_ok [OF assms(1,3)] this assms(2) False assms(4)] False show ?thesis
    by (auto simp: request_read_def)
qed (auto simp: request_read_def)

text \<open>
  C2. In every run of the two loops, as long as the connection is not closing, the handler of the \<open>i\<close>-th request
  has read a beginning of the body entries that were pushed for the \<open>i\<close>-th request, and when the connection has gone
  on to the next request, all of them: bodies of pipelined requests are neither mixed nor left behind.
\<close>

theorem handlers_read_own_bodies:
  assumes "serve lm c w tr q" "\<not> cn_queuesAborted c"
  shows "\<exists>gs rq bs. pushed gs rq bs tr \<and>
    (\<forall>i < popped q. prefix (rg_parts q ! i) (body_groups gs bs ! i) \<and>
       (Suc i < popped q \<or> rg_wait q = PopRequest \<longrightarrow> rg_parts q ! i = body_groups gs bs ! i))"
proof -
  obtain gs rq bs where p: "pushed gs rq bs tr" using run_inv [OF serve_run [OF assms(1)]] by (meson conn_inv_def)
  note i = serve_ok [OF assms]
  have "\<forall>i < popped q. prefix (rg_parts q ! i) (body_groups gs bs ! i) \<and>
       (Suc i < popped q \<or> rg_wait q = PopRequest \<longrightarrow> rg_parts q ! i = body_groups gs bs ! i)"
  proof (cases "rg_parts q" rule: rev_cases)
    case (snoc ps part)
    have k: "length ps < length (requests tr)" using i snoc by (simp add: serve_inv_def)
    obtain rest where b: "bodies tr = concat ps @ part @ rest" using i snoc by (auto simp: serve_inv_def prefix_def)
    have ps: "list_all2 complete (take (length ps) (requests tr)) ps"
      and last: "if rg_wait q = PopRequest \<or> rp_requestBodyConsumed (cn_reply c) then complete (requests tr ! length ps) part
        else re_hasBody (requests tr ! length ps) \<and> (\<forall>b \<in> set part. \<not> be_isEnd b)"
      using i snoc k by (auto simp: serve_inv_def Let_def take_Suc_conv_app_nth list_all2_append split: reply_wait.splits)
    note cp = current_part [OF p k ps b]
    have "prefix part (body_groups gs bs ! length ps) \<and>
      (rg_wait q = PopRequest \<longrightarrow> part = body_groups gs bs ! length ps)"
      using last cp(2,3) by (auto simp: prefix_def split: if_splits)
    moreover have "ps ! i = body_groups gs bs ! i" if "i < length ps" for i
      using that cp(1) by (metis nth_take)
    ultimately show ?thesis unfolding snoc by (auto simp: nth_append less_Suc_eq)
  qed simp
  with p show ?thesis by blast
qed

text \<open>A run in which a request with a body of two bytes is being handled.\<close>

definition posted :: string where
  "posted = ''POST / HTTP/1.1'' @ crlf @ ''Content-Length: 2'' @ crlf @ crlf @ ''ab''"

lemma posted_steps:
  "(case receive_resume plain_limits posted WaitRead started of
      Inr (c, PushBody b) \<Rightarrow> \<not> cn_queuesAborted c \<and>
        (case receive_resume plain_limits [] (PushBody b) c of
           Inr (c', PushRequest r) \<Rightarrow> \<not> cn_queuesAborted c' \<and> re_hasBody r
         | _ \<Rightarrow> False)
    | _ \<Rightarrow> False)"
  by code_simp

lemma push_case:
  "(case x of Inr (c, PushBody b) \<Rightarrow> P c b | _ \<Rightarrow> False) \<Longrightarrow> \<exists>c b. x = Inr (c, PushBody b) \<and> P c b"
  "(case x of Inr (c, PushRequest r) \<Rightarrow> Q c r | _ \<Rightarrow> False) \<Longrightarrow> \<exists>c r. x = Inr (c, PushRequest r) \<and> Q c r"
  for x :: "string + connection \<times> receive_wait"
  by (cases x; (simp split: prod.splits receive_wait.splits)?; force elim: receive_wait.exhaust)+

lemma posted_run:
  obtains c w tr q where "serve plain_limits c w tr q" "rg_wait q = Handling" "\<not> cn_queuesAborted c"
    "bodies_read q < length (bodies tr)" "popped q = 1"
proof -
  from push_case(1) [OF posted_steps] obtain c b where s1: "receive_resume plain_limits posted WaitRead started = Inr (c, PushBody b)"
    "\<not> cn_queuesAborted c" and nx: "case receive_resume plain_limits [] (PushBody b) c of
      Inr (c', PushRequest r) \<Rightarrow> \<not> cn_queuesAborted c' \<and> re_hasBody r | _ \<Rightarrow> False"
    by blast
  from push_case(2) [OF nx] obtain c' r
    where s2: "receive_resume plain_limits [] (PushBody b) c = Inr (c', PushRequest r)" "\<not> cn_queuesAborted c'" by blast
  note s = s1 s2
  have "connection_start new_connection = Some started" "receiveRequestLoop started = (started, WaitRead)"
    by (simp_all add: connection_start_def started_def new_connection_def enter_def receiveRequestLoop_def)
  from serve.receive [OF serve.receive [OF serve.start [OF this] s(1)] s(3)] s(2,4)
  have "serve plain_limits c' (PushRequest r) [Inl b, Inr r] \<lparr>rg_wait = PopRequest, rg_parts = []\<rparr>"
    by (simp add: issued_def)
  moreover have tr: "requests [Inl b, Inr r] = [r]" "bodies [Inl b, Inr r] = [b]"
    by (simp_all add: requests_def bodies_def)
  ultimately have "serve plain_limits (begin_request r c') (PushRequest r) [Inl b, Inr r] \<lparr>rg_wait = Handling, rg_parts = [[]]\<rparr>"
    using serve.pop [of plain_limits c' "PushRequest r" "[Inl b, Inr r]" "\<lparr>rg_wait = PopRequest, rg_parts = []\<rparr>"] s(4) by simp
  then show ?thesis by (rule that) (use s(4) tr in \<open>simp_all add: bodies_read_def begin_request_def\<close>)
qed

lemma body_never_mismatched_witness:
  "\<exists>c w tr q c' data isEnd. serve plain_limits c w tr q \<and> rg_wait q = Handling \<and>
     request_read (Some (bodies tr ! bodies_read q)) c = (c', ReadResult data isEnd)"
  by (rule posted_run) (use body_never_mismatched in blast)

lemma handlers_read_own_bodies_witness:
  "\<exists>c w tr q gs rq bs. serve plain_limits c w tr q \<and> popped q = 1 \<and> pushed gs rq bs tr \<and>
     prefix (rg_parts q ! 0) (body_groups gs bs ! 0)"
  by (rule posted_run) (use handlers_read_own_bodies [of plain_limits] in \<open>metis zero_less_one\<close>)

end
