(* ===== verification/HttpHandlers.thy ===== *)
theory HttpHandlers
  imports Http11Serve
begin

text \<open>
  The handlers of the framework that need nothing but the request and the response: \<open>HttpServerRequest404Handler\<close>,
  \<open>HttpServerRequest500Handler\<close> and \<open>HttpServerRequestRealLastHandler\<close>. A handler is what it does and whether it
  ends with an exception; the identifier of an error (\<open>makeTimeUUID\<close>) is an argument.
\<close>

section \<open>The handlers\<close>

datatype outcome = Returned | Raised

type_synonym handler_run = "handler_action list \<times> outcome"

text \<open>\<open>extensions::reply\<close> on the response of a context: the change of the response and the write.\<close>

definition reply_actions :: "string \<Rightarrow> string \<Rightarrow> string \<Rightarrow> string \<Rightarrow> handler_action list" where
  "reply_actions content mimeType statusCode statusMessage =
     [Change (\<lambda>q r. (q, fst (reply r content mimeType statusCode statusMessage))), Write content]"

definition handle404 :: handler_run where
  "handle404 = (reply_actions ''Not Found'' ''text/plain;charset=utf-8'' ''404'' ''Not Found'', Returned)"

definition error_content :: "string \<Rightarrow> string" where
  "error_content uuid = ''Internal Server Error'' @ [CHR 0x0A] @ ''ID: '' @ uuid"

definition reply500Response :: "string \<Rightarrow> handler_action list" where
  "reply500Response uuid =
     reply_actions (error_content uuid) ''text/plain;charset=utf-8'' ''500'' ''Internal Server Error''"

definition handle500 :: "string \<Rightarrow> handler_run \<Rightarrow> handler_run" where
  "handle500 uuid inner =
     (case inner of
        (acts, Returned) \<Rightarrow> (acts, Returned)
      | (acts, Raised) \<Rightarrow> (acts @ reply500Response uuid, Returned))"

definition handleRealLast :: handler_run where
  "handleRealLast = ([], Raised)"

text \<open>The reply loop around a handler: from the entry of the queue to the next wait.\<close>

definition reply_request ::
  "string \<Rightarrow> bool \<Rightarrow> io_result \<Rightarrow> handler_run \<Rightarrow> request_entry \<Rightarrow> connection \<Rightarrow> connection \<times> reply_wait" where
  "reply_request now connected io h entry c =
     (let c' = handle now (fst h) (begin_request entry c)
      in case snd h of
           Returned \<Rightarrow> finish_request now connected io c'
         | Raised \<Rightarrow> reply_exception connected c')"

section \<open>Properties\<close>

lemma complete_pieces:
  "rs_contentLength (res_headers (complete_version q r)) = rs_contentLength (res_headers r)"
  "rs_contentLength (res_headers (complete_status r)) = rs_contentLength (res_headers r)"
  "rs_contentLength (res_headers (complete_date now r)) = rs_contentLength (res_headers r)"
  "rs_contentLength (res_headers (complete_server r)) = rs_contentLength (res_headers r)"
  "rs_contentLength (res_headers (fst (complete_connection keep r))) = rs_contentLength (res_headers r)"
  by (simp_all add: complete_version_def complete_status_def complete_date_def complete_server_def
      complete_connection_def upd_response_headers_def)

lemma complete_length:
  "rs_contentLength (res_headers (fst (complete_response now q r))) = rs_contentLength (res_headers r)"
  by (simp add: complete_response_def Let_def complete_pieces)

lemma complete_status_kept:
  assumes "res_statusCode r \<noteq> []" "res_statusMessage r \<noteq> []"
  shows "res_statusCode (fst (complete_response now q r)) = res_statusCode r"
    "res_statusMessage (fst (complete_response now q r)) = res_statusMessage r"
proof -
  define x where "x = complete_version q r"
  have "res_statusCode x = res_statusCode r" "res_statusMessage x = res_statusMessage r"
    by (simp_all add: x_def complete_version_def)
  with assms have "complete_status x = x" by (simp add: complete_status_def)
  moreover have "res_statusCode (complete_server (complete_date now x)) = res_statusCode x"
    "res_statusMessage (complete_server (complete_date now x)) = res_statusMessage x"
    by (simp_all add: complete_server_def complete_date_def upd_response_headers_def)
  moreover have "res_statusCode (fst (complete_connection keep y)) = res_statusCode y"
    "res_statusMessage (fst (complete_connection keep y)) = res_statusMessage y" for keep y
    by (simp_all add: complete_connection_def upd_response_headers_def)
  ultimately show "res_statusCode (fst (complete_response now q r)) = res_statusCode r"
    "res_statusMessage (fst (complete_response now q r)) = res_statusMessage r"
    using \<open>res_statusCode x = _\<close> \<open>res_statusMessage x = _\<close> by (simp_all add: complete_response_def Let_def x_def)
qed

lemma handle_active: "active (handle now acts c) = active c"
proof (induction acts arbitrary: c)
  case (Cons a acts)
  have "active (act now a c) = active c"
  proof (cases a)
    case (Write data)
    with write_step [of c now data] show ?thesis by (simp add: output_step_def active_def)
  qed (simp_all add: active_def request_read_def upd_reply_def split: option.split)
  with Cons show ?case by simp
qed simp

lemma replied:
  fixes now content mime code message :: string
  assumes "rp_responseHeadersAppended (cn_reply c)"
  defines "c' \<equiv> handle now (reply_actions content mime code message) c"
  shows "rs_contentLength (res_headers (cn_response c')) = dumpIntToDec (of_nat (length content) :: u64)"
    "rp_responseWrittenBytes (cn_reply c') = rp_responseWrittenBytes (cn_reply c) + of_nat (length content)"
    "rp_responseHeadersAppended (cn_reply c')"
  using assms by (simp_all add: reply_actions_def reply_def write_after_head socket_out_def)

lemma digits_not_empty: "dumpIntToDec (v :: 'a::len word) \<noteq> []"
  by (simp add: dumpIntToDec_def) (subst dec_digits_rev.simps, simp)

lemma kept_length:
  assumes "rp_keepConnection (cn_reply (check_keepalive c))" "rs_contentLength (res_headers (cn_response c)) = dumpIntToDec (v :: u64)"
  shows "rp_responseWrittenBytes (cn_reply c) = v"
  using assms digits_not_empty [of v]
  by (auto simp: check_keepalive_def upd_reply_def checkKeepaliveByContentLength_def Let_def loadIntFromDec_dumpIntToDec
      split: if_splits)

text \<open>A handler that has begun its response and then raises cannot leave the connection open.\<close>

lemma written_head:
  assumes "\<not> rp_responseHeadersAppended (cn_reply c)" "list_ex is_write acts"
  shows "rp_responseHeadersAppended (cn_reply (handle now acts c)) \<and>
    rp_responseWrittenBytes (cn_reply (handle now acts c)) = rp_responseWrittenBytes (cn_reply c) + of_nat (length (written acts))"
proof (cases acts rule: sent_cases)
  case (writes pre data post)
  let ?d = "handle now pre c"
  obtain r keep where "complete_response now (cn_request ?d) (cn_response ?d) = (r, keep)" by fastforce
  with handle_before_head [OF assms(1) writes(2), of now]
  have "rp_responseHeadersAppended (cn_reply (response_write now data ?d))"
    "rp_responseWrittenBytes (cn_reply (response_write now data ?d)) = rp_responseWrittenBytes (cn_reply c) + of_nat (length data)"
    by (simp_all add: write_before_head)
  with handle_after_head [of "response_write now data ?d" now post] handle_before_head [OF assms(1) writes(2), of now] show ?thesis
    by (simp add: writes(1) algebra_simps)
qed (use assms in blast)

text \<open>
  C24. A handler that writes a part of its response and then raises an exception never leaves the connection open:
  the text of the error goes out after that part, and the loop ends with the queues aborted.
\<close>

theorem error_after_write_closes:
  assumes "of_nat (length (written acts)) \<noteq> (0 :: u64)" "active c"
  shows "\<exists>c'. reply_request now connected io (handle500 uuid (acts, Raised)) entry c = (c', ReplyEnd) \<and> closing c'"
proof -
  let ?b = "begin_request entry c"
  let ?c = "handle now acts ?b"
  let ?d = "handle now (reply500Response uuid) ?c"
  have w: "list_ex is_write acts"
  proof (rule ccontr)
    assume "\<not> list_ex is_write acts"
    then have "written acts = []" by (induction acts) (auto split: handler_action.split)
    with assms(1) show False by simp
  qed
  have b: "\<not> rp_responseHeadersAppended (cn_reply ?b)" "rp_responseWrittenBytes (cn_reply ?b) = 0"
    by (simp_all add: begin_request_def empty_reply_data_def)
  note c = written_head [OF b(1) w, of now]
  note d = replied [of ?c now "error_content uuid"]
  have "rs_contentLength (res_headers (cn_response ?d)) = dumpIntToDec (of_nat (length (error_content uuid)) :: u64)"
    "rp_responseWrittenBytes (cn_reply ?d) = of_nat (length (written acts)) + of_nat (length (error_content uuid))"
    "rp_responseHeadersAppended (cn_reply ?d)"
    using c d b(2) by (simp_all add: reply500Response_def)
  then have n: "\<not> rp_keepConnection (cn_reply (check_keepalive (send_head now ?d)))"
    using kept_length [of "send_head now ?d" "of_nat (length (error_content uuid))"] assms(1) by (auto simp: send_head_again)
  have "active ?b" using assms(2) by (simp add: begin_request_def active_def)
  then have "active ?d" by (simp add: handle_active)
  moreover obtain c' rw where f: "finish_request now connected io ?d = (c', rw)" by fastforce
  ultimately have "closing c' \<and> rw = ReplyEnd" using finish_reply [OF _ f] n by blast
  with f show ?thesis by (simp add: reply_request_def handle500_def)
qed

lemma error_after_write_closes_witness:
  "\<exists>c'. reply_request ''now'' True (IoResult True False) (handle500 ''id'' ([Write ''part''], Raised)) hello_entry started =
     (c', ReplyEnd) \<and> closing c'"
  using error_after_write_closes [of "[Write ''part'']" started]
  by (simp add: active_def started_def enter_def new_connection_def)

text \<open>
  C25. A handler that raises an exception before it has written anything is answered by a complete response: the
  head says 500 with the length of the text that follows, and that text is all that follows.
\<close>

theorem error_before_write_replied:
  assumes "\<not> list_ex is_write acts"
  shows "\<exists>r. cn_output (send_head now (handle now (fst (handle500 uuid (acts, Raised))) (begin_request entry c))) =
      cn_output c @ concat (head_fragments r) @ error_content uuid \<and>
    res_statusCode r = ''500'' \<and> res_statusMessage r = ''Internal Server Error'' \<and>
    loadIntFromDec (rs_contentLength (res_headers r)) = Some (of_nat (length (error_content uuid)) :: u64)"
proof -
  let ?acts = "acts @ reply500Response uuid"
  let ?b = "begin_request entry c"
  obtain r keep where s: "sent_response now ?acts ?b = (r, keep)" by fastforce
  have f: "\<not> rp_responseHeadersAppended (cn_reply ?b)" by (simp add: begin_request_def empty_reply_data_def)
  have "written acts = []" using handle_before_head [OF f assms] by blast
  then have w: "written ?acts = error_content uuid" by (simp add: reply500Response_def reply_actions_def)
  have "takeWhile (\<lambda>a. \<not> is_write a) ?acts = acts @ [hd (reply500Response uuid)]"
    using assms by (auto simp: list_ex_iff reply500Response_def reply_actions_def takeWhile_append2)
  then have "res_statusCode r = ''500''" "res_statusMessage r = ''Internal Server Error''"
    "rs_contentLength (res_headers r) = dumpIntToDec (of_nat (length (error_content uuid)) :: u64)"
    using arg_cong [OF s, of fst]
    by (auto simp: sent_response_def Let_def reply500Response_def reply_actions_def reply_def complete_status_kept
        complete_length)
  moreover have "cn_output ?b = cn_output c" by (simp add: begin_request_def)
  ultimately show ?thesis
    using sent_result [OF f s] w by (intro exI [of _ r]) (simp add: handle500_def loadIntFromDec_dumpIntToDec)
qed

lemma error_before_write_replied_witness:
  "\<exists>r. cn_output (send_head ''now'' (handle ''now'' (fst (handle500 ''7'' ([], Raised))) (begin_request hello_entry started))) =
      concat (head_fragments r) @ error_content ''7'' \<and> res_statusCode r = ''500''"
  using error_before_write_replied [of "[]" "''now''" "''7''" hello_entry started]
  by (auto simp: started_def enter_def new_connection_def)

end
