(* ===== verification/StaticFile.thy ===== *)
theory StaticFile
  imports HttpMessage HttpUtils LRUCache "HOL-Library.Sublist"
begin

text \<open>
  \<open>src/HttpServer/Handlers/HttpServerRequestStaticFileHandler.cpp\<close>: files served from a directory, with byte
  ranges, files compressed beforehand, conditional requests and the LRU cache of contents.

  The file system and the streams are seastar's. \<open>files\<close> gives what \<open>file_type\<close>, \<open>open_file_dma\<close> and \<open>stat\<close> say of
  a path, \<open>deliver\<close> how many bytes \<open>read_up_to\<close> returns when so many bytes are left in the stream and so many are
  asked for, and \<open>fmt\<close> is \<open>formatTimeForHttpHeader\<close>; all three are arguments. \<open>path\<close> is the path of the URI of
  the request.
\<close>

section \<open>State\<close>

record file_entry =
  fe_directory :: bool
  fe_content :: string
  fe_mtime :: int

type_synonym files = "string \<Rightarrow> file_entry option"

record cache_entry =
  ce_content :: string
  ce_lastModified :: string
  ce_noCompressedVersion :: bool

record static_data =
  sd_urlBase :: string
  sd_pathBase :: string
  sd_cacheControl :: string
  sd_maxCacheFileSize :: u64
  sd_fileCache :: "(string, cache_entry) lru"

definition with_slash :: "string \<Rightarrow> string" where
  "with_slash base = (if endsWith base ''/'' then base else base @ ''/'')"

definition new_static_data :: "string \<Rightarrow> string \<Rightarrow> string \<Rightarrow> nat \<Rightarrow> u64 \<Rightarrow> static_data" where
  "new_static_data urlBase pathBase cacheControl maxCacheFileEntities maxCacheFileSize =
     \<lparr>sd_urlBase = with_slash urlBase, sd_pathBase = with_slash pathBase, sd_cacheControl = cacheControl,
      sd_maxCacheFileSize = maxCacheFileSize, sd_fileCache = lru_new maxCacheFileEntities\<rparr>"

definition clearCache :: "static_data \<Rightarrow> static_data" where
  "clearCache d = d\<lparr>sd_fileCache := lru_clear (sd_fileCache d)\<rparr>"

text \<open>
  How the handler ends: it calls the next one, it has set up the response and written some texts, it has raised
  an exception after that, or the cache has used an iterator whose node is gone.
\<close>

datatype static_result =
    Next
  | Reply http_response "string list"
  | Fail http_response "string list"
  | Dangling

section \<open>Pieces\<close>

definition upd_headers :: "(response_headers \<Rightarrow> response_headers) \<Rightarrow> http_response \<Rightarrow> http_response" where
  "upd_headers f r = r\<lparr>res_headers := f (res_headers r)\<rparr>"

definition set_cache_control :: "string \<Rightarrow> http_response \<Rightarrow> http_response" where
  "set_cache_control cacheControl r =
     (if cacheControl \<noteq> [] then upd_headers (\<lambda>h. h\<lparr>rs_cacheControl := cacheControl\<rparr>) r else r)"

definition not_modified :: "string \<Rightarrow> string \<Rightarrow> http_response \<Rightarrow> http_response" where
  "not_modified mimeType lastModified r =
     upd_headers (\<lambda>h. h\<lparr>rs_contentType := mimeType, rs_lastModified := lastModified\<rparr>)
       (r\<lparr>res_statusCode := ''304'', res_statusMessage := ''Not Modified''\<rparr>)"

definition set_encoding :: "bool \<Rightarrow> http_response \<Rightarrow> http_response" where
  "set_encoding isCompressed r =
     (if isCompressed then upd_headers (\<lambda>h. h\<lparr>rs_contentEncoding := ''gzip''\<rparr>) r else r)"

definition reply_whole :: "string \<Rightarrow> string \<Rightarrow> string \<Rightarrow> http_response \<Rightarrow> static_result" where
  "reply_whole content lastModified mimeType r =
     (let (r', text) = reply (upd_headers (\<lambda>h. h\<lparr>rs_lastModified := lastModified\<rparr>) r) content mimeType ''200'' ''OK''
      in Reply r' [text])"

text \<open>\<open>FileCacheEntry::reply\<close>\<close>

definition entry_reply :: "cache_entry \<Rightarrow> http_response \<Rightarrow> string \<Rightarrow> string \<Rightarrow> string \<Rightarrow> bool \<Rightarrow> static_result" where
  "entry_reply e r mimeType ifModifiedSinceHeader cacheControl isCompressed =
     (let r1 = upd_headers (\<lambda>h. rs_setHeader h ''X-Cache'' ''HIT'') (set_cache_control cacheControl r)
      in if ifModifiedSinceHeader = ce_lastModified e then
           Reply (not_modified mimeType ifModifiedSinceHeader r1) []
         else reply_whole (ce_content e) (ce_lastModified e) mimeType (set_encoding isCompressed r1))"

text \<open>\<open>parseRangeHeader\<close>\<close>

definition parseRangeHeader :: "string \<Rightarrow> (u64 \<times> u64) option" where
  "parseRangeHeader rangeHeader =
     (if \<not> startsWith rangeHeader ''bytes='' then None
      else
        let rangeStr = drop 6 rangeHeader
        in if CHR '','' \<in> set rangeStr then None
           else case find_first_of rangeStr ''-'' 0 of
             None \<Rightarrow> None
           | Some pos \<Rightarrow>
               (case loadIntFromDec (take pos rangeStr) of
                  None \<Rightarrow> None
                | Some from \<Rightarrow>
                    let lastStr = drop (pos + 1) rangeStr
                    in if lastStr = [] then Some (from, - 1)
                       else map_option (\<lambda>to. (from, to)) (loadIntFromDec lastStr)))"

text \<open>
  The loop that reads and writes the file by chunks: what it writes, and whether it ends without the exception.
  \<open>rest\<close> is what is left in the stream, \<open>remain\<close> is \<open>remainSize_\<close>.
\<close>

function send_chunks :: "(nat \<Rightarrow> nat \<Rightarrow> nat) \<Rightarrow> string \<Rightarrow> u64 \<Rightarrow> string list \<times> bool" where
  "send_chunks deliver rest remain =
     (let buf = take (deliver (length rest) (unat (min remain 4096))) rest
      in if buf = [] then ([], False)
         else
           let remain' = remain - of_nat (length buf)
           in if remain' = 0 then ([buf], True)
              else
                let (texts, ok) = send_chunks deliver (drop (length buf) rest) remain'
                in (buf # texts, ok))"
  by pat_completeness auto
termination
  by (relation "measure (\<lambda>(deliver, rest, remain). length rest)") auto

declare send_chunks.simps [simp del]

definition send_result :: "http_response \<Rightarrow> string list \<times> bool \<Rightarrow> static_result" where
  "send_result r sent = (if snd sent then Reply r (fst sent) else Fail r (fst sent))"

section \<open>\<open>HttpServerRequestStaticFileReplier\<close>\<close>

text \<open>The part of \<open>execute\<close> for a file that was opened, from \<open>stat\<close> on.\<close>

definition reply_file ::
  "(nat \<Rightarrow> nat \<Rightarrow> nat) \<Rightarrow> (int \<Rightarrow> string) \<Rightarrow> static_data \<Rightarrow> string \<Rightarrow> file_entry \<Rightarrow> bool \<Rightarrow> bool \<Rightarrow>
   (u64 \<times> u64) option \<Rightarrow> string \<Rightarrow> string \<Rightarrow> http_response \<Rightarrow> static_data \<times> static_result" where
  "reply_file deliver fmt d path f supportCompress noCompressedVersion rng mimeType ifModifiedSinceHeader r0 =
     (let r = set_cache_control (sd_cacheControl d) r0;
          lastModified = fmt (fe_mtime f)
      in if ifModifiedSinceHeader = lastModified then
           (d, Reply (not_modified mimeType ifModifiedSinceHeader r) [])
         else
           let r1 = set_encoding supportCompress r;
               content = fe_content f;
               fileSize = of_nat (length content) :: u64
           in if fileSize \<le> sd_maxCacheFileSize d \<and> lru_maxSize (sd_fileCache d) > 0 \<and> rng = None then
                (case lru_set (sd_fileCache d) path
                        \<lparr>ce_content = content, ce_lastModified = lastModified,
                         ce_noCompressedVersion = noCompressedVersion\<rparr> of
                   None \<Rightarrow> (d, Dangling)
                 | Some cache \<Rightarrow> (d\<lparr>sd_fileCache := cache\<rparr>, reply_whole content lastModified mimeType r1))
              else
                let finish = (\<lambda>remainSize from r2.
                      send_result
                        (upd_headers (\<lambda>h. h\<lparr>rs_contentType := mimeType, rs_contentLength := dumpIntToDec remainSize\<rparr>) r2)
                        (send_chunks deliver (drop (unat from) content) remainSize))
                in case rng of
                     Some (from, to0) \<Rightarrow>
                       if from < fileSize \<and> from \<le> to0 then
                         let to = min to0 (fileSize - 1)
                         in (d, finish (to - from + 1) from
                               (upd_headers (\<lambda>h. rs_setHeader h ''Content-Range''
                                   (''bytes '' @ dumpIntToDec from @ ''-'' @ dumpIntToDec to @ ''/'' @ dumpIntToDec fileSize))
                                 (r1\<lparr>res_statusCode := ''206'', res_statusMessage := ''Partial Content''\<rparr>)))
                       else
                         (d, finish fileSize 0
                               (upd_headers (\<lambda>h. h\<lparr>rs_lastModified := lastModified\<rparr>)
                                 (r1\<lparr>res_statusCode := ''200'', res_statusMessage := ''OK''\<rparr>)))
                   | None \<Rightarrow>
                       (d, finish fileSize 0
                             (upd_headers (\<lambda>h. h\<lparr>rs_lastModified := lastModified\<rparr>)
                               (r1\<lparr>res_statusCode := ''200'', res_statusMessage := ''OK''\<rparr>))))"

definition regular :: "files \<Rightarrow> string \<Rightarrow> file_entry option" where
  "regular files path = (case files path of None \<Rightarrow> None | Some f \<Rightarrow> if fe_directory f then None else Some f)"

text \<open>\<open>execute\<close>: the compressed file first, if it may be used, then the file itself, then the next handler.\<close>

definition replier_execute ::
  "files \<Rightarrow> (nat \<Rightarrow> nat \<Rightarrow> nat) \<Rightarrow> (int \<Rightarrow> string) \<Rightarrow> static_data \<Rightarrow> string \<Rightarrow> string \<Rightarrow> bool \<Rightarrow>
   (u64 \<times> u64) option \<Rightarrow> string \<Rightarrow> string \<Rightarrow> http_response \<Rightarrow> static_data \<times> static_result" where
  "replier_execute files deliver fmt d filePath compressedPath supportCompress rng mimeType ifModifiedSinceHeader r =
     (let plain = (\<lambda>noCompressedVersion.
            case regular files filePath of
              None \<Rightarrow> (d, Next)
            | Some f \<Rightarrow>
                reply_file deliver fmt d filePath f False noCompressedVersion rng mimeType ifModifiedSinceHeader r)
      in if supportCompress then
           case regular files compressedPath of
             None \<Rightarrow> plain True
           | Some f \<Rightarrow> reply_file deliver fmt d compressedPath f True False rng mimeType ifModifiedSinceHeader r
         else plain False)"

section \<open>\<open>handle\<close>\<close>

text \<open>The lookup of the file itself in the cache; \<open>disk\<close> is what follows a miss.\<close>

definition lookup_plain ::
  "(static_data \<Rightarrow> static_data \<times> static_result) \<Rightarrow> string \<Rightarrow> bool \<Rightarrow> string \<Rightarrow> string \<Rightarrow> http_response \<Rightarrow> static_data \<Rightarrow>
   static_data \<times> static_result" where
  "lookup_plain disk filePath supportCompress mimeType ifModifiedSinceHeader r d =
     (case lru_get (sd_fileCache d) filePath of
        None \<Rightarrow> (d, Dangling)
      | Some (None, cache) \<Rightarrow> disk (d\<lparr>sd_fileCache := cache\<rparr>)
      | Some (Some e, cache) \<Rightarrow>
          if \<not> supportCompress \<or> ce_noCompressedVersion e then
            (d\<lparr>sd_fileCache := cache\<rparr>, entry_reply e r mimeType ifModifiedSinceHeader (sd_cacheControl d) False)
          else disk (d\<lparr>sd_fileCache := cache\<rparr>))"

text \<open>The lookup of the compressed file, then of the file itself.\<close>

definition lookup_cache ::
  "(static_data \<Rightarrow> static_data \<times> static_result) \<Rightarrow> string \<Rightarrow> bool \<Rightarrow> string \<Rightarrow> string \<Rightarrow> http_response \<Rightarrow> static_data \<Rightarrow>
   static_data \<times> static_result" where
  "lookup_cache disk filePath supportCompress mimeType ifModifiedSinceHeader r d =
     (if supportCompress then
        case lru_get (sd_fileCache d) (filePath @ ''.gz'') of
          None \<Rightarrow> (d, Dangling)
        | Some (Some e, cache) \<Rightarrow>
            (d\<lparr>sd_fileCache := cache\<rparr>, entry_reply e r mimeType ifModifiedSinceHeader (sd_cacheControl d) True)
        | Some (None, cache) \<Rightarrow>
            lookup_plain disk filePath supportCompress mimeType ifModifiedSinceHeader r (d\<lparr>sd_fileCache := cache\<rparr>)
      else lookup_plain disk filePath supportCompress mimeType ifModifiedSinceHeader r d)"

definition static_handle ::
  "files \<Rightarrow> (nat \<Rightarrow> nat \<Rightarrow> nat) \<Rightarrow> (int \<Rightarrow> string) \<Rightarrow> static_data \<Rightarrow> string \<Rightarrow> request_headers \<Rightarrow> http_response \<Rightarrow>
   static_data \<times> static_result" where
  "static_handle files deliver fmt d path h r =
     (if \<not> startsWith path (sd_urlBase d) then (d, Next)
      else
        let relPath = drop (length (sd_urlBase d)) path
        in if relPath = [] then (d, Next)
           else if \<not> isSafePath relPath then (d, Next)
           else
             let filePath = sd_pathBase d @ relPath;
                 compressedPath = filePath @ ''.gz'';
                 supportCompress = sublist ''gzip'' (rq_acceptEncoding h);
                 rangeHeader = rq_getHeader h ''Range'';
                 ifModifiedSinceHeader = rq_getHeader h ''If-Modified-Since'';
                 mimeType = getMimeType relPath;
                 disk = (\<lambda>d. replier_execute files deliver fmt d filePath compressedPath
                   (supportCompress \<and> rangeHeader = []) (parseRangeHeader rangeHeader) mimeType ifModifiedSinceHeader r)
             in if lru_maxSize (sd_fileCache d) > 0 \<and> rangeHeader = [] then
                  lookup_cache disk filePath supportCompress mimeType ifModifiedSinceHeader r d
                else disk d)"

section \<open>Chunks\<close>




lemma send_chunks_empty: "send_chunks deliver [] remain = ([], False)"
  by (subst send_chunks.simps) simp

section \<open>Paths\<close>

text \<open>A path that has a component \<open>..\<close>.\<close>

definition climbs :: "string \<Rightarrow> bool" where
  "climbs p \<longleftrightarrow> (\<exists>a b. p = a @ ''..'' @ b \<and> (a = [] \<or> last a = CHR ''/'') \<and> (b = [] \<or> hd b = CHR ''/''))"

lemma safe_no_dots:
  assumes "isSafePath p" "Suc i < length p" "p ! i = CHR ''.''"
  shows "p ! Suc i \<noteq> CHR ''.''"
  using assms by (force simp: isSafePath_def isSafePath_loop_iff)

lemma safe_stays:
  assumes "isSafePath p"
  shows "\<not> climbs p" "\<not> climbs (p @ ''.gz'')"
proof -
  have dots: "q ! length a = CHR ''.''" "q ! Suc (length a) = CHR ''.''" "Suc (length a) < length q"
    if "q = a @ ''..'' @ b" for q a b :: string
    using that by (simp_all add: nth_append)
  show "\<not> climbs p"
  proof
    assume "climbs p"
    then obtain a b where "p = a @ ''..'' @ b" by (auto simp: climbs_def)
    with dots [OF this] safe_no_dots [OF assms] show False by blast
  qed
  show "\<not> climbs (p @ ''.gz'')"
  proof
    assume "climbs (p @ ''.gz'')"
    then obtain a b where q: "p @ ''.gz'' = a @ ''..'' @ b" "b = [] \<or> hd b = CHR ''/''" by (auto simp: climbs_def)
    let ?i = "length a"
    note d = dots [OF q(1)]
    consider "Suc ?i < length p" | "Suc ?i = length p" | "?i = length p" | "?i = Suc (length p)" | "?i > Suc (length p)"
      by linarith
    then show False
    proof cases
      case 1
      with d safe_no_dots [OF assms 1] show False by (simp add: nth_append)
    next
      case 2
      then have "drop (Suc (Suc ?i)) (p @ ''.gz'') = ''gz''" by simp
      then have "b = ''gz''" unfolding q(1) by simp
      with q(2) show False by simp
    next
      case 3
      with d(2) show False by (simp add: nth_append)
    next
      case 4
      with d(1) show False by (simp add: nth_append)
    next
      case 5
      with d(3) show False by simp
    qed
  qed
qed

text \<open>
  C35. The handler looks at no file outside of its directory: what it does depends on the file system only at
  paths which are the directory followed by a path without a component \<open>..\<close>, whatever the URL was. A path that is
  not the URL base followed by something, or where what follows has a component \<open>..\<close>, is left to the next handler
  whatever files there are, and the handler's data does not change.
\<close>

theorem static_stays_below_base:
  assumes "\<And>p. \<not> climbs p \<Longrightarrow> files (sd_pathBase d @ p) = files' (sd_pathBase d @ p)"
  shows "static_handle files deliver fmt d path h r =
    (if \<exists>p. path = sd_urlBase d @ p \<and> p \<noteq> [] \<and> \<not> climbs p then static_handle files' deliver fmt d path h r
     else (d, Next))"
proof (cases "startsWith path (sd_urlBase d) \<and> drop (length (sd_urlBase d)) path \<noteq> [] \<and>
    isSafePath (drop (length (sd_urlBase d)) path)")
  case True
  let ?rel = "drop (length (sd_urlBase d)) path"
  let ?f = "sd_pathBase d @ ?rel"
  have stays: "\<not> climbs ?rel" "\<not> climbs (?rel @ ''.gz'')" using safe_stays True by blast+
  have "files ?f = files' ?f" "files (?f @ ''.gz'') = files' (?f @ ''.gz'')"
    using assms stays by (simp_all only: append_assoc)
  then have "regular files ?f = regular files' ?f" "regular files (?f @ ''.gz'') = regular files' (?f @ ''.gz'')"
    by (simp_all only: regular_def)
  then have "replier_execute files deliver fmt e ?f (?f @ ''.gz'') sc rng mime ims r =
      replier_execute files' deliver fmt e ?f (?f @ ''.gz'') sc rng mime ims r" for e sc rng mime ims
    by (simp only: replier_execute_def)
  then have "static_handle files deliver fmt d path h r = static_handle files' deliver fmt d path h r"
    by (simp only: static_handle_def Let_def)
  moreover have "path = sd_urlBase d @ ?rel" using True by (metis startsWith_def append_take_drop_id)
  ultimately show ?thesis using True stays(1) by metis
next
  case False
  then have "static_handle files deliver fmt d path h r = (d, Next)" "static_handle files' deliver fmt d path h r = (d, Next)"
    by (auto simp: static_handle_def Let_def)
  then show ?thesis by simp
qed

lemma static_stays_below_base_witness:
  "(let d = new_static_data ''/static'' ''www'' [] 0 0; secret = sd_pathBase d @ ''../secret'';
        files = (\<lambda>p. if p = secret then Some \<lparr>fe_directory = False, fe_content = ''key'', fe_mtime = 0\<rparr> else None)
    in files secret \<noteq> None \<and>
       static_handle files (\<lambda>left n. n) (\<lambda>t. ''now'') d ''/static/../secret'' empty_request_headers new_response = (d, Next))"
proof -
  let ?d = "new_static_data ''/static'' ''www'' [] 0 0"
  let ?files = "\<lambda>p. if p = sd_pathBase ?d @ ''../secret'' then
      Some \<lparr>fe_directory = False, fe_content = ''key'', fe_mtime = 0\<rparr> else None"
  have up: "climbs ''../secret''" unfolding climbs_def by (intro exI [of _ "[]"] exI [of _ "''/secret''"]) simp
  have path: "p = ''../secret''" if "''/static/../secret'' = sd_urlBase ?d @ p" for p
    using that by (simp add: new_static_data_def with_slash_def endsWith_def)
  have "?files (sd_pathBase ?d @ p) = None" if "\<not> climbs p" for p using that up by auto
  then have "static_handle ?files (\<lambda>left n. n) (\<lambda>t. ''now'') ?d ''/static/../secret'' empty_request_headers new_response = (?d, Next)"
    using static_stays_below_base [where files = ?files and files' = "\<lambda>p. None" and d = ?d and deliver = "\<lambda>left n. n"
        and fmt = "\<lambda>t. ''now''" and path = "''/static/../secret''" and h = empty_request_headers and r = new_response]
      path up by metis
  then show ?thesis by (simp add: Let_def)
qed

section \<open>Contents\<close>





lemma content_range_other [simp]: "rs_contentLength (rs_setHeader h ''Content-Range'' v) = rs_contentLength h"
  by (simp add: rs_setHeader_def set_header_def ResponseFixedMembers_def)




section \<open>The cache\<close>

text \<open>
  What the entries of the cache say is true of the files: they hold the content and the time of the regular file at
  their path, which is small enough, and an entry is marked only if its file has no compressed version.
\<close>

definition entry_ok :: "files \<Rightarrow> (int \<Rightarrow> string) \<Rightarrow> u64 \<Rightarrow> string \<Rightarrow> cache_entry \<Rightarrow> bool" where
  "entry_ok files fmt limit p e \<longleftrightarrow>
     (\<exists>f. regular files p = Some f \<and> ce_content e = fe_content f \<and> ce_lastModified e = fmt (fe_mtime f) \<and>
        of_nat (length (fe_content f)) \<le> limit) \<and>
     (ce_noCompressedVersion e \<longrightarrow> regular files (p @ ''.gz'') = None)"

definition cache_ok :: "files \<Rightarrow> (int \<Rightarrow> string) \<Rightarrow> static_data \<Rightarrow> bool" where
  "cache_ok files fmt d \<longleftrightarrow> lru_inv (sd_fileCache d) \<and>
     (\<forall>(p, e) \<in> set (lru_abs (sd_fileCache d)). entry_ok files fmt (sd_maxCacheFileSize d) p e)"

lemma set_remove_key: "set (remove_key k l) \<subseteq> set l"
  by (auto simp: remove_key_def)

lemma cache_get:
  assumes "cache_ok files fmt d"
  obtains c where "lru_get (sd_fileCache d) p = Some (map_of (lru_abs (sd_fileCache d)) p, c)"
    "cache_ok files fmt (d\<lparr>sd_fileCache := c\<rparr>)" "lru_maxSize c = lru_maxSize (sd_fileCache d)"
    "\<And>e. map_of (lru_abs (sd_fileCache d)) p = Some e \<Longrightarrow> entry_ok files fmt (sd_maxCacheFileSize d) p e"
    "\<And>q. map_of (lru_abs c) q = map_of (lru_abs (sd_fileCache d)) q"
proof -
  let ?a = "lru_abs (sd_fileCache d)"
  obtain c where c: "lru_get (sd_fileCache d) p = Some (map_of ?a p, c)" "lru_inv c"
    "lru_maxSize c = lru_maxSize (sd_fileCache d)"
    "lru_abs c = (case map_of ?a p of None \<Rightarrow> ?a | Some v \<Rightarrow> (p, v) # remove_key p ?a)"
    using lru.fetch_ok [of "sd_fileCache d" p] assms by (auto simp: cache_ok_def)
  have e: "entry_ok files fmt (sd_maxCacheFileSize d) p e" if "map_of ?a p = Some e" for e
    using assms map_of_SomeD [OF that] by (auto simp: cache_ok_def)
  have "set (lru_abs c) \<subseteq> set ?a"
    using c(4) set_remove_key [of p ?a] by (auto split: option.splits dest: map_of_SomeD)
  then have "cache_ok files fmt (d\<lparr>sd_fileCache := c\<rparr>)" using assms c(2) by (auto simp: cache_ok_def)
  moreover have "map_of (remove_key p l) q = (if q = p then None else map_of l q)" for l :: "(string \<times> cache_entry) list" and q
    by (induction l) (auto simp: remove_key_def)
  then have "map_of (lru_abs c) q = map_of ?a q" for q using c(4) by (auto split: option.splits)
  ultimately show ?thesis using that c e by blast
qed

lemma cache_put:
  assumes "cache_ok files fmt d" "entry_ok files fmt (sd_maxCacheFileSize d) p e"
  obtains c where "lru_set (sd_fileCache d) p e = Some c" "cache_ok files fmt (d\<lparr>sd_fileCache := c\<rparr>)"
    "lru_maxSize c = lru_maxSize (sd_fileCache d)"
proof -
  let ?a = "lru_abs (sd_fileCache d)"
  obtain c where c: "lru_set (sd_fileCache d) p e = Some c" "lru_inv c" "lru_maxSize c = lru_maxSize (sd_fileCache d)"
    "lru_abs c = take (lru_maxSize (sd_fileCache d)) ((p, e) # remove_key p ?a)"
    using lru.put_ok [of "sd_fileCache d" p e] assms by (auto simp: cache_ok_def)
  have "set (lru_abs c) \<subseteq> insert (p, e) (set ?a)"
    using c(4) set_take_subset set_remove_key [of p ?a] by fastforce
  with assms c that show ?thesis by (auto simp: cache_ok_def)
qed

text \<open>What stays the same in the data of the handler.\<close>

definition same_config :: "static_data \<Rightarrow> static_data \<Rightarrow> bool" where
  "same_config d d' \<longleftrightarrow> sd_urlBase d' = sd_urlBase d \<and> sd_pathBase d' = sd_pathBase d \<and>
     sd_cacheControl d' = sd_cacheControl d \<and> sd_maxCacheFileSize d' = sd_maxCacheFileSize d \<and>
     lru_maxSize (sd_fileCache d') = lru_maxSize (sd_fileCache d)"

lemma reply_file_cache:
  assumes "cache_ok files fmt d" "regular files p = Some f" "nc \<longrightarrow> regular files (p @ ''.gz'') = None"
  shows "cache_ok files fmt (fst (reply_file deliver fmt d p f sc nc rng mime ims r)) \<and>
    same_config d (fst (reply_file deliver fmt d p f sc nc rng mime ims r))"
proof (cases "(of_nat (length (fe_content f)) :: u64) \<le> sd_maxCacheFileSize d")
  case True
  let ?e = "\<lparr>ce_content = fe_content f, ce_lastModified = fmt (fe_mtime f), ce_noCompressedVersion = nc\<rparr>"
  have "entry_ok files fmt (sd_maxCacheFileSize d) p ?e" using assms(2,3) True by (simp add: entry_ok_def)
  with assms(1) obtain c where "lru_set (sd_fileCache d) p ?e = Some c" "cache_ok files fmt (d\<lparr>sd_fileCache := c\<rparr>)"
    "lru_maxSize c = lru_maxSize (sd_fileCache d)" by (rule cache_put)
  with assms(1) show ?thesis
    by (simp add: reply_file_def Let_def same_config_def split: option.split)
qed (use assms(1) in \<open>simp add: reply_file_def Let_def same_config_def split: option.split\<close>)

lemma execute_cache:
  assumes "cache_ok files fmt d"
  shows "cache_ok files fmt (fst (replier_execute files deliver fmt d p (p @ ''.gz'') sc rng mime ims r)) \<and>
    same_config d (fst (replier_execute files deliver fmt d p (p @ ''.gz'') sc rng mime ims r))"
proof -
  have n: "same_config d d" by (simp add: same_config_def)
  show ?thesis
    using reply_file_cache [OF assms] assms n
    by (auto simp: replier_execute_def Let_def split: option.split)
qed

text \<open>The result of reading from the disk does not depend on what is in the cache.\<close>

lemma reply_file_config:
  assumes "lru_inv (sd_fileCache d)" "lru_inv (sd_fileCache d')" "same_config d d'"
  shows "snd (reply_file deliver fmt d' p f sc nc rng mime ims r) = snd (reply_file deliver fmt d p f sc nc rng mime ims r)"
proof -
  obtain c c' where "lru_set (sd_fileCache d) p e = Some (c e)" "lru_set (sd_fileCache d') p e = Some (c' e)" for e
    using lru.put_ok [OF assms(1)] lru.put_ok [OF assms(2)] by metis
  with assms(3) show ?thesis
    by (simp add: reply_file_def Let_def same_config_def split: option.split prod.split)
qed

lemma execute_config:
  assumes "lru_inv (sd_fileCache d)" "lru_inv (sd_fileCache d')" "same_config d d'"
  shows "snd (replier_execute files deliver fmt d' p q sc rng mime ims r) =
    snd (replier_execute files deliver fmt d p q sc rng mime ims r)"
  using reply_file_config [OF assms] by (simp add: replier_execute_def Let_def split: option.split)

text \<open>The header that tells a hit from a miss, taken out of a result.\<close>

definition strip :: "static_result \<Rightarrow> static_result" where
  "strip res =
     (case res of
        Reply r texts \<Rightarrow> Reply (upd_headers (\<lambda>h. rs_removeHeader h ''X-Cache'') r) texts
      | Fail r texts \<Rightarrow> Fail (upd_headers (\<lambda>h. rs_removeHeader h ''X-Cache'') r) texts
      | _ \<Rightarrow> res)"

lemma al_erase_sm_set: "al_erase (sm_set m k v) k = al_erase m k"
  by (induction m k v rule: sm_set.induct) (auto simp: al_erase_def)

lemma x_cache_headers:
  "rs_setHeader h ''X-Cache'' v = h\<lparr>rs_remainHeaders := sm_set (rs_remainHeaders h) ''X-Cache'' v\<rparr>"
  "rs_removeHeader h ''X-Cache'' = h\<lparr>rs_remainHeaders := al_erase (rs_remainHeaders h) ''X-Cache''\<rparr>"
  by (simp_all add: rs_setHeader_def rs_removeHeader_def set_header_def remove_header_def ResponseFixedMembers_def)

lemma hit_same:
  assumes "entry_ok files fmt (sd_maxCacheFileSize d) p e" "regular files p = Some f" "lru_inv (sd_fileCache d)"
    "0 < lru_maxSize (sd_fileCache d)"
  shows "strip (entry_reply e r mime ims (sd_cacheControl d) sc) =
    strip (snd (reply_file deliver fmt d p f sc nc None mime ims r))"
proof -
  obtain c where "lru_set (sd_fileCache d) p \<lparr>ce_content = fe_content f, ce_lastModified = fmt (fe_mtime f),
      ce_noCompressedVersion = nc\<rparr> = Some c"
    using lru.put_ok [OF assms(3)] by blast
  with assms(1,2,4) show ?thesis
    by (simp add: entry_ok_def entry_reply_def reply_file_def Let_def strip_def reply_whole_def reply_def not_modified_def
        upd_headers_def x_cache_headers al_erase_sm_set set_cache_control_def set_encoding_def)
qed

text \<open>The handler without its cache: every request is answered from the disk.\<close>

definition disk_reply ::
  "files \<Rightarrow> (nat \<Rightarrow> nat \<Rightarrow> nat) \<Rightarrow> (int \<Rightarrow> string) \<Rightarrow> static_data \<Rightarrow> string \<Rightarrow> request_headers \<Rightarrow> http_response \<Rightarrow> static_result" where
  "disk_reply files deliver fmt d path h r =
     (let relPath = drop (length (sd_urlBase d)) path; filePath = sd_pathBase d @ relPath
      in if startsWith path (sd_urlBase d) \<and> relPath \<noteq> [] \<and> isSafePath relPath then
           snd (replier_execute files deliver fmt d filePath (filePath @ ''.gz'')
             (sublist ''gzip'' (rq_acceptEncoding h) \<and> rq_getHeader h ''Range'' = []) (parseRangeHeader (rq_getHeader h ''Range''))
             (getMimeType relPath) (rq_getHeader h ''If-Modified-Since'') r)
         else Next)"

lemma disk_reply_config:
  assumes "lru_inv (sd_fileCache d)" "lru_inv (sd_fileCache d')" "same_config d d'"
  shows "disk_reply files deliver fmt d' path h r = disk_reply files deliver fmt d path h r"
  using execute_config [OF assms] assms(3) by (simp add: disk_reply_def Let_def same_config_def)

lemma no_range: "parseRangeHeader [] = None"
  by (simp add: parseRangeHeader_def startsWith_def)

text \<open>A lookup that misses hands over data with the same configuration and contents.\<close>

lemma after_get:
  assumes "cache_ok files fmt d"
  obtains c where "lru_get (sd_fileCache d) p = Some (map_of (lru_abs (sd_fileCache d)) p, c)"
    "cache_ok files fmt (d\<lparr>sd_fileCache := c\<rparr>)" "same_config d (d\<lparr>sd_fileCache := c\<rparr>)"
    "\<And>e. map_of (lru_abs (sd_fileCache d)) p = Some e \<Longrightarrow> entry_ok files fmt (sd_maxCacheFileSize d) p e"
  using assms by (rule cache_get [where p = p]) (auto simp: same_config_def intro: that)

lemma same_config_trans: "same_config d d' \<Longrightarrow> same_config d' d'' \<Longrightarrow> same_config d d''"
  by (simp add: same_config_def)

text \<open>A result that is the one from the disk, up to the header of the cache, and keeps the cache right.\<close>

definition like_disk :: "files \<Rightarrow> (int \<Rightarrow> string) \<Rightarrow> static_data \<Rightarrow> static_result \<Rightarrow> static_data \<times> static_result \<Rightarrow> bool" where
  "like_disk files fmt d res x \<longleftrightarrow> strip (snd x) = strip res \<and> cache_ok files fmt (fst x) \<and> same_config d (fst x)"

lemma like_disk_execute:
  assumes "cache_ok files fmt d" "cache_ok files fmt d'" "same_config d d'"
  shows "like_disk files fmt d (snd (replier_execute files deliver fmt d p (p @ ''.gz'') sc rng mime ims r))
    (replier_execute files deliver fmt d' p (p @ ''.gz'') sc rng mime ims r)"
  using execute_config [OF _ _ assms(3)] execute_cache [OF assms(2)] same_config_trans [OF assms(3)] assms(1,2)
  unfolding like_disk_def cache_ok_def by metis

lemma plain_lookup:
  assumes c: "cache_ok files fmt d" and n: "0 < lru_maxSize (sd_fileCache d)"
  shows "like_disk files fmt d (snd (replier_execute files deliver fmt d p (p @ ''.gz'') sc None mime ims r))
    (lookup_plain (\<lambda>d. replier_execute files deliver fmt d p (p @ ''.gz'') sc None mime ims r) p sc mime ims r d)"
proof -
  obtain c' where c': "lru_get (sd_fileCache d) p = Some (map_of (lru_abs (sd_fileCache d)) p, c')"
    "cache_ok files fmt (d\<lparr>sd_fileCache := c'\<rparr>)" "same_config d (d\<lparr>sd_fileCache := c'\<rparr>)"
    and e: "\<And>e. map_of (lru_abs (sd_fileCache d)) p = Some e \<Longrightarrow> entry_ok files fmt (sd_maxCacheFileSize d) p e"
    using c by (rule after_get [where p = p]) blast
  note disk = like_disk_execute [OF c c'(2,3)]
  show ?thesis
  proof (cases "\<exists>x. map_of (lru_abs (sd_fileCache d)) p = Some x \<and> (\<not> sc \<or> ce_noCompressedVersion x)")
    case True
    then obtain x where x: "map_of (lru_abs (sd_fileCache d)) p = Some x" "\<not> sc \<or> ce_noCompressedVersion x" by blast
    obtain f where f: "regular files p = Some f" using e [OF x(1)] by (auto simp: entry_ok_def)
    have "replier_execute files deliver fmt d p (p @ ''.gz'') sc None mime ims r =
        reply_file deliver fmt d p f False sc None mime ims r"
      using x(2) e [OF x(1)] f by (auto simp: replier_execute_def Let_def entry_ok_def)
    with x c' hit_same [OF e [OF x(1)] f _ n] c show ?thesis
      by (simp add: lookup_plain_def like_disk_def cache_ok_def)
  next
    case False
    with c'(1) disk show ?thesis by (auto simp: lookup_plain_def split: option.split)
  qed
qed

lemma cache_lookup:
  assumes c: "cache_ok files fmt d" and n: "0 < lru_maxSize (sd_fileCache d)"
  shows "like_disk files fmt d (snd (replier_execute files deliver fmt d p (p @ ''.gz'') sc None mime ims r))
    (lookup_cache (\<lambda>d. replier_execute files deliver fmt d p (p @ ''.gz'') sc None mime ims r) p sc mime ims r d)"
proof (cases sc)
  case False
  with plain_lookup [OF assms] show ?thesis by (simp add: lookup_cache_def)
next
  case True
  let ?q = "p @ ''.gz''"
  obtain c' where c': "lru_get (sd_fileCache d) ?q = Some (map_of (lru_abs (sd_fileCache d)) ?q, c')"
    "cache_ok files fmt (d\<lparr>sd_fileCache := c'\<rparr>)" "same_config d (d\<lparr>sd_fileCache := c'\<rparr>)"
    and e: "\<And>e. map_of (lru_abs (sd_fileCache d)) ?q = Some e \<Longrightarrow> entry_ok files fmt (sd_maxCacheFileSize d) ?q e"
    using c by (rule after_get [where p = ?q]) blast
  show ?thesis
  proof (cases "map_of (lru_abs (sd_fileCache d)) ?q")
    case (Some x)
    obtain f where f: "regular files ?q = Some f" using e [OF Some] by (auto simp: entry_ok_def)
    have "replier_execute files deliver fmt d p ?q sc None mime ims r =
        reply_file deliver fmt d ?q f True False None mime ims r"
      using True f by (simp add: replier_execute_def Let_def)
    with Some True c' hit_same [OF e [OF Some] f _ n] c show ?thesis
      by (simp add: lookup_cache_def like_disk_def cache_ok_def)
  next
    case None
    have n': "0 < lru_maxSize (sd_fileCache (d\<lparr>sd_fileCache := c'\<rparr>))" using n c'(3) by (simp add: same_config_def)
    have inv: "lru_inv (sd_fileCache d)" "lru_inv (sd_fileCache (d\<lparr>sd_fileCache := c'\<rparr>))"
      using c c'(2) by (simp_all add: cache_ok_def)
    from plain_lookup [OF c'(2) n', of deliver p sc mime ims r] None True c'(1) execute_config [OF inv c'(3)]
      same_config_trans [OF c'(3)]
    show ?thesis by (simp add: lookup_cache_def like_disk_def)
  qed
qed

lemma handle_disk:
  assumes c: "cache_ok files fmt d"
  shows "like_disk files fmt d (disk_reply files deliver fmt d path h r) (static_handle files deliver fmt d path h r)"
proof -
  let ?rel = "drop (length (sd_urlBase d)) path" and ?rh = "rq_getHeader h ''Range''"
  have refl: "same_config d d" by (simp add: same_config_def)
  consider "\<not> (startsWith path (sd_urlBase d) \<and> ?rel \<noteq> [] \<and> isSafePath ?rel)"
    | "startsWith path (sd_urlBase d)" "?rel \<noteq> []" "isSafePath ?rel" "lru_maxSize (sd_fileCache d) > 0" "?rh = []"
    | "startsWith path (sd_urlBase d)" "?rel \<noteq> []" "isSafePath ?rel" "\<not> (lru_maxSize (sd_fileCache d) > 0 \<and> ?rh = [])"
    by metis
  then show ?thesis
  proof cases
    case 1
    with c refl show ?thesis by (auto simp: like_disk_def static_handle_def disk_reply_def Let_def)
  next
    case 2
    with cache_lookup [OF c, where p = "sd_pathBase d @ ?rel"] show ?thesis by (simp add: static_handle_def disk_reply_def Let_def no_range)
  next
    case 3
    with like_disk_execute [OF c c refl, where p = "sd_pathBase d @ ?rel"] show ?thesis by (auto simp: static_handle_def disk_reply_def Let_def)
  qed
qed


section \<open>What the handler promises\<close>

text \<open>The results of a sequence of requests: path, headers and the response to fill in.\<close>

fun static_run ::
  "files \<Rightarrow> (nat \<Rightarrow> nat \<Rightarrow> nat) \<Rightarrow> (int \<Rightarrow> string) \<Rightarrow> static_data \<Rightarrow> (string \<times> request_headers \<times> http_response) list \<Rightarrow>
   static_result list" where
  "static_run files deliver fmt d [] = []"
| "static_run files deliver fmt d ((path, h, r) # requests) =
     (let (d', res) = static_handle files deliver fmt d path h r
      in res # static_run files deliver fmt d' requests)"

lemma new_cache_ok: "cache_ok files fmt (new_static_data u p cc n m)"
  by (simp add: cache_ok_def new_static_data_def lru_new_def lru_inv_def lru_abs_def)

lemma run_like_disk:
  assumes "cache_ok files fmt d" "cache_ok files fmt d'" "same_config d d'"
  shows "map strip (static_run files deliver fmt d' requests) =
    map (\<lambda>(path, h, r). strip (disk_reply files deliver fmt d path h r)) requests"
  using assms(2,3)
proof (induction requests arbitrary: d')
  case (Cons q requests)
  obtain path h r where q: "q = (path, h, r)" by (cases q) auto
  obtain d2 res where s: "static_handle files deliver fmt d' path h r = (d2, res)" by fastforce
  with handle_disk [OF Cons.prems(1), of deliver path h r]
  have "strip res = strip (disk_reply files deliver fmt d' path h r)" "cache_ok files fmt d2" "same_config d' d2"
    by (simp_all add: like_disk_def)
  with Cons disk_reply_config [OF _ _ Cons.prems(2)] same_config_trans [OF Cons.prems(2)] assms(1) show ?case
    by (simp add: q s cache_ok_def)
qed simp

text \<open>
  C36. The cache cannot be seen: on files that do not change, every sequence of requests is answered as a handler
  without a cache would answer them one by one, except for the header \<open>X-Cache\<close>; and the cache never uses an
  iterator whose node is gone.
\<close>

theorem static_cache_transparent:
  defines "d \<equiv> \<lambda>u p cc n m. new_static_data u p cc n m"
  shows "map strip (static_run files deliver fmt (d u p cc n m) requests) =
    map (\<lambda>(path, h, r). strip (disk_reply files deliver fmt (d u p cc n m) path h r)) requests"
  unfolding d_def by (rule run_like_disk [OF new_cache_ok new_cache_ok]) (simp add: same_config_def)






text \<open>A suffix range, \<open>bytes=-2\<close>, is taken for the range from the first byte on.\<close>

lemma suffix_range_misread: "parseRangeHeader ''bytes=-2'' = Some (0, 2)"
  by code_simp

text \<open>An empty file that is not read through the cache ends in an exception.\<close>

lemma empty_file_fails:
  assumes "fe_content f = []" "ims \<noteq> fmt (fe_mtime f)" "lru_maxSize (sd_fileCache d) = 0"
  shows "\<exists>r'. snd (reply_file deliver fmt d p f sc nc rng mime ims r) = Fail r' []"
  using assms by (auto simp: reply_file_def Let_def send_result_def send_chunks_empty split: option.split)

end
