(* ===== verification/SajsonText.thy ===== *)
theory SajsonText
  imports Prelude "HOL-Library.Sublist"
begin

text \<open>
  The JSON parser \<open>sajson\<close>, first part: the types and words of its syntax tree, its errors, and the functions of
  class \<open>parser\<close> that read the text, from \<open>src/Serialize/JsonDeserializer.sajson.cpp\<close> and
  \<open>include/CPVFramework/Serialize/JsonDeserializer.sajson.hpp\<close>.

  A pointer into the text is an index; \<open>length text\<close> is \<open>input_end\<close>. The functions that only read take the text from
  the pointer on. Strings are decoded in place, so \<open>parse_string\<close> returns the text it has changed. A read or a write
  outside the text is \<open>Fault\<close>, a return through \<open>make_error\<close> is \<open>Err\<close>.

  A \<open>double\<close> is its 64 bits. The operations of the floating point unit are an argument of the definitions that
  use them, a \<open>float_ops\<close>: the conversion of an \<open>int\<close>, addition, multiplication, negation, the comparison with zero,
  the value of a literal \<open>1eN\<close>, infinity. Nothing below depends on how they round.
\<close>

section \<open>Types and words of the syntax tree\<close>

datatype json_type =
    TYPE_INTEGER
  | TYPE_DOUBLE
  | TYPE_NULL
  | TYPE_FALSE
  | TYPE_TRUE
  | TYPE_STRING
  | TYPE_ARRAY
  | TYPE_OBJECT
  | TYPE_NOKEY

definition type_code :: "json_type \<Rightarrow> u64" where
  "type_code t =
     (case t of TYPE_INTEGER \<Rightarrow> 0 | TYPE_DOUBLE \<Rightarrow> 1 | TYPE_NULL \<Rightarrow> 2 | TYPE_FALSE \<Rightarrow> 3 | TYPE_TRUE \<Rightarrow> 4
      | TYPE_STRING \<Rightarrow> 5 | TYPE_ARRAY \<Rightarrow> 6 | TYPE_OBJECT \<Rightarrow> 7 | TYPE_NOKEY \<Rightarrow> 255)"

definition get_element_type :: "u64 \<Rightarrow> json_type" where
  "get_element_type s =
     [TYPE_INTEGER, TYPE_DOUBLE, TYPE_NULL, TYPE_FALSE, TYPE_TRUE, TYPE_STRING, TYPE_ARRAY, TYPE_OBJECT]
       ! unat (s AND 7)"

definition get_element_value :: "u64 \<Rightarrow> u64" where
  "get_element_value s = drop_bit 3 s"

definition make_element :: "json_type \<Rightarrow> u64 \<Rightarrow> u64" where
  "make_element t v = type_code t OR push_bit 3 v"

definition ROOT_MARKER :: u64 where
  "ROOT_MARKER = drop_bit 3 (- 1)"

definition parse_flags :: "u8 list" where
  "parse_flags =
    [0, 0, 0, 0, 0, 0, 0, 0, 0, 2, 2, 0, 0, 2, 0, 0,
     0, 0, 0, 0, 0, 0, 0, 0, 0, 0, 0, 0, 0, 0, 0, 0,
     3, 1, 0, 1, 1, 1, 1, 1, 1, 1, 1, 1, 1, 1, 0x11, 1,
     0x11, 0x11, 0x11, 0x11, 0x11, 0x11, 0x11, 0x11, 0x11, 0x11, 1, 1, 1, 1, 1, 1,
     1, 1, 1, 1, 1, 0x11, 1, 1, 1, 1, 1, 1, 1, 1, 1, 1,
     1, 1, 1, 1, 1, 1, 1, 1, 1, 1, 1, 1, 0, 1, 1, 1,
     1, 1, 1, 1, 1, 0x11, 1, 1, 1, 1, 1, 1, 1, 1, 1, 1,
     1, 1, 1, 1, 1, 1, 1, 1, 1, 1, 1, 1, 1, 1, 1, 1] @ replicate 128 0"

definition is_plain_string_character :: "char \<Rightarrow> bool" where
  "is_plain_string_character c \<longleftrightarrow> parse_flags ! byte c AND 1 \<noteq> 0"

definition is_whitespace :: "char \<Rightarrow> bool" where
  "is_whitespace c \<longleftrightarrow> parse_flags ! byte c AND 2 \<noteq> 0"

text \<open>\<open>integer_storage\<close>: the four bytes of an \<open>int\<close> in the low half of a word, whose high half stays as it was.\<close>

definition integer_store :: "u64 \<Rightarrow> int \<Rightarrow> u64" where
  "integer_store old i = (old AND 0xFFFFFFFF00000000) OR ucast (word_of_int i :: u32)"

definition integer_load :: "u64 \<Rightarrow> int" where
  "integer_load w = sint (ucast w :: u32)"

section \<open>Errors\<close>

datatype json_error =
    ERROR_NO_ERROR
  | ERROR_OUT_OF_MEMORY
  | ERROR_UNEXPECTED_END
  | ERROR_MISSING_ROOT_ELEMENT
  | ERROR_BAD_ROOT
  | ERROR_EXPECTED_COMMA
  | ERROR_MISSING_OBJECT_KEY
  | ERROR_EXPECTED_COLON
  | ERROR_EXPECTED_END_OF_INPUT
  | ERROR_UNEXPECTED_COMMA
  | ERROR_EXPECTED_VALUE
  | ERROR_EXPECTED_NULL
  | ERROR_EXPECTED_FALSE
  | ERROR_EXPECTED_TRUE
  | ERROR_INVALID_NUMBER
  | ERROR_MISSING_EXPONENT
  | ERROR_ILLEGAL_CODEPOINT
  | ERROR_INVALID_UNICODE_ESCAPE
  | ERROR_UNEXPECTED_END_OF_UTF16
  | ERROR_EXPECTED_U
  | ERROR_INVALID_UTF16_TRAIL_SURROGATE
  | ERROR_UNKNOWN_ESCAPE
  | ERROR_INVALID_UTF8

definition get_error_text :: "json_error \<Rightarrow> string" where
  "get_error_text e =
     (case e of
        ERROR_NO_ERROR \<Rightarrow> ''no error''
      | ERROR_OUT_OF_MEMORY \<Rightarrow> ''out of memory''
      | ERROR_UNEXPECTED_END \<Rightarrow> ''unexpected end of input''
      | ERROR_MISSING_ROOT_ELEMENT \<Rightarrow> ''missing root element''
      | ERROR_BAD_ROOT \<Rightarrow> ''document root must be object or array''
      | ERROR_EXPECTED_COMMA \<Rightarrow> ''expected ,''
      | ERROR_MISSING_OBJECT_KEY \<Rightarrow> ''missing object key''
      | ERROR_EXPECTED_COLON \<Rightarrow> ''expected :''
      | ERROR_EXPECTED_END_OF_INPUT \<Rightarrow> ''expected end of input''
      | ERROR_UNEXPECTED_COMMA \<Rightarrow> ''unexpected comma''
      | ERROR_EXPECTED_VALUE \<Rightarrow> ''expected value''
      | ERROR_EXPECTED_NULL \<Rightarrow> ''expected '' @ [CHR 0x27] @ ''null'' @ [CHR 0x27]
      | ERROR_EXPECTED_FALSE \<Rightarrow> ''expected '' @ [CHR 0x27] @ ''false'' @ [CHR 0x27]
      | ERROR_EXPECTED_TRUE \<Rightarrow> ''expected '' @ [CHR 0x27] @ ''true'' @ [CHR 0x27]
      | ERROR_INVALID_NUMBER \<Rightarrow> ''invalid number''
      | ERROR_MISSING_EXPONENT \<Rightarrow> ''missing exponent''
      | ERROR_ILLEGAL_CODEPOINT \<Rightarrow> ''illegal unprintable codepoint in string''
      | ERROR_INVALID_UNICODE_ESCAPE \<Rightarrow> ''invalid character in unicode escape''
      | ERROR_UNEXPECTED_END_OF_UTF16 \<Rightarrow> ''unexpected end of input during UTF-16 surrogate pair''
      | ERROR_EXPECTED_U \<Rightarrow> ''expected '' @ [CHR 0x5C] @ ''u''
      | ERROR_INVALID_UTF16_TRAIL_SURROGATE \<Rightarrow> ''invalid UTF-16 trail surrogate''
      | ERROR_UNKNOWN_ESCAPE \<Rightarrow> ''unknown escape''
      | ERROR_INVALID_UTF8 \<Rightarrow> ''invalid UTF-8'')"

record parse_error =
  err_line :: nat
  err_column :: nat
  err_code :: json_error
  err_arg :: nat

datatype 'a outcome = Ok 'a | Err parse_error | Fault

text \<open>The loop of \<open>make_error\<close> over the bytes before the pointer.\<close>

fun count_lines :: "string \<Rightarrow> nat \<Rightarrow> nat \<Rightarrow> nat \<times> nat" where
  "count_lines [] line column = (line, column)"
| "count_lines (c # cs) line column =
     (if c = CHR 0x0D then
        (case cs of
           d # ds \<Rightarrow> if d = CHR 0x0A then count_lines ds (line + 1) 1 else count_lines cs (line + 1) 1
         | [] \<Rightarrow> count_lines cs (line + 1) 1)
      else if c = CHR 0x0A then count_lines cs (line + 1) 1
      else count_lines cs line (column + 1))"

definition make_error :: "string \<Rightarrow> nat option \<Rightarrow> json_error \<Rightarrow> nat \<Rightarrow> parse_error" where
  "make_error text p code arg =
     (let (line, column) = count_lines (take (case p of None \<Rightarrow> length text | Some i \<Rightarrow> i) text) 1 1
      in \<lparr>err_line = line, err_column = column, err_code = code, err_arg = arg\<rparr>)"

section \<open>White space and literals\<close>

function skip_whitespace :: "string \<Rightarrow> nat \<Rightarrow> nat option" where
  "skip_whitespace text p =
     (if p \<ge> length text then None
      else if is_whitespace (text ! p) then skip_whitespace text (p + 1)
      else Some p)"
  by pat_completeness auto
termination by (relation "measure (\<lambda>(text, p). length text - p)") auto

declare skip_whitespace.simps [simp del]

definition has_remaining_characters :: "string \<Rightarrow> nat \<Rightarrow> nat \<Rightarrow> bool" where
  "has_remaining_characters text p remaining \<longleftrightarrow> p + remaining \<le> length text"

text \<open>What the three functions for literals share: \<open>tail\<close> are the letters after the first one.\<close>

definition parse_literal :: "string \<Rightarrow> json_error \<Rightarrow> string \<Rightarrow> nat \<Rightarrow> nat outcome" where
  "parse_literal tail code text p =
     (if \<not> has_remaining_characters text p (length tail + 1) then Err (make_error text (Some p) ERROR_UNEXPECTED_END 0)
      else if take (length tail) (drop (p + 1) text) \<noteq> tail then Err (make_error text (Some p) code 0)
      else Ok (p + length tail + 1))"

definition parse_null :: "string \<Rightarrow> nat \<Rightarrow> nat outcome" where
  "parse_null = parse_literal ''ull'' ERROR_EXPECTED_NULL"

definition parse_false :: "string \<Rightarrow> nat \<Rightarrow> nat outcome" where
  "parse_false = parse_literal ''alse'' ERROR_EXPECTED_FALSE"

definition parse_true :: "string \<Rightarrow> nat \<Rightarrow> nat outcome" where
  "parse_true = parse_literal ''rue'' ERROR_EXPECTED_TRUE"

section \<open>Numbers\<close>

record float_ops =
  f_of_int :: "int \<Rightarrow> u64"
  f_add :: "u64 \<Rightarrow> u64 \<Rightarrow> u64"
  f_mul :: "u64 \<Rightarrow> u64 \<Rightarrow> u64"
  f_neg :: "u64 \<Rightarrow> u64"
  f_is_zero :: "u64 \<Rightarrow> bool"
  f_zero :: u64
  f_lit :: "int \<Rightarrow> u64"
  f_inf :: u64

text \<open>The locals \<open>try_double\<close>, \<open>i\<close> and \<open>d\<close>: \<open>AInt i\<close> while \<open>try_double\<close> is false, \<open>ADbl d\<close> from then on.\<close>

datatype number = AInt int | ADbl u64

text \<open>Results of the functions that read from a pointer on: the pointer they stop at, or an error at one.\<close>

datatype 'a scan = SOk string 'a | SErr json_error string | SFault

definition is_digit :: "char \<Rightarrow> bool" where
  "is_digit c \<longleftrightarrow> byte (CHR ''0'') \<le> byte c \<and> byte c \<le> byte (CHR ''9'')"

definition digit_value :: "char \<Rightarrow> int" where
  "digit_value c = int (byte c) - int (byte (CHR ''0''))"

definition INT_MAX :: int where
  "INT_MAX = 2147483647"

definition as_double :: "float_ops \<Rightarrow> number \<Rightarrow> u64" where
  "as_double fo n = (case n of AInt i \<Rightarrow> f_of_int fo i | ADbl d \<Rightarrow> d)"

definition add_digit :: "float_ops \<Rightarrow> number \<Rightarrow> int \<Rightarrow> number" where
  "add_digit fo n digit =
     (let n1 = (case n of AInt i \<Rightarrow> if i > INT_MAX div 10 - 9 then ADbl (f_of_int fo i) else n | ADbl d \<Rightarrow> n)
      in case n1 of
           ADbl d \<Rightarrow> ADbl (f_add fo (f_mul fo (f_of_int fo 10) d) (f_of_int fo digit))
         | AInt i \<Rightarrow> AInt (10 * i + digit))"

fun int_digits :: "float_ops \<Rightarrow> number \<Rightarrow> string \<Rightarrow> number scan" where
  "int_digits fo n [] = SFault"
| "int_digits fo n (c # s) =
     (if s = [] then SErr ERROR_UNEXPECTED_END s
      else
        let n' = add_digit fo n (digit_value c)
        in if is_digit (hd s) then int_digits fo n' s else SOk s n')"

fun fraction_digits :: "float_ops \<Rightarrow> u64 \<Rightarrow> int \<Rightarrow> string \<Rightarrow> (u64 \<times> int) scan" where
  "fraction_digits fo d exponent [] = SFault"
| "fraction_digits fo d exponent (c # s) =
     (if s = [] then SErr ERROR_UNEXPECTED_END s
      else
        let d' = f_add fo (f_mul fo d (f_of_int fo 10)) (f_of_int fo (digit_value c))
        in if is_digit (hd s) then fraction_digits fo d' (exponent - 1) s else SOk s (d', exponent - 1))"

fun exponent_digits :: "int \<Rightarrow> string \<Rightarrow> int scan" where
  "exponent_digits exp [] = SFault"
| "exponent_digits exp (c # s) =
     (let digit = digit_value c;
          exp' = (if exp > (INT_MAX - digit) div 10 then INT_MAX else 10 * exp + digit)
      in if s = [] then SErr ERROR_UNEXPECTED_END s
         else if is_digit (hd s) then exponent_digits exp' s
         else SOk s exp')"

definition pow10 :: "float_ops \<Rightarrow> int \<Rightarrow> u64" where
  "pow10 fo exponent =
     (if exponent > 308 then f_inf fo
      else if exponent < - 323 then f_zero fo
      else map (f_lit fo) [- 323..308] ! nat (exponent + 323))"

definition integer_part :: "float_ops \<Rightarrow> string \<Rightarrow> number scan" where
  "integer_part fo s =
     (case s of
        [] \<Rightarrow> SFault
      | c # r \<Rightarrow>
          if c = CHR ''0'' then (if r = [] then SErr ERROR_UNEXPECTED_END r else SOk r (AInt 0))
          else if \<not> is_digit c then SErr ERROR_INVALID_NUMBER s
          else int_digits fo (AInt 0) s)"

definition fraction_part :: "float_ops \<Rightarrow> number \<Rightarrow> string \<Rightarrow> (number \<times> int) scan" where
  "fraction_part fo n s =
     (case s of
        [] \<Rightarrow> SFault
      | c # r \<Rightarrow>
          if c = CHR ''.'' then
            if r = [] then SErr ERROR_UNEXPECTED_END r
            else if \<not> is_digit (hd r) then SErr ERROR_INVALID_NUMBER r
            else (case fraction_digits fo (as_double fo n) 0 r of
                    SOk s' (d, exponent) \<Rightarrow> SOk s' (ADbl d, exponent)
                  | SErr e s' \<Rightarrow> SErr e s'
                  | SFault \<Rightarrow> SFault)
          else SOk s (n, 0))"

definition exponent_part :: "float_ops \<Rightarrow> number \<Rightarrow> int \<Rightarrow> string \<Rightarrow> (number \<times> int) scan" where
  "exponent_part fo n exponent s =
     (case s of
        [] \<Rightarrow> SFault
      | e # r \<Rightarrow>
          if e = CHR ''e'' \<or> e = CHR ''E'' then
            if r = [] then SErr ERROR_UNEXPECTED_END r
            else
              let signed = (hd r = CHR ''-'' \<or> hd r = CHR ''+'');
                  r' = (if signed then tl r else r)
              in if signed \<and> r' = [] then SErr ERROR_UNEXPECTED_END r'
                 else if \<not> is_digit (hd r') then SErr ERROR_MISSING_EXPONENT r'
                 else (case exponent_digits 0 r' of
                         SOk s' exp \<Rightarrow>
                           SOk s' (ADbl (as_double fo n), exponent + (if hd r = CHR ''-'' then - exp else exp))
                       | SErr e s' \<Rightarrow> SErr e s'
                       | SFault \<Rightarrow> SFault)
          else SOk s (n, exponent))"

text \<open>What follows the last character: the power of ten, with its assertion, and the sign.\<close>

definition scale_number :: "float_ops \<Rightarrow> number \<Rightarrow> int \<Rightarrow> number option" where
  "scale_number fo n exponent =
     (if exponent = 0 then Some n
      else case n of
             AInt i \<Rightarrow> None
           | ADbl d \<Rightarrow> Some (ADbl (if f_is_zero fo d then d else f_mul fo d (pow10 fo exponent))))"

definition negate_number :: "float_ops \<Rightarrow> number \<Rightarrow> number" where
  "negate_number fo n = (case n of AInt i \<Rightarrow> AInt (- i) | ADbl d \<Rightarrow> ADbl (f_neg fo d))"

definition scan_unsigned :: "float_ops \<Rightarrow> string \<Rightarrow> number scan" where
  "scan_unsigned fo s =
     (case integer_part fo s of
        SErr e s' \<Rightarrow> SErr e s' | SFault \<Rightarrow> SFault
      | SOk s2 n2 \<Rightarrow> (case fraction_part fo n2 s2 of
          SErr e s' \<Rightarrow> SErr e s' | SFault \<Rightarrow> SFault
        | SOk s3 (n3, x3) \<Rightarrow> (case exponent_part fo n3 x3 s3 of
            SErr e s' \<Rightarrow> SErr e s' | SFault \<Rightarrow> SFault
          | SOk s4 (n4, x4) \<Rightarrow> (case scale_number fo n4 x4 of None \<Rightarrow> SFault | Some n5 \<Rightarrow> SOk s4 n5))))"

definition scan_number :: "float_ops \<Rightarrow> string \<Rightarrow> number scan" where
  "scan_number fo s =
     (case s of
        [] \<Rightarrow> SFault
      | c # r \<Rightarrow>
          if c \<noteq> CHR ''-'' then scan_unsigned fo s
          else if r = [] then SErr ERROR_UNEXPECTED_END r
          else (case scan_unsigned fo r of
                  SErr e s' \<Rightarrow> SErr e s' | SFault \<Rightarrow> SFault
                | SOk s' n \<Rightarrow> SOk s' (negate_number fo n)))"

section \<open>Strings\<close>

text \<open>The search for the first character that needs work: four at a time, then one at a time.\<close>

fun scan_plain1 :: "string \<Rightarrow> string" where
  "scan_plain1 [] = []"
| "scan_plain1 (c # s) = (if is_plain_string_character c then scan_plain1 s else c # s)"

fun scan_plain4 :: "string \<Rightarrow> string" where
  "scan_plain4 (c0 # c1 # c2 # c3 # s) =
     (if \<not> is_plain_string_character c0 then c0 # c1 # c2 # c3 # s
      else if \<not> is_plain_string_character c1 then c1 # c2 # c3 # s
      else if \<not> is_plain_string_character c2 then c2 # c3 # s
      else if \<not> is_plain_string_character c3 then c3 # s
      else scan_plain4 s)"
| "scan_plain4 s = scan_plain1 s"

text \<open>\<open>read_hex\<close>: the value of four hexadecimal digits; its error is at the pointer behind the bad digit.\<close>

definition hex_value :: "char \<Rightarrow> nat option" where
  "hex_value c =
     (if byte (CHR ''0'') \<le> byte c \<and> byte c \<le> byte (CHR ''9'') then Some (byte c - byte (CHR ''0''))
      else if byte (CHR ''a'') \<le> byte c \<and> byte c \<le> byte (CHR ''f'') then Some (byte c - byte (CHR ''a'') + 10)
      else if byte (CHR ''A'') \<le> byte c \<and> byte c \<le> byte (CHR ''F'') then Some (byte c - byte (CHR ''A'') + 10)
      else None)"

fun read_hex_loop :: "nat \<Rightarrow> u32 \<Rightarrow> string \<Rightarrow> u32 scan" where
  "read_hex_loop 0 v s = SOk s v"
| "read_hex_loop (Suc i) v [] = SFault"
| "read_hex_loop (Suc i) v (c # s) =
     (case hex_value c of
        None \<Rightarrow> SErr ERROR_INVALID_UNICODE_ESCAPE s
      | Some d \<Rightarrow> read_hex_loop i (push_bit 4 v + of_nat d) s)"

definition read_hex :: "string \<Rightarrow> u32 scan" where
  "read_hex s = read_hex_loop 4 0 s"

definition byte_of :: "u32 \<Rightarrow> char" where
  "byte_of w = char_of_u8 (ucast w)"

text \<open>\<open>write_utf8\<close>: the bytes it writes, \<open>None\<close> if its assertion fails.\<close>

definition write_utf8 :: "u32 \<Rightarrow> string option" where
  "write_utf8 codepoint =
     (if codepoint < 0x80 then Some [byte_of codepoint]
      else if codepoint < 0x800 then
        Some [byte_of (0xC0 OR drop_bit 6 codepoint), byte_of (0x80 OR (codepoint AND 0x3F))]
      else if codepoint < 0x10000 then
        Some [byte_of (0xE0 OR drop_bit 12 codepoint), byte_of (0x80 OR (drop_bit 6 codepoint AND 0x3F)),
              byte_of (0x80 OR (codepoint AND 0x3F))]
      else if codepoint < 0x200000 then
        Some [byte_of (0xF0 OR drop_bit 18 codepoint), byte_of (0x80 OR (drop_bit 12 codepoint AND 0x3F)),
              byte_of (0x80 OR (drop_bit 6 codepoint AND 0x3F)), byte_of (0x80 OR (codepoint AND 0x3F))]
      else None)"

definition simple_escape :: "char \<Rightarrow> char option" where
  "simple_escape c =
     (if c = CHR 0x22 then Some (CHR 0x22)
      else if c = CHR 0x5C then Some (CHR 0x5C)
      else if c = CHR ''/'' then Some (CHR ''/'')
      else if c = CHR ''b'' then Some (CHR 0x08)
      else if c = CHR ''f'' then Some (CHR 0x0C)
      else if c = CHR ''n'' then Some (CHR 0x0A)
      else if c = CHR ''r'' then Some (CHR 0x0D)
      else if c = CHR ''t'' then Some (CHR 0x09)
      else None)"

text \<open>The case \<open>u\<close> of an escape, with the pointer behind the letter: the code point it stands for.\<close>

definition unicode_escape :: "string \<Rightarrow> u32 scan" where
  "unicode_escape s =
     (if length s < 4 then SErr ERROR_UNEXPECTED_END s
      else case read_hex s of
        SErr e s' \<Rightarrow> SErr e s' | SFault \<Rightarrow> SFault
      | SOk s1 u \<Rightarrow>
          if 0xD800 \<le> u \<and> u \<le> 0xDBFF then
            if length s1 < 6 then SErr ERROR_UNEXPECTED_END_OF_UTF16 s1
            else if s1 ! 0 \<noteq> CHR 0x5C \<or> s1 ! 1 \<noteq> CHR ''u'' then SErr ERROR_EXPECTED_U s1
            else (case read_hex (drop 2 s1) of
                    SErr e s' \<Rightarrow> SErr e s' | SFault \<Rightarrow> SFault
                  | SOk s2 v \<Rightarrow>
                      if v < 0xDC00 \<or> v > 0xDFFF then SErr ERROR_INVALID_UTF16_TRAIL_SURROGATE s2
                      else SOk s2 (0x10000 + (push_bit 10 (u - 0xD800) OR (v - 0xDC00))))
          else SOk s1 u)"

text \<open>The default case: the length of the sequence that starts at the pointer, or the error.\<close>

definition is_continuation :: "char \<Rightarrow> bool" where
  "is_continuation c \<longleftrightarrow> 128 \<le> byte c \<and> byte c < 192"

fun check_continuation :: "nat \<Rightarrow> string \<Rightarrow> string scan" where
  "check_continuation 0 s = SOk s []"
| "check_continuation (Suc n) [] = SFault"
| "check_continuation (Suc n) (c # s) =
     (if is_continuation c then
        (case check_continuation n s of SOk s' r \<Rightarrow> SOk s' (c # r) | SErr e s' \<Rightarrow> SErr e s' | SFault \<Rightarrow> SFault)
      else SErr ERROR_INVALID_UTF8 (c # s))"

definition utf8_sequence :: "string \<Rightarrow> string scan" where
  "utf8_sequence s =
     (case s of
        [] \<Rightarrow> SFault
      | c0 # r \<Rightarrow>
          let n = (if byte c0 < 128 then 1 else if byte c0 < 224 then 2 else if byte c0 < 240 then 3
                   else if byte c0 < 248 then 4 else (0 :: nat))
          in if n = 0 then SErr ERROR_INVALID_UTF8 s
             else if length s < n then SErr ERROR_UNEXPECTED_END s
             else (case check_continuation (n - 1) r of
                     SOk s' q \<Rightarrow> SOk s' (c0 # q) | SErr e s' \<Rightarrow> SErr e s' | SFault \<Rightarrow> SFault))"

text \<open>One item of a string: an escape or a sequence of bytes that is taken over, with what it writes.\<close>

definition string_item :: "string \<Rightarrow> string scan" where
  "string_item s =
     (case s of
        [] \<Rightarrow> SFault
      | c # r \<Rightarrow>
          if c = CHR 0x5C then
            (case r of
               [] \<Rightarrow> SErr ERROR_UNEXPECTED_END r
             | e # r' \<Rightarrow>
                 (case simple_escape e of
                    Some replacement \<Rightarrow> SOk r' [replacement]
                  | None \<Rightarrow>
                      if e = CHR ''u'' then
                        (case unicode_escape r' of
                           SErr e s' \<Rightarrow> SErr e s' | SFault \<Rightarrow> SFault
                         | SOk s' u \<Rightarrow> (case write_utf8 u of None \<Rightarrow> SFault | Some bytes \<Rightarrow> SOk s' bytes))
                      else SErr ERROR_UNKNOWN_ESCAPE r))
          else utf8_sequence s)"

text \<open>The error of a function that stopped at the pointer from which the text reads \<open>s\<close>.\<close>

definition error_at :: "string \<Rightarrow> json_error \<Rightarrow> string \<Rightarrow> parse_error" where
  "error_at text code s =
     make_error text (Some (length text - length s)) code (if code = ERROR_ILLEGAL_CODEPOINT then byte (hd s) else 0)"

definition overwrite :: "string \<Rightarrow> nat \<Rightarrow> string \<Rightarrow> string" where
  "overwrite text i bytes = take i text @ bytes @ drop (i + length bytes) text"

lemma length_overwrite [simp]: "i + length bytes \<le> length text \<Longrightarrow> length (overwrite text i bytes) = length text"
  by (simp add: overwrite_def)

subsection \<open>Pointers only move forward\<close>

named_theorems scan_suffix \<open>where the reading functions stop\<close>

lemma read_hex_loop_suffix: "read_hex_loop n v s = SOk s' u \<Longrightarrow> suffix s' s"
  by (induction n v s rule: read_hex_loop.induct) (auto split: option.splits intro: suffix_ConsI)

lemma read_hex_suffix: "read_hex s = SOk s' u \<Longrightarrow> suffix s' s"
  by (simp add: read_hex_def read_hex_loop_suffix)

lemma unicode_escape_suffix: "unicode_escape s = SOk s' u \<Longrightarrow> suffix s' s"
  by (auto simp: unicode_escape_def split: if_splits scan.splits dest!: read_hex_suffix
      intro: suffix_order.trans suffix_order.trans [OF _ suffix_order.trans [OF suffix_drop]])

lemma check_continuation_suffix: "check_continuation n s = SOk s' q \<Longrightarrow> s = q @ s' \<and> list_all is_continuation q"
  by (induction n s arbitrary: q rule: check_continuation.induct) (auto split: if_splits scan.splits)

lemma utf8_sequence_suffix: "utf8_sequence s = SOk s' q \<Longrightarrow> s = q @ s' \<and> q \<noteq> []"
  by (auto simp: utf8_sequence_def Let_def split: list.splits if_splits scan.splits dest!: check_continuation_suffix)

lemma string_item_suffix:
  assumes "string_item s = SOk s' q"
  shows "strict_suffix s' s"
proof (cases s)
  case Nil
  with assms show ?thesis by (simp add: string_item_def)
next
  case (Cons c r)
  consider (utf8) "c \<noteq> CHR 0x5C" | (escape) e r' where "c = CHR 0x5C" "r = e # r'" | (stop) "c = CHR 0x5C" "r = []"
    by (cases r) auto
  then show ?thesis
  proof cases
    case utf8
    with assms Cons have "utf8_sequence s = SOk s' q" by (simp add: string_item_def)
    with utf8_sequence_suffix [of s s' q] show ?thesis by (auto simp: strict_suffix_def suffix_def)
  next
    case escape
    with assms Cons have "suffix s' r'"
      by (auto simp: string_item_def split: option.splits if_splits scan.splits dest: unicode_escape_suffix)
    then show ?thesis using Cons escape by (auto simp: strict_suffix_def suffix_def)
  next
    case stop
    with assms Cons show ?thesis by (simp add: string_item_def)
  qed
qed

lemma string_item_shorter: "string_item s = SOk s' q \<Longrightarrow> length s' < length s"
  by (drule string_item_suffix) (metis suffix_length_less)

subsection \<open>\<open>parse_string\<close>\<close>

text \<open>
  \<open>parse_string_slow\<close>: \<open>p\<close> is the pointer that reads and \<open>endp\<close>, the local \<open>end\<close>, the one that writes. The result
  is the text, the pointer behind the quote and the two words of \<open>tag\<close>.
\<close>

function parse_string_slow :: "string \<Rightarrow> nat \<Rightarrow> nat \<Rightarrow> nat \<Rightarrow> (string \<times> nat \<times> nat \<times> nat) outcome" where
  "parse_string_slow text start endp p =
     (case drop p text of
        [] \<Rightarrow> Err (make_error text (Some p) ERROR_UNEXPECTED_END 0)
      | c # r \<Rightarrow>
          if byte c < 0x20 then Err (make_error text (Some p) ERROR_ILLEGAL_CODEPOINT (byte c))
          else if c = CHR 0x22 then
            if endp < length text then Ok (text[endp := CHR 0x00], p + 1, start, endp) else Fault
          else
            (case string_item (c # r) of
               SErr e s' \<Rightarrow> Err (error_at text e s')
             | SFault \<Rightarrow> Fault
             | SOk s' bytes \<Rightarrow>
                 if endp + length bytes \<le> length text then
                   parse_string_slow (overwrite text endp bytes) start (endp + length bytes) (length text - length s')
                 else Fault))"
  by pat_completeness auto
termination
proof (relation "measure (\<lambda>(text, start, endp, p). length text - p)", goal_cases)
  case (2 T start endp p c r s' bytes)
  have "length s' < length (drop p T)" using string_item_shorter [OF 2(4)] 2(1) by simp
  with 2(5) show ?case by simp
qed simp

declare parse_string_slow.simps [simp del]

definition parse_string :: "string \<Rightarrow> nat \<Rightarrow> (string \<times> nat \<times> nat \<times> nat) outcome" where
  "parse_string text p =
     (let start = p + 1; s = scan_plain4 (drop start text); q = length text - length s
      in case s of
           [] \<Rightarrow> Err (make_error text (Some q) ERROR_UNEXPECTED_END 0)
         | c # r \<Rightarrow>
             if c = CHR 0x22 then Ok (text[q := CHR 0x00], q + 1, start, q)
             else if byte c < 0x20 then Err (make_error text (Some q) ERROR_ILLEGAL_CODEPOINT (byte c))
             else parse_string_slow text start q q)"

section \<open>Characters and words\<close>

lemma flags_table:
  "map (\<lambda>w. w AND 1 \<noteq> 0) parse_flags =
     map (\<lambda>n. 0x20 \<le> n \<and> n < 0x80 \<and> n \<noteq> 0x22 \<and> n \<noteq> 0x5C) [0..<256]"
  "map (\<lambda>w. w AND 2 \<noteq> 0) parse_flags = map (\<lambda>n. n = 0x20 \<or> n = 0x09 \<or> n = 0x0A \<or> n = 0x0D) [0..<256]"
  by code_simp+

lemma flags_nth:
  assumes "map (\<lambda>w. w AND m \<noteq> 0) parse_flags = map P [0..<256]"
  shows "parse_flags ! byte c AND m \<noteq> 0 \<longleftrightarrow> P (byte c)"
proof -
  have len: "length parse_flags = 256" using arg_cong [OF assms, of length] by simp
  have "map (\<lambda>w. w AND m \<noteq> 0) parse_flags ! byte c = map P [0..<256] ! byte c" by (simp only: assms)
  then show ?thesis by (simp add: len)
qed

lemma byte_eq_char: "byte c = n \<and> n < 256 \<longleftrightarrow> c = char_of n \<and> n < 256"
  by (auto simp: byte_def)

lemma is_whitespace_iff: "is_whitespace c \<longleftrightarrow> byte c = 0x20 \<or> byte c = 0x09 \<or> byte c = 0x0A \<or> byte c = 0x0D"
  unfolding is_whitespace_def using flags_nth [OF flags_table(2)] by simp

lemma is_plain_iff:
  "is_plain_string_character c \<longleftrightarrow> 0x20 \<le> byte c \<and> byte c < 0x80 \<and> byte c \<noteq> 0x22 \<and> byte c \<noteq> 0x5C"
  unfolding is_plain_string_character_def using flags_nth [OF flags_table(1)] by simp

lemma scan_plain1_eq: "scan_plain1 s = dropWhile is_plain_string_character s"
  by (induction s) auto

lemma scan_plain_eq [simp]: "scan_plain4 s = dropWhile is_plain_string_character s"
  by (induction s rule: scan_plain4.induct) (auto simp: scan_plain1_eq)

lemma pow10_in_table: "- 323 \<le> exponent \<Longrightarrow> exponent \<le> 308 \<Longrightarrow> pow10 fo exponent = f_lit fo exponent"
proof -
  assume "- 323 \<le> exponent" "exponent \<le> 308"
  then have "nat (exponent + 323) < length [- 323..308]" by (simp only: length_upto)
  then have "map (f_lit fo) [- 323..308] ! nat (exponent + 323) = f_lit fo ([- 323..308] ! nat (exponent + 323))"
    by (rule nth_map)
  also have "[- 323..308] ! nat (exponent + 323) = exponent"
    using \<open>- 323 \<le> exponent\<close> \<open>exponent \<le> 308\<close> by (subst nth_upto) simp_all
  finally show ?thesis using \<open>- 323 \<le> exponent\<close> \<open>exponent \<le> 308\<close> by (simp only: pow10_def) simp
qed

lemma integer_load_store:
  assumes "- (2 ^ 31) \<le> i" "i < 2 ^ 31"
  shows "integer_load (integer_store old i) = i"
proof -
  have "(0xFFFFFFFF00000000 :: u64) = push_bit 32 0xFFFFFFFF" by simp
  then have "ucast ((old AND 0xFFFFFFFF00000000) OR ucast (word_of_int i :: u32)) = (word_of_int i :: u32)"
    by (intro bit_word_eqI) (simp only: bit_simps, auto)
  then show ?thesis
    using assms by (simp add: integer_load_def integer_store_def sint_sbintrunc' signed_take_bit_int_eq_self)
qed

lemma element_roundtrip:
  assumes "t \<noteq> TYPE_NOKEY" "unat v < 2 ^ 61"
  shows "get_element_type (make_element t v) = t" "get_element_value (make_element t v) = v"
proof -
  have c: "type_code t = take_bit 3 (type_code t)" "unat (type_code t) < 8" using assms(1) by (cases t; simp add: type_code_def)+
  have "make_element t v AND 7 = type_code t"
  proof (rule bit_word_eqI)
    fix n
    have "bit (type_code t) n = (n < 3 \<and> bit (type_code t) n)" by (subst c(1)) (simp add: bit_take_bit_iff)
    moreover have "(7 :: u64) = mask 3" by (simp add: mask_eq_exp_minus_1)
    then have "bit (7 :: u64) n \<longleftrightarrow> n < 3" by (simp only: bit_mask_iff) auto
    ultimately show "bit (make_element t v AND 7) n = bit (type_code t) n"
      by (auto simp: make_element_def bit_and_iff bit_or_iff bit_push_bit_iff)
  qed
  then show "get_element_type (make_element t v) = t" using assms(1) by (cases t) (simp_all add: get_element_type_def type_code_def)
  have "unat (take_bit 61 v) = unat v" using assms(2) by (simp only: unsigned_take_bit_eq take_bit_nat_eq_self)
  then have "take_bit 61 v = v" by (rule unsigned_word_eqI)
  then have v: "bit v n \<Longrightarrow> n < 61" for n by (metis bit_take_bit_iff)
  show "get_element_value (make_element t v) = v"
  proof (rule bit_word_eqI)
    fix n :: nat
    have "\<not> bit (type_code t) (n + 3)" by (subst c(1)) (simp add: bit_take_bit_iff)
    then show "bit (get_element_value (make_element t v)) n = bit v n"
      using v [of n] by (auto simp: get_element_value_def make_element_def bit_simps add.commute)
  qed
qed

section \<open>In place decoding\<close>

text \<open>The decoder without the text it writes to: what the string is, and what is behind its quote.\<close>

function decode_string :: "string \<Rightarrow> string scan" where
  "decode_string s =
     (case s of
        [] \<Rightarrow> SErr ERROR_UNEXPECTED_END s
      | c # r \<Rightarrow>
          if byte c < 0x20 then SErr ERROR_ILLEGAL_CODEPOINT s
          else if c = CHR 0x22 then SOk r []
          else (case string_item s of
                  SErr e s' \<Rightarrow> SErr e s' | SFault \<Rightarrow> SFault
                | SOk s' bytes \<Rightarrow>
                    (case decode_string s' of
                       SErr e s'' \<Rightarrow> SErr e s'' | SFault \<Rightarrow> SFault
                     | SOk s'' rest \<Rightarrow> SOk s'' (bytes @ rest))))"
  by pat_completeness auto
termination by (relation "measure length") (auto dest: string_item_shorter)

declare decode_string.simps [simp del]

lemma hex_value_less: "hex_value c = Some d \<Longrightarrow> d < 16"
  by (auto simp: hex_value_def byte_def split: if_splits)

lemma read_hex_loop_cases:
  assumes "n \<le> length s"
  shows "read_hex_loop n v s \<noteq> SFault"
    and "read_hex_loop n v s = SOk s' u \<Longrightarrow> length s = length s' + n"
    and "read_hex_loop n v s = SOk s' u \<Longrightarrow> (unat v + 1) * 16 ^ n \<le> 2 ^ 32 \<Longrightarrow> unat u < (unat v + 1) * 16 ^ n"
  using assms
proof (atomize (full), induction n v s rule: read_hex_loop.induct)
  case (3 i v c s)
  show ?case
  proof (cases "hex_value c")
    case (Some d)
    note d = hex_value_less [OF Some]
    let ?v = "push_bit 4 v + of_nat d :: u32"
    have "unat ?v + 1 \<le> (unat v + 1) * 16" if "(unat v + 1) * 16 ^ Suc i \<le> 2 ^ 32"
    proof -
      have "(unat v + 1) * 16 \<le> (unat v + 1) * 16 ^ Suc i" by (intro mult_le_mono2) simp
      with that have le: "(unat v + 1) * 16 \<le> 2 ^ 32" by linarith
      then have "unat (push_bit 4 v) = unat v * 16"
        by (simp add: unsigned_push_bit_eq push_bit_nat_def take_bit_nat_eq_self)
      moreover have "unat (of_nat d :: u32) = d" using d by (simp add: unat_of_nat)
      ultimately have "unat ?v = unat v * 16 + d" using le d by (subst unat_add_lem [THEN iffD1]) simp_all
      with d show ?thesis by simp
    qed
    then have "(unat ?v + 1) * 16 ^ i \<le> (unat v + 1) * 16 ^ Suc i" if "(unat v + 1) * 16 ^ Suc i \<le> 2 ^ 32"
      using mult_le_mono1 [of "unat ?v + 1" "(unat v + 1) * 16" "16 ^ i"] that by (simp only: power_Suc mult.assoc)
    note step = this
    have "i \<le> length s" using 3(2) by simp
    from 3(1) [OF Some this] have IH: "read_hex_loop i ?v s \<noteq> SFault" "read_hex_loop i ?v s = SOk s' u \<Longrightarrow> length s = length s' + i"
      "read_hex_loop i ?v s = SOk s' u \<Longrightarrow> (unat ?v + 1) * 16 ^ i \<le> 2 ^ 32 \<Longrightarrow> unat u < (unat ?v + 1) * 16 ^ i"
      by blast+
    have eq: "read_hex_loop (Suc i) v (c # s) = read_hex_loop i ?v s" by (simp add: Some)
    show ?thesis unfolding eq
    proof (intro conjI impI IH(1))
      show "length (c # s) = length s' + Suc i" if "read_hex_loop i ?v s = SOk s' u" using IH(2) [OF that] by simp
      assume "read_hex_loop i ?v s = SOk s' u" "(unat v + 1) * 16 ^ Suc i \<le> 2 ^ 32"
      with IH(3) step show "unat u < (unat v + 1) * 16 ^ Suc i" by (meson le_trans order.strict_trans2)
    qed
  qed (use 3 in simp)
qed auto

lemma read_hex_cases:
  assumes "4 \<le> length s"
  shows "read_hex s \<noteq> SFault"
    and "read_hex s = SOk s' u \<Longrightarrow> length s = length s' + 4 \<and> unat u < 65536"
  using read_hex_loop_cases(1,2) [OF assms] read_hex_loop_cases(3) [OF assms, of 0] by (fastforce simp: read_hex_def)+

lemma or_less: "unat a < 2 ^ n \<Longrightarrow> unat b < 2 ^ n \<Longrightarrow> unat (a OR b :: 'a::len word) < 2 ^ n"
  by (metis or_nat_def take_bit_nat_eq_self_iff take_bit_or unsigned_or_eq)

lemma surrogate_pair_less:
  fixes u v :: u32
  assumes "0xD800 \<le> u" "u \<le> 0xDBFF" "\<not> v < 0xDC00" "\<not> v > 0xDFFF"
  shows "0x10000 + (push_bit 10 (u - 0xD800) OR (v - 0xDC00)) < 0x200000"
    and "\<not> 0x10000 + (push_bit 10 (u - 0xD800) OR (v - 0xDC00)) < 0x10000"
proof -
  have "unat (u - 0xD800) < 1024" "unat (v - 0xDC00) < 1024"
    using assms by (simp_all add: unat_sub word_le_nat_alt word_less_nat_alt)
  then have "unat (push_bit 10 (u - 0xD800)) < 2 ^ 20" "unat (v - 0xDC00) < 2 ^ 20"
    by (simp_all add: unsigned_push_bit_eq push_bit_nat_def take_bit_nat_eq_self)
  then have o: "unat (push_bit 10 (u - 0xD800) OR (v - 0xDC00)) < 2 ^ 20" by (rule or_less)
  then have "unat (0x10000 + (push_bit 10 (u - 0xD800) OR (v - 0xDC00))) =
      0x10000 + unat (push_bit 10 (u - 0xD800) OR (v - 0xDC00))"
    by (subst unat_add_lem [THEN iffD1]) simp_all
  with o show "0x10000 + (push_bit 10 (u - 0xD800) OR (v - 0xDC00)) < 0x200000"
    "\<not> 0x10000 + (push_bit 10 (u - 0xD800) OR (v - 0xDC00)) < 0x10000"
    by (simp_all add: word_less_nat_alt)
qed

lemma write_utf8_cases:
  "u < 0x200000 \<Longrightarrow> \<exists>bytes. write_utf8 u = Some bytes \<and> length bytes \<le> 4 \<and> (u < 0x10000 \<longrightarrow> length bytes \<le> 3)"
  by (simp add: write_utf8_def)

lemma unicode_escape_cases:
  shows "unicode_escape s \<noteq> SFault"
    and "unicode_escape s = SOk s' u \<Longrightarrow> u < 0x200000 \<and> length s' + (if u < 0x10000 then 4 else 10) \<le> length s"
proof -
  show "unicode_escape s \<noteq> SFault"
    using read_hex_cases(1) [of s] read_hex_cases(1) [of "drop 2 s1" for s1]
    by (auto simp: unicode_escape_def split: scan.splits) (metis diff_le_mono length_drop not_le numeral_le_iff)
  assume ok: "unicode_escape s = SOk s' u"
  then obtain s1 w where 1: "4 \<le> length s" "read_hex s = SOk s1 w"
    by (auto simp: unicode_escape_def split: if_splits scan.splits)
  note w = read_hex_cases(2) [OF this]
  then have small: "w < 0x10000" by (simp add: word_less_nat_alt)
  show "u < 0x200000 \<and> length s' + (if u < 0x10000 then 4 else 10) \<le> length s"
  proof (cases "0xD800 \<le> w \<and> w \<le> 0xDBFF")
    case True
    with ok 1 obtain v where 2: "\<not> length s1 < 6" "read_hex (drop 2 s1) = SOk s' v" "\<not> v < 0xDC00" "\<not> v > 0xDFFF"
      "u = 0x10000 + (push_bit 10 (w - 0xD800) OR (v - 0xDC00))"
      by (auto simp: unicode_escape_def split: if_splits scan.splits)
    have "length (drop 2 s1) = length s' + 4" using read_hex_cases(2) [OF _ 2(2)] 2(1) by simp
    with w 2(1) surrogate_pair_less [of w v] True 2(3,4) show ?thesis unfolding 2(5) by simp
  next
    case False
    with ok 1 have "s' = s1" "u = w" by (auto simp: unicode_escape_def)
    moreover have "w < 0x200000" using small by (rule order.strict_trans) simp
    ultimately show ?thesis using small w by simp
  qed
qed

lemma check_continuation_cases: "n \<le> length s \<Longrightarrow> check_continuation n s \<noteq> SFault"
  by (induction n s rule: check_continuation.induct) (auto split: scan.splits)

lemma utf8_sequence_cases: "s \<noteq> [] \<Longrightarrow> utf8_sequence s \<noteq> SFault"
  using check_continuation_cases [of 1] check_continuation_cases [of 2] check_continuation_cases [of 3]
  by (auto simp: utf8_sequence_def Let_def Suc_le_eq split: list.splits scan.splits)

lemma string_item_cases:
  assumes "s \<noteq> []"
  shows "string_item s \<noteq> SFault" and "string_item s = SOk s' q \<Longrightarrow> length q + length s' \<le> length s"
proof -
  obtain c r where s: "s = c # r" using assms by (cases s) auto
  have u: "\<exists>bytes. write_utf8 u = Some bytes \<and> length bytes + length s' \<le> length r' + 2" if "unicode_escape r' = SOk s' u" for r' s' u
  proof -
    from unicode_escape_cases(2) [OF that] have "u < 0x200000" "length s' + (if u < 0x10000 then 4 else 10) \<le> length r'" by auto
    with write_utf8_cases [OF this(1)] show ?thesis by (auto split: if_splits)
  qed
  show "string_item s \<noteq> SFault"
    using utf8_sequence_cases [OF assms]
    by (auto simp: string_item_def s unicode_escape_cases(1) split: list.splits option.splits scan.splits dest!: u)
  assume ok: "string_item s = SOk s' q"
  show "length q + length s' \<le> length s"
  proof (cases "c = CHR 0x5C")
    case True
    with ok u show ?thesis
      by (fastforce simp: string_item_def s split: list.splits option.splits if_splits scan.splits)
  next
    case False
    with ok have "utf8_sequence s = SOk s' q" by (simp add: string_item_def s)
    then show ?thesis using utf8_sequence_suffix by fastforce
  qed
qed

lemma decode_string_cases:
  shows "decode_string s \<noteq> SFault" and "decode_string s = SOk s' q \<Longrightarrow> length q + length s' < length s"
    and "decode_string s = SOk s' q \<Longrightarrow> suffix s' s"
proof (atomize (full), induction s arbitrary: s' q rule: decode_string.induct)
  case (1 s)
  show ?case
  proof (cases s)
    case (Cons c r)
    show ?thesis
    proof (cases "byte c < 0x20 \<or> c = CHR 0x22 \<or> (\<exists>e t. string_item s = SErr e t)")
      case True
      then show ?thesis by (subst (1 2 3) decode_string.simps) (auto simp: Cons intro: suffix_ConsI)
    next
      case False
      then obtain t b where t: "string_item s = SOk t b" using string_item_cases(1) [of s] Cons by (cases "string_item s") auto
      have len: "length b + length t \<le> length s" "suffix t s"
        using string_item_cases(2) [OF _ t] string_item_suffix [OF t] Cons by (auto simp: strict_suffix_def)
      have eq: "decode_string s = (case decode_string t of SErr e u \<Rightarrow> SErr e u | SFault \<Rightarrow> SFault | SOk u r \<Rightarrow> SOk u (b @ r))"
        using False t by (subst decode_string.simps) (simp add: Cons)
      note IH = 1 [OF Cons _ _ t]
      show ?thesis
      proof (cases "decode_string t")
        case (SOk u r')
        with IH [of u r'] len False show ?thesis unfolding eq by (auto intro: suffix_order.trans)
      qed (use IH False eq in auto)
    qed
  qed (simp add: decode_string.simps)
qed

text \<open>A suffix of the text from a pointer on is the text from a later pointer on.\<close>

lemma suffix_drop_pos:
  assumes "suffix s' (drop p t)"
  shows "s' = drop (length t - length s') t" "length s' \<le> length t - p"
proof -
  obtain u where "drop p t = u @ s'" using assms by (auto simp: suffix_def)
  then have t: "t = (take p t @ u) @ s'" by (metis append.assoc append_take_drop_id)
  have "length (take p t @ u) = length t - length s'" using arg_cong [OF t, of length] by simp
  then show "s' = drop (length t - length s') t" using t append_eq_conv_conj [of "take p t @ u" s' t] by (metis append.assoc)
  show "length s' \<le> length t - p" using suffix_length_le [OF assms] by simp
qed

lemma drop_overwrite: "i + length b \<le> n \<Longrightarrow> n \<le> length t \<Longrightarrow> drop n (overwrite t i b) = drop n t"
  by (simp add: overwrite_def)

lemma take_overwrite: "i + length b \<le> length t \<Longrightarrow> take (i + length b) (overwrite t i b) = take i t @ b"
  by (simp add: overwrite_def)

text \<open>One round of the loop: the writes stay behind the pointer that reads.\<close>

lemma slow_round:
  assumes "string_item (drop p t) = SOk s1 b" "endp \<le> p" "p < length t"
  defines "p1 \<equiv> length t - length s1" and "t1 \<equiv> overwrite t endp b"
  shows "endp + length b \<le> p1" "p1 \<le> length t" "p < p1" "length t1 = length t" "drop p1 t1 = s1"
    "take (endp + length b) t1 = take endp t @ b"
proof -
  have ne: "drop p t \<noteq> []" using assms(3) by simp
  have len: "length b + length s1 \<le> length t - p" using string_item_cases(2) [OF ne assms(1)] by simp
  have "strict_suffix s1 (drop p t)" by (rule string_item_suffix) (rule assms(1))
  then have suf: "suffix s1 (drop p t)" and "length s1 < length t - p"
    using suffix_length_less [of s1 "drop p t"] by (auto simp: strict_suffix_def)
  then show "p < p1" "p1 \<le> length t" unfolding p1_def by linarith+
  show le: "endp + length b \<le> p1" unfolding p1_def using len assms(2,3) by linarith
  show "length t1 = length t" unfolding t1_def using le \<open>p1 \<le> length t\<close> by simp
  show "drop p1 t1 = s1" unfolding t1_def using drop_overwrite [OF le \<open>p1 \<le> length t\<close>] suffix_drop_pos(1) [OF suf]
    unfolding p1_def by simp
  show "take (endp + length b) t1 = take endp t @ b"
    unfolding t1_def by (rule take_overwrite) (use le \<open>p1 \<le> length t\<close> in linarith)
qed

lemma parse_string_slow_step:
  assumes "drop p t = c # r" "\<not> byte c < 0x20" "c \<noteq> CHR 0x22" "string_item (c # r) = SOk s1 b" "endp \<le> p"
  shows "parse_string_slow t start endp p =
    parse_string_slow (overwrite t endp b) start (endp + length b) (length t - length s1)"
proof -
  have "p < length t" using assms(1) by (metis drop_all list.distinct(1) not_le)
  with slow_round(1,2) [of p t s1 b endp] assms have "endp + length b \<le> length t" by simp
  with assms show ?thesis by (subst parse_string_slow.simps) simp
qed

lemma parse_string_slow_Err:
  assumes "decode_string (drop p t) = SErr e s'" "endp \<le> p" "p \<le> length t"
  shows "\<exists>t'. length t' = length t \<and> parse_string_slow t start endp p = Err (error_at t' e s')"
  using assms
proof (induction "length t - p" arbitrary: t endp p rule: less_induct)
  case less
  note dec = less.prems(1) [unfolded decode_string.simps [of "drop p t"]]
  show ?case
  proof (cases "drop p t")
    case Nil
    with dec less.prems have "e = ERROR_UNEXPECTED_END" "s' = []" "p = length t" by auto
    with Nil show ?thesis by (intro exI [of _ t]) (simp add: parse_string_slow.simps error_at_def)
  next
    case (Cons c r)
    then have p: "p < length t" by (metis drop_all list.distinct(1) not_le)
    have pos: "length t - length (drop p t) = p" using p by simp
    consider (illegal) "byte c < 0x20" | (bad) "\<not> byte c < 0x20" "c \<noteq> CHR 0x22" "string_item (drop p t) = SErr e s'"
      | (item) s1 b where "\<not> byte c < 0x20" "c \<noteq> CHR 0x22" "string_item (drop p t) = SOk s1 b" "decode_string s1 = SErr e s'"
      using dec Cons by (auto split: if_splits scan.splits)
    then show ?thesis
    proof cases
      case illegal
      with dec Cons have "e = ERROR_ILLEGAL_CODEPOINT" "s' = c # r" by auto
      then show ?thesis using illegal Cons pos by (intro exI [of _ t]) (subst parse_string_slow.simps, simp add: error_at_def)
    next
      case bad
      then show ?thesis using Cons by (intro exI [of _ t]) (subst parse_string_slow.simps, simp)
    next
      case item
      note r = slow_round [OF item(3) less.prems(2) p]
      have "\<exists>t'. length t' = length (overwrite t endp b) \<and>
          parse_string_slow (overwrite t endp b) start (endp + length b) (length t - length s1) = Err (error_at t' e s')"
        by (rule less.hyps) (use r p item(4) in auto)
      then show ?thesis using parse_string_slow_step [OF Cons item(1,2) item(3) [unfolded Cons] less.prems(2)] r(4) by simp
    qed
  qed
qed

lemma parse_string_slow_Ok:
  assumes "decode_string (drop p t) = SOk s' q" "endp \<le> p" "p \<le> length t"
  shows "\<exists>t'. length t' = length t \<and> take endp t' = take endp t \<and> take (length q) (drop endp t') = q \<and>
    drop (length t - length s') t' = s' \<and>
    parse_string_slow t start endp p = Ok (t', length t - length s', start, endp + length q)"
  using assms
proof (induction "length t - p" arbitrary: t endp p q rule: less_induct)
  case less
  note dec = less.prems(1) [unfolded decode_string.simps [of "drop p t"]]
  obtain c r where Cons: "drop p t = c # r" using dec by (cases "drop p t") auto
  then have p: "p < length t" by (metis drop_all list.distinct(1) not_le)
  have c: "\<not> byte c < 0x20" using dec Cons by (auto split: if_splits)
  show ?case
  proof (cases "c = CHR 0x22")
    case True
    with dec Cons c have "s' = r" "q = []" by auto
    moreover have "r = drop (p + 1) t" using Cons by (metis drop_Suc Suc_eq_plus1 drop_tl list.sel(3))
    ultimately show ?thesis using True Cons c p less.prems(2)
      by (intro exI [of _ "t[endp := CHR 0x00]"]) (subst parse_string_slow.simps, simp)
  next
    case False
    with dec Cons c obtain s1 b q' where item: "string_item (drop p t) = SOk s1 b" "decode_string s1 = SOk s' q'" "q = b @ q'"
      by (auto split: scan.splits)
    note r = slow_round [OF item(1) less.prems(2) p]
    let ?t = "overwrite t endp b"
    have "\<exists>t'. length t' = length ?t \<and> take (endp + length b) t' = take (endp + length b) ?t \<and>
        take (length q') (drop (endp + length b) t') = q' \<and> drop (length ?t - length s') t' = s' \<and>
        parse_string_slow ?t start (endp + length b) (length t - length s1) =
          Ok (t', length ?t - length s', start, endp + length b + length q')"
      by (rule less.hyps) (use r p item(2) in auto)
    then obtain t' where t': "length t' = length t" "take (endp + length b) t' = take endp t @ b"
      "take (length q') (drop (endp + length b) t') = q'" "drop (length t - length s') t' = s'"
      "parse_string_slow ?t start (endp + length b) (length t - length s1) = Ok (t', length t - length s', start, endp + length q)"
      using r(4,6) item(3) by (auto simp: add.assoc)
    have "take endp (take (endp + length b) t') = take endp t" unfolding t'(2) using less.prems(2,3) by simp
    moreover have "drop endp (take (endp + length b) t') = b" unfolding t'(2) using less.prems(2,3) by simp
    ultimately have "take endp t' = take endp t" "take (length b) (drop endp t') = b"
      by (simp_all add: drop_take)
    with t' show ?thesis
      using parse_string_slow_step [OF Cons c False item(1) [unfolded Cons] less.prems(2)]
      by (intro exI [of _ t']) (simp add: item(3) take_add [of "length b"] add.commute)
  qed
qed

lemma decode_string_Nil [simp]: "decode_string [] = SErr ERROR_UNEXPECTED_END []"
  by (simp add: decode_string.simps)

lemma decode_string_quote: "decode_string (CHR 0x22 # s) = SOk s []"
  by (simp add: decode_string.simps byte_def)

lemma decode_string_illegal: "byte c < 0x20 \<Longrightarrow> decode_string (c # s) = SErr ERROR_ILLEGAL_CODEPOINT (c # s)"
  by (simp add: decode_string.simps)

lemma string_item_plain: "is_plain_string_character c \<Longrightarrow> string_item (c # s) = SOk s [c]"
  by (auto simp: string_item_def utf8_sequence_def is_plain_iff byte_def)

lemma decode_string_plain:
  assumes "list_all is_plain_string_character q"
  shows "decode_string (q @ s) =
    (case decode_string s of SOk s' r \<Rightarrow> SOk s' (q @ r) | SErr e s' \<Rightarrow> SErr e s' | SFault \<Rightarrow> SFault)"
  using assms
proof (induction q)
  case Nil
  then show ?case by (simp split: scan.splits)
next
  case (Cons c q)
  then have "\<not> byte c < 0x20" "c \<noteq> CHR 0x22" "string_item (c # q @ s) = SOk (q @ s) [c]"
    by (auto simp: is_plain_iff string_item_plain byte_def)
  with Cons show ?case by (subst decode_string.simps) (simp split: scan.splits)
qed

text \<open>Where the search stops, and what the decoder makes of the rest.\<close>

lemma parse_string_split:
  fixes t :: string and p :: nat
  assumes "p < length t"
  defines "w \<equiv> takeWhile is_plain_string_character (drop (p + 1) t)" and "s \<equiv> dropWhile is_plain_string_character (drop (p + 1) t)"
  shows "s = drop (p + 1 + length w) t" "p + 1 + length w \<le> length t" "length t - length s = p + 1 + length w"
    "take (length w) (drop (p + 1) t) = w"
    "decode_string (drop (p + 1) t) =
      (case decode_string s of SOk s' r \<Rightarrow> SOk s' (w @ r) | SErr e s' \<Rightarrow> SErr e s' | SFault \<Rightarrow> SFault)"
proof -
  have ws: "drop (p + 1) t = w @ s" by (simp add: w_def s_def)
  show "take (length w) (drop (p + 1) t) = w" unfolding ws by simp
  have "length w + length s = length t - (p + 1)" using arg_cong [OF ws, of length] by simp
  then show "p + 1 + length w \<le> length t" "length t - length s = p + 1 + length w" using assms(1) by linarith+
  have "s = drop (length w) (w @ s)" by simp
  then show "s = drop (p + 1 + length w) t" by (simp only: ws [symmetric] drop_drop add.commute)
  have "list_all is_plain_string_character w" by (auto simp: w_def list_all_iff dest: set_takeWhileD)
  then show "decode_string (drop (p + 1) t) =
      (case decode_string s of SOk s' r \<Rightarrow> SOk s' (w @ r) | SErr e s' \<Rightarrow> SErr e s' | SFault \<Rightarrow> SFault)"
    unfolding ws by (rule decode_string_plain)
qed

lemma parse_string_Err:
  assumes "decode_string (drop (p + 1) t) = SErr e s'" "p < length t"
  shows "\<exists>t'. length t' = length t \<and> parse_string t p = Err (error_at t' e s')"
proof -
  let ?s = "dropWhile is_plain_string_character (drop (p + 1) t)"
  note sp = parse_string_split [OF assms(2)]
  have dec: "decode_string ?s = SErr e s'" using assms(1) unfolding sp(5) by (auto split: scan.splits)
  show ?thesis
  proof (cases ?s)
    case Nil
    from dec [unfolded Nil] have "e = ERROR_UNEXPECTED_END" "s' = []" by simp_all
    then show ?thesis
      unfolding parse_string_def Let_def scan_plain_eq Nil by (intro exI [of _ t]) (simp add: error_at_def)
  next
    case (Cons c r)
    show ?thesis
    proof (cases "byte c < 0x20")
      case True
      from dec [unfolded Cons decode_string_illegal [OF True]] True have "e = ERROR_ILLEGAL_CODEPOINT" "s' = ?s" "c \<noteq> CHR 0x22"
        unfolding Cons by (auto simp: byte_def)
      with True Cons show ?thesis by (intro exI [of _ t]) (simp add: parse_string_def error_at_def)
    next
      case False
      have "c \<noteq> CHR 0x22" using dec [unfolded Cons] by (auto simp: decode_string_quote)
      moreover have "\<exists>t'. length t' = length t \<and> parse_string_slow t (p + 1) (length t - length ?s) (length t - length ?s) = Err (error_at t' e s')"
        by (rule parse_string_slow_Err) (use dec sp(1,3) in auto)
      ultimately show ?thesis using False Cons by (simp add: parse_string_def Let_def)
    qed
  qed
qed

lemma parse_string_Ok:
  assumes "decode_string (drop (p + 1) t) = SOk s' q" "p < length t"
  shows "\<exists>t'. length t' = length t \<and> take (p + 1) t' = take (p + 1) t \<and> take (length q) (drop (p + 1) t') = q \<and>
    drop (length t - length s') t' = s' \<and>
    parse_string t p = Ok (t', length t - length s', p + 1, p + 1 + length q)"
proof -
  let ?w = "takeWhile is_plain_string_character (drop (p + 1) t)" and ?s = "dropWhile is_plain_string_character (drop (p + 1) t)"
  note sp = parse_string_split [OF assms(2)]
  let ?n = "p + 1 + length ?w"
  obtain q' where dec: "decode_string ?s = SOk s' q'" "q = ?w @ q'" using assms(1) unfolding sp(5) by (auto split: scan.splits)
  have ne: "?s \<noteq> []" using dec(1) by (cases ?s) (simp_all only: decode_string_Nil scan.distinct list.distinct not_False_eq_True)
  then have "length ?s \<noteq> 0" by (simp only: length_0_conv not_False_eq_True)
  then have lt: "?n < length t" using sp(2,3) by linarith
  have "\<exists>t'. length t' = length t \<and> take ?n t' = take ?n t \<and> take (length q') (drop ?n t') = q' \<and>
    drop (length t - length s') t' = s' \<and> parse_string t p = Ok (t', length t - length s', p + 1, ?n + length q')"
  proof (cases "hd ?s = CHR 0x22")
    case True
    then obtain r where r: "?s = CHR 0x22 # r" using ne by (cases ?s) auto
    have "s' = r" "q' = []" using dec(1) [unfolded r] by (simp_all add: decode_string_quote)
    moreover have "r = drop (?n + 1) t" using r sp(1) by (metis drop_Suc Suc_eq_plus1 drop_tl list.sel(3))
    ultimately show ?thesis using r lt sp(3)
      by (intro exI [of _ "t[?n := CHR 0x00]"]) (simp add: parse_string_def)
  next
    case False
    then obtain c r where r: "?s = c # r" "c \<noteq> CHR 0x22" using ne by (cases ?s) auto
    have "\<not> byte c < 0x20" using dec(1) [unfolded r(1)] by (auto simp: decode_string_illegal)
    then have "parse_string t p = parse_string_slow t (p + 1) ?n ?n" using r sp(3) by (simp add: parse_string_def)
    with parse_string_slow_Ok [of ?n t s' q' ?n "p + 1"] dec(1) sp(1) lt show ?thesis by simp
  qed
  then obtain t' where t': "length t' = length t" "take ?n t' = take ?n t" "take (length q') (drop ?n t') = q'"
    "drop (length t - length s') t' = s'" "parse_string t p = Ok (t', length t - length s', p + 1, ?n + length q')"
    by blast
  have "take (p + 1) (take ?n t') = take (p + 1) (take ?n t)" "drop (p + 1) (take ?n t') = drop (p + 1) (take ?n t)"
    using t'(2) by simp_all
  then have "take (p + 1) t' = take (p + 1) t" "take (length ?w) (drop (p + 1) t') = ?w"
    using sp(4) by (simp_all add: drop_take)
  moreover have "take (length q) (drop (p + 1) t') = take (length ?w) (drop (p + 1) t') @ take (length q') (drop ?n t')"
    unfolding dec(2) length_append take_add drop_drop by (simp only: add.commute)
  ultimately have "take (length q) (drop (p + 1) t') = q" using t'(3) dec(2) by simp
  with \<open>take (p + 1) t' = take (p + 1) t\<close> t' show ?thesis by (intro exI [of _ t']) (simp add: dec(2))
qed

section \<open>What the number scanner returns\<close>

text \<open>A pointer behind the first character and before the end.\<close>

definition stops_inside :: "string \<Rightarrow> string \<Rightarrow> bool" where
  "stops_inside s' s \<longleftrightarrow> strict_suffix s' s \<and> s' \<noteq> []"

lemma stops_inside_Cons: "suffix s' s \<Longrightarrow> s' \<noteq> [] \<Longrightarrow> stops_inside s' (c # s)"
  by (auto simp: stops_inside_def strict_suffix_def suffix_def)

lemma stops_inside_trans: "stops_inside s' s \<Longrightarrow> suffix s t \<Longrightarrow> stops_inside s' t"
  unfolding stops_inside_def by (metis suffix_order.less_le_trans)

lemma stops_inside_suffix: "stops_inside s' s \<Longrightarrow> suffix s' s \<and> s' \<noteq> []"
  by (simp add: stops_inside_def strict_suffix_def)

fun small_number :: "number \<Rightarrow> bool" where
  "small_number (AInt i) \<longleftrightarrow> 0 \<le> i \<and> i \<le> 2147483559"
| "small_number (ADbl d) \<longleftrightarrow> True"

lemma digit_value_range: "is_digit c \<Longrightarrow> 0 \<le> digit_value c \<and> digit_value c \<le> 9"
  by (auto simp: is_digit_def digit_value_def byte_def)

lemma small_add_digit: "small_number n \<Longrightarrow> 0 \<le> d \<Longrightarrow> d \<le> 9 \<Longrightarrow> small_number (add_digit fo n d)"
  by (cases n) (auto simp: add_digit_def INT_MAX_def)

lemma int_digits_cases:
  assumes "s \<noteq> []"
  shows "int_digits fo n s \<noteq> SFault"
    and "int_digits fo n s = SOk s' n' \<Longrightarrow> stops_inside s' s"
    and "int_digits fo n s = SOk s' n' \<Longrightarrow> is_digit (hd s) \<Longrightarrow> small_number n \<Longrightarrow> small_number n'"
  using assms
proof (atomize (full), induction fo n s rule: int_digits.induct)
  case (2 fo n c s)
  have "small_number (add_digit fo n (digit_value c))" if "is_digit c" "small_number n"
    using digit_value_range [OF that(1)] small_add_digit [OF that(2)] by simp
  with 2 show ?case by (auto simp: Let_def split: if_splits intro!: stops_inside_Cons dest: stops_inside_suffix)
qed simp

lemma fraction_digits_cases:
  assumes "s \<noteq> []"
  shows "fraction_digits fo d x s \<noteq> SFault" and "fraction_digits fo d x s = SOk s' r \<Longrightarrow> stops_inside s' s"
  using assms
proof (atomize (full), induction fo d x s rule: fraction_digits.induct)
  case (2 fo d x c s)
  then show ?case by (auto simp: Let_def split: if_splits intro!: stops_inside_Cons dest: stops_inside_suffix)
qed simp

lemma exponent_digits_cases:
  assumes "s \<noteq> []"
  shows "exponent_digits x s \<noteq> SFault" and "exponent_digits x s = SOk s' r \<Longrightarrow> stops_inside s' s"
  using assms
proof (atomize (full), induction s arbitrary: x)
  case (Cons c s)
  then show ?case by (auto simp: Let_def split: if_splits intro!: stops_inside_Cons dest: stops_inside_suffix)
qed simp

lemma integer_part_cases:
  assumes "s \<noteq> []"
  shows "integer_part fo s \<noteq> SFault" and "integer_part fo s = SOk s' n \<Longrightarrow> stops_inside s' s \<and> small_number n"
proof -
  obtain c r where s: "s = c # r" using assms by (cases s) auto
  show "integer_part fo s \<noteq> SFault" using int_digits_cases(1) [OF assms] by (simp add: integer_part_def s)
  assume "integer_part fo s = SOk s' n"
  then show "stops_inside s' s \<and> small_number n"
    using int_digits_cases(2,3) [OF assms, of fo "AInt 0" s' n]
    by (auto simp: integer_part_def s stops_inside_Cons split: if_splits)
qed

lemma fraction_part_cases:
  assumes "s \<noteq> []"
  shows "fraction_part fo n s \<noteq> SFault"
    and "fraction_part fo n s = SOk s' (n', x) \<Longrightarrow> suffix s' s \<and> s' \<noteq> [] \<and>
      (small_number n \<longrightarrow> small_number n') \<and> (x = 0 \<or> (\<exists>d. n' = ADbl d))"
proof -
  obtain c r where s: "s = c # r" using assms by (cases s) auto
  show "fraction_part fo n s \<noteq> SFault"
    using fraction_digits_cases(1) by (auto simp: fraction_part_def s split: scan.splits)
  assume "fraction_part fo n s = SOk s' (n', x)"
  then show "suffix s' s \<and> s' \<noteq> [] \<and> (small_number n \<longrightarrow> small_number n') \<and> (x = 0 \<or> (\<exists>d. n' = ADbl d))"
    by (auto simp: fraction_part_def s split: if_splits scan.splits dest!: fraction_digits_cases(2) [rotated] stops_inside_suffix
        intro: suffix_ConsI)
qed

lemma exponent_part_cases:
  assumes "s \<noteq> []"
  shows "exponent_part fo n x s \<noteq> SFault"
    and "exponent_part fo n x s = SOk s' (n', x') \<Longrightarrow> suffix s' s \<and> s' \<noteq> [] \<and>
      (small_number n \<longrightarrow> small_number n') \<and> ((n', x') = (n, x) \<or> (\<exists>d. n' = ADbl d))"
proof -
  obtain c r where s: "s = c # r" using assms by (cases s) auto
  show "exponent_part fo n x s \<noteq> SFault"
    using exponent_digits_cases(1) by (auto simp: exponent_part_def s Let_def split: scan.splits)
  assume ok: "exponent_part fo n x s = SOk s' (n', x')"
  show "suffix s' s \<and> s' \<noteq> [] \<and> (small_number n \<longrightarrow> small_number n') \<and> ((n', x') = (n, x) \<or> (\<exists>d. n' = ADbl d))"
  proof (cases "c = CHR ''e'' \<or> c = CHR ''E''")
    case True
    define r' where "r' = (if hd r = CHR ''-'' \<or> hd r = CHR ''+'' then tl r else r)"
    have "suffix r' s" using s by (auto simp: r'_def intro: suffix_ConsI suffix_order.trans [OF suffix_tl])
    from ok True s obtain y where y: "exponent_digits 0 r' = SOk s' y" "r' \<noteq> []" "n' = ADbl (as_double fo n)"
      by (auto simp: exponent_part_def Let_def r'_def split: if_splits scan.splits)
    from stops_inside_suffix [OF exponent_digits_cases(2) [OF y(2,1)]] y(3) \<open>suffix r' s\<close> show ?thesis
      by (auto intro: suffix_order.trans)
  next
    case False
    with ok s show ?thesis by (auto simp: exponent_part_def)
  qed
qed

lemma scan_unsigned_cases:
  assumes "s \<noteq> []"
  shows "scan_unsigned fo s \<noteq> SFault" and "scan_unsigned fo s = SOk s' n \<Longrightarrow> stops_inside s' s \<and> small_number n"
proof -
  consider e t where "integer_part fo s = SErr e t" | s2 n2 where "integer_part fo s = SOk s2 n2"
    using integer_part_cases(1) [OF assms, of fo] by (cases "integer_part fo s") auto
  then have "scan_unsigned fo s \<noteq> SFault \<and> (scan_unsigned fo s = SOk s' n \<longrightarrow> stops_inside s' s \<and> small_number n)"
  proof cases
    case i: 2
    then have 2: "stops_inside s2 s" "s2 \<noteq> []" "small_number n2"
      using integer_part_cases(2) [OF assms i] by (simp_all add: stops_inside_def)
    consider e t where "fraction_part fo n2 s2 = SErr e t" | s3 n3 x3 where "fraction_part fo n2 s2 = SOk s3 (n3, x3)"
      using fraction_part_cases(1) [OF 2(2), of fo n2] by (cases "fraction_part fo n2 s2") auto
    then show ?thesis
    proof cases
      case f: 2
      note 3 = fraction_part_cases(2) [OF 2(2) f]
      then have ne: "s3 \<noteq> []" by simp
      consider e t where "exponent_part fo n3 x3 s3 = SErr e t" | s4 n4 x4 where "exponent_part fo n3 x3 s3 = SOk s4 (n4, x4)"
        using exponent_part_cases(1) [OF ne, of fo n3 x3] by (cases "exponent_part fo n3 x3 s3") auto
      then show ?thesis
      proof cases
        case e: 2
        note 4 = exponent_part_cases(2) [OF ne e]
        with 3 have "scale_number fo n4 x4 \<noteq> None" by (auto simp: scale_number_def)
        then obtain n5 where "scale_number fo n4 x4 = Some n5" by blast
        moreover from this have "small_number n5" using 2(3) 3 4
          by (auto simp: scale_number_def split: if_splits number.splits)
        moreover have "stops_inside s4 s" using 2(1) 3 4 unfolding stops_inside_def
          by (meson suffix_order.le_less_trans suffix_order.trans)
        ultimately show ?thesis by (auto simp: scan_unsigned_def i f e)
      qed (simp add: scan_unsigned_def i f)
    qed (simp add: scan_unsigned_def i)
  qed (simp add: scan_unsigned_def)
  then show "scan_unsigned fo s \<noteq> SFault" "scan_unsigned fo s = SOk s' n \<Longrightarrow> stops_inside s' s \<and> small_number n" by blast+
qed

lemma scan_number_cases:
  assumes "s \<noteq> []"
  shows "scan_number fo s \<noteq> SFault"
    and "scan_number fo s = SOk s' n \<Longrightarrow> stops_inside s' s"
    and "scan_number fo s = SOk s' (AInt i) \<Longrightarrow> \<bar>i\<bar> \<le> 2147483559"
proof -
  obtain c r where s: "s = c # r" using assms by (cases s) auto
  show "stops_inside s' s" if "scan_number fo s = SOk s' n"
    using that scan_unsigned_cases [OF assms, of fo] scan_unsigned_cases [of r fo] stops_inside_trans [of s' r s]
    by (auto simp: scan_number_def s suffix_ConsI split: if_splits scan.splits)
  show "scan_number fo s \<noteq> SFault"
    using scan_unsigned_cases(1) [OF assms, of fo] scan_unsigned_cases(1) [of r fo]
    by (auto simp: scan_number_def s split: scan.splits)
  assume ok: "scan_number fo s = SOk s' (AInt i)"
  then consider "scan_unsigned fo s = SOk s' (AInt i)" | "r \<noteq> []" "scan_unsigned fo r = SOk s' (AInt (- i))"
    by (auto simp: scan_number_def s negate_number_def split: if_splits scan.splits number.splits)
  then show "\<bar>i\<bar> \<le> 2147483559"
    using scan_unsigned_cases(2) [OF assms, of fo s' "AInt i"] scan_unsigned_cases(2) [of r fo s' "AInt (- i)"] by cases auto
qed

end
