(* ===== verification/SajsonAllocators.thy ===== *)
theory SajsonAllocators
  imports Prelude
begin

text \<open>
  The three allocation policies of \<open>src/Serialize/JsonDeserializer.sajson.cpp\<close>. Each has a stack of words that
  grows up and a syntax tree of words that grows down: in \<open>single_allocation\<close> both share one buffer without any check,
  in \<open>bounded_allocation\<close> they share one buffer and every growth is checked, in \<open>dynamic_allocation\<close> each has a buffer
  of its own that is replaced by one twice as large.

  A policy is a record of its operations, as the class is an argument of the template \<open>parser\<close>. A pointer into the
  stack is its offset from the bottom, a pointer into the tree its distance from the end, which is what
  \<open>get_write_offset\<close> and \<open>get_write_pointer_of\<close> count in and which stays true when a buffer moves. An access outside
  the buffer is \<open>BadAccess\<close> or \<open>None\<close>. \<open>fresh\<close> stands for \<open>new(std::nothrow) size_t[n]\<close>: \<open>None\<close> when it fails,
  else whatever the words of the new buffer happen to hold. The capacities are natural numbers. Freeing the buffers and moving
  them to the document is not modelled.
\<close>

type_synonym fresh = "nat \<Rightarrow> (nat \<Rightarrow> u64) option"

definition new_words :: "fresh \<Rightarrow> nat \<Rightarrow> u64 list option" where
  "new_words fresh n = map_option (\<lambda>f. map f [0..<n]) (fresh n)"

lemma length_new_words: "new_words fresh n = Some ws \<Longrightarrow> length ws = n"
  by (auto simp: new_words_def)

datatype 's ares = Done 's | NoMemory | BadAccess

record 's alloc_ops =
  ao_start :: "nat \<Rightarrow> 's option"
  ao_top :: "'s \<Rightarrow> nat"
  ao_push :: "u64 \<Rightarrow> 's \<Rightarrow> 's ares"
  ao_stack_reserve :: "nat \<Rightarrow> 's \<Rightarrow> 's ares"
  ao_reset :: "nat \<Rightarrow> 's \<Rightarrow> 's"
  ao_load_stack :: "'s \<Rightarrow> nat \<Rightarrow> u64 option"
  ao_store_stack :: "nat \<Rightarrow> u64 \<Rightarrow> 's \<Rightarrow> 's option"
  ao_write_offset :: "'s \<Rightarrow> nat"
  ao_reserve :: "nat \<Rightarrow> 's \<Rightarrow> 's ares"
  ao_load_ast :: "'s \<Rightarrow> nat \<Rightarrow> u64 option"
  ao_store_ast :: "nat \<Rightarrow> u64 \<Rightarrow> 's \<Rightarrow> 's option"

section \<open>\<open>single_allocation\<close>\<close>

text \<open>\<open>structure\<close> is the buffer, \<open>structure_end\<close> an index, \<open>stack_top\<close> an index, and \<open>write_cursor\<close> the distance from the end.\<close>

record single =
  sg_structure :: "u64 list"
  sg_structure_end :: nat
  sg_stack_top :: nat
  sg_written :: nat

definition single_push :: "u64 \<Rightarrow> single \<Rightarrow> single ares" where
  "single_push element s =
     (if sg_stack_top s < length (sg_structure s) then
        Done (s\<lparr>sg_structure := (sg_structure s)[sg_stack_top s := element], sg_stack_top := sg_stack_top s + 1\<rparr>)
      else BadAccess)"

definition single_stack_reserve :: "nat \<Rightarrow> single \<Rightarrow> single ares" where
  "single_stack_reserve amount s = Done (s\<lparr>sg_stack_top := sg_stack_top s + amount\<rparr>)"

definition single_reset :: "nat \<Rightarrow> single \<Rightarrow> single" where
  "single_reset new_top s = s\<lparr>sg_stack_top := new_top\<rparr>"

definition single_load_stack :: "single \<Rightarrow> nat \<Rightarrow> u64 option" where
  "single_load_stack s i = (if i < length (sg_structure s) then Some (sg_structure s ! i) else None)"

definition single_store_stack :: "nat \<Rightarrow> u64 \<Rightarrow> single \<Rightarrow> single option" where
  "single_store_stack i w s =
     (if i < length (sg_structure s) then Some (s\<lparr>sg_structure := (sg_structure s)[i := w]\<rparr>) else None)"

definition single_reserve :: "nat \<Rightarrow> single \<Rightarrow> single ares" where
  "single_reserve amount s = Done (s\<lparr>sg_written := sg_written s + amount\<rparr>)"

definition single_load_ast :: "single \<Rightarrow> nat \<Rightarrow> u64 option" where
  "single_load_ast s d =
     (if 1 \<le> d \<and> d \<le> sg_structure_end s then single_load_stack s (sg_structure_end s - d) else None)"

definition single_store_ast :: "nat \<Rightarrow> u64 \<Rightarrow> single \<Rightarrow> single option" where
  "single_store_ast d w s =
     (if 1 \<le> d \<and> d \<le> sg_structure_end s then single_store_stack (sg_structure_end s - d) w s else None)"

text \<open>
  \<open>make_allocator\<close> and \<open>get_stack_head\<close>, with an existing buffer or with a new one of one word for each byte.
\<close>

definition single_start :: "fresh \<Rightarrow> u64 list option \<Rightarrow> nat \<Rightarrow> single option" where
  "single_start fresh existing n =
     (let new = (\<lambda>buffer. \<lparr>sg_structure = buffer, sg_structure_end = n, sg_stack_top = 0, sg_written = 0\<rparr>)
      in case existing of
           Some buffer \<Rightarrow> if length buffer < n then None else Some (new buffer)
         | None \<Rightarrow> map_option new (new_words fresh n))"

definition single_ops :: "fresh \<Rightarrow> u64 list option \<Rightarrow> single alloc_ops" where
  "single_ops fresh existing =
     \<lparr>ao_start = single_start fresh existing, ao_top = sg_stack_top, ao_push = single_push,
      ao_stack_reserve = single_stack_reserve, ao_reset = single_reset, ao_load_stack = single_load_stack,
      ao_store_stack = single_store_stack, ao_write_offset = sg_written, ao_reserve = single_reserve,
      ao_load_ast = single_load_ast, ao_store_ast = single_store_ast\<rparr>"

section \<open>\<open>bounded_allocation\<close>\<close>

record bounded =
  bd_structure :: "u64 list"
  bd_written :: nat
  bd_stack_top :: nat

text \<open>\<open>can_grow\<close>: the difference of \<open>write_cursor\<close> and \<open>stack_top\<close>, which is not negative.\<close>

definition bounded_can_grow :: "nat \<Rightarrow> bounded \<Rightarrow> bool" where
  "bounded_can_grow amount s \<longleftrightarrow> amount \<le> length (bd_structure s) - bd_written s - bd_stack_top s"

definition bounded_store_stack :: "nat \<Rightarrow> u64 \<Rightarrow> bounded \<Rightarrow> bounded option" where
  "bounded_store_stack i w s =
     (if i < length (bd_structure s) then Some (s\<lparr>bd_structure := (bd_structure s)[i := w]\<rparr>) else None)"

definition bounded_push :: "u64 \<Rightarrow> bounded \<Rightarrow> bounded ares" where
  "bounded_push element s =
     (if bounded_can_grow 1 s then
        case bounded_store_stack (bd_stack_top s) element s of
          None \<Rightarrow> BadAccess
        | Some s' \<Rightarrow> Done (s'\<lparr>bd_stack_top := bd_stack_top s' + 1\<rparr>)
      else NoMemory)"

definition bounded_stack_reserve :: "nat \<Rightarrow> bounded \<Rightarrow> bounded ares" where
  "bounded_stack_reserve amount s =
     (if bounded_can_grow amount s then Done (s\<lparr>bd_stack_top := bd_stack_top s + amount\<rparr>) else NoMemory)"

definition bounded_reset :: "nat \<Rightarrow> bounded \<Rightarrow> bounded" where
  "bounded_reset new_top s = s\<lparr>bd_stack_top := new_top\<rparr>"

definition bounded_load_stack :: "bounded \<Rightarrow> nat \<Rightarrow> u64 option" where
  "bounded_load_stack s i = (if i < length (bd_structure s) then Some (bd_structure s ! i) else None)"

definition bounded_reserve :: "nat \<Rightarrow> bounded \<Rightarrow> bounded ares" where
  "bounded_reserve amount s =
     (if bounded_can_grow amount s then Done (s\<lparr>bd_written := bd_written s + amount\<rparr>) else NoMemory)"

definition bounded_load_ast :: "bounded \<Rightarrow> nat \<Rightarrow> u64 option" where
  "bounded_load_ast s d =
     (if 1 \<le> d \<and> d \<le> length (bd_structure s) then bounded_load_stack s (length (bd_structure s) - d) else None)"

definition bounded_store_ast :: "nat \<Rightarrow> u64 \<Rightarrow> bounded \<Rightarrow> bounded option" where
  "bounded_store_ast d w s =
     (if 1 \<le> d \<and> d \<le> length (bd_structure s) then bounded_store_stack (length (bd_structure s) - d) w s else None)"

definition bounded_start :: "u64 list \<Rightarrow> nat \<Rightarrow> bounded option" where
  "bounded_start existing n = Some \<lparr>bd_structure = existing, bd_written = 0, bd_stack_top = 0\<rparr>"

definition bounded_ops :: "u64 list \<Rightarrow> bounded alloc_ops" where
  "bounded_ops existing =
     \<lparr>ao_start = bounded_start existing, ao_top = bd_stack_top, ao_push = bounded_push,
      ao_stack_reserve = bounded_stack_reserve, ao_reset = bounded_reset, ao_load_stack = bounded_load_stack,
      ao_store_stack = bounded_store_stack, ao_write_offset = bd_written, ao_reserve = bounded_reserve,
      ao_load_ast = bounded_load_ast, ao_store_ast = bounded_store_ast\<rparr>"

section \<open>\<open>dynamic_allocation\<close>\<close>

record dynamic =
  dy_stack :: "u64 list"
  dy_stack_top :: nat
  dy_ast :: "u64 list"
  dy_written :: nat

text \<open>
  The loop that doubles the capacity; it never ends from zero, which is \<open>None\<close> here.
\<close>

function double_until :: "nat \<Rightarrow> nat \<Rightarrow> nat option" where
  "double_until new_capacity needed =
     (if new_capacity \<ge> needed then Some new_capacity
      else if new_capacity = 0 then None
      else double_until (new_capacity * 2) needed)"
  by pat_completeness auto
termination by (relation "measure (\<lambda>(c, n). n - c)") auto

declare double_until.simps [simp del]

definition stack_can_grow :: "fresh \<Rightarrow> nat \<Rightarrow> dynamic \<Rightarrow> dynamic ares" where
  "stack_can_grow fresh amount s =
     (if amount \<le> length (dy_stack s) - dy_stack_top s then Done s
      else case double_until (length (dy_stack s) * 2) (amount + dy_stack_top s) of
        None \<Rightarrow> BadAccess
      | Some new_capacity \<Rightarrow>
          (case new_words fresh new_capacity of
             None \<Rightarrow> NoMemory
           | Some new_stack \<Rightarrow>
               Done (s\<lparr>dy_stack := take (dy_stack_top s) (dy_stack s) @ drop (dy_stack_top s) new_stack\<rparr>)))"

definition ast_can_grow :: "fresh \<Rightarrow> nat \<Rightarrow> dynamic \<Rightarrow> dynamic ares" where
  "ast_can_grow fresh amount s =
     (if amount \<le> length (dy_ast s) - dy_written s then Done s
      else case double_until (length (dy_ast s) * 2) (amount + dy_written s) of
        None \<Rightarrow> BadAccess
      | Some new_capacity \<Rightarrow>
          (case new_words fresh new_capacity of
             None \<Rightarrow> NoMemory
           | Some new_buffer \<Rightarrow>
               Done (s\<lparr>dy_ast := take (length new_buffer - dy_written s) new_buffer @
                                 drop (length (dy_ast s) - dy_written s) (dy_ast s)\<rparr>)))"

definition dynamic_store_stack :: "nat \<Rightarrow> u64 \<Rightarrow> dynamic \<Rightarrow> dynamic option" where
  "dynamic_store_stack i w s =
     (if i < length (dy_stack s) then Some (s\<lparr>dy_stack := (dy_stack s)[i := w]\<rparr>) else None)"

definition dynamic_push :: "fresh \<Rightarrow> u64 \<Rightarrow> dynamic \<Rightarrow> dynamic ares" where
  "dynamic_push fresh element s =
     (case stack_can_grow fresh 1 s of
        Done s' \<Rightarrow> (case dynamic_store_stack (dy_stack_top s') element s' of
                      None \<Rightarrow> BadAccess
                    | Some s'' \<Rightarrow> Done (s''\<lparr>dy_stack_top := dy_stack_top s'' + 1\<rparr>))
      | NoMemory \<Rightarrow> NoMemory
      | BadAccess \<Rightarrow> BadAccess)"

definition dynamic_stack_reserve :: "fresh \<Rightarrow> nat \<Rightarrow> dynamic \<Rightarrow> dynamic ares" where
  "dynamic_stack_reserve fresh amount s =
     (case stack_can_grow fresh amount s of
        Done s' \<Rightarrow> Done (s'\<lparr>dy_stack_top := dy_stack_top s' + amount\<rparr>)
      | NoMemory \<Rightarrow> NoMemory
      | BadAccess \<Rightarrow> BadAccess)"

definition dynamic_reset :: "nat \<Rightarrow> dynamic \<Rightarrow> dynamic" where
  "dynamic_reset new_top s = s\<lparr>dy_stack_top := new_top\<rparr>"

definition dynamic_load_stack :: "dynamic \<Rightarrow> nat \<Rightarrow> u64 option" where
  "dynamic_load_stack s i = (if i < length (dy_stack s) then Some (dy_stack s ! i) else None)"

definition dynamic_reserve :: "fresh \<Rightarrow> nat \<Rightarrow> dynamic \<Rightarrow> dynamic ares" where
  "dynamic_reserve fresh amount s =
     (case ast_can_grow fresh amount s of
        Done s' \<Rightarrow> Done (s'\<lparr>dy_written := dy_written s' + amount\<rparr>)
      | NoMemory \<Rightarrow> NoMemory
      | BadAccess \<Rightarrow> BadAccess)"

definition dynamic_load_ast :: "dynamic \<Rightarrow> nat \<Rightarrow> u64 option" where
  "dynamic_load_ast s d =
     (if 1 \<le> d \<and> d \<le> length (dy_ast s) then Some (dy_ast s ! (length (dy_ast s) - d)) else None)"

definition dynamic_store_ast :: "nat \<Rightarrow> u64 \<Rightarrow> dynamic \<Rightarrow> dynamic option" where
  "dynamic_store_ast d w s =
     (if 1 \<le> d \<and> d \<le> length (dy_ast s) then Some (s\<lparr>dy_ast := (dy_ast s)[length (dy_ast s) - d := w]\<rparr>) else None)"

text \<open>\<open>make_allocator\<close> with the two capacities given to the policy, where zero stands for a default, then \<open>get_stack_head\<close>.\<close>

definition dynamic_start :: "fresh \<Rightarrow> nat \<Rightarrow> nat \<Rightarrow> nat \<Rightarrow> dynamic option" where
  "dynamic_start fresh initial_ast_capacity initial_stack_capacity n =
     (case new_words fresh (if initial_ast_capacity = 0 then 1024 else initial_ast_capacity) of
        None \<Rightarrow> None
      | Some buffer \<Rightarrow>
          (case new_words fresh (if initial_stack_capacity = 0 then 256 else initial_stack_capacity) of
             None \<Rightarrow> None
           | Some stack \<Rightarrow> Some \<lparr>dy_stack = stack, dy_stack_top = 0, dy_ast = buffer, dy_written = 0\<rparr>))"

definition dynamic_ops :: "fresh \<Rightarrow> nat \<Rightarrow> nat \<Rightarrow> dynamic alloc_ops" where
  "dynamic_ops fresh initial_ast_capacity initial_stack_capacity =
     \<lparr>ao_start = dynamic_start fresh initial_ast_capacity initial_stack_capacity, ao_top = dy_stack_top,
      ao_push = dynamic_push fresh, ao_stack_reserve = dynamic_stack_reserve fresh, ao_reset = dynamic_reset,
      ao_load_stack = dynamic_load_stack, ao_store_stack = dynamic_store_stack, ao_write_offset = dy_written,
      ao_reserve = dynamic_reserve fresh, ao_load_ast = dynamic_load_ast, ao_store_ast = dynamic_store_ast\<rparr>"

section \<open>What the parser relies on\<close>

text \<open>
  The contract, for a text of \<open>N\<close> bytes: the stack below its top and the tree above its cursor keep their words
  under every operation, as long as the stack slot \<open>i\<close> and the tree slot at distance \<open>d\<close> from the end that are
  concerned lie in that order in a buffer of \<open>N\<close> words, \<open>i + d < N\<close>. Growth may fail for lack of memory. Nothing is
  accessed outside the buffers while offsets and distances stay within \<open>N\<close>.
\<close>

locale sajson_allocator =
  fixes ops :: "'s alloc_ops" and N :: nat and inv :: "'s \<Rightarrow> bool"
  assumes start: "ao_start ops N = Some s \<Longrightarrow> inv s \<and> ao_top ops s = 0 \<and> ao_write_offset ops s = 0"
    and push_safe: "inv s \<Longrightarrow> ao_top ops s < N \<Longrightarrow> ao_push ops x s \<noteq> BadAccess"
    and push: "inv s \<Longrightarrow> ao_push ops x s = Done s' \<Longrightarrow>
      inv s' \<and> ao_top ops s' = Suc (ao_top ops s) \<and> ao_write_offset ops s' = ao_write_offset ops s \<and>
      ao_load_stack ops s' (ao_top ops s) = Some x \<and>
      (\<forall>i < ao_top ops s. ao_load_stack ops s' i = ao_load_stack ops s i) \<and>
      (\<forall>d. 1 \<le> d \<and> d \<le> ao_write_offset ops s \<and> ao_top ops s + d < N \<longrightarrow> ao_load_ast ops s' d = ao_load_ast ops s d)"
    and stack_reserve: "inv s \<Longrightarrow> ao_stack_reserve ops n s \<noteq> BadAccess \<and>
      (\<forall>s'. ao_stack_reserve ops n s = Done s' \<longrightarrow>
        inv s' \<and> ao_top ops s' = ao_top ops s + n \<and> ao_write_offset ops s' = ao_write_offset ops s \<and>
        (\<forall>i < ao_top ops s. ao_load_stack ops s' i = ao_load_stack ops s i) \<and>
        (\<forall>d. 1 \<le> d \<and> d \<le> ao_write_offset ops s \<longrightarrow> ao_load_ast ops s' d = ao_load_ast ops s d))"
    and reset: "inv s \<Longrightarrow> n \<le> ao_top ops s \<Longrightarrow>
      inv (ao_reset ops n s) \<and> ao_top ops (ao_reset ops n s) = n \<and>
      ao_write_offset ops (ao_reset ops n s) = ao_write_offset ops s \<and>
      ao_load_stack ops (ao_reset ops n s) = ao_load_stack ops s \<and> ao_load_ast ops (ao_reset ops n s) = ao_load_ast ops s"
    and load_stack: "inv s \<Longrightarrow> i < ao_top ops s \<Longrightarrow> i < N \<Longrightarrow> ao_load_stack ops s i \<noteq> None"
    and store_stack: "inv s \<Longrightarrow> i < ao_top ops s \<Longrightarrow> i < N \<Longrightarrow>
      (\<exists>s'. ao_store_stack ops i w s = Some s' \<and> inv s' \<and> ao_top ops s' = ao_top ops s \<and>
        ao_write_offset ops s' = ao_write_offset ops s \<and> ao_load_stack ops s' i = Some w \<and>
        (\<forall>j < ao_top ops s. j \<noteq> i \<longrightarrow> ao_load_stack ops s' j = ao_load_stack ops s j) \<and>
        (\<forall>d. 1 \<le> d \<and> d \<le> ao_write_offset ops s \<and> i + d < N \<longrightarrow> ao_load_ast ops s' d = ao_load_ast ops s d))"
    and reserve: "inv s \<Longrightarrow> ao_reserve ops n s \<noteq> BadAccess \<and>
      (\<forall>s'. ao_reserve ops n s = Done s' \<longrightarrow>
        inv s' \<and> ao_top ops s' = ao_top ops s \<and> ao_write_offset ops s' = ao_write_offset ops s + n \<and>
        (\<forall>i < ao_top ops s. ao_load_stack ops s' i = ao_load_stack ops s i) \<and>
        (\<forall>d. 1 \<le> d \<and> d \<le> ao_write_offset ops s \<longrightarrow> ao_load_ast ops s' d = ao_load_ast ops s d))"
    and load_ast: "inv s \<Longrightarrow> 1 \<le> d \<Longrightarrow> d \<le> ao_write_offset ops s \<Longrightarrow> d \<le> N \<Longrightarrow> ao_load_ast ops s d \<noteq> None"
    and store_ast: "inv s \<Longrightarrow> 1 \<le> d \<Longrightarrow> d \<le> ao_write_offset ops s \<Longrightarrow> d \<le> N \<Longrightarrow>
      (\<exists>s'. ao_store_ast ops d w s = Some s' \<and> inv s' \<and> ao_top ops s' = ao_top ops s \<and>
        ao_write_offset ops s' = ao_write_offset ops s \<and> ao_load_ast ops s' d = Some w \<and>
        (\<forall>e. 1 \<le> e \<and> e \<le> ao_write_offset ops s \<and> e \<noteq> d \<longrightarrow> ao_load_ast ops s' e = ao_load_ast ops s e) \<and>
        (\<forall>i < ao_top ops s. i + d < N \<longrightarrow> ao_load_stack ops s' i = ao_load_stack ops s i))"

section \<open>The three policies keep the contract\<close>

definition single_inv :: "nat \<Rightarrow> single \<Rightarrow> bool" where
  "single_inv n s \<longleftrightarrow> sg_structure_end s = n \<and> n \<le> length (sg_structure s)"

definition bounded_inv :: "bounded \<Rightarrow> bool" where
  "bounded_inv s \<longleftrightarrow> bd_stack_top s + bd_written s \<le> length (bd_structure s)"

definition dynamic_inv :: "dynamic \<Rightarrow> bool" where
  "dynamic_inv s \<longleftrightarrow> dy_stack_top s \<le> length (dy_stack s) \<and> dy_written s \<le> length (dy_ast s) \<and>
     0 < length (dy_stack s) \<and> 0 < length (dy_ast s)"

lemmas single_defs = single_ops_def single_start_def single_push_def single_stack_reserve_def single_reset_def
  single_load_stack_def single_store_stack_def single_reserve_def single_load_ast_def single_store_ast_def single_inv_def

interpretation single: sajson_allocator "single_ops fresh existing" N "single_inv N" for fresh existing N
  by unfold_locales
    (auto simp: single_defs length_new_words Let_def nth_list_update split: option.splits if_splits)

lemmas bounded_defs = bounded_ops_def bounded_start_def bounded_can_grow_def bounded_push_def bounded_stack_reserve_def
  bounded_reset_def bounded_load_stack_def bounded_store_stack_def bounded_reserve_def bounded_load_ast_def
  bounded_store_ast_def bounded_inv_def

interpretation bounded: sajson_allocator "bounded_ops existing" N bounded_inv for existing N
  by unfold_locales (auto simp: bounded_defs nth_list_update split: option.splits if_splits)

lemma double_until_Some: "0 < c \<Longrightarrow> \<exists>c'. double_until c n = Some c' \<and> c \<le> c' \<and> n \<le> c'"
proof (induction c n rule: double_until.induct)
  case (1 c n)
  show ?case
  proof (cases "n \<le> c")
    case True
    then show ?thesis by (simp add: double_until.simps)
  next
    case False
    with 1 obtain c' where "double_until (c * 2) n = Some c'" "c * 2 \<le> c'" "n \<le> c'" by auto
    with False 1(2) show ?thesis by (subst double_until.simps) simp
  qed
qed

lemma stack_can_grow_cases:
  assumes "dynamic_inv s"
  shows "stack_can_grow fresh n s \<noteq> BadAccess"
    and "stack_can_grow fresh n s = Done s' \<Longrightarrow> dynamic_inv s' \<and> dy_stack_top s + n \<le> length (dy_stack s') \<and>
      dy_stack_top s' = dy_stack_top s \<and> dy_ast s' = dy_ast s \<and> dy_written s' = dy_written s \<and>
      (\<forall>i < dy_stack_top s. dynamic_load_stack s' i = dynamic_load_stack s i)"
  using assms double_until_Some [of "length (dy_stack s) * 2" "n + dy_stack_top s"]
  by (auto simp: stack_can_grow_def dynamic_inv_def dynamic_load_stack_def nth_append dest!: length_new_words
      split: if_splits option.splits)

lemma ast_can_grow_cases:
  assumes "dynamic_inv s"
  shows "ast_can_grow fresh n s \<noteq> BadAccess"
    and "ast_can_grow fresh n s = Done s' \<Longrightarrow> dynamic_inv s' \<and> dy_written s + n \<le> length (dy_ast s') \<and>
      dy_stack_top s' = dy_stack_top s \<and> dy_stack s' = dy_stack s \<and> dy_written s' = dy_written s \<and>
      (\<forall>d. 1 \<le> d \<and> d \<le> dy_written s \<longrightarrow> dynamic_load_ast s' d = dynamic_load_ast s d)"
  using assms double_until_Some [of "length (dy_ast s) * 2" "n + dy_written s"]
  by (auto simp: ast_can_grow_def dynamic_inv_def dynamic_load_ast_def nth_append dest!: length_new_words
      split: if_splits option.splits)

lemma dynamic_load_cong:
  "dynamic_load_stack (s\<lparr>dy_stack_top := t\<rparr>) = dynamic_load_stack s" "dynamic_load_stack (s\<lparr>dy_written := t\<rparr>) = dynamic_load_stack s"
  "dynamic_load_ast (s\<lparr>dy_stack_top := t\<rparr>) = dynamic_load_ast s" "dynamic_load_ast (s\<lparr>dy_written := t\<rparr>) = dynamic_load_ast s"
  by (simp_all add: dynamic_load_stack_def dynamic_load_ast_def fun_eq_iff)

lemmas dynamic_defs = dynamic_ops_def dynamic_start_def dynamic_push_def dynamic_stack_reserve_def dynamic_reset_def
  dynamic_store_stack_def dynamic_reserve_def dynamic_store_ast_def

interpretation dynamic: sajson_allocator "dynamic_ops fresh a b" N dynamic_inv for fresh a b N
proof (unfold_locales, goal_cases)
  case (1 s)
  then show ?case by (auto simp: dynamic_defs dynamic_inv_def dest!: length_new_words split: option.splits if_splits)
next
  case (2 s x)
  then show ?case using stack_can_grow_cases [OF 2(1), of fresh 1]
    by (auto simp: dynamic_defs split: ares.splits option.splits)
next
  case (3 s x s')
  then obtain s1 where 1: "stack_can_grow fresh 1 s = Done s1"
    by (auto simp: dynamic_defs split: ares.splits)
  with 3 stack_can_grow_cases(2) [OF 3(1) 1] show ?case
    by (auto simp: dynamic_defs dynamic_inv_def dynamic_load_stack_def dynamic_load_ast_def split: if_splits)
next
  case (4 s n)
  show ?case
  proof (cases "stack_can_grow fresh n s")
    case (Done s1)
    with stack_can_grow_cases(2) [OF 4 this] show ?thesis
      by (elim conjE) (simp add: dynamic_defs dynamic_load_cong dynamic_inv_def dynamic_load_ast_def)
  qed (use stack_can_grow_cases(1) [OF 4, of fresh n] in \<open>simp_all add: dynamic_defs\<close>)
next
  case (5 s n)
  then show ?case by (auto simp: dynamic_defs dynamic_inv_def dynamic_load_stack_def dynamic_load_ast_def)
next
  case (6 s i)
  then show ?case by (auto simp: dynamic_defs dynamic_inv_def dynamic_load_stack_def)
next
  case (7 s i w)
  then show ?case by (auto simp: dynamic_defs dynamic_inv_def dynamic_load_stack_def dynamic_load_ast_def)
next
  case (8 s n)
  show ?case
  proof (cases "ast_can_grow fresh n s")
    case (Done s1)
    with ast_can_grow_cases(2) [OF 8 this] show ?thesis
      by (elim conjE) (simp add: dynamic_defs dynamic_load_cong dynamic_inv_def dynamic_load_stack_def)
  qed (use ast_can_grow_cases(1) [OF 8, of fresh n] in \<open>simp_all add: dynamic_defs\<close>)
next
  case (9 s d)
  then show ?case by (auto simp: dynamic_defs dynamic_inv_def dynamic_load_ast_def)
next
  case (10 s d w)
  then show ?case by (auto simp: dynamic_defs dynamic_inv_def dynamic_load_stack_def dynamic_load_ast_def)
qed

end
