(* ===== verification/SajsonParser.thy ===== *)
theory SajsonParser
  imports SajsonText SajsonAllocators
begin

text \<open>
  The JSON parser \<open>sajson\<close>, second part: the state machine \<open>parser::parse\<close> over an allocation policy, the documents it
  returns and the class \<open>value\<close> that reads them.

  Each label of the function is a \<open>label\<close>, each stretch of code between two \<open>goto\<close>s a transition. The locals and the
  members that change are a \<open>pstate\<close>: the text, the allocator with its stack, \<open>p\<close>, \<open>current_base\<close> and
  \<open>current_structure_type\<close>. \<open>Crash\<close> is an access outside the text or a buffer, or an assertion that fails.
  \<open>std_sort\<close> stands for \<open>std::sort\<close>; of the members with equal keys the standard does not fix an order.
\<close>

section \<open>Keys of objects\<close>

record key_record =
  key_start :: u64
  key_end :: u64
  key_value :: u64

definition slice :: "string \<Rightarrow> u64 \<Rightarrow> u64 \<Rightarrow> string" where
  "slice text i j = take (unat (j - i)) (drop (unat i) text)"

fun bytes_less :: "string \<Rightarrow> string \<Rightarrow> bool" where
  "bytes_less (a # x) (b # y) \<longleftrightarrow> byte a < byte b \<or> a = b \<and> bytes_less x y"
| "bytes_less _ _ \<longleftrightarrow> False"

text \<open>The order of \<open>object_key_comparator\<close>: shorter keys first, keys of one length by \<open>memcmp\<close>.\<close>

definition key_less :: "string \<Rightarrow> string \<Rightarrow> bool" where
  "key_less x y \<longleftrightarrow> length x < length y \<or> length x = length y \<and> bytes_less x y"

definition record_key :: "string \<Rightarrow> key_record \<Rightarrow> string" where
  "record_key text r = slice text (key_start r) (key_end r)"

definition object_key_comparator :: "string \<Rightarrow> key_record \<Rightarrow> key_record \<Rightarrow> bool" where
  "object_key_comparator text lhs rhs =
     (let lhs_length = key_end lhs - key_start lhs; rhs_length = key_end rhs - key_start rhs
      in if lhs_length < rhs_length then True
         else if lhs_length > rhs_length then False
         else bytes_less (record_key text lhs) (record_key text rhs))"

text \<open>The bytes of a key lie in the text.\<close>

definition key_inside :: "string \<Rightarrow> key_record \<Rightarrow> bool" where
  "key_inside text r \<longleftrightarrow> key_start r \<le> key_end r \<and> unat (key_end r) \<le> length text"

type_synonym sorter = "(key_record \<Rightarrow> key_record \<Rightarrow> bool) \<Rightarrow> key_record list \<Rightarrow> key_record list"

section \<open>\<open>install_array\<close> and \<open>install_object\<close>\<close>

text \<open>
  The loop of \<open>install_array\<close>: \<open>k\<close> elements are left, \<open>out\<close> is the distance of the word written last and \<open>new_base\<close>
  that of the array.
\<close>

fun install_array_loop :: "'s alloc_ops \<Rightarrow> nat \<Rightarrow> nat \<Rightarrow> nat \<Rightarrow> nat \<Rightarrow> 's \<Rightarrow> 's option" where
  "install_array_loop ops new_base array_base 0 out a = Some a"
| "install_array_loop ops new_base array_base (Suc k) out a =
     (case ao_load_stack ops a (array_base + k) of
        None \<Rightarrow> None
      | Some element \<Rightarrow>
          (case ao_store_ast ops (out + 1)
                  (make_element (get_element_type element) (of_nat new_base - get_element_value element)) a of
             None \<Rightarrow> None
           | Some a' \<Rightarrow> install_array_loop ops new_base array_base k (out + 1) a'))"

definition ares_of :: "'s option \<Rightarrow> 's ares" where
  "ares_of r = (case r of None \<Rightarrow> BadAccess | Some a \<Rightarrow> Done a)"

definition install_array :: "'s alloc_ops \<Rightarrow> nat \<Rightarrow> nat \<Rightarrow> 's \<Rightarrow> 's ares" where
  "install_array ops array_base array_end a =
     (let n = array_end - array_base; out = ao_write_offset ops a; new_base = out + n + 1
      in case ao_reserve ops (n + 1) a of
           Done a1 \<Rightarrow>
             (case install_array_loop ops new_base array_base n out a1 of
                None \<Rightarrow> BadAccess
              | Some a2 \<Rightarrow> ares_of (ao_store_ast ops new_base (of_nat n) a2))
         | NoMemory \<Rightarrow> NoMemory
         | BadAccess \<Rightarrow> BadAccess)"

fun load_records :: "'s alloc_ops \<Rightarrow> 's \<Rightarrow> nat \<Rightarrow> nat \<Rightarrow> key_record list option" where
  "load_records ops a base 0 = Some []"
| "load_records ops a base (Suc n) =
     (case (ao_load_stack ops a base, ao_load_stack ops a (base + 1), ao_load_stack ops a (base + 2),
            load_records ops a (base + 3) n) of
        (Some x, Some y, Some z, Some rs) \<Rightarrow> Some (\<lparr>key_start = x, key_end = y, key_value = z\<rparr> # rs)
      | _ \<Rightarrow> None)"

fun store_words :: "'s alloc_ops \<Rightarrow> nat \<Rightarrow> u64 list \<Rightarrow> 's \<Rightarrow> 's option" where
  "store_words ops base [] a = Some a"
| "store_words ops base (w # ws) a =
     (case ao_store_stack ops base w a of None \<Rightarrow> None | Some a' \<Rightarrow> store_words ops (base + 1) ws a')"

definition record_words :: "key_record list \<Rightarrow> u64 list" where
  "record_words rs = concat (map (\<lambda>r. [key_start r, key_end r, key_value r]) rs)"

text \<open>The call of \<open>std::sort\<close> on the records in the stack.\<close>

definition sort_records :: "'s alloc_ops \<Rightarrow> sorter \<Rightarrow> string \<Rightarrow> nat \<Rightarrow> nat \<Rightarrow> 's \<Rightarrow> 's option" where
  "sort_records ops std_sort text base n a =
     (case load_records ops a base n of
        None \<Rightarrow> None
      | Some rs \<Rightarrow>
          if list_all (key_inside text) rs
          then store_words ops base (record_words (std_sort (object_key_comparator text) rs)) a
          else None)"

fun install_object_loop :: "'s alloc_ops \<Rightarrow> nat \<Rightarrow> nat \<Rightarrow> nat \<Rightarrow> nat \<Rightarrow> 's \<Rightarrow> 's option" where
  "install_object_loop ops new_base object_base 0 out a = Some a"
| "install_object_loop ops new_base object_base (Suc k) out a =
     (case ao_load_stack ops a (object_base + 3 * k + 2) of
        None \<Rightarrow> None
      | Some element \<Rightarrow>
          (case ao_store_ast ops (out + 1)
                  (make_element (get_element_type element) (of_nat new_base - get_element_value element)) a of
             None \<Rightarrow> None
           | Some a1 \<Rightarrow>
      (case ao_load_stack ops a1 (object_base + 3 * k + 1) of
         None \<Rightarrow> None
       | Some w \<Rightarrow>
           (case ao_store_ast ops (out + 2) w a1 of
              None \<Rightarrow> None
            | Some a2 \<Rightarrow>
      (case ao_load_stack ops a2 (object_base + 3 * k) of
         None \<Rightarrow> None
       | Some v \<Rightarrow>
           (case ao_store_ast ops (out + 3) v a2 of
              None \<Rightarrow> None
            | Some a3 \<Rightarrow> install_object_loop ops new_base object_base k (out + 3) a3))))))"

definition install_object :: "'s alloc_ops \<Rightarrow> sorter \<Rightarrow> string \<Rightarrow> nat \<Rightarrow> nat \<Rightarrow> 's \<Rightarrow> 's ares" where
  "install_object ops std_sort text object_base object_end a =
     (let length_times_3 = object_end - object_base; n = length_times_3 div 3
      in if length_times_3 mod 3 \<noteq> 0 then BadAccess
         else case sort_records ops std_sort text object_base n a of
           None \<Rightarrow> BadAccess
         | Some a0 \<Rightarrow>
             (let out = ao_write_offset ops a0; new_base = out + length_times_3 + 1
              in case ao_reserve ops (length_times_3 + 1) a0 of
                   Done a1 \<Rightarrow>
                     (case install_object_loop ops new_base object_base n out a1 of
                        None \<Rightarrow> BadAccess
                      | Some a2 \<Rightarrow> ares_of (ao_store_ast ops new_base (of_nat n) a2))
                 | NoMemory \<Rightarrow> NoMemory
                 | BadAccess \<Rightarrow> BadAccess))"

section \<open>The state machine\<close>

datatype label =
    Array_close_or_element
  | Object_close_or_element
  | Structure_close_or_comma
  | Pop_object
  | Pop_array
  | Object_key
  | Next_element

record 's pstate =
  ps_text :: string
  ps_alloc :: 's
  ps_p :: nat
  ps_base :: nat
  ps_type :: json_type

datatype 's transition = Goto label "'s pstate" | Return "'s pstate" | Fail parse_error | Crash

definition fail_at :: "'s pstate \<Rightarrow> nat option \<Rightarrow> json_error \<Rightarrow> 's transition" where
  "fail_at st p code = Fail (make_error (ps_text st) p code 0)"

text \<open>\<open>skip_whitespace\<close> from \<open>p\<close> on, then \<open>unexpected_end()\<close> or the code that looks at \<open>*p\<close>.\<close>

definition token :: "'s pstate \<Rightarrow> nat \<Rightarrow> (nat \<Rightarrow> char \<Rightarrow> 's transition) \<Rightarrow> 's transition" where
  "token st p k =
     (if p > length (ps_text st) then Crash
      else case skip_whitespace (ps_text st) p of
        None \<Rightarrow> fail_at st None ERROR_UNEXPECTED_END
      | Some q \<Rightarrow> k q (ps_text st ! q))"

text \<open>An operation of the allocator: \<open>oom(p)\<close> if it fails, else the code that goes on.\<close>

definition alloc :: "'s pstate \<Rightarrow> nat \<Rightarrow> 's ares \<Rightarrow> ('s \<Rightarrow> 's transition) \<Rightarrow> 's transition" where
  "alloc st p r k =
     (case r of Done a \<Rightarrow> k a | NoMemory \<Rightarrow> fail_at st (Some p) ERROR_OUT_OF_MEMORY | BadAccess \<Rightarrow> Crash)"

text \<open>The code behind the \<open>switch\<close>: the value just read goes on the stack.\<close>

definition push_value :: "'s alloc_ops \<Rightarrow> json_type \<Rightarrow> 's pstate \<Rightarrow> 's transition" where
  "push_value ops value_type_result st =
     alloc st (ps_p st) (ao_push ops (make_element value_type_result (of_nat (ao_write_offset ops (ps_alloc st)))) (ps_alloc st))
       (\<lambda>a. Goto Structure_close_or_comma (st\<lparr>ps_alloc := a\<rparr>))"

definition next_literal :: "'s alloc_ops \<Rightarrow> json_type \<Rightarrow> nat outcome \<Rightarrow> 's pstate \<Rightarrow> 's transition" where
  "next_literal ops t r st =
     (case r of Ok p \<Rightarrow> push_value ops t (st\<lparr>ps_p := p\<rparr>) | Err e \<Rightarrow> Fail e | Fault \<Rightarrow> Crash)"

text \<open>\<open>parse_number\<close>: the number is read, then a word for it is reserved and written.\<close>

definition store_number :: "'s alloc_ops \<Rightarrow> number \<Rightarrow> 's \<Rightarrow> 's option" where
  "store_number ops n a =
     (let d = ao_write_offset ops a
      in case n of
           ADbl x \<Rightarrow> ao_store_ast ops d x a
         | AInt i \<Rightarrow> (case ao_load_ast ops a d of None \<Rightarrow> None | Some old \<Rightarrow> ao_store_ast ops d (integer_store old i) a))"

definition parse_number :: "'s alloc_ops \<Rightarrow> float_ops \<Rightarrow> nat \<Rightarrow> 's pstate \<Rightarrow> 's transition" where
  "parse_number ops fo p st =
     (case scan_number fo (drop p (ps_text st)) of
        SFault \<Rightarrow> Crash
      | SErr e s' \<Rightarrow> Fail (error_at (ps_text st) e s')
      | SOk s' n \<Rightarrow>
          let q = length (ps_text st) - length s'
          in alloc st q (ao_reserve ops 1 (ps_alloc st)) (\<lambda>a.
               alloc st q (ares_of (store_number ops n a)) (\<lambda>a'.
                 push_value ops (case n of AInt i \<Rightarrow> TYPE_INTEGER | ADbl d \<Rightarrow> TYPE_DOUBLE)
                   (st\<lparr>ps_alloc := a', ps_p := q\<rparr>))))"

definition next_string :: "'s alloc_ops \<Rightarrow> nat \<Rightarrow> 's pstate \<Rightarrow> 's transition" where
  "next_string ops p st =
     alloc st p (ao_reserve ops 2 (ps_alloc st)) (\<lambda>a.
       case parse_string (ps_text st) p of
         Fault \<Rightarrow> Crash
       | Err e \<Rightarrow> Fail e
       | Ok (text', q, tag0, tag1) \<Rightarrow>
           let d = ao_write_offset ops a
           in alloc st q (ares_of (ao_store_ast ops d (of_nat tag0) a)) (\<lambda>a1.
                alloc st q (ares_of (ao_store_ast ops (d - 1) (of_nat tag1) a1)) (\<lambda>a2.
                  push_value ops TYPE_STRING (st\<lparr>ps_text := text', ps_alloc := a2, ps_p := q\<rparr>))))"

definition open_structure :: "'s alloc_ops \<Rightarrow> json_type \<Rightarrow> label \<Rightarrow> nat \<Rightarrow> 's pstate \<Rightarrow> 's transition" where
  "open_structure ops t l p st =
     alloc st p (ao_push ops (make_element (ps_type st) (of_nat (ps_base st))) (ps_alloc st)) (\<lambda>a.
       Goto l (st\<lparr>ps_alloc := a, ps_p := p, ps_base := ao_top ops (ps_alloc st), ps_type := t\<rparr>))"

definition step_next_element :: "'s alloc_ops \<Rightarrow> float_ops \<Rightarrow> 's pstate \<Rightarrow> 's transition" where
  "step_next_element ops fo st =
     token st (ps_p st) (\<lambda>p c.
       if c = CHR 0x00 then fail_at st (Some p) ERROR_UNEXPECTED_END
       else if c = CHR ''n'' then next_literal ops TYPE_NULL (parse_null (ps_text st) p) st
       else if c = CHR ''f'' then next_literal ops TYPE_FALSE (parse_false (ps_text st) p) st
       else if c = CHR ''t'' then next_literal ops TYPE_TRUE (parse_true (ps_text st) p) st
       else if is_digit c \<or> c = CHR ''-'' then parse_number ops fo p st
       else if c = CHR 0x22 then next_string ops p st
       else if c = CHR ''['' then open_structure ops TYPE_ARRAY Array_close_or_element p st
       else if c = CHR ''{'' then open_structure ops TYPE_OBJECT Object_close_or_element p st
       else if c = CHR '','' then fail_at st (Some p) ERROR_UNEXPECTED_COMMA
       else fail_at st (Some p) ERROR_EXPECTED_VALUE)"

definition step_object_key :: "'s alloc_ops \<Rightarrow> 's pstate \<Rightarrow> 's transition" where
  "step_object_key ops st =
     token st (ps_p st) (\<lambda>p c.
       if c \<noteq> CHR 0x22 then fail_at st (Some p) ERROR_MISSING_OBJECT_KEY
       else alloc st p (ao_stack_reserve ops 2 (ps_alloc st)) (\<lambda>a.
         case parse_string (ps_text st) p of
           Fault \<Rightarrow> Crash
         | Err e \<Rightarrow> Fail e
         | Ok (text', q, tag0, tag1) \<Rightarrow>
             let out = ao_top ops (ps_alloc st); st' = st\<lparr>ps_text := text'\<rparr>
             in alloc st' q (ares_of (ao_store_stack ops out (of_nat tag0) a)) (\<lambda>a1.
                  alloc st' q (ares_of (ao_store_stack ops (out + 1) (of_nat tag1) a1)) (\<lambda>a2.
                    if q > length text' then Crash
                    else case skip_whitespace text' q of
                      None \<Rightarrow> fail_at st' None ERROR_EXPECTED_COLON
                    | Some r \<Rightarrow>
                        if text' ! r \<noteq> CHR '':'' then fail_at st' (Some r) ERROR_EXPECTED_COLON
                        else Goto Next_element (st'\<lparr>ps_alloc := a2, ps_p := r + 1\<rparr>)))))"

text \<open>
  The label \<open>pop\<close>, with the element below the structure that was closed: the document is complete, or the structure
  is a value of the one around it.
\<close>

definition pop :: "'s alloc_ops \<Rightarrow> u64 \<Rightarrow> 's pstate \<Rightarrow> 's transition" where
  "pop ops pop_element st =
     (let parent = get_element_value pop_element
      in if parent = ROOT_MARKER then
           if ps_p st > length (ps_text st) then Crash
           else case skip_whitespace (ps_text st) (ps_p st) of
             Some q \<Rightarrow> fail_at st (Some q) ERROR_EXPECTED_END_OF_INPUT
           | None \<Rightarrow> Return st
         else
           push_value ops (ps_type st)
             (st\<lparr>ps_alloc := ao_reset ops (ps_base st) (ps_alloc st), ps_base := unat parent,
                 ps_type := get_element_type pop_element\<rparr>))"

text \<open>The labels \<open>pop_object\<close> and \<open>pop_array\<close>; \<open>install\<close> is \<open>install_object\<close> or \<open>install_array\<close>.\<close>

definition step_pop :: "'s alloc_ops \<Rightarrow> (nat \<Rightarrow> nat \<Rightarrow> 's \<Rightarrow> 's ares) \<Rightarrow> 's pstate \<Rightarrow> 's transition" where
  "step_pop ops install st =
     (let st1 = st\<lparr>ps_p := ps_p st + 1\<rparr>; a = ps_alloc st
      in case ao_load_stack ops a (ps_base st) of
           None \<Rightarrow> Crash
         | Some pop_element \<Rightarrow>
             alloc st1 (ps_p st1) (install (ps_base st + 1) (ao_top ops a) a) (\<lambda>a'.
               pop ops pop_element (st1\<lparr>ps_alloc := a'\<rparr>)))"

definition step_structure_close_or_comma :: "'s pstate \<Rightarrow> 's transition" where
  "step_structure_close_or_comma st =
     token st (ps_p st) (\<lambda>p c.
       if ps_type st = TYPE_ARRAY then
         if c = CHR '']'' then Goto Pop_array (st\<lparr>ps_p := p\<rparr>)
         else if c \<noteq> CHR '','' then fail_at st (Some p) ERROR_EXPECTED_COMMA
         else Goto Next_element (st\<lparr>ps_p := p + 1\<rparr>)
       else if ps_type st \<noteq> TYPE_OBJECT then Crash
       else
         if c = CHR ''}'' then Goto Pop_object (st\<lparr>ps_p := p\<rparr>)
         else if c \<noteq> CHR '','' then fail_at st (Some p) ERROR_EXPECTED_COMMA
         else Goto Object_key (st\<lparr>ps_p := p + 1\<rparr>))"

fun step :: "'s alloc_ops \<Rightarrow> float_ops \<Rightarrow> sorter \<Rightarrow> label \<Rightarrow> 's pstate \<Rightarrow> 's transition" where
  "step ops fo std_sort Array_close_or_element st =
     token st (ps_p st + 1) (\<lambda>p c. Goto (if c = CHR '']'' then Pop_array else Next_element) (st\<lparr>ps_p := p\<rparr>))"
| "step ops fo std_sort Object_close_or_element st =
     token st (ps_p st + 1) (\<lambda>p c. Goto (if c = CHR ''}'' then Pop_object else Object_key) (st\<lparr>ps_p := p\<rparr>))"
| "step ops fo std_sort Structure_close_or_comma st = step_structure_close_or_comma st"
| "step ops fo std_sort Pop_object st = step_pop ops (install_object ops std_sort (ps_text st)) st"
| "step ops fo std_sort Pop_array st = step_pop ops (install_array ops) st"
| "step ops fo std_sort Object_key st = step_object_key ops st"
| "step ops fo std_sort Next_element st = step_next_element ops fo st"

datatype 's final = Returned "'s pstate" | Failed parse_error | Crashed

text \<open>The machine runs until it returns; \<open>None\<close> would be a run that does not end.\<close>

partial_function (option) run ::
  "'s alloc_ops \<Rightarrow> float_ops \<Rightarrow> sorter \<Rightarrow> label \<Rightarrow> 's pstate \<Rightarrow> 's final option" where
  "run ops fo std_sort l st =
     (case step ops fo std_sort l st of
        Goto l' st' \<Rightarrow> run ops fo std_sort l' st'
      | Return st' \<Rightarrow> Some (Returned st')
      | Fail e \<Rightarrow> Some (Failed e)
      | Crash \<Rightarrow> Some Crashed)"

text \<open>The beginning of \<open>parse\<close>, up to the first \<open>goto\<close>.\<close>

definition enter :: "'s alloc_ops \<Rightarrow> string \<Rightarrow> 's \<Rightarrow> 's transition" where
  "enter ops text a =
     (let st = \<lparr>ps_text = text, ps_alloc = a, ps_p = 0, ps_base = ao_top ops a, ps_type = TYPE_NULL\<rparr>
      in case skip_whitespace text 0 of
           None \<Rightarrow> fail_at st None ERROR_MISSING_ROOT_ELEMENT
         | Some p \<Rightarrow>
             if text ! p = CHR ''['' then
               alloc st p (ao_push ops (make_element TYPE_ARRAY ROOT_MARKER) a) (\<lambda>a'.
                 Goto Array_close_or_element (st\<lparr>ps_alloc := a', ps_p := p, ps_type := TYPE_ARRAY\<rparr>))
             else if text ! p = CHR ''{'' then
               alloc st p (ao_push ops (make_element TYPE_OBJECT ROOT_MARKER) a) (\<lambda>a'.
                 Goto Object_close_or_element (st\<lparr>ps_alloc := a', ps_p := p, ps_type := TYPE_OBJECT\<rparr>))
             else fail_at st (Some p) ERROR_BAD_ROOT)"

section \<open>Documents\<close>

text \<open>
  A document: the text, the words, the type of the root and its payload; or the error. \<open>Undefined\<close> is a run that
  crashed.
\<close>

datatype 's document = Document string 's json_type nat | Invalid parse_error | Undefined

definition get_document :: "'s alloc_ops \<Rightarrow> 's final \<Rightarrow> 's document" where
  "get_document ops r =
     (case r of
        Returned st \<Rightarrow> Document (ps_text st) (ps_alloc st) (ps_type st) (ao_write_offset ops (ps_alloc st))
      | Failed e \<Rightarrow> Invalid e
      | Crashed \<Rightarrow> Undefined)"

definition sajson_parse :: "'s alloc_ops \<Rightarrow> float_ops \<Rightarrow> sorter \<Rightarrow> string \<Rightarrow> 's document option" where
  "sajson_parse ops fo std_sort text =
     (case ao_start ops (length text) of
        None \<Rightarrow> Some (Invalid \<lparr>err_line = 1, err_column = 1, err_code = ERROR_OUT_OF_MEMORY, err_arg = 0\<rparr>)
      | Some a \<Rightarrow>
          map_option (get_document ops)
            (case enter ops text a of
               Goto l st \<Rightarrow> run ops fo std_sort l st
             | Return st \<Rightarrow> Some (Returned st)
             | Fail e \<Rightarrow> Some (Failed e)
             | Crash \<Rightarrow> Some Crashed))"

end
