(* ===== verification/SajsonSpec.thy ===== *)
theory SajsonSpec
  imports SajsonParser "HOL-Library.Multiset"
begin

text \<open>
  What \<open>sajson\<close> promises: JSON values, the value of a text by recursive descent, and the words that represent a value.

  The reference reads a text from the left and returns the value and what is left of the text, or the first error
  and the text from there on. Its fuel bounds the nesting; more fuel than the text has bytes is enough.
\<close>

section \<open>The reference\<close>

datatype json =
    JInt int
  | JDbl u64
  | JNull
  | JFalse
  | JTrue
  | JStr string
  | JArr "json list"
  | JObj "(string \<times> json) list"

abbreviation ws :: "string \<Rightarrow> string" where
  "ws s \<equiv> dropWhile is_whitespace s"

definition rd_literal :: "string \<Rightarrow> json_error \<Rightarrow> json \<Rightarrow> string \<Rightarrow> json scan" where
  "rd_literal w code v s =
     (if length s < length w then SErr ERROR_UNEXPECTED_END s
      else if take (length w) s \<noteq> w then SErr code s
      else SOk (drop (length w) s) v)"

fun json_of_number :: "number \<Rightarrow> json" where
  "json_of_number (AInt i) = JInt i"
| "json_of_number (ADbl d) = JDbl d"

text \<open>A key with its colon.\<close>

definition rd_key :: "string \<Rightarrow> string scan" where
  "rd_key s =
     (case ws s of
        [] \<Rightarrow> SErr ERROR_UNEXPECTED_END []
      | c # r \<Rightarrow>
          if c \<noteq> CHR 0x22 then SErr ERROR_MISSING_OBJECT_KEY (c # r)
          else (case decode_string r of
                  SErr e s' \<Rightarrow> SErr e s' | SFault \<Rightarrow> SFault
                | SOk s1 k \<Rightarrow>
                    (case ws s1 of
                       [] \<Rightarrow> SErr ERROR_EXPECTED_COLON []
                     | d # r1 \<Rightarrow> if d \<noteq> CHR '':'' then SErr ERROR_EXPECTED_COLON (d # r1) else SOk r1 k)))"

fun rd_value :: "float_ops \<Rightarrow> nat \<Rightarrow> string \<Rightarrow> json scan"
  and rd_elements :: "float_ops \<Rightarrow> nat \<Rightarrow> string \<Rightarrow> json list scan"
  and rd_members :: "float_ops \<Rightarrow> nat \<Rightarrow> string \<Rightarrow> (string \<times> json) list scan" where
  "rd_value fo 0 s = SFault"
| "rd_value fo (Suc n) s =
     (case ws s of
        [] \<Rightarrow> SErr ERROR_UNEXPECTED_END []
      | c # r \<Rightarrow>
          if c = CHR 0x00 then SErr ERROR_UNEXPECTED_END (c # r)
          else if c = CHR ''n'' then rd_literal ''null'' ERROR_EXPECTED_NULL JNull (c # r)
          else if c = CHR ''f'' then rd_literal ''false'' ERROR_EXPECTED_FALSE JFalse (c # r)
          else if c = CHR ''t'' then rd_literal ''true'' ERROR_EXPECTED_TRUE JTrue (c # r)
          else if is_digit c \<or> c = CHR ''-'' then map_scan json_of_number (scan_number fo (c # r))
          else if c = CHR 0x22 then map_scan JStr (decode_string r)
          else if c = CHR ''['' then
            (case ws r of
               [] \<Rightarrow> SErr ERROR_UNEXPECTED_END []
             | d # r' \<Rightarrow> if d = CHR '']'' then SOk r' (JArr []) else map_scan JArr (rd_elements fo n (d # r')))
          else if c = CHR ''{'' then
            (case ws r of
               [] \<Rightarrow> SErr ERROR_UNEXPECTED_END []
             | d # r' \<Rightarrow> if d = CHR ''}'' then SOk r' (JObj []) else map_scan JObj (rd_members fo n (d # r')))
          else if c = CHR '','' then SErr ERROR_UNEXPECTED_COMMA (c # r)
          else SErr ERROR_EXPECTED_VALUE (c # r))"
| "rd_elements fo 0 s = SFault"
| "rd_elements fo (Suc n) s =
     (case rd_value fo n s of
        SErr e s' \<Rightarrow> SErr e s' | SFault \<Rightarrow> SFault
      | SOk s1 v \<Rightarrow>
          (case ws s1 of
             [] \<Rightarrow> SErr ERROR_UNEXPECTED_END []
           | c # r \<Rightarrow>
               if c = CHR '']'' then SOk r [v]
               else if c \<noteq> CHR '','' then SErr ERROR_EXPECTED_COMMA (c # r)
               else map_scan (\<lambda>vs. v # vs) (rd_elements fo n r)))"
| "rd_members fo 0 s = SFault"
| "rd_members fo (Suc n) s =
     (case rd_key s of
        SErr e s' \<Rightarrow> SErr e s' | SFault \<Rightarrow> SFault
      | SOk s1 k \<Rightarrow>
          (case rd_value fo n s1 of
             SErr e s' \<Rightarrow> SErr e s' | SFault \<Rightarrow> SFault
           | SOk s2 v \<Rightarrow>
               (case ws s2 of
                  [] \<Rightarrow> SErr ERROR_UNEXPECTED_END []
                | c # r \<Rightarrow>
                    if c = CHR ''}'' then SOk r [(k, v)]
                    else if c \<noteq> CHR '','' then SErr ERROR_EXPECTED_COMMA (c # r)
                    else map_scan (\<lambda>ms. (k, v) # ms) (rd_members fo n r))))"

definition rd_document :: "float_ops \<Rightarrow> string \<Rightarrow> json scan" where
  "rd_document fo s =
     (case ws s of
        [] \<Rightarrow> SErr ERROR_MISSING_ROOT_ELEMENT []
      | c # r \<Rightarrow>
          if c \<noteq> CHR ''['' \<and> c \<noteq> CHR ''{'' then SErr ERROR_BAD_ROOT (c # r)
          else (case rd_value fo (2 * length s + 1) (c # r) of
                  SErr e s' \<Rightarrow> SErr e s' | SFault \<Rightarrow> SFault
                | SOk s' v \<Rightarrow> if ws s' = [] then SOk [] v else SErr ERROR_EXPECTED_END_OF_INPUT (ws s')))"

section \<open>Representation\<close>

text \<open>
  The value at distance \<open>d\<close> of a tree with the words \<open>la\<close> over the text \<open>t\<close>. The members of an object are in the order
  of their keys, in the words, and in the order of the text, in the value.
\<close>

definition key_sorted :: "(string \<times> 'a) list \<Rightarrow> bool" where
  "key_sorted ms \<longleftrightarrow> sorted_wrt (\<lambda>x y. \<not> key_less (fst y) (fst x)) ms"

inductive repr :: "(nat \<Rightarrow> u64 option) \<Rightarrow> string \<Rightarrow> json_type \<Rightarrow> nat \<Rightarrow> json \<Rightarrow> bool" for la t where
  repr_int: "1 \<le> d \<Longrightarrow> la d = Some w \<Longrightarrow> integer_load w = i \<Longrightarrow> repr la t TYPE_INTEGER d (JInt i)"
| repr_dbl: "1 \<le> d \<Longrightarrow> la d = Some w \<Longrightarrow> repr la t TYPE_DOUBLE d (JDbl w)"
| repr_null: "repr la t TYPE_NULL d JNull"
| repr_false: "repr la t TYPE_FALSE d JFalse"
| repr_true: "repr la t TYPE_TRUE d JTrue"
| repr_str: "2 \<le> d \<Longrightarrow> la d = Some i \<Longrightarrow> la (d - 1) = Some j \<Longrightarrow> i \<le> j \<Longrightarrow> unat j \<le> length t \<Longrightarrow>
    repr la t TYPE_STRING d (JStr (slice t i j))"
| repr_arr: "length vs < d \<Longrightarrow> la d = Some (of_nat (length vs)) \<Longrightarrow> length vs < 2 ^ 61 \<Longrightarrow>
    (\<forall>i < length vs. \<exists>e. la (d - 1 - i) = Some e \<and> unat (get_element_value e) \<le> d \<and>
       repr la t (get_element_type e) (d - unat (get_element_value e)) (vs ! i)) \<Longrightarrow>
    repr la t TYPE_ARRAY d (JArr vs)"
| repr_obj: "3 * length ms' < d \<Longrightarrow> la d = Some (of_nat (length ms')) \<Longrightarrow> length ms' < 2 ^ 61 \<Longrightarrow>
    mset ms' = mset ms \<Longrightarrow> key_sorted ms' \<Longrightarrow>
    (\<forall>i < length ms'. \<exists>x y e. la (d - 1 - 3 * i) = Some x \<and> la (d - 2 - 3 * i) = Some y \<and> la (d - 3 - 3 * i) = Some e \<and>
       x \<le> y \<and> unat y \<le> length t \<and> slice t x y = fst (ms' ! i) \<and> unat (get_element_value e) \<le> d \<and>
       repr la t (get_element_type e) (d - unat (get_element_value e)) (snd (ms' ! i))) \<Longrightarrow>
    repr la t TYPE_OBJECT d (JObj ms)"

lemma slice_prefix: "i \<le> j \<Longrightarrow> unat j \<le> length t \<Longrightarrow> slice (t @ u) i j = slice t i j"
  by (simp add: slice_def unat_sub word_le_nat_alt)

text \<open>A value stays when words are added above it and text behind it.\<close>

lemma repr_mono:
  assumes "repr la t ty d v" "\<And>e. 1 \<le> e \<Longrightarrow> e \<le> d \<Longrightarrow> la' e = la e"
  shows "repr la' (t @ u) ty d v"
  using assms
proof (induction rule: repr.induct)
  case (repr_str d i j)
  have "repr la' (t @ u) TYPE_STRING d (JStr (slice (t @ u) i j))"
    by (rule repr.repr_str) (use repr_str in auto)
  with slice_prefix [OF repr_str(4,5)] show ?case by simp
next
  case (repr_arr vs d)
  show ?case
  proof (rule repr.repr_arr)
    show "length vs < d" "la' d = Some (of_nat (length vs))" "length vs < 2 ^ 61" using repr_arr by auto
    show "\<forall>i < length vs. \<exists>e. la' (d - 1 - i) = Some e \<and> unat (get_element_value e) \<le> d \<and>
       repr la' (t @ u) (get_element_type e) (d - unat (get_element_value e)) (vs ! i)"
    proof (intro allI impI)
      fix i assume i: "i < length vs"
      with repr_arr(4) obtain e where e: "la (d - 1 - i) = Some e" "unat (get_element_value e) \<le> d"
        "(\<forall>f. 1 \<le> f \<longrightarrow> f \<le> d - unat (get_element_value e) \<longrightarrow> la' f = la f) \<longrightarrow>
          repr la' (t @ u) (get_element_type e) (d - unat (get_element_value e)) (vs ! i)"
        by fastforce
      moreover have "la' (d - 1 - i) = la (d - 1 - i)" using i repr_arr(1) by (intro repr_arr(5)) auto
      ultimately show "\<exists>e. la' (d - 1 - i) = Some e \<and> unat (get_element_value e) \<le> d \<and>
         repr la' (t @ u) (get_element_type e) (d - unat (get_element_value e)) (vs ! i)"
        using repr_arr(5) by auto
    qed
  qed
next
  case (repr_obj ms' d ms)
  show ?case
  proof (rule repr.repr_obj)
    show "3 * length ms' < d" "la' d = Some (of_nat (length ms'))" "length ms' < 2 ^ 61" "mset ms' = mset ms" "key_sorted ms'"
      using repr_obj by auto
    show "\<forall>i < length ms'. \<exists>x y e. la' (d - 1 - 3 * i) = Some x \<and> la' (d - 2 - 3 * i) = Some y \<and> la' (d - 3 - 3 * i) = Some e \<and>
       x \<le> y \<and> unat y \<le> length (t @ u) \<and> slice (t @ u) x y = fst (ms' ! i) \<and> unat (get_element_value e) \<le> d \<and>
       repr la' (t @ u) (get_element_type e) (d - unat (get_element_value e)) (snd (ms' ! i))"
    proof (intro allI impI)
      fix i assume i: "i < length ms'"
      with repr_obj(6) obtain x y e where e: "la (d - 1 - 3 * i) = Some x" "la (d - 2 - 3 * i) = Some y" "la (d - 3 - 3 * i) = Some e"
        "x \<le> y" "unat y \<le> length t" "slice t x y = fst (ms' ! i)" "unat (get_element_value e) \<le> d"
        "(\<forall>f. 1 \<le> f \<longrightarrow> f \<le> d - unat (get_element_value e) \<longrightarrow> la' f = la f) \<longrightarrow>
          repr la' (t @ u) (get_element_type e) (d - unat (get_element_value e)) (snd (ms' ! i))"
        by fastforce
      moreover have "la' (d - 1 - 3 * i) = la (d - 1 - 3 * i)" "la' (d - 2 - 3 * i) = la (d - 2 - 3 * i)"
        "la' (d - 3 - 3 * i) = la (d - 3 - 3 * i)"
        using i repr_obj(1) by (intro repr_obj(7); auto)+
      ultimately show "\<exists>x y e. la' (d - 1 - 3 * i) = Some x \<and> la' (d - 2 - 3 * i) = Some y \<and> la' (d - 3 - 3 * i) = Some e \<and>
         x \<le> y \<and> unat y \<le> length (t @ u) \<and> slice (t @ u) x y = fst (ms' ! i) \<and> unat (get_element_value e) \<le> d \<and>
         repr la' (t @ u) (get_element_type e) (d - unat (get_element_value e)) (snd (ms' ! i))"
        using repr_obj(7) slice_prefix [OF e(4,5)] by auto
    qed
  qed
qed (auto intro: repr.intros)

section \<open>Enough fuel\<close>

text \<open>Every part of the reference consumes text, so its fuel never runs out on a document.\<close>

lemma ws_length: "ws s = c # r \<Longrightarrow> length r < length s"
  using length_dropWhile_le [of is_whitespace s] by simp

lemma rd_literal_cases:
  "rd_literal w e v s \<noteq> SFault" "rd_literal w e v s = SOk s' v' \<Longrightarrow> w \<noteq> [] \<Longrightarrow> length s' < length s"
  by (auto simp: rd_literal_def split: if_splits) (metis diff_less length_greater_0_conv not_less order.strict_trans1)

lemma rd_key_cases: "rd_key s \<noteq> SFault" "rd_key s = SOk s' k \<Longrightarrow> length s' < length s"
proof -
  show "rd_key s \<noteq> SFault" using decode_string_cases(1) by (auto simp: rd_key_def split: list.splits scan.splits)
  assume "rd_key s = SOk s' k"
  then obtain c r s1 d where "ws s = c # r" "decode_string r = SOk s1 k" "ws s1 = d # s'"
    by (auto simp: rd_key_def split: list.splits if_splits scan.splits)
  with ws_length [of s] ws_length [of s1] decode_string_cases(2) [of r s1 k] show "length s' < length s" by fastforce
qed

lemma map_scan_eq_SOk: "map_scan f x = SOk s y \<longleftrightarrow> (\<exists>z. x = SOk s z \<and> y = f z)"
  by (cases x) auto

lemma map_scan_eq_SFault: "map_scan f x = SFault \<longleftrightarrow> x = SFault"
  by (cases x) auto

lemma rd_value_shorter:
  assumes E: "\<forall>s s' vs. rd_elements fo n s = SOk s' vs \<longrightarrow> length s' < length s"
    and M: "\<forall>s s' ms. rd_members fo n s = SOk s' ms \<longrightarrow> length s' < length s"
    and ok: "rd_value fo (Suc n) s = SOk s' v"
  shows "length s' < length s"
proof -
  obtain c r where c: "ws s = c # r" using ok by (auto split: list.splits)
  then have len: "length (c # r) \<le> length s" using ws_length by fastforce
  consider w e x where "rd_literal w e x (c # r) = SOk s' v" "w \<noteq> []" | y where "scan_number fo (c # r) = SOk s' y" | y where "decode_string r = SOk s' y"
    | d x where "ws r = d # x" "s' = x" | d x y where "ws r = d # x" "rd_elements fo n (d # x) = SOk s' y" | d x y where "ws r = d # x" "rd_members fo n (d # x) = SOk s' y"
    using ok c by (auto simp: map_scan_eq_SOk split: if_splits list.splits)
  then show ?thesis
  proof cases
    case 1
    then show ?thesis using rd_literal_cases(2) len by fastforce
  next
    case 2
    then show ?thesis using scan_number_cases(2) [of "c # r" fo s' y] len suffix_length_less [of s' "c # r"] by (auto simp: stops_inside_def)
  next
    case 3
    then show ?thesis using decode_string_cases(2) [of r s' y] len by simp
  next
    case 4
    then show ?thesis using ws_length [of r] len by fastforce
  next
    case 5
    then show ?thesis using E [rule_format, of "d # x" s' y] ws_length [of r] len by fastforce
  next
    case 6
    then show ?thesis using M [rule_format, of "d # x" s' y] ws_length [of r] len by fastforce
  qed
qed

lemma rd_shorter:
  "(\<forall>s s' v. rd_value fo n s = SOk s' v \<longrightarrow> length s' < length s) \<and> (\<forall>s s' vs. rd_elements fo n s = SOk s' vs \<longrightarrow> length s' < length s) \<and>
   (\<forall>s s' ms. rd_members fo n s = SOk s' ms \<longrightarrow> length s' < length s)"
proof (induction n)
  case (Suc n)
  then have V: "\<And>s s' v. rd_value fo n s = SOk s' v \<Longrightarrow> length s' < length s" and E: "\<And>s s' vs. rd_elements fo n s = SOk s' vs \<Longrightarrow> length s' < length s"
    and M: "\<And>s s' ms. rd_members fo n s = SOk s' ms \<Longrightarrow> length s' < length s" by blast+
  have "length s' < length s" if ok: "rd_elements fo (Suc n) s = SOk s' vs" for s s' vs
  proof -
    obtain s1 v c r where 1: "rd_value fo n s = SOk s1 v" "ws s1 = c # r" "s' = r \<or> (\<exists>ws. rd_elements fo n r = SOk s' ws)"
      using ok by (auto simp: map_scan_eq_SOk split: scan.splits list.splits if_splits)
    with V [OF 1(1)] ws_length [OF 1(2)] E [of r s'] show ?thesis by fastforce
  qed
  moreover have "length s' < length s" if ok: "rd_members fo (Suc n) s = SOk s' ms" for s s' ms
  proof -
    obtain s0 k s1 v c r where 1: "rd_key s = SOk s0 k" "rd_value fo n s0 = SOk s1 v" "ws s1 = c # r" "s' = r \<or> (\<exists>ws. rd_members fo n r = SOk s' ws)"
      using ok by (auto simp: map_scan_eq_SOk split: scan.splits list.splits if_splits)
    with rd_key_cases(2) [OF 1(1)] V [OF 1(2)] ws_length [OF 1(3)] M [of r s'] show ?thesis by fastforce
  qed
  ultimately show ?case using rd_value_shorter [of fo n] Suc.IH by blast
qed simp

lemma rd_enough_fuel:
  "(\<forall>s. 2 * length s + 1 \<le> n \<longrightarrow> rd_value fo n s \<noteq> SFault) \<and> (\<forall>s. 2 * length s + 2 \<le> n \<longrightarrow> rd_elements fo n s \<noteq> SFault) \<and>
   (\<forall>s. 2 * length s + 2 \<le> n \<longrightarrow> rd_members fo n s \<noteq> SFault)"
proof (induction n)
  case (Suc n)
  then have V: "\<And>s. 2 * length s + 1 \<le> n \<Longrightarrow> rd_value fo n s \<noteq> SFault" and E: "\<And>s. 2 * length s + 2 \<le> n \<Longrightarrow> rd_elements fo n s \<noteq> SFault"
    and M: "\<And>s. 2 * length s + 2 \<le> n \<Longrightarrow> rd_members fo n s \<noteq> SFault" by blast+
  have "rd_value fo (Suc n) s \<noteq> SFault" if le: "2 * length s + 1 \<le> Suc n" for s
  proof (cases "ws s")
    case (Cons c r)
    have "rd_elements fo n (d # x) \<noteq> SFault" "rd_members fo n (d # x) \<noteq> SFault" if "ws r = d # x" for d x
      using ws_length [OF Cons] ws_length [OF that] le by (intro E M; simp)+
    then have "(case ws r of [] \<Rightarrow> SErr x [] | d # r' \<Rightarrow> if d = b then SOk r' y else map_scan f (rd_elements fo n (d # r'))) \<noteq> SFault"
      "(case ws r of [] \<Rightarrow> SErr x [] | d # r' \<Rightarrow> if d = b then SOk r' y else map_scan g (rd_members fo n (d # r'))) \<noteq> SFault"
      for x b and y :: json and f g by (simp_all add: map_scan_eq_SFault split: list.split)
    moreover have "scan_number fo (c # r) \<noteq> SFault" using scan_number_cases(1) by blast
    ultimately show ?thesis using Cons by (simp add: rd_literal_cases(1) map_scan_eq_SFault decode_string_cases(1))
  qed (simp del: dropWhile_eq_Nil_conv)
  moreover have "rd_elements fo (Suc n) s \<noteq> SFault" if le: "2 * length s + 2 \<le> Suc n" for s
  proof -
    have "rd_elements fo n r \<noteq> SFault" if "rd_value fo n s = SOk s1 v" "ws s1 = c # r" for s1 v c r
      using rd_shorter [of fo n] that ws_length [OF that(2)] le by (intro E) fastforce
    then show ?thesis using V [of s] le by (cases "rd_value fo n s") (simp_all add: map_scan_eq_SFault split: list.split)
  qed
  moreover have "rd_members fo (Suc n) s \<noteq> SFault" if le: "2 * length s + 2 \<le> Suc n" for s
  proof -
    have "rd_value fo n s0 \<noteq> SFault" if "rd_key s = SOk s0 k" for s0 k using rd_key_cases(2) [OF that] le by (intro V) simp
    moreover have "rd_members fo n r \<noteq> SFault" if "rd_key s = SOk s0 k" "rd_value fo n s0 = SOk s1 v" "ws s1 = c # r" for s0 k s1 v c r
      using rd_shorter [of fo n] that rd_key_cases(2) [OF that(1)] ws_length [OF that(3)] le by (intro M) fastforce
    ultimately show ?thesis using rd_key_cases(1) [of s]
      by (cases "rd_key s"; simp add: map_scan_eq_SFault split: scan.split list.split)
  qed
  ultimately show ?case by blast
qed simp

lemma rd_document_total: "rd_document fo s \<noteq> SFault"
proof (cases "ws s")
  case (Cons c r)
  define n where "n = 2 * length s + 1"
  have "rd_value fo n (c # r) \<noteq> SFault" using rd_enough_fuel [of n fo] ws_length [OF Cons] by (simp add: n_def del: rd_value.simps)
  then show ?thesis using Cons unfolding rd_document_def n_def [symmetric] by (cases "rd_value fo n (c # r)") simp_all
qed (simp add: rd_document_def del: dropWhile_eq_Nil_conv)

end
