(* ===== verification/SajsonInstall.thy ===== *)
theory SajsonInstall
  imports SajsonSpec
begin

text \<open>
  \<open>install_array\<close> and \<open>install_object\<close> over any allocation policy that keeps the contract: the words of the structure
  are moved from the stack to the tree, from the last to the first. With \<open>single_allocation\<close> the two overlap; a word of
  the stack is overwritten only after it was read, because the stack ends below the tree.
\<close>

definition moved :: "nat \<Rightarrow> u64 \<Rightarrow> u64" where
  "moved new_base e = make_element (get_element_type e) (of_nat new_base - get_element_value e)"

section \<open>The order of keys\<close>

text \<open>A strict weak order, what \<open>std::sort\<close> asks of its argument, and what it promises then.\<close>

definition strict_weak :: "('a \<Rightarrow> 'a \<Rightarrow> bool) \<Rightarrow> 'a set \<Rightarrow> bool" where
  "strict_weak lt A \<longleftrightarrow> (\<forall>x \<in> A. \<not> lt x x) \<and> (\<forall>x \<in> A. \<forall>y \<in> A. \<forall>z \<in> A. lt x y \<longrightarrow> lt y z \<longrightarrow> lt x z) \<and>
     (\<forall>x \<in> A. \<forall>y \<in> A. \<forall>z \<in> A. \<not> lt x y \<longrightarrow> \<not> lt y x \<longrightarrow> \<not> lt y z \<longrightarrow> \<not> lt z y \<longrightarrow> \<not> lt x z \<and> \<not> lt z x)"

definition sort_ok :: "sorter \<Rightarrow> bool" where
  "sort_ok std_sort \<longleftrightarrow> (\<forall>lt rs. strict_weak lt (set rs) \<longrightarrow>
     mset (std_sort lt rs) = mset rs \<and> sorted_wrt (\<lambda>x y. \<not> lt y x) (std_sort lt rs))"

lemma bytes_less_irrefl: "\<not> bytes_less x x"
  by (induction x) auto

lemma bytes_less_trans: "bytes_less x y \<Longrightarrow> bytes_less y z \<Longrightarrow> bytes_less x z"
proof (induction x y arbitrary: z rule: bytes_less.induct)
  case (1 a x b y)
  then show ?case by (cases z) auto
qed auto

lemma bytes_less_total: "length x = length y \<Longrightarrow> bytes_less x y \<or> bytes_less y x \<or> x = y"
  by (induction x y rule: list_induct2) (auto simp: byte_eq_iff [symmetric] not_less_iff_gr_or_eq)

lemma key_less_irrefl: "\<not> key_less x x"
  by (simp add: key_less_def bytes_less_irrefl)

lemma key_less_trans: "key_less x y \<Longrightarrow> key_less y z \<Longrightarrow> key_less x z"
  by (auto simp: key_less_def intro: bytes_less_trans)

lemma key_less_total: "key_less x y \<or> key_less y x \<or> x = y"
  using bytes_less_total [of x y] by (auto simp: key_less_def)

lemma comparator_key_less:
  assumes "key_inside t x" "key_inside t y"
  shows "object_key_comparator t x y \<longleftrightarrow> key_less (record_key t x) (record_key t y)"
proof -
  have "length (record_key t r) = unat (key_end r - key_start r)" if "key_inside t r" for r
    using that by (auto simp: record_key_def slice_def key_inside_def unat_sub word_le_nat_alt)
  with assms show ?thesis
    by (auto simp: object_key_comparator_def key_less_def Let_def word_less_nat_alt)
qed

lemma comparator_strict_weak:
  assumes "\<And>r. r \<in> A \<Longrightarrow> key_inside t r"
  shows "strict_weak (object_key_comparator t) A"
proof -
  have eq: "object_key_comparator t x y \<longleftrightarrow> key_less (record_key t x) (record_key t y)" if "x \<in> A" "y \<in> A" for x y
    using comparator_key_less [OF assms [OF that(1)] assms [OF that(2)]] .
  show ?thesis
    unfolding strict_weak_def
  proof (intro conjI ballI)
    fix x assume x: "x \<in> A"
    then show "\<not> object_key_comparator t x x" by (simp add: eq key_less_irrefl)
    fix y z assume yz: "y \<in> A" "z \<in> A"
    show "object_key_comparator t x y \<longrightarrow> object_key_comparator t y z \<longrightarrow> object_key_comparator t x z"
      using key_less_trans by (simp only: eq x yz) blast
    show "\<not> object_key_comparator t x y \<longrightarrow> \<not> object_key_comparator t y x \<longrightarrow> \<not> object_key_comparator t y z \<longrightarrow>
        \<not> object_key_comparator t z y \<longrightarrow> \<not> object_key_comparator t x z \<and> \<not> object_key_comparator t z x"
      using key_less_total [of "record_key t x" "record_key t y"] by (auto simp only: eq x yz)
  qed
qed

context sajson_allocator
begin

abbreviation ld :: "'s \<Rightarrow> nat \<Rightarrow> u64 option" where
  "ld \<equiv> ao_load_stack ops"

abbreviation la :: "'s \<Rightarrow> nat \<Rightarrow> u64 option" where
  "la \<equiv> ao_load_ast ops"

abbreviation top :: "'s \<Rightarrow> nat" where
  "top \<equiv> ao_top ops"

abbreviation off :: "'s \<Rightarrow> nat" where
  "off \<equiv> ao_write_offset ops"

lemma store_astE:
  assumes "inv a" "1 \<le> d" "d \<le> off a" "d \<le> N"
  obtains a' where "ao_store_ast ops d w a = Some a'" "inv a'" "top a' = top a" "off a' = off a" "la a' d = Some w"
    "\<And>e. 1 \<le> e \<Longrightarrow> e \<le> off a \<Longrightarrow> e \<noteq> d \<Longrightarrow> la a' e = la a e"
    "\<And>i. i < top a \<Longrightarrow> i + d < N \<Longrightarrow> ld a' i = ld a i"
  using store_ast [OF assms, of w] by blast

lemma store_stackE:
  assumes "inv a" "i < top a" "i < N"
  obtains a' where "ao_store_stack ops i w a = Some a'" "inv a'" "top a' = top a" "off a' = off a" "ld a' i = Some w"
    "\<And>j. j < top a \<Longrightarrow> j \<noteq> i \<Longrightarrow> ld a' j = ld a j"
    "\<And>d. 1 \<le> d \<Longrightarrow> d \<le> off a \<Longrightarrow> i + d < N \<Longrightarrow> la a' d = la a d"
  using store_stack [OF assms, of w] by blast

lemma array_loop:
  assumes "inv a" "out + k \<le> off a" "b + k \<le> top a" "b + k + out \<le> N"
  shows "\<exists>a'. install_array_loop ops nb b k out a = Some a' \<and> inv a' \<and> top a' = top a \<and> off a' = off a \<and>
    (\<forall>i < top a. i + out + k < N \<longrightarrow> ld a' i = ld a i) \<and>
    (\<forall>d. 1 \<le> d \<and> d \<le> off a \<and> (d \<le> out \<or> out + k < d) \<longrightarrow> la a' d = la a d) \<and>
    (\<forall>i < k. \<exists>e. ld a (b + i) = Some e \<and> la a' (out + k - i) = Some (moved nb e))"
  using assms
proof (induction k arbitrary: out a)
  case (Suc k)
  obtain e where e: "ld a (b + k) = Some e" using load_stack [of a "b + k"] Suc.prems by auto
  obtain a1 where a1: "ao_store_ast ops (out + 1) (moved nb e) a = Some a1" "inv a1" "top a1 = top a" "off a1 = off a"
    "la a1 (out + 1) = Some (moved nb e)" "\<And>e. 1 \<le> e \<Longrightarrow> e \<le> off a \<Longrightarrow> e \<noteq> out + 1 \<Longrightarrow> la a1 e = la a e"
    "\<And>i. i < top a \<Longrightarrow> i + (out + 1) < N \<Longrightarrow> ld a1 i = ld a i"
    by (rule store_astE [of a "out + 1" "moved nb e"]) (use Suc.prems in auto)
  from Suc.IH [of a1 "out + 1"] a1(2-4) Suc.prems obtain a' where a': "install_array_loop ops nb b k (out + 1) a1 = Some a'"
    "inv a'" "top a' = top a" "off a' = off a" "\<forall>i < top a. i + (out + 1) + k < N \<longrightarrow> ld a' i = ld a1 i"
    "\<forall>d. 1 \<le> d \<and> d \<le> off a \<and> (d \<le> out + 1 \<or> out + 1 + k < d) \<longrightarrow> la a' d = la a1 d"
    "\<forall>i < k. \<exists>e. ld a1 (b + i) = Some e \<and> la a' (out + 1 + k - i) = Some (moved nb e)"
    by auto
  show ?case
  proof (intro exI [of _ a'] conjI allI impI)
    show "install_array_loop ops nb b (Suc k) out a = Some a'" using e a1(1) a'(1) by (simp add: moved_def)
    fix i assume "i < top a" "i + out + Suc k < N"
    then show "ld a' i = ld a i" using a'(5) a1(7) by simp
  next
    fix d assume "1 \<le> d \<and> d \<le> off a \<and> (d \<le> out \<or> out + Suc k < d)"
    then show "la a' d = la a d" using a'(6) a1(6) [of d] by auto
  next
    fix i assume i: "i < Suc k"
    show "\<exists>e. ld a (b + i) = Some e \<and> la a' (out + Suc k - i) = Some (moved nb e)"
    proof (cases "i = k")
      case True
      have "la a' (out + 1) = la a1 (out + 1)" using a'(6) Suc.prems(2) by auto
      with True e a1(5) show ?thesis by simp
    next
      case False
      with i have "i < k" by simp
      moreover from this have "ld a1 (b + i) = ld a (b + i)" using Suc.prems by (intro a1(7)) auto
      ultimately show ?thesis using a'(7) [rule_format, of i] by simp
    qed
  qed (use a' in auto)
qed auto

text \<open>The last store, of the length.\<close>

lemma install_length:
  assumes "inv a" "d = off a" "1 \<le> d" "d \<le> N" "\<And>i. i + 1 < b \<Longrightarrow> i < top a \<and> i + d < N"
  shows "\<exists>a'. ao_store_ast ops d w a = Some a' \<and> inv a' \<and> top a' = top a \<and> off a' = off a \<and>
    (\<forall>i. i + 1 < b \<longrightarrow> ld a' i = ld a i) \<and> la a' d = Some w \<and> (\<forall>e. 1 \<le> e \<and> e < d \<longrightarrow> la a' e = la a e)"
  by (rule store_astE [of a d w]) (use assms in auto)

lemma reserveE:
  assumes "inv a"
  obtains "ao_reserve ops n a = NoMemory" | a' where "ao_reserve ops n a = Done a'" "inv a'" "top a' = top a" "off a' = off a + n"
    "\<And>i. i < top a \<Longrightarrow> ld a' i = ld a i" "\<And>d. 1 \<le> d \<Longrightarrow> d \<le> off a \<Longrightarrow> la a' d = la a d"
proof (cases "ao_reserve ops n a")
  case (Done a')
  note r = reserve [OF assms, of n, THEN conjunct2, THEN spec, THEN mp, OF Done]
  show ?thesis by (rule that(2) [OF Done]) (use r in auto)
next
  case BadAccess
  with reserve [OF assms, of n, THEN conjunct1] show ?thesis by simp
qed (rule that(1))

lemma install_array_ok:
  assumes "inv a" "b + k = top a" "top a + off a \<le> N" "1 \<le> b"
  shows "install_array ops b (top a) a = NoMemory \<or>
    (\<exists>a'. install_array ops b (top a) a = Done a' \<and> inv a' \<and> top a' = top a \<and> off a' = off a + k + 1 \<and>
      (\<forall>i. i + 1 < b \<longrightarrow> ld a' i = ld a i) \<and> (\<forall>d. 1 \<le> d \<and> d \<le> off a \<longrightarrow> la a' d = la a d) \<and>
      la a' (off a + k + 1) = Some (of_nat k) \<and>
      (\<forall>i < k. \<exists>e. ld a (b + i) = Some e \<and> la a' (off a + k - i) = Some (moved (off a + k + 1) e)))"
proof (rule reserveE [OF assms(1), of "k + 1"])
  have n: "top a - b = k" using assms(2) by simp
  let ?nb = "off a + k + 1"
  show ?thesis if "ao_reserve ops (k + 1) a = NoMemory" using that by (simp add: install_array_def Let_def n)
  fix a1 assume a1: "ao_reserve ops (k + 1) a = Done a1" "inv a1" "top a1 = top a" "off a1 = off a + (k + 1)"
    "\<And>i. i < top a \<Longrightarrow> ld a1 i = ld a i" "\<And>d. 1 \<le> d \<Longrightarrow> d \<le> off a \<Longrightarrow> la a1 d = la a d"
  obtain a2 where a2: "install_array_loop ops ?nb b k (off a) a1 = Some a2" "inv a2" "top a2 = top a" "off a2 = ?nb"
    "\<And>i. i < top a \<Longrightarrow> i + off a + k < N \<Longrightarrow> ld a2 i = ld a i" "\<And>d. 1 \<le> d \<Longrightarrow> d \<le> off a \<Longrightarrow> la a2 d = la a d"
    "\<And>i. i < k \<Longrightarrow> \<exists>e. ld a (b + i) = Some e \<and> la a2 (off a + k - i) = Some (moved ?nb e)"
    using array_loop [of a1 "off a" k b ?nb] a1 assms by fastforce
  obtain a3 where a3: "ao_store_ast ops ?nb (of_nat k) a2 = Some a3" "inv a3" "top a3 = top a2" "off a3 = off a2"
    "\<And>i. i + 1 < b \<Longrightarrow> ld a3 i = ld a2 i" "la a3 ?nb = Some (of_nat k)" "\<And>e. 1 \<le> e \<Longrightarrow> e < ?nb \<Longrightarrow> la a3 e = la a2 e"
    using install_length [of a2 ?nb b "of_nat k"] a2 assms by auto
  have eq: "install_array ops b (top a) a = Done a3"
    using a1(1) a2(1) a3(1) by (simp add: install_array_def Let_def n ares_of_def)
  show ?thesis
  proof (rule disjI2, intro exI [of _ a3] conjI allI impI)
    fix i assume i: "i + 1 < b"
    then have "ld a2 i = ld a i" using assms by (intro a2(5)) auto
    with a3(5) [OF i] show "ld a3 i = ld a i" by simp
  next
    fix i assume i: "i < k"
    with a3(7) [of "off a + k - i"] have "la a3 (off a + k - i) = la a2 (off a + k - i)" by simp
    with a2(7) [OF i] show "\<exists>e. ld a (b + i) = Some e \<and> la a3 (off a + k - i) = Some (moved ?nb e)" by simp
  qed (use eq a2 a3 in auto)
qed

lemma object_loop:
  assumes "inv a" "out + 3 * k \<le> off a" "b + 3 * k \<le> top a" "b + 3 * k + out \<le> N"
  shows "\<exists>a'. install_object_loop ops nb b k out a = Some a' \<and> inv a' \<and> top a' = top a \<and> off a' = off a \<and>
    (\<forall>i < top a. i + out + 3 * k < N \<longrightarrow> ld a' i = ld a i) \<and>
    (\<forall>d. 1 \<le> d \<and> d \<le> off a \<and> (d \<le> out \<or> out + 3 * k < d) \<longrightarrow> la a' d = la a d) \<and>
    (\<forall>i < k. \<exists>e. ld a (b + 3 * i + 2) = Some e \<and> la a' (out + 3 * (k - i) - 2) = Some (moved nb e) \<and>
      la a' (out + 3 * (k - i) - 1) = ld a (b + 3 * i + 1) \<and> la a' (out + 3 * (k - i)) = ld a (b + 3 * i))"
  using assms
proof (induction k arbitrary: out a)
  case (Suc k)
  let ?i = "b + 3 * k"
  obtain e where e: "ld a (?i + 2) = Some e" using load_stack [of a "?i + 2"] Suc.prems by auto
  obtain a1 where a1: "ao_store_ast ops (out + 1) (moved nb e) a = Some a1" "inv a1" "top a1 = top a" "off a1 = off a"
    "la a1 (out + 1) = Some (moved nb e)" "\<And>e. 1 \<le> e \<Longrightarrow> e \<le> off a \<Longrightarrow> e \<noteq> out + 1 \<Longrightarrow> la a1 e = la a e"
    "\<And>i. i < top a \<Longrightarrow> i + (out + 1) < N \<Longrightarrow> ld a1 i = ld a i"
    by (rule store_astE [of a "out + 1" "moved nb e"]) (use Suc.prems in auto)
  obtain w where w: "ld a (?i + 1) = Some w" using load_stack [of a "?i + 1"] Suc.prems by auto
  then have w1: "ld a1 (?i + 1) = Some w" using a1(7) [of "?i + 1"] Suc.prems by auto
  obtain a2 where a2: "ao_store_ast ops (out + 2) w a1 = Some a2" "inv a2" "top a2 = top a1" "off a2 = off a1"
    "la a2 (out + 2) = Some w" "\<And>e. 1 \<le> e \<Longrightarrow> e \<le> off a1 \<Longrightarrow> e \<noteq> out + 2 \<Longrightarrow> la a2 e = la a1 e"
    "\<And>i. i < top a1 \<Longrightarrow> i + (out + 2) < N \<Longrightarrow> ld a2 i = ld a1 i"
    by (rule store_astE [of a1 "out + 2" w]) (use Suc.prems a1 in auto)
  obtain v where v: "ld a ?i = Some v" using load_stack [of a ?i] Suc.prems by auto
  then have v2: "ld a2 ?i = Some v" using a2(7) [of ?i] a1(7) [of ?i] a1(3) Suc.prems by auto
  obtain a3 where a3: "ao_store_ast ops (out + 3) v a2 = Some a3" "inv a3" "top a3 = top a2" "off a3 = off a2"
    "la a3 (out + 3) = Some v" "\<And>e. 1 \<le> e \<Longrightarrow> e \<le> off a2 \<Longrightarrow> e \<noteq> out + 3 \<Longrightarrow> la a3 e = la a2 e"
    "\<And>i. i < top a2 \<Longrightarrow> i + (out + 3) < N \<Longrightarrow> ld a3 i = ld a2 i"
    by (rule store_astE [of a2 "out + 3" v]) (use Suc.prems a1 a2 in auto)
  have eq: "top a3 = top a" "off a3 = off a" using a1 a2 a3 by auto
  have ld3: "ld a3 i = ld a i" if "i < top a" "i + (out + 3) < N" for i
    using that a1(3,7) a2(3,7) a3(7) by simp
  have la3: "la a3 d = la a d" if "1 \<le> d" "d \<le> off a" "d \<le> out \<or> out + 3 < d" for d
    using that a1(4,6) a2(4,6) a3(6) by auto
  have new: "la a3 (out + 1) = Some (moved nb e)" "la a3 (out + 2) = Some w" "la a3 (out + 3) = Some v"
    using a1(4,5) a2(4-6) a3(5,6) Suc.prems(2) by auto
  from Suc.IH [of a3 "out + 3"] a3(2) eq Suc.prems obtain a' where a': "install_object_loop ops nb b k (out + 3) a3 = Some a'"
    "inv a'" "top a' = top a" "off a' = off a" "\<forall>i < top a. i + (out + 3) + 3 * k < N \<longrightarrow> ld a' i = ld a3 i"
    "\<forall>d. 1 \<le> d \<and> d \<le> off a \<and> (d \<le> out + 3 \<or> out + 3 + 3 * k < d) \<longrightarrow> la a' d = la a3 d"
    "\<forall>i < k. \<exists>e. ld a3 (b + 3 * i + 2) = Some e \<and> la a' (out + 3 + 3 * (k - i) - 2) = Some (moved nb e) \<and>
      la a' (out + 3 + 3 * (k - i) - 1) = ld a3 (b + 3 * i + 1) \<and> la a' (out + 3 + 3 * (k - i)) = ld a3 (b + 3 * i)"
    by auto
  show ?case
  proof (intro exI [of _ a'] conjI allI impI)
    show "install_object_loop ops nb b (Suc k) out a = Some a'"
      using e a1(1) w1 a2(1) v2 a3(1) a'(1) by (simp add: moved_def)
    fix i assume "i < top a" "i + out + 3 * Suc k < N"
    then show "ld a' i = ld a i" using a'(5) ld3 by simp
  next
    fix d assume "1 \<le> d \<and> d \<le> off a \<and> (d \<le> out \<or> out + 3 * Suc k < d)"
    then show "la a' d = la a d" using a'(6) la3 [of d] by auto
  next
    fix i assume i: "i < Suc k"
    show "\<exists>e. ld a (b + 3 * i + 2) = Some e \<and> la a' (out + 3 * (Suc k - i) - 2) = Some (moved nb e) \<and>
      la a' (out + 3 * (Suc k - i) - 1) = ld a (b + 3 * i + 1) \<and> la a' (out + 3 * (Suc k - i)) = ld a (b + 3 * i)"
    proof (cases "i = k")
      case True
      have "la a' d = la a3 d" if "1 \<le> d" "d \<le> out + 3" for d using that a'(6) Suc.prems(2) by auto
      with True e w v new show ?thesis by simp
    next
      case False
      with i have k: "i < k" by simp
      then have same: "ld a3 (b + 3 * i) = ld a (b + 3 * i)" "ld a3 (b + 3 * i + 1) = ld a (b + 3 * i + 1)"
        "ld a3 (b + 3 * i + 2) = ld a (b + 3 * i + 2)"
        using Suc.prems by (intro ld3; simp)+
      have idx: "out + 3 + 3 * (k - i) = out + 3 * (Suc k - i)" using k by simp
      from a'(7) [rule_format, OF k] show ?thesis unfolding same idx .
    qed
  qed (use a' in auto)
qed auto

subsection \<open>Objects\<close>

lemma load_records_ok:
  assumes "\<forall>i < 3 * n. ld a (b + i) \<noteq> None"
  shows "\<exists>rs. load_records ops a b n = Some rs \<and> length rs = n \<and>
    (\<forall>i < n. ld a (b + 3 * i) = Some (key_start (rs ! i)) \<and> ld a (b + 3 * i + 1) = Some (key_end (rs ! i)) \<and>
      ld a (b + 3 * i + 2) = Some (key_value (rs ! i)))"
  using assms
proof (induction n arbitrary: b)
  case (Suc n)
  have "ld a b \<noteq> None" "ld a (b + 1) \<noteq> None" "ld a (b + 2) \<noteq> None"
    using Suc.prems [rule_format, of 0] Suc.prems [rule_format, of 1] Suc.prems [rule_format, of 2] by auto
  then obtain x y z where xyz: "ld a b = Some x" "ld a (b + 1) = Some y" "ld a (b + 2) = Some z" by auto
  have "\<forall>i < 3 * n. ld a (b + 3 + i) \<noteq> None"
  proof (intro allI impI)
    fix i assume "i < 3 * n"
    with Suc.prems [rule_format, of "i + 3"] show "ld a (b + 3 + i) \<noteq> None" by (simp add: add.commute add.left_commute)
  qed
  from Suc.IH [OF this] obtain rs where rs: "load_records ops a (b + 3) n = Some rs" "length rs = n"
    "\<And>i. i < n \<Longrightarrow> ld a (b + 3 + 3 * i) = Some (key_start (rs ! i)) \<and> ld a (b + 3 + 3 * i + 1) = Some (key_end (rs ! i)) \<and>
      ld a (b + 3 + 3 * i + 2) = Some (key_value (rs ! i))"
    by blast
  let ?r = "\<lparr>key_start = x, key_end = y, key_value = z\<rparr>"
  have "ld a (b + 3 * i) = Some (key_start ((?r # rs) ! i)) \<and> ld a (b + 3 * i + 1) = Some (key_end ((?r # rs) ! i)) \<and>
      ld a (b + 3 * i + 2) = Some (key_value ((?r # rs) ! i))" if "i < Suc n" for i
  proof (cases i)
    case 0
    with xyz show ?thesis by simp
  next
    case (Suc j)
    have "b + 3 * Suc j = b + 3 + 3 * j" by simp
    with rs(3) [of j] that show ?thesis unfolding Suc nth_Cons_Suc by (simp only: Suc_less_eq simp_thms)
  qed
  with xyz rs show ?case by (intro exI [of _ "?r # rs"]) simp
qed simp

lemma store_words_ok:
  assumes "inv a" "b + length xs \<le> top a" "top a + off a \<le> N"
  shows "\<exists>a'. store_words ops b xs a = Some a' \<and> inv a' \<and> top a' = top a \<and> off a' = off a \<and>
    (\<forall>i < length xs. ld a' (b + i) = Some (xs ! i)) \<and> (\<forall>i < b. ld a' i = ld a i) \<and>
    (\<forall>d. 1 \<le> d \<and> d \<le> off a \<longrightarrow> la a' d = la a d)"
  using assms
proof (induction xs arbitrary: b a)
  case (Cons w xs)
  obtain a1 where a1: "ao_store_stack ops b w a = Some a1" "inv a1" "top a1 = top a" "off a1 = off a" "ld a1 b = Some w"
    "\<And>j. j < top a \<Longrightarrow> j \<noteq> b \<Longrightarrow> ld a1 j = ld a j" "\<And>d. 1 \<le> d \<Longrightarrow> d \<le> off a \<Longrightarrow> b + d < N \<Longrightarrow> la a1 d = la a d"
    by (rule store_stackE [of a b w]) (use Cons.prems in auto)
  from Cons.IH [of a1 "b + 1"] a1 Cons.prems obtain a' where a': "store_words ops (b + 1) xs a1 = Some a'" "inv a'" "top a' = top a"
    "off a' = off a" "\<forall>i < length xs. ld a' (b + 1 + i) = Some (xs ! i)" "\<forall>i < b + 1. ld a' i = ld a1 i"
    "\<forall>d. 1 \<le> d \<and> d \<le> off a \<longrightarrow> la a' d = la a1 d"
    by auto
  show ?case
  proof (intro exI [of _ a'] conjI allI impI)
    show "store_words ops b (w # xs) a = Some a'" using a1(1) a'(1) by simp
    fix i assume "i < length (w # xs)"
    then show "ld a' (b + i) = Some ((w # xs) ! i)" using a'(5,6) a1(5) by (cases i) auto
  next
    fix i assume "i < b"
    then show "ld a' i = ld a i" using a'(6) a1(6) [of i] Cons.prems by simp
  next
    fix d assume "1 \<le> d \<and> d \<le> off a"
    then show "la a' d = la a d" using a'(7) a1(7) [of d] Cons.prems by simp
  qed (use a' in auto)
qed auto

end

lemma length_record_words [simp]: "length (record_words rs) = 3 * length rs"
  by (induction rs) (auto simp: record_words_def)

lemma record_words_nth:
  assumes "i < length rs"
  shows "record_words rs ! (3 * i) = key_start (rs ! i)" "record_words rs ! (3 * i + 1) = key_end (rs ! i)"
    "record_words rs ! (3 * i + 2) = key_value (rs ! i)"
  using assms
proof (atomize (full), induction rs arbitrary: i)
  case (Cons r rs)
  then show ?case by (cases i) (auto simp: record_words_def)
qed simp

context sajson_allocator
begin

text \<open>
  The members of an object, for any relation \<open>R\<close> between the three words of a member and what they stand for.
\<close>

lemma sort_records_ok:
  fixes ms :: "(string \<times> 'v) list"
  assumes "sort_ok std_sort" "inv a" "b + 3 * length ms \<le> top a" "top a + off a \<le> N"
    and R: "\<forall>x y e m. R x y e m \<longrightarrow> x \<le> y \<and> unat y \<le> length t \<and> slice t x y = fst m"
    and ms: "\<forall>i < length ms. \<exists>x y e. ld a (b + 3 * i) = Some x \<and> ld a (b + 3 * i + 1) = Some y \<and>
      ld a (b + 3 * i + 2) = Some e \<and> R x y e (ms ! i)"
  shows "\<exists>a' ms'. sort_records ops std_sort t b (length ms) a = Some a' \<and> mset ms' = mset ms \<and> key_sorted ms' \<and>
    inv a' \<and> top a' = top a \<and> off a' = off a \<and>
    (\<forall>i < length ms. \<exists>x y e. ld a' (b + 3 * i) = Some x \<and> ld a' (b + 3 * i + 1) = Some y \<and>
      ld a' (b + 3 * i + 2) = Some e \<and> R x y e (ms' ! i)) \<and>
    (\<forall>i < b. ld a' i = ld a i) \<and> (\<forall>d. 1 \<le> d \<and> d \<le> off a \<longrightarrow> la a' d = la a d)"
proof -
  let ?n = "length ms"
  have "\<forall>i < 3 * ?n. ld a (b + i) \<noteq> None" 
    by (intro allI impI load_stack) (use assms(2-4) in linarith)+
  from load_records_ok [OF this] obtain rs where rs: "load_records ops a b ?n = Some rs" "length rs = ?n"
    "\<And>i. i < ?n \<Longrightarrow> ld a (b + 3 * i) = Some (key_start (rs ! i)) \<and> ld a (b + 3 * i + 1) = Some (key_end (rs ! i)) \<and>
      ld a (b + 3 * i + 2) = Some (key_value (rs ! i))"
    by blast
  define Q where "Q r m = R (key_start r) (key_end r) (key_value r) m" for r :: key_record and m :: "string \<times> 'v"
  have Q: "list_all2 Q rs ms"
    unfolding list_all2_conv_all_nth using rs(2,3) ms by (fastforce simp: Q_def)
  have inside: "key_inside t r" "record_key t r = fst m" if "Q r m" for r m
    using R [rule_format, OF that [unfolded Q_def]] by (auto simp: key_inside_def record_key_def)
  have all: "\<And>r. r \<in> set rs \<Longrightarrow> key_inside t r" using Q inside(1) by (metis list_all2_conv_all_nth in_set_conv_nth)
  define rs' where "rs' = std_sort (object_key_comparator t) rs"
  have rs': "mset rs' = mset rs" "sorted_wrt (\<lambda>x y. \<not> object_key_comparator t y x) rs'"
    using assms(1) comparator_strict_weak [OF all] unfolding rs'_def sort_ok_def by blast+
  obtain ms' where ms': "list_all2 Q rs' ms'" "mset ms' = mset ms"
    using list_all2_reorder_left_invariance [OF Q rs'(1)] by blast
  have len: "length rs' = ?n" "length ms' = ?n" using rs'(1) ms' rs(2) by (metis size_mset, metis size_mset)
  have "key_sorted ms'"
    unfolding key_sorted_def sorted_wrt_iff_nth_less
  proof (intro allI impI)
    fix i j assume ij: "i < j" "j < length ms'"
    then have q: "Q (rs' ! i) (ms' ! i)" "Q (rs' ! j) (ms' ! j)" using ms'(1) by (simp_all add: list_all2_conv_all_nth)
    have "\<not> object_key_comparator t (rs' ! j) (rs' ! i)" using rs'(2) ij len by (simp add: sorted_wrt_iff_nth_less)
    with comparator_key_less [OF inside(1) [OF q(2)] inside(1) [OF q(1)]] inside(2) [OF q(1)] inside(2) [OF q(2)]
    show "\<not> key_less (fst (ms' ! j)) (fst (ms' ! i))" by simp
  qed
  moreover obtain a' where a': "store_words ops b (record_words rs') a = Some a'" "inv a'" "top a' = top a" "off a' = off a"
    "\<And>i. i < 3 * ?n \<Longrightarrow> ld a' (b + i) = Some (record_words rs' ! i)" "\<forall>i < b. ld a' i = ld a i"
    "\<forall>d. 1 \<le> d \<and> d \<le> off a \<longrightarrow> la a' d = la a d"
    using store_words_ok [of a b "record_words rs'"] assms(2-4) len by auto
  moreover have "\<exists>x y e. ld a' (b + 3 * i) = Some x \<and> ld a' (b + 3 * i + 1) = Some y \<and>
      ld a' (b + 3 * i + 2) = Some e \<and> R x y e (ms' ! i)" if "i < ?n" for i
    using a'(5) [of "3 * i"] a'(5) [of "3 * i + 1"] a'(5) [of "3 * i + 2"] record_words_nth [of i rs'] len ms'(1) that
    by (auto simp: list_all2_conv_all_nth Q_def add.assoc)
  moreover have "sort_records ops std_sort t b ?n a = Some a'"
    using rs(1) all a'(1) by (simp add: sort_records_def list_all_iff rs'_def)
  ultimately show ?thesis using ms'(2) by blast
qed

lemma install_object_ok:
  fixes ms :: "(string \<times> 'v) list"
  assumes "sort_ok std_sort" "inv a" "b + 3 * length ms = top a" "top a + off a \<le> N" "1 \<le> b"
    and R: "\<forall>x y e m. R x y e m \<longrightarrow> x \<le> y \<and> unat y \<le> length t \<and> slice t x y = fst m"
    and ms: "\<forall>i < length ms. \<exists>x y e. ld a (b + 3 * i) = Some x \<and> ld a (b + 3 * i + 1) = Some y \<and>
      ld a (b + 3 * i + 2) = Some e \<and> R x y e (ms ! i)"
  shows "install_object ops std_sort t b (top a) a = NoMemory \<or>
    (\<exists>a' ms'. install_object ops std_sort t b (top a) a = Done a' \<and> mset ms' = mset ms \<and> key_sorted ms' \<and>
      inv a' \<and> top a' = top a \<and> off a' = off a + 3 * length ms + 1 \<and>
      (\<forall>i. i + 1 < b \<longrightarrow> ld a' i = ld a i) \<and> (\<forall>d. 1 \<le> d \<and> d \<le> off a \<longrightarrow> la a' d = la a d) \<and>
      la a' (off a + 3 * length ms + 1) = Some (of_nat (length ms)) \<and>
      (\<forall>i < length ms. \<exists>x y e. la a' (off a + 3 * (length ms - i)) = Some x \<and> la a' (off a + 3 * (length ms - i) - 1) = Some y \<and>
        la a' (off a + 3 * (length ms - i) - 2) = Some (moved (off a + 3 * length ms + 1) e) \<and> R x y e (ms' ! i)))"
proof -
  let ?n = "length ms" and ?nb = "off a + 3 * length ms + 1"
  have n1: "top a - b = 3 * ?n" using assms(3) by simp
  then have n: "top a - b = 3 * ?n" "(top a - b) div 3 = ?n" "(top a - b) mod 3 = 0" unfolding n1 by simp_all
  have "b + 3 * ?n \<le> top a" using assms(3) by simp
  from sort_records_ok [OF assms(1,2) this assms(4) R ms]
  obtain a0 ms' where a0: "sort_records ops std_sort t b ?n a = Some a0" "mset ms' = mset ms" "key_sorted ms'"
    "inv a0" "top a0 = top a" "off a0 = off a"
    "\<And>i. i < ?n \<Longrightarrow> \<exists>x y e. ld a0 (b + 3 * i) = Some x \<and> ld a0 (b + 3 * i + 1) = Some y \<and> ld a0 (b + 3 * i + 2) = Some e \<and> R x y e (ms' ! i)"
    "\<And>i. i < b \<Longrightarrow> ld a0 i = ld a i" "\<And>d. 1 \<le> d \<Longrightarrow> d \<le> off a \<Longrightarrow> la a0 d = la a d"
    by blast
  show ?thesis
  proof (rule reserveE [OF a0(4), of "3 * ?n + 1"])
    show ?thesis if "ao_reserve ops (3 * ?n + 1) a0 = NoMemory" using that a0(1) n by (simp add: install_object_def Let_def)
    fix a1 assume a1: "ao_reserve ops (3 * ?n + 1) a0 = Done a1" "inv a1" "top a1 = top a0" "off a1 = off a0 + (3 * ?n + 1)"
      "\<And>i. i < top a0 \<Longrightarrow> ld a1 i = ld a0 i" "\<And>d. 1 \<le> d \<Longrightarrow> d \<le> off a0 \<Longrightarrow> la a1 d = la a0 d"
    have pre: "off a + 3 * ?n \<le> off a1" "b + 3 * ?n \<le> top a1" "b + 3 * ?n + off a \<le> N" using a0 a1 assms(3,4) by auto
    from object_loop [OF a1(2) pre, of ?nb] obtain a2 where a2: "install_object_loop ops ?nb b ?n (off a) a1 = Some a2" "inv a2"
      "top a2 = top a1" "off a2 = off a1" "\<And>i. i < top a1 \<Longrightarrow> i + off a + 3 * ?n < N \<Longrightarrow> ld a2 i = ld a1 i"
      "\<And>d. 1 \<le> d \<Longrightarrow> d \<le> off a \<Longrightarrow> la a2 d = la a1 d"
      "\<And>i. i < ?n \<Longrightarrow> \<exists>e. ld a1 (b + 3 * i + 2) = Some e \<and> la a2 (off a + 3 * (?n - i) - 2) = Some (moved ?nb e) \<and>
        la a2 (off a + 3 * (?n - i) - 1) = ld a1 (b + 3 * i + 1) \<and> la a2 (off a + 3 * (?n - i)) = ld a1 (b + 3 * i)"
      using a0(6) a1(4) by auto
    obtain a3 where a3: "ao_store_ast ops ?nb (of_nat ?n) a2 = Some a3" "inv a3" "top a3 = top a2" "off a3 = off a2"
      "\<And>i. i + 1 < b \<Longrightarrow> ld a3 i = ld a2 i" "la a3 ?nb = Some (of_nat ?n)" "\<And>e. 1 \<le> e \<Longrightarrow> e < ?nb \<Longrightarrow> la a3 e = la a2 e"
      using install_length [of a2 ?nb b "of_nat ?n"] a0 a1 a2 assms by auto
    have eq: "install_object ops std_sort t b (top a) a = Done a3"
      using a0(1,6) a1(1) a2(1) a3(1) n by (simp add: install_object_def Let_def ares_of_def)
    have elem: "\<exists>x y e. la a3 (off a + 3 * (?n - i)) = Some x \<and> la a3 (off a + 3 * (?n - i) - 1) = Some y \<and>
        la a3 (off a + 3 * (?n - i) - 2) = Some (moved ?nb e) \<and> R x y e (ms' ! i)" if i: "i < ?n" for i
    proof -
      from a0(7) [OF i] obtain x y e where xye: "ld a0 (b + 3 * i) = Some x" "ld a0 (b + 3 * i + 1) = Some y"
        "ld a0 (b + 3 * i + 2) = Some e" "R x y e (ms' ! i)"
        by blast
      have "b + 3 * i + 2 < top a0" using i assms(3) a0(5) by linarith
      then have "ld a1 (b + 3 * i) = Some x" "ld a1 (b + 3 * i + 1) = Some y" "ld a1 (b + 3 * i + 2) = Some e"
        using xye a1(5) by simp_all
      with a2(7) [OF i] have "la a2 (off a + 3 * (?n - i)) = Some x" "la a2 (off a + 3 * (?n - i) - 1) = Some y"
        "la a2 (off a + 3 * (?n - i) - 2) = Some (moved ?nb e)"
        by auto
      moreover have "la a3 d = la a2 d" if "d \<in> {off a + 3 * (?n - i), off a + 3 * (?n - i) - 1, off a + 3 * (?n - i) - 2}" for d
        using that i by (intro a3(7)) auto
      ultimately show ?thesis using xye(4) by auto
    qed
    have low: "ld a3 i = ld a i" if i: "i + 1 < b" for i
      using a3(5) [OF i] a2(5) [of i] a1(5) [of i] a0(8) [of i] a0(5) a1(3) i assms(3,4) by auto
    have words: "la a3 d = la a d" if "1 \<le> d" "d \<le> off a" for d
      using that a3(7) [of d] a2(6) [of d] a1(6) [of d] a0(9) [of d] a0(6) by simp
    show ?thesis
      by (rule disjI2, intro exI [of _ a3] exI [of _ ms'] conjI allI impI)
        (use eq a0 a1 a2 a3 elem low words in auto)
  qed
qed

end

end
