(* ===== verification/SajsonCorrect.thy ===== *)
theory SajsonCorrect
  imports SajsonInstall
begin

text \<open>
  The state machine against the reference, for every allocation policy that keeps the contract: from each label it
  reaches what the reference reads, with the words that represent it, or fails with the error of the reference, or
  runs out of memory; and it never crashes.

  The measure that makes \<open>single_allocation\<close> safe is the number of words in use, which never exceeds the number of
  bytes consumed by more than one. When it does at the end of the text the last word pushed may overwrite the tree,
  but then the next transition fails for the missing bracket.
\<close>

declare dropWhile_eq_Nil_conv [simp del]

definition cont :: "'s alloc_ops \<Rightarrow> float_ops \<Rightarrow> sorter \<Rightarrow> 's transition \<Rightarrow> 's final option" where
  "cont ops fo std_sort tr =
     (case tr of Goto l st \<Rightarrow> run ops fo std_sort l st | Return st \<Rightarrow> Some (Returned st) | Fail e \<Rightarrow> Some (Failed e) | Crash \<Rightarrow> Some Crashed)"

lemma run_cont: "run ops fo std_sort l st = cont ops fo std_sort (step ops fo std_sort l st)"
  by (subst run.simps) (simp add: cont_def)

lemma cont_simps [simp]:
  "cont ops fo std_sort (Goto l st) = run ops fo std_sort l st"
  "cont ops fo std_sort (Return st) = Some (Returned st)"
  "cont ops fo std_sort (Fail e) = Some (Failed e)"
  by (simp_all add: cont_def)

text \<open>The two ways to fail: out of memory, and with an error of the reference.\<close>

definition oom :: "'s final option \<Rightarrow> bool" where
  "oom r \<longleftrightarrow> (\<exists>e. r = Some (Failed e) \<and> err_code e = ERROR_OUT_OF_MEMORY)"

definition failed :: "nat \<Rightarrow> json_error \<Rightarrow> string \<Rightarrow> 's final option \<Rightarrow> bool" where
  "failed n e s r \<longleftrightarrow> (\<exists>t. length t = n \<and> r = Some (Failed (error_at t e s)))"

lemma err_code_make_error [simp]: "err_code (make_error t p c x) = c"
  by (simp add: make_error_def split: prod.splits)

lemma oom_alloc: "oom (cont ops fo std_sort (alloc st p NoMemory k))"
  by (simp add: oom_def alloc_def fail_at_def)

lemma alloc_Done [simp]: "alloc st p (Done a) k = k a"
  by (simp add: alloc_def)

section \<open>White space\<close>

lemma skip_whitespace_ws:
  assumes "p \<le> length t"
  shows "skip_whitespace t p = (case ws (drop p t) of [] \<Rightarrow> None | c # r \<Rightarrow> Some (length t - Suc (length r)))"
  using assms
proof (induction "length t - p" arbitrary: p)
  case 0
  then show ?case by (simp add: skip_whitespace.simps)
next
  case (Suc n)
  then have d: "drop p t = t ! p # drop (p + 1) t" by (metis Cons_nth_drop_Suc Suc_eq_plus1 diff_is_0_eq' not_less zero_neq_one nat.distinct(1))
  show ?case
  proof (cases "is_whitespace (t ! p)")
    case True
    then show ?thesis using Suc by (subst skip_whitespace.simps) (simp add: d)
  next
    case False
    with Suc d show ?thesis by (subst skip_whitespace.simps) (simp add: d)
  qed
qed

lemma ws_drop:
  assumes "ws (drop p t) = c # r" "p \<le> length t"
  defines "q \<equiv> length t - Suc (length r)"
  shows "p \<le> q" "q < length t" "drop q t = c # r" "t ! q = c" "drop (q + 1) t = r" "\<not> is_whitespace c" "Suc (length r) \<le> length t"
proof -
  have suf: "suffix (c # r) (drop p t)" unfolding assms(1) [symmetric] by (rule suffix_dropWhile)
  from suffix_drop_pos [OF this] show d: "drop q t = c # r" and "p \<le> q" unfolding q_def using assms(2) by auto
  show "Suc (length r) \<le> length t" using suffix_length_le [OF suf] by simp
  show "q < length t" unfolding q_def using suffix_drop_pos(2) [OF suf] assms(2) by (cases "length t") auto
  with d show "t ! q = c" "drop (q + 1) t = r" by (metis hd_drop_conv_nth list.sel(1), metis drop_Suc Suc_eq_plus1 drop_tl list.sel(3))
  show "\<not> is_whitespace c" using assms(1) by (metis hd_dropWhile list.distinct(1) list.sel(1))
qed

lemma token_ws:
  assumes "p \<le> length (ps_text st)"
  shows "token st p k = (case ws (drop p (ps_text st)) of
      [] \<Rightarrow> fail_at st None ERROR_UNEXPECTED_END
    | c # r \<Rightarrow> k (length (ps_text st) - Suc (length r)) c)"
proof (cases "ws (drop p (ps_text st))")
  case (Cons c r)
  then show ?thesis using assms skip_whitespace_ws [OF assms] ws_drop(4) [OF Cons assms] by (simp add: token_def)
qed (use assms skip_whitespace_ws [OF assms] in \<open>simp add: token_def\<close>)

lemma failed_fail_at:
  assumes "length (ps_text st) = n" "e \<noteq> ERROR_ILLEGAL_CODEPOINT"
  shows "failed n e [] (cont ops fo std_sort (fail_at st None e))"
    and "length s \<le> n \<Longrightarrow> p = n - length s \<Longrightarrow> failed n e s (cont ops fo std_sort (fail_at st (Some p) e))"
  using assms by (auto simp: failed_def fail_at_def error_at_def make_error_def intro!: exI [of _ "ps_text st"])

section \<open>Words\<close>

lemma unat_of_nat_small: "n < 2 ^ 61 \<Longrightarrow> unat (of_nat n :: u64) = n"
  by (simp add: unat_of_nat)

lemma element_of_nat:
  assumes "t \<noteq> TYPE_NOKEY" "n < 2 ^ 61"
  shows "get_element_type (make_element t (of_nat n)) = t" "unat (get_element_value (make_element t (of_nat n))) = n"
  using element_roundtrip [OF assms(1), of "of_nat n"] unat_of_nat_small [OF assms(2)] assms(2) by simp_all

lemma moved_element:
  assumes "t \<noteq> TYPE_NOKEY" "n \<le> m" "m < 2 ^ 61"
  shows "get_element_type (moved m (make_element t (of_nat n))) = t"
    "unat (get_element_value (moved m (make_element t (of_nat n)))) = m - n"
proof -
  have n: "n < 2 ^ 61" using assms(2,3) by simp
  have "get_element_value (make_element t (of_nat n)) = of_nat n"
    using element_roundtrip(2) [OF assms(1), of "of_nat n"] unat_of_nat_small [OF n] n by simp
  then have "moved m (make_element t (of_nat n)) = make_element t (of_nat (m - n))"
    using assms element_of_nat(1) [OF assms(1) n] by (simp add: moved_def of_nat_diff)
  then show "get_element_type (moved m (make_element t (of_nat n))) = t"
    "unat (get_element_value (moved m (make_element t (of_nat n)))) = m - n"
    using element_of_nat [OF assms(1), of "m - n"] assms(3) by simp_all
qed

lemma unat_ROOT_MARKER: "unat ROOT_MARKER = 2 ^ 61 - 1"
  unfolding ROOT_MARKER_def unsigned_drop_bit_eq unsigned_minus_1_eq_mask
  by (simp add: mask_eq_exp_minus_1 drop_bit_nat_def take_bit_nat_def)

lemma root_element:
  assumes "t \<noteq> TYPE_NOKEY"
  shows "get_element_type (make_element t ROOT_MARKER) = t" "get_element_value (make_element t ROOT_MARKER) = ROOT_MARKER"
proof -
  have "unat ROOT_MARKER < 2 ^ 61" unfolding unat_ROOT_MARKER by simp
  from element_roundtrip [OF assms this] show "get_element_type (make_element t ROOT_MARKER) = t"
    "get_element_value (make_element t ROOT_MARKER) = ROOT_MARKER" by simp_all
qed

lemma not_root_element:
  assumes "t \<noteq> TYPE_NOKEY" "n < 2 ^ 61 - 1"
  shows "get_element_value (make_element t (of_nat n)) \<noteq> ROOT_MARKER"
proof
  assume "get_element_value (make_element t (of_nat n)) = ROOT_MARKER"
  then have "unat (get_element_value (make_element t (of_nat n))) = unat ROOT_MARKER" by simp
  then show False using element_of_nat(2) [of t n] assms by (simp add: unat_ROOT_MARKER)
qed

section \<open>Invariants\<close>

context sajson_allocator
begin

text \<open>Between two values: the words in use are at most the bytes consumed.\<close>

definition ready :: "'s pstate \<Rightarrow> bool" where
  "ready st \<longleftrightarrow> inv (ps_alloc st) \<and> length (ps_text st) = N \<and> ps_p st \<le> N \<and> 1 \<le> top (ps_alloc st) \<and>
     top (ps_alloc st) + off (ps_alloc st) \<le> ps_p st \<and> ps_base st < N \<and> ps_type st \<noteq> TYPE_NOKEY"

text \<open>Stack below \<open>k\<close> and tree are as they were.\<close>

definition keeps :: "'s \<Rightarrow> 's \<Rightarrow> nat \<Rightarrow> bool" where
  "keeps a a' k \<longleftrightarrow> (\<forall>i < k. ld a' i = ld a i) \<and> off a \<le> off a' \<and> (\<forall>d. 1 \<le> d \<and> d \<le> off a \<longrightarrow> la a' d = la a d)"

text \<open>The word at stack index \<open>i\<close> is an element for the value \<open>v\<close>.\<close>

definition holds :: "'s \<Rightarrow> string \<Rightarrow> nat \<Rightarrow> json \<Rightarrow> bool" where
  "holds a t i v \<longleftrightarrow> (\<exists>ty n. ty \<noteq> TYPE_NOKEY \<and> ld a i = Some (make_element ty (of_nat n)) \<and> n \<le> off a \<and> repr (la a) t ty n v)"

definition holds_member :: "'s \<Rightarrow> string \<Rightarrow> nat \<Rightarrow> string \<times> json \<Rightarrow> bool" where
  "holds_member a t i m \<longleftrightarrow>
     (\<exists>x y. ld a i = Some x \<and> ld a (i + 1) = Some y \<and> x \<le> y \<and> unat y \<le> length t \<and> slice t x y = fst m) \<and>
     holds a t (i + 2) (snd m)"

lemma keeps_refl: "keeps a a k"
  by (simp add: keeps_def)

lemma keeps_trans: "keeps a a' k \<Longrightarrow> keeps a' a'' k' \<Longrightarrow> k \<le> k' \<Longrightarrow> keeps a a'' k"
  unfolding keeps_def by (metis order.strict_trans2 order_trans)

lemma holds_keeps:
  assumes "holds a t i v" "keeps a a' k" "i < k"
  shows "holds a' (t @ u) i v"
proof -
  obtain ty n where h: "ty \<noteq> TYPE_NOKEY" "ld a i = Some (make_element ty (of_nat n))" "n \<le> off a" "repr (la a) t ty n v"
    using assms(1) by (auto simp: holds_def)
  have "repr (la a') (t @ u) ty n v" by (rule repr_mono [OF h(4)]) (use assms(2) h(3) in \<open>auto simp: keeps_def\<close>)
  then show ?thesis using h assms(2,3) unfolding holds_def keeps_def by (intro exI [of _ ty] exI [of _ n]) auto
qed

lemma holds_member_keeps:
  assumes "holds_member a t i m" "keeps a a' k" "i + 2 < k"
  shows "holds_member a' (t @ u) i m"
proof -
  obtain x y where "ld a i = Some x" "ld a (i + 1) = Some y" "x \<le> y" "unat y \<le> length t" "slice t x y = fst m"
    using assms(1) by (auto simp: holds_member_def)
  moreover from this have "slice (t @ u) x y = fst m" using slice_prefix by metis
  moreover have "ld a' i = ld a i" "ld a' (i + 1) = ld a (i + 1)" using assms(2,3) by (auto simp: keeps_def)
  moreover have "holds a' (t @ u) (i + 2) (snd m)"
    using assms holds_keeps by (auto simp: holds_member_def)
  ultimately show ?thesis unfolding holds_member_def by auto
qed

text \<open>The text before \<open>p\<close> is a prefix of what comes later.\<close>

lemma take_extend: "take p t' = take p t \<Longrightarrow> p \<le> q \<Longrightarrow> \<exists>u. take q t' = take p t @ u"
  by (metis le_add_diff_inverse take_add)

text \<open>What reading a value leaves.\<close>

definition pushed :: "'s pstate \<Rightarrow> 's pstate \<Rightarrow> string \<Rightarrow> json \<Rightarrow> bool" where
  "pushed st st' s v \<longleftrightarrow>
     length (ps_text st') = N \<and> take (ps_p st) (ps_text st') = take (ps_p st) (ps_text st) \<and> length s \<le> N \<and>
     ps_p st' = N - length s \<and> drop (ps_p st') (ps_text st') = s \<and> ps_p st < ps_p st' \<and>
     ps_base st' = ps_base st \<and> ps_type st' = ps_type st \<and>
     (s = [] \<or> inv (ps_alloc st') \<and> top (ps_alloc st') = top (ps_alloc st) + 1 \<and>
        keeps (ps_alloc st) (ps_alloc st') (top (ps_alloc st)) \<and>
        top (ps_alloc st') + off (ps_alloc st') \<le> ps_p st' + 1 \<and>
        holds (ps_alloc st') (take (ps_p st') (ps_text st')) (top (ps_alloc st)) v)"

lemma push_pushed:
  fixes fo :: float_ops and std_sort :: sorter
  assumes "N < 2 ^ 61 - 1" "ready st" "length (ps_text st1) = N" "take (ps_p st) (ps_text st1) = take (ps_p st) (ps_text st)"
    and "length s \<le> N" "ps_p st1 = N - length s" "drop (ps_p st1) (ps_text st1) = s" "ps_p st < ps_p st1"
    and "ps_base st1 = ps_base st" "ps_type st1 = ps_type st"
    and a: "inv (ps_alloc st1)" "top (ps_alloc st1) = top (ps_alloc st)" "keeps (ps_alloc st) (ps_alloc st1) (top (ps_alloc st))"
      "top (ps_alloc st) + off (ps_alloc st1) \<le> ps_p st1"
    and v: "ty \<noteq> TYPE_NOKEY" "repr (la (ps_alloc st1)) (take (ps_p st1) (ps_text st1)) ty (off (ps_alloc st1)) v"
  defines "r \<equiv> cont ops fo std_sort (push_value ops ty st1)"
  shows "oom r \<or> (\<exists>st'. pushed st st' s v \<and> r = run ops fo std_sort Structure_close_or_comma st')"
proof -
  let ?a = "ps_alloc st1" and ?e = "make_element ty (of_nat (off (ps_alloc st1)))"
  have lt: "top ?a < N" using a(2,4) assms(2,6,8) unfolding ready_def by linarith
  show ?thesis
  proof (cases "ao_push ops ?e ?a")
    case (Done a')
    note p = push [OF a(1) Done]
    have kept: "la a' d = la ?a d" if "1 \<le> d" "d \<le> off ?a" "s \<noteq> []" for d
    proof -
      have "ps_p st1 < N" using that(3) assms(5,6) by (cases s) auto
      then have "top ?a + d < N" using a(2,4) that(2) by simp
      with p that show ?thesis by blast
    qed
    have "holds a' (take (ps_p st1) (ps_text st1)) (top (ps_alloc st)) v" "keeps (ps_alloc st) a' (top (ps_alloc st))" if "s \<noteq> []"
    proof -
      have "repr (la a') (take (ps_p st1) (ps_text st1) @ []) ty (off ?a) v"
        by (rule repr_mono [OF v(2)]) (use kept that in auto)
      then show "holds a' (take (ps_p st1) (ps_text st1)) (top (ps_alloc st)) v"
        unfolding holds_def using v(1) p a(2) by (intro exI [of _ ty] exI [of _ "off ?a"]) auto
      show "keeps (ps_alloc st) a' (top (ps_alloc st))" using a(2,3) p kept [OF _ _ that] by (auto simp: keeps_def)
    qed
    with assms(3-10) a p have "pushed st (st1\<lparr>ps_alloc := a'\<rparr>) s v" unfolding pushed_def by auto
    moreover have "r = run ops fo std_sort Structure_close_or_comma (st1\<lparr>ps_alloc := a'\<rparr>)"
      by (simp add: r_def push_value_def Done)
    ultimately show ?thesis by blast
  qed (use push_safe [OF a(1) lt, of ?e] in \<open>simp_all add: r_def push_value_def oom_alloc\<close>)
qed

section \<open>Values without structure\<close>

text \<open>The machine does what the reference says of a value.\<close>

definition agrees :: "float_ops \<Rightarrow> sorter \<Rightarrow> 's pstate \<Rightarrow> json scan \<Rightarrow> 's final option \<Rightarrow> bool" where
  "agrees fo std_sort st res r \<longleftrightarrow>
     (case res of
        SErr e s \<Rightarrow> oom r \<or> failed N e s r
      | SOk s v \<Rightarrow> oom r \<or> (\<exists>st'. pushed st st' s v \<and> r = run ops fo std_sort Structure_close_or_comma st')
      | SFault \<Rightarrow> True)"

lemma parse_literal_eq:
  assumes "drop q t = c # s" "q \<le> length t" "code \<noteq> ERROR_ILLEGAL_CODEPOINT"
  shows "parse_literal tail code t q =
    (if length s < length tail then Err (error_at t ERROR_UNEXPECTED_END (c # s))
     else if take (length tail) s \<noteq> tail then Err (error_at t code (c # s))
     else Ok (q + length tail + 1))"
proof -
  have len: "length t - Suc (length s) = q" "length t - q = Suc (length s)" using arg_cong [OF assms(1), of length] assms(2) by auto
  have "drop (q + 1) t = s" using assms(1) by (metis drop_Suc Suc_eq_plus1 drop_tl list.sel(3))
  moreover have "has_remaining_characters t q (length tail + 1) \<longleftrightarrow> \<not> length s < length tail"
    using len assms(2) by (auto simp: has_remaining_characters_def)
  ultimately show ?thesis using assms(3) len by (auto simp: parse_literal_def error_at_def)
qed

lemma literal_agrees:
  assumes N: "N < 2 ^ 61 - 1" and st: "ready st" and q: "ps_p st \<le> q" "q < N" "drop q (ps_text st) = c # s"
    and code: "code \<noteq> ERROR_ILLEGAL_CODEPOINT" and ty: "ty \<noteq> TYPE_NOKEY" "\<And>la t d. repr la t ty d v"
  shows "agrees fo std_sort st (rd_literal (c # tail) code v (c # s))
    (cont ops fo std_sort (next_literal ops ty (parse_literal tail code (ps_text st) q) st))"
proof -
  have len: "length (ps_text st) = N" using st by (simp add: ready_def)
  note eq = parse_literal_eq [OF q(3) _ code, of tail, unfolded len, OF less_imp_le [OF q(2)]]
  show ?thesis
  proof (cases "length s < length tail \<or> take (length tail) s \<noteq> tail")
    case True
    then show ?thesis using len by (auto simp: agrees_def rd_literal_def eq next_literal_def failed_def)
  next
    case False
    let ?s = "drop (length tail) s" and ?st = "st\<lparr>ps_p := q + length tail + 1\<rparr>"
    have n: "length s = N - q - 1" using arg_cong [OF q(3), of length] q(2) len by simp
    have tail: "drop (q + length tail + 1) (ps_text st) = ?s"
    proof -
      have "drop (length tail + 1) (drop q (ps_text st)) = ?s" unfolding q(3) by simp
      then show ?thesis by (simp add: add.commute add.left_commute)
    qed
    have "oom (cont ops fo std_sort (push_value ops ty ?st)) \<or>
        (\<exists>st'. pushed st st' ?s v \<and> cont ops fo std_sort (push_value ops ty ?st) = run ops fo std_sort Structure_close_or_comma st')"
      by (rule push_pushed [OF N st]) (use st q n False tail len ty keeps_refl in \<open>auto simp: ready_def\<close>)
    then show ?thesis using False by (simp add: agrees_def rd_literal_def eq next_literal_def)
  qed
qed

lemma number_agrees:
  assumes N: "N < 2 ^ 61 - 1" and st: "ready st" and q: "ps_p st \<le> q" "q < N" "drop q (ps_text st) = s" "s \<noteq> []"
  shows "agrees fo std_sort st (map_scan json_of_number (scan_number fo s)) (cont ops fo std_sort (parse_number ops fo q st))"
proof -
  let ?a = "ps_alloc st"
  have len: "length (ps_text st) = N" using st by (simp add: ready_def)
  consider e s' where "scan_number fo s = SErr e s'" | s' n where "scan_number fo s = SOk s' n"
    using scan_number_cases(1) [OF q(4), of fo] by (cases "scan_number fo s") auto
  then show ?thesis
  proof cases
    case 1
    then show ?thesis using len q(3) by (auto simp: agrees_def parse_number_def failed_def)
  next
    case 2
    let ?q = "N - length s'"
    have "suffix s' (drop q (ps_text st))" "s' \<noteq> []" "strict_suffix s' s"
      using scan_number_cases(2) [OF q(4) 2] q(3) by (auto simp: stops_inside_def strict_suffix_def)
    from suffix_drop_pos [OF this(1)] this(2) suffix_length_less [OF this(3)] have s': "drop ?q (ps_text st) = s'" "q < ?q" "?q < N" "length s' \<le> N"
      using len q by (auto simp: less_diff_conv)
    have st': "top ?a + off ?a \<le> ps_p st" "1 \<le> top ?a" "inv ?a" using st by (auto simp: ready_def)
    let ?ty = "case n of AInt i \<Rightarrow> TYPE_INTEGER | ADbl d \<Rightarrow> TYPE_DOUBLE"
    show ?thesis
    proof (rule reserveE [OF st'(3), of 1])
      assume "ao_reserve ops 1 ?a = NoMemory"
      then show ?thesis using 2 q(3) len by (simp add: agrees_def parse_number_def Let_def oom_alloc)
    next
      fix a1 assume a1: "ao_reserve ops 1 ?a = Done a1" "inv a1" "top a1 = top ?a" "off a1 = off ?a + 1"
        "\<And>i. i < top ?a \<Longrightarrow> ld a1 i = ld ?a i" "\<And>d. 1 \<le> d \<Longrightarrow> d \<le> off ?a \<Longrightarrow> la a1 d = la ?a d"
      obtain old where old: "la a1 (off a1) = Some old" using load_ast [of a1 "off a1"] a1 st' q by fastforce
      define w where "w = (case n of AInt i \<Rightarrow> integer_store old i | ADbl d \<Rightarrow> d)"
      obtain a2 where a2: "ao_store_ast ops (off a1) w a1 = Some a2" "inv a2" "top a2 = top a1" "off a2 = off a1" "la a2 (off a1) = Some w"
        "\<And>e. 1 \<le> e \<Longrightarrow> e \<le> off a1 \<Longrightarrow> e \<noteq> off a1 \<Longrightarrow> la a2 e = la a1 e"
        "\<And>i. i < top a1 \<Longrightarrow> i + off a1 < N \<Longrightarrow> ld a2 i = ld a1 i"
        by (rule store_astE [of a1 "off a1" w]) (use a1 st' q in auto)
      have store: "store_number ops n a1 = Some a2" using a2(1) old by (cases n) (simp_all add: store_number_def w_def)
      have rep: "repr (la a2) t ?ty (off a2) (json_of_number n)" for t
      proof (cases n)
        case (AInt i)
        then have "\<bar>i\<bar> \<le> 2147483559" using scan_number_cases(3) [OF q(4)] 2 by simp
        then have "integer_load w = i" unfolding w_def using AInt integer_load_store [of i old] by simp
        with AInt a1(4) a2(4,5) show ?thesis by (auto intro!: repr_int)
      next
        case (ADbl d)
        with a1(4) a2(4,5) show ?thesis by (auto intro!: repr_dbl simp: w_def)
      qed
      let ?st = "st\<lparr>ps_alloc := a2, ps_p := ?q\<rparr>"
      have keep: "keeps ?a a2 (top ?a)"
        unfolding keeps_def using a1 a2 st'(1) q(1,2) by auto
      have "oom (cont ops fo std_sort (push_value ops ?ty ?st)) \<or>
          (\<exists>st'. pushed st st' s' (json_of_number n) \<and> cont ops fo std_sort (push_value ops ?ty ?st) = run ops fo std_sort Structure_close_or_comma st')"
        by (rule push_pushed [OF N st]) (use st' q s' len a1 a2 keep rep in \<open>auto split: number.splits\<close>)
      then show ?thesis using 2 q(3) len a1(1) store by (simp add: agrees_def parse_number_def Let_def ares_of_def)
    qed
  qed
qed

text \<open>The string that starts at the quote at \<open>q\<close>, as it is stored: the tags, the pointer behind it, the text.\<close>

lemma parse_string_stored:
  assumes N: "N < 2 ^ 61 - 1" and len: "length t = N" and q: "q < N" "drop q t = c # s" and dec: "decode_string s = SOk s' v"
  obtains t' where "length t' = N" "take (q + 1) t' = take (q + 1) t" "drop (N - length s') t' = s'" "length s' \<le> N"
    "q + 1 + length v < N - length s'" "parse_string t q = Ok (t', N - length s', q + 1, q + 1 + length v)"
    "slice (take (N - length s') t') (of_nat (q + 1)) (of_nat (q + 1 + length v)) = v"
    "(of_nat (q + 1) :: u64) \<le> of_nat (q + 1 + length v)" "unat (of_nat (q + 1 + length v) :: u64) \<le> length (take (N - length s') t')"
proof -
  have s: "drop (q + 1) t = s" using q(2) by (metis drop_Suc Suc_eq_plus1 drop_tl list.sel(3))
  have ls: "length s = N - q - 1" using arg_cong [OF q(2), of length] q(1) len by simp
  note c = decode_string_cases(2) [OF dec]
  obtain t' where t': "length t' = N" "take (q + 1) t' = take (q + 1) t" "take (length v) (drop (q + 1) t') = v"
    "drop (N - length s') t' = s'" "parse_string t q = Ok (t', N - length s', q + 1, q + 1 + length v)"
    using parse_string_Ok [of q t s' v] s dec q(1) len by blast
  have lt: "q + 1 + length v < N - length s'" using c ls q(1) by linarith
  have small: "unat (of_nat (q + 1) :: u64) = q + 1" "unat (of_nat (q + 1 + length v) :: u64) = q + 1 + length v"
    using lt N by (intro unat_of_nat_small; linarith)+
  then have le: "(of_nat (q + 1) :: u64) \<le> of_nat (q + 1 + length v)" by (simp only: word_le_nat_alt)
  then have "unat (of_nat (q + 1 + length v) - of_nat (q + 1) :: u64) = length v" by (simp only: unat_sub small)
  then have "slice (take (N - length s') t') (of_nat (q + 1)) (of_nat (q + 1 + length v)) = take (length v) (drop (q + 1) (take (N - length s') t'))"
    unfolding slice_def small by simp
  also have "\<dots> = v" using t'(3) lt by (simp add: drop_take)
  finally show ?thesis using that t' lt le small c ls q(1) by simp
qed

lemma string_agrees:
  assumes N: "N < 2 ^ 61 - 1" and st: "ready st" and q: "ps_p st \<le> q" "q < N" "drop q (ps_text st) = c # s"
  shows "agrees fo std_sort st (map_scan JStr (decode_string s)) (cont ops fo std_sort (next_string ops q st))"
proof -
  let ?a = "ps_alloc st" and ?t = "ps_text st"
  have len: "length ?t = N" and st': "top ?a + off ?a \<le> ps_p st" "1 \<le> top ?a" "inv ?a" using st by (auto simp: ready_def)
  have s: "drop (q + 1) ?t = s" using q(3) by (metis drop_Suc Suc_eq_plus1 drop_tl list.sel(3))
  show ?thesis
  proof (rule reserveE [OF st'(3), of 2])
    assume "ao_reserve ops 2 ?a = NoMemory"
    then show ?thesis by (simp add: agrees_def next_string_def oom_alloc split: scan.split)
  next
    fix a1 assume a1: "ao_reserve ops 2 ?a = Done a1" "inv a1" "top a1 = top ?a" "off a1 = off ?a + 2"
      "\<And>i. i < top ?a \<Longrightarrow> ld a1 i = ld ?a i" "\<And>d. 1 \<le> d \<Longrightarrow> d \<le> off ?a \<Longrightarrow> la a1 d = la ?a d"
    consider e s' where "decode_string s = SErr e s'" | s' v where "decode_string s = SOk s' v"
      using decode_string_cases(1) [of s] by (cases "decode_string s") auto
    then show ?thesis
    proof cases
      case 1
      with parse_string_Err [of q ?t e s'] s q(2) len show ?thesis
        by (auto simp: agrees_def next_string_def a1(1) failed_def)
    next
      case 2
      let ?q = "N - length s'"
      obtain t' where t': "length t' = N" "take (q + 1) t' = take (q + 1) ?t" "drop ?q t' = s'" "length s' \<le> N"
        "q + 1 + length v < ?q" "parse_string ?t q = Ok (t', ?q, q + 1, q + 1 + length v)"
        "slice (take ?q t') (of_nat (q + 1)) (of_nat (q + 1 + length v)) = v"
        "(of_nat (q + 1) :: u64) \<le> of_nat (q + 1 + length v)" "unat (of_nat (q + 1 + length v) :: u64) \<le> length (take ?q t')"
        by (rule parse_string_stored [OF N len q(2,3) 2])
      obtain a2 where a2: "ao_store_ast ops (off a1) (of_nat (q + 1)) a1 = Some a2" "inv a2" "top a2 = top a1" "off a2 = off a1"
        "la a2 (off a1) = Some (of_nat (q + 1))" "\<And>e. 1 \<le> e \<Longrightarrow> e \<le> off a1 \<Longrightarrow> e \<noteq> off a1 \<Longrightarrow> la a2 e = la a1 e"
        "\<And>i. i < top a1 \<Longrightarrow> i + off a1 < N \<Longrightarrow> ld a2 i = ld a1 i"
        by (rule store_astE [of a1 "off a1" "of_nat (q + 1)"]) (use a1 st' q t'(5) in auto)
      obtain a3 where a3: "ao_store_ast ops (off a1 - 1) (of_nat (q + 1 + length v)) a2 = Some a3" "inv a3" "top a3 = top a2" "off a3 = off a2"
        "la a3 (off a1 - 1) = Some (of_nat (q + 1 + length v))" "\<And>e. 1 \<le> e \<Longrightarrow> e \<le> off a2 \<Longrightarrow> e \<noteq> off a1 - 1 \<Longrightarrow> la a3 e = la a2 e"
        "\<And>i. i < top a2 \<Longrightarrow> i + (off a1 - 1) < N \<Longrightarrow> ld a3 i = ld a2 i"
        by (rule store_astE [of a2 "off a1 - 1" "of_nat (q + 1 + length v)"]) (use a1 a2 st' q t'(5) in auto)
      have rep: "repr (la a3) (take ?q t') TYPE_STRING (off a3) (JStr v)"
      proof -
        have "la a3 (off a3) = Some (of_nat (q + 1))" "la a3 (off a3 - 1) = Some (of_nat (q + 1 + length v))"
          using a3(4-6) a2(4,5) a1(4) by auto
        from repr_str [OF _ this t'(8,9)] t'(7) a3(4) a2(4) a1(4) show ?thesis by simp
      qed
      have keep: "keeps ?a a3 (top ?a)"
        unfolding keeps_def using a1 a2 a3 st'(1) q(1,2) t'(5) by auto
      have tp: "take (ps_p st) t' = take (ps_p st) ?t"
        using arg_cong [OF t'(2), of "take (ps_p st)"] q(1) by (simp add: min_def)
      let ?st = "st\<lparr>ps_text := t', ps_alloc := a3, ps_p := ?q\<rparr>"
      have "oom (cont ops fo std_sort (push_value ops TYPE_STRING ?st)) \<or>
          (\<exists>st'. pushed st st' s' (JStr v) \<and> cont ops fo std_sort (push_value ops TYPE_STRING ?st) = run ops fo std_sort Structure_close_or_comma st')"
        by (rule push_pushed [OF N st]) (use st' q t' a1 a2 a3 keep rep tp in auto)
      then show ?thesis using 2 t'(6) a1(1) a2(1) a3(1) by (simp add: agrees_def next_string_def Let_def ares_of_def)
    qed
  qed
qed

section \<open>Structures\<close>

text \<open>
  What the items of a structure leave on the stack, \<open>w\<close> words for each, with the pointer at the closing bracket.
\<close>

definition listed :: "nat \<Rightarrow> ('s \<Rightarrow> string \<Rightarrow> nat \<Rightarrow> 'v \<Rightarrow> bool) \<Rightarrow> 's pstate \<Rightarrow> 's pstate \<Rightarrow> string \<Rightarrow> 'v list \<Rightarrow> bool" where
  "listed w H st st' s vs \<longleftrightarrow>
     length (ps_text st') = N \<and> take (ps_p st) (ps_text st') = take (ps_p st) (ps_text st) \<and>
     ps_p st' < N \<and> ps_p st \<le> ps_p st' \<and> drop (ps_p st' + 1) (ps_text st') = s \<and>
     ps_base st' = ps_base st \<and> ps_type st' = ps_type st \<and>
     inv (ps_alloc st') \<and> top (ps_alloc st') = top (ps_alloc st) + w * length vs \<and>
     keeps (ps_alloc st) (ps_alloc st') (top (ps_alloc st)) \<and>
     top (ps_alloc st') + off (ps_alloc st') \<le> ps_p st' + 1 \<and>
     (\<forall>i < length vs. H (ps_alloc st') (take (ps_p st') (ps_text st')) (top (ps_alloc st) + w * i) (vs ! i))"

definition agrees_list ::
  "float_ops \<Rightarrow> sorter \<Rightarrow> nat \<Rightarrow> ('s \<Rightarrow> string \<Rightarrow> nat \<Rightarrow> 'v \<Rightarrow> bool) \<Rightarrow> label \<Rightarrow> 's pstate \<Rightarrow> 'v list scan \<Rightarrow> 's final option \<Rightarrow> bool" where
  "agrees_list fo std_sort w H l st res r \<longleftrightarrow>
     (case res of
        SErr e s \<Rightarrow> oom r \<or> failed N e s r
      | SOk s vs \<Rightarrow> oom r \<or> (\<exists>st'. listed w H st st' s vs \<and> r = run ops fo std_sort l st')
      | SFault \<Rightarrow> True)"

text \<open>What follows an item, for an array and for an object.\<close>

lemma close_or_comma:
  assumes p: "ps_p st \<le> N" "length (ps_text st) = N" and ty: "ps_type st = ty" "ty = TYPE_ARRAY \<or> ty = TYPE_OBJECT"
  defines "close \<equiv> if ty = TYPE_ARRAY then CHR '']'' else CHR ''}''"
  defines "pop_l \<equiv> if ty = TYPE_ARRAY then Pop_array else Pop_object"
  defines "item_l \<equiv> if ty = TYPE_ARRAY then Next_element else Object_key"
  shows "run ops fo std_sort Structure_close_or_comma st =
    (case ws (drop (ps_p st) (ps_text st)) of
       [] \<Rightarrow> cont ops fo std_sort (fail_at st None ERROR_UNEXPECTED_END)
     | c # r \<Rightarrow>
         let q = N - Suc (length r)
         in if c = close then run ops fo std_sort pop_l (st\<lparr>ps_p := q\<rparr>)
            else if c \<noteq> CHR '','' then cont ops fo std_sort (fail_at st (Some q) ERROR_EXPECTED_COMMA)
            else run ops fo std_sort item_l (st\<lparr>ps_p := q + 1\<rparr>))"
  using ty(2) p
  by (auto simp: run_cont [of _ _ _ Structure_close_or_comma] step_structure_close_or_comma_def token_ws ty(1) close_def
      pop_l_def item_l_def Let_def split: list.splits)

text \<open>One more item in front.\<close>

lemma listed_Cons:
  assumes first: "length (ps_text st1) = N" "take (ps_p st) (ps_text st1) = take (ps_p st) (ps_text st)" "ps_p st \<le> ps_p st1"
      "ps_base st1 = ps_base st" "ps_type st1 = ps_type st" "top (ps_alloc st1) = top (ps_alloc st) + w"
      "keeps (ps_alloc st) (ps_alloc st1) (top (ps_alloc st))" "H (ps_alloc st1) (take (ps_p st1) (ps_text st1)) (top (ps_alloc st)) v"
    and H: "\<And>a a' t u i v k. H a t i v \<Longrightarrow> keeps a a' k \<Longrightarrow> i + w \<le> k \<Longrightarrow> H a' (t @ u) i v"
    and rest: "listed w H st1 st' s vs"
  shows "listed w H st st' s (v # vs)"
proof -
  have k: "keeps (ps_alloc st1) (ps_alloc st') (top (ps_alloc st1))" and le: "ps_p st1 \<le> ps_p st'"
    and t: "take (ps_p st1) (ps_text st') = take (ps_p st1) (ps_text st1)"
    using rest by (auto simp: listed_def)
  obtain u where "take (ps_p st') (ps_text st') = take (ps_p st1) (ps_text st1) @ u"
    using take_extend [OF t le] by blast
  then have v: "H (ps_alloc st') (take (ps_p st') (ps_text st')) (top (ps_alloc st)) v"
    using H [OF first(8) k] first(6) by simp
  have "take (ps_p st) (ps_text st') = take (ps_p st) (ps_text st)"
    using arg_cong [OF t, of "take (ps_p st)"] first(2,3) by (simp add: min_def)
  moreover have "keeps (ps_alloc st) (ps_alloc st') (top (ps_alloc st))"
    using keeps_trans [OF first(7) k] first(6) by simp
  moreover have "H (ps_alloc st') (take (ps_p st') (ps_text st')) (top (ps_alloc st) + w * i) ((v # vs) ! i)"
    if "i < length (v # vs)" for i
    using that v rest first(6) by (cases i) (auto simp: listed_def add.assoc)
  ultimately show ?thesis using rest first unfolding listed_def by auto
qed

lemma listed_one:
  assumes "length (ps_text st') = N" "take (ps_p st) (ps_text st') = take (ps_p st) (ps_text st)" "ps_p st' < N" "ps_p st \<le> ps_p st'"
    "drop (ps_p st' + 1) (ps_text st') = s" "ps_base st' = ps_base st" "ps_type st' = ps_type st" "inv (ps_alloc st')"
    "top (ps_alloc st') = top (ps_alloc st) + w" "keeps (ps_alloc st) (ps_alloc st') (top (ps_alloc st))"
    "top (ps_alloc st') + off (ps_alloc st') \<le> ps_p st' + 1"
    "H (ps_alloc st') (take (ps_p st') (ps_text st')) (top (ps_alloc st)) v"
  shows "listed w H st st' s [v]"
  using assms by (simp add: listed_def)

text \<open>After a value: the state behind white space, before a bracket or behind a comma.\<close>

lemma pushed_next:
  assumes "pushed st st1 s1 v" "ready st" "ws s1 = c # r"
  defines "q \<equiv> N - Suc (length r)"
  shows "ps_p st1 \<le> q" "q < N" "drop (q + 1) (ps_text st1) = r" "length (ps_text st1) = N" "inv (ps_alloc st1)"
    "top (ps_alloc st1) = top (ps_alloc st) + 1" "keeps (ps_alloc st) (ps_alloc st1) (top (ps_alloc st))"
    "top (ps_alloc st1) + off (ps_alloc st1) \<le> q + 1" "ps_base st1 = ps_base st" "ps_type st1 = ps_type st"
    "ps_p st < q" "take (ps_p st) (ps_text st1) = take (ps_p st) (ps_text st)"
    "\<And>x. q \<le> x \<Longrightarrow> holds (ps_alloc st1) (take x (ps_text st1)) (top (ps_alloc st)) v"
    "ready (st1\<lparr>ps_p := q + 1\<rparr>)" "Suc (length r) \<le> N"
proof -
  have "s1 \<noteq> []" using assms(3) by auto
  note p = assms(1) [unfolded pushed_def]
  then show len: "length (ps_text st1) = N" and m: "inv (ps_alloc st1)" "top (ps_alloc st1) = top (ps_alloc st) + 1"
    "keeps (ps_alloc st) (ps_alloc st1) (top (ps_alloc st))" "ps_base st1 = ps_base st" "ps_type st1 = ps_type st"
    "take (ps_p st) (ps_text st1) = take (ps_p st) (ps_text st)"
    using \<open>s1 \<noteq> []\<close> by auto
  have d: "ws (drop (ps_p st1) (ps_text st1)) = c # r" "ps_p st1 \<le> length (ps_text st1)" using p assms(3) by auto
  note w = ws_drop [OF d, unfolded len, folded q_def]
  show "ps_p st1 \<le> q" "q < N" "drop (q + 1) (ps_text st1) = r" "Suc (length r) \<le> N" by (rule w)+
  show "ps_p st < q" using p w(1) by simp
  show le: "top (ps_alloc st1) + off (ps_alloc st1) \<le> q + 1" using p \<open>s1 \<noteq> []\<close> w(1) by simp
  show "holds (ps_alloc st1) (take x (ps_text st1)) (top (ps_alloc st)) v" if x: "q \<le> x" for x
  proof -
    obtain u where "take x (ps_text st1) = take (ps_p st1) (ps_text st1) @ u"
      using take_extend [OF refl order_trans [OF w(1) x], of "ps_text st1"] by blast
    moreover have "holds (ps_alloc st1) (take (ps_p st1) (ps_text st1)) (top (ps_alloc st)) v" using p \<open>s1 \<noteq> []\<close> by blast
    ultimately show ?thesis using holds_keeps [OF _ keeps_refl, of _ _ _ _ "Suc (top (ps_alloc st))"] by simp
  qed
  show "ready (st1\<lparr>ps_p := q + 1\<rparr>)" using assms(2) len m le w(2) by (auto simp: ready_def)
qed

lemma holds_keeps': "holds a t i v \<Longrightarrow> keeps a a' k \<Longrightarrow> i + 1 \<le> k \<Longrightarrow> holds a' (t @ u) i v"
  using holds_keeps by simp

lemma elements_step:
  assumes V: "\<And>st. ready st \<Longrightarrow> agrees fo std_sort st (rd_value fo n (drop (ps_p st) (ps_text st))) (run ops fo std_sort Next_element st)"
    and E: "\<And>st. ready st \<Longrightarrow> ps_type st = TYPE_ARRAY \<Longrightarrow>
      agrees_list fo std_sort 1 holds Pop_array st (rd_elements fo n (drop (ps_p st) (ps_text st))) (run ops fo std_sort Next_element st)"
    and st: "ready st" "ps_type st = TYPE_ARRAY"
  shows "agrees_list fo std_sort 1 holds Pop_array st (rd_elements fo (Suc n) (drop (ps_p st) (ps_text st))) (run ops fo std_sort Next_element st)"
proof -
  let ?s = "drop (ps_p st) (ps_text st)" and ?r = "run ops fo std_sort Next_element st"
  note v = V [OF st(1), unfolded agrees_def]
  show ?thesis
  proof (cases "rd_value fo n ?s")
    case (SOk s1 v1)
    with v consider "oom ?r" | st1 where "pushed st st1 s1 v1" "?r = run ops fo std_sort Structure_close_or_comma st1" by auto
    then show ?thesis
    proof cases
      case 1
      then show ?thesis by (simp add: agrees_list_def split: scan.split)
    next
      case p: 2
      then have p1: "ps_p st1 \<le> N" "length (ps_text st1) = N" "ps_type st1 = TYPE_ARRAY" "drop (ps_p st1) (ps_text st1) = s1"
        using st by (auto simp: pushed_def)
      note r = close_or_comma [where fo = fo and std_sort = std_sort, OF p1(1-3), simplified, unfolded p1(4), folded p(2)]
      show ?thesis
      proof (cases "ws s1")
        case Nil
        then show ?thesis using SOk r p1(2) by (simp add: agrees_list_def failed_fail_at)
      next
        case (Cons c x)
        note nx = pushed_next [OF p(1) st(1) Cons]
        let ?q = "N - Suc (length x)"
        consider "c = CHR '']''" | "c = CHR '',''" | "c \<noteq> CHR '']''" "c \<noteq> CHR '',''" by blast
        then show ?thesis
        proof cases
          case 1
          have "listed 1 holds st (st1\<lparr>ps_p := ?q\<rparr>) x [v1]"
            by (rule listed_one) (use nx in auto)
          then show ?thesis using SOk r Cons 1 by (auto simp: agrees_list_def Let_def)
        next
          case 2
          let ?st = "st1\<lparr>ps_p := ?q + 1\<rparr>"
          have run: "?r = run ops fo std_sort Next_element ?st" using r Cons 2 by (simp add: Let_def)
          from E [of ?st] nx(14,3) p1(3) have e: "agrees_list fo std_sort 1 holds Pop_array ?st (rd_elements fo n x) ?r" by (simp add: run)
          have "listed 1 holds st st' s' (v1 # vs)" if "listed 1 holds ?st st' s' vs" for st' s' vs
            by (rule listed_Cons [OF _ _ _ _ _ _ _ _ holds_keeps' that]) (use nx in auto)
          with e show ?thesis using SOk Cons 2 by (cases "rd_elements fo n x") (auto simp: agrees_list_def)
        next
          case 3
          then show ?thesis using SOk r Cons p1(2) nx(15) by (auto simp: agrees_list_def Let_def intro!: failed_fail_at)
        qed
      qed
    qed
  qed (use v in \<open>simp_all add: agrees_list_def\<close>)
qed

text \<open>The key of a member.\<close>

definition keyed :: "'s pstate \<Rightarrow> 's pstate \<Rightarrow> string \<Rightarrow> string \<Rightarrow> bool" where
  "keyed st st' s k \<longleftrightarrow>
     ready st' \<and> drop (ps_p st') (ps_text st') = s \<and> take (ps_p st) (ps_text st') = take (ps_p st) (ps_text st) \<and>
     ps_p st < ps_p st' \<and> ps_base st' = ps_base st \<and> ps_type st' = ps_type st \<and>
     top (ps_alloc st') = top (ps_alloc st) + 2 \<and> keeps (ps_alloc st) (ps_alloc st') (top (ps_alloc st)) \<and>
     (\<exists>x y. ld (ps_alloc st') (top (ps_alloc st)) = Some x \<and> ld (ps_alloc st') (top (ps_alloc st) + 1) = Some y \<and>
        x \<le> y \<and> unat y \<le> length (take (ps_p st') (ps_text st')) \<and> slice (take (ps_p st') (ps_text st')) x y = k)"

lemma stack_reserveE:
  assumes "inv a"
  obtains "ao_stack_reserve ops n a = NoMemory" | a' where "ao_stack_reserve ops n a = Done a'" "inv a'" "top a' = top a + n" "off a' = off a"
    "\<And>i. i < top a \<Longrightarrow> ld a' i = ld a i" "\<And>d. 1 \<le> d \<Longrightarrow> d \<le> off a \<Longrightarrow> la a' d = la a d"
proof (cases "ao_stack_reserve ops n a")
  case (Done a')
  note r = stack_reserve [OF assms, of n, THEN conjunct2, THEN spec, THEN mp, OF Done]
  show ?thesis by (rule that(2) [OF Done]) (use r in auto)
next
  case BadAccess
  with stack_reserve [OF assms, of n, THEN conjunct1] show ?thesis by simp
qed (rule that(1))

text \<open>Both tags of a key are stored below the top of the stack.\<close>

lemma store_tags:
  assumes "inv a" "top a + off a + 1 < N" "ao_stack_reserve ops 2 a = Done a1"
  obtains a2 a3 where "ao_store_stack ops (top a) x a1 = Some a2" "ao_store_stack ops (top a + 1) y a2 = Some a3" "inv a3"
    "top a3 = top a + 2" "off a3 = off a" "keeps a a3 (top a)" "ld a3 (top a) = Some x" "ld a3 (top a + 1) = Some y"
proof (rule stack_reserveE [OF assms(1), of 2])
  fix a' assume "ao_stack_reserve ops 2 a = Done a'" "inv a'" "top a' = top a + 2" "off a' = off a"
    "\<And>i. i < top a \<Longrightarrow> ld a' i = ld a i" "\<And>d. 1 \<le> d \<Longrightarrow> d \<le> off a \<Longrightarrow> la a' d = la a d"
  with assms(3) have a1: "inv a1" "top a1 = top a + 2" "off a1 = off a" "\<And>i. i < top a \<Longrightarrow> ld a1 i = ld a i"
    "\<And>d. 1 \<le> d \<Longrightarrow> d \<le> off a \<Longrightarrow> la a1 d = la a d" by simp_all
  obtain a2 where a2: "ao_store_stack ops (top a) x a1 = Some a2" "inv a2" "top a2 = top a1" "off a2 = off a1" "ld a2 (top a) = Some x"
    "\<And>j. j < top a1 \<Longrightarrow> j \<noteq> top a \<Longrightarrow> ld a2 j = ld a1 j" "\<And>d. 1 \<le> d \<Longrightarrow> d \<le> off a1 \<Longrightarrow> top a + d < N \<Longrightarrow> la a2 d = la a1 d"
    by (rule store_stackE [of a1 "top a" x]) (use a1 assms(2) in auto)
  obtain a3 where a3: "ao_store_stack ops (top a + 1) y a2 = Some a3" "inv a3" "top a3 = top a2" "off a3 = off a2" "ld a3 (top a + 1) = Some y"
    "\<And>j. j < top a2 \<Longrightarrow> j \<noteq> top a + 1 \<Longrightarrow> ld a3 j = ld a2 j" "\<And>d. 1 \<le> d \<Longrightarrow> d \<le> off a2 \<Longrightarrow> top a + 1 + d < N \<Longrightarrow> la a3 d = la a2 d"
    by (rule store_stackE [of a2 "top a + 1" y]) (use a1 a2 assms(2) in auto)
  have "keeps a a3 (top a)" unfolding keeps_def using a1 a2 a3 assms(2) by auto
  then show ?thesis using that [OF a2(1) a3(1)] a1 a2 a3 by simp
qed (use assms(3) in simp)

lemma key_agrees:
  fixes fo :: float_ops and std_sort :: sorter
  assumes N: "N < 2 ^ 61 - 1" and st: "ready st"
  defines "r \<equiv> run ops fo std_sort Object_key st"
  shows "case rd_key (drop (ps_p st) (ps_text st)) of
      SErr e s \<Rightarrow> oom r \<or> failed N e s r
    | SOk s k \<Rightarrow> oom r \<or> (\<exists>st'. keyed st st' s k \<and> r = run ops fo std_sort Next_element st')
    | SFault \<Rightarrow> True"
proof -
  let ?a = "ps_alloc st" and ?t = "ps_text st"
  have len: "length ?t = N" and st': "top ?a + off ?a \<le> ps_p st" "1 \<le> top ?a" "inv ?a" "ps_p st \<le> N" using st by (auto simp: ready_def)
  have r: "r = cont ops fo std_sort (step_object_key ops st)" by (simp add: r_def run_cont [of _ _ _ Object_key])
  show ?thesis
  proof (cases "ws (drop (ps_p st) ?t)")
    case Nil
    then show ?thesis using len st'(4) failed_fail_at(1) [OF len] by (simp add: r step_object_key_def token_ws rd_key_def)
  next
    case (Cons c x)
    let ?q = "N - Suc (length x)"
    have "ps_p st \<le> length ?t" using len st'(4) by simp
    note w = ws_drop [OF Cons this, unfolded len]
    note tok = token_ws [of "ps_p st" st, unfolded len Cons list.case, OF st'(4)]
    show ?thesis
    proof (cases "c = CHR 0x22")
      case False
      then show ?thesis using Cons w(7) failed_fail_at(2) [OF len, of _ "c # x"] by (simp add: r step_object_key_def tok rd_key_def)
    next
      case True
      have key: "rd_key (drop (ps_p st) ?t) = (case decode_string x of SErr e s' \<Rightarrow> SErr e s' | SFault \<Rightarrow> SFault
          | SOk s1 k \<Rightarrow> (case ws s1 of [] \<Rightarrow> SErr ERROR_EXPECTED_COLON []
             | d # r1 \<Rightarrow> if d \<noteq> CHR '':'' then SErr ERROR_EXPECTED_COLON (d # r1) else SOk r1 k))"
        using True Cons by (simp add: rd_key_def)
      show ?thesis
      proof (rule stack_reserveE [OF st'(3), of 2])
        assume "ao_stack_reserve ops 2 ?a = NoMemory"
        then have "oom r" using True by (simp add: r step_object_key_def tok oom_alloc)
        then show ?thesis by (simp split: scan.split)
      next
        fix a1 assume a1: "ao_stack_reserve ops 2 ?a = Done a1"
        consider e s' where "decode_string x = SErr e s'" | s' k where "decode_string x = SOk s' k"
          using decode_string_cases(1) [of x] by (cases "decode_string x") auto
        then show ?thesis
        proof cases
          case 1
          with parse_string_Err [of ?q ?t e s'] w(2,5) len have "failed N e s' r"
            using True a1 by (auto simp: r step_object_key_def tok failed_def)
          then show ?thesis using key 1 by simp
        next
          case 2
          let ?p = "N - length s'"
          obtain t' where t': "length t' = N" "take (?q + 1) t' = take (?q + 1) ?t" "drop ?p t' = s'" "length s' \<le> N"
            "?q + 1 + length k < ?p" "parse_string ?t ?q = Ok (t', ?p, ?q + 1, ?q + 1 + length k)"
            "slice (take ?p t') (of_nat (?q + 1)) (of_nat (?q + 1 + length k)) = k"
            "(of_nat (?q + 1) :: u64) \<le> of_nat (?q + 1 + length k)" "unat (of_nat (?q + 1 + length k) :: u64) \<le> length (take ?p t')"
            by (rule parse_string_stored [OF N len w(2,3) 2])
          have "top ?a + off ?a + 1 < N" using st'(1) w(1) t'(5) by linarith
          from store_tags [OF st'(3) this a1, of "of_nat (?q + 1)" "of_nat (?q + 1 + length k)"]
          obtain a2 a3 where a3: "ao_store_stack ops (top ?a) (of_nat (?q + 1)) a1 = Some a2"
            "ao_store_stack ops (top ?a + 1) (of_nat (?q + 1 + length k)) a2 = Some a3" "inv a3" "top a3 = top ?a + 2"
            "off a3 = off ?a" "keeps ?a a3 (top ?a)" "ld a3 (top ?a) = Some (of_nat (?q + 1))"
            "ld a3 (top ?a + 1) = Some (of_nat (?q + 1 + length k))" .
          let ?st = "st\<lparr>ps_text := t'\<rparr>"
          have np: "(N < ?p) = False" by simp
          have res: "r = cont ops fo std_sort (case ws s' of [] \<Rightarrow> fail_at ?st None ERROR_EXPECTED_COLON
            | d # r1 \<Rightarrow> let q = N - Suc (length r1) in if d \<noteq> CHR '':'' then fail_at ?st (Some q) ERROR_EXPECTED_COLON
                else Goto Next_element (?st\<lparr>ps_alloc := a3, ps_p := q + 1\<rparr>))"
          proof (cases "ws s'")
            case Nil
            then show ?thesis
              using True a1 t'(1,3,6) a3(1,2) skip_whitespace_ws [of ?p t'] by (simp add: r step_object_key_def tok Let_def ares_of_def np)
          next
            case (Cons d y)
            then have d: "ws (drop ?p t') = d # y" "?p \<le> length t'" using t'(1,3) by simp_all
            then show ?thesis
              using True a1 t'(1,3,6) a3(1,2) Cons skip_whitespace_ws [OF d(2)] ws_drop(4) [OF d]
              by (simp add: r step_object_key_def tok Let_def ares_of_def np)
          qed
          show ?thesis
          proof (cases "ws s'")
            case Nil
            then show ?thesis using key 2 res failed_fail_at(1) [of ?st N] t'(1) by simp
          next
            case (Cons d y)
            have d: "ws (drop ?p t') = d # y" "?p \<le> length t'" using Cons t'(1,3) by simp_all
            note w2 = ws_drop [OF d, unfolded t'(1)]
            show ?thesis
            proof (cases "d = CHR '':''")
              case False
              then show ?thesis using key 2 res Cons failed_fail_at(2) [of ?st N _ "d # y"] t'(1) w2(7) by simp
            next
              case True
              let ?q2 = "N - Suc (length y)" and ?st2 = "?st\<lparr>ps_alloc := a3, ps_p := N - Suc (length y) + 1\<rparr>"
              have "keyed st ?st2 y k"
                unfolding keyed_def
              proof (intro conjI)
                have "?q + 2 \<le> ?q2" using t'(5) w2(1) by linarith
                then show "ready ?st2" "ps_p st < ps_p ?st2" using st w(1) w2(2) t'(1) a3(3-5) unfolding ready_def by simp_all
                show "drop (ps_p ?st2) (ps_text ?st2) = y" using w2(5) by simp
                show "take (ps_p st) (ps_text ?st2) = take (ps_p st) ?t"
                  using arg_cong [OF t'(2), of "take (ps_p st)"] w(1) by (simp add: min_def)
                obtain u where "take (?q2 + 1) t' = take ?p t' @ u" using take_extend [OF refl, of ?p "?q2 + 1" t'] w2(1) by auto
                then show "\<exists>x y. ld (ps_alloc ?st2) (top ?a) = Some x \<and> ld (ps_alloc ?st2) (top ?a + 1) = Some y \<and> x \<le> y \<and>
                    unat y \<le> length (take (ps_p ?st2) (ps_text ?st2)) \<and> slice (take (ps_p ?st2) (ps_text ?st2)) x y = k"
                  using a3(7,8) t'(7-9) slice_prefix [OF t'(8,9), of u] by (intro exI conjI) auto
              qed (use a3 in simp_all)
              then show ?thesis using key 2 res Cons True by (auto simp: Let_def)
            qed
          qed
        qed
      qed
    qed
  qed
qed

text \<open>A member: its key, then its value.\<close>

lemma keyed_pushed:
  assumes "keyed st st1 s1 k" "pushed st1 st2 s2 v" "ws s2 = c # x"
  defines "q \<equiv> N - Suc (length x)"
  shows "top (ps_alloc st2) = top (ps_alloc st) + 3" "keeps (ps_alloc st) (ps_alloc st2) (top (ps_alloc st))"
    "take (ps_p st) (ps_text st2) = take (ps_p st) (ps_text st)" "ps_p st < q" "ps_base st2 = ps_base st" "ps_type st2 = ps_type st"
    "\<And>y. q \<le> y \<Longrightarrow> holds_member (ps_alloc st2) (take y (ps_text st2)) (top (ps_alloc st)) (k, v)"
proof -
  note kd = assms(1) [unfolded keyed_def]
  then have r1: "ready st1" by blast
  note nx = pushed_next [OF assms(2) r1 assms(3), folded q_def]
  show "top (ps_alloc st2) = top (ps_alloc st) + 3" "ps_base st2 = ps_base st" "ps_type st2 = ps_type st" "ps_p st < q"
    using kd nx by auto
  show "keeps (ps_alloc st) (ps_alloc st2) (top (ps_alloc st))" using keeps_trans [of "ps_alloc st" "ps_alloc st1"] kd nx(7) by auto
  show "take (ps_p st) (ps_text st2) = take (ps_p st) (ps_text st)"
    using arg_cong [OF nx(12), of "take (ps_p st)"] kd by (simp add: min_def)
  fix y assume y: "q \<le> y"
  from kd obtain i j where ij: "ld (ps_alloc st1) (top (ps_alloc st)) = Some i" "ld (ps_alloc st1) (top (ps_alloc st) + 1) = Some j"
    "i \<le> j" "unat j \<le> length (take (ps_p st1) (ps_text st1))" "slice (take (ps_p st1) (ps_text st1)) i j = k"
    by blast
  obtain u where u: "take y (ps_text st2) = take (ps_p st1) (ps_text st1) @ u"
    using take_extend [OF nx(12), of y] nx(11) y by auto
  have "ld (ps_alloc st2) (top (ps_alloc st)) = Some i" "ld (ps_alloc st2) (top (ps_alloc st) + 1) = Some j"
    using ij(1,2) nx(7) kd by (auto simp: keeps_def)
  moreover have "slice (take y (ps_text st2)) i j = k" "unat j \<le> length (take y (ps_text st2))"
    unfolding u using slice_prefix [OF ij(3,4), of u] ij(4,5) by auto
  moreover have "holds (ps_alloc st2) (take y (ps_text st2)) (top (ps_alloc st) + 2) v" using nx(13) [OF y] kd by simp
  ultimately show "holds_member (ps_alloc st2) (take y (ps_text st2)) (top (ps_alloc st)) (k, v)"
    unfolding holds_member_def using ij(3) by auto
qed

lemma holds_member_keeps': "holds_member a t i v \<Longrightarrow> keeps a a' k \<Longrightarrow> i + 3 \<le> k \<Longrightarrow> holds_member a' (t @ u) i v"
  using holds_member_keeps by simp

lemma members_step:
  assumes N: "N < 2 ^ 61 - 1"
    and V: "\<And>st. ready st \<Longrightarrow> agrees fo std_sort st (rd_value fo n (drop (ps_p st) (ps_text st))) (run ops fo std_sort Next_element st)"
    and M: "\<And>st. ready st \<Longrightarrow> ps_type st = TYPE_OBJECT \<Longrightarrow>
      agrees_list fo std_sort 3 holds_member Pop_object st (rd_members fo n (drop (ps_p st) (ps_text st))) (run ops fo std_sort Object_key st)"
    and st: "ready st" "ps_type st = TYPE_OBJECT"
  shows "agrees_list fo std_sort 3 holds_member Pop_object st (rd_members fo (Suc n) (drop (ps_p st) (ps_text st))) (run ops fo std_sort Object_key st)"
proof -
  let ?s = "drop (ps_p st) (ps_text st)" and ?r = "run ops fo std_sort Object_key st"
  note key = key_agrees [OF N st(1), of fo std_sort]
  show ?thesis
  proof (cases "rd_key ?s")
    case k: (SOk s1 k)
    with key consider "oom ?r" | st1 where "keyed st st1 s1 k" "?r = run ops fo std_sort Next_element st1" by auto
    then show ?thesis
    proof cases
      case 1
      then show ?thesis by (simp add: agrees_list_def split: scan.split)
    next
      case kd: 2
      then have st1: "ready st1" "ps_type st1 = TYPE_OBJECT" "drop (ps_p st1) (ps_text st1) = s1" using st(2) by (auto simp: keyed_def)
      note v = V [OF st1(1), unfolded agrees_def st1(3), folded kd(2)]
      show ?thesis
      proof (cases "rd_value fo n s1")
        case (SOk s2 v1)
        with v consider "oom ?r" | st2 where "pushed st1 st2 s2 v1" "?r = run ops fo std_sort Structure_close_or_comma st2" by auto
        then show ?thesis
        proof cases
          case 1
          then show ?thesis by (simp add: agrees_list_def split: scan.split)
        next
          case p: 2
          then have p2: "ps_p st2 \<le> N" "length (ps_text st2) = N" "ps_type st2 = TYPE_OBJECT" "drop (ps_p st2) (ps_text st2) = s2"
            using st1 by (auto simp: pushed_def)
          note r = close_or_comma [where fo = fo and std_sort = std_sort, OF p2(1-3), simplified, unfolded p2(4), folded p(2)]
          show ?thesis
          proof (cases "ws s2")
            case Nil
            then show ?thesis using k SOk r p2(2) by (simp add: agrees_list_def failed_fail_at)
          next
            case (Cons c x)
            note nx = pushed_next [OF p(1) st1(1) Cons] and mb = keyed_pushed [OF kd(1) p(1) Cons]
            let ?q = "N - Suc (length x)"
            consider "c = CHR ''}''" | "c = CHR '',''" | "c \<noteq> CHR ''}''" "c \<noteq> CHR '',''" by blast
            then show ?thesis
            proof cases
              case 1
              have "listed 3 holds_member st (st2\<lparr>ps_p := ?q\<rparr>) x [(k, v1)]"
                by (rule listed_one) (use nx mb in auto)
              then show ?thesis using k SOk r Cons 1 by (auto simp: agrees_list_def Let_def)
            next
              case 2
              let ?st = "st2\<lparr>ps_p := ?q + 1\<rparr>"
              have run: "?r = run ops fo std_sort Object_key ?st" using r Cons 2 by (simp add: Let_def)
              from M [of ?st] nx(14,3) p2(3) have e: "agrees_list fo std_sort 3 holds_member Pop_object ?st (rd_members fo n x) ?r"
                by (simp add: run)
              have "listed 3 holds_member st st' s' ((k, v1) # vs)" if "listed 3 holds_member ?st st' s' vs" for st' s' vs
                by (rule listed_Cons [OF _ _ _ _ _ _ _ _ holds_member_keeps' that]) (use nx mb in auto)
              with e show ?thesis using k SOk Cons 2 by (cases "rd_members fo n x") (auto simp: agrees_list_def)
            next
              case 3
              then show ?thesis using k SOk r Cons p2(2) nx(15) by (auto simp: agrees_list_def Let_def intro!: failed_fail_at)
            qed
          qed
        qed
      qed (use v k in \<open>simp_all add: agrees_list_def\<close>)
    qed
  qed (use key in \<open>simp_all add: agrees_list_def\<close>)
qed

text \<open>From the opening bracket to the closing one.\<close>

lemma listed_earlier:
  assumes "listed w H (st\<lparr>ps_p := q\<rparr>) st' s vs" "ps_p st \<le> q"
  shows "listed w H st st' s vs"
proof -
  have "take (ps_p st) (ps_text st') = take (ps_p st) (take q (ps_text st'))" using assms(2) by (simp add: min_def)
  also have "take q (ps_text st') = take q (ps_text st)" using assms(1) by (simp add: listed_def)
  finally have "take (ps_p st) (ps_text st') = take (ps_p st) (ps_text st)" using assms(2) by (simp add: min_def)
  with assms show ?thesis by (auto simp: listed_def)
qed

lemma body_agrees:
  assumes step: "\<And>st. step ops fo std_sort lo st = token st (ps_p st + 1) (\<lambda>p c. Goto (if c = close then lp else li) (st\<lparr>ps_p := p\<rparr>))"
    and items: "\<And>st. ready st \<Longrightarrow> ps_type st = ps_type st1 \<Longrightarrow>
      agrees_list fo std_sort w H lp st (rd (drop (ps_p st) (ps_text st))) (run ops fo std_sort li st)"
    and st1: "inv (ps_alloc st1)" "length (ps_text st1) = N" "ps_p st1 < N" "1 \<le> top (ps_alloc st1)"
      "top (ps_alloc st1) + off (ps_alloc st1) \<le> ps_p st1 + 1" "ps_base st1 < N" "ps_type st1 \<noteq> TYPE_NOKEY"
  shows "agrees_list fo std_sort w H lp st1
    (case ws (drop (ps_p st1 + 1) (ps_text st1)) of [] \<Rightarrow> SErr ERROR_UNEXPECTED_END []
     | d # r \<Rightarrow> if d = close then SOk r [] else rd (d # r)) (run ops fo std_sort lo st1)"
proof -
  have p: "ps_p st1 + 1 \<le> length (ps_text st1)" using st1(2,3) by simp
  note run = run_cont [of ops fo std_sort lo st1, unfolded step token_ws [OF p]]
  show ?thesis
  proof (cases "ws (drop (ps_p st1 + 1) (ps_text st1))")
    case Nil
    then show ?thesis using run failed_fail_at(1) [OF st1(2)] by (simp add: agrees_list_def)
  next
    case (Cons d r)
    let ?q = "N - Suc (length r)" and ?st = "st1\<lparr>ps_p := N - Suc (length r)\<rparr>"
    note w = ws_drop [OF Cons p, unfolded st1(2)]
    show ?thesis
    proof (cases "d = close")
      case True
      have "listed w H st1 ?st r []" using st1 w keeps_refl by (auto simp: listed_def)
      then show ?thesis using Cons True run st1(2) by (auto simp: agrees_list_def)
    next
      case False
      have "ready ?st" using st1 w by (auto simp: ready_def)
      from items [OF this] w(3) have "agrees_list fo std_sort w H lp ?st (rd (d # r)) (run ops fo std_sort li ?st)" by simp
      then have "agrees_list fo std_sort w H lp st1 (rd (d # r)) (run ops fo std_sort li ?st)"
        using listed_earlier [of w H ?q st1] w(1) by (auto simp: agrees_list_def split: scan.splits)
      then show ?thesis using Cons False run st1(2) by simp
    qed
  qed
qed

definition closed :: "'s pstate \<Rightarrow> 's pstate \<Rightarrow> 's \<Rightarrow> json_type \<Rightarrow> json \<Rightarrow> bool" where
  "closed st1 st' a' ty v \<longleftrightarrow>
     inv a' \<and> ps_base st1 \<le> top a' \<and> keeps (ps_alloc st1) a' (ps_base st1) \<and> ps_base st1 + off a' \<le> ps_p st' + 1 \<and>
     repr (la a') (take (ps_p st' + 1) (ps_text st')) ty (off a') v"

definition closes :: "float_ops \<Rightarrow> sorter \<Rightarrow> label \<Rightarrow> nat \<Rightarrow> ('s \<Rightarrow> string \<Rightarrow> nat \<Rightarrow> 'v \<Rightarrow> bool) \<Rightarrow> ('v list \<Rightarrow> json) \<Rightarrow> json_type \<Rightarrow> bool" where
  "closes fo std_sort lp w H K ty \<longleftrightarrow>
     (\<forall>st1 st' s vs el. listed w H st1 st' s vs \<longrightarrow> top (ps_alloc st1) = ps_base st1 + 1 \<longrightarrow>
        ld (ps_alloc st1) (ps_base st1) = Some el \<longrightarrow>
        oom (run ops fo std_sort lp st') \<or>
        (\<exists>a'. run ops fo std_sort lp st' = cont ops fo std_sort (pop ops el (st'\<lparr>ps_p := ps_p st' + 1, ps_alloc := a'\<rparr>)) \<and>
           closed st1 st' a' ty (K vs)))"

lemma step_pop_cases:
  assumes "listed w H st1 st' s vs" "top (ps_alloc st1) = ps_base st1 + 1" "ld (ps_alloc st1) (ps_base st1) = Some el"
  shows "ld (ps_alloc st') (ps_base st') = Some el" "ps_base st' + 1 + w * length vs = top (ps_alloc st')"
    "top (ps_alloc st') + off (ps_alloc st') \<le> N" "inv (ps_alloc st')"
    "install (ps_base st' + 1) (top (ps_alloc st')) (ps_alloc st') = NoMemory \<Longrightarrow> oom (cont ops fo std_sort (step_pop ops install st'))"
    "install (ps_base st' + 1) (top (ps_alloc st')) (ps_alloc st') = Done a' \<Longrightarrow>
      step_pop ops install st' = pop ops el (st'\<lparr>ps_p := ps_p st' + 1, ps_alloc := a'\<rparr>)"
proof -
  show ld: "ld (ps_alloc st') (ps_base st') = Some el" using assms by (auto simp: listed_def keeps_def)
  show "ps_base st' + 1 + w * length vs = top (ps_alloc st')" "top (ps_alloc st') + off (ps_alloc st') \<le> N" "inv (ps_alloc st')"
    using assms by (auto simp: listed_def)
  show "oom (cont ops fo std_sort (step_pop ops install st'))"
    if "install (ps_base st' + 1) (top (ps_alloc st')) (ps_alloc st') = NoMemory"
    using that ld by (simp add: step_pop_def Let_def oom_alloc)
  show "step_pop ops install st' = pop ops el (st'\<lparr>ps_p := ps_p st' + 1, ps_alloc := a'\<rparr>)"
    if "install (ps_base st' + 1) (top (ps_alloc st')) (ps_alloc st') = Done a'"
    using that ld by (simp add: step_pop_def Let_def)
qed

text \<open>An element on the stack, moved into the tree.\<close>

lemma holds_moved:
  assumes "holds a t i v" "ld a i = Some e" "off a \<le> d" "d < 2 ^ 61" "\<And>f. 1 \<le> f \<Longrightarrow> f \<le> off a \<Longrightarrow> la a' f = la a f"
  shows "unat (get_element_value (moved d e)) \<le> d"
    "repr (la a') (t @ u) (get_element_type (moved d e)) (d - unat (get_element_value (moved d e))) v"
proof -
  obtain ty n where h: "ty \<noteq> TYPE_NOKEY" "e = make_element ty (of_nat n)" "n \<le> off a" "repr (la a) t ty n v"
    using assms(1,2) by (auto simp: holds_def)
  then have "n \<le> d" using assms(3) by simp
  note m = moved_element [OF h(1) this assms(4), folded h(2)]
  show "unat (get_element_value (moved d e)) \<le> d" by (simp add: m)
  have "repr (la a') (t @ u) ty n v" by (rule repr_mono [OF h(4)]) (use assms(5) h(3) in auto)
  then show "repr (la a') (t @ u) (get_element_type (moved d e)) (d - unat (get_element_value (moved d e))) v"
    using \<open>n \<le> d\<close> by (simp add: m)
qed

lemma close_array:
  assumes N: "N < 2 ^ 61 - 1"
  shows "closes fo std_sort Pop_array 1 holds JArr TYPE_ARRAY"
  unfolding closes_def
proof (intro allI impI)
  fix st1 st' s vs el assume l: "listed 1 holds st1 st' s vs" "top (ps_alloc st1) = ps_base st1 + 1" "ld (ps_alloc st1) (ps_base st1) = Some el"
  let ?a = "ps_alloc st'" and ?r = "run ops fo std_sort Pop_array st'" and ?k = "length vs"
  note c = step_pop_cases [OF l]
  have base: "ps_base st' = ps_base st1" using l(1) by (simp add: listed_def)
  have run: "?r = cont ops fo std_sort (step_pop ops (install_array ops) st')" by (simp add: run_cont [of _ _ _ Pop_array])
  have "ps_base st' + 1 + ?k = top ?a" "1 \<le> ps_base st' + 1" using c(2) by simp_all
  from install_array_ok [OF c(4) this(1) c(3) this(2)]
  show "oom ?r \<or> (\<exists>a'. ?r = cont ops fo std_sort (pop ops el (st'\<lparr>ps_p := ps_p st' + 1, ps_alloc := a'\<rparr>)) \<and> closed st1 st' a' TYPE_ARRAY (JArr vs))"
  proof (elim disjE exE)
    assume "install_array ops (ps_base st' + 1) (top ?a) ?a = NoMemory"
    then show ?thesis using c(5) run by simp
  next
    fix a' assume i: "install_array ops (ps_base st' + 1) (top ?a) ?a = Done a' \<and> inv a' \<and> top a' = top ?a \<and> off a' = off ?a + ?k + 1 \<and>
      (\<forall>i. i + 1 < ps_base st' + 1 \<longrightarrow> ld a' i = ld ?a i) \<and> (\<forall>d. 1 \<le> d \<and> d \<le> off ?a \<longrightarrow> la a' d = la ?a d) \<and>
      la a' (off ?a + ?k + 1) = Some (of_nat ?k) \<and>
      (\<forall>i < ?k. \<exists>e. ld ?a (ps_base st' + 1 + i) = Some e \<and> la a' (off ?a + ?k - i) = Some (moved (off ?a + ?k + 1) e))"
    let ?d = "off ?a + ?k + 1" and ?t = "take (ps_p st' + 1) (ps_text st')"
    have d: "?d < 2 ^ 61" "?k < 2 ^ 61" using c(2,3) N by linarith+
    obtain u where u: "?t = take (ps_p st') (ps_text st') @ u" using take_extend [OF refl, of "ps_p st'" "ps_p st' + 1" "ps_text st'"] by auto
    have "repr (la a') ?t TYPE_ARRAY ?d (JArr vs)"
    proof (rule repr_arr)
      show "\<forall>i < ?k. \<exists>e. la a' (?d - 1 - i) = Some e \<and> unat (get_element_value e) \<le> ?d \<and>
         repr (la a') ?t (get_element_type e) (?d - unat (get_element_value e)) (vs ! i)"
      proof (intro allI impI)
        fix j assume j: "j < ?k"
        with i obtain e where e: "ld ?a (ps_base st' + 1 + j) = Some e" "la a' (off ?a + ?k - j) = Some (moved ?d e)" by blast
        have h: "holds ?a (take (ps_p st') (ps_text st')) (ps_base st' + 1 + j) (vs ! j)"
          using l(1,2) j base by (simp add: listed_def)
        from holds_moved(1) [where a' = a', OF h e(1) _ d(1)] holds_moved(2) [where a' = a' and u = u, OF h e(1) _ d(1)] i show "\<exists>e. la a' (?d - 1 - j) = Some e \<and> unat (get_element_value e) \<le> ?d \<and>
           repr (la a') ?t (get_element_type e) (?d - unat (get_element_value e)) (vs ! j)"
          unfolding u using e(2) j by (intro exI [of _ "moved ?d e"]) auto
      qed
    qed (use i d in auto)
    moreover have "keeps (ps_alloc st1) a' (ps_base st1)"
      using l(1,2) i base unfolding listed_def keeps_def by auto
    ultimately have "closed st1 st' a' TYPE_ARRAY (JArr vs)"
      using i c(2) l(1) base unfolding closed_def listed_def by auto
    then show ?thesis using c(6) [of "install_array ops" a'] i run by auto
  qed
qed

lemma close_object:
  assumes N: "N < 2 ^ 61 - 1" and sort: "sort_ok std_sort"
  shows "closes fo std_sort Pop_object 3 holds_member JObj TYPE_OBJECT"
  unfolding closes_def
proof (intro allI impI)
  fix st1 st' s ms el assume l: "listed 3 holds_member st1 st' s ms" "top (ps_alloc st1) = ps_base st1 + 1" "ld (ps_alloc st1) (ps_base st1) = Some el"
  let ?a = "ps_alloc st'" and ?r = "run ops fo std_sort Pop_object st'" and ?k = "length ms" and ?b = "ps_base st' + 1"
  note c = step_pop_cases [OF l]
  have base: "ps_base st' = ps_base st1" using l(1) by (simp add: listed_def)
  have run: "?r = cont ops fo std_sort (step_pop ops (install_object ops std_sort (ps_text st')) st')" by (simp add: run_cont [of _ _ _ Pop_object])
  let ?pre = "take (ps_p st') (ps_text st')"
  define R where "R x y e m \<longleftrightarrow> x \<le> y \<and> unat y \<le> length ?pre \<and> slice ?pre x y = fst m \<and>
    (\<exists>ty n. ty \<noteq> TYPE_NOKEY \<and> e = make_element ty (of_nat n) \<and> n \<le> off ?a \<and> repr (la ?a) ?pre ty n (snd m))" for x y e and m :: "string \<times> json"
  have sl: "\<forall>x y e m. R x y e m \<longrightarrow> x \<le> y \<and> unat y \<le> length (ps_text st') \<and> slice (ps_text st') x y = fst m"
  proof (intro allI impI)
    fix x y e m assume "R x y e m"
    then have xy: "x \<le> y" "unat y \<le> length ?pre" "slice ?pre x y = fst m" by (auto simp: R_def)
    with slice_prefix [OF xy(1,2), of "drop (ps_p st') (ps_text st')"]
    show "x \<le> y \<and> unat y \<le> length (ps_text st') \<and> slice (ps_text st') x y = fst m" by simp
  qed
  have ms: "\<forall>i < ?k. \<exists>x y e. ld ?a (?b + 3 * i) = Some x \<and> ld ?a (?b + 3 * i + 1) = Some y \<and> ld ?a (?b + 3 * i + 2) = Some e \<and> R x y e (ms ! i)"
  proof (intro allI impI)
    fix i assume "i < ?k"
    then have "holds_member ?a ?pre (?b + 3 * i) (ms ! i)" using l(1,2) base by (simp add: listed_def)
    then show "\<exists>x y e. ld ?a (?b + 3 * i) = Some x \<and> ld ?a (?b + 3 * i + 1) = Some y \<and> ld ?a (?b + 3 * i + 2) = Some e \<and> R x y e (ms ! i)"
      unfolding holds_member_def holds_def R_def by blast
  qed
  have "?b + 3 * ?k = top ?a" "1 \<le> ?b" using c(2) by simp_all
  from install_object_ok [OF sort c(4) this(1) c(3) this(2) sl ms]
  show "oom ?r \<or> (\<exists>a'. ?r = cont ops fo std_sort (pop ops el (st'\<lparr>ps_p := ps_p st' + 1, ps_alloc := a'\<rparr>)) \<and> closed st1 st' a' TYPE_OBJECT (JObj ms))"
  proof (elim disjE exE)
    assume "install_object ops std_sort (ps_text st') ?b (top ?a) ?a = NoMemory"
    then show ?thesis using c(5) run by simp
  next
    fix a' ms'
    let ?d = "off ?a + 3 * ?k + 1" and ?t = "take (ps_p st' + 1) (ps_text st')"
    assume i: "install_object ops std_sort (ps_text st') ?b (top ?a) ?a = Done a' \<and> mset ms' = mset ms \<and> key_sorted ms' \<and>
      inv a' \<and> top a' = top ?a \<and> off a' = ?d \<and> (\<forall>i. i + 1 < ?b \<longrightarrow> ld a' i = ld ?a i) \<and>
      (\<forall>d. 1 \<le> d \<and> d \<le> off ?a \<longrightarrow> la a' d = la ?a d) \<and> la a' ?d = Some (of_nat ?k) \<and>
      (\<forall>i < ?k. \<exists>x y e. la a' (off ?a + 3 * (?k - i)) = Some x \<and> la a' (off ?a + 3 * (?k - i) - 1) = Some y \<and>
        la a' (off ?a + 3 * (?k - i) - 2) = Some (moved ?d e) \<and> R x y e (ms' ! i))"
    have d: "?d < 2 ^ 61" "?k < 2 ^ 61" using c(2,3) N by linarith+
    have k: "length ms' = ?k" using i by (metis size_mset)
    obtain u where u: "?t = ?pre @ u" using take_extend [OF refl, of "ps_p st'" "ps_p st' + 1" "ps_text st'"] by auto
    have "repr (la a') ?t TYPE_OBJECT ?d (JObj ms)"
    proof (rule repr_obj)
      show "\<forall>i < length ms'. \<exists>x y e. la a' (?d - 1 - 3 * i) = Some x \<and> la a' (?d - 2 - 3 * i) = Some y \<and> la a' (?d - 3 - 3 * i) = Some e \<and>
         x \<le> y \<and> unat y \<le> length ?t \<and> slice ?t x y = fst (ms' ! i) \<and> unat (get_element_value e) \<le> ?d \<and>
         repr (la a') ?t (get_element_type e) (?d - unat (get_element_value e)) (snd (ms' ! i))"
      proof (intro allI impI)
        fix j assume j: "j < length ms'"
        with i k obtain x y e where e: "la a' (off ?a + 3 * (?k - j)) = Some x" "la a' (off ?a + 3 * (?k - j) - 1) = Some y"
          "la a' (off ?a + 3 * (?k - j) - 2) = Some (moved ?d e)" "R x y e (ms' ! j)" by auto
        have idx: "?d - 1 - 3 * j = off ?a + 3 * (?k - j)" "?d - 2 - 3 * j = off ?a + 3 * (?k - j) - 1"
          "?d - 3 - 3 * j = off ?a + 3 * (?k - j) - 2" using j k by auto
        have xy: "x \<le> y" "unat y \<le> length ?pre" "slice ?pre x y = fst (ms' ! j)" using e(4) by (auto simp: R_def)
        obtain ty n where h: "ty \<noteq> TYPE_NOKEY" "e = make_element ty (of_nat n)" "n \<le> off ?a" "repr (la ?a) ?pre ty n (snd (ms' ! j))"
          using e(4) by (auto simp: R_def)
        then have "n \<le> ?d" by simp
        note m = moved_element [OF h(1) this d(1), folded h(2)]
        have "repr (la a') (?pre @ u) ty n (snd (ms' ! j))" by (rule repr_mono [OF h(4)]) (use i h(3) in auto)
        with e xy m \<open>n \<le> ?d\<close> slice_prefix [OF xy(1,2), of u]
        show "\<exists>x y e. la a' (?d - 1 - 3 * j) = Some x \<and> la a' (?d - 2 - 3 * j) = Some y \<and> la a' (?d - 3 - 3 * j) = Some e \<and>
           x \<le> y \<and> unat y \<le> length ?t \<and> slice ?t x y = fst (ms' ! j) \<and> unat (get_element_value e) \<le> ?d \<and>
           repr (la a') ?t (get_element_type e) (?d - unat (get_element_value e)) (snd (ms' ! j))"
          unfolding u idx by (intro exI [of _ x] exI [of _ y] exI [of _ "moved ?d e"]) auto
      qed
    qed (use i d k in auto)
    moreover have "keeps (ps_alloc st1) a' (ps_base st1)"
      using l(1,2) i base unfolding listed_def keeps_def by auto
    ultimately have "closed st1 st' a' TYPE_OBJECT (JObj ms)"
      using i c(2) l(1) base unfolding closed_def listed_def by auto
    then show ?thesis using c(6) [of "install_object ops std_sort (ps_text st')" a'] i run by auto
  qed
qed

text \<open>A structure inside another one.\<close>

lemma pushE:
  assumes "inv a" "top a < N" "top a + off a \<le> N"
  obtains "ao_push ops x a = NoMemory" | a' where "ao_push ops x a = Done a'" "inv a'" "top a' = top a + 1" "off a' = off a"
    "ld a' (top a) = Some x" "top a + off a < N \<Longrightarrow> keeps a a' (top a)" "\<And>i. i < top a \<Longrightarrow> ld a' i = ld a i"
proof (cases "ao_push ops x a")
  case (Done a')
  note p = push [OF assms(1) Done]
  show ?thesis by (rule that(2) [OF Done]) (use p in \<open>auto simp: keeps_def\<close>)
next
  case BadAccess
  with push_safe [OF assms(1,2)] show ?thesis by simp
qed (rule that(1))

lemma pop_nested:
  fixes fo :: float_ops and std_sort :: sorter
  assumes N: "N < 2 ^ 61 - 1" and st: "ready st" and "ps_p st \<le> q" "q \<le> ps_p st'" "take q (ps_text st') = take q (ps_text st)"
    and l: "length (ps_text st') = N" "ps_p st' < N" "drop (ps_p st' + 1) (ps_text st') = s" "ps_base st' = top (ps_alloc st)"
    and ty: "ps_type st' = ty" "ty \<noteq> TYPE_NOKEY"
    and c: "inv a'" "top (ps_alloc st) \<le> top a'" "keeps (ps_alloc st) a' (top (ps_alloc st))"
      "top (ps_alloc st) + off a' \<le> ps_p st' + 1" "repr (la a') (take (ps_p st' + 1) (ps_text st')) ty (off a') v"
  defines "r \<equiv> cont ops fo std_sort (pop ops (make_element (ps_type st) (of_nat (ps_base st))) (st'\<lparr>ps_p := ps_p st' + 1, ps_alloc := a'\<rparr>))"
  shows "oom r \<or> (\<exists>st2. pushed st st2 s v \<and> r = run ops fo std_sort Structure_close_or_comma st2)"
proof -
  let ?el = "make_element (ps_type st) (of_nat (ps_base st))" and ?b = "top (ps_alloc st)"
  have b: "ps_base st < 2 ^ 61 - 1" "ps_base st < 2 ^ 61" "ps_type st \<noteq> TYPE_NOKEY" using st N by (auto simp: ready_def)
  let ?st = "st'\<lparr>ps_p := ps_p st' + 1, ps_alloc := ao_reset ops ?b a', ps_base := ps_base st, ps_type := ps_type st\<rparr>"
  have r: "r = cont ops fo std_sort (push_value ops ty ?st)"
    using not_root_element [OF b(3,1)] element_of_nat [OF b(3,2)] l(4) ty(1) by (simp add: r_def pop_def Let_def)
  note rs = reset [OF c(1,2)]
  have s: "ps_p st' + 1 = N - length s" "length s \<le> N" using l(1-3) by auto
  have tk: "take (ps_p st) (ps_text st') = take (ps_p st) (ps_text st)"
    using arg_cong [OF assms(5), of "take (ps_p st)"] assms(3) by (simp add: min_def)
  have k: "keeps (ps_alloc st) (ao_reset ops ?b a') ?b" using c(3) rs by (simp add: keeps_def)
  show ?thesis unfolding r
    by (rule push_pushed [OF N st]) (use assms(3,4) l s tk k rs c ty in auto)
qed

lemma structure_agrees:
  assumes N: "N < 2 ^ 61 - 1" and st: "ready st" and q: "ps_p st \<le> q" "q < N"
    and step: "\<And>st. step ops fo std_sort lo st = token st (ps_p st + 1) (\<lambda>p c. Goto (if c = close then lp else li) (st\<lparr>ps_p := p\<rparr>))"
    and items: "\<And>st. ready st \<Longrightarrow> ps_type st = ty \<Longrightarrow>
      agrees_list fo std_sort w H lp st (rd (drop (ps_p st) (ps_text st))) (run ops fo std_sort li st)"
    and closes: "closes fo std_sort lp w H K ty" and ty: "ty \<noteq> TYPE_NOKEY"
  shows "agrees fo std_sort st (map_scan K (case ws (drop (q + 1) (ps_text st)) of [] \<Rightarrow> SErr ERROR_UNEXPECTED_END []
     | d # r \<Rightarrow> if d = close then SOk r [] else rd (d # r))) (cont ops fo std_sort (open_structure ops ty lo q st))"
    (is "agrees _ _ _ (map_scan K ?body) ?r")
proof -
  let ?a = "ps_alloc st" and ?el = "make_element (ps_type st) (of_nat (ps_base st))"
  have st': "top ?a + off ?a \<le> ps_p st" "inv ?a" "length (ps_text st) = N" "1 \<le> top ?a" using st by (auto simp: ready_def)
  then have lt: "top ?a < N" "top ?a + off ?a \<le> N" "top ?a + off ?a < N" using q by linarith+
  show ?thesis
  proof (rule pushE [OF st'(2) lt(1,2), of ?el])
    assume "ao_push ops ?el ?a = NoMemory"
    then show ?thesis by (simp add: agrees_def open_structure_def oom_alloc split: scan.split)
  next
    fix a1 assume a1: "ao_push ops ?el ?a = Done a1" "inv a1" "top a1 = top ?a + 1" "off a1 = off ?a" "ld a1 (top ?a) = Some ?el"
      "top ?a + off ?a < N \<Longrightarrow> keeps ?a a1 (top ?a)" "\<And>i. i < top ?a \<Longrightarrow> ld a1 i = ld ?a i"
    let ?st = "st\<lparr>ps_alloc := a1, ps_p := q, ps_base := top ?a, ps_type := ty\<rparr>"
    have r: "?r = run ops fo std_sort lo ?st" by (simp add: open_structure_def a1(1))
    have "agrees_list fo std_sort w H lp ?st ?body (run ops fo std_sort lo ?st)"
      using body_agrees [OF step, where ?st1.0 = ?st and w = w and H = H and rd = rd] items a1 st' lt q ty by simp
    then have body: "agrees_list fo std_sort w H lp ?st ?body ?r" by (simp only: r)
    show ?thesis
    proof (cases ?body)
      case (SOk s vs)
      with body consider "oom ?r" | st' where "listed w H ?st st' s vs" "?r = run ops fo std_sort lp st'" by (auto simp: agrees_list_def)
      then show ?thesis
      proof cases
        case l: 2
        have "oom ?r \<or> (\<exists>a'. ?r = cont ops fo std_sort (pop ops ?el (st'\<lparr>ps_p := ps_p st' + 1, ps_alloc := a'\<rparr>)) \<and> closed ?st st' a' ty (K vs))"
          using closes [unfolded closes_def, rule_format, OF l(1), of ?el] a1(3,5) by (simp add: l(2))
        then show ?thesis
        proof (elim disjE exE conjE)
          fix a' assume p: "?r = cont ops fo std_sort (pop ops ?el (st'\<lparr>ps_p := ps_p st' + 1, ps_alloc := a'\<rparr>))" and c: "closed ?st st' a' ty (K vs)"
          have "keeps ?a a' (top ?a)" using keeps_trans [OF a1(6) [OF lt(3)], of a' "top ?a"] c by (simp add: closed_def)
          then have "oom ?r \<or> (\<exists>st2. pushed st st2 s (K vs) \<and> ?r = run ops fo std_sort Structure_close_or_comma st2)"
            unfolding p by (intro pop_nested [OF N st q(1), where ty = ty]) (use l(1) c ty in \<open>auto simp: listed_def closed_def\<close>)
          then show ?thesis unfolding SOk by (simp add: agrees_def)
        qed (unfold SOk, simp add: agrees_def)
      qed (unfold SOk, simp add: agrees_def)
    qed (use body in \<open>simp_all only: agrees_def agrees_list_def scan.map scan.case\<close>)
  qed
qed

section \<open>The machine reads what the reference reads\<close>

lemma value_step:
  assumes N: "N < 2 ^ 61 - 1" and sort: "sort_ok std_sort"
    and E: "\<And>st. ready st \<Longrightarrow> ps_type st = TYPE_ARRAY \<Longrightarrow>
      agrees_list fo std_sort 1 holds Pop_array st (rd_elements fo n (drop (ps_p st) (ps_text st))) (run ops fo std_sort Next_element st)"
    and M: "\<And>st. ready st \<Longrightarrow> ps_type st = TYPE_OBJECT \<Longrightarrow>
      agrees_list fo std_sort 3 holds_member Pop_object st (rd_members fo n (drop (ps_p st) (ps_text st))) (run ops fo std_sort Object_key st)"
    and st: "ready st"
  shows "agrees fo std_sort st (rd_value fo (Suc n) (drop (ps_p st) (ps_text st))) (run ops fo std_sort Next_element st)"
proof -
  have len: "length (ps_text st) = N" "ps_p st \<le> N" using st by (auto simp: ready_def)
  then have p: "ps_p st \<le> length (ps_text st)" by simp
  have run: "run ops fo std_sort Next_element st = cont ops fo std_sort (step_next_element ops fo st)"
    by (simp add: run_cont [of _ _ _ Next_element])
  show ?thesis
  proof (cases "ws (drop (ps_p st) (ps_text st))")
    case Nil
    then show ?thesis using failed_fail_at(1) [OF len(1)] by (simp add: agrees_def run step_next_element_def token_ws [OF p])
  next
    case (Cons c x)
    let ?q = "N - Suc (length x)"
    note w = ws_drop [OF Cons p, unfolded len(1)]
    note tok = token_ws [OF p, unfolded Cons len(1) list.case]
    have fail: "agrees fo std_sort st (SErr e (c # x)) (cont ops fo std_sort (fail_at st (Some ?q) e))"
      if "e \<noteq> ERROR_ILLEGAL_CODEPOINT" for e
      using failed_fail_at(2) [OF len(1) that, of "c # x"] w(7) by (simp add: agrees_def)
    consider "c = CHR 0x00" | "c = CHR ''n''" | "c = CHR ''f''" | "c = CHR ''t''" | "is_digit c \<or> c = CHR ''-''"
      "c \<noteq> CHR 0x00" "c \<noteq> CHR ''n''" "c \<noteq> CHR ''f''" "c \<noteq> CHR ''t''" | "c = CHR 0x22" | "c = CHR ''[''" | "c = CHR ''{''"
      | "c = CHR '',''" | "c \<notin> {CHR 0x00, CHR ''n'', CHR ''f'', CHR ''t'', CHR ''-'', CHR 0x22, CHR ''['', CHR ''{'', CHR '',''}" "\<not> is_digit c"
      by auto
    then show ?thesis
    proof cases
      case 1
      then show ?thesis using Cons fail by (simp add: run step_next_element_def tok)
    next
      case 2
      then show ?thesis using Cons literal_agrees [OF N st w(1-3), of ERROR_EXPECTED_NULL TYPE_NULL JNull fo std_sort "''ull''"]
        by (simp add: run step_next_element_def tok parse_null_def repr_null)
    next
      case 3
      then show ?thesis using Cons literal_agrees [OF N st w(1-3), of ERROR_EXPECTED_FALSE TYPE_FALSE JFalse fo std_sort "''alse''"]
        by (simp add: run step_next_element_def tok parse_false_def repr_false)
    next
      case 4
      then show ?thesis using Cons literal_agrees [OF N st w(1-3), of ERROR_EXPECTED_TRUE TYPE_TRUE JTrue fo std_sort "''rue''"]
        by (simp add: run step_next_element_def tok parse_true_def repr_true)
    next
      case 5
      then show ?thesis using Cons number_agrees [OF N st w(1-3), of fo std_sort]
        by (auto simp: run step_next_element_def tok)
    next
      case 6
      then show ?thesis using Cons string_agrees [OF N st w(1-3), of fo std_sort]
        by (simp add: run step_next_element_def tok is_digit_def byte_def)
    next
      case 7
      have "agrees fo std_sort st (map_scan JArr (case ws (drop (?q + 1) (ps_text st)) of [] \<Rightarrow> SErr ERROR_UNEXPECTED_END []
         | d # r \<Rightarrow> if d = CHR '']'' then SOk r [] else rd_elements fo n (d # r)))
         (cont ops fo std_sort (open_structure ops TYPE_ARRAY Array_close_or_element ?q st))"
        by (rule structure_agrees [OF N st w(1,2) _ E close_array [OF N]]) simp_all
      then show ?thesis using Cons 7 unfolding w(5)
        by (simp add: run step_next_element_def tok is_digit_def byte_def split: list.splits if_splits)
    next
      case 8
      have "agrees fo std_sort st (map_scan JObj (case ws (drop (?q + 1) (ps_text st)) of [] \<Rightarrow> SErr ERROR_UNEXPECTED_END []
         | d # r \<Rightarrow> if d = CHR ''}'' then SOk r [] else rd_members fo n (d # r)))
         (cont ops fo std_sort (open_structure ops TYPE_OBJECT Object_close_or_element ?q st))"
        by (rule structure_agrees [OF N st w(1,2) _ M close_object [OF N sort]]) simp_all
      then show ?thesis using Cons 8 unfolding w(5)
        by (simp add: run step_next_element_def tok is_digit_def byte_def split: list.splits if_splits)
    next
      case 9
      then show ?thesis using Cons fail by (simp add: run step_next_element_def tok is_digit_def byte_def)
    next
      case 10
      then show ?thesis using Cons fail by (simp add: run step_next_element_def tok)
    qed
  qed
qed

lemma machine_agrees:
  assumes N: "N < 2 ^ 61 - 1" and sort: "sort_ok std_sort"
  shows "(\<forall>st. ready st \<longrightarrow> agrees fo std_sort st (rd_value fo n (drop (ps_p st) (ps_text st))) (run ops fo std_sort Next_element st)) \<and>
    (\<forall>st. ready st \<longrightarrow> ps_type st = TYPE_ARRAY \<longrightarrow>
      agrees_list fo std_sort 1 holds Pop_array st (rd_elements fo n (drop (ps_p st) (ps_text st))) (run ops fo std_sort Next_element st)) \<and>
    (\<forall>st. ready st \<longrightarrow> ps_type st = TYPE_OBJECT \<longrightarrow>
      agrees_list fo std_sort 3 holds_member Pop_object st (rd_members fo n (drop (ps_p st) (ps_text st))) (run ops fo std_sort Object_key st))"
proof (induction n)
  case 0
  then show ?case by (simp add: agrees_def agrees_list_def)
next
  case (Suc n)
  then have V: "ready st \<Longrightarrow> agrees fo std_sort st (rd_value fo n (drop (ps_p st) (ps_text st))) (run ops fo std_sort Next_element st)"
    and E: "ready st \<Longrightarrow> ps_type st = TYPE_ARRAY \<Longrightarrow>
      agrees_list fo std_sort 1 holds Pop_array st (rd_elements fo n (drop (ps_p st) (ps_text st))) (run ops fo std_sort Next_element st)"
    and M: "ready st \<Longrightarrow> ps_type st = TYPE_OBJECT \<Longrightarrow>
      agrees_list fo std_sort 3 holds_member Pop_object st (rd_members fo n (drop (ps_p st) (ps_text st))) (run ops fo std_sort Object_key st)" for st
    by blast+
  show ?case using value_step [OF N sort E M] elements_step [OF V E] members_step [OF N V M] by blast
qed

section \<open>Whole documents\<close>

text \<open>The outermost structure.\<close>

definition agrees_root :: "float_ops \<Rightarrow> sorter \<Rightarrow> json scan \<Rightarrow> 's final option \<Rightarrow> bool" where
  "agrees_root fo std_sort res r \<longleftrightarrow>
     (case res of
        SErr e s \<Rightarrow> oom r \<or> failed N e s r
      | SOk s v \<Rightarrow>
          oom r \<or>
          (if ws s \<noteq> [] then failed N ERROR_EXPECTED_END_OF_INPUT (ws s) r
           else \<exists>st. r = Some (Returned st) \<and> length (ps_text st) = N \<and> ps_type st \<in> {TYPE_ARRAY, TYPE_OBJECT} \<and>
                  inv (ps_alloc st) \<and> off (ps_alloc st) \<le> N \<and>
                  repr (la (ps_alloc st)) (ps_text st) (ps_type st) (off (ps_alloc st)) v)
      | SFault \<Rightarrow> True)"

lemma pop_root:
  fixes fo :: float_ops and std_sort :: sorter
  assumes l: "length (ps_text st') = N" "ps_p st' < N" "drop (ps_p st' + 1) (ps_text st') = s"
    and ty: "ps_type st' = ty" "ty \<in> {TYPE_ARRAY, TYPE_OBJECT}"
    and c: "inv a'" "off a' \<le> ps_p st' + 1" "repr (la a') (take (ps_p st' + 1) (ps_text st')) ty (off a') v"
  defines "r \<equiv> cont ops fo std_sort (pop ops (make_element ty ROOT_MARKER) (st'\<lparr>ps_p := ps_p st' + 1, ps_alloc := a'\<rparr>))"
  shows "agrees_root fo std_sort (SOk s v) r"
proof -
  let ?st = "st'\<lparr>ps_p := ps_p st' + 1, ps_alloc := a'\<rparr>"
  have p: "ps_p st' + 1 \<le> length (ps_text st')" using l by simp
  have "get_element_value (make_element ty ROOT_MARKER) = ROOT_MARKER" using ty(2) root_element(2) by auto
  then have r: "r = cont ops fo std_sort (case skip_whitespace (ps_text st') (ps_p st' + 1) of
      Some q \<Rightarrow> fail_at ?st (Some q) ERROR_EXPECTED_END_OF_INPUT | None \<Rightarrow> Return ?st)"
    using p by (simp add: r_def pop_def split: option.split)
  show ?thesis
  proof (cases "ws s")
    case Nil
    have "repr (la a') (take (ps_p st' + 1) (ps_text st') @ drop (ps_p st' + 1) (ps_text st')) ty (off a') v"
      by (rule repr_mono [OF c(3)]) simp
    then have "repr (la a') (ps_text st') ty (off a') v" by simp
    then show ?thesis using Nil r l ty c(1,2) skip_whitespace_ws [OF p] by (auto simp: agrees_root_def)
  next
    case (Cons d x)
    then have d: "ws (drop (ps_p st' + 1) (ps_text st')) = d # x" using l(3) by simp
    note w = ws_drop [OF this p]
    have "failed N ERROR_EXPECTED_END_OF_INPUT (d # x) r"
      using failed_fail_at(2) [of ?st N ERROR_EXPECTED_END_OF_INPUT "d # x"] l(1,3) w(7) Cons skip_whitespace_ws [OF p] by (simp add: r)
    then show ?thesis using Cons by (simp add: agrees_root_def)
  qed
qed

lemma root_agrees:
  assumes a: "inv a" "top a = 0" "off a = 0" and t: "length t = N" "q < N"
    and step: "\<And>st. step ops fo std_sort lo st = token st (ps_p st + 1) (\<lambda>p c. Goto (if c = close then lp else li) (st\<lparr>ps_p := p\<rparr>))"
    and items: "\<And>st. ready st \<Longrightarrow> ps_type st = ty \<Longrightarrow>
      agrees_list fo std_sort w H lp st (rd (drop (ps_p st) (ps_text st))) (run ops fo std_sort li st)"
    and closes: "closes fo std_sort lp w H K ty" and ty: "ty \<in> {TYPE_ARRAY, TYPE_OBJECT}"
  defines "st \<equiv> \<lparr>ps_text = t, ps_alloc = a, ps_p = 0, ps_base = top a, ps_type = TYPE_NULL\<rparr>"
  shows "agrees_root fo std_sort (map_scan K (case ws (drop (q + 1) t) of [] \<Rightarrow> SErr ERROR_UNEXPECTED_END []
     | d # r \<Rightarrow> if d = close then SOk r [] else rd (d # r)))
     (cont ops fo std_sort (alloc st q (ao_push ops (make_element ty ROOT_MARKER) a) (\<lambda>a'. Goto lo (st\<lparr>ps_alloc := a', ps_p := q, ps_type := ty\<rparr>))))"
    (is "agrees_root _ _ (map_scan K ?body) ?r")
proof -
  let ?el = "make_element ty ROOT_MARKER"
  have lt: "top a < N" "top a + off a \<le> N" using a t by auto
  show ?thesis
  proof (rule pushE [OF a(1) lt, of ?el])
    assume "ao_push ops ?el a = NoMemory"
    then have "oom ?r" by (simp add: oom_alloc)
    then show ?thesis by (simp add: agrees_root_def split: scan.split)
  next
    fix a1 assume a1: "ao_push ops ?el a = Done a1" "inv a1" "top a1 = top a + 1" "off a1 = off a" "ld a1 (top a) = Some ?el"
    let ?st = "st\<lparr>ps_alloc := a1, ps_p := q, ps_type := ty\<rparr>"
    have r: "?r = run ops fo std_sort lo ?st" by (simp add: a1(1))
    have "agrees_list fo std_sort w H lp ?st ?body (run ops fo std_sort lo ?st)"
      using body_agrees [OF step, where ?st1.0 = ?st and w = w and H = H and rd = rd] items a a1 t ty by (auto simp: st_def)
    then have body: "agrees_list fo std_sort w H lp ?st ?body ?r" by (simp only: r)
    show ?thesis
    proof (cases ?body)
      case (SOk s vs)
      with body consider "oom ?r" | st' where "listed w H ?st st' s vs" "?r = run ops fo std_sort lp st'" by (auto simp: agrees_list_def)
      then show ?thesis
      proof cases
        case l: 2
        have "oom ?r \<or> (\<exists>a'. ?r = cont ops fo std_sort (pop ops ?el (st'\<lparr>ps_p := ps_p st' + 1, ps_alloc := a'\<rparr>)) \<and> closed ?st st' a' ty (K vs))"
          unfolding l(2) by (rule closes [unfolded closes_def, rule_format, OF l(1)]) (use a(2) a1(3,5) in \<open>simp_all add: st_def\<close>)
        then show ?thesis
        proof (elim disjE exE conjE)
          fix a' assume p: "?r = cont ops fo std_sort (pop ops ?el (st'\<lparr>ps_p := ps_p st' + 1, ps_alloc := a'\<rparr>))" and c: "closed ?st st' a' ty (K vs)"
          have "agrees_root fo std_sort (SOk s (K vs)) ?r"
            unfolding p by (rule pop_root [where ty = ty]) (use l(1) c ty a(2) in \<open>auto simp: listed_def closed_def st_def\<close>)
          then show ?thesis unfolding SOk by simp
        qed (unfold SOk, simp add: agrees_root_def)
      qed (unfold SOk, simp add: agrees_root_def)
    qed (use body in \<open>simp_all only: agrees_root_def agrees_list_def scan.map scan.case\<close>)
  qed
qed

end

end
