(* ===== verification/SajsonMemory.thy ===== *)
theory SajsonMemory
  imports SajsonCorrect
begin

text \<open>
  An allocation policy whose growth never fails once it has started, which \<open>single_allocation\<close> is: then no parse reports
  that it is out of memory. A policy with this promise extends the contract of \<open>SajsonAllocators\<close>.
\<close>

section \<open>The errors of the text\<close>

lemma read_hex_loop_error: "read_hex_loop n u s = SErr e s' \<Longrightarrow> e \<noteq> ERROR_OUT_OF_MEMORY"
  by (induction n u s rule: read_hex_loop.induct) (auto split: option.splits)

lemma unicode_escape_error: "unicode_escape s = SErr e s' \<Longrightarrow> e \<noteq> ERROR_OUT_OF_MEMORY"
  by (auto simp: unicode_escape_def read_hex_def split: scan.splits if_splits dest: read_hex_loop_error)

lemma check_continuation_error: "check_continuation n s = SErr e s' \<Longrightarrow> e \<noteq> ERROR_OUT_OF_MEMORY"
  by (induction n s rule: check_continuation.induct) (auto split: scan.splits if_splits)

lemma string_item_error: "string_item s = SErr e s' \<Longrightarrow> e \<noteq> ERROR_OUT_OF_MEMORY"
  by (auto simp: string_item_def utf8_sequence_def Let_def split: list.splits scan.splits if_splits option.splits
      dest: unicode_escape_error check_continuation_error)

lemma decode_string_error: "decode_string s = SErr e s' \<Longrightarrow> e \<noteq> ERROR_OUT_OF_MEMORY"
proof (induction s arbitrary: e s' rule: decode_string.induct)
  case (1 s)
  from 1(2) 1(1) show ?case
    by (subst (asm) decode_string.simps) (auto split: list.splits if_splits scan.splits dest: string_item_error)
qed

lemma int_digits_error: "int_digits fo n s = SErr e s' \<Longrightarrow> e \<noteq> ERROR_OUT_OF_MEMORY"
  by (induction fo n s rule: int_digits.induct) (auto simp: Let_def split: if_splits)

lemma fraction_digits_error: "fraction_digits fo d x s = SErr e s' \<Longrightarrow> e \<noteq> ERROR_OUT_OF_MEMORY"
  by (induction fo d x s rule: fraction_digits.induct) (auto simp: Let_def split: if_splits)

lemma exponent_digits_error: "exponent_digits i s = SErr e s' \<Longrightarrow> e \<noteq> ERROR_OUT_OF_MEMORY"
  by (induction i s rule: exponent_digits.induct) (auto simp: Let_def split: if_splits)

lemma integer_part_error: "integer_part fo s = SErr e s' \<Longrightarrow> e \<noteq> ERROR_OUT_OF_MEMORY"
  by (auto simp: integer_part_def Let_def split: list.splits if_splits dest: int_digits_error)

lemma fraction_part_error: "fraction_part fo n s = SErr e s' \<Longrightarrow> e \<noteq> ERROR_OUT_OF_MEMORY"
  by (auto simp: fraction_part_def split: list.splits if_splits scan.splits dest: fraction_digits_error)

lemma exponent_part_error: "exponent_part fo n x s = SErr e s' \<Longrightarrow> e \<noteq> ERROR_OUT_OF_MEMORY"
  by (auto simp: exponent_part_def Let_def split: list.splits if_splits scan.splits dest: exponent_digits_error)

lemma scan_unsigned_error: "scan_unsigned fo s = SErr e s' \<Longrightarrow> e \<noteq> ERROR_OUT_OF_MEMORY"
  unfolding scan_unsigned_def
  by (cases "integer_part fo s")
    (auto split: scan.splits option.splits dest: integer_part_error fraction_part_error exponent_part_error)

lemma scan_number_error: "scan_number fo s = SErr e s' \<Longrightarrow> e \<noteq> ERROR_OUT_OF_MEMORY"
  by (auto simp: scan_number_def split: list.splits if_splits scan.splits dest: scan_unsigned_error)

definition no_oom :: "'s transition \<Rightarrow> bool" where
  "no_oom tr \<longleftrightarrow> (\<forall>e. tr = Fail e \<longrightarrow> err_code e \<noteq> ERROR_OUT_OF_MEMORY)"

lemma no_oom_simps [simp]: "no_oom (Goto l st)" "no_oom (Return st)" "no_oom Crash" "no_oom (Fail e) \<longleftrightarrow> err_code e \<noteq> ERROR_OUT_OF_MEMORY"
  "no_oom (fail_at st p c) \<longleftrightarrow> c \<noteq> ERROR_OUT_OF_MEMORY"
  by (auto simp: no_oom_def fail_at_def)

lemma no_oom_alloc: "r \<noteq> NoMemory \<Longrightarrow> (\<And>a. no_oom (k a)) \<Longrightarrow> no_oom (alloc st p r k)"
  by (cases r) (simp_all add: alloc_def)

lemma no_oom_token: "(\<And>q c. no_oom (k q c)) \<Longrightarrow> no_oom (token st p k)"
  by (simp add: token_def split: option.split)

lemma ares_of_room: "ares_of r \<noteq> NoMemory"
  by (simp add: ares_of_def split: option.split)

lemma err_code_error_at [simp]: "err_code (error_at t e s) = e"
  by (simp add: error_at_def)

lemma parse_string_slow_error: "parse_string_slow t start endp p = Err e \<Longrightarrow> err_code e \<noteq> ERROR_OUT_OF_MEMORY"
proof (induction t start endp p rule: parse_string_slow.induct)
  case (1 t start endp p)
  from 1(2) 1(1) show ?case
    by (subst (asm) parse_string_slow.simps) (auto split: list.splits if_splits scan.splits dest: string_item_error)
qed

lemma parse_string_error: "parse_string t p = Err e \<Longrightarrow> err_code e \<noteq> ERROR_OUT_OF_MEMORY"
  by (auto simp: parse_string_def Let_def split: list.splits if_splits dest: parse_string_slow_error)

lemma no_oom_string:
  "(\<And>t' q i j. no_oom (k t' q i j)) \<Longrightarrow>
   no_oom (case parse_string t p of Fault \<Rightarrow> Crash | Err e \<Rightarrow> Fail e | Ok (t', q, i, j) \<Rightarrow> k t' q i j)"
  using parse_string_error [of t p] by (auto split: outcome.split)

lemma parse_literal_error: "parse_literal w c t p = Err e \<Longrightarrow> c \<noteq> ERROR_OUT_OF_MEMORY \<Longrightarrow> err_code e \<noteq> ERROR_OUT_OF_MEMORY"
  by (auto simp: parse_literal_def split: if_splits)

section \<open>The machine\<close>

locale sajson_roomy = sajson_allocator +
  assumes push_room: "ao_push ops x s \<noteq> NoMemory"
    and stack_reserve_room: "ao_stack_reserve ops n s \<noteq> NoMemory"
    and reserve_room: "ao_reserve ops n s \<noteq> NoMemory"
begin

lemma push_value_room: "no_oom (push_value ops t st)"
  unfolding push_value_def by (intro no_oom_alloc push_room) simp

lemma install_array_room: "install_array ops b e a \<noteq> NoMemory"
  using reserve_room by (auto simp: install_array_def Let_def ares_of_room split: ares.splits option.splits)

lemma install_object_room: "install_object ops std_sort t b e a \<noteq> NoMemory"
  using reserve_room by (auto simp: install_object_def Let_def ares_of_room split: ares.splits option.splits)

lemma step_pop_room:
  assumes "\<And>b e a. install b e a \<noteq> NoMemory"
  shows "no_oom (step_pop ops install st)"
  unfolding step_pop_def Let_def using assms
  by (auto simp: pop_def Let_def push_value_room intro!: no_oom_alloc split: option.split)

lemma parse_number_room: "no_oom (parse_number ops fo p st)"
  unfolding parse_number_def Let_def
  by (auto intro!: no_oom_alloc push_value_room reserve_room ares_of_room dest: scan_number_error split: scan.split)

lemma next_string_room: "no_oom (next_string ops p st)"
  unfolding next_string_def Let_def by (intro no_oom_alloc no_oom_string push_value_room reserve_room ares_of_room)

lemma object_key_room: "no_oom (step_object_key ops st)"
  unfolding step_object_key_def Let_def
  by (auto intro!: no_oom_token no_oom_alloc no_oom_string stack_reserve_room ares_of_room split: option.split)

lemma literal_room:
  "c \<noteq> ERROR_OUT_OF_MEMORY \<Longrightarrow> no_oom (next_literal ops t (parse_literal w c x p) st)"
  using parse_literal_error [of w c x p] by (auto simp: next_literal_def push_value_room split: outcome.split)

lemma open_structure_room: "no_oom (open_structure ops t l p st)"
  unfolding open_structure_def by (intro no_oom_alloc push_room) simp

lemma next_element_room: "no_oom (step_next_element ops fo st)"
  unfolding step_next_element_def parse_null_def parse_false_def parse_true_def
  by (intro no_oom_token) (simp add: literal_room parse_number_room next_string_room open_structure_room)

lemma step_room: "no_oom (step ops fo std_sort l st)"
proof (cases l)
  case Structure_close_or_comma
  then show ?thesis by (auto simp: step_structure_close_or_comma_def intro!: no_oom_token)
qed (simp_all add: no_oom_token step_pop_room install_array_room install_object_room object_key_room next_element_room)

text \<open>By induction over the steps of a run that returns.\<close>

lemma run_room:
  assumes "run ops fo std_sort l st = Some (Failed e)"
  shows "err_code e \<noteq> ERROR_OUT_OF_MEMORY"
proof -
  define Q where "Q o' r \<longleftrightarrow> (o' = ops \<longrightarrow> (\<forall>e. r = Failed e \<longrightarrow> err_code e \<noteq> ERROR_OUT_OF_MEMORY))" for o' and r :: "'a final"
  have "Q ops (Failed e)"
  proof (rule run.raw_induct [OF _ assms, of "\<lambda>o' f s l st r. Q o' r"], goal_cases)
    case (1 run' ops' fo' sort' l' st' r)
    then show ?case using step_room [of fo' sort' l' st'] by (auto simp: Q_def no_oom_def split: transition.splits)
  qed
  then show ?thesis by (simp add: Q_def)
qed

lemma enter_room: "no_oom (enter ops t a)"
  unfolding enter_def Let_def by (auto intro!: no_oom_alloc push_room split: option.split)

lemma parse_room:
  assumes "sajson_parse ops fo std_sort t = Some (Invalid e)" "ao_start ops (length t) \<noteq> None"
  shows "err_code e \<noteq> ERROR_OUT_OF_MEMORY"
proof -
  obtain a where a: "ao_start ops (length t) = Some a" using assms(2) by blast
  have inv: "get_document ops r = Invalid e \<Longrightarrow> r = Failed e" for r by (simp add: get_document_def split: final.splits)
  with a show ?thesis using assms(1) enter_room [of t a] run_room
    by (auto simp: sajson_parse_def no_oom_def dest!: inv split: transition.splits)
qed
end

interpretation roomy: sajson_roomy "single_ops fresh existing" N "single_inv N" for fresh existing N
  by unfold_locales (auto simp: single_defs)

end
