(* ===== verification/SajsonValue.thy ===== *)
theory SajsonValue
  imports SajsonInstall
begin

text \<open>
  The class \<open>value\<close> of \<open>JsonDeserializer.sajson.hpp\<close>. Its \<open>payload\<close> is a distance from the end of the tree, as in
  \<open>SajsonAllocators\<close>, so \<open>payload[k]\<close> is the word at the distance less \<open>k\<close>. \<open>None\<close> stands for an assertion that fails
  or an access outside the words or the text. Indices are natural numbers.
\<close>

record jvalue =
  jv_type :: json_type
  jv_words :: "nat \<Rightarrow> u64 option"
  jv_payload :: nat
  jv_text :: string

definition payload :: "jvalue \<Rightarrow> nat \<Rightarrow> u64 option" where
  "payload v k = (if k < jv_payload v then jv_words v (jv_payload v - k) else None)"

definition get_length :: "jvalue \<Rightarrow> u64 option" where
  "get_length v = (if jv_type v = TYPE_ARRAY \<or> jv_type v = TYPE_OBJECT then payload v 0 else None)"

text \<open>The value of an element: \<open>value(get_element_type(element), payload + get_element_value(element), text)\<close>.\<close>

definition element_at :: "jvalue \<Rightarrow> nat \<Rightarrow> jvalue option" where
  "element_at v k =
     (case payload v k of
        None \<Rightarrow> None
      | Some element \<Rightarrow>
          if unat (get_element_value element) \<le> jv_payload v then
            Some (v\<lparr>jv_type := get_element_type element, jv_payload := jv_payload v - unat (get_element_value element)\<rparr>)
          else None)"

definition get_array_element :: "jvalue \<Rightarrow> nat \<Rightarrow> jvalue option" where
  "get_array_element v index = (if jv_type v = TYPE_ARRAY then element_at v (1 + index) else None)"

text \<open>The bytes of the text from one offset to another.\<close>

definition text_between :: "jvalue \<Rightarrow> u64 option \<Rightarrow> u64 option \<Rightarrow> string option" where
  "text_between v i j =
     (case (i, j) of
        (Some x, Some y) \<Rightarrow> if x \<le> y \<and> unat y \<le> length (jv_text v) then Some (slice (jv_text v) x y) else None
      | _ \<Rightarrow> None)"

definition get_object_key :: "jvalue \<Rightarrow> nat \<Rightarrow> string option" where
  "get_object_key v index =
     (if jv_type v = TYPE_OBJECT then text_between v (payload v (1 + index * 3)) (payload v (2 + index * 3)) else None)"

definition get_object_value :: "jvalue \<Rightarrow> nat \<Rightarrow> jvalue option" where
  "get_object_value v index = (if jv_type v = TYPE_OBJECT then element_at v (3 + index * 3) else None)"

text \<open>\<open>std::lower_bound\<close> over \<open>len\<close> positions from \<open>first\<close>, where the comparison itself may be an access out of bounds.\<close>

function lower_bound :: "(nat \<Rightarrow> bool option) \<Rightarrow> nat \<Rightarrow> nat \<Rightarrow> nat option" where
  "lower_bound before first len =
     (if len = 0 then Some first
      else case before (first + len div 2) of
             None \<Rightarrow> None
           | Some True \<Rightarrow> lower_bound before (first + len div 2 + 1) (len - len div 2 - 1)
           | Some False \<Rightarrow> lower_bound before first (len div 2))"
  by pat_completeness auto
termination by (relation "measure (\<lambda>(before, first, len). len)") auto

declare lower_bound.simps [simp del]

definition find_object_key :: "jvalue \<Rightarrow> string \<Rightarrow> nat option" where
  "find_object_key v key =
     (if jv_type v \<noteq> TYPE_OBJECT then None
      else case get_length v of
        None \<Rightarrow> None
      | Some n \<Rightarrow>
          (case lower_bound (\<lambda>i. map_option (\<lambda>k. key_less k key) (get_object_key v i)) 0 (unat n) of
             None \<Rightarrow> None
           | Some i \<Rightarrow>
               if i \<noteq> unat n then
                 (case get_object_key v i of
                    None \<Rightarrow> None
                  | Some k \<Rightarrow> Some (if length k = length key \<and> key = k then i else unat n))
               else Some (unat n)))"

definition get_value_of_key :: "jvalue \<Rightarrow> string \<Rightarrow> jvalue option" where
  "get_value_of_key v key =
     (case (find_object_key v key, get_length v) of
        (Some i, Some n) \<Rightarrow>
          if i < unat n then get_object_value v i
          else Some \<lparr>jv_type = TYPE_NOKEY, jv_words = (\<lambda>_. None), jv_payload = 0, jv_text = []\<rparr>
      | _ \<Rightarrow> None)"

definition get_integer_value :: "jvalue \<Rightarrow> int option" where
  "get_integer_value v = (if jv_type v = TYPE_INTEGER then map_option integer_load (payload v 0) else None)"

definition get_double_value :: "jvalue \<Rightarrow> u64 option" where
  "get_double_value v = (if jv_type v = TYPE_DOUBLE then payload v 0 else None)"

definition get_number_value :: "float_ops \<Rightarrow> jvalue \<Rightarrow> u64 option" where
  "get_number_value fo v =
     (if jv_type v = TYPE_INTEGER then map_option (f_of_int fo) (get_integer_value v) else get_double_value v)"

definition get_string_length :: "jvalue \<Rightarrow> u64 option" where
  "get_string_length v =
     (if jv_type v = TYPE_STRING then
        (case (payload v 0, payload v 1) of (Some x, Some y) \<Rightarrow> Some (y - x) | _ \<Rightarrow> None)
      else None)"

text \<open>\<open>as_string\<close>, and the bytes behind \<open>as_cstring\<close> up to \<open>get_string_length\<close>.\<close>

definition as_string :: "jvalue \<Rightarrow> string option" where
  "as_string v = (if jv_type v = TYPE_STRING then text_between v (payload v 0) (payload v 1) else None)"

section \<open>Reading a represented value\<close>

text \<open>The value at \<open>v\<close> is \<open>j\<close>.\<close>

definition denotes :: "jvalue \<Rightarrow> json \<Rightarrow> bool" where
  "denotes v j \<longleftrightarrow> repr (jv_words v) (jv_text v) (jv_type v) (jv_payload v) j"

inductive_cases repr_scalarE:
  "repr la t ty d (JInt i)" "repr la t ty d (JDbl x)" "repr la t ty d JNull" "repr la t ty d JTrue" "repr la t ty d JFalse"
  "repr la t ty d (JStr s)"

inductive_cases repr_arrE: "repr la t ty d (JArr vs)"
inductive_cases repr_objE: "repr la t ty d (JObj ms)"

lemma denotes_int: "denotes v (JInt i) \<Longrightarrow> jv_type v = TYPE_INTEGER \<and> get_integer_value v = Some i"
  by (auto simp: denotes_def get_integer_value_def payload_def elim: repr_scalarE)

lemma denotes_dbl: "denotes v (JDbl x) \<Longrightarrow> jv_type v = TYPE_DOUBLE \<and> get_double_value v = Some x"
  by (auto simp: denotes_def get_double_value_def payload_def elim: repr_scalarE)

lemma denotes_constants:
  "denotes v JNull \<Longrightarrow> jv_type v = TYPE_NULL" "denotes v JTrue \<Longrightarrow> jv_type v = TYPE_TRUE" "denotes v JFalse \<Longrightarrow> jv_type v = TYPE_FALSE"
  by (auto simp: denotes_def elim: repr_scalarE)

lemma slice_length: "x \<le> y \<Longrightarrow> unat y \<le> length t \<Longrightarrow> length (slice t x y) = unat (y - x)"
  by (simp add: slice_def unat_sub word_le_nat_alt)

lemma denotes_str:
  assumes "denotes v (JStr s)"
  shows "jv_type v = TYPE_STRING" "as_string v = Some s" "map_option unat (get_string_length v) = Some (length s)"
  using assms slice_length
  by (auto simp: denotes_def as_string_def get_string_length_def payload_def text_between_def elim!: repr_scalarE)

lemma denotes_arr:
  assumes "denotes v (JArr vs)"
  shows "jv_type v = TYPE_ARRAY" "map_option unat (get_length v) = Some (length vs)"
    and "i < length vs \<Longrightarrow> \<exists>w. get_array_element v i = Some w \<and> denotes w (vs ! i)"
proof -
  let ?d = "jv_payload v"
  have r: "jv_type v = TYPE_ARRAY" "length vs < ?d" "jv_words v ?d = Some (of_nat (length vs))" "length vs < 2 ^ 61"
    "\<forall>i < length vs. \<exists>e. jv_words v (?d - 1 - i) = Some e \<and> unat (get_element_value e) \<le> ?d \<and>
       repr (jv_words v) (jv_text v) (get_element_type e) (?d - unat (get_element_value e)) (vs ! i)"
    using assms unfolding denotes_def by (auto elim: repr_arrE)
  show "jv_type v = TYPE_ARRAY" by (fact r(1))
  show "map_option unat (get_length v) = Some (length vs)"
    using r(1-4) by (auto simp: get_length_def payload_def unat_of_nat)
  assume i: "i < length vs"
  with r(5) obtain e where e: "jv_words v (?d - 1 - i) = Some e" "unat (get_element_value e) \<le> ?d"
    "repr (jv_words v) (jv_text v) (get_element_type e) (?d - unat (get_element_value e)) (vs ! i)" by blast
  then show "\<exists>w. get_array_element v i = Some w \<and> denotes w (vs ! i)"
    using r(1,2) i by (auto simp: get_array_element_def element_at_def payload_def denotes_def)
qed

text \<open>The members of an object in the order of the tree: a permutation of the members, sorted by key.\<close>

definition sorted_members :: "jvalue \<Rightarrow> (string \<times> json) list \<Rightarrow> (string \<times> json) list \<Rightarrow> bool" where
  "sorted_members v ms ms' \<longleftrightarrow> mset ms' = mset ms \<and> key_sorted ms' \<and> map_option unat (get_length v) = Some (length ms') \<and>
     (\<forall>i < length ms'. get_object_key v i = Some (fst (ms' ! i)) \<and>
        (\<exists>w. get_object_value v i = Some w \<and> denotes w (snd (ms' ! i))))"

lemma denotes_obj:
  assumes "denotes v (JObj ms)"
  shows "jv_type v = TYPE_OBJECT" "\<exists>ms'. sorted_members v ms ms'"
proof -
  let ?d = "jv_payload v"
  obtain ms' where r: "jv_type v = TYPE_OBJECT" "3 * length ms' < ?d" "jv_words v ?d = Some (of_nat (length ms'))" "length ms' < 2 ^ 61"
    "mset ms' = mset ms" "key_sorted ms'"
    "\<forall>i < length ms'. \<exists>x y e. jv_words v (?d - 1 - 3 * i) = Some x \<and> jv_words v (?d - 2 - 3 * i) = Some y \<and> jv_words v (?d - 3 - 3 * i) = Some e \<and>
       x \<le> y \<and> unat y \<le> length (jv_text v) \<and> slice (jv_text v) x y = fst (ms' ! i) \<and> unat (get_element_value e) \<le> ?d \<and>
       repr (jv_words v) (jv_text v) (get_element_type e) (?d - unat (get_element_value e)) (snd (ms' ! i))"
    using assms unfolding denotes_def by (auto elim: repr_objE)
  show "jv_type v = TYPE_OBJECT" by (fact r(1))
  have "get_object_key v i = Some (fst (ms' ! i)) \<and> (\<exists>w. get_object_value v i = Some w \<and> denotes w (snd (ms' ! i)))"
    if i: "i < length ms'" for i
  proof -
    from r(7) i obtain x y e where e: "jv_words v (?d - 1 - 3 * i) = Some x" "jv_words v (?d - 2 - 3 * i) = Some y"
      "jv_words v (?d - 3 - 3 * i) = Some e" "x \<le> y" "unat y \<le> length (jv_text v)" "slice (jv_text v) x y = fst (ms' ! i)"
      "unat (get_element_value e) \<le> ?d"
      "repr (jv_words v) (jv_text v) (get_element_type e) (?d - unat (get_element_value e)) (snd (ms' ! i))" by blast
    have k: "payload v (1 + i * 3) = Some x" "payload v (2 + i * 3) = Some y" "payload v (3 + i * 3) = Some e"
      using e(1-3) i r(2) by (auto simp: payload_def mult.commute)
    show ?thesis
      using e r(1) k unfolding get_object_key_def get_object_value_def element_at_def text_between_def denotes_def by simp
  qed
  moreover have "map_option unat (get_length v) = Some (length ms')"
    using r(1-4) by (auto simp: get_length_def payload_def unat_of_nat)
  ultimately show "\<exists>ms'. sorted_members v ms ms'" unfolding sorted_members_def using r(5,6) by blast
qed

section \<open>Lookup\<close>

text \<open>The first position that is not before, when the positions before come first.\<close>

lemma lower_bound_correct:
  assumes "\<forall>i < first + len. before i \<noteq> None" "\<forall>i j. i \<le> j \<longrightarrow> j < first + len \<longrightarrow> before j = Some True \<longrightarrow> before i = Some True"
  shows "\<exists>k. lower_bound before first len = Some k \<and> first \<le> k \<and> k \<le> first + len \<and>
    (\<forall>i. first \<le> i \<longrightarrow> i < k \<longrightarrow> before i = Some True) \<and> (\<forall>i. k \<le> i \<longrightarrow> i < first + len \<longrightarrow> before i = Some False)"
  using assms
proof (induction before first len rule: lower_bound.induct)
  case (1 before first len)
  show ?case
  proof (cases "len = 0")
    case False
    let ?m = "first + len div 2"
    have m: "?m < first + len" using False by simp
    then obtain b where b: "before ?m = Some b" using 1(3) by blast
    show ?thesis
    proof (cases b)
      case True
      have split: "?m + 1 + (len - len div 2 - 1) = first + len" using m by simp
      from 1(1) [OF False b, unfolded split] True 1(3,4) obtain k where k:
        "lower_bound before (?m + 1) (len - len div 2 - 1) = Some k" "?m + 1 \<le> k" "k \<le> first + len"
        "\<forall>i. ?m + 1 \<le> i \<longrightarrow> i < k \<longrightarrow> before i = Some True" "\<forall>i. k \<le> i \<longrightarrow> i < first + len \<longrightarrow> before i = Some False"
        by blast
      have "before i = Some True" if "i < k" for i
        using k(4) that 1(4) m b True by (cases "i \<le> ?m") (auto simp: not_le Suc_le_eq)
      then show ?thesis using k b True False by (subst lower_bound.simps) auto
    next
      case F: False
      have "before i \<noteq> None" if "i < ?m" for i using 1(3) m that by (meson order.strict_trans)
      moreover have "before i = Some True" if "i \<le> j" "j < ?m" "before j = Some True" for i j using 1(4) m that by (meson order.strict_trans)
      ultimately obtain k where k: "lower_bound before first (len div 2) = Some k" "first \<le> k" "k \<le> ?m"
        "\<forall>i. first \<le> i \<longrightarrow> i < k \<longrightarrow> before i = Some True" "\<forall>i. k \<le> i \<longrightarrow> i < ?m \<longrightarrow> before i = Some False"
        using 1(2) [OF False b] F by blast
      have "before i = Some False" if "?m \<le> i" "i < first + len" for i
        using 1(3,4) that b F by (metis not_Some_eq option.inject)
      then show ?thesis using k b F False m by (subst lower_bound.simps) (auto simp: not_le)
    qed
  qed (simp add: lower_bound.simps)
qed

lemma find_object_key_correct:
  assumes "denotes v (JObj ms)" "sorted_members v ms ms'"
  shows "\<exists>i. find_object_key v key = Some i \<and>
    (if key \<in> fst ` set ms then i < length ms' \<and> fst (ms' ! i) = key else i = length ms')"
proof -
  let ?n = "length ms'"
  define before where "before = (\<lambda>i. map_option (\<lambda>k. key_less k key) (get_object_key v i))"
  from assms(2) have m: "mset ms' = mset ms" "key_sorted ms'" "map_option unat (get_length v) = Some ?n"
    "\<And>i. i < ?n \<Longrightarrow> get_object_key v i = Some (fst (ms' ! i))" by (auto simp: sorted_members_def)
  have le: "\<not> key_less (fst (ms' ! j)) (fst (ms' ! i))" if "i \<le> j" "j < ?n" for i j
    using m(2) that key_less_irrefl by (cases "i = j") (auto simp: key_sorted_def sorted_wrt_iff_nth_less)
  have cmp: "before i = Some (key_less (fst (ms' ! i)) key)" if "i < ?n" for i using m(4) [OF that] by (simp add: before_def)
  have "before i = Some True" if "i \<le> j" "j < 0 + ?n" "before j = Some True" for i j
  proof -
    have "key_less (fst (ms' ! j)) key" "i < ?n" using that cmp [of j] by auto
    then show ?thesis
      using le [OF that(1)] that(2) cmp [of i] key_less_total [of "fst (ms' ! i)" "fst (ms' ! j)"] key_less_trans by auto
  qed
  with cmp lower_bound_correct [of 0 ?n before] obtain k where k: "lower_bound before 0 ?n = Some k" "k \<le> ?n"
    "\<And>i. i < k \<Longrightarrow> before i = Some True" "\<And>i. k \<le> i \<Longrightarrow> i < ?n \<Longrightarrow> before i = Some False" by auto
  have keys: "key \<in> fst ` set ms \<longleftrightarrow> (\<exists>i < ?n. fst (ms' ! i) = key)"
    using mset_eq_setD [OF m(1)] by (metis (no_types, lifting) image_iff in_set_conv_nth)
  have at: "fst (ms' ! k) = key" "k < ?n" if "i < ?n" "fst (ms' ! i) = key" for i
  proof -
    have "\<not> key_less (fst (ms' ! i)) key" using that(2) key_less_irrefl by simp
    then have "k \<le> i" using k(3) cmp [OF that(1)] by (metis not_le option.inject)
    then show "k < ?n" using that(1) by simp
    have "\<not> key_less (fst (ms' ! k)) key" using k(4) [of k] cmp [OF \<open>k < ?n\<close>] \<open>k < ?n\<close> by simp
    then show "fst (ms' ! k) = key" using le [OF \<open>k \<le> i\<close> that(1)] that(2) key_less_total by metis
  qed
  obtain n where n: "get_length v = Some n" "unat n = ?n" using m(3) by auto
  have "find_object_key v key = Some (if k < ?n \<and> fst (ms' ! k) = key then k else ?n)"
    using k(1,2) n m(4) denotes_obj(1) [OF assms(1)] by (auto simp: find_object_key_def before_def)
  then show ?thesis using keys at by auto
qed

lemma get_value_of_key_correct:
  assumes "denotes v (JObj ms)"
  shows "\<exists>w. get_value_of_key v key = Some w \<and>
    (if key \<in> fst ` set ms then \<exists>j. (key, j) \<in> set ms \<and> denotes w j else jv_type w = TYPE_NOKEY)"
proof -
  obtain ms' where s: "sorted_members v ms ms'" using denotes_obj(2) [OF assms] by blast
  obtain i where i: "find_object_key v key = Some i"
    "if key \<in> fst ` set ms then i < length ms' \<and> fst (ms' ! i) = key else i = length ms'"
    using find_object_key_correct [OF assms s, of key] by blast
  from s obtain n where n: "get_length v = Some n" "unat n = length ms'" by (auto simp: sorted_members_def)
  show ?thesis
  proof (cases "key \<in> fst ` set ms")
    case True
    with i(2) have lt: "i < length ms'" "fst (ms' ! i) = key" by auto
    with s obtain w where w: "get_object_value v i = Some w" "denotes w (snd (ms' ! i))" by (auto simp: sorted_members_def)
    have "ms' ! i \<in> set ms" using s lt(1) mset_eq_setD [of ms' ms] by (auto simp: sorted_members_def)
    then have "(key, snd (ms' ! i)) \<in> set ms" using lt(2) by (metis prod.collapse)
    with True i(1) lt n w show ?thesis by (auto simp: get_value_of_key_def)
  qed (use i n in \<open>auto simp: get_value_of_key_def\<close>)
qed

end
