(* ===== verification/Sajson.thy ===== *)
theory Sajson
  imports SajsonMemory SajsonValue StringUtils
begin

text \<open>
  Whole documents: the entry points of \<open>src/Serialize/JsonDeserializer.sajson.cpp\<close> for the three allocation policies, the
  class \<open>value\<close> of \<open>JsonDeserializer.sajson.hpp\<close> that reads a document, and what they promise together.
\<close>

declare dropWhile_eq_Nil_conv [simp del]

section \<open>Documents against the reference\<close>

text \<open>
  A document that reads as \<open>res\<close>: the error of the reference, with line and column of the place where the reference
  stops, or the words of the value; or an error for lack of memory.
\<close>

definition reads_as :: "'s alloc_ops \<Rightarrow> nat \<Rightarrow> json scan \<Rightarrow> 's document option \<Rightarrow> bool" where
  "reads_as ops n res r \<longleftrightarrow>
     (\<exists>er. r = Some (Invalid er) \<and> err_code er = ERROR_OUT_OF_MEMORY) \<or>
     (case res of
        SErr e s \<Rightarrow> (\<exists>t. length t = n \<and> r = Some (Invalid (error_at t e s)))
      | SOk s v \<Rightarrow>
          (\<exists>t a ty. r = Some (Document t a ty (ao_write_offset ops a)) \<and> length t = n \<and> ty \<in> {TYPE_ARRAY, TYPE_OBJECT} \<and>
             repr (ao_load_ast ops a) t ty (ao_write_offset ops a) v)
      | SFault \<Rightarrow> False)"

context sajson_allocator
begin

lemma document_of_root:
  assumes "agrees_root fo std_sort (rd_value fo m s) r" "rd_document fo t \<noteq> SFault"
    and "rd_document fo t = (case rd_value fo m s of SErr e s' \<Rightarrow> SErr e s' | SFault \<Rightarrow> SFault
      | SOk s' v \<Rightarrow> if ws s' = [] then SOk [] v else SErr ERROR_EXPECTED_END_OF_INPUT (ws s'))"
  shows "reads_as ops N (rd_document fo t) (map_option (get_document ops) r)"
  using assms
  by (cases "rd_value fo m s") (auto simp: reads_as_def agrees_root_def oom_def failed_def get_document_def split: if_splits)

lemma enter_agrees:
  assumes N: "N < 2 ^ 61 - 1" and sort: "sort_ok std_sort" and a: "inv a" "top a = 0" "off a = 0" and t: "length t = N"
  shows "reads_as ops N (rd_document fo t) (map_option (get_document ops) (cont ops fo std_sort (enter ops t a)))"
proof -
  define n where "n = 2 * length t"
  let ?st = "\<lparr>ps_text = t, ps_alloc = a, ps_p = 0, ps_base = top a, ps_type = TYPE_NULL\<rparr>"
  show ?thesis
  proof (cases "ws t")
    case Nil
    then have "failed N ERROR_MISSING_ROOT_ELEMENT [] (cont ops fo std_sort (enter ops t a))"
      using failed_fail_at(1) [of ?st N ERROR_MISSING_ROOT_ELEMENT] t skip_whitespace_ws [of 0 t] by (simp add: enter_def)
    with Nil show ?thesis by (auto simp: reads_as_def rd_document_def failed_def get_document_def)
  next
    case (Cons c r)
    let ?q = "N - Suc (length r)"
    have w: "?q < N" "drop (?q + 1) t = r" "t ! ?q = c" "\<not> is_whitespace c" "Suc (length r) \<le> N" using ws_drop [of 0 t c r] Cons t by auto
    have skip: "skip_whitespace t 0 = Some ?q" using skip_whitespace_ws [of 0 t] Cons t by simp
    note items = machine_agrees [OF N sort, of fo n]
    consider (arr) "c = CHR ''[''" | (obj) "c = CHR ''{''" | (other) "c \<noteq> CHR ''['' \<and> c \<noteq> CHR ''{''" by blast
    then show ?thesis
    proof cases
      case arr
      have v: "rd_value fo (Suc n) (c # r) = map_scan JArr (case ws r of [] \<Rightarrow> SErr ERROR_UNEXPECTED_END []
          | d # x \<Rightarrow> if d = CHR '']'' then SOk x [] else rd_elements fo n (d # x))"
        using arr w(4) by (simp add: is_digit_def byte_def split: list.split)
      have "agrees_root fo std_sort (rd_value fo (Suc n) (c # r)) (cont ops fo std_sort (enter ops t a))"
        unfolding v
        using root_agrees [OF a t w(1) _ _ close_array [OF N], of fo std_sort Array_close_or_element "CHR '']''" Next_element "rd_elements fo n"]
          items arr w skip by (simp add: enter_def)
      then show ?thesis
        by (rule document_of_root [OF _ rd_document_total]) (use Cons arr in \<open>simp add: rd_document_def n_def del: rd_value.simps\<close>)
    next
      case obj
      have v: "rd_value fo (Suc n) (c # r) = map_scan JObj (case ws r of [] \<Rightarrow> SErr ERROR_UNEXPECTED_END []
          | d # x \<Rightarrow> if d = CHR ''}'' then SOk x [] else rd_members fo n (d # x))"
        using obj w(4) by (simp add: is_digit_def byte_def split: list.split)
      have "agrees_root fo std_sort (rd_value fo (Suc n) (c # r)) (cont ops fo std_sort (enter ops t a))"
        unfolding v
        using root_agrees [OF a t w(1) _ _ close_object [OF N sort], of fo Object_close_or_element "CHR ''}''" Object_key "rd_members fo n"]
          items obj w skip by (simp add: enter_def)
      then show ?thesis
        by (rule document_of_root [OF _ rd_document_total]) (use Cons obj in \<open>simp add: rd_document_def n_def del: rd_value.simps\<close>)
    next
      case other
      then have "failed N ERROR_BAD_ROOT (c # r) (cont ops fo std_sort (enter ops t a))"
        using failed_fail_at(2) [of ?st N ERROR_BAD_ROOT "c # r" ?q] t w skip by (simp add: enter_def)
      with other Cons show ?thesis by (auto simp: reads_as_def rd_document_def failed_def get_document_def)
    qed
  qed
qed

lemma parse_reads_as:
  assumes "N < 2 ^ 61 - 1" "sort_ok std_sort" "length t = N"
  shows "reads_as ops N (rd_document fo t) (sajson_parse ops fo std_sort t)"
proof (cases "ao_start ops N")
  case (Some a)
  have "sajson_parse ops fo std_sort t = map_option (get_document ops) (cont ops fo std_sort (enter ops t a))"
    by (simp add: sajson_parse_def assms(3) Some cont_def)
  with enter_agrees [OF assms(1,2) _ _ _ assms(3)] start [OF Some] show ?thesis by simp
qed (simp add: sajson_parse_def assms(3) reads_as_def)

end

section \<open>Entry points\<close>

definition parse_single_allocation :: "fresh \<Rightarrow> float_ops \<Rightarrow> sorter \<Rightarrow> string \<Rightarrow> single document option" where
  "parse_single_allocation fresh fo std_sort json = sajson_parse (single_ops fresh None) fo std_sort json"

definition parse_dynamic_allocation :: "fresh \<Rightarrow> float_ops \<Rightarrow> sorter \<Rightarrow> string \<Rightarrow> dynamic document option" where
  "parse_dynamic_allocation fresh fo std_sort json = sajson_parse (dynamic_ops fresh 0 0) fo std_sort json"

definition parse_bounded_allocation :: "u64 list \<Rightarrow> float_ops \<Rightarrow> sorter \<Rightarrow> string \<Rightarrow> bounded document option" where
  "parse_bounded_allocation existing_buffer fo std_sort json = sajson_parse (bounded_ops existing_buffer) fo std_sort json"

text \<open>The class \<open>document\<close>; the type of an invalid one is \<open>TYPE_NULL\<close>.\<close>

definition document_is_valid :: "'s document \<Rightarrow> bool" where
  "document_is_valid d = (case d of Document t a ty p \<Rightarrow> ty = TYPE_ARRAY \<or> ty = TYPE_OBJECT | _ \<Rightarrow> False)"

definition get_root :: "'s alloc_ops \<Rightarrow> 's document \<Rightarrow> jvalue option" where
  "get_root ops d =
     (case d of
        Document t a ty p \<Rightarrow> Some \<lparr>jv_type = ty, jv_words = ao_load_ast ops a, jv_payload = p, jv_text = t\<rparr>
      | _ \<Rightarrow> None)"

text \<open>
  The message of an invalid document: \<open>snprintf\<close> cuts after 126 characters, and an assertion demands that the whole
  message has fewer than 128.
\<close>

definition full_error_message :: "parse_error \<Rightarrow> string" where
  "full_error_message er =
     (if err_code er = ERROR_ILLEGAL_CODEPOINT
      then get_error_text (err_code er) @ '': '' @ rev (dec_digits_rev (err_arg er))
      else get_error_text (err_code er))"

definition formatted_error_message :: "parse_error \<Rightarrow> string option" where
  "formatted_error_message er =
     (if length (full_error_message er) < 128 then Some (take 126 (full_error_message er)) else None)"

section \<open>What a document promises\<close>

lemma reads_as_SOk:
  assumes "reads_as ops n (SOk s v) r" "\<And>er. r = Some (Invalid er) \<Longrightarrow> err_code er \<noteq> ERROR_OUT_OF_MEMORY"
  shows "\<exists>d root. r = Some d \<and> document_is_valid d \<and> get_root ops d = Some root \<and> denotes root v \<and> length (jv_text root) = n"
proof -
  from assms obtain t a ty where "r = Some (Document t a ty (ao_write_offset ops a))" "length t = n" "ty \<in> {TYPE_ARRAY, TYPE_OBJECT}"
    "repr (ao_load_ast ops a) t ty (ao_write_offset ops a) v" by (auto simp: reads_as_def)
  then show ?thesis by (auto simp: document_is_valid_def get_root_def denotes_def)
qed

lemma reads_as_total: "reads_as ops n res r \<Longrightarrow> res \<noteq> SFault \<Longrightarrow> \<exists>d. r = Some d \<and> d \<noteq> Undefined"
  by (auto simp: reads_as_def split: scan.splits)

lemma single_reads_as:
  assumes "length t < 2 ^ 61 - 1" "sort_ok std_sort"
  shows "reads_as (single_ops fresh None) (length t) (rd_document fo t) (parse_single_allocation fresh fo std_sort t)"
  unfolding parse_single_allocation_def by (rule single.parse_reads_as [OF assms refl])

lemma single_room:
  assumes "parse_single_allocation fresh fo std_sort t = Some (Invalid er)" "fresh (length t) \<noteq> None"
  shows "err_code er \<noteq> ERROR_OUT_OF_MEMORY"
  using assms(1) unfolding parse_single_allocation_def
  by (rule roomy.parse_room) (use assms(2) in \<open>auto simp: single_ops_def single_start_def new_words_def Let_def\<close>)

text \<open>An instance of \<open>std::sort\<close>, and of the operations on doubles, for the witnesses.\<close>

fun insort_by :: "('a \<Rightarrow> 'a \<Rightarrow> bool) \<Rightarrow> 'a \<Rightarrow> 'a list \<Rightarrow> 'a list" where
  "insort_by lt x [] = [x]"
| "insort_by lt x (y # ys) = (if lt y x then y # insort_by lt x ys else x # y # ys)"

definition insertion_sort :: sorter where
  "insertion_sort lt rs = foldr (insort_by lt) rs []"

definition no_floats :: float_ops where
  "no_floats = \<lparr>f_of_int = word_of_int, f_add = (\<lambda>x y. 0), f_mul = (\<lambda>x y. 0), f_neg = (\<lambda>x. 0), f_is_zero = (\<lambda>x. x = 0),
     f_zero = 0, f_lit = (\<lambda>i. 0), f_inf = 0\<rparr>"

lemma mset_insort_by: "mset (insort_by lt x ys) = add_mset x (mset ys)"
  by (induction ys) auto

lemma sorted_insort_by:
  assumes "strict_weak lt A" "x \<in> A" "set ys \<subseteq> A" "sorted_wrt (\<lambda>x y. \<not> lt y x) ys"
  shows "sorted_wrt (\<lambda>x y. \<not> lt y x) (insort_by lt x ys)"
  using assms(3,4)
proof (induction ys)
  case (Cons y ys)
  have set: "set (insort_by lt x ys) = insert x (set ys)" using arg_cong [OF mset_insort_by [of lt x ys], of set_mset] by simp
  show ?case
  proof (cases "lt y x")
    case True
    then have "\<not> lt x y" using assms(1,2) Cons.prems(1) unfolding strict_weak_def by (meson list.set_intros(1) subsetD)
    then show ?thesis using True Cons set by simp
  next
    case False
    have "\<not> lt z x" if z: "z \<in> set ys" for z
    proof
      assume l: "lt z x"
      have zy: "\<not> lt z y" "z \<in> A" "y \<in> A" using z Cons.prems by auto
      have "\<not> lt x y" using l zy assms(1,2) unfolding strict_weak_def by blast
      moreover have "\<not> lt y z" using l False zy assms(1,2) unfolding strict_weak_def by blast
      ultimately show False using l False zy assms(1,2) unfolding strict_weak_def by blast
    qed
    then show ?thesis using False Cons.prems by auto
  qed
qed simp

lemma insertion_sort_ok: "sort_ok insertion_sort"
proof -
  have m: "mset (insertion_sort lt rs) = mset rs" for lt rs by (induction rs) (simp_all add: insertion_sort_def mset_insort_by)
  have "sorted_wrt (\<lambda>x y. \<not> lt y x) (insertion_sort lt rs)" if "strict_weak lt A" "set rs \<subseteq> A" for lt rs A
    using that(2)
  proof (induction rs)
    case (Cons r rs)
    have "set (insertion_sort lt rs) = set rs" using m by (metis set_mset_mset)
    with Cons sorted_insort_by [OF that(1), of r "insertion_sort lt rs"] show ?case by (simp add: insertion_sort_def)
  qed (simp add: insertion_sort_def)
  with m show ?thesis unfolding sort_ok_def by blast
qed

section \<open>Properties\<close>

text \<open>
  C8. With \<open>single_allocation\<close>, once its one buffer of a word for each byte is allocated, a text that the reference
  reads gives a valid document whose root is the value read; any other text gives an invalid document with the error of
  the reference at the place where it stopped. There is no other outcome, although no operation checks the buffer.
\<close>

theorem single_allocation_parses:
  assumes "length t < 2 ^ 61 - 1" "sort_ok std_sort" "fresh (length t) \<noteq> None"
  shows "case rd_document fo t of
      SOk s v \<Rightarrow> \<exists>d root. parse_single_allocation fresh fo std_sort t = Some d \<and> document_is_valid d \<and>
        get_root (single_ops fresh None) d = Some root \<and> denotes root v
    | SErr e s \<Rightarrow> \<exists>t'. length t' = length t \<and> parse_single_allocation fresh fo std_sort t = Some (Invalid (error_at t' e s))
    | SFault \<Rightarrow> False"
proof (cases "rd_document fo t")
  case (SOk s v)
  from reads_as_SOk [OF single_reads_as [OF assms(1,2), of fresh fo, unfolded SOk]] single_room [of fresh fo std_sort t] assms(3) show ?thesis
    by (fastforce simp: SOk)
next
  case (SErr e s)
  from single_reads_as [OF assms(1,2), of fresh fo] single_room [of fresh fo std_sort t] assms(3) show ?thesis
    by (auto simp: reads_as_def SErr)
qed (use rd_document_total in blast)

text \<open>The text of an array with an object, of which the reference reads the value.\<close>

lemmas rd_numeral =
  rd_value.simps(2) [where n = "pred_numeral k" for k, folded numeral_eq_Suc]
  rd_elements.simps(2) [where n = "pred_numeral k" for k, folded numeral_eq_Suc]
  rd_members.simps(2) [where n = "pred_numeral k" for k, folded numeral_eq_Suc]

lemmas sample_simps = rd_document_def rd_numeral rd_key_def rd_literal_def is_whitespace_iff is_digit_def byte_def
  decode_string.simps string_item_def utf8_sequence_def

definition sample :: string where
  "sample = [CHR ''['', CHR ''{'', CHR 0x22, CHR ''k'', CHR 0x22, CHR '':'', CHR ''t'', CHR ''r'', CHR ''u'', CHR ''e'', CHR ''}'', CHR '']'']"

lemma sample_document: "rd_document no_floats sample = SOk [] (JArr [JObj [(''k'', JTrue)]])"
  by (simp add: sample_def sample_simps)

theorem single_allocation_parses_witness:
  "\<exists>d root. parse_single_allocation (\<lambda>n. Some (\<lambda>i. 0)) no_floats insertion_sort sample = Some d \<and> document_is_valid d \<and>
     get_root (single_ops (\<lambda>n. Some (\<lambda>i. 0)) None) d = Some root \<and> denotes root (JArr [JObj [(''k'', JTrue)]])"
  using single_allocation_parses [of sample insertion_sort "\<lambda>n. Some (\<lambda>i. 0)" no_floats, OF _ insertion_sort_ok]
  by (simp add: sample_document) (simp add: sample_def)

text \<open>
  C9. \<open>dynamic_allocation\<close>, whatever its allocations return, and \<open>bounded_allocation\<close>, whatever the size of its buffer,
  read every text as the reference does, or report that they are out of memory.
\<close>

theorem other_allocations_parse:
  assumes "length t < 2 ^ 61 - 1" "sort_ok std_sort"
  shows "reads_as (dynamic_ops fresh 0 0) (length t) (rd_document fo t) (parse_dynamic_allocation fresh fo std_sort t) \<and>
    reads_as (bounded_ops buffer) (length t) (rd_document fo t) (parse_bounded_allocation buffer fo std_sort t)"
  unfolding parse_dynamic_allocation_def parse_bounded_allocation_def
  by (intro conjI dynamic.parse_reads_as [OF assms refl] bounded.parse_reads_as [OF assms refl])

theorem other_allocations_parse_witness:
  "reads_as (dynamic_ops (\<lambda>n. None) 0 0) (length sample) (SOk [] (JArr [JObj [(''k'', JTrue)]]))
     (parse_dynamic_allocation (\<lambda>n. None) no_floats insertion_sort sample) \<and>
   reads_as (bounded_ops [0, 0, 0]) (length sample) (SOk [] (JArr [JObj [(''k'', JTrue)]]))
     (parse_bounded_allocation [0, 0, 0] no_floats insertion_sort sample)"
  using other_allocations_parse [of sample insertion_sort, OF _ insertion_sort_ok]
  unfolding sample_document [symmetric] by (simp add: sample_def)

text \<open>
  C10. The state machine ends on every text, and without an access outside the text, the stack or the tree and without a
  failed assertion, whatever memory the allocations return or refuse.
\<close>

theorem sajson_parse_terminates:
  assumes "length t < 2 ^ 61 - 1" "sort_ok std_sort"
  shows "\<exists>d1 d2 d3. parse_single_allocation fresh fo std_sort t = Some d1 \<and> d1 \<noteq> Undefined \<and>
    parse_dynamic_allocation fresh fo std_sort t = Some d2 \<and> d2 \<noteq> Undefined \<and>
    parse_bounded_allocation buffer fo std_sort t = Some d3 \<and> d3 \<noteq> Undefined"
  using reads_as_total [OF single_reads_as [OF assms] rd_document_total, of fresh fo]
    reads_as_total [OF dynamic.parse_reads_as [OF assms refl] rd_document_total, of fresh 0 0 fo]
    reads_as_total [OF bounded.parse_reads_as [OF assms refl] rd_document_total, of buffer fo]
  by (auto simp: parse_dynamic_allocation_def parse_bounded_allocation_def)

theorem sajson_parse_terminates_witness:
  "\<exists>d1 d2 d3. parse_single_allocation (\<lambda>n. None) no_floats insertion_sort sample = Some d1 \<and> d1 \<noteq> Undefined \<and>
    parse_dynamic_allocation (\<lambda>n. None) no_floats insertion_sort sample = Some d2 \<and> d2 \<noteq> Undefined \<and>
    parse_bounded_allocation [] no_floats insertion_sort sample = Some d3 \<and> d3 \<noteq> Undefined"
  by (rule sajson_parse_terminates [OF _ insertion_sort_ok]) (simp add: sample_def)

text \<open>
  C11. On the root of a parsed object \<open>get_value_of_key\<close> finds by its binary search a member of the key among the members
  of the text, sorted as they were by \<open>install_object\<close>, and returns a value of type \<open>TYPE_NOKEY\<close> exactly for the keys
  that no member has.
\<close>

theorem parsed_object_lookup:
  assumes "length t < 2 ^ 61 - 1" "sort_ok std_sort" "rd_document fo t = SOk s (JObj ms)"
    and "parse_single_allocation fresh fo std_sort t = Some d" "get_root (single_ops fresh None) d = Some root"
  shows "\<exists>w. get_value_of_key root key = Some w \<and>
    (if key \<in> fst ` set ms then \<exists>j. (key, j) \<in> set ms \<and> denotes w j else jv_type w = TYPE_NOKEY)"
proof -
  have "denotes root (JObj ms)"
    using single_reads_as [OF assms(1,2), of fresh fo] assms(3-5) by (auto simp: reads_as_def get_root_def denotes_def)
  then show ?thesis by (rule get_value_of_key_correct)
qed

definition sample_object :: string where
  "sample_object = [CHR ''{'', CHR 0x22, CHR ''k'', CHR 0x22, CHR '':'', CHR ''t'', CHR ''r'', CHR ''u'', CHR ''e'', CHR ''}'']"

lemma sample_object_document: "rd_document no_floats sample_object = SOk [] (JObj [(''k'', JTrue)])"
  by (simp add: sample_object_def sample_simps)

theorem parsed_object_lookup_witness:
  "\<exists>d root w. parse_single_allocation (\<lambda>n. Some (\<lambda>i. 0)) no_floats insertion_sort sample_object = Some d \<and>
     get_root (single_ops (\<lambda>n. Some (\<lambda>i. 0)) None) d = Some root \<and> get_value_of_key root ''k'' = Some w \<and> denotes w JTrue"
proof -
  have len: "length sample_object < 2 ^ 61 - 1" by (simp add: sample_object_def)
  obtain d root where d: "parse_single_allocation (\<lambda>n. Some (\<lambda>i. 0)) no_floats insertion_sort sample_object = Some d"
    "get_root (single_ops (\<lambda>n. Some (\<lambda>i. 0)) None) d = Some root"
    using reads_as_SOk [OF single_reads_as [OF len insertion_sort_ok, of "\<lambda>n. Some (\<lambda>i. 0)" no_floats, unfolded sample_object_document]]
      single_room [of "\<lambda>n. Some (\<lambda>i. 0)" no_floats insertion_sort sample_object] by auto
  from parsed_object_lookup [OF len insertion_sort_ok sample_object_document d, of "''k''"] d show ?thesis by auto
qed

section \<open>Where the parser departs from JSON\<close>

text \<open>An integer of 32 bits above 2147483559 is read as a double.\<close>

lemma large_int_is_double:
  "\<exists>x. scan_number fo ''2147483647]'' = SOk '']'' (ADbl x)" "scan_number fo ''2147483559]'' = SOk '']'' (AInt 2147483559)"
  by (simp_all add: scan_number_def scan_unsigned_def integer_part_def fraction_part_def exponent_part_def scale_number_def
      is_digit_def digit_value_def byte_def add_digit_def INT_MAX_def)

text \<open>A continuation byte is accepted as the first byte of a character, and so is an overlong encoding.\<close>

lemma malformed_utf8_accepted:
  "decode_string [CHR 0x80, CHR 0x80, CHR 0x22] = SOk [] [CHR 0x80, CHR 0x80]"
  "decode_string [CHR 0xC0, CHR 0x80, CHR 0x22] = SOk [] [CHR 0xC0, CHR 0x80]"
  by (simp_all add: decode_string.simps string_item_def utf8_sequence_def is_continuation_def byte_def)

text \<open>A trail surrogate alone is accepted and written as three bytes.\<close>

lemma lone_surrogate_accepted:
  "decode_string ([CHR 0x5C] @ ''uDC00'' @ [CHR 0x22]) = SOk [] [CHR 0xED, CHR 0xB0, CHR 0x80]"
  by code_simp

end
