(* ===== verification/StringBuilder.thy ===== *)
theory StringBuilder
  imports StringUtils
begin

text \<open>
  \<open>BasicSharedStringBuilder\<close> of \<open>Utility/SharedStringBuilder.hpp\<close> and \<open>.cpp\<close>, a buffer that grows and the size of its used
  part, and \<open>Packet\<close> of \<open>Utility/Packet.hpp\<close> and \<open>.cpp\<close>, one fragment or several.

  The buffer is the list of its bytes; \<open>fresh n\<close> is what a new buffer of \<open>n\<close> bytes happens to hold. Sizes are natural
  numbers with the bounds of \<open>std::size_t\<close> written out. Reference counts and deleters are not modelled.
\<close>

section \<open>Builder\<close>

definition SIZE_MAX :: nat where
  "SIZE_MAX = 2 ^ 64 - 1"

record string_builder =
  sb_buffer :: string
  sb_size :: nat

type_synonym fresh_bytes = "nat \<Rightarrow> string"

definition MinCapacityForGrow :: nat where
  "MinCapacityForGrow = 512"

definition sb_new :: string_builder where
  "sb_new = \<lparr>sb_buffer = [], sb_size = 0\<rparr>"

definition sb_reserve :: "fresh_bytes \<Rightarrow> nat \<Rightarrow> string_builder \<Rightarrow> string_builder" where
  "sb_reserve fresh newSize b =
     (if newSize \<le> length (sb_buffer b) then b
      else if sb_size b = 0 then b\<lparr>sb_buffer := fresh newSize\<rparr>
      else
        let capacity = max (max newSize (length (sb_buffer b) * 2 mod 2 ^ 64)) MinCapacityForGrow
        in b\<lparr>sb_buffer := take (sb_size b) (sb_buffer b) @ drop (sb_size b) (fresh capacity)\<rparr>)"

text \<open>\<open>grow\<close>: \<open>None\<close> is the \<open>OverflowException\<close>; the pointer it returns is the old size.\<close>

definition sb_grow :: "fresh_bytes \<Rightarrow> nat \<Rightarrow> string_builder \<Rightarrow> (nat \<times> string_builder) option" where
  "sb_grow fresh appendSize b =
     (let oldSize = sb_size b
      in if SIZE_MAX - oldSize < appendSize then None
         else Some (oldSize, (sb_reserve fresh (oldSize + appendSize) b)\<lparr>sb_size := oldSize + appendSize\<rparr>))"

text \<open>A write of bytes from a pointer on; \<open>None\<close> if it leaves the buffer.\<close>

definition sb_write :: "nat \<Rightarrow> string \<Rightarrow> string_builder \<Rightarrow> string_builder option" where
  "sb_write ptr bytes b =
     (if ptr + length bytes \<le> length (sb_buffer b)
      then Some (b\<lparr>sb_buffer := take ptr (sb_buffer b) @ bytes @ drop (ptr + length bytes) (sb_buffer b)\<rparr>)
      else None)"

datatype 'a appended = Appended 'a | Overflow | OutOfBuffer

definition sb_append :: "fresh_bytes \<Rightarrow> string \<Rightarrow> string_builder \<Rightarrow> string_builder appended" where
  "sb_append fresh view b =
     (if view = [] then Appended b
      else case sb_grow fresh (length view) b of
        None \<Rightarrow> Overflow
      | Some (ptr, b') \<Rightarrow> (case sb_write ptr view b' of None \<Rightarrow> OutOfBuffer | Some b'' \<Rightarrow> Appended b''))"

definition sb_append_fill :: "fresh_bytes \<Rightarrow> nat \<Rightarrow> char \<Rightarrow> string_builder \<Rightarrow> string_builder appended" where
  "sb_append_fill fresh count c b =
     (case sb_grow fresh count b of
        None \<Rightarrow> Overflow
      | Some (ptr, b') \<Rightarrow> (case sb_write ptr (replicate count c) b' of None \<Rightarrow> OutOfBuffer | Some b'' \<Rightarrow> Appended b''))"

definition sb_view :: "string_builder \<Rightarrow> string" where
  "sb_view b = take (sb_size b) (sb_buffer b)"

definition sb_clear :: "string_builder \<Rightarrow> string_builder" where
  "sb_clear b = b\<lparr>sb_size := 0\<rparr>"

text \<open>\<open>resize\<close>; \<open>None\<close> if its assertion fails.\<close>

definition sb_resize :: "nat \<Rightarrow> string_builder \<Rightarrow> string_builder option" where
  "sb_resize n b = (if n \<le> length (sb_buffer b) then Some (b\<lparr>sb_size := n\<rparr>) else None)"

definition sb_build :: "string_builder \<Rightarrow> string \<times> string_builder" where
  "sb_build b = (sb_view b, sb_new)"

section \<open>Integers\<close>

function max_string_digits :: "nat \<Rightarrow> nat \<Rightarrow> nat" where
  "max_string_digits base n = (if 1 < base \<and> n \<ge> base then Suc (max_string_digits base (n div base)) else 0)"
  by pat_completeness auto
termination by (relation "measure snd") (auto intro: div_less_dividend)

declare max_string_digits.simps [simp del]

definition getMaxStringSize :: "bool \<Rightarrow> nat \<Rightarrow> nat \<Rightarrow> nat" where
  "getMaxStringSize is_signed max_value base =
     (if is_signed then 2 else 1) + max_string_digits base max_value"

text \<open>Signed digits, from the last one on: the division truncates, the remainder has the sign of the value.\<close>

definition truncated_div10 :: "int \<Rightarrow> int" where
  "truncated_div10 v = sgn v * (\<bar>v\<bar> div 10)"

function signed_digits_rev :: "int \<Rightarrow> string" where
  "signed_digits_rev value =
     (let rem = value - 10 * truncated_div10 value; value' = truncated_div10 value
      in dec_digits ! nat (if rem \<ge> 0 then rem else - rem) # (if value' \<noteq> 0 then signed_digits_rev value' else []))"
  by pat_completeness auto
termination by (relation "measure (\<lambda>v. nat \<bar>v\<bar>)") (auto simp: truncated_div10_def abs_mult sgn_if)

declare signed_digits_rev.simps [simp del]

definition dumpIntToDec_signed :: "int \<Rightarrow> string" where
  "dumpIntToDec_signed value = (if value < 0 then ''-'' else []) @ rev (signed_digits_rev value)"

text \<open>
  \<open>appendImpl\<close> for \<open>std::intmax_t\<close> and \<open>std::uintmax_t\<close>: the largest size is reserved, the digits are written and
  reversed in place, then the size is cut to what was written.
\<close>

definition sb_append_digits :: "fresh_bytes \<Rightarrow> nat \<Rightarrow> string \<Rightarrow> string \<Rightarrow> string_builder \<Rightarrow> string_builder appended" where
  "sb_append_digits fresh maxSize sign digits_rev b =
     (case sb_grow fresh maxSize b of
        None \<Rightarrow> Overflow
      | Some (ptr, b1) \<Rightarrow>
          (case sb_write ptr (sign @ digits_rev) b1 of
             None \<Rightarrow> OutOfBuffer
           | Some b2 \<Rightarrow>
               (case sb_write (ptr + length sign) (rev digits_rev) b2 of
                  None \<Rightarrow> OutOfBuffer
                | Some b3 \<Rightarrow> Appended (b3\<lparr>sb_size := ptr + length sign + length digits_rev\<rparr>))))"

definition sb_append_intmax :: "fresh_bytes \<Rightarrow> int \<Rightarrow> string_builder \<Rightarrow> string_builder appended" where
  "sb_append_intmax fresh value b =
     sb_append_digits fresh (getMaxStringSize True (2 ^ 63 - 1) 10) (if value < 0 then ''-'' else []) (signed_digits_rev value) b"

definition sb_append_uintmax :: "fresh_bytes \<Rightarrow> nat \<Rightarrow> string_builder \<Rightarrow> string_builder appended" where
  "sb_append_uintmax fresh value b =
     sb_append_digits fresh (getMaxStringSize False (2 ^ 64 - 1) 10) [] (dec_digits_rev value) b"

text \<open>Doubles: the text of \<open>snprintf\<close>, a parameter, without the zeros at its end if it has a point.\<close>

definition trimTailingZero :: "string \<Rightarrow> string" where
  "trimTailingZero data =
     (let kept = rev (dropWhile (\<lambda>c. c = CHR ''0'') (rev data))
      in if kept \<noteq> [] \<and> last kept = CHR ''.'' then butlast kept
         else if CHR ''.'' \<in> set kept then kept
         else data)"

definition sb_append_double :: "fresh_bytes \<Rightarrow> (u64 \<Rightarrow> string) \<Rightarrow> u64 \<Rightarrow> string_builder \<Rightarrow> string_builder appended" where
  "sb_append_double fresh snprintf value b =
     (let digits = trimTailingZero (snprintf value)
      in case sb_grow fresh (length digits) b of
           None \<Rightarrow> Overflow
         | Some (ptr, b') \<Rightarrow> (case sb_write ptr digits b' of None \<Rightarrow> OutOfBuffer | Some b'' \<Rightarrow> Appended b''))"

text \<open>\<open>SharedString::fromInt\<close>: small values come from the table \<open>constants::Integers\<close>, which \<open>std::to_string\<close> fills.\<close>

definition MaxConstantInteger :: nat where
  "MaxConstantInteger = 65535"

definition Integers :: "nat \<Rightarrow> string" where
  "Integers i = rev (dec_digits_rev i)"

definition built :: "string_builder appended \<Rightarrow> string option" where
  "built r = (case r of Appended b \<Rightarrow> Some (fst (sb_build b)) | _ \<Rightarrow> None)"

definition fromInt :: "fresh_bytes \<Rightarrow> bool \<Rightarrow> int \<Rightarrow> string option" where
  "fromInt fresh is_signed value =
     (if 0 \<le> value then
        if nat value < MaxConstantInteger + 1 then Some (Integers (nat value))
        else built (sb_append_uintmax fresh (nat value) sb_new)
      else if is_signed then built (sb_append_intmax fresh value sb_new)
      else None)"

section \<open>The builder keeps its text\<close>

text \<open>A new buffer has the size asked for.\<close>

definition fresh_ok :: "fresh_bytes \<Rightarrow> bool" where
  "fresh_ok fresh \<longleftrightarrow> (\<forall>n. length (fresh n) = n)"

definition sb_wf :: "string_builder \<Rightarrow> bool" where
  "sb_wf b \<longleftrightarrow> sb_size b \<le> length (sb_buffer b)"

lemma length_sb_view: "sb_wf b \<Longrightarrow> length (sb_view b) = sb_size b"
  by (simp add: sb_view_def sb_wf_def)

lemma sb_reserve_cases:
  assumes "sb_wf b" "fresh_ok fresh"
  shows "sb_wf (sb_reserve fresh n b)" "n \<le> length (sb_buffer (sb_reserve fresh n b))"
    "sb_size (sb_reserve fresh n b) = sb_size b" "sb_view (sb_reserve fresh n b) = sb_view b"
  using assms by (auto simp: sb_reserve_def sb_wf_def fresh_ok_def sb_view_def Let_def)

text \<open>Room for \<open>n\<close> bytes, then at most \<open>n\<close> bytes written from the old end on.\<close>

lemma sb_grow_write:
  assumes "sb_wf b" "fresh_ok fresh" "length bytes \<le> n"
  shows "sb_size b + n \<le> SIZE_MAX \<Longrightarrow> sb_grow fresh n b \<noteq> None"
    and "sb_grow fresh n b = Some (ptr, b') \<Longrightarrow> ptr = sb_size b \<and> sb_size b' = sb_size b + n \<and>
      (\<exists>b''. sb_write ptr bytes b' = Some b'' \<and> sb_size b'' = sb_size b + n \<and> sb_wf b'' \<and>
         take (sb_size b + length bytes) (sb_buffer b'') = sb_view b @ bytes)"
proof -
  show "sb_size b + n \<le> SIZE_MAX \<Longrightarrow> sb_grow fresh n b \<noteq> None" by (simp add: sb_grow_def Let_def)
  assume g: "sb_grow fresh n b = Some (ptr, b')"
  let ?r = "sb_reserve fresh (sb_size b + n) b"
  have b': "ptr = sb_size b" "b' = ?r\<lparr>sb_size := sb_size b + n\<rparr>" using g by (auto simp: sb_grow_def Let_def split: if_splits)
  note r = sb_reserve_cases [OF assms(1,2), of "sb_size b + n"]
  have "take (sb_size b) (sb_buffer ?r) = sb_view b" using r(3,4) by (simp add: sb_view_def)
  then show "ptr = sb_size b \<and> sb_size b' = sb_size b + n \<and>
      (\<exists>b''. sb_write ptr bytes b' = Some b'' \<and> sb_size b'' = sb_size b + n \<and> sb_wf b'' \<and>
         take (sb_size b + length bytes) (sb_buffer b'') = sb_view b @ bytes)"
    using r(2) assms(3) length_sb_view [OF assms(1)] by (auto simp: b' sb_write_def sb_wf_def)
qed

lemma sb_append_view:
  assumes "sb_wf b" "fresh_ok fresh" "sb_size b + length s \<le> SIZE_MAX"
  shows "\<exists>b'. sb_append fresh s b = Appended b' \<and> sb_wf b' \<and> sb_view b' = sb_view b @ s"
proof (cases "s = []")
  case False
  obtain ptr b1 where g: "sb_grow fresh (length s) b = Some (ptr, b1)"
    using sb_grow_write(1) [OF assms(1,2), of s "length s"] assms(3) by fastforce
  from sb_grow_write(2) [OF assms(1,2) _ g, of s] obtain b2 where "sb_write ptr s b1 = Some b2" "sb_size b2 = sb_size b + length s" "sb_wf b2"
    "take (sb_size b + length s) (sb_buffer b2) = sb_view b @ s" by auto
  then show ?thesis using g False by (simp add: sb_append_def sb_view_def)
qed (use assms in \<open>simp add: sb_append_def\<close>)

lemma sb_append_double_view:
  assumes "sb_wf b" "fresh_ok fresh" "sb_size b + length (trimTailingZero (snprintf v)) \<le> SIZE_MAX"
  shows "\<exists>b'. sb_append_double fresh snprintf v b = Appended b' \<and> sb_wf b' \<and> sb_view b' = sb_view b @ trimTailingZero (snprintf v)"
proof -
  define s where "s = trimTailingZero (snprintf v)"
  obtain ptr b1 where g: "sb_grow fresh (length s) b = Some (ptr, b1)"
    using sb_grow_write(1) [OF assms(1,2), of s "length s"] assms(3) s_def by fastforce
  from sb_grow_write(2) [OF assms(1,2) _ g, of s] obtain b2 where "sb_write ptr s b1 = Some b2" "sb_size b2 = sb_size b + length s" "sb_wf b2"
    "take (sb_size b + length s) (sb_buffer b2) = sb_view b @ s" by auto
  then show ?thesis using g unfolding sb_append_double_def s_def [symmetric] Let_def by (simp add: sb_view_def)
qed

text \<open>Only zeros behind the point are dropped, and the point if nothing is left behind it.\<close>

lemma trimTailingZero_value:
  "trimTailingZero s = s \<or> (\<exists>n p. CHR ''.'' \<in> set (trimTailingZero s @ p) \<and> p \<in> {[], ''.''} \<and> s = trimTailingZero s @ p @ replicate n (CHR ''0''))"
proof -
  define kept where "kept = rev (dropWhile (\<lambda>c. c = CHR ''0'') (rev s))"
  have "rev s = takeWhile (\<lambda>c. c = CHR ''0'') (rev s) @ rev kept" by (simp add: kept_def)
  then have t: "s = kept @ rev (takeWhile (\<lambda>c. c = CHR ''0'') (rev s))" by (metis rev_append rev_rev_ident)
  define n where "n = length (takeWhile (\<lambda>c. c = CHR ''0'') (rev s))"
  have z: "takeWhile (\<lambda>c. c = CHR ''0'') (rev s) = replicate n (CHR ''0'')"
    unfolding n_def by (rule replicate_length_same [symmetric]) (auto dest: set_takeWhileD)
  have s: "s = kept @ replicate n (CHR ''0'')" by (rule t [unfolded z rev_replicate])
  show ?thesis
  proof (cases "kept \<noteq> [] \<and> last kept = CHR ''.''")
    case True
    then have "trimTailingZero s @ ''.'' = kept" by (simp add: trimTailingZero_def Let_def kept_def [symmetric]) (metis append_butlast_last_id)
    then have "s = trimTailingZero s @ ''.'' @ replicate n (CHR ''0'')" using s by (metis append.assoc)
    then show ?thesis by (intro disjI2 exI [of _ n] exI [of _ "''.''"] conjI) simp_all
  next
    case False
    then have "trimTailingZero s = (if CHR ''.'' \<in> set kept then kept else s)"
      unfolding trimTailingZero_def Let_def kept_def [symmetric] by (simp only: if_False)
    then show ?thesis using s by auto
  qed
qed

text \<open>Digits that fit the size reserved for them.\<close>

lemma sb_append_digits_view:
  assumes "sb_wf b" "fresh_ok fresh" "sb_size b + n \<le> SIZE_MAX" "length sign + length ds \<le> n"
  shows "\<exists>b'. sb_append_digits fresh n sign ds b = Appended b' \<and> sb_wf b' \<and> sb_view b' = sb_view b @ sign @ rev ds"
proof -
  obtain ptr b1 where g: "sb_grow fresh n b = Some (ptr, b1)"
    using sb_grow_write(1) [OF assms(1,2), of "sign @ ds" n] assms(3,4) by fastforce
  from sb_grow_write(2) [OF assms(1,2) _ g, of "sign @ ds"] assms(4) obtain b2 where
    b2: "ptr = sb_size b" "sb_write ptr (sign @ ds) b1 = Some b2" "sb_size b2 = sb_size b + n" "sb_wf b2"
    "take (sb_size b + length (sign @ ds)) (sb_buffer b2) = sb_view b @ sign @ ds" by auto
  have len: "sb_size b + length sign + length ds \<le> length (sb_buffer b2)" using b2(3,4) assms(4) by (simp add: sb_wf_def)
  obtain b3 where b3: "sb_write (ptr + length sign) (rev ds) b2 = Some b3"
    "sb_buffer b3 = take (ptr + length sign) (sb_buffer b2) @ rev ds @ drop (ptr + length sign + length ds) (sb_buffer b2)"
    using len b2(1) by (auto simp: sb_write_def)
  have "take (ptr + length sign) (sb_buffer b2) = take (ptr + length sign) (sb_view b @ sign @ ds)"
    unfolding b2(5) [symmetric] by (simp add: b2(1) take_take min_def)
  also have "\<dots> = sb_view b @ sign" using assms(1) by (simp add: sb_view_def sb_wf_def b2(1))
  finally have "take (ptr + length sign + length ds) (sb_buffer b3) = sb_view b @ sign @ rev ds"
    using len b2(1) length_sb_view [OF assms(1)] by (simp add: b3(2))
  then show ?thesis using g b2(2) b3 len b2(1) assms(1)
    by (auto simp: sb_append_digits_def sb_view_def sb_wf_def)
qed

lemma signed_digits_eq: "signed_digits_rev v = dec_digits_rev (nat \<bar>v\<bar>)"
proof (induction v rule: signed_digits_rev.induct)
  case (1 v)
  have q: "nat \<bar>truncated_div10 v\<bar> = nat \<bar>v\<bar> div 10" by (auto simp: truncated_div10_def abs_mult sgn_if nat_div_distrib)
  have r: "nat \<bar>v - 10 * truncated_div10 v\<bar> = nat \<bar>v\<bar> mod 10"
  proof (cases "v < 0")
    case True
    then have "v - 10 * truncated_div10 v = - (- v mod 10)" by (simp add: truncated_div10_def minus_mult_div_eq_mod [symmetric])
    then show ?thesis using True by (simp add: nat_mod_distrib)
  next
    case False
    then have "v - 10 * truncated_div10 v = v mod 10" by (simp add: truncated_div10_def sgn_if minus_mult_div_eq_mod [symmetric])
    then show ?thesis using False by (simp add: nat_mod_distrib)
  qed
  have z: "truncated_div10 v = 0 \<longleftrightarrow> nat \<bar>v\<bar> div 10 = 0" using q by linarith
  have "nat (if v - 10 * truncated_div10 v \<ge> 0 then v - 10 * truncated_div10 v else - (v - 10 * truncated_div10 v)) = nat \<bar>v\<bar> mod 10"
    using r by (simp add: abs_if split: if_splits)
  then show ?case
    using 1 q z by (subst signed_digits_rev.simps, subst dec_digits_rev.simps) (simp add: Let_def)
qed

text \<open>The size reserved is enough for every value up to the largest one.\<close>

lemma length_dec_digits_rev: "n \<le> m \<Longrightarrow> length (dec_digits_rev n) \<le> Suc (max_string_digits 10 m)"
proof (induction n arbitrary: m rule: dec_digits_rev.induct)
  case (1 n)
  show ?case
  proof (cases "n div 10 = 0")
    case True
    then show ?thesis by (subst dec_digits_rev.simps) simp
  next
    case False
    then have "10 \<le> m" using 1(2) by (auto simp: div_eq_0_iff)
    then have m: "max_string_digits 10 m = Suc (max_string_digits 10 (m div 10))" by (subst max_string_digits.simps) simp
    have "length (dec_digits_rev (n div 10)) \<le> Suc (max_string_digits 10 (m div 10))"
      using 1(1) [OF False, of "m div 10"] 1(2) by (simp add: div_le_mono)
    then show ?thesis using False m by (subst dec_digits_rev.simps) simp
  qed
qed

lemma max_string_sizes: "getMaxStringSize True (2 ^ 63 - 1) 10 = 20" "getMaxStringSize False (2 ^ 64 - 1) 10 = 20"
  by (simp_all add: getMaxStringSize_def max_string_digits.simps)

lemma sb_append_intmax_view:
  assumes "sb_wf b" "fresh_ok fresh" "sb_size b + 20 \<le> SIZE_MAX" "- (2 ^ 63) \<le> v" "v < 2 ^ 63"
  shows "\<exists>b'. sb_append_intmax fresh v b = Appended b' \<and> sb_wf b' \<and> sb_view b' = sb_view b @ dumpIntToDec_signed v"
proof -
  have "length (signed_digits_rev v) \<le> Suc (max_string_digits 10 (2 ^ 63))"
    unfolding signed_digits_eq by (rule length_dec_digits_rev) (use assms(4,5) in \<open>simp add: nat_le_iff abs_if\<close>)
  then have "length (if v < 0 then ''-'' else []) + length (signed_digits_rev v) \<le> 20" by (simp add: max_string_digits.simps)
  from sb_append_digits_view [OF assms(1,2,3) this] show ?thesis
    unfolding sb_append_intmax_def dumpIntToDec_signed_def max_string_sizes by simp
qed

lemma sb_append_uintmax_view:
  assumes "sb_wf b" "fresh_ok fresh" "sb_size b + 20 \<le> SIZE_MAX" "n < 2 ^ 64"
  shows "\<exists>b'. sb_append_uintmax fresh n b = Appended b' \<and> sb_wf b' \<and> sb_view b' = sb_view b @ rev (dec_digits_rev n)"
proof -
  have "length (dec_digits_rev n) \<le> Suc (max_string_digits 10 (2 ^ 64 - 1))"
    by (rule length_dec_digits_rev) (use assms(4) in simp)
  then have "length [] + length (dec_digits_rev n) \<le> 20" by (simp add: max_string_digits.simps)
  from sb_append_digits_view [OF assms(1,2,3) this] show ?thesis unfolding sb_append_uintmax_def max_string_sizes by simp
qed

text \<open>\<open>fromInt\<close> of every value of a 64 bit type is its decimal text.\<close>

lemma fromInt_decimal:
  assumes "fresh_ok fresh" "if is_signed then - (2 ^ 63) \<le> v \<and> v < 2 ^ 63 else 0 \<le> v \<and> v < 2 ^ 64"
  shows "fromInt fresh is_signed v = Some (dumpIntToDec_signed v)"
proof -
  have new: "sb_wf sb_new" "sb_size sb_new + 20 \<le> SIZE_MAX" "sb_view sb_new = []" by (simp_all add: sb_new_def sb_wf_def SIZE_MAX_def sb_view_def)
  show ?thesis
  proof (cases "0 \<le> v")
    case True
    then have "nat v < 2 ^ 64" using assms(2) by (auto simp: nat_less_iff split: if_splits)
    from sb_append_uintmax_view [OF new(1) assms(1) new(2) this] True new(3) show ?thesis
      by (auto simp: fromInt_def built_def sb_build_def Integers_def dumpIntToDec_signed_def signed_digits_eq)
  next
    case False
    then show ?thesis using sb_append_intmax_view [OF new(1) assms(1) new(2), of v] assms(2) new(3)
      by (auto simp: fromInt_def built_def sb_build_def split: if_splits)
  qed
qed

section \<open>Packets\<close>

text \<open>One fragment, several, or neither after the value was moved away.\<close>

datatype packet = Single string | Multiple "string list" | Moved

definition pk_new :: packet where
  "pk_new = Single []"

fun getOrConvertToMultiple :: "packet \<Rightarrow> packet" where
  "getOrConvertToMultiple (Multiple fs) = Multiple fs"
| "getOrConvertToMultiple (Single s) = Multiple (if length s \<noteq> 0 then [s] else [])"
| "getOrConvertToMultiple Moved = Multiple []"

fun pk_append_string :: "string \<Rightarrow> packet \<Rightarrow> packet" where
  "pk_append_string str (Multiple fs) = Multiple (fs @ [str])"
| "pk_append_string str (Single s) = (if length s = 0 then Single str else Multiple [s, str])"
| "pk_append_string str Moved = Single str"

text \<open>The packet and what is left of the other one.\<close>

fun pk_append :: "packet \<Rightarrow> packet \<Rightarrow> packet \<times> packet" where
  "pk_append (Multiple fs) (Multiple gs) = (Multiple (fs @ gs), Multiple [])"
| "pk_append (Multiple fs) (Single t) = (Multiple (fs @ [t]), Single [])"
| "pk_append (Multiple fs) Moved = (Multiple fs, Moved)"
| "pk_append (Single s) (Multiple gs) = (Multiple (s # gs), Moved)"
| "pk_append (Single s) (Single t) =
     (if length s = 0 then (Single t, Single [])
      else if length t \<noteq> 0 then (Multiple [s, t], Single [])
      else (Single s, Single t))"
| "pk_append (Single s) Moved = (Single s, Moved)"
| "pk_append Moved (Multiple gs) = (Multiple gs, Moved)"
| "pk_append Moved (Single t) = (Single t, Single [])"
| "pk_append Moved Moved = (Moved, Moved)"

fun pk_size :: "packet \<Rightarrow> nat" where
  "pk_size (Multiple fs) = foldl (\<lambda>size f. size + length f) 0 fs"
| "pk_size (Single s) = length s"
| "pk_size Moved = 0"

fun pk_segments :: "packet \<Rightarrow> nat" where
  "pk_segments (Multiple fs) = length fs"
| "pk_segments (Single s) = (if length s \<noteq> 0 then 1 else 0)"
| "pk_segments Moved = 0"

fun pk_empty :: "packet \<Rightarrow> bool" where
  "pk_empty (Multiple fs) \<longleftrightarrow> fs = []"
| "pk_empty (Single s) \<longleftrightarrow> length s = 0"
| "pk_empty Moved \<longleftrightarrow> True"

fun pk_toString :: "packet \<Rightarrow> string" where
  "pk_toString (Multiple fs) = concat (filter (\<lambda>f. length f > 0) fs)"
| "pk_toString (Single s) = s"
| "pk_toString Moved = []"

text \<open>\<open>operator<<\<close> of a packet to a builder.\<close>

fun pk_write :: "fresh_bytes \<Rightarrow> packet \<Rightarrow> string_builder \<Rightarrow> string_builder appended" where
  "pk_write fresh (Multiple fs) b =
     foldl (\<lambda>r f. case r of Appended b' \<Rightarrow> sb_append fresh f b' | _ \<Rightarrow> r)
       (Appended (sb_reserve fresh ((sb_size b + pk_size (Multiple fs)) mod 2 ^ 64) b)) fs"
| "pk_write fresh (Single s) b = sb_append fresh s b"
| "pk_write fresh Moved b = Appended b"

lemma concat_nonempty [simp]: "concat (filter (\<lambda>f. f \<noteq> []) fs) = concat fs"
  by (induction fs) auto

lemma pk_toString_Multiple [simp]: "pk_toString (Multiple fs) = concat fs"
  by simp

declare pk_toString.simps(1) [simp del]

lemma foldl_length: "foldl (\<lambda>size f. size + length f) n fs = n + length (concat fs)"
  by (induction fs arbitrary: n) auto

text \<open>
  Appending a string or a packet appends its bytes and leaves nothing in the packet that was moved from, whatever
  form the two packets have; the size is the number of bytes, and a packet that says it is empty has none.
\<close>

theorem packet_append_bytes:
  "pk_toString (pk_append_string s p) = pk_toString p @ s \<and>
   pk_toString (fst (pk_append p q)) = pk_toString p @ pk_toString q \<and> pk_toString (snd (pk_append p q)) = [] \<and>
   pk_toString (getOrConvertToMultiple p) = pk_toString p \<and> pk_size p = length (pk_toString p) \<and>
   (if pk_empty p then pk_size p = 0 else pk_segments p > 0)"
  by (cases p; cases q; simp add: foldl_length)

text \<open>A packet of empty fragments is not empty for \<open>Packet::empty\<close>, whose comment says \<open>size == 0\<close>.\<close>

lemma empty_fragments_not_empty:
  "\<not> pk_empty (pk_append_string [] (getOrConvertToMultiple pk_new))" "pk_size (pk_append_string [] (getOrConvertToMultiple pk_new)) = 0"
  by (simp_all add: pk_new_def)

lemma pk_write_fragments:
  assumes "sb_wf b" "fresh_ok fresh" "sb_size b + length (concat fs) \<le> SIZE_MAX"
  shows "\<exists>b'. foldl (\<lambda>r f. case r of Appended b' \<Rightarrow> sb_append fresh f b' | _ \<Rightarrow> r) (Appended b) fs = Appended b' \<and>
    sb_wf b' \<and> sb_view b' = sb_view b @ concat fs"
  using assms(1,3)
proof (induction fs arbitrary: b)
  case (Cons f fs)
  then obtain b1 where b1: "sb_append fresh f b = Appended b1" "sb_wf b1" "sb_view b1 = sb_view b @ f"
    using sb_append_view [OF Cons.prems(1) assms(2), of f] by auto
  have "sb_size b1 = sb_size b + length f" using arg_cong [OF b1(3), of length] length_sb_view b1(2) Cons.prems(1) by simp
  then show ?case using Cons.IH [OF b1(2)] Cons.prems(2) b1 by simp
qed simp

lemma pk_write_view:
  assumes "sb_wf b" "fresh_ok fresh" "sb_size b + pk_size p \<le> SIZE_MAX"
  shows "\<exists>b'. pk_write fresh p b = Appended b' \<and> sb_wf b' \<and> sb_view b' = sb_view b @ pk_toString p"
proof (cases p)
  case (Multiple fs)
  define n where "n = (sb_size b + pk_size (Multiple fs)) mod 2 ^ 64"
  note r = sb_reserve_cases [OF assms(1,2), of n]
  have "sb_size (sb_reserve fresh n b) + length (concat fs) \<le> SIZE_MAX" using assms(3) Multiple r(3) by (simp add: foldl_length)
  from pk_write_fragments [OF r(1) assms(2) this] r(4) show ?thesis unfolding Multiple pk_write.simps n_def [symmetric] by simp
qed (use assms sb_append_view in auto)

end
