(* ===== verification/JsonText.thy ===== *)
theory JsonText
  imports Sajson StringBuilder HttpUtils
begin

text \<open>
  JSON strings and numbers as \<open>jsonEncode\<close> and \<open>SharedString::fromInt\<close> write them, read by the parser: the parts of the
  round trip between \<open>JsonSerializer\<close> and \<open>JsonDeserializer\<close> below the structure.
\<close>

section \<open>Strings\<close>

text \<open>The texts the parser takes over: a sequence of what it accepts as one character of UTF-8.\<close>

function utf8_text :: "string \<Rightarrow> bool" where
  "utf8_text s = (s = [] \<or> (case utf8_sequence s of SOk s' q \<Rightarrow> utf8_text s' | _ \<Rightarrow> False))"
  by pat_completeness auto
termination by (relation "measure length") (auto dest!: utf8_sequence_suffix)

declare utf8_text.simps [simp del]

lemma check_continuation_length: "check_continuation n s = SOk s' q \<Longrightarrow> length q = n"
  by (induction n s arbitrary: q rule: check_continuation.induct) (auto split: scan.splits if_splits)

lemma check_continuation_append: "list_all is_continuation q \<Longrightarrow> check_continuation (length q) (q @ x) = SOk x q"
  by (induction q) auto

text \<open>A character is accepted whatever follows it.\<close>

lemma utf8_sequence_append:
  assumes "utf8_sequence s = SOk s' q"
  shows "utf8_sequence (q @ x) = SOk x q" "\<exists>c r. q = c # r \<and> list_all is_continuation r \<and> (byte c < 128 \<longrightarrow> r = [])"
proof -
  obtain c t where s: "s = c # t" using assms by (cases s) (auto simp: utf8_sequence_def)
  define n :: nat where "n = (if byte c < 128 then 1 else if byte c < 224 then 2 else if byte c < 240 then 3 else if byte c < 248 then 4 else 0)"
  have eq: "utf8_sequence (c # u) = (if n = 0 then SErr ERROR_INVALID_UTF8 (c # u) else if length (c # u) < n then SErr ERROR_UNEXPECTED_END (c # u)
      else (case check_continuation (n - 1) u of SOk s' q \<Rightarrow> SOk s' (c # q) | SErr e s' \<Rightarrow> SErr e s' | SFault \<Rightarrow> SFault))" for u
    by (simp only: utf8_sequence_def list.case n_def [symmetric] Let_def)
  from assms [unfolded s eq] obtain r where r: "n \<noteq> 0" "check_continuation (n - 1) t = SOk s' r" "q = c # r"
    by (auto split: if_splits scan.splits)
  have len: "length r = n - 1" and cont: "list_all is_continuation r"
    using check_continuation_length [OF r(2)] check_continuation_suffix [OF r(2)] by auto
  then have "check_continuation (n - 1) (r @ x) = SOk x r" using check_continuation_append [OF cont] by simp
  then show "utf8_sequence (q @ x) = SOk x q" using r(1,3) len by (simp add: eq)
  have "byte c < 128 \<Longrightarrow> n = 1" by (simp add: n_def)
  then show "\<exists>c r. q = c # r \<and> list_all is_continuation r \<and> (byte c < 128 \<longrightarrow> r = [])" using r(3) len cont by auto
qed

text \<open>An escape written by the serializer stands for its character.\<close>

definition unicode_of :: "string \<Rightarrow> char \<Rightarrow> bool" where
  "unicode_of e c \<longleftrightarrow> (\<exists>h l a b. e = [CHR 0x5C, CHR ''u'', CHR ''0'', CHR ''0'', h, l] \<and> hex_value h = Some a \<and> hex_value l = Some b \<and>
     a < 8 \<and> byte c = 16 * a + b)"

lemma unicode_of_item:
  assumes "unicode_of e c"
  shows "string_item (e @ x) = SOk x [c]"
proof -
  obtain h l a b where e: "e = [CHR 0x5C, CHR ''u'', CHR ''0'', CHR ''0'', h, l]" "hex_value h = Some a" "hex_value l = Some b"
    "a < 8" "byte c = 16 * a + b" using assms by (auto simp: unicode_of_def)
  have b: "b < 16" using hex_value_less [OF e(3)] .
  have u: "read_hex ([CHR ''0'', CHR ''0'', h, l] @ x) = SOk x (of_nat (byte c))"
    using e(2,3,5) by (simp add: read_hex_def eval_nat_numeral hex_value_def byte_def push_bit_eq_mult)
  have "(of_nat n :: u32) < 0x80" if "n < 128" for n using that by (simp add: word_less_nat_alt unat_of_nat)
  from this [of "byte c"] have small: "(of_nat (byte c) :: u32) < 0x80" using e(4,5) b by simp
  then have "\<not> (0xD800 :: u32) \<le> of_nat (byte c)" by (simp add: word_le_nat_alt word_less_nat_alt)
  then have "unicode_escape ([CHR ''0'', CHR ''0'', h, l] @ x) = SOk x (of_nat (byte c))" using u by (simp add: unicode_escape_def)
  moreover have "unat (ucast (of_nat n :: u32) :: u8) = n" if "n < 128" for n
    using that by (simp add: unsigned_ucast_eq unsigned_of_nat take_bit_nat_eq_self)
  from this [of "byte c"] have "unat (ucast (of_nat (byte c) :: u32) :: u8) = byte c" using e(4,5) b by simp
  then have "byte_of (of_nat (byte c)) = c" by (simp add: byte_of_def char_of_u8_def)
  ultimately show ?thesis using small by (simp add: e(1) string_item_def simple_escape_def write_utf8_def)
qed

definition entry_decodes :: "char \<Rightarrow> string \<Rightarrow> bool" where
  "entry_decodes c e \<longleftrightarrow> json_must_escape c \<longrightarrow> (\<exists>d. e = [CHR 0x5C, d] \<and> simple_escape d = Some c) \<or> unicode_of e c"

lemma JsonEncodeMapping_decodes:
  "list_all2 entry_decodes (map char_of [0..<256]) (JsonEncodeMapping_lo @ JsonEncodeMapping_hi)"
  unfolding all_chars
  by (simp add: JsonEncodeMapping_lo_def JsonEncodeMapping_hi_def selves_def entry_decodes_def json_must_escape_def byte_def
      unicode_of_def simple_escape_def hex_value_def)

lemma escape_entry:
  assumes "json_must_escape c"
  shows "(\<exists>d. JsonEncodeMapping c = [CHR 0x5C, d] \<and> simple_escape d = Some c) \<or> unicode_of (JsonEncodeMapping c) c"
proof -
  have "entry_decodes (map char_of [0..<256] ! byte c) ((JsonEncodeMapping_lo @ JsonEncodeMapping_hi) ! byte c)"
    by (rule list_all2_nthD [OF JsonEncodeMapping_decodes]) simp
  then show ?thesis using assms by (simp add: JsonEncodeMapping_def entry_decodes_def)
qed

lemma escape_item:
  assumes "json_must_escape c"
  shows "string_item (JsonEncodeMapping c @ x) = SOk x [c]" "\<exists>r. JsonEncodeMapping c = CHR 0x5C # r"
  using escape_entry [OF assms] unicode_of_item [of "JsonEncodeMapping c" c x]
  by (auto simp: string_item_def unicode_of_def)

lemma json_self: "\<not> json_must_escape c \<Longrightarrow> JsonEncodeMapping c = [c]"
  using JsonEncodeMapping_rule [of c] by (simp add: json_entry_ok_def)

lemma decode_string_item:
  assumes "string_item s = SOk s' q" "s = c # r" "\<not> byte c < 0x20" "c \<noteq> CHR 0x22" "decode_string s' = SOk t p"
  shows "decode_string s = SOk t (q @ p)"
  using assms by (subst decode_string.simps) simp

text \<open>The parser decodes what \<open>jsonEncode\<close> writes between two quotes.\<close>

lemma decode_encoded:
  assumes "utf8_text s"
  shows "decode_string (jsonEncode s @ CHR 0x22 # x) = SOk x s"
  using assms
proof (induction s rule: utf8_text.induct)
  case (1 s)
  show ?case
  proof (cases "s = []")
    case True
    then show ?thesis by (simp add: jsonEncode_def json.encode_eq decode_string_quote)
  next
    case False
    then obtain s' q where q: "utf8_sequence s = SOk s' q" "utf8_text s'"
      using 1(2) by (subst (asm) utf8_text.simps) (auto split: scan.splits)
    have IH: "decode_string (jsonEncode s' @ CHR 0x22 # x) = SOk x s'" using 1(1) [OF q] .
    obtain c r where r: "q = c # r" "list_all is_continuation r" "byte c < 128 \<longrightarrow> r = []" using utf8_sequence_append(2) [OF q(1)] by blast
    have s: "s = q @ s'" using utf8_sequence_suffix [OF q(1)] by simp
    have app: "jsonEncode s = jsonEncode q @ jsonEncode s'" by (simp add: jsonEncode_def s json.encode_append)
    have self: "jsonEncode r = r"
      using r(2) by (induction r) (auto simp: jsonEncode_def json.encode_eq is_continuation_def json_must_escape_def byte_def intro!: json_self)
    show ?thesis
    proof (cases "json_must_escape c")
      case True
      then have "r = []" using r(3) by (auto simp: json_must_escape_def byte_def)
      then have enc: "jsonEncode s = JsonEncodeMapping c @ jsonEncode s'" using app r(1) by (simp add: jsonEncode_def json.encode_eq)
      obtain e where e: "JsonEncodeMapping c = CHR 0x5C # e" using escape_item(2) [OF True] by blast
      have "decode_string (jsonEncode s @ CHR 0x22 # x) = SOk x ([c] @ s')"
        unfolding enc append_assoc by (rule decode_string_item [OF escape_item(1) [OF True] _ _ _ IH]) (auto simp: e byte_def)
      then show ?thesis using \<open>r = []\<close> r(1) s by simp
    next
      case False
      have "jsonEncode q = q" using self r(1) json_self [OF False] by (simp add: jsonEncode_def json.encode_eq)
      moreover have "string_item (q @ y) = SOk y q" for y
        using utf8_sequence_append(1) [OF q(1)] False r(1) by (simp add: string_item_def json_must_escape_def)
      ultimately have "decode_string (jsonEncode s @ CHR 0x22 # x) = SOk x (q @ s')"
        unfolding app append_assoc by (intro decode_string_item [OF _ _ _ _ IH]) (use False r(1) in \<open>auto simp: json_must_escape_def\<close>)
      then show ?thesis by (simp add: s)
    qed
  qed
qed

section \<open>Integers\<close>

definition digits_value :: "int \<Rightarrow> string \<Rightarrow> int" where
  "digits_value = foldl (\<lambda>a c. 10 * a + digit_value c)"

lemma digits_value_ge: "list_all is_digit ds \<Longrightarrow> 0 \<le> a \<Longrightarrow> a \<le> digits_value a ds"
proof (induction ds arbitrary: a)
  case (Cons c ds)
  have "0 \<le> digit_value c" using Cons.prems digit_value_range by simp
  with Cons.IH [of "10 * a + digit_value c"] Cons.prems show ?case by (simp add: digits_value_def)
qed (simp add: digits_value_def)

lemma int_digits_small:
  assumes "list_all is_digit ds" "ds \<noteq> []" "0 \<le> a" "digits_value a ds \<le> 2147483559" "x \<noteq> []" "\<not> is_digit (hd x)"
  shows "int_digits fo (AInt a) (ds @ x) = SOk x (AInt (digits_value a ds))"
  using assms
proof (induction ds arbitrary: a)
  case (Cons c ds)
  let ?a = "10 * a + digit_value c"
  have d: "0 \<le> digit_value c" using Cons.prems digit_value_range by simp
  have v: "digits_value a (c # ds) = digits_value ?a ds" by (simp add: digits_value_def)
  have "?a \<le> 2147483559" using digits_value_ge [of ds ?a] Cons.prems d v by simp
  then have add: "add_digit fo (AInt a) (digit_value c) = AInt ?a" using d by (simp add: add_digit_def INT_MAX_def)
  show ?case
  proof (cases "ds = []")
    case True
    then show ?thesis using add Cons.prems by (simp add: digits_value_def)
  next
    case False
    with Cons have "int_digits fo (AInt ?a) (ds @ x) = SOk x (AInt (digits_value ?a ds))" using d v by simp
    then show ?thesis using False add Cons.prems v by (cases ds) simp_all
  qed
qed simp

lemma dec_digit: "k < 10 \<Longrightarrow> is_digit (dec_digits ! k) \<and> digit_value (dec_digits ! k) = int k"
  by (auto simp: dec_digits_def is_digit_def digit_value_def byte_def nth_Cons' eval_nat_numeral less_Suc_eq)

lemma dec_digits_rev_digits: "list_all is_digit (rev (dec_digits_rev n))"
  using dec_digits_rev_set dec_digit by (fastforce simp: list_all_iff)

lemma dec_digits_rev_value: "digits_value 0 (rev (dec_digits_rev n)) = int n"
proof (induction n rule: dec_digits_rev.induct)
  case (1 n)
  have "10 * int (n div 10) + int (n mod 10) = int n" by (metis mult_div_mod_eq of_nat_add of_nat_mult of_nat_numeral)
  with 1 show ?case using dec_digit [of "n mod 10"] by (subst dec_digits_rev.simps) (auto simp: digits_value_def)
qed

lemma dec_digits_rev_last: "n \<noteq> 0 \<Longrightarrow> last (dec_digits_rev n) \<noteq> CHR ''0''"
proof (induction n rule: dec_digits_rev.induct)
  case (1 n)
  show ?case
  proof (cases "n div 10 = 0")
    case True
    then have "n mod 10 \<noteq> 0" using 1(2) by simp
    then have "digit_value (dec_digits ! (n mod 10)) \<noteq> 0" using dec_digit [of "n mod 10"] by simp
    then show ?thesis using True by (subst dec_digits_rev.simps) (auto simp: digit_value_def byte_def)
  next
    case False
    then show ?thesis using 1(1) dec_digits_rev_nonempty by (subst dec_digits_rev.simps) simp
  qed
qed

text \<open>What may follow a number that is to be read as an integer.\<close>

definition ends_number :: "string \<Rightarrow> bool" where
  "ends_number x \<longleftrightarrow> x \<noteq> [] \<and> \<not> is_digit (hd x) \<and> hd x \<notin> {CHR ''.'', CHR ''e'', CHR ''E''}"

lemma integer_part_small:
  assumes "n \<le> 2147483559" "ends_number x"
  shows "integer_part fo (rev (dec_digits_rev n) @ x) = SOk x (AInt (int n))"
proof (cases "n = 0")
  case True
  then have "rev (dec_digits_rev n) = ''0''" by (subst dec_digits_rev.simps) (simp add: dec_digits_def)
  then show ?thesis using True assms(2) by (auto simp: integer_part_def ends_number_def)
next
  case False
  let ?ds = "rev (dec_digits_rev n)"
  obtain c r where c: "?ds = c # r" using dec_digits_rev_nonempty [of n] by (cases ?ds) auto
  then have "c = last (dec_digits_rev n)" by (metis hd_rev list.sel(1) dec_digits_rev_nonempty)
  then have "c \<noteq> CHR ''0''" using dec_digits_rev_last [OF False] by simp
  moreover have "is_digit c" using dec_digits_rev_digits [of n] c by simp
  moreover have "int_digits fo (AInt 0) (?ds @ x) = SOk x (AInt (int n))"
    using int_digits_small [OF dec_digits_rev_digits, of n 0 x fo] dec_digits_rev_value [of n] dec_digits_rev_nonempty [of n] assms
    by (auto simp: ends_number_def)
  ultimately show ?thesis using c by (simp add: integer_part_def)
qed

lemma scan_unsigned_small:
  assumes "n \<le> 2147483559" "ends_number x"
  shows "scan_unsigned fo (rev (dec_digits_rev n) @ x) = SOk x (AInt (int n))"
  using integer_part_small [OF assms] assms(2)
  by (cases x) (auto simp: scan_unsigned_def fraction_part_def exponent_part_def scale_number_def ends_number_def)

text \<open>The parser reads back the integers that fit its test for 32 bits.\<close>

lemma scan_dumped:
  assumes "\<bar>i\<bar> \<le> 2147483559" "ends_number x"
  shows "scan_number fo (dumpIntToDec_signed i @ x) = SOk x (AInt i)"
proof -
  let ?ds = "rev (dec_digits_rev (nat \<bar>i\<bar>))"
  obtain c r where c: "?ds = c # r" using dec_digits_rev_nonempty [of "nat \<bar>i\<bar>"] by (cases ?ds) auto
  have "is_digit c" using dec_digits_rev_digits [of "nat \<bar>i\<bar>"] c by simp
  then have "c \<noteq> CHR ''-''" by (auto simp: is_digit_def byte_def)
  moreover have "scan_unsigned fo (?ds @ x) = SOk x (AInt \<bar>i\<bar>)"
    using scan_unsigned_small [of "nat \<bar>i\<bar>" x fo] assms by simp
  ultimately show ?thesis
    using c by (auto simp: scan_number_def dumpIntToDec_signed_def signed_digits_eq negate_number_def)
qed

end
