(* ===== verification/JsonSerializer.thy ===== *)
theory JsonSerializer
  imports JsonText
begin

text \<open>
  \<open>Serialize/JsonSerializer.hpp\<close>: \<open>JsonBuilder\<close> with its flag for the comma, the specialisations of \<open>JsonBuilderWriter\<close>
  and \<open>serializeJson\<close>.

  A value of a C++ type that can be written is a \<open>jmodel\<close>; a class is the list of the \<open>addMember\<close> calls between
  \<open>startObject\<close> and \<open>endObject\<close> of its \<open>dumpJson\<close>. \<open>SharedString::fromInt\<close> is the decimal text, by \<open>fromInt_decimal\<close>;
  \<open>SharedString::fromDouble\<close> is the parameter \<open>dbl\<close>.
\<close>

section \<open>Builder\<close>

record json_builder =
  jb_fragments :: "string list"
  jb_addPreviousComma :: bool

definition new_json_builder :: json_builder where
  "new_json_builder = \<lparr>jb_fragments = [], jb_addPreviousComma = False\<rparr>"

definition writeRaw :: "string \<Rightarrow> json_builder \<Rightarrow> json_builder" where
  "writeRaw s b = b\<lparr>jb_fragments := jb_fragments b @ [s]\<rparr>"

definition startObject :: "json_builder \<Rightarrow> json_builder" where
  "startObject b = (writeRaw ''{'' b)\<lparr>jb_addPreviousComma := False\<rparr>"

definition endObject :: "json_builder \<Rightarrow> json_builder" where
  "endObject b = (writeRaw ''}'' b)\<lparr>jb_addPreviousComma := True\<rparr>"

definition startArray :: "json_builder \<Rightarrow> json_builder" where
  "startArray b = (writeRaw ''['' b)\<lparr>jb_addPreviousComma := False\<rparr>"

definition endArray :: "json_builder \<Rightarrow> json_builder" where
  "endArray b = (writeRaw '']'' b)\<lparr>jb_addPreviousComma := True\<rparr>"

definition toPacket :: "json_builder \<Rightarrow> packet" where
  "toPacket b = Multiple (jb_fragments b)"

text \<open>The comma in front of an item or a member.\<close>

definition add_comma :: "json_builder \<Rightarrow> json_builder" where
  "add_comma b = (if jb_addPreviousComma b then writeRaw '','' b else b\<lparr>jb_addPreviousComma := True\<rparr>)"

definition write_string :: "string \<Rightarrow> json_builder \<Rightarrow> json_builder" where
  "write_string s b = writeRaw [CHR 0x22] (writeRaw (jsonEncode s) (writeRaw [CHR 0x22] b))"

text \<open>A key is encoded when it is written, or is a \<open>JsonMemberKey\<close> that was encoded before, with and without the comma.\<close>

datatype member_key = Key string | StaticKey string

fun getEncodedKey :: "string \<Rightarrow> string" where
  "getEncodedKey k = [CHR 0x22] @ k @ [CHR 0x22, CHR '':'']"

fun getEncodedKeyWithPreviousComma :: "string \<Rightarrow> string" where
  "getEncodedKeyWithPreviousComma k = [CHR '','', CHR 0x22] @ k @ [CHR 0x22, CHR '':'']"

fun write_key :: "member_key \<Rightarrow> json_builder \<Rightarrow> json_builder" where
  "write_key (Key k) b = writeRaw '':'' (write_string k (add_comma b))"
| "write_key (StaticKey k) b =
     (if jb_addPreviousComma b then writeRaw (getEncodedKeyWithPreviousComma k) b
      else (writeRaw (getEncodedKey k) b)\<lparr>jb_addPreviousComma := True\<rparr>)"

section \<open>Writers\<close>

datatype jmodel =
    MInt int
  | MDouble u64
  | MBool bool
  | MString string
  | MCollection "jmodel list"
  | MPointer "jmodel option"
  | MObject "(member_key \<times> jmodel) list"

fun write_model :: "(u64 \<Rightarrow> string) \<Rightarrow> jmodel \<Rightarrow> json_builder \<Rightarrow> json_builder"
  and addItems :: "(u64 \<Rightarrow> string) \<Rightarrow> jmodel list \<Rightarrow> json_builder \<Rightarrow> json_builder"
  and addMembers :: "(u64 \<Rightarrow> string) \<Rightarrow> (member_key \<times> jmodel) list \<Rightarrow> json_builder \<Rightarrow> json_builder" where
  "write_model dbl (MInt i) b = writeRaw (dumpIntToDec_signed i) b"
| "write_model dbl (MDouble d) b = writeRaw (dbl d) b"
| "write_model dbl (MBool v) b = writeRaw (if v then ''true'' else ''false'') b"
| "write_model dbl (MString s) b = write_string s b"
| "write_model dbl (MCollection vs) b = endArray (addItems dbl vs (startArray b))"
| "write_model dbl (MPointer None) b = writeRaw ''null'' b"
| "write_model dbl (MPointer (Some v)) b = write_model dbl v b"
| "write_model dbl (MObject ms) b = endObject (addMembers dbl ms (startObject b))"
| "addItems dbl [] b = b"
| "addItems dbl (v # vs) b = addItems dbl vs (write_model dbl v (add_comma b))"
| "addMembers dbl [] b = b"
| "addMembers dbl ((k, v) # ms) b = addMembers dbl ms (write_model dbl v (write_key k b))"

definition serializeJson :: "(u64 \<Rightarrow> string) \<Rightarrow> jmodel \<Rightarrow> packet" where
  "serializeJson dbl m = toPacket (write_model dbl m new_json_builder)"

section \<open>The text that is written\<close>

fun quoted :: "member_key \<Rightarrow> string" where
  "quoted (Key k) = [CHR 0x22] @ jsonEncode k @ [CHR 0x22]"
| "quoted (StaticKey k) = [CHR 0x22] @ k @ [CHR 0x22]"

fun js_text :: "(u64 \<Rightarrow> string) \<Rightarrow> jmodel \<Rightarrow> string"
  and js_items :: "(u64 \<Rightarrow> string) \<Rightarrow> jmodel list \<Rightarrow> string"
  and js_members :: "(u64 \<Rightarrow> string) \<Rightarrow> (member_key \<times> jmodel) list \<Rightarrow> string" where
  "js_text dbl (MInt i) = dumpIntToDec_signed i"
| "js_text dbl (MDouble d) = dbl d"
| "js_text dbl (MBool v) = (if v then ''true'' else ''false'')"
| "js_text dbl (MString s) = [CHR 0x22] @ jsonEncode s @ [CHR 0x22]"
| "js_text dbl (MCollection vs) = ''['' @ js_items dbl vs @ '']''"
| "js_text dbl (MPointer None) = ''null''"
| "js_text dbl (MPointer (Some v)) = js_text dbl v"
| "js_text dbl (MObject ms) = ''{'' @ js_members dbl ms @ ''}''"
| "js_items dbl [] = []"
| "js_items dbl (v # vs) = js_text dbl v @ (if vs = [] then [] else '','' @ js_items dbl vs)"
| "js_members dbl [] = []"
| "js_members dbl ((k, v) # ms) = quoted k @ '':'' @ js_text dbl v @ (if ms = [] then [] else '','' @ js_members dbl ms)"

abbreviation written :: "json_builder \<Rightarrow> string" where
  "written b \<equiv> concat (jb_fragments b)"

lemmas builder_defs = writeRaw_def startObject_def endObject_def startArray_def endArray_def add_comma_def write_string_def

lemma write_key_text:
  "written (write_key k b) = written b @ (if jb_addPreviousComma b then '','' else []) @ quoted k @ '':''"
  "jb_addPreviousComma (write_key k b)"
  by (cases k; simp add: builder_defs)+

text \<open>The builder writes the text with its commas in place, whatever was written before.\<close>

lemma write_text:
  "written (write_model dbl m b) = written b @ js_text dbl m \<and> (jb_addPreviousComma b \<longrightarrow> jb_addPreviousComma (write_model dbl m b))"
  "written (addItems dbl vs b) = written b @ (if jb_addPreviousComma b \<and> vs \<noteq> [] then '','' else []) @ js_items dbl vs"
  "written (addMembers dbl ms b) = written b @ (if jb_addPreviousComma b \<and> ms \<noteq> [] then '','' else []) @ js_members dbl ms"
proof (induction dbl m b and dbl vs b and dbl ms b rule: write_model_addItems_addMembers.induct)
  case (10 dbl v vs b)
  moreover have "jb_addPreviousComma (add_comma b)" "written (add_comma b) = written b @ (if jb_addPreviousComma b then '','' else [])"
    by (simp_all add: builder_defs)
  ultimately show ?case by simp
next
  case (12 dbl k v ms b)
  then show ?case using write_key_text [of k b] by simp
qed (simp_all add: builder_defs)

lemma serializeJson_text: "pk_toString (serializeJson dbl m) = js_text dbl m"
  using write_text(1) [of dbl m new_json_builder]
  by (simp add: serializeJson_def toPacket_def new_json_builder_def)

section \<open>Reading it back\<close>

declare dropWhile_eq_Nil_conv [simp del]

fun key_text :: "member_key \<Rightarrow> string" where
  "key_text (Key k) = k"
| "key_text (StaticKey k) = k"

fun key_ok :: "member_key \<Rightarrow> bool" where
  "key_ok (Key k) \<longleftrightarrow> utf8_text k"
| "key_ok (StaticKey k) \<longleftrightarrow> utf8_text k \<and> jsonEncode k = k"

text \<open>
  The values that JSON, as this parser reads it, can hold: integers below its bound for 32 bits, text in its UTF-8, and
  static keys that need no escape. Doubles are left out.
\<close>

fun storable :: "jmodel \<Rightarrow> bool"
  and storable_items :: "jmodel list \<Rightarrow> bool"
  and storable_members :: "(member_key \<times> jmodel) list \<Rightarrow> bool" where
  "storable (MInt i) \<longleftrightarrow> \<bar>i\<bar> \<le> 2147483559"
| "storable (MDouble d) \<longleftrightarrow> False"
| "storable (MBool v) \<longleftrightarrow> True"
| "storable (MString s) \<longleftrightarrow> utf8_text s"
| "storable (MCollection vs) \<longleftrightarrow> storable_items vs"
| "storable (MPointer None) \<longleftrightarrow> True"
| "storable (MPointer (Some v)) \<longleftrightarrow> storable v"
| "storable (MObject ms) \<longleftrightarrow> storable_members ms"
| "storable_items [] \<longleftrightarrow> True"
| "storable_items (v # vs) \<longleftrightarrow> storable v \<and> storable_items vs"
| "storable_members [] \<longleftrightarrow> True"
| "storable_members ((k, v) # ms) \<longleftrightarrow> key_ok k \<and> storable v \<and> storable_members ms"

text \<open>The JSON value of a model.\<close>

fun json_of :: "jmodel \<Rightarrow> json"
  and json_items :: "jmodel list \<Rightarrow> json list"
  and json_members :: "(member_key \<times> jmodel) list \<Rightarrow> (string \<times> json) list" where
  "json_of (MInt i) = JInt i"
| "json_of (MDouble d) = JDbl d"
| "json_of (MBool v) = (if v then JTrue else JFalse)"
| "json_of (MString s) = JStr s"
| "json_of (MCollection vs) = JArr (json_items vs)"
| "json_of (MPointer None) = JNull"
| "json_of (MPointer (Some v)) = json_of v"
| "json_of (MObject ms) = JObj (json_members ms)"
| "json_items [] = []"
| "json_items (v # vs) = json_of v # json_items vs"
| "json_members [] = []"
| "json_members ((k, v) # ms) = (key_text k, json_of v) # json_members ms"

text \<open>The first character of a value tells what it is.\<close>

lemma not_ws: "byte c \<noteq> 0x20 \<and> byte c \<noteq> 0x09 \<and> byte c \<noteq> 0x0A \<and> byte c \<noteq> 0x0D \<Longrightarrow> ws (c # r) = c # r"
  by (simp add: is_whitespace_iff)

lemma dump_first:
  "\<exists>c r. dumpIntToDec_signed i = c # r \<and> (is_digit c \<or> c = CHR ''-'')"
proof -
  obtain c r where "rev (dec_digits_rev (nat \<bar>i\<bar>)) = c # r" using dec_digits_rev_nonempty [of "nat \<bar>i\<bar>"] by (cases "rev (dec_digits_rev (nat \<bar>i\<bar>))") auto
  moreover from this have "is_digit c" using dec_digits_rev_digits [of "nat \<bar>i\<bar>"] by simp
  ultimately show ?thesis by (simp add: dumpIntToDec_signed_def signed_digits_eq)
qed

definition starts_value :: "string \<Rightarrow> bool" where
  "starts_value s \<longleftrightarrow> (\<exists>c r. s = c # r \<and> ws s = s \<and> c \<noteq> CHR '']'' \<and> c \<noteq> CHR ''}'')"

lemma digit_starts: "is_digit c \<or> c = CHR ''-'' \<Longrightarrow> starts_value (c # r)"
  unfolding starts_value_def by (auto simp: is_digit_def is_whitespace_iff byte_def)

lemma text_starts: "storable m \<Longrightarrow> starts_value (js_text dbl m @ x)"
proof (induction m rule: measure_induct_rule [of size])
  case (less m)
  show ?case
  proof (cases m)
    case (MInt i)
    obtain c r where c: "dumpIntToDec_signed i = c # r" "is_digit c \<or> c = CHR ''-''" using dump_first by blast
    show ?thesis unfolding MInt js_text.simps c(1) append_Cons by (rule digit_starts [OF c(2)])
  next
    case (MPointer p)
    then show ?thesis using less by (cases p) (auto simp: starts_value_def is_whitespace_iff byte_def)
  qed (use less.prems in \<open>auto simp: starts_value_def is_whitespace_iff byte_def\<close>)
qed

lemma starts_value_ws: "starts_value s \<Longrightarrow> ws s = s"
  by (auto simp: starts_value_def)

text \<open>The parser's view of one value, for each first character.\<close>

lemma rd_value_number:
  assumes "s = c # r" "is_digit c \<or> c = CHR ''-''"
  shows "rd_value fo (Suc n) s = map_scan json_of_number (scan_number fo s)"
proof -
  have "\<not> is_whitespace c \<and> c \<noteq> CHR 0x00 \<and> c \<noteq> CHR ''n'' \<and> c \<noteq> CHR ''f'' \<and> c \<noteq> CHR ''t''"
    using assms(2) by (auto simp: is_digit_def is_whitespace_iff byte_def)
  then show ?thesis using assms by simp
qed

lemma rd_value_array:
  assumes "starts_value s"
  shows "rd_value fo (Suc n) (CHR ''['' # s) = map_scan JArr (rd_elements fo n s)"
  using assms by (auto simp: starts_value_def is_digit_def is_whitespace_iff byte_def)

lemma rd_value_object:
  assumes "s = CHR 0x22 # r"
  shows "rd_value fo (Suc n) (CHR ''{'' # s) = map_scan JObj (rd_members fo n s)"
  using assms by (auto simp: is_digit_def is_whitespace_iff byte_def)

lemma rd_value_constants:
  "rd_value fo (Suc n) (''true'' @ x) = SOk x JTrue" "rd_value fo (Suc n) (''false'' @ x) = SOk x JFalse"
  "rd_value fo (Suc n) (''null'' @ x) = SOk x JNull" "rd_value fo (Suc n) (CHR 0x22 # s) = map_scan JStr (decode_string s)"
  "rd_value fo (Suc n) (''[]'' @ x) = SOk x (JArr [])" "rd_value fo (Suc n) (''{}'' @ x) = SOk x (JObj [])"
  by (simp_all add: is_digit_def is_whitespace_iff byte_def rd_literal_def)

lemma rd_key_quoted:
  assumes "key_ok k"
  shows "rd_key (quoted k @ '':'' @ x) = SOk x (key_text k)"
proof -
  have "decode_string (jsonEncode (key_text k) @ CHR 0x22 # CHR '':'' # x) = SOk (CHR '':'' # x) (key_text k)"
    using decode_encoded [of "key_text k"] assms by (cases k) auto
  then show ?thesis using assms by (cases k) (auto simp: rd_key_def is_whitespace_iff byte_def)
qed

lemma ends_number_closing: "c \<in> {CHR '','', CHR '']'', CHR ''}''} \<Longrightarrow> ends_number (c # x)"
  by (auto simp: ends_number_def is_digit_def byte_def)

lemma closing_ws: "c \<in> {CHR '','', CHR '']'', CHR ''}''} \<Longrightarrow> ws (c # x) = c # x"
  by (auto simp: is_whitespace_iff byte_def)

text \<open>A document has an object or an array as its root.\<close>

fun structured :: "jmodel \<Rightarrow> bool" where
  "structured (MCollection vs) \<longleftrightarrow> True"
| "structured (MObject ms) \<longleftrightarrow> True"
| "structured (MPointer (Some v)) \<longleftrightarrow> structured v"
| "structured m \<longleftrightarrow> False"

text \<open>The parser reads the text of a storable value as the value, with fuel for its length.\<close>

lemma rd_text:
  "storable m \<Longrightarrow> ends_number x \<or> structured m \<Longrightarrow> 2 * length (js_text dbl m) + 1 \<le> n \<Longrightarrow> rd_value fo n (js_text dbl m @ x) = SOk x (json_of m)"
  "storable_items vs \<Longrightarrow> vs \<noteq> [] \<Longrightarrow> 2 * length (js_items dbl vs) + 2 \<le> n \<Longrightarrow>
    rd_elements fo n (js_items dbl vs @ CHR '']'' # x) = SOk x (json_items vs)"
  "storable_members ms \<Longrightarrow> ms \<noteq> [] \<Longrightarrow> 2 * length (js_members dbl ms) + 2 \<le> n \<Longrightarrow>
    rd_members fo n (js_members dbl ms @ CHR ''}'' # x) = SOk x (json_members ms)"
proof (induction dbl m and dbl vs and dbl ms arbitrary: n x and n x and n x rule: js_text_js_items_js_members.induct)
  case (1 dbl i)
  then obtain k where n: "n = Suc k" by (cases n) auto
  obtain c r where c: "dumpIntToDec_signed i = c # r" "is_digit c \<or> c = CHR ''-''" using dump_first by blast
  have "rd_value fo (Suc k) (dumpIntToDec_signed i @ x) = map_scan json_of_number (scan_number fo (dumpIntToDec_signed i @ x))"
    using c by (intro rd_value_number [of _ c "r @ x"]) auto
  then show ?case using scan_dumped [of i x fo] 1 n by simp
next
  case (3 dbl v)
  then show ?case using rd_value_constants(1,2) [of fo _ x] by (cases n) auto
next
  case (4 dbl s)
  then show ?case using rd_value_constants(4) [of fo] decode_encoded [of s x] by (cases n) (auto simp del: rd_value.simps)
next
  case (5 dbl vs)
  then obtain k where n: "n = Suc k" by (cases n) auto
  show ?case
  proof (cases vs)
    case Nil
    then show ?thesis using rd_value_constants(5) [of fo k x] n by simp
  next
    case (Cons v ws)
    have "rd_elements fo k (js_items dbl vs @ CHR '']'' # x) = SOk x (json_items vs)" using 5 n Cons by (intro "5.IH") auto
    moreover have "starts_value (js_items dbl vs @ CHR '']'' # x)" using text_starts [of v dbl] 5(2) Cons by (auto simp: append_assoc)
    ultimately show ?thesis using rd_value_array [of _ fo k] n by (simp del: rd_value.simps)
  qed
next
  case (6 dbl)
  then show ?case using rd_value_constants(3) [of fo _ x] by (cases n) auto
next
  case (8 dbl ms)
  then obtain k where n: "n = Suc k" by (cases n) auto
  show ?case
  proof (cases ms)
    case Nil
    then show ?thesis using rd_value_constants(6) [of fo k x] n by simp
  next
    case (Cons m ms')
    have "rd_members fo k (js_members dbl ms @ CHR ''}'' # x) = SOk x (json_members ms)" using 8 n Cons by (intro "8.IH") auto
    moreover have "\<exists>r. js_members dbl ms @ CHR ''}'' # x = CHR 0x22 # r"
      unfolding Cons by (cases m; cases "fst m") auto
    ultimately show ?thesis using rd_value_object [of _ _ fo k] n by (auto simp del: rd_value.simps)
  qed
next
  case (10 dbl v vs)
  then obtain k where n: "n = Suc k" by (cases n) auto
  show ?case
  proof (cases vs)
    case Nil
    have "rd_value fo k (js_text dbl v @ CHR '']'' # x) = SOk (CHR '']'' # x) (json_of v)"
      using 10 n Nil ends_number_closing by (intro "10.IH") auto
    then show ?thesis using Nil n closing_ws [of "CHR '']''" x] by simp
  next
    case (Cons w ws)
    have "rd_value fo k (js_text dbl v @ CHR '','' # js_items dbl vs @ CHR '']'' # x) = SOk (CHR '','' # js_items dbl vs @ CHR '']'' # x) (json_of v)"
      using 10(3-) n Cons ends_number_closing by (intro "10.IH"(1)) auto
    moreover have "rd_elements fo k (js_items dbl vs @ CHR '']'' # x) = SOk x (json_items vs)"
      using 10(3-) n Cons by (intro "10.IH"(2)) auto
    ultimately show ?thesis using n Cons closing_ws [of "CHR '',''" "js_items dbl vs @ CHR '']'' # x"] by simp
  qed
next
  case (12 dbl k v ms)
  then obtain m where n: "n = Suc m" by (cases n) auto
  have key: "rd_key (quoted k @ '':'' @ y) = SOk y (key_text k)" for y using rd_key_quoted 12(3) by simp
  show ?case
  proof (cases ms)
    case Nil
    have "rd_value fo m (js_text dbl v @ CHR ''}'' # x) = SOk (CHR ''}'' # x) (json_of v)"
      using 12 n Nil ends_number_closing by (intro "12.IH") auto
    then show ?thesis using Nil n key closing_ws [of "CHR ''}''" x] by simp
  next
    case (Cons w ws)
    have "rd_value fo m (js_text dbl v @ CHR '','' # js_members dbl ms @ CHR ''}'' # x) = SOk (CHR '','' # js_members dbl ms @ CHR ''}'' # x) (json_of v)"
      using 12(3-) n Cons ends_number_closing by (intro "12.IH"(1)) auto
    moreover have "rd_members fo m (js_members dbl ms @ CHR ''}'' # x) = SOk x (json_members ms)"
      using 12(3-) n Cons by (intro "12.IH"(2)) auto
    ultimately show ?thesis using n Cons key closing_ws [of "CHR '',''" "js_members dbl ms @ CHR ''}'' # x"] by simp
  qed
qed simp_all

lemma structured_starts:
  "structured m \<Longrightarrow> \<exists>c r. js_text dbl m = c # r \<and> (c = CHR ''['' \<or> c = CHR ''{'') \<and> ws (js_text dbl m) = js_text dbl m"
  by (induction m rule: structured.induct) (auto simp: is_whitespace_iff byte_def)

lemma rd_document_text:
  assumes "storable m" "structured m"
  shows "rd_document fo (js_text dbl m) = SOk [] (json_of m)"
proof -
  define n where "n = 2 * length (js_text dbl m) + 1"
  have "rd_value fo n (js_text dbl m @ []) = SOk [] (json_of m)" by (rule rd_text(1)) (use assms n_def in auto)
  with structured_starts [OF assms(2), of dbl] show ?thesis unfolding rd_document_def n_def [symmetric] by fastforce
qed

text \<open>
  C12. What \<open>serializeJson\<close> writes for a collection or an object of integers, booleans, strings, pointers,
  collections and objects is a JSON text that the parser, with \<open>single_allocation\<close>, reads as the value that was
  written, provided that every integer is at most 2147483559 in absolute value (the parser reads larger ones as
  doubles), every string and key is in the UTF-8 the parser accepts, a key given as a constant needs no escape,
  and there are no doubles; the text is shorter than \<open>2^61 - 1\<close> bytes and memory for it is there.
\<close>

theorem json_serialize_parse:
  assumes "storable m" "structured m" "length (pk_toString (serializeJson dbl m)) < 2 ^ 61 - 1" "sort_ok std_sort"
    and "fresh (length (pk_toString (serializeJson dbl m))) \<noteq> None"
  shows "\<exists>d root. parse_single_allocation fresh fo std_sort (pk_toString (serializeJson dbl m)) = Some d \<and>
    document_is_valid d \<and> get_root (single_ops fresh None) d = Some root \<and> denotes root (json_of m)"
proof -
  let ?t = "js_text dbl m"
  have t: "length ?t < 2 ^ 61 - 1" "fresh (length ?t) \<noteq> None" using assms(3,5) by (simp_all add: serializeJson_text)
  have "reads_as (single_ops fresh None) (length ?t) (SOk [] (json_of m)) (parse_single_allocation fresh fo std_sort ?t)"
    using single_reads_as [OF t(1) assms(4), of fresh fo] rd_document_text [OF assms(1,2)] by simp
  from reads_as_SOk [OF this] single_room [of fresh fo std_sort ?t] t(2) show ?thesis by (auto simp: serializeJson_text)
qed

theorem json_serialize_parse_witness:
  "\<exists>d root. parse_single_allocation (\<lambda>n. Some (\<lambda>i. 0)) no_floats insertion_sort
      (pk_toString (serializeJson (\<lambda>d. []) (MObject [(StaticKey [], MCollection [MInt (- 12), MPointer None])]))) = Some d \<and>
    document_is_valid d \<and> get_root (single_ops (\<lambda>n. Some (\<lambda>i. 0)) None) d = Some root \<and>
    denotes root (JObj [([], JArr [JInt (- 12), JNull])])"
proof -
  let ?m = "MObject [(StaticKey [], MCollection [MInt (- 12), MPointer None])]"
  have "storable ?m" "structured ?m" by (simp_all add: utf8_text.simps jsonEncode_def json.encode_eq)
  moreover have "length (pk_toString (serializeJson (\<lambda>d. []) ?m)) < 2 ^ 61 - 1"
    unfolding serializeJson_text
    by (simp add: dumpIntToDec_signed_def signed_digits_eq dec_digits_rev.simps)
  ultimately show ?thesis using json_serialize_parse [of ?m "\<lambda>d. []" insertion_sort "\<lambda>n. Some (\<lambda>i. 0)" no_floats, OF _ _ _ insertion_sort_ok] by simp
qed

end
