(* ===== verification/JsonDeserializer.thy ===== *)
theory JsonDeserializer
  imports JsonSerializer
begin

text \<open>
  \<open>Serialize/JsonDeserializer.hpp\<close>: the specialisations of \<open>JsonValueConverter\<close> and \<open>deserializeJson\<close>, and the model
  class of the framework itself that uses both directions, \<open>HttpServerConfiguration\<close>.

  A converter takes the target and a value and returns whether it succeeded with the new target; \<open>None\<close> is an access
  outside the document. The casts of the numeric types are arguments.
\<close>

section \<open>Converters\<close>

type_synonym 'a converter = "'a \<Rightarrow> jvalue \<Rightarrow> (bool \<times> 'a) option"

definition convert_integer :: "(int \<Rightarrow> 'a) \<Rightarrow> 'a converter" where
  "convert_integer cast target value =
     (if jv_type value = TYPE_INTEGER then map_option (\<lambda>i. (True, cast i)) (get_integer_value value)
      else Some (False, target))"

definition convert_floating :: "(int \<Rightarrow> 'a) \<Rightarrow> (u64 \<Rightarrow> 'a) \<Rightarrow> 'a converter" where
  "convert_floating cast_int cast_double target value =
     (if jv_type value = TYPE_INTEGER then map_option (\<lambda>i. (True, cast_int i)) (get_integer_value value)
      else if jv_type value = TYPE_DOUBLE then map_option (\<lambda>d. (True, cast_double d)) (get_double_value value)
      else Some (False, target))"

definition convert_bool :: "bool converter" where
  "convert_bool target value =
     (if jv_type value = TYPE_TRUE then Some (True, True)
      else if jv_type value = TYPE_FALSE then Some (True, False)
      else Some (False, target))"

definition convert_string :: "string converter" where
  "convert_string target value =
     (if jv_type value = TYPE_STRING then map_option (\<lambda>s. (True, s)) (as_string value) else Some (False, target))"

fun convert_items :: "'a converter \<Rightarrow> 'a \<Rightarrow> jvalue \<Rightarrow> nat \<Rightarrow> nat \<Rightarrow> 'a list \<Rightarrow> bool \<Rightarrow> (bool \<times> 'a list) option" where
  "convert_items convert new value i 0 models result = Some (result, models)"
| "convert_items convert new value i (Suc k) models result =
     (case get_array_element value i of
        None \<Rightarrow> None
      | Some item \<Rightarrow>
          (case convert new item of
             None \<Rightarrow> None
           | Some (ok, model) \<Rightarrow> convert_items convert new value (i + 1) k (models @ [model]) (ok \<and> result)))"

definition convert_collection :: "'a converter \<Rightarrow> 'a \<Rightarrow> 'a list converter" where
  "convert_collection convert new models value =
     (if jv_type value = TYPE_ARRAY then
        (case get_length value of None \<Rightarrow> None | Some n \<Rightarrow> convert_items convert new value 0 (unat n) models True)
      else Some (False, models))"

definition convert_pointer :: "'a converter \<Rightarrow> 'a \<Rightarrow> 'a option converter" where
  "convert_pointer convert new target value =
     (if jv_type value = TYPE_NULL then Some (True, None)
      else map_option (\<lambda>(ok, m). (ok, Some m)) (convert (case target of None \<Rightarrow> new | Some t \<Rightarrow> t) value))"

definition convert_duration :: "(int \<Rightarrow> 'a) \<Rightarrow> 'a converter" where
  "convert_duration cast target value =
     (if jv_type value = TYPE_INTEGER then map_option (\<lambda>i. (True, cast i)) (get_integer_value value)
      else Some (False, target))"

text \<open>A class with the member function \<open>loadJson\<close>.\<close>

definition convert_model :: "'a converter \<Rightarrow> 'a converter" where
  "convert_model loadJson model value =
     (if jv_type value = TYPE_OBJECT then loadJson model value else Some (False, model))"

text \<open>\<open>value[key]\<close> with \<open>operator<<\<close>, which ignores whether the conversion succeeds.\<close>

definition load_member :: "'a converter \<Rightarrow> jvalue \<Rightarrow> string \<Rightarrow> 'a \<Rightarrow> 'a option" where
  "load_member convert value key target =
     (case get_value_of_key value key of None \<Rightarrow> None | Some w \<Rightarrow> map_option snd (convert target w))"

section \<open>Deserialisation\<close>

text \<open>The message of the \<open>DeserializeException\<close>, if there is one, and the model afterwards.\<close>

definition deserializeJson ::
  "fresh \<Rightarrow> float_ops \<Rightarrow> sorter \<Rightarrow> 'a converter \<Rightarrow> 'a \<Rightarrow> string \<Rightarrow> (string option \<times> 'a) option" where
  "deserializeJson fresh fo std_sort convert model str =
     (case parse_single_allocation fresh fo std_sort str of
        None \<Rightarrow> None
      | Some d \<Rightarrow>
          if \<not> document_is_valid d then
            (case d of Invalid er \<Rightarrow> map_option (\<lambda>message. (Some message, model)) (formatted_error_message er) | _ \<Rightarrow> None)
          else
            (case get_root (single_ops fresh None) d of
               None \<Rightarrow> None
             | Some root \<Rightarrow>
                 (case convert model root of
                    None \<Rightarrow> None
                  | Some (ok, model') \<Rightarrow> Some (if ok then None else Some ''convert failed'', model'))))"

section \<open>\<open>HttpServerConfiguration\<close>\<close>

record server_configuration =
  sc_listenAddresses :: "string list"
  sc_maxInitialRequestBytes :: u64
  sc_maxInitialRequestPackets :: u64
  sc_requestTimeout :: int
  sc_requestQueueSize :: u64
  sc_requestBodyQueueSize :: u64

definition default_configuration :: server_configuration where
  "default_configuration =
     \<lparr>sc_listenAddresses = [], sc_maxInitialRequestBytes = 524288, sc_maxInitialRequestPackets = 512,
      sc_requestTimeout = 60000, sc_requestQueueSize = 100, sc_requestBodyQueueSize = 50\<rparr>"

abbreviation load_size :: "jvalue \<Rightarrow> string \<Rightarrow> u64 \<Rightarrow> u64 option" where
  "load_size \<equiv> load_member (convert_integer word_of_int)"

definition configuration_loadJson :: "server_configuration converter" where
  "configuration_loadJson c value =
     Option.bind (load_member (convert_collection convert_string []) value ''listenAddresses'' (sc_listenAddresses c)) (\<lambda>a.
     Option.bind (load_size value ''maxInitialRequestBytes'' (sc_maxInitialRequestBytes c)) (\<lambda>b.
     Option.bind (load_size value ''maxInitialRequestPackets'' (sc_maxInitialRequestPackets c)) (\<lambda>p.
     Option.bind (load_member (convert_duration id) value ''requestTimeout'' (sc_requestTimeout c)) (\<lambda>t.
     Option.bind (load_size value ''requestQueueSize'' (sc_requestQueueSize c)) (\<lambda>q.
     Option.bind (load_size value ''requestBodyQueueSize'' (sc_requestBodyQueueSize c)) (\<lambda>r.
       Some (True,
         \<lparr>sc_listenAddresses = a, sc_maxInitialRequestBytes = b, sc_maxInitialRequestPackets = p,
          sc_requestTimeout = t, sc_requestQueueSize = q, sc_requestBodyQueueSize = r\<rparr>)))))))"

definition configuration_dumpJson :: "server_configuration \<Rightarrow> jmodel" where
  "configuration_dumpJson c = MObject
     [(StaticKey ''listenAddresses'', MCollection (map MString (sc_listenAddresses c))),
      (StaticKey ''maxInitialRequestBytes'', MInt (uint (sc_maxInitialRequestBytes c))),
      (StaticKey ''maxInitialRequestPackets'', MInt (uint (sc_maxInitialRequestPackets c))),
      (StaticKey ''requestTimeout'', MInt (sc_requestTimeout c)),
      (StaticKey ''requestQueueSize'', MInt (uint (sc_requestQueueSize c))),
      (StaticKey ''requestBodyQueueSize'', MInt (uint (sc_requestBodyQueueSize c)))]"

section \<open>Round trips\<close>

text \<open>Converters on the values they are made for.\<close>

lemma convert_integer_denotes: "denotes w (JInt i) \<Longrightarrow> convert_integer cast x w = Some (True, cast i)"
  by (drule denotes_int) (simp add: convert_integer_def)

lemma convert_duration_denotes: "denotes w (JInt i) \<Longrightarrow> convert_duration cast x w = Some (True, cast i)"
  by (drule denotes_int) (simp add: convert_duration_def)

lemma convert_string_denotes: "denotes w (JStr s) \<Longrightarrow> convert_string x w = Some (True, s)"
  using denotes_str by (simp add: convert_string_def)

text \<open>A collection gets one element for each of the array, behind those it had.\<close>

lemma convert_items_denotes:
  assumes "denotes v (JArr js)" "length ms = length js" "\<forall>i < length js. \<forall>w. denotes w (js ! i) \<longrightarrow> convert new w = Some (True, ms ! i)"
  shows "i + k = length js \<Longrightarrow> convert_items convert new v i k models True = Some (True, models @ drop i ms)"
proof (induction k arbitrary: i models)
  case (Suc k)
  then have i: "i < length js" by simp
  then obtain w where w: "get_array_element v i = Some w" "denotes w (js ! i)" using denotes_arr(3) [OF assms(1)] by blast
  then have "convert new w = Some (True, ms ! i)" using assms(3) i by blast
  moreover have "drop i ms = ms ! i # drop (i + 1) ms" using i assms(2) by (simp add: Cons_nth_drop_Suc)
  ultimately show ?case using Suc w by simp
qed (use assms(2) in simp)

lemma convert_collection_denotes:
  assumes "denotes v (JArr js)" "length ms = length js" "\<forall>i < length js. \<forall>w. denotes w (js ! i) \<longrightarrow> convert new w = Some (True, ms ! i)"
  shows "convert_collection convert new models v = Some (True, models @ ms)"
proof -
  obtain n where n: "get_length v = Some n" "unat n = length js" using denotes_arr(2) [OF assms(1)] by auto
  show ?thesis
    using convert_items_denotes [where convert = convert and new = new and i = 0 and k = "length js" and models = models, OF assms] n denotes_arr(1) [OF assms(1)]
    by (simp add: convert_collection_def)
qed

text \<open>The member of a key that occurs once.\<close>

lemma load_member_denotes:
  assumes "denotes v (JObj ms)" "distinct (map fst ms)" "(key, j) \<in> set ms" "\<And>w. denotes w j \<Longrightarrow> convert target w = Some (True, x)"
  shows "load_member convert v key target = Some x"
proof -
  have "key \<in> fst ` set ms" using assms(3) by force
  with get_value_of_key_correct [OF assms(1), of key] obtain w j' where
    w: "get_value_of_key v key = Some w" "(key, j') \<in> set ms" "denotes w j'" by auto
  then have "j' = j" using assms(2,3) by (meson eq_key_imp_eq_value)
  with w assms(4) show ?thesis by (simp add: load_member_def)
qed

text \<open>The configurations that survive: every number below the parser's bound, addresses in UTF-8.\<close>

definition storable_configuration :: "server_configuration \<Rightarrow> bool" where
  "storable_configuration c \<longleftrightarrow> list_all utf8_text (sc_listenAddresses c) \<and> \<bar>sc_requestTimeout c\<bar> \<le> 2147483559 \<and>
     uint (sc_maxInitialRequestBytes c) \<le> 2147483559 \<and> uint (sc_maxInitialRequestPackets c) \<le> 2147483559 \<and>
     uint (sc_requestQueueSize c) \<le> 2147483559 \<and> uint (sc_requestBodyQueueSize c) \<le> 2147483559"

lemma plain_letters:
  assumes "list_all (\<lambda>c. byte c < 128 \<and> \<not> json_must_escape c) s"
  shows "utf8_text s" "jsonEncode s = s"
proof -
  show "utf8_text s" using assms
  proof (induction s)
    case (Cons c s)
    then have "utf8_sequence (c # s) = SOk s [c]" by (simp add: utf8_sequence_def)
    then show ?case using Cons by (subst utf8_text.simps) simp
  qed (simp add: utf8_text.simps)
  show "jsonEncode s = s" using assms by (induction s) (auto simp: jsonEncode_def json.encode_eq json_self)
qed

lemma key_ok_plain: "list_all (\<lambda>c. byte c < 128 \<and> \<not> json_must_escape c) s \<Longrightarrow> key_ok (StaticKey s)"
  using plain_letters by simp

lemma storable_strings: "storable_items (map MString ss) \<longleftrightarrow> list_all utf8_text ss" "json_items (map MString ss) = map JStr ss"
  by (induction ss) auto

lemma configuration_keys:
  "list_all key_ok [StaticKey ''listenAddresses'', StaticKey ''maxInitialRequestBytes'', StaticKey ''maxInitialRequestPackets'',
     StaticKey ''requestTimeout'', StaticKey ''requestQueueSize'', StaticKey ''requestBodyQueueSize'']"
  unfolding list.pred_inject by (intro conjI TrueI key_ok_plain; simp add: json_must_escape_def byte_def)

lemma configuration_storable: "storable_configuration c \<Longrightarrow> storable (configuration_dumpJson c)"
  using configuration_keys
  by (simp add: configuration_dumpJson_def storable_configuration_def storable_strings del: key_ok.simps)

lemma configuration_members:
  "json_of (configuration_dumpJson c) = JObj
     [(''listenAddresses'', JArr (map JStr (sc_listenAddresses c))),
      (''maxInitialRequestBytes'', JInt (uint (sc_maxInitialRequestBytes c))),
      (''maxInitialRequestPackets'', JInt (uint (sc_maxInitialRequestPackets c))),
      (''requestTimeout'', JInt (sc_requestTimeout c)),
      (''requestQueueSize'', JInt (uint (sc_requestQueueSize c))),
      (''requestBodyQueueSize'', JInt (uint (sc_requestBodyQueueSize c)))]"
  by (simp add: configuration_dumpJson_def storable_strings)

lemma configuration_load:
  assumes "denotes v (json_of (configuration_dumpJson c))" "sc_listenAddresses c0 = []"
  shows "configuration_loadJson c0 v = Some (True, c)"
proof -
  note m = assms(1) [unfolded configuration_members]
  have size: "load_size v k x = Some w" if "(k, JInt (uint w)) \<in> set
     [(''listenAddresses'', JArr (map JStr (sc_listenAddresses c))),
      (''maxInitialRequestBytes'', JInt (uint (sc_maxInitialRequestBytes c))),
      (''maxInitialRequestPackets'', JInt (uint (sc_maxInitialRequestPackets c))),
      (''requestTimeout'', JInt (sc_requestTimeout c)),
      (''requestQueueSize'', JInt (uint (sc_requestQueueSize c))),
      (''requestBodyQueueSize'', JInt (uint (sc_requestBodyQueueSize c)))]" for k x w
    by (rule load_member_denotes [OF m _ that]) (simp_all add: convert_integer_denotes)
  have "load_member (convert_duration id) v ''requestTimeout'' x = Some (sc_requestTimeout c)" for x
    by (rule load_member_denotes [OF m, of _ "JInt (sc_requestTimeout c)"]) (simp_all add: convert_duration_denotes)
  moreover have "load_member (convert_collection convert_string []) v ''listenAddresses'' [] = Some ([] @ sc_listenAddresses c)"
    by (rule load_member_denotes [OF m, of _ "JArr (map JStr (sc_listenAddresses c))"])
      (use convert_collection_denotes [where convert = convert_string and new = "[]" and models = "[]"] in
        \<open>auto simp: convert_string_denotes\<close>)
  ultimately show ?thesis unfolding configuration_loadJson_def using assms(2) by (simp add: size)
qed

text \<open>
  C13. A server configuration whose numbers are all at most 2147483559 in absolute value and whose addresses are in
  the UTF-8 the parser accepts, written as JSON and read into a configuration with the default settings, is the
  same configuration again, and no error is reported. A larger limit is not read back: \<open>large_limit_ignored\<close>.
\<close>

theorem configuration_dump_load:
  assumes "storable_configuration c" "sort_ok std_sort"
    and "length (pk_toString (serializeJson dbl (configuration_dumpJson c))) < 2 ^ 61 - 1"
    and "fresh (length (pk_toString (serializeJson dbl (configuration_dumpJson c)))) \<noteq> None"
  shows "deserializeJson fresh fo std_sort (convert_model configuration_loadJson) default_configuration
    (pk_toString (serializeJson dbl (configuration_dumpJson c))) = Some (None, c)"
proof -
  let ?t = "js_text dbl (configuration_dumpJson c)"
  have t: "length ?t < 2 ^ 61 - 1" "fresh (length ?t) \<noteq> None" using assms(3,4) by (simp_all add: serializeJson_text)
  have st: "structured (configuration_dumpJson c)" by (simp add: configuration_dumpJson_def)
  have "reads_as (single_ops fresh None) (length ?t) (SOk [] (json_of (configuration_dumpJson c))) (parse_single_allocation fresh fo std_sort ?t)"
    using single_reads_as [OF t(1) assms(2), of fresh fo] rd_document_text [OF configuration_storable [OF assms(1)] st] by simp
  from reads_as_SOk [OF this] single_room [of fresh fo std_sort ?t] t(2) obtain d root where
    d: "parse_single_allocation fresh fo std_sort ?t = Some d" "document_is_valid d" "get_root (single_ops fresh None) d = Some root"
    "denotes root (json_of (configuration_dumpJson c))" by auto
  have "jv_type root = TYPE_OBJECT" using denotes_obj(1) d(4) unfolding configuration_members by blast
  then show ?thesis using d configuration_load [OF d(4), of default_configuration]
    by (simp add: deserializeJson_def serializeJson_text convert_model_def default_configuration_def)
qed

theorem configuration_dump_load_witness:
  "deserializeJson (\<lambda>n. Some (\<lambda>i. 0)) no_floats insertion_sort (convert_model configuration_loadJson) default_configuration
    (pk_toString (serializeJson (\<lambda>d. []) (configuration_dumpJson (default_configuration\<lparr>sc_requestQueueSize := 7\<rparr>)))) =
      Some (None, default_configuration\<lparr>sc_requestQueueSize := 7\<rparr>)"
proof (rule configuration_dump_load [OF _ insertion_sort_ok])
  show "storable_configuration (default_configuration\<lparr>sc_requestQueueSize := 7\<rparr>)"
    by (simp add: storable_configuration_def default_configuration_def)
  show "length (pk_toString (serializeJson (\<lambda>d. []) (configuration_dumpJson (default_configuration\<lparr>sc_requestQueueSize := 7\<rparr>)))) < 2 ^ 61 - 1"
    unfolding serializeJson_text
    by (simp add: configuration_dumpJson_def default_configuration_def dumpIntToDec_signed_def signed_digits_eq dec_digits_rev.simps)
qed simp

text \<open>A limit that the parser read as a double leaves the limit as it was, and nothing is reported.\<close>

lemma large_limit_ignored:
  assumes "get_value_of_key v key = Some w" "denotes w (JDbl d)"
  shows "load_size v key limit = Some limit"
  using assms denotes_dbl [OF assms(2)] by (simp add: load_member_def convert_integer_def)

end
