(* ===== verification/Container.thy ===== *)
theory Container
  imports Prelude
begin

text \<open>
  The dependency injection container: \<open>Container.hpp\<close>, \<open>Container.cpp\<close>, \<open>ServiceDescriptor.hpp\<close>,
  \<open>ServiceFactory.hpp\<close>, \<open>ServicePatcher.hpp\<close>, \<open>ServiceStorage.cpp\<close>.

  A service type (\<open>std::type_index\<close>) is a number and a service instance a value of type \<open>'v\<close>. The
  descriptors and their collections are objects that several owners refer to: an injection factory
  keeps the collections of its dependencies from the moment it is registered, a patched factory
  keeps the original descriptor. So both live in heaps, and the container maps a type to the address
  of its collection. \<open>ServiceDescriptor::cast\<close> does not check the type; a cast to a wrong type is
  the outcome \<open>Undefined\<close>.

  Factories run code of the client, which calls back into the container. Such code is a tree: it
  returns, throws, reads and changes the client's own state (\<open>'u\<close>), or asks the container for a
  service and goes on with the answer or with the exception it caught. Resolution recurses through
  the factories, and a circular dependency does not end; the fuel of \<open>getInstance\<close> bounds that
  recursion and \<^const>\<open>None\<close> says it was used up. C++ leaves the order in which the arguments of a
  constructor are evaluated to the compiler; it is a parameter (\<open>pg_order\<close>), as is
  \<open>std::is_copy_constructible_v\<close>.

  The locale \<open>resolver\<close> states what running a factory needs of the recursive calls. It is
  interpreted on \<open>getInstance\<close> twice: for the types of the descriptors, and for containers
  without circular dependencies.
\<close>

section \<open>Data\<close>

type_synonym service_type = nat

datatype ServiceLifetime = Transient | Persistent | StoragePersistent | OtherLifetime nat

text \<open>The exceptions: all but \<open>Raised\<close> are a \<open>ContainerException\<close>.\<close>

datatype service_error =
    NotRegistered service_type
  | RegisteredMultipleTimes service_type
  | PersistentNotCopyable service_type
  | StoragePersistentNotCopyable service_type
  | UnsupportedLifetime service_type nat
  | InvokedInstanceFactory service_type
  | GetInstanceError service_type service_error
  | BadAnyCast
  | Raised nat

fun is_ContainerException :: "service_error \<Rightarrow> bool" where
  "is_ContainerException BadAnyCast = False"
| "is_ContainerException (Raised _) = False"
| "is_ContainerException _ = True"

datatype 'a outcome = Val 'a | Exc service_error | Undefined

text \<open>Code of the client; the flag of \<open>Get\<close> says whether the storage the factory was given is
  passed on, or the container's own storage is used.\<close>

datatype ('v, 'u) code =
    Return 'v
  | Throw service_error
  | Effect "'u \<Rightarrow> 'u" "'u \<Rightarrow> ('v, 'u) code"
  | Get service_type bool "service_error + 'v \<Rightarrow> ('v, 'u) code"
  | GetMany service_type bool "service_error + 'v list \<times> nat \<Rightarrow> ('v, 'u) code"

text \<open>How a dependency type is filled: by one instance, a collection or a \<open>std::optional\<close>.\<close>

datatype dependency_kind = AsOne | AsCollection | AsOptional

datatype 'v argument = One 'v | Many "'v list"

text \<open>A dependency: its kind, its actual type and the address of the collection of that type.\<close>

type_synonym dependency = "dependency_kind \<times> service_type \<times> nat"

datatype ('v, 'u) service_factory =
    DependencyInjectionFactory "dependency list" "'v argument list \<Rightarrow> ('v, 'u) code"
  | FunctionFactory bool "('v, 'u) code"
  | ExceptionFactory
  | PatchedFactory nat bool "'v \<Rightarrow> ('v, 'u) code"

record ('v, 'u) service_descriptor =
  sd_type :: service_type
  sd_instance :: "'v option"
  sd_factory :: "('v, 'u) service_factory"
  sd_lifetime :: ServiceLifetime

type_synonym 'v service_storage = "nat \<Rightarrow> (service_type \<times> 'v) option"

record ('v, 'u) container =
  ct_descriptorsMap :: "service_type \<Rightarrow> nat option"
  ct_collections :: "nat list list"
  ct_heap :: "('v, 'u) service_descriptor list"
  ct_storages :: "nat \<Rightarrow> 'v service_storage"
  ct_world :: 'u

record program =
  pg_copyable :: "service_type \<Rightarrow> bool"
  pg_order :: "nat \<Rightarrow> nat list"

definition container_new :: "'u \<Rightarrow> ('v, 'u) container" where
  "container_new u = \<lparr>ct_descriptorsMap = (\<lambda>_. None), ct_collections = [], ct_heap = [],
     ct_storages = (\<lambda>_ _. None), ct_world = u\<rparr>"

abbreviation (input) builtin_storage :: nat where
  "builtin_storage \<equiv> 0"

section \<open>Storages and collections of descriptors\<close>

definition storage_get :: "nat \<Rightarrow> nat \<Rightarrow> ('v, 'u) container \<Rightarrow> (service_type \<times> 'v) option" where
  "storage_get sg key c = ct_storages c sg key"

definition storage_set ::
  "nat \<Rightarrow> nat \<Rightarrow> service_type \<times> 'v \<Rightarrow> ('v, 'u) container \<Rightarrow> ('v, 'u) container" where
  "storage_set sg key x c =
     c\<lparr>ct_storages := (ct_storages c)(sg := (ct_storages c sg)(key := Some x))\<rparr>"

definition storage_clear :: "nat \<Rightarrow> ('v, 'u) container \<Rightarrow> ('v, 'u) container" where
  "storage_clear sg c = c\<lparr>ct_storages := (ct_storages c)(sg := (\<lambda>_. None))\<rparr>"

definition getDescriptors :: "service_type \<Rightarrow> ('v, 'u) container \<Rightarrow> nat list option" where
  "getDescriptors ty c = map_option (\<lambda>a. ct_collections c ! a) (ct_descriptorsMap c ty)"

definition getOrCreateEmptyDescriptors ::
  "service_type \<Rightarrow> ('v, 'u) container \<Rightarrow> nat \<times> ('v, 'u) container" where
  "getOrCreateEmptyDescriptors ty c =
     (case ct_descriptorsMap c ty of
        Some a \<Rightarrow> (a, c)
      | None \<Rightarrow> (length (ct_collections c),
          c\<lparr>ct_descriptorsMap := (ct_descriptorsMap c)(ty \<mapsto> length (ct_collections c)),
            ct_collections := ct_collections c @ [[]]\<rparr>))"

text \<open>\<open>ServiceDescriptor::create\<close> and \<open>addDescriptor\<close>: the new object goes behind the others.\<close>

definition create_descriptor ::
  "('v, 'u) service_descriptor \<Rightarrow> ('v, 'u) container \<Rightarrow> nat \<times> ('v, 'u) container" where
  "create_descriptor d c = (length (ct_heap c), c\<lparr>ct_heap := ct_heap c @ [d]\<rparr>)"

definition addDescriptor ::
  "service_type \<Rightarrow> nat \<Rightarrow> ('v, 'u) container \<Rightarrow> ('v, 'u) container" where
  "addDescriptor ty p c =
     (let (a, c1) = getOrCreateEmptyDescriptors ty c
      in c1\<lparr>ct_collections := (ct_collections c1)[a := ct_collections c1 ! a @ [p]]\<rparr>)"

section \<open>Registration\<close>

fun getDependencyDescriptors ::
  "(dependency_kind \<times> service_type) list \<Rightarrow> ('v, 'u) container \<Rightarrow> dependency list \<times> ('v, 'u) container" where
  "getDependencyDescriptors [] c = ([], c)"
| "getDependencyDescriptors ((k, ty) # ds) c =
     (let (a, c1) = getOrCreateEmptyDescriptors ty c; (rest, c2) = getDependencyDescriptors ds c1
      in ((k, ty, a) # rest, c2))"

definition add_created ::
  "service_type \<Rightarrow> 'v option \<Rightarrow> ('v, 'u) service_factory \<Rightarrow> ServiceLifetime \<Rightarrow>
   ('v, 'u) container \<Rightarrow> ('v, 'u) container" where
  "add_created ty inst factory lifetime c =
     (let (p, c1) = create_descriptor
        \<lparr>sd_type = ty, sd_instance = inst, sd_factory = factory, sd_lifetime = lifetime\<rparr> c
      in addDescriptor ty p c1)"

definition add_implementation ::
  "service_type \<Rightarrow> (dependency_kind \<times> service_type) list \<Rightarrow> ('v argument list \<Rightarrow> ('v, 'u) code) \<Rightarrow>
   ServiceLifetime \<Rightarrow> ('v, 'u) container \<Rightarrow> ('v, 'u) container" where
  "add_implementation ty dependencyTypes construct lifetime c =
     (let (deps, c1) = getDependencyDescriptors dependencyTypes c
      in add_created ty None (DependencyInjectionFactory deps construct) lifetime c1)"

definition add_instance ::
  "service_type \<Rightarrow> 'v \<Rightarrow> ('v, 'u) container \<Rightarrow> ('v, 'u) container" where
  "add_instance ty v c = add_created ty (Some v) ExceptionFactory Persistent c"

text \<open>The flag says whether the function takes the storage; a custom factory object is a function that does.\<close>

definition add_function ::
  "service_type \<Rightarrow> bool \<Rightarrow> ('v, 'u) code \<Rightarrow> ServiceLifetime \<Rightarrow> ('v, 'u) container \<Rightarrow> ('v, 'u) container" where
  "add_function ty withStorage func lifetime c =
     add_created ty None (FunctionFactory withStorage func) lifetime c"

text \<open>
  \<open>ServicePatcher::patch\<close>. The loop moves the function in every iteration, so the descriptor at
  index \<open>i\<close> gets what the function is after \<open>i\<close> moves: \<open>funcs i\<close>.
\<close>

fun patch_loop ::
  "service_type \<Rightarrow> bool \<Rightarrow> (nat \<Rightarrow> 'v \<Rightarrow> ('v, 'u) code) \<Rightarrow> nat \<Rightarrow> nat list \<Rightarrow> nat list \<Rightarrow>
   ('v, 'u) container \<Rightarrow> nat list \<times> ('v, 'u) container" where
  "patch_loop ty withStorage funcs i patched [] c = (patched, c)"
| "patch_loop ty withStorage funcs i patched (original # rest) c =
     (let lifetime = sd_lifetime (ct_heap c ! original);
          (p, c1) = create_descriptor
            \<lparr>sd_type = ty, sd_instance = None,
             sd_factory = PatchedFactory original withStorage (funcs i), sd_lifetime = lifetime\<rparr> c
      in patch_loop ty withStorage funcs (Suc i) (patched @ [p]) rest c1)"

definition patch ::
  "service_type \<Rightarrow> bool \<Rightarrow> (nat \<Rightarrow> 'v \<Rightarrow> ('v, 'u) code) \<Rightarrow> ('v, 'u) container \<Rightarrow> nat \<times> ('v, 'u) container" where
  "patch ty withStorage funcs c =
     (case ct_descriptorsMap c ty of
        None \<Rightarrow> (0, c)
      | Some a \<Rightarrow>
          (let (patched, c1) = patch_loop ty withStorage funcs 0 [] (ct_collections c ! a) c
           in (length patched, c1\<lparr>ct_collections := (ct_collections c1)[a := patched]\<rparr>)))"

section \<open>Resolution\<close>

type_synonym ('v, 'u, 'a) resolution = "('a outcome \<times> ('v, 'u) container) option"

type_synonym ('v, 'u) resolver_fun =
  "service_type \<Rightarrow> nat \<Rightarrow> nat \<Rightarrow> ('v, 'u) container \<Rightarrow> ('v, 'u, 'v) resolution"

definition bind_resolution ::
  "('v, 'u, 'a) resolution \<Rightarrow> ('a \<Rightarrow> ('v, 'u) container \<Rightarrow> ('v, 'u, 'b) resolution) \<Rightarrow> ('v, 'u, 'b) resolution" where
  "bind_resolution m f =
     (case m of
        None \<Rightarrow> None
      | Some (Val x, c) \<Rightarrow> f x c
      | Some (Exc e, c) \<Rightarrow> Some (Exc e, c)
      | Some (Undefined, c) \<Rightarrow> Some (Undefined, c))"

definition get_from ::
  "('v, 'u) resolver_fun \<Rightarrow> service_type \<Rightarrow> nat \<Rightarrow> nat list option \<Rightarrow> ('v, 'u) container \<Rightarrow>
   ('v, 'u, 'v) resolution" where
  "get_from R ty sg descriptors c =
     (case descriptors of
        None \<Rightarrow> Some (Exc (NotRegistered ty), c)
      | Some [] \<Rightarrow> Some (Exc (NotRegistered ty), c)
      | Some [a] \<Rightarrow> R ty a sg c
      | Some _ \<Rightarrow> Some (Exc (RegisteredMultipleTimes ty), c))"

fun collection_add :: "dependency_kind \<Rightarrow> 'v list \<Rightarrow> 'v \<Rightarrow> 'v list" where
  "collection_add AsOptional xs v = [v]"
| "collection_add _ xs v = xs @ [v]"

fun getMany_loop ::
  "('v, 'u) resolver_fun \<Rightarrow> dependency_kind \<Rightarrow> service_type \<Rightarrow> nat \<Rightarrow> nat list \<Rightarrow> 'v list \<Rightarrow>
   ('v, 'u) container \<Rightarrow> ('v, 'u, 'v list) resolution" where
  "getMany_loop R k ty sg [] collection c = Some (Val collection, c)"
| "getMany_loop R k ty sg (a # as) collection c =
     bind_resolution (R ty a sg c) (\<lambda>v. getMany_loop R k ty sg as (collection_add k collection v))"

definition getMany_from ::
  "('v, 'u) resolver_fun \<Rightarrow> dependency_kind \<Rightarrow> service_type \<Rightarrow> nat \<Rightarrow> 'v list \<Rightarrow> nat list option \<Rightarrow>
   ('v, 'u) container \<Rightarrow> ('v, 'u, 'v list \<times> nat) resolution" where
  "getMany_from R k ty sg collection descriptors c =
     (case descriptors of
        None \<Rightarrow> Some (Val (collection, 0), c)
      | Some ds \<Rightarrow> bind_resolution (getMany_loop R k ty sg ds collection c)
                    (\<lambda>vs c. Some (Val (vs, length ds), c)))"

text \<open>The client's code, with \<open>sg\<close> the storage it was given.\<close>

definition answer ::
  "('v, 'u, 'a) resolution \<Rightarrow> (service_error + 'a \<Rightarrow> ('v, 'u) container \<Rightarrow> ('v, 'u, 'b) resolution) \<Rightarrow>
   ('v, 'u, 'b) resolution" where
  "answer m f =
     (case m of
        None \<Rightarrow> None
      | Some (Val x, c) \<Rightarrow> f (Inr x) c
      | Some (Exc e, c) \<Rightarrow> f (Inl e) c
      | Some (Undefined, c) \<Rightarrow> Some (Undefined, c))"

primrec run_code ::
  "('v, 'u) resolver_fun \<Rightarrow> nat \<Rightarrow> ('v, 'u) code \<Rightarrow> ('v, 'u) container \<Rightarrow> ('v, 'u, 'v) resolution" where
  "run_code R sg (Return v) = (\<lambda>c. Some (Val v, c))"
| "run_code R sg (Throw e) = (\<lambda>c. Some (Exc e, c))"
| "run_code R sg (Effect f k) =
     (\<lambda>c. run_code R sg (k (ct_world c)) (c\<lparr>ct_world := f (ct_world c)\<rparr>))"
| "run_code R sg (Get ty own k) =
     (\<lambda>c. answer (get_from R ty (if own then sg else builtin_storage) (getDescriptors ty c) c)
            (\<lambda>x. run_code R sg (k x)))"
| "run_code R sg (GetMany ty own k) =
     (\<lambda>c. answer (getMany_from R AsCollection ty (if own then sg else builtin_storage) []
                    (getDescriptors ty c) c)
            (\<lambda>x. run_code R sg (k x)))"

text \<open>\<open>getDependencyInstance\<close>, and the arguments in the compiler's order.\<close>

definition getDependencyInstance ::
  "('v, 'u) resolver_fun \<Rightarrow> nat \<Rightarrow> dependency \<Rightarrow> ('v, 'u) container \<Rightarrow> ('v, 'u, 'v argument) resolution" where
  "getDependencyInstance R sg = (\<lambda>(k, ty, a) c.
     case k of
       AsOne \<Rightarrow> bind_resolution (get_from R ty sg (Some (ct_collections c ! a)) c) (\<lambda>v c. Some (Val (One v), c))
     | _ \<Rightarrow> bind_resolution (getMany_from R k ty sg [] (Some (ct_collections c ! a)) c)
              (\<lambda>(vs, size) c. Some (Val (Many vs), c)))"

fun evaluate_arguments ::
  "('v, 'u) resolver_fun \<Rightarrow> nat \<Rightarrow> dependency list \<Rightarrow> nat list \<Rightarrow> (nat \<times> 'v argument) list \<Rightarrow>
   ('v, 'u) container \<Rightarrow> ('v, 'u, (nat \<times> 'v argument) list) resolution" where
  "evaluate_arguments R sg deps [] done c = Some (Val done, c)"
| "evaluate_arguments R sg deps (i # is) done c =
     bind_resolution (getDependencyInstance R sg (deps ! i) c)
       (\<lambda>x. evaluate_arguments R sg deps is ((i, x) # done))"

definition getServiceInstance ::
  "program \<Rightarrow> ('v, 'u) resolver_fun \<Rightarrow> nat \<Rightarrow> dependency list \<Rightarrow> ('v argument list \<Rightarrow> ('v, 'u) code) \<Rightarrow>
   ('v, 'u) container \<Rightarrow> ('v, 'u, 'v) resolution" where
  "getServiceInstance P R sg deps construct c =
     bind_resolution (evaluate_arguments R sg deps (pg_order P (length deps)) [] c)
       (\<lambda>done. run_code R sg (construct (map (\<lambda>i. the (map_of done i)) [0..<length deps])))"

text \<open>The function object a patched factory runs: the original descriptor's instance, wrapped.\<close>

definition run_patched ::
  "('v, 'u) resolver_fun \<Rightarrow> service_type \<Rightarrow> nat \<Rightarrow> nat \<Rightarrow> bool \<Rightarrow> ('v \<Rightarrow> ('v, 'u) code) \<Rightarrow>
   ('v, 'u) container \<Rightarrow> ('v, 'u, 'v) resolution" where
  "run_patched R ty sg original withStorage func c =
     bind_resolution (R ty original sg c)
       (\<lambda>v. run_code R (if withStorage then sg else builtin_storage) (func v))"

definition run_factory ::
  "program \<Rightarrow> ('v, 'u) resolver_fun \<Rightarrow> service_type \<Rightarrow> nat \<Rightarrow> ('v, 'u) service_factory \<Rightarrow>
   ('v, 'u) container \<Rightarrow> ('v, 'u, 'v) resolution" where
  "run_factory P R ty sg factory c =
     (case factory of
        DependencyInjectionFactory deps construct \<Rightarrow> getServiceInstance P R sg deps construct c
      | FunctionFactory withStorage func \<Rightarrow>
          run_code R (if withStorage then sg else builtin_storage) func c
      | ExceptionFactory \<Rightarrow> Some (Exc (InvokedInstanceFactory ty), c)
      | PatchedFactory original withStorage func \<Rightarrow> run_patched R ty sg original withStorage func c)"

text \<open>The handlers of \<open>getInstance\<close>: a \<open>ContainerException\<close> goes on, others are wrapped.\<close>

definition rethrow :: "service_type \<Rightarrow> ('v, 'u, 'a) resolution \<Rightarrow> ('v, 'u, 'a) resolution" where
  "rethrow ty m =
     (case m of
        Some (Exc e, c) \<Rightarrow> Some (Exc (if is_ContainerException e then e else GetInstanceError ty e), c)
      | _ \<Rightarrow> m)"

definition set_instance :: "nat \<Rightarrow> 'v \<Rightarrow> ('v, 'u) container \<Rightarrow> ('v, 'u) container" where
  "set_instance a v c = c\<lparr>ct_heap := (ct_heap c)[a := (ct_heap c ! a)\<lparr>sd_instance := Some v\<rparr>]\<rparr>"

definition instance_step ::
  "program \<Rightarrow> ('v, 'u) resolver_fun \<Rightarrow> ('v, 'u) resolver_fun" where
  "instance_step P R ty a sg c =
     (if \<not> (a < length (ct_heap c) \<and> sd_type (ct_heap c ! a) = ty) then Some (Undefined, c)
      else
        (let d = ct_heap c ! a
         in rethrow ty
              (case sd_lifetime d of
                 Persistent \<Rightarrow>
                   (if pg_copyable P ty then
                      (case sd_instance d of
                         Some v \<Rightarrow> Some (Val v, c)
                       | None \<Rightarrow> bind_resolution (run_factory P R ty sg (sd_factory d) c)
                                   (\<lambda>v c1. Some (Val v, set_instance a v c1)))
                    else Some (Exc (PersistentNotCopyable ty), c))
               | Transient \<Rightarrow> run_factory P R ty sg (sd_factory d) c
               | StoragePersistent \<Rightarrow>
                   (if pg_copyable P ty then
                      (case storage_get sg a c of
                         None \<Rightarrow> bind_resolution (run_factory P R ty sg (sd_factory d) c)
                                   (\<lambda>v c1. Some (Val v, storage_set sg a (ty, v) c1))
                       | Some (ty', v) \<Rightarrow>
                           if ty' = ty then Some (Val v, c) else Some (Exc BadAnyCast, c))
                    else Some (Exc (StoragePersistentNotCopyable ty), c))
               | OtherLifetime n \<Rightarrow> Some (Exc (UnsupportedLifetime ty n), c))))"

fun getInstance :: "program \<Rightarrow> nat \<Rightarrow> ('v, 'u) resolver_fun" where
  "getInstance P 0 ty a sg c = None"
| "getInstance P (Suc n) ty a sg c = instance_step P (getInstance P n) ty a sg c"

definition container_get ::
  "program \<Rightarrow> nat \<Rightarrow> service_type \<Rightarrow> nat \<Rightarrow> ('v, 'u) container \<Rightarrow> ('v, 'u, 'v) resolution" where
  "container_get P fuel ty sg c = get_from (getInstance P fuel) ty sg (getDescriptors ty c) c"

definition container_getMany ::
  "program \<Rightarrow> nat \<Rightarrow> dependency_kind \<Rightarrow> service_type \<Rightarrow> nat \<Rightarrow> 'v list \<Rightarrow> ('v, 'u) container \<Rightarrow>
   ('v, 'u, 'v list \<times> nat) resolution" where
  "container_getMany P fuel k ty sg collection c =
     getMany_from (getInstance P fuel) k ty sg collection (getDescriptors ty c) c"

section \<open>What running a factory needs of the recursive calls\<close>

text \<open>Resolution changes instances and storages only.\<close>

definition same_shape :: "('v, 'u) container \<Rightarrow> ('v, 'u) container \<Rightarrow> bool" where
  "same_shape c c' \<longleftrightarrow> ct_descriptorsMap c' = ct_descriptorsMap c \<and> ct_collections c' = ct_collections c \<and>
     map (\<lambda>d. d\<lparr>sd_instance := None\<rparr>) (ct_heap c') = map (\<lambda>d. d\<lparr>sd_instance := None\<rparr>) (ct_heap c)"

definition descriptors_of :: "service_type \<Rightarrow> ('v, 'u) container \<Rightarrow> nat list" where
  "descriptors_of ty c = (case getDescriptors ty c of None \<Rightarrow> [] | Some ds \<Rightarrow> ds)"

text \<open>Every descriptor the code may ask for satisfies \<open>A\<close>.\<close>

primrec code_ok :: "(service_type \<Rightarrow> nat \<Rightarrow> bool) \<Rightarrow> ('v, 'u) container \<Rightarrow> ('v, 'u) code \<Rightarrow> bool" where
  "code_ok A c (Return v) = True"
| "code_ok A c (Throw e) = True"
| "code_ok A c (Effect f k) = (\<forall>u. code_ok A c (k u))"
| "code_ok A c (Get ty own k) = ((\<forall>a \<in> set (descriptors_of ty c). A ty a) \<and> (\<forall>x. code_ok A c (k x)))"
| "code_ok A c (GetMany ty own k) = ((\<forall>a \<in> set (descriptors_of ty c). A ty a) \<and> (\<forall>x. code_ok A c (k x)))"

definition dependency_ok :: "(service_type \<Rightarrow> nat \<Rightarrow> bool) \<Rightarrow> ('v, 'u) container \<Rightarrow> dependency \<Rightarrow> bool" where
  "dependency_ok A c = (\<lambda>(k, ty, a). \<forall>b \<in> set (ct_collections c ! a). A ty b)"

definition factory_ok ::
  "program \<Rightarrow> (service_type \<Rightarrow> nat \<Rightarrow> bool) \<Rightarrow> ('v, 'u) container \<Rightarrow> service_type \<Rightarrow> ('v, 'u) service_factory \<Rightarrow> bool" where
  "factory_ok P A c ty f =
     (case f of
        DependencyInjectionFactory deps construct \<Rightarrow>
          (\<forall>i \<in> set (pg_order P (length deps)). i < length deps) \<and> (\<forall>d \<in> set deps. dependency_ok A c d) \<and>
          (\<forall>xs. code_ok A c (construct xs))
      | FunctionFactory withStorage func \<Rightarrow> code_ok A c func
      | ExceptionFactory \<Rightarrow> True
      | PatchedFactory original withStorage func \<Rightarrow> A ty original \<and> (\<forall>v. code_ok A c (func v)))"

text \<open>
  The calls \<open>R\<close> keep the relation \<open>Q\<close> between the container before and after, on the descriptors
  that satisfy \<open>A\<close> and as long as the invariant \<open>I\<close> holds; they cast only to right types, and if
  \<open>returns\<close> is set they return.
\<close>

definition well_resolution ::
  "(('v, 'u) container \<Rightarrow> ('v, 'u) container \<Rightarrow> bool) \<Rightarrow> bool \<Rightarrow> ('v, 'u) container \<Rightarrow> ('v, 'u, 'a) resolution \<Rightarrow> bool" where
  "well_resolution Q returns c m =
     (case m of None \<Rightarrow> \<not> returns | Some (x, c') \<Rightarrow> Q c c' \<and> x \<noteq> Undefined)"

lemma well_resolution_simps [simp]:
  "well_resolution Q returns c None \<longleftrightarrow> \<not> returns"
  "well_resolution Q returns c (Some (x, c')) \<longleftrightarrow> Q c c' \<and> x \<noteq> Undefined"
  by (simp_all add: well_resolution_def)

lemma well_rethrow: "well_resolution Q returns c (rethrow ty m) = well_resolution Q returns c m"
proof (cases m)
  case (Some p)
  obtain x c' where "p = (x, c')" by (cases p)
  with Some show ?thesis by (cases x) (simp_all add: rethrow_def)
qed (simp add: rethrow_def)

locale resolver =
  fixes R :: "('v, 'u) resolver_fun"
    and c0 :: "('v, 'u) container"
    and A :: "service_type \<Rightarrow> nat \<Rightarrow> bool"
    and I :: "('v, 'u) container \<Rightarrow> bool"
    and Q :: "('v, 'u) container \<Rightarrow> ('v, 'u) container \<Rightarrow> bool"
    and returns :: bool
  assumes Q_refl: "Q c c"
    and Q_trans: "Q c c' \<Longrightarrow> Q c' c'' \<Longrightarrow> Q c c''"
    and Q_world: "Q c (c\<lparr>ct_world := u\<rparr>)"
    and I_Q: "I c \<Longrightarrow> Q c c' \<Longrightarrow> I c'"
    and I_shape: "I c \<Longrightarrow> same_shape c0 c"
    and R_None: "I c \<Longrightarrow> A ty a \<Longrightarrow> R ty a sg c = None \<Longrightarrow> \<not> returns"
    and R_Some: "I c \<Longrightarrow> A ty a \<Longrightarrow> R ty a sg c = Some (x, c') \<Longrightarrow> Q c c' \<and> x \<noteq> Undefined"
begin

abbreviation well :: "('v, 'u) container \<Rightarrow> ('v, 'u, 'a) resolution \<Rightarrow> bool" where
  "well \<equiv> well_resolution Q returns"

lemma well_R: "I c \<Longrightarrow> A ty a \<Longrightarrow> well c (R ty a sg c)"
  using R_None [of c ty a sg] R_Some [of c ty a sg] by (cases "R ty a sg c") auto

lemma well_trans: "Q c c' \<Longrightarrow> well c' m \<Longrightarrow> well c m"
  by (cases m) (auto intro: Q_trans)

lemma well_bind:
  assumes "I c" and "well c m" and "\<And>x c'. Q c c' \<Longrightarrow> I c' \<Longrightarrow> well c' (f x c')"
  shows "well c (bind_resolution m f)"
proof (cases m)
  case None
  with assms(2) show ?thesis by (simp add: bind_resolution_def)
next
  case (Some p)
  obtain x c' where p: "p = (x, c')" by (cases p)
  with Some assms(2) have "Q c c'" and x: "x \<noteq> Undefined" by simp_all
  with assms(1) have "I c'" by (blast intro: I_Q)
  with \<open>Q c c'\<close> x show ?thesis
    by (cases x) (auto simp: Some p bind_resolution_def intro: well_trans assms(3))
qed

lemma well_answer:
  assumes "I c" and "well c m" and "\<And>x c'. Q c c' \<Longrightarrow> I c' \<Longrightarrow> well c' (f x c')"
  shows "well c (answer m f)"
proof (cases m)
  case None
  with assms(2) show ?thesis by (simp add: answer_def)
next
  case (Some p)
  obtain x c' where p: "p = (x, c')" by (cases p)
  with Some assms(2) have "Q c c'" and x: "x \<noteq> Undefined" by simp_all
  with assms(1) have "I c'" by (blast intro: I_Q)
  with \<open>Q c c'\<close> x show ?thesis
    by (cases x) (auto simp: Some p answer_def intro: well_trans assms(3))
qed

lemma well_get_from:
  assumes "I c" and "\<And>ds a. descriptors = Some ds \<Longrightarrow> a \<in> set ds \<Longrightarrow> A ty a"
  shows "well c (get_from R ty sg descriptors c)"
  using assms by (auto simp: get_from_def Q_refl well_R split: option.split list.split)

lemma well_getMany_loop:
  assumes "I c" and "\<And>a. a \<in> set ds \<Longrightarrow> A ty a"
  shows "well c (getMany_loop R k ty sg ds xs c)"
  using assms
proof (induction ds arbitrary: c xs)
  case Nil
  then show ?case by (simp add: Q_refl)
next
  case (Cons a ds)
  show ?case unfolding getMany_loop.simps
    by (rule well_bind) (use Cons.prems in \<open>auto intro!: Cons.IH well_R\<close>)
qed

lemma well_getMany_from:
  assumes "I c" and "\<And>ds a. descriptors = Some ds \<Longrightarrow> a \<in> set ds \<Longrightarrow> A ty a"
  shows "well c (getMany_from R k ty sg xs descriptors c)"
proof (cases descriptors)
  case None
  then show ?thesis by (simp add: getMany_from_def Q_refl)
next
  case (Some ds)
  with assms show ?thesis
    by (auto simp: getMany_from_def Q_refl intro!: well_bind well_getMany_loop)
qed

lemma getDescriptors_shape: "I c \<Longrightarrow> getDescriptors ty c = getDescriptors ty c0"
  using I_shape [of c] by (simp add: getDescriptors_def same_shape_def)

lemma collections_shape: "I c \<Longrightarrow> ct_collections c = ct_collections c0"
  using I_shape [of c] by (simp add: same_shape_def)

lemma descriptors_ok:
  assumes "I c" and "\<forall>a \<in> set (descriptors_of ty c0). A ty a" and "getDescriptors ty c = Some ds"
    and "a \<in> set ds"
  shows "A ty a"
  using assms by (auto simp: descriptors_of_def getDescriptors_shape)

lemma well_code: "I c \<Longrightarrow> code_ok A c0 k \<Longrightarrow> well c (run_code R sg k c)"
proof (induction k arbitrary: c)
  case (Effect f k)
  have Q: "Q c (c\<lparr>ct_world := f (ct_world c)\<rparr>)" by (rule Q_world)
  have "well (c\<lparr>ct_world := f (ct_world c)\<rparr>) (run_code R sg (k (ct_world c)) (c\<lparr>ct_world := f (ct_world c)\<rparr>))"
    by (rule Effect.IH) (use Effect.prems I_Q [OF Effect.prems(1) Q] in auto)
  with Q show ?case by (auto intro: well_trans)
next
  case (Get ty own k)
  show ?case unfolding run_code.simps
    using Get.prems by (auto intro!: well_answer well_get_from Get.IH elim: descriptors_ok)
next
  case (GetMany ty own k)
  show ?case unfolding run_code.simps
    using GetMany.prems by (auto intro!: well_answer well_getMany_from GetMany.IH elim: descriptors_ok)
qed (auto simp: Q_refl)

lemma well_dependency:
  assumes "I c" and "dependency_ok A c0 d"
  shows "well c (getDependencyInstance R sg d c)"
proof -
  obtain k ty a where d: "d = (k, ty, a)" by (cases d)
  have ds: "\<And>b. b \<in> set (ct_collections c ! a) \<Longrightarrow> A ty b"
    using assms d by (auto simp: dependency_ok_def collections_shape)
  show ?thesis
    using assms(1) ds by (cases k)
      (auto simp: d getDependencyInstance_def Q_refl intro!: well_bind well_get_from well_getMany_from)
qed

lemma well_arguments:
  assumes "I c" and "\<forall>d \<in> set deps. dependency_ok A c0 d" and "\<forall>i \<in> set is. i < length deps"
  shows "well c (evaluate_arguments R sg deps is xs c)"
  using assms
proof (induction "is" arbitrary: c xs)
  case Nil
  then show ?case by (simp add: Q_refl)
next
  case (Cons i "is")
  show ?case unfolding evaluate_arguments.simps
    by (rule well_bind) (use Cons.prems in \<open>auto intro!: Cons.IH well_dependency\<close>)
qed

lemma well_factory:
  assumes "I c" and "factory_ok P A c0 ty f"
  shows "well c (run_factory P R ty sg f c)"
proof (cases f)
  case (DependencyInjectionFactory deps construct)
  with assms show ?thesis
    by (auto simp: run_factory_def factory_ok_def getServiceInstance_def
        intro!: well_bind well_arguments well_code)
next
  case (PatchedFactory original withStorage func)
  with assms show ?thesis
    by (auto simp: run_factory_def run_patched_def factory_ok_def intro!: well_bind well_R well_code)
qed (use assms in \<open>auto simp: run_factory_def factory_ok_def Q_refl intro: well_code\<close>)

end

section \<open>Types of the descriptors\<close>

definition typed_at :: "('v, 'u) container \<Rightarrow> service_type \<Rightarrow> nat \<Rightarrow> bool" where
  "typed_at c ty a \<longleftrightarrow> a < length (ct_heap c) \<and> sd_type (ct_heap c ! a) = ty"

definition storages_typed :: "('v, 'u) container \<Rightarrow> bool" where
  "storages_typed c \<longleftrightarrow> (\<forall>sg a ty v. ct_storages c sg a = Some (ty, v) \<longrightarrow> typed_at c ty a)"

definition factory_typed :: "('v, 'u) container \<Rightarrow> service_type \<Rightarrow> ('v, 'u) service_factory \<Rightarrow> bool" where
  "factory_typed c ty f =
     (case f of
        DependencyInjectionFactory deps construct \<Rightarrow> \<forall>(k, t, a) \<in> set deps. ct_descriptorsMap c t = Some a
      | PatchedFactory original withStorage func \<Rightarrow> typed_at c ty original
      | _ \<Rightarrow> True)"

definition container_ok :: "('v, 'u) container \<Rightarrow> bool" where
  "container_ok c \<longleftrightarrow>
     (\<forall>ty a. ct_descriptorsMap c ty = Some a \<longrightarrow> a < length (ct_collections c)) \<and>
     inj_on (ct_descriptorsMap c) {ty. ct_descriptorsMap c ty \<noteq> None} \<and>
     (\<forall>ty. \<forall>a \<in> set (descriptors_of ty c). typed_at c ty a) \<and>
     (\<forall>d \<in> set (ct_heap c). factory_typed c (sd_type d) (sd_factory d)) \<and>
     storages_typed c"

definition order_ok :: "program \<Rightarrow> bool" where
  "order_ok P \<longleftrightarrow> (\<forall>n. distinct (pg_order P n) \<and> set (pg_order P n) = {0..<n})"

definition keeps_types :: "('v, 'u) container \<Rightarrow> ('v, 'u) container \<Rightarrow> bool" where
  "keeps_types c c' \<longleftrightarrow> same_shape c c' \<and> (storages_typed c \<longrightarrow> storages_typed c')"

lemma same_shape_refl [simp]: "same_shape c c"
  by (simp add: same_shape_def)

lemma same_shape_trans: "same_shape c c' \<Longrightarrow> same_shape c' c'' \<Longrightarrow> same_shape c c''"
  by (simp add: same_shape_def)

lemma same_shape_heap:
  assumes "same_shape c c'"
  shows "length (ct_heap c') = length (ct_heap c)"
    and "a < length (ct_heap c) \<Longrightarrow> sd_type (ct_heap c' ! a) = sd_type (ct_heap c ! a)"
    and "a < length (ct_heap c) \<Longrightarrow> sd_factory (ct_heap c' ! a) = sd_factory (ct_heap c ! a)"
    and "a < length (ct_heap c) \<Longrightarrow> sd_lifetime (ct_heap c' ! a) = sd_lifetime (ct_heap c ! a)"
proof -
  have eq: "map (\<lambda>d. d\<lparr>sd_instance := None\<rparr>) (ct_heap c') = map (\<lambda>d. d\<lparr>sd_instance := None\<rparr>) (ct_heap c)"
    using assms by (simp add: same_shape_def)
  show len: "length (ct_heap c') = length (ct_heap c)" using map_eq_imp_length_eq [OF eq] .
  assume a: "a < length (ct_heap c)"
  with eq len have "(ct_heap c' ! a)\<lparr>sd_instance := None\<rparr> = (ct_heap c ! a)\<lparr>sd_instance := None\<rparr>"
    by (metis nth_map)
  then show "sd_type (ct_heap c' ! a) = sd_type (ct_heap c ! a)"
    and "sd_factory (ct_heap c' ! a) = sd_factory (ct_heap c ! a)"
    and "sd_lifetime (ct_heap c' ! a) = sd_lifetime (ct_heap c ! a)"
    by (metis service_descriptor.select_convs service_descriptor.surjective service_descriptor.update_convs(2))+
qed

lemma same_shape_typed: "same_shape c c' \<Longrightarrow> typed_at c' ty a = typed_at c ty a"
  using same_shape_heap [of c c'] by (auto simp: typed_at_def)

lemma update_fields [simp]:
  "ct_storages (set_instance a v c) = ct_storages c"
  "ct_storages (storage_clear sg c) = (ct_storages c)(sg := (\<lambda>_. None))"
  "ct_storages (storage_set sg a x c) = (ct_storages c)(sg := (ct_storages c sg)(a := Some x))"
  "ct_heap (storage_clear sg c) = ct_heap c"
  "ct_heap (storage_set sg a x c) = ct_heap c"
  by (simp_all add: set_instance_def storage_clear_def storage_set_def)

lemma same_shape_instance [simp]: "same_shape c (set_instance a v c)"
proof (cases "a < length (ct_heap c)")
  case True
  then have "map (\<lambda>d. d\<lparr>sd_instance := None\<rparr>) ((ct_heap c)[a := (ct_heap c ! a)\<lparr>sd_instance := Some v\<rparr>]) =
      map (\<lambda>d. d\<lparr>sd_instance := None\<rparr>) (ct_heap c)"
    by (auto simp: list_eq_iff_nth_eq nth_list_update)
  then show ?thesis by (simp add: same_shape_def set_instance_def)
next
  case False
  then have "(ct_heap c)[a := d] = ct_heap c" for d by (simp add: list_update_beyond)
  then show ?thesis by (simp add: same_shape_def set_instance_def)
qed

lemma same_shape_updates [simp]:
  "same_shape c (c\<lparr>ct_world := u\<rparr>)"
  "same_shape c (storage_set sg a x c)"
  "same_shape c (storage_clear sg c)"
  by (simp_all add: same_shape_def storage_set_def storage_clear_def)

lemma keeps_types_refl: "keeps_types c c"
  by (simp add: keeps_types_def)

lemma keeps_types_trans: "keeps_types c c' \<Longrightarrow> keeps_types c' c'' \<Longrightarrow> keeps_types c c''"
  by (auto simp: keeps_types_def intro: same_shape_trans)

lemma keeps_types_updates:
  "keeps_types c (c\<lparr>ct_world := u\<rparr>)"
  "keeps_types c (storage_clear sg c)"
  "keeps_types c (set_instance a v c)"
  "typed_at c ty a \<Longrightarrow> keeps_types c (storage_set sg a (ty, v) c)"
proof -
  have typed: "typed_at (c\<lparr>ct_world := u\<rparr>) = typed_at c" "typed_at (storage_clear sg c) = typed_at c"
    "typed_at (set_instance a v c) = typed_at c" "typed_at (storage_set sg a (ty, v) c) = typed_at c"
    by (intro ext same_shape_typed; simp)+
  show "keeps_types c (c\<lparr>ct_world := u\<rparr>)" "keeps_types c (storage_clear sg c)"
    "keeps_types c (set_instance a v c)"
    using typed by (auto simp: keeps_types_def storages_typed_def)
  show "typed_at c ty a \<Longrightarrow> keeps_types c (storage_set sg a (ty, v) c)"
    using typed by (auto simp: keeps_types_def storages_typed_def)
qed

lemma code_ok_all: "(\<And>ty. \<forall>a \<in> set (descriptors_of ty c). A ty a) \<Longrightarrow> code_ok A c k"
  by (induction k) auto

lemma container_factory_ok:
  assumes "container_ok c" and "order_ok P" and "typed_at c ty a"
  shows "factory_ok P (typed_at c) c ty (sd_factory (ct_heap c ! a))"
proof -
  have ds: "\<forall>b \<in> set (descriptors_of t c). typed_at c t b" for t using assms(1) by (simp add: container_ok_def)
  have code: "code_ok (typed_at c) c k" for k by (rule code_ok_all) (rule ds)
  have deps: "dependency_ok (typed_at c) c (k, t, b)" if "ct_descriptorsMap c t = Some b" for k t b
    using ds [of t] that by (simp add: dependency_ok_def descriptors_of_def getDescriptors_def)
  have "factory_typed c ty (sd_factory (ct_heap c ! a))"
    using assms(1,3) by (auto simp: container_ok_def typed_at_def)
  then show ?thesis
    using assms(2) by (auto simp: factory_typed_def factory_ok_def order_ok_def
        intro!: code deps split: service_factory.splits)
qed

text \<open>The first interpretation: casts go to right types and storages stay typed.\<close>

definition typed_target :: "program \<Rightarrow> ('v, 'u) container \<Rightarrow> service_type \<Rightarrow> nat \<Rightarrow> bool" where
  "typed_target P c0 ty a \<longleftrightarrow> container_ok c0 \<and> order_ok P \<and> typed_at c0 ty a"

definition typed_state :: "('v, 'u) container \<Rightarrow> ('v, 'u) container \<Rightarrow> bool" where
  "typed_state c0 c \<longleftrightarrow> same_shape c0 c \<and> storages_typed c"

lemma keeps_types_state: "typed_state c0 c \<Longrightarrow> keeps_types c c' \<Longrightarrow> typed_state c0 c'"
  by (auto simp: typed_state_def keeps_types_def intro: same_shape_trans)

lemma resolver_typedI:
  assumes "\<And>c ty a sg x c'. typed_state c0 c \<Longrightarrow> typed_target P c0 ty a \<Longrightarrow> R ty a sg c = Some (x, c') \<Longrightarrow>
      keeps_types c c' \<and> x \<noteq> Undefined"
  shows "resolver R c0 (typed_target P c0) (typed_state c0) keeps_types False"
proof unfold_locales
  show "same_shape c0 c" if "typed_state c0 c" for c using that by (simp add: typed_state_def)
qed (auto simp: keeps_types_refl keeps_types_updates dest: assms
    intro: keeps_types_trans keeps_types_state)

lemma resolver_typed: "resolver (getInstance P n) c0 (typed_target P c0) (typed_state c0) keeps_types False"
proof (induction n)
  case 0
  show ?case by (rule resolver_typedI) simp
next
  case (Suc n)
  show ?case
  proof (rule resolver_typedI)
    fix c ty a sg x c'
    assume c: "typed_state c0 c" and a: "typed_target P c0 ty a"
      and eq: "getInstance P (Suc n) ty a sg c = Some (x, c')"
    have shape: "same_shape c0 c" using c by (simp add: typed_state_def)
    let ?d = "ct_heap c ! a"
    have typed: "typed_at c ty a" using a shape by (simp add: typed_target_def same_shape_typed)
    have at: "a < length (ct_heap c0)" using a by (simp add: typed_target_def typed_at_def)
    have "factory_ok P (typed_target P c0) c0 ty (sd_factory (ct_heap c0 ! a))"
      using a container_factory_ok [of c0 P ty a]
      by (simp add: typed_target_def [abs_def] cong: conj_cong)
    then have "well_resolution keeps_types False c (run_factory P (getInstance P n) ty sg (sd_factory ?d) c)"
      using resolver.well_factory [OF Suc c] same_shape_heap(3) [OF shape, of a] at by simp
    note factory = this
    have later: "typed_at c1 ty a" if "keeps_types c c1" for c1
      using that typed same_shape_typed [of c c1] by (simp add: keeps_types_def)
    have "well_resolution keeps_types False c (bind_resolution
        (run_factory P (getInstance P n) ty sg (sd_factory ?d) c) (\<lambda>v c1. Some (Val v, set_instance a v c1)))"
      by (rule resolver.well_bind [OF Suc c factory]) (simp add: keeps_types_updates)
    moreover have "well_resolution keeps_types False c (bind_resolution
        (run_factory P (getInstance P n) ty sg (sd_factory ?d) c)
        (\<lambda>v c1. Some (Val v, storage_set sg a (ty, v) c1)))"
      by (rule resolver.well_bind [OF Suc c factory]) (simp add: keeps_types_updates later)
    ultimately have "well_resolution keeps_types False c (getInstance P (Suc n) ty a sg c)"
      using typed factory
      by (simp add: instance_step_def typed_at_def Let_def well_rethrow keeps_types_refl
          split: ServiceLifetime.split option.split)
    with eq show "keeps_types c c' \<and> x \<noteq> Undefined" by simp
  qed
qed

interpretation typed: resolver "getInstance P n" c0 "typed_target P c0" "typed_state c0" keeps_types False
  for P n c0
  by (rule resolver_typed)

lemma container_descriptor_typed:
  assumes "container_ok c" and "getDescriptors ty c = Some ds" and "a \<in> set ds"
  shows "typed_at c ty a"
proof -
  have "\<forall>b \<in> set (descriptors_of ty c). typed_at c ty b" using assms(1) by (simp add: container_ok_def)
  with assms(2,3) show ?thesis by (simp add: descriptors_of_def)
qed

lemma container_typed_targets:
  assumes "container_ok c" and "order_ok P" and "getDescriptors ty c = Some ds" and "a \<in> set ds"
  shows "typed_target P c ty a"
  using assms container_descriptor_typed [OF assms(1,3,4)] by (simp add: typed_target_def)

lemma get_typed:
  assumes "container_ok c" and "order_ok P" and "container_get P n ty sg c = Some (x, c')"
  shows "keeps_types c c' \<and> x \<noteq> Undefined"
proof -
  have "typed_state c c" using assms(1) by (simp add: typed_state_def container_ok_def)
  then have "well_resolution keeps_types False c (container_get P n ty sg c)"
    unfolding container_get_def
    by (rule typed.well_get_from) (rule container_typed_targets [OF assms(1,2)])
  then show ?thesis by (simp add: assms(3))
qed

lemma getMany_typed:
  assumes "container_ok c" and "order_ok P" and "container_getMany P n k ty sg xs c = Some (x, c')"
  shows "keeps_types c c' \<and> x \<noteq> Undefined"
proof -
  have "typed_state c c" using assms(1) by (simp add: typed_state_def container_ok_def)
  then have "well_resolution keeps_types False c (container_getMany P n k ty sg xs c)"
    unfolding container_getMany_def
    by (rule typed.well_getMany_from) (rule container_typed_targets [OF assms(1,2)])
  then show ?thesis by (simp add: assms(3))
qed

section \<open>Containers a client can hold\<close>

text \<open>Registration, patching, resolution with any fuel that was enough, clearing of storages and
  changes of the client's own state, in any order.\<close>

inductive container_run :: "program \<Rightarrow> ('v, 'u) container \<Rightarrow> bool" for P where
  run_new: "container_run P (container_new u)"
| run_implementation: "container_run P c \<Longrightarrow> container_run P (add_implementation ty deps construct lifetime c)"
| run_instance: "container_run P c \<Longrightarrow> container_run P (add_instance ty v c)"
| run_function: "container_run P c \<Longrightarrow> container_run P (add_function ty withStorage func lifetime c)"
| run_patch: "container_run P c \<Longrightarrow> container_run P (snd (patch ty withStorage funcs c))"
| run_get: "container_run P c \<Longrightarrow> container_get P n ty sg c = Some (x, c') \<Longrightarrow> container_run P c'"
| run_getMany: "container_run P c \<Longrightarrow> container_getMany P n k ty sg xs c = Some (y, c') \<Longrightarrow> container_run P c'"
| run_clear: "container_run P c \<Longrightarrow> container_run P (storage_clear sg c)"
| run_world: "container_run P c \<Longrightarrow> container_run P (c\<lparr>ct_world := u\<rparr>)"

lemma container_ok_shape:
  assumes "container_ok c" and "keeps_types c c'"
  shows "container_ok c'"
proof -
  have shape: "same_shape c c'" using assms(2) by (simp add: keeps_types_def)
  have typed: "typed_at c' = typed_at c" by (intro ext same_shape_typed shape)
  have maps: "ct_descriptorsMap c' = ct_descriptorsMap c" "ct_collections c' = ct_collections c"
    using shape by (simp_all add: same_shape_def)
  have ds: "descriptors_of ty c' = descriptors_of ty c" for ty
    by (simp add: descriptors_of_def getDescriptors_def maps)
  have "factory_typed c' (sd_type d) (sd_factory d)" if d: "d \<in> set (ct_heap c')" for d
  proof -
    obtain a where a: "a < length (ct_heap c)" "d = ct_heap c' ! a"
      using d same_shape_heap(1) [OF shape] by (auto simp: in_set_conv_nth)
    have "factory_typed c (sd_type (ct_heap c ! a)) (sd_factory (ct_heap c ! a))"
      using assms(1) a(1) by (simp add: container_ok_def)
    then show ?thesis
      using a same_shape_heap [OF shape]
      by (auto simp: factory_typed_def maps typed split: service_factory.splits)
  qed
  then show ?thesis
    using assms by (simp add: container_ok_def maps ds typed keeps_types_def)
qed

lemma container_ok_new: "container_ok (container_new u)"
  by (simp add: container_ok_def container_new_def descriptors_of_def getDescriptors_def storages_typed_def)

text \<open>A container that has more of everything: the rest stays typed.\<close>

definition extends :: "('v, 'u) container \<Rightarrow> ('v, 'u) container \<Rightarrow> bool" where
  "extends c c' \<longleftrightarrow> ct_descriptorsMap c \<subseteq>\<^sub>m ct_descriptorsMap c' \<and>
     (\<exists>ds. ct_heap c' = ct_heap c @ ds) \<and> ct_storages c' = ct_storages c"

lemma extends_typed: "extends c c' \<Longrightarrow> typed_at c ty a \<Longrightarrow> typed_at c' ty a"
  by (auto simp: extends_def typed_at_def nth_append)

lemma extends_factory:
  assumes "extends c c'" and "factory_typed c ty f"
  shows "factory_typed c' ty f"
  using assms extends_typed [OF assms(1), of ty]
  by (auto simp: factory_typed_def extends_def map_le_def dom_def split: service_factory.splits)

lemma extends_storages: "extends c c' \<Longrightarrow> storages_typed c \<Longrightarrow> storages_typed c'"
  using extends_typed [of c c'] by (auto simp: storages_typed_def extends_def)

lemma container_ok_extend:
  assumes c: "container_ok c" and e: "extends c c'"
    and map: "\<And>ty a. ct_descriptorsMap c' ty = Some a \<Longrightarrow> a < length (ct_collections c')"
    and inj: "inj_on (ct_descriptorsMap c') {ty. ct_descriptorsMap c' ty \<noteq> None}"
    and ds: "\<And>ty a. a \<in> set (descriptors_of ty c') \<Longrightarrow> a \<notin> set (descriptors_of ty c) \<Longrightarrow> typed_at c' ty a"
    and new: "\<And>d. d \<in> set (drop (length (ct_heap c)) (ct_heap c')) \<Longrightarrow> factory_typed c' (sd_type d) (sd_factory d)"
  shows "container_ok c'"
proof -
  have "typed_at c' ty a" if "a \<in> set (descriptors_of ty c')" for ty a
  proof (cases "a \<in> set (descriptors_of ty c)")
    case True
    with c have "typed_at c ty a" by (simp add: container_ok_def)
    with e show ?thesis by (rule extends_typed)
  qed (use ds [OF that] in blast)
  moreover have "factory_typed c' (sd_type d) (sd_factory d)" if "d \<in> set (ct_heap c')" for d
    using c e that new [of d] by (auto simp: container_ok_def extends_def intro: extends_factory [OF e])
  moreover have "storages_typed c'" using c e by (simp add: container_ok_def extends_storages)
  ultimately show ?thesis using map inj by (simp add: container_ok_def)
qed

lemma getOrCreate_ok:
  assumes "container_ok c" and "getOrCreateEmptyDescriptors ty c = (a, c')"
  shows "container_ok c' \<and> extends c c' \<and> ct_heap c' = ct_heap c \<and> ct_descriptorsMap c' ty = Some a"
proof (cases "ct_descriptorsMap c ty")
  case (Some b)
  with assms show ?thesis by (simp add: getOrCreateEmptyDescriptors_def extends_def)
next
  case None
  with assms(2) have a: "a = length (ct_collections c)" and c': "c' = c\<lparr>ct_descriptorsMap :=
      (ct_descriptorsMap c)(ty \<mapsto> a), ct_collections := ct_collections c @ [[]]\<rparr>"
    by (auto simp: getOrCreateEmptyDescriptors_def)
  have bound: "\<And>t b. ct_descriptorsMap c t = Some b \<Longrightarrow> b < length (ct_collections c)"
    and inj: "inj_on (ct_descriptorsMap c) {t. ct_descriptorsMap c t \<noteq> None}"
    using assms(1) by (auto simp: container_ok_def)
  have e: "extends c c'" using None by (auto simp: c' extends_def map_le_def)
  have "descriptors_of t c' = descriptors_of t c" for t
    using None bound [of t]
    by (auto simp: c' a descriptors_of_def getDescriptors_def nth_append split: option.split)
  moreover have "inj_on (ct_descriptorsMap c') {t. ct_descriptorsMap c' t \<noteq> None}"
    using inj bound a by (fastforce simp: c' inj_on_def split: if_splits)
  moreover have "b < length (ct_collections c')" if "ct_descriptorsMap c' t = Some b" for t b
    using that bound [of t b] by (auto simp: c' a split: if_splits)
  ultimately have "container_ok c'"
    by (intro container_ok_extend [OF assms(1) e]) (auto simp: c')
  with e show ?thesis by (simp add: c')
qed

lemma dependencies_ok:
  assumes "container_ok c" and "getDependencyDescriptors ts c = (deps, c')"
  shows "container_ok c' \<and> extends c c' \<and> (\<forall>(k, t, a) \<in> set deps. ct_descriptorsMap c' t = Some a)"
  using assms
proof (induction ts c arbitrary: deps rule: getDependencyDescriptors.induct)
  case (1 c)
  then show ?case by (simp add: extends_def)
next
  case (2 k ty ts c)
  obtain a c1 where c1: "getOrCreateEmptyDescriptors ty c = (a, c1)" by fastforce
  obtain rest c2 where c2: "getDependencyDescriptors ts c1 = (rest, c2)" by fastforce
  note first = getOrCreate_ok [OF 2(2) c1]
  have IH: "container_ok c2 \<and> extends c1 c2 \<and> (\<forall>(k, t, a) \<in> set rest. ct_descriptorsMap c2 t = Some a)"
    using 2(1) [OF c1 [symmetric] refl, of rest] first c2 "2.prems"(2) c1 by simp
  have "extends c c2" and "ct_descriptorsMap c2 ty = Some a"
    using first IH by (auto simp: extends_def map_le_def dom_def)
  with IH "2.prems"(2) show ?case by (auto simp: c1 c2)
qed

text \<open>Putting a list of typed descriptors in the place of a type's collection keeps the invariant.\<close>

lemma collection_ok:
  assumes c: "container_ok c" and a: "ct_descriptorsMap c ty = Some a"
    and e: "extends c c'" and map: "ct_descriptorsMap c' = ct_descriptorsMap c"
    and coll: "ct_collections c' = (ct_collections c)[a := ds]"
    and ds: "\<And>p. p \<in> set ds \<Longrightarrow> p \<notin> set (ct_collections c ! a) \<Longrightarrow> typed_at c' ty p"
    and new: "\<And>d. d \<in> set (drop (length (ct_heap c)) (ct_heap c')) \<Longrightarrow> factory_typed c' (sd_type d) (sd_factory d)"
  shows "container_ok c'"
proof (rule container_ok_extend [OF c e])
  have bound: "\<And>t b. ct_descriptorsMap c t = Some b \<Longrightarrow> b < length (ct_collections c)"
    and inj: "inj_on (ct_descriptorsMap c) {t. ct_descriptorsMap c t \<noteq> None}"
    using c by (auto simp: container_ok_def)
  show "b < length (ct_collections c')" if "ct_descriptorsMap c' t = Some b" for t b
    using that bound by (simp add: map coll)
  show "inj_on (ct_descriptorsMap c') {t. ct_descriptorsMap c' t \<noteq> None}" using inj by (simp add: map)
  show "typed_at c' t p" if p: "p \<in> set (descriptors_of t c')" and old: "p \<notin> set (descriptors_of t c)" for t p
  proof (cases "t = ty")
    case True
    then show ?thesis
      using p old ds [of p] a bound [OF a] by (simp add: descriptors_of_def getDescriptors_def map coll)
  next
    case False
    then have "ct_descriptorsMap c t \<noteq> Some a" using inj a by (auto simp: inj_on_def)
    then have "descriptors_of t c' = descriptors_of t c"
      by (auto simp: descriptors_of_def getDescriptors_def map coll split: option.split)
    with p old show ?thesis by simp
  qed
qed (rule new)

lemma append_descriptor_ok:
  assumes c: "container_ok c" and f: "factory_typed c (sd_type d) (sd_factory d)"
  shows "container_ok (c\<lparr>ct_heap := ct_heap c @ [d]\<rparr>)"
proof -
  let ?c1 = "c\<lparr>ct_heap := ct_heap c @ [d]\<rparr>"
  have e: "extends c ?c1" by (simp add: extends_def)
  show ?thesis
  proof (rule container_ok_extend [OF c e])
    show "typed_at ?c1 t a" if "a \<in> set (descriptors_of t ?c1)" "a \<notin> set (descriptors_of t c)" for t a
      using that by (simp add: descriptors_of_def getDescriptors_def)
  qed (use c extends_factory [OF e f] in \<open>auto simp: container_ok_def\<close>)
qed

lemma add_created_ok:
  assumes c: "container_ok c" and f: "factory_typed c ty factory"
  shows "container_ok (add_created ty inst factory lifetime c)"
proof -
  let ?d = "\<lparr>sd_type = ty, sd_instance = inst, sd_factory = factory, sd_lifetime = lifetime\<rparr>"
  let ?c1 = "c\<lparr>ct_heap := ct_heap c @ [?d]\<rparr>"
  have "container_ok ?c1" using append_descriptor_ok [OF c, of ?d] f by simp
  moreover obtain a c2 where c2: "getOrCreateEmptyDescriptors ty ?c1 = (a, c2)" by fastforce
  ultimately have c2_ok: "container_ok c2" "ct_heap c2 = ct_heap c @ [?d]" "ct_descriptorsMap c2 ty = Some a"
    using getOrCreate_ok [of ?c1 ty a c2] by simp_all
  let ?c3 = "c2\<lparr>ct_collections := (ct_collections c2)[a := ct_collections c2 ! a @ [length (ct_heap c)]]\<rparr>"
  have "container_ok ?c3"
    by (rule collection_ok [OF c2_ok(1,3)])
      (auto simp: extends_def c2_ok(2) typed_at_def nth_append)
  then show ?thesis by (simp add: add_created_def create_descriptor_def addDescriptor_def c2)
qed

lemma patch_loop_ok:
  assumes "patch_loop ty withStorage funcs i patched originals c = (ps, c')"
    and "\<And>p. p \<in> set originals \<Longrightarrow> typed_at c ty p" and "\<And>p. p \<in> set patched \<Longrightarrow> typed_at c ty p"
    and "container_ok c"
  shows "container_ok c' \<and> extends c c' \<and> ct_collections c' = ct_collections c \<and>
    ct_descriptorsMap c' = ct_descriptorsMap c \<and> (\<forall>p \<in> set ps. typed_at c' ty p)"
  using assms
proof (induction originals arbitrary: i patched c)
  case Nil
  then show ?case by (auto simp: extends_def)
next
  case (Cons original rest)
  let ?d = "\<lparr>sd_type = ty, sd_instance = None, sd_factory = PatchedFactory original withStorage (funcs i),
     sd_lifetime = sd_lifetime (ct_heap c ! original)\<rparr>"
  let ?c1 = "c\<lparr>ct_heap := ct_heap c @ [?d]\<rparr>"
  have e: "extends c ?c1" by (simp add: extends_def)
  have "factory_typed c ty (sd_factory ?d)" using Cons.prems(2) by (simp add: factory_typed_def)
  then have "container_ok ?c1" using append_descriptor_ok [OF Cons.prems(4), of ?d] by simp
  moreover have "typed_at ?c1 ty (length (ct_heap c))" by (simp add: typed_at_def)
  moreover have "typed_at ?c1 ty p" if "p \<in> set rest \<or> p \<in> set patched" for p
    using that Cons.prems(2,3) by (auto intro!: extends_typed [OF e])
  ultimately have "container_ok c' \<and> extends ?c1 c' \<and> ct_collections c' = ct_collections ?c1 \<and>
      ct_descriptorsMap c' = ct_descriptorsMap ?c1 \<and> (\<forall>p \<in> set ps. typed_at c' ty p)"
    using Cons.prems(1) by (intro Cons.IH) (auto simp: create_descriptor_def Let_def)
  then show ?case by (auto simp: extends_def)
qed

lemma patch_ok:
  assumes "container_ok c"
  shows "container_ok (snd (patch ty withStorage funcs c))"
proof (cases "ct_descriptorsMap c ty")
  case None
  with assms show ?thesis by (simp add: patch_def)
next
  case (Some a)
  obtain ps c1 where loop: "patch_loop ty withStorage funcs 0 [] (ct_collections c ! a) c = (ps, c1)" by fastforce
  have "\<forall>p \<in> set (ct_collections c ! a). typed_at c ty p"
    using assms Some by (auto simp: container_ok_def descriptors_of_def getDescriptors_def dest: spec [of _ ty])
  with patch_loop_ok [OF loop] assms have c1: "container_ok c1" "ct_descriptorsMap c1 ty = Some a"
    "\<forall>p \<in> set ps. typed_at c1 ty p"
    by (simp_all add: Some)
  have "container_ok (c1\<lparr>ct_collections := (ct_collections c1)[a := ps]\<rparr>)"
    by (rule collection_ok [OF c1(1,2), where ds = ps]) (use c1(3) in \<open>auto simp: extends_def typed_at_def\<close>)
  then show ?thesis by (simp add: patch_def Some loop)
qed

lemma container_run_ok: "container_run P c \<Longrightarrow> order_ok P \<Longrightarrow> container_ok c"
proof (induction rule: container_run.induct)
  case (run_implementation c ty deps construct lifetime)
  obtain ds c1 where c1: "getDependencyDescriptors deps c = (ds, c1)" by fastforce
  with dependencies_ok [of c deps ds c1] run_implementation show ?case
    by (auto simp: add_implementation_def factory_typed_def intro!: add_created_ok)
next
  case (run_get c n ty sg x c')
  show ?case
    using container_ok_shape [of c c'] get_typed [OF _ run_get.prems run_get.hyps(2)] run_get.IH run_get.prems
    by simp
next
  case (run_getMany c n k ty sg xs y c')
  show ?case
    using container_ok_shape [of c c'] getMany_typed [OF _ run_getMany.prems run_getMany.hyps(2)]
      run_getMany.IH run_getMany.prems
    by simp
next
  case (run_clear c sg)
  then show ?case using container_ok_shape [OF _ keeps_types_updates(2)] by simp
next
  case (run_world c u)
  then show ?case using container_ok_shape [OF _ keeps_types_updates(1)] by simp
qed (auto simp: container_ok_new add_instance_def add_function_def factory_typed_def
    intro!: add_created_ok patch_ok)

section \<open>Containers without circular dependencies\<close>

text \<open>
  A rank of the descriptors under which every factory asks only for descriptors of a lower rank.
  Resolving a descriptor of a rank below \<open>n\<close> then changes instances of ranks below \<open>n\<close> only, and
  none that is already there.
\<close>

definition ranked_below :: "('v, 'u) container \<Rightarrow> (nat \<Rightarrow> nat) \<Rightarrow> nat \<Rightarrow> service_type \<Rightarrow> nat \<Rightarrow> bool" where
  "ranked_below c r n ty a \<longleftrightarrow> typed_at c ty a \<and> r a < n"

definition ranked :: "program \<Rightarrow> (nat \<Rightarrow> nat) \<Rightarrow> ('v, 'u) container \<Rightarrow> bool" where
  "ranked P r c \<longleftrightarrow> (\<forall>a < length (ct_heap c).
     factory_ok P (ranked_below c r (r a)) c (sd_type (ct_heap c ! a)) (sd_factory (ct_heap c ! a)))"

definition changes_below :: "(nat \<Rightarrow> nat) \<Rightarrow> nat \<Rightarrow> ('v, 'u) container \<Rightarrow> ('v, 'u) container \<Rightarrow> bool" where
  "changes_below r n c c' \<longleftrightarrow> same_shape c c' \<and>
     (\<forall>a < length (ct_heap c). n \<le> r a \<or> sd_instance (ct_heap c ! a) \<noteq> None \<longrightarrow>
        sd_instance (ct_heap c' ! a) = sd_instance (ct_heap c ! a)) \<and>
     (\<forall>sg a. n \<le> r a \<or> ct_storages c sg a \<noteq> None \<longrightarrow> ct_storages c' sg a = ct_storages c sg a)"

definition ranked_target :: "program \<Rightarrow> ('v, 'u) container \<Rightarrow> (nat \<Rightarrow> nat) \<Rightarrow> nat \<Rightarrow> service_type \<Rightarrow> nat \<Rightarrow> bool" where
  "ranked_target P c0 r n ty a \<longleftrightarrow> ranked P r c0 \<and> ranked_below c0 r n ty a"

lemma changes_below_refl: "changes_below r n c c"
  by (simp add: changes_below_def)

lemma changes_below_trans: "changes_below r n c c' \<Longrightarrow> changes_below r n c' c'' \<Longrightarrow> changes_below r n c c''"
  using same_shape_heap(1) [of c c'] by (auto simp: changes_below_def intro: same_shape_trans)

lemma changes_below_mono: "changes_below r n c c' \<Longrightarrow> n \<le> m \<Longrightarrow> changes_below r m c c'"
  by (auto simp: changes_below_def)

lemma changes_below_world: "changes_below r n c (c\<lparr>ct_world := u\<rparr>)"
  by (simp add: changes_below_def)

lemma changes_below_instance:
  assumes "changes_below r (r a) c c1" and "r a < n" and "sd_instance (ct_heap c ! a) = None"
  shows "changes_below r n c (set_instance a v c1)"
proof -
  have "ct_heap (set_instance a v c1) ! b = ct_heap c1 ! b" if "b \<noteq> a" for b
    using that by (simp add: set_instance_def)
  moreover have "same_shape c (set_instance a v c1)"
    using assms(1) by (auto simp: changes_below_def intro: same_shape_trans [OF _ same_shape_instance])
  moreover have "b \<noteq> a" if "n \<le> r b \<or> sd_instance (ct_heap c ! b) \<noteq> None" for b
    using that assms(2,3) by auto
  ultimately show ?thesis
    using assms(1,2) by (simp add: changes_below_def)
qed

lemma changes_below_storage:
  assumes "changes_below r (r a) c c1" and "r a < n" and "storage_get sg a c = None"
  shows "changes_below r n c (storage_set sg a x c1)"
  using assms
  by (auto simp: changes_below_def storage_get_def intro: same_shape_trans [OF _ same_shape_updates(2)])

lemma resolver_rankedI:
  assumes "\<And>c ty a sg. same_shape c0 c \<Longrightarrow> ranked_target P c0 r n ty a \<Longrightarrow>
      well_resolution (changes_below r n) returns c (R ty a sg c)"
  shows "resolver R c0 (ranked_target P c0 r n) (same_shape c0) (changes_below r n) returns"
proof unfold_locales
  show "\<not> returns" if "same_shape c0 c" "ranked_target P c0 r n ty a" "R ty a sg c = None" for c ty a sg
    using assms [OF that(1,2), of sg] that(3) by simp
  show "changes_below r n c c' \<and> x \<noteq> Undefined"
    if "same_shape c0 c" "ranked_target P c0 r n ty a" "R ty a sg c = Some (x, c')" for c ty a sg x c'
    using assms [OF that(1,2), of sg] that(3) by simp
  show "same_shape c0 c'" if "same_shape c0 c" "changes_below r n c c'" for c c'
    using that by (auto simp: changes_below_def intro: same_shape_trans)
qed (auto simp: changes_below_refl changes_below_world intro: changes_below_trans)

lemma ranked_step:
  assumes IH: "resolver (getInstance P m) c0 (ranked_target P c0 r (r a)) (same_shape c0) (changes_below r (r a)) (r a \<le> m)"
    and shape: "same_shape c0 c" and a: "ranked_target P c0 r n ty a"
  shows "well_resolution (changes_below r n) (r a \<le> m) c (instance_step P (getInstance P m) ty a sg c)"
proof -
  let ?f = "sd_factory (ct_heap c ! a)"
  have ty: "typed_at c0 ty a" and less: "r a < n" using a by (auto simp: ranked_target_def ranked_below_def)
  then have "factory_ok P (ranked_target P c0 r (r a)) c0 ty (sd_factory (ct_heap c0 ! a))"
    using a by (auto simp: ranked_target_def [abs_def] ranked_def typed_at_def cong: conj_cong)
  then have "well_resolution (changes_below r (r a)) (r a \<le> m) c (run_factory P (getInstance P m) ty sg ?f c)"
    using resolver.well_factory [OF IH shape] same_shape_heap(3) [OF shape, of a] ty by (simp add: typed_at_def)
  then consider "run_factory P (getInstance P m) ty sg ?f c = None" "\<not> r a \<le> m"
    | x c1 where "run_factory P (getInstance P m) ty sg ?f c = Some (x, c1)" "changes_below r (r a) c c1" "x \<noteq> Undefined"
    by (cases "run_factory P (getInstance P m) ty sg ?f c") auto
  then show ?thesis
  proof cases
    case 1
    with ty same_shape_typed [OF shape, of ty a] show ?thesis
      by (auto simp: instance_step_def typed_at_def Let_def well_rethrow changes_below_refl bind_resolution_def
          split: ServiceLifetime.split option.split)
  next
    case (2 x c1)
    have "changes_below r n c c1" using 2(2) less by (blast intro: changes_below_mono less_imp_le)
    with 2 ty less same_shape_typed [OF shape, of ty a] show ?thesis
      by (cases x) (auto simp: instance_step_def typed_at_def Let_def well_rethrow changes_below_refl
          bind_resolution_def changes_below_instance changes_below_storage
          split: ServiceLifetime.split option.split)
  qed
qed

text \<open>The second interpretation: fuel above the ranks is enough, and what is there stays.\<close>

lemma resolver_ranked:
  "resolver (getInstance P m) c0 (ranked_target P c0 r n) (same_shape c0) (changes_below r n) (n \<le> m)"
proof (induction m arbitrary: n)
  case 0
  show ?case by (rule resolver_rankedI) (auto simp: ranked_target_def ranked_below_def)
next
  case (Suc m)
  show ?case
  proof (rule resolver_rankedI)
    fix c ty a sg
    assume "same_shape c0 c" and a: "ranked_target P c0 r n ty a"
    with ranked_step [where c = c and a = a and n = n and ty = ty and sg = sg, OF Suc]
    have "well_resolution (changes_below r n) (r a \<le> m) c (getInstance P (Suc m) ty a sg c)" by simp
    moreover have "r a < n" using a by (simp add: ranked_target_def ranked_below_def)
    ultimately show "well_resolution (changes_below r n) (n \<le> Suc m) c (getInstance P (Suc m) ty a sg c)"
      by (auto simp: well_resolution_def split: option.splits)
  qed
qed

interpretation ranked: resolver "getInstance P m" c0 "ranked_target P c0 r n" "same_shape c0"
  "changes_below r n" "n \<le> m"
  for P m c0 r n
  by (rule resolver_ranked)

lemma rank_bound:
  obtains n where "\<forall>a < length (ct_heap c). r a < (n :: nat)"
proof
  show "\<forall>a < length (ct_heap c). r a < Suc (sum_list (map r [0..<length (ct_heap c)]))"
    by (auto simp: less_Suc_eq_le intro!: member_le_sum_list)
qed

lemma ranked_shape:
  assumes "ranked P r c" and shape: "same_shape c c'"
  shows "ranked P r c'"
proof -
  have "descriptors_of ty c' = descriptors_of ty c" "ct_collections c' = ct_collections c" for ty
    using shape by (simp_all add: same_shape_def descriptors_of_def getDescriptors_def)
  moreover from this have "code_ok A c' k = code_ok A c k" for A k by (induction k) auto
  moreover have "ranked_below c' r n = ranked_below c r n" for n
    using same_shape_typed [OF shape] by (simp add: ranked_below_def [abs_def])
  ultimately have "factory_ok P (ranked_below c' r n) c' ty f = factory_ok P (ranked_below c r n) c ty f" for n ty f
    by (auto simp: factory_ok_def dependency_ok_def split: service_factory.split)
  then show ?thesis using assms(1) same_shape_heap [OF shape] by (simp add: ranked_def)
qed

lemma ranked_targets:
  assumes "container_ok c" and "ranked P r c" and "\<forall>a < length (ct_heap c). r a < n"
    and "getDescriptors ty c = Some ds" and "a \<in> set ds"
  shows "ranked_target P c r n ty a"
  using assms container_descriptor_typed [OF assms(1,4,5)]
  by (simp add: ranked_target_def ranked_below_def typed_at_def)

lemma get_ranked:
  assumes "container_ok c" and "ranked P r c" and "\<forall>a < length (ct_heap c). r a < n"
  shows "well_resolution (changes_below r n) (n \<le> m) c (container_get P m ty sg c)"
  unfolding container_get_def
  by (rule ranked.well_get_from [where ?c0.0 = c and P = P]) (use ranked_targets [OF assms] in auto)

lemma getMany_ranked:
  assumes "container_ok c" and "ranked P r c" and "\<forall>a < length (ct_heap c). r a < n"
  shows "well_resolution (changes_below r n) (n \<le> m) c (container_getMany P m k ty sg xs c)"
  unfolding container_getMany_def
  by (rule ranked.well_getMany_from [where ?c0.0 = c and P = P]) (use ranked_targets [OF assms] in auto)

text \<open>Resolutions, changes of the client's state and of storages other than \<open>sg\<close>.\<close>

inductive uses :: "program \<Rightarrow> nat \<Rightarrow> ('v, 'u) container \<Rightarrow> ('v, 'u) container \<Rightarrow> bool" for P sg c where
  use_none: "uses P sg c c"
| use_get: "uses P sg c c1 \<Longrightarrow> container_get P n ty s c1 = Some (x, c2) \<Longrightarrow> uses P sg c c2"
| use_getMany: "uses P sg c c1 \<Longrightarrow> container_getMany P n k ty s xs c1 = Some (y, c2) \<Longrightarrow> uses P sg c c2"
| use_clear: "uses P sg c c1 \<Longrightarrow> s \<noteq> sg \<Longrightarrow> uses P sg c (storage_clear s c1)"
| use_world: "uses P sg c c1 \<Longrightarrow> uses P sg c (c1\<lparr>ct_world := u\<rparr>)"

definition kept_instances :: "nat \<Rightarrow> ('v, 'u) container \<Rightarrow> ('v, 'u) container \<Rightarrow> bool" where
  "kept_instances sg c c' \<longleftrightarrow>
     (\<forall>a < length (ct_heap c). sd_instance (ct_heap c ! a) \<noteq> None \<longrightarrow>
        sd_instance (ct_heap c' ! a) = sd_instance (ct_heap c ! a)) \<and>
     (\<forall>a. ct_storages c sg a \<noteq> None \<longrightarrow> ct_storages c' sg a = ct_storages c sg a)"

lemma kept_step: "kept_instances sg c c1 \<Longrightarrow> same_shape c c1 \<Longrightarrow> changes_below r n c1 c2 \<Longrightarrow> kept_instances sg c c2"
  using same_shape_heap(1) [of c c1] by (auto simp: kept_instances_def changes_below_def)

lemma uses_keep:
  assumes "uses P sg c c'" and "container_ok c" and "order_ok P" and "ranked P r c"
  shows "container_ok c' \<and> same_shape c c' \<and> kept_instances sg c c'"
  using assms
proof (induction rule: uses.induct)
  case use_none
  then show ?case by (simp add: kept_instances_def)
next
  case (use_get c1 n ty s x c2)
  then have c1: "container_ok c1" "same_shape c c1" "ranked P r c1" "kept_instances sg c c1"
    by (simp_all add: ranked_shape)
  obtain N where N: "\<forall>a < length (ct_heap c1). r a < N" by (rule rank_bound)
  have "changes_below r N c1 c2" "keeps_types c1 c2"
    using get_ranked [OF c1(1,3) N, of n ty s] get_typed [OF c1(1) use_get.prems(2) use_get.hyps(2)]
    by (auto simp: use_get.hyps(2))
  then show ?case
    using c1 by (auto simp: keeps_types_def intro: container_ok_shape same_shape_trans kept_step)
next
  case (use_getMany c1 n k ty s xs y c2)
  then have c1: "container_ok c1" "same_shape c c1" "ranked P r c1" "kept_instances sg c c1"
    by (simp_all add: ranked_shape)
  obtain N where N: "\<forall>a < length (ct_heap c1). r a < N" by (rule rank_bound)
  have "changes_below r N c1 c2" "keeps_types c1 c2"
    using getMany_ranked [OF c1(1,3) N, of n k ty s xs] getMany_typed [OF c1(1) use_getMany.prems(2) use_getMany.hyps(2)]
    by (auto simp: use_getMany.hyps(2))
  then show ?case
    using c1 by (auto simp: keeps_types_def intro: container_ok_shape same_shape_trans kept_step)
next
  case (use_clear c1 s)
  have "container_ok c1" using use_clear by simp
  then have "container_ok (storage_clear s c1)" by (rule container_ok_shape) (rule keeps_types_updates)
  with use_clear show ?case
    by (auto simp: kept_instances_def intro: same_shape_trans [OF _ same_shape_updates(3)])
next
  case (use_world c1 u)
  have "container_ok c1" using use_world by simp
  then have "container_ok (c1\<lparr>ct_world := u\<rparr>)" by (rule container_ok_shape) (rule keeps_types_updates)
  with use_world show ?case
    by (auto simp: kept_instances_def intro: same_shape_trans [OF _ same_shape_updates(1)])
qed

text \<open>What a first resolution leaves behind.\<close>

lemma instance_left:
  assumes "container_ok c" and "order_ok P" and "typed_at c ty a"
    and "instance_step P (getInstance P n) ty a sg c = Some (Val v, c1)"
  shows "sd_lifetime (ct_heap c ! a) = Persistent \<Longrightarrow> pg_copyable P ty \<and> sd_instance (ct_heap c1 ! a) = Some v"
    and "sd_lifetime (ct_heap c ! a) = StoragePersistent \<Longrightarrow> pg_copyable P ty \<and> ct_storages c1 sg a = Some (ty, v)"
proof -
  have state: "typed_state c c" using assms(1) by (simp add: typed_state_def container_ok_def)
  have "factory_ok P (typed_target P c) c ty (sd_factory (ct_heap c ! a))"
    using container_factory_ok [OF assms(1-3)] assms(1,2)
    by (simp add: typed_target_def [abs_def] cong: conj_cong)
  then have shape: "same_shape c c2"
    if "run_factory P (getInstance P n) ty sg (sd_factory (ct_heap c ! a)) c = Some (x, c2)" for x c2
    using typed.well_factory [OF state] that
    by (metis keeps_types_def well_resolution_simps(2))
  have left: "sd_instance (ct_heap (set_instance a v c2) ! a) = Some v"
    if "run_factory P (getInstance P n) ty sg (sd_factory (ct_heap c ! a)) c = Some (x, c2)" for x c2
    using assms(3) same_shape_heap(1) [OF shape [OF that]] by (simp add: set_instance_def typed_at_def)
  show "pg_copyable P ty \<and> sd_instance (ct_heap c1 ! a) = Some v" if "sd_lifetime (ct_heap c ! a) = Persistent"
    using assms(3,4) that left
    by (auto simp: instance_step_def typed_at_def Let_def rethrow_def bind_resolution_def
        split: if_splits option.splits outcome.splits)
  show "pg_copyable P ty \<and> ct_storages c1 sg a = Some (ty, v)"
    if "sd_lifetime (ct_heap c ! a) = StoragePersistent"
    using assms(3,4) that
    by (auto simp: instance_step_def typed_at_def Let_def rethrow_def bind_resolution_def storage_get_def
        split: if_splits option.splits outcome.splits)
qed

lemma instance_found:
  assumes "typed_at c ty a" and "pg_copyable P ty"
  shows "sd_lifetime (ct_heap c ! a) = Persistent \<Longrightarrow> sd_instance (ct_heap c ! a) = Some v \<Longrightarrow>
      instance_step P R ty a sg c = Some (Val v, c)"
    and "sd_lifetime (ct_heap c ! a) = StoragePersistent \<Longrightarrow> ct_storages c sg a = Some (ty, v) \<Longrightarrow>
      instance_step P R ty a sg c = Some (Val v, c)"
  using assms by (simp_all add: instance_step_def typed_at_def rethrow_def storage_get_def)

section \<open>Registration order\<close>

lemma getOrCreate_descriptors:
  assumes "container_ok c" and "getOrCreateEmptyDescriptors ty c = (a, c')"
  shows "descriptors_of t c' = descriptors_of t c \<and> a < length (ct_collections c') \<and> ct_descriptorsMap c' ty = Some a"
proof -
  have bound: "\<And>t b. ct_descriptorsMap c t = Some b \<Longrightarrow> b < length (ct_collections c)"
    using assms(1) by (simp add: container_ok_def)
  show ?thesis
    using assms(2) bound [of t] bound [of ty]
    by (auto simp: getOrCreateEmptyDescriptors_def descriptors_of_def getDescriptors_def nth_append
        split: option.splits if_splits)
qed

lemma addDescriptor_descriptors:
  assumes "container_ok c"
  shows "descriptors_of t (addDescriptor ty p c) = descriptors_of t c @ (if t = ty then [p] else [])"
proof -
  obtain a c1 where c1: "getOrCreateEmptyDescriptors ty c = (a, c1)" by fastforce
  have ok: "container_ok c1" and ds: "descriptors_of t c1 = descriptors_of t c"
    and a: "a < length (ct_collections c1)" "ct_descriptorsMap c1 ty = Some a"
    using getOrCreate_ok [OF assms c1] getOrCreate_descriptors [OF assms c1] by simp_all
  have "ct_descriptorsMap c1 t \<noteq> Some a" if "t \<noteq> ty"
    using ok a that by (auto simp: container_ok_def inj_on_def)
  then show ?thesis
    using a ds by (auto simp: addDescriptor_def c1 descriptors_of_def getDescriptors_def split: option.split)
qed

lemma add_created_descriptors:
  assumes "container_ok c" and "factory_typed c ty factory"
  shows "descriptors_of t (add_created ty inst factory lifetime c) =
    descriptors_of t c @ (if t = ty then [length (ct_heap c)] else [])"
    and "ct_heap (add_created ty inst factory lifetime c) = ct_heap c @
      [\<lparr>sd_type = ty, sd_instance = inst, sd_factory = factory, sd_lifetime = lifetime\<rparr>]"
proof -
  let ?d = "\<lparr>sd_type = ty, sd_instance = inst, sd_factory = factory, sd_lifetime = lifetime\<rparr>"
  let ?c1 = "c\<lparr>ct_heap := ct_heap c @ [?d]\<rparr>"
  have ok: "container_ok ?c1" using append_descriptor_ok [OF assms(1), of ?d] assms(2) by simp
  have "descriptors_of t ?c1 = descriptors_of t c" by (simp add: descriptors_of_def getDescriptors_def)
  with addDescriptor_descriptors [OF ok, of t ty "length (ct_heap c)"]
  show "descriptors_of t (add_created ty inst factory lifetime c) =
      descriptors_of t c @ (if t = ty then [length (ct_heap c)] else [])"
    by (simp add: add_created_def create_descriptor_def)
  show "ct_heap (add_created ty inst factory lifetime c) = ct_heap c @ [?d]"
    by (auto simp: add_created_def create_descriptor_def addDescriptor_def getOrCreateEmptyDescriptors_def
        Let_def split: option.split)
qed

text \<open>The instances registered for a type, if every service of it was registered as an instance.\<close>

definition holds_instances :: "service_type \<Rightarrow> 'v list \<Rightarrow> ('v, 'u) container \<Rightarrow> bool" where
  "holds_instances ty vs c \<longleftrightarrow> container_ok c \<and>
     map (\<lambda>a. (sd_lifetime (ct_heap c ! a), sd_instance (ct_heap c ! a))) (descriptors_of ty c) =
     map (\<lambda>v. (Persistent, Some v)) vs"

lemma holds_instances_new: "holds_instances ty [] (container_new u)"
  using container_ok_new [of u]
  by (simp add: holds_instances_def descriptors_of_def getDescriptors_def container_new_def)

lemma holds_instances_add:
  assumes "holds_instances ty vs c"
  shows "holds_instances ty (vs @ (if t = ty then [v] else [])) (add_instance t v c)"
proof -
  have ok: "container_ok c" using assms by (simp add: holds_instances_def)
  have f: "factory_typed c t ExceptionFactory" by (simp add: factory_typed_def)
  have bound: "a < length (ct_heap c)" if "a \<in> set (descriptors_of ty c)" for a
    using ok that by (auto simp: container_ok_def typed_at_def)
  show ?thesis
    using assms bound add_created_ok [OF ok f]
    by (auto simp: holds_instances_def add_instance_def add_created_descriptors [OF ok f] nth_append
        cong: map_cong)
qed

lemma getMany_loop_instances:
  assumes "pg_copyable P ty" and "\<forall>a \<in> set as. typed_at c ty a"
    and "map (\<lambda>a. (sd_lifetime (ct_heap c ! a), sd_instance (ct_heap c ! a))) as = map (\<lambda>v. (Persistent, Some v)) vs"
  shows "getMany_loop (instance_step P R) AsCollection ty sg as xs c = Some (Val (xs @ vs), c)"
  using assms(2,3)
proof (induction "as" arbitrary: vs xs)
  case (Cons a as)
  obtain v ws where vs: "vs = v # ws" using Cons.prems(2) by (cases vs) auto
  have "instance_step P R ty a sg c = Some (Val v, c)"
    using Cons.prems vs assms(1) by (intro instance_found) auto
  moreover have "getMany_loop (instance_step P R) AsCollection ty sg as (xs @ [v]) c = Some (Val ((xs @ [v]) @ ws), c)"
    by (rule Cons.IH) (use Cons.prems vs in auto)
  ultimately show ?case by (simp add: bind_resolution_def vs)
qed simp

lemma getMany_instances:
  assumes "holds_instances ty vs c" and "pg_copyable P ty"
  shows "container_getMany P (Suc n) AsCollection ty sg xs c = Some (Val (xs @ vs, length vs), c)"
proof (cases "getDescriptors ty c")
  case None
  with assms(1) have "vs = []" by (simp add: holds_instances_def descriptors_of_def)
  with None show ?thesis by (simp add: container_getMany_def getMany_from_def)
next
  case (Some ds)
  with assms(1) have ds: "map (\<lambda>a. (sd_lifetime (ct_heap c ! a), sd_instance (ct_heap c ! a))) ds =
      map (\<lambda>v. (Persistent, Some v)) vs" and ok: "container_ok c"
    by (simp_all add: holds_instances_def descriptors_of_def)
  have "\<forall>a \<in> set ds. typed_at c ty a" using container_descriptor_typed [OF ok Some] by simp
  note loop = getMany_loop_instances [OF assms(2) this ds]
  have "getInstance P (Suc n) = instance_step P (getInstance P n)" by (intro ext) simp
  then have "getMany_loop (getInstance P (Suc n)) AsCollection ty sg ds xs c = Some (Val (xs @ vs), c)"
    using loop by metis
  with Some map_eq_imp_length_eq [OF ds] show ?thesis
    by (simp add: container_getMany_def getMany_from_def bind_resolution_def del: getInstance.simps)
qed

section \<open>A sample container\<close>

text \<open>A counter created once, and a service that takes the counter and the services of a third type.\<close>

definition sample_program :: program where
  "sample_program = \<lparr>pg_copyable = (\<lambda>_. True), pg_order = (\<lambda>n. rev [0..<n])\<rparr>"

definition sample_construct :: "nat argument list \<Rightarrow> (nat, nat) code" where
  "sample_construct xs = (case xs of [One v, Many vs] \<Rightarrow> Return (100 * length vs + v) | _ \<Rightarrow> Throw (Raised 0))"

definition sample_container :: "(nat, nat) container" where
  "sample_container =
     add_instance 3 7 (add_implementation 2 [(AsOne, 1), (AsCollection, 3)] sample_construct Transient
       (add_function 1 False (Effect Suc (\<lambda>u. Return (u + 1))) Persistent (container_new 0)))"

lemmas sample_defs = sample_container_def sample_program_def add_instance_def add_implementation_def
  add_function_def add_created_def create_descriptor_def addDescriptor_def getOrCreateEmptyDescriptors_def
  container_new_def

lemmas resolution_defs = container_get_def container_getMany_def get_from_def getMany_from_def getDescriptors_def
  instance_step_def run_factory_def run_patched_def getServiceInstance_def getDependencyInstance_def bind_resolution_def
  answer_def rethrow_def set_instance_def storage_get_def storage_set_def

lemma sample_run: "container_run sample_program sample_container" "order_ok sample_program"
  by (auto simp: sample_container_def order_ok_def sample_program_def intro!: container_run.intros)

lemma sample_ranked: "ranked sample_program (\<lambda>a. if a = 1 then 1 else 0) sample_container"
  by (auto simp: sample_defs ranked_def ranked_below_def typed_at_def factory_ok_def dependency_ok_def
      sample_construct_def less_Suc_eq numeral_eq_Suc split: list.split argument.split)

lemma sample_get:
  "container_get sample_program 2 1 5 sample_container = Some (Val 1, sample_container
     \<lparr>ct_heap := (ct_heap sample_container)[0 := (ct_heap sample_container ! 0)\<lparr>sd_instance := Some 1\<rparr>],
      ct_world := 1\<rparr>)"
  by (simp add: sample_defs resolution_defs numeral_eq_Suc)

lemma sample_inject: "map_option fst (container_get sample_program 2 2 0 sample_container) = Some (Val 101)"
  by (simp add: sample_defs resolution_defs sample_construct_def numeral_eq_Suc)

section \<open>Properties\<close>

text \<open>
  C15. Type safety of the container. \<open>ServiceDescriptor::cast\<close> and the keys of the storages are not
  checked by the language. In every container a client can hold, every resolution, of one service or
  of a collection, casts descriptors to their own type only, and an instance in a storage has the
  type of the descriptor that is its key, so that the \<open>any_cast\<close> of it is right.
\<close>

theorem container_casts_right:
  assumes "container_run P c" and "order_ok P"
  shows "(\<forall>n ty sg x c'. container_get P n ty sg c = Some (x, c') \<longrightarrow> x \<noteq> Undefined) \<and>
    (\<forall>n k ty sg xs y c'. container_getMany P n k ty sg xs c = Some (y, c') \<longrightarrow> y \<noteq> Undefined) \<and>
    (\<forall>sg a ty v. ct_storages c sg a = Some (ty, v) \<longrightarrow>
       a < length (ct_heap c) \<and> sd_type (ct_heap c ! a) = ty)"
proof (intro conjI allI impI)
  have ok: "container_ok c" using assms by (rule container_run_ok)
  show "x \<noteq> Undefined" if "container_get P n ty sg c = Some (x, c')" for n ty sg x c'
    using get_typed [OF ok assms(2) that] by simp
  show "y \<noteq> Undefined" if "container_getMany P n k ty sg xs c = Some (y, c')" for n k ty sg xs y c'
    using getMany_typed [OF ok assms(2) that] by simp
  have "storages_typed c" using ok by (simp add: container_ok_def)
  then show "a < length (ct_heap c)" and "sd_type (ct_heap c ! a) = ty"
    if "ct_storages c sg a = Some (ty, v)" for sg a ty v
    using that unfolding storages_typed_def typed_at_def by blast+
qed

theorem container_casts_right_witness:
  "container_run sample_program sample_container \<and> order_ok sample_program \<and>
   \<not> (\<exists>n ty sg c'. container_get sample_program n ty sg sample_container = Some (Undefined, c'))"
  using container_casts_right [OF sample_run] sample_run by blast

text \<open>
  C16. Resolution ends: in a container without circular dependencies, \<open>get\<close> and \<open>getMany\<close> return or
  throw, for every type and storage, as soon as the fuel is above the ranks of the descriptors.
\<close>

theorem resolution_returns:
  assumes "container_run P c" and "order_ok P" and "ranked P r c" and "\<forall>a < length (ct_heap c). r a < n"
  shows "(\<exists>x c'. container_get P n ty sg c = Some (x, c') \<and> x \<noteq> Undefined) \<and>
    (\<exists>y c'. container_getMany P n k ty sg xs c = Some (y, c') \<and> y \<noteq> Undefined)"
proof -
  have ok: "container_ok c" using assms(1,2) by (rule container_run_ok)
  show ?thesis
    using get_ranked [OF ok assms(3,4), of n ty sg] getMany_ranked [OF ok assms(3,4), of n k ty sg xs]
    by (auto simp: well_resolution_def split: option.splits)
qed

theorem resolution_returns_witness:
  "ranked sample_program (\<lambda>a. if a = 1 then 1 else 0) sample_container \<and>
   (\<exists>x c'. container_get sample_program 2 2 0 sample_container = Some (x, c') \<and> x \<noteq> Undefined)"
  using resolution_returns [OF sample_run sample_ranked, of 2 2 0] sample_ranked by auto

text \<open>
  C14. Lifetimes: once a service of lifetime \<open>Persistent\<close> was resolved, every later resolution
  gives the same instance and runs no factory, whatever other services are resolved in between and
  in whatever storage; the same holds of \<open>StoragePersistent\<close> for one storage that is not cleared.
\<close>

theorem service_instance_stays:
  assumes "container_run P c" and "order_ok P" and "ranked P r c" and "getDescriptors ty c = Some [a]"
    and "container_get P n ty sg c = Some (Val v, c1)" and "uses P sg c1 c2"
  shows "(sd_lifetime (ct_heap c ! a) = Persistent \<longrightarrow>
      container_get P (Suc m) ty sg' c2 = Some (Val v, c2)) \<and>
    (sd_lifetime (ct_heap c ! a) = StoragePersistent \<longrightarrow>
      container_get P (Suc m) ty sg c2 = Some (Val v, c2))"
proof -
  have ok: "container_ok c" using assms(1,2) by (rule container_run_ok)
  have at: "typed_at c ty a" using container_descriptor_typed [OF ok assms(4)] by simp
  obtain k where step: "instance_step P (getInstance P k) ty a sg c = Some (Val v, c1)"
    using assms(4,5) by (cases n) (auto simp: container_get_def get_from_def)
  note left = instance_left [OF ok assms(2) at step]
  have types: "keeps_types c c1" using get_typed [OF ok assms(2,5)] by simp
  then have shape: "same_shape c c1" by (simp add: keeps_types_def)
  note kept = uses_keep [OF assms(6) container_ok_shape [OF ok types] assms(2) ranked_shape [OF assms(3) shape]]
  then have shape2: "same_shape c c2" using shape by (blast intro: same_shape_trans)
  have at2: "typed_at c2 ty a" using at same_shape_typed [OF shape2] by simp
  have len: "a < length (ct_heap c)" "a < length (ct_heap c1)"
    using at same_shape_heap(1) [OF shape] by (simp_all add: typed_at_def)
  have ds: "getDescriptors ty c2 = Some [a]"
    using assms(4) shape2 by (simp add: getDescriptors_def same_shape_def)
  show ?thesis
    using left instance_found [OF at2] kept len same_shape_heap(4) [OF shape2 len(1)]
    by (auto simp: container_get_def get_from_def ds kept_instances_def)
qed

theorem service_instance_stays_witness:
  "\<exists>c1. container_get sample_program 2 1 5 sample_container = Some (Val 1, c1) \<and>
     container_get sample_program 1 1 6 (storage_clear 0 c1) = Some (Val 1, storage_clear 0 c1)"
proof -
  obtain c1 where c1: "container_get sample_program 2 1 5 sample_container = Some (Val 1, c1)"
    using sample_get by blast
  have ds: "getDescriptors 1 sample_container = Some [0]"
    by (simp add: sample_defs getDescriptors_def numeral_eq_Suc)
  have "uses sample_program 5 c1 (storage_clear 0 c1)" by (rule uses.use_clear) (auto intro: uses.use_none)
  from service_instance_stays [OF sample_run sample_ranked ds c1 this, of 0 6] c1
  show ?thesis by (simp add: sample_defs)
qed

section \<open>A function that is moved more than once\<close>

text \<open>
  \<open>ServicePatcher::patch\<close> hands \<open>std::move(func)\<close> to every descriptor. A \<open>std::function\<close> is empty
  after the first move: with two services registered, resolving the second throws.
\<close>

lemma patch_moves_function:
  "map_option fst (container_getMany sample_program 5 AsCollection 1 0 []
     (snd (patch 1 False (\<lambda>i v. if i = 0 then Return (v + 10) else Throw (Raised 0))
       (add_instance 1 2 (add_instance 1 1 (container_new (0 :: nat))))))) =
   Some (Exc (GetInstanceError 1 (Raised 0)))"
  by (simp add: sample_defs resolution_defs patch_def numeral_eq_Suc)

end
