(* ===== verification/Application.thy ===== *)
theory Application
  imports Container
begin

text \<open>
  The application: \<open>Application.cpp\<close>, \<open>ApplicationState.hpp\<close>, \<open>ModuleBase.hpp\<close>.

  An application owns one container and one instance of every module per CPU core and drives them
  through the states of \<open>ApplicationState\<close>. Modules are code of the client: \<open>handle\<close> maps a
  module, its container and a state to the module and the container afterwards and to the exception
  it failed with, if any. Factories and initialize functions of modules may fail as well. Cores
  share nothing, so \<open>invoke_on_all\<close> is one call per core; a core whose call fails does not stop the
  others. The chains of futures in \<open>ensureInitialized\<close>, \<open>startImpl\<close>, \<open>stopTemporaryImpl\<close> and
  \<open>stopImpl\<close> are lists of actions; an action that fails ends the list. \<open>ap_log\<close> records the states
  for which the modules were called.
\<close>

section \<open>States and data\<close>

datatype ApplicationState =
    StartInitialize | RegisterBasicServices | BeforeCallCustomInitializeFunctions
  | CallingCustomIntializeFunctions | AfterCustomInitializeFunctionsCalled | RegisterHeadServices
  | RegisterServices | RegisterTailServices | PatchServices | AfterServicesRegistered | AfterInitialized
  | BeforeStart | Starting | AfterStarted
  | BeforeTemporaryStop | TemporaryStopping | AfterTemporaryStopped
  | BeforeStop | Stopping | AfterStopped

datatype application_error =
    IncorrectState string ApplicationState
  | ShardDataCreated
  | StoppedPermanently
  | ModuleCountNotMatched
  | CannotAddModule
  | ModuleError nat

text \<open>A factory of a module and its initialize function; both are given the core they run on.\<close>

type_synonym 'm module_factory = "(nat \<Rightarrow> nat + 'm) \<times> (nat \<Rightarrow> 'm \<Rightarrow> nat option \<times> 'm) option"

record ('m, 'c) core_data =
  pc_container :: 'c
  pc_modules :: "'m list"

record ('m, 'c) application =
  ap_state :: ApplicationState
  ap_factories :: "'m module_factory list"
  ap_shardData :: "('m, 'c) core_data list option"
  ap_log :: "ApplicationState list"

type_synonym ('m, 'c) module_handle = "'m \<Rightarrow> 'c \<Rightarrow> ApplicationState \<Rightarrow> nat option \<times> 'm \<times> 'c"

text \<open>The client's modules and the machine: \<open>ModuleBase::handle\<close>, the number of cores, the
  container every core starts with.\<close>

record ('m, 'c) machine =
  mc_handle :: "('m, 'c) module_handle"
  mc_cores :: nat
  mc_container :: 'c

definition application_new :: "('m, 'c) application" where
  "application_new = \<lparr>ap_state = StartInitialize, ap_factories = [], ap_shardData = None, ap_log = []\<rparr>"

section \<open>Calls on all cores\<close>

text \<open>\<open>seastar::sharded::invoke_on_all\<close>: every core is called, the first failure is the result.\<close>

definition invoke_on_all ::
  "(nat \<Rightarrow> ('m, 'c) core_data \<Rightarrow> application_error option \<times> ('m, 'c) core_data) \<Rightarrow>
   ('m, 'c) core_data list \<Rightarrow> application_error option \<times> ('m, 'c) core_data list" where
  "invoke_on_all f cores =
     (let results = map (\<lambda>(i, core). f i core) (enumerate 0 cores)
      in (case List.find (\<lambda>r. fst r \<noteq> None) results of None \<Rightarrow> None | Some r \<Rightarrow> fst r, map snd results))"

text \<open>\<open>seastar::do_for_each\<close> over the modules of a core, in \<open>updateState\<close>.\<close>

fun handle_modules ::
  "('m, 'c) module_handle \<Rightarrow> ApplicationState \<Rightarrow> 'm list \<Rightarrow> 'c \<Rightarrow> application_error option \<times> 'm list \<times> 'c" where
  "handle_modules handle s [] c = (None, [], c)"
| "handle_modules handle s (m # ms) c =
     (case handle m c s of
        (Some e, m', c') \<Rightarrow> (Some (ModuleError e), m' # ms, c')
      | (None, m', c') \<Rightarrow>
          (case handle_modules handle s ms c' of (r, ms', c'') \<Rightarrow> (r, m' # ms', c'')))"

definition handle_core ::
  "('m, 'c) module_handle \<Rightarrow> ApplicationState \<Rightarrow> ('m, 'c) core_data \<Rightarrow> application_error option \<times> ('m, 'c) core_data" where
  "handle_core handle s core =
     (case handle_modules handle s (pc_modules core) (pc_container core) of
        (r, ms, c) \<Rightarrow> (r, \<lparr>pc_container = c, pc_modules = ms\<rparr>))"

fun create_modules ::
  "nat \<Rightarrow> 'm module_factory list \<Rightarrow> ('m, 'c) core_data \<Rightarrow> application_error option \<times> ('m, 'c) core_data" where
  "create_modules i [] core = (None, core)"
| "create_modules i (f # fs) core =
     (case fst f i of
        Inl e \<Rightarrow> (Some (ModuleError e), core)
      | Inr m \<Rightarrow> create_modules i fs (core\<lparr>pc_modules := pc_modules core @ [m]\<rparr>))"

fun initialize_modules ::
  "nat \<Rightarrow> 'm module_factory list \<Rightarrow> 'm list \<Rightarrow> application_error option \<times> 'm list" where
  "initialize_modules i (f # fs) (m # ms) =
     (case snd f of
        None \<Rightarrow> (case initialize_modules i fs ms of (r, ms') \<Rightarrow> (r, m # ms'))
      | Some func \<Rightarrow>
          (case func i m of
             (Some e, m') \<Rightarrow> (Some (ModuleError e), m' # ms)
           | (None, m') \<Rightarrow> (case initialize_modules i fs ms of (r, ms') \<Rightarrow> (r, m' # ms'))))"
| "initialize_modules i _ ms = (None, ms)"

definition initialize_core ::
  "'m module_factory list \<Rightarrow> nat \<Rightarrow> ('m, 'c) core_data \<Rightarrow> application_error option \<times> ('m, 'c) core_data" where
  "initialize_core fs i core =
     (if length fs \<noteq> length (pc_modules core) then (Some ModuleCountNotMatched, core)
      else (case initialize_modules i fs (pc_modules core) of (r, ms) \<Rightarrow> (r, core\<lparr>pc_modules := ms\<rparr>)))"

section \<open>The steps of the chains\<close>

datatype action =
    CreateModules
  | SetState ApplicationState
  | InvokeHandles ApplicationState
  | CallInitializeFunctions
  | GuardStart
  | GuardStopTemporary
  | GuardStop
  | StopShardData

definition on_shards ::
  "(nat \<Rightarrow> ('m, 'c) core_data \<Rightarrow> application_error option \<times> ('m, 'c) core_data) \<Rightarrow>
   ('m, 'c) application \<Rightarrow> application_error option \<times> ('m, 'c) application" where
  "on_shards f a =
     (case ap_shardData a of
        None \<Rightarrow> (Some StoppedPermanently, a)
      | Some cores \<Rightarrow> (case invoke_on_all f cores of (r, cores') \<Rightarrow> (r, a\<lparr>ap_shardData := Some cores'\<rparr>)))"

definition check_state ::
  "string \<Rightarrow> ApplicationState list \<Rightarrow> ApplicationState \<Rightarrow> ('m, 'c) application \<Rightarrow>
   application_error option \<times> ('m, 'c) application" where
  "check_state what allowed next a =
     (if ap_state a \<notin> set allowed then (Some (IncorrectState what (ap_state a)), a)
      else (None, a\<lparr>ap_state := next\<rparr>))"

fun perform ::
  "('m, 'c) machine \<Rightarrow> action \<Rightarrow> ('m, 'c) application \<Rightarrow> application_error option \<times> ('m, 'c) application" where
  "perform M CreateModules a = on_shards (\<lambda>i. create_modules i (ap_factories a)) a"
| "perform M (SetState s) a = (None, a\<lparr>ap_state := s\<rparr>)"
| "perform M (InvokeHandles s) a =
     on_shards (\<lambda>_. handle_core (mc_handle M) s)
       (if ap_shardData a = None then a else a\<lparr>ap_log := ap_log a @ [s]\<rparr>)"
| "perform M CallInitializeFunctions a = on_shards (initialize_core (ap_factories a)) a"
| "perform M GuardStart a = check_state ''starting'' [AfterInitialized, AfterTemporaryStopped] BeforeStart a"
| "perform M GuardStopTemporary a = check_state ''temporary stopping'' [AfterStarted] BeforeTemporaryStop a"
| "perform M GuardStop a = check_state ''stopping'' [AfterStarted, AfterTemporaryStopped] BeforeStop a"
| "perform M StopShardData a =
     (case ap_shardData a of None \<Rightarrow> (Some StoppedPermanently, a) | Some _ \<Rightarrow> (None, a\<lparr>ap_shardData := None\<rparr>))"

fun run_actions ::
  "('m, 'c) machine \<Rightarrow> action list \<Rightarrow> ('m, 'c) application \<Rightarrow> application_error option \<times> ('m, 'c) application" where
  "run_actions M [] a = (None, a)"
| "run_actions M (x # xs) a =
     (case perform M x a of (Some e, a') \<Rightarrow> (Some e, a') | (None, a') \<Rightarrow> run_actions M xs a')"

text \<open>\<open>updateState\<close>.\<close>

definition updateState :: "ApplicationState \<Rightarrow> action list" where
  "updateState s = [SetState s, InvokeHandles s]"

definition initialize_actions :: "action list" where
  "initialize_actions = CreateModules #
     updateState StartInitialize @ updateState RegisterBasicServices @
     updateState BeforeCallCustomInitializeFunctions @
     [SetState CallingCustomIntializeFunctions, CallInitializeFunctions] @
     updateState AfterCustomInitializeFunctionsCalled @ updateState RegisterHeadServices @
     updateState RegisterServices @ updateState RegisterTailServices @ updateState PatchServices @
     updateState AfterServicesRegistered @ updateState AfterInitialized"

definition startImpl :: "action list" where
  "startImpl = [GuardStart, InvokeHandles BeforeStart] @ updateState Starting @ updateState AfterStarted"

definition stopTemporaryImpl :: "action list" where
  "stopTemporaryImpl = [GuardStopTemporary, InvokeHandles BeforeTemporaryStop] @
     updateState TemporaryStopping @ updateState AfterTemporaryStopped"

definition stopImpl :: "action list" where
  "stopImpl = [GuardStop, InvokeHandles BeforeStop] @ updateState Stopping @ updateState AfterStopped @ [StopShardData]"

section \<open>The operations of the client\<close>

definition application_add ::
  "'m module_factory \<Rightarrow> ('m, 'c) application \<Rightarrow> application_error option \<times> ('m, 'c) application" where
  "application_add f a =
     (if ap_state a \<noteq> StartInitialize then (Some CannotAddModule, a)
      else (None, a\<lparr>ap_factories := ap_factories a @ [f]\<rparr>))"

text \<open>\<open>ensureInitialized\<close> up to its first future: \<open>createShardData\<close>, and what is left to do.\<close>

definition ensureInitialized ::
  "('m, 'c) machine \<Rightarrow> ('m, 'c) application \<Rightarrow> application_error + (action list \<times> ('m, 'c) application)" where
  "ensureInitialized M a =
     (if ap_state a \<noteq> StartInitialize then Inr ([], a)
      else if ap_shardData a \<noteq> None then Inl ShardDataCreated
      else Inr (initialize_actions, a\<lparr>ap_shardData :=
        Some (replicate (mc_cores M) \<lparr>pc_container = mc_container M, pc_modules = []\<rparr>)\<rparr>))"

definition application_start ::
  "('m, 'c) machine \<Rightarrow> ('m, 'c) application \<Rightarrow> application_error option \<times> ('m, 'c) application" where
  "application_start M a =
     (case ensureInitialized M a of
        Inl e \<Rightarrow> (Some e, a)
      | Inr (actions, a') \<Rightarrow> run_actions M (actions @ startImpl) a')"

definition application_stopTemporary ::
  "('m, 'c) machine \<Rightarrow> ('m, 'c) application \<Rightarrow> application_error option \<times> ('m, 'c) application" where
  "application_stopTemporary M a = run_actions M stopTemporaryImpl a"

definition application_stop ::
  "('m, 'c) machine \<Rightarrow> ('m, 'c) application \<Rightarrow> application_error option \<times> ('m, 'c) application" where
  "application_stop M a = run_actions M stopImpl a"

text \<open>\<open>runForever\<close>: the wait for the exit of the reactor stands between the two chains.\<close>

definition application_runForever ::
  "('m, 'c) machine \<Rightarrow> ('m, 'c) application \<Rightarrow> application_error option \<times> ('m, 'c) application" where
  "application_runForever M a =
     (case ensureInitialized M a of
        Inl e \<Rightarrow> (Some e, a)
      | Inr (actions, a') \<Rightarrow> run_actions M (actions @ startImpl @ stopImpl) a')"

text \<open>Applications a client can hold that waits for each call before it makes the next; a call may
  have failed.\<close>

inductive application_run :: "('m, 'c) machine \<Rightarrow> ('m, 'c) application \<Rightarrow> bool" for M where
  run_new: "application_run M application_new"
| run_add: "application_run M a \<Longrightarrow> application_run M (snd (application_add f a))"
| run_start: "application_run M a \<Longrightarrow> application_run M (snd (application_start M a))"
| run_stopTemporary: "application_run M a \<Longrightarrow> application_run M (snd (application_stopTemporary M a))"
| run_stop: "application_run M a \<Longrightarrow> application_run M (snd (application_stop M a))"

lemma run_actions_append:
  "run_actions M (xs @ ys) a = (case run_actions M xs a of (Some e, a') \<Rightarrow> (Some e, a') | (None, a') \<Rightarrow> run_actions M ys a')"
  by (induction xs arbitrary: a) (simp_all split: prod.split option.split del: perform.simps)

text \<open>So it is \<open>start\<close> and, if that succeeds, \<open>stop\<close>.\<close>

lemma runForever_start_stop:
  "application_runForever M a =
     (case application_start M a of (Some e, a') \<Rightarrow> (Some e, a') | (None, a') \<Rightarrow> application_stop M a')"
  unfolding application_runForever_def application_start_def application_stop_def
  by (auto simp: run_actions_append [of M "_ @ startImpl", simplified] split: sum.split prod.split option.split)

section \<open>The order of the states\<close>

fun successors :: "ApplicationState \<Rightarrow> ApplicationState list" where
  "successors StartInitialize = [RegisterBasicServices]"
| "successors RegisterBasicServices = [BeforeCallCustomInitializeFunctions]"
| "successors BeforeCallCustomInitializeFunctions = [AfterCustomInitializeFunctionsCalled]"
| "successors AfterCustomInitializeFunctionsCalled = [RegisterHeadServices]"
| "successors RegisterHeadServices = [RegisterServices]"
| "successors RegisterServices = [RegisterTailServices]"
| "successors RegisterTailServices = [PatchServices]"
| "successors PatchServices = [AfterServicesRegistered]"
| "successors AfterServicesRegistered = [AfterInitialized]"
| "successors AfterInitialized = [BeforeStart]"
| "successors BeforeStart = [Starting]"
| "successors Starting = [AfterStarted]"
| "successors AfterStarted = [BeforeTemporaryStop, BeforeStop]"
| "successors BeforeTemporaryStop = [TemporaryStopping]"
| "successors TemporaryStopping = [AfterTemporaryStopped]"
| "successors AfterTemporaryStopped = [BeforeStart, BeforeStop]"
| "successors BeforeStop = [Stopping]"
| "successors Stopping = [AfterStopped]"
| "successors _ = []"

definition lifecycle :: "ApplicationState list \<Rightarrow> bool" where
  "lifecycle ss \<longleftrightarrow> (ss \<noteq> [] \<longrightarrow> hd ss = StartInitialize) \<and> successively (\<lambda>s t. t \<in> set (successors s)) ss"

lemma lifecycle_append:
  assumes "lifecycle ss"
  shows "lifecycle (ss @ [s]) \<longleftrightarrow> (if ss = [] then s = StartInitialize else s \<in> set (successors (last ss)))"
  using assms by (auto simp: lifecycle_def successively_append_iff)

text \<open>The states a guard asks for are entered together with their entry in the log.\<close>

definition application_inv :: "('m, 'c) application \<Rightarrow> bool" where
  "application_inv a \<longleftrightarrow> lifecycle (ap_log a) \<and>
     (ap_state a \<in> {AfterInitialized, AfterStarted, AfterTemporaryStopped} \<longrightarrow>
        ap_log a \<noteq> [] \<and> last (ap_log a) = ap_state a \<and> ap_shardData a \<noteq> None) \<and>
     (ap_shardData a = None \<longrightarrow> ap_state a = StartInitialize \<and> ap_log a = [] \<or> ap_state a = AfterStopped)"

definition logged :: "ApplicationState option \<Rightarrow> ('m, 'c) application \<Rightarrow> bool" where
  "logged p a \<longleftrightarrow> lifecycle (ap_log a) \<and> ap_shardData a \<noteq> None \<and>
     p = (if ap_log a = [] then None else Some (last (ap_log a)))"

lemma logged_state [simp]: "logged p (a\<lparr>ap_state := s\<rparr>) = logged p a"
  by (simp add: logged_def)

definition may_follow :: "ApplicationState option \<Rightarrow> ApplicationState \<Rightarrow> bool" where
  "may_follow p s \<longleftrightarrow> (case p of None \<Rightarrow> s = StartInitialize | Some t \<Rightarrow> s \<in> set (successors t))"

lemma on_shards_cases:
  assumes "ap_shardData a \<noteq> None"
  obtains r cores where "on_shards f a = (r, a\<lparr>ap_shardData := Some cores\<rparr>)"
  using assms by (cases "invoke_on_all f (the (ap_shardData a))") (auto simp: on_shards_def)

lemma run_invoke:
  assumes a: "logged p a" and s: "ap_state a = s" "may_follow p s"
    and next_: "\<And>a'. logged (Some s) a' \<Longrightarrow> ap_state a' = s \<Longrightarrow> application_inv (snd (run_actions M xs a'))"
  shows "application_inv (snd (run_actions M (InvokeHandles s # xs) a))"
proof -
  have shards: "ap_shardData a \<noteq> None" using a by (simp add: logged_def)
  let ?a = "a\<lparr>ap_log := ap_log a @ [s]\<rparr>"
  have "ap_shardData ?a \<noteq> None" using shards by simp
  then obtain r cores where eq: "perform M (InvokeHandles s) a = (r, ?a\<lparr>ap_shardData := Some cores\<rparr>)"
    using shards on_shards_cases [of ?a "\<lambda>_. handle_core (mc_handle M) s"] by auto
  have log: "logged (Some s) (?a\<lparr>ap_shardData := Some cores\<rparr>)"
    using a s lifecycle_append [of "ap_log a" s] by (auto simp: logged_def may_follow_def split: if_splits)
  then have "application_inv (?a\<lparr>ap_shardData := Some cores\<rparr>)"
    using s by (simp add: application_inv_def logged_def)
  with next_ [OF log] show ?thesis by (simp add: eq s split: option.split del: perform.simps)
qed

lemma run_SetState: "run_actions M (SetState s # xs) a = run_actions M xs (a\<lparr>ap_state := s\<rparr>)"
  by simp

lemma run_update:
  assumes "logged p a" and "may_follow p s"
    and "\<And>a'. logged (Some s) a' \<Longrightarrow> ap_state a' = s \<Longrightarrow> application_inv (snd (run_actions M xs a'))"
  shows "application_inv (snd (run_actions M (updateState s @ xs) a))"
proof -
  have "logged p (a\<lparr>ap_state := s\<rparr>)" using assms(1) by simp
  then have "application_inv (snd (run_actions M (InvokeHandles s # xs) (a\<lparr>ap_state := s\<rparr>)))"
    by (rule run_invoke [OF _ _ assms(2,3)]) simp_all
  then show ?thesis by (simp only: updateState_def append.simps run_SetState)
qed

lemma run_guard:
  assumes a: "application_inv a" and perform: "perform M g a = check_state what allowed s a"
    and s: "\<And>t. t \<in> set allowed \<Longrightarrow> s \<in> set (successors t) \<and> t \<in> {AfterInitialized, AfterStarted, AfterTemporaryStopped}"
    and next_: "\<And>a'. logged (Some s) a' \<Longrightarrow> ap_state a' = s \<Longrightarrow> application_inv (snd (run_actions M xs a'))"
  shows "application_inv (snd (run_actions M (g # InvokeHandles s # xs) a))"
proof (cases "ap_state a \<in> set allowed")
  case False
  with a perform show ?thesis by (simp add: check_state_def)
next
  case True
  with a s [OF True] have log: "ap_log a \<noteq> []" "last (ap_log a) = ap_state a" "ap_shardData a \<noteq> None" "lifecycle (ap_log a)"
    by (auto simp: application_inv_def)
  then have "logged (Some (ap_state a)) (a\<lparr>ap_state := s\<rparr>)" by (simp add: logged_def)
  then have "application_inv (snd (run_actions M (InvokeHandles s # xs) (a\<lparr>ap_state := s\<rparr>)))"
    by (rule run_invoke [OF _ _ _ next_]) (use s [OF True] in \<open>auto simp: may_follow_def\<close>)
  moreover have "run_actions M (g # InvokeHandles s # xs) a = run_actions M (InvokeHandles s # xs) (a\<lparr>ap_state := s\<rparr>)"
    using True perform by (simp add: check_state_def)
  ultimately show ?thesis by simp
qed

lemma logged_inv: "logged (Some s) a \<Longrightarrow> ap_state a = s \<Longrightarrow> application_inv a"
  by (auto simp: logged_def application_inv_def split: if_splits)

text \<open>A path of updates.\<close>

lemma run_updates:
  assumes "logged (Some t) a" and "ap_state a = t \<or> ss \<noteq> []"
    and "successively (\<lambda>s u. u \<in> set (successors s)) (t # ss)"
    and "\<And>a'. logged (Some (last (t # ss))) a' \<Longrightarrow> ap_state a' = last (t # ss) \<Longrightarrow>
      application_inv (snd (run_actions M xs a'))"
  shows "application_inv (snd (run_actions M (concat (map updateState ss) @ xs) a))"
  using assms
proof (induction ss arbitrary: t a)
  case Nil
  then show ?case by simp
next
  case (Cons s ss)
  show ?case unfolding list.map concat.simps append_assoc
  proof (rule run_update [OF Cons.prems(1)])
    show "may_follow (Some t) s" using Cons.prems(3) by (simp add: may_follow_def)
    fix a' :: "('a, 'b) application"
    assume log: "logged (Some s) a'" and state: "ap_state a' = s"
    show "application_inv (snd (run_actions M (concat (map updateState ss) @ xs) a'))"
      by (rule Cons.IH [OF log]) (use state Cons.prems(3,4) in \<open>auto split: if_splits\<close>)
  qed
qed

lemma impl_updates:
  "startImpl = GuardStart # InvokeHandles BeforeStart # concat (map updateState [Starting, AfterStarted]) @ []"
  "stopTemporaryImpl = GuardStopTemporary # InvokeHandles BeforeTemporaryStop #
     concat (map updateState [TemporaryStopping, AfterTemporaryStopped]) @ []"
  "stopImpl = GuardStop # InvokeHandles BeforeStop # concat (map updateState [Stopping, AfterStopped]) @ [StopShardData]"
  "initialize_actions = CreateModules # updateState StartInitialize @
     concat (map updateState [RegisterBasicServices, BeforeCallCustomInitializeFunctions]) @
     SetState CallingCustomIntializeFunctions # CallInitializeFunctions #
     updateState AfterCustomInitializeFunctionsCalled @
     concat (map updateState [RegisterHeadServices, RegisterServices, RegisterTailServices, PatchServices,
       AfterServicesRegistered, AfterInitialized])"
  by (simp_all add: startImpl_def stopTemporaryImpl_def stopImpl_def initialize_actions_def)

lemma start_inv: "application_inv a \<Longrightarrow> application_inv (snd (run_actions M startImpl a))"
  unfolding impl_updates
  by (rule run_guard, assumption, rule perform.simps, force, rule run_updates) (auto intro: logged_inv)

lemma stopTemporary_inv: "application_inv a \<Longrightarrow> application_inv (snd (run_actions M stopTemporaryImpl a))"
  unfolding impl_updates
  by (rule run_guard, assumption, rule perform.simps, force, rule run_updates) (auto intro: logged_inv)

lemma stop_shards_inv:
  "logged (Some AfterStopped) a \<Longrightarrow> ap_state a = AfterStopped \<Longrightarrow> application_inv (snd (run_actions M [StopShardData] a))"
  by (auto simp: application_inv_def logged_def split: option.split)

lemma stop_inv: "application_inv a \<Longrightarrow> application_inv (snd (run_actions M stopImpl a))"
  unfolding impl_updates
  by (rule run_guard, assumption, rule perform.simps, force, rule run_updates, assumption)
    (simp_all add: stop_shards_inv del: run_actions.simps perform.simps)

text \<open>Steps that only change the modules; the state they run in is no state a guard asks for.\<close>

lemma run_on_shards:
  assumes "logged p a" and "perform M x a = on_shards f a"
    and "ap_state a \<notin> {AfterInitialized, AfterStarted, AfterTemporaryStopped}"
    and "\<And>a'. logged p a' \<Longrightarrow> ap_state a' = ap_state a \<Longrightarrow> application_inv (snd (run_actions M xs a'))"
  shows "application_inv (snd (run_actions M (x # xs) a))"
proof -
  obtain r cores where eq: "on_shards f a = (r, a\<lparr>ap_shardData := Some cores\<rparr>)"
    using assms(1) on_shards_cases [of a f] by (auto simp: logged_def)
  have "logged p (a\<lparr>ap_shardData := Some cores\<rparr>)" using assms(1) by (simp add: logged_def)
  moreover have "application_inv (a\<lparr>ap_shardData := Some cores\<rparr>)"
    using assms(1,3) by (simp add: application_inv_def logged_def)
  ultimately show ?thesis
    using assms(4) by (simp add: assms(2) eq split: option.split)
qed

lemma initialize_inv:
  assumes "logged None a" and "ap_state a = StartInitialize"
    and "\<And>a'. application_inv a' \<Longrightarrow> application_inv (snd (run_actions M xs a'))"
  shows "application_inv (snd (run_actions M (initialize_actions @ xs) a))"
proof -
  let ?tail = "concat (map updateState [RegisterHeadServices, RegisterServices, RegisterTailServices, PatchServices,
    AfterServicesRegistered, AfterInitialized]) @ xs"
  let ?custom = "updateState AfterCustomInitializeFunctionsCalled @ ?tail"
  have tail: "application_inv (snd (run_actions M ?tail a'))"
    if "logged (Some AfterCustomInitializeFunctionsCalled) a'" for a' :: "('a, 'b) application"
    by (rule run_updates [OF that]) (auto intro: assms(3) logged_inv)
  have custom: "application_inv (snd (run_actions M ?custom a'))"
    if "logged (Some BeforeCallCustomInitializeFunctions) a'" for a' :: "('a, 'b) application"
    by (rule run_update [OF that], simp add: may_follow_def) (rule tail)
  have call: "application_inv (snd (run_actions M (CallInitializeFunctions # ?custom) (a'\<lparr>ap_state := CallingCustomIntializeFunctions\<rparr>)))"
    if "logged (Some BeforeCallCustomInitializeFunctions) a'" for a' :: "('a, 'b) application"
    by (rule run_on_shards [OF _ perform.simps(4), where p = "Some BeforeCallCustomInitializeFunctions"])
      (simp add: that, simp, rule custom)
  have before: "application_inv (snd (run_actions M (concat (map updateState [RegisterBasicServices,
      BeforeCallCustomInitializeFunctions]) @ SetState CallingCustomIntializeFunctions # CallInitializeFunctions # ?custom) a'))"
    if "logged (Some StartInitialize) a'" for a' :: "('a, 'b) application"
    by (rule run_updates [OF that], simp, simp, unfold run_SetState, rule call, simp)
  show ?thesis
    unfolding impl_updates append.simps append_assoc
    by (rule run_on_shards [OF assms(1) perform.simps(1)], simp add: assms(2), rule run_update, assumption,
        simp add: may_follow_def, rule before)
qed

lemma application_run_inv: "application_run M a \<Longrightarrow> application_inv a"
proof (induction rule: application_run.induct)
  case run_new
  show ?case by (simp add: application_new_def application_inv_def lifecycle_def)
next
  case (run_add a f)
  then show ?case by (auto simp: application_add_def application_inv_def)
next
  case (run_start a)
  show ?case
  proof (cases "ap_state a = StartInitialize \<and> ap_shardData a = None")
    case True
    with run_start.IH have log: "ap_log a = []" by (simp add: application_inv_def)
    let ?a = "a\<lparr>ap_shardData := Some (replicate (mc_cores M) \<lparr>pc_container = mc_container M, pc_modules = []\<rparr>)\<rparr>"
    have "logged None ?a" using log by (simp add: logged_def lifecycle_def)
    then have "application_inv (snd (run_actions M (initialize_actions @ startImpl) ?a))"
      by (rule initialize_inv) (use True in \<open>auto intro: start_inv\<close>)
    with True show ?thesis by (simp add: application_start_def ensureInitialized_def)
  next
    case False
    with start_inv [OF run_start.IH] run_start.IH show ?thesis
      by (auto simp: application_start_def ensureInitialized_def)
  qed
next
  case (run_stopTemporary a)
  then show ?case by (simp add: application_stopTemporary_def stopTemporary_inv)
next
  case (run_stop a)
  then show ?case by (simp add: application_stop_def stop_inv)
qed

section \<open>Modules that do not fail\<close>

definition quiet :: "('m, 'c) machine \<Rightarrow> 'm module_factory list \<Rightarrow> bool" where
  "quiet M fs \<longleftrightarrow> (\<forall>m c s. fst (mc_handle M m c s) = None) \<and>
     (\<forall>f \<in> set fs. (\<forall>i. \<exists>m. fst f i = Inr m) \<and> (\<forall>g i m. snd f = Some g \<longrightarrow> fst (g i m) = None))"

lemma invoke_quiet:
  assumes "\<And>i core. core \<in> set cores \<Longrightarrow> fst (f i core) = None"
  shows "invoke_on_all f cores = (None, map (\<lambda>(i, core). snd (f i core)) (enumerate 0 cores))"
proof -
  have "List.find (\<lambda>r. fst r \<noteq> None) (map (\<lambda>(i, core). f i core) (enumerate 0 cores)) = None"
    using assms by (auto simp: find_None_iff in_set_enumerate_eq)
  then show ?thesis by (auto simp: invoke_on_all_def Let_def)
qed

lemma handle_quiet:
  assumes "quiet M fs"
  shows "fst (handle_modules (mc_handle M) s ms c) = None \<and> length (fst (snd (handle_modules (mc_handle M) s ms c))) = length ms"
  using assms
proof (induction ms arbitrary: c)
  case (Cons m ms)
  obtain m' c' where "mc_handle M m c s = (None, m', c')"
    using Cons.prems by (metis prod.collapse quiet_def)
  then show ?case using Cons.IH [OF Cons.prems, of c'] by (auto split: prod.splits)
qed simp

text \<open>The application after a step, with as many modules on every core as were created.\<close>

definition with_modules :: "nat \<Rightarrow> ('m, 'c) application \<Rightarrow> bool" where
  "with_modules k a \<longleftrightarrow> (\<exists>cores. ap_shardData a = Some cores \<and> (\<forall>core \<in> set cores. length (pc_modules core) = k))"

lemma on_shards_quiet:
  assumes "ap_shardData a = Some cores"
    and "\<And>i core. core \<in> set cores \<Longrightarrow> fst (f i core) = None \<and> length (pc_modules (snd (f i core))) = k"
  shows "\<exists>cores'. on_shards f a = (None, a\<lparr>ap_shardData := Some cores'\<rparr>) \<and>
    (\<forall>core \<in> set cores'. length (pc_modules core) = k)"
proof -
  let ?cores = "map (\<lambda>(i, core). snd (f i core)) (enumerate 0 cores)"
  have "on_shards f a = (None, a\<lparr>ap_shardData := Some ?cores\<rparr>)"
    using assms by (simp add: on_shards_def invoke_quiet)
  moreover have "\<forall>core \<in> set ?cores. length (pc_modules core) = k"
    using assms(2) by (auto simp: in_set_enumerate_eq)
  ultimately show ?thesis by blast
qed

lemma invoke_handles_quiet:
  assumes "quiet M fs" and "with_modules k a"
  shows "\<exists>cores. perform M (InvokeHandles s) a =
      (None, a\<lparr>ap_log := ap_log a @ [s], ap_shardData := Some cores\<rparr>) \<and>
    (\<forall>core \<in> set cores. length (pc_modules core) = k)"
proof -
  obtain cores where cores: "ap_shardData a = Some cores" "\<forall>core \<in> set cores. length (pc_modules core) = k"
    using assms(2) by (auto simp: with_modules_def)
  have "fst (handle_core (mc_handle M) s core) = None \<and> length (pc_modules (snd (handle_core (mc_handle M) s core))) = k"
    if "core \<in> set cores" for core
    using handle_quiet [OF assms(1), of s "pc_modules core" "pc_container core"] cores(2) that
    by (auto simp: handle_core_def split: prod.splits)
  then have "\<exists>cores'. on_shards (\<lambda>_. handle_core (mc_handle M) s) (a\<lparr>ap_log := ap_log a @ [s]\<rparr>) =
      (None, a\<lparr>ap_log := ap_log a @ [s]\<rparr>\<lparr>ap_shardData := Some cores'\<rparr>) \<and>
      (\<forall>core \<in> set cores'. length (pc_modules core) = k)"
    by (intro on_shards_quiet) (use cores(1) in auto)
  then show ?thesis using cores(1) by simp
qed

lemma updates_quiet:
  assumes "quiet M fs" and "with_modules k a"
  shows "\<exists>cores. run_actions M (concat (map updateState ss) @ xs) a =
      run_actions M xs (a\<lparr>ap_state := last (ap_state a # ss), ap_log := ap_log a @ ss, ap_shardData := Some cores\<rparr>) \<and>
    (\<forall>core \<in> set cores. length (pc_modules core) = k)"
  using assms(2)
proof (induction ss arbitrary: a)
  case Nil
  then obtain cores where cores: "ap_shardData a = Some cores" "\<forall>core \<in> set cores. length (pc_modules core) = k"
    by (auto simp: with_modules_def)
  have eq: "a\<lparr>ap_state := last [ap_state a], ap_log := ap_log a @ [], ap_shardData := Some cores\<rparr> = a"
    using cores(1) by (intro application.equality) simp_all
  show ?case
  proof (intro exI conjI)
    show "run_actions M (concat (map updateState []) @ xs) a =
        run_actions M xs (a\<lparr>ap_state := last [ap_state a], ap_log := ap_log a @ [], ap_shardData := Some cores\<rparr>)"
      unfolding eq by simp
  qed (rule cores(2))
next
  case (Cons s ss)
  have "with_modules k (a\<lparr>ap_state := s\<rparr>)" using Cons.prems by (simp add: with_modules_def)
  from invoke_handles_quiet [OF assms(1) this, of s] obtain cores where
    step: "perform M (InvokeHandles s) (a\<lparr>ap_state := s\<rparr>) =
      (None, a\<lparr>ap_state := s, ap_log := ap_log a @ [s], ap_shardData := Some cores\<rparr>)"
    and k: "\<forall>core \<in> set cores. length (pc_modules core) = k"
    by auto
  let ?a = "a\<lparr>ap_state := s, ap_log := ap_log a @ [s], ap_shardData := Some cores\<rparr>"
  have "with_modules k ?a" using k by (simp add: with_modules_def)
  from Cons.IH [OF this] show ?case
    by (simp add: updateState_def step del: perform.simps(3))
qed

definition start_states :: "ApplicationState list" where
  "start_states = [BeforeStart, Starting, AfterStarted]"

definition initialize_states :: "ApplicationState list" where
  "initialize_states = [StartInitialize, RegisterBasicServices, BeforeCallCustomInitializeFunctions,
     AfterCustomInitializeFunctionsCalled, RegisterHeadServices, RegisterServices, RegisterTailServices,
     PatchServices, AfterServicesRegistered, AfterInitialized]"

lemma guard_quiet:
  assumes "quiet M fs" and "with_modules k a" and "perform M g a = check_state what allowed s a"
    and "ap_state a \<in> set allowed"
  shows "\<exists>cores. run_actions M (g # InvokeHandles s # concat (map updateState ss) @ xs) a =
      run_actions M xs (a\<lparr>ap_state := last (s # ss), ap_log := ap_log a @ s # ss, ap_shardData := Some cores\<rparr>) \<and>
    (\<forall>core \<in> set cores. length (pc_modules core) = k)"
proof -
  have "run_actions M (g # InvokeHandles s # concat (map updateState ss) @ xs) a =
      run_actions M (concat (map updateState (s # ss)) @ xs) a"
    using assms(3,4) by (simp add: check_state_def updateState_def)
  with updates_quiet [OF assms(1,2), of "s # ss" xs] show ?thesis by simp
qed

lemma create_quiet:
  assumes "\<forall>f \<in> set fs. \<forall>i. \<exists>m. fst f i = Inr m"
  shows "fst (create_modules i fs core) = None \<and>
    length (pc_modules (snd (create_modules i fs core))) = length (pc_modules core) + length fs"
  using assms
proof (induction fs arbitrary: core)
  case (Cons f fs)
  then obtain m where "fst f i = Inr m" by (metis list.set_intros(1))
  with Cons.IH [of "core\<lparr>pc_modules := pc_modules core @ [m]\<rparr>"] Cons.prems show ?case by simp
qed simp

lemma initialize_quiet:
  assumes "\<forall>f \<in> set fs. \<forall>g i m. snd f = Some g \<longrightarrow> fst (g i m) = None"
  shows "fst (initialize_modules i fs ms) = None \<and> length (snd (initialize_modules i fs ms)) = length ms"
  using assms
proof (induction i fs ms rule: initialize_modules.induct)
  case (1 i f fs m ms)
  show ?case
  proof (cases "snd f")
    case None
    with 1 show ?thesis by (auto split: prod.split)
  next
    case (Some g)
    with "1.prems" obtain m' where "g i m = (None, m')" by (metis list.set_intros(1) prod.collapse)
    with Some 1 show ?thesis by (auto split: prod.split)
  qed
qed simp_all

lemma initialize_run_quiet:
  assumes q: "quiet M (ap_factories a)" and a: "ap_shardData a = Some (replicate n \<lparr>pc_container = c, pc_modules = []\<rparr>)"
  shows "\<exists>cores. run_actions M (initialize_actions @ xs) a =
      run_actions M xs (a\<lparr>ap_state := AfterInitialized, ap_log := ap_log a @ initialize_states, ap_shardData := Some cores\<rparr>) \<and>
    (\<forall>core \<in> set cores. length (pc_modules core) = length (ap_factories a))"
proof -
  let ?k = "length (ap_factories a)"
  let ?first = "[StartInitialize, RegisterBasicServices, BeforeCallCustomInitializeFunctions]"
  let ?last = "[AfterCustomInitializeFunctionsCalled, RegisterHeadServices, RegisterServices, RegisterTailServices,
     PatchServices, AfterServicesRegistered, AfterInitialized]"
  have create: "\<forall>f \<in> set (ap_factories a). \<forall>i. \<exists>m. fst f i = Inr m"
    and init: "\<forall>f \<in> set (ap_factories a). \<forall>g i m. snd f = Some g \<longrightarrow> fst (g i m) = None"
    using q by (auto simp: quiet_def)
  have "\<exists>cores. perform M CreateModules a = (None, a\<lparr>ap_shardData := Some cores\<rparr>) \<and>
      (\<forall>core \<in> set cores. length (pc_modules core) = ?k)"
    unfolding perform.simps
    by (rule on_shards_quiet [OF a]) (use create_quiet [OF create] in auto)
  then obtain cores1 where c1: "perform M CreateModules a = (None, a\<lparr>ap_shardData := Some cores1\<rparr>)"
    and k1: "with_modules ?k (a\<lparr>ap_shardData := Some cores1\<rparr>)"
    by (auto simp: with_modules_def)
  let ?a2 = "\<lambda>cores. a\<lparr>ap_state := CallingCustomIntializeFunctions, ap_log := ap_log a @ ?first, ap_shardData := Some cores\<rparr>"
  define rest where "rest = CallInitializeFunctions # concat (map updateState ?last) @ xs"
  obtain cores2 where "run_actions M (concat (map updateState ?first) @ SetState CallingCustomIntializeFunctions # rest)
        (a\<lparr>ap_shardData := Some cores1\<rparr>) =
      run_actions M (SetState CallingCustomIntializeFunctions # rest) (a\<lparr>ap_shardData := Some cores1\<rparr>
        \<lparr>ap_state := last (ap_state (a\<lparr>ap_shardData := Some cores1\<rparr>) # ?first),
         ap_log := ap_log (a\<lparr>ap_shardData := Some cores1\<rparr>) @ ?first, ap_shardData := Some cores2\<rparr>)"
    and k2: "\<forall>core \<in> set cores2. length (pc_modules core) = ?k"
    using updates_quiet [OF q k1, of ?first "SetState CallingCustomIntializeFunctions # rest"] by blast
  then have c2: "run_actions M (concat (map updateState ?first) @ SetState CallingCustomIntializeFunctions # rest)
      (a\<lparr>ap_shardData := Some cores1\<rparr>) = run_actions M rest (?a2 cores2)"
    by (simp, intro arg_cong [where f = "run_actions M rest"] application.equality) simp_all
  have "\<exists>cores. perform M CallInitializeFunctions (?a2 cores2) = (None, (?a2 cores2)\<lparr>ap_shardData := Some cores\<rparr>) \<and>
      (\<forall>core \<in> set cores. length (pc_modules core) = ?k)"
    unfolding perform.simps
    by (rule on_shards_quiet [where cores = cores2])
      (use k2 initialize_quiet [OF init] in \<open>auto simp: initialize_core_def case_prod_beta\<close>)
  then obtain cores3 where c3: "perform M CallInitializeFunctions (?a2 cores2) = (None, ?a2 cores3)"
    and k3: "with_modules ?k (?a2 cores3)"
    by (auto simp: with_modules_def)
  obtain cores4 where c4: "run_actions M (concat (map updateState ?last) @ xs) (?a2 cores3) =
      run_actions M xs (a\<lparr>ap_state := AfterInitialized, ap_log := ap_log a @ initialize_states, ap_shardData := Some cores4\<rparr>)"
    and k4: "\<forall>core \<in> set cores4. length (pc_modules core) = ?k"
    using updates_quiet [OF q k3, of ?last xs] by (auto simp: initialize_states_def)
  have "initialize_actions @ xs = CreateModules # concat (map updateState ?first) @
      SetState CallingCustomIntializeFunctions # rest"
    by (simp add: initialize_actions_def rest_def)
  then have "run_actions M (initialize_actions @ xs) a = run_actions M rest (?a2 cores2)"
    using c1 c2 by simp
  also have "\<dots> = run_actions M (concat (map updateState ?last) @ xs) (?a2 cores3)"
    unfolding rest_def run_actions.simps c3 by simp
  finally have "run_actions M (initialize_actions @ xs) a =
      run_actions M (concat (map updateState ?last) @ xs) (?a2 cores3)" .
  with c4 k4 show ?thesis by auto
qed

text \<open>With modules that do not fail the application is in one of four states between calls.\<close>

definition settled :: "('m, 'c) application \<Rightarrow> bool" where
  "settled a \<longleftrightarrow>
     (case ap_state a of
        StartInitialize \<Rightarrow> ap_shardData a = None
      | AfterStarted \<Rightarrow> with_modules (length (ap_factories a)) a
      | AfterTemporaryStopped \<Rightarrow> with_modules (length (ap_factories a)) a
      | AfterStopped \<Rightarrow> ap_shardData a = None
      | _ \<Rightarrow> False)"

text \<open>A call that succeeds ends in state \<open>s\<close> and has called the modules for the states \<open>ss\<close>.\<close>

definition succeeds ::
  "ApplicationState \<Rightarrow> ApplicationState list \<Rightarrow> ('m, 'c) application \<Rightarrow> application_error option \<times> ('m, 'c) application \<Rightarrow> bool" where
  "succeeds s ss a result \<longleftrightarrow> fst result = None \<and> ap_state (snd result) = s \<and> ap_log (snd result) = ap_log a @ ss \<and>
     ap_factories (snd result) = ap_factories a \<and> settled (snd result)"

lemma start_quiet:
  assumes q: "quiet M (ap_factories a)" and a: "settled a"
  shows "if ap_state a = StartInitialize then succeeds AfterStarted (initialize_states @ start_states) a (application_start M a)
    else if ap_state a = AfterTemporaryStopped then succeeds AfterStarted start_states a (application_start M a)
    else application_start M a = (Some (IncorrectState ''starting'' (ap_state a)), a)"
proof -
  consider "ap_state a = StartInitialize" "ap_shardData a = None"
    | "ap_state a = AfterTemporaryStopped" "with_modules (length (ap_factories a)) a"
    | "ap_state a \<in> {AfterStarted, AfterStopped}"
    using a by (auto simp: settled_def split: ApplicationState.splits)
  then show ?thesis
  proof cases
    case 1
    let ?a = "a\<lparr>ap_shardData := Some (replicate (mc_cores M) \<lparr>pc_container = mc_container M, pc_modules = []\<rparr>)\<rparr>"
    have "quiet M (ap_factories ?a)" using q by simp
    from initialize_run_quiet [OF this, of _ _ startImpl] obtain cores where
      run: "run_actions M (initialize_actions @ startImpl) ?a = run_actions M startImpl
        (?a\<lparr>ap_state := AfterInitialized, ap_log := ap_log ?a @ initialize_states, ap_shardData := Some cores\<rparr>)"
      and k: "\<forall>core \<in> set cores. length (pc_modules core) = length (ap_factories a)"
      by auto
    define b where "b = ?a\<lparr>ap_state := AfterInitialized, ap_log := ap_log ?a @ initialize_states, ap_shardData := Some cores\<rparr>"
    have "with_modules (length (ap_factories a)) b" using k by (simp add: b_def with_modules_def)
    from guard_quiet [OF q this perform.simps(5), of "[Starting, AfterStarted]" "[]"]
    have "succeeds AfterStarted (initialize_states @ start_states) a (run_actions M startImpl b)"
      by (auto simp: b_def impl_updates(1) succeeds_def settled_def with_modules_def start_states_def
          simp del: run_actions.simps(2) perform.simps)
    with 1 run show ?thesis by (simp add: application_start_def ensureInitialized_def b_def)
  next
    case 2
    from guard_quiet [OF q 2(2) perform.simps(5), of "[Starting, AfterStarted]" "[]"] 2(1)
    have "succeeds AfterStarted start_states a (run_actions M startImpl a)"
      by (auto simp: impl_updates(1) succeeds_def settled_def with_modules_def start_states_def
          simp del: run_actions.simps(2) perform.simps)
    with 2 show ?thesis by (simp add: application_start_def ensureInitialized_def)
  next
    case 3
    then show ?thesis
      by (auto simp: application_start_def ensureInitialized_def startImpl_def check_state_def)
  qed
qed

lemma stopTemporary_quiet:
  assumes q: "quiet M (ap_factories a)" and a: "settled a"
  shows "if ap_state a = AfterStarted
    then succeeds AfterTemporaryStopped [BeforeTemporaryStop, TemporaryStopping, AfterTemporaryStopped] a (application_stopTemporary M a)
    else application_stopTemporary M a = (Some (IncorrectState ''temporary stopping'' (ap_state a)), a)"
proof (cases "ap_state a = AfterStarted")
  case True
  with a have "with_modules (length (ap_factories a)) a" by (simp add: settled_def)
  from guard_quiet [OF q this perform.simps(6), of "[TemporaryStopping, AfterTemporaryStopped]" "[]"] True show ?thesis
    by (auto simp: application_stopTemporary_def impl_updates(2) succeeds_def settled_def with_modules_def
        simp del: run_actions.simps(2) perform.simps)
qed (simp add: application_stopTemporary_def stopTemporaryImpl_def check_state_def)

lemma stop_quiet:
  assumes q: "quiet M (ap_factories a)" and a: "settled a"
  shows "if ap_state a \<in> {AfterStarted, AfterTemporaryStopped}
    then succeeds AfterStopped [BeforeStop, Stopping, AfterStopped] a (application_stop M a)
    else application_stop M a = (Some (IncorrectState ''stopping'' (ap_state a)), a)"
proof (cases "ap_state a \<in> {AfterStarted, AfterTemporaryStopped}")
  case True
  with a have "with_modules (length (ap_factories a)) a" by (auto simp: settled_def)
  from guard_quiet [OF q this perform.simps(7), of "[Stopping, AfterStopped]" "[StopShardData]"] True
  obtain cores where "application_stop M a = run_actions M [StopShardData]
      (a\<lparr>ap_state := AfterStopped, ap_log := ap_log a @ [BeforeStop, Stopping, AfterStopped], ap_shardData := Some cores\<rparr>)"
    by (auto simp: application_stop_def impl_updates(3) simp del: run_actions.simps perform.simps)
  with True show ?thesis by (simp add: succeeds_def settled_def)
qed (simp add: application_stop_def stopImpl_def check_state_def)

lemma add_quiet:
  assumes "settled a"
  shows "if ap_state a = StartInitialize
    then fst (application_add f a) = None \<and> settled (snd (application_add f a)) \<and>
      ap_factories (snd (application_add f a)) = ap_factories a @ [f] \<and>
      ap_state (snd (application_add f a)) = StartInitialize
    else application_add f a = (Some CannotAddModule, a)"
  using assms by (cases "ap_state a = StartInitialize") (simp_all add: application_add_def settled_def)

lemma quiet_append: "quiet M (fs @ gs) \<Longrightarrow> quiet M fs"
  unfolding quiet_def set_append by blast

lemma perform_factories: "ap_factories (snd (perform M x a)) = ap_factories a"
  by (cases x) (auto simp: on_shards_def check_state_def split: option.split prod.split)

lemma run_factories: "ap_factories (snd (run_actions M xs a)) = ap_factories a"
proof (induction xs arbitrary: a)
  case (Cons x xs)
  show ?case
    using perform_factories [of M x a] Cons.IH by (auto simp del: perform.simps split: prod.split option.split)
qed simp

lemma start_factories: "ap_factories (snd (application_start M a)) = ap_factories a"
  by (simp add: application_start_def ensureInitialized_def run_factories)

text \<open>The factories are those added, so none of them ever failed if none of the present ones does.\<close>

lemma application_run_settled:
  "application_run M a \<Longrightarrow> quiet M (ap_factories a) \<Longrightarrow> settled a"
proof (induction rule: application_run.induct)
  case run_new
  show ?case by (simp add: settled_def application_new_def)
next
  case (run_add a f)
  show ?case
  proof (cases "ap_state a = StartInitialize")
    case True
    then have "quiet M (ap_factories a @ [f])" using run_add.prems by (simp add: application_add_def)
    from run_add.IH [OF quiet_append [OF this]] True add_quiet [of a f] show ?thesis by simp
  next
    case False
    with run_add show ?thesis by (simp add: application_add_def)
  qed
next
  case (run_start a)
  then show ?case
    using start_quiet [of M a] by (auto simp: start_factories succeeds_def split: if_splits)
next
  case (run_stopTemporary a)
  then show ?case
    using stopTemporary_quiet [of M a]
    by (auto simp: application_stopTemporary_def run_factories succeeds_def split: if_splits)
next
  case (run_stop a)
  then show ?case
    using stop_quiet [of M a]
    by (auto simp: application_stop_def run_factories succeeds_def split: if_splits)
qed

section \<open>Modules that register instances\<close>

text \<open>
  A module given by the services it registers in each state, as in the example of
  \<open>Application.hpp\<close>. The container of a core then holds them in the order of the states and,
  within a state, in the order of the modules.
\<close>

type_synonym 'v service_module = "ApplicationState \<Rightarrow> (service_type \<times> 'v) list"

definition register_all :: "(service_type \<times> 'v) list \<Rightarrow> ('v, 'u) container \<Rightarrow> ('v, 'u) container" where
  "register_all xs c = foldl (\<lambda>c (ty, v). add_instance ty v c) c xs"

definition services_machine :: "nat \<Rightarrow> 'u \<Rightarrow> ('v service_module, ('v, 'u) container) machine" where
  "services_machine n u =
     \<lparr>mc_handle = (\<lambda>m c s. (None, m, register_all (m s) c)), mc_cores = n, mc_container = container_new u\<rparr>"

definition services_application :: "'v service_module list \<Rightarrow> ('v service_module, ('v, 'u) container) application" where
  "services_application ms = foldl (\<lambda>a m. snd (application_add (\<lambda>_. Inr m, None) a)) application_new ms"

definition services_of :: "service_type \<Rightarrow> (service_type \<times> 'v) list \<Rightarrow> 'v list" where
  "services_of ty xs = map snd (filter (\<lambda>x. fst x = ty) xs)"

lemma register_all_simps [simp]:
  "register_all [] c = c"
  "register_all (x # xs) c = register_all xs (add_instance (fst x) (snd x) c)"
  "register_all (xs @ ys) c = register_all ys (register_all xs c)"
  by (simp_all add: register_all_def case_prod_beta)

lemma holds_register_all: "holds_instances ty vs c \<Longrightarrow> holds_instances ty (vs @ services_of ty xs) (register_all xs c)"
proof (induction xs arbitrary: vs c)
  case (Cons x xs)
  from Cons.IH [OF holds_instances_add [OF Cons.prems, of "fst x" "snd x"]] show ?case
    by (simp add: services_of_def split: if_splits)
qed (simp add: services_of_def)

lemma invoke_replicate:
  assumes "\<And>i. f i core = (None, core')"
  shows "invoke_on_all f (replicate n core) = (None, replicate n core')"
proof -
  have "map (\<lambda>(i, core). snd (f i core)) (enumerate 0 (replicate n core)) = replicate n core'"
    using assms by (intro nth_equalityI) (simp_all add: nth_enumerate_eq)
  moreover have "invoke_on_all f (replicate n core) =
      (None, map (\<lambda>(i, core). snd (f i core)) (enumerate 0 (replicate n core)))"
    by (rule invoke_quiet) (use assms in auto)
  ultimately show ?thesis by simp
qed

lemma handle_services:
  "handle_modules (mc_handle (services_machine n u)) s ms c = (None, ms, register_all (concat (map (\<lambda>m. m s) ms)) c)"
  by (induction ms arbitrary: c) (simp_all add: services_machine_def)

lemma invoke_services:
  assumes "ap_shardData a = Some (replicate n \<lparr>pc_container = c, pc_modules = ms\<rparr>)"
  shows "run_actions (services_machine n u) (InvokeHandles s # xs) a = run_actions (services_machine n u) xs
    (a\<lparr>ap_log := ap_log a @ [s], ap_shardData := Some (replicate n
      \<lparr>pc_container = register_all (concat (map (\<lambda>m. m s) ms)) c, pc_modules = ms\<rparr>)\<rparr>)"
proof -
  have "invoke_on_all (\<lambda>_. handle_core (mc_handle (services_machine n u)) s) (replicate n \<lparr>pc_container = c, pc_modules = ms\<rparr>) =
      (None, replicate n \<lparr>pc_container = register_all (concat (map (\<lambda>m. m s) ms)) c, pc_modules = ms\<rparr>)"
    by (rule invoke_replicate) (simp add: handle_core_def handle_services)
  with assms show ?thesis by (simp add: on_shards_def)
qed

lemma updates_services:
  assumes "ap_shardData a = Some (replicate n \<lparr>pc_container = c, pc_modules = ms\<rparr>)"
  shows "\<exists>a'. run_actions (services_machine n u) (concat (map updateState ss) @ xs) a = run_actions (services_machine n u) xs a' \<and>
    ap_state a' = last (ap_state a # ss) \<and> ap_factories a' = ap_factories a \<and>
    ap_shardData a' = Some (replicate n
      \<lparr>pc_container = register_all (concat (map (\<lambda>s. concat (map (\<lambda>m. m s) ms)) ss)) c, pc_modules = ms\<rparr>)"
  using assms
proof (induction ss arbitrary: a c)
  case Nil
  then show ?case by (intro exI [of _ a]) simp
next
  case (Cons s ss)
  let ?c = "register_all (concat (map (\<lambda>m. m s) ms)) c"
  let ?a = "a\<lparr>ap_state := s, ap_log := ap_log a @ [s], ap_shardData := Some (replicate n \<lparr>pc_container = ?c, pc_modules = ms\<rparr>)\<rparr>"
  have "run_actions (services_machine n u) (concat (map updateState (s # ss)) @ xs) a =
      run_actions (services_machine n u) (concat (map updateState ss) @ xs) ?a"
    using invoke_services [of "a\<lparr>ap_state := s\<rparr>" n c ms u s "concat (map updateState ss) @ xs"] Cons.prems
    by (simp add: updateState_def del: perform.simps(3) run_actions.simps) (simp add: run_SetState)
  with Cons.IH [of ?a ?c] show ?case by simp
qed

abbreviation service_factory_of :: "'v service_module \<Rightarrow> 'v service_module module_factory" where
  "service_factory_of m \<equiv> (\<lambda>_. Inr m, None)"

lemma services_application_eq:
  "services_application ms = \<lparr>ap_state = StartInitialize, ap_factories = map service_factory_of ms,
     ap_shardData = None, ap_log = []\<rparr>"
proof -
  have "foldl (\<lambda>a m. snd (application_add (service_factory_of m) a))
      \<lparr>ap_state = StartInitialize, ap_factories = fs, ap_shardData = None, ap_log = []\<rparr> ms =
    \<lparr>ap_state = StartInitialize, ap_factories = fs @ map service_factory_of ms, ap_shardData = None, ap_log = []\<rparr>" for fs
    by (induction ms arbitrary: fs) (simp_all add: application_add_def)
  from this [of "[]"] show ?thesis by (simp add: services_application_def application_new_def)
qed

lemma create_services:
  "create_modules i (map service_factory_of ms) core = (None, core\<lparr>pc_modules := pc_modules core @ ms\<rparr>)"
  by (induction ms arbitrary: core) simp_all

lemma initialize_services: "initialize_core (map service_factory_of ms) i \<lparr>pc_container = c, pc_modules = ms\<rparr> =
    (None, \<lparr>pc_container = c, pc_modules = ms\<rparr>)"
proof -
  have "initialize_modules i (map service_factory_of ms) ms = (None, ms)" by (induction ms) simp_all
  then show ?thesis by (simp add: initialize_core_def)
qed

lemma on_shards_replicate:
  assumes "ap_shardData a = Some (replicate n core)" and "\<And>i. f i core = (None, core')"
  shows "on_shards f a = (None, a\<lparr>ap_shardData := Some (replicate n core')\<rparr>)"
  using assms(1) invoke_replicate [of f core core' n, OF assms(2)] by (simp add: on_shards_def)

lemma start_services:
  fixes ms :: "'v service_module list" and u :: 'u
  defines "services \<equiv> \<lambda>ss. concat (map (\<lambda>s. concat (map (\<lambda>m. m s) ms)) ss)"
  shows "\<exists>a'. application_start (services_machine n u) (services_application ms) = (None, a') \<and> ap_state a' = AfterStarted \<and>
    ap_shardData a' = Some (replicate n \<lparr>pc_container =
      register_all (services (initialize_states @ start_states)) (container_new u), pc_modules = ms\<rparr>)"
proof -
  let ?M = "services_machine n u :: ('v service_module, ('v, 'u) container) machine"
  let ?first = "[StartInitialize, RegisterBasicServices, BeforeCallCustomInitializeFunctions]"
  let ?last = "[AfterCustomInitializeFunctionsCalled, RegisterHeadServices, RegisterServices, RegisterTailServices,
     PatchServices, AfterServicesRegistered, AfterInitialized]"
  define rest where "rest = CallInitializeFunctions # concat (map updateState ?last) @ startImpl"
  let ?core = "\<lambda>ss. \<lparr>pc_container = register_all (services ss) (container_new u :: ('v, 'u) container), pc_modules = ms\<rparr>"
  let ?a0 = "(services_application ms :: ('v service_module, ('v, 'u) container) application)
     \<lparr>ap_shardData := Some (replicate n \<lparr>pc_container = container_new u, pc_modules = []\<rparr>)\<rparr>"
  let ?a1 = "?a0\<lparr>ap_shardData := Some (replicate n (?core []))\<rparr>"
  have "perform ?M CreateModules ?a0 = (None, ?a1)"
    unfolding perform.simps
    by (subst on_shards_replicate [where core = "\<lparr>pc_container = container_new u, pc_modules = []\<rparr>" and core' = "?core []"])
      (simp_all add: services_application_eq create_services services_def)
  then have start: "application_start ?M (services_application ms) =
      run_actions ?M (concat (map updateState ?first) @ SetState CallingCustomIntializeFunctions # rest) ?a1"
    by (simp add: application_start_def ensureInitialized_def services_application_eq services_machine_def
        initialize_actions_def rest_def del: perform.simps)
  obtain a2 where a2: "application_start ?M (services_application ms) =
        run_actions ?M (SetState CallingCustomIntializeFunctions # rest) a2"
    "ap_shardData a2 = Some (replicate n (?core ?first))" "ap_factories a2 = map service_factory_of ms"
    using updates_services [of ?a1 n _ ms u ?first "SetState CallingCustomIntializeFunctions # rest"] start
    by (auto simp: services_application_eq services_def)
  define a3 where "a3 = a2\<lparr>ap_state := CallingCustomIntializeFunctions\<rparr>"
  have "perform ?M CallInitializeFunctions a3 = (None, a3\<lparr>ap_shardData := Some (replicate n (?core ?first))\<rparr>)"
    unfolding perform.simps a3_def
    by (rule on_shards_replicate [where core = "?core ?first"]) (simp_all add: a2 initialize_services)
  then have "application_start ?M (services_application ms) =
      run_actions ?M (concat (map updateState ?last) @ startImpl) (a3\<lparr>ap_shardData := Some (replicate n (?core ?first))\<rparr>)"
    by (simp add: a2(1) rest_def a3_def del: perform.simps(4))
  then obtain a4 where a4: "application_start ?M (services_application ms) = run_actions ?M startImpl a4"
    "ap_state a4 = AfterInitialized" "ap_shardData a4 = Some (replicate n (?core (?first @ ?last)))"
    using updates_services [of "a3\<lparr>ap_shardData := Some (replicate n (?core ?first))\<rparr>" n _ ms u ?last startImpl]
    by (auto simp: services_def)
  have "run_actions ?M startImpl a4 = run_actions ?M (concat (map updateState start_states) @ []) a4"
    using a4(2) by (simp add: startImpl_def start_states_def check_state_def updateState_def)
  with updates_services [OF a4(3), of u start_states "[]"] a4(1) show ?thesis
    by (auto simp: services_def start_states_def initialize_states_def)
qed

section \<open>Properties\<close>

text \<open>
  C18. Whatever the modules do and whichever calls fail, the states for which the modules of an
  application are called are a path of the life cycle: the initialization once, from
  \<open>StartInitialize\<close> on, then starts and temporary stops in turn, and nothing after a stop. The dummy
  state \<open>CallingCustomIntializeFunctions\<close> is never handled.
\<close>

theorem application_life_cycle:
  assumes "application_run M a"
  shows "lifecycle (ap_log a) \<and> CallingCustomIntializeFunctions \<notin> set (ap_log a)"
proof -
  have life: "lifecycle (ap_log a)" using application_run_inv [OF assms] by (simp add: application_inv_def)
  have "CallingCustomIntializeFunctions \<notin> set ss" if "successively (\<lambda>s t. t \<in> set (successors s)) ss"
    "ss \<noteq> [] \<longrightarrow> hd ss \<noteq> CallingCustomIntializeFunctions" for ss
    using that
  proof (induction ss rule: induct_list012)
    case (3 s t ss)
    moreover have "t \<noteq> CallingCustomIntializeFunctions" using 3(3) by (cases s) auto
    ultimately show ?case by auto
  qed auto
  then show ?thesis using life by (auto simp: lifecycle_def)
qed

theorem application_life_cycle_witness:
  "lifecycle (ap_log (snd (application_start (services_machine 2 ()) (application_new :: (nat service_module, (nat, unit) container) application)))) \<and>
   CallingCustomIntializeFunctions \<notin>
     set (ap_log (snd (application_start (services_machine 2 ()) (application_new :: (nat service_module, (nat, unit) container) application))))"
  by (rule application_life_cycle [where M = "services_machine 2 ()"]) (intro application_run.intros)

text \<open>
  C17. An application whose modules do not fail behaves as a machine of four states, new, started,
  temporarily stopped and stopped: a call that fits the state succeeds, calls the modules for
  exactly its states and ends in its final state, and any other call throws a \<open>LogicException\<close> and
  changes nothing.
\<close>

theorem application_protocol:
  assumes "application_run M a" and "quiet M (ap_factories a)"
  shows "(if ap_state a = StartInitialize then succeeds AfterStarted (initialize_states @ start_states) a (application_start M a)
     else if ap_state a = AfterTemporaryStopped then succeeds AfterStarted start_states a (application_start M a)
     else application_start M a = (Some (IncorrectState ''starting'' (ap_state a)), a)) \<and>
    (if ap_state a = AfterStarted
     then succeeds AfterTemporaryStopped [BeforeTemporaryStop, TemporaryStopping, AfterTemporaryStopped] a (application_stopTemporary M a)
     else application_stopTemporary M a = (Some (IncorrectState ''temporary stopping'' (ap_state a)), a)) \<and>
    (if ap_state a \<in> {AfterStarted, AfterTemporaryStopped}
     then succeeds AfterStopped [BeforeStop, Stopping, AfterStopped] a (application_stop M a)
     else application_stop M a = (Some (IncorrectState ''stopping'' (ap_state a)), a)) \<and>
    (ap_state a \<noteq> StartInitialize \<longrightarrow> application_add f a = (Some CannotAddModule, a)) \<and>
    ap_state a \<in> {StartInitialize, AfterStarted, AfterTemporaryStopped, AfterStopped}"
proof -
  have a: "settled a" using assms by (rule application_run_settled)
  have "ap_state a \<in> {StartInitialize, AfterStarted, AfterTemporaryStopped, AfterStopped}"
    using a by (auto simp: settled_def split: ApplicationState.splits)
  with start_quiet [OF assms(2) a] stopTemporary_quiet [OF assms(2) a] stop_quiet [OF assms(2) a] add_quiet [OF a, of f]
  show ?thesis by simp
qed

theorem application_protocol_witness:
  "\<exists>a :: (nat service_module, (nat, unit) container) application.
     application_run (services_machine 2 ()) a \<and> quiet (services_machine 2 ()) (ap_factories a) \<and>
     succeeds AfterStarted (initialize_states @ start_states) a (application_start (services_machine 2 ()) a)"
proof (intro exI conjI)
  let ?M = "services_machine 2 () :: (nat service_module, (nat, unit) container) machine"
  let ?a = "application_new :: (nat service_module, (nat, unit) container) application"
  show run: "application_run ?M ?a" by (rule application_run.run_new)
  show q: "quiet ?M (ap_factories ?a)" by (simp add: quiet_def services_machine_def application_new_def)
  show "succeeds AfterStarted (initialize_states @ start_states) ?a (application_start ?M ?a)"
    using application_protocol [OF run q] by (simp add: application_new_def)
qed

text \<open>
  C19. The order of services that the documentation of \<open>Application\<close> describes: after \<open>start\<close>, on
  every core, \<open>getMany\<close> of a type gives the instances the modules registered in the order of the
  states and, within a state, of the modules as they were added.
\<close>

theorem services_in_module_order:
  assumes "pg_copyable P ty"
  shows "\<exists>a' c. application_start (services_machine n u) (services_application ms) = (None, a') \<and>
    ap_shardData a' = Some (replicate n \<lparr>pc_container = c, pc_modules = ms\<rparr>) \<and>
    container_getMany P (Suc k) AsCollection ty sg [] c =
      (let vs = services_of ty (concat (map (\<lambda>s. concat (map (\<lambda>m. m s) ms)) (initialize_states @ start_states)))
       in Some (Val (vs, length vs), c))"
proof -
  let ?xs = "concat (map (\<lambda>s. concat (map (\<lambda>m. m s) ms)) (initialize_states @ start_states))"
  obtain a' where a': "application_start (services_machine n u) (services_application ms) = (None, a')"
    "ap_shardData a' = Some (replicate n \<lparr>pc_container = register_all ?xs (container_new u), pc_modules = ms\<rparr>)"
    using start_services [of n u ms] by blast
  have "holds_instances ty ([] @ services_of ty ?xs) (register_all ?xs (container_new u))"
    by (intro holds_register_all holds_instances_new)
  from getMany_instances [OF this assms, of k sg "[]"] a' show ?thesis by (auto simp: Let_def)
qed

text \<open>The example of \<open>Application.hpp\<close>: modules A, B and C, and the order q, y, e, w, r, u, t.\<close>

definition doc_modules :: "char service_module list" where
  "doc_modules =
     [(\<lambda>s. if s = RegisterBasicServices then [(1, CHR ''q'')] else if s = RegisterServices then [(1, CHR ''w'')] else []),
      (\<lambda>s. if s = RegisterHeadServices then [(1, CHR ''e'')] else if s = RegisterServices then [(1, CHR ''r'')]
           else if s = RegisterTailServices then [(1, CHR ''t'')] else []),
      (\<lambda>s. if s = RegisterBasicServices then [(1, CHR ''y'')] else if s = RegisterServices then [(1, CHR ''u'')] else [])]"

theorem services_in_module_order_witness:
  "pg_copyable sample_program 1 \<and>
   (\<exists>a' c. application_start (services_machine 2 ()) (services_application doc_modules) = (None, a') \<and>
     ap_shardData a' = Some (replicate 2 \<lparr>pc_container = c, pc_modules = doc_modules\<rparr>) \<and>
     container_getMany sample_program 1 AsCollection 1 0 [] c = Some (Val (''qyewrut'', 7), c))"
proof -
  have copyable: "pg_copyable sample_program 1" by (simp add: sample_program_def)
  have "services_of 1 (concat (map (\<lambda>s. concat (map (\<lambda>m. m s) doc_modules)) (initialize_states @ start_states))) = ''qyewrut''"
    by (simp add: doc_modules_def initialize_states_def start_states_def services_of_def)
  with services_in_module_order [OF copyable, of 2 "()" doc_modules 0 0] copyable show ?thesis
    by (auto simp: Let_def numeral_eq_Suc simp del: getInstance.simps)
qed

section \<open>Behaviour that a client may not expect\<close>

text \<open>
  The state is set before the modules are called for it. When \<open>start\<close> has only the handlers of
  \<open>AfterStarted\<close> left to call, \<open>stop\<close> already finds the state it asks for and goes on, so the two
  calls run at the same time.
\<close>

lemma stop_overlaps_start:
  "\<exists>a. run_actions (services_machine 1 ()) (butlast (initialize_actions @ startImpl))
     ((services_application doc_modules)\<lparr>ap_shardData := Some []\<rparr>) = (None, a) \<and>
   last (ap_log a) = Starting \<and> fst (perform (services_machine 1 ()) GuardStop a) = None"
  by (simp add: initialize_actions_def startImpl_def updateState_def on_shards_def invoke_on_all_def
      check_state_def services_application_eq)

text \<open>
  After an initialization that failed the application can neither be started nor stopped: the data of
  the cores stays until the destructor leaks it.
\<close>

lemma failed_initialization_not_stopped:
  "\<exists>a. application_start \<lparr>mc_handle = (\<lambda>m c s. (if s = RegisterServices then Some 0 else None, m, c)), mc_cores = 1,
       mc_container = ()\<rparr> (snd (application_add (\<lambda>_. Inr (), None) application_new)) = (Some (ModuleError 0), a) \<and>
     ap_shardData a \<noteq> None \<and> (\<forall>M. application_start M a = (Some (IncorrectState ''starting'' RegisterServices), a) \<and>
       application_stop M a = (Some (IncorrectState ''stopping'' RegisterServices), a))"
  by (simp add: application_start_def application_stop_def ensureInitialized_def initialize_actions_def startImpl_def
      stopImpl_def updateState_def on_shards_def invoke_on_all_def check_state_def application_add_def
      application_new_def handle_core_def initialize_core_def)

end
