(* ===== verification/Http11ParserUrl.thy ===== *)
theory Http11ParserUrl
  imports Http11ParserTypes
begin

text \<open>
  The URL splitter of the parser: \<open>http_parse_host_char\<close>, \<open>http_parse_host\<close> and
  \<open>http_parser_parse_url\<close> of \<open>Http11Parser.cpp\<close>, and the small functions behind it.

  Offsets and lengths of the fields are 16 bit words, as in \<open>struct http_parser_url\<close>; the bit mask
  \<open>field_set\<close> is a set of fields. A failed assertion and a read outside the buffer are outcomes of
  their own.
\<close>

section \<open>Data\<close>

datatype url_field = UF_SCHEMA | UF_HOST | UF_PORT | UF_PATH | UF_QUERY | UF_FRAGMENT | UF_USERINFO

record http_parser_url =
  u_field_set :: "url_field set"
  u_port :: u16
  u_off :: "url_field \<Rightarrow> u16"
  u_len :: "url_field \<Rightarrow> u16"

definition http_parser_url_init :: http_parser_url where
  "http_parser_url_init = \<lparr>u_field_set = {}, u_port = 0, u_off = (\<lambda>_. 0), u_len = (\<lambda>_. 0)\<rparr>"

datatype url_result = UrlOk http_parser_url | UrlInvalid http_parser_url | UrlAssertion | UrlOutside

datatype http_host_state =
    s_http_host_dead | s_http_userinfo_start | s_http_userinfo | s_http_host_start | s_http_host_v6_start
  | s_http_host | s_http_host_v6 | s_http_host_v6_end | s_http_host_v6_zone_start | s_http_host_v6_zone
  | s_http_host_port_start | s_http_host_port

section \<open>Hosts\<close>

text \<open>A case that falls through is repeated in the case it falls into.\<close>

definition http_parse_host_char :: "http_host_state \<Rightarrow> char \<Rightarrow> http_host_state" where
  "http_parse_host_char s ch =
     (case s of
        s_http_userinfo \<Rightarrow>
          if ch = CHR ''@'' then s_http_host_start else if IS_USERINFO_CHAR ch then s_http_userinfo else s_http_host_dead
      | s_http_userinfo_start \<Rightarrow>
          if ch = CHR ''@'' then s_http_host_start else if IS_USERINFO_CHAR ch then s_http_userinfo else s_http_host_dead
      | s_http_host_start \<Rightarrow>
          if ch = CHR ''['' then s_http_host_v6_start else if IS_HOST_CHAR ch then s_http_host else s_http_host_dead
      | s_http_host \<Rightarrow>
          if IS_HOST_CHAR ch then s_http_host else if ch = CHR '':'' then s_http_host_port_start else s_http_host_dead
      | s_http_host_v6_end \<Rightarrow> if ch = CHR '':'' then s_http_host_port_start else s_http_host_dead
      | s_http_host_v6 \<Rightarrow>
          if ch = CHR '']'' then s_http_host_v6_end
          else if IS_HEX ch \<or> ch = CHR '':'' \<or> ch = CHR ''.'' then s_http_host_v6
          else if ch = CHR ''%'' then s_http_host_v6_zone_start else s_http_host_dead
      | s_http_host_v6_start \<Rightarrow>
          if IS_HEX ch \<or> ch = CHR '':'' \<or> ch = CHR ''.'' then s_http_host_v6 else s_http_host_dead
      | s_http_host_v6_zone \<Rightarrow>
          if ch = CHR '']'' then s_http_host_v6_end
          else if IS_ALPHANUM ch \<or> ch \<in> set ''%.-_~'' then s_http_host_v6_zone else s_http_host_dead
      | s_http_host_v6_zone_start \<Rightarrow>
          if IS_ALPHANUM ch \<or> ch \<in> set ''%.-_~'' then s_http_host_v6_zone else s_http_host_dead
      | s_http_host_port \<Rightarrow> if IS_NUM ch then s_http_host_port else s_http_host_dead
      | s_http_host_port_start \<Rightarrow> if IS_NUM ch then s_http_host_port else s_http_host_dead
      | s_http_host_dead \<Rightarrow> s_http_host_dead)"

definition url_extend :: "url_field \<Rightarrow> http_parser_url \<Rightarrow> http_parser_url" where
  "url_extend f u = u\<lparr>u_len := (u_len u)(f := u_len u f + 1)\<rparr>"

definition url_move :: "url_field \<Rightarrow> nat \<Rightarrow> http_parser_url \<Rightarrow> http_parser_url" where
  "url_move f p u = u\<lparr>u_off := (u_off u)(f := of_nat p)\<rparr>"

definition url_open :: "url_field \<Rightarrow> nat \<Rightarrow> http_parser_url \<Rightarrow> http_parser_url" where
  "url_open f p u = u\<lparr>u_off := (u_off u)(f := of_nat p), u_len := (u_len u)(f := 0),
     u_field_set := insert f (u_field_set u)\<rparr>"

text \<open>The switch on the new state.\<close>

definition host_step :: "http_host_state \<Rightarrow> http_host_state \<Rightarrow> nat \<Rightarrow> http_parser_url \<Rightarrow> http_parser_url" where
  "host_step s new_s p u =
     (case new_s of
        s_http_host \<Rightarrow> url_extend UF_HOST (if s \<noteq> s_http_host then url_move UF_HOST p u else u)
      | s_http_host_v6 \<Rightarrow> url_extend UF_HOST (if s \<noteq> s_http_host_v6 then url_move UF_HOST p u else u)
      | s_http_host_v6_zone_start \<Rightarrow> url_extend UF_HOST u
      | s_http_host_v6_zone \<Rightarrow> url_extend UF_HOST u
      | s_http_host_port \<Rightarrow> url_extend UF_PORT (if s \<noteq> s_http_host_port then url_open UF_PORT p u else u)
      | s_http_userinfo \<Rightarrow> url_extend UF_USERINFO (if s \<noteq> s_http_userinfo then url_open UF_USERINFO p u else u)
      | _ \<Rightarrow> u)"

fun host_loop :: "string \<Rightarrow> nat \<Rightarrow> http_host_state \<Rightarrow> http_parser_url \<Rightarrow> url_result \<times> http_host_state" where
  "host_loop [] p s u = (UrlOk u, s)"
| "host_loop (ch # chs) p s u =
     (let new_s = http_parse_host_char s ch
      in if new_s = s_http_host_dead then (UrlInvalid u, s)
         else host_loop chs (Suc p) new_s (host_step s new_s p u))"

definition http_parse_host :: "string \<Rightarrow> http_parser_url \<Rightarrow> bool \<Rightarrow> url_result" where
  "http_parse_host buf u found_at =
     (let off = unat (u_off u UF_HOST); buflen = off + unat (u_len u UF_HOST)
      in if UF_HOST \<notin> u_field_set u then UrlAssertion
         else if buflen > length buf then UrlOutside
         else
           (case host_loop (drop off (take buflen buf)) off
                   (if found_at then s_http_userinfo_start else s_http_host_start)
                   (u\<lparr>u_len := (u_len u)(UF_HOST := 0)\<rparr>) of
              (UrlOk u', s) \<Rightarrow>
                if s \<in> {s_http_host_start, s_http_host_v6_start, s_http_host_v6, s_http_host_v6_zone_start,
                        s_http_host_v6_zone, s_http_host_port_start, s_http_userinfo, s_http_userinfo_start}
                then UrlInvalid u' else UrlOk u'
            | (r, _) \<Rightarrow> r))"

section \<open>URLs\<close>

datatype url_class = UrlDead | UrlDelimiter | UrlField url_field | UrlUnexpected

fun url_class_of :: "state \<Rightarrow> url_class" where
  "url_class_of s_dead = UrlDead"
| "url_class_of s_req_schema_slash = UrlDelimiter"
| "url_class_of s_req_schema_slash_slash = UrlDelimiter"
| "url_class_of s_req_server_start = UrlDelimiter"
| "url_class_of s_req_query_string_start = UrlDelimiter"
| "url_class_of s_req_fragment_start = UrlDelimiter"
| "url_class_of s_req_schema = UrlField UF_SCHEMA"
| "url_class_of s_req_server_with_at = UrlField UF_HOST"
| "url_class_of s_req_server = UrlField UF_HOST"
| "url_class_of s_req_path = UrlField UF_PATH"
| "url_class_of s_req_query_string = UrlField UF_QUERY"
| "url_class_of s_req_fragment = UrlField UF_FRAGMENT"
| "url_class_of _ = UrlUnexpected"

fun url_loop ::
  "string \<Rightarrow> nat \<Rightarrow> state \<Rightarrow> url_field option \<Rightarrow> bool \<Rightarrow> http_parser_url \<Rightarrow> url_result \<times> bool" where
  "url_loop [] p s old_uf found_at u = (UrlOk u, found_at)"
| "url_loop (ch # chs) p s old_uf found_at u =
     (let s' = parse_url_char s ch; found_at' = (found_at \<or> s' = s_req_server_with_at)
      in case url_class_of s' of
           UrlDead \<Rightarrow> (UrlInvalid u, found_at)
         | UrlDelimiter \<Rightarrow> url_loop chs (Suc p) s' old_uf found_at u
         | UrlField uf \<Rightarrow>
             if old_uf = Some uf then url_loop chs (Suc p) s' old_uf found_at' (url_extend uf u)
             else url_loop chs (Suc p) s' (Some uf) found_at' (url_extend uf (url_open uf p u))
         | UrlUnexpected \<Rightarrow> (UrlAssertion, found_at))"

text \<open>
  The digits of a port; \<^const>\<open>None\<close> if the number gets above \<open>0xffff\<close>, as the unsigned \<open>v\<close> also does
  when a character that is not a digit makes it negative. A \<open>char\<close> is signed.
\<close>

definition signed_char :: "char \<Rightarrow> int" where
  "signed_char ch = (if byte ch < 128 then int (byte ch) else int (byte ch) - 256)"

fun port_loop :: "string \<Rightarrow> int \<Rightarrow> int option" where
  "port_loop [] v = Some v"
| "port_loop (ch # chs) v =
     (let v' = v * 10 + (signed_char ch - 48) in if v' < 0 \<or> v' > 0xffff then None else port_loop chs v')"

definition parse_port :: "string \<Rightarrow> http_parser_url \<Rightarrow> url_result" where
  "parse_port buf u =
     (if UF_PORT \<in> u_field_set u then
        (let off = unat (u_off u UF_PORT); len = unat (u_len u UF_PORT)
         in if off + len > length buf then UrlAssertion
            else case port_loop (take len (drop off buf)) 0 of
                   None \<Rightarrow> UrlInvalid u
                 | Some v \<Rightarrow> UrlOk (u\<lparr>u_port := of_int v\<rparr>))
      else UrlOk u)"

definition http_parser_parse_url :: "string \<Rightarrow> bool \<Rightarrow> http_parser_url \<Rightarrow> url_result" where
  "http_parser_parse_url buf is_connect u =
     (if length buf = 0 then UrlInvalid u
      else
        (case url_loop buf 0 (if is_connect then s_req_server_start else s_req_spaces_before_url) None False
                (u\<lparr>u_port := 0, u_field_set := {}\<rparr>) of
           (UrlOk u1, found_at) \<Rightarrow>
             if UF_SCHEMA \<in> u_field_set u1 \<and> UF_HOST \<notin> u_field_set u1 then UrlInvalid u1
             else
               (case (if UF_HOST \<in> u_field_set u1 then http_parse_host buf u1 found_at else UrlOk u1) of
                  UrlOk u2 \<Rightarrow>
                    if is_connect \<and> u_field_set u2 \<noteq> {UF_HOST, UF_PORT} then UrlInvalid u2 else parse_port buf u2
                | r \<Rightarrow> r)
         | (r, _) \<Rightarrow> r))"

section \<open>Fields inside the buffer\<close>

definition url_end :: "http_parser_url \<Rightarrow> url_field \<Rightarrow> nat" where
  "url_end u f = unat (u_off u f) + unat (u_len u f)"

lemma url_extend_fields [simp]:
  "u_field_set (url_extend f u) = u_field_set u" "u_off (url_extend f u) = u_off u"
  by (simp_all add: url_extend_def)

lemma url_open_fields [simp]: "u_field_set (url_open f p u) = insert f (u_field_set u)"
  by (simp add: url_open_def)

lemma url_end_extend:
  assumes "url_end u f < 65535"
  shows "url_end (url_extend f u) g = (if g = f then Suc (url_end u f) else url_end u g)"
proof -
  have "unat (u_len u f) < 65535" using assms by (simp add: url_end_def)
  then have "unat (u_len u f + 1) = Suc (unat (u_len u f))" by (simp add: unat_word_ariths)
  then show ?thesis by (simp add: url_end_def url_extend_def)
qed

lemma url_end_open: "p < 65536 \<Longrightarrow> url_end (url_open f p u) g = (if g = f then p else url_end u g)"
  by (simp add: url_end_def url_open_def unat_of_nat)

lemma url_class_not_unexpected: "url_class_of (parse_url_char s ch) \<noteq> UrlUnexpected"
  using parse_url_char_states [of s ch] by auto

lemma url_class_fields: "url_class_of s = UrlField f \<Longrightarrow> f \<notin> {UF_PORT, UF_USERINFO}"
  by (cases s) auto

definition loop_inside :: "nat \<Rightarrow> url_result \<times> bool \<Rightarrow> bool" where
  "loop_inside n r =
     (case fst r of
        UrlOk u \<Rightarrow> \<forall>f \<in> u_field_set u. url_end u f \<le> n \<and> f \<notin> {UF_PORT, UF_USERINFO}
      | UrlInvalid _ \<Rightarrow> True | _ \<Rightarrow> False)"

lemma url_loop_inside:
  assumes "p + length chs < 65536" and "\<forall>f \<in> u_field_set u. url_end u f \<le> p \<and> f \<notin> {UF_PORT, UF_USERINFO}"
    and "\<forall>f. old_uf = Some f \<longrightarrow> f \<in> u_field_set u"
  shows "loop_inside (p + length chs) (url_loop chs p s old_uf found_at u)"
  using assms
proof (induction chs arbitrary: p s old_uf found_at u)
  case Nil
  then show ?case by (simp add: loop_inside_def)
next
  case (Cons ch chs)
  let ?s = "parse_url_char s ch"
  have p: "Suc p + length chs < 65536" using Cons.prems(1) by simp
  have old: "url_end (url_extend f u) g \<le> Suc p \<and> g \<notin> {UF_PORT, UF_USERINFO}"
    if "g \<in> u_field_set u" "f \<in> u_field_set u" for f g
    using Cons.prems(1,2) that url_end_extend [of u f g] by (force split: if_splits)
  have new: "url_end (url_extend f (url_open f p u)) g \<le> Suc p \<and> g \<notin> {UF_PORT, UF_USERINFO}"
    if "g \<in> insert f (u_field_set u)" "url_class_of ?s = UrlField f" for f g
    using Cons.prems(1,2) that url_end_extend [of "url_open f p u" f g] url_end_open [of p f u] url_class_fields [OF that(2)]
    by (force split: if_splits)
  show ?case
  proof (cases "url_class_of ?s")
    case UrlDelimiter
    with Cons.IH [OF p, of u old_uf ?s found_at] Cons.prems(2,3) show ?thesis by (simp add: Let_def le_SucI)
  next
    case (UrlField f)
    show ?thesis
    proof (cases "old_uf = Some f")
      case True
      with Cons.IH [OF p, of "url_extend f u" old_uf ?s "found_at \<or> ?s = s_req_server_with_at"] UrlField old Cons.prems(3)
      show ?thesis by (simp add: Let_def)
    next
      case False
      with Cons.IH [OF p, of "url_extend f (url_open f p u)" "Some f" ?s "found_at \<or> ?s = s_req_server_with_at"] UrlField new
        url_class_fields [OF UrlField]
      show ?thesis by (simp add: Let_def)
    qed
  qed (use url_class_not_unexpected [of s ch] in \<open>simp_all add: Let_def loop_inside_def\<close>)
qed

text \<open>While the host is read: its own fields end before the current byte, the others inside the buffer, and the port
  consists of digits.\<close>

definition host_base :: "string \<Rightarrow> nat \<Rightarrow> http_parser_url \<Rightarrow> bool" where
  "host_base buf p u \<longleftrightarrow> p \<le> length buf \<and> UF_HOST \<in> u_field_set u \<and>
     (\<forall>f \<in> u_field_set u. url_end u f \<le> length buf) \<and>
     (\<forall>f \<in> u_field_set u \<inter> {UF_HOST, UF_PORT, UF_USERINFO}. url_end u f \<le> p) \<and>
     (UF_PORT \<in> u_field_set u \<longrightarrow> list_all IS_NUM (take (unat (u_len u UF_PORT)) (drop (unat (u_off u UF_PORT)) buf)))"

definition host_inv :: "string \<Rightarrow> nat \<Rightarrow> http_host_state \<Rightarrow> http_parser_url \<Rightarrow> bool" where
  "host_inv buf p s u \<longleftrightarrow> host_base buf p u \<and>
     (s = s_http_host_port \<longrightarrow> UF_PORT \<in> u_field_set u \<and> url_end u UF_PORT = p) \<and>
     (s = s_http_userinfo \<longrightarrow> UF_USERINFO \<in> u_field_set u) \<and>
     (s \<in> {s_http_userinfo_start, s_http_userinfo, s_http_host_start, s_http_host_v6_start} \<longrightarrow> u_len u UF_HOST = 0)"

lemma url_end_move:
  assumes "p < 65536" and "u_len u f = 0"
  shows "url_end (url_move f p u) g = (if g = f then p else url_end u g)"
  using assms by (simp add: url_end_def url_move_def unat_of_nat)

lemma url_move_fields [simp]:
  "u_field_set (url_move f p u) = u_field_set u" "u_len (url_move f p u) = u_len u"
  by (simp_all add: url_move_def)

lemma host_base_Suc: "host_base buf p u \<Longrightarrow> p < length buf \<Longrightarrow> host_base buf (Suc p) u"
  by (auto simp: host_base_def intro: le_SucI)

lemma host_base_move:
  assumes "host_base buf p u" and "u_len u UF_HOST = 0" and "p < length buf" and "length buf < 65536"
  shows "host_base buf p (url_move UF_HOST p u)"
proof -
  have "url_end (url_move UF_HOST p u) g = (if g = UF_HOST then p else url_end u g)" for g
    by (rule url_end_move) (use assms in auto)
  moreover have "u_off (url_move UF_HOST p u) UF_PORT = u_off u UF_PORT" by (simp add: url_move_def)
  ultimately show ?thesis using assms(1,3) by (simp add: host_base_def)
qed

lemma host_base_open:
  assumes "host_base buf p u" and "f \<in> {UF_PORT, UF_USERINFO}" and "p < length buf" and "length buf < 65536"
  shows "host_base buf p (url_open f p u) \<and> url_end (url_open f p u) f = p \<and> u_len (url_open f p u) UF_HOST = u_len u UF_HOST"
proof -
  have "url_end (url_open f p u) g = (if g = f then p else url_end u g)" for g
    by (rule url_end_open) (use assms in auto)
  then show ?thesis using assms(1,2,3) by (auto simp: host_base_def url_open_def)
qed

lemma host_base_extend:
  assumes u: "host_base buf p u" and f: "f \<in> u_field_set u \<inter> {UF_HOST, UF_PORT, UF_USERINFO}"
    and p: "p < length buf" "length buf < 65536" and port: "f = UF_PORT \<longrightarrow> IS_NUM (buf ! p) \<and> url_end u UF_PORT = p"
  shows "host_base buf (Suc p) (url_extend f u) \<and> url_end (url_extend f u) f = Suc (url_end u f)"
proof -
  have small: "url_end u f \<le> p" using u f by (auto simp: host_base_def)
  then have ends: "url_end (url_extend f u) g = (if g = f then Suc (url_end u f) else url_end u g)" for g
    by (intro url_end_extend) (use p in auto)
  have "list_all IS_NUM (take (unat (u_len (url_extend f u) UF_PORT)) (drop (unat (u_off u UF_PORT)) buf))"
    if "UF_PORT \<in> u_field_set u"
  proof (cases "f = UF_PORT")
    case True
    have "unat (u_len (url_extend f u) UF_PORT) = Suc (unat (u_len u UF_PORT))"
      using ends [of f] True by (simp add: url_end_def)
    moreover have "drop (unat (u_off u UF_PORT)) buf ! unat (u_len u UF_PORT) = buf ! p"
      "unat (u_len u UF_PORT) < length (drop (unat (u_off u UF_PORT)) buf)"
      using port True p by (auto simp: url_end_def)
    ultimately show ?thesis
      using u that port True by (simp add: host_base_def take_Suc_conv_app_nth)
  next
    case False
    with u that show ?thesis by (simp add: host_base_def url_extend_def)
  qed
  moreover have "url_end (url_extend f u) g \<le> length buf" if "g \<in> u_field_set u" for g
    using u that small p(1) by (cases "g = f") (simp_all add: ends host_base_def)
  moreover have "url_end (url_extend f u) g \<le> Suc p" if "g \<in> u_field_set u \<inter> {UF_HOST, UF_PORT, UF_USERINFO}" for g
    using u that small by (cases "g = f") (auto simp: ends host_base_def intro: le_SucI)
  ultimately show ?thesis using u p(1) by (simp add: host_base_def ends)
qed

lemma host_step_inv:
  assumes inv: "host_inv buf p s u" and p: "p < length buf" "length buf < 65536"
    and s': "http_parse_host_char s (buf ! p) = s'" "s' \<noteq> s_http_host_dead"
  shows "host_inv buf (Suc p) s' (host_step s s' p u)"
proof -
  have u: "host_base buf p u" and host: "UF_HOST \<in> u_field_set u" using inv by (auto simp: host_inv_def host_base_def)
  note more = host_base_Suc [OF u p(1)]
  have ext: "host_base buf (Suc p) (url_extend UF_HOST u)" using host_base_extend [OF u _ p, of UF_HOST] host by simp
  have moved: "host_base buf (Suc p) (url_extend UF_HOST (url_move UF_HOST p u))" if "u_len u UF_HOST = 0"
    using host_base_extend [OF host_base_move [OF u that p] _ p, of UF_HOST] host by simp
  have opened: "host_base buf (Suc p) (url_extend f (url_open f p u)) \<and> url_end (url_extend f (url_open f p u)) f = Suc p \<and>
      (f = UF_USERINFO \<longrightarrow> u_len (url_extend f (url_open f p u)) UF_HOST = u_len u UF_HOST)"
    if "f \<in> {UF_PORT, UF_USERINFO}" "f = UF_PORT \<longrightarrow> IS_NUM (buf ! p)" for f
    using host_base_open [OF u that(1) p] host_base_extend [of buf p "url_open f p u" f] that p
    by (auto simp: url_extend_def)
  have port: "host_base buf (Suc p) (url_extend UF_PORT u) \<and> url_end (url_extend UF_PORT u) UF_PORT = Suc p"
    if "s = s_http_host_port" "IS_NUM (buf ! p)"
    using host_base_extend [OF u _ p, of UF_PORT] inv that by (simp add: host_inv_def)
  have user: "host_base buf (Suc p) (url_extend UF_USERINFO u) \<and> u_len (url_extend UF_USERINFO u) UF_HOST = u_len u UF_HOST"
    if "s = s_http_userinfo"
    using host_base_extend [OF u _ p, of UF_USERINFO] inv that by (simp add: host_inv_def url_extend_def)
  show ?thesis
    using s' inv more ext moved port user opened [of UF_PORT] opened [of UF_USERINFO]
    by (cases s) (auto simp: http_parse_host_char_def host_step_def host_inv_def split: if_splits)
qed

definition host_result :: "string \<Rightarrow> url_result \<Rightarrow> bool" where
  "host_result buf r = (case r of UrlOk u \<Rightarrow> \<exists>p. host_base buf p u | UrlInvalid _ \<Rightarrow> True | _ \<Rightarrow> False)"

lemma host_loop_inv:
  assumes "host_inv buf p s u" and "chs = take (length chs) (drop p buf)" and "length buf < 65536"
  shows "host_result buf (fst (host_loop chs p s u))"
  using assms(1,2)
proof (induction chs arbitrary: p s u)
  case Nil
  then show ?case by (auto simp: host_result_def host_inv_def)
next
  case (Cons ch chs)
  have p: "p < length buf" using Cons.prems(2) by (cases "p < length buf") simp_all
  then have "drop p buf = buf ! p # drop (Suc p) buf" by (simp add: Cons_nth_drop_Suc)
  with Cons.prems(2) have ch: "ch = buf ! p" "chs = take (length chs) (drop (Suc p) buf)" by simp_all
  show ?case
  proof (cases "http_parse_host_char s ch = s_http_host_dead")
    case True
    then show ?thesis by (simp add: host_result_def)
  next
    case False
    from host_step_inv [OF Cons.prems(1) p assms(3) _ False] ch
    have "host_inv buf (Suc p) (http_parse_host_char s ch) (host_step s (http_parse_host_char s ch) p u)" by simp
    from Cons.IH [OF this ch(2)] False show ?thesis by (simp add: Let_def)
  qed
qed

lemma http_parse_host_inside:
  assumes "length buf < 65536" and "UF_HOST \<in> u_field_set u" and "\<forall>f \<in> u_field_set u. url_end u f \<le> length buf \<and> f \<notin> {UF_PORT, UF_USERINFO}"
  shows "host_result buf (http_parse_host buf u found_at)"
proof -
  let ?off = "unat (u_off u UF_HOST)" and ?n = "unat (u_off u UF_HOST) + unat (u_len u UF_HOST)"
  let ?s = "if found_at then s_http_userinfo_start else s_http_host_start"
  let ?u = "u\<lparr>u_len := (u_len u)(UF_HOST := 0)\<rparr>"
  have n: "?n \<le> length buf" using assms(2,3) by (auto simp: url_end_def)
  have ends: "url_end ?u g \<le> length buf" if "g \<in> u_field_set u" for g
    using assms(3) that n by (auto simp: url_end_def)
  have "url_end ?u UF_HOST = ?off" by (simp add: url_end_def)
  then have "host_inv buf ?off ?s ?u"
    using assms(2,3) ends n by (auto simp: host_inv_def host_base_def)
  then have result: "host_result buf (fst (host_loop (drop ?off (take ?n buf)) ?off ?s ?u))"
    by (rule host_loop_inv) (use n assms(1) in \<open>simp_all add: drop_take min_absorb2\<close>)
  obtain r s' where loop: "host_loop (drop ?off (take ?n buf)) ?off ?s ?u = (r, s')" by fastforce
  have "\<not> length buf < ?n" using n by simp
  with result show ?thesis
    unfolding http_parse_host_def Let_def loop fst_conv
    using assms(2) by (cases r) (simp_all add: host_result_def)
qed

section \<open>Ports\<close>

definition decimal_value :: "string \<Rightarrow> nat" where
  "decimal_value ds = foldl (\<lambda>v ch. v * 10 + (byte ch - 48)) 0 ds"

lemma signed_char_digit: "IS_NUM ch \<Longrightarrow> signed_char ch - 48 = int (byte ch - 48)"
  by (simp add: IS_NUM_def signed_char_def)

lemma port_loop_value:
  "port_loop chs (int v) = Some r \<Longrightarrow> list_all IS_NUM chs \<Longrightarrow> v \<le> 65535 \<Longrightarrow>
   r = int (foldl (\<lambda>v ch. v * 10 + (byte ch - 48)) v chs) \<and> r \<le> 65535"
proof (induction chs arbitrary: v)
  case (Cons ch chs)
  let ?v = "v * 10 + (byte ch - 48)"
  have "int v * 10 + (signed_char ch - 48) = int ?v"
    using Cons.prems(2) by (simp add: signed_char_digit)
  with Cons.prems have "port_loop chs (int ?v) = Some r" "?v \<le> 65535"
    by (simp_all add: Let_def split: if_splits)
  with Cons.IH [of ?v] Cons.prems show ?case by simp
qed simp

definition url_accepted :: "string \<Rightarrow> url_result \<Rightarrow> bool" where
  "url_accepted buf r =
     (case r of
        UrlOk u \<Rightarrow> (\<forall>f \<in> u_field_set u. url_end u f \<le> length buf) \<and>
          (UF_PORT \<in> u_field_set u \<longrightarrow> list_all IS_NUM (take (unat (u_len u UF_PORT)) (drop (unat (u_off u UF_PORT)) buf)))
      | UrlInvalid _ \<Rightarrow> True | _ \<Rightarrow> False)"

lemma parse_port_accepted:
  assumes "url_accepted buf (UrlOk u)"
  shows "url_accepted buf (parse_port buf u) \<and>
    (\<forall>u'. parse_port buf u = UrlOk u' \<and> UF_PORT \<in> u_field_set u' \<longrightarrow>
      unat (u_port u') = decimal_value (take (unat (u_len u' UF_PORT)) (drop (unat (u_off u' UF_PORT)) buf)))"
proof (cases "UF_PORT \<in> u_field_set u")
  case True
  let ?ds = "take (unat (u_len u UF_PORT)) (drop (unat (u_off u UF_PORT)) buf)"
  have inside: "unat (u_off u UF_PORT) + unat (u_len u UF_PORT) \<le> length buf"
    using assms True by (simp add: url_accepted_def url_end_def)
  show ?thesis
  proof (cases "port_loop ?ds 0")
    case None
    with True inside show ?thesis by (simp add: parse_port_def Let_def url_accepted_def)
  next
    case (Some v)
    moreover have "list_all IS_NUM ?ds" using assms True by (simp add: url_accepted_def)
    ultimately have v: "v = int (decimal_value ?ds)" "decimal_value ?ds \<le> 65535"
      using port_loop_value [of ?ds 0 v] by (simp_all add: decimal_value_def)
    then have "unat (of_int v :: u16) = decimal_value ?ds" by (simp add: unat_of_nat)
    moreover have "parse_port buf u = UrlOk (u\<lparr>u_port := of_int v\<rparr>)"
      using True inside Some by (simp add: parse_port_def Let_def)
    ultimately show ?thesis using assms by (simp add: url_accepted_def url_end_def)
  qed
qed (use assms in \<open>simp add: parse_port_def\<close>)

section \<open>Property\<close>

text \<open>
  C38. On every buffer shorter than 64 KiB \<open>http_parser_parse_url\<close> ends without a failed assertion or
  a read outside the buffer, and when it accepts the URL every field it reports lies inside the
  buffer, and the port is the number its digits denote.
\<close>

theorem parse_url_inside:
  assumes "length buf < 65536"
  shows "case http_parser_parse_url buf is_connect u of
     UrlOk u' \<Rightarrow> (\<forall>f \<in> u_field_set u'. unat (u_off u' f) + unat (u_len u' f) \<le> length buf) \<and>
       (UF_PORT \<in> u_field_set u' \<longrightarrow>
          (let digits = take (unat (u_len u' UF_PORT)) (drop (unat (u_off u' UF_PORT)) buf)
           in list_all IS_NUM digits \<and> unat (u_port u') = decimal_value digits))
   | UrlInvalid _ \<Rightarrow> True
   | _ \<Rightarrow> False"
proof (cases "length buf = 0")
  case True
  then show ?thesis by (simp add: http_parser_parse_url_def)
next
  case False
  obtain r at where loop: "url_loop buf 0 (if is_connect then s_req_server_start else s_req_spaces_before_url) None False
      (u\<lparr>u_port := 0, u_field_set := {}\<rparr>) = (r, at)"
    by fastforce
  have "loop_inside (0 + length buf) (r, at)"
    unfolding loop [symmetric] by (rule url_loop_inside) (use assms in simp_all)
  then have inside: "loop_inside (length buf) (r, at)" by simp
  show ?thesis
  proof (cases r)
    case (UrlOk u1)
    define r2 where "r2 = (if UF_HOST \<in> u_field_set u1 then http_parse_host buf u1 at else UrlOk u1)"
    have u1: "\<forall>f \<in> u_field_set u1. url_end u1 f \<le> length buf \<and> f \<notin> {UF_PORT, UF_USERINFO}"
      using inside UrlOk by (simp add: loop_inside_def)
    have "url_accepted buf r2"
      using http_parse_host_inside [OF assms, of u1 at] u1
      by (auto simp: r2_def url_accepted_def host_result_def host_base_def split: url_result.splits)
    note accepted = this
    have parse: "http_parser_parse_url buf is_connect u =
        (if UF_SCHEMA \<in> u_field_set u1 \<and> UF_HOST \<notin> u_field_set u1 then UrlInvalid u1
         else case r2 of
           UrlOk u2 \<Rightarrow> if is_connect \<and> u_field_set u2 \<noteq> {UF_HOST, UF_PORT} then UrlInvalid u2 else parse_port buf u2
         | r \<Rightarrow> r)"
      using False UrlOk loop by (simp add: http_parser_parse_url_def r2_def)
    show ?thesis
    proof (cases r2)
      case (UrlOk u2)
      with accepted parse_port_accepted [of buf u2]
      have "url_accepted buf (parse_port buf u2)" "\<forall>u'. parse_port buf u2 = UrlOk u' \<and> UF_PORT \<in> u_field_set u' \<longrightarrow>
        unat (u_port u') = decimal_value (take (unat (u_len u' UF_PORT)) (drop (unat (u_off u' UF_PORT)) buf))"
        by simp_all
      then show ?thesis
        unfolding parse UrlOk by (cases "parse_port buf u2") (simp_all add: url_accepted_def url_end_def Let_def)
    qed (use accepted in \<open>simp_all add: parse url_accepted_def\<close>)
  qed (use inside False loop in \<open>simp_all add: http_parser_parse_url_def loop_inside_def\<close>)
qed

lemma sample_url:
  "case http_parser_parse_url ''http://me@a:81/x?y'' False http_parser_url_init of
     UrlOk u \<Rightarrow> u_port u = 81 \<and> UF_PATH \<in> u_field_set u \<and> UF_USERINFO \<in> u_field_set u \<and> u_off u UF_HOST = 10 \<and> u_len u UF_HOST = 1 \<and>
       u_off u UF_USERINFO = 7 \<and> u_len u UF_USERINFO = 2
   | _ \<Rightarrow> False"
  by (simp add: http_parser_parse_url_def http_parser_url_init_def parse_url_char_def url_server_char_def Let_def
      IS_ALPHA_def IS_NUM_def IS_ALPHANUM_def IS_HOST_CHAR_def IS_USERINFO_CHAR_def IS_URL_CHAR_def IS_HEX_def IS_MARK_def
      byte_def normal_url_char_def http_parse_host_def http_parse_host_char_def host_step_def url_open_def url_extend_def
      url_move_def parse_port_def signed_char_def)

theorem parse_url_inside_witness:
  "\<exists>u. http_parser_parse_url ''http://me@a:81/x?y'' False http_parser_url_init = UrlOk u \<and> u_port u = 81 \<and>
     unat (u_off u UF_PATH) + unat (u_len u UF_PATH) \<le> length ''http://me@a:81/x?y''"
proof -
  obtain u where u: "http_parser_parse_url ''http://me@a:81/x?y'' False http_parser_url_init = UrlOk u" "u_port u = 81"
    "UF_PATH \<in> u_field_set u"
    using sample_url by (cases "http_parser_parse_url ''http://me@a:81/x?y'' False http_parser_url_init") auto
  have "length ''http://me@a:81/x?y'' < 65536" by simp
  from parse_url_inside [OF this, of False http_parser_url_init]
  have "\<forall>f \<in> u_field_set u. unat (u_off u f) + unat (u_len u f) \<le> length ''http://me@a:81/x?y''"
    unfolding u(1) url_result.case by blast
  with u show ?thesis by blast
qed

section \<open>Long URLs\<close>

text \<open>The lengths are 16 bits wide and not checked: a path of 64 KiB is reported with the length 0.\<close>

lemma path_loop:
  assumes "UF_PATH \<in> u_field_set u"
  shows "\<exists>u'. url_loop (replicate n CHR ''/'') p s_req_path (Some UF_PATH) found_at u = (UrlOk u', found_at) \<and>
    u_field_set u' = u_field_set u \<and> u_len u' UF_PATH = u_len u UF_PATH + of_nat n"
  using assms
proof (induction n arbitrary: p u)
  case (Suc n)
  have "parse_url_char s_req_path CHR ''/'' = s_req_path" by code_simp
  with Suc.IH [of "url_extend UF_PATH u" "Suc p"] Suc.prems show ?case
    by (auto simp: url_extend_def)
qed simp

lemma long_path_length_wraps:
  "\<exists>u. http_parser_parse_url (replicate 65536 CHR ''/'') False http_parser_url_init = UrlOk u \<and>
     u_field_set u = {UF_PATH} \<and> u_len u UF_PATH = 0"
proof -
  let ?u = "url_extend UF_PATH (url_open UF_PATH 0 http_parser_url_init)"
  have first: "parse_url_char s_req_spaces_before_url CHR ''/'' = s_req_path" by code_simp
  obtain u where u: "url_loop (replicate 65535 CHR ''/'') (Suc 0) s_req_path (Some UF_PATH) False ?u = (UrlOk u, False)"
    "u_field_set u = {UF_PATH}" "u_len u UF_PATH = 0"
    using path_loop [of ?u 65535 "Suc 0" False] by (auto simp: url_open_def url_extend_def http_parser_url_init_def)
  have "replicate 65536 CHR ''/'' = CHR ''/'' # replicate 65535 CHR ''/''" 
    using replicate_Suc [of 65535 "CHR ''/''"] by (simp only: Suc_numeral semiring_norm)
  then have "http_parser_parse_url (replicate 65536 CHR ''/'') False http_parser_url_init = UrlOk u"
    using u first by (simp add: http_parser_parse_url_def parse_port_def http_parser_url_init_def del: replicate.simps)
  with u show ?thesis by blast
qed

end
