(* ===== verification/Streams.thy ===== *)
theory Streams
  imports StringBuilder
begin

text \<open>
  The streams under \<open>Stream/\<close>: \<open>PacketInputStream\<close>, \<open>StringInputStream\<close>, \<open>PacketOutputStream\<close>,
  \<open>StringOutputStream\<close>, and \<open>readAll\<close> and \<open>writeAll\<close> of the extensions.

  An input stream is a state with \<open>read\<close>, which gives an exception or data with the flag \<open>isEnd\<close>, and
  \<open>sizeHint\<close>. The locale \<open>input_stream\<close> states what \<open>readAll\<close> needs of it, and \<open>readAll\<close> is proved
  there once; the two streams are its interpretations. The loop of \<open>readAll\<close> ends only if the stream
  does, so it is a partial function, and the locale's lemma says that it returns. Whether a future
  was available at once makes no difference to what \<open>readAll\<close> returns.
\<close>

section \<open>Reading everything\<close>

datatype 'a reading = Done 'a | Failed nat | AppendOverflow | AppendOutOfBuffer

type_synonym 's stream_read = "'s \<Rightarrow> (nat + string \<times> bool) \<times> 's"

definition MaxReservedCapacity :: nat where
  "MaxReservedCapacity = 1048576"

partial_function (option) read_loop ::
  "'s stream_read \<Rightarrow> fresh_bytes \<Rightarrow> 's \<Rightarrow> string_builder \<Rightarrow> (string_builder reading \<times> 's) option" where
  [code]: "read_loop read fresh s b =
     (case read s of
        (Inl e, s') \<Rightarrow> Some (Failed e, s')
      | (Inr (content, isEnd), s') \<Rightarrow>
          (case sb_append fresh content b of
             Overflow \<Rightarrow> Some (AppendOverflow, s')
           | OutOfBuffer \<Rightarrow> Some (AppendOutOfBuffer, s')
           | Appended b' \<Rightarrow> if isEnd then Some (Done b', s') else read_loop read fresh s' b'))"

definition readAll_into ::
  "'s stream_read \<Rightarrow> ('s \<Rightarrow> nat option) \<Rightarrow> fresh_bytes \<Rightarrow> 's \<Rightarrow> string_builder \<Rightarrow> (string_builder reading \<times> 's) option" where
  "readAll_into read hint fresh s b =
     (let sizeHint = (case hint s of None \<Rightarrow> 0 | Some n \<Rightarrow> n);
          b1 = (if sizeHint > 0 then sb_reserve fresh (min ((sb_size b + sizeHint) mod 2 ^ 64) MaxReservedCapacity) b else b)
      in read_loop read fresh s b1)"

definition readAll ::
  "'s stream_read \<Rightarrow> ('s \<Rightarrow> nat option) \<Rightarrow> fresh_bytes \<Rightarrow> 's \<Rightarrow> (string reading \<times> 's) option" where
  "readAll read hint fresh s =
     (case read s of
        (Inl e, s1) \<Rightarrow> Some (Failed e, s1)
      | (Inr (content, isEnd), s1) \<Rightarrow>
          if isEnd then Some (Done content, s1)
          else
            (let sizeHint = (case hint s1 of None \<Rightarrow> 0 | Some n \<Rightarrow> n);
                 b = (if sizeHint > 0
                      then sb_reserve fresh (min (nat ((int sizeHint - int (length content)) mod 2 ^ 64)) MaxReservedCapacity) sb_new
                      else sb_new)
             in case sb_append fresh content b of
                  Overflow \<Rightarrow> Some (AppendOverflow, s1)
                | OutOfBuffer \<Rightarrow> Some (AppendOutOfBuffer, s1)
                | Appended b1 \<Rightarrow>
                    (case read_loop read fresh s1 b1 of
                       None \<Rightarrow> None
                     | Some (Done b2, s2) \<Rightarrow> Some (Done (fst (sb_build b2)), s2)
                     | Some (Failed e, s2) \<Rightarrow> Some (Failed e, s2)
                     | Some (AppendOverflow, s2) \<Rightarrow> Some (AppendOverflow, s2)
                     | Some (AppendOutOfBuffer, s2) \<Rightarrow> Some (AppendOutOfBuffer, s2))))"

text \<open>The version for a pointer to a stream: a null stream gives the empty string.\<close>

definition readAll_pointer ::
  "'s stream_read \<Rightarrow> ('s \<Rightarrow> nat option) \<Rightarrow> fresh_bytes \<Rightarrow> 's option \<Rightarrow> (string reading \<times> 's option) option" where
  "readAll_pointer read hint fresh p =
     (case p of
        None \<Rightarrow> Some (Done [], None)
      | Some s \<Rightarrow> map_option (\<lambda>(r, s'). (r, Some s')) (readAll read hint fresh s))"

text \<open>What is left of a stream is \<open>remaining\<close>; a read that is not the last takes a part of it and gets nearer to the end.\<close>

locale input_stream =
  fixes read :: "'s stream_read"
    and remaining :: "'s \<Rightarrow> string"
    and distance :: "'s \<Rightarrow> nat"
  assumes read_last: "read s = (Inr (content, True), s') \<Longrightarrow> remaining s = content \<and> remaining s' = []"
    and read_more: "read s = (Inr (content, False), s') \<Longrightarrow> remaining s = content @ remaining s' \<and> distance s' < distance s"
    and read_ok: "read s \<noteq> (Inl e, s')"
begin

lemma read_loop_all:
  assumes "sb_wf b" and "fresh_ok fresh" and "sb_size b + length (remaining s) \<le> SIZE_MAX"
  shows "\<exists>b' s'. read_loop read fresh s b = Some (Done b', s') \<and> sb_wf b' \<and> sb_view b' = sb_view b @ remaining s \<and> remaining s' = []"
  using assms(1,3)
proof (induction "distance s" arbitrary: s b rule: less_induct)
  case less
  obtain content isEnd s1 where r: "read s = (Inr (content, isEnd), s1)"
    using read_ok [of s] by (metis old.prod.exhaust sumE)
  have part: "remaining s = content @ (if isEnd then [] else remaining s1)" "isEnd \<Longrightarrow> remaining s1 = []"
    "\<not> isEnd \<Longrightarrow> distance s1 < distance s"
    using read_last [of s content s1] read_more [of s content s1] r by (cases isEnd; simp)+
  obtain b1 where b1: "sb_append fresh content b = Appended b1" "sb_wf b1" "sb_view b1 = sb_view b @ content"
    using sb_append_view [OF less.prems(1) assms(2), of content] less.prems(2) part(1) by auto
  have size: "sb_size b1 = sb_size b + length content"
    using arg_cong [OF b1(3), of length] length_sb_view b1(2) less.prems(1) by simp
  show ?case
  proof (cases isEnd)
    case True
    with r b1 part show ?thesis by (subst read_loop.simps) simp
  next
    case False
    then have "sb_size b1 + length (remaining s1) \<le> SIZE_MAX" using less.prems(2) part(1) size by simp
    from less.hyps [OF part(3) [OF False] b1(2) this] False r b1 part show ?thesis
      by (subst read_loop.simps) auto
  qed
qed

lemma readAll_into_all:
  assumes "sb_wf b" and "fresh_ok fresh" and "sb_size b + length (remaining s) \<le> SIZE_MAX"
  shows "\<exists>b' s'. readAll_into read hint fresh s b = Some (Done b', s') \<and> sb_wf b' \<and>
    sb_view b' = sb_view b @ remaining s \<and> remaining s' = []"
proof -
  let ?n = "case hint s of None \<Rightarrow> 0 | Some n \<Rightarrow> n"
  let ?b = "if ?n > 0 then sb_reserve fresh (min ((sb_size b + ?n) mod 2 ^ 64) MaxReservedCapacity) b else b"
  have b: "sb_wf ?b" "sb_size ?b = sb_size b" "sb_view ?b = sb_view b"
    using sb_reserve_cases [OF assms(1,2)] assms(1) by simp_all
  have "\<exists>b' s'. read_loop read fresh s ?b = Some (Done b', s') \<and> sb_wf b' \<and> sb_view b' = sb_view ?b @ remaining s \<and> remaining s' = []"
    by (rule read_loop_all) (use b assms in simp_all)
  then show ?thesis unfolding b(3) by (simp only: readAll_into_def Let_def)
qed

lemma readAll_all:
  assumes "fresh_ok fresh" and "length (remaining s) \<le> SIZE_MAX"
  shows "\<exists>s'. readAll read hint fresh s = Some (Done (remaining s), s') \<and> remaining s' = []"
proof -
  obtain content isEnd s1 where r: "read s = (Inr (content, isEnd), s1)"
    using read_ok [of s] by (metis old.prod.exhaust sumE)
  show ?thesis
  proof (cases isEnd)
    case True
    with r read_last [of s content s1] show ?thesis by (simp add: readAll_def)
  next
    case False
    have part: "remaining s = content @ remaining s1" using read_more [of s content s1] r False by simp
    define b where "b = (if (case hint s1 of None \<Rightarrow> 0 | Some n \<Rightarrow> n) > 0
      then sb_reserve fresh (min (nat ((int (case hint s1 of None \<Rightarrow> 0 | Some n \<Rightarrow> n) - int (length content)) mod 2 ^ 64))
        MaxReservedCapacity) sb_new else sb_new)"
    have new: "sb_wf sb_new" "sb_size sb_new = 0" "sb_view sb_new = []" by (simp_all add: sb_wf_def sb_new_def sb_view_def)
    have b: "sb_wf b" "sb_size b = 0" "sb_view b = []"
      using sb_reserve_cases [OF new(1) assms(1)] new by (simp_all add: b_def)
    obtain b1 where b1: "sb_append fresh content b = Appended b1" "sb_wf b1" "sb_view b1 = content"
      using sb_append_view [OF b(1) assms(1), of content] assms(2) part b by auto
    have "sb_size b1 = length content" using length_sb_view [OF b1(2)] b1(3) by simp
    then have "sb_size b1 + length (remaining s1) \<le> SIZE_MAX" using assms(2) part by simp
    from read_loop_all [OF b1(2) assms(1) this] r False part b1 show ?thesis
      by (auto simp: readAll_def sb_build_def Let_def b_def [symmetric])
  qed
qed

end

section \<open>The two input streams\<close>

record packet_input_stream =
  pi_packet :: packet
  pi_sizeHint :: nat
  pi_index :: nat

definition packet_input_reset :: "packet \<Rightarrow> packet_input_stream" where
  "packet_input_reset p = \<lparr>pi_packet = p, pi_sizeHint = pk_size p, pi_index = 0\<rparr>"

definition packet_input_freeResources :: "packet_input_stream \<Rightarrow> packet_input_stream" where
  "packet_input_freeResources s = s\<lparr>pi_packet := pk_new\<rparr>"

text \<open>The while loop: the first fragment from the index on that is not empty, and the index after it.\<close>

function next_fragment :: "string list \<Rightarrow> nat \<Rightarrow> string option \<times> nat" where
  "next_fragment fs i =
     (if i < length fs then if length (fs ! i) = 0 then next_fragment fs (Suc i) else (Some (fs ! i), Suc i)
      else (None, i))"
  by pat_completeness auto
termination by (relation "measure (\<lambda>(fs, i). length fs - i)") auto

declare next_fragment.simps [simp del]

definition packet_input_read :: "packet_input_stream stream_read" where
  "packet_input_read s =
     (case pi_packet s of
        Multiple fs \<Rightarrow>
          (case next_fragment fs (pi_index s) of
             (Some f, i) \<Rightarrow> (Inr (f, i \<ge> length fs), s\<lparr>pi_index := i\<rparr>)
           | (None, i) \<Rightarrow> (Inr ([], True), s\<lparr>pi_index := i\<rparr>))
      | Single f \<Rightarrow>
          (if pi_index s = 0 then (Inr (f, True), s\<lparr>pi_index := 1\<rparr>) else (Inr ([], True), s))
      | Moved \<Rightarrow> (Inr ([], True), s))"

record string_input_stream =
  si_str :: string
  si_sizeHint :: nat

definition string_input_reset :: "string \<Rightarrow> string_input_stream" where
  "string_input_reset str = \<lparr>si_str = str, si_sizeHint = length str\<rparr>"

definition string_input_freeResources :: "string_input_stream \<Rightarrow> string_input_stream" where
  "string_input_freeResources s = s\<lparr>si_str := []\<rparr>"

definition string_input_read :: "string_input_stream stream_read" where
  "string_input_read s =
     (if si_str s = [] then (Inr ([], True), s) else (Inr (si_str s, True), s\<lparr>si_str := []\<rparr>))"

definition packet_input_remaining :: "packet_input_stream \<Rightarrow> string" where
  "packet_input_remaining s =
     (case pi_packet s of
        Multiple fs \<Rightarrow> concat (drop (pi_index s) fs)
      | Single f \<Rightarrow> if pi_index s = 0 then f else []
      | Moved \<Rightarrow> [])"

definition packet_input_distance :: "packet_input_stream \<Rightarrow> nat" where
  "packet_input_distance s = (case pi_packet s of Multiple fs \<Rightarrow> length fs - pi_index s | _ \<Rightarrow> 0)"

lemma next_fragment_cases:
  "case next_fragment fs i of
     (Some f, j) \<Rightarrow> concat (drop i fs) = f @ concat (drop j fs) \<and> i < j \<and> j \<le> length fs
   | (None, j) \<Rightarrow> concat (drop i fs) = [] \<and> concat (drop j fs) = []"
proof (induction fs i rule: next_fragment.induct)
  case (1 fs i)
  show ?case
  proof (cases "i < length fs")
    case True
    then have "drop i fs = fs ! i # drop (Suc i) fs" by (simp add: Cons_nth_drop_Suc)
    with 1 True show ?thesis by (auto simp: next_fragment.simps [of fs i] split: prod.splits option.splits)
  qed (simp add: next_fragment.simps)
qed

lemma next_fragment_None: "next_fragment fs i = (None, j) \<Longrightarrow> concat (drop i fs) = [] \<and> concat (drop j fs) = []"
  using next_fragment_cases [of i fs] by (simp del: concat_eq_Nil_conv)

lemma next_fragment_Some:
  "next_fragment fs i = (Some f, j) \<Longrightarrow> concat (drop i fs) = f @ concat (drop j fs) \<and> i < j \<and> j \<le> length fs"
  using next_fragment_cases [of i fs] by simp

lemmas packet_input_splits = packet.splits prod.splits option.splits if_splits

interpretation packet_input: input_stream packet_input_read packet_input_remaining packet_input_distance
proof
  fix s :: packet_input_stream and content s' e
  show "packet_input_remaining s = content \<and> packet_input_remaining s' = []"
    if "packet_input_read s = (Inr (content, True), s')"
    using that
    by (auto simp: packet_input_read_def packet_input_remaining_def simp del: concat_eq_Nil_conv
        split: packet_input_splits dest!: next_fragment_None next_fragment_Some)
  show "packet_input_remaining s = content @ packet_input_remaining s' \<and> packet_input_distance s' < packet_input_distance s"
    if "packet_input_read s = (Inr (content, False), s')"
    using that
    by (auto simp: packet_input_read_def packet_input_remaining_def packet_input_distance_def
        split: packet_input_splits dest!: next_fragment_Some)
  show "packet_input_read s \<noteq> (Inl e, s')"
    by (auto simp: packet_input_read_def split: packet_input_splits)
qed

interpretation string_input: input_stream string_input_read si_str "\<lambda>_. 0"
  by unfold_locales (auto simp: string_input_read_def split: if_splits)

section \<open>Output streams\<close>

text \<open>Both keep a pointer to where they write.\<close>

definition packet_output_write :: "packet \<Rightarrow> packet \<Rightarrow> packet" where
  "packet_output_write data target = fst (pk_append target data)"

definition string_output_write :: "fresh_bytes \<Rightarrow> packet \<Rightarrow> string_builder \<Rightarrow> string_builder appended" where
  "string_output_write fresh data b =
     (case data of
        Single f \<Rightarrow> sb_append fresh f b
      | Multiple fs \<Rightarrow> foldl (\<lambda>r f. case r of Appended b' \<Rightarrow> sb_append fresh f b' | _ \<Rightarrow> r) (Appended b) fs
      | Moved \<Rightarrow> Appended b)"

text \<open>\<open>writeAll\<close>; a null stream is a \<open>LogicException\<close>, the result \<^const>\<open>None\<close>.\<close>

definition writeAll :: "(packet \<Rightarrow> 't \<Rightarrow> 't) \<Rightarrow> packet \<Rightarrow> 't option \<Rightarrow> 't option" where
  "writeAll put packet stream = (case stream of None \<Rightarrow> None | Some t \<Rightarrow> Some (put packet t))"

definition writeAll_string :: "(packet \<Rightarrow> 't \<Rightarrow> 't) \<Rightarrow> string \<Rightarrow> 't option \<Rightarrow> 't option" where
  "writeAll_string put str stream = writeAll put (Single str) stream"

lemma packet_output_bytes: "pk_toString (packet_output_write p t) = pk_toString t @ pk_toString p"
  using packet_append_bytes [of _ t p] by (simp add: packet_output_write_def)

lemma packet_output_all:
  "pk_toString (foldl (\<lambda>t p. packet_output_write p t) t ps) = pk_toString t @ concat (map pk_toString ps)"
  by (induction ps arbitrary: t) (simp_all add: packet_output_bytes)

lemma string_output_bytes:
  assumes "sb_wf b" and "fresh_ok fresh" and "sb_size b + length (pk_toString p) \<le> SIZE_MAX"
  shows "\<exists>b'. string_output_write fresh p b = Appended b' \<and> sb_wf b' \<and> sb_view b' = sb_view b @ pk_toString p"
  using assms pk_write_fragments [OF assms(1,2)] sb_append_view [OF assms(1,2)]
  by (cases p) (simp_all add: string_output_write_def)

lemma packet_input_remaining_reset: "packet_input_remaining (packet_input_reset p) = pk_toString p"
  by (cases p) (simp_all add: packet_input_remaining_def packet_input_reset_def)

section \<open>Properties\<close>

text \<open>
  C39. What is written to a packet stream is read back: after any packets were written to a
  \<open>PacketOutputStream\<close>, \<open>readAll\<close> of a \<open>PacketInputStream\<close> on the packet returns, and gives exactly
  their bytes in order, whatever fragments, empty ones included, they consist of.
\<close>

theorem streams_round_trip:
  assumes "fresh_ok fresh" and "length (concat (map pk_toString ps)) \<le> SIZE_MAX"
  shows "\<exists>s'. readAll packet_input_read (\<lambda>s. Some (pi_sizeHint s)) fresh
      (packet_input_reset (foldl (\<lambda>t p. packet_output_write p t) pk_new ps)) =
    Some (Done (concat (map pk_toString ps)), s') \<and> packet_input_remaining s' = []"
proof -
  let ?s = "packet_input_reset (foldl (\<lambda>t p. packet_output_write p t) pk_new ps)"
  have "packet_input_remaining ?s = concat (map pk_toString ps)"
    by (simp add: packet_input_remaining_reset packet_output_all pk_new_def)
  with packet_input.readAll_all [OF assms(1), of ?s "\<lambda>s. Some (pi_sizeHint s)"] assms(2) show ?thesis by simp
qed

theorem streams_round_trip_witness:
  "\<exists>s'. readAll packet_input_read (\<lambda>s. Some (pi_sizeHint s)) (\<lambda>n. replicate n CHR ''?'')
      (packet_input_reset (foldl (\<lambda>t p. packet_output_write p t) pk_new
        [Single ''ab'', Multiple [[], ''c'', []], Moved, Multiple [''de'', []]])) =
    Some (Done ''abcde'', s') \<and> packet_input_remaining s' = []"
  using streams_round_trip [of "\<lambda>n. replicate n CHR ''?''" "[Single ''ab'', Multiple [[], ''c'', []], Moved, Multiple [''de'', []]]"]
  by (simp add: fresh_ok_def SIZE_MAX_def)

text \<open>\<open>readAll\<close> of a \<open>StringInputStream\<close> gives the string, and of any stream into a builder appends.\<close>

lemma string_stream_read_all:
  assumes "fresh_ok fresh" and "length str \<le> SIZE_MAX"
  shows "\<exists>s'. readAll string_input_read (\<lambda>s. Some (si_sizeHint s)) fresh (string_input_reset str) = Some (Done str, s')"
  using string_input.readAll_all [OF assms(1), of "string_input_reset str"] assms(2)
  by (fastforce simp: string_input_reset_def)

end
