(* ===== verification/UUID.thy ===== *)
theory UUID
  imports StringUtils
begin

text \<open>
  UUIDs: \<open>UUIDUtils.cpp\<close>. A UUID is a pair of 64 bit words. The clock and \<open>std::random_device\<close> are
  inputs of the functions that use them; the three thread local variables of \<open>makeTimeUUID\<close> are a
  record. A \<open>system_clock::time_point\<close> is its number of nanoseconds since the epoch.
\<close>

type_synonym uuid = "u64 \<times> u64"

datatype uuid_error = InvalidSize | NonHexCharacter | ClockIdExhausted | NotVersion1

section \<open>Text\<close>

definition strToUUID :: "string \<Rightarrow> uuid_error + uuid" where
  "strToUUID str =
     (if length str \<noteq> 36 then Inl InvalidSize
      else
        (case (loadIntFromHex (take 8 str) :: u32 option, loadIntFromHex (take 4 (drop 9 str)) :: u16 option,
               loadIntFromHex (take 4 (drop 14 str)) :: u16 option, loadIntFromHex (take 4 (drop 19 str)) :: u16 option,
               loadIntFromHex (take 4 (drop 24 str)) :: u16 option, loadIntFromHex (take 8 (drop 28 str)) :: u32 option) of
           (Some a, Some b, Some c, Some d, Some e, Some f) \<Rightarrow>
             Inr (push_bit 32 (ucast a) OR push_bit 16 (ucast b) OR ucast c,
                  push_bit 48 (ucast d) OR push_bit 32 (ucast e) OR ucast f)
         | _ \<Rightarrow> Inl NonHexCharacter))"

definition uuidToStr :: "uuid \<Rightarrow> string" where
  "uuidToStr u =
     dumpIntToHex (ucast (drop_bit 32 (fst u)) :: u32) @ ''-'' @
     dumpIntToHex (ucast (drop_bit 16 (fst u) AND 0xffff) :: u16) @ ''-'' @
     dumpIntToHex (ucast (fst u AND 0xffff) :: u16) @ ''-'' @
     dumpIntToHex (ucast (drop_bit 48 (snd u) AND 0xffff) :: u16) @ ''-'' @
     dumpIntToHex (ucast (drop_bit 32 (snd u) AND 0xffff) :: u16) @
     dumpIntToHex (ucast (snd u AND 0xffffffff) :: u32)"

section \<open>Construction\<close>

definition makeEmptyUUID :: uuid where
  "makeEmptyUUID = (0, 0)"

text \<open>The four values of \<open>URandom()\<close>.\<close>

definition makeRandomUUID :: "u32 \<Rightarrow> u32 \<Rightarrow> u32 \<Rightarrow> u32 \<Rightarrow> uuid" where
  "makeRandomUUID r1 r2 r3 r4 =
     (let first = push_bit 32 (ucast r1) OR ucast r2; second = push_bit 32 (ucast r3) OR ucast r4
      in ((first AND 0xffffffffffff0fff) OR 0x4000, (second AND 0x3fffffffffffffff) OR 0x8000000000000000))"

definition makeTimeUUID_of :: "u64 \<Rightarrow> u32 \<Rightarrow> u64 \<Rightarrow> uuid" where
  "makeTimeUUID_of timeStamp clockId nodeId =
     (push_bit 32 (timeStamp AND 0x00000000ffffffff) OR
      drop_bit 16 (timeStamp AND 0x0000ffff00000000) OR
      0x0000000000001000 OR
      drop_bit 48 (timeStamp AND 0x0fff000000000000),
      0x8000000000000000 OR push_bit 48 (ucast clockId AND 0x3fff) OR (nodeId AND 0x0000ffffffffffff))"

definition MaxClockId :: u32 where
  "MaxClockId = 16383"

definition EpochSinceUUID1TimestampBase :: u64 where
  "EpochSinceUUID1TimestampBase = 122192928000000000"

text \<open>\<open>duration_cast\<close> truncates towards zero; the products and sums are unsigned.\<close>

definition toTimeUUIDTimestamp :: "int \<Rightarrow> u64" where
  "toTimeUUIDTimestamp sinceEpoch =
     (let milliseconds = sgn sinceEpoch * (\<bar>sinceEpoch\<bar> div 1000000)
      in of_int milliseconds * 10000 + (of_int sinceEpoch div 100) mod 10000 + EpochSinceUUID1TimestampBase)"

definition fromTimeUUIDTimestamp :: "u64 \<Rightarrow> int" where
  "fromTimeUUIDTimestamp timeStamp =
     sint ((timeStamp - EpochSinceUUID1TimestampBase) div 10000) * 1000000 + sint (timeStamp mod 10000 * 100)"

record time_uuid_state =
  tu_nodeId :: u64
  tu_lastTimestamp :: u64
  tu_clockId :: u32

definition new_time_uuid_state :: time_uuid_state where
  "new_time_uuid_state = \<lparr>tu_nodeId = 0, tu_lastTimestamp = 0, tu_clockId = 0\<rparr>"

definition ensure_node :: "u32 \<Rightarrow> u32 \<Rightarrow> time_uuid_state \<Rightarrow> time_uuid_state" where
  "ensure_node r1 r2 st = (if tu_nodeId st = 0 then st\<lparr>tu_nodeId := push_bit 32 (ucast r1) OR ucast r2\<rparr> else st)"

definition makeTimeUUID :: "int \<Rightarrow> u32 \<Rightarrow> u32 \<Rightarrow> time_uuid_state \<Rightarrow> (uuid_error + uuid) \<times> time_uuid_state" where
  "makeTimeUUID now r1 r2 st =
     (let st1 = ensure_node r1 r2 st;
          timeStamp = toTimeUUIDTimestamp now
      in if timeStamp \<noteq> tu_lastTimestamp st1 then
           (let st2 = st1\<lparr>tu_lastTimestamp := timeStamp, tu_clockId := 1\<rparr>
            in (Inr (makeTimeUUID_of timeStamp 0 (tu_nodeId st2)), st2))
         else if tu_clockId st1 > MaxClockId then (Inl ClockIdExhausted, st1)
         else (Inr (makeTimeUUID_of timeStamp (tu_clockId st1) (tu_nodeId st1)),
               st1\<lparr>tu_clockId := tu_clockId st1 + 1\<rparr>))"

definition makeMinTimeUUID :: "int \<Rightarrow> uuid" where
  "makeMinTimeUUID timePoint = makeTimeUUID_of (toTimeUUIDTimestamp timePoint) 0 0"

definition makeMaxTimeUUID :: "int \<Rightarrow> uuid" where
  "makeMaxTimeUUID timePoint = makeTimeUUID_of (toTimeUUIDTimestamp timePoint) MaxClockId 0xffffffffffffffff"

section \<open>Extraction\<close>

definition getVersionFromUUID :: "uuid \<Rightarrow> u8" where
  "getVersionFromUUID u = ucast (drop_bit 12 (fst u AND 0x000000000000f000))"

definition TimeUUIDVersion :: u8 where
  "TimeUUIDVersion = 1"

definition uuid_timestamp :: "uuid \<Rightarrow> u64" where
  "uuid_timestamp u =
     drop_bit 32 (fst u AND 0xffffffff00000000) OR
     push_bit 16 (fst u AND 0x00000000ffff0000) OR
     push_bit 48 (fst u AND 0x0000000000000fff)"

definition getTimeFromUUID :: "uuid \<Rightarrow> uuid_error + int" where
  "getTimeFromUUID u =
     (if getVersionFromUUID u \<noteq> TimeUUIDVersion then Inl NotVersion1
      else Inr (fromTimeUUIDTimestamp (uuid_timestamp u)))"

section \<open>Bits\<close>

lemma uuid_masks:
  "(0xffff :: u64) = mask 16" "(0xffffffff :: u64) = mask 32" "(0xfff :: u64) = mask 12" "(0x3fff :: u64) = mask 14"
  "(0xffff00000000 :: u64) = push_bit 32 (mask 16)" "(0xfff000000000000 :: u64) = push_bit 48 (mask 12)"
  "(0xffffffff00000000 :: u64) = push_bit 32 (mask 32)" "(0xffff0000 :: u64) = push_bit 16 (mask 16)"
  "(0xf000 :: u64) = push_bit 12 (mask 4)" "(0xffffffffffff :: u64) = mask 48"
  by (simp_all add: mask_eq_exp_minus_1 push_bit_eq_mult)

lemma uuid_constants:
  "bit (0x1000 :: u64) n \<longleftrightarrow> n = 12" "bit (0x8000000000000000 :: u64) n \<longleftrightarrow> n = 63" "bit (1 :: u8) n \<longleftrightarrow> n = 0"
proof -
  have "(0x1000 :: u64) = 2 ^ 12" "(0x8000000000000000 :: u64) = 2 ^ 63" by simp_all
  then show "bit (0x1000 :: u64) n \<longleftrightarrow> n = 12" "bit (0x8000000000000000 :: u64) n \<longleftrightarrow> n = 63" "bit (1 :: u8) n \<longleftrightarrow> n = 0"
    by (auto simp only: bit_exp_iff bit_1_iff possible_bit_word) simp_all
qed

lemmas uuid_bits = bit_simps uuid_constants comp_apply

lemma time_uuid_timestamp: "uuid_timestamp (makeTimeUUID_of ts clockId nodeId) = take_bit 60 ts"
proof (rule bit_word_eqI)
  fix n
  assume "n < LENGTH(64)"
  then have "n < 16 \<or> (\<exists>k < 16. n = 16 + k) \<or> (\<exists>k < 16. n = 32 + k) \<or> (\<exists>k < 12. n = 48 + k) \<or> (\<exists>k < 4. n = 60 + k)"
    by simp presburger
  then show "bit (uuid_timestamp (makeTimeUUID_of ts clockId nodeId)) n = bit (take_bit 60 ts) n"
    unfolding uuid_timestamp_def makeTimeUUID_of_def fst_conv uuid_masks
    by (elim disjE exE conjE) (simp_all only: uuid_bits, simp_all)
qed

lemma time_uuid_version: "getVersionFromUUID (makeTimeUUID_of ts clockId nodeId) = TimeUUIDVersion"
proof (rule bit_word_eqI)
  fix n
  assume "n < LENGTH(8)"
  then consider "n = 0" | "0 < n" "n < 4" | "4 \<le> n" "n < 8" by fastforce
  then show "bit (getVersionFromUUID (makeTimeUUID_of ts clockId nodeId)) n = bit TimeUUIDVersion n"
    unfolding getVersionFromUUID_def makeTimeUUID_of_def fst_conv uuid_masks TimeUUIDVersion_def
    by cases (simp_all only: uuid_bits, auto)
qed

definition uuid_clock :: "uuid \<Rightarrow> u64" where
  "uuid_clock u = take_bit 14 (drop_bit 48 (snd u))"

lemma time_uuid_clock: "uuid_clock (makeTimeUUID_of ts clockId nodeId) = take_bit 14 (ucast clockId)"
  unfolding uuid_clock_def makeTimeUUID_of_def snd_conv uuid_masks
  by (rule bit_word_eqI, simp only: uuid_bits) auto

lemma first_word:
  fixes w :: u64
  shows "push_bit 32 (ucast (ucast (drop_bit 32 w) :: u32)) OR
    push_bit 16 (ucast (ucast (drop_bit 16 w AND 0xffff) :: u16)) OR ucast (ucast (w AND 0xffff) :: u16) = w" (is "?l = w")
proof (rule bit_word_eqI)
  fix n
  assume "n < LENGTH(64)"
  then consider "n < 16" | "16 \<le> n" "n < 32" | "32 \<le> n" "n < 64" by fastforce
  then show "bit ?l n = bit w n"
    unfolding uuid_masks by cases (simp_all only: uuid_bits, auto)
qed

lemma second_word:
  fixes w :: u64
  shows "push_bit 48 (ucast (ucast (drop_bit 48 w AND 0xffff) :: u16)) OR
    push_bit 32 (ucast (ucast (drop_bit 32 w AND 0xffff) :: u16)) OR ucast (ucast (w AND 0xffffffff) :: u32) = w" (is "?l = w")
proof (rule bit_word_eqI)
  fix n
  assume "n < LENGTH(64)"
  then consider "n < 32" | "32 \<le> n" "n < 48" | "48 \<le> n" "n < 64" by fastforce
  then show "bit ?l n = bit w n"
    unfolding uuid_masks by cases (simp_all only: uuid_bits, auto)
qed

section \<open>Time\<close>

lemma timestamp_value:
  assumes "0 \<le> t" and "t < 2 ^ 63"
  shows "uint (toTimeUUIDTimestamp t) = t div 100 + 122192928000000000"
proof -
  have small: "t div 1000000 * 10000 + (t div 100) mod 10000 + 122192928000000000 < 2 ^ 64" using assms by auto
  have "uint (of_int t :: u64) = t" using assms by (simp add: unsigned_of_int take_bit_int_eq_self)
  then have "uint ((of_int t :: u64) div 100 mod 10000) = t div 100 mod 10000"
    by (simp only: uint_mod_distrib uint_div_distrib) simp
  then have "(of_int t :: u64) div 100 mod 10000 = of_int (t div 100 mod 10000)"
    by (metis word_of_int_uint)
  moreover define x where "x = t div 1000000 * 10000 + (t div 100) mod 10000 + 122192928000000000"
  ultimately have "toTimeUUIDTimestamp t = of_int x"
    using assms(1) by (cases "t = 0") (simp_all add: toTimeUUIDTimestamp_def EpochSinceUUID1TimestampBase_def)
  moreover have "0 \<le> x" "x < 2 ^ 64" using small assms(1) by (simp_all add: x_def)
  ultimately have "uint (toTimeUUIDTimestamp t) = x" by (simp add: unsigned_of_int take_bit_int_eq_self)
  also have "x = t div 100 + 122192928000000000"
  proof -
    have "t div 1000000 * 10000 + (t div 100) mod 10000 = t div 100"
      using div_mult_mod_eq [of "t div 100" 10000] by (simp add: zdiv_zmult2_eq [symmetric] mult.commute)
    then show ?thesis by (simp add: x_def)
  qed
  finally show ?thesis .
qed

lemma sint_small: "uint (w :: u64) < 2 ^ 63 \<Longrightarrow> sint w = uint w"
  by (simp add: sint_uint signed_take_bit_int_eq_self order.trans [of _ 0])

lemma take_bit_small: "uint (w :: u64) < 2 ^ n \<Longrightarrow> take_bit n w = w"
  by (simp add: word_uint_eq_iff unsigned_take_bit_eq take_bit_int_eq_self)

text \<open>The time of a version 1 UUID is the time it was made for, up to the 100 nanoseconds of the format, for times from
  the epoch to the year 2262, where the nanoseconds end.\<close>

lemma time_uuid_time:
  assumes "0 \<le> t" and "t < 2 ^ 63"
  shows "getTimeFromUUID (makeMinTimeUUID t) = Inr (t - t mod 100)" and "getTimeFromUUID (makeMaxTimeUUID t) = Inr (t - t mod 100)"
proof -
  let ?ts = "toTimeUUIDTimestamp t"
  have u: "uint ?ts = t div 100 + 122192928000000000" using timestamp_value [OF assms] .
  have "uint ?ts < 2 ^ 60" using assms u by simp
  then have ts: "take_bit 60 ?ts = ?ts" by (rule take_bit_small)
  have "uint (?ts - EpochSinceUUID1TimestampBase) = t div 100"
    using u assms(1) by (simp add: EpochSinceUUID1TimestampBase_def uint_sub_if')
  then have high: "uint ((?ts - EpochSinceUUID1TimestampBase) div 10000) = t div 100 div 10000"
    by (simp add: uint_div_distrib)
  have "uint (?ts mod 10000) = (t div 100) mod 10000"
  proof -
    have "uint (10000 :: u64) = 10000" by simp
    moreover have "(t div 100 + 122192928000000000) mod 10000 = (t div 100) mod 10000"
      using mod_mult_self1 [of "t div 100" 12219292800000 10000] by simp
    ultimately show ?thesis using u by (simp only: uint_mod_distrib)
  qed
  then have low: "uint (?ts mod 10000 * 100) = (t div 100) mod 10000 * 100"
    by (simp add: uint_mult_lem [THEN iffD1])
  have "t div 100 div 10000 * 1000000 + (t div 100) mod 10000 * 100 = t div 100 * 100"
    using div_mult_mod_eq [of "t div 100" 10000] by linarith
  moreover have "t div 100 * 100 = t - t mod 100" by (simp add: minus_mod_eq_div_mult)
  moreover have "t div 100 div 10000 < 2 ^ 63" "(t div 100) mod 10000 * 100 < 2 ^ 63"
    using assms pos_mod_bound [of 10000 "t div 100"] by auto
  ultimately have "fromTimeUUIDTimestamp (take_bit 60 ?ts) = t - t mod 100"
    using high low by (simp add: fromTimeUUIDTimestamp_def ts sint_small)
  then show "getTimeFromUUID (makeMinTimeUUID t) = Inr (t - t mod 100)" and "getTimeFromUUID (makeMaxTimeUUID t) = Inr (t - t mod 100)"
    by (simp_all add: getTimeFromUUID_def makeMinTimeUUID_def makeMaxTimeUUID_def time_uuid_version time_uuid_timestamp)
qed

section \<open>Sequences of time UUIDs\<close>

text \<open>The calls of \<open>makeTimeUUID\<close> on one core, each with the time and the random numbers it sees.\<close>

fun make_time_uuids :: "(int \<times> u32 \<times> u32) list \<Rightarrow> time_uuid_state \<Rightarrow> uuid list" where
  "make_time_uuids [] st = []"
| "make_time_uuids ((now, r1, r2) # calls) st =
     (case makeTimeUUID now r1 r2 st of
        (Inl _, st') \<Rightarrow> make_time_uuids calls st'
      | (Inr u, st') \<Rightarrow> u # make_time_uuids calls st')"

definition uuid_key :: "uuid \<Rightarrow> nat" where
  "uuid_key u = unat (uuid_timestamp u) * 2 ^ 15 + unat (uuid_clock u)"

definition state_key :: "time_uuid_state \<Rightarrow> nat" where
  "state_key st = unat (tu_lastTimestamp st) * 2 ^ 15 + unat (tu_clockId st)"

lemma ensure_node_fields [simp]:
  "tu_lastTimestamp (ensure_node r1 r2 st) = tu_lastTimestamp st" "tu_clockId (ensure_node r1 r2 st) = tu_clockId st"
  by (simp_all add: ensure_node_def)

lemma key_of_time_uuid:
  assumes "uint ts < 2 ^ 60" and "clockId \<le> MaxClockId"
  shows "uuid_key (makeTimeUUID_of ts clockId nodeId) = unat ts * 2 ^ 15 + unat clockId"
proof -
  have "unat clockId < 2 ^ 14" using assms(2) by (simp add: MaxClockId_def word_le_nat_alt)
  then have "unat (take_bit 14 (ucast clockId :: u64)) = unat clockId"
    by (simp add: unsigned_take_bit_eq unsigned_ucast_eq take_bit_nat_eq_self)
  then show ?thesis by (simp add: uuid_key_def time_uuid_timestamp time_uuid_clock take_bit_small [OF assms(1)])
qed

lemma make_time_uuid_step:
  assumes "makeTimeUUID now r1 r2 st = (r, st')" and "uint (toTimeUUIDTimestamp now) < 2 ^ 60"
    and "tu_lastTimestamp st \<le> toTimeUUIDTimestamp now" and "unat (tu_clockId st) \<le> 2 ^ 14"
  shows "unat (tu_clockId st') \<le> 2 ^ 14 \<and> tu_lastTimestamp st' = toTimeUUIDTimestamp now \<and>
    (case r of Inl _ \<Rightarrow> state_key st' = state_key st
     | Inr u \<Rightarrow> state_key st \<le> uuid_key u \<and> state_key st' = Suc (uuid_key u))"
proof -
  let ?ts = "toTimeUUIDTimestamp now"
  consider "?ts \<noteq> tu_lastTimestamp st" | "?ts = tu_lastTimestamp st" "tu_clockId st > MaxClockId"
    | "?ts = tu_lastTimestamp st" "tu_clockId st \<le> MaxClockId"
    by fastforce
  then show ?thesis
  proof cases
    case 1
    with assms(3) have "unat (tu_lastTimestamp st) < unat ?ts" by (simp add: word_less_nat_alt [symmetric])
    then have "state_key st \<le> unat ?ts * 2 ^ 15" using assms(4) by (simp add: state_key_def)
    with 1 assms(1,2) show ?thesis
      by (auto simp: makeTimeUUID_def Let_def key_of_time_uuid MaxClockId_def state_key_def)
  next
    case 2
    with assms(1,4) show ?thesis by (auto simp: makeTimeUUID_def Let_def state_key_def split: if_splits)
  next
    case 3
    then have "unat (tu_clockId st) < 2 ^ 14" by (simp add: MaxClockId_def word_le_nat_alt)
    then have "unat (tu_clockId st + 1) = Suc (unat (tu_clockId st))" by (simp add: unat_plus_simple [THEN iffD1] unat_word_ariths)
    with 3 assms(1,2) \<open>unat (tu_clockId st) < 2 ^ 14\<close> show ?thesis
      by (auto simp: makeTimeUUID_def Let_def key_of_time_uuid state_key_def not_less split: if_splits)
  qed
qed

lemma time_uuids_increase:
  assumes "sorted (map (\<lambda>c. uint (toTimeUUIDTimestamp (fst c))) calls)"
    and "\<forall>c \<in> set calls. uint (toTimeUUIDTimestamp (fst c)) < 2 ^ 60 \<and> tu_lastTimestamp st \<le> toTimeUUIDTimestamp (fst c)"
    and "unat (tu_clockId st) \<le> 2 ^ 14"
  shows "sorted_wrt (<) (map uuid_key (make_time_uuids calls st)) \<and> (\<forall>u \<in> set (make_time_uuids calls st). state_key st \<le> uuid_key u)"
  using assms
proof (induction calls arbitrary: st)
  case (Cons c calls)
  obtain now r1 r2 where c: "c = (now, r1, r2)" by (cases c)
  obtain r st' where r: "makeTimeUUID now r1 r2 st = (r, st')" by fastforce
  have step: "unat (tu_clockId st') \<le> 2 ^ 14 \<and> tu_lastTimestamp st' = toTimeUUIDTimestamp now \<and>
    (case r of Inl _ \<Rightarrow> state_key st' = state_key st
     | Inr u \<Rightarrow> state_key st \<le> uuid_key u \<and> state_key st' = Suc (uuid_key u))"
    by (rule make_time_uuid_step [OF r]) (use Cons.prems c in auto)
  have "\<forall>c \<in> set calls. uint (toTimeUUIDTimestamp (fst c)) < 2 ^ 60 \<and> tu_lastTimestamp st' \<le> toTimeUUIDTimestamp (fst c)"
    using Cons.prems step by (auto simp: c word_le_def)
  with Cons.IH [of st'] Cons.prems(1) step
  have "sorted_wrt (<) (map uuid_key (make_time_uuids calls st')) \<and>
      (\<forall>u \<in> set (make_time_uuids calls st'). state_key st' \<le> uuid_key u)"
    by simp
  with step show ?case by (cases r) (force simp: c r)+
qed simp

section \<open>Properties\<close>

text \<open>
  Reading the text of a UUID gives the UUID back, for all 128 bits, and the text has 36 characters.
\<close>

theorem uuid_text_roundtrip: "strToUUID (uuidToStr u) = Inr u \<and> length (uuidToStr u) = 36"
proof -
  obtain a b where u: "u = (a, b)" by (cases u)
  have hex: "loadIntFromHex (dumpIntToHex v) = Some (v :: u16)" "loadIntFromHex (dumpIntToHex w) = Some (w :: u32)" for v w
    by (rule loadIntFromHex_dumpIntToHex; simp)+
  have len: "length (dumpIntToHex (v :: u16)) = 4" "length (dumpIntToHex (w :: u32)) = 8" for v w
    by (simp_all add: length_dumpIntToHex)
  show ?thesis
    unfolding u strToUUID_def uuidToStr_def fst_conv snd_conv
    using first_word [of a] second_word [of b] by (simp add: hex len)
qed

text \<open>
  C40. Time UUIDs are unique: as long as the clock does not go back, no two calls of \<open>makeTimeUUID\<close> on
  a core return the same UUID, however many calls fall into the same 100 nanoseconds; a call for
  which no clock id is left throws instead. All of them are of version 1.
\<close>

theorem time_uuids_distinct:
  assumes "sorted (map fst calls)" and "\<forall>c \<in> set calls. 0 \<le> fst c \<and> fst c < 2 ^ 63"
  shows "distinct (make_time_uuids calls new_time_uuid_state) \<and>
    (\<forall>u \<in> set (make_time_uuids calls new_time_uuid_state). getVersionFromUUID u = TimeUUIDVersion)"
proof
  have "uint (toTimeUUIDTimestamp t) \<le> uint (toTimeUUIDTimestamp t')" if "0 \<le> t" "t \<le> t'" "t' < 2 ^ 63" for t t'
    using that zdiv_mono1 [of t t' 100] by (simp add: timestamp_value)
  then have "sorted (map (\<lambda>c. uint (toTimeUUIDTimestamp (fst c))) calls)"
    using assms by (auto simp: sorted_wrt_iff_nth_less sorted_iff_nth_mono)
  moreover have "\<forall>c \<in> set calls. uint (toTimeUUIDTimestamp (fst c)) < 2 ^ 60"
    using assms(2) by (auto simp: timestamp_value)
  ultimately have "sorted_wrt (<) (map uuid_key (make_time_uuids calls new_time_uuid_state))"
    using time_uuids_increase [of calls new_time_uuid_state] by (simp add: new_time_uuid_state_def)
  then show "distinct (make_time_uuids calls new_time_uuid_state)"
    by (simp add: strict_sorted_iff distinct_map)
  have "getVersionFromUUID u = TimeUUIDVersion" if "u \<in> set (make_time_uuids calls st)" for u st
    using that
  proof (induction calls arbitrary: st)
    case (Cons c calls)
    then show ?case
      by (cases c) (auto simp: makeTimeUUID_def Let_def time_uuid_version split: if_splits)
  qed simp
  then show "\<forall>u \<in> set (make_time_uuids calls new_time_uuid_state). getVersionFromUUID u = TimeUUIDVersion" by blast
qed

theorem time_uuids_distinct_witness:
  "distinct (make_time_uuids [(0, 1, 2), (0, 3, 4), (50, 5, 6), (100, 7, 8)] new_time_uuid_state)"
  using time_uuids_distinct [of "[(0, 1, 2), (0, 3, 4), (50, 5, 6), (100, 7, 8)]"] by simp

section \<open>Limits\<close>

text \<open>A clock that is set back gives UUIDs a second time: the clock id starts again from 0.\<close>

lemma clock_set_back_repeats:
  "\<not> distinct (make_time_uuids [(0, 1, 2), (100, 0, 0), (0, 0, 0)] new_time_uuid_state)"
  by code_simp

text \<open>The characters between the groups are not looked at.\<close>

lemma any_separator_accepted:
  "strToUUID ''00112233x4455x6677x8899xaabbccddeeff'' = strToUUID ''00112233-4455-6677-8899-aabbccddeeff''"
  by code_simp

end
