(* ===== verification/HttpServer.thy ===== *)
theory HttpServer
  imports Http11Connection
begin

text \<open>
  The server: \<open>HttpServer.cpp\<close> with the parts of \<open>Http11ServerConnection.cpp\<close> that enter a connection
  into the collection of the server and remove it, and \<open>parseListenAddress\<close> of \<open>NetworkUtils.cpp\<close>.

  Listeners and connections are objects with an identity, numbered as they are created. The accept
  loop of a listener (\<open>keep_doing\<close>) runs on its own: \<open>sv_accepting\<close> holds the listeners whose loop has
  not ended, \<open>sv_aborted\<close> those whose \<open>abort_accept\<close> was called, after which \<open>accept\<close> only fails. The
  connections run on their own as well. So the server is a step relation: calls of \<open>start\<close> and \<open>stop\<close>,
  an accepted connection, an accept that fails, a connection that does something (\<open>Run\<close>) or whose
  loops have both ended (\<open>Close\<close>), a tick of the timer, and the two continuations of \<open>stop\<close>, which
  wait for the listeners and for the connections.

  What is not under \<open>src\<close> is given from outside: whether \<open>inet_address\<close> takes a text and
  of which family it is, and whether \<open>seastar::listen\<close> succeeds.
\<close>

section \<open>Listen addresses\<close>

datatype listen_error =
    NoColon | InvalidAddress | IPv6Unsupported | InvalidPort | ListenFailed | StartWhileStopping

definition is_white_space :: "char \<Rightarrow> bool" where
  "is_white_space ch = (byte ch = 32 \<or> (9 \<le> byte ch \<and> byte ch \<le> 13))"

definition is_decimal_digit :: "char \<Rightarrow> bool" where
  "is_decimal_digit ch = (48 \<le> byte ch \<and> byte ch \<le> 57)"

definition ULLONG_MAX :: nat where
  "ULLONG_MAX = 2 ^ 64 - 1"

text \<open>\<open>strtoull\<close> to the base 10: white space, a sign, digits; the value and the number of characters read.\<close>

definition strtoull :: "string \<Rightarrow> nat \<times> nat" where
  "strtoull str =
     (let s1 = dropWhile is_white_space str;
          negative = (s1 \<noteq> [] \<and> hd s1 = CHR ''-'');
          s2 = (if s1 \<noteq> [] \<and> hd s1 \<in> {CHR ''-'', CHR ''+''} then tl s1 else s1);
          digits = takeWhile is_decimal_digit s2;
          v = foldl (\<lambda>v ch. v * 10 + (byte ch - 48)) 0 digits
      in if digits = [] then (0, 0)
         else (if v > ULLONG_MAX then ULLONG_MAX else if negative then (2 ^ 64 - v) mod 2 ^ 64 else v,
               length str - length s2 + length digits))"

text \<open>\<open>inet\<close> is \<^const>\<open>None\<close> for a text that is no address, and else says whether the family is \<open>INET\<close>.\<close>

definition parseListenAddress :: "(string \<Rightarrow> bool option) \<Rightarrow> string \<Rightarrow> listen_error + string \<times> nat" where
  "parseListenAddress inet address =
     (if CHR '':'' \<notin> set address then Inl NoColon
      else
        (let index = length (takeWhile (\<lambda>ch. ch \<noteq> CHR '':'') address);
             host = (if index > 0 then take index address else ''0.0.0.0'')
         in case inet host of
              None \<Rightarrow> Inl InvalidAddress
            | Some False \<Rightarrow> Inl IPv6Unsupported
            | Some True \<Rightarrow>
                (case strtoull (drop (index + 1) address) of
                   (port, end) \<Rightarrow>
                     if index + 1 + end \<noteq> length address \<or> port < 1 \<or> port > 0xffff then Inl InvalidPort
                     else Inr (host, port))))"

section \<open>Data\<close>

text \<open>A call of \<open>stop\<close> waits for the loops of listeners, then for connections to be closed.\<close>

datatype stop_wait = StopListeners "nat list" | StopConnections "nat list"

text \<open>
  \<open>sv_connections\<close> is the collection of \<open>HttpServerConnectionsWrapper\<close>, \<open>sv_futures\<close> is
  \<open>listenerStoppedFutures\<close>, with \<^const>\<open>None\<close> for a future that was moved from. \<open>sv_conn\<close> are the
  connection objects and \<open>sv_ended\<close> those whose loops have ended.
\<close>

record server =
  sv_connections :: "nat list"
  sv_conn :: "nat \<Rightarrow> connection"
  sv_nextConnection :: nat
  sv_ended :: "nat list"
  sv_listeners :: "nat list"
  sv_futures :: "nat option list"
  sv_nextListener :: nat
  sv_accepting :: "nat list"
  sv_aborted :: "nat list"
  sv_timerArmed :: bool
  sv_stopping :: bool
  sv_stops :: "stop_wait list"
  sv_total_connections :: u64
  sv_current_connections :: u64

definition server_new :: server where
  "server_new = \<lparr>sv_connections = [], sv_conn = (\<lambda>_. new_connection), sv_nextConnection = 0, sv_ended = [],
     sv_listeners = [], sv_futures = [], sv_nextListener = 0, sv_accepting = [], sv_aborted = [],
     sv_timerArmed = False, sv_stopping = False, sv_stops = [], sv_total_connections = 0,
     sv_current_connections = 0\<rparr>"

section \<open>Start and accept\<close>

definition abort_accept :: "nat list \<Rightarrow> server \<Rightarrow> server" where
  "abort_accept ls s = s\<lparr>sv_aborted := ls @ sv_aborted s\<rparr>"

fun open_listeners ::
  "(string \<Rightarrow> bool option) \<Rightarrow> (string \<times> nat \<Rightarrow> bool) \<Rightarrow> string list \<Rightarrow> server \<Rightarrow> listen_error option \<times> server" where
  "open_listeners inet listen [] s = (None, s)"
| "open_listeners inet listen (a # as) s =
     (case parseListenAddress inet a of
        Inl e \<Rightarrow> (Some e, s)
      | Inr address \<Rightarrow>
          if \<not> listen address then (Some ListenFailed, s)
          else open_listeners inet listen as
                 (s\<lparr>sv_listeners := sv_listeners s @ [sv_nextListener s], sv_nextListener := Suc (sv_nextListener s)\<rparr>))"

definition server_start ::
  "(string \<Rightarrow> bool option) \<Rightarrow> (string \<times> nat \<Rightarrow> bool) \<Rightarrow> string list \<Rightarrow> server \<Rightarrow> listen_error option \<times> server" where
  "server_start inet listen addresses s =
     (if sv_stopping s then (Some StartWhileStopping, s)
      else
        (case open_listeners inet listen addresses
                ((abort_accept (sv_listeners s) s)\<lparr>sv_listeners := [], sv_futures := []\<rparr>) of
           (Some e, s1) \<Rightarrow> (Some e, s1)
         | (None, s1) \<Rightarrow>
             (None, s1\<lparr>sv_timerArmed := True, sv_accepting := sv_accepting s1 @ sv_listeners s1,
                       sv_futures := map Some (sv_listeners s1)\<rparr>)))"

text \<open>The continuation of \<open>Http11ServerConnection::start\<close> after both loops.\<close>

definition connection_end :: "nat \<Rightarrow> server \<Rightarrow> server" where
  "connection_end c s =
     (let remaining = removeAll c (sv_connections s)
      in s\<lparr>sv_connections := remaining, sv_current_connections := of_nat (length remaining),
           sv_conn := (sv_conn s)(c := connection_closed (sv_conn s c)), sv_ended := c # sv_ended s\<rparr>)"

text \<open>
  An accepted connection is started and then entered into the collection. \<open>early\<close> says that its loops
  have ended before \<open>start\<close> returns.
\<close>

definition accept_connection :: "bool \<Rightarrow> server \<Rightarrow> server" where
  "accept_connection early s =
     (let c = sv_nextConnection s
      in case connection_start new_connection of
           None \<Rightarrow> s
         | Some cn \<Rightarrow>
             (let s1 = s\<lparr>sv_conn := (sv_conn s)(c := cn), sv_nextConnection := Suc c\<rparr>;
                  s2 = (if early then connection_end c s1 else s1);
                  s3 = s2\<lparr>sv_connections := sv_connections s2 @ [c], sv_total_connections := sv_total_connections s2 + 1\<rparr>
              in s3\<lparr>sv_current_connections := of_nat (length (sv_connections s3))\<rparr>))"

section \<open>The timer\<close>

text \<open>The first loop of the callback: the connections whose flag is set, and the flags afterwards.\<close>

fun mark_loop :: "nat list \<Rightarrow> (nat \<Rightarrow> connection) \<Rightarrow> nat list \<times> (nat \<Rightarrow> connection)" where
  "mark_loop [] f = ([], f)"
| "mark_loop (c # cs) f =
     (if cn_detectTimeoutFlag (f c) then (case mark_loop cs f of (reached, g) \<Rightarrow> (c # reached, g))
      else mark_loop cs (f(c := (f c)\<lparr>cn_detectTimeoutFlag := True\<rparr>)))"

definition detectTimeout :: "server \<Rightarrow> server" where
  "detectTimeout s =
     (case mark_loop (sv_connections s) (sv_conn s) of
        (reached, f) \<Rightarrow> s\<lparr>sv_conn := foldl (\<lambda>f c. f(c := onTimeout (f c))) f reached\<rparr>)"

section \<open>Stop\<close>

text \<open>\<^const>\<open>None\<close> if \<open>when_all\<close> is given a future that was moved from.\<close>

definition server_stop :: "server \<Rightarrow> server option" where
  "server_stop s =
     (if None \<in> set (sv_futures s) then None
      else Some ((abort_accept (sv_listeners s) s)\<lparr>sv_timerArmed := False,
             sv_futures := map (\<lambda>_. None) (sv_futures s),
             sv_stops := StopListeners (map the (sv_futures s)) # sv_stops s\<rparr>))"

definition stop_connections :: "nat list \<Rightarrow> server \<Rightarrow> server" where
  "stop_connections ls s =
     s\<lparr>sv_listeners := [], sv_futures := [],
       sv_conn := foldl (\<lambda>f c. f(c := connection_stop (f c))) (sv_conn s) (sv_connections s),
       sv_stops := StopConnections (sv_connections s) # remove1 (StopListeners ls) (sv_stops s)\<rparr>"

definition stop_finished :: "nat list \<Rightarrow> server \<Rightarrow> server" where
  "stop_finished cs s =
     s\<lparr>sv_connections := [], sv_current_connections := 0, sv_stops := remove1 (StopConnections cs) (sv_stops s)\<rparr>"

section \<open>Steps\<close>

datatype server_event =
    Start "string list" | Accept nat bool | AcceptFails nat | Run nat connection | Close nat | Tick
  | Stop | ListenersStopped "nat list" | ConnectionsStopped "nat list"

text \<open>
  What a connection may do to itself: it does not close itself, a connection that is closing stays so,
  and the flag of the timer is only reset.
\<close>

definition connection_runs :: "connection \<Rightarrow> connection \<Rightarrow> bool" where
  "connection_runs c c' \<longleftrightarrow> cn_state c' \<noteq> Closed \<and> (cn_state c = Closing \<longrightarrow> cn_state c' = Closing) \<and>
     (cn_detectTimeoutFlag c' \<longrightarrow> cn_detectTimeoutFlag c)"

inductive server_step ::
  "(string \<Rightarrow> bool option) \<Rightarrow> (string \<times> nat \<Rightarrow> bool) \<Rightarrow> server_event \<Rightarrow> server \<Rightarrow> server \<Rightarrow> bool"
  for inet listen where
  step_start: "server_step inet listen (Start as) s (snd (server_start inet listen as s))"
| step_accept: "l \<in> set (sv_accepting s) \<Longrightarrow> l \<notin> set (sv_aborted s) \<Longrightarrow>
    server_step inet listen (Accept l early) s (accept_connection early s)"
| step_accept_fails: "l \<in> set (sv_accepting s) \<Longrightarrow>
    server_step inet listen (AcceptFails l) s (s\<lparr>sv_accepting := removeAll l (sv_accepting s)\<rparr>)"
| step_run: "c < sv_nextConnection s \<Longrightarrow> c \<notin> set (sv_ended s) \<Longrightarrow> connection_runs (sv_conn s c) cn \<Longrightarrow>
    server_step inet listen (Run c cn) s (s\<lparr>sv_conn := (sv_conn s)(c := cn)\<rparr>)"
| step_close: "c < sv_nextConnection s \<Longrightarrow> c \<notin> set (sv_ended s) \<Longrightarrow>
    server_step inet listen (Close c) s (connection_end c s)"
| step_tick: "sv_timerArmed s \<Longrightarrow> server_step inet listen Tick s (detectTimeout s)"
| step_stop: "server_stop s = Some s' \<Longrightarrow> server_step inet listen Stop s s'"
| step_listeners: "StopListeners ls \<in> set (sv_stops s) \<Longrightarrow> set ls \<inter> set (sv_accepting s) = {} \<Longrightarrow>
    server_step inet listen (ListenersStopped ls) s (stop_connections ls s)"
| step_connections: "StopConnections cs \<in> set (sv_stops s) \<Longrightarrow> \<forall>c \<in> set cs. cn_state (sv_conn s c) = Closed \<Longrightarrow>
    server_step inet listen (ConnectionsStopped cs) s (stop_finished cs s)"

inductive_cases server_stepE: "server_step inet listen e s s'"

text \<open>
  A run of events, of a client that starts the server only when no call of \<open>stop\<close> is in progress;
  \<open>sv_stopping\<close> was meant to enforce this, but nothing sets it.
\<close>

inductive server_run ::
  "(string \<Rightarrow> bool option) \<Rightarrow> (string \<times> nat \<Rightarrow> bool) \<Rightarrow> server_event list \<Rightarrow> server \<Rightarrow> server \<Rightarrow> bool"
  for inet listen where
  run_nil: "server_run inet listen [] s s"
| run_snoc: "server_run inet listen es s s1 \<Longrightarrow> server_step inet listen e s1 s2 \<Longrightarrow>
    (case e of Start _ \<Rightarrow> sv_stops s1 = [] | _ \<Rightarrow> True) \<Longrightarrow> server_run inet listen (es @ [e]) s s2"

section \<open>The loops over connections\<close>

lemma foldl_update_all:
  "distinct cs \<Longrightarrow> foldl (\<lambda>f c. f(c := g (f c))) f cs = (\<lambda>c. if c \<in> set cs then g (f c) else f c)"
proof (induction cs arbitrary: f)
  case (Cons c cs)
  then show ?case by (auto simp: fun_eq_iff)
qed simp

lemma flag_kept [simp]: "cn_detectTimeoutFlag c \<Longrightarrow> c\<lparr>cn_detectTimeoutFlag := True\<rparr> = c"
  by simp

lemma mark_loop_all:
  "distinct cs \<Longrightarrow> mark_loop cs f =
     (filter (\<lambda>c. cn_detectTimeoutFlag (f c)) cs, \<lambda>c. if c \<in> set cs then (f c)\<lparr>cn_detectTimeoutFlag := True\<rparr> else f c)"
proof (induction cs arbitrary: f)
  case (Cons c cs)
  have "filter (\<lambda>x. cn_detectTimeoutFlag ((f(c := (f c)\<lparr>cn_detectTimeoutFlag := True\<rparr>)) x)) cs =
      filter (\<lambda>x. cn_detectTimeoutFlag (f x)) cs"
    using Cons.prems by (auto intro!: filter_cong)
  with Cons show ?case by (auto simp: fun_eq_iff)
qed simp

lemma detectTimeout_all:
  assumes "distinct (sv_connections s)"
  shows "detectTimeout s = s\<lparr>sv_conn := \<lambda>c.
    if c \<notin> set (sv_connections s) then sv_conn s c
    else if cn_detectTimeoutFlag (sv_conn s c) then onTimeout (sv_conn s c)
    else (sv_conn s c)\<lparr>cn_detectTimeoutFlag := True\<rparr>\<rparr>"
proof -
  have "distinct (filter P (sv_connections s))" for P using assms by simp
  then show ?thesis using assms
    by (auto simp: detectTimeout_def mark_loop_all foldl_update_all fun_eq_iff intro!: arg_cong [where f = "\<lambda>f. s\<lparr>sv_conn := f\<rparr>"])
qed

lemma onTimeout_state [simp]: "cn_state (onTimeout c) = Closing"
  by (simp add: onTimeout_def shutdown_def upd_metrics_def)

lemma connection_stop_state [simp]: "cn_state (connection_stop c) = Closing"
  by (simp add: connection_stop_def shutdown_def)

lemma connection_closed_state [simp]: "cn_state (connection_closed c) = Closed"
  by (simp add: connection_closed_def enter_def)

lemma connection_start_new: "connection_start new_connection = Some (enter Started new_connection)"
  by (simp add: connection_start_def new_connection_def)

lemma connection_stop_fields [simp]:
  "cn_detectTimeoutFlag (connection_stop c) = cn_detectTimeoutFlag c"
  by (simp add: connection_stop_def shutdown_def)

lemma open_listeners_frame:
  "open_listeners inet listen as s = (r, s') \<Longrightarrow>
    s' = s\<lparr>sv_listeners := sv_listeners s', sv_nextListener := sv_nextListener s'\<rparr> \<and>
    set (sv_listeners s) \<subseteq> set (sv_listeners s')"
proof (induction as arbitrary: s)
  case (Cons a as)
  show ?case
  proof (cases "parseListenAddress inet a")
    case (Inr address)
    then show ?thesis using Cons by (cases "listen address") fastforce+
  qed (use Cons.prems in auto)
qed auto

section \<open>Invariant\<close>

definition server_inv :: "server \<Rightarrow> bool" where
  "server_inv s \<longleftrightarrow>
     distinct (sv_connections s) \<and> set (sv_connections s) \<subseteq> {..<sv_nextConnection s} \<and>
     set (sv_ended s) \<subseteq> {..<sv_nextConnection s} \<and>
     {..<sv_nextConnection s} \<subseteq> set (sv_connections s) \<union> set (sv_ended s) \<and>
     (\<forall>c < sv_nextConnection s. cn_state (sv_conn s c) = Closed \<longrightarrow> c \<in> set (sv_ended s)) \<and>
     (\<forall>l \<in> set (sv_accepting s). l \<in> set (sv_aborted s) \<or> l \<in> set (sv_listeners s) \<and> Some l \<in> set (sv_futures s)) \<and>
     (sv_stops s \<noteq> [] \<longrightarrow> set (sv_accepting s) \<subseteq> set (sv_aborted s)) \<and>
     (\<forall>cs. StopConnections cs \<in> set (sv_stops s) \<longrightarrow> set (sv_connections s) \<subseteq> set cs) \<and>
     sv_current_connections s = of_nat (length (sv_connections s)) \<and>
     sv_total_connections s = of_nat (sv_nextConnection s)"

lemma server_inv_new: "server_inv server_new"
  by (simp add: server_inv_def server_new_def)

lemma server_inv_start:
  assumes inv: "server_inv s" and "sv_stops s = []"
  shows "server_inv (snd (server_start inet listen as s))"
proof (cases "sv_stopping s")
  case False
  define s0 where "s0 = (abort_accept (sv_listeners s) s)\<lparr>sv_listeners := [], sv_futures := []\<rparr>"
  obtain r s1 where s1: "open_listeners inet listen as s0 = (r, s1)" by fastforce
  have frame: "s1 = s0\<lparr>sv_listeners := sv_listeners s1, sv_nextListener := sv_nextListener s1\<rparr>"
    using open_listeners_frame [OF s1] by blast
  have s0: "server_inv (s0\<lparr>sv_listeners := a, sv_nextListener := b\<rparr>)" for a b
    using assms by (auto simp: server_inv_def s0_def abort_accept_def)
  have s0': "server_inv (s0\<lparr>sv_listeners := a, sv_nextListener := b, sv_timerArmed := True,
      sv_accepting := sv_accepting s0 @ a, sv_futures := map Some a\<rparr>)" for a b
    using assms by (auto simp: server_inv_def s0_def abort_accept_def)
  have start: "snd (server_start inet listen as s) = (if r = None
      then s1\<lparr>sv_timerArmed := True, sv_accepting := sv_accepting s1 @ sv_listeners s1, sv_futures := map Some (sv_listeners s1)\<rparr>
      else s1)"
    using False s1 by (simp add: server_start_def s0_def split: option.split)
  show ?thesis
  proof (cases r)
    case None
    have "sv_accepting s1 = sv_accepting s0" by (subst frame) simp
    with None start have "snd (server_start inet listen as s) = s0\<lparr>sv_listeners := sv_listeners s1, sv_nextListener := sv_nextListener s1,
        sv_timerArmed := True, sv_accepting := sv_accepting s0 @ sv_listeners s1, sv_futures := map Some (sv_listeners s1)\<rparr>"
      by (simp, subst frame, simp)
    then show ?thesis by (simp add: s0')
  next
    case Some
    with start have "snd (server_start inet listen as s) = s1" by simp
    then show ?thesis using s0 [of "sv_nextListener s1" "sv_listeners s1"] frame by metis
  qed
qed (use assms in \<open>simp add: server_start_def\<close>)

lemma server_inv_end:
  assumes "server_inv s" and "c < sv_nextConnection s"
  shows "server_inv (connection_end c s)"
  using assms by (auto simp: server_inv_def connection_end_def Let_def distinct_removeAll)

lemma server_inv_accept:
  assumes inv: "server_inv s" and l: "l \<in> set (sv_accepting s)" "l \<notin> set (sv_aborted s)"
  shows "server_inv (accept_connection early s)"
proof -
  have "sv_stops s = []" using inv l by (auto simp: server_inv_def)
  moreover have "sv_nextConnection s \<notin> set (sv_connections s)" using inv by (auto simp: server_inv_def)
  ultimately show ?thesis using inv
    by (auto simp: server_inv_def accept_connection_def connection_start_new connection_end_def Let_def enter_def less_Suc_eq)
qed

lemma server_inv_stop:
  assumes "server_inv s" and "server_stop s = Some s'"
  shows "server_inv s'"
proof -
  have s': "s' = (abort_accept (sv_listeners s) s)\<lparr>sv_timerArmed := False, sv_futures := map (\<lambda>_. None) (sv_futures s),
      sv_stops := StopListeners (map the (sv_futures s)) # sv_stops s\<rparr>"
    using assms(2) by (simp add: server_stop_def split: if_splits)
  show ?thesis
    using assms(1) unfolding server_inv_def s' abort_accept_def by (elim conjE, intro conjI) (simp_all, blast+)
qed

lemma server_inv_stop_connections:
  assumes "server_inv s" and "StopListeners ls \<in> set (sv_stops s)"
  shows "server_inv (stop_connections ls s)"
proof -
  have "distinct (sv_connections s)" using assms(1) by (simp add: server_inv_def)
  with assms show ?thesis
    by (auto simp: server_inv_def stop_connections_def foldl_update_all dest: notin_set_remove1)
qed

lemma server_inv_stop_finished:
  assumes "server_inv s" and "StopConnections cs \<in> set (sv_stops s)" and "\<forall>c \<in> set cs. cn_state (sv_conn s c) = Closed"
  shows "server_inv (stop_finished cs s)"
proof -
  have sub: "set (sv_connections s) \<subseteq> set (sv_ended s)"
    using assms unfolding server_inv_def by blast
  show ?thesis
    using assms(1) sub unfolding server_inv_def stop_finished_def
    by (elim conjE, intro conjI) (auto dest: notin_set_remove1)
qed

lemma server_inv_step:
  assumes "server_inv s" and "server_step inet listen e s s'" and "case e of Start _ \<Rightarrow> sv_stops s = [] | _ \<Rightarrow> True"
  shows "server_inv s'"
  using assms(2)
proof cases
  case step_tick
  then show ?thesis using assms(1) by (auto simp: detectTimeout_all server_inv_def)
next
  case step_run
  then show ?thesis using assms(1) by (auto simp: server_inv_def connection_runs_def)
next
  case step_accept_fails
  then show ?thesis using assms(1) by (auto simp: server_inv_def)
qed (use assms in \<open>simp_all add: server_inv_start server_inv_accept server_inv_end server_inv_stop
      server_inv_stop_connections server_inv_stop_finished\<close>)

lemma server_run_inv: "server_run inet listen es s s' \<Longrightarrow> server_inv s \<Longrightarrow> server_inv s'"
  by (induction rule: server_run.induct) (auto intro: server_inv_step)

section \<open>Stopping\<close>

definition winding_down :: "server \<Rightarrow> bool" where
  "winding_down s \<longleftrightarrow> set (sv_accepting s) \<subseteq> set (sv_aborted s) \<and> (sv_stops s \<noteq> [] \<or> sv_connections s = [])"

lemma winding_down_step:
  assumes "server_step inet listen e s s'" and "winding_down s" and "\<forall>as. e \<noteq> Start as"
  shows "winding_down s'"
  using assms(1)
proof cases
  case step_stop
  then show ?thesis using assms(2) by (auto simp: winding_down_def server_stop_def abort_accept_def split: if_splits)
next
  case step_tick
  then show ?thesis using assms(2) by (auto simp: winding_down_def detectTimeout_def split: prod.split)
qed (use assms in \<open>auto simp: winding_down_def connection_end_def Let_def stop_connections_def stop_finished_def\<close>)

lemma winding_down_run:
  "server_run inet listen es s s' \<Longrightarrow> \<forall>as. Start as \<notin> set es \<Longrightarrow> winding_down s \<Longrightarrow> winding_down s'"
proof (induction rule: server_run.induct)
  case (run_snoc es s s1 e s2)
  then have "winding_down s1" "\<forall>as. e \<noteq> Start as" by auto
  with run_snoc.hyps(2) show ?case by (rule winding_down_step)
qed

lemma stop_winds_down:
  assumes "server_inv s" and "server_step inet listen Stop s s'"
  shows "winding_down s'"
  using assms(2)
proof cases
  case step_stop
  then show ?thesis using assms(1)
    by (auto simp: winding_down_def server_inv_def server_stop_def abort_accept_def split: if_splits)
qed

section \<open>Timeouts\<close>

definition progresses :: "nat \<Rightarrow> server_event \<Rightarrow> bool" where
  "progresses c e \<longleftrightarrow> (\<exists>cn. e = Run c cn \<and> \<not> cn_detectTimeoutFlag cn)"

lemma onTimeout_flag [simp]: "cn_detectTimeoutFlag (onTimeout c) = cn_detectTimeoutFlag c"
  by (simp add: onTimeout_def shutdown_def upd_metrics_def)

lemma connection_closed_flag [simp]: "cn_detectTimeoutFlag (connection_closed c) = cn_detectTimeoutFlag c"
  by (simp add: connection_closed_def enter_def)

lemma started_flag: "\<not> cn_detectTimeoutFlag (enter Started new_connection)"
  by (simp add: enter_def new_connection_def)

lemma accept_conn:
  "c \<noteq> sv_nextConnection s \<Longrightarrow> sv_conn (accept_connection early s) c = sv_conn s c"
  "\<not> cn_detectTimeoutFlag (sv_conn (accept_connection early s) (sv_nextConnection s))"
  "sv_nextConnection (accept_connection early s) = Suc (sv_nextConnection s)"
  by (simp_all add: accept_connection_def connection_start_new connection_end_def Let_def started_flag)

lemma server_start_conn:
  "sv_conn (snd (server_start inet listen as s)) = sv_conn s \<and>
   sv_nextConnection (snd (server_start inet listen as s)) = sv_nextConnection s \<and>
   sv_connections (snd (server_start inet listen as s)) = sv_connections s \<and>
   sv_ended (snd (server_start inet listen as s)) = sv_ended s"
proof -
  obtain r s1 where s1: "open_listeners inet listen as
      ((abort_accept (sv_listeners s) s)\<lparr>sv_listeners := [], sv_futures := []\<rparr>) = (r, s1)"
    by fastforce
  note frame = conjunct1 [OF open_listeners_frame [OF s1]]
  have "sv_conn s1 = sv_conn s" "sv_nextConnection s1 = sv_nextConnection s"
    "sv_connections s1 = sv_connections s" "sv_ended s1 = sv_ended s"
    by (subst frame, simp add: abort_accept_def)+
  with s1 show ?thesis by (simp add: server_start_def split: option.split)
qed

lemma server_start_stops: "sv_stops (snd (server_start inet listen as s)) = sv_stops s"
proof -
  obtain r s1 where s1: "open_listeners inet listen as
      ((abort_accept (sv_listeners s) s)\<lparr>sv_listeners := [], sv_futures := []\<rparr>) = (r, s1)"
    by fastforce
  have "sv_stops s1 = sv_stops s"
    by (subst conjunct1 [OF open_listeners_frame [OF s1]], simp add: abort_accept_def)
  with s1 show ?thesis by (simp add: server_start_def split: option.split)
qed

text \<open>Between two ticks the flag of a connection that is not new tells whether it made progress.\<close>

lemma flag_step:
  assumes "server_step inet listen e s s'" and "distinct (sv_connections s)" and "e \<noteq> Tick" and "c < sv_nextConnection s"
  shows "cn_detectTimeoutFlag (sv_conn s' c) \<longleftrightarrow> cn_detectTimeoutFlag (sv_conn s c) \<and> \<not> progresses c e"
  using assms(1)
proof cases
  case step_stop
  then show ?thesis by (auto simp: server_stop_def abort_accept_def progresses_def split: if_splits)
next
  case step_run
  then show ?thesis by (auto simp: progresses_def connection_runs_def)
qed (use assms in \<open>auto simp: progresses_def connection_end_def Let_def stop_connections_def stop_finished_def
      foldl_update_all server_start_conn accept_conn\<close>)

lemma next_step: "server_step inet listen e s s' \<Longrightarrow> sv_nextConnection s \<le> sv_nextConnection s'"
  by (erule server_step.cases) (auto simp: server_start_conn accept_conn connection_end_def Let_def server_stop_def
      abort_accept_def stop_connections_def stop_finished_def detectTimeout_def split: if_splits prod.splits)

lemma next_run: "server_run inet listen es s s' \<Longrightarrow> sv_nextConnection s \<le> sv_nextConnection s'"
  by (induction rule: server_run.induct) (auto dest: next_step)

lemma flag_run:
  "server_run inet listen es s s' \<Longrightarrow> server_inv s \<Longrightarrow> Tick \<notin> set es \<Longrightarrow> c < sv_nextConnection s \<Longrightarrow>
   cn_detectTimeoutFlag (sv_conn s' c) \<longleftrightarrow> cn_detectTimeoutFlag (sv_conn s c) \<and> (\<forall>e \<in> set es. \<not> progresses c e)"
proof (induction rule: server_run.induct)
  case (run_snoc es s s1 e s2)
  have "server_inv s1" using run_snoc by (auto intro: server_run_inv)
  then have "distinct (sv_connections s1)" by (simp add: server_inv_def)
  moreover have "c < sv_nextConnection s1" using next_run [OF run_snoc.hyps(1)] run_snoc.prems by simp
  ultimately show ?case using flag_step [OF run_snoc.hyps(2)] run_snoc by auto
qed simp

lemma new_flag_run:
  "server_run inet listen es s s' \<Longrightarrow> server_inv s \<Longrightarrow> Tick \<notin> set es \<Longrightarrow> sv_nextConnection s \<le> c \<Longrightarrow> c < sv_nextConnection s' \<Longrightarrow>
   \<not> cn_detectTimeoutFlag (sv_conn s' c)"
proof (induction rule: server_run.induct)
  case (run_snoc es s s1 e s2)
  have inv: "server_inv s1" using run_snoc by (auto intro: server_run_inv)
  show ?case
  proof (cases "c < sv_nextConnection s1")
    case True
    with run_snoc inv show ?thesis using flag_step [OF run_snoc.hyps(2), of c] by (auto simp: server_inv_def)
  next
    case False
    from run_snoc.hyps(2) show ?thesis
    proof cases
      case (step_accept l early)
      then have "c = sv_nextConnection s1" using False run_snoc.prems(4) by (simp add: accept_conn)
      with step_accept show ?thesis by (simp add: accept_conn)
    qed (use False run_snoc.prems in \<open>auto simp: server_start_conn connection_end_def Let_def server_stop_def
      abort_accept_def stop_connections_def stop_finished_def detectTimeout_def split: if_splits prod.splits\<close>)
  qed
qed simp

lemma gone_step:
  assumes "server_step inet listen e s s'" and "c \<notin> set (sv_connections s)" and "c < sv_nextConnection s"
  shows "c \<notin> set (sv_connections s')"
  using assms by cases (auto simp: server_start_conn connection_end_def Let_def server_stop_def
      abort_accept_def stop_connections_def stop_finished_def detectTimeout_def accept_connection_def connection_start_new
      split: if_splits prod.splits)

lemma gone_run:
  "server_run inet listen es s s' \<Longrightarrow> c \<notin> set (sv_connections s) \<Longrightarrow> c < sv_nextConnection s \<Longrightarrow> c \<notin> set (sv_connections s')"
proof (induction rule: server_run.induct)
  case (run_snoc es s s1 e s2)
  with next_run [OF run_snoc.hyps(1)] gone_step [OF run_snoc.hyps(2), of c] show ?case by simp
qed simp

section \<open>The end of a stop\<close>

text \<open>The events \<open>stop\<close> waits for and its own continuations, and how many of them are left.\<close>

fun is_end :: "server_event \<Rightarrow> bool" where
  "is_end (AcceptFails l) = True"
| "is_end (Close c) = True"
| "is_end (ListenersStopped ls) = True"
| "is_end (ConnectionsStopped cs) = True"
| "is_end e = False"

fun waits_left :: "stop_wait \<Rightarrow> nat" where
  "waits_left (StopListeners ls) = 2"
| "waits_left (StopConnections cs) = 1"

definition ends_left :: "server \<Rightarrow> nat" where
  "ends_left s = length (sv_accepting s) + (sv_nextConnection s - card (set (sv_ended s))) + sum_list (map waits_left (sv_stops s))"

lemma sum_list_remove1: "x \<in> set xs \<Longrightarrow> sum_list (map f (remove1 x xs)) + f x = (sum_list (map f xs) :: nat)"
  by (induction xs) auto

lemma length_removeAll_mem: "x \<in> set xs \<Longrightarrow> length (removeAll x xs) < length xs"
  by (induction xs) (auto simp: le_imp_less_Suc)

lemma ended_room:
  assumes "server_inv s" and "c < sv_nextConnection s" and "c \<notin> set (sv_ended s)"
  shows "card (set (sv_ended s)) < sv_nextConnection s"
proof -
  have "set (sv_ended s) \<subset> {..<sv_nextConnection s}" using assms by (auto simp: server_inv_def)
  from psubset_card_mono [OF _ this] show ?thesis by simp
qed

lemma ends_left_step:
  assumes "server_step inet listen e s s'" and "server_inv s" and "winding_down s"
    and "\<forall>as. e \<noteq> Start as" and "e \<noteq> Stop"
  shows "(if is_end e then 1 else 0) + ends_left s' \<le> ends_left s"
  using assms(1)
proof cases
  case (step_accept_fails l)
  then show ?thesis using length_removeAll_mem [of l "sv_accepting s"] by (simp add: ends_left_def)
next
  case (step_close c)
  then show ?thesis using ended_room [OF assms(2) step_close(3,4)]
    by (simp add: ends_left_def connection_end_def Let_def)
next
  case (step_listeners ls)
  then show ?thesis using sum_list_remove1 [of "StopListeners ls" "sv_stops s" waits_left]
    by (simp add: ends_left_def stop_connections_def)
next
  case (step_connections cs)
  then show ?thesis using sum_list_remove1 [of "StopConnections cs" "sv_stops s" waits_left]
    by (simp add: ends_left_def stop_finished_def)
next
  case step_accept
  then show ?thesis using assms(3) by (auto simp: winding_down_def)
qed (use assms in \<open>simp_all add: ends_left_def detectTimeout_def split: prod.split\<close>)

lemma ends_left_run:
  "server_run inet listen es s s' \<Longrightarrow> server_inv s \<Longrightarrow> winding_down s \<Longrightarrow> \<forall>as. Start as \<notin> set es \<Longrightarrow> Stop \<notin> set es \<Longrightarrow>
   length (filter is_end es) + ends_left s' \<le> ends_left s"
proof (induction rule: server_run.induct)
  case (run_snoc es s s1 e s2)
  have "server_inv s1" using run_snoc.hyps(1) run_snoc.prems(1) by (rule server_run_inv)
  moreover have "winding_down s1" using run_snoc.hyps(1) _ run_snoc.prems(2)
    by (rule winding_down_run) (use run_snoc.prems(3) in simp)
  ultimately have "(if is_end e then 1 else 0) + ends_left s2 \<le> ends_left s1"
    by (rule ends_left_step [OF run_snoc.hyps(2)]) (use run_snoc.prems in auto)
  with run_snoc show ?case by (auto split: if_splits)
qed simp

text \<open>A connection that has ended is closed and out of the collection, if none had ended before it was entered.\<close>

definition clean_ends :: "server \<Rightarrow> bool" where
  "clean_ends s \<longleftrightarrow> (\<forall>c \<in> set (sv_ended s). c \<notin> set (sv_connections s) \<and> cn_state (sv_conn s c) = Closed) \<and>
     (\<forall>cs. StopConnections cs \<in> set (sv_stops s) \<longrightarrow> set cs \<subseteq> {..<sv_nextConnection s})"

lemma clean_ends_new: "clean_ends server_new"
  by (simp add: clean_ends_def server_new_def)

lemma clean_ends_step:
  assumes "clean_ends s" and "server_step inet listen e s s'" and "server_inv s" and "\<forall>l. e \<noteq> Accept l True"
  shows "clean_ends s'"
  using assms(2)
proof cases
  case (step_start as)
  then show ?thesis using assms(1) server_start_conn [of inet listen as s] server_start_stops [of inet listen as s]
    by (simp add: clean_ends_def)
next
  case (step_accept l early)
  then have "\<not> early" using assms(4) by (cases early) auto
  then show ?thesis using step_accept assms(1,3)
    by (fastforce simp: clean_ends_def accept_connection_def connection_start_new Let_def server_inv_def)
next
  case step_run
  then show ?thesis using assms(1) by (auto simp: clean_ends_def)
next
  case step_close
  then show ?thesis using assms(1) by (auto simp: clean_ends_def connection_end_def Let_def)
next
  case step_tick
  then show ?thesis using assms(1,3) by (auto simp: clean_ends_def detectTimeout_all server_inv_def)
next
  case step_stop
  then have "sv_ended s' = sv_ended s" "sv_connections s' = sv_connections s" "sv_conn s' = sv_conn s"
    "sv_nextConnection s' = sv_nextConnection s" "\<exists>ls. sv_stops s' = StopListeners ls # sv_stops s"
    by (auto simp: server_stop_def abort_accept_def split: if_splits)
  then show ?thesis using assms(1) by (auto simp: clean_ends_def)
next
  case step_listeners
  have "distinct (sv_connections s)" "set (sv_connections s) \<subseteq> {..<sv_nextConnection s}"
    using assms(3) by (simp_all add: server_inv_def)
  then show ?thesis using step_listeners assms(1)
    by (auto simp: clean_ends_def stop_connections_def foldl_update_all dest: notin_set_remove1)
next
  case step_connections
  then show ?thesis using assms(1) by (auto simp: clean_ends_def stop_finished_def dest: notin_set_remove1)
qed (use assms(1) in \<open>auto simp: clean_ends_def\<close>)

lemma clean_ends_run:
  "server_run inet listen es s s' \<Longrightarrow> \<forall>l. Accept l True \<notin> set es \<Longrightarrow> clean_ends s \<Longrightarrow> server_inv s \<Longrightarrow> clean_ends s'"
proof (induction rule: server_run.induct)
  case (run_snoc es s s1 e s2)
  have "server_inv s1" using run_snoc.hyps(1) run_snoc.prems(3) by (rule server_run_inv)
  with run_snoc clean_ends_step [OF _ run_snoc.hyps(2)] show ?case by auto
qed simp

lemma clean_ends_stopping:
  "server_run inet listen es s s' \<Longrightarrow> clean_ends s \<Longrightarrow> server_inv s \<Longrightarrow> winding_down s \<Longrightarrow> \<forall>as. Start as \<notin> set es \<Longrightarrow> clean_ends s'"
proof (induction rule: server_run.induct)
  case (run_snoc es s s1 e s2)
  have inv: "server_inv s1" using run_snoc.hyps(1) run_snoc.prems(2) by (rule server_run_inv)
  have down: "winding_down s1" using run_snoc.hyps(1) _ run_snoc.prems(3)
    by (rule winding_down_run) (use run_snoc.prems(4) in simp)
  have "e \<noteq> Accept l True" for l using run_snoc.hyps(2) down by (auto simp: winding_down_def elim: server_stepE)
  then show ?case using run_snoc.IH run_snoc.prems inv by (auto intro: clean_ends_step [OF _ run_snoc.hyps(2)])
qed simp

lemma end_enabled:
  assumes "server_inv s" and "clean_ends s" and "sv_stops s \<noteq> []"
  shows "\<exists>e s'. is_end e \<and> server_step inet listen e s s'"
proof (cases "hd (sv_stops s)")
  case (StopListeners ls)
  then have mem: "StopListeners ls \<in> set (sv_stops s)" using assms(3) by (metis hd_in_set)
  show ?thesis
  proof (cases "set ls \<inter> set (sv_accepting s) = {}")
    case True
    from step_listeners [OF mem True] show ?thesis by (metis is_end.simps(3))
  next
    case False
    then obtain l where "l \<in> set (sv_accepting s)" by blast
    from step_accept_fails [OF this] show ?thesis by (metis is_end.simps(1))
  qed
next
  case (StopConnections cs)
  then have mem: "StopConnections cs \<in> set (sv_stops s)" using assms(3) by (metis hd_in_set)
  show ?thesis
  proof (cases "set cs \<subseteq> set (sv_ended s)")
    case True
    then have "\<forall>c \<in> set cs. cn_state (sv_conn s c) = Closed" using assms(2) by (auto simp: clean_ends_def)
    from step_connections [OF mem this] show ?thesis by (metis is_end.simps(4))
  next
    case False
    then obtain c where c: "c \<in> set cs" "c \<notin> set (sv_ended s)" by blast
    then have "c < sv_nextConnection s" using assms(2) mem by (auto simp: clean_ends_def)
    from step_close [OF this c(2)] show ?thesis by (metis is_end.simps(2))
  qed
qed

section \<open>A server with one connection\<close>

abbreviation (input) every_address :: "string \<Rightarrow> bool option" where
  "every_address \<equiv> (\<lambda>_. Some True)"

abbreviation (input) every_port :: "string \<times> nat \<Rightarrow> bool" where
  "every_port \<equiv> (\<lambda>_. True)"

definition sample_started :: server where
  "sample_started = snd (server_start every_address every_port ['':80''] server_new)"

definition sample_server :: server where
  "sample_server = accept_connection False sample_started"

lemma sample_address: "parseListenAddress every_address '':80'' = Inr (''0.0.0.0'', 80)"
  by code_simp

lemma sample_started_eq:
  "sample_started = server_new\<lparr>sv_listeners := [0], sv_nextListener := 1, sv_timerArmed := True, sv_accepting := [0],
     sv_futures := [Some 0]\<rparr>"
  by (simp add: sample_started_def server_start_def sample_address abort_accept_def server_new_def)

lemma sample_server_eq:
  "sample_server = sample_started\<lparr>sv_connections := [0], sv_conn := (\<lambda>_. new_connection)(0 := enter Started new_connection),
     sv_nextConnection := 1, sv_total_connections := 1, sv_current_connections := 1\<rparr>"
  by (simp add: sample_server_def accept_connection_def connection_start_new sample_started_eq server_new_def)

lemma sample_server_run: "server_run every_address every_port [Start ['':80''], Accept 0 False] server_new sample_server"
proof -
  have "server_run every_address every_port ([] @ [Start ['':80'']]) server_new sample_started"
    unfolding sample_started_def by (rule run_snoc [OF run_nil step_start]) (simp add: server_new_def)
  then have "server_run every_address every_port (([] @ [Start ['':80'']]) @ [Accept 0 False]) server_new sample_server"
    unfolding sample_server_def by (rule run_snoc) (auto simp: sample_started_eq server_new_def intro: step_accept)
  then show ?thesis by simp
qed

definition sample_stopping :: server where
  "sample_stopping = sample_server\<lparr>sv_aborted := [0], sv_timerArmed := False, sv_futures := [None], sv_stops := [StopListeners [0]]\<rparr>"

lemma sample_server_stops: "server_step every_address every_port Stop sample_server sample_stopping"
  by (rule step_stop) (simp add: server_stop_def sample_stopping_def sample_server_eq sample_started_eq server_new_def abort_accept_def)

section \<open>Properties\<close>

text \<open>
  C20. The timer closes idle connections and no others: of the connections in the collection at a
  tick, exactly those are given \<open>onTimeout\<close> that were there at the tick before and made no progress
  since. A connection that made progress, or was accepted in between, is only marked.
\<close>

theorem idle_connections_time_out:
  assumes "server_run inet listen es0 server_new s0" and "server_step inet listen Tick s0 s1"
    and "server_run inet listen es s1 s2" and "Tick \<notin> set es" and "server_step inet listen Tick s2 s3"
    and "c \<in> set (sv_connections s2)"
  shows "sv_conn s3 c =
    (if c \<in> set (sv_connections s0) \<and> \<not> (\<exists>cn. Run c cn \<in> set es \<and> \<not> cn_detectTimeoutFlag cn)
     then onTimeout (sv_conn s2 c) else (sv_conn s2 c)\<lparr>cn_detectTimeoutFlag := True\<rparr>)"
proof -
  have inv0: "server_inv s0" using assms(1) server_inv_new by (rule server_run_inv)
  have inv1: "server_inv s1" using inv0 assms(2) by (rule server_inv_step) simp
  have inv2: "server_inv s2" using assms(3) inv1 by (rule server_run_inv)
  from assms(2) have s1: "s1 = detectTimeout s0" by cases simp
  have d0: "distinct (sv_connections s0)" using inv0 by (simp add: server_inv_def)
  have known: "cn_detectTimeoutFlag (sv_conn s2 c) \<longleftrightarrow> (\<forall>e \<in> set es. \<not> progresses c e)" if "c \<in> set (sv_connections s0)"
  proof -
    have "c < sv_nextConnection s1" "cn_detectTimeoutFlag (sv_conn s1 c)"
      using that inv0 d0 by (auto simp: s1 detectTimeout_all server_inv_def)
    with flag_run [OF assms(3) inv1 assms(4)] show ?thesis by blast
  qed
  have new: "\<not> cn_detectTimeoutFlag (sv_conn s2 c)" if "c \<notin> set (sv_connections s0)"
  proof -
    have "\<not> c < sv_nextConnection s1"
      using gone_run [OF assms(3), of c] assms(6) that d0 by (auto simp: s1 detectTimeout_all)
    moreover have "c < sv_nextConnection s2" using inv2 assms(6) by (auto simp: server_inv_def)
    ultimately show ?thesis using new_flag_run [OF assms(3) inv1 assms(4), of c] by simp
  qed
  have "(\<exists>cn. Run c cn \<in> set es \<and> \<not> cn_detectTimeoutFlag cn) \<longleftrightarrow> (\<exists>e \<in> set es. progresses c e)"
    by (auto simp: progresses_def)
  moreover have "s3 = detectTimeout s2" using assms(5) by cases simp
  moreover have "distinct (sv_connections s2)" using inv2 by (simp add: server_inv_def)
  ultimately show ?thesis using known new assms(6) by (auto simp: detectTimeout_all)
qed

theorem idle_connections_time_out_witness:
  "sv_conn (detectTimeout (detectTimeout sample_server)) 0 = onTimeout (sv_conn (detectTimeout sample_server) 0)"
proof -
  have ticks: "server_step every_address every_port Tick sample_server (detectTimeout sample_server)"
    "server_step every_address every_port Tick (detectTimeout sample_server) (detectTimeout (detectTimeout sample_server))"
    by (rule step_tick; simp add: sample_server_eq sample_started_eq detectTimeout_def split: prod.split)+
  have "0 \<in> set (sv_connections (detectTimeout sample_server))" "0 \<in> set (sv_connections sample_server)"
    by (simp_all add: sample_server_eq detectTimeout_def split: prod.split)
  with idle_connections_time_out [OF sample_server_run ticks(1) run_nil _ ticks(2), of 0] show ?thesis by simp
qed

text \<open>
  C21. When \<open>stop\<close> has returned, and the server was not started in between, nothing is left: the
  collection is empty and its counter 0, the loops of every connection ever accepted have ended,
  and no listener accepts a connection again.
\<close>

theorem stop_leaves_nothing:
  assumes "server_run inet listen es0 server_new s0" and "server_step inet listen Stop s0 s1"
    and "server_run inet listen es s1 s2" and "\<forall>as. Start as \<notin> set es" and "sv_stops s2 = []"
  shows "sv_connections s2 = [] \<and> sv_current_connections s2 = 0 \<and> set (sv_ended s2) = {..<sv_nextConnection s2} \<and>
    \<not> (\<exists>l early s3. server_step inet listen (Accept l early) s2 s3)"
proof -
  have inv0: "server_inv s0" using assms(1) server_inv_new by (rule server_run_inv)
  have inv1: "server_inv s1" using inv0 assms(2) by (rule server_inv_step) simp
  have inv2: "server_inv s2" using assms(3) inv1 by (rule server_run_inv)
  have down: "winding_down s2"
    using assms(3,4) stop_winds_down [OF inv0 assms(2)] by (rule winding_down_run)
  then have "sv_connections s2 = []" "set (sv_accepting s2) \<subseteq> set (sv_aborted s2)"
    using assms(5) by (simp_all add: winding_down_def)
  with inv2 show ?thesis by (auto simp: server_inv_def elim!: server_stepE)
qed

theorem stop_leaves_nothing_witness:
  "\<exists>es s. server_run every_address every_port es sample_stopping s \<and> sv_connections s = [] \<and> set (sv_ended s) = {..<1} \<and>
     \<not> (\<exists>l early s3. server_step every_address every_port (Accept l early) s s3)"
proof -
  let ?s1 = "sample_stopping\<lparr>sv_accepting := removeAll 0 (sv_accepting sample_stopping)\<rparr>"
  let ?s2 = "stop_connections [0] ?s1"
  let ?s3 = "connection_end 0 ?s2"
  let ?s4 = "stop_finished [0] ?s3"
  let ?es = "[AcceptFails 0, ListenersStopped [0], Close 0, ConnectionsStopped [0]]"
  note eqs = sample_stopping_def sample_server_eq sample_started_eq server_new_def
  have "server_step every_address every_port (AcceptFails 0) sample_stopping ?s1"
    by (rule step_accept_fails) (simp add: eqs)
  moreover have "server_step every_address every_port (ListenersStopped [0]) ?s1 ?s2"
    by (rule step_listeners) (simp_all add: eqs)
  moreover have "server_step every_address every_port (Close 0) ?s2 ?s3"
    by (rule step_close) (simp_all add: eqs stop_connections_def)
  moreover have "server_step every_address every_port (ConnectionsStopped [0]) ?s3 ?s4"
    by (rule step_connections) (simp_all add: eqs stop_connections_def connection_end_def)
  ultimately have "server_run every_address every_port (((([] @ [AcceptFails 0]) @ [ListenersStopped [0]]) @ [Close 0]) @
      [ConnectionsStopped [0]]) sample_stopping ?s4"
    by (blast intro: run_nil run_snoc [where e = "AcceptFails 0", simplified] run_snoc [where e = "ListenersStopped [0]", simplified]
        run_snoc [where e = "Close 0", simplified] run_snoc [where e = "ConnectionsStopped [0]", simplified])
  then have run: "server_run every_address every_port ?es sample_stopping ?s4" by simp
  have "sv_stops ?s4 = []" "sv_nextConnection ?s4 = 1"
    by (simp_all add: eqs stop_connections_def connection_end_def stop_finished_def)
  with stop_leaves_nothing [OF sample_server_run sample_server_stops run] run show ?thesis by auto
qed

text \<open>
  C22. A call of \<open>stop\<close> is never stuck, unless a connection had ended before it was entered into the collection
  (\<open>early_end_stays\<close>). Whatever the server and its connections do after the call, as long as the server is neither
  started nor stopped again: while the call is not finished, one of the ends it waits for is possible, that of
  an accept loop, of a connection, or a continuation of \<open>stop\<close> itself; and every such end brings it nearer to its
  return, which it has reached after at most \<open>ends_left\<close> of them, the number of accept loops and connections
  that run when \<open>stop\<close> is called and of the continuations.
\<close>

theorem stop_completes:
  assumes "server_run inet listen es0 server_new s0" and "\<forall>l. Accept l True \<notin> set es0"
    and "server_step inet listen Stop s0 s1"
    and "server_run inet listen es s1 s2" and "\<forall>as. Start as \<notin> set es" and "Stop \<notin> set es"
  shows "(sv_stops s2 \<noteq> [] \<longrightarrow> (\<exists>e s3. is_end e \<and> server_step inet listen e s2 s3)) \<and>
    length (filter is_end es) + ends_left s2 \<le> ends_left s1"
proof
  have inv0: "server_inv s0" using assms(1) server_inv_new by (rule server_run_inv)
  have inv1: "server_inv s1" using inv0 assms(3) by (rule server_inv_step) simp
  have inv2: "server_inv s2" using assms(4) inv1 by (rule server_run_inv)
  have down: "winding_down s1" using inv0 assms(3) by (rule stop_winds_down)
  have "clean_ends s0" using assms(1,2) clean_ends_new server_inv_new by (rule clean_ends_run)
  then have "clean_ends s1" using assms(3) inv0 by (rule clean_ends_step) simp
  with assms(4) have "clean_ends s2" using inv1 down assms(5) by (rule clean_ends_stopping)
  with inv2 show "sv_stops s2 \<noteq> [] \<longrightarrow> (\<exists>e s3. is_end e \<and> server_step inet listen e s2 s3)"
    by (blast intro: end_enabled)
  show "length (filter is_end es) + ends_left s2 \<le> ends_left s1"
    using assms(4) inv1 down assms(5,6) by (rule ends_left_run)
qed

theorem stop_completes_witness:
  "\<exists>e s3. is_end e \<and> server_step every_address every_port e sample_stopping s3"
proof -
  have "\<forall>l. Accept l True \<notin> set [Start ['':80''], Accept 0 False]" by simp
  from stop_completes [OF sample_server_run this sample_server_stops run_nil] show ?thesis
    by (simp add: sample_stopping_def)
qed

section \<open>Behaviour that a client may not expect\<close>

text \<open>
  Nothing sets \<open>stopping\<close>, so \<open>start\<close> is not refused while \<open>stop\<close> waits for the listeners. The
  continuation of \<open>stop\<close> then forgets the new listener without aborting it: it goes on accepting, and no
  later \<open>stop\<close> reaches it.
\<close>

lemma start_during_stop:
  "let s1 = snd (server_start every_address every_port ['':80''] sample_stopping);
       s2 = stop_connections [0] (s1\<lparr>sv_accepting := removeAll 0 (sv_accepting s1)\<rparr>)
   in fst (server_start every_address every_port ['':80''] sample_stopping) = None \<and> sv_listeners s2 = [] \<and>
      1 \<in> set (sv_accepting s2) \<and> 1 \<notin> set (sv_aborted s2) \<and>
      (\<exists>s3. server_stop s2 = Some s3 \<and> 1 \<notin> set (sv_aborted s3))"
  by (simp add: sample_stopping_def sample_server_eq sample_started_eq server_new_def server_start_def sample_address
      abort_accept_def stop_connections_def server_stop_def)

text \<open>
  A connection is started before it is entered into the collection. If its loops have ended by then, its
  removal comes first and it stays in the collection; \<open>stop\<close> then waits for it without end, since
  \<open>shutdown\<close> sets its state back to \<open>Closing\<close>.
\<close>

lemma early_end_stays:
  "let s = accept_connection True sample_started
   in 0 \<in> set (sv_connections s) \<and> 0 \<in> set (sv_ended s) \<and> cn_state (sv_conn (stop_connections [0] s) 0) = Closing"
  by (simp add: accept_connection_def connection_start_new connection_end_def sample_started_eq server_new_def stop_connections_def)

end
