(* ===== verification/Spec2Isabelle.thy ===== *)
theory Spec2Isabelle
  imports HttpUtils Http11ParserSafety HttpForm LRUCache RoutingHandler HttpHandlers StaticFile JsonDeserializer Application
    Http11ParserUrl Streams UUID HttpServer
begin

text \<open>
  A verification development for cpv-framework, a web framework in C++ on seastar.

  \<^bold>\<open>The program.\<close> An \<open>Application\<close> owns one dependency injection container and one instance of every
  module per CPU core and takes them through the states of its life cycle. A module registers services
  in the container; the HTTP server takes its handlers from there, listens, and makes one
  \<open>Http11ServerConnection\<close> per accepted socket. A connection runs two loops: the receive loop feeds what
  the socket delivers to an event driven parser and pushes requests and pieces of bodies into queues; the
  reply loop takes a request from the queue, runs the chain of handlers (the handler for errors, handlers of
  the client, routing, static files, not found) and writes the response. Requests and responses hold
  headers, a URI, cookies and forms that are parsed lazily. Text encodings, URIs, UUIDs, a string
  builder, packets, streams, an LRU cache, a JSON writer and an in place JSON parser are the utilities
  below this.

  \<^bold>\<open>Theories and sources\<close> (paths under \<open>src/\<close>; \<open>include\<close> is \<open>include/CPVFramework\<close>).

  \<^item> \<open>Prelude\<close>, \<open>KeyMap\<close>: bytes, words, shared lemmas; the interface \<open>key_map\<close> of the maps of the standard
    library and its implementations.
  \<^item> \<open>StringUtils\<close> (\<open>include/Utility/StringUtils.hpp\<close>, \<open>src/Utility/StringUtils.cpp\<close>, \<open>FileUtils.cpp\<close>);
    \<open>EncodeMappings\<close>, \<open>HtmlEntities\<close>, \<open>MimeMapping\<close>, \<open>HttpUtils\<close> (\<open>src/Utility/HttpUtils*\<close>,
    \<open>src/Serialize/JsonSerializer.cpp\<close>): encoding and decoding with the tables of the source.
  \<^item> \<open>Uri\<close>, \<open>HttpForm\<close>, \<open>HttpHeaders\<close>, \<open>HttpMessage\<close> (\<open>src/Utility/Uri.cpp\<close>, \<open>src/Http\<close>): URIs, forms and cookies,
    the two header collections, requests and responses.
  \<^item> \<open>LRUCache\<close> (\<open>include/Utility/LRUCache.hpp\<close>): the linked list with the identity of its nodes.
  \<^item> \<open>Http11ParserTypes\<close>, \<open>Http11Parser\<close>, \<open>Http11ParserSafety\<close>, \<open>Http11ParserProtocol\<close>, \<open>Http11ParserUrl\<close>
    (\<open>src/HttpServer/Connections/Http11Parser.cpp\<close>, \<open>.hpp\<close>): the parser, one definition per case of its switch;
    its safety; the order of its callbacks as the locale \<open>request_protocol\<close>; the URL splitter.
  \<^item> \<open>Http11Connection\<close>, \<open>Http11Receive\<close>, \<open>Http11Reply\<close>, \<open>Http11Serve\<close>
    (\<open>src/HttpServer/Connections/Http11ServerConnection*\<close>): the connection cut where its coroutines wait, the
    runs of the receive loop, the reply loop with both streams, and the two loops together.
  \<^item> \<open>HttpServer\<close> (\<open>src/HttpServer/HttpServer.cpp\<close>, \<open>src/Utility/NetworkUtils.cpp\<close>): start, accept, the timer,
    stop, as a step relation.
  \<^item> \<open>HttpHandlers\<close>, \<open>RoutingHandler\<close>, \<open>StaticFile\<close> (\<open>src/HttpServer/Handlers\<close>).
  \<^item> \<open>SajsonText\<close>, \<open>SajsonAllocators\<close>, \<open>SajsonParser\<close>, \<open>SajsonSpec\<close>, \<open>SajsonInstall\<close>, \<open>SajsonCorrect\<close>,
    \<open>SajsonMemory\<close>, \<open>SajsonValue\<close>, \<open>Sajson\<close> (\<open>src/Serialize/JsonDeserializer.sajson.cpp\<close>,
    \<open>include/Serialize/JsonDeserializer.sajson.hpp\<close>): the parser as a state machine over an allocation policy,
    which is an interface with three implementations; the reference parser; the accessors of values.
  \<^item> \<open>StringBuilder\<close>, \<open>Streams\<close> (\<open>SharedStringBuilder\<close>, \<open>Packet\<close>, \<open>src/Stream\<close>).
  \<^item> \<open>JsonText\<close>, \<open>JsonSerializer\<close>, \<open>JsonDeserializer\<close> (\<open>include/Serialize\<close>,
    \<open>src/HttpServer/HttpServerConfiguration.cpp\<close>).
  \<^item> \<open>Container\<close> (\<open>include/Container\<close>, \<open>src/Container\<close>), \<open>Application\<close> (\<open>src/Application/Application.cpp\<close>),
    \<open>UUID\<close> (\<open>src/Utility/UUIDUtils.cpp\<close>).

  \<^bold>\<open>How code becomes definitions.\<close> A class is a record of its members, an operation a function from the
  record to the record and the result; exceptions, failed assertions and accesses out of range are values of
  an error type, so that a theorem can say that they do not happen. Integers that may overflow are words of
  their width. Objects that several owners refer to (nodes of the cache, service descriptors, listeners,
  connections) have identities. Asynchronous code is cut where it waits: each piece is a function, and an
  inductive relation says which pieces may run next, so a run is any interleaving. Code of the client
  (handlers, modules, factories) and of seastar (sockets, clocks, memory, the file system) is an argument.

  \<^bold>\<open>What is shown.\<close>

  \<^item> Parser: no call of \<open>http_parser_execute\<close> fails an assertion, reads outside the buffer or loops; the fields
    of a split URL lie inside it.
  \<^item> Connection: handlers read exactly the bodies of their own requests, whatever the interleaving; one head and
    then exactly what the handler wrote is sent; a connection is kept only if the response is framed as its
    head says, if the handler leaves the response alone once it writes; the receive loop never faults, and the
    data it takes before the body of a request stays within the limits of the configuration; handlers that fail.
  \<^item> Server: idle connections and no others time out; \<open>stop\<close> is never stuck, unless a connection ended before it was
    entered into the collection, ends after a number of ends fixed when it is called, and then nothing is left.
  \<^item> Handlers: routing returns only handlers registered for a matching pattern, and its fast path agrees with
    the slow one on plain URLs; the static file handler stays below its directory, leaves every other path to
    the next handler, serves exactly the file and the bytes asked for, and its cache is transparent.
  \<^item> Messages and text: headers implement a map; lazy parsing is transparent as long as a text is not replaced by
    another one at its address; encoders, URIs, forms, streams, JSON and configurations survive a round trip,
    each theorem with the inputs for which the code does so.
  \<^item> JSON parser: every allocation policy gives what the reference parser gives, the value of the text or its
    first error; it ends on every text; lookup by binary search finds the members of an object.
  \<^item> Container and application: casts are right, resolution ends, instances have the lifetime they were
    registered with; the life cycle is followed whatever fails, and services come in the order of the modules.

  Behaviour that differs from what the code or its comments intend is stated in lemmas of its own, at the end
  of the theory concerned.

  \<^bold>\<open>Bounds and fuel.\<close> Loops over a buffer are recursions on what is left of it. The reference parser takes as fuel
  twice the length of the text plus one, which \<open>rd_document_total\<close> shows to be enough; JSON texts are shorter than
  \<open>2^61 - 1\<close> bytes, since the source multiplies the length by the size of a word. \<open>getInstance\<close> of the container
  takes fuel because a circular dependency recurses forever in the source too; any fuel above the ranks of the
  descriptors is enough where there is none. \<open>readAll\<close> is a partial function and is proved to return on the
  streams of the framework. The URL splitter is safe on buffers below 64 KiB, the range of its offsets; what
  happens beyond is stated there.

  \<^bold>\<open>Not modelled.\<close> Logging, metrics registration and test support (output); \<open>SharedString\<close>, the stack allocator,
  the pool of reusable objects and the socket holder (ownership of memory and sockets: strings are values
  here); formatting of dates (a parameter); the shared data of the server and the three modules of the framework
  (glue that calls the modelled container, server and handlers); the context, function handlers and form
  serializers (templates that forward to the client); conversion of doubles to text and back (a parameter);
  the texts of error and status codes of the parser; pausing the parser, which the connection does not do; a file
  that changes while one request for it is served; an accept that was already resolved when \<open>stop\<close> aborts the
  listener. The examples, the
  benchmarks and the tests are outside.
\<close>

end
